(* ===== verification/Prelude.thy ===== *)
theory Prelude
  imports Complex_Main "HOL-Library.Multiset" "HOL-Library.List_Lexorder"
    "HOL-Library.Product_Lexorder"
begin

text \<open>
  Shared vocabulary of the development: Python strings and their literals, truthiness of
  optional strings, dictionaries built by comprehension, results of code that may raise,
  stable sorting as \<open>sorted(..., key=...)\<close> does it, and the generic facts about
  them that the component theories use.
\<close>

named_theorems result_simps "equations for results of code that may raise"
named_theorems branch_defs "definitions that a branch-by-branch proof unfolds"
named_theorems eval_simps "definitions the simplifier unfolds to compute on concrete inputs"

section \<open>Strings\<close>

text \<open>
  A Python \<open>str\<close> is a sequence of Unicode code points, compared lexicographically by
  code point: a list of naturals with the order of the library's lexicographic lists.
  \<open>py ''abc''\<close> is the literal of an ASCII string.
\<close>

type_synonym codepoint = nat
type_synonym pystr = "codepoint list"

definition py :: "string \<Rightarrow> pystr" where
  "py s = map of_char s"

lemma py_inject [simp]: "py s = py t \<longleftrightarrow> s = t"
proof -
  have "inj (of_char :: char \<Rightarrow> nat)"
    by (rule injI) simp
  then show ?thesis
    by (simp add: py_def inj_map_eq_map)
qed

lemma py_Nil [simp]: "py [] = []"
  by (simp add: py_def)

lemma py_eq_Nil_iff [simp]: "py s = [] \<longleftrightarrow> s = []" "[] = py s \<longleftrightarrow> s = []"
  by (simp_all add: py_def)

lemma py_append: "py (s @ t) = py s @ py t"
  by (simp add: py_def)

text \<open>\<open>s\<close> of type \<open>str | None\<close> in a condition: neither \<open>None\<close> nor empty.\<close>

definition truthy :: "pystr option \<Rightarrow> bool" where
  "truthy s = (case s of None \<Rightarrow> False | Some t \<Rightarrow> t \<noteq> [])"

lemma truthy_simps [simp]: "\<not> truthy None" "truthy (Some t) \<longleftrightarrow> t \<noteq> []"
  by (simp_all add: truthy_def)

lemma truthyE [elim]:
  assumes "truthy s"
  obtains t where "s = Some t" "t \<noteq> []"
  using assms by (cases s) auto

text \<open>\<open>sep.join(parts)\<close>.\<close>

fun join :: "'a list \<Rightarrow> 'a list list \<Rightarrow> 'a list" where
  "join sep [] = []"
| "join sep [x] = x"
| "join sep (x # y # ys) = x @ sep @ join sep (y # ys)"

text \<open>\<open>s.partition(sep)\<close> for a one-character separator: what precedes the first
  occurrence, whether there is one, and what follows it.\<close>

fun partition_at :: "'a \<Rightarrow> 'a list \<Rightarrow> 'a list \<times> bool \<times> 'a list" where
  "partition_at c [] = ([], False, [])"
| "partition_at c (x # xs) =
     (if x = c then ([], True, xs)
      else (case partition_at c xs of (a, f, b) \<Rightarrow> (x # a, f, b)))"

lemma partition_at_split:
  "partition_at c xs = (a, f, b) \<Longrightarrow> xs = a @ (if f then c # b else []) \<and> c \<notin> set a \<and> (\<not> f \<longrightarrow> b = [])"
  by (induction xs arbitrary: a f b) (auto split: if_splits prod.splits)

section \<open>Results of code that may raise\<close>

text \<open>
  \<open>Inl e\<close> is an exception that propagates, \<open>Inr v\<close> a normal return.
  \<open>collect\<close> is a loop that appends one computed element per iteration: the first
  exception ends it.
\<close>

fun collect :: "('e + 'a) list \<Rightarrow> 'e + 'a list" where
  "collect [] = Inr []"
| "collect (Inl e # rs) = Inl e"
| "collect (Inr x # rs) = (case collect rs of Inl e \<Rightarrow> Inl e | Inr xs \<Rightarrow> Inr (x # xs))"

definition andThen :: "'e + 'a \<Rightarrow> ('a \<Rightarrow> 'e + 'b) \<Rightarrow> 'e + 'b" where
  "andThen r k = (case r of Inl e \<Rightarrow> Inl e | Inr x \<Rightarrow> k x)"

lemma andThen_simps [simp, result_simps]:
  "andThen (Inl e) k = Inl e" "andThen (Inr x) k = k x"
  by (simp_all add: andThen_def)

lemma andThen_Inr_iff:
  "andThen r k = Inr y \<longleftrightarrow> (\<exists>x. r = Inr x \<and> k x = Inr y)"
  by (cases r) auto

lemma andThenE [elim!]:
  assumes "andThen r k = Inr y"
  obtains x where "r = Inr x" "k x = Inr y"
  using assms by (cases r) auto

lemma collect_map_Inr [simp, result_simps]: "collect (map Inr xs) = Inr xs"
  by (induction xs) auto

lemma collect_map_Inr_comp [simp, result_simps]: "collect (map (\<lambda>x. Inr (f x)) xs) = Inr (map f xs)"
  by (induction xs) auto

lemma collect_Inr_iff: "collect rs = Inr xs \<longleftrightarrow> rs = map Inr xs"
proof
  show "collect rs = Inr xs \<Longrightarrow> rs = map Inr xs"
    by (induction rs arbitrary: xs rule: collect.induct) (auto split: sum.splits)
qed simp

lemma collect_append:
  "collect (rs @ ss) = andThen (collect rs) (\<lambda>xs. andThen (collect ss) (\<lambda>ys. Inr (xs @ ys)))"
proof (induction rs)
  case Nil
  then show ?case by (cases "collect ss") auto
next
  case (Cons r rs)
  then show ?case
    by (cases r; cases "collect rs"; cases "collect ss") auto
qed

lemma collect_total:
  assumes "\<And>r. r \<in> set rs \<Longrightarrow> \<exists>x. r = Inr x"
  shows "\<exists>xs. collect rs = Inr xs"
  using assms
proof (induction rs)
  case Nil
  then show ?case by simp
next
  case (Cons r rs)
  then obtain x xs where "r = Inr x" "collect rs = Inr xs"
    by (metis list.set_intros(1) list.set_intros(2))
  then show ?case by simp
qed

section \<open>Dictionaries and sorted sets\<close>

text \<open>\<open>{f(x): x for x in xs}\<close>: the last element with a key wins.\<close>

definition dict_of :: "('a \<Rightarrow> 'k) \<Rightarrow> 'a list \<Rightarrow> 'k \<Rightarrow> 'a option" where
  "dict_of f xs = map_of (rev (map (\<lambda>x. (f x, x)) xs))"

lemma dict_of_Some_iff_last:
  "dict_of f xs k = Some x \<Longrightarrow> x \<in> set xs \<and> f x = k"
  unfolding dict_of_def by (drule map_of_SomeD) auto

lemma dict_of_None_iff: "dict_of f xs k = None \<longleftrightarrow> k \<notin> f ` set xs"
  unfolding dict_of_def by (force simp: map_of_eq_None_iff)

text \<open>\<open>d[k] = v\<close> and \<open>d.get(k)\<close> on a dictionary that keeps insertion order.\<close>

fun dict_set :: "'k \<Rightarrow> 'v \<Rightarrow> ('k \<times> 'v) list \<Rightarrow> ('k \<times> 'v) list" where
  "dict_set k v [] = [(k, v)]"
| "dict_set k v ((k', v') # d) = (if k = k' then (k, v) # d else (k', v') # dict_set k v d)"

lemma map_of_dict_set [simp]: "map_of (dict_set k v d) = (map_of d)(k \<mapsto> v)"
  by (induction d) (auto simp: fun_eq_iff)

lemma fst_set_dict_set [simp]: "fst ` set (dict_set k v d) = insert k (fst ` set d)"
  by (induction k v d rule: dict_set.induct) (simp_all add: insert_commute)

lemma distinct_dict_set [simp]: "distinct (map fst d) \<Longrightarrow> distinct (map fst (dict_set k v d))"
  by (induction k v d rule: dict_set.induct) simp_all

text \<open>\<open>d.setdefault(k, []).append(v)\<close>.\<close>

definition dict_append :: "'k \<Rightarrow> 'v \<Rightarrow> ('k \<times> 'v list) list \<Rightarrow> ('k \<times> 'v list) list" where
  "dict_append k v d = dict_set k ((case map_of d k of None \<Rightarrow> [] | Some vs \<Rightarrow> vs) @ [v]) d"

text \<open>\<open>sorted(set(xs))\<close>.\<close>

definition sorted_set :: "'a::linorder list \<Rightarrow> 'a list" where
  "sorted_set xs = sort (remdups xs)"

lemma set_sorted_set [simp]: "set (sorted_set xs) = set xs"
  by (simp add: sorted_set_def)

lemma sorted_sorted_set [simp]: "sorted (sorted_set xs)"
  by (simp add: sorted_set_def)

lemma distinct_sorted_set [simp]: "distinct (sorted_set xs)"
  by (simp add: sorted_set_def)

lemma sorted_set_cong: "set xs = set ys \<Longrightarrow> sorted_set xs = sorted_set ys"
  by (rule sorted_distinct_set_unique) simp_all

section \<open>Stable sorting\<close>

text \<open>
  \<open>sorted(xs, key=f)\<close> is \<open>sort_key f xs\<close>: sorted by the key, and stable. It is
  the only list with those two properties and the same elements.
\<close>

lemma sort_key_unique:
  assumes "mset ys = mset xs"
    and "\<And>k. filter (\<lambda>x. f x = k) ys = filter (\<lambda>x. f x = k) xs"
    and "sorted (map f ys)"
  shows "sort_key f xs = ys"
  using assms(1,3) assms(2)[of "f k" for k]
  by (intro properties_for_sort_key) (auto simp: eq_commute)

lemma sort_key_map:
  "sort_key f (map g xs) = map g (sort_key (\<lambda>x. f (g x)) xs)"
proof (rule sort_key_unique)
  show "mset (map g (sort_key (\<lambda>x. f (g x)) xs)) = mset (map g xs)"
    by (simp only: mset_map mset_sort)
  show "sorted (map f (map g (sort_key (\<lambda>x. f (g x)) xs)))"
    by (simp add: comp_def)
  show "filter (\<lambda>x. f x = k) (map g (sort_key (\<lambda>x. f (g x)) xs)) = filter (\<lambda>x. f x = k) (map g xs)" for k
    by (simp add: filter_map comp_def sort_key_stable)
qed

lemma sort_key_cong:
  assumes "\<And>x. x \<in> set xs \<Longrightarrow> f x = g x"
  shows "sort_key f xs = sort_key g xs"
proof (rule sort_key_unique)
  have eq: "f x = g x" if "x \<in> set (sort_key g xs)" for x
    using assms that by simp
  show "mset (sort_key g xs) = mset xs" by simp
  have "map f (sort_key g xs) = map g (sort_key g xs)"
    using eq by auto
  then show "sorted (map f (sort_key g xs))"
    using sorted_sort_key [of g xs] by (simp only:)
  fix k
  have "filter (\<lambda>x. f x = k) (sort_key g xs) = filter (\<lambda>x. g x = k) (sort_key g xs)"
    using eq by (intro filter_cong) auto
  also have "\<dots> = filter (\<lambda>x. g x = k) xs"
    by (rule sort_key_stable)
  also have "\<dots> = filter (\<lambda>x. f x = k) xs"
    using assms by (intro filter_cong) auto
  finally show "filter (\<lambda>x. f x = k) (sort_key g xs) = filter (\<lambda>x. f x = k) xs" .
qed

end
