(* ===== verification/Py_Bytes.thy ===== *)
theory Py_Bytes
  imports Prelude "HOL-Library.Word"
begin

text \<open>
  The parts of Python's standard library that work on bytes and that the repository uses:
  decimal rendering of integers, UTF-8, hexadecimal, unpadded base32 and base64url,
  SHA-256 (FIPS 180-4, behind \<open>hashlib.sha256\<close>) and HMAC (RFC 2104). All of them are
  executable; the encodings come with their round trips, and the digest with its length.
\<close>

unbundle bit_operations_syntax

type_synonym byte = "8 word"
type_synonym bytes = "byte list"

section \<open>Decimal integers\<close>

fun show_nat :: "nat \<Rightarrow> pystr" where
  "show_nat n = (if n < 10 then [48 + n] else show_nat (n div 10) @ [48 + n mod 10])"

declare show_nat.simps [simp del]

definition show_int :: "int \<Rightarrow> pystr" where
  "show_int i = (if i < 0 then 45 # show_nat (nat (- i)) else show_nat (nat i))"

fun read_digits :: "nat \<Rightarrow> pystr \<Rightarrow> nat" where
  "read_digits a [] = a"
| "read_digits a (c # cs) = read_digits (10 * a + (c - 48)) cs"

definition is_digit :: "codepoint \<Rightarrow> bool" where
  "is_digit c \<longleftrightarrow> 48 \<le> c \<and> c \<le> 57"

lemma read_digits_append: "read_digits a (xs @ ys) = read_digits (read_digits a xs) ys"
  by (induction a xs rule: read_digits.induct) auto

lemma show_nat_digits: "\<forall>c \<in> set (show_nat n). is_digit c"
proof (induction n rule: show_nat.induct)
  case (1 n)
  show ?case
  proof (cases "n < 10")
    case True
    then show ?thesis by (simp add: show_nat.simps [of n] is_digit_def)
  next
    case False
    then have "\<forall>c \<in> set (show_nat (n div 10)). is_digit c" using "1.IH" by simp
    moreover have "is_digit (48 + n mod 10)" by (simp add: is_digit_def)
    ultimately show ?thesis
      using False by (simp add: show_nat.simps [of n])
  qed
qed

lemma read_show_nat [simp]: "read_digits 0 (show_nat n) = n"
proof (induction n rule: show_nat.induct)
  case (1 n)
  show ?case
  proof (cases "n < 10")
    case True
    then show ?thesis by (simp add: show_nat.simps [of n])
  next
    case False
    then show ?thesis
      using "1.IH" by (simp add: show_nat.simps [of n] read_digits_append)
  qed
qed

lemma show_nat_inject [simp]: "show_nat m = show_nat n \<longleftrightarrow> m = n"
  by (metis read_show_nat)

lemma show_nat_not_Nil [simp]: "show_nat n \<noteq> []"
  by (subst show_nat.simps) simp

lemma show_int_inject [simp]: "show_int i = show_int j \<longleftrightarrow> i = j"
proof -
  have "45 \<notin> set (show_nat n)" for n
    using show_nat_digits [of n] by (auto simp: is_digit_def)
  then have "45 # show_nat m \<noteq> show_nat n" and "show_nat n \<noteq> 45 # show_nat m" for m n
    by (metis list.set_intros(1))+
  then show ?thesis
    by (auto simp: show_int_def)
qed

section \<open>UTF-8\<close>

text \<open>\<open>s.encode("utf-8")\<close> on strings of Unicode scalar values.\<close>

definition utf8_char :: "codepoint \<Rightarrow> bytes" where
  "utf8_char c =
     (if c < 128 then [of_nat c]
      else if c < 2048 then [of_nat (192 + c div 64), of_nat (128 + c mod 64)]
      else if c < 65536 then
        [of_nat (224 + c div 4096), of_nat (128 + c div 64 mod 64), of_nat (128 + c mod 64)]
      else
        [of_nat (240 + c div 262144), of_nat (128 + c div 4096 mod 64),
         of_nat (128 + c div 64 mod 64), of_nat (128 + c mod 64)])"

definition utf8_encode :: "pystr \<Rightarrow> bytes" where
  "utf8_encode s = concat (map utf8_char s)"

section \<open>Bit groups, hexadecimal, base32, base64url\<close>

fun bits_of_nat :: "nat \<Rightarrow> nat \<Rightarrow> bool list" where
  "bits_of_nat 0 n = []"
| "bits_of_nat (Suc w) n = bits_of_nat w (n div 2) @ [odd n]"

definition nat_of_bits :: "bool list \<Rightarrow> nat" where
  "nat_of_bits bs = foldl (\<lambda>n b. 2 * n + of_bool b) 0 bs"

lemma length_bits_of_nat [simp]: "length (bits_of_nat w n) = w"
  by (induction w n rule: bits_of_nat.induct) simp_all

lemma nat_of_bits_snoc [simp]: "nat_of_bits (bs @ [b]) = 2 * nat_of_bits bs + of_bool b"
  by (simp add: nat_of_bits_def)

lemma nat_of_bits_of_nat: "n < 2 ^ w \<Longrightarrow> nat_of_bits (bits_of_nat w n) = n"
proof (induction w n rule: bits_of_nat.induct)
  case (1 n)
  then show ?case by (simp add: nat_of_bits_def)
next
  case (2 w n)
  then have "n div 2 < 2 ^ w" by simp
  then show ?case using 2 by (simp add: odd_two_times_div_two_succ)
qed

lemma bits_of_nat_of_bits: "bits_of_nat (length bs) (nat_of_bits bs) = bs"
  by (induction bs rule: rev_induct) simp_all

lemma nat_of_bits_less: "nat_of_bits bs < 2 ^ length bs"
  by (induction bs rule: rev_induct) (auto simp: nat_of_bits_def split: if_splits)

definition bits_of_byte :: "byte \<Rightarrow> bool list" where
  "bits_of_byte b = bits_of_nat 8 (unat b)"

definition byte_of_bits :: "bool list \<Rightarrow> byte" where
  "byte_of_bits bs = of_nat (nat_of_bits bs)"

lemma length_bits_of_byte [simp]: "length (bits_of_byte b) = 8"
  by (simp add: bits_of_byte_def)

lemma byte_of_bits_of_byte [simp]: "byte_of_bits (bits_of_byte b) = b"
proof -
  have "unat b < 2 ^ LENGTH(8)" by (rule unsigned_less)
  then show ?thesis
    by (simp add: byte_of_bits_def bits_of_byte_def nat_of_bits_of_nat)
qed

function chunks :: "nat \<Rightarrow> 'a list \<Rightarrow> 'a list list" where
  "chunks w xs = (if xs = [] \<or> w = 0 then [] else take w xs # chunks w (drop w xs))"
  by pat_completeness auto
termination
  by (relation "measure (\<lambda>(w, xs). length xs)") auto

declare chunks.simps [simp del]

lemma chunks_Nil [simp]: "chunks w [] = []"
  by (simp add: chunks.simps)

lemma chunks_step: "xs \<noteq> [] \<Longrightarrow> 0 < w \<Longrightarrow> chunks w xs = take w xs # chunks w (drop w xs)"
  by (simp add: chunks.simps [of w xs])

lemma concat_chunks: "0 < w \<Longrightarrow> concat (chunks w xs) = xs"
proof (induction w xs rule: chunks.induct)
  case (1 w xs)
  then show ?case by (cases "xs = []") (auto simp: chunks_step)
qed

lemma chunks_append:
  "length xs = w \<Longrightarrow> 0 < w \<Longrightarrow> chunks w (xs @ ys) = xs # chunks w ys"
  by (subst chunks_step) auto

text \<open>Groups of \<open>w\<close> bits, the last one filled with zero bits.\<close>

definition pad_bits :: "nat \<Rightarrow> bool list \<Rightarrow> bool list" where
  "pad_bits w bs = bs @ replicate (w - length bs) False"

definition bit_groups :: "nat \<Rightarrow> bytes \<Rightarrow> nat list" where
  "bit_groups w bs = map (\<lambda>g. nat_of_bits (pad_bits w g)) (chunks w (concat (map bits_of_byte bs)))"

text \<open>The bytes that whole groups of \<open>w\<close> bits hold; bits left over are dropped.\<close>

definition group_bytes :: "nat \<Rightarrow> nat list \<Rightarrow> bytes" where
  "group_bytes w gs =
     (let bits = concat (map (bits_of_nat w) gs)
      in map byte_of_bits (chunks 8 (take (length bits div 8 * 8) bits)))"

lemma padded_chunks:
  assumes "0 < w"
  shows "\<exists>k < w. concat (map (pad_bits w) (chunks w bs)) = bs @ replicate k False"
proof (induction bs rule: length_induct)
  case (1 bs)
  consider "bs = []" | "bs \<noteq> []" "length bs \<le> w" | "w < length bs" by force
  then show ?case
  proof cases
    case 1
    then show ?thesis using assms by auto
  next
    case 2
    then have "w - length bs < w" using assms by (cases bs) auto
    then show ?thesis
      using 2 assms by (auto simp: chunks_step pad_bits_def)
  next
    case 3
    then have "length (drop w bs) < length bs" using assms by simp
    then obtain k where "k < w"
      "concat (map (pad_bits w) (chunks w (drop w bs))) = drop w bs @ replicate k False"
      using "1.IH" by blast
    moreover from 3 have "chunks w bs = take w bs # chunks w (drop w bs)"
      using assms by (intro chunks_step) auto
    ultimately show ?thesis
      using 3 by (intro exI [of _ k]) (simp add: pad_bits_def [of w "take w bs"])
  qed
qed

lemma length_chunk_le: "g \<in> set (chunks w xs) \<Longrightarrow> length g \<le> w"
proof (induction w xs rule: chunks.induct)
  case (1 w xs)
  then show ?case
    by (cases "xs = [] \<or> w = 0") (auto simp: chunks.simps [of w xs])
qed

lemma length_pad_bits: "length g \<le> w \<Longrightarrow> length (pad_bits w g) = w"
  by (simp add: pad_bits_def)

lemma bit_groups_less: "g \<in> set (bit_groups w bs) \<Longrightarrow> g < 2 ^ w"
  by (auto simp: bit_groups_def)
    (metis length_chunk_le length_pad_bits nat_of_bits_less)

lemma chunks_bits_of_bytes: "chunks 8 (concat (map bits_of_byte bs)) = map bits_of_byte bs"
  by (induction bs) (simp_all add: chunks_append)

lemma length_bits_of_bytes [simp]: "length (concat (map bits_of_byte bs)) = 8 * length bs"
  by (induction bs) simp_all

lemma group_bytes_bit_groups:
  assumes "0 < w" "w \<le> 8"
  shows "group_bytes w (bit_groups w bs) = bs"
proof -
  let ?bits = "concat (map bits_of_byte bs)"
  have "map (bits_of_nat w) (bit_groups w bs) = map (pad_bits w) (chunks w ?bits)"
    unfolding bit_groups_def
    by (auto simp: bits_of_nat_of_bits dest!: length_chunk_le [THEN length_pad_bits])
      (metis bits_of_nat_of_bits length_chunk_le length_pad_bits)
  then obtain k where k: "k < w"
    and eq: "concat (map (bits_of_nat w) (bit_groups w bs)) = ?bits @ replicate k False"
    using padded_chunks [OF assms(1), of ?bits] by auto
  have "(8 * length bs + k) div 8 = length bs" using k assms by simp
  then show ?thesis
    by (simp add: group_bytes_def eq chunks_bits_of_bytes comp_def Let_def mult.commute)
qed

text \<open>\<open>bytes.hex()\<close> and \<open>bytes.fromhex\<close>: groups of four bits.\<close>

definition hex_digit :: "nat \<Rightarrow> codepoint" where
  "hex_digit d = (if d < 10 then 48 + d else 87 + d)"

definition hex_value :: "codepoint \<Rightarrow> nat" where
  "hex_value c = (if c < 58 then c - 48 else c - 87)"

definition is_lower_hex :: "codepoint \<Rightarrow> bool" where
  "is_lower_hex c \<longleftrightarrow> is_digit c \<or> 97 \<le> c \<and> c \<le> 102"

definition hexlify :: "bytes \<Rightarrow> pystr" where
  "hexlify bs = map hex_digit (bit_groups 4 bs)"

definition fromhex :: "pystr \<Rightarrow> bytes" where
  "fromhex s = group_bytes 4 (map hex_value s)"

lemma hex_value_digit [simp]: "d < 16 \<Longrightarrow> hex_value (hex_digit d) = d"
  by (simp add: hex_value_def hex_digit_def)

lemma fromhex_hexlify [simp]: "fromhex (hexlify bs) = bs"
proof -
  have "map hex_value (hexlify bs) = bit_groups 4 bs"
    by (auto simp: hexlify_def comp_def intro!: map_idI dest: bit_groups_less)
  then show ?thesis
    by (simp add: fromhex_def group_bytes_bit_groups)
qed

lemma hexlify_inject [simp]: "hexlify a = hexlify b \<longleftrightarrow> a = b"
  by (metis fromhex_hexlify)

lemma hexlify_lower_hex: "c \<in> set (hexlify bs) \<Longrightarrow> is_lower_hex c"
  by (auto simp: hexlify_def hex_digit_def is_lower_hex_def is_digit_def dest!: bit_groups_less)

lemma length_chunks_dvd: "0 < w \<Longrightarrow> length xs = k * w \<Longrightarrow> length (chunks w xs) = k"
proof (induction k arbitrary: xs)
  case 0
  then show ?case by simp
next
  case (Suc k)
  then have "xs \<noteq> []" by auto
  then show ?case using Suc by (simp add: chunks_step)
qed

lemma length_hexlify [simp]: "length (hexlify bs) = 2 * length bs"
  by (simp add: hexlify_def bit_groups_def length_chunks_dvd [of 4 _ "2 * length bs"])

text \<open>\<open>base64.b32encode(b).rstrip("=").lower()\<close> and
  \<open>base64.urlsafe_b64encode(b).rstrip("=")\<close>.\<close>

definition base32_digit :: "nat \<Rightarrow> codepoint" where
  "base32_digit d = (if d < 26 then 97 + d else 24 + d)"

definition base32_value :: "codepoint \<Rightarrow> nat" where
  "base32_value c = (if 97 \<le> c then c - 97 else c - 24)"

definition base32_lower :: "bytes \<Rightarrow> pystr" where
  "base32_lower bs = map base32_digit (bit_groups 5 bs)"

lemma base32_value_digit [simp]: "d < 32 \<Longrightarrow> base32_value (base32_digit d) = d"
  by (simp add: base32_value_def base32_digit_def)

lemma base32_lower_inject [simp]: "base32_lower a = base32_lower b \<longleftrightarrow> a = b"
proof
  have *: "group_bytes 5 (map base32_value (base32_lower bs)) = bs" for bs
  proof -
    have "map base32_value (base32_lower bs) = bit_groups 5 bs"
      by (auto simp: base32_lower_def comp_def intro!: map_idI dest: bit_groups_less)
    then show ?thesis by (simp add: group_bytes_bit_groups)
  qed
  show "base32_lower a = base32_lower b \<Longrightarrow> a = b"
    by (metis *)
qed simp

definition b64url_digit :: "nat \<Rightarrow> codepoint" where
  "b64url_digit d =
     (if d < 26 then 65 + d else if d < 52 then 71 + d else if d < 62 then d - 4
      else if d = 62 then 45 else 95)"

definition b64url_value :: "codepoint \<Rightarrow> nat option" where
  "b64url_value c =
     (if 65 \<le> c \<and> c \<le> 90 then Some (c - 65) else if 97 \<le> c \<and> c \<le> 122 then Some (c - 71)
      else if 48 \<le> c \<and> c \<le> 57 then Some (c + 4) else if c = 45 then Some 62
      else if c = 95 then Some 63 else None)"

lemma b64url_value_digit [simp]: "d < 64 \<Longrightarrow> b64url_value (b64url_digit d) = Some d"
  by (auto simp: b64url_value_def b64url_digit_def)

section \<open>SHA-256 and HMAC\<close>

definition rotr :: "nat \<Rightarrow> 32 word \<Rightarrow> 32 word" where
  "rotr n x = push_bit (32 - n) x OR drop_bit n x"

text \<open>
  The constants of FIPS 180-4 as the standard defines them: the first 32 bits of the fractional
  parts of the cube roots of the first 64 primes, and of the square roots of the first eight.
\<close>

definition iroot :: "nat \<Rightarrow> nat \<Rightarrow> nat" where
  "iroot k n = foldl (\<lambda>r i. if (r + 2 ^ i) ^ k \<le> n then r + 2 ^ i else r) 0 (rev [0..<36])"

definition root_fraction :: "nat \<Rightarrow> nat \<Rightarrow> 32 word" where
  "root_fraction k p = word_of_nat (iroot k (p * 2 ^ (32 * k)))"

definition small_primes :: "nat list" where
  "small_primes = filter (\<lambda>p. list_all (\<lambda>d. p mod d \<noteq> 0) [2..<p]) [2..<312]"

definition sha_k :: "32 word list" where
  "sha_k = map (root_fraction 3) small_primes"

type_synonym sha_state = "32 word \<times> 32 word \<times> 32 word \<times> 32 word \<times> 32 word \<times> 32 word \<times> 32 word \<times> 32 word"

definition sha_init :: sha_state where
  "sha_init =
     (root_fraction 2 2, root_fraction 2 3, root_fraction 2 5, root_fraction 2 7,
      root_fraction 2 11, root_fraction 2 13, root_fraction 2 17, root_fraction 2 19)"

definition word_of_bytes :: "bytes \<Rightarrow> 32 word" where
  "word_of_bytes bs = of_nat (foldl (\<lambda>n b. n * 256 + unat b) 0 bs)"

definition be_bytes :: "nat \<Rightarrow> nat \<Rightarrow> bytes" where
  "be_bytes k n = map (\<lambda>i. of_nat (n div 256 ^ (k - 1 - i))) [0..<k]"

definition sha_pad :: "bytes \<Rightarrow> bytes" where
  "sha_pad m =
     m @ [0x80] @ replicate ((119 - length m mod 64) mod 64) 0 @ be_bytes 8 (8 * length m)"

fun schedule :: "nat \<Rightarrow> 32 word list \<Rightarrow> 32 word list" where
  "schedule 0 w = w"
| "schedule (Suc n) w =
     (let t = length w; a = w ! (t - 15); b = w ! (t - 2);
          s0 = rotr 7 a XOR rotr 18 a XOR drop_bit 3 a;
          s1 = rotr 17 b XOR rotr 19 b XOR drop_bit 10 b
      in schedule n (w @ [w ! (t - 16) + s0 + w ! (t - 7) + s1]))"

fun sha_round :: "sha_state \<Rightarrow> 32 word \<Rightarrow> sha_state" where
  "sha_round (a, b, c, d, e, f, g, h) kw =
     (let s1 = rotr 6 e XOR rotr 11 e XOR rotr 25 e;
          ch = (e AND f) XOR (NOT e AND g);
          t1 = h + s1 + ch + kw;
          s0 = rotr 2 a XOR rotr 13 a XOR rotr 22 a;
          maj = (a AND b) XOR (a AND c) XOR (b AND c)
      in (t1 + (s0 + maj), a, b, c, d + t1, e, f, g))"

definition sha_block :: "sha_state \<Rightarrow> bytes \<Rightarrow> sha_state" where
  "sha_block s blk =
     (case (s, foldl sha_round s (map2 (+) sha_k (schedule 48 (map word_of_bytes (chunks 4 blk))))) of
        ((a, b, c, d, e, f, g, h), (a', b', c', d', e', f', g', h')) \<Rightarrow>
          (a + a', b + b', c + c', d + d', e + e', f + f', g + g', h + h'))"

definition sha256 :: "bytes \<Rightarrow> bytes" where
  "sha256 m =
     (case foldl sha_block sha_init (chunks 64 (sha_pad m)) of
        (a, b, c, d, e, f, g, h) \<Rightarrow> concat (map (\<lambda>w. be_bytes 4 (unat w)) [a, b, c, d, e, f, g, h]))"

lemma length_be_bytes [simp]: "length (be_bytes k n) = k"
  by (simp add: be_bytes_def)

lemma length_sha256 [simp]: "length (sha256 m) = 32"
  by (simp add: sha256_def split: prod.split)

text \<open>Padding fills whole blocks.\<close>

lemma sha_pad_blocks: "length (sha_pad m) mod 64 = 0"
proof -
  define r where "r = length m mod 64"
  have "r < 64" by (simp add: r_def)
  then have "(r + (9 + (119 - r) mod 64)) mod 64 = 0"
    by (cases "r \<le> 55") (simp_all add: le_mod_geq)
  then have "(length m + (9 + (119 - r) mod 64)) mod 64 = 0"
    by (metis mod_add_left_eq r_def)
  moreover have "length (sha_pad m) = length m + (9 + (119 - r) mod 64)"
    by (simp add: sha_pad_def r_def)
  ultimately show ?thesis by (simp only:)
qed

definition hmac_block_key :: "bytes \<Rightarrow> bytes" where
  "hmac_block_key key =
     (let k = (if 64 < length key then sha256 key else key) in k @ replicate (64 - length k) 0)"

definition hmac_sha256 :: "bytes \<Rightarrow> bytes \<Rightarrow> bytes" where
  "hmac_sha256 key msg =
     (let k = hmac_block_key key
      in sha256 (map (\<lambda>b. b XOR 0x5c) k @ sha256 (map (\<lambda>b. b XOR 0x36) k @ msg)))"

lemma length_hmac_sha256 [simp]: "length (hmac_sha256 key msg) = 32"
  by (simp add: hmac_sha256_def Let_def)

end
