(* ===== verification/Py_Float.thy ===== *)
theory Py_Float
  imports Py_Bytes
begin

text \<open>
  IEEE 754 double precision as the repository uses it: a finite Python \<open>float\<close> is the
  rational number it stands for, \<open>fl\<close> rounds a rational to the nearest double (ties to
  even, gradual underflow), \<open>true_div\<close> is the division of two integers, which CPython
  rounds correctly, and \<open>fmt4\<close> and \<open>repr_float\<close> are the renderings
  \<open>f"{x:.4f}"\<close> and \<open>repr(x)\<close>. Magnitudes stay below the overflow threshold: the
  program divides counts and reads bounded configuration values.
\<close>

type_synonym float64 = rat

section \<open>Rounding\<close>

definition round_half_even :: "rat \<Rightarrow> int" where
  "round_half_even x =
     (let f = \<lfloor>x\<rfloor>; d = x - of_int f
      in if d < 1 / 2 then f else if 1 / 2 < d then f + 1 else if even f then f else f + 1)"

lemma round_half_even_of_int [simp]: "round_half_even (of_int n) = n"
  by (simp add: round_half_even_def)

lemma round_half_even_cases: "round_half_even x = \<lfloor>x\<rfloor> \<or> round_half_even x = \<lfloor>x\<rfloor> + 1"
  by (simp add: round_half_even_def Let_def)

lemma round_half_even_mono:
  assumes "x \<le> y"
  shows "round_half_even x \<le> round_half_even y"
proof (cases "\<lfloor>x\<rfloor> = \<lfloor>y\<rfloor>")
  case True
  then show ?thesis
    using assms by (auto simp: round_half_even_def Let_def)
next
  case False
  with assms have "\<lfloor>x\<rfloor> + 1 \<le> \<lfloor>y\<rfloor>"
    using floor_mono [OF assms] by linarith
  then show ?thesis
    using round_half_even_cases [of x] round_half_even_cases [of y] by linarith
qed

fun bit_length :: "nat \<Rightarrow> nat" where
  "bit_length n = (if n = 0 then 0 else Suc (bit_length (n div 2)))"

declare bit_length.simps [simp del]

lemma bit_length_bounds: "0 < n \<Longrightarrow> 2 ^ (bit_length n - 1) \<le> n \<and> n < 2 ^ bit_length n"
proof (induction n rule: bit_length.induct)
  case (1 n)
  show ?case
  proof (cases "n = 1")
    case True
    then show ?thesis by (simp add: bit_length.simps)
  next
    case False
    with 1 have IH: "2 ^ (bit_length (n div 2) - 1) \<le> n div 2" "n div 2 < 2 ^ bit_length (n div 2)"
      by (simp_all add: div_greater_zero_iff)
    have eq: "bit_length n = Suc (bit_length (n div 2))"
      using 1 by (simp add: bit_length.simps [of n])
    have pos: "0 < bit_length (n div 2)"
      using False 1 by (subst bit_length.simps) (simp add: div_eq_0_iff)
    define u where "u = (2::nat) ^ (bit_length (n div 2) - 1)"
    have "(2::nat) ^ bit_length (n div 2) = 2 * u"
      using pos by (simp add: u_def flip: power_Suc)
    moreover have "u \<le> n div 2" "n div 2 < 2 * u"
      using IH calculation by (simp_all add: u_def)
    then have "2 * u \<le> n" "n < 2 * (2 * u)" by presburger+
    ultimately show ?thesis
      by (simp add: eq)
  qed
qed

text \<open>The binary exponent: \<open>2 powi ilog2 x \<le> x < 2 powi (ilog2 x + 1)\<close> for positive \<open>x\<close>.\<close>

definition ilog2 :: "rat \<Rightarrow> int" where
  "ilog2 x =
     (case quotient_of x of (p, q) \<Rightarrow>
        let d = int (bit_length (nat p)) - int (bit_length (nat q))
        in if 2 powi d \<le> x then d else d - 1)"

lemma nat_between_powi:
  assumes "0 < n"
  shows "(2::rat) powi (int (bit_length n) - 1) \<le> of_nat n \<and> (of_nat n :: rat) < 2 powi (int (bit_length n))"
proof -
  have pos: "0 < bit_length n" using assms by (subst bit_length.simps) simp
  then have e: "int (bit_length n) - 1 = int (bit_length n - 1)" by simp
  have "of_nat (2 ^ (bit_length n - 1)) \<le> (of_nat n :: rat)"
    "(of_nat n :: rat) < of_nat (2 ^ bit_length n)"
    using bit_length_bounds [OF assms] by (simp_all only: of_nat_le_iff of_nat_less_iff)
  then show ?thesis
    by (simp add: e)
qed

lemma ilog2_bounds:
  assumes "0 < x"
  shows "2 powi ilog2 x \<le> x" "x < 2 powi (ilog2 x + 1)"
proof -
  obtain p q where pq: "quotient_of x = (p, q)" by (cases "quotient_of x")
  have q: "0 < q" and x: "x = of_int p / of_int q"
    using pq quotient_of_denom_pos quotient_of_div by auto
  with assms have p: "0 < p" by (simp add: zero_less_divide_iff)
  define a b where "a = int (bit_length (nat p))" and "b = int (bit_length (nat q))"
  have P: "2 powi (a - 1) \<le> (of_int p :: rat)" "(of_int p :: rat) < 2 powi a"
    using nat_between_powi [of "nat p"] p by (simp_all add: a_def)
  have Q: "2 powi (b - 1) \<le> (of_int q :: rat)" "(of_int q :: rat) < 2 powi b"
    using nat_between_powi [of "nat q"] q by (simp_all add: b_def)
  have lo: "2 powi (a - b - 1) \<le> x"
  proof -
    have "2 powi (a - b - 1) * of_int q \<le> 2 powi (a - b - 1) * (2::rat) powi b"
      using Q by (intro mult_left_mono) auto
    also have "\<dots> = 2 powi (a - 1)"
      by (simp flip: power_int_add)
    also have "\<dots> \<le> of_int p" by (rule P)
    finally show ?thesis using q by (simp add: x pos_le_divide_eq)
  qed
  have hi: "x < 2 powi (a - b + 1)"
  proof -
    have "(of_int p :: rat) < 2 powi a" by (rule P)
    also have "\<dots> = 2 powi (a - b + 1) * 2 powi (b - 1)"
      by (simp flip: power_int_add)
    also have "\<dots> \<le> 2 powi (a - b + 1) * of_int q"
      using Q by (intro mult_left_mono) auto
    finally show ?thesis using q by (simp add: x pos_divide_less_eq)
  qed
  show "2 powi ilog2 x \<le> x" "x < 2 powi (ilog2 x + 1)"
    using lo hi by (auto simp: ilog2_def pq a_def b_def Let_def)
qed

lemma ilog2_mono:
  assumes "0 < x" "x \<le> y"
  shows "ilog2 x \<le> ilog2 y"
proof (rule ccontr)
  assume "\<not> ilog2 x \<le> ilog2 y"
  then have "ilog2 y + 1 \<le> ilog2 x" by simp
  then have "(2::rat) powi (ilog2 y + 1) \<le> 2 powi ilog2 x"
    by (rule power_int_increasing) simp
  then show False
    using ilog2_bounds [of x] ilog2_bounds [of y] assms by linarith
qed

text \<open>The exponent of the last place kept: 53 bits of significand, none below \<open>2^-1074\<close>.\<close>

definition ulp_exp :: "rat \<Rightarrow> int" where
  "ulp_exp x = max (ilog2 x - 52) (- 1074)"

definition fl_pos :: "rat \<Rightarrow> rat" where
  "fl_pos x = of_int (round_half_even (x / 2 powi ulp_exp x)) * 2 powi ulp_exp x"

definition fl :: "rat \<Rightarrow> float64" where
  "fl x = (if x = 0 then 0 else if x < 0 then - fl_pos (- x) else fl_pos x)"

lemma round_to_grid_le:
  assumes "x \<le> of_int n * 2 powi e"
  shows "of_int (round_half_even (x / 2 powi e)) * (2::rat) powi e \<le> of_int n * 2 powi e"
proof -
  have "x / 2 powi e \<le> of_int n" using assms by (simp add: pos_divide_le_eq)
  then have "round_half_even (x / 2 powi e) \<le> n"
    using round_half_even_mono by fastforce
  then show ?thesis by (intro mult_right_mono) auto
qed

lemma round_to_grid_ge:
  assumes "of_int n * 2 powi e \<le> x"
  shows "of_int n * (2::rat) powi e \<le> of_int (round_half_even (x / 2 powi e)) * 2 powi e"
proof -
  have "of_int n \<le> x / 2 powi e" using assms by (simp add: pos_le_divide_eq)
  then have "n \<le> round_half_even (x / 2 powi e)"
    using round_half_even_mono by fastforce
  then show ?thesis by (intro mult_right_mono) auto
qed

lemma fl_pos_mono:
  assumes "0 < x" "x \<le> y"
  shows "fl_pos x \<le> fl_pos y"
proof (cases "ulp_exp x = ulp_exp y")
  case True
  have "x / 2 powi ulp_exp y \<le> y / 2 powi ulp_exp y"
    using assms by (simp add: divide_right_mono)
  then show ?thesis
    unfolding fl_pos_def True by (intro mult_right_mono) (simp_all add: round_half_even_mono)
next
  case False
  then have lt: "ilog2 x < ilog2 y" and e: "ulp_exp y = ilog2 y - 52" "ulp_exp x \<le> ilog2 y - 1 - 52"
    using ilog2_mono [OF assms] by (auto simp: ulp_exp_def)
  have "x \<le> 2 powi (ilog2 x + 1)" using ilog2_bounds [of x] assms by simp
  also have "\<dots> \<le> 2 powi ilog2 y" using lt by (intro power_int_increasing) auto
  finally have xy: "x \<le> 2 powi ilog2 y" .
  have gx: "(2::rat) powi ilog2 y = of_int (2 ^ nat (ilog2 y - ulp_exp x)) * 2 powi ulp_exp x"
  proof -
    have "ilog2 y = int (nat (ilog2 y - ulp_exp x)) + ulp_exp x" using e by simp
    then have "(2::rat) powi ilog2 y = 2 powi int (nat (ilog2 y - ulp_exp x)) * 2 powi ulp_exp x"
      by (metis power_int_add zero_neq_numeral)
    then show ?thesis by (simp only: power_int_of_nat of_int_power of_int_numeral)
  qed
  have gy: "(2::rat) powi ilog2 y = of_int (2 ^ 52) * 2 powi ulp_exp y"
    unfolding e(1) by (simp add: power_int_diff)
  have "fl_pos x \<le> 2 powi ilog2 y"
    using round_to_grid_le [of x "2 ^ nat (ilog2 y - ulp_exp x)" "ulp_exp x"] xy
    by (simp only: fl_pos_def gx)
  also have "\<dots> \<le> fl_pos y"
    using round_to_grid_ge [of "2 ^ 52" "ulp_exp y" y] ilog2_bounds(1) [of y] assms
    by (simp only: fl_pos_def flip: gy)
  finally show ?thesis .
qed

lemma fl_pos_nonneg: "0 < x \<Longrightarrow> 0 \<le> fl_pos x"
  using round_to_grid_ge [of 0 "ulp_exp x" x] by (simp add: fl_pos_def)

lemma fl_0 [simp]: "fl 0 = 0"
  by (simp add: fl_def)

lemma fl_1 [simp]: "fl 1 = 1"
proof -
  have "quotient_of 1 = (1, 1)" by simp
  then have "ilog2 1 = 0" by (simp add: ilog2_def)
  then have e: "ulp_exp 1 = - 52" by (simp add: ulp_exp_def)
  have "(1::rat) / 2 powi (- 52) = of_int (2 ^ 52)"
    by (simp add: power_int_minus)
  then show ?thesis
    unfolding fl_def fl_pos_def e by (simp only: round_half_even_of_int) (simp add: power_int_minus)
qed

lemma fl_mono: "x \<le> y \<Longrightarrow> fl x \<le> fl y"
  using fl_pos_mono [of x y] fl_pos_mono [of "- y" "- x"] fl_pos_nonneg [of y] fl_pos_nonneg [of "- x"]
  by (auto simp: fl_def)

section \<open>Division of integers\<close>

definition true_div :: "int \<Rightarrow> int \<Rightarrow> float64" where
  "true_div a b = fl (of_int a / of_int b)"

lemma true_div_bounds:
  assumes "0 \<le> a" "a \<le> b" "0 < b"
  shows "0 \<le> true_div a b" "true_div a b \<le> 1"
proof -
  have "0 \<le> (of_int a / of_int b :: rat)" "(of_int a / of_int b :: rat) \<le> 1"
    using assms by auto
  then show "0 \<le> true_div a b" "true_div a b \<le> 1"
    using fl_mono [of 0] fl_mono [of _ 1] by (auto simp: true_div_def)
qed

lemma true_div_mono: "a \<le> a' \<Longrightarrow> 0 < b \<Longrightarrow> true_div a b \<le> true_div a' b"
  unfolding true_div_def by (rule fl_mono) (simp add: divide_right_mono)

lemma true_div_0 [simp]: "true_div 0 b = 0"
  by (simp add: true_div_def)

lemma true_div_self [simp]: "b \<noteq> 0 \<Longrightarrow> true_div b b = 1"
  by (simp add: true_div_def)

section \<open>Rendering\<close>

text \<open>\<open>f"{x:.4f}"\<close>: the exact value rounded to four decimals, ties to even.\<close>

definition zfill :: "nat \<Rightarrow> pystr \<Rightarrow> pystr" where
  "zfill w s = replicate (w - length s) 48 @ s"

definition fmt4 :: "float64 \<Rightarrow> pystr" where
  "fmt4 x =
     (let n = nat (round_half_even (\<bar>x\<bar> * 10000))
      in (if x < 0 then py ''-'' else []) @ show_nat (n div 10000) @ py ''.'' @ zfill 4 (show_nat (n mod 10000)))"

text \<open>
  \<open>repr(x)\<close> for positive \<open>x\<close>: the fewest significant decimal digits that round back
  to \<open>x\<close>. \<open>dec_point x\<close> is the position of the decimal point, \<open>10^(k-1) \<le> x < 10^k\<close>;
  the search tries one to seventeen digits and keeps the candidate nearest to \<open>x\<close>.
\<close>

fun leading_zeros :: "nat \<Rightarrow> rat \<Rightarrow> nat" where
  "leading_zeros 0 x = 0"
| "leading_zeros (Suc fuel) x = (if 1 \<le> 10 * x then 0 else Suc (leading_zeros fuel (10 * x)))"

definition dec_point :: "rat \<Rightarrow> int" where
  "dec_point x =
     (if 1 \<le> x then int (length (show_nat (nat \<lfloor>x\<rfloor>))) else - int (leading_zeros 400 x))"

definition digit_candidates :: "rat \<Rightarrow> int \<Rightarrow> nat \<Rightarrow> int list" where
  "digit_candidates x k n =
     (let s = x * 10 powi (int n - k); lo = \<lfloor>s\<rfloor>
      in filter (\<lambda>m. fl (of_int m * 10 powi (k - int n)) = x)
           (if s - of_int lo \<le> 1 / 2 then [lo, lo + 1] else [lo + 1, lo]))"

fun shortest_search :: "rat \<Rightarrow> int \<Rightarrow> nat list \<Rightarrow> int \<times> int" where
  "shortest_search x k [] = (round_half_even (x * 10 powi (17 - k)), k)"
| "shortest_search x k (n # ns) =
     (case digit_candidates x k n of
        [] \<Rightarrow> shortest_search x k ns
      | m # _ \<Rightarrow> if m = 10 ^ n then (1, k + 1) else (m, k))"

definition shortest_decimal :: "rat \<Rightarrow> pystr \<times> int" where
  "shortest_decimal x =
     (case shortest_search x (dec_point x) [1..<18] of (m, k) \<Rightarrow> (show_nat (nat m), k))"

definition repr_pos :: "rat \<Rightarrow> pystr" where
  "repr_pos x =
     (case shortest_decimal x of (ds, k) \<Rightarrow>
        let n = int (length ds)
        in if - 4 < k \<and> k \<le> 16 then
             (if k \<le> 0 then py ''0.'' @ replicate (nat (- k)) 48 @ ds
              else if n \<le> k then ds @ replicate (nat (k - n)) 48 @ py ''.0''
              else take (nat k) ds @ py ''.'' @ drop (nat k) ds)
           else
             (take 1 ds @ (if 1 < n then py ''.'' @ drop 1 ds else []) @ py ''e''
              @ (if k - 1 < 0 then py ''-'' else py ''+'') @ zfill 2 (show_nat (nat \<bar>k - 1\<bar>))))"

definition repr_float :: "float64 \<Rightarrow> pystr" where
  "repr_float x = (if x = 0 then py ''0.0'' else if x < 0 then py ''-'' @ repr_pos (- x) else repr_pos x)"

end
