(* ===== verification/Canonical.thy ===== *)
theory Canonical
  imports Py_Float
begin

text \<open>
  \<open>ragledger.core.canonical\<close> (RFC 8785 canonical JSON), \<open>ragledger.core.hashing\<close>,
  \<open>ragledger.core.ids\<close> and \<open>ragledger.governance.identity\<close>. A JSON value is a
  \<open>json\<close>; its numbers are Python integers or finite doubles, its strings are sequences
  of Unicode scalar values, and an object is a dictionary in insertion order. Unicode
  normalisation and printability (the Unicode tables behind \<open>unicodedata.normalize\<close> and
  \<open>repr(str)\<close>) and HKDF (the \<open>cryptography\<close> package) are not code of the
  repository: they are the fields of the parameter \<open>platform\<close>.
\<close>

record platform =
  nfc :: "pystr \<Rightarrow> pystr"
  hkdf :: "bytes \<Rightarrow> bytes \<Rightarrow> bytes"
  repr_str :: "pystr \<Rightarrow> pystr"

datatype json =
    JNull
  | JBool bool
  | JInt int
  | JFloat float64
  | JStr pystr
  | JList "json list"
  | JObj "(pystr \<times> json) list"

section \<open>Strings and numbers\<close>

definition control_escapes :: "codepoint \<Rightarrow> pystr option" where
  "control_escapes = map_of
     [(34, [92, 34]), (92, [92, 92]), (8, [92, 98]), (12, [92, 102]),
      (10, [92, 110]), (13, [92, 114]), (9, [92, 116])]"

definition escape_char :: "codepoint \<Rightarrow> pystr" where
  "escape_char c =
     (case control_escapes c of
        Some e \<Rightarrow> e
      | None \<Rightarrow> if c < 32 then [92, 117, 48, 48, hex_digit (c div 16), hex_digit (c mod 16)] else [c])"

definition encode_string :: "platform \<Rightarrow> pystr \<Rightarrow> pystr" where
  "encode_string L s = 34 # concat (map escape_char (nfc L s)) @ [34]"

definition read_int :: "pystr \<Rightarrow> int" where
  "read_int s =
     (case s of
        [] \<Rightarrow> 0
      | c # cs \<Rightarrow> if c = 45 then - int (read_digits 0 cs)
                  else if c = 43 then int (read_digits 0 cs) else int (read_digits 0 s))"

definition shortest_digits_and_point :: "float64 \<Rightarrow> pystr \<times> int" where
  "shortest_digits_and_point value =
     (let text = repr_float value;
          (mantissa, exponent) =
            (case partition_at 101 text of
               (m, True, e) \<Rightarrow> (m, read_int e)
             | (m, False, _) \<Rightarrow> (text, 0));
          (int_part, _, frac_part) = partition_at 46 mantissa;
          full_digits = int_part @ frac_part;
          point = int (length int_part) + exponent;
          stripped_leading = dropWhile (\<lambda>c. c = 48) full_digits;
          leading_zeros = length full_digits - length stripped_leading;
          trimmed = rev (dropWhile (\<lambda>c. c = 48) (rev stripped_leading));
          significant = (if trimmed = [] then [48] else trimmed)
      in (significant, point - int leading_zeros))"

definition format_digits :: "pystr \<Rightarrow> int \<Rightarrow> pystr" where
  "format_digits digits point =
     (let k = int (length digits)
      in if k \<le> point \<and> point \<le> 21 then digits @ replicate (nat (point - k)) 48
         else if 0 < point \<and> point \<le> 21 then take (nat point) digits @ [46] @ drop (nat point) digits
         else if - 6 < point \<and> point \<le> 0 then py ''0.'' @ replicate (nat (- point)) 48 @ digits
         else
           (let exponent = point - 1;
                mantissa = (if k = 1 then digits else take 1 digits @ [46] @ drop 1 digits)
            in mantissa @ [101] @ (if 0 \<le> exponent then [43] else [45]) @ show_nat (nat \<bar>exponent\<bar>)))"

datatype pyfloat = Finite float64 | Infinite bool | NotANumber

datatype canonical_error = NonFiniteNumber

definition encode_finite :: "float64 \<Rightarrow> pystr" where
  "encode_finite value =
     (if value = 0 then [48]
      else (let sign = (if value < 0 then [45] else []);
                (digits, point) = shortest_digits_and_point (if value < 0 then - value else value)
            in sign @ format_digits digits point))"

definition encode_float :: "pyfloat \<Rightarrow> canonical_error + pystr" where
  "encode_float value =
     (case value of
        NotANumber \<Rightarrow> Inl NonFiniteNumber
      | Infinite _ \<Rightarrow> Inl NonFiniteNumber
      | Finite x \<Rightarrow> Inr (encode_finite x))"

section \<open>Values\<close>

definition utf16_units :: "codepoint \<Rightarrow> nat list" where
  "utf16_units c =
     (if 65535 < c then [55296 + (c - 65536) div 1024, 56320 + (c - 65536) mod 1024] else [c])"

definition utf16_code_units :: "pystr \<Rightarrow> nat list" where
  "utf16_code_units text = concat (map utf16_units text)"

definition encode_object :: "platform \<Rightarrow> (pystr \<times> pystr) list \<Rightarrow> pystr" where
  "encode_object L members =
     [123] @ join [44] (map (\<lambda>(k, e). encode_string L k @ [58] @ e)
       (sort_key (\<lambda>m. utf16_code_units (fst m)) members)) @ [125]"

primrec encode :: "platform \<Rightarrow> json \<Rightarrow> pystr" where
  "encode L JNull = py ''null''"
| "encode L (JBool b) = (if b then py ''true'' else py ''false'')"
| "encode L (JInt i) = show_int i"
| "encode L (JFloat x) = encode_finite x"
| "encode L (JStr s) = encode_string L s"
| "encode L (JList vs) = [91] @ join [44] (map (encode L) vs) @ [93]"
| "encode L (JObj kvs) = encode_object L (map (map_prod id (encode L)) kvs)"

definition canonicalize :: "platform \<Rightarrow> json \<Rightarrow> pystr" where
  "canonicalize L value = encode L value"

definition canonical_bytes :: "platform \<Rightarrow> json \<Rightarrow> bytes" where
  "canonical_bytes L value = utf8_encode (canonicalize L value)"

text \<open>\<open>repr(v)\<close> and \<open>str(v)\<close> of a value parsed from JSON.\<close>

primrec py_repr :: "platform \<Rightarrow> json \<Rightarrow> pystr" where
  "py_repr L JNull = py ''None''"
| "py_repr L (JBool b) = (if b then py ''True'' else py ''False'')"
| "py_repr L (JInt i) = show_int i"
| "py_repr L (JFloat x) = repr_float x"
| "py_repr L (JStr s) = repr_str L s"
| "py_repr L (JList vs) = py ''['' @ join (py '', '') (map (py_repr L) vs) @ py '']''"
| "py_repr L (JObj kvs) = py ''{'' @ join (py '', '')
     (map (\<lambda>(k, r). repr_str L k @ py '': '' @ r) (map (map_prod id (py_repr L)) kvs)) @ py ''}''"

definition py_str :: "platform \<Rightarrow> json \<Rightarrow> pystr" where
  "py_str L v = (case v of JStr s \<Rightarrow> s | _ \<Rightarrow> py_repr L v)"

section \<open>Hashing\<close>

definition sha256_hex :: "bytes \<Rightarrow> pystr" where
  "sha256_hex data = hexlify (sha256 data)"

definition hash_raw_bytes :: "bytes \<Rightarrow> pystr" where
  "hash_raw_bytes data = sha256_hex data"

fun replace_crlf :: "pystr \<Rightarrow> pystr" where
  "replace_crlf (c # d # cs) = (if c = 13 \<and> d = 10 then 10 # replace_crlf cs else c # replace_crlf (d # cs))"
| "replace_crlf cs = cs"

definition replace_cr :: "pystr \<Rightarrow> pystr" where
  "replace_cr = map (\<lambda>c. if c = 13 then 10 else c)"

definition normalize_text :: "platform \<Rightarrow> bool \<Rightarrow> pystr \<Rightarrow> pystr" where
  "normalize_text L normalize_line_endings text =
     (let normalized = nfc L text
      in if normalize_line_endings then replace_cr (replace_crlf normalized) else normalized)"

definition hash_text :: "platform \<Rightarrow> bool \<Rightarrow> pystr \<Rightarrow> pystr" where
  "hash_text L normalize_line_endings text =
     sha256_hex (utf8_encode (normalize_text L normalize_line_endings text))"

definition hash_canonical :: "platform \<Rightarrow> json \<Rightarrow> pystr" where
  "hash_canonical L value = sha256_hex (canonical_bytes L value)"

section \<open>Identifiers\<close>

definition derive :: "platform \<Rightarrow> pystr \<Rightarrow> json list \<Rightarrow> pystr" where
  "derive L prefix identity_fields =
     prefix @ py ''_sha256_'' @ base32_lower (fromhex (sha256_hex (canonical_bytes L (JList identity_fields))))"

definition source_id_of :: "platform \<Rightarrow> pystr \<Rightarrow> pystr \<Rightarrow> pystr" where
  "source_id_of L namespace uri = derive L (py ''src'') [JStr namespace, JStr uri]"

definition source_version_id_of :: "platform \<Rightarrow> pystr \<Rightarrow> pystr \<Rightarrow> pystr" where
  "source_version_id_of L source content_hash = derive L (py ''ver'') [JStr source, JStr content_hash]"

definition parse_run_id_of :: "platform \<Rightarrow> pystr \<Rightarrow> pystr \<Rightarrow> pystr" where
  "parse_run_id_of L source_version config_hash = derive L (py ''prs'') [JStr source_version, JStr config_hash]"

definition chunk_id_of :: "platform \<Rightarrow> pystr \<Rightarrow> pystr \<Rightarrow> json \<Rightarrow> pystr \<Rightarrow> pystr" where
  "chunk_id_of L parse_run config_hash locator content_hash =
     derive L (py ''chk'') [JStr parse_run, JStr config_hash, locator, JStr content_hash]"

definition embedding_id_of :: "platform \<Rightarrow> pystr \<Rightarrow> pystr \<Rightarrow> pystr \<Rightarrow> pystr" where
  "embedding_id_of L chunk text_hash config_hash =
     derive L (py ''emb'') [JStr chunk, JStr text_hash, JStr config_hash]"

definition index_binding_id_of :: "platform \<Rightarrow> pystr \<Rightarrow> pystr \<Rightarrow> json \<Rightarrow> pystr" where
  "index_binding_id_of L target embedding point = derive L (py ''idx'') [JStr target, JStr embedding, point]"

definition derive_assertion_id :: "platform \<Rightarrow> pystr \<Rightarrow> json list \<Rightarrow> pystr" where
  "derive_assertion_id L prefix identity_fields =
     (let digest_hex = sha256_hex (canonical_bytes L (JList identity_fields));
          encoded = base32_lower (fromhex digest_hex)
      in prefix @ py ''_sha256_'' @ encoded)"

section \<open>Digests and identifiers: shape\<close>

lemma sha256_hex_shape:
  "length (sha256_hex data) = 64" "c \<in> set (sha256_hex data) \<Longrightarrow> is_lower_hex c"
  by (simp_all add: sha256_hex_def hexlify_lower_hex)

lemma fromhex_sha256_hex [simp]: "fromhex (sha256_hex data) = sha256 data"
  by (simp add: sha256_hex_def)

lemma derive_eq_iff:
  "derive L p xs = derive L p ys \<longleftrightarrow>
     sha256 (canonical_bytes L (JList xs)) = sha256 (canonical_bytes L (JList ys))"
  by (simp add: derive_def)

lemma replace_cr_no_cr: "13 \<notin> set (replace_cr s)"
  by (auto simp: replace_cr_def)

lemma replace_crlf_id: "13 \<notin> set s \<Longrightarrow> replace_crlf s = s"
  by (induction s rule: replace_crlf.induct) auto

lemma replace_cr_id: "13 \<notin> set s \<Longrightarrow> replace_cr s = s"
  by (auto simp: replace_cr_def intro!: map_idI)

section \<open>Key order\<close>

definition scalar :: "codepoint \<Rightarrow> bool" where
  "scalar c \<longleftrightarrow> c < 1114112 \<and> \<not> (55296 \<le> c \<and> c < 57344)"

lemma utf16_units_prefix:
  assumes "scalar c" "scalar d" "utf16_units c @ xs = utf16_units d @ ys"
  shows "c = d \<and> xs = ys"
proof (cases "65535 < c"; cases "65535 < d")
  assume big: "65535 < c" "65535 < d"
  then have "(c - 65536) div 1024 = (d - 65536) div 1024" "(c - 65536) mod 1024 = (d - 65536) mod 1024" "xs = ys"
    using assms by (auto simp: utf16_units_def)
  then have "c - 65536 = d - 65536"
    by (metis div_mult_mod_eq)
  with big \<open>xs = ys\<close> show ?thesis by simp
qed (use assms in \<open>auto simp: utf16_units_def scalar_def\<close>)

lemma utf16_code_units_inj:
  assumes "list_all scalar s" "list_all scalar t" "utf16_code_units s = utf16_code_units t"
  shows "s = t"
  using assms
proof (induction s arbitrary: t)
  case Nil
  then show ?case
    by (cases t) (auto simp: utf16_code_units_def utf16_units_def split: if_splits)
next
  case (Cons c s)
  then obtain d u where t: "t = d # u"
    by (cases t) (auto simp: utf16_code_units_def utf16_units_def split: if_splits)
  then have "c = d \<and> concat (map utf16_units s) = concat (map utf16_units u)"
    using Cons.prems by (intro utf16_units_prefix) (simp_all add: utf16_code_units_def)
  then show ?case
    using Cons t by (simp add: utf16_code_units_def)
qed

lemma sort_key_perm:
  assumes "mset ys = mset xs" "inj_on f (set xs)" "distinct xs"
  shows "sort_key f ys = sort_key f xs"
proof (rule map_sorted_distinct_set_unique [where f = f])
  have s: "set ys = set xs" using assms(1) by (rule mset_eq_setD)
  have d: "distinct ys" using assms(1,3) by (metis mset_eq_imp_distinct_iff)
  show "inj_on f (set (sort_key f ys) \<union> set (sort_key f xs))"
    using assms(2) s by simp
  show "distinct (map f (sort_key f ys))" "distinct (map f (sort_key f xs))"
    using assms(2,3) d s by (simp_all add: distinct_map)
qed (use assms in \<open>auto dest: mset_eq_setD\<close>)

text \<open>The order in which a dictionary was filled does not reach the canonical text.\<close>

lemma encode_object_perm:
  assumes "mset ms' = mset ms" "distinct (map fst ms)"
    "\<And>k. k \<in> fst ` set ms \<Longrightarrow> list_all scalar k"
  shows "encode_object L ms' = encode_object L ms"
proof -
  have "inj_on fst (set ms)" "distinct ms"
    using assms(2) by (simp_all add: distinct_map)
  moreover have "inj_on utf16_code_units (fst ` set ms)"
    using assms(3) by (auto intro!: inj_onI utf16_code_units_inj)
  ultimately have inj: "inj_on (\<lambda>m. utf16_code_units (fst m)) (set ms)"
    by (simp add: inj_on_def)
  show ?thesis
    using sort_key_perm [OF assms(1) inj \<open>distinct ms\<close>] by (simp add: encode_object_def)
qed

text \<open>A platform on which concrete inputs are evaluated.\<close>

definition sample_platform :: platform where
  "sample_platform = \<lparr>nfc = id, hkdf = (\<lambda>secret info. info), repr_str = id\<rparr>"

end
