(* ===== verification/Models.thy ===== *)
theory Models
  imports Canonical
begin

text \<open>
  \<open>ragledger.core.models\<close>: the manifest records, one Isabelle record per pydantic model
  with the fields in the source's order (a prefix per record keeps the selectors apart),
  the \<open>Literal\<close> vocabularies as datatypes, the discriminated union \<open>Assertion\<close> as a
  datatype. Timestamps are the UTC instants that \<open>UtcDateTime\<close> validation leaves.
\<close>

type_synonym dict = "(pystr \<times> json) list"

text \<open>\<open>d.get(k)\<close>.\<close>

definition jget :: "dict \<Rightarrow> string \<Rightarrow> json" where
  "jget d k = (case map_of d (py k) of None \<Rightarrow> JNull | Some v \<Rightarrow> v)"

section \<open>Timestamps\<close>

record utc_datetime =
  year :: nat
  month :: nat
  day :: nat
  hour :: nat
  minute :: nat
  second :: nat
  microsecond :: nat

definition serialize_utc :: "utc_datetime \<Rightarrow> pystr" where
  "serialize_utc t =
     zfill 4 (show_nat (year t)) @ py ''-'' @ zfill 2 (show_nat (month t)) @ py ''-'' @ zfill 2 (show_nat (day t))
     @ py ''T'' @ zfill 2 (show_nat (hour t)) @ py '':'' @ zfill 2 (show_nat (minute t)) @ py '':''
     @ zfill 2 (show_nat (second t))
     @ (if microsecond t \<noteq> 0 then py ''.'' @ zfill 6 (show_nat (microsecond t)) else []) @ py ''Z''"

section \<open>Build envelope\<close>

record warning_record =
  wr_code :: pystr
  wr_message :: "pystr option"
  wr_context :: "dict option"

record stage_record =
  stg_name :: pystr
  stg_version :: pystr
  stg_config_hash :: "pystr option"
  stg_input_count :: "nat option"
  stg_output_count :: "nat option"

record build_environment =
  env_os :: "pystr option"
  env_image_digest :: "pystr option"
  env_python_version :: pystr
  env_package_lock_hash :: "pystr option"

datatype build_status = BuildComplete | BuildIncomplete | BuildCancelled

primrec build_status_value :: "build_status \<Rightarrow> pystr" where
  "build_status_value BuildComplete = py ''complete''"
| "build_status_value BuildIncomplete = py ''incomplete''"
| "build_status_value BuildCancelled = py ''cancelled''"

record build_record =
  bld_build_id :: pystr
  bld_status :: build_status
  bld_source_snapshot_hash :: pystr
  bld_pipeline_config_hash :: pystr
  bld_started_at :: utc_datetime
  bld_completed_at :: utc_datetime
  bld_environment :: build_environment
  bld_stages :: "stage_record list"
  bld_warnings :: "warning_record list"
  bld_extensions :: "dict option"

section \<open>Sources and parse runs\<close>

datatype source_status = SourceActive | SourceTombstone
datatype relationship_type = DuplicateOf | Supersedes | RenamedFrom

primrec source_status_value :: "source_status \<Rightarrow> pystr" where
  "source_status_value SourceActive = py ''active''"
| "source_status_value SourceTombstone = py ''tombstone''"

primrec relationship_type_value :: "relationship_type \<Rightarrow> pystr" where
  "relationship_type_value DuplicateOf = py ''duplicate_of''"
| "relationship_type_value Supersedes = py ''supersedes''"
| "relationship_type_value RenamedFrom = py ''renamed_from''"

record source_relationship =
  rel_type :: relationship_type
  rel_target_version_id :: pystr

record source_record =
  src_id :: pystr
  src_version_id :: pystr
  src_namespace :: pystr
  src_uri :: pystr
  src_media_type :: pystr
  src_size_bytes :: nat
  src_content_hash :: pystr
  src_modified_at :: "utc_datetime option"
  src_discovered_by :: "pystr option"
  src_source_system :: pystr
  src_status :: source_status
  src_declared_tenant :: "pystr option"
  src_declared_acl_assertion_id :: "pystr option"
  src_license_assertion_ids :: "pystr list"
  src_raw_artifact_ref :: "pystr option"
  src_relationships :: "source_relationship list"
  src_extensions :: "dict option"

datatype parse_status = ParseSuccess | ParsePartial | ParseFail

primrec parse_status_value :: "parse_status \<Rightarrow> pystr" where
  "parse_status_value ParseSuccess = py ''success''"
| "parse_status_value ParsePartial = py ''partial''"
| "parse_status_value ParseFail = py ''fail''"

record ocr_info =
  ocr_enabled :: bool
  ocr_engine :: "pystr option"
  ocr_model :: "pystr option"
  ocr_languages :: "pystr list option"

record parse_record =
  prs_id :: pystr
  prs_source_version_id :: pystr
  prs_parser_name :: pystr
  prs_parser_version :: pystr
  prs_container_digest :: "pystr option"
  prs_config_hash :: "pystr option"
  prs_config_redacted :: "dict option"
  prs_ocr :: "ocr_info option"
  prs_status :: parse_status
  prs_warnings :: "warning_record list"
  prs_parsed_artifact_ref :: pystr
  prs_duration_seconds :: float64
  prs_extensions :: "dict option"

section \<open>Chunks and embeddings\<close>

record structural_locator =
  loc_kind :: pystr
  loc_page_start :: "nat option"
  loc_page_end :: "nat option"
  loc_heading_path :: "pystr list option"
  loc_element_ids :: "pystr list option"
  loc_character_start :: "nat option"
  loc_character_end :: "nat option"
  loc_ordinal :: nat

record tokenizer_info =
  tok_name :: pystr
  tok_revision :: pystr

record chunk_metadata =
  cmd_heading_path :: "pystr list option"
  cmd_table_caption :: "pystr option"
  cmd_custom :: "dict option"

record chunk_record =
  chk_id :: pystr
  chk_source_version_id :: pystr
  chk_parse_run_id :: pystr
  chk_locator :: structural_locator
  chk_raw_hash :: pystr
  chk_contextualized_hash :: pystr
  chk_token_count :: nat
  chk_tokenizer :: tokenizer_info
  chk_text_artifact_ref :: "pystr option"
  chk_neighbor_ids :: "pystr list"
  chk_metadata :: "chunk_metadata option"
  chk_pii_assertion_ids :: "pystr list"
  chk_license_assertion_ids :: "pystr list"
  chk_acl_assertion_ids :: "pystr list"
  chk_extensions :: "dict option"

datatype normalization = NormNone | NormL2
datatype distance_expectation = Cosine | Dot | Euclidean | Manhattan

primrec normalization_value :: "normalization \<Rightarrow> pystr" where
  "normalization_value NormNone = py ''none''"
| "normalization_value NormL2 = py ''l2''"

primrec distance_expectation_value :: "distance_expectation \<Rightarrow> pystr" where
  "distance_expectation_value Cosine = py ''cosine''"
| "distance_expectation_value Dot = py ''dot''"
| "distance_expectation_value Euclidean = py ''euclidean''"
| "distance_expectation_value Manhattan = py ''manhattan''"

record embedding_model_info =
  mdl_provider :: pystr
  mdl_name :: pystr
  mdl_revision :: pystr

record embedding_record =
  emb_id :: pystr
  emb_chunk_id :: pystr
  emb_model :: embedding_model_info
  emb_dimension :: nat
  emb_dtype :: pystr
  emb_normalization :: normalization
  emb_distance_expectation :: "distance_expectation option"
  emb_contextualized_hash :: pystr
  emb_vector_hash :: "pystr option"
  emb_generated_at :: utc_datetime
  emb_usage :: "dict option"
  emb_extensions :: "dict option"

section \<open>Index bindings and artifacts\<close>

datatype write_status = WritePending | WriteWritten | WriteUnknown

primrec write_status_value :: "write_status \<Rightarrow> pystr" where
  "write_status_value WritePending = py ''pending''"
| "write_status_value WriteWritten = py ''written''"
| "write_status_value WriteUnknown = py ''unknown''"

type_synonym point_id = json

record index_binding =
  idx_id :: pystr
  idx_target :: pystr
  idx_namespace :: pystr
  idx_point_id :: point_id
  idx_embedding_id :: pystr
  idx_expected_payload_hash :: pystr
  idx_expected_payload_projection :: "dict option"
  idx_tenant_projection :: "json option"
  idx_acl_projection :: "json option"
  idx_write_status :: "write_status option"
  idx_write_receipt :: "dict option"
  idx_extensions :: "dict option"

datatype compression = CompressionNone | Gzip | Zstd
datatype encryption = EncryptionNone | ServerManaged
datatype sensitivity = Public | Internal | Sensitive | Restricted

primrec compression_value :: "compression \<Rightarrow> pystr" where
  "compression_value CompressionNone = py ''none''"
| "compression_value Gzip = py ''gzip''"
| "compression_value Zstd = py ''zstd''"

primrec encryption_value :: "encryption \<Rightarrow> pystr" where
  "encryption_value EncryptionNone = py ''none''"
| "encryption_value ServerManaged = py ''server_managed''"

primrec sensitivity_value :: "sensitivity \<Rightarrow> pystr" where
  "sensitivity_value Public = py ''public''"
| "sensitivity_value Internal = py ''internal''"
| "sensitivity_value Sensitive = py ''sensitive''"
| "sensitivity_value Restricted = py ''restricted''"

record artifact_ref =
  art_artifact_id :: pystr
  art_media_type :: pystr
  art_sha256 :: pystr
  art_size_bytes :: nat
  art_compression :: compression
  art_encryption :: encryption
  art_locator :: pystr
  art_sensitivity :: sensitivity

section \<open>Assertions\<close>

record pii_scanner_info =
  scn_name :: pystr
  scn_version :: pystr
  scn_language :: "pystr option"
  scn_config_hash :: "pystr option"

datatype pii_scan_status = NoFindingsDetected | FindingsDetected

primrec pii_scan_status_value :: "pii_scan_status \<Rightarrow> pystr" where
  "pii_scan_status_value NoFindingsDetected = py ''no_findings_detected''"
| "pii_scan_status_value FindingsDetected = py ''findings_detected''"

record pii_finding =
  pf_entity_type :: pystr
  pf_confidence :: float64
  pf_start :: nat
  pf_end :: nat
  pf_masked_preview :: "pystr option"
  pf_value_hmac :: "pystr option"
  pf_recognizer_id :: pystr
  pf_recognizer_version :: pystr

record pii_scan_assertion =
  pii_id :: pystr
  pii_subject_ref :: pystr
  pii_created_at :: utc_datetime
  pii_scanner :: pii_scanner_info
  pii_status :: pii_scan_status
  pii_findings :: "pii_finding list"
  pii_extensions :: "dict option"

datatype license_method = UserAssertion | Frontmatter | Sidecar | PathRuleMethod | RepositoryDefault

primrec license_method_value :: "license_method \<Rightarrow> pystr" where
  "license_method_value UserAssertion = py ''user_assertion''"
| "license_method_value Frontmatter = py ''frontmatter''"
| "license_method_value Sidecar = py ''sidecar''"
| "license_method_value PathRuleMethod = py ''path_rule''"
| "license_method_value RepositoryDefault = py ''repository_default''"

record license_assertion =
  lic_id :: pystr
  lic_subject_ref :: pystr
  lic_created_at :: utc_datetime
  lic_spdx_expression :: pystr
  lic_method :: license_method
  lic_confidence :: "float64 option"
  lic_license_list_version :: "pystr option"
  lic_conflicting_assertion_ids :: "pystr list"
  lic_extensions :: "dict option"

record acl_assertion =
  acl_id :: pystr
  acl_subject_ref :: pystr
  acl_created_at :: utc_datetime
  acl_hash :: pystr
  acl_entries :: "pystr list"
  acl_extensions :: "dict option"

record tenant_assertion =
  tnt_id :: pystr
  tnt_subject_ref :: pystr
  tnt_created_at :: utc_datetime
  tnt_hash :: pystr
  tnt_key :: pystr
  tnt_value :: pystr
  tnt_extensions :: "dict option"

record quality_assertion =
  qa_id :: pystr
  qa_subject_ref :: pystr
  qa_created_at :: utc_datetime
  qa_warnings :: "warning_record list"
  qa_extensions :: "dict option"

datatype assertion =
    PiiScan pii_scan_assertion
  | License license_assertion
  | Acl acl_assertion
  | Tenant tenant_assertion
  | Quality quality_assertion

primrec assertion_id :: "assertion \<Rightarrow> pystr" where
  "assertion_id (PiiScan a) = pii_id a"
| "assertion_id (License a) = lic_id a"
| "assertion_id (Acl a) = acl_id a"
| "assertion_id (Tenant a) = tnt_id a"
| "assertion_id (Quality a) = qa_id a"

section \<open>Envelope\<close>

record statistics =
  stat_source_count :: nat
  stat_source_version_count :: "nat option"
  stat_parse_run_count :: "nat option"
  stat_chunk_count :: nat
  stat_embedding_count :: nat
  stat_index_binding_count :: nat
  stat_assertion_count :: nat
  stat_artifact_count :: nat
  stat_warning_count :: "nat option"
  stat_extensions :: "dict option"

record integrity =
  int_manifest_hash :: pystr

record signature_record =
  sig_key_id :: pystr
  sig_signature :: pystr
  sig_signed_at :: utc_datetime
  sig_issuer :: "pystr option"

record manifest_envelope =
  mf_created_at :: utc_datetime
  mf_ledger_version :: pystr
  mf_namespace :: pystr
  mf_build :: build_record
  mf_sources :: "source_record list"
  mf_parse_runs :: "parse_record list"
  mf_chunks :: "chunk_record list"
  mf_embeddings :: "embedding_record list"
  mf_index_bindings :: "index_binding list"
  mf_assertions :: "assertion list"
  mf_artifacts :: "artifact_ref list"
  mf_statistics :: statistics
  mf_integrity :: integrity
  mf_signatures :: "signature_record list"
  mf_extensions :: "dict option"

section \<open>A manifest with one binding\<close>

definition sample_time :: utc_datetime where
  "sample_time = \<lparr>year = 2025, month = 1, day = 1, hour = 0, minute = 0, second = 0, microsecond = 0\<rparr>"

definition sample_binding :: index_binding where
  "sample_binding =
     \<lparr>idx_id = py ''b1'', idx_target = py ''t'', idx_namespace = py ''s'', idx_point_id = JInt 1,
      idx_embedding_id = py ''emb1'', idx_expected_payload_hash = py ''h1'', idx_expected_payload_projection = None,
      idx_tenant_projection = None, idx_acl_projection = Some (JList [JStr (py ''USER:ann'')]),
      idx_write_status = None, idx_write_receipt = None, idx_extensions = None\<rparr>"

definition sample_manifest :: manifest_envelope where
  "sample_manifest =
     \<lparr>mf_created_at = sample_time, mf_ledger_version = py ''1.0'', mf_namespace = py ''n'',
      mf_build =
        \<lparr>bld_build_id = py ''build1'', bld_status = BuildComplete, bld_source_snapshot_hash = py ''x'',
         bld_pipeline_config_hash = py ''y'', bld_started_at = sample_time, bld_completed_at = sample_time,
         bld_environment = \<lparr>env_os = None, env_image_digest = None, env_python_version = py ''3'', env_package_lock_hash = None\<rparr>,
         bld_stages = [], bld_warnings = [], bld_extensions = None\<rparr>,
      mf_sources = [], mf_parse_runs = [], mf_chunks = [], mf_embeddings = [], mf_index_bindings = [sample_binding],
      mf_assertions = [], mf_artifacts = [],
      mf_statistics =
        \<lparr>stat_source_count = 0, stat_source_version_count = None, stat_parse_run_count = None, stat_chunk_count = 0,
         stat_embedding_count = 0, stat_index_binding_count = 1, stat_assertion_count = 0, stat_artifact_count = 0,
         stat_warning_count = None, stat_extensions = None\<rparr>,
      mf_integrity = \<lparr>int_manifest_hash = py ''z''\<rparr>, mf_signatures = [], mf_extensions = None\<rparr>"

end
