(* ===== verification/Py_Json.thy ===== *)
theory Py_Json
  imports Canonical
begin

text \<open>
  The standard \<open>json\<close> module as the repository uses it for spill files:
  \<open>json.dumps(value, separators=(",", ":"))\<close> with its ASCII-only strings, and
  \<open>json.loads\<close> of UTF-8 bytes, a recursive-descent parser. Nesting is bounded by the
  length of the text, which is the fuel of the parser. The main result is the round trip.
  \<open>None\<close> stands for a decode error (and for the non-finite numbers that
  \<open>json\<close> values do not have).
\<close>

section \<open>UTF-8 decoding\<close>

definition is_cont :: "byte \<Rightarrow> bool" where
  "is_cont b \<longleftrightarrow> 128 \<le> unat b \<and> unat b < 192"

fun utf8_decode :: "bytes \<Rightarrow> pystr option" where
  "utf8_decode [] = Some []"
| "utf8_decode (b # bs) =
     (let n = unat b
      in if n < 128 then map_option (Cons n) (utf8_decode bs)
         else if 194 \<le> n \<and> n < 224 then
           (case bs of
              c # cs \<Rightarrow>
                if is_cont c then map_option (Cons ((n - 192) * 64 + (unat c - 128))) (utf8_decode cs) else None
            | _ \<Rightarrow> None)
         else if 224 \<le> n \<and> n < 240 then
           (case bs of
              c # d # cs \<Rightarrow>
                let v = (n - 224) * 4096 + (unat c - 128) * 64 + (unat d - 128)
                in if is_cont c \<and> is_cont d \<and> 2048 \<le> v \<and> \<not> (55296 \<le> v \<and> v < 57344) then map_option (Cons v) (utf8_decode cs) else None
            | _ \<Rightarrow> None)
         else if 240 \<le> n \<and> n < 245 then
           (case bs of
              c # d # e # cs \<Rightarrow>
                let v = (n - 240) * 262144 + (unat c - 128) * 4096 + (unat d - 128) * 64 + (unat e - 128)
                in if is_cont c \<and> is_cont d \<and> is_cont e \<and> 65536 \<le> v \<and> v < 1114112
                   then map_option (Cons v) (utf8_decode cs) else None
            | _ \<Rightarrow> None)
         else None)"

lemma unat_small [simp]: "n < 256 \<Longrightarrow> unat (of_nat n :: byte) = n"
  by (simp add: unat_of_nat take_bit_nat_eq_self_iff)

lemma unat_offset [simp]:
  "numeral k + n < (256 :: nat) \<Longrightarrow> unat (numeral k + of_nat n :: byte) = numeral k + n"
  by (metis of_nat_add of_nat_numeral unat_small)

lemma cont_byte [simp]: "unat (128 + of_nat (n mod 64) :: byte) = 128 + n mod 64"
proof -
  have "n mod 64 < 64" by simp
  then have "128 + n mod 64 < 256" by linarith
  then show ?thesis by simp
qed

lemma is_cont_mod [simp]: "is_cont (128 + of_nat (n mod 64))"
proof -
  have "n mod 64 < 64" by simp
  then show ?thesis unfolding is_cont_def cont_byte by linarith
qed

lemma utf8_decode_char:
  assumes sc: "scalar c"
  shows "utf8_decode (utf8_char c @ bs) = map_option (Cons c) (utf8_decode bs)"
proof -
  have assms: "c < 1114112" and ns: "\<not> (55296 \<le> c \<and> c < 57344)" using sc by (simp_all add: scalar_def)
  have q: "c div 4096 = c div 64 div 64" "c div 262144 = c div 64 div 64 div 64"
    by (simp_all add: div_mult2_eq [symmetric])
  have d: "c div 4096 * 4096 + c div 64 mod 64 * 64 + c mod 64 = c"
    unfolding q using div_mult_mod_eq [of c 64] div_mult_mod_eq [of "c div 64" 64] by linarith
  have e: "c div 262144 * 262144 + c div 4096 mod 64 * 4096 + c div 64 mod 64 * 64 + c mod 64 = c"
    unfolding q using div_mult_mod_eq [of c 64] div_mult_mod_eq [of "c div 64" 64]
      div_mult_mod_eq [of "c div 64 div 64" 64] by linarith
  consider "c < 128" | "128 \<le> c" "c < 2048" | "2048 \<le> c" "c < 65536" | "65536 \<le> c" by linarith
  then show ?thesis
  proof cases
    case 2
    then have "192 + c div 64 < 256" "194 \<le> 192 + c div 64" "192 + c div 64 < 224"
      using div_le_mono [of 128 c 64] less_mult_imp_div_less [of c 32 64] by simp_all
    with 2 show ?thesis by (simp add: utf8_char_def)
  next
    case 3
    then have "224 + c div 4096 < 256" "224 + c div 4096 < 240"
      using less_mult_imp_div_less [of c 16 4096] by simp_all
    with 3 d ns show ?thesis by (simp add: utf8_char_def Let_def ac_simps)
  next
    case 4
    then have "240 + c div 262144 < 256" "240 + c div 262144 < 245"
      using assms less_mult_imp_div_less [of c 5 262144] by simp_all
    with 4 e assms show ?thesis by (simp add: utf8_char_def Let_def ac_simps)
  qed (simp add: utf8_char_def)
qed

lemma utf8_decode_encode:
  "list_all scalar s \<Longrightarrow> utf8_decode (utf8_encode s) = Some s"
  by (induction s) (auto simp: utf8_encode_def utf8_decode_char)

section \<open>Printing\<close>

definition hex4 :: "nat \<Rightarrow> pystr" where
  "hex4 u = [hex_digit (u div 4096 mod 16), hex_digit (u div 256 mod 16), hex_digit (u div 16 mod 16), hex_digit (u mod 16)]"

definition escape_ascii :: "codepoint \<Rightarrow> pystr" where
  "escape_ascii c =
     (case control_escapes c of
        Some e \<Rightarrow> e
      | None \<Rightarrow>
          if 32 \<le> c \<and> c \<le> 126 then [c]
          else concat (map (\<lambda>u. [92, 117] @ hex4 u) (utf16_units c)))"

definition dumps_string :: "pystr \<Rightarrow> pystr" where
  "dumps_string s = 34 # concat (map escape_ascii s) @ [34]"

text \<open>\<open>json.dumps\<close> with its default separators (a space after each) or the compact ones.\<close>

definition gap :: "bool \<Rightarrow> pystr" where
  "gap spaced = (if spaced then [32] else [])"

primrec dumps_with :: "bool \<Rightarrow> json \<Rightarrow> pystr" where
  "dumps_with p JNull = py ''null''"
| "dumps_with p (JBool b) = (if b then py ''true'' else py ''false'')"
| "dumps_with p (JInt i) = show_int i"
| "dumps_with p (JFloat x) = repr_float x"
| "dumps_with p (JStr s) = dumps_string s"
| "dumps_with p (JList vs) = [91] @ join (44 # gap p) (map (dumps_with p) vs) @ [93]"
| "dumps_with p (JObj kvs) =
     [123] @ join (44 # gap p) (map (\<lambda>m. dumps_string (fst m) @ [58] @ gap p @ snd m) (map (map_prod id (dumps_with p)) kvs)) @ [125]"

abbreviation dumps :: "json \<Rightarrow> pystr" where
  "dumps \<equiv> dumps_with False"

abbreviation dumps_spaced :: "json \<Rightarrow> pystr" where
  "dumps_spaced \<equiv> dumps_with True"

section \<open>Parsing\<close>

definition is_ws :: "codepoint \<Rightarrow> bool" where
  "is_ws c \<longleftrightarrow> c \<in> {32, 9, 10, 13}"

definition skip_ws :: "pystr \<Rightarrow> pystr" where
  "skip_ws s = dropWhile is_ws s"

definition hex_nibble :: "codepoint \<Rightarrow> nat option" where
  "hex_nibble c =
     (if is_digit c then Some (c - 48)
      else if 97 \<le> c \<and> c \<le> 102 then Some (c - 87)
      else if 65 \<le> c \<and> c \<le> 70 then Some (c - 55) else None)"

definition decode_uXXXX :: "codepoint \<Rightarrow> codepoint \<Rightarrow> codepoint \<Rightarrow> codepoint \<Rightarrow> nat option" where
  "decode_uXXXX a b c d =
     (case (hex_nibble a, hex_nibble b, hex_nibble c, hex_nibble d) of
        (Some w, Some x, Some y, Some z) \<Rightarrow> Some (w * 4096 + x * 256 + y * 16 + z)
      | _ \<Rightarrow> None)"

definition backslash :: "codepoint \<Rightarrow> codepoint option" where
  "backslash = map_of [(34, 34), (92, 92), (47, 47), (98, 8), (102, 12), (110, 10), (114, 13), (116, 9)]"

text \<open>The \<open>XXXX\<close> of an escape that directly follows, if there is one.\<close>

definition high_surrogate :: "nat \<Rightarrow> bool" where
  "high_surrogate u \<longleftrightarrow> 55296 \<le> u \<and> u \<le> 56319"

definition low_surrogate :: "nat \<Rightarrow> bool" where
  "low_surrogate u \<longleftrightarrow> 56320 \<le> u \<and> u \<le> 57343"

text \<open>\<open>scanstring\<close> after the opening quote (strict mode): the string and what follows the
  closing quote.\<close>

function scan_string :: "pystr \<Rightarrow> (pystr \<times> pystr) option" where
  "scan_string [] = None"
| "scan_string (c # cs) =
     (if c = 34 then Some ([], cs)
      else if c < 32 then None
      else if c \<noteq> 92 then map_option (map_prod (Cons c) id) (scan_string cs)
      else
        (case cs of
           [] \<Rightarrow> None
         | e # r \<Rightarrow>
             if e \<noteq> 117 then
               (case backslash e of None \<Rightarrow> None | Some x \<Rightarrow> map_option (map_prod (Cons x) id) (scan_string r))
             else
               (case r of
                  h1 # h2 # h3 # h4 # r2 \<Rightarrow>
                    (case decode_uXXXX h1 h2 h3 h4 of
                       None \<Rightarrow> None
                     | Some u \<Rightarrow>
                         (if high_surrogate u \<and> take 2 r2 = [92, 117] then
                            (case drop 2 r2 of
                               g1 # g2 # g3 # g4 # r3 \<Rightarrow>
                                 (case decode_uXXXX g1 g2 g3 g4 of
                                    None \<Rightarrow> None
                                  | Some v \<Rightarrow>
                                      if low_surrogate v
                                      then map_option (map_prod (Cons (65536 + (u - 55296) * 1024 + (v - 56320))) id) (scan_string r3)
                                      else map_option (map_prod (Cons u) id) (scan_string r2))
                             | _ \<Rightarrow> None)
                          else map_option (map_prod (Cons u) id) (scan_string r2)))
                | _ \<Rightarrow> None)))"

  by pat_completeness auto
termination
  by (relation "measure length") (auto dest!: arg_cong [of "drop 2 _" _ length])

declare scan_string.simps(2) [simp del]

text \<open>The number at the start of the text: an integer unless it has a fraction or an
  exponent.\<close>

definition number_frac :: "pystr \<Rightarrow> pystr \<times> pystr" where
  "number_frac r =
     (case r of
        c # cs \<Rightarrow> if c = 46 \<and> takeWhile is_digit cs \<noteq> [] then (takeWhile is_digit cs, dropWhile is_digit cs) else ([], r)
      | [] \<Rightarrow> ([], r))"

definition number_exp :: "pystr \<Rightarrow> (int \<times> pystr) option" where
  "number_exp r =
     (case r of
        c # cs \<Rightarrow>
          if c = 101 \<or> c = 69 then
            (let (sign, ds) =
               (case cs of d # ds \<Rightarrow> if d = 43 then (1, ds) else if d = 45 then (- 1, ds) else (1, cs) | [] \<Rightarrow> (1, cs))
             in if takeWhile is_digit ds = [] then None
                else Some (sign * int (read_digits 0 (takeWhile is_digit ds)), dropWhile is_digit ds))
          else None
      | [] \<Rightarrow> None)"

definition scan_number :: "pystr \<Rightarrow> (json \<times> pystr) option" where
  "scan_number s =
     (let (sign, r) = (case s of c # cs \<Rightarrow> if c = 45 then (- 1, cs) else (1, s) | [] \<Rightarrow> (1, s));
          ds = (case r of c # cs \<Rightarrow> if c = 48 then [48] else takeWhile is_digit r | [] \<Rightarrow> []);
          r1 = drop (length ds) r
      in if ds = [] then None
         else
           (let (frac, r2) = number_frac r1;
                scaled = int (read_digits 0 (ds @ frac))
            in (case number_exp r2 of
                  None \<Rightarrow>
                    if frac = [] then Some (JInt (sign * scaled), r2)
                    else Some (JFloat (fl (of_int (sign * scaled) * 10 powi (- int (length frac)))), r2)
                | Some (e, r3) \<Rightarrow>
                    Some (JFloat (fl (of_int (sign * scaled) * 10 powi (e - int (length frac)))), r3))))"

definition keyword :: "string \<Rightarrow> json \<Rightarrow> pystr \<Rightarrow> (json \<times> pystr) option" where
  "keyword w v s = (if take (length w) s = py w then Some (v, drop (length w) s) else None)"

fun parse_value :: "nat \<Rightarrow> pystr \<Rightarrow> (json \<times> pystr) option"
  and parse_items :: "nat \<Rightarrow> pystr \<Rightarrow> (json list \<times> pystr) option"
  and parse_members :: "nat \<Rightarrow> pystr \<Rightarrow> ((pystr \<times> json) list \<times> pystr) option"
where
  "parse_value 0 s = None"
| "parse_value (Suc n) s =
     (case s of
        [] \<Rightarrow> None
      | c # cs \<Rightarrow>
          if c = 34 then map_option (map_prod JStr id) (scan_string cs)
          else if c = 123 then
            (if take 1 (skip_ws cs) = [125] then Some (JObj [], drop 1 (skip_ws cs))
             else map_option (map_prod (\<lambda>ms. JObj (foldl (\<lambda>d (k, v). dict_set k v d) [] ms)) id) (parse_members n (skip_ws cs)))
          else if c = 91 then
            (if take 1 (skip_ws cs) = [93] then Some (JList [], drop 1 (skip_ws cs))
             else map_option (map_prod JList id) (parse_items n (skip_ws cs)))
          else if c = 110 then keyword ''null'' JNull s
          else if c = 116 then keyword ''true'' (JBool True) s
          else if c = 102 then keyword ''false'' (JBool False) s
          else scan_number s)"
| "parse_items 0 s = None"
| "parse_items (Suc n) s =
     (case parse_value n s of
        None \<Rightarrow> None
      | Some (v, r) \<Rightarrow>
          (case skip_ws r of
             [] \<Rightarrow> None
           | c # r' \<Rightarrow>
               if c = 93 then Some ([v], r')
               else if c = 44 then map_option (map_prod (Cons v) id) (parse_items n (skip_ws r'))
               else None))"
| "parse_members 0 s = None"
| "parse_members (Suc n) s =
     (case s of
        [] \<Rightarrow> None
      | c # cs \<Rightarrow>
          if c \<noteq> 34 then None
          else
            (case scan_string cs of
               None \<Rightarrow> None
             | Some (k, r) \<Rightarrow>
                 (if take 1 (skip_ws r) \<noteq> [58] then None
                  else
                    (case parse_value n (skip_ws (drop 1 (skip_ws r))) of
                       None \<Rightarrow> None
                     | Some (v, r2) \<Rightarrow>
                         (case skip_ws r2 of
                            [] \<Rightarrow> None
                          | d # r3 \<Rightarrow>
                              if d = 125 then Some ([(k, v)], r3)
                              else if d = 44 then map_option (map_prod (Cons (k, v)) id) (parse_members n (skip_ws r3))
                              else None)))))"

definition loads :: "bytes \<Rightarrow> json option" where
  "loads data =
     (case utf8_decode data of
        None \<Rightarrow> None
      | Some s \<Rightarrow>
          (case parse_value (Suc (length s)) (skip_ws s) of
             None \<Rightarrow> None
           | Some (v, r) \<Rightarrow> if skip_ws r = [] then Some v else None))"

section \<open>Round trip\<close>

text \<open>
  What \<open>json.loads(json.dumps(v))\<close> gives back: strings of Unicode scalar values, objects
  whose keys are distinct, and floats that \<open>repr\<close> writes exactly.
\<close>

definition float_storable :: "float64 \<Rightarrow> bool" where
  "float_storable x \<longleftrightarrow> scan_number (repr_float x) = Some (JFloat x, [])"

primrec storable :: "json \<Rightarrow> bool" where
  "storable JNull = True"
| "storable (JBool b) = True"
| "storable (JInt i) = True"
| "storable (JFloat x) = float_storable x"
| "storable (JStr s) = list_all scalar s"
| "storable (JList vs) = list_all id (map storable vs)"
| "storable (JObj kvs) =
     (distinct (map fst kvs) \<and> list_all (\<lambda>m. list_all scalar (fst m) \<and> snd m) (map (map_prod id storable) kvs))"

subsection \<open>Strings\<close>

lemma hex_nibble_digit [simp]: "d < 16 \<Longrightarrow> hex_nibble (hex_digit d) = Some d"
  by (auto simp: hex_nibble_def hex_digit_def is_digit_def)

lemma decode_hex4 [simp]:
  assumes "u < 65536"
  shows "hex4 u = [a, b, c, d] \<Longrightarrow> decode_uXXXX a b c d = Some u"
proof -
  assume h: "hex4 u = [a, b, c, d]"
  have q: "u div 256 = u div 16 div 16" "u div 4096 = u div 16 div 16 div 16"
    by (simp_all add: div_mult2_eq [symmetric])
  have lt: "u div 4096 < 16" using assms less_mult_imp_div_less [of u 16 4096] by simp
  from lt have m: "u div 16 div 16 div 16 mod 16 = u div 16 div 16 div 16" by (simp add: q)
  have "u div 4096 mod 16 * 4096 + u div 256 mod 16 * 256 + u div 16 mod 16 * 16 + u mod 16 = u"
    unfolding q m using div_mult_mod_eq [of u 16] div_mult_mod_eq [of "u div 16" 16]
      div_mult_mod_eq [of "u div 16 div 16" 16] by linarith
  with h lt show ?thesis by (auto simp: hex4_def decode_uXXXX_def)
qed

lemma hex4_split: "\<exists>a b c d. hex4 u = [a, b, c, d]"
  by (simp add: hex4_def)

lemma scan_string_plain:
  "32 \<le> c \<Longrightarrow> c \<noteq> 34 \<Longrightarrow> c \<noteq> 92 \<Longrightarrow> scan_string (c # cs) = map_option (map_prod (Cons c) id) (scan_string cs)"
  by (simp add: scan_string.simps)

lemma scan_string_backslash:
  "backslash e = Some x \<Longrightarrow> scan_string (92 # e # cs) = map_option (map_prod (Cons x) id) (scan_string cs)"
  by (auto simp: scan_string.simps(2) [of 92] backslash_def)

lemma scan_string_u:
  assumes "u < 65536" "\<not> high_surrogate u"
  shows "scan_string (92 # 117 # hex4 u @ cs) = map_option (map_prod (Cons u) id) (scan_string cs)"
proof -
  obtain a b c d where h: "hex4 u = [a, b, c, d]" using hex4_split by blast
  with decode_hex4 [OF assms(1) h] assms(2) show ?thesis
    by (simp add: scan_string.simps(2) [of 92])
qed

lemma scan_string_uu:
  assumes "u < 65536" "v < 65536" "high_surrogate u" "low_surrogate v"
  shows "scan_string (92 # 117 # hex4 u @ 92 # 117 # hex4 v @ cs) =
    map_option (map_prod (Cons (65536 + (u - 55296) * 1024 + (v - 56320))) id) (scan_string cs)"
proof -
  obtain a b c d where h: "hex4 u = [a, b, c, d]" using hex4_split by blast
  obtain e f g i where k: "hex4 v = [e, f, g, i]" using hex4_split by blast
  from h k decode_hex4 [OF assms(1) h] decode_hex4 [OF assms(2) k] assms(3,4) show ?thesis
    by (simp add: scan_string.simps(2) [of 92])
qed

lemma scan_string_escape:
  assumes "scalar c"
  shows "scan_string (escape_ascii c @ cs) = map_option (map_prod (Cons c) id) (scan_string cs)"
proof (cases "control_escapes c")
  case (Some e)
  then obtain f where "e = [92, f]" "backslash f = Some c"
    by (auto simp: control_escapes_def backslash_def split: if_splits)
  with Some show ?thesis by (simp add: escape_ascii_def scan_string_backslash)
next
  case None
  then have "c \<noteq> 34" "c \<noteq> 92" by (auto simp: control_escapes_def)
  show ?thesis
  proof (cases "32 \<le> c \<and> c \<le> 126")
    case True
    with None \<open>c \<noteq> 34\<close> \<open>c \<noteq> 92\<close> show ?thesis by (simp add: escape_ascii_def scan_string_plain)
  next
    case False
    show ?thesis
    proof (cases "65535 < c")
      case True
      define h where "h = (c - 65536) div 1024"
      define l where "l = (c - 65536) mod 1024"
      have "c - 65536 < 1024 * 1024" using assms by (auto simp: scalar_def)
      then have "h < 1024" unfolding h_def by (rule less_mult_imp_div_less)
      moreover have "l < 1024" by (simp add: l_def)
      moreover have "65536 + h * 1024 + l = c"
        using True div_mult_mod_eq [of "c - 65536" 1024] unfolding h_def l_def by linarith
      ultimately show ?thesis
        using None False True scan_string_uu [of "55296 + h" "56320 + l" cs]
        by (simp add: escape_ascii_def utf16_units_def high_surrogate_def low_surrogate_def h_def l_def)
    next
      case small: False
      then have "c < 65536" "\<not> high_surrogate c" using assms by (auto simp: scalar_def high_surrogate_def)
      with None False small scan_string_u [of c cs] show ?thesis
        by (auto simp: escape_ascii_def utf16_units_def)
    qed
  qed
qed

lemma scan_dumps_string:
  "list_all scalar s \<Longrightarrow> scan_string (concat (map escape_ascii s) @ 34 # r) = Some (s, r)"
  by (induction s) (simp_all add: scan_string_escape scan_string.simps(2) [of 34])

subsection \<open>Numbers\<close>

text \<open>What may follow a value in printed text: nothing, a comma or a closing bracket.\<close>

definition stop :: "pystr \<Rightarrow> bool" where
  "stop r \<longleftrightarrow> (case r of [] \<Rightarrow> True | c # _ \<Rightarrow> c \<in> {44, 93, 125})"

lemma stop_simps [simp]: "stop []" "stop (c # r) \<longleftrightarrow> c \<in> {44, 93, 125}"
  by (simp_all add: stop_def)

lemma digits_before_stop:
  assumes "stop r"
  shows "takeWhile is_digit (s @ r) = takeWhile is_digit s" "dropWhile is_digit (s @ r) = dropWhile is_digit s @ r"
proof -
  have "takeWhile is_digit r = []" "dropWhile is_digit r = r"
    using assms by (cases r; auto simp: is_digit_def)+
  then show "takeWhile is_digit (s @ r) = takeWhile is_digit s" "dropWhile is_digit (s @ r) = dropWhile is_digit s @ r"
    by (induction s) auto
qed

lemma number_frac_append:
  "stop r \<Longrightarrow> number_frac (s @ r) = (fst (number_frac s), snd (number_frac s) @ r)"
  by (cases s; cases r) (auto simp: number_frac_def digits_before_stop)

lemma number_exp_append:
  assumes "stop r" "number_exp s = Some (e, t)"
  shows "number_exp (s @ r) = Some (e, t @ r)"
proof -
  obtain c cs where s: "s = c # cs" using assms(2) by (cases s) (auto simp: number_exp_def)
  show ?thesis
    using assms by (cases cs) (auto simp: s number_exp_def digits_before_stop Let_def split: if_splits)
qed

lemma number_exp_stop: "stop r \<Longrightarrow> number_exp r = None"
  by (cases r) (auto simp: number_exp_def)

lemma scan_number_append:
  assumes "stop r" "scan_number s = Some (v, [])"
  shows "scan_number (s @ r) = Some (v, r)"
proof -
  define t where "t = (case s of c # cs \<Rightarrow> if c = 45 then cs else s | [] \<Rightarrow> s)"
  have t: "t \<noteq> []" "s \<noteq> []"
    using assms(2) by (auto simp: t_def scan_number_def Let_def split: list.splits if_splits prod.splits)
  have sgn: "(case s @ r of c # cs \<Rightarrow> if c = 45 then (- 1, cs) else (1, s @ r) | [] \<Rightarrow> (1, s @ r)) =
    ((case s of c # cs \<Rightarrow> if c = 45 then (- 1) else 1 | [] \<Rightarrow> (1::int)), t @ r)"
    and sgn0: "(case s of c # cs \<Rightarrow> if c = 45 then (- 1, cs) else (1, s) | [] \<Rightarrow> (1, s)) =
    ((case s of c # cs \<Rightarrow> if c = 45 then (- 1) else 1 | [] \<Rightarrow> (1::int)), t)"
    using t(2) by (auto simp: t_def split: list.splits)
  define ds where "ds = (case t of c # cs \<Rightarrow> if c = 48 then [48] else takeWhile is_digit t | [] \<Rightarrow> [])"
  have ds: "(case t @ r of c # cs \<Rightarrow> if c = 48 then [48] else takeWhile is_digit (t @ r) | [] \<Rightarrow> []) = ds"
    using t(1) digits_before_stop [OF assms(1), of t] by (auto simp: ds_def split: list.splits)
  have le: "length ds \<le> length t"
    using t(1) by (auto simp: ds_def length_takeWhile_le split: list.splits)
  obtain f r2 where f: "number_frac (drop (length ds) t) = (f, r2)" by fastforce
  have f': "number_frac (drop (length ds) (t @ r)) = (f, r2 @ r)"
    using number_frac_append [OF assms(1), of "drop (length ds) t"] f le by simp
  show ?thesis
  proof (cases "number_exp r2")
    case None
    then have "r2 = []" using assms(2) f
      by (auto simp: scan_number_def sgn0 ds_def [symmetric] Let_def split: if_splits)
    then show ?thesis using assms f f' None number_exp_stop [OF assms(1)]
      by (auto simp: scan_number_def sgn sgn0 ds ds_def [symmetric] Let_def split: if_splits)
  next
    case (Some p)
    obtain e r3 where p: "p = (e, r3)" by (cases p)
    show ?thesis
      using assms(2) f f' Some number_exp_append [OF assms(1), of r2 e r3]
      by (auto simp: scan_number_def sgn sgn0 ds ds_def [symmetric] Let_def p split: if_splits)
  qed
qed

lemma show_nat_hd: "0 < n \<Longrightarrow> hd (show_nat n) \<noteq> 48"
proof (induction n rule: show_nat.induct)
  case (1 n)
  show ?case
  proof (cases "n < 10")
    case True
    then show ?thesis using "1.prems" by (simp add: show_nat.simps [of n])
  next
    case False
    then have "0 < n div 10" using "1.prems" by simp
    with 1 False show ?thesis by (simp add: show_nat.simps [of n] hd_append)
  qed
qed

lemma scan_show_nat: "scan_number (show_nat n) = Some (JInt (int n), [])"
proof -
  obtain c cs where s: "show_nat n = c # cs" by (cases "show_nat n") auto
  have d: "\<forall>x \<in> set (c # cs). is_digit x" using show_nat_digits [of n] by (simp only: s)
  then have all: "takeWhile is_digit (c # cs) = c # cs" by (intro takeWhile_eq_all_conv [THEN iffD2]) auto
  have c: "c \<noteq> 45" using d by (auto simp: is_digit_def)
  have v: "read_digits 0 (c # cs) = n" using read_show_nat [of n] by (simp only: s)
  show ?thesis
  proof (cases "n = 0")
    case True
    then show ?thesis
      by (simp add: show_nat.simps [of 0] scan_number_def number_frac_def number_exp_def)
  next
    case False
    then have "c \<noteq> 48" using show_nat_hd [of n] s by simp
    then show ?thesis
      using c by (simp add: s scan_number_def number_frac_def number_exp_def Let_def all v del: takeWhile.simps read_digits.simps)
  qed
qed

lemma scan_minus:
  "scan_number s = Some (JInt i, []) \<Longrightarrow> hd s \<noteq> 45 \<Longrightarrow> scan_number (45 # s) = Some (JInt (- i), [])"
  by (cases s) (auto simp: scan_number_def Let_def split: if_splits prod.splits option.splits)

lemma scan_show_int: "scan_number (show_int i) = Some (JInt i, [])"
proof (cases "i < 0")
  case True
  have "hd (show_nat (nat (- i))) \<noteq> 45"
    using show_nat_digits [of "nat (- i)"] by (auto simp: is_digit_def dest!: bspec [OF _ hd_in_set])
  then show ?thesis
    using True scan_minus [OF scan_show_nat [of "nat (- i)"]] by (simp add: show_int_def)
qed (simp add: show_int_def scan_show_nat)

subsection \<open>Values\<close>

lemma scan_number_hd:
  assumes "scan_number s = Some p"
  shows "\<exists>c cs. s = c # cs \<and> (c = 45 \<or> is_digit c)"
proof (cases s)
  case (Cons c cs)
  then show ?thesis
    using assms by (auto simp: scan_number_def Let_def is_digit_def split: if_splits list.splits)
qed (use assms in \<open>simp add: scan_number_def\<close>)

lemma parse_number:
  assumes "scan_number s = Some (v, [])" "stop r"
  shows "parse_value (Suc n) (s @ r) = Some (v, r)"
proof -
  obtain c cs where s: "s = c # cs" "c = 45 \<or> is_digit c"
    using scan_number_hd [OF assms(1)] by blast
  then have "c \<notin> {34, 123, 91, 110, 116, 102}" by (auto simp: is_digit_def)
  then show ?thesis
    using scan_number_append [OF assms(2,1)] s(1) by simp
qed

lemma dumps_hd:
  assumes "storable v"
  shows "\<exists>c cs. dumps_with p v = c # cs \<and> \<not> is_ws c \<and> c \<noteq> 93"
proof (cases v)
  case (JInt i)
  then show ?thesis
    using scan_number_hd [OF scan_show_int [of i]] by (auto simp: is_ws_def is_digit_def)
next
  case (JFloat x)
  then show ?thesis
    using scan_number_hd [of "repr_float x"] assms by (auto simp: float_storable_def is_ws_def is_digit_def)
qed (auto simp: py_def is_ws_def dumps_string_def)

lemma skip_ws_dumps [simp]: "storable v \<Longrightarrow> skip_ws (dumps_with p v @ r) = dumps_with p v @ r"
  using dumps_hd [of v p] by (auto simp: skip_ws_def)

lemma skip_ws_nonblank [simp]: "\<not> is_ws c \<Longrightarrow> skip_ws (c # r) = c # r"
  by (simp add: skip_ws_def)

lemma skip_ws_dumps_string [simp]: "skip_ws (dumps_string k @ r) = dumps_string k @ r"
  by (simp add: skip_ws_def dumps_string_def is_ws_def)

lemma skip_ws_gap [simp]: "skip_ws (gap p @ r) = skip_ws r"
  by (simp add: gap_def skip_ws_def is_ws_def)

lemma is_ws_simps [simp]: "\<not> is_ws 44" "\<not> is_ws 93" "\<not> is_ws 125" "\<not> is_ws 58"
  by (simp_all add: is_ws_def)

definition parses :: "bool \<Rightarrow> json \<Rightarrow> bool" where
  "parses p v \<longleftrightarrow> (\<forall>n r. stop r \<longrightarrow> length (dumps_with p v) \<le> n \<longrightarrow> parse_value n (dumps_with p v @ r) = Some (v, r))"

lemma parsesD: "parses p v \<Longrightarrow> stop r \<Longrightarrow> length (dumps_with p v) \<le> n \<Longrightarrow> parse_value n (dumps_with p v @ r) = Some (v, r)"
  by (simp add: parses_def)

lemma join_Cons: "xs \<noteq> [] \<Longrightarrow> join sep (x # xs) = x @ sep @ join sep xs"
  by (cases xs) auto

lemma parse_items_dumps:
  assumes "vs \<noteq> []" "\<And>v. v \<in> set vs \<Longrightarrow> storable v \<and> parses p v"
    and "length (join (44 # gap p) (map (dumps_with p) vs)) < n"
  shows "parse_items n (join (44 # gap p) (map (dumps_with p) vs) @ 93 # r) = Some (vs, r)"
  using assms
proof (induction vs arbitrary: n)
  case (Cons v vs)
  obtain m where n: "n = Suc m" using Cons.prems(3) by (cases n) auto
  have v: "storable v" "parses p v" using Cons.prems(2) by simp_all
  show ?case
  proof (cases "vs = []")
    case True
    then show ?thesis
      using Cons.prems(3) n parsesD [OF v(2), of "93 # r" m] by simp
  next
    case False
    let ?j = "join (44 # gap p) (map (dumps_with p) vs)"
    have len: "length (dumps_with p v) \<le> m" "length ?j < m"
      using Cons.prems(3) n False by (simp_all add: join_Cons)
    obtain w ws where vs: "vs = w # ws" using False by (cases vs) auto
    have "skip_ws (?j @ 93 # r) = ?j @ 93 # r"
      using Cons.prems(2) [of w] by (cases ws) (simp_all add: vs)
    then show ?thesis
      using parsesD [OF v(2), of "44 # gap p @ ?j @ 93 # r" m] Cons.IH [OF False _ len(2)] Cons.prems(2) len(1) False
      by (simp add: n join_Cons)
  qed
qed simp

abbreviation print_member :: "bool \<Rightarrow> pystr \<times> json \<Rightarrow> pystr" where
  "print_member p m \<equiv> dumps_string (fst m) @ 58 # gap p @ dumps_with p (snd m)"

lemma parse_members_dumps:
  assumes "ms \<noteq> []" "\<And>m. m \<in> set ms \<Longrightarrow> list_all scalar (fst m) \<and> storable (snd m) \<and> parses p (snd m)"
    and "length (join (44 # gap p) (map (print_member p) ms)) < n"
  shows "parse_members n (join (44 # gap p) (map (print_member p) ms) @ 125 # r) = Some (ms, r)"
  using assms
proof (induction ms arbitrary: n)
  case (Cons m ms)
  obtain l where n: "n = Suc l" using Cons.prems(3) by (cases n) auto
  obtain k v where m: "m = (k, v)" by (cases m)
  have v: "list_all scalar k" "storable v" "parses p v" using Cons.prems(2) [of m] by (simp_all add: m)
  have str: "dumps_string k @ t = 34 # concat (map escape_ascii k) @ 34 # t" for t
    by (simp add: dumps_string_def)
  show ?case
  proof (cases "ms = []")
    case True
    then show ?thesis
      using Cons.prems(3) n parsesD [OF v(3), of "125 # r" l] v(1,2) by (simp add: m str scan_dumps_string)
  next
    case False
    let ?j = "join (44 # gap p) (map (print_member p) ms)"
    have len: "length (dumps_with p v) \<le> l" "length ?j < l"
      using Cons.prems(3) n False by (simp_all add: join_Cons m)
    obtain w ws where ms: "ms = w # ws" using False by (cases ms) auto
    have "skip_ws (?j @ 125 # r) = ?j @ 125 # r"
      by (cases ws) (simp_all add: ms)
    then show ?thesis
      using parsesD [OF v(3), of "44 # gap p @ ?j @ 125 # r" l] Cons.IH [OF False _ len(2)] Cons.prems(2) len(1) False v(1,2)
      by (simp add: n join_Cons m str scan_dumps_string)
  qed
qed simp

lemma foldl_dict_set:
  "distinct (map fst (d @ ms)) \<Longrightarrow> foldl (\<lambda>d (k, v). dict_set k v d) d ms = d @ ms"
proof (induction ms arbitrary: d)
  case (Cons m ms)
  have fresh: "k \<notin> fst ` set d \<Longrightarrow> dict_set k v d = d @ [(k, v)]" for k v d
    by (induction d) auto
  show ?case
    using Cons.IH [of "d @ [m]"] Cons.prems fresh [of "fst m" d "snd m"] by (cases m) (auto simp: case_prod_beta)
qed simp

lemma parse_value_list:
  "take 1 (skip_ws cs) \<noteq> [93] \<Longrightarrow> parse_value (Suc n) (91 # cs) = map_option (map_prod JList id) (parse_items n (skip_ws cs))"
  by simp

lemma parses_list:
  assumes "\<And>v. v \<in> set vs \<Longrightarrow> storable v \<and> parses p v"
  shows "parses p (JList vs)"
  unfolding parses_def
proof (intro allI impI)
  fix n r
  assume len: "length (dumps_with p (JList vs)) \<le> n"
  obtain m where n: "n = Suc m" using len by (cases n) auto
  show "parse_value n (dumps_with p (JList vs) @ r) = Some (JList vs, r)"
  proof (cases vs)
    case (Cons w ws)
    have sk: "skip_ws (join (44 # gap p) (map (dumps_with p) vs) @ 93 # r) = join (44 # gap p) (map (dumps_with p) vs) @ 93 # r"
      using assms [of w] by (cases ws) (simp_all add: Cons)
    define J where "J = join (44 # gap p) (map (dumps_with p) vs)"
    have "hd (join (44 # gap p) (map (dumps_with p) vs)) \<noteq> 93" "join (44 # gap p) (map (dumps_with p) vs) \<noteq> []"
      using assms [of w] dumps_hd [of w p] by (cases ws; auto simp: Cons)+
    then have "take 1 (skip_ws (join (44 # gap p) (map (dumps_with p) vs) @ 93 # r)) \<noteq> [93]"
      unfolding sk by (cases "join (44 # gap p) (map (dumps_with p) vs)") auto
    then show ?thesis
      using parse_items_dumps [of vs p m r] assms len sk
      by (simp add: n J_def [symmetric]) (simp add: Cons)
  qed (simp add: n)
qed

lemma parses_obj:
  assumes "\<And>m. m \<in> set ms \<Longrightarrow> list_all scalar (fst m) \<and> storable (snd m) \<and> parses p (snd m)"
    and "distinct (map fst ms)"
  shows "parses p (JObj ms)"
  unfolding parses_def
proof (intro allI impI)
  fix n r
  assume len: "length (dumps_with p (JObj ms)) \<le> n"
  obtain m where n: "n = Suc m" using len by (cases n) auto
  show "parse_value n (dumps_with p (JObj ms) @ r) = Some (JObj ms, r)"
  proof (cases ms)
    case (Cons w ws)
    have j: "map (\<lambda>m. dumps_string (fst m) @ [58] @ gap p @ snd m) (map (map_prod id (dumps_with p)) ms) = map (print_member p) ms"
      by simp
    define J where "J = join (44 # gap p) (map (print_member p) ms)"
    have sk: "skip_ws (join (44 # gap p) (map (print_member p) ms) @ 125 # r) = join (44 # gap p) (map (print_member p) ms) @ 125 # r"
      by (cases ws) (simp_all add: Cons)
    have "take 1 (join (44 # gap p) (map (print_member p) ms) @ 125 # r) = [34]"
      by (cases ws) (simp_all add: Cons dumps_string_def)
    moreover have "dumps_with p (JObj ms) = 123 # J @ [125]"
      unfolding J_def dumps_with.simps j by simp
    ultimately show ?thesis
      using parse_members_dumps [of ms p m r] assms len foldl_dict_set [of "[]" ms] sk
      by (simp add: n J_def [symmetric]) (simp add: Cons)
  qed (simp add: n)
qed

lemma parses_storable: "storable v \<Longrightarrow> parses p v"
proof (induction v)
  case (JList vs)
  then show ?case by (intro parses_list) (auto simp: list_all_iff)
next
  case (JObj ms)
  have st: "list_all scalar (fst m) \<and> storable (snd m)" if "m \<in> set ms" for m
    using JObj.prems that by (auto simp: list_all_iff)
  show ?case
  proof (rule parses_obj)
    show "distinct (map fst ms)" using JObj.prems by simp
    fix m assume "m \<in> set ms"
    with st [OF this] JObj.IH [of m "snd m"] show "list_all scalar (fst m) \<and> storable (snd m) \<and> parses p (snd m)"
      by (cases m) auto
  qed
next
  case (JInt i)
  show ?case
    unfolding parses_def dumps_with.simps
  proof (intro allI impI)
    fix n r assume "stop r" "length (show_int i) \<le> n"
    moreover have "show_int i \<noteq> []" by (simp add: show_int_def)
    ultimately obtain m where "n = Suc m" by (cases n) auto
    then show "parse_value n (show_int i @ r) = Some (JInt i, r)"
      using parse_number [OF scan_show_int] \<open>stop r\<close> by blast
  qed
next
  case (JFloat x)
  then have f: "scan_number (repr_float x) = Some (JFloat x, [])" by (simp add: float_storable_def)
  show ?case
    unfolding parses_def dumps_with.simps
  proof (intro allI impI)
    fix n r assume "stop r" "length (repr_float x) \<le> n"
    moreover have "repr_float x \<noteq> []" using scan_number_hd [OF f] by auto
    ultimately obtain m where "n = Suc m" by (cases n) auto
    then show "parse_value n (repr_float x @ r) = Some (JFloat x, r)"
      using parse_number [OF f] \<open>stop r\<close> by blast
  qed
next
  case (JStr s)
  show ?case
    unfolding parses_def
  proof (intro allI impI)
    fix n r assume "length (dumps_with p (JStr s)) \<le> n"
    then obtain m where "n = Suc m" by (cases n) (auto simp: dumps_string_def)
    then show "parse_value n (dumps_with p (JStr s) @ r) = Some (JStr s, r)"
      using JStr by (simp add: dumps_string_def scan_dumps_string)
  qed
next
  case JNull
  have "parse_value n (py ''null'' @ r) = Some (JNull, r)" if "4 \<le> n" for n r
    using that by (cases n) (simp_all add: keyword_def py_def)
  then show ?case by (simp add: parses_def py_def)
next
  case (JBool b)
  have "parse_value n (dumps_with p (JBool b) @ r) = Some (JBool b, r)" if "4 \<le> n" for n r
    using that by (cases n) (simp_all add: keyword_def py_def)
  moreover have "4 \<le> length (dumps_with p (JBool b))" by (simp add: py_def)
  ultimately show ?case unfolding parses_def by (meson order_trans)
qed

subsection \<open>Printed text is printable ASCII\<close>

definition printable :: "codepoint \<Rightarrow> bool" where
  "printable c \<longleftrightarrow> 32 \<le> c \<and> c \<le> 126"

lemma printable_numeral [simp]: "printable (numeral k) \<longleftrightarrow> 32 \<le> (numeral k :: nat) \<and> (numeral k :: nat) \<le> 126"
  by (simp add: printable_def)

lemma printable_gap [simp]: "list_all printable (gap p)"
  by (simp add: gap_def)

lemma printable_digits: "list_all printable (show_nat n)"
  using show_nat_digits [of n] by (auto simp: list_all_iff printable_def is_digit_def)

lemma printable_py: "list_all (\<lambda>c. 32 \<le> (of_char c :: nat) \<and> (of_char c :: nat) \<le> 126) s \<Longrightarrow> list_all printable (py s)"
  by (auto simp: py_def list_all_iff printable_def)

lemma printable_repr_pos: "list_all printable (repr_pos x)"
proof -
  obtain m k where s: "shortest_decimal x = (show_nat m, k)"
    unfolding shortest_decimal_def by (metis case_prod_beta)
  have t: "list_all printable (take i (show_nat j))" "list_all printable (drop i (show_nat j))" for i j
    using printable_digits [of j] by (auto simp: list_all_iff dest: in_set_takeD in_set_dropD)
  have "list_all printable (replicate i 48)" for i by (simp add: list_all_iff printable_def)
  then show ?thesis
    using printable_digits t by (simp add: repr_pos_def s Let_def zfill_def py_def printable_def)
qed

lemma printable_repr_float: "list_all printable (repr_float x)"
  using printable_repr_pos by (simp add: repr_float_def py_def printable_def)

lemma printable_hex4: "list_all printable (hex4 u)"
proof -
  have "printable (hex_digit (n mod 16))" for n
  proof -
    have "n mod 16 < 16" by simp
    then have "48 + n mod 16 \<le> 126" "87 + n mod 16 \<le> 126" by linarith+
    then show ?thesis unfolding hex_digit_def printable_def by simp
  qed
  then show ?thesis by (simp add: hex4_def)
qed

lemma printable_escape: "list_all printable (escape_ascii c)"
proof (cases "control_escapes c")
  case (Some e)
  then show ?thesis
    by (auto simp: escape_ascii_def control_escapes_def printable_def split: if_splits)
next
  case None
  have "list_all printable (concat (map (\<lambda>u. [92, 117] @ hex4 u) us))" for us
    using printable_hex4 by (induction us) (simp_all add: printable_def)
  with None show ?thesis by (auto simp: escape_ascii_def printable_def)
qed

lemma printable_join: "list_all printable sep \<Longrightarrow> (\<And>x. x \<in> set xs \<Longrightarrow> list_all printable x) \<Longrightarrow> list_all printable (join sep xs)"
  by (induction sep xs rule: join.induct) auto

lemma printable_dumps_string: "list_all printable (dumps_string s)"
proof -
  have "list_all printable (concat (map escape_ascii s))"
    using printable_escape by (induction s) simp_all
  then show ?thesis by (simp add: dumps_string_def printable_def)
qed

lemma printable_dumps: "list_all printable (dumps_with p v)"
proof (induction v)
  case (JList vs)
  then have "list_all printable (join (44 # gap p) (map (dumps_with p) vs))"
    by (intro printable_join) auto
  then show ?case by simp
next
  case (JObj ms)
  have "list_all printable (join (44 # gap p) (map (\<lambda>m. dumps_string (fst m) @ [58] @ gap p @ snd m) (map (map_prod id (dumps_with p)) ms)))"
    using printable_dumps_string JObj by (intro printable_join) fastforce+
  then show ?case by simp
qed (auto simp: printable_dumps_string printable_repr_float printable_digits show_int_def, auto simp: py_def)

subsection \<open>The round trip\<close>

lemma loads_dumps: "storable v \<Longrightarrow> loads (utf8_encode (dumps_with p v)) = Some v"
proof -
  assume st: "storable v"
  have "list_all scalar (dumps_with p v)"
    using printable_dumps [of p v] by (auto simp: list_all_iff printable_def scalar_def)
  then have "utf8_decode (utf8_encode (dumps_with p v)) = Some (dumps_with p v)" by (rule utf8_decode_encode)
  moreover have "parse_value (Suc (length (dumps_with p v))) (dumps_with p v) = Some (v, [])"
    using parsesD [OF parses_storable [OF st], of "[]" p "Suc (length (dumps_with p v))"] by simp
  moreover have "skip_ws (dumps_with p v) = dumps_with p v"
    using skip_ws_dumps [OF st, of p "[]"] by simp
  ultimately show ?thesis by (simp add: loads_def skip_ws_def)
qed

lemma dumps_line: "dumps_with p v \<noteq> []" "10 \<notin> set (utf8_encode (dumps_with p v))"
proof -
  have "repr_pos x \<noteq> []" for x
    unfolding repr_pos_def shortest_decimal_def by (simp add: Let_def py_def case_prod_beta)
  then show "dumps_with p v \<noteq> []"
    by (cases v) (auto simp: py_def show_int_def repr_float_def dumps_string_def)
  have "utf8_encode s = map of_nat s" if "list_all printable s" for s
    using that unfolding utf8_encode_def by (induction s) (auto simp: utf8_char_def printable_def)
  from this [OF printable_dumps] have "utf8_encode (dumps_with p v) = map of_nat (dumps_with p v)" .
  moreover have "of_nat c \<noteq> (10 :: byte)" if "printable c" for c
    using that unat_small [of c] by (auto simp: printable_def dest: arg_cong [of _ _ unat])
  ultimately show "10 \<notin> set (utf8_encode (dumps_with p v))"
    using printable_dumps [of p v] by (auto simp: list_all_iff)
qed

end
