(* ===== verification/Py_Text.thy ===== *)
theory Py_Text
  imports Py_Bytes
begin

text \<open>
  Methods of \<open>str\<close> that the pipeline and the governance modules use (stripping, splitting
  into lines, searching) and \<open>fnmatch\<close> with its bracket expressions. The Unicode tables of
  white space and line boundaries are written out.
\<close>

section \<open>White space and lines\<close>

definition is_space :: "codepoint \<Rightarrow> bool" where
  "is_space c \<longleftrightarrow> 9 \<le> c \<and> c \<le> 13 \<or> 28 \<le> c \<and> c \<le> 32 \<or> c = 133 \<or> c = 160 \<or> c = 5760
     \<or> 8192 \<le> c \<and> c \<le> 8202 \<or> c \<in> {8232, 8233, 8239, 8287, 12288}"

definition lstrip :: "pystr \<Rightarrow> pystr" where
  "lstrip s = dropWhile is_space s"

definition rstrip :: "pystr \<Rightarrow> pystr" where
  "rstrip s = rev (dropWhile is_space (rev s))"

definition strip :: "pystr \<Rightarrow> pystr" where
  "strip s = rstrip (lstrip s)"

definition is_line_break :: "codepoint \<Rightarrow> bool" where
  "is_line_break c \<longleftrightarrow> 10 \<le> c \<and> c \<le> 13 \<or> 28 \<le> c \<and> c \<le> 30 \<or> c \<in> {133, 8232, 8233}"

text \<open>\<open>s.splitlines()\<close>: \<open>cur\<close> is the current line, reversed; \<open>\r\n\<close> is one boundary,
  and a final boundary opens no empty line.\<close>

fun splitlines_from :: "pystr \<Rightarrow> pystr \<Rightarrow> pystr list" where
  "splitlines_from cur [] = (if cur = [] then [] else [rev cur])"
| "splitlines_from cur [c] = (if is_line_break c then [rev cur] else [rev (c # cur)])"
| "splitlines_from cur (c # d # cs) =
     (if c = 13 \<and> d = 10 then rev cur # splitlines_from [] cs
      else if is_line_break c then rev cur # splitlines_from [] (d # cs)
      else splitlines_from (c # cur) (d # cs))"

definition splitlines :: "pystr \<Rightarrow> pystr list" where
  "splitlines s = splitlines_from [] s"

definition startswith :: "pystr \<Rightarrow> pystr \<Rightarrow> bool" where
  "startswith s p \<longleftrightarrow> take (length p) s = p"

text \<open>\<open>needle in s\<close> with what follows the first occurrence.\<close>

fun after_first :: "pystr \<Rightarrow> pystr \<Rightarrow> pystr option" where
  "after_first needle s =
     (if startswith s needle then Some (drop (length needle) s)
      else (case s of [] \<Rightarrow> None | _ # t \<Rightarrow> after_first needle t))"

declare after_first.simps [simp del]

text \<open>ASCII case folding, and the fold under which \<open>re.IGNORECASE\<close> compares an ASCII letter
  with a character: four non-ASCII letters fold to ASCII ones.\<close>

definition ascii_lower :: "codepoint \<Rightarrow> codepoint" where
  "ascii_lower c = (if 65 \<le> c \<and> c \<le> 90 then c + 32 else c)"

definition ci_fold :: "codepoint \<Rightarrow> codepoint" where
  "ci_fold c = (if c = 304 \<or> c = 305 then 105 else if c = 383 then 115 else if c = 8490 then 107 else ascii_lower c)"

lemma dropWhile_all: "(\<forall>x \<in> set xs. P x) \<Longrightarrow> dropWhile P xs = []"
  by (induction xs) auto

lemma set_lstrip: "set (lstrip s) \<subseteq> set s"
  by (auto simp: lstrip_def dest: set_dropWhileD)

lemma set_rstrip: "set (rstrip s) \<subseteq> set s"
  by (simp add: rstrip_def) (metis set_dropWhileD set_rev subsetI)

lemma set_strip: "set (strip s) \<subseteq> set s"
  using set_lstrip set_rstrip by (auto simp: strip_def)

lemma strip_ends:
  assumes "strip s \<noteq> []"
  shows "\<not> is_space (hd (strip s))" "\<not> is_space (last (strip s))"
proof -
  let ?l = "lstrip s"
  have l: "?l \<noteq> []" using assms by (auto simp: strip_def rstrip_def)
  have hd_l: "\<not> is_space (hd ?l)"
    using l hd_dropWhile [of is_space s] by (simp add: lstrip_def)
  obtain ys where ys: "rev ?l = ys @ rev (strip s)" "\<forall>c \<in> set ys. is_space c"
    using takeWhile_dropWhile_id [of is_space "rev ?l"] set_takeWhileD
    by (metis rev_rev_ident rstrip_def strip_def)
  then have "?l = strip s @ rev ys" by (metis rev_append rev_rev_ident)
  then show "\<not> is_space (hd (strip s))"
    using hd_l assms by simp
  have "last (strip s) = hd (dropWhile is_space (rev ?l))"
    using assms by (simp add: strip_def rstrip_def last_rev)
  then show "\<not> is_space (last (strip s))"
    using assms hd_dropWhile [of is_space "rev ?l"] by (simp add: strip_def rstrip_def)
qed

lemma strip_idem [simp]: "strip (strip s) = strip s"
proof (cases "strip s = []")
  case False
  have "lstrip (strip s) = strip s"
    using strip_ends(1) [OF False] False by (cases "strip s") (auto simp: lstrip_def)
  moreover have "rstrip (strip s) = strip s"
    using strip_ends(2) [OF False] False
    by (cases "rev (strip s)") (auto simp: rstrip_def last_rev [symmetric] dest: arg_cong [where f = rev])
  ultimately show ?thesis by (simp add: strip_def)
next
  case True
  then show ?thesis by (simp add: strip_def [of "[]"] lstrip_def rstrip_def)
qed

section \<open>Shell patterns\<close>

text \<open>
  A bracket expression: \<open>!\<close> negates, a first \<open>]\<close> is literal, and \<open>a-b\<close> is a range
  when something stands on both sides of the hyphen. \<open>bracket_end\<close> finds the closing bracket.
\<close>

fun bracket_items :: "pystr \<Rightarrow> (codepoint \<times> codepoint) list" where
  "bracket_items (a # m # b # cs) = (if m = 45 then (a, b) # bracket_items cs else (a, a) # bracket_items (m # b # cs))"
| "bracket_items (a # cs) = (a, a) # bracket_items cs"
| "bracket_items [] = []"

definition bracket_end :: "pystr \<Rightarrow> nat option" where
  "bracket_end p =
     (let i = (if p \<noteq> [] \<and> hd p = 33 then 1 else 0);
          j = (if i < length p \<and> p ! i = 93 then i + 1 else i);
          k = j + length (takeWhile (\<lambda>c. c \<noteq> 93) (drop j p))
      in if k < length p then Some k else None)"

definition bracket_matches :: "pystr \<Rightarrow> codepoint \<Rightarrow> bool" where
  "bracket_matches stuff c =
     (let negated = (stuff \<noteq> [] \<and> hd stuff = 33);
          items = bracket_items (if negated then tl stuff else stuff)
      in list_ex (\<lambda>(lo, hi). lo \<le> c \<and> c \<le> hi) items \<noteq> negated)"

fun fnmatch :: "pystr \<Rightarrow> pystr \<Rightarrow> bool" where
  "fnmatch name [] \<longleftrightarrow> name = []"
| "fnmatch name (p # ps) \<longleftrightarrow>
     (if p = 42 then fnmatch name ps \<or> (case name of [] \<Rightarrow> False | c # cs \<Rightarrow> fnmatch cs (p # ps))
      else
        (case name of
           [] \<Rightarrow> False
         | c # cs \<Rightarrow>
             if p = 63 then fnmatch cs ps
             else if p = 91 then
               (case bracket_end ps of
                  None \<Rightarrow> c = p \<and> fnmatch cs ps
                | Some k \<Rightarrow> bracket_matches (take k ps) c \<and> fnmatch cs (drop (k + 1) ps))
             else c = p \<and> fnmatch cs ps))"

lemma startswith_simps [simp]:
  "startswith s []" "startswith [] (p # ps) = False" "startswith (c # cs) (p # ps) \<longleftrightarrow> c = p \<and> startswith cs ps"
  by (auto simp: startswith_def)

lemma fnmatch_literal:
  assumes "\<forall>c \<in> set p. c \<notin> {42, 63, 91}"
  shows "fnmatch name p \<longleftrightarrow> name = p"
  using assms
proof (induction p arbitrary: name)
  case (Cons c p)
  then show ?case by (cases name) auto
qed simp

lemma fnmatch_star_all: "fnmatch name [42]"
  by (induction name) auto

lemma fnmatch_prefix_star:
  assumes "\<forall>c \<in> set p. c \<notin> {42, 63, 91}"
  shows "fnmatch name (p @ [42]) \<longleftrightarrow> startswith name p"
  using assms
proof (induction p arbitrary: name)
  case (Cons c p)
  then show ?case by (cases name) auto
qed (simp add: fnmatch_star_all del: fnmatch.simps)

end
