(* ===== verification/Py_Regex.thy ===== *)
theory Py_Regex
  imports Py_Text
begin

text \<open>
  The part of \<open>re\<close> the sources use: a backtracking matcher for the patterns' constructs that
  returns the possible ends of a match in the order the engine tries them, so that the first
  is the one \<open>match\<close> reports, and \<open>finditer\<close> for patterns that match no empty string.
  Which characters are decimal digits, word characters, and their case mappings are the
  Unicode database of the interpreter, a parameter.
\<close>

record unicode_db =
  digit_value :: "codepoint \<Rightarrow> nat option"
  is_word :: "codepoint \<Rightarrow> bool"
  str_lower :: "pystr \<Rightarrow> pystr"
  str_upper :: "pystr \<Rightarrow> pystr"

text \<open>What the database says of ASCII and that digit values are decimal.\<close>

definition ascii_ok :: "unicode_db \<Rightarrow> bool" where
  "ascii_ok U \<longleftrightarrow> (\<forall>c < 128. digit_value U c = (if is_digit c then Some (c - 48) else None)) \<and>
     (\<forall>c d. digit_value U c = Some d \<longrightarrow> d < 10)"

abbreviation rx_digit :: "unicode_db \<Rightarrow> codepoint \<Rightarrow> bool" where
  "rx_digit U c \<equiv> digit_value U c \<noteq> None"

datatype rx =
    RSet "codepoint \<Rightarrow> bool"
  | RCat rx rx
  | ROpt rx
  | RRep nat nat rx
  | RMany nat "codepoint \<Rightarrow> bool"
  | RNotBehind "codepoint \<Rightarrow> bool"
  | RNotAhead "codepoint \<Rightarrow> bool"
  | RBoundary "codepoint \<Rightarrow> bool"

text \<open>Greedy repetition of a matcher between \<open>m\<close> and \<open>n\<close> times.\<close>

primrec rep_ends :: "nat \<Rightarrow> nat \<Rightarrow> (nat \<Rightarrow> nat list) \<Rightarrow> nat \<Rightarrow> nat list" where
  "rep_ends 0 m f i = (if m = 0 then [i] else [])"
| "rep_ends (Suc n) m f i = concat (map (rep_ends n (m - 1) f) (f i)) @ (if m = 0 then [i] else [])"

primrec ends :: "rx \<Rightarrow> pystr \<Rightarrow> nat \<Rightarrow> nat list" where
  "ends (RSet P) s i = (if i < length s \<and> P (s ! i) then [i + 1] else [])"
| "ends (RCat a b) s i = concat (map (ends b s) (ends a s i))"
| "ends (ROpt a) s i = ends a s i @ [i]"
| "ends (RRep m n a) s i = rep_ends n m (ends a s) i"
| "ends (RMany m P) s i =
     (let k = length (takeWhile P (drop i s)) in rev (map (\<lambda>j. i + j) [m..<k + 1]))"
| "ends (RNotBehind P) s i = (if 0 < i \<and> i \<le> length s \<and> P (s ! (i - 1)) then [] else [i])"
| "ends (RNotAhead P) s i = (if i < length s \<and> P (s ! i) then [] else [i])"
| "ends (RBoundary P) s i =
     (if (0 < i \<and> i \<le> length s \<and> P (s ! (i - 1))) \<noteq> (i < length s \<and> P (s ! i)) then [i] else [])"

function finditer_from :: "rx \<Rightarrow> pystr \<Rightarrow> nat \<Rightarrow> (nat \<times> nat) list" where
  "finditer_from r s i =
     (if length s < i then []
      else case ends r s i of
        [] \<Rightarrow> finditer_from r s (i + 1)
      | e # _ \<Rightarrow> (i, e) # finditer_from r s (if e \<le> i then i + 1 else e))"
  by pat_completeness auto
termination
  by (relation "measure (\<lambda>(r, s, i). Suc (length s) - i)") auto

declare finditer_from.simps [simp del]

definition finditer :: "rx \<Rightarrow> pystr \<Rightarrow> (nat \<times> nat) list" where
  "finditer r s = finditer_from r s 0"

definition lit :: "codepoint \<Rightarrow> rx" where
  "lit c = RSet (\<lambda>d. d = c)"

primrec rx_seq :: "rx list \<Rightarrow> rx" where
  "rx_seq [] = RRep 0 0 (RSet (\<lambda>c. True))"
| "rx_seq (r # rs) = (if rs = [] then r else RCat r (rx_seq rs))"

lemma rep_ends_bounds:
  assumes "\<And>i e. e \<in> set (f i) \<Longrightarrow> i \<le> e \<and> (i \<le> len \<longrightarrow> e \<le> len)" "e \<in> set (rep_ends n m f i)"
  shows "i \<le> e \<and> (i \<le> len \<longrightarrow> e \<le> len)"
  using assms(2)
proof (induction n arbitrary: m i)
  case (Suc n)
  then show ?case
    using assms(1) by (fastforce split: if_splits)
qed (simp split: if_splits)

lemma ends_bounds: "e \<in> set (ends r s i) \<Longrightarrow> i \<le> e \<and> (i \<le> length s \<longrightarrow> e \<le> length s)"
proof (induction r arbitrary: i e)
  case (RRep m n r)
  then show ?case
    using rep_ends_bounds [of "ends r s" "length s" e n m i] by simp
next
  case (RMany m P)
  have "length (takeWhile P (drop i s)) \<le> length s - i"
    by (metis length_drop length_takeWhile_le)
  then show ?case
    using RMany by (auto simp: Let_def)
next
  case (RCat a b)
  then show ?case by fastforce
qed (auto split: if_splits)

text \<open>Matches are found from left to right, do not overlap, and lie within the text.\<close>

lemma finditer_from_spans:
  "\<forall>(a, b) \<in> set (finditer_from r s i). i \<le> a \<and> a \<le> b \<and> b \<le> length s \<and> b \<in> set (ends r s a)"
proof (induction r s i rule: finditer_from.induct)
  case (1 r s i)
  show ?case
  proof (cases "length s < i")
    case True
    then show ?thesis by (simp add: finditer_from.simps)
  next
    case False
    show ?thesis
    proof (cases "ends r s i")
      case Nil
      then show ?thesis
        using "1.IH"(1) False by (subst finditer_from.simps) force
    next
      case (Cons e es)
      then have e: "i \<le> e" "e \<le> length s" "e \<in> set (ends r s i)"
        using ends_bounds [of e r s i] False by auto
      then show ?thesis
        using "1.IH"(2) [OF False Cons] Cons False by (subst finditer_from.simps) (fastforce split: if_splits)
    qed
  qed
qed

lemma finditer_spans: "(a, b) \<in> set (finditer r s) \<Longrightarrow> a \<le> b \<and> b \<le> length s \<and> b \<in> set (ends r s a)"
  using finditer_from_spans [of r s 0] by (auto simp: finditer_def)

text \<open>A table without letters or digits, on which concrete inputs are evaluated.\<close>

definition plain_unicode :: unicode_db where
  "plain_unicode = \<lparr>digit_value = (\<lambda>c. None), is_word = (\<lambda>c. False), str_lower = id, str_upper = id\<rparr>"

end
