(* ===== verification/Discovery.thy ===== *)
theory Discovery
  imports Models Py_Json Py_Regex
begin

text \<open>
  \<open>ragledger.pipeline.discovery\<close>: ignore rules, media types, hashing, the walk of a source tree
  and the records it yields, duplicates and tombstones. The tree of files is a value: a file
  says what each attempt to read it observes, a symbolic link to a file whether its target
  lies inside the root, a symbolic link to a directory what lies below it. The operating
  system's table of file extensions (\<open>mimetypes.guess_type\<close>) is a parameter.
\<close>

section \<open>Ignore rules\<close>

definition dot_char :: "codepoint \<Rightarrow> bool" where
  "dot_char c \<longleftrightarrow> c \<noteq> 10"

definition not_slash :: "codepoint \<Rightarrow> bool" where
  "not_slash c \<longleftrightarrow> c \<noteq> 47"

text \<open>\<open>(?:.*/)?\<close>.\<close>

definition any_dirs :: rx where
  "any_dirs = ROpt (RCat (RMany 0 dot_char) (lit 47))"

function glob_to_regex :: "pystr \<Rightarrow> rx list" where
  "glob_to_regex [] = []"
| "glob_to_regex (c # cs) =
     (if take 3 (c # cs) = py ''**/'' then any_dirs # glob_to_regex (drop 2 cs)
      else if c # cs = py ''**'' then [RMany 0 dot_char]
      else (if c = 42 then RMany 0 not_slash else if c = 63 then RSet not_slash else lit c) # glob_to_regex cs)"
  by pat_completeness auto
termination by (relation "measure length") auto

record ignore_rule =
  ir_regex :: rx
  ir_negation :: bool

definition compile_ignore_pattern :: "pystr \<Rightarrow> ignore_rule" where
  "compile_ignore_pattern pat =
     (let negation = startswith pat [33];
          p1 = (if negation then drop 1 pat else pat);
          p2 = (if p1 \<noteq> [] \<and> last p1 = 47 then butlast p1 else p1);
          anchored = startswith p2 [47];
          p3 = (if anchored then drop 1 p2 else p2)
      in \<lparr>ir_regex = rx_seq ((if anchored then [] else [any_dirs]) @ glob_to_regex p3
                 @ [ROpt (RCat (lit 47) (RMany 0 dot_char))]),
          ir_negation = negation\<rparr>)"

text \<open>\<open>rule.regex.match(path)\<close>, whose pattern ends in \<open>$\<close>.\<close>

definition rule_matches :: "rx \<Rightarrow> pystr \<Rightarrow> bool" where
  "rule_matches r path \<longleftrightarrow>
     list_ex (\<lambda>e. e = length path \<or> (Suc e = length path \<and> last path = 10)) (ends r path 0)"

definition rules_of_file :: "pystr \<Rightarrow> ignore_rule list" where
  "rules_of_file content =
     map compile_ignore_pattern (filter (\<lambda>l. l \<noteq> [] \<and> \<not> startswith l [35]) (map strip (splitlines content)))"

text \<open>\<open>_read_ignore_rules\<close>: the texts of \<open>.gitignore\<close> and \<open>.ragledgerignore\<close>, when they are files.\<close>

definition read_ignore_rules :: "(pystr \<Rightarrow> pystr option) \<Rightarrow> ignore_rule list" where
  "read_ignore_rules root_file =
     concat (map (\<lambda>name. case root_file name of None \<Rightarrow> [] | Some content \<Rightarrow> rules_of_file content)
       [py ''.gitignore'', py ''.ragledgerignore''])"

definition is_ignored :: "pystr \<Rightarrow> ignore_rule list \<Rightarrow> bool" where
  "is_ignored path rules = foldl (\<lambda>m rule. if rule_matches (ir_regex rule) path then \<not> ir_negation rule else m) False rules"

section \<open>Media types\<close>

definition EXTENSION_OVERRIDES :: "(pystr \<times> pystr) list" where
  "EXTENSION_OVERRIDES = map (map_prod py py)
     [(''.md'', ''text/markdown''), (''.markdown'', ''text/markdown''), (''.csv'', ''text/csv''),
      (''.json'', ''application/json''), (''.html'', ''text/html''), (''.htm'', ''text/html''),
      (''.pdf'', ''application/pdf''), (''.txt'', ''text/plain'')]"

text \<open>\<open>Path.suffix\<close>: from the last dot, unless it is the first or the last character.\<close>

definition path_suffix :: "pystr \<Rightarrow> pystr" where
  "path_suffix name =
     (let ext = rev (takeWhile (\<lambda>c. c \<noteq> 46) (rev name)); i = length name - length ext in
      if 46 \<in> set name \<and> 1 < i \<and> ext \<noteq> [] then 46 # ext else [])"

text \<open>White space of \<open>bytes\<close>, and \<open>re.search(rb"<\s*html", sample, re.I)\<close>.\<close>

definition byte_space :: "byte \<Rightarrow> bool" where
  "byte_space b \<longleftrightarrow> unat b = 32 \<or> 9 \<le> unat b \<and> unat b \<le> 13"

definition byte_lower :: "byte \<Rightarrow> byte" where
  "byte_lower b = (if 65 \<le> unat b \<and> unat b \<le> 90 then b + 32 else b)"

fun html_tag_search :: "bytes \<Rightarrow> bool" where
  "html_tag_search [] = False"
| "html_tag_search (b # bs) \<longleftrightarrow>
     (b = 60 \<and> map byte_lower (take 4 (dropWhile byte_space bs)) = map of_char ''html'') \<or> html_tag_search bs"

definition sniff_media_type :: "unicode_db \<Rightarrow> (pystr \<Rightarrow> pystr option) \<Rightarrow> pystr \<Rightarrow> bytes \<Rightarrow> pystr" where
  "sniff_media_type U guess_type name sample =
     (if take 5 sample = map of_char ''%PDF-'' then py ''application/pdf''
      else (case map_of EXTENSION_OVERRIDES (str_lower U (path_suffix name)) of
              Some t \<Rightarrow> t
            | None \<Rightarrow>
                if take 1 (dropWhile byte_space sample) = [60] \<and> html_tag_search sample then py ''text/html''
                else if truthy (guess_type name) then the (guess_type name)
                else if utf8_decode sample = None then py ''application/octet-stream''
                else py ''text/plain''))"

section \<open>The tree\<close>

text \<open>What one attempt to read a file observes: the two \<open>stat\<close> calls and the bytes between them.\<close>

record file_read =
  fr_size_before :: nat
  fr_mtime_before :: int
  fr_content :: bytes
  fr_size_after :: nat
  fr_mtime_after :: int
  fr_modified_at :: utc_datetime

datatype fs_node =
    FsFile "nat \<Rightarrow> file_read"
  | FsFileLink bool "nat \<Rightarrow> file_read"
  | FsDir "(pystr \<times> fs_node) list"
  | FsDirLink "(pystr \<times> fs_node) list"

primrec is_file_node :: "fs_node \<Rightarrow> bool" where
  "is_file_node (FsFile r) = True"
| "is_file_node (FsFileLink inside r) = True"
| "is_file_node (FsDir es) = False"
| "is_file_node (FsDirLink es) = False"

primrec reads_of :: "fs_node \<Rightarrow> nat \<Rightarrow> file_read" where
  "reads_of (FsFile r) = r"
| "reads_of (FsFileLink inside r) = r"
| "reads_of (FsDir es) = (\<lambda>_. \<lparr>fr_size_before = 0, fr_mtime_before = 0, fr_content = [], fr_size_after = 0, fr_mtime_after = 0, fr_modified_at = sample_time\<rparr>)"
| "reads_of (FsDirLink es) = (\<lambda>_. \<lparr>fr_size_before = 0, fr_mtime_before = 0, fr_content = [], fr_size_after = 0, fr_mtime_after = 0, fr_modified_at = sample_time\<rparr>)"

lemma size_entries_less:
  assumes "e \<in> set entries" "snd e = FsDir es \<or> snd e = FsDirLink es"
  shows "size_list (\<lambda>e. size (snd e)) es < size_list (\<lambda>e. size (snd e)) entries"
proof -
  have "size_list (\<lambda>e. size (snd e)) es \<le> size_list (size_prod (\<lambda>_. 0) size) es"
    by (rule size_list_pointwise) (simp add: size_prod_simp)
  then have "size_list (\<lambda>e. size (snd e)) es < size (snd e)" using assms(2) by auto
  also have "\<dots> \<le> size_list (\<lambda>e. size (snd e)) entries"
    using assms(1) by (intro size_list_estimation' [of e]) auto
  finally show ?thesis .
qed

text \<open>\<open>os.walk\<close>, top down: the files of a directory by name, then its subdirectories.\<close>

function walk :: "bool \<Rightarrow> pystr \<Rightarrow> (pystr \<times> fs_node) list \<Rightarrow> (pystr \<times> fs_node) list" where
  "walk follow pre entries =
     map (\<lambda>e. (pre @ fst e, snd e)) (sort_key fst (filter (\<lambda>e. is_file_node (snd e)) entries))
     @ concat (map (\<lambda>e.
         if fst e = py ''.git'' then []
         else (case snd e of
                 FsDir es \<Rightarrow> walk follow (pre @ fst e @ [47]) es
               | FsDirLink es \<Rightarrow> if follow then walk follow (pre @ fst e @ [47]) es else []
               | _ \<Rightarrow> []))
       (sort_key fst entries))"
  by pat_completeness auto
termination
proof (relation "measure (\<lambda>(follow, pre, entries). size_list (\<lambda>e. size (snd e)) entries)", goal_cases)
  case (2 follow pre entries e es)
  then show ?case using size_entries_less [of e entries es] by simp
next
  case (3 follow pre entries e es)
  then show ?case using size_entries_less [of e entries es] by simp
qed simp

declare walk.simps [simp del]

section \<open>Records\<close>

record discovery_config =
  dc_max_file_bytes :: nat
  dc_follow_symlinks :: bool
  dc_source_system :: pystr
  dc_discovered_by :: pystr

datatype discovery_error = SymlinkEscapesRoot pystr | SourceChangedDuringRead pystr | FileTooLarge pystr nat nat

record found_file =
  ff_relative :: pystr
  ff_name :: pystr
  ff_node :: fs_node

definition base_name :: "pystr \<Rightarrow> pystr" where
  "base_name path = rev (takeWhile (\<lambda>c. c \<noteq> 47) (rev path))"

text \<open>The body of the loop of \<open>_walk_files\<close>: a file is ignored, skipped, an error, or found.\<close>

definition visit_file ::
  "platform \<Rightarrow> discovery_config \<Rightarrow> ignore_rule list \<Rightarrow> pystr \<times> fs_node \<Rightarrow> discovery_error + found_file list" where
  "visit_file L config rules f =
     (let relative = nfc L (fst f); hit = [\<lparr>ff_relative = relative, ff_name = base_name (fst f), ff_node = snd f\<rparr>] in
      if is_ignored relative rules then Inr []
      else (case snd f of
              FsFileLink inside r \<Rightarrow>
                if \<not> dc_follow_symlinks config then Inr []
                else if inside then Inr hit else Inl (SymlinkEscapesRoot relative)
            | _ \<Rightarrow> Inr hit))"

definition walk_files ::
  "platform \<Rightarrow> (pystr \<times> fs_node) list \<Rightarrow> discovery_config \<Rightarrow> ignore_rule list \<Rightarrow> discovery_error + found_file list" where
  "walk_files L tree config rules =
     andThen (collect (map (visit_file L config rules) (walk (dc_follow_symlinks config) [] tree)))
       (\<lambda>found. Inr (sort_key ff_relative (concat found)))"

definition stable_read :: "file_read \<Rightarrow> bool" where
  "stable_read r \<longleftrightarrow> fr_size_before r = fr_size_after r \<and> fr_mtime_before r = fr_mtime_after r"

text \<open>The two attempts of \<open>_build_source_record\<close>: the read that is used.\<close>

definition read_attempts :: "discovery_config \<Rightarrow> pystr \<Rightarrow> (nat \<Rightarrow> file_read) \<Rightarrow> discovery_error + file_read" where
  "read_attempts config relative reads =
     (let too_large = (\<lambda>r. fr_size_before r > dc_max_file_bytes config);
          first_read = reads 0; second_read = reads 1
      in if too_large first_read then Inl (FileTooLarge relative (fr_size_before first_read) (dc_max_file_bytes config))
         else if stable_read first_read then Inr first_read
         else if too_large second_read then Inl (FileTooLarge relative (fr_size_before second_read) (dc_max_file_bytes config))
         else if stable_read second_read then Inr second_read
         else Inl (SourceChangedDuringRead relative))"

definition build_source_record ::
  "platform \<Rightarrow> unicode_db \<Rightarrow> (pystr \<Rightarrow> pystr option) \<Rightarrow> pystr \<Rightarrow> discovery_config \<Rightarrow> found_file \<Rightarrow> discovery_error + source_record" where
  "build_source_record L U guess_type namespace config f =
     andThen (read_attempts config (ff_relative f) (reads_of (ff_node f)))
       (\<lambda>r. let uri = py ''file:'' @ ff_relative f; content_hash = sha256_hex (fr_content r);
                source = source_id_of L namespace uri
            in Inr \<lparr>src_id = source, src_version_id = source_version_id_of L source content_hash, src_namespace = namespace,
                    src_uri = uri, src_media_type = sniff_media_type U guess_type (ff_name f) (take 4096 (fr_content r)),
                    src_size_bytes = length (fr_content r), src_content_hash = content_hash,
                    src_modified_at = Some (fr_modified_at r), src_discovered_by = Some (dc_discovered_by config),
                    src_source_system = dc_source_system config, src_status = SourceActive, src_declared_tenant = None,
                    src_declared_acl_assertion_id = None, src_license_assertion_ids = [], src_raw_artifact_ref = None,
                    src_relationships = [], src_extensions = None\<rparr>)"

text \<open>\<open>_attach_duplicate_relationships\<close>, with the canonical record of each content hash so far.\<close>

fun attach_duplicates :: "(pystr \<Rightarrow> source_record option) \<Rightarrow> source_record list \<Rightarrow> source_record list" where
  "attach_duplicates canonical [] = []"
| "attach_duplicates canonical (s # ss) =
     (case canonical (src_content_hash s) of
        None \<Rightarrow> s # attach_duplicates (canonical(src_content_hash s \<mapsto> s)) ss
      | Some c \<Rightarrow>
          s\<lparr>src_relationships := src_relationships s @ [\<lparr>rel_type = DuplicateOf, rel_target_version_id = src_version_id c\<rparr>]\<rparr>
          # attach_duplicates canonical ss)"

definition attach_duplicate_relationships :: "source_record list \<Rightarrow> source_record list" where
  "attach_duplicate_relationships sources = attach_duplicates Map.empty sources"

record source_tree =
  st_root_files :: "pystr \<Rightarrow> pystr option"
  st_entries :: "(pystr \<times> fs_node) list"

definition discover_sources ::
  "platform \<Rightarrow> unicode_db \<Rightarrow> (pystr \<Rightarrow> pystr option) \<Rightarrow> source_tree \<Rightarrow> pystr \<Rightarrow> discovery_config
   \<Rightarrow> discovery_error + source_record list" where
  "discover_sources L U guess_type tree namespace config =
     (let rules = read_ignore_rules (st_root_files tree) in
      andThen (walk_files L (st_entries tree) config rules) (\<lambda>found.
      andThen (collect (map (build_source_record L U guess_type namespace config) found))
        (\<lambda>sources. Inr (attach_duplicate_relationships sources))))"

section \<open>Tombstones\<close>

text \<open>The loop of \<open>compute_tombstones\<close>, with the ids seen.\<close>

fun tombstone_loop :: "pystr set \<Rightarrow> pystr list \<Rightarrow> source_record list \<Rightarrow> source_record list" where
  "tombstone_loop discovered seen [] = []"
| "tombstone_loop discovered seen (s # ss) =
     (if src_id s \<in> discovered \<or> src_id s \<in> set seen \<or> src_status s = SourceTombstone then tombstone_loop discovered seen ss
      else s\<lparr>src_status := SourceTombstone\<rparr> # tombstone_loop discovered (src_id s # seen) ss)"

definition compute_tombstones :: "source_record list \<Rightarrow> pystr list \<Rightarrow> source_record list" where
  "compute_tombstones previous_sources discovered_source_ids =
     sort_key src_uri (tombstone_loop (set discovered_source_ids) [] previous_sources)"

section \<open>What discovery yields\<close>

lemma attach_duplicates_map:
  "(\<And>s x. f (s\<lparr>src_relationships := x\<rparr>) = f s) \<Longrightarrow> map f (attach_duplicates c ss) = map f ss"
  by (induction c ss rule: attach_duplicates.induct) (auto split: option.splits)

text \<open>A record carries a duplicate relationship exactly when an earlier one has its hash.\<close>

lemma attach_duplicates_exact:
  assumes "list_all (\<lambda>s. src_relationships s = []) ss" "i < length ss"
  shows "src_relationships (attach_duplicates canonical ss ! i) =
    (case canonical (src_content_hash (ss ! i)) of
       Some c \<Rightarrow> [\<lparr>rel_type = DuplicateOf, rel_target_version_id = src_version_id c\<rparr>]
     | None \<Rightarrow> (case find (\<lambda>s. src_content_hash s = src_content_hash (ss ! i)) (take i ss) of
         None \<Rightarrow> [] | Some c \<Rightarrow> [\<lparr>rel_type = DuplicateOf, rel_target_version_id = src_version_id c\<rparr>]))"
  using assms
proof (induction ss arbitrary: canonical i)
  case (Cons s ss)
  show ?case
  proof (cases i)
    case 0
    then show ?thesis using Cons.prems(1) by (simp split: option.splits)
  next
    case (Suc j)
    then have j: "list_all (\<lambda>s. src_relationships s = []) ss" "j < length ss" using Cons.prems by simp_all
    show ?thesis
    proof (cases "canonical (src_content_hash s)")
      case None
      then show ?thesis
        using Cons.IH [OF j, of "canonical(src_content_hash s \<mapsto> s)"] Suc
        by (cases "src_content_hash (ss ! j) = src_content_hash s") (simp_all add: fun_upd_def cong: option.case_cong)
    next
      case (Some c)
      then show ?thesis
        using Cons.IH [OF j, of canonical] Suc
        by (cases "src_content_hash (ss ! j) = src_content_hash s") (simp_all add: fun_upd_def cong: option.case_cong)
    qed
  qed
qed simp

text \<open>
  The tombstones are the active records of the previous manifest that were not discovered
  again, one of each id.
\<close>

lemma tombstone_loop_ids:
  "src_id ` set (tombstone_loop D seen ss) =
     {src_id s | s. s \<in> set ss \<and> src_status s = SourceActive \<and> src_id s \<notin> D \<and> src_id s \<notin> set seen}"
proof (induction ss arbitrary: seen)
  case (Cons s ss)
  then show ?case by (cases "src_status s") (auto split: if_splits)
qed simp

lemma tombstone_loop_distinct: "distinct (map src_id (tombstone_loop D seen ss))"
proof (induction ss arbitrary: seen)
  case (Cons s ss)
  then show ?case by (simp add: tombstone_loop_ids)
qed simp

lemma tombstone_loop_from:
  "t \<in> set (tombstone_loop D seen ss) \<Longrightarrow>
     \<exists>s. s \<in> set ss \<and> src_status s = SourceActive \<and> t = s\<lparr>src_status := SourceTombstone\<rparr>"
proof (induction ss arbitrary: seen)
  case (Cons s ss)
  then show ?case by (cases "src_status s") (auto split: if_splits)
qed simp


definition is_link :: "fs_node \<Rightarrow> bool" where
  "is_link n \<longleftrightarrow> (case n of FsFileLink inside r \<Rightarrow> True | _ \<Rightarrow> False)"

text \<open>The files the walk keeps: not ignored, and no link unless links are followed.\<close>

definition keeps :: "platform \<Rightarrow> discovery_config \<Rightarrow> ignore_rule list \<Rightarrow> pystr \<times> fs_node \<Rightarrow> bool" where
  "keeps L config rules f \<longleftrightarrow>
     \<not> is_ignored (nfc L (fst f)) rules \<and> (dc_follow_symlinks config \<or> \<not> is_link (snd f))"

lemma visit_file_paths:
  "visit_file L config rules f = Inr fs \<Longrightarrow> map ff_relative fs = (if keeps L config rules f then [nfc L (fst f)] else [])"
  by (auto simp: visit_file_def keeps_def is_link_def Let_def split: if_splits fs_node.splits)

lemma visit_files_paths:
  "collect (map (visit_file L config rules) fs) = Inr found \<Longrightarrow>
     map ff_relative (concat found) = map (\<lambda>f. nfc L (fst f)) (filter (keeps L config rules) fs)"
proof (induction fs arbitrary: found)
  case (Cons f fs)
  then show ?case
    by (cases "visit_file L config rules f") (auto dest!: visit_file_paths split: sum.splits)
qed simp

lemma walk_files_paths:
  assumes "walk_files L tree config rules = Inr found"
  shows "mset (map ff_relative found) =
      mset (map (\<lambda>f. nfc L (fst f)) (filter (keeps L config rules) (walk (dc_follow_symlinks config) [] tree)))"
    and "sorted (map ff_relative found)"
proof -
  obtain fs where c: "collect (map (visit_file L config rules) (walk (dc_follow_symlinks config) [] tree)) = Inr fs"
    and f: "found = sort_key ff_relative (concat fs)"
    using assms by (auto simp: walk_files_def split: sum.splits)
  show "sorted (map ff_relative found)" by (simp add: f)
  have "mset (map ff_relative found) = mset (map ff_relative (concat fs))"
    unfolding f mset_map mset_sort by simp
  then show "mset (map ff_relative found) =
      mset (map (\<lambda>f. nfc L (fst f)) (filter (keeps L config rules) (walk (dc_follow_symlinks config) [] tree)))"
    by (simp only: visit_files_paths [OF c])
qed


lemma build_source_record_fields:
  assumes "build_source_record L U g ns config f = Inr s"
  shows "src_uri s = py ''file:'' @ ff_relative f" "src_status s = SourceActive" "src_relationships s = []"
    "src_id s = source_id_of L ns (src_uri s)" "src_version_id s = source_version_id_of L (src_id s) (src_content_hash s)"
  using assms by (auto simp: build_source_record_def Let_def)

lemma build_source_records_fields:
  assumes "collect (map (build_source_record L U g ns config) fs) = Inr ss"
  shows "map src_uri ss = map (\<lambda>f. py ''file:'' @ ff_relative f) fs"
    "\<forall>s\<in>set ss. src_status s = SourceActive \<and> src_relationships s = [] \<and> src_id s = source_id_of L ns (src_uri s)
       \<and> src_version_id s = source_version_id_of L (src_id s) (src_content_hash s)"
proof -
  have eq: "map (build_source_record L U g ns config) fs = map Inr ss" using assms by (simp add: collect_Inr_iff)
  then have len: "length ss = length fs" by (metis length_map)
  have at: "build_source_record L U g ns config (fs ! i) = Inr (ss ! i)" if "i < length fs" for i
    using eq that len by (metis nth_map)
  show "map src_uri ss = map (\<lambda>f. py ''file:'' @ ff_relative f) fs"
    by (rule nth_equalityI) (simp_all add: len build_source_record_fields(1) [OF at])
  show "\<forall>s\<in>set ss. src_status s = SourceActive \<and> src_relationships s = [] \<and> src_id s = source_id_of L ns (src_uri s)
       \<and> src_version_id s = source_version_id_of L (src_id s) (src_content_hash s)"
    using at len build_source_record_fields by (fastforce simp: in_set_conv_nth)
qed

lemma prefix_le [simp]: "(p @ xs \<le> p @ ys) = (xs \<le> (ys :: 'a::linorder list))"
  by (induction p) auto

lemma sorted_map_prefix: "sorted (map (\<lambda>f. p @ g f) fs) = sorted (map g (fs :: 'b list) :: 'a::linorder list list)"
  by (induction fs) auto

lemma discover_sources_parts:
  assumes "discover_sources L U g tree ns config = Inr ss"
  obtains found built where "walk_files L (st_entries tree) config (read_ignore_rules (st_root_files tree)) = Inr found"
    "collect (map (build_source_record L U g ns config) found) = Inr built" "ss = attach_duplicates Map.empty built"
  using assms by (auto simp: discover_sources_def attach_duplicate_relationships_def)

lemma list_all_same:
  assumes "map P xs = map P ys"
  shows "list_all P xs = list_all P ys"
proof -
  have "length xs = length ys" using assms by (rule map_eq_imp_length_eq)
  then show ?thesis using assms by (induction xs ys rule: list_induct2) simp_all
qed

lemma find_same:
  assumes "map (\<lambda>s. (f s, g s)) xs = map (\<lambda>s. (f s, g s)) ys"
  shows "map_option g (find (\<lambda>s. f s = h) (take i xs)) = map_option g (find (\<lambda>s. f s = h) (take i ys))"
proof -
  have "length xs = length ys" using assms by (rule map_eq_imp_length_eq)
  then show ?thesis using assms
  proof (induction xs ys arbitrary: i rule: list_induct2)
    case (Cons x xs y ys)
    then show ?case by (cases i) simp_all
  qed simp
qed

text \<open>A tree of two files with the same bytes.\<close>

definition twin_tree :: source_tree where
  "twin_tree =
     (let node = FsFile (\<lambda>n. \<lparr>fr_size_before = 1, fr_mtime_before = 0, fr_content = [97], fr_size_after = 1, fr_mtime_after = 0,
                                  fr_modified_at = sample_time\<rparr>)
      in \<lparr>st_root_files = (\<lambda>name. None), st_entries = [(py ''b.txt'', node), (py ''a.txt'', node)]\<rparr>)"

definition twin_config :: discovery_config where
  "twin_config = \<lparr>dc_max_file_bytes = 100, dc_follow_symlinks = False, dc_source_system = py ''fs'', dc_discovered_by = py ''d''\<rparr>"

lemma twin_discovery:
  "\<exists>s1 s2. discover_sources sample_platform plain_unicode (\<lambda>name. None) twin_tree (py ''ns'') twin_config = Inr [s1, s2] \<and>
     src_uri s1 = py ''file:a.txt'' \<and> src_uri s2 = py ''file:b.txt'' \<and> src_content_hash s1 = src_content_hash s2"
  by (simp add: discover_sources_def twin_tree_def twin_config_def walk_files_def walk.simps visit_file_def sample_platform_def
      is_ignored_def read_ignore_rules_def collect_def build_source_record_def read_attempts_def stable_read_def
      attach_duplicate_relationships_def py_def base_name_def Let_def)

text \<open>
  C19. Discovery lists every file that is not ignored (and is no link unless links are followed)
  once, by its NFC path, in the order of the paths, as an active record whose id is that of
  its uri and whose version is that of its id and content hash.
\<close>

theorem discover_sources_complete:
  assumes "discover_sources L U g tree ns config = Inr ss"
  shows "sorted (map src_uri ss) \<and>
    mset (map src_uri ss) =
      mset (map (\<lambda>f. py ''file:'' @ nfc L (fst f))
        (filter (keeps L config (read_ignore_rules (st_root_files tree)))
          (walk (dc_follow_symlinks config) [] (st_entries tree)))) \<and>
    list_all (\<lambda>s. src_status s = SourceActive \<and> src_id s = source_id_of L ns (src_uri s)
      \<and> src_version_id s = source_version_id_of L (src_id s) (src_content_hash s)) ss"
proof -
  from assms obtain found built
    where w: "walk_files L (st_entries tree) config (read_ignore_rules (st_root_files tree)) = Inr found"
      and b: "collect (map (build_source_record L U g ns config) found) = Inr built"
      and ss: "ss = attach_duplicates Map.empty built"
    by (rule discover_sources_parts)
  note keep = attach_duplicates_map [where c = Map.empty and ss = built]
  have uris: "map src_uri ss = map ((@) (py ''file:'')) (map ff_relative found)"
    using keep [of src_uri] build_source_records_fields(1) [OF b] by (simp add: ss comp_def)
  let ?P = "\<lambda>s. src_status s = SourceActive \<and> src_id s = source_id_of L ns (src_uri s)
      \<and> src_version_id s = source_version_id_of L (src_id s) (src_content_hash s)"
  have "map ?P ss = map ?P built" unfolding ss by (rule keep) simp
  then have "list_all ?P ss = list_all ?P built" by (rule list_all_same)
  moreover have "list_all ?P built" using build_source_records_fields(2) [OF b] by (simp add: list_all_iff)
  ultimately have "list_all ?P ss" by simp
  moreover have "sorted (map src_uri ss)"
    using walk_files_paths(2) [OF w] sorted_map_prefix [of "py ''file:''" "\<lambda>x. x" "map ff_relative found"]
    by (simp add: uris comp_def)
  moreover have "mset (map src_uri ss) =
      mset (map (\<lambda>f. py ''file:'' @ nfc L (fst f))
        (filter (keeps L config (read_ignore_rules (st_root_files tree)))
          (walk (dc_follow_symlinks config) [] (st_entries tree))))"
    unfolding uris mset_map [of "(@) (py ''file:'')"] walk_files_paths(1) [OF w]
    by (simp flip: mset_map add: comp_def)
  ultimately show ?thesis by blast
qed

theorem discover_sources_complete_witness:
  "\<exists>s1 s2. discover_sources sample_platform plain_unicode (\<lambda>name. None) twin_tree (py ''ns'') twin_config = Inr [s1, s2] \<and>
     sorted (map src_uri [s1, s2]) \<and> src_status s1 = SourceActive \<and> src_id s2 = source_id_of sample_platform (py ''ns'') (src_uri s2)"
  using twin_discovery discover_sources_complete [of sample_platform plain_unicode "\<lambda>name. None" twin_tree "py ''ns''" twin_config] by fastforce

text \<open>
  A discovered record points at an earlier one exactly when an earlier one has its content
  hash, and then at the first such record.
\<close>

theorem discover_sources_duplicates:
  assumes "discover_sources L U g tree ns config = Inr ss" "i < length ss"
  shows "src_relationships (ss ! i) =
    (case find (\<lambda>s. src_content_hash s = src_content_hash (ss ! i)) (take i ss) of
       None \<Rightarrow> []
     | Some c \<Rightarrow> [\<lparr>rel_type = DuplicateOf, rel_target_version_id = src_version_id c\<rparr>])"
proof -
  from assms(1) obtain found built
    where b: "collect (map (build_source_record L U g ns config) found) = Inr built"
      and ss: "ss = attach_duplicates Map.empty built"
    by (rule discover_sources_parts)
  have same: "map (\<lambda>s. (src_content_hash s, src_version_id s)) ss = map (\<lambda>s. (src_content_hash s, src_version_id s)) built"
    unfolding ss by (rule attach_duplicates_map) simp
  have len: "length built = length ss" using same by (metis length_map)
  have at: "src_content_hash (built ! j) = src_content_hash (ss ! j)" "src_version_id (built ! j) = src_version_id (ss ! j)"
    if "j < length ss" for j
    using arg_cong [OF same, of "\<lambda>xs. xs ! j"] that len by simp_all
  have "map_option src_version_id (find (\<lambda>s. src_content_hash s = src_content_hash (ss ! i)) (take i ss)) =
      map_option src_version_id (find (\<lambda>s. src_content_hash s = src_content_hash (built ! i)) (take i built))"
    using find_same [OF same, of "src_content_hash (ss ! i)" i] at(1) [OF assms(2)] by simp
  moreover have "list_all (\<lambda>s. src_relationships s = []) built"
    using build_source_records_fields(2) [OF b] by (simp add: list_all_iff)
  note attach_duplicates_exact [OF this, of i Map.empty]
  ultimately show ?thesis
    using assms(2) len
    by (cases "find (\<lambda>s. src_content_hash s = src_content_hash (ss ! i)) (take i ss)";
        cases "find (\<lambda>s. src_content_hash s = src_content_hash (built ! i)) (take i built)")
      (simp_all add: ss [symmetric])
qed

theorem discover_sources_duplicates_witness:
  "\<exists>s1 s2. discover_sources sample_platform plain_unicode (\<lambda>name. None) twin_tree (py ''ns'') twin_config = Inr [s1, s2] \<and>
     src_relationships s2 = [\<lparr>rel_type = DuplicateOf, rel_target_version_id = src_version_id s1\<rparr>]"
proof -
  obtain s1 s2 where d: "discover_sources sample_platform plain_unicode (\<lambda>name. None) twin_tree (py ''ns'') twin_config = Inr [s1, s2]"
    "src_content_hash s1 = src_content_hash s2" using twin_discovery by blast
  then show ?thesis using discover_sources_duplicates [OF d(1), of 1] by simp
qed

text \<open>
  The tombstones of a new pass: one for each id that was active before and was not found
  again, each the last record with its status changed, in the order of the uris.
\<close>

theorem tombstones_exact:
  "src_id ` set (compute_tombstones previous ids) = {src_id s | s. s \<in> set previous \<and> src_status s = SourceActive} - set ids
   \<and> distinct (map src_id (compute_tombstones previous ids)) \<and> sorted (map src_uri (compute_tombstones previous ids))
   \<and> set (compute_tombstones previous ids) \<subseteq> (\<lambda>s. s\<lparr>src_status := SourceTombstone\<rparr>) ` {s \<in> set previous. src_status s = SourceActive}"
proof (intro conjI)
  show "src_id ` set (compute_tombstones previous ids) = {src_id s | s. s \<in> set previous \<and> src_status s = SourceActive} - set ids"
    by (auto simp: compute_tombstones_def tombstone_loop_ids)
  have "mset (map src_id (compute_tombstones previous ids)) = mset (map src_id (tombstone_loop (set ids) [] previous))"
    by (simp add: compute_tombstones_def)
  then show "distinct (map src_id (compute_tombstones previous ids))"
    using tombstone_loop_distinct mset_eq_imp_distinct_iff by blast
  show "sorted (map src_uri (compute_tombstones previous ids))" by (simp add: compute_tombstones_def)
  show "set (compute_tombstones previous ids) \<subseteq> (\<lambda>s. s\<lparr>src_status := SourceTombstone\<rparr>) ` {s \<in> set previous. src_status s = SourceActive}"
    by (auto simp: compute_tombstones_def dest!: tombstone_loop_from)
qed

end
