(* ===== verification/Chunk_Base.thy ===== *)
theory Chunk_Base
  imports Models Py_Text
begin

text \<open>
  \<open>ragledger.pipeline.parsers.base\<close> (the parsed document) and
  \<open>ragledger.pipeline.chunkers.base\<close>: the reference tokenizer, the size configuration, the
  contextualization template, the position of every element in the text of the document, the
  splitting of oversized elements and the construction of chunk candidates. The lemmas relate
  tokens to substrings, which is what the guarantees of the chunkers rest on.
\<close>

section \<open>Parsed documents\<close>

datatype element_kind =
    Title | Heading | Paragraph | ListItem | Table | Caption | CodeBlock | Formula
  | ImageReference | PageHeader | PageFooter | Footnote | UnknownElement

record ledger_element =
  le_id :: pystr
  le_kind :: element_kind
  le_order :: nat
  le_text :: pystr
  le_page :: "nat option"
  le_heading_path :: "pystr list"
  le_parent_id :: "pystr option"
  le_confidence :: "float64 option"
  le_table_caption :: "pystr option"
  le_table_header :: "pystr option"

record ledger_document =
  ld_elements :: "ledger_element list"
  ld_page_count :: "nat option"
  ld_frontmatter :: "dict option"

section \<open>The tokenizer\<close>

datatype chunk_error =
    TokenizerUnavailable pystr
  | BadMaxTokens | BadOverlapTokens | OverlapNotBelowMax | BadMinTokens | BadTargetTokens
  | BadOversizedPolicy | BadTokenizerName
  | UnknownConfigKeys "pystr list"
  | UnknownPlaceholder pystr
  | OversizedElement pystr nat int
  | PyTypeError
  | PyKeyError pystr
  | PyValueError
  | PyIndexError

text \<open>
  \<open>WhitespaceTokenizer\<close> is the only tokenizer the registry of names resolves to. The spans
  are those of \<open>re.finditer(r"\S+", text)\<close>, with \<open>i\<close> the offset of the rest of the text.
\<close>

datatype tokenizer = WhitespaceTokenizer

definition TOKENIZER_NAME :: pystr where
  "TOKENIZER_NAME = py ''ragledger-simple-tokenizer''"

function token_spans :: "nat \<Rightarrow> pystr \<Rightarrow> (nat \<times> nat) list" where
  "token_spans i s =
     (let gap = length (takeWhile is_space s); rest = dropWhile is_space s;
          w = length (takeWhile (\<lambda>c. \<not> is_space c) rest)
      in if rest = [] then [] else (i + gap, i + gap + w) # token_spans (i + gap + w) (drop w rest))"
  by pat_completeness auto
termination
proof (relation "measure (length o snd)")
  fix i :: nat and s :: pystr and gap rest w
  assume rest: "rest = dropWhile is_space s" and w: "w = length (takeWhile (\<lambda>c. \<not> is_space c) rest)" and ne: "rest \<noteq> []"
  obtain c cs where c: "rest = c # cs" using ne by (cases rest) auto
  have "\<not> is_space (hd rest)" using ne unfolding rest by (rule hd_dropWhile)
  then have "\<not> is_space c" by (simp add: c)
  then have "0 < w" using w c by simp
  moreover have "length rest \<le> length s" unfolding rest by (rule length_dropWhile_le)
  ultimately show "((i + gap + w, drop w rest), i, s) \<in> measure (length o snd)"
    using ne by (simp add: c)
qed simp

declare token_spans.simps [simp del]

definition token_count :: "tokenizer \<Rightarrow> pystr \<Rightarrow> nat" where
  "token_count t s = length (token_spans 0 s)"

definition resolve_tokenizer :: "pystr \<Rightarrow> chunk_error + tokenizer" where
  "resolve_tokenizer name = (if name = TOKENIZER_NAME then Inr WhitespaceTokenizer else Inl (TokenizerUnavailable name))"

section \<open>Size configuration\<close>

datatype oversized_policy = SplitOversized | FailOversized

record chunk_size_config =
  sz_tokenizer_name :: pystr
  sz_max_tokens :: int
  sz_target_tokens :: "int option"
  sz_overlap_tokens :: int
  sz_min_tokens :: int
  sz_oversized_element_policy :: oversized_policy

text \<open>\<open>config.get(key, default)\<close>; \<open>isinstance(v, int) and not isinstance(v, bool)\<close>.\<close>

definition config_get :: "dict \<Rightarrow> string \<Rightarrow> json \<Rightarrow> json" where
  "config_get config key dflt = (case map_of config (py key) of None \<Rightarrow> dflt | Some v \<Rightarrow> v)"

definition plain_int :: "json \<Rightarrow> int option" where
  "plain_int v = (case v of JInt n \<Rightarrow> Some n | _ \<Rightarrow> None)"

definition parse_policy :: "json \<Rightarrow> oversized_policy option" where
  "parse_policy v =
     (if v = JStr (py ''split'') then Some SplitOversized else if v = JStr (py ''fail'') then Some FailOversized else None)"

definition parse_size_config :: "dict \<Rightarrow> chunk_error + chunk_size_config" where
  "parse_size_config config =
     (let tokenizer_name = config_get config ''tokenizer_name'' (JStr TOKENIZER_NAME);
          max_tokens = plain_int (config_get config ''max_tokens'' (JInt 200));
          target_tokens = config_get config ''target_tokens'' JNull;
          overlap_tokens = plain_int (config_get config ''overlap_tokens'' (JInt 0));
          min_tokens = plain_int (config_get config ''min_tokens'' (JInt 0));
          policy = parse_policy (config_get config ''oversized_element_policy'' (JStr (py ''split'')))
      in case max_tokens of
           None \<Rightarrow> Inl BadMaxTokens
         | Some mx \<Rightarrow>
       if mx \<le> 0 then Inl BadMaxTokens
       else case overlap_tokens of
           None \<Rightarrow> Inl BadOverlapTokens
         | Some ov \<Rightarrow>
       if ov < 0 then Inl BadOverlapTokens
       else if ov \<ge> mx then Inl OverlapNotBelowMax
       else case min_tokens of
           None \<Rightarrow> Inl BadMinTokens
         | Some mn \<Rightarrow>
       if mn < 0 then Inl BadMinTokens
       else if target_tokens \<noteq> JNull \<and>
               (case plain_int target_tokens of None \<Rightarrow> True | Some t \<Rightarrow> t \<le> 0 \<or> t > mx)
       then Inl BadTargetTokens
       else case policy of
           None \<Rightarrow> Inl BadOversizedPolicy
         | Some pol \<Rightarrow>
       (case tokenizer_name of
           JStr name \<Rightarrow>
             if name = [] then Inl BadTokenizerName
             else Inr \<lparr>sz_tokenizer_name = name, sz_max_tokens = mx, sz_target_tokens = plain_int target_tokens,
                       sz_overlap_tokens = ov, sz_min_tokens = mn, sz_oversized_element_policy = pol\<rparr>
         | _ \<Rightarrow> Inl BadTokenizerName))"

section \<open>The contextualization template\<close>

text \<open>
  The matches of \<open>\{([a-z_]+)\}\<close> and the text between them, from left to right. The class
  of the name excludes the closing brace, so at an opening brace there is at most one match.
\<close>

datatype template_part = Literal codepoint | Placeholder pystr

definition name_char :: "codepoint \<Rightarrow> bool" where
  "name_char c \<longleftrightarrow> 97 \<le> c \<and> c \<le> 122 \<or> c = 95"

definition placeholder_at :: "pystr \<Rightarrow> pystr option" where
  "placeholder_at s =
     (case s of
        [] \<Rightarrow> None
      | c # cs \<Rightarrow>
          (let name = takeWhile name_char cs in
           if c = 123 \<and> name \<noteq> [] \<and> take 1 (drop (length name) cs) = [125] then Some name else None))"

function template_parts :: "pystr \<Rightarrow> template_part list" where
  "template_parts s =
     (case s of
        [] \<Rightarrow> []
      | c # cs \<Rightarrow>
          (case placeholder_at s of
             None \<Rightarrow> Literal c # template_parts cs
           | Some name \<Rightarrow> Placeholder name # template_parts (drop (length name + 1) cs)))"
  by pat_completeness auto
termination by (relation "measure length") auto

declare template_parts.simps [simp del]

definition placeholder_names :: "pystr \<Rightarrow> pystr list" where
  "placeholder_names template = concat (map (\<lambda>p. case p of Literal c \<Rightarrow> [] | Placeholder name \<Rightarrow> [name]) (template_parts template))"

definition ALLOWED_PLACEHOLDERS :: "pystr list" where
  "ALLOWED_PLACEHOLDERS = map py [''heading_path'', ''text'', ''table_caption'']"

definition validate_contextualization_template :: "json \<Rightarrow> chunk_error + unit" where
  "validate_contextualization_template template =
     (case template of
        JStr s \<Rightarrow>
          (case filter (\<lambda>name. name \<notin> set ALLOWED_PLACEHOLDERS) (placeholder_names s) of
             [] \<Rightarrow> Inr ()
           | name # _ \<Rightarrow> Inl (UnknownPlaceholder name))
      | _ \<Rightarrow> Inl PyTypeError)"

definition SIZE_CONFIG_KEYS :: "pystr list" where
  "SIZE_CONFIG_KEYS =
     map py [''tokenizer_name'', ''max_tokens'', ''target_tokens'', ''overlap_tokens'', ''min_tokens'', ''oversized_element_policy'']"

definition TEMPLATE_CONFIG_KEY :: pystr where
  "TEMPLATE_CONFIG_KEY = py ''contextualization_template''"

definition validate_size_and_template_config :: "dict \<Rightarrow> chunk_error + unit" where
  "validate_size_and_template_config config =
     (let unknown = filter (\<lambda>k. k \<notin> set SIZE_CONFIG_KEYS \<and> k \<noteq> TEMPLATE_CONFIG_KEY) (map fst config) in
      if unknown \<noteq> [] then Inl (UnknownConfigKeys (sorted_set unknown))
      else andThen (parse_size_config config)
             (\<lambda>_. case map_of config TEMPLATE_CONFIG_KEY of
                    None \<Rightarrow> Inr ()
                  | Some JNull \<Rightarrow> Inr ()
                  | Some template \<Rightarrow> validate_contextualization_template template))"

section \<open>Chunk candidates\<close>

record chunk_candidate =
  cc_element_refs :: "pystr list"
  cc_raw_text :: pystr
  cc_locator :: structural_locator
  cc_heading_path :: "pystr list"
  cc_table_caption :: "pystr option"

record contextualized_chunk =
  cx_candidate :: chunk_candidate
  cx_contextualized_text :: pystr
  cx_token_count :: nat

definition template_values :: "chunk_candidate \<Rightarrow> (pystr \<times> pystr) list" where
  "template_values candidate =
     [(py ''heading_path'', join (py '' > '') (cc_heading_path candidate)),
      (py ''text'', cc_raw_text candidate),
      (py ''table_caption'', case cc_table_caption candidate of None \<Rightarrow> [] | Some c \<Rightarrow> c)]"

definition render_contextualization_template :: "pystr \<Rightarrow> chunk_candidate \<Rightarrow> chunk_error + pystr" where
  "render_contextualization_template template candidate =
     andThen (collect (map (\<lambda>p. case p of
                Literal c \<Rightarrow> Inr [c]
              | Placeholder name \<Rightarrow>
                  (case map_of (template_values candidate) name of None \<Rightarrow> Inl (PyKeyError name) | Some v \<Rightarrow> Inr v))
            (template_parts template)))
       (\<lambda>parts. Inr (concat parts))"

definition contextualize_candidate :: "chunk_candidate \<Rightarrow> dict \<Rightarrow> tokenizer \<Rightarrow> chunk_error + contextualized_chunk" where
  "contextualize_candidate candidate config tokenizer =
     (case (case map_of config TEMPLATE_CONFIG_KEY of None \<Rightarrow> JStr (py ''{text}'') | Some v \<Rightarrow> v) of
        JStr template \<Rightarrow>
          andThen (render_contextualization_template template candidate)
            (\<lambda>rendered. Inr \<lparr>cx_candidate = candidate, cx_contextualized_text = rendered,
                             cx_token_count = token_count tokenizer rendered\<rparr>)
      | _ \<Rightarrow> Inl PyTypeError)"

section \<open>Positions\<close>

record positioned_element =
  pe_element :: ledger_element
  pe_char_start :: nat
  pe_char_end :: nat

text \<open>The loop of \<open>position_elements\<close>, with its cursor and whether an element came before.\<close>

fun position_from :: "bool \<Rightarrow> nat \<Rightarrow> ledger_element list \<Rightarrow> positioned_element list" where
  "position_from later cursor [] = []"
| "position_from later cursor (e # es) =
     (let start = (if later then cursor + 2 else cursor); stop = start + length (le_text e)
      in \<lparr>pe_element = e, pe_char_start = start, pe_char_end = stop\<rparr> # position_from True stop es)"

definition position_elements :: "ledger_document \<Rightarrow> positioned_element list" where
  "position_elements document = position_from False 0 (ld_elements document)"

definition SEP :: pystr where
  "SEP = [10, 10]"

definition document_text :: "positioned_element list \<Rightarrow> pystr" where
  "document_text positioned = join SEP (map (\<lambda>p. le_text (pe_element p)) positioned)"

definition slice :: "nat \<Rightarrow> nat \<Rightarrow> 'a list \<Rightarrow> 'a list" where
  "slice start stop xs = take (stop - start) (drop start xs)"

section \<open>Splitting and building\<close>

definition piece_of :: "positioned_element \<Rightarrow> (nat \<times> nat) list \<Rightarrow> positioned_element" where
  "piece_of p spans =
     (let local_start = fst (hd spans); local_end = snd (last spans); e = pe_element p
      in \<lparr>pe_element = e\<lparr>le_text := slice local_start local_end (le_text e)\<rparr>,
          pe_char_start = pe_char_start p + local_start, pe_char_end = pe_char_start p + local_end\<rparr>)"

text \<open>\<open>range(0, n, step)\<close> raises for a zero step and is empty for a negative one.\<close>

definition split_oversized :: "positioned_element \<Rightarrow> int \<Rightarrow> tokenizer \<Rightarrow> chunk_error + positioned_element list" where
  "split_oversized p max_tokens tokenizer =
     (let matches = token_spans 0 (le_text (pe_element p)) in
      if matches = [] then Inr [p]
      else if max_tokens = 0 then Inl PyValueError
      else Inr (map (piece_of p) (chunks (nat max_tokens) matches)))"

text \<open>The first truthy caption, the extreme pages, and the repeated table header.\<close>

definition first_caption :: "ledger_element list \<Rightarrow> pystr option" where
  "first_caption elements = (case filter (\<lambda>e. truthy (le_table_caption e)) elements of [] \<Rightarrow> None | e # _ \<Rightarrow> le_table_caption e)"

definition pages_of :: "ledger_element list \<Rightarrow> nat list" where
  "pages_of elements = concat (map (\<lambda>e. case le_page e of None \<Rightarrow> [] | Some n \<Rightarrow> [n]) elements)"

definition repeated_header :: "ledger_element \<Rightarrow> pystr" where
  "repeated_header first_el =
     (case le_table_header first_el of
        None \<Rightarrow> []
      | Some h \<Rightarrow> if le_kind first_el = Table \<and> h \<noteq> [] \<and> strip (le_text first_el) \<noteq> strip h then h @ [10] else [])"

definition build_candidate :: "positioned_element list \<Rightarrow> nat \<Rightarrow> chunk_error + chunk_candidate" where
  "build_candidate parts ordinal =
     (case map pe_element parts of
        [] \<Rightarrow> Inl PyIndexError
      | first_el # others \<Rightarrow>
          (let elements = first_el # others;
               pages = pages_of elements;
               element_ids = map le_id elements;
               raw_text = repeated_header first_el @ join SEP (map le_text elements);
               locator = \<lparr>loc_kind = py ''document_span'',
                          loc_page_start = (if pages \<noteq> [] then Some (Min (set pages)) else None),
                          loc_page_end = (if pages \<noteq> [] then Some (Max (set pages)) else None),
                          loc_heading_path = (if le_heading_path first_el = [] then None else Some (le_heading_path first_el)),
                          loc_element_ids = Some element_ids,
                          loc_character_start = Some (pe_char_start (hd parts)),
                          loc_character_end = Some (pe_char_end (last parts)),
                          loc_ordinal = ordinal\<rparr>
           in Inr \<lparr>cc_element_refs = element_ids, cc_raw_text = raw_text, cc_locator = locator,
                   cc_heading_path = le_heading_path first_el, cc_table_caption = first_caption elements\<rparr>))"

text \<open>\<open>group_by_heading_path\<close>: the last section is extended or a new one opened.\<close>

definition add_to_sections :: "positioned_element list list \<Rightarrow> positioned_element \<Rightarrow> positioned_element list list" where
  "add_to_sections sections item =
     (if sections \<noteq> [] \<and> le_heading_path (pe_element (last (last sections))) = le_heading_path (pe_element item)
      then butlast sections @ [last sections @ [item]]
      else sections @ [[item]])"

definition group_by_heading_path :: "positioned_element list \<Rightarrow> positioned_element list list" where
  "group_by_heading_path positioned = foldl add_to_sections [] positioned"

definition drop_empty_candidates :: "chunk_candidate list \<Rightarrow> chunk_candidate list \<times> nat" where
  "drop_empty_candidates candidates =
     foldl (\<lambda>(kept, dropped) candidate.
        if strip (cc_raw_text candidate) \<noteq> [] then (kept @ [candidate], dropped) else (kept, dropped + 1)) ([], 0) candidates"

section \<open>Tokens and substrings\<close>

lemma token_spans_Nil [simp]: "token_spans i [] = []"
  by (subst token_spans.simps) simp

lemma token_spans_space [simp]: "is_space c \<Longrightarrow> token_spans i (c # s) = token_spans (Suc i) s"
  by (subst (1 2) token_spans.simps) (simp add: Let_def)

lemma token_spans_word:
  assumes "w \<noteq> []" "list_all (\<lambda>c. \<not> is_space c) w" "s = [] \<or> is_space (hd s)"
  shows "token_spans i (w @ s) = (i, i + length w) # token_spans (i + length w) s"
proof -
  obtain c cs where w: "w = c # cs" using assms(1) by (cases w) auto
  have t: "takeWhile (\<lambda>c. \<not> is_space c) (w @ s) = w"
    using assms(2,3) by (cases s) (auto simp: takeWhile_append list_all_iff)
  have "takeWhile is_space (w @ s) = []" "dropWhile is_space (w @ s) = w @ s"
    using assms(2) by (simp_all add: w)
  then show ?thesis
    by (subst token_spans.simps) (simp add: Let_def t assms(1))
qed

text \<open>A text is empty, or opens with white space, or with a word that ends it or precedes white space.\<close>

lemma text_induct [case_names empty space word]:
  assumes "P []" "\<And>c s. is_space c \<Longrightarrow> P s \<Longrightarrow> P (c # s)"
    "\<And>w s. w \<noteq> [] \<Longrightarrow> list_all (\<lambda>c. \<not> is_space c) w \<Longrightarrow> s = [] \<or> is_space (hd s) \<Longrightarrow> P s \<Longrightarrow> P (w @ s)"
  shows "P s"
proof (induction s rule: length_induct)
  case (1 s)
  show ?case
  proof (cases s)
    case (Cons c cs)
    show ?thesis
    proof (cases "is_space c")
      case False
      let ?w = "takeWhile (\<lambda>c. \<not> is_space c) s" and ?r = "dropWhile (\<lambda>c. \<not> is_space c) s"
      have "length ?r < length s"
        using False Cons length_dropWhile_le [of "\<lambda>c. \<not> is_space c" cs] by simp
      then have "P ?r" using 1 by blast
      moreover have "?w \<noteq> []" using False Cons by simp
      moreover have "list_all (\<lambda>c. \<not> is_space c) ?w" using set_takeWhileD by (force simp: list_all_iff)
      moreover have "?r = [] \<or> is_space (hd ?r)" using hd_dropWhile [of "\<lambda>c. \<not> is_space c" s] by auto
      ultimately have "P (?w @ ?r)" by (rule assms(3) [rotated 3])
      then show ?thesis by simp
    qed (use 1 Cons assms(2) in auto)
  qed (use assms(1) in simp)
qed

lemma token_spans_shift: "token_spans (i + d) s = map (\<lambda>(a, b). (a + d, b + d)) (token_spans i s)"
proof (induction s arbitrary: i rule: text_induct)
  case (space c s)
  then show ?case using space(2) [of "Suc i"] by simp
next
  case (word w s)
  then show ?case using word(4) [of "i + length w"] by (simp add: token_spans_word ac_simps)
qed simp

lemma length_token_spans: "length (token_spans i s) = length (token_spans 0 s)"
  using token_spans_shift [of 0 i s] by simp

lemma token_spans_append:
  assumes "t = [] \<or> is_space (hd t)"
  shows "token_spans i (s @ t) = token_spans i s @ token_spans (i + length s) t"
proof (induction s arbitrary: i rule: text_induct)
  case (word w s)
  then have "s @ t = [] \<or> is_space (hd (s @ t))" using assms by (cases s) auto
  then show ?case using word by (simp add: token_spans_word ac_simps)
qed simp_all

text \<open>A text can be cut before the first or after the last of any run of its tokens.\<close>

lemma cut_before:
  assumes "token_spans i s = xs @ ys" "ys \<noteq> []"
  shows "\<exists>u v. s = u @ v \<and> i + length u = fst (hd ys) \<and> token_spans i u = xs \<and> token_spans (i + length u) v = ys"
  using assms
proof (induction s arbitrary: i xs rule: text_induct)
  case (space c s)
  have "token_spans (Suc i) s = xs @ ys" using space(1,3) by simp
  from space(2) [OF this space(4)] obtain u v where "s = u @ v" "Suc i + length u = fst (hd ys)" "token_spans (Suc i) u = xs"
    "token_spans (Suc i + length u) v = ys" by blast
  then show ?case using space(1) by (intro exI [of _ "c # u"] exI [of _ v]) simp
next
  case (word w s)
  show ?case
  proof (cases xs)
    case Nil
    then show ?thesis using word by (intro exI [of _ "[]"] exI [of _ "w @ s"]) (auto simp: token_spans_word)
  next
    case (Cons x xs')
    then have "x = (i, i + length w)" "token_spans (i + length w) s = xs' @ ys"
      using word by (simp_all add: token_spans_word)
    moreover from this obtain u v where "s = u @ v" "i + length w + length u = fst (hd ys)" "token_spans (i + length w) u = xs'"
      "token_spans (i + length w + length u) v = ys"
      using word(4) [of "i + length w" xs'] word(6) by blast
    moreover from this have "u = [] \<or> is_space (hd u)" using word(3) by (cases u) auto
    ultimately show ?thesis using word(1,2) Cons
      by (intro exI [of _ "w @ u"] exI [of _ v]) (auto simp: token_spans_word ac_simps)
  qed
qed simp

lemma cut_after:
  assumes "token_spans i s = xs @ ys" "xs \<noteq> []"
  shows "\<exists>u v. s = u @ v \<and> i + length u = snd (last xs) \<and> token_spans i u = xs \<and> token_spans (i + length u) v = ys"
  using assms
proof (induction s arbitrary: i xs rule: text_induct)
  case (space c s)
  have "token_spans (Suc i) s = xs @ ys" using space(1,3) by simp
  from space(2) [OF this space(4)] obtain u v where "s = u @ v" "Suc i + length u = snd (last xs)" "token_spans (Suc i) u = xs"
    "token_spans (Suc i + length u) v = ys" by blast
  then show ?case using space(1) by (intro exI [of _ "c # u"] exI [of _ v]) simp
next
  case (word w s)
  obtain x xs' where xs: "xs = x # xs'" using word(6) by (cases xs) auto
  then have x: "x = (i, i + length w)" and rest: "token_spans (i + length w) s = xs' @ ys"
    using word by (simp_all add: token_spans_word)
  show ?case
  proof (cases "xs' = []")
    case True
    then show ?thesis using word(1,2) xs x rest token_spans_word [of w "[]" i]
      by (intro exI [of _ w] exI [of _ s]) simp
  next
    case False
    from word(4) [OF rest False] obtain u v where "s = u @ v" "i + length w + length u = snd (last xs')" "token_spans (i + length w) u = xs'"
      "token_spans (i + length w + length u) v = ys" by blast
    moreover from this have "u = [] \<or> is_space (hd u)" using word(3) by (cases u) auto
    ultimately show ?thesis using word(1,2) xs x False
      by (intro exI [of _ "w @ u"] exI [of _ v]) (simp add: token_spans_word ac_simps)
  qed
qed simp

lemma token_run_slice:
  assumes "token_spans 0 s = xs @ g @ ys" "g \<noteq> []"
  shows "token_spans (fst (hd g)) (slice (fst (hd g)) (snd (last g)) s) = g" "snd (last g) \<le> length s" "fst (hd g) \<le> snd (last g)"
proof -
  obtain u v where 1: "s = u @ v" "length u = fst (hd g)" "token_spans (length u) v = g @ ys"
    using cut_before [of 0 s xs "g @ ys"] assms by auto
  obtain p q where 2: "v = p @ q" "length u + length p = snd (last g)" "token_spans (length u) p = g"
    using cut_after [OF 1(3) assms(2)] by auto
  show "token_spans (fst (hd g)) (slice (fst (hd g)) (snd (last g)) s) = g" "snd (last g) \<le> length s" "fst (hd g) \<le> snd (last g)"
    using 1 2(3) by (simp_all add: slice_def 2(1) flip: 1(2) 2(2))
qed

lemma token_count_slice:
  assumes "token_spans 0 s = xs @ g @ ys" "g \<noteq> []"
  shows "token_count t (slice (fst (hd g)) (snd (last g)) s) = length g"
  using arg_cong [OF token_run_slice(1) [OF assms], of length] by (simp add: token_count_def length_token_spans [of "fst (hd g)"])

lemma token_count_Nil [simp]: "token_count t [] = 0"
  by (simp add: token_count_def)

lemma token_count_append_space:
  "s = [] \<or> is_space (hd s) \<Longrightarrow> token_count t (r @ s) = token_count t r + token_count t s"
  by (simp add: token_count_def token_spans_append length_token_spans [of "length r"])

lemma token_count_SEP: "token_count t (SEP @ s) = token_count t s"
  by (simp add: token_count_def SEP_def is_space_def length_token_spans [of "Suc (Suc 0)"])

lemma token_count_join: "token_count t (join SEP xs) = sum_list (map (token_count t) xs)"
proof (induction xs rule: induct_list012)
  case (3 x y ys)
  have "SEP @ join SEP (y # ys) = [] \<or> is_space (hd (SEP @ join SEP (y # ys)))"
    by (simp add: SEP_def is_space_def)
  then show ?case using 3(2) by (simp add: token_count_append_space token_count_SEP)
qed simp_all

text \<open>The words of a text, and that words survive being sliced out in runs.\<close>

definition tokens :: "pystr \<Rightarrow> pystr list" where
  "tokens s = map (\<lambda>(a, b). slice a b s) (token_spans 0 s)"

lemma token_span_bounds: "(a, b) \<in> set (token_spans i s) \<Longrightarrow> i \<le> a \<and> a < b \<and> b \<le> i + length s"
proof (induction s arbitrary: i rule: text_induct)
  case (space c s)
  then show ?case by fastforce
next
  case (word w s)
  then consider "a = i" "b = i + length w" | "(a, b) \<in> set (token_spans (i + length w) s)"
    by (auto simp: token_spans_word)
  then show ?case using word(1,4) by cases (force, fastforce)
qed simp

lemma slice_slice: "b \<le> n - m \<Longrightarrow> n \<le> length s \<Longrightarrow> slice a b (slice m n s) = slice (m + a) (m + b) s"
  by (simp add: slice_def drop_take min_def add.commute)

lemma length_slice: "e \<le> length s \<Longrightarrow> length (slice b e s) = e - b"
  by (simp add: slice_def)

lemma tokens_slice:
  assumes "token_spans 0 s = xs @ g @ ys" "g \<noteq> []"
  shows "tokens (slice (fst (hd g)) (snd (last g)) s) = map (\<lambda>(a, b). slice a b s) g"
proof -
  let ?m = "fst (hd g)" and ?n = "snd (last g)"
  let ?t = "slice ?m ?n s"
  note run = token_run_slice [OF assms]
  have g: "g = map (\<lambda>(a, b). (a + ?m, b + ?m)) (token_spans 0 ?t)"
    using run(1) token_spans_shift [of 0 ?m ?t] by simp
  have "slice a b ?t = slice (a + ?m) (b + ?m) s" if "(a, b) \<in> set (token_spans 0 ?t)" for a b
    using token_span_bounds [OF that] run(2) by (simp add: length_slice slice_slice add.commute)
  then have "tokens ?t = map (\<lambda>(a, b). slice (a + ?m) (b + ?m) s) (token_spans 0 ?t)"
    by (auto simp: tokens_def)
  also have "\<dots> = map (\<lambda>(a, b). slice a b s) (map (\<lambda>(a, b). (a + ?m, b + ?m)) (token_spans 0 ?t))"
    by (auto simp: comp_def)
  finally show ?thesis using g by simp
qed

lemma length_tokens: "length (tokens s) = token_count t s"
  by (simp add: tokens_def token_count_def)

section \<open>Oversized elements\<close>

abbreviation part_text :: "positioned_element \<Rightarrow> pystr" where
  "part_text p \<equiv> le_text (pe_element p)"

lemma chunks_runs:
  "0 < w \<Longrightarrow> g \<in> set (chunks w xs) \<Longrightarrow> g \<noteq> [] \<and> length g \<le> w \<and> (\<exists>us vs. xs = us @ g @ vs)"
proof (induction w xs rule: chunks.induct)
  case (1 w xs)
  show ?case
  proof (cases "xs = []")
    case False
    then consider "g = take w xs" | "g \<in> set (chunks w (drop w xs))"
      using 1(2,3) by (auto simp: chunks_step)
    then show ?thesis
    proof cases
      case 1
      have "xs = [] @ take w xs @ drop w xs" by simp
      then have "\<exists>us vs. xs = us @ take w xs @ vs" by blast
      then show ?thesis using 1 False \<open>0 < w\<close> by simp
    next
      case 2
      then obtain us vs where "g \<noteq> []" "length g \<le> w" "drop w xs = us @ g @ vs"
        using 1(1) [of] 1(2) False by auto
      then show ?thesis by (metis append_assoc append_take_drop_id)
    qed
  qed (use 1 in simp)
qed

text \<open>A part is placed when its offsets cut exactly its text out of the document.\<close>

definition placed :: "pystr \<Rightarrow> positioned_element \<Rightarrow> bool" where
  "placed whole p \<longleftrightarrow> pe_char_end p \<le> length whole \<and> pe_char_end p = pe_char_start p + length (part_text p) \<and>
     slice (pe_char_start p) (pe_char_end p) whole = part_text p"

lemma split_oversized_spec:
  assumes "0 < mx"
  obtains pieces where "split_oversized p mx t = Inr pieces" "pieces \<noteq> []"
    "concat (map (tokens \<circ> part_text) pieces) = tokens (part_text p)"
    "\<And>q. q \<in> set pieces \<Longrightarrow> int (token_count t (part_text q)) \<le> mx"
    "\<And>q. q \<in> set pieces \<Longrightarrow> pe_element q = (pe_element p)\<lparr>le_text := part_text q\<rparr>"
    "\<And>q whole. q \<in> set pieces \<Longrightarrow> placed whole p \<Longrightarrow> placed whole q"
proof (cases "token_spans 0 (part_text p) = []")
  case True
  then show ?thesis
    using assms by (intro that [of "[p]"]) (auto simp: split_oversized_def token_count_def)
next
  case False
  let ?s = "part_text p" and ?gs = "chunks (nat mx) (token_spans 0 (part_text p))"
  have w: "0 < nat mx" using assms by simp
  have run: "g \<noteq> [] \<and> length g \<le> nat mx \<and> (\<exists>us vs. token_spans 0 ?s = us @ g @ vs)" if "g \<in> set ?gs" for g
    by (rule chunks_runs [OF w that])
  have part: "part_text (piece_of p g) = slice (fst (hd g)) (snd (last g)) ?s" for g
    by (simp add: piece_of_def Let_def)
  have "split_oversized p mx t = Inr (map (piece_of p) ?gs)"
    using False assms by (simp add: split_oversized_def)
  moreover have "map (piece_of p) ?gs \<noteq> []"
    using False w by (simp add: chunks_step)
  moreover have "concat (map (tokens \<circ> part_text) (map (piece_of p) ?gs)) = tokens ?s"
  proof -
    have "tokens (part_text (piece_of p g)) = map (\<lambda>(a, b). slice a b ?s) g" if "g \<in> set ?gs" for g
      using run [OF that] tokens_slice [of ?s _ g] part by auto
    then have "concat (map (tokens \<circ> part_text) (map (piece_of p) ?gs)) = concat (map (map (\<lambda>(a, b). slice a b ?s)) ?gs)"
      by (simp add: comp_def cong: map_cong)
    also have "\<dots> = map (\<lambda>(a, b). slice a b ?s) (concat ?gs)" by (simp add: map_concat)
    finally show ?thesis using w by (simp add: concat_chunks tokens_def)
  qed
  moreover have "int (token_count t (part_text q)) \<le> mx" if q: "q \<in> set (map (piece_of p) ?gs)" for q
  proof -
    obtain g where g: "g \<in> set ?gs" "q = piece_of p g" using q by auto
    then obtain us vs where "token_spans 0 ?s = us @ g @ vs" "g \<noteq> []" "length g \<le> nat mx" using run by blast
    then show ?thesis using token_count_slice [of ?s us g vs t] part [of g] g assms by simp
  qed
  moreover have "pe_element q = (pe_element p)\<lparr>le_text := part_text q\<rparr>" if "q \<in> set (map (piece_of p) ?gs)" for q
    using that by (auto simp: piece_of_def Let_def)
  moreover have "placed whole q" if q: "q \<in> set (map (piece_of p) ?gs)" and "placed whole p" for q whole
  proof -
    obtain g where g: "g \<in> set ?gs" "q = piece_of p g" using q by auto
    then obtain us vs where "token_spans 0 ?s = us @ g @ vs" "g \<noteq> []" using run by blast
    from token_run_slice(2,3) [OF this] \<open>placed whole p\<close> show ?thesis
      unfolding placed_def g(2) part
      by (simp add: piece_of_def Let_def length_slice) (metis add_diff_cancel_left' slice_slice)
  qed
  ultimately show ?thesis by (rule that)
qed

section \<open>Positions in the document\<close>

lemma join_append:
  "join sep (xs @ ys) = join sep xs @ (if xs = [] \<or> ys = [] then [] else sep) @ join sep ys"
proof (induction xs rule: induct_list012)
  case (2 x)
  then show ?case by (cases ys) auto
qed auto

lemma join_append3:
  "g \<noteq> [] \<Longrightarrow> join sep (a @ g @ b) =
     (join sep a @ (if a = [] then [] else sep)) @ join sep g @ (if b = [] then [] else sep) @ join sep b"
  by (auto simp: join_append)

lemma map_position_from [simp]: "map pe_element (position_from later cursor es) = es"
  by (induction later cursor es rule: position_from.induct) (auto simp: Let_def)

lemma position_from_Nil_iff [simp]: "position_from later cursor es = [] \<longleftrightarrow> es = []"
  by (cases es) (auto simp: Let_def)

lemma length_position_from [simp]: "length (position_from later cursor es) = length es"
  by (metis length_map map_position_from)

definition cursor_after :: "bool \<Rightarrow> nat \<Rightarrow> ledger_element list \<Rightarrow> nat" where
  "cursor_after later cursor es =
     (if es = [] then cursor else cursor + (if later then 2 else 0) + length (join SEP (map le_text es)))"

lemma position_from_append:
  "position_from later cursor (xs @ ys) =
     position_from later cursor xs @ position_from (later \<or> xs \<noteq> []) (cursor_after later cursor xs) ys"
proof (induction xs arbitrary: later cursor)
  case (Cons x xs)
  have "cursor_after True (cursor + (if later then 2 else 0) + length (le_text x)) xs = cursor_after later cursor (x # xs)"
    using join_append [of SEP "[le_text x]" "map le_text xs"] by (auto simp: cursor_after_def SEP_def)
  then show ?case using Cons by (auto simp: Let_def)
qed (simp add: cursor_after_def)

lemma position_from_ends:
  assumes "es \<noteq> []"
  shows "pe_char_start (hd (position_from later cursor es)) = cursor + (if later then 2 else 0)"
    "pe_char_end (last (position_from later cursor es)) = cursor_after later cursor es"
proof -
  show "pe_char_start (hd (position_from later cursor es)) = cursor + (if later then 2 else 0)"
    using assms by (cases es) (auto simp: Let_def)
  obtain xs x where es: "es = xs @ [x]" using assms by (cases es rule: rev_cases) auto
  then show "pe_char_end (last (position_from later cursor es)) = cursor_after later cursor es"
    using join_append [of SEP "map le_text xs" "[le_text x]"]
    by (auto simp: position_from_append cursor_after_def Let_def SEP_def)
qed

text \<open>Consecutive elements are cut out of the document, separators included, by their outer offsets.\<close>

lemma position_elements_split:
  assumes "position_elements d = a @ g @ b"
  shows "g = position_from (a \<noteq> []) (cursor_after False 0 (map pe_element a)) (map pe_element g)"
proof -
  let ?p = "\<lambda>c l xs. position_from l c (map pe_element xs)"
  have e: "ld_elements d = map pe_element a @ map pe_element g @ map pe_element b"
    using arg_cong [OF assms, of "map pe_element"] by (simp add: position_elements_def)
  then have "a @ g @ b = position_from False 0 (map pe_element a) @
      position_from (a \<noteq> []) (cursor_after False 0 (map pe_element a)) (map pe_element g @ map pe_element b)"
    using assms by (simp add: position_elements_def position_from_append)
  then have "g @ b = position_from (a \<noteq> []) (cursor_after False 0 (map pe_element a)) (map pe_element g @ map pe_element b)"
    by (subst (asm) append_eq_append_conv) auto
  then show ?thesis
    by (subst (asm) position_from_append) (subst (asm) append_eq_append_conv, auto)
qed

lemma contiguous_slice:
  assumes "position_elements d = a @ g @ b" "g \<noteq> []"
  shows "slice (pe_char_start (hd g)) (pe_char_end (last g)) (document_text (position_elements d)) = join SEP (map part_text g)"
    "pe_char_end (last g) \<le> length (document_text (position_elements d))"
    "pe_char_end (last g) = pe_char_start (hd g) + length (join SEP (map part_text g))"
proof -
  let ?e = "map pe_element"
  let ?pre = "join SEP (map part_text a) @ (if a = [] then [] else SEP)"
  have g: "g = position_from (a \<noteq> []) (cursor_after False 0 (?e a)) (?e g)" by (rule position_elements_split [OF assms(1)])
  have start: "pe_char_start (hd g) = length ?pre"
    by (subst g, subst position_from_ends(1)) (use assms(2) in \<open>auto simp: cursor_after_def SEP_def comp_def\<close>)
  show stop: "pe_char_end (last g) = pe_char_start (hd g) + length (join SEP (map part_text g))"
    unfolding start by (subst g, subst position_from_ends(2)) (use assms(2) in \<open>auto simp: cursor_after_def SEP_def comp_def\<close>)
  have "document_text (position_elements d) =
      ?pre @ join SEP (map part_text g) @ (if b = [] then [] else SEP) @ join SEP (map part_text b)"
    unfolding assms(1) document_text_def using assms(2) join_append3 [of "map part_text g" SEP "map part_text a" "map part_text b"]
    by simp
  then show "slice (pe_char_start (hd g)) (pe_char_end (last g)) (document_text (position_elements d)) = join SEP (map part_text g)"
    "pe_char_end (last g) \<le> length (document_text (position_elements d))"
    unfolding stop start by (simp_all add: slice_def)
qed

lemma elements_placed:
  assumes "p \<in> set (position_elements d)"
  shows "placed (document_text (position_elements d)) p"
proof -
  obtain a b where "position_elements d = a @ [p] @ b" using assms by (metis append_Cons append_Nil split_list)
  from contiguous_slice [OF this] show ?thesis by (simp add: placed_def)
qed

section \<open>Candidates\<close>

text \<open>What the locator of a candidate promises: its offsets cut the candidate's text, less a
  repeated table header, out of the document, and its parts are those referred to.\<close>

definition located :: "pystr \<Rightarrow> chunk_candidate \<Rightarrow> bool" where
  "located whole c \<longleftrightarrow>
     (case (loc_character_start (cc_locator c), loc_character_end (cc_locator c)) of
        (Some a, Some b) \<Rightarrow> b \<le> length whole \<and>
          (\<exists>hdr. (hdr = [] \<or> last hdr = 10) \<and> cc_raw_text c = hdr @ slice a b whole)
      | _ \<Rightarrow> False)"

definition joined :: "pystr \<Rightarrow> positioned_element list \<Rightarrow> bool" where
  "joined whole parts \<longleftrightarrow> parts \<noteq> [] \<and> pe_char_end (last parts) \<le> length whole \<and>
     slice (pe_char_start (hd parts)) (pe_char_end (last parts)) whole = join SEP (map part_text parts)"

lemma build_candidate_total:
  assumes "parts \<noteq> []"
  obtains c where "build_candidate parts n = Inr c" "cc_element_refs c = map (le_id \<circ> pe_element) parts"
    "cc_raw_text c = repeated_header (pe_element (hd parts)) @ join SEP (map part_text parts)"
    "loc_ordinal (cc_locator c) = n" "loc_character_start (cc_locator c) = Some (pe_char_start (hd parts))"
    "loc_character_end (cc_locator c) = Some (pe_char_end (last parts))"
  using assms by (cases parts) (auto simp: build_candidate_def Let_def comp_def)

lemma build_candidate_located: "joined whole parts \<Longrightarrow> build_candidate parts n = Inr c \<Longrightarrow> located whole c"
  by (rule build_candidate_total [of parts n])
    (auto simp: joined_def located_def repeated_header_def split: option.splits if_splits)

definition one_heading :: "positioned_element list \<Rightarrow> bool" where
  "one_heading parts \<longleftrightarrow> (\<exists>h. list_all (\<lambda>p. le_heading_path (pe_element p) = h) parts)"

lemma one_heading_snoc:
  "parts \<noteq> [] \<Longrightarrow> one_heading parts \<Longrightarrow> le_heading_path (pe_element (last parts)) = le_heading_path (pe_element p) \<Longrightarrow>
    one_heading (parts @ [p])"
  by (auto simp: one_heading_def list_all_iff dest: last_in_set)

lemma one_heading_mono: "one_heading parts \<Longrightarrow> set parts' \<subseteq> set parts \<Longrightarrow> one_heading parts'"
  by (auto simp: one_heading_def list_all_iff)

lemma add_to_sections_spec:
  assumes "list_all (\<lambda>sec. sec \<noteq> [] \<and> one_heading sec) S"
  shows "concat (add_to_sections S p) = concat S @ [p]" "list_all (\<lambda>sec. sec \<noteq> [] \<and> one_heading sec) (add_to_sections S p)"
  using assms by (cases S rule: rev_cases; auto simp: add_to_sections_def one_heading_snoc; simp add: one_heading_def)+

lemma group_by_heading_path_spec:
  "concat (group_by_heading_path ps) = ps \<and> list_all (\<lambda>sec. sec \<noteq> [] \<and> one_heading sec) (group_by_heading_path ps)"
  by (induction ps rule: rev_induct) (simp_all add: group_by_heading_path_def add_to_sections_spec)

lemma drop_empty_candidates_eq:
  "drop_empty_candidates cs = (filter (\<lambda>c. strip (cc_raw_text c) \<noteq> []) cs, length (filter (\<lambda>c. strip (cc_raw_text c) = []) cs))"
  by (induction cs rule: rev_induct) (auto simp: drop_empty_candidates_def)

section \<open>Templates\<close>

lemma render_total:
  assumes "validate_contextualization_template (JStr template) = Inr ()"
  shows "\<exists>s. render_contextualization_template template c = Inr s"
proof -
  let ?r = "\<lambda>p. case p of Literal c' \<Rightarrow> Inr [c'] | Placeholder name \<Rightarrow>
      (case map_of (template_values c) name of None \<Rightarrow> Inl (PyKeyError name) | Some v \<Rightarrow> Inr v)"
  have names: "set (placeholder_names template) \<subseteq> set ALLOWED_PLACEHOLDERS"
    using assms by (auto simp: validate_contextualization_template_def filter_empty_conv split: list.splits)
  have "\<exists>v. ?r p = Inr v" if "p \<in> set (template_parts template)" for p
  proof (cases p)
    case (Placeholder name)
    then have "name \<in> set ALLOWED_PLACEHOLDERS"
      using names that by (force simp: placeholder_names_def)
    then show ?thesis using Placeholder by (auto simp: ALLOWED_PLACEHOLDERS_def template_values_def)
  qed simp
  then have "\<exists>xs. collect (map ?r (template_parts template)) = Inr xs"
    by (intro collect_total) auto
  then show ?thesis by (auto simp: render_contextualization_template_def)
qed

end
