(* ===== verification/Embedding.thy ===== *)
theory Embedding
  imports Chunk_Base
begin

text \<open>
  \<open>ragledger.pipeline.embedding\<close>: the checks on vectors, their binary32 form and hash, the
  deterministic local provider and the other providers of the registry. Python's
  \<open>sum\<close> over floats differs between the supported versions (since 3.12 it compensates
  rounding errors), so it is a parameter.
\<close>

section \<open>Vectors\<close>

datatype embedding_error = EmbeddingProviderError | ProviderNotAvailable | FloatOverflow | BadDimension

definition finite_float :: "pyfloat \<Rightarrow> bool" where
  "finite_float v = (case v of Finite x \<Rightarrow> True | _ \<Rightarrow> False)"

definition validate_finite :: "pyfloat list \<Rightarrow> embedding_error + unit" where
  "validate_finite vector = (if list_all finite_float vector then Inr () else Inl EmbeddingProviderError)"

record embedding_descriptor =
  ed_provider :: pystr
  ed_name :: pystr
  ed_revision :: pystr
  ed_dimension :: nat
  ed_dtype :: pystr

definition validate_dimension :: "embedding_descriptor \<Rightarrow> 'a list \<Rightarrow> embedding_error + unit" where
  "validate_dimension descriptor vector = (if length vector \<noteq> ed_dimension descriptor then Inl EmbeddingProviderError else Inr ())"

section \<open>Binary32\<close>

text \<open>Rounding to binary32 to nearest, ties to even; what rounds to \<open>2 ^ 128\<close> overflows.\<close>

definition ulp_exp32 :: "rat \<Rightarrow> int" where
  "ulp_exp32 x = max (ilog2 x - 23) (- 149)"

definition round32_pos :: "rat \<Rightarrow> rat" where
  "round32_pos x = of_int (round_half_even (x / 2 powi ulp_exp32 x)) * 2 powi ulp_exp32 x"

definition round32 :: "float64 \<Rightarrow> embedding_error + float64" where
  "round32 x =
     (let r = (if x = 0 then 0 else round32_pos \<bar>x\<bar>) in
      if r \<ge> 2 ^ 128 then Inl FloatOverflow else Inr (if x < 0 then - r else r))"

definition bits32 :: "bool \<Rightarrow> rat \<Rightarrow> nat" where
  "bits32 negative r =
     (if negative then 2 ^ 31 else 0) +
     (if r < 2 powi (- 126) then nat \<lfloor>r / 2 powi (- 149)\<rfloor>
      else nat ((ilog2 r + 127) * 2 ^ 23) + nat \<lfloor>r / 2 powi (ilog2 r - 23)\<rfloor> - 2 ^ 23)"

definition le_bytes :: "nat \<Rightarrow> nat \<Rightarrow> bytes" where
  "le_bytes k n = rev (be_bytes k n)"

definition pack_float32 :: "pyfloat \<Rightarrow> embedding_error + bytes" where
  "pack_float32 v =
     (case v of
        Finite x \<Rightarrow> andThen (round32 x) (\<lambda>r. Inr (le_bytes 4 (bits32 (x < 0) \<bar>r\<bar>)))
      | Infinite negative \<Rightarrow> Inr (le_bytes 4 ((if negative then 2 ^ 31 else 0) + 0x7f800000))
      | NotANumber \<Rightarrow> Inr (le_bytes 4 0x7fc00000))"

definition vector_hash :: "pyfloat list \<Rightarrow> embedding_error + pystr" where
  "vector_hash vector = andThen (collect (map pack_float32 vector)) (\<lambda>parts. Inr (hash_raw_bytes (concat parts)))"

definition to_float32 :: "pyfloat \<Rightarrow> embedding_error + pyfloat" where
  "to_float32 v = (case v of Finite x \<Rightarrow> andThen (round32 x) (\<lambda>r. Inr (Finite r)) | _ \<Rightarrow> Inr v)"

text \<open>\<open>math.sqrt\<close>, correctly rounded: 54 bits of the root and whether there are more.\<close>

definition floor_sqrt :: "nat \<Rightarrow> nat" where
  "floor_sqrt n = foldl (\<lambda>r i. if (r + 2 ^ i) ^ 2 \<le> n then r + 2 ^ i else r) 0 (rev [0..<56])"

definition fl_sqrt :: "float64 \<Rightarrow> float64" where
  "fl_sqrt x =
     (if x \<le> 0 then 0
      else (let e = ilog2 x div 2 - 53; y = x / 4 powi e; n = floor_sqrt (nat \<lfloor>y\<rfloor>) in
            if of_nat (n * n) = y then fl (of_nat n * 2 powi e) else fl ((of_nat n + 1 / 2) * 2 powi e)))"

definition l2_normalize :: "(float64 list \<Rightarrow> float64) \<Rightarrow> float64 list \<Rightarrow> float64 list" where
  "l2_normalize py_sum vector =
     (let nrm = fl_sqrt (py_sum (map (\<lambda>v. fl (v * v)) vector)) in
      if nrm = 0 then (case vector of [] \<Rightarrow> [] | _ # vs \<Rightarrow> 1 # map (\<lambda>_. 0) vs)
      else map (\<lambda>v. fl (v / nrm)) vector)"

section \<open>The deterministic local provider\<close>

definition word_value :: "bytes \<Rightarrow> float64" where
  "word_value bs = fl (fl (true_div (int (foldl (\<lambda>n b. n * 256 + unat b) 0 bs)) 0xFFFFFFFF * 2) - 1)"

lemma length_chunks_exact: "0 < w \<Longrightarrow> length xs = w * n \<Longrightarrow> length (chunks w xs) = n"
proof (induction n arbitrary: xs)
  case (Suc n)
  then have "xs \<noteq> []" "length (drop w xs) = w * n" by auto
  then show ?case using Suc chunks_step [of xs w] by simp
qed simp

text \<open>
  One round of the outer loop hashes the counter block; the inner loop takes its eight words
  until the dimension is reached.
\<close>

function project_loop :: "bytes \<Rightarrow> nat \<Rightarrow> nat \<Rightarrow> float64 list \<Rightarrow> float64 list" where
  "project_loop base dimension counter vals =
     (if length vals < dimension
      then project_loop base dimension (counter + 1)
             (vals @ take (dimension - length vals) (map word_value (chunks 4 (sha256 (base @ be_bytes 4 counter)))))
      else vals)"
  by pat_completeness auto

termination
proof (relation "measure (\<lambda>(base, dimension, counter, vals). dimension - length vals)")
  fix base :: bytes and dimension counter :: nat and vals :: "float64 list"
  assume "length vals < dimension"
  moreover have "length (chunks 4 (sha256 (base @ be_bytes 4 counter))) = 8"
    by (rule length_chunks_exact) simp_all
  ultimately show "((base, dimension, counter + 1,
      vals @ take (dimension - length vals) (map word_value (chunks 4 (sha256 (base @ be_bytes 4 counter))))),
      base, dimension, counter, vals) \<in> measure (\<lambda>(base, dimension, counter, vals). dimension - length vals)"
    by simp
qed simp

declare project_loop.simps [simp del]

definition hash_project :: "pystr \<Rightarrow> int \<Rightarrow> nat \<Rightarrow> float64 list" where
  "hash_project input seed dimension = project_loop (utf8_encode (show_int seed @ py '':'' @ input)) dimension 0 []"

lemma length_project_loop: "length vals \<le> dimension \<Longrightarrow> length (project_loop base dimension counter vals) = dimension"
proof (induction base dimension counter vals rule: project_loop.induct)
  case (1 base dimension counter vals)
  then show ?case by (subst project_loop.simps) auto
qed

lemma length_l2_normalize [simp]: "length (l2_normalize s v) = length v"
  by (simp add: l2_normalize_def Let_def split: list.splits)

lemma length_hash_project [simp]: "length (hash_project s seed dimension) = dimension"
  by (simp add: hash_project_def length_project_loop)

section \<open>Providers\<close>

text \<open>
  The four providers. The external import provider fills in \<open>"unknown"\<close> for what it was not
  given; it and the two that only carry configuration have no live \<open>embed\<close>.
\<close>

datatype embedding_provider =
    DeterministicLocal nat int
  | ExternalImport nat pystr "pystr option" "pystr option" "pystr option"
  | SentenceTransformers pystr pystr nat
  | OpenAi pystr nat

definition UNKNOWN :: pystr where
  "UNKNOWN = py ''unknown''"

definition or_unknown :: "pystr option \<Rightarrow> pystr" where
  "or_unknown v = (case v of Some s \<Rightarrow> if s \<noteq> [] then s else UNKNOWN | None \<Rightarrow> UNKNOWN)"

definition local_provider :: "nat \<Rightarrow> int \<Rightarrow> embedding_error + embedding_provider" where
  "local_provider dimension seed = (if dimension < 1 then Inl BadDimension else Inr (DeterministicLocal dimension seed))"

definition external_provider ::
  "nat \<Rightarrow> pystr \<Rightarrow> pystr option \<Rightarrow> pystr option \<Rightarrow> pystr option \<Rightarrow> embedding_error + embedding_provider" where
  "external_provider dimension dtype provider name revision =
     (if dimension < 1 then Inl BadDimension else Inr (ExternalImport dimension dtype provider name revision))"

primrec descriptor_of :: "embedding_provider \<Rightarrow> embedding_descriptor" where
  "descriptor_of (DeterministicLocal dimension seed) =
     \<lparr>ed_provider = py ''ragledger-deterministic-local'', ed_name = py ''hash-projection-reference-seed'' @ show_int seed,
      ed_revision = py ''1'', ed_dimension = dimension, ed_dtype = py ''float32''\<rparr>"
| "descriptor_of (ExternalImport dimension dtype provider name revision) =
     \<lparr>ed_provider = or_unknown provider, ed_name = or_unknown name, ed_revision = or_unknown revision,
      ed_dimension = dimension, ed_dtype = dtype\<rparr>"
| "descriptor_of (SentenceTransformers model revision dimension) =
     \<lparr>ed_provider = py ''sentence_transformers'', ed_name = model, ed_revision = revision, ed_dimension = dimension,
      ed_dtype = py ''float32''\<rparr>"
| "descriptor_of (OpenAi model dimension) =
     \<lparr>ed_provider = py ''openai'', ed_name = model, ed_revision = UNKNOWN, ed_dimension = dimension, ed_dtype = py ''float32''\<rparr>"

definition local_vector :: "(float64 list \<Rightarrow> float64) \<Rightarrow> int \<Rightarrow> nat \<Rightarrow> pystr \<Rightarrow> embedding_error + pyfloat list" where
  "local_vector py_sum seed dimension input =
     collect (map (\<lambda>v. to_float32 (Finite v)) (l2_normalize py_sum (hash_project input seed dimension)))"

primrec provider_embed ::
  "(float64 list \<Rightarrow> float64) \<Rightarrow> embedding_provider \<Rightarrow> pystr list \<Rightarrow> embedding_error + (pyfloat list list \<times> dict)" where
  "provider_embed py_sum (DeterministicLocal dimension seed) inputs =
     andThen (collect (map (local_vector py_sum seed dimension) inputs))
       (\<lambda>vectors. Inr (vectors, [(py ''batch_size'', JInt (int (length inputs)))]))"
| "provider_embed py_sum (ExternalImport dimension dtype provider name revision) inputs = Inl ProviderNotAvailable"
| "provider_embed py_sum (SentenceTransformers model revision dimension) inputs = Inl ProviderNotAvailable"
| "provider_embed py_sum (OpenAi model dimension) inputs = Inl ProviderNotAvailable"

primrec provider_tokenize :: "embedding_provider \<Rightarrow> pystr list \<Rightarrow> embedding_error + nat list" where
  "provider_tokenize (DeterministicLocal dimension seed) inputs = Inr (map (token_count WhitespaceTokenizer) inputs)"
| "provider_tokenize (ExternalImport dimension dtype provider name revision) inputs = Inl ProviderNotAvailable"
| "provider_tokenize (SentenceTransformers model revision dimension) inputs = Inl ProviderNotAvailable"
| "provider_tokenize (OpenAi model dimension) inputs = Inl ProviderNotAvailable"

primrec healthcheck :: "embedding_provider \<Rightarrow> bool" where
  "healthcheck (DeterministicLocal dimension seed) = True"
| "healthcheck (ExternalImport dimension dtype provider name revision) = True"
| "healthcheck (SentenceTransformers model revision dimension) = False"
| "healthcheck (OpenAi model dimension) = False"

definition import_vectors ::
  "embedding_descriptor \<Rightarrow> pyfloat list list \<Rightarrow> embedding_error + (pyfloat list list \<times> dict)" where
  "import_vectors descriptor vectors =
     andThen (collect (map (\<lambda>vector.
         andThen (collect (map to_float32 vector)) (\<lambda>vals.
         andThen (validate_finite vals) (\<lambda>_.
         andThen (validate_dimension descriptor vals) (\<lambda>_. Inr vals)))) vectors))
       (\<lambda>materialized. Inr (materialized, [(py ''source'', JStr (py ''external_import''))]))"

text \<open>What a provider returns passes its own checks.\<close>

lemma to_float32_finite: "to_float32 v = Inr w \<Longrightarrow> finite_float w \<longleftrightarrow> finite_float v"
  by (auto simp: to_float32_def finite_float_def andThen_Inr_iff split: pyfloat.splits)

lemma collect_map_length: "collect (map f xs) = Inr ys \<Longrightarrow> length ys = length xs"
  by (metis collect_Inr_iff length_map)

lemma local_vector_accepted:
  assumes "local_vector s seed dimension input = Inr v"
  shows "validate_finite v = Inr () \<and> validate_dimension (descriptor_of (DeterministicLocal dimension seed)) v = Inr ()"
proof -
  let ?w = "l2_normalize s (hash_project input seed dimension)"
  have c: "map (\<lambda>x. to_float32 (Finite x)) ?w = map Inr v"
    using assms by (simp add: local_vector_def collect_Inr_iff)
  have len: "length v = length ?w" using arg_cong [OF c, of length] by simp
  have "finite_float (v ! i)" if "i < length v" for i
  proof -
    have "to_float32 (Finite (?w ! i)) = Inr (v ! i)"
      using arg_cong [OF c, of "\<lambda>l. l ! i"] that len by simp
    from to_float32_finite [OF this] show ?thesis by (simp add: finite_float_def)
  qed
  then show ?thesis using len by (simp add: validate_finite_def validate_dimension_def list_all_length)
qed

end
