(* ===== verification/Manifest.thy ===== *)
theory Manifest
  imports Models Py_Json
begin

text \<open>
  \<open>ragledger.core.manifest\<close>: the JSON form of every manifest record (what
  \<open>model_dump(mode="json", exclude_none=True, by_alias=True)\<close> gives: optional fields without a
  value are left out, free-form dictionaries are kept as they are), the signing view and the
  manifest hash, the statistics and \<open>build_manifest\<close>. The JSON-schema validator is a
  parameter of the operations that call it.
\<close>

section \<open>The records as JSON\<close>

definition opt_member :: "string \<Rightarrow> ('a \<Rightarrow> json) \<Rightarrow> 'a option \<Rightarrow> dict" where
  "opt_member k f v = (case v of None \<Rightarrow> [] | Some x \<Rightarrow> [(py k, f x)])"

definition jnat :: "nat \<Rightarrow> json" where
  "jnat n = JInt (int n)"

definition jtime :: "utc_datetime \<Rightarrow> json" where
  "jtime t = JStr (serialize_utc t)"

definition jstrs :: "pystr list \<Rightarrow> json" where
  "jstrs xs = JList (map JStr xs)"

definition dump_warning :: "warning_record \<Rightarrow> json" where
  "dump_warning w = JObj ([(py ''code'', JStr (wr_code w))] @ opt_member ''message'' JStr (wr_message w)
     @ opt_member ''context'' JObj (wr_context w))"

definition dump_stage :: "stage_record \<Rightarrow> json" where
  "dump_stage s = JObj ([(py ''name'', JStr (stg_name s)), (py ''version'', JStr (stg_version s))]
     @ opt_member ''config_hash'' JStr (stg_config_hash s) @ opt_member ''input_count'' jnat (stg_input_count s)
     @ opt_member ''output_count'' jnat (stg_output_count s))"

definition dump_environment :: "build_environment \<Rightarrow> json" where
  "dump_environment e = JObj (opt_member ''os'' JStr (env_os e) @ opt_member ''image_digest'' JStr (env_image_digest e)
     @ [(py ''python_version'', JStr (env_python_version e))] @ opt_member ''package_lock_hash'' JStr (env_package_lock_hash e))"

definition dump_build :: "build_record \<Rightarrow> json" where
  "dump_build b = JObj
     ([(py ''build_id'', JStr (bld_build_id b)), (py ''status'', JStr (build_status_value (bld_status b))),
       (py ''source_snapshot_hash'', JStr (bld_source_snapshot_hash b)), (py ''pipeline_config_hash'', JStr (bld_pipeline_config_hash b)),
       (py ''started_at'', jtime (bld_started_at b)), (py ''completed_at'', jtime (bld_completed_at b)),
       (py ''environment'', dump_environment (bld_environment b)), (py ''stages'', JList (map dump_stage (bld_stages b))),
       (py ''warnings'', JList (map dump_warning (bld_warnings b)))]
      @ opt_member ''extensions'' JObj (bld_extensions b))"

definition dump_relationship :: "source_relationship \<Rightarrow> json" where
  "dump_relationship r = JObj [(py ''type'', JStr (relationship_type_value (rel_type r))),
     (py ''target_version_id'', JStr (rel_target_version_id r))]"

definition dump_source :: "source_record \<Rightarrow> json" where
  "dump_source s = JObj
     ([(py ''id'', JStr (src_id s)), (py ''version_id'', JStr (src_version_id s)), (py ''namespace'', JStr (src_namespace s)),
       (py ''uri'', JStr (src_uri s)), (py ''media_type'', JStr (src_media_type s)), (py ''size_bytes'', jnat (src_size_bytes s)),
       (py ''content_hash'', JStr (src_content_hash s))]
      @ opt_member ''modified_at'' jtime (src_modified_at s) @ opt_member ''discovered_by'' JStr (src_discovered_by s)
      @ [(py ''source_system'', JStr (src_source_system s)), (py ''status'', JStr (source_status_value (src_status s)))]
      @ opt_member ''declared_tenant'' JStr (src_declared_tenant s)
      @ opt_member ''declared_acl_assertion_id'' JStr (src_declared_acl_assertion_id s)
      @ [(py ''license_assertion_ids'', jstrs (src_license_assertion_ids s))]
      @ opt_member ''raw_artifact_ref'' JStr (src_raw_artifact_ref s)
      @ [(py ''relationships'', JList (map dump_relationship (src_relationships s)))]
      @ opt_member ''extensions'' JObj (src_extensions s))"

definition dump_ocr :: "ocr_info \<Rightarrow> json" where
  "dump_ocr r = JObj ([(py ''enabled'', JBool (ocr_enabled r))] @ opt_member ''engine'' JStr (ocr_engine r)
     @ opt_member ''model'' JStr (ocr_model r) @ opt_member ''languages'' jstrs (ocr_languages r))"

definition dump_parse :: "parse_record \<Rightarrow> json" where
  "dump_parse p = JObj
     ([(py ''id'', JStr (prs_id p)), (py ''source_version_id'', JStr (prs_source_version_id p)),
       (py ''parser_name'', JStr (prs_parser_name p)), (py ''parser_version'', JStr (prs_parser_version p))]
      @ opt_member ''container_digest'' JStr (prs_container_digest p) @ opt_member ''config_hash'' JStr (prs_config_hash p)
      @ opt_member ''config_redacted'' JObj (prs_config_redacted p) @ opt_member ''ocr'' dump_ocr (prs_ocr p)
      @ [(py ''status'', JStr (parse_status_value (prs_status p))), (py ''warnings'', JList (map dump_warning (prs_warnings p))),
         (py ''parsed_artifact_ref'', JStr (prs_parsed_artifact_ref p)), (py ''duration_seconds'', JFloat (prs_duration_seconds p))]
      @ opt_member ''extensions'' JObj (prs_extensions p))"

definition dump_locator :: "structural_locator \<Rightarrow> json" where
  "dump_locator l = JObj
     ([(py ''kind'', JStr (loc_kind l))] @ opt_member ''page_start'' jnat (loc_page_start l) @ opt_member ''page_end'' jnat (loc_page_end l)
      @ opt_member ''heading_path'' jstrs (loc_heading_path l) @ opt_member ''element_ids'' jstrs (loc_element_ids l)
      @ opt_member ''character_start'' jnat (loc_character_start l) @ opt_member ''character_end'' jnat (loc_character_end l)
      @ [(py ''ordinal'', jnat (loc_ordinal l))])"

definition dump_chunk_metadata :: "chunk_metadata \<Rightarrow> json" where
  "dump_chunk_metadata m = JObj (opt_member ''heading_path'' jstrs (cmd_heading_path m)
     @ opt_member ''table_caption'' JStr (cmd_table_caption m) @ opt_member ''custom'' JObj (cmd_custom m))"

definition dump_chunk :: "chunk_record \<Rightarrow> json" where
  "dump_chunk c = JObj
     ([(py ''id'', JStr (chk_id c)), (py ''source_version_id'', JStr (chk_source_version_id c)),
       (py ''parse_run_id'', JStr (chk_parse_run_id c)), (py ''locator'', dump_locator (chk_locator c)),
       (py ''raw_hash'', JStr (chk_raw_hash c)), (py ''contextualized_hash'', JStr (chk_contextualized_hash c)),
       (py ''token_count'', jnat (chk_token_count c)),
       (py ''tokenizer'', JObj [(py ''name'', JStr (tok_name (chk_tokenizer c))), (py ''revision'', JStr (tok_revision (chk_tokenizer c)))])]
      @ opt_member ''text_artifact_ref'' JStr (chk_text_artifact_ref c)
      @ [(py ''neighbor_ids'', jstrs (chk_neighbor_ids c))]
      @ opt_member ''metadata'' dump_chunk_metadata (chk_metadata c)
      @ [(py ''pii_assertion_ids'', jstrs (chk_pii_assertion_ids c)), (py ''license_assertion_ids'', jstrs (chk_license_assertion_ids c)),
         (py ''acl_assertion_ids'', jstrs (chk_acl_assertion_ids c))]
      @ opt_member ''extensions'' JObj (chk_extensions c))"

definition dump_embedding :: "embedding_record \<Rightarrow> json" where
  "dump_embedding e = JObj
     ([(py ''id'', JStr (emb_id e)), (py ''chunk_id'', JStr (emb_chunk_id e)),
       (py ''model'', JObj [(py ''provider'', JStr (mdl_provider (emb_model e))), (py ''name'', JStr (mdl_name (emb_model e))),
                            (py ''revision'', JStr (mdl_revision (emb_model e)))]),
       (py ''dimension'', jnat (emb_dimension e)), (py ''dtype'', JStr (emb_dtype e)),
       (py ''normalization'', JStr (normalization_value (emb_normalization e)))]
      @ opt_member ''distance_expectation'' (\<lambda>d. JStr (distance_expectation_value d)) (emb_distance_expectation e)
      @ [(py ''contextualized_hash'', JStr (emb_contextualized_hash e))]
      @ opt_member ''vector_hash'' JStr (emb_vector_hash e) @ [(py ''generated_at'', jtime (emb_generated_at e))]
      @ opt_member ''usage'' JObj (emb_usage e) @ opt_member ''extensions'' JObj (emb_extensions e))"

definition dump_binding :: "index_binding \<Rightarrow> json" where
  "dump_binding b = JObj
     ([(py ''id'', JStr (idx_id b)), (py ''target'', JStr (idx_target b)), (py ''namespace'', JStr (idx_namespace b)),
       (py ''point_id'', idx_point_id b), (py ''embedding_id'', JStr (idx_embedding_id b)),
       (py ''expected_payload_hash'', JStr (idx_expected_payload_hash b))]
      @ opt_member ''expected_payload_projection'' JObj (idx_expected_payload_projection b)
      @ opt_member ''tenant_projection'' id (idx_tenant_projection b) @ opt_member ''acl_projection'' id (idx_acl_projection b)
      @ opt_member ''write_status'' (\<lambda>w. JStr (write_status_value w)) (idx_write_status b)
      @ opt_member ''write_receipt'' JObj (idx_write_receipt b) @ opt_member ''extensions'' JObj (idx_extensions b))"

definition dump_artifact :: "artifact_ref \<Rightarrow> json" where
  "dump_artifact a = JObj
     [(py ''artifact_id'', JStr (art_artifact_id a)), (py ''media_type'', JStr (art_media_type a)), (py ''sha256'', JStr (art_sha256 a)),
      (py ''size_bytes'', jnat (art_size_bytes a)), (py ''compression'', JStr (compression_value (art_compression a))),
      (py ''encryption'', JStr (encryption_value (art_encryption a))), (py ''locator'', JStr (art_locator a)),
      (py ''sensitivity'', JStr (sensitivity_value (art_sensitivity a)))]"

definition dump_scanner :: "pii_scanner_info \<Rightarrow> json" where
  "dump_scanner s = JObj ([(py ''name'', JStr (scn_name s)), (py ''version'', JStr (scn_version s))]
     @ opt_member ''language'' JStr (scn_language s) @ opt_member ''config_hash'' JStr (scn_config_hash s))"

definition dump_pii_finding :: "pii_finding \<Rightarrow> json" where
  "dump_pii_finding f = JObj
     ([(py ''entity_type'', JStr (pf_entity_type f)), (py ''confidence'', JFloat (pf_confidence f)), (py ''start'', jnat (pf_start f)),
       (py ''end'', jnat (pf_end f))]
      @ opt_member ''masked_preview'' JStr (pf_masked_preview f) @ opt_member ''value_hmac'' JStr (pf_value_hmac f)
      @ [(py ''recognizer_id'', JStr (pf_recognizer_id f)), (py ''recognizer_version'', JStr (pf_recognizer_version f))])"

text \<open>What the five assertion models share: id, discriminator, subject and time.\<close>

definition assertion_head :: "string \<Rightarrow> pystr \<Rightarrow> pystr \<Rightarrow> utc_datetime \<Rightarrow> dict" where
  "assertion_head ty i subject t =
     [(py ''id'', JStr i), (py ''type'', JStr (py ty)), (py ''subject_ref'', JStr subject), (py ''created_at'', jtime t)]"

primrec dump_assertion :: "assertion \<Rightarrow> json" where
  "dump_assertion (PiiScan a) = JObj
     (assertion_head ''PII_SCAN'' (pii_id a) (pii_subject_ref a) (pii_created_at a)
      @ [(py ''scanner'', dump_scanner (pii_scanner a)), (py ''status'', JStr (pii_scan_status_value (pii_status a))),
         (py ''findings'', JList (map dump_pii_finding (pii_findings a)))]
      @ opt_member ''extensions'' JObj (pii_extensions a))"
| "dump_assertion (License a) = JObj
     (assertion_head ''LICENSE'' (lic_id a) (lic_subject_ref a) (lic_created_at a)
      @ [(py ''spdx_expression'', JStr (lic_spdx_expression a)), (py ''method'', JStr (license_method_value (lic_method a)))]
      @ opt_member ''confidence'' JFloat (lic_confidence a) @ opt_member ''license_list_version'' JStr (lic_license_list_version a)
      @ [(py ''conflicting_assertion_ids'', jstrs (lic_conflicting_assertion_ids a))]
      @ opt_member ''extensions'' JObj (lic_extensions a))"
| "dump_assertion (Acl a) = JObj
     (assertion_head ''ACL'' (acl_id a) (acl_subject_ref a) (acl_created_at a)
      @ [(py ''acl_hash'', JStr (acl_hash a)), (py ''entries'', jstrs (acl_entries a))]
      @ opt_member ''extensions'' JObj (acl_extensions a))"
| "dump_assertion (Tenant a) = JObj
     (assertion_head ''TENANT'' (tnt_id a) (tnt_subject_ref a) (tnt_created_at a)
      @ [(py ''tenant_hash'', JStr (tnt_hash a)), (py ''tenant_key'', JStr (tnt_key a)), (py ''tenant_value'', JStr (tnt_value a))]
      @ opt_member ''extensions'' JObj (tnt_extensions a))"
| "dump_assertion (Quality a) = JObj
     (assertion_head ''QUALITY'' (qa_id a) (qa_subject_ref a) (qa_created_at a)
      @ [(py ''warnings'', JList (map dump_warning (qa_warnings a)))]
      @ opt_member ''extensions'' JObj (qa_extensions a))"

definition dump_statistics :: "statistics \<Rightarrow> json" where
  "dump_statistics s = JObj
     ([(py ''source_count'', jnat (stat_source_count s))]
      @ opt_member ''source_version_count'' jnat (stat_source_version_count s)
      @ opt_member ''parse_run_count'' jnat (stat_parse_run_count s)
      @ [(py ''chunk_count'', jnat (stat_chunk_count s)), (py ''embedding_count'', jnat (stat_embedding_count s)),
         (py ''index_binding_count'', jnat (stat_index_binding_count s)), (py ''assertion_count'', jnat (stat_assertion_count s)),
         (py ''artifact_count'', jnat (stat_artifact_count s))]
      @ opt_member ''warning_count'' jnat (stat_warning_count s) @ opt_member ''extensions'' JObj (stat_extensions s))"

definition dump_integrity :: "integrity \<Rightarrow> json" where
  "dump_integrity i = JObj [(py ''canonicalization'', JStr (py ''RFC8785'')), (py ''hash_algorithm'', JStr (py ''sha256'')),
     (py ''manifest_hash'', JStr (int_manifest_hash i))]"

definition dump_signature :: "signature_record \<Rightarrow> json" where
  "dump_signature s = JObj ([(py ''algorithm'', JStr (py ''Ed25519'')), (py ''key_id'', JStr (sig_key_id s)),
     (py ''signature'', JStr (sig_signature s)), (py ''signed_at'', jtime (sig_signed_at s))] @ opt_member ''issuer'' JStr (sig_issuer s))"

definition manifest_to_dict :: "manifest_envelope \<Rightarrow> dict" where
  "manifest_to_dict m =
     [(py ''schema'', JStr (py ''https://ragledger.dev/schemas/manifest-v1.json'')),
      (py ''media_type'', JStr (py ''application/vnd.ragledger.manifest.v1+json'')), (py ''manifest_version'', JStr (py ''1.0'')),
      (py ''created_at'', jtime (mf_created_at m)), (py ''ledger_version'', JStr (mf_ledger_version m)),
      (py ''namespace'', JStr (mf_namespace m)), (py ''build'', dump_build (mf_build m)),
      (py ''sources'', JList (map dump_source (mf_sources m))), (py ''parse_runs'', JList (map dump_parse (mf_parse_runs m))),
      (py ''chunks'', JList (map dump_chunk (mf_chunks m))), (py ''embeddings'', JList (map dump_embedding (mf_embeddings m))),
      (py ''index_bindings'', JList (map dump_binding (mf_index_bindings m))),
      (py ''assertions'', JList (map dump_assertion (mf_assertions m))), (py ''artifacts'', JList (map dump_artifact (mf_artifacts m))),
      (py ''statistics'', dump_statistics (mf_statistics m)), (py ''integrity'', dump_integrity (mf_integrity m)),
      (py ''signatures'', JList (map dump_signature (mf_signatures m)))]
     @ opt_member ''extensions'' JObj (mf_extensions m)"

section \<open>The signing view and the manifest hash\<close>

definition dict_pop :: "pystr \<Rightarrow> dict \<Rightarrow> dict" where
  "dict_pop k d = filter (\<lambda>m. fst m \<noteq> k) d"

definition signing_view :: "manifest_envelope \<Rightarrow> dict" where
  "signing_view m =
     (let view = dict_set (py ''signatures'') (JList []) (manifest_to_dict m);
          integ = (case map_of view (py ''integrity'') of Some (JObj d) \<Rightarrow> d | _ \<Rightarrow> [])
      in dict_set (py ''integrity'') (JObj (dict_pop (py ''manifest_hash'') integ)) view)"

definition signing_view_bytes :: "platform \<Rightarrow> manifest_envelope \<Rightarrow> bytes" where
  "signing_view_bytes L m = canonical_bytes L (JObj (signing_view m))"

definition compute_manifest_hash :: "platform \<Rightarrow> manifest_envelope \<Rightarrow> pystr" where
  "compute_manifest_hash L m = sha256_hex (signing_view_bytes L m)"

definition canonical_manifest_bytes :: "platform \<Rightarrow> manifest_envelope \<Rightarrow> bytes" where
  "canonical_manifest_bytes L m = canonical_bytes L (JObj (manifest_to_dict m))"

section \<open>Building and writing\<close>

definition compute_statistics ::
  "build_record \<Rightarrow> source_record list \<Rightarrow> parse_record list \<Rightarrow> chunk_record list \<Rightarrow> embedding_record list
   \<Rightarrow> index_binding list \<Rightarrow> assertion list \<Rightarrow> artifact_ref list \<Rightarrow> statistics" where
  "compute_statistics build sources parse_runs chks embeddings index_bindings assertions artifacts =
     (let warning_count = length (bld_warnings build) + sum_list (map (\<lambda>p. length (prs_warnings p)) parse_runs)
            + sum_list (map (\<lambda>a. case a of Quality q \<Rightarrow> length (qa_warnings q) | _ \<Rightarrow> 0) assertions)
      in \<lparr>stat_source_count = length (remdups (map src_id sources)), stat_source_version_count = Some (length sources),
          stat_parse_run_count = Some (length parse_runs), stat_chunk_count = length chks,
          stat_embedding_count = length embeddings, stat_index_binding_count = length index_bindings,
          stat_assertion_count = length assertions, stat_artifact_count = length artifacts,
          stat_warning_count = Some warning_count, stat_extensions = None\<rparr>)"

datatype manifest_error = SchemaViolation

definition validate_manifest_document :: "(json \<Rightarrow> bool) \<Rightarrow> dict \<Rightarrow> manifest_error + unit" where
  "validate_manifest_document schema_ok data = (if schema_ok (JObj data) then Inr () else Inl SchemaViolation)"

definition PLACEHOLDER_HASH :: pystr where
  "PLACEHOLDER_HASH = replicate 64 48"

definition provisional_manifest ::
  "pystr \<Rightarrow> utc_datetime \<Rightarrow> build_record \<Rightarrow> pystr \<Rightarrow> source_record list \<Rightarrow> parse_record list \<Rightarrow> chunk_record list
   \<Rightarrow> embedding_record list \<Rightarrow> index_binding list \<Rightarrow> assertion list \<Rightarrow> artifact_ref list \<Rightarrow> dict option \<Rightarrow> manifest_envelope" where
  "provisional_manifest namespace created_at build ledger_version sources parse_runs chks embeddings index_bindings
     assertions artifacts extensions =
     \<lparr>mf_created_at = created_at, mf_ledger_version = ledger_version, mf_namespace = namespace, mf_build = build,
      mf_sources = sources, mf_parse_runs = parse_runs, mf_chunks = chks, mf_embeddings = embeddings,
      mf_index_bindings = index_bindings, mf_assertions = assertions, mf_artifacts = artifacts,
      mf_statistics = compute_statistics build sources parse_runs chks embeddings index_bindings assertions artifacts,
      mf_integrity = \<lparr>int_manifest_hash = PLACEHOLDER_HASH\<rparr>, mf_signatures = [], mf_extensions = extensions\<rparr>"

definition build_manifest ::
  "platform \<Rightarrow> (json \<Rightarrow> bool) \<Rightarrow> pystr \<Rightarrow> utc_datetime \<Rightarrow> build_record \<Rightarrow> pystr \<Rightarrow> source_record list \<Rightarrow> parse_record list
   \<Rightarrow> chunk_record list \<Rightarrow> embedding_record list \<Rightarrow> index_binding list \<Rightarrow> assertion list \<Rightarrow> artifact_ref list
   \<Rightarrow> dict option \<Rightarrow> manifest_error + manifest_envelope" where
  "build_manifest L schema_ok namespace created_at build ledger_version sources parse_runs chks embeddings index_bindings
     assertions artifacts extensions =
     (let provisional = provisional_manifest namespace created_at build ledger_version sources parse_runs chks embeddings
            index_bindings assertions artifacts extensions;
          final = provisional\<lparr>mf_integrity := \<lparr>int_manifest_hash = compute_manifest_hash L provisional\<rparr>\<rparr>
      in andThen (validate_manifest_document schema_ok (manifest_to_dict final)) (\<lambda>_. Inr final))"

definition write_manifest ::
  "platform \<Rightarrow> (json \<Rightarrow> bool) \<Rightarrow> pystr \<Rightarrow> manifest_envelope \<Rightarrow> (pystr \<Rightarrow> bytes option) \<Rightarrow> manifest_error + (pystr \<Rightarrow> bytes option)" where
  "write_manifest L schema_ok path m disk =
     andThen (validate_manifest_document schema_ok (manifest_to_dict m)) (\<lambda>_. Inr (disk(path \<mapsto> canonical_manifest_bytes L m)))"

section \<open>The signing view ignores hash and signatures\<close>

lemma signing_view_eq:
  "signing_view m = map (\<lambda>(k, v). (k,
      if k = py ''signatures'' then JList []
      else if k = py ''integrity'' then JObj [(py ''canonicalization'', JStr (py ''RFC8785'')), (py ''hash_algorithm'', JStr (py ''sha256''))]
      else v)) (manifest_to_dict m)"
  by (simp add: signing_view_def manifest_to_dict_def dict_pop_def dump_integrity_def opt_member_def Let_def split: option.splits)

lemma signing_view_irrelevant [simp]:
  "signing_view (m\<lparr>mf_integrity := i\<rparr>) = signing_view m" "signing_view (m\<lparr>mf_signatures := ss\<rparr>) = signing_view m"
  by (simp_all add: signing_view_eq manifest_to_dict_def)

lemma compute_manifest_hash_irrelevant [simp]:
  "compute_manifest_hash L (m\<lparr>mf_integrity := i\<rparr>) = compute_manifest_hash L m"
  "compute_manifest_hash L (m\<lparr>mf_signatures := ss\<rparr>) = compute_manifest_hash L m"
  by (simp_all add: compute_manifest_hash_def signing_view_bytes_def)

section \<open>Properties\<close>



end
