(* ===== verification/Chunkers.thy ===== *)
theory Chunkers
  imports Chunk_Base
begin

text \<open>
  The three built-in chunkers, \<open>ragledger.pipeline.chunkers.{hierarchical,hybrid,line_based}\<close>.
  A generator is modelled by the list it yields; when it raises, the whole iteration is that
  error. \<open>hybrid\<close> is analysed once, for any overlap; \<open>hierarchical\<close> is its case without overlap.
\<close>

section \<open>Shared steps\<close>

fun fold_result :: "('s \<Rightarrow> 'a \<Rightarrow> 'e + 's) \<Rightarrow> 's \<Rightarrow> 'a list \<Rightarrow> 'e + 's" where
  "fold_result f st [] = Inr st"
| "fold_result f st (x # xs) = andThen (f st x) (\<lambda>st'. fold_result f st' xs)"

record chunk_state =
  cs_out :: "chunk_candidate list"
  cs_ordinal :: nat
  cs_group :: "positioned_element list"
  cs_tokens :: nat

text \<open>\<open>yield build_candidate(parts, ordinal); ordinal += 1\<close>.\<close>

definition yield_parts :: "chunk_state \<Rightarrow> positioned_element list \<Rightarrow> chunk_error + chunk_state" where
  "yield_parts st parts =
     andThen (build_candidate parts (cs_ordinal st))
       (\<lambda>c. Inr (st\<lparr>cs_out := cs_out st @ [c], cs_ordinal := cs_ordinal st + 1\<rparr>))"

definition yield_group :: "chunk_state \<Rightarrow> chunk_error + chunk_state" where
  "yield_group st = (if cs_group st \<noteq> [] then yield_parts st (cs_group st) else Inr st)"

definition append_item :: "chunk_state \<Rightarrow> positioned_element \<Rightarrow> nat \<Rightarrow> chunk_state" where
  "append_item st item item_tokens = st\<lparr>cs_group := cs_group st @ [item], cs_tokens := cs_tokens st + item_tokens\<rparr>"

text \<open>The branch both structure-aware chunkers take for an element above the limit.\<close>

definition oversized_item :: "chunk_size_config \<Rightarrow> tokenizer \<Rightarrow> chunk_state \<Rightarrow> positioned_element \<Rightarrow> nat \<Rightarrow> chunk_error + chunk_state" where
  "oversized_item sz tokenizer st item item_tokens =
     andThen (yield_group st)
       (\<lambda>st'. let st'' = st'\<lparr>cs_group := [], cs_tokens := 0\<rparr> in
          if sz_oversized_element_policy sz = FailOversized
          then Inl (OversizedElement (le_id (pe_element item)) item_tokens (sz_max_tokens sz))
          else andThen (split_oversized item (sz_max_tokens sz) tokenizer)
                 (\<lambda>pieces. fold_result (\<lambda>s piece. yield_parts s [piece]) st'' pieces))"

section \<open>The hierarchical chunker\<close>

definition hierarchical_item :: "chunk_size_config \<Rightarrow> tokenizer \<Rightarrow> chunk_state \<Rightarrow> positioned_element \<Rightarrow> chunk_error + chunk_state" where
  "hierarchical_item sz tokenizer st item =
     (let item_tokens = token_count tokenizer (part_text item) in
      if int item_tokens > sz_max_tokens sz then oversized_item sz tokenizer st item item_tokens
      else andThen (if cs_group st \<noteq> [] \<and> int (cs_tokens st + item_tokens) > sz_max_tokens sz
                    then andThen (yield_group st) (\<lambda>st'. Inr (st'\<lparr>cs_group := [], cs_tokens := 0\<rparr>))
                    else Inr st)
             (\<lambda>st'. Inr (append_item st' item item_tokens)))"

definition run_section ::
  "(chunk_state \<Rightarrow> positioned_element \<Rightarrow> chunk_error + chunk_state) \<Rightarrow> chunk_state \<Rightarrow> positioned_element list \<Rightarrow> chunk_error + chunk_state" where
  "run_section on_item st section_items =
     andThen (fold_result on_item (st\<lparr>cs_group := [], cs_tokens := 0\<rparr>) section_items) yield_group"

definition run_sections ::
  "(chunk_state \<Rightarrow> positioned_element \<Rightarrow> chunk_error + chunk_state) \<Rightarrow> ledger_document \<Rightarrow> chunk_error + chunk_candidate list" where
  "run_sections on_item document =
     andThen (fold_result (run_section on_item) \<lparr>cs_out = [], cs_ordinal = 0, cs_group = [], cs_tokens = 0\<rparr>
                (group_by_heading_path (position_elements document)))
       (\<lambda>st. Inr (cs_out st))"

definition hierarchical_chunks :: "dict \<Rightarrow> ledger_document \<Rightarrow> chunk_error + chunk_candidate list" where
  "hierarchical_chunks config document =
     andThen (parse_size_config config) (\<lambda>sz.
     andThen (resolve_tokenizer (sz_tokenizer_name sz)) (\<lambda>tokenizer.
       run_sections (hierarchical_item sz tokenizer) document))"

section \<open>The hybrid chunker\<close>

text \<open>The loop of \<open>_overlap_tail\<close> over \<open>reversed(group)\<close>.\<close>

fun tail_loop :: "tokenizer \<Rightarrow> int \<Rightarrow> positioned_element list \<Rightarrow> nat \<Rightarrow> positioned_element list \<Rightarrow> positioned_element list" where
  "tail_loop tokenizer overlap_tokens tail_items sofar [] = tail_items"
| "tail_loop tokenizer overlap_tokens tail_items sofar (item # items) =
     (let item_tokens = token_count tokenizer (part_text item) in
      if int (sofar + item_tokens) > overlap_tokens then tail_items
      else tail_loop tokenizer overlap_tokens (item # tail_items) (sofar + item_tokens) items)"

definition overlap_tail :: "positioned_element list \<Rightarrow> int \<Rightarrow> tokenizer \<Rightarrow> positioned_element list" where
  "overlap_tail parts overlap_tokens tokenizer =
     (if overlap_tokens \<le> 0 then [] else tail_loop tokenizer overlap_tokens [] 0 (rev parts))"

definition hybrid_item :: "chunk_size_config \<Rightarrow> tokenizer \<Rightarrow> chunk_state \<Rightarrow> positioned_element \<Rightarrow> chunk_error + chunk_state" where
  "hybrid_item sz tokenizer st item =
     (let item_tokens = token_count tokenizer (part_text item) in
      if int item_tokens > sz_max_tokens sz then oversized_item sz tokenizer st item item_tokens
      else andThen (if cs_group st \<noteq> [] \<and> int (cs_tokens st + item_tokens) > sz_max_tokens sz
                    then andThen (yield_group st)
                           (\<lambda>st'. let tl_items = overlap_tail (cs_group st') (sz_overlap_tokens sz) tokenizer in
                              Inr (st'\<lparr>cs_group := tl_items,
                                       cs_tokens := sum_list (map (\<lambda>p. token_count tokenizer (part_text p)) tl_items)\<rparr>))
                    else Inr st)
             (\<lambda>st'. Inr (append_item st' item item_tokens)))"

definition hybrid_chunks :: "dict \<Rightarrow> ledger_document \<Rightarrow> chunk_error + chunk_candidate list" where
  "hybrid_chunks config document =
     andThen (parse_size_config config) (\<lambda>sz.
     andThen (resolve_tokenizer (sz_tokenizer_name sz)) (\<lambda>tokenizer.
       run_sections (hybrid_item sz tokenizer) document))"

section \<open>The line-based chunker\<close>

definition line_step :: "chunk_size_config \<Rightarrow> nat" where
  "line_step sz = nat (max 1 (sz_max_tokens sz - sz_overlap_tokens sz))"

definition window_at :: "chunk_size_config \<Rightarrow> (nat \<times> nat) list \<Rightarrow> nat \<Rightarrow> (nat \<times> nat) list" where
  "window_at sz matches index = take (nat (sz_max_tokens sz)) (drop index matches)"

definition contributing :: "(nat \<times> nat) list \<Rightarrow> positioned_element list \<Rightarrow> positioned_element list" where
  "contributing window positioned =
     (let char_start = fst (hd window); char_end = snd (last window) in
      filter (\<lambda>p. char_start < pe_char_end p \<and> pe_char_start p < char_end) positioned)"

function line_loop ::
  "chunk_size_config \<Rightarrow> positioned_element list \<Rightarrow> (nat \<times> nat) list \<Rightarrow> nat \<Rightarrow> nat \<Rightarrow> chunk_candidate list
   \<Rightarrow> chunk_error + chunk_candidate list" where
  "line_loop sz positioned matches index ordinal out =
     (if index < length matches
      then (let parts = contributing (window_at sz matches index) positioned in
            if parts \<noteq> []
            then andThen (build_candidate parts ordinal)
                   (\<lambda>c. line_loop sz positioned matches (index + line_step sz) (ordinal + 1) (out @ [c]))
            else line_loop sz positioned matches (index + line_step sz) ordinal out)
      else Inr out)"
  by pat_completeness auto
termination
  by (relation "measure (\<lambda>(sz, positioned, matches, index, ordinal, out). length matches - index)") (auto simp: line_step_def)

declare line_loop.simps [simp del]

definition line_based_chunks :: "dict \<Rightarrow> ledger_document \<Rightarrow> chunk_error + chunk_candidate list" where
  "line_based_chunks config document =
     andThen (parse_size_config config) (\<lambda>sz.
     andThen (resolve_tokenizer (sz_tokenizer_name sz)) (\<lambda>tokenizer.
       let positioned = position_elements document in
       if positioned = [] then Inr []
       else (let matches = token_spans 0 (document_text positioned) in
             if matches = [] then Inr [] else line_loop sz positioned matches 0 0 [])))"

section \<open>The registry\<close>

datatype chunker_name = LineBasedChunker | HierarchicalChunker | HybridChunker

primrec iterate_chunks :: "chunker_name \<Rightarrow> dict \<Rightarrow> ledger_document \<Rightarrow> chunk_error + chunk_candidate list" where
  "iterate_chunks LineBasedChunker = line_based_chunks"
| "iterate_chunks HierarchicalChunker = hierarchical_chunks"
| "iterate_chunks HybridChunker = hybrid_chunks"

definition contextualize :: "chunk_candidate \<Rightarrow> dict \<Rightarrow> chunk_error + contextualized_chunk" where
  "contextualize candidate config =
     andThen (parse_size_config config) (\<lambda>sz.
     andThen (resolve_tokenizer (sz_tokenizer_name sz)) (\<lambda>tokenizer.
       contextualize_candidate candidate config tokenizer))"

definition default_registry :: "(pystr \<times> chunker_name) list" where
  "default_registry =
     [(py ''line_based'', LineBasedChunker), (py ''hierarchical'', HierarchicalChunker), (py ''hybrid'', HybridChunker)]"

definition registry_names :: "(pystr \<times> chunker_name) list \<Rightarrow> pystr list" where
  "registry_names registry = sort (map fst registry)"

section \<open>Plans\<close>

text \<open>The candidates of a list of groups of parts, numbered from \<open>n\<close>.\<close>

definition build_all :: "nat \<Rightarrow> positioned_element list list \<Rightarrow> chunk_error + chunk_candidate list" where
  "build_all n plan = collect (map (\<lambda>(i, parts). build_candidate parts i) (enumerate n plan))"

lemma build_all_Nil [simp]: "build_all n [] = Inr []"
  by (simp add: build_all_def)

lemma build_all_snoc:
  assumes "build_all n plan = Inr out" "build_candidate parts (n + length plan) = Inr c"
  shows "build_all n (plan @ [parts]) = Inr (out @ [c])"
  using assms by (simp add: build_all_def enumerate_append_eq collect_append)

lemma yield_parts_total:
  assumes "parts \<noteq> []" "build_all 0 plan = Inr (cs_out st)" "cs_ordinal st = length plan"
  obtains c where "yield_parts st parts = Inr (st\<lparr>cs_out := cs_out st @ [c], cs_ordinal := cs_ordinal st + 1\<rparr>)"
    "build_all 0 (plan @ [parts]) = Inr (cs_out st @ [c])"
proof -
  obtain c where "build_candidate parts (cs_ordinal st) = Inr c" by (rule build_candidate_total [OF assms(1)])
  with assms show ?thesis by (intro that [of c]) (simp_all add: yield_parts_def build_all_snoc)
qed

abbreviation tok :: "tokenizer \<Rightarrow> positioned_element \<Rightarrow> nat" where
  "tok t p \<equiv> token_count t (part_text p)"

definition toks :: "tokenizer \<Rightarrow> positioned_element list \<Rightarrow> nat" where
  "toks t ps = sum_list (map (tok t) ps)"

lemma toks_simps [simp]: "toks t [] = 0" "toks t (p # ps) = tok t p + toks t ps" "toks t (ps @ qs) = toks t ps + toks t qs"
  by (simp_all add: toks_def)

text \<open>What an element contributes to the chunks: itself, or its pieces when it is oversized.\<close>

definition pieces_of :: "chunk_size_config \<Rightarrow> tokenizer \<Rightarrow> positioned_element \<Rightarrow> positioned_element list" where
  "pieces_of sz t p =
     (if int (tok t p) > sz_max_tokens sz
      then (case split_oversized p (sz_max_tokens sz) t of Inl _ \<Rightarrow> [] | Inr pieces \<Rightarrow> pieces)
      else [p])"

definition refuses :: "chunk_size_config \<Rightarrow> tokenizer \<Rightarrow> positioned_element \<Rightarrow> bool" where
  "refuses sz t p \<longleftrightarrow> sz_oversized_element_policy sz = FailOversized \<and> int (tok t p) > sz_max_tokens sz"

text \<open>
  A planned chunk has an overlap repeated from the chunk before and fresh parts. It stays below
  the limit unless a single fresh part follows the overlap; the overlap stays below its own.
\<close>

type_synonym planned = "positioned_element list \<times> positioned_element list"

abbreviation parts_of :: "planned \<Rightarrow> positioned_element list" where
  "parts_of c \<equiv> fst c @ snd c"

definition planned_ok :: "chunk_size_config \<Rightarrow> tokenizer \<Rightarrow> planned \<Rightarrow> bool" where
  "planned_ok sz t c \<longleftrightarrow> snd c \<noteq> [] \<and> one_heading (parts_of c) \<and>
     int (toks t (fst c)) \<le> sz_overlap_tokens sz \<and> (sz_overlap_tokens sz \<noteq> 0 \<or> fst c = []) \<and>
     list_all (\<lambda>p. int (tok t p) \<le> sz_max_tokens sz) (snd c) \<and>
     (int (toks t (parts_of c)) \<le> sz_max_tokens sz \<or> length (snd c) = 1)"

definition repeats_end :: "planned list \<Rightarrow> positioned_element list \<Rightarrow> bool" where
  "repeats_end plan ov \<longleftrightarrow> ov = [] \<or> (plan \<noteq> [] \<and> (\<exists>k. ov = drop k (parts_of (last plan))))"

definition overlaps_linked :: "planned list \<Rightarrow> bool" where
  "overlaps_linked plan \<longleftrightarrow> (\<forall>i < length plan. repeats_end (take i plan) (fst (plan ! i)))"

lemma overlaps_linked_Nil [simp]: "overlaps_linked []"
  by (simp add: overlaps_linked_def)

lemma overlaps_linked_snoc [simp]:
  "overlaps_linked (plan @ [c]) \<longleftrightarrow> overlaps_linked plan \<and> repeats_end plan (fst c)"
  by (simp add: overlaps_linked_def nth_append less_Suc_eq all_conj_distrib imp_conjR)

definition sound_parts :: "ledger_document \<Rightarrow> positioned_element list \<Rightarrow> bool" where
  "sound_parts d parts \<longleftrightarrow> joined (document_text (position_elements d)) parts \<and>
     set (map (le_id \<circ> pe_element) parts) \<subseteq> set (map le_id (ld_elements d))"

lemma sound_parts_contiguous:
  assumes "position_elements d = a @ g @ b" "g \<noteq> []"
  shows "sound_parts d g"
proof -
  have "ld_elements d = map pe_element a @ map pe_element g @ map pe_element b"
    using arg_cong [OF assms(1), of "map pe_element"] by (simp add: position_elements_def)
  then show ?thesis using contiguous_slice [OF assms] assms(2) by (auto simp: sound_parts_def joined_def)
qed

lemma sound_parts_piece:
  assumes "p \<in> set (position_elements d)" "placed (document_text (position_elements d)) q"
    "pe_element q = (pe_element p)\<lparr>le_text := x\<rparr>"
  shows "sound_parts d [q]"
proof -
  have "pe_element p \<in> set (map pe_element (position_elements d))" using assms(1) by simp
  then have "pe_element p \<in> set (ld_elements d)" by (simp add: position_elements_def del: set_map)
  then show ?thesis using assms(2,3) by (auto simp: sound_parts_def joined_def placed_def)
qed

lemma tail_loop_spec:
  "\<exists>k. tail_loop t ov tail_items (toks t tail_items) (rev items) = drop k items @ tail_items \<and>
     (int (toks t tail_items) \<le> ov \<longrightarrow> int (toks t (drop k items @ tail_items)) \<le> ov)"
proof (induction items arbitrary: tail_items rule: rev_induct)
  case (snoc p items)
  show ?case
  proof (cases "int (toks t tail_items + tok t p) > ov")
    case True
    then show ?thesis by (intro exI [of _ "length (items @ [p])"]) simp
  next
    case False
    obtain k where k: "tail_loop t ov (p # tail_items) (toks t (p # tail_items)) (rev items) = drop k items @ p # tail_items"
      "int (toks t (p # tail_items)) \<le> ov \<longrightarrow> int (toks t (drop k items @ p # tail_items)) \<le> ov"
      using snoc by blast
    show ?thesis
    proof (cases "k \<le> length items")
      case True
      then show ?thesis using False k by (intro exI [of _ k]) (simp add: Let_def add.commute)
    next
      case kbig: False
      then show ?thesis using False k by (intro exI [of _ "length items"]) (simp add: Let_def add.commute)
    qed
  qed
qed (auto intro: exI [of _ 0])

lemma overlap_tail_spec:
  assumes "0 \<le> ov"
  shows "\<exists>k. overlap_tail g ov t = drop k g" "int (toks t (overlap_tail g ov t)) \<le> ov" "ov = 0 \<Longrightarrow> overlap_tail g ov t = []"
proof -
  obtain k where k: "tail_loop t ov [] 0 (rev g) = drop k g" "int (toks t (drop k g)) \<le> ov"
    using tail_loop_spec [of t ov "[]" g] assms by auto
  show "\<exists>k. overlap_tail g ov t = drop k g"
    using k(1) by (cases "ov \<le> 0") (auto simp: overlap_tail_def intro: exI [of _ "length g"])
  show "int (toks t (overlap_tail g ov t)) \<le> ov"
    using k assms by (auto simp: overlap_tail_def)
qed (simp add: overlap_tail_def)

section \<open>The loop invariant of the structure-aware chunkers\<close>

text \<open>
  After the parts \<open>done_items\<close> of the document, the candidates out are those of a plan whose fresh
  parts, followed by those of the open group, are what the items contribute; the open group is a
  planned chunk in the making and ends the items read.
\<close>

record progress =
  pr_plan :: "planned list"
  pr_overlap :: "positioned_element list"
  pr_fresh :: "positioned_element list"

definition chunk_inv ::
  "ledger_document \<Rightarrow> chunk_size_config \<Rightarrow> tokenizer \<Rightarrow> positioned_element list \<Rightarrow> chunk_state \<Rightarrow> progress \<Rightarrow> bool" where
  "chunk_inv d sz t done_items st pr \<longleftrightarrow>
     build_all 0 (map parts_of (pr_plan pr)) = Inr (cs_out st) \<and> cs_ordinal st = length (pr_plan pr) \<and>
     cs_group st = pr_overlap pr @ pr_fresh pr \<and> cs_tokens st = toks t (cs_group st) \<and>
     concat (map snd (pr_plan pr)) @ pr_fresh pr = concat (map (pieces_of sz t) done_items) \<and>
     list_all (planned_ok sz t) (pr_plan pr) \<and> list_all (\<lambda>c. sound_parts d (parts_of c)) (pr_plan pr) \<and>
     overlaps_linked (pr_plan pr) \<and> repeats_end (pr_plan pr) (pr_overlap pr) \<and>
     (if pr_fresh pr = [] then pr_overlap pr = [] else planned_ok sz t (pr_overlap pr, pr_fresh pr)) \<and>
     (\<exists>a. done_items = a @ cs_group st)"

abbreviation closed :: "progress \<Rightarrow> bool" where
  "closed pr \<equiv> pr_overlap pr = [] \<and> pr_fresh pr = []"

text \<open>A step that completes one more chunk.\<close>

lemma chunk_inv_group_sound:
  assumes "chunk_inv d sz t done_items st pr" "position_elements d = done_items @ rest" "cs_group st \<noteq> []"
  shows "sound_parts d (cs_group st)"
proof -
  obtain a where "done_items = a @ cs_group st" using assms(1) by (auto simp: chunk_inv_def)
  then show ?thesis using assms(2,3) by (intro sound_parts_contiguous [of d a _ rest]) auto
qed

lemma yield_group_inv:
  assumes inv: "chunk_inv d sz t done_items st pr" and pos: "position_elements d = done_items @ rest"
  obtains st' pr' where "yield_group st = Inr st'" "cs_group st' = cs_group st" "closed pr'"
    "chunk_inv d sz t done_items (st'\<lparr>cs_group := [], cs_tokens := 0\<rparr>) pr'"
    "cs_group st = [] \<or> (pr_plan pr' \<noteq> [] \<and> parts_of (last (pr_plan pr')) = cs_group st)"
proof (cases "cs_group st = []")
  case True
  then show ?thesis using inv
    by (intro that [of st pr]) (auto simp: yield_group_def chunk_inv_def split: if_splits)
next
  case False
  let ?c = "(pr_overlap pr, pr_fresh pr)"
  have g: "cs_group st = parts_of ?c" and plan: "build_all 0 (map parts_of (pr_plan pr)) = Inr (cs_out st)"
    "cs_ordinal st = length (map parts_of (pr_plan pr))"
    using inv by (simp_all add: chunk_inv_def)
  obtain c where c: "yield_parts st (cs_group st) = Inr (st\<lparr>cs_out := cs_out st @ [c], cs_ordinal := cs_ordinal st + 1\<rparr>)"
    "build_all 0 (map parts_of (pr_plan pr) @ [cs_group st]) = Inr (cs_out st @ [c])"
    by (rule yield_parts_total [OF False plan])
  have "pr_fresh pr \<noteq> []" using False inv by (auto simp: chunk_inv_def)
  moreover have "sound_parts d (cs_group st)" by (rule chunk_inv_group_sound [OF inv pos False])
  ultimately show ?thesis using c inv False
    by (intro that [of "st\<lparr>cs_out := cs_out st @ [c], cs_ordinal := cs_ordinal st + 1\<rparr>"
          "\<lparr>pr_plan = pr_plan pr @ [?c], pr_overlap = [], pr_fresh = []\<rparr>"])
      (auto simp: yield_group_def chunk_inv_def repeats_end_def)
qed

lemma yield_pieces_inv:
  assumes "build_all 0 (map parts_of plan) = Inr (cs_out st)" "cs_ordinal st = length plan"
  obtains st' where "fold_result (\<lambda>s piece. yield_parts s [piece]) st pieces = Inr st'"
    "build_all 0 (map parts_of (plan @ map (\<lambda>p. ([], [p])) pieces)) = Inr (cs_out st')"
    "cs_ordinal st' = length plan + length pieces" "cs_group st' = cs_group st" "cs_tokens st' = cs_tokens st"
  using assms
proof (induction pieces arbitrary: plan st thesis)
  case Nil
  then show ?case by simp
next
  case (Cons p pieces)
  obtain c where c: "yield_parts st [p] = Inr (st\<lparr>cs_out := cs_out st @ [c], cs_ordinal := cs_ordinal st + 1\<rparr>)"
    "build_all 0 (map parts_of plan @ [[p]]) = Inr (cs_out st @ [c])"
    using yield_parts_total [of "[p]" "map parts_of plan" st] Cons.prems(2,3) by auto
  show ?case
    by (rule Cons.IH [where plan = "plan @ [([], [p])]" and st = "st\<lparr>cs_out := cs_out st @ [c], cs_ordinal := cs_ordinal st + 1\<rparr>"])
      (use c Cons.prems in auto)
qed

lemma overlaps_linked_fresh: "overlaps_linked plan \<Longrightarrow> overlaps_linked (plan @ map (\<lambda>p. ([], [p])) ps)"
proof (induction ps arbitrary: plan)
  case (Cons p ps)
  then show ?case using Cons.IH [of "plan @ [([], [p])]"] by (simp add: repeats_end_def)
qed simp

lemma one_heading_single [simp]: "one_heading [p]"
  by (simp add: one_heading_def)

lemma oversized_item_inv:
  assumes inv: "chunk_inv d sz t done_items st pr" and pos: "position_elements d = done_items @ p # rest"
    and sz: "0 < sz_max_tokens sz" "0 \<le> sz_overlap_tokens sz"
    and big: "int (tok t p) > sz_max_tokens sz" and split: "sz_oversized_element_policy sz = SplitOversized"
  obtains st' pr' where "oversized_item sz t st p (tok t p) = Inr st'" "chunk_inv d sz t (done_items @ [p]) st' pr'"
    "cs_group st' = []"
proof -
  obtain st1 pr1 where y: "yield_group st = Inr st1" "closed pr1"
    and inv1: "chunk_inv d sz t done_items (st1\<lparr>cs_group := [], cs_tokens := 0\<rparr>) pr1"
    by (rule yield_group_inv [OF inv pos])
  have placed: "placed (document_text (position_elements d)) p" by (rule elements_placed) (simp add: pos)
  obtain pieces where ps: "split_oversized p (sz_max_tokens sz) t = Inr pieces"
    "\<And>q. q \<in> set pieces \<Longrightarrow> int (tok t q) \<le> sz_max_tokens sz" "\<And>q. q \<in> set pieces \<Longrightarrow> sound_parts d [q]"
  proof (rule split_oversized_spec [OF sz(1), of p t])
    fix pieces
    assume *: "split_oversized p (sz_max_tokens sz) t = Inr pieces"
      "\<And>q. q \<in> set pieces \<Longrightarrow> int (tok t q) \<le> sz_max_tokens sz"
      "\<And>q. q \<in> set pieces \<Longrightarrow> pe_element q = (pe_element p)\<lparr>le_text := part_text q\<rparr>"
      "\<And>q whole. q \<in> set pieces \<Longrightarrow> placed whole p \<Longrightarrow> placed whole q"
    have "sound_parts d [q]" if "q \<in> set pieces" for q
      by (rule sound_parts_piece [of p d q "part_text q"]) (use * that placed pos in auto)
    with * show ?thesis by (intro that [of pieces]) blast+
  qed
  obtain st2 where st2: "fold_result (\<lambda>s piece. yield_parts s [piece]) (st1\<lparr>cs_group := [], cs_tokens := 0\<rparr>) pieces = Inr st2"
    "build_all 0 (map parts_of (pr_plan pr1 @ map (\<lambda>p. ([], [p])) pieces)) = Inr (cs_out st2)"
    "cs_ordinal st2 = length (pr_plan pr1) + length pieces" "cs_group st2 = []" "cs_tokens st2 = 0"
    using yield_pieces_inv [of "pr_plan pr1" "st1\<lparr>cs_group := [], cs_tokens := 0\<rparr>" pieces] inv1
    by (auto simp: chunk_inv_def)
  let ?pr = "\<lparr>pr_plan = pr_plan pr1 @ map (\<lambda>p. ([], [p])) pieces, pr_overlap = [], pr_fresh = []\<rparr>"
  have "oversized_item sz t st p (tok t p) = Inr st2"
    by (simp add: oversized_item_def y(1) Let_def split ps(1) st2(1))
  moreover have "chunk_inv d sz t (done_items @ [p]) st2 ?pr"
    unfolding chunk_inv_def
  proof (intro conjI)
    show "concat (map snd (pr_plan ?pr)) @ pr_fresh ?pr = concat (map (pieces_of sz t) (done_items @ [p]))"
      using inv1 y(2) big ps(1) by (simp add: chunk_inv_def pieces_of_def comp_def)
    show "list_all (planned_ok sz t) (pr_plan ?pr)"
      using inv1 ps(2) sz(2) by (auto simp: chunk_inv_def planned_ok_def list_all_iff)
    show "list_all (\<lambda>c. sound_parts d (parts_of c)) (pr_plan ?pr)"
      using inv1 ps(3) by (auto simp: chunk_inv_def list_all_iff)
    show "overlaps_linked (pr_plan ?pr)"
      using inv1 by (simp add: chunk_inv_def overlaps_linked_fresh)
  qed (use st2 in \<open>auto simp: repeats_end_def comp_def\<close>)
  ultimately show ?thesis by (rule that) (rule st2(4))
qed

lemma pieces_of_small: "int (tok t p) \<le> sz_max_tokens sz \<Longrightarrow> pieces_of sz t p = [p]"
  by (simp add: pieces_of_def)

lemma append_item_inv:
  assumes inv: "chunk_inv d sz t done_items st pr" and small: "int (tok t p) \<le> sz_max_tokens sz"
    and room: "cs_group st = [] \<or> int (toks t (cs_group st) + tok t p) \<le> sz_max_tokens sz"
    and hd: "one_heading (cs_group st @ [p])" and ov: "0 \<le> sz_overlap_tokens sz"
  shows "chunk_inv d sz t (done_items @ [p]) (append_item st p (tok t p)) (pr\<lparr>pr_fresh := pr_fresh pr @ [p]\<rparr>)"
proof (cases "cs_group st = []")
  case True
  then show ?thesis using inv small ov
    by (auto simp: chunk_inv_def append_item_def pieces_of_small planned_ok_def)
next
  case False
  then have "pr_fresh pr \<noteq> []" using inv by (auto simp: chunk_inv_def)
  then show ?thesis using False inv small room hd
    by (auto simp: chunk_inv_def append_item_def pieces_of_small planned_ok_def)
qed

lemma append_after_overlap_inv:
  assumes inv: "chunk_inv d sz t done_items (st\<lparr>cs_group := [], cs_tokens := 0\<rparr>) pr" and closed: "closed pr"
    and small: "int (tok t p) \<le> sz_max_tokens sz" and ov: "int (toks t g) \<le> sz_overlap_tokens sz"
    "sz_overlap_tokens sz = 0 \<Longrightarrow> g = []" and hd: "one_heading (g @ [p])"
    and rep: "repeats_end (pr_plan pr) g" and ends: "done_items = a @ g"
  shows "chunk_inv d sz t (done_items @ [p]) (append_item (st\<lparr>cs_group := g, cs_tokens := toks t g\<rparr>) p (tok t p))
    (pr\<lparr>pr_overlap := g, pr_fresh := [p]\<rparr>)"
  using assms by (auto simp: chunk_inv_def append_item_def pieces_of_small planned_ok_def)

lemma hybrid_item_inv:
  assumes inv: "chunk_inv d sz t done_items st pr" and pos: "position_elements d = done_items @ p # rest"
    and sz: "0 < sz_max_tokens sz" "0 \<le> sz_overlap_tokens sz"
    and hd: "one_heading (cs_group st @ [p])" and ok: "\<not> refuses sz t p"
  obtains st' pr' where "hybrid_item sz t st p = Inr st'" "chunk_inv d sz t (done_items @ [p]) st' pr'"
    "set (cs_group st') \<subseteq> insert p (set (cs_group st))"
proof -
  consider (big) "int (tok t p) > sz_max_tokens sz"
    | (full) "int (tok t p) \<le> sz_max_tokens sz" "cs_group st \<noteq> []" "int (cs_tokens st + tok t p) > sz_max_tokens sz"
    | (fits) "int (tok t p) \<le> sz_max_tokens sz" "cs_group st = [] \<or> int (cs_tokens st + tok t p) \<le> sz_max_tokens sz"
    by fastforce
  then show ?thesis
  proof cases
    case big
    then have "sz_oversized_element_policy sz = SplitOversized"
      using ok by (cases "sz_oversized_element_policy sz") (auto simp: refuses_def)
    then obtain st' pr' where "oversized_item sz t st p (tok t p) = Inr st'" "chunk_inv d sz t (done_items @ [p]) st' pr'"
      "cs_group st' = []" by (rule oversized_item_inv [OF inv pos sz big])
    then show ?thesis using big by (intro that [of st' pr']) (simp_all add: hybrid_item_def)
  next
    case full
    let ?g = "overlap_tail (cs_group st) (sz_overlap_tokens sz) t"
    obtain st1 pr1 where y: "yield_group st = Inr st1" "cs_group st1 = cs_group st" "closed pr1"
      and inv1: "chunk_inv d sz t done_items (st1\<lparr>cs_group := [], cs_tokens := 0\<rparr>) pr1"
      and last: "pr_plan pr1 \<noteq> []" "parts_of (last (pr_plan pr1)) = cs_group st"
      using yield_group_inv [OF inv pos] full(2) by metis
    obtain k where k: "?g = drop k (cs_group st)" using overlap_tail_spec(1) [OF sz(2)] by blast
    obtain a where "done_items = a @ cs_group st" using inv by (auto simp: chunk_inv_def)
    then have ends: "done_items = (a @ take k (cs_group st)) @ ?g" by (simp add: k)
    have sub: "set ?g \<subseteq> set (cs_group st)" unfolding k by (rule set_drop_subset)
    have "one_heading (?g @ [p])" by (rule one_heading_mono [OF hd]) (use sub in auto)
    moreover have "repeats_end (pr_plan pr1) ?g" using last k by (auto simp: repeats_end_def)
    ultimately have "chunk_inv d sz t (done_items @ [p]) (append_item (st1\<lparr>cs_group := ?g, cs_tokens := toks t ?g\<rparr>) p (tok t p))
        (pr1\<lparr>pr_overlap := ?g, pr_fresh := [p]\<rparr>)"
      using overlap_tail_spec(2,3) [OF sz(2)] full(1) ends
      by (intro append_after_overlap_inv [OF inv1 y(3)]) auto
    moreover have "hybrid_item sz t st p = Inr (append_item (st1\<lparr>cs_group := ?g, cs_tokens := toks t ?g\<rparr>) p (tok t p))"
      using full y by (simp add: hybrid_item_def Let_def toks_def)
    ultimately show ?thesis using sub by (intro that) (auto simp: append_item_def)
  next
    case fits
    have "cs_tokens st = toks t (cs_group st)" using inv by (simp add: chunk_inv_def)
    with fits(2) have room: "cs_group st = [] \<or> int (toks t (cs_group st) + tok t p) \<le> sz_max_tokens sz" by simp
    have "hybrid_item sz t st p = Inr (append_item st p (tok t p))"
      using fits by (auto simp: hybrid_item_def Let_def)
    with append_item_inv [OF inv fits(1) room hd sz(2)] show ?thesis
      by (intro that) (auto simp: append_item_def)
  qed
qed

lemma hybrid_item_refuses:
  assumes inv: "chunk_inv d sz t done_items st pr" and pos: "position_elements d = done_items @ p # rest" and "refuses sz t p"
  shows "hybrid_item sz t st p = Inl (OversizedElement (le_id (pe_element p)) (tok t p) (sz_max_tokens sz))"
  by (rule yield_group_inv [OF inv pos])
    (use assms(3) in \<open>simp add: hybrid_item_def refuses_def oversized_item_def\<close>)

text \<open>Sections and documents: either no element is refused, or the first refused one is the error.\<close>

abbreviation refusal :: "chunk_size_config \<Rightarrow> tokenizer \<Rightarrow> positioned_element \<Rightarrow> chunk_error" where
  "refusal sz t p \<equiv> OversizedElement (le_id (pe_element p)) (tok t p) (sz_max_tokens sz)"

lemma hybrid_items_inv:
  assumes "chunk_inv d sz t done_items st pr" "position_elements d = done_items @ items @ rest"
    "0 < sz_max_tokens sz" "0 \<le> sz_overlap_tokens sz" "one_heading (cs_group st @ items)"
  shows "case find (refuses sz t) items of
      Some p \<Rightarrow> fold_result (hybrid_item sz t) st items = Inl (refusal sz t p)
    | None \<Rightarrow> \<exists>st' pr'. fold_result (hybrid_item sz t) st items = Inr st' \<and> chunk_inv d sz t (done_items @ items) st' pr'"
  using assms
proof (induction items arbitrary: done_items st pr)
  case (Cons p items)
  show ?case
  proof (cases "refuses sz t p")
    case True
    then show ?thesis using hybrid_item_refuses [OF Cons.prems(1) _ True, of "items @ rest"] Cons.prems(2) by simp
  next
    case False
    have "one_heading (cs_group st @ [p])" by (rule one_heading_mono [OF Cons.prems(5)]) auto
    with Cons.prems False obtain st' pr' where 1: "hybrid_item sz t st p = Inr st'" "chunk_inv d sz t (done_items @ [p]) st' pr'"
      "set (cs_group st') \<subseteq> insert p (set (cs_group st))"
      using hybrid_item_inv [of d sz t done_items st pr p "items @ rest"] by auto
    have "one_heading (cs_group st' @ items)" by (rule one_heading_mono [OF Cons.prems(5)]) (use 1(3) in auto)
    from Cons.IH [OF 1(2) _ Cons.prems(3,4) this] Cons.prems(2) 1(1) False show ?thesis
      by (cases "find (refuses sz t) items") simp_all
  qed
qed auto

lemma run_section_inv:
  assumes "chunk_inv d sz t done_items (st\<lparr>cs_group := [], cs_tokens := 0\<rparr>) pr" "position_elements d = done_items @ items @ rest"
    "0 < sz_max_tokens sz" "0 \<le> sz_overlap_tokens sz" "one_heading items"
  shows "case find (refuses sz t) items of
      Some p \<Rightarrow> run_section (hybrid_item sz t) st items = Inl (refusal sz t p)
    | None \<Rightarrow> \<exists>st' pr'. run_section (hybrid_item sz t) st items = Inr st' \<and> closed pr' \<and>
        chunk_inv d sz t (done_items @ items) (st'\<lparr>cs_group := [], cs_tokens := 0\<rparr>) pr'"
proof (cases "find (refuses sz t) items")
  case None
  then obtain st1 pr1 where 1: "fold_result (hybrid_item sz t) (st\<lparr>cs_group := [], cs_tokens := 0\<rparr>) items = Inr st1"
    and inv1: "chunk_inv d sz t (done_items @ items) st1 pr1"
    using hybrid_items_inv [OF assms(1-4)] assms(5) by auto
  obtain st2 pr2 where "yield_group st1 = Inr st2" "closed pr2"
    "chunk_inv d sz t (done_items @ items) (st2\<lparr>cs_group := [], cs_tokens := 0\<rparr>) pr2"
    using yield_group_inv [OF inv1, of rest] assms(2) by (metis append_assoc)
  then show ?thesis using None 1 by (auto simp: run_section_def)
next
  case (Some p)
  then show ?thesis using hybrid_items_inv [OF assms(1-4)] assms(5) by (simp add: run_section_def)
qed

lemma find_append: "find P (xs @ ys) = (case find P xs of None \<Rightarrow> find P ys | Some x \<Rightarrow> Some x)"
  by (induction xs) auto

lemma run_sections_inv:
  assumes "chunk_inv d sz t done_items (st\<lparr>cs_group := [], cs_tokens := 0\<rparr>) pr" "position_elements d = done_items @ concat secs"
    "0 < sz_max_tokens sz" "0 \<le> sz_overlap_tokens sz" "list_all one_heading secs" "closed pr"
  shows "case find (refuses sz t) (concat secs) of
      Some p \<Rightarrow> fold_result (run_section (hybrid_item sz t)) st secs = Inl (refusal sz t p)
    | None \<Rightarrow> \<exists>st' pr'. fold_result (run_section (hybrid_item sz t)) st secs = Inr st' \<and> closed pr' \<and>
        chunk_inv d sz t (done_items @ concat secs) (st'\<lparr>cs_group := [], cs_tokens := 0\<rparr>) pr'"
  using assms
proof (induction secs arbitrary: done_items st pr)
  case (Cons sec secs)
  have r: "case find (refuses sz t) sec of
      Some p \<Rightarrow> run_section (hybrid_item sz t) st sec = Inl (refusal sz t p)
    | None \<Rightarrow> \<exists>st' pr'. run_section (hybrid_item sz t) st sec = Inr st' \<and> closed pr' \<and>
        chunk_inv d sz t (done_items @ sec) (st'\<lparr>cs_group := [], cs_tokens := 0\<rparr>) pr'"
    using Cons.prems by (intro run_section_inv [of d sz t done_items st pr sec "concat secs"]) auto
  show ?case
  proof (cases "find (refuses sz t) sec")
    case None
    with r obtain st' pr' where 1: "run_section (hybrid_item sz t) st sec = Inr st'" "closed pr'"
      "chunk_inv d sz t (done_items @ sec) (st'\<lparr>cs_group := [], cs_tokens := 0\<rparr>) pr'" by auto
    from Cons.IH [OF 1(3) _ Cons.prems(3,4)] Cons.prems(2,5) 1(1,2) None show ?thesis
      by (cases "find (refuses sz t) (concat secs)") (simp_all add: find_append)
  qed (use r in \<open>simp add: find_append\<close>)
qed auto

lemma hybrid_run:
  assumes "0 < sz_max_tokens sz" "0 \<le> sz_overlap_tokens sz"
  shows "case find (refuses sz t) (position_elements d) of
      Some p \<Rightarrow> run_sections (hybrid_item sz t) d = Inl (refusal sz t p)
    | None \<Rightarrow> \<exists>plan cs. run_sections (hybrid_item sz t) d = Inr cs \<and> build_all 0 (map parts_of plan) = Inr cs \<and>
        concat (map snd plan) = concat (map (pieces_of sz t) (position_elements d)) \<and>
        list_all (planned_ok sz t) plan \<and> overlaps_linked plan \<and> list_all (\<lambda>c. sound_parts d (parts_of c)) plan"
proof -
  let ?st = "\<lparr>cs_out = [], cs_ordinal = 0, cs_group = [], cs_tokens = 0\<rparr>"
  let ?pr = "\<lparr>pr_plan = [], pr_overlap = [], pr_fresh = []\<rparr>"
  note secs = group_by_heading_path_spec [of "position_elements d"]
  have "chunk_inv d sz t [] (?st\<lparr>cs_group := [], cs_tokens := 0\<rparr>) ?pr"
    by (simp add: chunk_inv_def repeats_end_def)
  from run_sections_inv [OF this, of "group_by_heading_path (position_elements d)"] assms secs
  show ?thesis
    by (fastforce simp: run_sections_def chunk_inv_def list_all_iff split: option.splits)
qed

section \<open>From plans to candidates\<close>

lemma build_all_nth:
  assumes "build_all n plan = Inr cs"
  shows "length cs = length plan" "i < length plan \<Longrightarrow> build_candidate (plan ! i) (n + i) = Inr (cs ! i)"
proof -
  have eq: "map (\<lambda>(i, parts). build_candidate parts i) (enumerate n plan) = map Inr cs"
    using assms by (simp add: build_all_def collect_Inr_iff)
  from arg_cong [OF this, of length] show len: "length cs = length plan" by simp
  assume "i < length plan"
  with arg_cong [OF eq, of "\<lambda>l. l ! i"] show "build_candidate (plan ! i) (n + i) = Inr (cs ! i)"
    by (simp add: len nth_enumerate_eq)
qed

lemma raw_text_tokens:
  assumes "build_candidate parts n = Inr c" "parts \<noteq> []"
  shows "token_count t (cc_raw_text c) = token_count t (repeated_header (pe_element (hd parts))) + toks t parts"
proof -
  have hdr: "token_count t (repeated_header e @ s) = token_count t (repeated_header e) + token_count t s" for e s
  proof (cases "repeated_header e = []")
    case False
    then obtain h where h: "repeated_header e = h @ [10]" by (auto simp: repeated_header_def split: option.splits if_splits)
    have sp: "is_space 10" by (simp add: is_space_def)
    have "token_count t (10 # s) = token_count t s"
      using sp by (simp add: token_count_def length_token_spans [of "Suc 0"])
    then show ?thesis
      using token_count_append_space [of "10 # s" t h] token_count_append_space [of "[10]" t h] sp
      by (simp add: h) (simp add: token_count_def)
  qed simp
  show ?thesis
    by (rule build_candidate_total [OF assms(2), of n]) (use assms(1) hdr in \<open>simp add: token_count_join toks_def comp_def\<close>)
qed

text \<open>What the builder of a manifest relies on, whichever chunker is configured.\<close>

locale chunker =
  fixes iterate :: "dict \<Rightarrow> ledger_document \<Rightarrow> chunk_error + chunk_candidate list"
  assumes ordinals: "iterate config d = Inr cs \<Longrightarrow> map (loc_ordinal \<circ> cc_locator) cs = [0..<length cs]"
    and offsets: "iterate config d = Inr cs \<Longrightarrow> c \<in> set cs \<Longrightarrow> located (document_text (position_elements d)) c"
    and refs: "iterate config d = Inr cs \<Longrightarrow> c \<in> set cs \<Longrightarrow>
      cc_element_refs c \<noteq> [] \<and> set (cc_element_refs c) \<subseteq> set (map le_id (ld_elements d))"
begin

lemma distinct_locators:
  assumes "iterate config d = Inr cs"
  shows "distinct (map cc_locator cs)"
proof -
  have "distinct (map loc_ordinal (map cc_locator cs))" using ordinals [OF assms] by simp
  then show ?thesis by (simp only: distinct_map)
qed

lemma kept_chunks:
  assumes "iterate config d = Inr cs" "drop_empty_candidates cs = (kept, dropped)"
  shows "length kept + dropped = length cs \<and> distinct (map cc_locator kept) \<and>
    list_all (\<lambda>c. strip (cc_raw_text c) \<noteq> [] \<and> located (document_text (position_elements d)) c \<and>
      cc_element_refs c \<noteq> [] \<and> set (cc_element_refs c) \<subseteq> set (map le_id (ld_elements d))) kept"
proof -
  have eq: "kept = filter (\<lambda>c. strip (cc_raw_text c) \<noteq> []) cs" "dropped = length (filter (\<lambda>c. strip (cc_raw_text c) = []) cs)"
    using assms(2) by (simp_all add: drop_empty_candidates_eq)
  have "length kept + dropped = length cs"
    using sum_length_filter_compl [of "\<lambda>c. strip (cc_raw_text c) \<noteq> []" cs] by (simp add: eq)
  moreover have "distinct (map cc_locator kept)"
    unfolding eq by (rule distinct_map_filter) (rule distinct_locators [OF assms(1)])
  ultimately show ?thesis using offsets [OF assms(1)] refs [OF assms(1)] by (auto simp: eq list_all_iff)
qed

end

lemma planned_contract:
  assumes "build_all 0 plan = Inr cs" "list_all (sound_parts d) plan"
  shows "map (loc_ordinal \<circ> cc_locator) cs = [0..<length cs]"
    "c \<in> set cs \<Longrightarrow> located (document_text (position_elements d)) c"
    "c \<in> set cs \<Longrightarrow> cc_element_refs c \<noteq> [] \<and> set (cc_element_refs c) \<subseteq> set (map le_id (ld_elements d))"
proof -
  have at: "joined (document_text (position_elements d)) (plan ! i)" "plan ! i \<noteq> []"
    "set (map (le_id \<circ> pe_element) (plan ! i)) \<subseteq> set (map le_id (ld_elements d))" if "i < length plan" for i
    using assms(2) that by (auto simp: list_all_length sound_parts_def joined_def)
  note nth = build_all_nth [OF assms(1)]
  have ord: "loc_ordinal (cc_locator (cs ! i)) = i" "cc_element_refs (cs ! i) = map (le_id \<circ> pe_element) (plan ! i)"
    if "i < length plan" for i
    using build_candidate_total [OF at(2) [OF that], of i] nth(2) [OF that] by auto
  show "map (loc_ordinal \<circ> cc_locator) cs = [0..<length cs]"
    by (rule nth_equalityI) (simp_all add: nth(1) ord)
  assume "c \<in> set cs"
  then obtain i where i: "i < length plan" "c = cs ! i" by (auto simp: in_set_conv_nth nth(1))
  show "located (document_text (position_elements d)) c"
    using build_candidate_located [OF at(1) [OF i(1)] nth(2) [OF i(1)]] i(2) by simp
  show "cc_element_refs c \<noteq> [] \<and> set (cc_element_refs c) \<subseteq> set (map le_id (ld_elements d))"
    using ord(2) [OF i(1)] at(2,3) [OF i(1)] i(2) by simp
qed

section \<open>Accepted configurations\<close>

lemma parse_size_config_bounds:
  assumes "parse_size_config config = Inr sz"
  shows "0 < sz_max_tokens sz" "0 \<le> sz_overlap_tokens sz" "sz_overlap_tokens sz < sz_max_tokens sz" "0 \<le> sz_min_tokens sz"
  using assms by (auto simp: parse_size_config_def Let_def split: option.splits if_splits json.splits)

lemma resolve_tokenizer_Inr: "resolve_tokenizer name = Inr t \<longleftrightarrow> name = TOKENIZER_NAME"
  by (cases t) (simp add: resolve_tokenizer_def)

lemma oversized_item_no_overlap [simp]: "oversized_item (sz\<lparr>sz_overlap_tokens := n\<rparr>) t = oversized_item sz t"
  by (intro ext) (simp add: oversized_item_def cong: if_cong)

lemma hierarchical_is_hybrid: "hierarchical_item sz t = hybrid_item (sz\<lparr>sz_overlap_tokens := 0\<rparr>) t"
  by (intro ext) (simp add: hierarchical_item_def hybrid_item_def overlap_tail_def Let_def cong: if_cong)

lemma pieces_of_no_overlap [simp]: "pieces_of (sz\<lparr>sz_overlap_tokens := n\<rparr>) t p = pieces_of sz t p"
  "refuses (sz\<lparr>sz_overlap_tokens := n\<rparr>) t p = refuses sz t p"
  by (simp_all add: pieces_of_def refuses_def)

lemma hierarchical_run:
  assumes "0 < sz_max_tokens sz"
  shows "case find (refuses sz t) (position_elements d) of
      Some p \<Rightarrow> run_sections (hierarchical_item sz t) d = Inl (refusal sz t p)
    | None \<Rightarrow> \<exists>plan cs. run_sections (hierarchical_item sz t) d = Inr cs \<and> build_all 0 plan = Inr cs \<and>
        concat plan = concat (map (pieces_of sz t) (position_elements d)) \<and>
        list_all (\<lambda>parts. parts \<noteq> [] \<and> one_heading parts \<and> int (toks t parts) \<le> sz_max_tokens sz) plan \<and>
        list_all (sound_parts d) plan"
proof -
  let ?sz = "sz\<lparr>sz_overlap_tokens := 0\<rparr>"
  have refuses: "refuses ?sz t = refuses sz t" "pieces_of ?sz t = pieces_of sz t" by (simp_all add: fun_eq_iff)
  have ok: "fst c = [] \<and> snd c \<noteq> [] \<and> one_heading (snd c) \<and> int (toks t (snd c)) \<le> sz_max_tokens sz"
    if "planned_ok ?sz t c" for c
    using that by (auto simp: planned_ok_def length_Suc_conv)
  note run = hybrid_run [of ?sz t d, folded hierarchical_is_hybrid, unfolded refuses]
  show ?thesis
  proof (cases "find (refuses sz t) (position_elements d)")
    case None
    then obtain plan cs where p: "run_sections (hierarchical_item sz t) d = Inr cs" "build_all 0 (map parts_of plan) = Inr cs"
      "concat (map snd plan) = concat (map (pieces_of sz t) (position_elements d))"
      "list_all (planned_ok ?sz t) plan" "list_all (\<lambda>c. sound_parts d (parts_of c)) plan"
      using run assms by auto
    have all: "fst c = [] \<and> snd c \<noteq> [] \<and> one_heading (snd c) \<and> int (toks t (snd c)) \<le> sz_max_tokens sz \<and> sound_parts d (snd c)"
      if "c \<in> set plan" for c
      using ok [of c] p(4,5) that by (auto simp: list_all_iff)
    then have "map parts_of plan = map snd plan" by simp
    moreover have "list_all (\<lambda>parts. parts \<noteq> [] \<and> one_heading parts \<and> int (toks t parts) \<le> sz_max_tokens sz) (map snd plan)"
      "list_all (sound_parts d) (map snd plan)"
      unfolding list_all_iff using all by auto
    ultimately show ?thesis unfolding None option.case using p(1-3)
      by (intro exI [of _ "map snd plan"] exI [of _ cs] conjI) (simp_all only:)
  qed (use run assms in simp)
qed

section \<open>Windows over the token stream\<close>

lemma token_spans_sorted: "sorted_wrt (\<lambda>x y. snd x \<le> fst y) (token_spans i s)"
proof (induction s arbitrary: i rule: text_induct)
  case (word w s)
  have "list_all (\<lambda>y. i + length w \<le> fst y) (token_spans (i + length w) s)"
    using token_span_bounds by (fastforce simp: list_all_iff)
  then show ?case using word by (simp add: token_spans_word list_all_iff)
qed simp_all

lemma token_spans_document:
  "token_spans (if later then cursor + 2 else cursor) (join SEP (map le_text es)) =
     concat (map (\<lambda>p. token_spans (pe_char_start p) (part_text p)) (position_from later cursor es))"
proof (induction es arbitrary: later cursor rule: induct_list012)
  case (3 x y ys)
  let ?c = "if later then cursor + 2 else cursor" and ?r = "join SEP (map le_text (y # ys))"
  have sp: "is_space 10" by (simp add: is_space_def)
  have "token_spans ?c (le_text x @ SEP @ ?r) = token_spans ?c (le_text x) @ token_spans (?c + length (le_text x)) (SEP @ ?r)"
    by (rule token_spans_append) (simp add: SEP_def sp)
  moreover have "token_spans (?c + length (le_text x)) (SEP @ ?r) = token_spans (?c + length (le_text x) + 2) ?r"
    using sp by (simp add: SEP_def)
  ultimately show ?case using 3(2) [of True "?c + length (le_text x)"] by (simp add: Let_def del: position_from.simps(2)) (simp add: Let_def)
qed (simp_all add: Let_def)

lemma document_spans:
  "token_spans 0 (document_text (position_elements d)) =
     concat (map (\<lambda>p. token_spans (pe_char_start p) (part_text p)) (position_elements d))"
proof -
  have "document_text (position_elements d) = join SEP (map le_text (ld_elements d))"
    by (simp add: document_text_def position_elements_def flip: map_map [of le_text pe_element, unfolded comp_def])
  then show ?thesis using token_spans_document [of False 0 "ld_elements d"] by (simp add: position_elements_def)
qed

lemma position_from_sorted:
  "sorted_wrt (\<lambda>p q. pe_char_end p \<le> pe_char_start q) (position_from later cursor es) \<and>
   list_all (\<lambda>p. cursor \<le> pe_char_start p \<and> pe_char_end p = pe_char_start p + length (part_text p)) (position_from later cursor es)"
proof (induction es arbitrary: later cursor)
  case (Cons e es)
  let ?stop = "(if later then cursor + 2 else cursor) + length (le_text e)"
  from Cons [of True ?stop] have "list_all (\<lambda>p. ?stop \<le> pe_char_start p) (position_from True ?stop es)"
    "list_all (\<lambda>p. cursor \<le> pe_char_start p \<and> pe_char_end p = pe_char_start p + length (part_text p)) (position_from True ?stop es)"
    by (fastforce simp: list_all_iff)+
  then show ?case using Cons [of True ?stop] by (auto simp: Let_def list_all_iff)
qed simp

lemma filter_upward:
  "sorted_wrt (\<lambda>x y. P x \<longrightarrow> P y) xs \<Longrightarrow> filter P xs = dropWhile (\<lambda>x. \<not> P x) xs"
  by (induction xs) auto

lemma filter_downward:
  "sorted_wrt (\<lambda>x y. P y \<longrightarrow> P x) xs \<Longrightarrow> filter P xs = takeWhile P xs"
proof (induction xs)
  case (Cons x xs)
  then show ?case by (cases "P x") (auto simp: filter_empty_conv)
qed simp

text \<open>The elements a window touches are consecutive.\<close>

lemma contributing_contiguous:
  obtains a b where "position_elements d = a @ contributing window (position_elements d) @ b"
proof -
  let ?ps = "position_elements d" and ?lo = "fst (hd window)" and ?hi = "snd (last window)"
  let ?up = "\<lambda>p. ?lo < pe_char_end p" and ?down = "\<lambda>p. pe_char_start p < ?hi"
  have "sorted_wrt (\<lambda>p q. pe_char_end p \<le> pe_char_start q) ?ps"
    "list_all (\<lambda>p. pe_char_end p = pe_char_start p + length (part_text p)) ?ps"
    using position_from_sorted [of False 0 "ld_elements d"] by (auto simp: position_elements_def list_all_iff)
  then have sorted: "sorted_wrt (\<lambda>p q. pe_char_end p \<le> pe_char_end q \<and> pe_char_start p \<le> pe_char_start q) ?ps"
    by (auto simp: list_all_iff elim!: sorted_wrt_mono_rel [rotated])
  have up: "filter ?up ?ps = dropWhile (\<lambda>p. \<not> ?up p) ?ps"
    by (rule filter_upward) (rule sorted_wrt_mono_rel [OF _ sorted], auto)
  have "filter ?down (filter ?up ?ps) = takeWhile ?down (filter ?up ?ps)"
    by (rule filter_downward) (rule sorted_wrt_filter, rule sorted_wrt_mono_rel [OF _ sorted], auto)
  moreover have "contributing window ?ps = filter ?down (filter ?up ?ps)"
    by (simp add: contributing_def Let_def conj_commute)
  ultimately have "?ps = takeWhile (\<lambda>p. \<not> ?up p) ?ps @ contributing window ?ps @ dropWhile ?down (filter ?up ?ps)"
    by (simp add: up)
  then show ?thesis by (rule that)
qed

text \<open>The windows start at the multiples of the step.\<close>

definition window_starts :: "chunk_size_config \<Rightarrow> nat \<Rightarrow> nat list" where
  "window_starts sz n = filter (\<lambda>i. i mod line_step sz = 0) [0..<n]"

lemma line_step_pos [simp]: "0 < line_step sz"
  by (simp add: line_step_def)

lemma window_starts_from:
  assumes "index < n" "index mod line_step sz = 0"
  shows "filter (\<lambda>i. index \<le> i) (window_starts sz n) = index # filter (\<lambda>i. index + line_step sz \<le> i) (window_starts sz n)"
proof -
  have gap: "index + line_step sz \<le> i" if "index < i" "line_step sz dvd i" for i
  proof -
    have "line_step sz dvd (i - index)" using assms(2) that by (simp add: mod_eq_0_iff_dvd dvd_diff_nat)
    then have "line_step sz \<le> i - index" using that(1) by (simp add: dvd_imp_le)
    then show ?thesis using that(1) by simp
  qed
  have "[0..<n] = [0..<index] @ index # [Suc index..<n]"
    using assms(1) by (metis add.left_neutral less_imp_add_positive less_imp_le upt_add_eq_append upt_conv_Cons zero_le)
  then have "window_starts sz n = filter (\<lambda>i. i mod line_step sz = 0) [0..<index] @ index # filter (\<lambda>i. i mod line_step sz = 0) [Suc index..<n]"
    using assms(2) by (simp add: window_starts_def)
  moreover have "filter (\<lambda>i. index \<le> i) (filter (\<lambda>i. i mod line_step sz = 0) [0..<index]) = []"
    "filter (\<lambda>i. index + line_step sz \<le> i) (filter (\<lambda>i. i mod line_step sz = 0) [0..<index]) = []"
    by (auto simp: filter_empty_conv)
  moreover have "filter (\<lambda>i. index \<le> i) (filter (\<lambda>i. i mod line_step sz = 0) [Suc index..<n]) =
      filter (\<lambda>i. index + line_step sz \<le> i) (filter (\<lambda>i. i mod line_step sz = 0) [Suc index..<n])"
    by (rule filter_cong [OF refl]) (use gap in \<open>auto simp: Suc_le_eq\<close>)
  moreover have "\<not> index + line_step sz \<le> index" using line_step_pos [of sz] by simp
  ultimately show ?thesis by simp
qed

lemma line_loop_plan:
  assumes "\<And>i. i < length matches \<Longrightarrow> contributing (window_at sz matches i) positioned \<noteq> []"
    "index mod line_step sz = 0" "build_all 0 plan = Inr out" "ordinal = length plan"
  shows "\<exists>cs. line_loop sz positioned matches index ordinal out = Inr cs \<and>
    build_all 0 (plan @ map (\<lambda>i. contributing (window_at sz matches i) positioned)
      (filter (\<lambda>i. index \<le> i) (window_starts sz (length matches)))) = Inr cs"
  using assms
proof (induction "length matches - index" arbitrary: index ordinal out plan rule: less_induct)
  case less
  show ?case
  proof (cases "index < length matches")
    case False
    then have "filter (\<lambda>i. index \<le> i) (window_starts sz (length matches)) = []"
      by (auto simp: filter_empty_conv window_starts_def)
    then show ?thesis using False less.prems by (simp add: line_loop.simps)
  next
    case True
    let ?g = "contributing (window_at sz matches index) positioned"
    have ne: "?g \<noteq> []" using less.prems(1) True by blast
    obtain c where c: "build_candidate ?g ordinal = Inr c" by (rule build_candidate_total [OF ne])
    have "length matches - (index + line_step sz) < length matches - index"
      by (rule diff_less_mono2) (simp_all add: True)
    moreover have "(index + line_step sz) mod line_step sz = 0" using less.prems(2) by simp
    moreover have "build_all 0 (plan @ [?g]) = Inr (out @ [c])"
      using less.prems(3,4) c by (simp add: build_all_snoc)
    ultimately obtain cs where "line_loop sz positioned matches (index + line_step sz) (ordinal + 1) (out @ [c]) = Inr cs"
      "build_all 0 ((plan @ [?g]) @ map (\<lambda>i. contributing (window_at sz matches i) positioned)
        (filter (\<lambda>i. index + line_step sz \<le> i) (window_starts sz (length matches)))) = Inr cs"
      using less.hyps [of "index + line_step sz" "plan @ [?g]" "out @ [c]" "ordinal + 1"] less.prems(1,4) by auto
    moreover have "line_loop sz positioned matches index ordinal out =
        line_loop sz positioned matches (index + line_step sz) (ordinal + 1) (out @ [c])"
      by (subst line_loop.simps) (simp add: True ne c Let_def)
    ultimately show ?thesis by (simp add: window_starts_from [OF True less.prems(2)])
  qed
qed

lemma window_bounds:
  assumes "sorted_wrt (\<lambda>x y. snd x \<le> fst y) w" "\<And>x. x \<in> set w \<Longrightarrow> fst x < (snd x :: nat)" "x \<in> set w"
  shows "fst (hd w) \<le> fst x" "snd x \<le> snd (last w)"
proof -
  show "fst (hd w) \<le> fst x"
    using assms by (cases w) (auto dest: less_imp_le intro: order_trans)
  obtain u y where w: "w = u @ [y]" using assms(3) by (cases w rule: rev_cases) auto
  show "snd x \<le> snd (last w)"
    using assms(1,3) assms(2) [of y] by (auto simp: w sorted_wrt_append intro: order_trans dest: less_imp_le)
qed

definition document_spans_of :: "ledger_document \<Rightarrow> (nat \<times> nat) list" where
  "document_spans_of d = token_spans 0 (document_text (position_elements d))"

lemma window_at_bounds:
  assumes "x \<in> set (window_at sz (document_spans_of d) i)"
  shows "fst (hd (window_at sz (document_spans_of d) i)) \<le> fst x" "fst x < snd x"
    "snd x \<le> snd (last (window_at sz (document_spans_of d) i))"
proof -
  let ?w = "window_at sz (document_spans_of d) i"
  have sub: "set ?w \<subseteq> set (document_spans_of d)"
    unfolding window_at_def by (meson order_trans set_drop_subset set_take_subset)
  have sorted: "sorted_wrt (\<lambda>x y. snd x \<le> fst y) ?w"
    unfolding window_at_def document_spans_of_def by (intro sorted_wrt_take sorted_wrt_drop token_spans_sorted)
  have pos: "fst y < snd y" if "y \<in> set ?w" for y
    using that sub token_span_bounds [of "fst y" "snd y"] by (auto simp: document_spans_of_def)
  show "fst (hd ?w) \<le> fst x" "fst x < snd x" "snd x \<le> snd (last ?w)"
    using window_bounds [OF sorted pos assms] pos [OF assms] by auto
qed

lemma element_contributes:
  assumes "p \<in> set (position_elements d)" "x \<in> set (token_spans (pe_char_start p) (part_text p))"
    "x \<in> set (window_at sz (document_spans_of d) i)"
  shows "p \<in> set (contributing (window_at sz (document_spans_of d) i) (position_elements d))"
proof -
  have "pe_char_end p = pe_char_start p + length (part_text p)"
    using elements_placed [OF assms(1)] by (simp add: placed_def)
  then have "pe_char_start p \<le> fst x" "snd x \<le> pe_char_end p"
    using token_span_bounds [of "fst x" "snd x" "pe_char_start p" "part_text p"] assms(2) by auto
  then show ?thesis using window_at_bounds [OF assms(3)] assms(1) by (auto simp: contributing_def Let_def)
qed

lemma contributing_nonempty:
  assumes "0 < sz_max_tokens sz" "i < length (document_spans_of d)"
  shows "contributing (window_at sz (document_spans_of d) i) (position_elements d) \<noteq> []"
proof -
  let ?x = "document_spans_of d ! i"
  have "?x \<in> set (document_spans_of d)" using assms(2) by simp
  then obtain p where p: "p \<in> set (position_elements d)" "?x \<in> set (token_spans (pe_char_start p) (part_text p))"
    by (auto simp: document_spans_of_def document_spans)
  have "?x \<in> set (window_at sz (document_spans_of d) i)"
    using assms by (cases "nat (sz_max_tokens sz)") (simp_all add: window_at_def Cons_nth_drop_Suc [symmetric])
  from element_contributes [OF p this] show ?thesis by auto
qed

lemma every_element_contributes:
  assumes "p \<in> set (position_elements d)" "tok t p \<noteq> 0" "0 < sz_max_tokens sz" "0 \<le> sz_overlap_tokens sz"
  obtains i where "i \<in> set (window_starts sz (length (document_spans_of d)))"
    "p \<in> set (contributing (window_at sz (document_spans_of d) i) (position_elements d))"
proof -
  have "token_spans (pe_char_start p) (part_text p) \<noteq> []"
    using assms(2) length_token_spans [of "pe_char_start p" "part_text p"] by (auto simp: token_count_def)
  then obtain x where x: "x \<in> set (token_spans (pe_char_start p) (part_text p))"
    using hd_in_set by blast
  then have "x \<in> set (document_spans_of d)" using assms(1) by (auto simp: document_spans_of_def document_spans)
  then obtain j where j: "j < length (document_spans_of d)" "x = document_spans_of d ! j" by (auto simp: in_set_conv_nth)
  let ?i = "j - j mod line_step sz"
  have "j mod line_step sz < line_step sz" by simp
  moreover have "line_step sz \<le> nat (sz_max_tokens sz)" using assms(3,4) by (simp add: line_step_def)
  ultimately have near: "j mod line_step sz < nat (sz_max_tokens sz)" by (rule less_le_trans)
  have "?i \<in> set (window_starts sz (length (document_spans_of d)))"
    using j(1) by (simp add: window_starts_def minus_mod_eq_mult_div) (metis div_times_less_eq_dividend mult.commute order.strict_trans1)
  moreover have "x \<in> set (window_at sz (document_spans_of d) ?i)"
  proof -
    have "window_at sz (document_spans_of d) ?i ! (j mod line_step sz) = x"
      "j mod line_step sz < length (window_at sz (document_spans_of d) ?i)"
      using near j by (simp_all add: window_at_def)
    then show ?thesis by (metis nth_mem)
  qed
  ultimately show ?thesis using element_contributes [OF assms(1) x] by (intro that) auto
qed

lemma line_based_run:
  fixes d
  assumes "parse_size_config config = Inr sz" "sz_tokenizer_name sz = TOKENIZER_NAME"
  defines "plan \<equiv> map (\<lambda>i. contributing (window_at sz (document_spans_of d) i) (position_elements d))
      (window_starts sz (length (document_spans_of d)))"
  shows "\<exists>cs. line_based_chunks config d = Inr cs \<and> build_all 0 plan = Inr cs" "list_all (sound_parts d) plan"
proof -
  note bounds = parse_size_config_bounds [OF assms(1)]
  have ne: "contributing (window_at sz (document_spans_of d) i) (position_elements d) \<noteq> []"
    if "i < length (document_spans_of d)" for i
    by (rule contributing_nonempty [OF bounds(1) that])
  have resolved: "resolve_tokenizer (sz_tokenizer_name sz) = Inr WhitespaceTokenizer"
    using assms(2) by (simp add: resolve_tokenizer_def)
  show "\<exists>cs. line_based_chunks config d = Inr cs \<and> build_all 0 plan = Inr cs"
  proof (cases "document_spans_of d = []")
    case True
    then show ?thesis
      using assms(1) resolved by (auto simp: line_based_chunks_def plan_def window_starts_def document_spans_of_def Let_def)
  next
    case False
    then have pos: "position_elements d \<noteq> []" by (auto simp: document_spans_of_def document_text_def)
    obtain cs where "line_loop sz (position_elements d) (document_spans_of d) 0 0 [] = Inr cs" "build_all 0 plan = Inr cs"
      using line_loop_plan [of "document_spans_of d" sz "position_elements d" 0 "[]" "[]" 0] ne by (auto simp: plan_def)
    then show ?thesis using assms(1) resolved pos False by (simp add: line_based_chunks_def document_spans_of_def Let_def)
  qed
  have "sound_parts d (contributing w (position_elements d))" if "contributing w (position_elements d) \<noteq> []" for w
    using that by (metis contributing_contiguous sound_parts_contiguous)
  then show "list_all (sound_parts d) plan" using ne by (auto simp: plan_def list_all_iff window_starts_def)
qed

section \<open>The three chunkers keep the contract\<close>

lemma chunks_result:
  assumes "andThen (parse_size_config config) (\<lambda>sz. andThen (resolve_tokenizer (sz_tokenizer_name sz)) (\<lambda>t. f sz t)) = Inr cs"
  obtains sz t where "parse_size_config config = Inr sz" "sz_tokenizer_name sz = TOKENIZER_NAME" "f sz t = Inr cs"
  using assms by (auto simp: andThen_Inr_iff resolve_tokenizer_Inr)

lemma line_based_plan:
  assumes "line_based_chunks config d = Inr cs"
  obtains plan where "build_all 0 plan = Inr cs" "list_all (sound_parts d) plan"
  using assms unfolding line_based_chunks_def
proof (rule chunks_result)
  fix sz t
  assume "parse_size_config config = Inr sz" "sz_tokenizer_name sz = TOKENIZER_NAME"
  from line_based_run [OF this, of d] assms that show ?thesis by auto
qed

lemma hierarchical_plan:
  assumes "hierarchical_chunks config d = Inr cs"
  obtains plan where "build_all 0 plan = Inr cs" "list_all (sound_parts d) plan"
  using assms unfolding hierarchical_chunks_def
proof (rule chunks_result)
  fix sz t
  assume "parse_size_config config = Inr sz" "run_sections (hierarchical_item sz t) d = Inr cs"
  with hierarchical_run [of sz t d] parse_size_config_bounds(1) that show ?thesis by (fastforce split: option.splits)
qed

lemma hybrid_plan:
  assumes "hybrid_chunks config d = Inr cs"
  obtains plan where "build_all 0 plan = Inr cs" "list_all (sound_parts d) plan"
  using assms unfolding hybrid_chunks_def
proof (rule chunks_result)
  fix sz t
  assume *: "parse_size_config config = Inr sz" "run_sections (hybrid_item sz t) d = Inr cs"
  from hybrid_run [of sz t d] parse_size_config_bounds(1,2) [OF *(1)] *(2) obtain plan where
    "build_all 0 (map parts_of plan) = Inr cs" "list_all (\<lambda>c. sound_parts d (parts_of c)) plan"
    by (auto split: option.splits)
  then show ?thesis by (intro that [of "map parts_of plan"]) (simp_all add: list_all_iff)
qed

interpretation line_based: chunker line_based_chunks
  by unfold_locales (erule line_based_plan, erule (1) planned_contract, assumption?)+

interpretation hierarchical: chunker hierarchical_chunks
  by unfold_locales (erule hierarchical_plan, erule (1) planned_contract, assumption?)+

interpretation hybrid: chunker hybrid_chunks
  by unfold_locales (erule hybrid_plan, erule (1) planned_contract, assumption?)+

section \<open>Properties\<close>

definition sample_element :: "string \<Rightarrow> string \<Rightarrow> ledger_element" where
  "sample_element i s =
     \<lparr>le_id = py i, le_kind = Paragraph, le_order = 0, le_text = py s, le_page = None, le_heading_path = [],
      le_parent_id = None, le_confidence = None, le_table_caption = None, le_table_header = None\<rparr>"

definition sample_document :: ledger_document where
  "sample_document = \<lparr>ld_elements = [sample_element ''e1'' ''a b c'', sample_element ''e2'' ''d'', sample_element ''e3'' ''e f''],
     ld_page_count = None, ld_frontmatter = None\<rparr>"

definition sample_config :: dict where
  "sample_config = [(py ''max_tokens'', JInt 2), (py ''overlap_tokens'', JInt 1)]"

definition sample_size :: chunk_size_config where
  "sample_size = \<lparr>sz_tokenizer_name = TOKENIZER_NAME, sz_max_tokens = 2, sz_target_tokens = None, sz_overlap_tokens = 1,
     sz_min_tokens = 0, sz_oversized_element_policy = SplitOversized\<rparr>"

lemma sample_config_parses: "parse_size_config sample_config = Inr sample_size" "sz_tokenizer_name sample_size = TOKENIZER_NAME"
  by (simp_all add: parse_size_config_def config_get_def sample_config_def sample_size_def plain_int_def parse_policy_def
      TOKENIZER_NAME_def)

lemma sample_refuses: "find (refuses sample_size t) ps = None"
  by (simp add: find_None_iff refuses_def sample_size_def)

text \<open>
  The hierarchical chunker divides the document: unless the policy refuses an oversized
  element (then the first one is the error), its chunks, in order, hold every element (an
  oversized one in pieces) exactly once, never cross a heading, and hold at most
  \<open>max_tokens\<close> tokens each.
\<close>

theorem hierarchical_divides:
  assumes "parse_size_config config = Inr sz" "sz_tokenizer_name sz = TOKENIZER_NAME"
  shows "case find (refuses sz WhitespaceTokenizer) (position_elements d) of
      Some p \<Rightarrow> hierarchical_chunks config d =
        Inl (OversizedElement (le_id (pe_element p)) (token_count WhitespaceTokenizer (part_text p)) (sz_max_tokens sz))
    | None \<Rightarrow> \<exists>plan cs. hierarchical_chunks config d = Inr cs \<and> build_all 0 plan = Inr cs \<and>
        concat plan = concat (map (pieces_of sz WhitespaceTokenizer) (position_elements d)) \<and>
        list_all (\<lambda>parts. parts \<noteq> [] \<and> one_heading parts \<and> int (toks WhitespaceTokenizer parts) \<le> sz_max_tokens sz) plan"
proof -
  have "hierarchical_chunks config d = run_sections (hierarchical_item sz WhitespaceTokenizer) d"
    using assms by (simp add: hierarchical_chunks_def resolve_tokenizer_def)
  then show ?thesis
    using hierarchical_run [OF parse_size_config_bounds(1) [OF assms(1)], of WhitespaceTokenizer d]
    by (fastforce split: option.splits)
qed

theorem hierarchical_divides_witness:
  "\<exists>plan cs. hierarchical_chunks sample_config sample_document = Inr cs \<and> build_all 0 plan = Inr cs \<and>
     concat plan = concat (map (pieces_of sample_size WhitespaceTokenizer) (position_elements sample_document)) \<and>
     list_all (\<lambda>parts. parts \<noteq> [] \<and> one_heading parts \<and> int (toks WhitespaceTokenizer parts) \<le> 2) plan"
  using hierarchical_divides [OF sample_config_parses, of sample_document] by (simp add: sample_refuses) (simp add: sample_size_def)

text \<open>
  The hybrid chunker divides it as well, and repeats at the start of a chunk only whole
  parts from the end of the chunk before, of at most \<open>overlap_tokens\<close> tokens; a chunk exceeds
  \<open>max_tokens\<close> only when a single fresh part follows its overlap.
\<close>

theorem hybrid_divides:
  assumes "parse_size_config config = Inr sz" "sz_tokenizer_name sz = TOKENIZER_NAME"
  shows "case find (refuses sz WhitespaceTokenizer) (position_elements d) of
      Some p \<Rightarrow> hybrid_chunks config d =
        Inl (OversizedElement (le_id (pe_element p)) (token_count WhitespaceTokenizer (part_text p)) (sz_max_tokens sz))
    | None \<Rightarrow> \<exists>plan cs. hybrid_chunks config d = Inr cs \<and> build_all 0 (map parts_of plan) = Inr cs \<and>
        concat (map snd plan) = concat (map (pieces_of sz WhitespaceTokenizer) (position_elements d)) \<and>
        list_all (planned_ok sz WhitespaceTokenizer) plan \<and> overlaps_linked plan"
proof -
  have "hybrid_chunks config d = run_sections (hybrid_item sz WhitespaceTokenizer) d"
    using assms by (simp add: hybrid_chunks_def resolve_tokenizer_def)
  then show ?thesis
    using hybrid_run [OF parse_size_config_bounds(1,2) [OF assms(1)], of WhitespaceTokenizer d]
    by (fastforce split: option.splits)
qed

theorem hybrid_divides_witness:
  "\<exists>plan cs. hybrid_chunks sample_config sample_document = Inr cs \<and> build_all 0 (map parts_of plan) = Inr cs \<and>
     concat (map snd plan) = concat (map (pieces_of sample_size WhitespaceTokenizer) (position_elements sample_document)) \<and>
     list_all (planned_ok sample_size WhitespaceTokenizer) plan \<and> overlaps_linked plan"
  using hybrid_divides [OF sample_config_parses, of sample_document] by (simp add: sample_refuses)

text \<open>
  Splitting an oversized element loses no word and cuts none: the pieces hold the words of
  the element in order, at most \<open>max_tokens\<close> each, and the offsets of every piece cut exactly
  its text out of the document, as those of the element did.
\<close>

theorem split_oversized_exact:
  assumes "0 < max_tokens" "placed whole p"
  shows "\<exists>pieces. split_oversized p max_tokens t = Inr pieces \<and> pieces \<noteq> [] \<and>
    concat (map (tokens \<circ> part_text) pieces) = tokens (part_text p) \<and>
    list_all (\<lambda>q. int (token_count t (part_text q)) \<le> max_tokens \<and> placed whole q \<and>
      pe_element q = (pe_element p)\<lparr>le_text := part_text q\<rparr>) pieces"
  by (rule split_oversized_spec [OF assms(1), of p t]) (use assms(2) in \<open>auto simp: list_all_iff\<close>)

theorem split_oversized_exact_witness:
  "\<exists>pieces. split_oversized (hd (position_elements sample_document)) 2 WhitespaceTokenizer = Inr pieces \<and> pieces \<noteq> [] \<and>
    concat (map (tokens \<circ> part_text) pieces) = tokens (py ''a b c'')"
proof -
  let ?p = "hd (position_elements sample_document)"
  have p: "?p \<in> set (position_elements sample_document)" "part_text ?p = py ''a b c''"
    by (simp_all add: sample_document_def position_elements_def sample_element_def Let_def)
  show ?thesis using split_oversized_exact [OF _ elements_placed [OF p(1)], of 2 WhitespaceTokenizer] p(2) by auto
qed

text \<open>
  C40. The line-based chunker never fails on an accepted configuration and loses nothing: its
  chunks are, for the token windows at the multiples of \<open>max_tokens - overlap_tokens\<close>, the
  elements the window touches, and every element with a token is in one of them.
\<close>

theorem line_based_covers:
  assumes "parse_size_config config = Inr sz" "sz_tokenizer_name sz = TOKENIZER_NAME"
  shows "\<exists>plan cs. line_based_chunks config d = Inr cs \<and> build_all 0 plan = Inr cs \<and>
    plan = map (\<lambda>i. contributing (window_at sz (document_spans_of d) i) (position_elements d))
      (window_starts sz (length (document_spans_of d))) \<and>
    list_all (\<lambda>p. token_count WhitespaceTokenizer (part_text p) = 0 \<or> list_ex (\<lambda>parts. p \<in> set parts) plan) (position_elements d)"
proof -
  have "\<exists>i \<in> set (window_starts sz (length (document_spans_of d))).
      p \<in> set (contributing (window_at sz (document_spans_of d) i) (position_elements d))"
    if "p \<in> set (position_elements d)" "token_count WhitespaceTokenizer (part_text p) \<noteq> 0" for p
    using every_element_contributes [OF that parse_size_config_bounds(1,2) [OF assms(1)]] by metis
  then show ?thesis using line_based_run(1) [OF assms, of d] by (fastforce simp: list_all_iff list_ex_iff)
qed

theorem line_based_covers_witness:
  "\<exists>plan cs. line_based_chunks sample_config sample_document = Inr cs \<and> build_all 0 plan = Inr cs \<and>
    list_all (\<lambda>p. token_count WhitespaceTokenizer (part_text p) = 0 \<or> list_ex (\<lambda>parts. p \<in> set parts) plan)
      (position_elements sample_document)"
  using line_based_covers [OF sample_config_parses, of sample_document] by blast

text \<open>
  Whichever chunker is configured, what remains after dropping the empty candidates is
  sound: no candidate is lost uncounted, no two have the same locator, and each refers to
  elements of the document and has offsets that cut its text, less a repeated table header,
  out of the document.
\<close>

theorem kept_chunks_sound:
  assumes "iterate_chunks k config d = Inr cs" "drop_empty_candidates cs = (kept, dropped)"
  shows "length kept + dropped = length cs \<and> distinct (map cc_locator kept) \<and>
    list_all (\<lambda>c. strip (cc_raw_text c) \<noteq> [] \<and> located (document_text (position_elements d)) c \<and>
      cc_element_refs c \<noteq> [] \<and> set (cc_element_refs c) \<subseteq> set (map le_id (ld_elements d))) kept"
  using assms line_based.kept_chunks hierarchical.kept_chunks hybrid.kept_chunks by (cases k) simp_all

theorem kept_chunks_sound_witness:
  "\<exists>cs kept dropped. iterate_chunks HybridChunker sample_config sample_document = Inr cs \<and>
    drop_empty_candidates cs = (kept, dropped) \<and> length kept + dropped = length cs \<and> distinct (map cc_locator kept)"
proof -
  have "case find (refuses sample_size WhitespaceTokenizer) (position_elements sample_document) of Some p \<Rightarrow> True
    | None \<Rightarrow> \<exists>cs. hybrid_chunks sample_config sample_document = Inr cs"
    using hybrid_run [OF parse_size_config_bounds(1,2) [OF sample_config_parses(1)], of WhitespaceTokenizer sample_document]
      sample_config_parses by (auto simp: hybrid_chunks_def resolve_tokenizer_def split: option.splits)
  then obtain cs where "iterate_chunks HybridChunker sample_config sample_document = Inr cs"
    by (auto simp: sample_refuses)
  moreover obtain kept dropped where "drop_empty_candidates cs = (kept, dropped)" by fastforce
  ultimately show ?thesis using kept_chunks_sound by blast
qed

text \<open>A declared template of known placeholders always renders.\<close>

lemma contextualize_total:
  assumes "parse_size_config config = Inr sz" "sz_tokenizer_name sz = TOKENIZER_NAME"
    "map_of config TEMPLATE_CONFIG_KEY = Some (JStr template)" "validate_contextualization_template (JStr template) = Inr ()"
  shows "\<exists>cx. contextualize c config = Inr cx \<and> cx_candidate cx = c \<and>
    cx_token_count cx = token_count WhitespaceTokenizer (cx_contextualized_text cx)"
  using assms render_total [OF assms(4), of c]
  by (auto simp: contextualize_def contextualize_candidate_def resolve_tokenizer_def)

text \<open>
  The limit the hybrid chunker can miss, and the one the line-based chunker does miss: it emits
  the whole elements its window touches, so a long element comes out once per window, each time
  in full.
\<close>

definition long_document :: ledger_document where
  "long_document = \<lparr>ld_elements = [sample_element ''e1'' ''a b c''], ld_page_count = None, ld_frontmatter = None\<rparr>"

lemma long_document_spans: "document_spans_of long_document = [(0, 1), (2, 3), (4, 5)]"
  by (simp add: document_spans_of_def long_document_def position_elements_def document_text_def sample_element_def py_def
      is_space_def Let_def token_spans.simps)

lemma line_based_exceeds_limit:
  "\<exists>c1 c2 c3. line_based_chunks sample_config long_document = Inr [c1, c2, c3] \<and>
     map cc_raw_text [c1, c2, c3] = replicate 3 (py ''a b c'') \<and> token_count WhitespaceTokenizer (py ''a b c'') = 3"
proof -
  obtain p where pos: "position_elements long_document = [p]" "part_text p = py ''a b c''" "pe_char_start p = 0" "pe_char_end p = 5"
    and hdr: "repeated_header (pe_element p) = []"
    by (simp add: long_document_def position_elements_def sample_element_def py_def repeated_header_def Let_def)
  have "window_starts sample_size 3 = [0, 1, 2]"
    by (simp add: window_starts_def line_step_def sample_size_def upt_rec)
  moreover have "contributing (window_at sample_size [(0, 1), (2, 3), (4, 5)] i) [p] = [p]" if "i \<in> {0, 1, 2}" for i
    using that pos by (auto simp: contributing_def window_at_def sample_size_def numeral_2_eq_2)
  ultimately obtain cs where cs: "line_based_chunks sample_config long_document = Inr cs" "build_all 0 [[p], [p], [p]] = Inr cs"
    using line_based_run(1) [OF sample_config_parses, of long_document] pos(1) by (auto simp: long_document_spans numeral_3_eq_3)
  have raw: "cc_raw_text (cs ! i) = py ''a b c''" if "i < 3" for i
  proof -
    have "build_candidate [p] i = Inr (cs ! i)"
      using build_all_nth(2) [OF cs(2), of i] that by (auto simp: less_Suc_eq numeral_3_eq_3)
    moreover obtain c where "build_candidate [p] i = Inr c" "cc_raw_text c = py ''a b c''"
      by (rule build_candidate_total [of "[p]" i]) (simp_all add: pos(2) hdr)
    ultimately show ?thesis by simp
  qed
  have "length cs = 3" using build_all_nth(1) [OF cs(2)] by simp
  then obtain c1 c2 c3 where "cs = [c1, c2, c3]" by (auto simp: length_Suc_conv numeral_3_eq_3)
  moreover have "token_count WhitespaceTokenizer (py ''a b c'') = 3"
    using arg_cong [OF long_document_spans, of length]
    by (simp add: token_count_def document_spans_of_def document_text_def pos(1)) (simp add: pos(2))
  ultimately show ?thesis using cs(1) raw [of 0] raw [of 1] raw [of 2] by (auto simp: numeral_3_eq_3)
qed

end
