(* ===== verification/Stage_Cache.thy ===== *)
theory Stage_Cache
  imports Manifest Chunkers
begin

text \<open>
  \<open>ragledger.pipeline.cache\<close>, the stage cache of the build, and the JSON forms that travel
  through it: the \<open>ParseOutcome\<close> of \<open>ragledger.pipeline.parsers.base\<close> and the chunk candidates of
  \<open>ragledger.pipeline.build\<close>. A dumped value is validated back field by field, as the pydantic
  models do (whose coercions between scalar types, and whose length and range constraints, no
  dumped value meets); the lemmas show that dumping and validating are inverse.
\<close>

section \<open>Parse outcomes\<close>

record parse_outcome =
  po_status :: parse_status
  po_document :: "ledger_document option"
  po_warnings :: "warning_record list"
  po_errors :: "pystr list"
  po_ocr :: "ocr_info option"
  po_consumed_input_hash :: pystr
  po_duration_seconds :: float64

primrec element_kind_value :: "element_kind \<Rightarrow> pystr" where
  "element_kind_value Title = py ''title''"
| "element_kind_value Heading = py ''heading''"
| "element_kind_value Paragraph = py ''paragraph''"
| "element_kind_value ListItem = py ''list_item''"
| "element_kind_value Table = py ''table''"
| "element_kind_value Caption = py ''caption''"
| "element_kind_value CodeBlock = py ''code''"
| "element_kind_value Formula = py ''formula''"
| "element_kind_value ImageReference = py ''image_reference''"
| "element_kind_value PageHeader = py ''page_header''"
| "element_kind_value PageFooter = py ''page_footer''"
| "element_kind_value Footnote = py ''footnote''"
| "element_kind_value UnknownElement = py ''unknown''"

text \<open>\<open>model_dump(mode="json", exclude_none=True)\<close>.\<close>

definition dump_element :: "ledger_element \<Rightarrow> json" where
  "dump_element e = JObj
     ([(py ''id'', JStr (le_id e)), (py ''kind'', JStr (element_kind_value (le_kind e))), (py ''order'', jnat (le_order e)),
       (py ''text'', JStr (le_text e))]
      @ opt_member ''page'' jnat (le_page e) @ [(py ''heading_path'', jstrs (le_heading_path e))]
      @ opt_member ''parent_id'' JStr (le_parent_id e) @ opt_member ''confidence'' JFloat (le_confidence e)
      @ opt_member ''table_caption'' JStr (le_table_caption e) @ opt_member ''table_header'' JStr (le_table_header e))"

definition dump_document :: "ledger_document \<Rightarrow> json" where
  "dump_document d = JObj
     ([(py ''elements'', JList (map dump_element (ld_elements d)))] @ opt_member ''page_count'' jnat (ld_page_count d)
      @ opt_member ''frontmatter'' JObj (ld_frontmatter d))"

definition dump_outcome :: "parse_outcome \<Rightarrow> json" where
  "dump_outcome r = JObj
     ([(py ''status'', JStr (parse_status_value (po_status r)))] @ opt_member ''document'' dump_document (po_document r)
      @ [(py ''warnings'', JList (map dump_warning (po_warnings r))), (py ''errors'', jstrs (po_errors r))]
      @ opt_member ''ocr'' dump_ocr (po_ocr r)
      @ [(py ''consumed_input_hash'', JStr (po_consumed_input_hash r)), (py ''duration_seconds'', JFloat (po_duration_seconds r))])"

section \<open>Validation\<close>

text \<open>\<open>None\<close> is a \<open>ValidationError\<close>. A missing or null optional field is \<open>None\<close>.\<close>

definition as_str :: "json \<Rightarrow> pystr option" where
  "as_str v = (case v of JStr s \<Rightarrow> Some s | _ \<Rightarrow> None)"

definition as_nat :: "json \<Rightarrow> nat option" where
  "as_nat v = (case v of JInt n \<Rightarrow> if n < 0 then None else Some (nat n) | _ \<Rightarrow> None)"

definition as_float :: "json \<Rightarrow> float64 option" where
  "as_float v = (case v of JFloat x \<Rightarrow> Some x | JInt n \<Rightarrow> Some (fl (of_int n)) | _ \<Rightarrow> None)"

definition as_bool :: "json \<Rightarrow> bool option" where
  "as_bool v = (case v of JBool b \<Rightarrow> Some b | _ \<Rightarrow> None)"

definition as_obj :: "json \<Rightarrow> dict option" where
  "as_obj v = (case v of JObj d \<Rightarrow> Some d | _ \<Rightarrow> None)"

fun all_some :: "'a option list \<Rightarrow> 'a list option" where
  "all_some [] = Some []"
| "all_some (None # xs) = None"
| "all_some (Some x # xs) = map_option (Cons x) (all_some xs)"

definition as_list :: "(json \<Rightarrow> 'a option) \<Rightarrow> json \<Rightarrow> 'a list option" where
  "as_list rd v = (case v of JList vs \<Rightarrow> all_some (map rd vs) | _ \<Rightarrow> None)"

definition required :: "(json \<Rightarrow> 'a option) \<Rightarrow> dict \<Rightarrow> string \<Rightarrow> 'a option" where
  "required rd d k = Option.bind (map_of d (py k)) rd"

definition read_opt :: "(json \<Rightarrow> 'a option) \<Rightarrow> json option \<Rightarrow> 'a option option" where
  "read_opt rd r = (case r of None \<Rightarrow> Some None | Some JNull \<Rightarrow> Some None | Some v \<Rightarrow> map_option Some (rd v))"

definition optional :: "(json \<Rightarrow> 'a option) \<Rightarrow> dict \<Rightarrow> string \<Rightarrow> 'a option option" where
  "optional rd d k = read_opt rd (map_of d (py k))"

text \<open>A list field with \<open>default_factory=list\<close>; \<open>extra="forbid"\<close>.\<close>

definition defaulted :: "(json \<Rightarrow> 'a option) \<Rightarrow> dict \<Rightarrow> string \<Rightarrow> 'a list option" where
  "defaulted rd d k = (case map_of d (py k) of None \<Rightarrow> Some [] | Some v \<Rightarrow> as_list rd v)"

definition only_keys :: "string list \<Rightarrow> dict \<Rightarrow> bool" where
  "only_keys ks d \<longleftrightarrow> fst ` set d \<subseteq> set (map py ks)"

definition all_kinds :: "element_kind list" where
  "all_kinds = [Title, Heading, Paragraph, ListItem, Table, Caption, CodeBlock, Formula, ImageReference, PageHeader, PageFooter,
     Footnote, UnknownElement]"

definition as_kind :: "json \<Rightarrow> element_kind option" where
  "as_kind v = Option.bind (as_str v) (\<lambda>s. find (\<lambda>k. element_kind_value k = s) all_kinds)"

definition as_status :: "json \<Rightarrow> parse_status option" where
  "as_status v = Option.bind (as_str v) (\<lambda>s. find (\<lambda>k. parse_status_value k = s) [ParseSuccess, ParsePartial, ParseFail])"

definition validate_element :: "json \<Rightarrow> ledger_element option" where
  "validate_element v =
     Option.bind (as_obj v) (\<lambda>d.
       if only_keys [''id'', ''kind'', ''order'', ''text'', ''page'', ''heading_path'', ''parent_id'', ''confidence'',
                     ''table_caption'', ''table_header''] d
       then Option.bind (required as_str d ''id'') (\<lambda>i.
         Option.bind (required as_kind d ''kind'') (\<lambda>k.
         Option.bind (required as_nat d ''order'') (\<lambda>n.
         Option.bind (required as_str d ''text'') (\<lambda>s.
         Option.bind (optional as_nat d ''page'') (\<lambda>p.
         Option.bind (defaulted as_str d ''heading_path'') (\<lambda>h.
         Option.bind (optional as_str d ''parent_id'') (\<lambda>par.
         Option.bind (optional as_float d ''confidence'') (\<lambda>c.
         Option.bind (optional as_str d ''table_caption'') (\<lambda>tc.
         Option.bind (optional as_str d ''table_header'') (\<lambda>th.
           Some \<lparr>le_id = i, le_kind = k, le_order = n, le_text = s, le_page = p, le_heading_path = h, le_parent_id = par,
                 le_confidence = c, le_table_caption = tc, le_table_header = th\<rparr>))))))))))
       else None)"

definition validate_document :: "json \<Rightarrow> ledger_document option" where
  "validate_document v =
     Option.bind (as_obj v) (\<lambda>d.
       if only_keys [''elements'', ''page_count'', ''frontmatter''] d
       then Option.bind (defaulted validate_element d ''elements'') (\<lambda>es.
         Option.bind (optional as_nat d ''page_count'') (\<lambda>n.
         Option.bind (optional as_obj d ''frontmatter'') (\<lambda>f.
           Some \<lparr>ld_elements = es, ld_page_count = n, ld_frontmatter = f\<rparr>)))
       else None)"

definition validate_warning :: "json \<Rightarrow> warning_record option" where
  "validate_warning v =
     Option.bind (as_obj v) (\<lambda>d.
       if only_keys [''code'', ''message'', ''context''] d
       then Option.bind (required as_str d ''code'') (\<lambda>c.
         Option.bind (optional as_str d ''message'') (\<lambda>m.
         Option.bind (optional as_obj d ''context'') (\<lambda>x. Some \<lparr>wr_code = c, wr_message = m, wr_context = x\<rparr>)))
       else None)"

definition validate_ocr :: "json \<Rightarrow> ocr_info option" where
  "validate_ocr v =
     Option.bind (as_obj v) (\<lambda>d.
       if only_keys [''enabled'', ''engine'', ''model'', ''languages''] d
       then Option.bind (required as_bool d ''enabled'') (\<lambda>b.
         Option.bind (optional as_str d ''engine'') (\<lambda>e.
         Option.bind (optional as_str d ''model'') (\<lambda>m.
         Option.bind (optional (as_list as_str) d ''languages'') (\<lambda>l.
           Some \<lparr>ocr_enabled = b, ocr_engine = e, ocr_model = m, ocr_languages = l\<rparr>))))
       else None)"

definition validate_outcome :: "json \<Rightarrow> parse_outcome option" where
  "validate_outcome v =
     Option.bind (as_obj v) (\<lambda>d.
       if only_keys [''status'', ''document'', ''warnings'', ''errors'', ''ocr'', ''consumed_input_hash'', ''duration_seconds''] d
       then Option.bind (required as_status d ''status'') (\<lambda>s.
         Option.bind (optional validate_document d ''document'') (\<lambda>doc.
         Option.bind (defaulted validate_warning d ''warnings'') (\<lambda>w.
         Option.bind (defaulted as_str d ''errors'') (\<lambda>e.
         Option.bind (optional validate_ocr d ''ocr'') (\<lambda>ocr.
         Option.bind (required as_str d ''consumed_input_hash'') (\<lambda>h.
         Option.bind (required as_float d ''duration_seconds'') (\<lambda>x.
           Some \<lparr>po_status = s, po_document = doc, po_warnings = w, po_errors = e, po_ocr = ocr,
                 po_consumed_input_hash = h, po_duration_seconds = x\<rparr>)))))))
       else None)"

section \<open>Dumping and validating are inverse\<close>

lemma map_of_opt_member [simp]:
  "map_of (opt_member k f v @ d) q = (if q = py k then (case v of None \<Rightarrow> map_of d q | Some x \<Rightarrow> Some (f x)) else map_of d q)"
  "map_of (opt_member k f v) q = (if q = py k then map_option f v else None)"
  by (auto simp: opt_member_def split: option.splits)

lemma keys_opt_member [simp]: "fst ` set (opt_member k f v) \<subseteq> S \<longleftrightarrow> v = None \<or> py k \<in> S"
  by (cases v) (simp_all add: opt_member_def)

lemma case_hit [simp]: "(case v of None \<Rightarrow> None | Some x \<Rightarrow> Some (f x)) = map_option f v"
  by (cases v) auto

lemma all_some_map: "(\<And>x. x \<in> set xs \<Longrightarrow> g (f x) = Some x) \<Longrightarrow> all_some (map (g \<circ> f) xs) = Some xs"
  by (induction xs) auto

lemma as_simps [simp]:
  "as_str (JStr s) = Some s" "as_nat (jnat n) = Some n" "as_float (JFloat x) = Some x" "as_bool (JBool b) = Some b"
  "as_obj (JObj d) = Some d" "as_list as_str (jstrs xs) = Some xs" "as_kind (JStr (element_kind_value k)) = Some k"
  "as_status (JStr (parse_status_value st)) = Some st"
proof -
  show "as_list as_str (jstrs xs) = Some xs"
    using all_some_map [of xs as_str JStr] by (simp add: as_list_def jstrs_def as_str_def comp_def)
  show "as_kind (JStr (element_kind_value k)) = Some k"
    by (cases k) (simp_all add: as_kind_def as_str_def all_kinds_def)
  show "as_status (JStr (parse_status_value st)) = Some st"
    by (cases st) (simp_all add: as_status_def as_str_def)
qed (simp_all add: as_str_def as_nat_def jnat_def as_float_def as_bool_def as_obj_def)

lemma read_opt_map:
  "(\<And>x. f x \<noteq> JNull) \<Longrightarrow> (\<And>x. v = Some x \<Longrightarrow> rd (f x) = Some x) \<Longrightarrow> read_opt rd (map_option f v) = Some v"
  by (cases v) (auto simp: read_opt_def split: json.splits)

lemma dumped_not_null [simp]:
  "jnat n \<noteq> JNull" "jstrs xs \<noteq> JNull" "dump_document d \<noteq> JNull" "dump_ocr r \<noteq> JNull"
  by (simp_all add: jnat_def jstrs_def dump_document_def dump_ocr_def)

lemma as_list_map: "(\<And>x. x \<in> set xs \<Longrightarrow> rd (f x) = Some x) \<Longrightarrow> as_list rd (JList (map f xs)) = Some xs"
  using all_some_map [of xs rd f] by (simp add: as_list_def comp_def)

lemma read_opt_simps [simp]:
  "read_opt as_str (map_option JStr v) = Some v" "read_opt as_nat (map_option jnat n) = Some n"
  "read_opt as_float (map_option JFloat x) = Some x" "read_opt as_obj (map_option JObj d) = Some d"
  "read_opt (as_list as_str) (map_option jstrs xs) = Some xs"
  by (rule read_opt_map; simp)+

lemmas validation_simps = required_def optional_def defaulted_def only_keys_def image_Un

declare map_of_append [simp del]

lemma validate_dump_element [simp]: "validate_element (dump_element e) = Some e"
  by (simp add: validate_element_def dump_element_def validation_simps cong: option.case_cong)

lemma validate_dump_document [simp]: "validate_document (dump_document d) = Some d"
  by (simp add: validate_document_def dump_document_def validation_simps as_list_map cong: option.case_cong)

lemma validate_dump_warning [simp]: "validate_warning (dump_warning w) = Some w"
  by (simp add: validate_warning_def dump_warning_def validation_simps cong: option.case_cong)

lemma validate_dump_ocr [simp]: "validate_ocr (dump_ocr r) = Some r"
  by (simp add: validate_ocr_def dump_ocr_def validation_simps cong: option.case_cong)

lemma read_opt_dumped [simp]:
  "read_opt validate_document (map_option dump_document d) = Some d" "read_opt validate_ocr (map_option dump_ocr r) = Some r"
  by (rule read_opt_map; simp)+

lemma validate_dump_outcome [simp]: "validate_outcome (dump_outcome r) = Some r"
  by (simp add: validate_outcome_def dump_outcome_def validation_simps as_list_map cong: option.case_cong)

section \<open>Chunk candidates\<close>

definition dump_opt_str :: "pystr option \<Rightarrow> json" where
  "dump_opt_str v = (case v of None \<Rightarrow> JNull | Some s \<Rightarrow> JStr s)"

definition serialize_candidate :: "chunk_candidate \<Rightarrow> json" where
  "serialize_candidate c = JObj
     [(py ''element_refs'', jstrs (cc_element_refs c)), (py ''raw_text'', JStr (cc_raw_text c)),
      (py ''locator'', dump_locator (cc_locator c)), (py ''heading_path'', jstrs (cc_heading_path c)),
      (py ''table_caption'', dump_opt_str (cc_table_caption c))]"

definition validate_locator :: "json \<Rightarrow> structural_locator option" where
  "validate_locator v =
     Option.bind (as_obj v) (\<lambda>d.
       if only_keys [''kind'', ''page_start'', ''page_end'', ''heading_path'', ''element_ids'', ''character_start'',
                     ''character_end'', ''ordinal''] d
       then Option.bind (required as_str d ''kind'') (\<lambda>k.
         Option.bind (optional as_nat d ''page_start'') (\<lambda>ps.
         Option.bind (optional as_nat d ''page_end'') (\<lambda>pe.
         Option.bind (optional (as_list as_str) d ''heading_path'') (\<lambda>h.
         Option.bind (optional (as_list as_str) d ''element_ids'') (\<lambda>ids.
         Option.bind (optional as_nat d ''character_start'') (\<lambda>cs.
         Option.bind (optional as_nat d ''character_end'') (\<lambda>ce.
         Option.bind (required as_nat d ''ordinal'') (\<lambda>n.
           Some \<lparr>loc_kind = k, loc_page_start = ps, loc_page_end = pe, loc_heading_path = h, loc_element_ids = ids,
                 loc_character_start = cs, loc_character_end = ce, loc_ordinal = n\<rparr>))))))))
       else None)"

text \<open>\<open>_deserialize_candidate\<close>: only the locator is validated; the other fields are subscripted.\<close>

definition deserialize_candidate :: "json \<Rightarrow> chunk_candidate option" where
  "deserialize_candidate v =
     Option.bind (as_obj v) (\<lambda>d.
       Option.bind (required (as_list as_str) d ''element_refs'') (\<lambda>refs.
       Option.bind (required as_str d ''raw_text'') (\<lambda>s.
       Option.bind (required validate_locator d ''locator'') (\<lambda>l.
       Option.bind (required (as_list as_str) d ''heading_path'') (\<lambda>h.
       Option.bind (required (\<lambda>j. case j of JNull \<Rightarrow> Some None | _ \<Rightarrow> map_option Some (as_str j)) d ''table_caption'') (\<lambda>tc.
         Some \<lparr>cc_element_refs = refs, cc_raw_text = s, cc_locator = l, cc_heading_path = h, cc_table_caption = tc\<rparr>))))))"

lemma validate_dump_locator [simp]: "validate_locator (dump_locator l) = Some l"
  by (simp add: validate_locator_def dump_locator_def validation_simps cong: option.case_cong)

lemma deserialize_serialize [simp]: "deserialize_candidate (serialize_candidate c) = Some c"
  by (cases "cc_table_caption c")
    (simp_all add: deserialize_candidate_def serialize_candidate_def required_def dump_opt_str_def)

text \<open>What the chunk stage stores: the kept candidates and the number dropped.\<close>

definition dump_chunking :: "chunk_candidate list \<times> nat \<Rightarrow> json" where
  "dump_chunking r = JObj [(py ''candidates'', JList (map serialize_candidate (fst r))), (py ''dropped_empty'', jnat (snd r))]"

definition load_chunking :: "json \<Rightarrow> (chunk_candidate list \<times> nat) option" where
  "load_chunking v =
     Option.bind (as_obj v) (\<lambda>d.
       Option.bind (required (as_list deserialize_candidate) d ''candidates'') (\<lambda>cs.
       Option.bind (required as_nat d ''dropped_empty'') (\<lambda>n. Some (cs, n))))"

lemma load_dump_chunking [simp]: "load_chunking (dump_chunking r) = Some r"
  by (simp add: load_chunking_def dump_chunking_def required_def as_list_map)

section \<open>The cache\<close>

text \<open>The files of the cache directory by key; a failed decode of a file is an exception.\<close>

type_synonym stage_files = "pystr \<Rightarrow> bytes option"

record stage_cache =
  ch_files :: stage_files
  ch_hits :: nat
  ch_misses :: nat

definition stage_cache_key :: "platform \<Rightarrow> string \<Rightarrow> pystr \<Rightarrow> pystr \<Rightarrow> pystr \<Rightarrow> pystr \<Rightarrow> pystr" where
  "stage_cache_key L stage input_hash adapter_name adapter_version config_hash =
     hash_canonical L (JObj [(py ''stage'', JStr (py stage)), (py ''input_hash'', JStr input_hash),
       (py ''adapter_name'', JStr adapter_name), (py ''adapter_version'', JStr adapter_version),
       (py ''config_hash'', JStr config_hash)])"

datatype cache_error = JsonDecodeError

definition cache_get :: "pystr \<Rightarrow> stage_cache \<Rightarrow> (cache_error + json option) \<times> stage_cache" where
  "cache_get key c =
     (case ch_files c key of
        None \<Rightarrow> (Inr None, c\<lparr>ch_misses := ch_misses c + 1\<rparr>)
      | Some data \<Rightarrow>
          ((case loads data of None \<Rightarrow> Inl JsonDecodeError | Some v \<Rightarrow> Inr (Some v)), c\<lparr>ch_hits := ch_hits c + 1\<rparr>))"

definition cache_file :: "json \<Rightarrow> bytes" where
  "cache_file v = utf8_encode (dumps_spaced v)"

definition cache_put :: "pystr \<Rightarrow> json \<Rightarrow> stage_cache \<Rightarrow> stage_cache" where
  "cache_put key v c = c\<lparr>ch_files := (ch_files c)(key \<mapsto> cache_file v)\<rparr>"

definition cache_contains :: "pystr \<Rightarrow> stage_cache \<Rightarrow> bool" where
  "cache_contains key c \<longleftrightarrow> ch_files c key \<noteq> None"

text \<open>
  The results of a run: keys with the value the run stores there, or \<open>None\<close> when it computes
  nothing to store. A cache agrees with them when it holds nothing else under these keys; they
  are consistent when no key has two results, and every value survives the file.
\<close>

type_synonym stage_results = "(pystr \<times> json option) set"

definition entry_agrees :: "stage_cache \<Rightarrow> pystr \<times> json option \<Rightarrow> bool" where
  "entry_agrees c e \<longleftrightarrow> ch_files c (fst e) = None \<or> (\<exists>v. snd e = Some v \<and> ch_files c (fst e) = Some (cache_file v))"

definition agrees :: "stage_results \<Rightarrow> stage_cache \<Rightarrow> bool" where
  "agrees T c \<longleftrightarrow> (\<forall>e\<in>T. entry_agrees c e)"

definition consistent_results :: "stage_results \<Rightarrow> bool" where
  "consistent_results T \<longleftrightarrow> (\<forall>e\<in>T. (\<forall>e'\<in>T. fst e = fst e' \<longrightarrow> e = e') \<and> (\<forall>v. snd e = Some v \<longrightarrow> storable v))"

lemma cache_get_agrees:
  assumes "agrees T c" "(k, r) \<in> T" "consistent_results T"
  shows "(fst (cache_get k c) = Inr None \<or> (\<exists>v. r = Some v \<and> fst (cache_get k c) = Inr (Some v))) \<and> agrees T (snd (cache_get k c))"
proof -
  have e: "entry_agrees c (k, r)" using assms(1,2) by (auto simp: agrees_def)
  have "storable v" if "r = Some v" for v using assms(2,3) that by (auto simp: consistent_results_def)
  then have "fst (cache_get k c) = Inr None \<or> (\<exists>v. r = Some v \<and> fst (cache_get k c) = Inr (Some v))"
    using e loads_dumps [of _ True] by (auto simp: entry_agrees_def cache_get_def cache_file_def split: option.splits)
  moreover have "agrees T (snd (cache_get k c))"
    using assms(1) by (auto simp: agrees_def entry_agrees_def cache_get_def split: option.splits)
  ultimately show ?thesis by blast
qed

lemma cache_put_agrees:
  assumes "agrees T c" "consistent_results T" "(k, Some v) \<in> T"
  shows "agrees T (cache_put k v c)"
  unfolding agrees_def
proof
  fix e assume e: "e \<in> T"
  show "entry_agrees (cache_put k v c) e"
  proof (cases "fst e = k")
    case True
    then have "e = (k, Some v)" using assms(2,3) e by (fastforce simp: consistent_results_def)
    then show ?thesis by (simp add: entry_agrees_def cache_put_def)
  next
    case False
    then show ?thesis using assms(1) e by (auto simp: agrees_def entry_agrees_def cache_put_def)
  qed
qed

lemma cache_put_get: "storable v \<Longrightarrow> fst (cache_get k (cache_put k v c)) = Inr (Some v)"
  by (simp add: cache_get_def cache_put_def cache_file_def loads_dumps)

lemma agrees_empty [simp]: "agrees T \<lparr>ch_files = Map.empty, ch_hits = h, ch_misses = m\<rparr>"
  by (auto simp: agrees_def entry_agrees_def)

end
