(* ===== verification/Artifacts.thy ===== *)
theory Artifacts
  imports Models
begin

text \<open>
  \<open>ragledger.core.artifacts\<close>: the content-addressed store. Its directory
  \<open>artifacts/\<close> is an association list from file names to contents; a write goes through a
  temporary file and \<open>os.replace\<close>, and may fail. The locale \<open>content_store\<close> states what
  clients of the store rely on.
\<close>

type_synonym directory = "(pystr \<times> bytes) list"

datatype store_error = InvalidArtifactHash pystr | ArtifactNotFound pystr | WriteFailed

record artifact_info =
  ai_sha256 :: pystr
  ai_size_bytes :: nat

section \<open>Operations\<close>

text \<open>\<open>_SHA256_HEX_RE.match\<close>: the \<open>$\<close> of the pattern also matches before a final newline.\<close>

definition hex64 :: "pystr \<Rightarrow> bool" where
  "hex64 s \<longleftrightarrow> length s = 64 \<and> list_all is_lower_hex s"

definition sha256_hex_match :: "pystr \<Rightarrow> bool" where
  "sha256_hex_match s \<longleftrightarrow> hex64 s \<or> (s \<noteq> [] \<and> last s = 10 \<and> hex64 (butlast s))"

definition path_for :: "pystr \<Rightarrow> store_error + pystr" where
  "path_for digest = (if sha256_hex_match digest then Inr digest else Inl (InvalidArtifactHash digest))"

definition unlink_file :: "pystr \<Rightarrow> directory \<Rightarrow> directory" where
  "unlink_file name d = filter (\<lambda>f. fst f \<noteq> name) d"

text \<open>
  \<open>put\<close>: \<open>tmp_name\<close> is the fresh name \<open>mkstemp\<close> chose, \<open>fault\<close> says after how
  many bytes the device refuses to write, if at all.
\<close>

definition put :: "pystr \<Rightarrow> nat option \<Rightarrow> bytes \<Rightarrow> directory \<Rightarrow> (store_error + artifact_info) \<times> directory" where
  "put tmp_name fault data d =
     (let digest = sha256_hex data; info = \<lparr>ai_sha256 = digest, ai_size_bytes = length data\<rparr> in
      case path_for digest of
        Inl e \<Rightarrow> (Inl e, d)
      | Inr target \<Rightarrow>
          if map_of d target \<noteq> None then (Inr info, d)
          else
            (case fault of
               Some n \<Rightarrow>
                 if n < length data then
                   (let partly = dict_set tmp_name (take n data) d in (Inl WriteFailed, unlink_file tmp_name partly))
                 else (let full = dict_set tmp_name data d in (Inr info, dict_set target data (unlink_file tmp_name full)))
             | None \<Rightarrow>
                 (let full = dict_set tmp_name data d in (Inr info, dict_set target data (unlink_file tmp_name full)))))"

definition exists_artifact :: "pystr \<Rightarrow> directory \<Rightarrow> store_error + bool" where
  "exists_artifact digest d = andThen (path_for digest) (\<lambda>path. Inr (map_of d path \<noteq> None))"

definition get_artifact :: "pystr \<Rightarrow> directory \<Rightarrow> store_error + bytes" where
  "get_artifact digest d =
     andThen (path_for digest) (\<lambda>path. case map_of d path of None \<Rightarrow> Inl (ArtifactNotFound digest) | Some data \<Rightarrow> Inr data)"

definition verify_artifact :: "pystr \<Rightarrow> directory \<Rightarrow> store_error + bool" where
  "verify_artifact digest d =
     andThen (path_for digest) (\<lambda>path. case map_of d path of None \<Rightarrow> Inr False | Some data \<Rightarrow> Inr (sha256_hex data = digest))"

definition list_artifacts :: "directory \<Rightarrow> pystr list" where
  "list_artifacts d = sort (filter sha256_hex_match (map fst d))"

section \<open>Digests and names\<close>

lemma hex64_sha256_hex [simp]: "hex64 (sha256_hex data)"
  by (auto simp: hex64_def sha256_hex_def list_all_iff dest: hexlify_lower_hex)

lemma sha256_hex_match_digest [simp]: "sha256_hex_match (sha256_hex data)"
  by (simp add: sha256_hex_match_def)

lemma path_for_sha256_hex [simp]: "path_for (sha256_hex data) = Inr (sha256_hex data)"
  by (simp add: path_for_def sha256_hex_match_def)

definition temp_name :: "pystr \<Rightarrow> bool" where
  "temp_name name \<longleftrightarrow> take 5 name = py ''.tmp-''"

lemma temp_name_no_digest: "temp_name name \<Longrightarrow> \<not> sha256_hex_match name"
proof -
  assume "temp_name name"
  then have "name \<noteq> []" "hd name = 46"
    by (cases name; simp add: temp_name_def py_def)+
  then show ?thesis
    by (cases name; cases "butlast name") (auto simp: sha256_hex_match_def hex64_def is_lower_hex_def is_digit_def split: if_splits)
qed

text \<open>The store as its operations leave it: one file per name, every digest names its own content.\<close>

definition store_inv :: "directory \<Rightarrow> bool" where
  "store_inv d \<longleftrightarrow> distinct (map fst d) \<and>
     (\<forall>name data. map_of d name = Some data \<longrightarrow> sha256_hex_match name \<longrightarrow> sha256_hex data = name)"

lemma map_of_unlink_file [simp]: "map_of (unlink_file name d) = (map_of d)(name := None)"
  by (induction d) (auto simp: unlink_file_def fun_eq_iff)

lemma distinct_unlink_file: "distinct (map fst d) \<Longrightarrow> distinct (map fst (unlink_file name d))"
  by (induction d) (auto simp: unlink_file_def)

section \<open>The store interface\<close>

text \<open>
  What a client may rely on: a stored artifact reads back as bytes of its digest, other
  artifacts keep their content, and the store stays consistent.
\<close>

locale content_store =
  fixes store :: "bytes \<Rightarrow> 's \<Rightarrow> ('e + artifact_info) \<times> 's"
    and load :: "pystr \<Rightarrow> 's \<Rightarrow> 'e + bytes"
    and consistent :: "'s \<Rightarrow> bool"
  assumes store_consistent: "consistent s \<Longrightarrow> consistent (snd (store data s))"
    and store_load: "consistent s \<Longrightarrow> store data s = (Inr info, s') \<Longrightarrow>
      ai_sha256 info = sha256_hex data \<and> (\<exists>b. load (sha256_hex data) s' = Inr b)"
    and store_keeps: "consistent s \<Longrightarrow> load k s = Inr b \<Longrightarrow> load k (snd (store data s)) = Inr b"
    and load_digest: "consistent s \<Longrightarrow> load k s = Inr b \<Longrightarrow> sha256_hex b = k"
begin

definition store_all :: "bytes list \<Rightarrow> 's \<Rightarrow> 's" where
  "store_all datas s = foldl (\<lambda>s data. snd (store data s)) s datas"

lemma store_all_consistent: "consistent s \<Longrightarrow> consistent (store_all datas s)"
  by (induction datas arbitrary: s) (simp_all add: store_all_def store_consistent)

lemma store_all_keeps: "consistent s \<Longrightarrow> load k s = Inr b \<Longrightarrow> load k (store_all datas s) = Inr b"
  by (induction datas arbitrary: s) (simp_all add: store_all_def store_consistent store_keeps)

text \<open>
  A stored artifact reads back, however many others are stored afterwards, unless the bytes
  read have the same SHA-256 digest.
\<close>

lemma load_after_store:
  assumes "consistent s" "store data s = (Inr info, s')"
  shows "\<exists>b. load (ai_sha256 info) (store_all others s') = Inr b \<and> sha256 b = sha256 data"
proof -
  obtain b where b: "load (sha256_hex data) s' = Inr b" "ai_sha256 info = sha256_hex data"
    using store_load [OF assms] by blast
  have c: "consistent s'" using store_consistent [OF assms(1), of data] assms(2) by simp
  show ?thesis
    using store_all_keeps [OF c b(1)] load_digest [OF c b(1)] b(2) by (auto simp: sha256_hex_def)
qed

end

lemma put_cases:
  assumes "temp_name tmp"
  obtains "put tmp fault data d = (Inr \<lparr>ai_sha256 = sha256_hex data, ai_size_bytes = length data\<rparr>, d)" "map_of d (sha256_hex data) \<noteq> None"
  | n where "put tmp fault data d = (Inl WriteFailed, unlink_file tmp d)" "fault = Some n" "n < length data" "map_of d (sha256_hex data) = None"
  | "put tmp fault data d = (Inr \<lparr>ai_sha256 = sha256_hex data, ai_size_bytes = length data\<rparr>, dict_set (sha256_hex data) data (unlink_file tmp d))"
    "map_of d (sha256_hex data) = None"
proof -
  have "unlink_file tmp (dict_set tmp x d) = unlink_file tmp d" for x
    by (induction d) (auto simp: unlink_file_def)
  then show ?thesis
    using that by (cases "map_of d (sha256_hex data)"; cases fault; cases "the fault < length data") (auto simp: put_def Let_def)
qed

lemma put_consistent:
  assumes "temp_name tmp" "store_inv d"
  shows "store_inv (snd (put tmp fault data d))"
  using assms(1)
proof (cases rule: put_cases [of tmp fault data d])
  case 1
  then show ?thesis using assms(2) by simp
qed (use assms(2) distinct_unlink_file in \<open>auto simp: store_inv_def split: if_splits\<close>)

lemma put_keeps:
  assumes "temp_name tmp" "store_inv d" "get_artifact k d = Inr b"
  shows "get_artifact k (snd (put tmp fault data d)) = Inr b"
proof -
  have k: "sha256_hex_match k" "map_of d k = Some b"
    using assms(3) by (auto simp: get_artifact_def path_for_def split: if_splits option.splits)
  then have "k \<noteq> tmp" using temp_name_no_digest [OF assms(1)] by auto
  with assms(1) show ?thesis
    using k by (cases rule: put_cases [of tmp fault data d]) (auto simp: get_artifact_def path_for_def)
qed

interpretation local_store: content_store "put (py ''.tmp-'' @ rest) fault" get_artifact store_inv for rest fault
proof
  have t: "temp_name (py ''.tmp-'' @ rest)" by (simp add: temp_name_def py_def)
  fix s data info s' k b
  show "store_inv (snd (put (py ''.tmp-'' @ rest) fault data s))" if "store_inv s"
    using put_consistent [OF t that] .
  show "ai_sha256 info = sha256_hex data \<and> (\<exists>b. get_artifact (sha256_hex data) s' = Inr b)"
    if "store_inv s" "put (py ''.tmp-'' @ rest) fault data s = (Inr info, s')"
    using t that(2) by (cases rule: put_cases [of _ fault data s]) (auto simp: get_artifact_def)
  show "get_artifact k (snd (put (py ''.tmp-'' @ rest) fault data s)) = Inr b" if "store_inv s" "get_artifact k s = Inr b"
    using put_keeps [OF t that] .
  show "sha256_hex b = k" if "store_inv s" "get_artifact k s = Inr b"
    using that by (auto simp: get_artifact_def path_for_def store_inv_def split: if_splits option.splits)
qed

section \<open>Properties\<close>

text \<open>
  Content addressing: bytes that were stored are found under their digest after any number of
  further writes, successful or failed, and verify; what is read back has the SHA-256 digest
  of what was stored.
\<close>

theorem artifact_roundtrip:
  assumes "store_inv d" "put (py ''.tmp-'' @ rest) fault data d = (Inr info, d')"
    and "d'' = foldl (\<lambda>d x. snd (put (py ''.tmp-'' @ rest) fault x d)) d' datas"
  shows "store_inv d'' \<and> verify_artifact (ai_sha256 info) d'' = Inr True \<and>
    (\<exists>b. get_artifact (ai_sha256 info) d'' = Inr b \<and> sha256 b = sha256 data)"
proof -
  have all: "d'' = local_store.store_all rest fault datas d'"
    using assms(3) by (simp add: local_store.store_all_def)
  obtain b where b: "get_artifact (ai_sha256 info) d'' = Inr b" "sha256 b = sha256 data"
    using local_store.load_after_store [OF assms(1,2), of datas] all by blast
  have inv: "store_inv d'"
    using local_store.store_consistent [OF assms(1), of rest fault data] assms(2) by simp
  have "ai_sha256 info = sha256_hex data"
    using local_store.store_load [OF assms(1,2)] by simp
  then have "verify_artifact (ai_sha256 info) d'' = Inr True"
    using b by (auto simp: verify_artifact_def get_artifact_def sha256_hex_def split: option.splits)
  then show ?thesis
    using b local_store.store_all_consistent [OF inv, of rest fault datas] all by simp
qed

theorem artifact_roundtrip_witness:
  "\<exists>b. get_artifact (sha256_hex [1, 2]) (snd (put (py ''.tmp-x'') None [1, 2] [])) = Inr b \<and> sha256 b = sha256 [1, 2]"
proof -
  have p: "put (py ''.tmp-'' @ py ''x'') None [1, 2] [] =
      (Inr \<lparr>ai_sha256 = sha256_hex [1, 2], ai_size_bytes = 2\<rparr>, snd (put (py ''.tmp-x'') None [1, 2] []))"
    by (simp add: put_def Let_def py_append [symmetric])
  have "store_inv []" by (simp add: store_inv_def)
  from artifact_roundtrip [OF this p refl, of "[]"] show ?thesis by simp
qed

text \<open>
  No digest the store accepts leads outside its directory: it contains no path separator and
  no dot, so it is neither empty, nor \<open>..\<close>, nor an absolute path; everything else is
  refused before the file system is touched.
\<close>

theorem artifact_paths_contained:
  "(case path_for digest of
      Inr name \<Rightarrow> name = digest \<and> name \<noteq> [] \<and> 47 \<notin> set name \<and> 46 \<notin> set name
    | Inl e \<Rightarrow> e = InvalidArtifactHash digest \<and> get_artifact digest d = Inl e \<and> verify_artifact digest d = Inl e \<and> exists_artifact digest d = Inl e)"
proof (cases "sha256_hex_match digest")
  case True
  then have "\<forall>c \<in> set digest. is_lower_hex c \<or> c = 10"
    by (cases digest rule: rev_cases) (auto simp: sha256_hex_match_def hex64_def list_all_iff)
  moreover have "digest \<noteq> []"
    using True by (auto simp: sha256_hex_match_def hex64_def)
  ultimately show ?thesis
    using True by (auto simp: path_for_def is_lower_hex_def is_digit_def)
next
  case False
  then show ?thesis
    by (simp add: path_for_def get_artifact_def verify_artifact_def exists_artifact_def)
qed

text \<open>
  A write is atomic: whatever the device does, the store afterwards holds either exactly the
  artifacts it held before, with an error reported, or those and the whole new artifact;
  storing the same bytes twice changes nothing the second time.
\<close>

theorem put_atomic:
  "case put (py ''.tmp-'' @ rest) fault data d of
     (Inl e, d') \<Rightarrow> e = WriteFailed \<and> list_artifacts d' = list_artifacts d \<and> (\<forall>k. get_artifact k d' = get_artifact k d)
   | (Inr info, d') \<Rightarrow> set (list_artifacts d') = insert (sha256_hex data) (set (list_artifacts d)) \<and>
       (\<forall>k. k = sha256_hex data \<or> get_artifact k d' = get_artifact k d) \<and>
       put (py ''.tmp-'' @ rest) fault data d' = (Inr info, d')"
proof -
  let ?t = "py ''.tmp-'' @ rest"
  have t: "temp_name ?t" by (simp add: temp_name_def py_def)
  note nt = temp_name_no_digest [OF t]
  have same: "get_artifact k (unlink_file ?t d) = get_artifact k d" for k
    using nt by (auto simp: get_artifact_def path_for_def)
  have names: "filter sha256_hex_match (map fst (unlink_file ?t d)) = filter sha256_hex_match (map fst d)"
    using nt by (induction d) (auto simp: unlink_file_def)
  have again: "put ?t fault data (dict_set (sha256_hex data) data x) =
      (Inr \<lparr>ai_sha256 = sha256_hex data, ai_size_bytes = length data\<rparr>, dict_set (sha256_hex data) data x)" for x
    by (simp add: put_def Let_def)
  from t show ?thesis
  proof (cases rule: put_cases [of _ fault data d])
    case 1
    then have "sha256_hex data \<in> set (list_artifacts d)"
      by (auto simp: list_artifacts_def sha256_hex_match_def map_of_eq_None_iff)
    then show ?thesis using 1 by (simp add: insert_absorb)
  next
    case (2 n)
    then show ?thesis using same names by (simp add: list_artifacts_def)
  next
    case 3
    have "set (list_artifacts (dict_set (sha256_hex data) data (unlink_file ?t d))) = insert (sha256_hex data) (set (list_artifacts d))"
      using arg_cong [OF names, of set] by (simp add: list_artifacts_def) auto
    moreover have "get_artifact k (dict_set (sha256_hex data) data (unlink_file ?t d)) = get_artifact k d" if "k \<noteq> sha256_hex data" for k
      using same [of k] that by (auto simp: get_artifact_def path_for_def)
    ultimately show ?thesis using 3 again by auto
  qed
qed

end
