(* ===== verification/Acl.thy ===== *)
theory Acl
  imports Models Py_Regex
begin

text \<open>
  \<open>ragledger.governance.acl\<close>: the grammar of ACL entries, their normalisation, the ACL and
  tenant a source is expected to carry, and the assertions built from them.
\<close>

section \<open>Entries\<close>

datatype acl_error = UnsupportedAclEntry pystr | AclValidation pystr

definition PUBLIC :: pystr where
  "PUBLIC = py ''PUBLIC''"

text \<open>\<open>.+$\<close>: at least one character, none of them a newline; a final newline may follow.\<close>

definition dot_plus_end :: "pystr \<Rightarrow> bool" where
  "dot_plus_end s \<longleftrightarrow> (s \<noteq> [] \<and> 10 \<notin> set s) \<or> (1 < length s \<and> last s = 10 \<and> 10 \<notin> set (butlast s))"

definition deny_match :: "pystr \<Rightarrow> bool" where
  "deny_match entry \<longleftrightarrow> startswith (map ci_fold entry) (py ''deny:'')"

definition kind_match :: "string \<Rightarrow> pystr \<Rightarrow> bool" where
  "kind_match kind entry \<longleftrightarrow> startswith entry (py kind) \<and> dot_plus_end (drop (length kind) entry)"

definition attribute_match :: "pystr \<Rightarrow> bool" where
  "attribute_match entry \<longleftrightarrow> startswith entry (py ''ATTRIBUTE:'') \<and>
     (case partition_at 61 (drop 10 entry) of (key, found, val) \<Rightarrow> found \<and> key \<noteq> [] \<and> dot_plus_end val)"

definition validate_acl_entry :: "pystr \<Rightarrow> acl_error + unit" where
  "validate_acl_entry entry =
     (if deny_match entry then Inl (UnsupportedAclEntry entry)
      else if entry = PUBLIC then Inr ()
      else if kind_match ''USER:'' entry \<or> kind_match ''GROUP:'' entry \<or> kind_match ''ROLE:'' entry \<or> attribute_match entry then Inr ()
      else Inl (AclValidation entry))"

text \<open>The set of normalised entries is kept as a list without repetitions until it is sorted.\<close>

definition normalize_acl_entries :: "unicode_db \<Rightarrow> pystr list \<Rightarrow> bool \<Rightarrow> acl_error + pystr list" where
  "normalize_acl_entries U entries case_normalize =
     andThen (collect (map (\<lambda>entry. andThen (validate_acl_entry entry)
         (\<lambda>_. Inr (if case_normalize then str_lower U entry else entry))) entries))
       (\<lambda>normalized. Inr (sorted_set normalized))"

section \<open>Expected ACL and tenant of a source\<close>

record acl_path_rule =
  apr_pattern :: pystr
  apr_entries :: "pystr list"

record acl_config =
  acf_source_entries :: "(pystr \<times> pystr list) list"
  acf_path_rules :: "acl_path_rule list"
  acf_case_normalize :: bool

definition expected_acl_entries :: "unicode_db \<Rightarrow> pystr \<Rightarrow> acl_config \<Rightarrow> acl_error + pystr list option" where
  "expected_acl_entries U uri config =
     (case map_of (acf_source_entries config) uri of
        Some direct \<Rightarrow> andThen (normalize_acl_entries U direct (acf_case_normalize config)) (\<lambda>es. Inr (Some es))
      | None \<Rightarrow>
          (case find (\<lambda>rule. fnmatch uri (apr_pattern rule)) (acf_path_rules config) of
             Some rule \<Rightarrow> andThen (normalize_acl_entries U (apr_entries rule) (acf_case_normalize config)) (\<lambda>es. Inr (Some es))
           | None \<Rightarrow> Inr None))"

definition build_acl_assertion ::
  "platform \<Rightarrow> unicode_db \<Rightarrow> pystr \<Rightarrow> pystr list \<Rightarrow> utc_datetime \<Rightarrow> bool \<Rightarrow> acl_error + acl_assertion" where
  "build_acl_assertion L U subject_ref entries created_at case_normalize =
     andThen (normalize_acl_entries U entries case_normalize) (\<lambda>normalized.
       let acl_digest = hash_canonical L (JList (map JStr normalized));
           assertion_id = derive_assertion_id L (py ''acl'') [JStr subject_ref, JStr acl_digest]
       in Inr \<lparr>acl_id = assertion_id, acl_subject_ref = subject_ref, acl_created_at = created_at, acl_hash = acl_digest,
               acl_entries = normalized, acl_extensions = None\<rparr>)"

record tenant_path_rule =
  tpr_pattern :: pystr
  tpr_tenant_key :: pystr
  tpr_tenant_value :: pystr

record tenant_config =
  tcf_source_tenants :: "(pystr \<times> (pystr \<times> pystr)) list"
  tcf_path_rules :: "tenant_path_rule list"
  tcf_required :: bool

definition expected_tenant :: "pystr \<Rightarrow> tenant_config \<Rightarrow> (pystr \<times> pystr) option" where
  "expected_tenant uri config =
     (case map_of (tcf_source_tenants config) uri of
        Some direct \<Rightarrow> Some direct
      | None \<Rightarrow> map_option (\<lambda>rule. (tpr_tenant_key rule, tpr_tenant_value rule))
          (find (\<lambda>rule. fnmatch uri (tpr_pattern rule)) (tcf_path_rules config)))"

definition build_tenant_assertion :: "platform \<Rightarrow> pystr \<Rightarrow> pystr \<Rightarrow> pystr \<Rightarrow> utc_datetime \<Rightarrow> tenant_assertion" where
  "build_tenant_assertion L subject_ref tenant_key tenant_value created_at =
     \<lparr>tnt_id = derive_assertion_id L (py ''tnt'') [JStr subject_ref, JStr tenant_key, JStr tenant_value],
      tnt_subject_ref = subject_ref, tnt_created_at = created_at,
      tnt_hash = hash_canonical L (JObj [(py ''key'', JStr tenant_key), (py ''value'', JStr tenant_value)]),
      tnt_key = tenant_key, tnt_value = tenant_value, tnt_extensions = None\<rparr>"

section \<open>Normalisation\<close>

abbreviation acl_valid :: "pystr \<Rightarrow> bool" where
  "acl_valid entry \<equiv> validate_acl_entry entry = Inr ()"

lemma normalize_acl_entries_valid:
  assumes "list_all acl_valid entries"
  shows "normalize_acl_entries U entries b = Inr (sorted_set (map (\<lambda>e. if b then str_lower U e else e) entries))"
proof -
  have "map (\<lambda>entry. andThen (validate_acl_entry entry) (\<lambda>_. Inr (if b then str_lower U entry else entry))) entries
      = map (\<lambda>e. Inr (if b then str_lower U e else e)) entries"
    using assms by (auto simp: list_all_iff)
  then show ?thesis
    by (simp only: normalize_acl_entries_def collect_map_Inr_comp andThen_simps)
qed

lemma normalize_acl_entries_invalid:
  assumes "normalize_acl_entries U entries b = Inr es"
  shows "list_all acl_valid entries"
  using assms
proof (induction entries arbitrary: es)
  case (Cons e entries)
  then show ?case
    by (cases "validate_acl_entry e") (auto simp: normalize_acl_entries_def andThen_Inr_iff split: sum.splits)
qed simp

section \<open>Properties\<close>

definition sample_unicode :: unicode_db where
  "sample_unicode =
     \<lparr>digit_value = (\<lambda>c. if is_digit c then Some (c - 48) else None), is_word = (\<lambda>c. is_digit c \<or> 97 \<le> ascii_lower c \<and> ascii_lower c \<le> 122 \<or> c = 95),
      str_lower = map ascii_lower, str_upper = map (\<lambda>c. if 97 \<le> c \<and> c \<le> 122 then c - 32 else c)\<rparr>"

text \<open>
  An ACL assertion is a function of the set of its entries: order and repetition in the
  configuration do not change its entries, hash or id; the entries are exactly the (optionally
  case-folded) given ones, strictly sorted; and an assertion exists only if every entry
  satisfies the grammar.
\<close>

theorem acl_assertion_canonical:
  assumes "build_acl_assertion L U subject xs t b = Inr a" "set ys = set xs"
  shows "build_acl_assertion L U subject ys t b = Inr a \<and> sorted_wrt (<) (acl_entries a) \<and>
    set (acl_entries a) = (\<lambda>e. if b then str_lower U e else e) ` set xs \<and> list_all acl_valid xs"
proof -
  have v: "list_all acl_valid xs"
    using assms(1) by (auto simp: build_acl_assertion_def andThen_Inr_iff dest: normalize_acl_entries_invalid)
  then have v': "list_all acl_valid ys" using assms(2) by (simp add: list_all_iff)
  let ?f = "\<lambda>e. if b then str_lower U e else e"
  have same: "sorted_set (map ?f ys) = sorted_set (map ?f xs)"
    by (rule sorted_set_cong) (simp add: assms(2))
  have "build_acl_assertion L U subject ys t b = build_acl_assertion L U subject xs t b"
    using v v' by (simp only: build_acl_assertion_def normalize_acl_entries_valid same)
  moreover have "acl_entries a = sorted_set (map ?f xs)"
    using assms(1) v by (auto simp: build_acl_assertion_def normalize_acl_entries_valid Let_def)
  moreover have "sorted_wrt (<) (sorted_set (map ?f xs))"
    by (simp add: strict_sorted_iff)
  ultimately show ?thesis
    using assms(1) v by simp
qed

theorem acl_assertion_canonical_witness:
  "\<exists>a. build_acl_assertion sample_platform sample_unicode (py ''s'') [py ''USER:b'', PUBLIC, py ''USER:b''] sample_time False = Inr a \<and>
     set (acl_entries a) = {PUBLIC, py ''USER:b''}"
proof -
  have v: "list_all acl_valid [py ''USER:b'', PUBLIC, py ''USER:b'']"
    by (simp add: validate_acl_entry_def deny_match_def kind_match_def dot_plus_end_def PUBLIC_def ci_fold_def ascii_lower_def startswith_def py_def)
  then obtain a where a: "build_acl_assertion sample_platform sample_unicode (py ''s'') [py ''USER:b'', PUBLIC, py ''USER:b''] sample_time False = Inr a"
    by (simp add: build_acl_assertion_def normalize_acl_entries_valid Let_def)
  show ?thesis
    using acl_assertion_canonical [OF a refl] a by auto
qed

text \<open>
  With case normalisation the output leaves the grammar: the entry \<open>PUBLIC\<close> is accepted and
  recorded as \<open>public\<close>, which the same validation rejects.
\<close>

theorem case_normalised_public_invalid:
  assumes "str_lower U PUBLIC = py ''public''"
  shows "normalize_acl_entries U [PUBLIC] True = Inr [py ''public''] \<and> \<not> acl_valid (py ''public'')"
proof -
  have "acl_valid PUBLIC"
    by (simp add: validate_acl_entry_def deny_match_def PUBLIC_def ci_fold_def ascii_lower_def startswith_def py_def)
  then show ?thesis
    using assms by (simp add: normalize_acl_entries_valid sorted_set_def)
      (simp add: validate_acl_entry_def kind_match_def attribute_match_def PUBLIC_def startswith_def py_def)
qed

theorem case_normalised_public_invalid_witness:
  "normalize_acl_entries sample_unicode [PUBLIC] True = Inr [py ''public'']"
  using case_normalised_public_invalid [of sample_unicode] by (simp add: sample_unicode_def PUBLIC_def ascii_lower_def py_def)

end
