(* ===== verification/License.thy ===== *)
theory License
  imports Models Py_Text
begin

text \<open>
  \<open>ragledger.governance.license\<close>: SPDX expressions and their validation, the sources a license
  is taken from, and the assertions with their conflicts. The YAML parser is a parameter.
\<close>

section \<open>SPDX expressions\<close>

definition NOASSERTION :: pystr where
  "NOASSERTION = py ''NOASSERTION''"

definition LICENSE_LIST_VERSION :: pystr where
  "LICENSE_LIST_VERSION = py ''ragledger-embedded-subset-1''"

definition KNOWN_SPDX_IDENTIFIERS :: "pystr list" where
  "KNOWN_SPDX_IDENTIFIERS = map py
     [''MIT'', ''Apache-2.0'', ''BSD-2-Clause'', ''BSD-3-Clause'', ''ISC'', ''GPL-2.0-only'', ''GPL-2.0-or-later'',
      ''GPL-3.0-only'', ''GPL-3.0-or-later'', ''LGPL-2.1-only'', ''LGPL-2.1-or-later'', ''LGPL-3.0-only'', ''LGPL-3.0-or-later'',
      ''MPL-2.0'', ''AGPL-3.0-only'', ''AGPL-3.0-or-later'', ''CC0-1.0'', ''CC-BY-4.0'', ''CC-BY-SA-4.0'', ''Unlicense'', ''0BSD'']"

text \<open>
  The tokens \<open>re.findall\<close> yields: at each position the alternatives are tried in the order of
  the pattern, and a character that starts no token is skipped.
\<close>

definition is_id_char :: "codepoint \<Rightarrow> bool" where
  "is_id_char c \<longleftrightarrow> is_digit c \<or> 65 \<le> c \<and> c \<le> 90 \<or> 97 \<le> c \<and> c \<le> 122 \<or> c \<in> {46, 45, 43}"

definition next_token :: "pystr \<Rightarrow> pystr option" where
  "next_token s =
     (if startswith s [40] then Some [40]
      else if startswith s [41] then Some [41]
      else if startswith s (py ''AND'') then Some (py ''AND'')
      else if startswith s (py ''OR'') then Some (py ''OR'')
      else if startswith s (py ''WITH'') then Some (py ''WITH'')
      else if s \<noteq> [] \<and> is_id_char (hd s) then Some (takeWhile is_id_char s)
      else None)"

lemma next_token_not_Nil: "next_token s = Some t \<Longrightarrow> t \<noteq> [] \<and> s \<noteq> []"
  by (cases s) (auto simp: next_token_def startswith_def split: if_splits)

function tokenize_expression :: "pystr \<Rightarrow> pystr list" where
  "tokenize_expression s =
     (case s of
        [] \<Rightarrow> []
      | c # cs \<Rightarrow> (case next_token s of None \<Rightarrow> tokenize_expression cs | Some t \<Rightarrow> t # tokenize_expression (drop (length t) s)))"
  by pat_completeness auto
termination
  by (relation "measure length") (auto dest: next_token_not_Nil)

declare tokenize_expression.simps [simp del]

definition is_operator :: "pystr \<Rightarrow> bool" where
  "is_operator token \<longleftrightarrow> token \<in> {py ''AND'', py ''OR'', py ''WITH''}"

definition known_id :: "pystr \<Rightarrow> bool" where
  "known_id token = ((if token \<noteq> [] \<and> last token = 43 then butlast token else token) \<in> set KNOWN_SPDX_IDENTIFIERS)"

text \<open>The loop over the tokens, with its two variables.\<close>

fun check_tokens :: "int \<Rightarrow> bool \<Rightarrow> pystr list \<Rightarrow> bool" where
  "check_tokens depth expect_operand [] \<longleftrightarrow> depth = 0 \<and> \<not> expect_operand"
| "check_tokens depth expect_operand (token # tokens) \<longleftrightarrow>
     (if token = [40] then expect_operand \<and> check_tokens (depth + 1) expect_operand tokens
      else if token = [41] then \<not> (expect_operand \<or> depth = 0) \<and> check_tokens (depth - 1) expect_operand tokens
      else if is_operator token then \<not> expect_operand \<and> check_tokens depth True tokens
      else expect_operand \<and> known_id token \<and> check_tokens depth False tokens)"

definition validate_spdx_expression :: "pystr \<Rightarrow> bool" where
  "validate_spdx_expression expression =
     (let stripped = strip expression in
      stripped = NOASSERTION \<or>
      (let tokens = tokenize_expression stripped in tokens \<noteq> [] \<and> check_tokens 0 True tokens))"

section \<open>Where a license is declared\<close>

definition detect_spdx_header :: "pystr \<Rightarrow> nat \<Rightarrow> pystr option" where
  "detect_spdx_header text max_lines =
     (case concat (map (\<lambda>line.
          case after_first (py ''spdx-license-identifier:'') (map ci_fold line) of
            None \<Rightarrow> []
          | Some rest \<Rightarrow> if rest = [] then [] else [strip (drop (length line - length rest) line)])
        (take max_lines (splitlines text))) of
        [] \<Rightarrow> None
      | found # _ \<Rightarrow> Some found)"

definition read_sidecar_expression :: "(pystr \<Rightarrow> json option) \<Rightarrow> pystr \<Rightarrow> pystr option" where
  "read_sidecar_expression safe_load sidecar_text =
     (let stripped = strip sidecar_text in
      if stripped = [] then None
      else (case safe_load stripped of
              None \<Rightarrow> Some stripped
            | Some (JObj d) \<Rightarrow>
                (case map_of d (py ''spdx_expression'') of Some (JStr v) \<Rightarrow> if strip v \<noteq> [] then Some (strip v) else None | _ \<Rightarrow> None)
            | Some (JStr v) \<Rightarrow> Some (strip v)
            | Some _ \<Rightarrow> Some stripped))"

record license_candidate =
  lc_method :: license_method
  lc_raw_expression :: pystr
  lc_confidence :: "float64 option"

record path_rule =
  lpr_pattern :: pystr
  lpr_spdx_expression :: pystr

record license_config =
  lcf_user_assertions :: "(pystr \<times> pystr) list"
  lcf_path_rules :: "path_rule list"
  lcf_repository_default :: "pystr option"

primrec precedence :: "license_method \<Rightarrow> nat" where
  "precedence UserAssertion = 0"
| "precedence Sidecar = 1"
| "precedence Frontmatter = 2"
| "precedence PathRuleMethod = 3"
| "precedence RepositoryDefault = 4"

abbreviation candidate_for :: "license_method \<Rightarrow> pystr \<Rightarrow> license_candidate" where
  "candidate_for m e \<equiv> \<lparr>lc_method = m, lc_raw_expression = e, lc_confidence = None\<rparr>"

definition truthy_list :: "pystr option \<Rightarrow> pystr list" where
  "truthy_list v = (case v of Some s \<Rightarrow> if s \<noteq> [] then [s] else [] | None \<Rightarrow> [])"

definition declared_license :: "dict option \<Rightarrow> pystr option \<Rightarrow> pystr list" where
  "declared_license frontmatter spdx_header =
     (let declared = (case frontmatter of Some d \<Rightarrow> (case map_of d (py ''license'') of Some (JStr v) \<Rightarrow> Some v | _ \<Rightarrow> None) | None \<Rightarrow> None)
      in take 1 (concat (map (\<lambda>v. case v of Some s \<Rightarrow> if strip s \<noteq> [] then [strip s] else [] | None \<Rightarrow> []) [declared, spdx_header])))"

definition gather_candidates ::
  "pystr \<Rightarrow> dict option \<Rightarrow> pystr option \<Rightarrow> license_config \<Rightarrow> pystr option \<Rightarrow> license_candidate list" where
  "gather_candidates uri frontmatter sidecar_expression config spdx_header =
     map (candidate_for UserAssertion) (truthy_list (map_of (lcf_user_assertions config) uri))
     @ map (candidate_for Sidecar) (truthy_list sidecar_expression)
     @ map (candidate_for Frontmatter) (declared_license frontmatter spdx_header)
     @ (case find (\<lambda>rule. fnmatch uri (lpr_pattern rule)) (lcf_path_rules config) of
          None \<Rightarrow> [] | Some rule \<Rightarrow> [candidate_for PathRuleMethod (lpr_spdx_expression rule)])
     @ map (candidate_for RepositoryDefault) (truthy_list (lcf_repository_default config))"

section \<open>Assertions\<close>

definition license_assertion_of :: "platform \<Rightarrow> pystr \<Rightarrow> utc_datetime \<Rightarrow> license_candidate \<Rightarrow> license_assertion" where
  "license_assertion_of L subject_ref created_at candidate =
     (let expression = (if validate_spdx_expression (lc_raw_expression candidate) then lc_raw_expression candidate else NOASSERTION)
      in \<lparr>lic_id = derive_assertion_id L (py ''lic'') [JStr subject_ref, JStr (license_method_value (lc_method candidate)), JStr expression],
          lic_subject_ref = subject_ref, lic_created_at = created_at, lic_spdx_expression = expression,
          lic_method = lc_method candidate, lic_confidence = lc_confidence candidate,
          lic_license_list_version = Some LICENSE_LIST_VERSION, lic_conflicting_assertion_ids = [], lic_extensions = None\<rparr>)"

definition other_ids :: "license_assertion list \<Rightarrow> nat \<Rightarrow> pystr list" where
  "other_ids assertions index = map (\<lambda>i. lic_id (assertions ! i)) (filter (\<lambda>i. i \<noteq> index) [0..<length assertions])"

definition evaluate_license ::
  "platform \<Rightarrow> pystr \<Rightarrow> dict option \<Rightarrow> pystr option \<Rightarrow> license_config \<Rightarrow> pystr \<Rightarrow> utc_datetime \<Rightarrow> pystr option
   \<Rightarrow> license_assertion \<times> license_assertion list" where
  "evaluate_license L uri frontmatter sidecar_expression config subject_ref created_at spdx_header =
     (let gathered = gather_candidates uri frontmatter sidecar_expression config spdx_header;
          raw_candidates = (if gathered = [] then [candidate_for RepositoryDefault NOASSERTION] else gathered);
          made = map (license_assertion_of L subject_ref created_at) raw_candidates;
          distinct_expressions = remdups (map lic_spdx_expression made);
          assertions =
            (if 1 < length distinct_expressions
             then map (\<lambda>index. (made ! index)\<lparr>lic_conflicting_assertion_ids := other_ids made index\<rparr>) [0..<length made]
             else made);
          effective = hd (sort_key (\<lambda>a. precedence (lic_method a)) assertions)
      in (effective, assertions))"

section \<open>The expression grammar\<close>

text \<open>The language the validation is meant to accept, over tokens.\<close>

inductive spdx_expression :: "pystr list \<Rightarrow> bool" where
  license: "known_id t \<Longrightarrow> t \<noteq> [40] \<Longrightarrow> t \<noteq> [41] \<Longrightarrow> \<not> is_operator t \<Longrightarrow> spdx_expression [t]"
| parens: "spdx_expression e \<Longrightarrow> spdx_expression ([40] # e @ [[41]])"
| compound: "spdx_expression a \<Longrightarrow> is_operator p \<Longrightarrow> spdx_expression b \<Longrightarrow> spdx_expression (a @ p # b)"

lemma is_operator_no_paren [simp]: "\<not> is_operator [40]" "\<not> is_operator [41]"
  by (simp_all add: is_operator_def py_def)

lemma check_tokens_complete:
  "spdx_expression e \<Longrightarrow> 0 \<le> d \<Longrightarrow> check_tokens d True (e @ rest) = check_tokens d False rest"
proof (induction arbitrary: d rest rule: spdx_expression.induct)
  case (compound a p b)
  have "p \<noteq> [40]" "p \<noteq> [41]" using compound.hyps by auto
  then show ?case using compound by simp
qed auto

lemma check_tokens_False_cases:
  assumes "check_tokens d False ts"
  obtains "ts = []" "d = 0"
  | ts' where "ts = [41] # ts'" "d \<noteq> 0" "check_tokens (d - 1) False ts'"
  | p ts' where "ts = p # ts'" "is_operator p" "check_tokens d True ts'"
  using assms by (cases ts) (auto split: if_splits)

text \<open>What is accepted starts with an expression, up to the end or a closing parenthesis.\<close>

lemma check_tokens_sound:
  assumes "check_tokens d True ts" "0 \<le> d"
  shows "\<exists>e rest. ts = e @ rest \<and> spdx_expression e \<and> check_tokens d False rest \<and> (rest = [] \<or> hd rest = [41])"
  using assms
proof (induction ts arbitrary: d rule: length_induct)
  case (1 ts)
  have continue: "\<exists>e rest. a @ r = e @ rest \<and> spdx_expression e \<and> check_tokens d False rest \<and> (rest = [] \<or> hd rest = [41])"
    if a: "spdx_expression a" "check_tokens d False r" "length r < length ts" for a r
    using a(2)
  proof (cases rule: check_tokens_False_cases)
    case 1
    then show ?thesis using a by (intro exI [of _ a] exI [of _ "[]"]) simp
  next
    case (2 ts')
    then show ?thesis using a by (intro exI [of _ a] exI [of _ r]) simp
  next
    case (3 p r')
    then obtain b rest where "r' = b @ rest" "spdx_expression b" "check_tokens d False rest" "rest = [] \<or> hd rest = [41]"
      using "1.IH" [rule_format, of r' d] "1.prems"(2) a(3) by auto
    then show ?thesis
      using spdx_expression.compound [OF a(1) 3(2)] 3(1) by (intro exI [of _ "a @ p # b"] exI [of _ rest]) simp
  qed
  obtain t ts' where ts: "ts = t # ts'" using "1.prems" by (cases ts) auto
  show ?case
  proof (cases "t = [40]")
    case True
    then have "check_tokens (d + 1) True ts'" using "1.prems" ts by simp
    then obtain e r where e: "ts' = e @ r" "spdx_expression e" "check_tokens (d + 1) False r" "r = [] \<or> hd r = [41]"
      using "1.IH" [rule_format, of ts' "d + 1"] "1.prems"(2) ts by auto
    then obtain r' where r: "r = [41] # r'" "check_tokens d False r'"
      using "1.prems"(2) by (cases r) auto
    have "spdx_expression ([40] # e @ [[41]])" using e(2) by (rule spdx_expression.parens)
    from continue [OF this r(2)] show ?thesis
      using True ts e(1) r(1) by simp
  next
    case False
    then have "spdx_expression [t]" "check_tokens d False ts'"
      using "1.prems" ts by (auto split: if_splits intro: spdx_expression.license)
    from continue [OF this] show ?thesis using ts by simp
  qed
qed

section \<open>Candidates\<close>

lemma NOASSERTION_valid [simp]: "validate_spdx_expression NOASSERTION"
  by (simp add: validate_spdx_expression_def strip_def lstrip_def rstrip_def NOASSERTION_def is_space_def py_def)

lemma license_assertion_of_valid: "validate_spdx_expression (lic_spdx_expression (license_assertion_of L s t c))"
  by (simp add: license_assertion_of_def Let_def)

lemma gather_candidates_methods:
  "sorted_wrt (<) (map (\<lambda>c. precedence (lc_method c)) (gather_candidates uri fm sc cfg hdr))"
proof -
  have "length (declared_license fm hdr) \<le> 1" by (simp add: declared_license_def Let_def)
  then consider "declared_license fm hdr = []" | d where "declared_license fm hdr = [d]"
    by (cases "declared_license fm hdr") auto
  then show ?thesis
    by cases (auto simp: gather_candidates_def truthy_list_def sorted_wrt_append split: option.splits)
qed

lemma hd_sort_key:
  assumes "xs \<noteq> []"
  shows "hd (sort_key f xs) \<in> set xs" "\<forall>x \<in> set xs. f (hd (sort_key f xs)) \<le> f x"
proof -
  obtain y ys where s: "sort_key f xs = y # ys"
    using assms by (metis list.exhaust set_empty set_sort)
  have "sorted (map f (y # ys))" by (metis s sorted_sort_key)
  moreover have "set xs = set (y # ys)" by (metis s set_sort)
  ultimately show "hd (sort_key f xs) \<in> set xs" "\<forall>x \<in> set xs. f (hd (sort_key f xs)) \<le> f x"
    by (auto simp: s)
qed

lemma evaluate_license_parts:
  assumes "evaluate_license L uri fm sc cfg subj t hdr = (eff, all)"
  obtains made where "made \<noteq> []" "length all = length made"
    "sorted_wrt (<) (map (\<lambda>a. precedence (lic_method a)) made)"
    "\<And>a. a \<in> set made \<Longrightarrow> validate_spdx_expression (lic_spdx_expression a) \<and> lic_conflicting_assertion_ids a = []"
    "\<And>i. i < length made \<Longrightarrow> all ! i = (made ! i)\<lparr>lic_conflicting_assertion_ids :=
        (if 1 < card (lic_spdx_expression ` set made) then other_ids made i else [])\<rparr>"
    "eff = hd (sort_key (\<lambda>a. precedence (lic_method a)) all)"
proof -
  let ?g = "gather_candidates uri fm sc cfg hdr"
  let ?c = "if ?g = [] then [candidate_for RepositoryDefault NOASSERTION] else ?g"
  let ?made = "map (license_assertion_of L subj t) ?c"
  have m: "lic_method (license_assertion_of L subj t c) = lc_method c"
    "lic_conflicting_assertion_ids (license_assertion_of L subj t c) = []" for c
    by (simp_all add: license_assertion_of_def Let_def)
  have keep: "a = a\<lparr>lic_conflicting_assertion_ids := []\<rparr>" if "lic_conflicting_assertion_ids a = []" for a :: license_assertion
    using that by simp
  have all: "all = (if 1 < card (lic_spdx_expression ` set ?made)
      then map (\<lambda>i. (?made ! i)\<lparr>lic_conflicting_assertion_ids := other_ids ?made i\<rparr>) [0..<length ?made] else ?made)"
    and eff: "eff = hd (sort_key (\<lambda>a. precedence (lic_method a)) all)"
    using assms by (auto simp only: evaluate_license_def Let_def length_remdups_card_conv set_map prod.inject)
  show ?thesis
  proof (rule that [of ?made])
    show "sorted_wrt (<) (map (\<lambda>a. precedence (lic_method a)) ?made)"
      using gather_candidates_methods [of uri fm sc cfg hdr] by (simp add: comp_def m)
    show "validate_spdx_expression (lic_spdx_expression a) \<and> lic_conflicting_assertion_ids a = []" if "a \<in> set ?made" for a
      using that license_assertion_of_valid m(2) by (auto split: if_splits)
    show "all ! i = (?made ! i)\<lparr>lic_conflicting_assertion_ids :=
        (if 1 < card (lic_spdx_expression ` set ?made) then other_ids ?made i else [])\<rparr>" if "i < length ?made" for i
      using that keep [of "?made ! i"] m(2) unfolding all by (simp split: if_splits)
  qed (use eff all in auto)
qed

section \<open>Properties\<close>


text \<open>
  License conflicts are never hidden and never decided by chance: the effective assertion is one
  of those returned and has the least precedence number, every method occurs at most once,
  every expression is valid, and as soon as two assertions disagree each of them lists the ids
  of all the others; if all agree, none lists any.
\<close>

theorem license_conflicts_recorded:
  assumes "evaluate_license L uri fm sc cfg subj t hdr = (eff, all)"
  shows "eff \<in> set all \<and> distinct (map lic_method all) \<and>
    list_all (\<lambda>a. precedence (lic_method eff) \<le> precedence (lic_method a) \<and> validate_spdx_expression (lic_spdx_expression a)) all \<and>
    (\<forall>i < length all. lic_conflicting_assertion_ids (all ! i) =
       (if \<exists>a \<in> set all. \<exists>b \<in> set all. lic_spdx_expression a \<noteq> lic_spdx_expression b then other_ids all i else []))"
proof -
  obtain made where made: "made \<noteq> []" "length all = length made"
    "sorted_wrt (<) (map (\<lambda>a. precedence (lic_method a)) made)"
    "\<And>a. a \<in> set made \<Longrightarrow> validate_spdx_expression (lic_spdx_expression a) \<and> lic_conflicting_assertion_ids a = []"
    "\<And>i. i < length made \<Longrightarrow> all ! i = (made ! i)\<lparr>lic_conflicting_assertion_ids :=
        (if 1 < card (lic_spdx_expression ` set made) then other_ids made i else [])\<rparr>"
    "eff = hd (sort_key (\<lambda>a. precedence (lic_method a)) all)"
    using evaluate_license_parts [OF assms] by blast
  have maps: "map lic_method all = map lic_method made" "map lic_spdx_expression all = map lic_spdx_expression made"
    "map lic_id all = map lic_id made"
    using made(2,5) by (auto simp: list_eq_iff_nth_eq)
  have others: "other_ids all i = other_ids made i" for i
    using made(2) arg_cong [OF maps(3), of "\<lambda>xs. xs ! j" for j] by (auto simp: other_ids_def made(5))
  have ne: "all \<noteq> []" using made(1,2) by auto
  have exprs: "lic_spdx_expression ` set all = lic_spdx_expression ` set made"
    using maps(2) by (metis set_map)
  have card: "1 < card (lic_spdx_expression ` set made) \<longleftrightarrow>
      (\<exists>a \<in> set all. \<exists>b \<in> set all. lic_spdx_expression a \<noteq> lic_spdx_expression b)"
    unfolding exprs [symmetric] using card_le_Suc0_iff_eq [of "lic_spdx_expression ` set all"] by (auto simp: not_le [symmetric])
  have "distinct (map precedence (map lic_method made))"
    using made(3) by (simp add: strict_sorted_iff comp_def)
  then have "distinct (map lic_method all)"
    unfolding maps(1) by (auto simp: distinct_map intro: inj_on_imageI2)
  moreover have "eff \<in> set all" "\<forall>a \<in> set all. precedence (lic_method eff) \<le> precedence (lic_method a)"
    using hd_sort_key [OF ne, of "\<lambda>a. precedence (lic_method a)"] made(6) by auto
  moreover have "validate_spdx_expression (lic_spdx_expression a)" if "a \<in> set all" for a
  proof -
    have "lic_spdx_expression a \<in> lic_spdx_expression ` set made" using that exprs by blast
    then show ?thesis using made(4) by auto
  qed
  moreover have "lic_conflicting_assertion_ids (all ! i) =
       (if \<exists>a \<in> set all. \<exists>b \<in> set all. lic_spdx_expression a \<noteq> lic_spdx_expression b then other_ids all i else [])" if "i < length all" for i
    using made(5) [of i] that made(2) unfolding card [symmetric] others by simp
  ultimately show ?thesis
    by (simp add: list_all_iff)
qed

theorem license_conflicts_recorded_witness:
  "\<exists>eff all. evaluate_license sample_platform (py ''u'') None (Some (py ''MIT'')) \<lparr>lcf_user_assertions = [], lcf_path_rules = [], lcf_repository_default = Some (py ''ISC'')\<rparr>
      (py ''s'') sample_time None = (eff, all) \<and> eff \<in> set all \<and> distinct (map lic_method all)"
proof -
  obtain eff all where e: "evaluate_license sample_platform (py ''u'') None (Some (py ''MIT''))
      \<lparr>lcf_user_assertions = [], lcf_path_rules = [], lcf_repository_default = Some (py ''ISC'')\<rparr> (py ''s'') sample_time None = (eff, all)"
    by fastforce
  then show ?thesis using license_conflicts_recorded [OF e] by blast
qed

text \<open>Characters that start no token are skipped, not rejected.\<close>

lemma spdx_ignores_junk: "validate_spdx_expression (py ''MIT @'')"
proof -
  have "strip (py ''MIT @'') = py ''MIT @''"
    by (simp add: strip_def lstrip_def rstrip_def is_space_def py_def)
  moreover have "tokenize_expression (py ''MIT @'') = [py ''MIT'']"
    by (simp add: tokenize_expression.simps next_token_def startswith_def is_id_char_def is_digit_def py_def)
  ultimately show ?thesis
    by (simp add: validate_spdx_expression_def is_operator_def known_id_def KNOWN_SPDX_IDENTIFIERS_def)
      (simp add: py_def)
qed

end
