(* ===== verification/Pii.thy ===== *)
theory Pii
  imports Acl
begin

text \<open>
  \<open>ragledger.governance.pii\<close>: the checksum validators, the built-in recognizers with their
  patterns, custom recognizers, scanning, masking, the value HMAC and the scan assertion. YAML,
  the compilation of an operator's pattern, \<open>float()\<close> of a string and the expiry of the regex
  timeout are parameters.
\<close>

section \<open>Validators\<close>

text \<open>\<open>re.sub(r"\D", "", raw)\<close> and \<open>int(char)\<close>.\<close>

definition digits_of :: "unicode_db \<Rightarrow> pystr \<Rightarrow> pystr" where
  "digits_of U raw = filter (rx_digit U) raw"

definition int_of_char :: "unicode_db \<Rightarrow> codepoint \<Rightarrow> nat" where
  "int_of_char U c = (case digit_value U c of Some d \<Rightarrow> d | None \<Rightarrow> 0)"

definition luhn_term :: "nat \<Rightarrow> nat \<Rightarrow> nat" where
  "luhn_term index d =
     (if index mod 2 = 1 then (let doubled = d * 2 in if doubled > 9 then doubled - 9 else doubled) else d)"

fun luhn_total :: "nat \<Rightarrow> nat list \<Rightarrow> nat" where
  "luhn_total index [] = 0"
| "luhn_total index (d # ds) = luhn_term index d + luhn_total (index + 1) ds"

definition luhn_valid :: "unicode_db \<Rightarrow> pystr \<Rightarrow> bool" where
  "luhn_valid U digits \<longleftrightarrow> luhn_total 0 (map (int_of_char U) (rev digits)) mod 10 = 0"

definition validate_credit_card :: "unicode_db \<Rightarrow> pystr \<Rightarrow> bool" where
  "validate_credit_card U raw =
     (let digits = digits_of U raw in 13 \<le> length digits \<and> length digits \<le> 19 \<and> luhn_valid U digits)"

definition validate_ssn :: "unicode_db \<Rightarrow> pystr \<Rightarrow> bool" where
  "validate_ssn U raw =
     (let digits = digits_of U raw in
      length digits = 9 \<and>
      (let area = take 3 digits; grp = take 2 (drop 3 digits); serial = drop 5 digits in
       \<not> (area \<in> {py ''000'', py ''666''} \<or> startswith area (py ''9'')) \<and> grp \<noteq> py ''00'' \<and> serial \<noteq> py ''0000''))"

definition validate_tckn :: "unicode_db \<Rightarrow> pystr \<Rightarrow> bool" where
  "validate_tckn U raw =
     (let digits = digits_of U raw in
      length digits = 11 \<and> hd digits \<noteq> 48 \<and>
      (let d = map (\<lambda>c. int (int_of_char U c)) digits;
           odd_sum = d ! 0 + d ! 2 + d ! 4 + d ! 6 + d ! 8;
           even_sum = d ! 1 + d ! 3 + d ! 5 + d ! 7 in
       (odd_sum * 7 - even_sum) mod 10 = d ! 9 \<and> sum_list (take 10 d) mod 10 = d ! 10))"

text \<open>\<open>int(char, 36)\<close>; \<open>None\<close> is the \<open>ValueError\<close>.\<close>

definition base36 :: "unicode_db \<Rightarrow> codepoint \<Rightarrow> nat option" where
  "base36 U c =
     (case digit_value U c of
        Some d \<Rightarrow> Some d
      | None \<Rightarrow> if 65 \<le> c \<and> c \<le> 90 then Some (c - 55) else if 97 \<le> c \<and> c \<le> 122 then Some (c - 87) else None)"

definition validate_iban :: "unicode_db \<Rightarrow> pystr \<Rightarrow> bool" where
  "validate_iban U raw =
     (let val = str_upper U (filter (\<lambda>c. c \<noteq> 32) raw) in
      15 \<le> length val \<and> length val \<le> 34 \<and>
      (let rearranged = drop 4 val @ take 4 val in
       list_all (\<lambda>c. base36 U c \<noteq> None) rearranged \<and>
       read_digits 0 (concat (map (\<lambda>c. show_nat (the (base36 U c))) rearranged)) mod 97 = 1))"

section \<open>Recognizers\<close>

record recognizer =
  rc_entity_type :: pystr
  rc_recognizer_id :: pystr
  rc_recognizer_version :: pystr
  rc_finditer :: "pystr \<Rightarrow> (nat \<times> nat) list"
  rc_base_confidence :: float64
  rc_validated_confidence :: "float64 option"
  rc_validator :: "(pystr \<Rightarrow> bool) option"
  rc_timeout_seconds :: float64

record raw_finding =
  rf_entity_type :: pystr
  rf_start :: nat
  rf_end :: nat
  rf_raw_value :: pystr
  rf_confidence :: float64
  rf_recognizer_id :: pystr
  rf_recognizer_version :: pystr

definition is_letter :: "codepoint \<Rightarrow> bool" where
  "is_letter c \<longleftrightarrow> 65 \<le> c \<and> c \<le> 90 \<or> 97 \<le> c \<and> c \<le> 122"

definition is_upper :: "codepoint \<Rightarrow> bool" where
  "is_upper c \<longleftrightarrow> 65 \<le> c \<and> c \<le> 90"

definition rx_digits :: "unicode_db \<Rightarrow> nat \<Rightarrow> nat \<Rightarrow> rx" where
  "rx_digits U m n = RRep m n (RSet (rx_digit U))"

definition EMAIL_RE :: "unicode_db \<Rightarrow> rx" where
  "EMAIL_RE U = rx_seq
     [RBoundary (is_word U), RMany 1 (\<lambda>c. is_letter c \<or> is_digit c \<or> c \<in> {46, 95, 37, 43, 45}), lit 64,
      RMany 1 (\<lambda>c. is_letter c \<or> is_digit c \<or> c \<in> {46, 45}), lit 46, RMany 2 is_letter, RBoundary (is_word U)]"

definition phone_separator :: "codepoint \<Rightarrow> bool" where
  "phone_separator c \<longleftrightarrow> c = 45 \<or> c = 46 \<or> is_space c"

definition PHONE_RE :: "unicode_db \<Rightarrow> rx" where
  "PHONE_RE U = rx_seq
     [RNotBehind (rx_digit U), ROpt (rx_seq [lit 43, rx_digits U 1 3, ROpt (RSet phone_separator)]), ROpt (lit 40), rx_digits U 3 3,
      ROpt (lit 41), RSet phone_separator, rx_digits U 3 3, RSet phone_separator, rx_digits U 4 4, RNotAhead (rx_digit U)]"

definition card_separator :: rx where
  "card_separator = ROpt (RSet (\<lambda>c. c = 45 \<or> is_space c))"

definition CREDIT_CARD_RE :: "unicode_db \<Rightarrow> rx" where
  "CREDIT_CARD_RE U = rx_seq
     [RNotBehind (rx_digit U), rx_digits U 4 4, card_separator, rx_digits U 4 4, card_separator, rx_digits U 4 4, card_separator,
      rx_digits U 1 7, RNotAhead (rx_digit U)]"

definition SSN_RE :: "unicode_db \<Rightarrow> rx" where
  "SSN_RE U = rx_seq
     [RNotBehind (rx_digit U), rx_digits U 3 3, lit 45, rx_digits U 2 2, lit 45, rx_digits U 4 4, RNotAhead (rx_digit U)]"

definition TCKN_RE :: "unicode_db \<Rightarrow> rx" where
  "TCKN_RE U = rx_seq [RNotBehind (rx_digit U), rx_digits U 11 11, RNotAhead (rx_digit U)]"

definition IBAN_RE :: "unicode_db \<Rightarrow> rx" where
  "IBAN_RE U =
     (let alnum = (\<lambda>c. is_upper c \<or> is_digit c) in rx_seq
     [RBoundary (is_word U), RRep 2 2 (RSet is_upper), rx_digits U 2 2, RRep 2 7 (rx_seq [ROpt (lit 32), RRep 4 4 (RSet alnum)]),
      ROpt (lit 32), RRep 1 4 (RSet alnum), RBoundary (is_word U)])"

definition builtin :: "string \<Rightarrow> string \<Rightarrow> rx \<Rightarrow> rat \<Rightarrow> (rat \<times> (pystr \<Rightarrow> bool)) option \<Rightarrow> recognizer" where
  "builtin entity_type recognizer_id pattern base validated =
     \<lparr>rc_entity_type = py entity_type, rc_recognizer_id = py recognizer_id, rc_recognizer_version = py ''1'',
      rc_finditer = finditer pattern, rc_base_confidence = fl base,
      rc_validated_confidence = map_option (\<lambda>v. fl (fst v)) validated, rc_validator = map_option snd validated,
      rc_timeout_seconds = 1\<rparr>"

definition default_recognizers :: "unicode_db \<Rightarrow> recognizer list" where
  "default_recognizers U =
     [builtin ''EMAIL_ADDRESS'' ''ragledger.email'' (EMAIL_RE U) (85 / 100) None,
      builtin ''PHONE_NUMBER'' ''ragledger.phone'' (PHONE_RE U) (5 / 10) None,
      builtin ''CREDIT_CARD'' ''ragledger.credit_card'' (CREDIT_CARD_RE U) (3 / 10) (Some (9 / 10, validate_credit_card U)),
      builtin ''US_SSN'' ''ragledger.us_ssn'' (SSN_RE U) (3 / 10) (Some (75 / 100, validate_ssn U)),
      builtin ''TR_TCKN'' ''ragledger.tr_tckn'' (TCKN_RE U) (1 / 10) (Some (9 / 10, validate_tckn U)),
      builtin ''IBAN'' ''ragledger.iban'' (IBAN_RE U) (3 / 10) (Some (9 / 10, validate_iban U))]"

section \<open>Custom recognizers\<close>

record regex_env =
  safe_load :: "pystr \<Rightarrow> json option"
  re_compile :: "pystr \<Rightarrow> (pystr \<Rightarrow> (nat \<times> nat) list) option"
  float_of_str :: "pystr \<Rightarrow> float64 option"
  times_out :: "recognizer \<Rightarrow> pystr \<Rightarrow> bool"

datatype pii_error =
    InvalidYaml
  | NotAMapping
  | RecognizersNotAList
  | EntryIncomplete
  | InvalidPattern pystr
  | ConfidenceOutOfRange
  | NotAFloat

definition json_falsy :: "json \<Rightarrow> bool" where
  "json_falsy v \<longleftrightarrow> v \<in> {JNull, JBool False, JInt 0, JFloat 0, JStr [], JList [], JObj []}"

text \<open>\<open>float(v)\<close>.\<close>

definition float_value :: "regex_env \<Rightarrow> json \<Rightarrow> pii_error + float64" where
  "float_value R v =
     (case v of
        JBool b \<Rightarrow> Inr (if b then 1 else 0)
      | JInt i \<Rightarrow> Inr (fl (of_int i))
      | JFloat x \<Rightarrow> Inr x
      | JStr s \<Rightarrow> (case float_of_str R s of Some x \<Rightarrow> Inr x | None \<Rightarrow> Inl NotAFloat)
      | _ \<Rightarrow> Inl NotAFloat)"

definition dict_default :: "dict \<Rightarrow> string \<Rightarrow> json \<Rightarrow> json" where
  "dict_default d k dflt = (case map_of d (py k) of Some v \<Rightarrow> v | None \<Rightarrow> dflt)"

definition custom_recognizer :: "platform \<Rightarrow> unicode_db \<Rightarrow> regex_env \<Rightarrow> json \<Rightarrow> pii_error + recognizer" where
  "custom_recognizer L U R entry =
     (case entry of
        JObj d \<Rightarrow>
          (case (map_of d (py ''entity_type''), map_of d (py ''pattern'')) of
             (Some ty, Some pat) \<Rightarrow>
               (let entity_type = py_str L ty in
                case re_compile R (py_str L pat) of
                  None \<Rightarrow> Inl (InvalidPattern entity_type)
                | Some finder \<Rightarrow>
                    andThen (float_value R (dict_default d ''confidence'' (JFloat (fl (5 / 10))))) (\<lambda>confidence.
                    if \<not> (0 \<le> confidence \<and> confidence \<le> 1) then Inl ConfidenceOutOfRange
                    else andThen (float_value R (dict_default d ''timeout_seconds'' (JFloat (fl (5 / 10))))) (\<lambda>timeout.
                    Inr \<lparr>rc_entity_type = entity_type, rc_recognizer_id = py ''custom.'' @ str_lower U entity_type,
                         rc_recognizer_version = py ''1'', rc_finditer = finder, rc_base_confidence = confidence,
                         rc_validated_confidence = None, rc_validator = None, rc_timeout_seconds = timeout\<rparr>)))
           | _ \<Rightarrow> Inl EntryIncomplete)
      | _ \<Rightarrow> Inl EntryIncomplete)"

definition load_custom_recognizers :: "platform \<Rightarrow> unicode_db \<Rightarrow> regex_env \<Rightarrow> pystr \<Rightarrow> pii_error + recognizer list" where
  "load_custom_recognizers L U R yaml_text =
     (case safe_load R yaml_text of
        None \<Rightarrow> Inl InvalidYaml
      | Some loaded \<Rightarrow>
          (case (if json_falsy loaded then JObj [] else loaded) of
             JObj d \<Rightarrow>
               (case dict_default d ''recognizers'' (JList []) of
                  JList entries \<Rightarrow> collect (map (custom_recognizer L U R) entries)
                | _ \<Rightarrow> Inl RecognizersNotAList)
           | _ \<Rightarrow> Inl NotAMapping))"

section \<open>Scanning\<close>

text \<open>\<open>_scan_one\<close>: an expired timeout, which only a positive limit has, yields no findings.\<close>

definition finding_at :: "recognizer \<Rightarrow> pystr \<Rightarrow> nat \<times> nat \<Rightarrow> raw_finding list" where
  "finding_at rc text place =
     (case place of (a, b) \<Rightarrow>
        (let raw = take (b - a) (drop a text);
             found = (\<lambda>confidence.
               \<lparr>rf_entity_type = rc_entity_type rc, rf_start = a, rf_end = b, rf_raw_value = raw, rf_confidence = confidence,
                rf_recognizer_id = rc_recognizer_id rc, rf_recognizer_version = rc_recognizer_version rc\<rparr>)
         in case rc_validator rc of
              None \<Rightarrow> [found (rc_base_confidence rc)]
            | Some valid \<Rightarrow>
                if \<not> valid raw then []
                else [found (case rc_validated_confidence rc of
                        Some v \<Rightarrow> if v \<noteq> 0 then v else rc_base_confidence rc
                      | None \<Rightarrow> rc_base_confidence rc)]))"

definition scan_one :: "regex_env \<Rightarrow> pystr \<Rightarrow> recognizer \<Rightarrow> raw_finding list" where
  "scan_one R text rc =
     (if 0 < rc_timeout_seconds rc \<and> times_out R rc text then []
      else concat (map (finding_at rc text) (rc_finditer rc text)))"

definition scan_text :: "regex_env \<Rightarrow> pystr \<Rightarrow> recognizer list \<Rightarrow> raw_finding list" where
  "scan_text R text recognizers =
     sort_key (\<lambda>item. (rf_start item, rf_end item, rf_entity_type item)) (concat (map (scan_one R text) recognizers))"

section \<open>Masking\<close>

definition mask_generic :: "pystr \<Rightarrow> nat \<Rightarrow> pystr" where
  "mask_generic s keep_last =
     (if length s \<le> keep_last then replicate (length s) 42
      else replicate (length s - keep_last) 42 @ drop (length s - keep_last) s)"

definition mask_part :: "pystr \<Rightarrow> pystr" where
  "mask_part s = (if 2 < length s then take 2 s else take 1 s) @ py ''***''"

definition mask_email :: "pystr \<Rightarrow> pystr" where
  "mask_email s =
     (case partition_at 64 s of (local_part, _, domain) \<Rightarrow>
        if domain = [] then mask_generic s 4
        else (case partition_at 46 domain of (label, _, tld) \<Rightarrow>
                mask_part local_part @ [64] @ mask_part label @ (if tld \<noteq> [] then [46] @ tld else [])))"

definition mask_value :: "pystr \<Rightarrow> pystr \<Rightarrow> pystr" where
  "mask_value entity_type raw_value =
     (if entity_type = py ''EMAIL_ADDRESS'' then mask_email raw_value else mask_generic raw_value 4)"

definition HMAC_DOMAIN_INFO :: bytes where
  "HMAC_DOMAIN_INFO = map of_char ''ragledger-pii-value-hmac-v1''"

definition derive_value_hmac_key :: "platform \<Rightarrow> bytes \<Rightarrow> bytes" where
  "derive_value_hmac_key L workspace_secret = hkdf L workspace_secret HMAC_DOMAIN_INFO"

definition compute_value_hmac :: "platform \<Rightarrow> pystr \<Rightarrow> bytes \<Rightarrow> pystr" where
  "compute_value_hmac L raw_value workspace_secret =
     hexlify (hmac_sha256 (derive_value_hmac_key L workspace_secret) (utf8_encode raw_value))"

section \<open>The scan assertion\<close>

record pii_scan_config =
  psc_scanner_name :: pystr
  psc_scanner_version :: pystr
  psc_language :: pystr
  psc_custom_recognizers_yaml :: "pystr option"
  psc_workspace_secret :: "bytes option"

definition active_recognizers :: "platform \<Rightarrow> unicode_db \<Rightarrow> regex_env \<Rightarrow> pii_scan_config \<Rightarrow> pii_error + recognizer list" where
  "active_recognizers L U R config =
     (if truthy (psc_custom_recognizers_yaml config)
      then andThen (load_custom_recognizers L U R (the (psc_custom_recognizers_yaml config)))
             (\<lambda>custom. Inr (default_recognizers U @ custom))
      else Inr (default_recognizers U))"

definition scan_config_hash :: "platform \<Rightarrow> unicode_db \<Rightarrow> regex_env \<Rightarrow> pii_scan_config \<Rightarrow> pii_error + pystr" where
  "scan_config_hash L U R config =
     andThen (active_recognizers L U R config) (\<lambda>recognizers.
       Inr (hash_canonical L (JObj
         [(py ''entity_types'', JList (map JStr (sorted_set (map rc_entity_type recognizers)))),
          (py ''custom_recognizers'', JStr (case psc_custom_recognizers_yaml config of None \<Rightarrow> [] | Some y \<Rightarrow> y)),
          (py ''language'', JStr (psc_language config))])))"

definition pii_finding_of :: "platform \<Rightarrow> bytes option \<Rightarrow> raw_finding \<Rightarrow> pii_finding" where
  "pii_finding_of L workspace_secret item =
     \<lparr>pf_entity_type = rf_entity_type item, pf_confidence = rf_confidence item, pf_start = rf_start item, pf_end = rf_end item,
      pf_masked_preview = Some (mask_value (rf_entity_type item) (rf_raw_value item)),
      pf_value_hmac = (case workspace_secret of
         Some secret \<Rightarrow> if secret \<noteq> [] then Some (compute_value_hmac L (rf_raw_value item) secret) else None
       | None \<Rightarrow> None),
      pf_recognizer_id = rf_recognizer_id item, pf_recognizer_version = rf_recognizer_version item\<rparr>"

definition build_pii_scan_assertion ::
  "platform \<Rightarrow> unicode_db \<Rightarrow> regex_env \<Rightarrow> pystr \<Rightarrow> pystr \<Rightarrow> pii_scan_config \<Rightarrow> utc_datetime \<Rightarrow> pii_error + pii_scan_assertion" where
  "build_pii_scan_assertion L U R subject_ref text config created_at =
     andThen (active_recognizers L U R config) (\<lambda>recognizers.
     andThen (scan_config_hash L U R config) (\<lambda>config_hash.
       let findings = map (pii_finding_of L (psc_workspace_secret config)) (scan_text R text recognizers) in
       Inr \<lparr>pii_id = derive_assertion_id L (py ''pii'')
              [JStr subject_ref, JStr (psc_scanner_name config), JStr (psc_scanner_version config), JStr config_hash,
               JStr (hash_canonical L (JList (map (\<lambda>f. JList [JStr (pf_entity_type f), JInt (int (pf_start f)), JInt (int (pf_end f))]) findings)))],
            pii_subject_ref = subject_ref, pii_created_at = created_at,
            pii_scanner = \<lparr>scn_name = psc_scanner_name config, scn_version = psc_scanner_version config,
                           scn_language = Some (psc_language config), scn_config_hash = Some config_hash\<rparr>,
            pii_status = (if findings \<noteq> [] then FindingsDetected else NoFindingsDetected),
            pii_findings = findings, pii_extensions = None\<rparr>))"

lemma finding_at_item:
  assumes "x \<in> set (finding_at rc s place)"
  shows "place = (rf_start x, rf_end x)" "rf_raw_value x = take (rf_end x - rf_start x) (drop (rf_start x) s)"
    "rf_entity_type x = rc_entity_type rc" "case rc_validator rc of None \<Rightarrow> True | Some valid \<Rightarrow> valid (rf_raw_value x)"
  using assms by (cases place; cases "rc_validator rc"; simp add: finding_at_def Let_def split: if_splits)+

lemma scan_text_item:
  assumes "x \<in> set (scan_text R s rcs)"
  obtains rc where "rc \<in> set rcs" "(rf_start x, rf_end x) \<in> set (rc_finditer rc s)" "rf_entity_type x = rc_entity_type rc"
    "rf_raw_value x = take (rf_end x - rf_start x) (drop (rf_start x) s)"
    "case rc_validator rc of None \<Rightarrow> True | Some valid \<Rightarrow> valid (rf_raw_value x)"
proof -
  obtain rc place where "rc \<in> set rcs" "place \<in> set (rc_finditer rc s)" "x \<in> set (finding_at rc s place)"
    using assms by (auto simp: scan_text_def scan_one_def split: if_splits)
  then show ?thesis
    using that [of rc] finding_at_item [of x rc s place] by simp
qed

section \<open>Checksums\<close>

lemma luhn_total_update:
  assumes "k < length ds"
  shows "luhn_total i (ds[k := d]) + luhn_term (i + k) (ds ! k) = luhn_total i ds + luhn_term (i + k) d"
  using assms
proof (induction ds arbitrary: i k)
  case (Cons x ds)
  show ?case
  proof (cases k)
    case (Suc j)
    then show ?thesis using Cons.IH [of j "i + 1"] Cons.prems by simp
  qed simp
qed simp

lemma luhn_term_inj:
  assumes "luhn_term i a mod 10 = luhn_term i b mod 10" "a < 10" "b < 10"
  shows "a = b"
proof -
  have "a \<in> {0, 1, 2, 3, 4, 5, 6, 7, 8, 9}" "b \<in> {0, 1, 2, 3, 4, 5, 6, 7, 8, 9}"
    using assms by auto
  then show ?thesis
    using assms(1) by (cases "i mod 2 = 1") (auto simp: luhn_term_def Let_def)
qed

lemma mod_cancel: "a + x = b + y \<Longrightarrow> a mod 10 = 0 \<Longrightarrow> b mod 10 = 0 \<Longrightarrow> x mod 10 = y mod (10 :: nat)"
  by (metis add_0 mod_add_left_eq)

text \<open>The check digit catches every misread digit.\<close>

lemma luhn_single_error:
  assumes "luhn_total 0 ds mod 10 = 0" "k < length ds" "ds ! k < 10" "d < 10" "d \<noteq> ds ! k"
  shows "luhn_total 0 (ds[k := d]) mod 10 \<noteq> 0"
proof
  assume "luhn_total 0 (ds[k := d]) mod 10 = 0"
  then have "luhn_term k (ds ! k) mod 10 = luhn_term k d mod 10"
    using mod_cancel [OF luhn_total_update [OF assms(2), of 0 d, simplified] _ assms(1)] by simp
  then show False using luhn_term_inj [of k "ds ! k" d] assms by auto
qed

section \<open>Properties\<close>

text \<open>
  A credit-card match is protected against misreading: changing any one digit of a number that
  passes the validation gives a number that fails it.
\<close>

theorem card_single_digit_error:
  assumes "validate_credit_card U (a @ c # b)" "digit_value U c = Some d" "digit_value U c' = Some d'"
    and "d \<noteq> d'" "d < 10" "d' < 10"
  shows "\<not> validate_credit_card U (a @ c' # b)"
proof -
  let ?x = "digits_of U a" and ?y = "digits_of U b"
  have digits: "digits_of U (a @ c # b) = ?x @ c # ?y" "digits_of U (a @ c' # b) = ?x @ c' # ?y"
    using assms(2,3) by (simp_all add: digits_of_def)
  let ?ds = "map (int_of_char U) (rev (?x @ c # ?y))"
  let ?k = "length ?y"
  have k: "?k < length ?ds" "?ds ! ?k = d" "?ds[?k := d'] = map (int_of_char U) (rev (?x @ c' # ?y))"
    using assms(2,3) by (simp_all add: nth_append list_update_append int_of_char_def)
  have "luhn_total 0 ?ds mod 10 = 0"
    using assms(1) digits by (simp add: validate_credit_card_def luhn_valid_def Let_def)
  then have "luhn_total 0 (?ds[?k := d']) mod 10 \<noteq> 0"
    using luhn_single_error [of ?ds ?k d'] k assms(4-6) by simp
  then show ?thesis
    using k(3) digits by (simp add: validate_credit_card_def luhn_valid_def Let_def)
qed

theorem card_single_digit_error_witness:
  "\<not> validate_credit_card sample_unicode (py ''411111111111111'' @ 50 # [])"
proof -
  have "validate_credit_card sample_unicode (py ''411111111111111'' @ 49 # [])"
    by (simp add: validate_credit_card_def digits_of_def luhn_valid_def luhn_term_def int_of_char_def sample_unicode_def is_digit_def py_def Let_def)
  then show ?thesis
    by (rule card_single_digit_error [where c = 49 and d = 1 and d' = 2]) (simp_all add: sample_unicode_def is_digit_def)
qed

definition masked_generic :: "pystr \<Rightarrow> pystr \<Rightarrow> bool" where
  "masked_generic raw shown \<longleftrightarrow> length shown = length raw \<and>
     take (length raw - 4) shown = replicate (length raw - 4) 42 \<and> (length raw \<le> 4 \<longrightarrow> set shown \<subseteq> {42})"

definition masked_email :: "pystr \<Rightarrow> pystr \<Rightarrow> bool" where
  "masked_email raw shown \<longleftrightarrow>
     (\<exists>loc label domain_rest. raw = loc @ [64] @ label @ domain_rest \<and> (domain_rest = [] \<or> hd domain_rest = 46) \<and>
        shown = take (if 2 < length loc then 2 else 1) loc @ py ''***@'' @ take (if 2 < length label then 2 else 1) label
          @ py ''***'' @ (if domain_rest = [46] then [] else domain_rest))"

lemma masked_generic_mask: "masked_generic raw (mask_generic raw 4)"
  by (auto simp: masked_generic_def mask_generic_def)

lemma masked_email_mask: "masked_email raw (mask_email raw) \<or> masked_generic raw (mask_email raw)"
proof -
  obtain loc f domain where p: "partition_at 64 raw = (loc, f, domain)" by (metis prod_cases3)
  obtain label g tld where q: "partition_at 46 domain = (label, g, tld)" by (metis prod_cases3)
  note rp = partition_at_split [OF p] and rq = partition_at_split [OF q]
  show ?thesis
  proof (cases "domain = []")
    case True
    then show ?thesis using masked_generic_mask by (simp add: mask_email_def p)
  next
    case False
    then have "raw = loc @ [64] @ label @ (if g then 46 # tld else [])"
      using rp rq by (auto split: if_splits)
    moreover have "mask_email raw = mask_part loc @ [64] @ mask_part label @ (if tld \<noteq> [] then [46] @ tld else [])"
      using False by (simp add: mask_email_def p q)
    moreover have "py ''***@'' = py ''***'' @ [64]" by (simp add: py_def)
    ultimately have "masked_email raw (mask_email raw)"
      unfolding masked_email_def mask_part_def
      using rq by (intro exI [of _ loc] exI [of _ label] exI [of _ "if g then 46 # tld else []"]) simp
    then show ?thesis by simp
  qed
qed

text \<open>
  No evidence carries a raw value: every finding of a scan assertion shows of its match at most
  the last four characters, or, for an e-mail address, at most two characters of the local part
  and of the first domain label beside the remaining domain; without a workspace secret it
  carries no keyed hash, and with one only the HMAC under the derived key.
\<close>

theorem pii_evidence_masked:
  assumes "build_pii_scan_assertion L U R subject text config t = Inr a"
  shows "list_all (\<lambda>f. \<exists>raw shown. raw = take (pf_end f - pf_start f) (drop (pf_start f) text) \<and>
      pf_masked_preview f = Some shown \<and> (masked_generic raw shown \<or> pf_entity_type f = py ''EMAIL_ADDRESS'' \<and> masked_email raw shown) \<and>
      pf_value_hmac f = (case psc_workspace_secret config of None \<Rightarrow> None | Some secret \<Rightarrow>
        if secret = [] then None else Some (hexlify (hmac_sha256 (hkdf L secret HMAC_DOMAIN_INFO) (utf8_encode raw))))) (pii_findings a)"
proof -
  obtain rcs where f: "pii_findings a = map (pii_finding_of L (psc_workspace_secret config)) (scan_text R text rcs)"
    using assms by (auto simp: build_pii_scan_assertion_def andThen_Inr_iff Let_def)
  have raw: "rf_raw_value x = take (rf_end x - rf_start x) (drop (rf_start x) text)" if "x \<in> set (scan_text R text rcs)" for x
    using that by (rule scan_text_item)
  have one: "masked_generic raw (mask_value ty raw) \<or> ty = py ''EMAIL_ADDRESS'' \<and> masked_email raw (mask_value ty raw)" for ty raw
    using masked_generic_mask [of raw] masked_email_mask [of raw] by (auto simp: mask_value_def)
  have hmac: "pf_value_hmac (pii_finding_of L sec x) = (case sec of None \<Rightarrow> None | Some secret \<Rightarrow>
        if secret = [] then None else Some (hexlify (hmac_sha256 (hkdf L secret HMAC_DOMAIN_INFO) (utf8_encode (rf_raw_value x)))))" for sec x
    by (simp add: pii_finding_of_def compute_value_hmac_def derive_value_hmac_key_def split: option.splits)
  have rest: "pf_start (pii_finding_of L sec x) = rf_start x" "pf_end (pii_finding_of L sec x) = rf_end x"
    "pf_entity_type (pii_finding_of L sec x) = rf_entity_type x"
    "pf_masked_preview (pii_finding_of L sec x) = Some (mask_value (rf_entity_type x) (rf_raw_value x))" for sec x
    by (simp_all add: pii_finding_of_def)
  show ?thesis
    unfolding f list_all_iff
  proof
    fix y assume "y \<in> set (map (pii_finding_of L (psc_workspace_secret config)) (scan_text R text rcs))"
    then obtain x where x: "x \<in> set (scan_text R text rcs)" "y = pii_finding_of L (psc_workspace_secret config) x" by auto
    show "\<exists>raw shown. raw = take (pf_end y - pf_start y) (drop (pf_start y) text) \<and>
      pf_masked_preview y = Some shown \<and> (masked_generic raw shown \<or> pf_entity_type y = py ''EMAIL_ADDRESS'' \<and> masked_email raw shown) \<and>
      pf_value_hmac y = (case psc_workspace_secret config of None \<Rightarrow> None | Some secret \<Rightarrow>
        if secret = [] then None else Some (hexlify (hmac_sha256 (hkdf L secret HMAC_DOMAIN_INFO) (utf8_encode raw))))"
      unfolding x(2) rest hmac
      by (rule exI [of _ "rf_raw_value x"], rule exI [of _ "mask_value (rf_entity_type x) (rf_raw_value x)"])
        (use raw [OF x(1)] one [of "rf_raw_value x" "rf_entity_type x"] in simp)
  qed
qed

theorem pii_evidence_masked_witness:
  "\<exists>a. build_pii_scan_assertion sample_platform sample_unicode
       \<lparr>safe_load = (\<lambda>s. None), re_compile = (\<lambda>p. None), float_of_str = (\<lambda>s. None), times_out = (\<lambda>rc s. False)\<rparr> (py ''s'') (py ''123-45-6789'')
       \<lparr>psc_scanner_name = py ''n'', psc_scanner_version = py ''1'', psc_language = py ''und'', psc_custom_recognizers_yaml = None,
        psc_workspace_secret = None\<rparr> sample_time = Inr a \<and> list_all (\<lambda>f. pf_value_hmac f = None) (pii_findings a)"
proof -
  let ?R = "\<lparr>safe_load = (\<lambda>s. None), re_compile = (\<lambda>p. None), float_of_str = (\<lambda>s. None), times_out = (\<lambda>rc s. False)\<rparr>"
  let ?c = "\<lparr>psc_scanner_name = py ''n'', psc_scanner_version = py ''1'', psc_language = py ''und'', psc_custom_recognizers_yaml = None,
        psc_workspace_secret = None\<rparr>"
  obtain a where a: "build_pii_scan_assertion sample_platform sample_unicode ?R (py ''s'') (py ''123-45-6789'') ?c sample_time = Inr a"
    by (simp add: build_pii_scan_assertion_def active_recognizers_def scan_config_hash_def Let_def)
  show ?thesis using pii_evidence_masked [OF a] a by (auto simp: list_all_iff)
qed

end
