(* ===== verification/Signing.thy ===== *)
theory Signing
  imports Manifest
begin

text \<open>
  \<open>ragledger.core.signing\<close>: signing messages, base64url signatures (with the leniency of
  \<open>base64.urlsafe_b64decode\<close>), \<open>sign_manifest\<close> and \<open>verify_manifest\<close>. Ed25519 is
  the \<open>cryptography\<close> package: its operations are a parameter.
\<close>

record ('sk, 'pk) ed25519 =
  public_key :: "'sk \<Rightarrow> 'pk"
  sign :: "'sk \<Rightarrow> bytes \<Rightarrow> bytes"
  verify :: "'pk \<Rightarrow> bytes \<Rightarrow> bytes \<Rightarrow> bool"
  raw_public :: "'pk \<Rightarrow> bytes"

text \<open>What the package documents: a signature verifies under the public half of its key.\<close>

definition signs_correctly :: "('sk, 'pk) ed25519 \<Rightarrow> bool" where
  "signs_correctly E \<longleftrightarrow> (\<forall>sk message. verify E (public_key E sk) (sign E sk message) message)"

section \<open>base64url\<close>

definition b64url_encode :: "bytes \<Rightarrow> pystr" where
  "b64url_encode data = map b64url_digit (bit_groups 6 data)"

text \<open>
  \<open>binascii.a2b_base64\<close> after the translation of \<open>-\<close> and \<open>_\<close>: characters outside
  the alphabet are skipped, a padding sequence that completes a quad ends the data, an
  incomplete quad at the end is an error. \<open>quad\<close> is the position in the quad, \<open>pads\<close>
  the padding seen there.
\<close>

definition b64_value :: "codepoint \<Rightarrow> nat option" where
  "b64_value c = (if c = 43 then Some 62 else if c = 47 then Some 63 else b64url_value c)"

fun b64_scan :: "nat \<Rightarrow> nat \<Rightarrow> pystr \<Rightarrow> nat list option" where
  "b64_scan quad pads [] = (if quad = 0 then Some [] else None)"
| "b64_scan quad pads (c # cs) =
     (if c = 61 then
        (if 2 \<le> quad \<and> 4 \<le> quad + (pads + 1) then Some []
         else b64_scan quad (if 2 \<le> quad then pads + 1 else pads) cs)
      else
        (case b64_value c of
           None \<Rightarrow> b64_scan quad pads cs
         | Some v \<Rightarrow> map_option (Cons v) (b64_scan ((quad + 1) mod 4) 0 cs)))"

definition b64url_decode :: "pystr \<Rightarrow> bytes option" where
  "b64url_decode text =
     map_option (group_bytes 6) (b64_scan 0 0 (text @ replicate (nat (- int (length text) mod 4)) 61))"

section \<open>Signing\<close>

definition DOMAIN_SEPARATOR :: bytes where
  "DOMAIN_SEPARATOR = map of_char ''RAGLEDGER-MANIFEST-V1'' @ [0]"

definition fingerprint :: "('sk, 'pk) ed25519 \<Rightarrow> 'pk \<Rightarrow> pystr" where
  "fingerprint E pk = sha256_hex (raw_public E pk)"

definition signing_message :: "platform \<Rightarrow> manifest_envelope \<Rightarrow> pystr \<times> bytes" where
  "signing_message L m = (let digest_hex = compute_manifest_hash L m in (digest_hex, DOMAIN_SEPARATOR @ fromhex digest_hex))"

definition sign_manifest ::
  "platform \<Rightarrow> ('sk, 'pk) ed25519 \<Rightarrow> manifest_envelope \<Rightarrow> 'sk \<Rightarrow> utc_datetime \<Rightarrow> pystr option \<Rightarrow> manifest_envelope" where
  "sign_manifest L E m private_key signed_at issuer =
     (case signing_message L m of (digest_hex, message) \<Rightarrow>
        (let record = \<lparr>sig_key_id = fingerprint E (public_key E private_key),
                       sig_signature = b64url_encode (sign E private_key message),
                       sig_signed_at = signed_at, sig_issuer = issuer\<rparr>
         in m\<lparr>mf_integrity := (mf_integrity m)\<lparr>int_manifest_hash := digest_hex\<rparr>, mf_signatures := mf_signatures m @ [record]\<rparr>))"

section \<open>Verification\<close>

datatype signature_status = SigValid | SigInvalid | SigUnknownKey

datatype verification_overall = VALID_TRUSTED | VALID_UNTRUSTED | INVALID | INCOMPLETE

record signature_verification =
  sv_key_id :: pystr
  sv_status :: signature_status

record verification_result =
  vr_hash_valid :: bool
  vr_signatures :: "signature_verification list"
  vr_overall :: verification_overall

datatype signing_error = BinasciiError

definition verify_signature ::
  "('sk, 'pk) ed25519 \<Rightarrow> (pystr \<Rightarrow> 'pk option) \<Rightarrow> bytes \<Rightarrow> signature_record \<Rightarrow> signing_error + signature_verification" where
  "verify_signature E trusted_keys message record =
     (case trusted_keys (sig_key_id record) of
        None \<Rightarrow> Inr \<lparr>sv_key_id = sig_key_id record, sv_status = SigUnknownKey\<rparr>
      | Some pk \<Rightarrow>
          (case b64url_decode (sig_signature record) of
             None \<Rightarrow> Inl BinasciiError
           | Some s \<Rightarrow> Inr \<lparr>sv_key_id = sig_key_id record, sv_status = (if verify E pk s message then SigValid else SigInvalid)\<rparr>))"

definition overall_status :: "bool \<Rightarrow> signature_verification list \<Rightarrow> verification_overall" where
  "overall_status hash_valid results =
     (if \<not> hash_valid then INVALID
      else if results = [] then INCOMPLETE
      else if list_ex (\<lambda>r. sv_status r = SigValid) results then VALID_TRUSTED
      else if list_ex (\<lambda>r. sv_status r = SigUnknownKey) results then VALID_UNTRUSTED
      else INVALID)"

definition verify_manifest ::
  "platform \<Rightarrow> ('sk, 'pk) ed25519 \<Rightarrow> manifest_envelope \<Rightarrow> (pystr \<Rightarrow> 'pk option) \<Rightarrow> signing_error + verification_result" where
  "verify_manifest L E m trusted_keys =
     (case signing_message L m of (digest_hex, message) \<Rightarrow>
        (let hash_valid = (digest_hex = int_manifest_hash (mf_integrity m))
         in andThen (collect (map (verify_signature E trusted_keys message) (mf_signatures m)))
              (\<lambda>results. Inr \<lparr>vr_hash_valid = hash_valid, vr_signatures = results, vr_overall = overall_status hash_valid results\<rparr>)))"

section \<open>The encoding round trip\<close>

lemma length_chunks: "0 < w \<Longrightarrow> length (chunks w xs) = (length xs + w - 1) div w"
proof (induction w xs rule: chunks.induct)
  case (1 w xs)
  show ?case
  proof (cases "length xs \<le> w")
    case True
    then have "(length xs + w - 1) div w = (if xs = [] then 0 else 1)"
      using "1.prems" by (cases xs) (auto simp: div_nat_eqI)
    then show ?thesis
      using True "1.prems" by (cases "xs = []") (simp_all add: chunks_step)
  next
    case False
    then have "xs \<noteq> []" by auto
    then have "length (chunks w xs) = Suc ((length xs - w + w - 1) div w)"
      using 1 False by (subst chunks_step) auto
    also have "\<dots> = (length xs + w - 1) div w"
      using False "1.prems" by (simp add: le_div_geq)
    finally show ?thesis .
  qed
qed

lemma b64_value_digit [simp]: "d < 64 \<Longrightarrow> b64_value (b64url_digit d) = Some d"
proof -
  assume d: "d < 64"
  then have "b64url_digit d \<noteq> 43" "b64url_digit d \<noteq> 47"
    by (auto simp: b64url_digit_def)
  then show ?thesis using d by (simp add: b64_value_def)
qed

definition b64_chars :: "pystr \<Rightarrow> bool" where
  "b64_chars text = list_all (\<lambda>c. c \<noteq> 61 \<and> b64_value c \<noteq> None) text"

lemma b64_scan_chars:
  assumes "b64_chars ds" "q < 4"
  shows "b64_scan q p (ds @ rest) =
    map_option ((@) (map (the \<circ> b64_value) ds)) (b64_scan ((q + length ds) mod 4) (if ds = [] then p else 0) rest)"
  using assms
proof (induction ds arbitrary: q p)
  case Nil
  then show ?case by (cases "b64_scan q p rest") auto
next
  case (Cons c ds)
  then obtain v where v: "b64_value c = Some v" "c \<noteq> 61" "b64_chars ds" by (auto simp: b64_chars_def)
  have "(Suc q mod 4 + length ds) mod 4 = (q + length (c # ds)) mod 4"
    by (simp add: mod_add_left_eq)
  then show ?case
    using Cons.IH [OF v(3), of "Suc q mod 4" 0] v by (simp add: option.map_comp comp_def)
qed

lemma b64_scan_padding:
  assumes that: "q = n mod 4"
  shows "b64_scan q 0 (replicate (nat (- int n mod 4)) 61) = (if q = 1 then None else Some [])"
proof -
  have "n mod 4 < 4" by simp
  then consider "n mod 4 = 0" | "n mod 4 = 1" | "n mod 4 = 2" | "n mod 4 = 3" by linarith
  then show ?thesis
  proof cases
    case 1
    then have "- int n mod 4 = 0" by presburger
    then show ?thesis using that 1 by simp
  next
    case 2
    then have "- int n mod 4 = 3" by presburger
    then show ?thesis using that 2 by (simp add: numeral_3_eq_3)
  next
    case 3
    then have "- int n mod 4 = 2" by presburger
    then show ?thesis using that 3 by (simp add: numeral_2_eq_2)
  next
    case 4
    then have "- int n mod 4 = 1" by presburger
    then show ?thesis using that 4 by simp
  qed
qed

lemma b64url_decode_chars:
  assumes "b64_chars text"
  shows "b64url_decode text =
    (if length text mod 4 = 1 then None else Some (group_bytes 6 (map (the \<circ> b64_value) text)))"
proof -
  have "b64_scan 0 0 (text @ replicate (nat (- int (length text) mod 4)) 61) =
      map_option ((@) (map (the \<circ> b64_value) text)) (b64_scan (length text mod 4) 0 (replicate (nat (- int (length text) mod 4)) 61))"
    using b64_scan_chars [OF assms, of 0 0] by simp
  then show ?thesis
    by (simp add: b64url_decode_def b64_scan_padding)
qed

lemma b64url_decode_encode [simp]: "b64url_decode (b64url_encode data) = Some data"
proof -
  have less: "g < 64" if "g \<in> set (bit_groups 6 data)" for g
    using bit_groups_less [OF that] by simp
  have "b64url_digit d \<noteq> 61" if "d < 64" for d
    using that by (auto simp: b64url_digit_def)
  then have chars: "b64_chars (b64url_encode data)"
    using less by (auto simp: b64_chars_def b64url_encode_def list_all_iff)
  have "map (the \<circ> b64_value) (b64url_encode data) = bit_groups 6 data"
    using less by (auto simp: b64url_encode_def intro!: map_idI)
  moreover have "length (b64url_encode data) mod 4 \<noteq> 1"
  proof -
    have "length (b64url_encode data) = (8 * length data + 5) div 6"
      by (simp add: b64url_encode_def bit_groups_def length_chunks)
    then show ?thesis by presburger
  qed
  ultimately show ?thesis
    using chars by (simp add: b64url_decode_chars group_bytes_bit_groups)
qed

section \<open>Verification\<close>

lemma signing_message_signed [simp]:
  "signing_message L (sign_manifest L E m sk t iss) = signing_message L m"
  by (simp add: sign_manifest_def signing_message_def Let_def)

lemma sign_manifest_simps:
  "int_manifest_hash (mf_integrity (sign_manifest L E m sk t iss)) = compute_manifest_hash L m"
  "mf_signatures (sign_manifest L E m sk t iss) = mf_signatures m @
     [\<lparr>sig_key_id = fingerprint E (public_key E sk), sig_signature = b64url_encode (sign E sk (snd (signing_message L m))),
       sig_signed_at = t, sig_issuer = iss\<rparr>]"
  by (simp_all add: sign_manifest_def signing_message_def Let_def)

lemma verify_manifest_Inr:
  assumes "verify_manifest L E m keys = Inr r"
  shows "vr_hash_valid r \<longleftrightarrow> compute_manifest_hash L m = int_manifest_hash (mf_integrity m)"
    "map (verify_signature E keys (snd (signing_message L m))) (mf_signatures m) = map Inr (vr_signatures r)"
    "vr_overall r = overall_status (vr_hash_valid r) (vr_signatures r)"
  using assms by (auto simp: verify_manifest_def Let_def signing_message_def collect_Inr_iff)

lemma list_ex_map_Inr:
  "map f ss = map Inr vs \<Longrightarrow> (\<And>s v. f s = Inr v \<Longrightarrow> P v \<longleftrightarrow> Q s) \<Longrightarrow> list_ex P vs \<longleftrightarrow> list_ex Q ss"
  by (induction ss arbitrary: vs) (auto simp: Cons_eq_map_conv)

lemma verify_signature_valid_iff:
  "verify_signature E keys message s = Inr v \<Longrightarrow> sv_status v = SigValid \<longleftrightarrow>
    (\<exists>pk sg. keys (sig_key_id s) = Some pk \<and> b64url_decode (sig_signature s) = Some sg \<and> verify E pk sg message)"
  by (auto simp: verify_signature_def split: option.splits if_splits)

text \<open>
  Signing and verifying agree: a manifest signed with a key whose public half is trusted under
  its fingerprint verifies as \<open>VALID_TRUSTED\<close> with an intact hash, whatever hash it carried
  before and whatever well-formed signatures it already had.
\<close>

theorem sign_then_verify:
  assumes "signs_correctly E"
    and "keys (fingerprint E (public_key E sk)) = Some (public_key E sk)"
    and "list_all (\<lambda>s. b64url_decode (sig_signature s) \<noteq> None) (mf_signatures m)"
  shows "\<exists>r. verify_manifest L E (sign_manifest L E m sk t iss) keys = Inr r \<and> vr_hash_valid r \<and> vr_overall r = VALID_TRUSTED"
proof -
  let ?msg = "snd (signing_message L m)"
  have earlier: "\<exists>v. verify_signature E keys ?msg s = Inr v" if "s \<in> set (mf_signatures m)" for s
    using assms(3) that by (auto simp: verify_signature_def list_all_iff split: option.splits)
  obtain vs where vs: "collect (map (verify_signature E keys ?msg) (mf_signatures m)) = Inr vs"
    using collect_total [of "map (verify_signature E keys ?msg) (mf_signatures m)"] earlier by auto
  have "signing_message L m = (compute_manifest_hash L m, ?msg)"
    by (simp add: signing_message_def Let_def)
  then show ?thesis
    using assms(1,2) vs
    by (auto simp: verify_manifest_def sign_manifest_simps collect_append verify_signature_def signs_correctly_def overall_status_def Let_def
        split: prod.splits)
qed

definition sample_scheme :: "(byte, byte) ed25519" where
  "sample_scheme = \<lparr>public_key = id, sign = (\<lambda>sk message. sk # message), verify = (\<lambda>pk s message. s = pk # message), raw_public = (\<lambda>pk. [pk])\<rparr>"

lemma verify_manifest_unsigned:
  assumes "mf_signatures m = []"
  obtains r where "verify_manifest L E m keys = Inr r" "vr_signatures r = []"
  using assms that by (cases "signing_message L m") (simp add: verify_manifest_def Let_def)

lemma sample_unsigned: "mf_signatures sample_manifest = []"
  by (simp add: sample_manifest_def)

lemma sample_scheme_correct: "signs_correctly sample_scheme"
  by (simp add: signs_correctly_def sample_scheme_def)

theorem sign_then_verify_witness:
  "\<exists>r. verify_manifest sample_platform sample_scheme (sign_manifest sample_platform sample_scheme sample_manifest 7 sample_time None) (\<lambda>i. Some 7) = Inr r
     \<and> vr_hash_valid r \<and> vr_overall r = VALID_TRUSTED"
  by (rule sign_then_verify [OF sample_scheme_correct]) (simp_all add: sample_scheme_def sample_manifest_def)

text \<open>
  C34. What a trusted verdict means: the stored hash is the hash of the signing view, and some
  attached signature was made over exactly that hash and verifies under the key trusted for its
  key id; conversely those facts give the verdict.
\<close>

theorem trusted_verdict_exact:
  assumes "verify_manifest L E m keys = Inr r"
  shows "vr_overall r = VALID_TRUSTED \<longleftrightarrow>
    compute_manifest_hash L m = int_manifest_hash (mf_integrity m) \<and>
    list_ex (\<lambda>s. \<exists>pk sg. keys (sig_key_id s) = Some pk \<and> b64url_decode (sig_signature s) = Some sg \<and>
      verify E pk sg (DOMAIN_SEPARATOR @ fromhex (compute_manifest_hash L m))) (mf_signatures m)"
proof -
  let ?msg = "DOMAIN_SEPARATOR @ fromhex (compute_manifest_hash L m)"
  have msg: "snd (signing_message L m) = ?msg" by (simp add: signing_message_def Let_def)
  note v = verify_manifest_Inr [OF assms, unfolded msg]
  have "list_ex (\<lambda>x. sv_status x = SigValid) (vr_signatures r) \<longleftrightarrow>
      list_ex (\<lambda>s. \<exists>pk sg. keys (sig_key_id s) = Some pk \<and> b64url_decode (sig_signature s) = Some sg \<and> verify E pk sg ?msg) (mf_signatures m)"
    using v(2) verify_signature_valid_iff by (rule list_ex_map_Inr)
  then show ?thesis
    using v(1,3) by (auto simp: overall_status_def)
qed

theorem trusted_verdict_exact_witness:
  "\<exists>r. verify_manifest sample_platform sample_scheme sample_manifest (\<lambda>i. Some 7) = Inr r \<and> vr_overall r \<noteq> VALID_TRUSTED"
proof -
  obtain r where r: "verify_manifest sample_platform sample_scheme sample_manifest (\<lambda>i. Some 7) = Inr r"
    using verify_manifest_unsigned [OF sample_unsigned] by blast
  then show ?thesis
    using trusted_verdict_exact [OF r] sample_unsigned by simp
qed

text \<open>
  Countersigning is safe: adding a signature leaves the signed content as it is, every
  earlier signature keeps its status, and the new one is checked after them.
\<close>

theorem countersigning_keeps_statuses:
  assumes "verify_manifest L E m keys = Inr r" "verify_manifest L E (sign_manifest L E m sk t iss) keys = Inr r'"
  shows "signing_view_bytes L (sign_manifest L E m sk t iss) = signing_view_bytes L m \<and> vr_hash_valid r' \<and>
    (\<exists>v. vr_signatures r' = vr_signatures r @ [v] \<and> sv_key_id v = fingerprint E (public_key E sk))"
proof -
  let ?f = "verify_signature E keys (snd (signing_message L m))"
  note v = verify_manifest_Inr [OF assms(1)] and v' = verify_manifest_Inr [OF assms(2)]
  have "signing_view (sign_manifest L E m sk t iss) = signing_view m"
    by (simp add: sign_manifest_def split: prod.splits)
  then have same: "signing_view_bytes L (sign_manifest L E m sk t iss) = signing_view_bytes L m"
    "compute_manifest_hash L (sign_manifest L E m sk t iss) = compute_manifest_hash L m"
    by (simp_all add: signing_view_bytes_def compute_manifest_hash_def)
  obtain s where s: "mf_signatures (sign_manifest L E m sk t iss) = mf_signatures m @ [s]"
    "sig_key_id s = fingerprint E (public_key E sk)"
    by (simp add: sign_manifest_simps)
  obtain x where "vr_signatures r' = vr_signatures r @ [x]" "?f s = Inr x"
    using v(2) v'(2) by (auto simp: s(1) append_eq_map_conv inj_map_eq_map)
  moreover from this have "sv_key_id x = sig_key_id s"
    by (auto simp: verify_signature_def split: option.splits)
  ultimately show ?thesis
    using same v'(1) s(2) by (simp add: sign_manifest_simps)
qed

theorem countersigning_keeps_statuses_witness:
  "\<exists>v. vr_signatures (projr (verify_manifest sample_platform sample_scheme
      (sign_manifest sample_platform sample_scheme sample_manifest 7 sample_time None) (\<lambda>i. Some 7))) = [v]"
proof -
  obtain r where r: "verify_manifest sample_platform sample_scheme sample_manifest (\<lambda>i. Some 7) = Inr r" "vr_signatures r = []"
    using verify_manifest_unsigned [OF sample_unsigned] by blast
  obtain r' where r': "verify_manifest sample_platform sample_scheme (sign_manifest sample_platform sample_scheme sample_manifest 7 sample_time None)
      (\<lambda>i. Some 7) = Inr r'"
    by (cases "signing_message sample_platform sample_manifest")
      (simp add: verify_manifest_def sign_manifest_simps sample_unsigned verify_signature_def Let_def)
  show ?thesis
    using countersigning_keeps_statuses [OF r(1) r'] r(2) r' by auto
qed

text \<open>
  A malformed signature is not reported as invalid but escapes as an exception: one trusted
  signature whose text has length 1 modulo 4 makes \<open>verify_manifest\<close> raise, whatever the
  other signatures are.
\<close>

theorem malformed_signature_raises:
  assumes "s \<in> set (mf_signatures m)" "keys (sig_key_id s) \<noteq> None"
    and "b64_chars (sig_signature s)" "length (sig_signature s) mod 4 = 1"
  shows "verify_manifest L E m keys = Inl BinasciiError"
proof -
  let ?f = "verify_signature E keys (snd (signing_message L m))"
  have bad: "?f s = Inl BinasciiError"
    using assms by (auto simp: verify_signature_def b64url_decode_chars split: option.splits)
  have "collect (map ?f (mf_signatures m)) = Inl BinasciiError"
  proof (cases "collect (map ?f (mf_signatures m))")
    case (Inl e)
    then show ?thesis by (cases e) simp
  next
    case (Inr vs)
    then have "?f s \<in> set (map Inr vs)"
      using assms(1) unfolding collect_Inr_iff by (metis image_eqI list.set_map)
    then show ?thesis using bad by auto
  qed
  then show ?thesis by (cases "signing_message L m") (simp add: verify_manifest_def Let_def)
qed

theorem malformed_signature_raises_witness:
  "verify_manifest sample_platform sample_scheme
     (sample_manifest\<lparr>mf_signatures := [\<lparr>sig_key_id = py ''k'', sig_signature = py ''A'', sig_signed_at = sample_time, sig_issuer = None\<rparr>]\<rparr>)
     (\<lambda>i. Some 7) = Inl BinasciiError"
  by (rule malformed_signature_raises [where s = "\<lparr>sig_key_id = py ''k'', sig_signature = py ''A'', sig_signed_at = sample_time, sig_issuer = None\<rparr>"])
    (simp_all add: b64_chars_def b64_value_def b64url_value_def py_def)

end
