(* ===== verification/Parse_Plain.thy ===== *)
theory Parse_Plain
  imports Stage_Cache Py_Regex
begin

text \<open>
  The contract of \<open>ragledger.pipeline.parsers.base\<close> and the parsers of plain text, JSON, CSV
  and PDF. A parser returns an outcome, or raises. What a parser reads of its surroundings is a
  record: the text of exceptions, codecs other than UTF-8, the YAML and PDF libraries, the
  elapsed time, and what \<open>json\<close> does with the constants and sizes that JSON does not have.
\<close>

section \<open>The contract\<close>

record parse_limits =
  pl_max_input_bytes :: nat
  pl_max_pages :: nat
  pl_max_output_bytes :: nat
  pl_timeout_seconds :: float64
  pl_max_memory_bytes :: "nat option"

record parser_descriptor =
  pd_name :: pystr
  pd_version :: pystr
  pd_package_distributions :: "pystr list"

datatype parse_exception = ParserRaises pystr

datatype decoded = Decoded pystr | DecodeError pystr | DecodeRaises pystr

text \<open>A YAML mapping is given in the form its JSON dump has; a mapping with keys that are no
  strings fails the validation of \<open>LedgerDocument\<close>.\<close>

datatype yaml_load = YamlError | YamlMapping dict | YamlOtherMapping pystr | YamlOther

datatype pdf_load = PdfRaises pystr | PdfEncrypted | PdfPages "(pystr + pystr) list"

datatype csv_error = NewlineInUnquoted | FieldTooLarge

datatype html_event = StartTag pystr | EndTag pystr | Data pystr

record parse_env =
  pe_elapsed :: float64
  pe_decode_message :: "bytes \<Rightarrow> pystr"
  pe_other_codec :: "pystr \<Rightarrow> bytes \<Rightarrow> decoded"
  pe_json_message :: "pystr \<Rightarrow> pystr"
  pe_json_beyond :: "pystr \<Rightarrow> (parse_exception + ledger_element list) option"
  pe_csv_message :: "csv_error \<Rightarrow> pystr"
  pe_safe_load :: "pystr \<Rightarrow> yaml_load"
  pe_pdf :: "bytes \<Rightarrow> pdf_load"
  pe_pdf_version :: pystr
  pe_html_events :: "pystr \<Rightarrow> pystr + html_event list"
  pe_validation_message :: pystr

text \<open>\<open>data.decode(encoding)\<close>: \<open>LookupError\<close> and \<open>UnicodeDecodeError\<close> are caught, another
  exception (an encoding that is no string) is not.\<close>

definition decode_text :: "parse_env \<Rightarrow> json \<Rightarrow> bytes \<Rightarrow> decoded" where
  "decode_text E encoding data =
     (case encoding of
        JStr s \<Rightarrow>
          if s = py ''utf-8''
          then (case utf8_decode data of Some t \<Rightarrow> Decoded t | None \<Rightarrow> DecodeError (pe_decode_message E data))
          else pe_other_codec E s data
      | _ \<Rightarrow> DecodeRaises (py ''TypeError''))"

definition outcome_of ::
  "parse_env \<Rightarrow> bytes \<Rightarrow> parse_status \<Rightarrow> ledger_document option \<Rightarrow> warning_record list \<Rightarrow> pystr list \<Rightarrow> parse_outcome" where
  "outcome_of E data status document warnings errors =
     \<lparr>po_status = status, po_document = document, po_warnings = warnings, po_errors = errors, po_ocr = None,
      po_consumed_input_hash = hash_raw_bytes data, po_duration_seconds = pe_elapsed E\<rparr>"

definition fail_with :: "parse_env \<Rightarrow> bytes \<Rightarrow> pystr \<Rightarrow> parse_exception + parse_outcome" where
  "fail_with E data e = Inr (outcome_of E data ParseFail None [] [e])"

definition succeed_with ::
  "parse_env \<Rightarrow> bytes \<Rightarrow> warning_record list \<Rightarrow> ledger_element list \<Rightarrow> nat \<Rightarrow> dict option \<Rightarrow> parse_exception + parse_outcome" where
  "succeed_with E data warnings elements page_count frontmatter =
     Inr (outcome_of E data ParseSuccess
       (Some \<lparr>ld_elements = elements, ld_page_count = Some page_count, ld_frontmatter = frontmatter\<rparr>) warnings [])"

text \<open>The head of every parser of text: the size cap, then the decoding.\<close>

definition with_text ::
  "parse_env \<Rightarrow> bytes \<Rightarrow> dict \<Rightarrow> parse_limits \<Rightarrow> (pystr \<Rightarrow> parse_exception + parse_outcome) \<Rightarrow> parse_exception + parse_outcome" where
  "with_text E data config limits k =
     (if length data > pl_max_input_bytes limits then fail_with E data (py ''INPUT_TOO_LARGE'')
      else (case decode_text E (config_get config ''encoding'' (JStr (py ''utf-8''))) data of
              Decoded s \<Rightarrow> k s
            | DecodeError e \<Rightarrow> fail_with E data (py ''DECODE_ERROR: '' @ e)
            | DecodeRaises e \<Rightarrow> Inl (ParserRaises e)))"

text \<open>\<open>LedgerElement(...)\<close>: a \<open>str\<close> field does not validate when it holds a lone surrogate.\<close>

definition element_ok :: "ledger_element \<Rightarrow> bool" where
  "element_ok e \<longleftrightarrow> list_all scalar (le_text e) \<and> list_all (list_all scalar) (le_heading_path e)
     \<and> (case le_table_caption e of None \<Rightarrow> True | Some s \<Rightarrow> list_all scalar s)
     \<and> (case le_table_header e of None \<Rightarrow> True | Some s \<Rightarrow> list_all scalar s)"

definition new_element :: "nat \<Rightarrow> element_kind \<Rightarrow> nat \<Rightarrow> pystr \<Rightarrow> pystr list \<Rightarrow> ledger_element" where
  "new_element i kind order text path =
     \<lparr>le_id = [101] @ show_nat i, le_kind = kind, le_order = order, le_text = text, le_page = None, le_heading_path = path,
      le_parent_id = None, le_confidence = None, le_table_caption = None, le_table_header = None\<rparr>"

definition validated :: "parse_env \<Rightarrow> ledger_element list \<Rightarrow> parse_exception + ledger_element list" where
  "validated E es = (if list_all element_ok es then Inr es else Inl (ParserRaises (pe_validation_message E)))"

text \<open>\<open>validate_config\<close>: the keys that are not allowed, sorted; \<open>sorted\<close> of strings.\<close>

definition unknown_keys :: "pystr list \<Rightarrow> dict \<Rightarrow> pystr list" where
  "unknown_keys allowed config = sorted_set (filter (\<lambda>k. k \<notin> set allowed) (map fst config))"

section \<open>Plain text\<close>

text \<open>\<open>s.split(sep)\<close> for a non-empty separator; \<open>cur\<close> is the current piece, reversed.\<close>

function split_from :: "pystr \<Rightarrow> pystr \<Rightarrow> pystr \<Rightarrow> pystr list" where
  "split_from sep cur s =
     (if sep \<noteq> [] \<and> startswith s sep then rev cur # split_from sep [] (drop (length sep) s)
      else (case s of [] \<Rightarrow> [rev cur] | c # cs \<Rightarrow> split_from sep (c # cur) cs))"
  by pat_completeness auto
termination
proof (relation "measure (\<lambda>(sep, cur, s). length s)", goal_cases)
  case (2 sep cur s)
  then have "s \<noteq> []" by (auto simp: startswith_def)
  then show ?case using 2 by (cases sep) auto
qed simp_all

declare split_from.simps [simp del]

definition split_on :: "pystr \<Rightarrow> pystr \<Rightarrow> pystr list" where
  "split_on sep s = split_from sep [] s"

definition normalize_newlines :: "pystr \<Rightarrow> pystr" where
  "normalize_newlines s = replace_cr (replace_crlf s)"

text \<open>The loop numbers the paragraphs that are not blank.\<close>

definition text_elements :: "pystr \<Rightarrow> ledger_element list" where
  "text_elements s =
     (let paragraphs = filter (\<lambda>p. p \<noteq> []) (map strip (split_on [10, 10] (normalize_newlines s))) in
      map (\<lambda>(i, p). new_element i Paragraph i p []) (enumerate 0 paragraphs))"

definition parse_text :: "parse_env \<Rightarrow> bytes \<Rightarrow> dict \<Rightarrow> parse_limits \<Rightarrow> parse_exception + parse_outcome" where
  "parse_text E data config limits =
     with_text E data config limits (\<lambda>s.
       andThen (validated E (text_elements s)) (\<lambda>es. succeed_with E data [] es 1 None))"

section \<open>JSON\<close>

text \<open>\<open>json.dumps(value, indent=2, sort_keys=True, ensure_ascii=False)\<close>.\<close>

definition escape_basic :: "codepoint \<Rightarrow> pystr" where
  "escape_basic c =
     (case control_escapes c of
        Some e \<Rightarrow> e
      | None \<Rightarrow> if c < 32 then [92, 117] @ hex4 c else [c])"

definition render_string :: "pystr \<Rightarrow> pystr" where
  "render_string s = 34 # concat (map escape_basic s) @ [34]"

definition newline_indent :: "nat \<Rightarrow> pystr" where
  "newline_indent i = 10 # replicate (2 * i) 32"

primrec render_at :: "json \<Rightarrow> nat \<Rightarrow> pystr" where
  "render_at JNull i = py ''null''"
| "render_at (JBool b) i = (if b then py ''true'' else py ''false'')"
| "render_at (JInt n) i = show_int n"
| "render_at (JFloat x) i = repr_float x"
| "render_at (JStr s) i = render_string s"
| "render_at (JList vs) i =
     (if vs = [] then py ''[]''
      else [91] @ newline_indent (i + 1) @ join (44 # newline_indent (i + 1)) (map (\<lambda>f. f (i + 1)) (map render_at vs))
           @ newline_indent i @ [93])"
| "render_at (JObj kvs) i =
     (if kvs = [] then py ''{}''
      else [123] @ newline_indent (i + 1)
           @ join (44 # newline_indent (i + 1))
               (map (\<lambda>m. render_string (fst m) @ [58, 32] @ snd m (i + 1)) (sort_key fst (map (map_prod id render_at) kvs)))
           @ newline_indent i @ [125])"

definition render :: "json \<Rightarrow> pystr" where
  "render v = render_at v 0"

definition json_elements :: "json \<Rightarrow> ledger_element list" where
  "json_elements v =
     (case v of
        JList items \<Rightarrow> map (\<lambda>(i, item). new_element i Paragraph i (render item) [py ''item '' @ show_nat i]) (enumerate 0 items)
      | JObj members \<Rightarrow>
          map (\<lambda>(i, k, item). new_element i Paragraph i (k @ [58, 32] @ render item) [k]) (enumerate 0 (sort_key fst members))
      | _ \<Rightarrow> [new_element 0 Paragraph 0 (render v) []])"

text \<open>\<open>json.loads\<close> of a text.\<close>

definition loads_text :: "pystr \<Rightarrow> json option" where
  "loads_text s =
     (case parse_value (Suc (length s)) (skip_ws s) of
        None \<Rightarrow> None
      | Some (v, r) \<Rightarrow> if skip_ws r = [] then Some v else None)"

definition parse_json :: "parse_env \<Rightarrow> bytes \<Rightarrow> dict \<Rightarrow> parse_limits \<Rightarrow> parse_exception + parse_outcome" where
  "parse_json E data config limits =
     with_text E data config limits (\<lambda>s.
       case pe_json_beyond E s of
         Some r \<Rightarrow> andThen r (\<lambda>es. andThen (validated E es) (\<lambda>es. succeed_with E data [] es 1 None))
       | None \<Rightarrow>
           (case loads_text s of
              None \<Rightarrow> fail_with E data (py ''JSON_DECODE_ERROR: '' @ pe_json_message E s)
            | Some v \<Rightarrow> andThen (validated E (json_elements v)) (\<lambda>es. succeed_with E data [] es 1 None)))"

section \<open>CSV\<close>

text \<open>
  The reader of the \<open>csv\<close> module in its default dialect (quotes doubled within quoted fields,
  not strict), a state machine fed with the characters of a line and then the end of the line
  (\<open>None\<close>).
\<close>

datatype csv_state = StartRecord | StartField | InField | InQuotedField | QuoteInQuotedField | EatCrnl

record csv_reader =
  cv_state :: csv_state
  cv_field :: pystr
  cv_fields :: "pystr list"

definition CSV_FIELD_LIMIT :: nat where
  "CSV_FIELD_LIMIT = 131072"

definition csv_start :: csv_reader where
  "csv_start = \<lparr>cv_state = StartRecord, cv_field = [], cv_fields = []\<rparr>"

definition csv_to :: "csv_state \<Rightarrow> csv_reader \<Rightarrow> csv_reader" where
  "csv_to st r = r\<lparr>cv_state := st\<rparr>"

definition csv_save :: "csv_state \<Rightarrow> csv_reader \<Rightarrow> csv_reader" where
  "csv_save st r = r\<lparr>cv_state := st, cv_field := [], cv_fields := cv_fields r @ [cv_field r]\<rparr>"

definition csv_add :: "csv_state \<Rightarrow> codepoint \<Rightarrow> csv_reader \<Rightarrow> csv_error + csv_reader" where
  "csv_add st c r =
     (if CSV_FIELD_LIMIT \<le> length (cv_field r) then Inl FieldTooLarge
      else Inr (r\<lparr>cv_state := st, cv_field := cv_field r @ [c]\<rparr>))"

definition csv_end :: "codepoint option \<Rightarrow> csv_state option" where
  "csv_end c = (case c of None \<Rightarrow> Some StartRecord | Some n \<Rightarrow> if n = 10 \<or> n = 13 then Some EatCrnl else None)"

definition csv_start_field :: "codepoint \<Rightarrow> csv_reader \<Rightarrow> codepoint option \<Rightarrow> csv_error + csv_reader" where
  "csv_start_field delimiter r c =
     (case csv_end c of
        Some st \<Rightarrow> Inr (csv_save st r)
      | None \<Rightarrow>
          if the c = 34 then Inr (csv_to InQuotedField r)
          else if the c = delimiter then Inr (csv_save StartField r)
          else csv_add InField (the c) r)"

definition csv_step :: "codepoint \<Rightarrow> csv_reader \<Rightarrow> codepoint option \<Rightarrow> csv_error + csv_reader" where
  "csv_step delimiter r c =
     (case cv_state r of
        StartRecord \<Rightarrow>
          (case csv_end c of Some st \<Rightarrow> Inr (csv_to st r) | None \<Rightarrow> csv_start_field delimiter r c)
      | StartField \<Rightarrow> csv_start_field delimiter r c
      | InField \<Rightarrow>
          (case csv_end c of
             Some st \<Rightarrow> Inr (csv_save st r)
           | None \<Rightarrow> if the c = delimiter then Inr (csv_save StartField r) else csv_add InField (the c) r)
      | InQuotedField \<Rightarrow>
          (case c of
             None \<Rightarrow> Inr r
           | Some n \<Rightarrow> if n = 34 then Inr (csv_to QuoteInQuotedField r) else csv_add InQuotedField n r)
      | QuoteInQuotedField \<Rightarrow>
          (case csv_end c of
             Some st \<Rightarrow> Inr (csv_save st r)
           | None \<Rightarrow>
               if the c = 34 then csv_add InQuotedField 34 r
               else if the c = delimiter then Inr (csv_save StartField r)
               else csv_add InField (the c) r)
      | EatCrnl \<Rightarrow>
          (case csv_end c of Some st \<Rightarrow> Inr (csv_to st r) | None \<Rightarrow> Inl NewlineInUnquoted))"

text \<open>Rows from lines: a record ends with the line after which the reader is at its start.\<close>

fun csv_rows :: "codepoint \<Rightarrow> csv_reader \<Rightarrow> pystr list \<Rightarrow> csv_error + pystr list list" where
  "csv_rows delimiter r [] =
     Inr (if cv_field r \<noteq> [] \<or> cv_state r = InQuotedField then [cv_fields (csv_save StartRecord r)] else [])"
| "csv_rows delimiter r (line # lines) =
     andThen (fold_result (csv_step delimiter) r (map Some line @ [None])) (\<lambda>r'.
       if cv_state r' = StartRecord
       then andThen (csv_rows delimiter csv_start lines) (\<lambda>rows. Inr (cv_fields r' # rows))
       else csv_rows delimiter r' lines)"

text \<open>The lines of a \<open>StringIO\<close>: each keeps its final newline.\<close>

fun io_lines :: "pystr \<Rightarrow> pystr \<Rightarrow> pystr list" where
  "io_lines cur [] = (if cur = [] then [] else [rev cur])"
| "io_lines cur (c # cs) = (if c = 10 then rev (c # cur) # io_lines [] cs else io_lines (c # cur) cs)"

definition row_text :: "pystr list \<Rightarrow> pystr" where
  "row_text row = join (py '' | '') (map strip row)"

definition csv_elements :: "pystr list list \<Rightarrow> ledger_element list" where
  "csv_elements all_rows =
     (case filter (list_ex (\<lambda>cell. strip cell \<noteq> [])) all_rows of
        [] \<Rightarrow> []
      | header # rows \<Rightarrow>
          map (\<lambda>(i, row). (new_element i Table i (row_text row) [])\<lparr>le_table_header := Some (row_text header)\<rparr>)
            (enumerate 0 (header # rows)))"

text \<open>A delimiter that is no single character, or the quote or a line end, is refused.\<close>

definition csv_delimiter :: "dict \<Rightarrow> codepoint option" where
  "csv_delimiter config =
     (case config_get config ''delimiter'' (JStr [44]) of
        JStr [c] \<Rightarrow> if c \<in> {10, 13, 34} then None else Some c
      | _ \<Rightarrow> None)"

definition parse_csv :: "parse_env \<Rightarrow> bytes \<Rightarrow> dict \<Rightarrow> parse_limits \<Rightarrow> parse_exception + parse_outcome" where
  "parse_csv E data config limits =
     with_text E data config limits (\<lambda>s.
       case csv_delimiter config of
         None \<Rightarrow> Inl (ParserRaises (py ''TypeError''))
       | Some delimiter \<Rightarrow>
           (case csv_rows delimiter csv_start (io_lines [] s) of
              Inl e \<Rightarrow> fail_with E data (py ''CSV_PARSE_ERROR: '' @ pe_csv_message E e)
            | Inr rows \<Rightarrow> andThen (validated E (csv_elements rows)) (\<lambda>es. succeed_with E data [] es 1 None)))"

section \<open>PDF\<close>

text \<open>\<open>pypdf\<close> is a library: it raises, reports encryption, or gives the text of each page.\<close>

definition pdf_elements :: "(nat \<times> pystr) list \<Rightarrow> ledger_element list" where
  "pdf_elements pages =
     map (\<lambda>(order, index, s). (new_element order Paragraph order s [])\<lparr>le_page := Some (index + 1)\<rparr>)
       (enumerate 0 (filter (\<lambda>p. snd p \<noteq> []) pages))"

definition page_text :: "parse_env \<Rightarrow> pystr + pystr \<Rightarrow> pystr + pystr" where
  "page_text E page =
     andThen page (\<lambda>s. if list_all scalar (strip s) then Inr (strip s) else Inl (pe_validation_message E))"

definition parse_pdf :: "parse_env \<Rightarrow> bytes \<Rightarrow> dict \<Rightarrow> parse_limits \<Rightarrow> parse_exception + parse_outcome" where
  "parse_pdf E data config limits =
     (if length data > pl_max_input_bytes limits then fail_with E data (py ''INPUT_TOO_LARGE'')
      else (case pe_pdf E data of
              PdfRaises e \<Rightarrow> fail_with E data (py ''PDF_PARSE_ERROR: '' @ e)
            | PdfEncrypted \<Rightarrow> fail_with E data (py ''PASSWORD_PROTECTED'')
            | PdfPages pages \<Rightarrow>
                if length pages > pl_max_pages limits
                then fail_with E data (py ''PDF_PAGE_LIMIT_EXCEEDED: '' @ show_nat (length pages) @ py '' > '' @ show_nat (pl_max_pages limits))
                else (case collect (map (page_text E) pages) of
                        Inl e \<Rightarrow> fail_with E data (py ''PDF_PARSE_ERROR: '' @ e)
                      | Inr texts \<Rightarrow> succeed_with E data [] (pdf_elements (enumerate 0 texts)) (length pages) None)))"

end
