(* ===== verification/Parse_Markup.thy ===== *)
theory Parse_Markup
  imports Parse_Plain
begin

text \<open>
  The Markdown and HTML parsers. Markdown is a line-oriented state machine whose regular
  expressions are written as predicates on a line (a line holds no line feed and, after
  normalisation, no carriage return). HTML is the handler of the events that
  \<open>html.parser.HTMLParser\<close> produces for a text, a parameter.
\<close>

section \<open>Frontmatter\<close>

text \<open>\<open>\A---\r?\n(.*?\r?\n)---\r?\n?\<close> on a text without carriage returns: the shortest group
  that ends in a line feed and is followed by \<open>---\<close>.\<close>

fun frontmatter_split :: "pystr \<Rightarrow> pystr \<Rightarrow> (pystr \<times> pystr) option" where
  "frontmatter_split grp [] = None"
| "frontmatter_split grp (c # cs) =
     (if c = 10 \<and> startswith cs (py ''---'')
      then Some (rev (c # grp), (let rest = drop 3 cs in if startswith rest [10] then drop 1 rest else rest))
      else frontmatter_split (c # grp) cs)"

definition extract_frontmatter :: "parse_env \<Rightarrow> pystr \<Rightarrow> (parse_exception + dict option) \<times> warning_record list \<times> pystr" where
  "extract_frontmatter E s =
     (case (if startswith s (py ''---'' @ [10]) then frontmatter_split [] (drop 4 s) else None) of
        None \<Rightarrow> (Inr None, [], s)
      | Some (raw_yaml, body) \<Rightarrow>
          (case pe_safe_load E raw_yaml of
             YamlError \<Rightarrow>
               (Inr None, [\<lparr>wr_code = py ''FRONTMATTER_YAML_INVALID'', wr_message = Some (py ''frontmatter is not valid YAML''),
                            wr_context = None\<rparr>], body)
           | YamlOther \<Rightarrow>
               (Inr None, [\<lparr>wr_code = py ''FRONTMATTER_NOT_A_MAPPING'',
                            wr_message = Some (py ''frontmatter did not parse to a YAML mapping''), wr_context = None\<rparr>], body)
           | YamlMapping d \<Rightarrow> (Inr (Some d), [], body)
           | YamlOtherMapping e \<Rightarrow> (Inl (ParserRaises e), [], body)))"

section \<open>Lines\<close>

definition fence_marker :: "pystr \<Rightarrow> pystr option" where
  "fence_marker line =
     (let s = strip line in
      if startswith s (py ''```'') \<or> startswith s (py ''~~~'') then Some (take 3 s) else None)"

text \<open>\<open>^(#{1,6})\s+(.*?)\s*#*\s*$\<close>: the title is the shortest text before a tail of white space,
  number signs and white space.\<close>

definition heading_tail :: "pystr \<Rightarrow> bool" where
  "heading_tail s \<longleftrightarrow> dropWhile is_space (dropWhile (\<lambda>c. c = 35) (dropWhile is_space s)) = []"

fun shortest_title :: "pystr \<Rightarrow> pystr" where
  "shortest_title [] = []"
| "shortest_title (c # cs) = (if heading_tail (c # cs) then [] else c # shortest_title cs)"

definition heading_match :: "pystr \<Rightarrow> (nat \<times> pystr) option" where
  "heading_match line =
     (let marks = takeWhile (\<lambda>c. c = 35) line; rest = dropWhile (\<lambda>c. c = 35) line in
      if 1 \<le> length marks \<and> length marks \<le> 6 \<and> rest \<noteq> [] \<and> is_space (hd rest)
      then Some (length marks, strip (shortest_title (lstrip rest))) else None)"

definition table_row :: "pystr \<Rightarrow> bool" where
  "table_row line \<longleftrightarrow> (let s = strip line in 2 \<le> length s \<and> hd s = 124 \<and> last s = 124)"

definition table_separator :: "pystr \<Rightarrow> bool" where
  "table_separator line \<longleftrightarrow> line \<noteq> [] \<and> list_all (\<lambda>c. is_space c \<or> c \<in> {58, 124, 45}) line"

definition strip_char :: "codepoint \<Rightarrow> pystr \<Rightarrow> pystr" where
  "strip_char c s = rev (dropWhile (\<lambda>d. d = c) (rev (dropWhile (\<lambda>d. d = c) s)))"

definition row_cells :: "pystr \<Rightarrow> pystr list" where
  "row_cells line = split_on [124] (strip_char 124 (strip line))"

text \<open>\<open>^Table:\s*(.+)$\<close>, ignoring case.\<close>

definition caption_match :: "pystr \<Rightarrow> pystr option" where
  "caption_match s =
     (if map ci_fold (take 6 s) = py ''table:'' \<and> 6 < length s then Some (strip (drop 6 s)) else None)"

text \<open>\<open>^(\s*)([-*+]|\d+\.)\s+(.*)$\<close>.\<close>

definition list_match :: "unicode_db \<Rightarrow> pystr \<Rightarrow> pystr option" where
  "list_match U line =
     (let s = lstrip line;
          digits = takeWhile (rx_digit U) s;
          rest = (if s \<noteq> [] \<and> hd s \<in> {45, 42, 43} then Some (tl s)
                  else if digits \<noteq> [] \<and> startswith (drop (length digits) s) [46] then Some (drop (length digits + 1) s)
                  else None)
      in case rest of
           Some r \<Rightarrow> if r \<noteq> [] \<and> is_space (hd r) then Some (strip r) else None
         | None \<Rightarrow> None)"

section \<open>The Markdown state machine\<close>

record md_state =
  md_elements :: "ledger_element list"
  md_stack :: "(nat \<times> pystr) list"
  md_buffer :: "pystr list"
  md_rows :: "pystr list list"
  md_order :: nat

definition heading_path :: "(nat \<times> pystr) list \<Rightarrow> pystr list" where
  "heading_path stack = map snd stack"

text \<open>Appending an element takes the next id.\<close>

definition md_append :: "element_kind \<Rightarrow> pystr \<Rightarrow> md_state \<Rightarrow> md_state" where
  "md_append kind text st =
     st\<lparr>md_elements := md_elements st @ [new_element (md_order st) kind 0 text (heading_path (md_stack st))],
        md_order := md_order st + 1\<rparr>"

definition joined_lines :: "pystr list \<Rightarrow> pystr" where
  "joined_lines lines = join [32] (filter (\<lambda>l. l \<noteq> []) (map strip lines))"

definition flush_paragraph :: "md_state \<Rightarrow> md_state" where
  "flush_paragraph st =
     (let text = joined_lines (md_buffer st); st' = st\<lparr>md_buffer := []\<rparr> in
      if text \<noteq> [] then md_append Paragraph text st' else st')"

definition append_row :: "pystr option \<Rightarrow> pystr \<Rightarrow> pystr list \<Rightarrow> md_state \<Rightarrow> md_state" where
  "append_row caption header row st =
     st\<lparr>md_elements := md_elements st @
          [(new_element (md_order st) Table 0 (row_text row) (heading_path (md_stack st)))
             \<lparr>le_table_caption := caption, le_table_header := Some header\<rparr>],
        md_order := md_order st + 1\<rparr>"

definition table_caption_of :: "ledger_element list \<Rightarrow> pystr option" where
  "table_caption_of elements =
     (if elements \<noteq> [] \<and> le_kind (last elements) = Paragraph then caption_match (le_text (last elements)) else None)"

definition flush_table :: "md_state \<Rightarrow> md_state" where
  "flush_table st =
     (if md_rows st = [] then st
      else (let caption = table_caption_of (md_elements st);
                st' = (if caption \<noteq> None then st\<lparr>md_elements := butlast (md_elements st)\<rparr> else st);
                header = row_text (hd (md_rows st))
            in (foldl (\<lambda>s row. append_row caption header row s) st' (md_rows st))\<lparr>md_rows := []\<rparr>))"

definition push_heading :: "nat \<Rightarrow> pystr \<Rightarrow> md_state \<Rightarrow> md_state" where
  "push_heading level text st =
     (let st1 = st\<lparr>md_stack := filter (\<lambda>item. fst item < level) (md_stack st)\<rparr>;
          st2 = md_append (if level = 1 then Title else Heading) text st1
      in st2\<lparr>md_stack := md_stack st2 @ [(level, text)]\<rparr>)"

text \<open>
  One iteration for the line at the head: the new state and the number of further lines it
  consumes.
\<close>

definition md_line :: "unicode_db \<Rightarrow> md_state \<Rightarrow> pystr \<Rightarrow> pystr list \<Rightarrow> md_state \<times> nat" where
  "md_line U st line rest =
     (case fence_marker line of
        Some marker \<Rightarrow>
          (let code = takeWhile (\<lambda>l. \<not> startswith (strip l) marker) rest;
               st' = flush_table (flush_paragraph st)
           in (md_append CodeBlock (join [10] code) st', length code + 1))
      | None \<Rightarrow>
          (case heading_match line of
             Some (level, text) \<Rightarrow> (push_heading level text (flush_table (flush_paragraph st)), 0)
           | None \<Rightarrow>
               (let next_line = (case rest of [] \<Rightarrow> [] | l # _ \<Rightarrow> l) in
                if table_row line \<and> md_rows st = [] \<and> table_separator next_line \<and> 45 \<in> set next_line
                then ((flush_paragraph st)\<lparr>md_rows := [row_cells line]\<rparr>, 1)
                else if table_row line \<and> md_rows st \<noteq> [] then (st\<lparr>md_rows := md_rows st @ [row_cells line]\<rparr>, 0)
                else (let st1 = flush_table st in
                      case list_match U line of
                        Some text \<Rightarrow> (md_append ListItem text (flush_paragraph st1), 0)
                      | None \<Rightarrow>
                          if strip line = [] then (flush_paragraph st1, 0)
                          else (st1\<lparr>md_buffer := md_buffer st1 @ [line]\<rparr>, 0)))))"

function md_loop :: "unicode_db \<Rightarrow> md_state \<Rightarrow> pystr list \<Rightarrow> md_state" where
  "md_loop U st [] = st"
| "md_loop U st (line # rest) = (case md_line U st line rest of (st', k) \<Rightarrow> md_loop U st' (drop k rest))"
  by pat_completeness auto
termination
  by (relation "measure (\<lambda>(U, st, lines). length lines)") auto

definition number_elements :: "ledger_element list \<Rightarrow> ledger_element list" where
  "number_elements es = map (\<lambda>(position, e). e\<lparr>le_order := position\<rparr>) (enumerate 0 es)"

definition md_start :: md_state where
  "md_start = \<lparr>md_elements = [], md_stack = [], md_buffer = [], md_rows = [], md_order = 0\<rparr>"

definition parse_body :: "unicode_db \<Rightarrow> pystr \<Rightarrow> ledger_element list" where
  "parse_body U body =
     number_elements (md_elements (flush_table (flush_paragraph (md_loop U md_start (split_on [10] body)))))"

definition parse_markdown ::
  "unicode_db \<Rightarrow> parse_env \<Rightarrow> bytes \<Rightarrow> dict \<Rightarrow> parse_limits \<Rightarrow> parse_exception + parse_outcome" where
  "parse_markdown U E data config limits =
     with_text E data config limits (\<lambda>s.
       case extract_frontmatter E (normalize_newlines s) of (loaded, warnings, body) \<Rightarrow>
         andThen (validated E (parse_body U body)) (\<lambda>es.
         andThen loaded (\<lambda>frontmatter. succeed_with E data warnings es 1 frontmatter)))"

section \<open>The HTML builder\<close>

record table_state =
  ts_rows :: "pystr list list list"
  ts_in_caption :: bool
  ts_caption_parts :: "pystr list"

record capture_frame =
  cf_kind :: element_kind
  cf_level :: "nat option"
  cf_parts :: "pystr list"

text \<open>The stacks have their top at the end.\<close>

record html_builder =
  hb_elements :: "ledger_element list"
  hb_order :: nat
  hb_stack :: "(nat \<times> pystr) list"
  hb_skip_depth :: nat
  hb_buffer :: "pystr list"
  hb_captures :: "capture_frame list"
  hb_tables :: "table_state list"

definition html_start :: html_builder where
  "html_start = \<lparr>hb_elements = [], hb_order = 0, hb_stack = [], hb_skip_depth = 0, hb_buffer = [], hb_captures = [],
     hb_tables = []\<rparr>"

definition heading_level :: "pystr \<Rightarrow> nat option" where
  "heading_level tag = map_of (map (\<lambda>n. ([104, 48 + n], n)) [1..<7]) tag"

definition skips_content :: "pystr \<Rightarrow> bool" where
  "skips_content tag \<longleftrightarrow> tag \<in> set (map py [''script'', ''style''])"

definition simple_capture :: "pystr \<Rightarrow> bool" where
  "simple_capture tag \<longleftrightarrow> tag \<in> set (map py [''p'', ''li'', ''pre''])"

definition hb_append :: "element_kind \<Rightarrow> pystr \<Rightarrow> html_builder \<Rightarrow> html_builder" where
  "hb_append kind text b =
     b\<lparr>hb_elements := hb_elements b @ [new_element (hb_order b) kind 0 text (heading_path (hb_stack b))],
       hb_order := hb_order b + 1\<rparr>"

definition flush_implicit_paragraph :: "html_builder \<Rightarrow> html_builder" where
  "flush_implicit_paragraph b =
     (let text = joined_lines (hb_buffer b); b' = b\<lparr>hb_buffer := []\<rparr> in
      if text \<noteq> [] then hb_append Paragraph text b' else b')"

definition on_top :: "('a \<Rightarrow> 'a) \<Rightarrow> 'a list \<Rightarrow> 'a list" where
  "on_top f xs = butlast xs @ [f (last xs)]"

definition push_capture :: "element_kind \<Rightarrow> nat option \<Rightarrow> html_builder \<Rightarrow> html_builder" where
  "push_capture kind level b = b\<lparr>hb_captures := hb_captures b @ [\<lparr>cf_kind = kind, cf_level = level, cf_parts = []\<rparr>]\<rparr>"

definition table_start_tag :: "pystr \<Rightarrow> table_state \<Rightarrow> table_state" where
  "table_start_tag tag t =
     (if tag = py ''caption'' then t\<lparr>ts_in_caption := True\<rparr>
      else if tag = py ''tr'' then t\<lparr>ts_rows := ts_rows t @ [[]]\<rparr>
      else if tag = py ''td'' \<or> tag = py ''th''
      then t\<lparr>ts_rows := on_top (\<lambda>row. row @ [[]]) (if ts_rows t = [] then [[]] else ts_rows t)\<rparr>
      else t)"

definition handle_starttag :: "pystr \<Rightarrow> html_builder \<Rightarrow> html_builder" where
  "handle_starttag tag b =
     (if skips_content tag then b\<lparr>hb_skip_depth := hb_skip_depth b + 1\<rparr>
      else if hb_tables b \<noteq> [] then b\<lparr>hb_tables := on_top (table_start_tag tag) (hb_tables b)\<rparr>
      else (case heading_level tag of
              Some level \<Rightarrow> push_capture Heading (Some level) (flush_implicit_paragraph b)
            | None \<Rightarrow>
                if tag = py ''table''
                then (let b' = flush_implicit_paragraph b in
                      b'\<lparr>hb_tables := hb_tables b' @ [\<lparr>ts_rows = [], ts_in_caption = False, ts_caption_parts = []\<rparr>]\<rparr>)
                else if simple_capture tag
                then push_capture (if tag = py ''li'' then ListItem else if tag = py ''pre'' then CodeBlock else Paragraph) None
                       (flush_implicit_paragraph b)
                else b))"

definition cell_text :: "pystr list \<Rightarrow> pystr" where
  "cell_text cell = strip (concat cell)"

definition emit_row :: "pystr option \<Rightarrow> pystr \<Rightarrow> pystr list \<Rightarrow> html_builder \<Rightarrow> html_builder" where
  "emit_row caption header row b =
     b\<lparr>hb_elements := hb_elements b @
          [(new_element (hb_order b) Table 0 (join (py '' | '') row) (heading_path (hb_stack b)))
             \<lparr>le_table_caption := caption, le_table_header := Some header\<rparr>],
       hb_order := hb_order b + 1\<rparr>"

definition emit_table :: "table_state \<Rightarrow> html_builder \<Rightarrow> html_builder" where
  "emit_table t b =
     (let cell_rows = map (map cell_text) (filter (list_ex (\<lambda>cell. cell_text cell \<noteq> [])) (ts_rows t));
          caption = joined_lines (ts_caption_parts t)
      in if cell_rows = [] then b
         else foldl (\<lambda>s row. emit_row (if caption \<noteq> [] then Some caption else None) (join (py '' | '') (hd cell_rows)) row s) b cell_rows)"

definition close_heading :: "html_builder \<Rightarrow> html_builder" where
  "close_heading b =
     (let frame = last (hb_captures b); b1 = b\<lparr>hb_captures := butlast (hb_captures b)\<rparr>;
          text = joined_lines (cf_parts frame);
          level = (case cf_level frame of Some n \<Rightarrow> if n \<noteq> 0 then n else 1 | None \<Rightarrow> 1)
      in if text = [] then b1
         else (let b2 = hb_append (if level = 1 then Title else Heading) text b1 in
               b2\<lparr>hb_stack := filter (\<lambda>item. fst item < level) (hb_stack b2) @ [(level, text)]\<rparr>))"

definition close_capture :: "html_builder \<Rightarrow> html_builder" where
  "close_capture b =
     (let frame = last (hb_captures b); b1 = b\<lparr>hb_captures := butlast (hb_captures b)\<rparr>;
          text = (if cf_kind frame = CodeBlock then strip_char 10 (concat (cf_parts frame)) else joined_lines (cf_parts frame))
      in if text = [] then b1 else hb_append (cf_kind frame) text b1)"

definition handle_endtag :: "pystr \<Rightarrow> html_builder \<Rightarrow> html_builder" where
  "handle_endtag tag b =
     (if skips_content tag then b\<lparr>hb_skip_depth := hb_skip_depth b - 1\<rparr>
      else if hb_tables b \<noteq> [] \<and> tag = py ''table''
      then emit_table (last (hb_tables b)) (b\<lparr>hb_tables := butlast (hb_tables b)\<rparr>)
      else if hb_tables b \<noteq> []
      then (if tag = py ''caption'' then b\<lparr>hb_tables := on_top (\<lambda>t. t\<lparr>ts_in_caption := False\<rparr>) (hb_tables b)\<rparr> else b)
      else if heading_level tag \<noteq> None \<and> hb_captures b \<noteq> [] \<and> cf_kind (last (hb_captures b)) = Heading then close_heading b
      else if simple_capture tag \<and> hb_captures b \<noteq> [] then close_capture b
      else b)"

definition table_data :: "pystr \<Rightarrow> table_state \<Rightarrow> table_state" where
  "table_data data t =
     (if ts_in_caption t then t\<lparr>ts_caption_parts := ts_caption_parts t @ [data]\<rparr>
      else if ts_rows t \<noteq> [] \<and> last (ts_rows t) \<noteq> []
      then t\<lparr>ts_rows := on_top (on_top (\<lambda>cell. cell @ [data])) (ts_rows t)\<rparr>
      else t)"

definition handle_data :: "pystr \<Rightarrow> html_builder \<Rightarrow> html_builder" where
  "handle_data data b =
     (if hb_skip_depth b \<noteq> 0 then b
      else if hb_tables b \<noteq> [] then b\<lparr>hb_tables := on_top (table_data data) (hb_tables b)\<rparr>
      else if hb_captures b \<noteq> []
      then b\<lparr>hb_captures := on_top (\<lambda>f. f\<lparr>cf_parts := cf_parts f @ [data]\<rparr>) (hb_captures b)\<rparr>
      else if strip data \<noteq> [] then b\<lparr>hb_buffer := hb_buffer b @ [data]\<rparr>
      else b)"

primrec handle_event :: "html_event \<Rightarrow> html_builder \<Rightarrow> html_builder" where
  "handle_event (StartTag tag) = handle_starttag tag"
| "handle_event (EndTag tag) = handle_endtag tag"
| "handle_event (Data data) = handle_data data"

definition html_builder_of :: "html_event list \<Rightarrow> html_builder" where
  "html_builder_of events = foldl (\<lambda>b e. handle_event e b) html_start events"

definition html_elements :: "html_event list \<Rightarrow> ledger_element list" where
  "html_elements events = number_elements (hb_elements (flush_implicit_paragraph (html_builder_of events)))"

text \<open>The exceptions of the feed, a failed validation among them, are caught; \<open>finalize\<close> is outside.\<close>

definition parse_html :: "parse_env \<Rightarrow> bytes \<Rightarrow> dict \<Rightarrow> parse_limits \<Rightarrow> parse_exception + parse_outcome" where
  "parse_html E data config limits =
     with_text E data config limits (\<lambda>s.
       case pe_html_events E s of
         Inl e \<Rightarrow> fail_with E data (py ''HTML_PARSE_ERROR: '' @ e)
       | Inr events \<Rightarrow>
           if \<not> list_all element_ok (hb_elements (html_builder_of events))
           then fail_with E data (py ''HTML_PARSE_ERROR: '' @ pe_validation_message E)
           else andThen (validated E (html_elements events)) (\<lambda>es. succeed_with E data [] es 1 None))"

section \<open>What the state machines keep\<close>

definition is_heading :: "ledger_element \<Rightarrow> bool" where
  "is_heading e \<longleftrightarrow> le_kind e \<in> {Title, Heading}"

definition heading_texts :: "ledger_element list \<Rightarrow> pystr set" where
  "heading_texts es = le_text ` {e \<in> set es. is_heading e}"

text \<open>Every entry of a heading path is the text of an earlier heading.\<close>

fun paths_ok :: "pystr set \<Rightarrow> ledger_element list \<Rightarrow> bool" where
  "paths_ok seen [] = True"
| "paths_ok seen (e # es) \<longleftrightarrow>
     set (le_heading_path e) \<subseteq> seen \<and> paths_ok (if is_heading e then insert (le_text e) seen else seen) es"

definition element_id :: "nat \<Rightarrow> pystr" where
  "element_id n = 101 # show_nat n"

text \<open>
  The invariant of both builders: ids of increasing numbers below the next one, paths of
  earlier headings, a stack of increasing levels whose texts are those of headings.
\<close>

definition ids_below :: "nat \<Rightarrow> ledger_element list \<Rightarrow> bool" where
  "ids_below n es \<longleftrightarrow> (\<exists>ns. map le_id es = map element_id ns \<and> sorted_wrt (<) ns \<and> list_all (\<lambda>i. i < n) ns)"

definition plain_element :: "ledger_element \<Rightarrow> bool" where
  "plain_element e \<longleftrightarrow> list_all scalar (le_id e) \<and> le_parent_id e = None \<and> le_confidence e = None"

definition doc_inv :: "ledger_element list \<Rightarrow> nat \<Rightarrow> (nat \<times> pystr) list \<Rightarrow> bool" where
  "doc_inv es n stack \<longleftrightarrow>
     ids_below n es \<and> paths_ok {} es \<and> list_all plain_element es
     \<and> sorted_wrt (<) (map fst stack) \<and> snd ` set stack \<subseteq> heading_texts es"

lemma scalar_show_nat [simp]: "list_all scalar (show_nat n)"
proof -
  have "is_digit c \<Longrightarrow> scalar c" for c by (auto simp: is_digit_def scalar_def)
  then show ?thesis using show_nat_digits [of n] by (auto simp: list_all_iff)
qed

lemma plain_new [simp]: "plain_element (new_element i kind n s path)"
  by (simp add: plain_element_def new_element_def scalar_def)

lemma plain_update [simp]:
  "plain_element (e\<lparr>le_table_header := h\<rparr>) = plain_element e" "plain_element (e\<lparr>le_table_caption := h\<rparr>) = plain_element e"
  "plain_element (e\<lparr>le_page := p\<rparr>) = plain_element e" "plain_element (e\<lparr>le_order := n\<rparr>) = plain_element e"
  by (simp_all add: plain_element_def)

lemma paths_ok_snoc: "paths_ok seen (es @ [e]) \<longleftrightarrow> paths_ok seen es \<and> set (le_heading_path e) \<subseteq> seen \<union> heading_texts es"
  by (induction es arbitrary: seen) (auto simp: heading_texts_def)

lemma heading_texts_snoc: "heading_texts (es @ [e]) = heading_texts es \<union> (if is_heading e then {le_text e} else {})"
  by (auto simp: heading_texts_def)

lemma ids_below_snoc: "ids_below n es \<Longrightarrow> le_id e = element_id n \<Longrightarrow> ids_below (Suc n) (es @ [e])"
  unfolding ids_below_def
proof (elim exE conjE)
  fix ns assume "map le_id es = map element_id ns" "sorted_wrt (<) ns" "list_all (\<lambda>i. i < n) ns" "le_id e = element_id n"
  then show "\<exists>ms. map le_id (es @ [e]) = map element_id ms \<and> sorted_wrt (<) ms \<and> list_all (\<lambda>i. i < Suc n) ms"
    by (intro exI [of _ "ns @ [n]"]) (auto simp: sorted_wrt_append list_all_iff less_Suc_eq)
qed

text \<open>Appending the next element, and dropping a last one that is no heading.\<close>

lemma doc_inv_append:
  assumes "doc_inv es n stack" "le_id e = element_id n" "set (le_heading_path e) \<subseteq> heading_texts es" "plain_element e"
  shows "doc_inv (es @ [e]) (n + 1) stack"
  using assms by (auto simp: doc_inv_def ids_below_snoc paths_ok_snoc heading_texts_snoc)

lemma doc_inv_stack:
  "doc_inv es n stack \<Longrightarrow> sorted_wrt (<) (map fst stack') \<Longrightarrow> snd ` set stack' \<subseteq> heading_texts es \<Longrightarrow> doc_inv es n stack'"
  by (simp add: doc_inv_def)

lemma doc_inv_butlast:
  assumes "doc_inv es n stack" "es \<noteq> []" "\<not> is_heading (last es)"
  shows "doc_inv (butlast es) n stack"
proof -
  obtain fs e where es: "es = fs @ [e]" using assms(2) by (cases es rule: rev_cases) auto
  obtain ns where ns: "map le_id es = map element_id ns" "sorted_wrt (<) ns" "list_all (\<lambda>i. i < n) ns"
    using assms(1) by (auto simp: doc_inv_def ids_below_def)
  then obtain ms m where "ns = ms @ [m]" by (cases ns rule: rev_cases) (auto simp: es)
  then have "ids_below n fs" using ns by (auto simp: ids_below_def es sorted_wrt_append)
  then show ?thesis using assms by (auto simp: doc_inv_def es paths_ok_snoc heading_texts_snoc)
qed

lemma doc_inv_new:
  assumes "doc_inv es n stack"
  shows "doc_inv (es @ [new_element n kind i text (heading_path stack)]) (n + 1) stack"
  using assms by (intro doc_inv_append) (auto simp: doc_inv_def new_element_def element_id_def heading_path_def plain_element_def scalar_def)

lemma doc_inv_row:
  assumes "doc_inv es n stack"
  shows "doc_inv (es @ [(new_element n kind i text (heading_path stack))\<lparr>le_table_caption := c, le_table_header := h\<rparr>]) (Suc n) stack"
  using doc_inv_append [OF assms, of "(new_element n kind i text (heading_path stack))\<lparr>le_table_caption := c, le_table_header := h\<rparr>"]
    assms by (auto simp: doc_inv_def new_element_def element_id_def heading_path_def plain_element_def scalar_def)

lemma stack_filter_levels:
  "sorted_wrt (<) (map fst stack) \<Longrightarrow> sorted_wrt (<) (map fst (filter P stack))"
  by (induction stack) (auto simp: sorted_wrt_append)

lemma stack_push_levels:
  "sorted_wrt (<) (map fst stack) \<Longrightarrow> sorted_wrt (<) (map fst (filter (\<lambda>item. fst item < level) stack @ [(level, text)]))"
  using stack_filter_levels [of stack "\<lambda>item. fst item < level"] by (auto simp: sorted_wrt_append)

lemma doc_inv_filter: "doc_inv es n stack \<Longrightarrow> doc_inv es n (filter P stack)"
  using stack_filter_levels [of stack P] by (auto simp: doc_inv_def image_subset_iff)

lemma doc_inv_push:
  assumes "doc_inv es n stack" "title \<in> heading_texts es"
  shows "doc_inv es n (filter (\<lambda>item. fst item < level) stack @ [(level, title)])"
  using assms stack_push_levels [of stack level title] by (auto simp: doc_inv_def image_subset_iff)

lemma heading_texts_new [simp]:
  "kind = Title \<or> kind = Heading \<Longrightarrow> title \<in> heading_texts (es @ [new_element n kind i title path])"
  by (auto simp: heading_texts_snoc is_heading_def new_element_def)

section \<open>Markdown documents\<close>

abbreviation md_inv :: "md_state \<Rightarrow> bool" where
  "md_inv st \<equiv> doc_inv (md_elements st) (md_order st) (md_stack st)"

lemma md_inv_append: "md_inv st \<Longrightarrow> md_inv (md_append kind text st)"
  using doc_inv_new by (simp add: md_append_def)

lemma md_inv_flush_paragraph: "md_inv st \<Longrightarrow> md_inv (flush_paragraph st)"
  using md_inv_append [of "st\<lparr>md_buffer := []\<rparr>"] by (simp add: flush_paragraph_def Let_def)

lemma md_inv_append_row: "md_inv st \<Longrightarrow> md_inv (append_row caption header row st)"
  using doc_inv_row by (simp add: append_row_def)

lemma md_inv_rows: "md_inv st \<Longrightarrow> md_inv (foldl (\<lambda>s row. append_row caption header row s) st rows)"
  by (induction rows arbitrary: st) (simp_all add: md_inv_append_row)

lemma md_inv_flush_table:
  assumes "md_inv st"
  shows "md_inv (flush_table st)"
proof -
  have "md_inv (st\<lparr>md_elements := butlast (md_elements st)\<rparr>)" if "table_caption_of (md_elements st) \<noteq> None"
    using that assms doc_inv_butlast [of "md_elements st"] by (auto simp: table_caption_of_def is_heading_def split: if_splits)
  then show ?thesis
    using assms md_inv_rows by (simp add: flush_table_def Let_def)
qed

lemma filter_filter_same: "filter P (filter P xs) = filter P xs"
  by (induction xs) auto

lemma md_inv_push_heading:
  assumes "md_inv st"
  shows "md_inv (push_heading level title st)"
proof -
  let ?s = "st\<lparr>md_stack := filter (\<lambda>item. fst item < level) (md_stack st)\<rparr>"
  have "md_inv ?s" using assms doc_inv_filter by simp
  then have "md_inv (md_append (if level = 1 then Title else Heading) title ?s)" by (rule md_inv_append)
  from doc_inv_push [OF this, of title level] show ?thesis
    by (cases "level = 1") (simp_all add: push_heading_def Let_def md_append_def filter_filter_same)
qed

lemma md_inv_line: "md_inv st \<Longrightarrow> md_inv (fst (md_line U st line rest))"
  unfolding md_line_def
  by (auto simp: Let_def md_inv_append md_inv_flush_paragraph md_inv_flush_table md_inv_push_heading
      split: option.splits prod.splits)

lemma md_inv_loop: "md_inv st \<Longrightarrow> md_inv (md_loop U st lines)"
proof (induction U st lines rule: md_loop.induct)
  case (2 U st line rest)
  then show ?case using md_inv_line [of st U line rest] by (cases "md_line U st line rest") auto
qed simp

lemma md_inv_start: "md_inv md_start"
  by (simp add: md_start_def doc_inv_def ids_below_def)

lemma paths_ok_number: "paths_ok seen (map (\<lambda>(i, e). e\<lparr>le_order := i\<rparr>) (enumerate n es)) = paths_ok seen es"
  by (induction es arbitrary: seen n) (simp_all add: is_heading_def)

lemma number_elements_fields:
  "map le_id (number_elements es) = map le_id es" "map le_order (number_elements es) = [0..<length es]"
  "list_all plain_element (number_elements es) = list_all plain_element es" "paths_ok {} (number_elements es) = paths_ok {} es"
proof -
  have "map le_id (map (\<lambda>(i, e). e\<lparr>le_order := i\<rparr>) (enumerate n es)) = map le_id es"
    "map le_order (map (\<lambda>(i, e). e\<lparr>le_order := i\<rparr>) (enumerate n es)) = [n..<n + length es]"
    "list_all plain_element (map (\<lambda>(i, e). e\<lparr>le_order := i\<rparr>) (enumerate n es)) = list_all plain_element es" for n
    by (induction es arbitrary: n) (simp_all add: upt_conv_Cons del: upt_Suc)
  from this [of 0] show "map le_id (number_elements es) = map le_id es" "map le_order (number_elements es) = [0..<length es]"
    "list_all plain_element (number_elements es) = list_all plain_element es"
    by (simp_all add: number_elements_def)
  show "paths_ok {} (number_elements es) = paths_ok {} es" by (simp add: number_elements_def paths_ok_number)
qed

text \<open>A document with numbered elements, distinct ids and paths of earlier headings.\<close>

definition well_formed_elements :: "ledger_element list \<Rightarrow> bool" where
  "well_formed_elements es \<longleftrightarrow> map le_order es = [0..<length es] \<and> distinct (map le_id es) \<and> paths_ok {} es"

lemma element_id_inj: "inj element_id"
  by (rule injI) (metis element_id_def list.inject read_show_nat)

lemma doc_inv_well_formed: "doc_inv es n stack \<Longrightarrow> well_formed_elements (number_elements es)"
proof -
  assume inv: "doc_inv es n stack"
  then obtain ns where "map le_id es = map element_id ns" "sorted_wrt (<) ns" by (auto simp: doc_inv_def ids_below_def)
  moreover from this(2) have "distinct ns" by (simp add: strict_sorted_iff)
  ultimately have "distinct (map le_id es)" using element_id_inj by (simp add: distinct_map inj_on_def)
  with inv show ?thesis
    by (simp add: well_formed_elements_def number_elements_fields doc_inv_def) (simp add: number_elements_def)
qed

lemma parse_body_inv: "\<exists>es n stack. parse_body U body = number_elements es \<and> doc_inv es n stack"
  unfolding parse_body_def using md_inv_flush_table [OF md_inv_flush_paragraph [OF md_inv_loop [OF md_inv_start]]] by blast

section \<open>HTML documents\<close>

abbreviation hb_inv :: "html_builder \<Rightarrow> bool" where
  "hb_inv b \<equiv> doc_inv (hb_elements b) (hb_order b) (hb_stack b)"

lemma hb_inv_append: "hb_inv b \<Longrightarrow> hb_inv (hb_append kind text b)"
  using doc_inv_new by (simp add: hb_append_def)

lemma hb_inv_flush: "hb_inv b \<Longrightarrow> hb_inv (flush_implicit_paragraph b)"
  using hb_inv_append [of "b\<lparr>hb_buffer := []\<rparr>"] by (simp add: flush_implicit_paragraph_def Let_def)

lemma hb_inv_start_tag: "hb_inv b \<Longrightarrow> hb_inv (handle_starttag tag b)"
  using hb_inv_flush [of b] by (auto simp: handle_starttag_def push_capture_def Let_def split: option.splits)

lemma hb_inv_emit_row: "hb_inv b \<Longrightarrow> hb_inv (emit_row caption header row b)"
  using doc_inv_row by (simp add: emit_row_def)

lemma hb_inv_emit_table: "hb_inv b \<Longrightarrow> hb_inv (emit_table t b)"
proof -
  have "hb_inv b \<Longrightarrow> hb_inv (foldl (\<lambda>s row. emit_row caption header row s) b rows)" for caption header rows b
    by (induction rows arbitrary: b) (simp_all add: hb_inv_emit_row)
  then show "hb_inv b \<Longrightarrow> hb_inv (emit_table t b)" by (simp add: emit_table_def Let_def)
qed

lemma hb_inv_close_heading:
  assumes "hb_inv b"
  shows "hb_inv (close_heading b)"
proof -
  have "hb_inv (hb_append kind title (b\<lparr>hb_captures := cs\<rparr>))" for kind title cs
    using assms hb_inv_append [of "b\<lparr>hb_captures := cs\<rparr>"] by simp
  then have new: "doc_inv (hb_elements b @ [new_element (hb_order b) kind 0 title (heading_path (hb_stack b))]) (hb_order b + 1) (hb_stack b)"
    for kind title
    by (simp add: hb_append_def)
  have "doc_inv (hb_elements b @ [new_element (hb_order b) (if level = 1 then Title else Heading) 0 title (heading_path (hb_stack b))])
      (hb_order b + 1) (filter (\<lambda>item. fst item < level) (hb_stack b) @ [(level, title)])" for level title
    using new by (rule doc_inv_push) simp
  then show ?thesis
    using assms by (simp add: close_heading_def Let_def hb_append_def)
qed

lemma hb_inv_event: "hb_inv b \<Longrightarrow> hb_inv (handle_event e b)"
proof (cases e)
  case (EndTag tag)
  assume "hb_inv b"
  moreover from this have "hb_inv (close_capture b)"
    using hb_inv_append [of "b\<lparr>hb_captures := butlast (hb_captures b)\<rparr>"] by (simp add: close_capture_def Let_def)
  ultimately show ?thesis
    using hb_inv_emit_table [of "b\<lparr>hb_tables := butlast (hb_tables b)\<rparr>"] hb_inv_close_heading [of b]
    by (simp add: EndTag handle_endtag_def)
next
  case (Data d)
  assume "hb_inv b"
  then show ?thesis by (simp add: Data handle_data_def)
qed (simp add: hb_inv_start_tag)

lemma hb_inv_events: "hb_inv (html_builder_of events)"
proof -
  have "hb_inv b \<Longrightarrow> hb_inv (foldl (\<lambda>b e. handle_event e b) b events)" for b
    by (induction events arbitrary: b) (simp_all add: hb_inv_event)
  moreover have "hb_inv html_start" by (simp add: html_start_def doc_inv_def ids_below_def)
  ultimately show ?thesis by (simp add: html_builder_of_def)
qed

lemma html_elements_inv: "\<exists>es n stack. html_elements events = number_elements es \<and> doc_inv es n stack"
  unfolding html_elements_def using hb_inv_flush [OF hb_inv_events] by blast

end
