(* ===== verification/Sandbox.thy ===== *)
theory Sandbox
  imports Parse_Markup
begin

text \<open>
  The registry of parsers, and \<open>ragledger.pipeline.parsers.{sandbox,_sandbox_worker}\<close>: a parser
  in a child process. What becomes of the child is an input (it ran out of time, died, or ran to
  its end); what the worker writes and what the controller makes of it is the code's. The spec and
  the configuration reach the child as JSON files and are read back as they were written.
\<close>

section \<open>The registry\<close>

datatype native_parser = PlainTextParser | MarkdownParser | HtmlDocumentParser | JsonParser | CsvParser | PdfParser

definition default_parser_registry :: "(pystr \<times> native_parser) list" where
  "default_parser_registry =
     [(py ''text/plain'', PlainTextParser), (py ''text/markdown'', MarkdownParser), (py ''text/html'', HtmlDocumentParser),
      (py ''application/json'', JsonParser), (py ''text/csv'', CsvParser), (py ''application/pdf'', PdfParser)]"

definition media_types :: "(pystr \<times> 'p) list \<Rightarrow> pystr list" where
  "media_types registry = sort (map fst registry)"

primrec native_descriptor :: "parse_env \<Rightarrow> native_parser \<Rightarrow> parser_descriptor" where
  "native_descriptor E PlainTextParser = \<lparr>pd_name = py ''ragledger.native_text'', pd_version = py ''1'', pd_package_distributions = []\<rparr>"
| "native_descriptor E MarkdownParser = \<lparr>pd_name = py ''ragledger.native_markdown'', pd_version = py ''1'', pd_package_distributions = []\<rparr>"
| "native_descriptor E HtmlDocumentParser = \<lparr>pd_name = py ''ragledger.native_html'', pd_version = py ''1'', pd_package_distributions = []\<rparr>"
| "native_descriptor E JsonParser = \<lparr>pd_name = py ''ragledger.native_json'', pd_version = py ''1'', pd_package_distributions = []\<rparr>"
| "native_descriptor E CsvParser = \<lparr>pd_name = py ''ragledger.native_csv'', pd_version = py ''1'', pd_package_distributions = []\<rparr>"
| "native_descriptor E PdfParser =
     \<lparr>pd_name = py ''ragledger.pypdf'', pd_version = pe_pdf_version E, pd_package_distributions = [py ''pypdf'']\<rparr>"

primrec native_parse ::
  "unicode_db \<Rightarrow> parse_env \<Rightarrow> native_parser \<Rightarrow> bytes \<Rightarrow> dict \<Rightarrow> parse_limits \<Rightarrow> parse_exception + parse_outcome" where
  "native_parse U E PlainTextParser = parse_text E"
| "native_parse U E MarkdownParser = parse_markdown U E"
| "native_parse U E HtmlDocumentParser = parse_html E"
| "native_parse U E JsonParser = parse_json E"
| "native_parse U E CsvParser = parse_csv E"
| "native_parse U E PdfParser = parse_pdf E"

primrec allowed_config_keys :: "native_parser \<Rightarrow> string list" where
  "allowed_config_keys PlainTextParser = [''encoding'']"
| "allowed_config_keys MarkdownParser = [''encoding'']"
| "allowed_config_keys HtmlDocumentParser = [''encoding'']"
| "allowed_config_keys JsonParser = [''encoding'']"
| "allowed_config_keys CsvParser = [''encoding'', ''delimiter'']"
| "allowed_config_keys PdfParser = []"

text \<open>\<open>validate_config\<close>: the unknown keys of the \<open>ValueError\<close>.\<close>

definition validate_parser_config :: "native_parser \<Rightarrow> dict \<Rightarrow> pystr list + unit" where
  "validate_parser_config p config =
     (let unknown = unknown_keys (map py (allowed_config_keys p)) config in if unknown \<noteq> [] then Inl unknown else Inr ())"

definition supports :: "native_parser \<Rightarrow> pystr \<Rightarrow> bool" where
  "supports p media_type \<longleftrightarrow> (media_type, p) \<in> set default_parser_registry"

section \<open>The worker\<close>

definition failure_outcome :: "bytes \<Rightarrow> string \<Rightarrow> pystr \<Rightarrow> float64 \<Rightarrow> parse_outcome" where
  "failure_outcome data code message duration =
     \<lparr>po_status = ParseFail, po_document = None, po_warnings = [], po_errors = [py code @ py '': '' @ message], po_ocr = None,
      po_consumed_input_hash = hash_raw_bytes data, po_duration_seconds = duration\<rparr>"

definition encode_outcome :: "parse_outcome \<Rightarrow> bytes" where
  "encode_outcome r = utf8_encode (dumps_spaced (dump_outcome r))"

text \<open>What \<open>main\<close> writes to the output file, given what the parser did.\<close>

definition worker_output :: "bytes \<Rightarrow> parse_limits \<Rightarrow> float64 \<Rightarrow> parse_exception + parse_outcome \<Rightarrow> bytes" where
  "worker_output data limits elapsed result =
     (let outcome = (case result of
            Inl (ParserRaises e) \<Rightarrow> failure_outcome data ''PARSE_EXCEPTION'' e elapsed
          | Inr r \<Rightarrow> r);
          encoded = encode_outcome outcome
      in if length encoded > pl_max_output_bytes limits
         then encode_outcome (failure_outcome data ''PARSE_OUTPUT_TOO_LARGE''
                (py ''serialized output was '' @ show_nat (length encoded) @ py '' bytes, cap is '' @ show_nat (pl_max_output_bytes limits))
                elapsed)
         else encoded)"

section \<open>The controller\<close>

text \<open>
  The end of the child: the timeout expired; it ended with this exit code and this text on its
  standard error, with the file it wrote, if any. A worker that ends by itself writes
  \<open>worker_output\<close> and exits with 0.
\<close>

datatype child_end = TimedOut | Exited int pystr "bytes option"

definition last_chars :: "nat \<Rightarrow> pystr \<Rightarrow> pystr" where
  "last_chars n s = drop (length s - n) s"

definition run_sandboxed :: "bytes \<Rightarrow> parse_limits \<Rightarrow> float64 \<Rightarrow> child_end \<Rightarrow> parse_exception + parse_outcome" where
  "run_sandboxed data limits duration child =
     (case child of
        TimedOut \<Rightarrow> Inr (failure_outcome data ''PARSE_TIMEOUT'' (py ''parser exceeded the sandbox time limit'') duration)
      | Exited code stderr_text written \<Rightarrow>
          (case written of
             Some output \<Rightarrow>
               if code \<noteq> 0
               then Inr (failure_outcome data ''PARSE_CRASHED''
                      (py ''sandbox worker exited with code '' @ show_int code @ py '': '' @ last_chars 2000 stderr_text) duration)
               else if length output > pl_max_output_bytes limits
               then Inr (failure_outcome data ''PARSE_OUTPUT_TOO_LARGE'' (py ''parser output exceeded the sandbox size cap'') duration)
               else (case loads output of
                       None \<Rightarrow> Inl (ParserRaises (py ''JSONDecodeError''))
                     | Some payload \<Rightarrow>
                         (case validate_outcome payload of
                            None \<Rightarrow> Inl (ParserRaises (py ''ValidationError''))
                          | Some r \<Rightarrow> Inr r))
           | None \<Rightarrow>
               Inr (failure_outcome data ''PARSE_CRASHED''
                 (py ''sandbox worker exited with code '' @ show_int code @ py '': '' @ last_chars 2000 stderr_text) duration)))"

text \<open>A parse by a child that ran to its end.\<close>

definition sandboxed_parse ::
  "unicode_db \<Rightarrow> parse_env \<Rightarrow> native_parser \<Rightarrow> bytes \<Rightarrow> dict \<Rightarrow> parse_limits \<Rightarrow> parse_exception + parse_outcome" where
  "sandboxed_parse U E p data config limits =
     run_sandboxed data limits (pe_elapsed E)
       (Exited 0 [] (Some (worker_output data limits (pe_elapsed E) (native_parse U E p data config limits))))"

section \<open>What a parser returns can be stored\<close>

lemma scalar_py [simp]: "list_all scalar (py s)"
proof -
  have "scalar (of_char c)" for c :: char
  proof -
    have "(of_char c :: nat) = of_char (char_of (of_char c :: nat))" by simp
    also have "\<dots> = of_char c mod 256" by (simp only: of_char_of)
    finally have "(of_char c :: nat) < 256" using mod_less_divisor [of 256 "of_char c"] by linarith
    then show ?thesis unfolding scalar_def by linarith
  qed
  then show ?thesis by (simp add: py_def list_all_iff)
qed

lemma scalar_show_int [simp]: "list_all scalar (show_int i)"
  by (simp add: show_int_def scalar_def)

lemma scalar_hexlify [simp]: "list_all scalar (hexlify bs)"
proof -
  have "is_lower_hex c \<Longrightarrow> scalar c" for c by (auto simp: is_lower_hex_def is_digit_def scalar_def)
  then show ?thesis using hexlify_lower_hex [of _ bs] by (simp add: list_all_iff)
qed

lemma scalar_hash_raw_bytes [simp]: "list_all scalar (hash_raw_bytes data)"
  by (simp add: hash_raw_bytes_def sha256_hex_def)

declare storable.simps(6,7) [simp del]

definition optional_ok :: "('a \<Rightarrow> bool) \<Rightarrow> 'a option \<Rightarrow> bool" where
  "optional_ok P v \<longleftrightarrow> (case v of None \<Rightarrow> True | Some x \<Rightarrow> P x)"

lemma optional_ok_simps [simp]: "optional_ok P None" "optional_ok P (Some x) \<longleftrightarrow> P x"
  by (simp_all add: optional_ok_def)

definition member_ok :: "pystr \<times> json \<Rightarrow> bool" where
  "member_ok m \<longleftrightarrow> list_all scalar (fst m) \<and> storable (snd m)"

lemma member_ok_simp [simp]: "member_ok (k, v) \<longleftrightarrow> list_all scalar k \<and> storable v"
  by (simp add: member_ok_def)

lemma storable_obj: "storable (JObj kvs) \<longleftrightarrow> distinct (map fst kvs) \<and> list_all member_ok kvs"
  by (simp add: storable.simps(7) list.pred_map comp_def member_ok_def [abs_def])

lemma storable_jnat [simp]: "storable (jnat n)"
  by (simp add: jnat_def)

lemma storable_list [simp]: "storable (JList (map f xs)) \<longleftrightarrow> list_all (\<lambda>x. storable (f x)) xs"
  by (simp add: storable.simps(6) list.pred_map comp_def)

lemma storable_jstrs [simp]: "storable (jstrs xs) \<longleftrightarrow> list_all (list_all scalar) xs"
  unfolding jstrs_def storable_list by simp

lemma keys_opt [simp]: "map fst (opt_member k f v) = (if v = None then [] else [py k])"
  by (simp add: opt_member_def split: option.splits)

lemma members_opt [simp]: "list_all member_ok (opt_member k f v) \<longleftrightarrow> optional_ok (\<lambda>x. storable (f x)) v"
  by (simp add: opt_member_def split: option.splits)

lemma optional_ok_True [simp]: "optional_ok (\<lambda>x. True) v"
  by (simp add: optional_ok_def split: option.splits)

lemma optional_ok_nat [simp]: "optional_ok (\<lambda>x. storable (jnat x)) v"
  by (simp add: optional_ok_def split: option.splits)

definition storable_element :: "ledger_element \<Rightarrow> bool" where
  "storable_element e \<longleftrightarrow> list_all scalar (le_id e) \<and> list_all scalar (le_text e) \<and> list_all (list_all scalar) (le_heading_path e)
     \<and> optional_ok (list_all scalar) (le_parent_id e) \<and> optional_ok float_storable (le_confidence e)
     \<and> optional_ok (list_all scalar) (le_table_caption e) \<and> optional_ok (list_all scalar) (le_table_header e)"

lemma storable_dump_element: "storable_element e \<Longrightarrow> storable (dump_element e)"
proof -
  assume e: "storable_element e"
  have "list_all scalar (element_kind_value (le_kind e))" by (cases "le_kind e") simp_all
  with e show ?thesis
    unfolding dump_element_def storable_obj by (simp add: storable_element_def)
qed

definition storable_warning :: "warning_record \<Rightarrow> bool" where
  "storable_warning w \<longleftrightarrow> list_all scalar (wr_code w) \<and> optional_ok (list_all scalar) (wr_message w)
     \<and> optional_ok (\<lambda>d. storable (JObj d)) (wr_context w)"

lemma storable_dump_warning: "storable_warning w \<Longrightarrow> storable (dump_warning w)"
  unfolding dump_warning_def storable_obj by (simp add: storable_warning_def)

definition storable_document :: "ledger_document \<Rightarrow> bool" where
  "storable_document d \<longleftrightarrow> list_all storable_element (ld_elements d) \<and> optional_ok (\<lambda>f. storable (JObj f)) (ld_frontmatter d)"

lemma storable_dump_document: "storable_document d \<Longrightarrow> storable (dump_document d)"
  unfolding dump_document_def storable_obj
  by (auto simp: storable_document_def elim: list.pred_mono_strong intro: storable_dump_element)

definition storable_outcome :: "parse_outcome \<Rightarrow> bool" where
  "storable_outcome r \<longleftrightarrow>
     optional_ok storable_document (po_document r)
     \<and> list_all storable_warning (po_warnings r) \<and> list_all (list_all scalar) (po_errors r) \<and> po_ocr r = None
     \<and> list_all scalar (po_consumed_input_hash r) \<and> float_storable (po_duration_seconds r)"

lemma storable_dump_outcome: "storable_outcome r \<Longrightarrow> storable (dump_outcome r)"
proof -
  assume r: "storable_outcome r"
  have "list_all scalar (parse_status_value (po_status r))" by (cases "po_status r") simp_all
  moreover have "list_all (\<lambda>w. storable (dump_warning w)) (po_warnings r)"
    using r by (auto simp: storable_outcome_def elim: list.pred_mono_strong intro: storable_dump_warning)
  moreover have "optional_ok (\<lambda>d. storable (dump_document d)) (po_document r)"
    using r storable_dump_document by (cases "po_document r") (simp_all add: storable_outcome_def)
  ultimately show ?thesis
    using r unfolding dump_outcome_def storable_obj by (simp add: storable_outcome_def)
qed

text \<open>
  What a parse relies on in its surroundings: messages are well-formed text, the elapsed time is
  a number that its \<open>repr\<close> determines, YAML mappings and the elements of unusual JSON documents
  can be stored.
\<close>

definition env_ok :: "parse_env \<Rightarrow> bool" where
  "env_ok E \<longleftrightarrow> float_storable (pe_elapsed E)
     \<and> (\<forall>data. list_all scalar (pe_decode_message E data))
     \<and> (\<forall>enc data m. pe_other_codec E enc data = DecodeError m \<longrightarrow> list_all scalar m)
     \<and> (\<forall>enc data m. pe_other_codec E enc data = DecodeRaises m \<longrightarrow> list_all scalar m)
     \<and> (\<forall>s. list_all scalar (pe_json_message E s))
     \<and> (\<forall>s e. pe_json_beyond E s = Some (Inl (ParserRaises e)) \<longrightarrow> list_all scalar e)
     \<and> (\<forall>s es. pe_json_beyond E s = Some (Inr es) \<longrightarrow> list_all storable_element es)
     \<and> (\<forall>e. list_all scalar (pe_csv_message E e))
     \<and> (\<forall>s d. pe_safe_load E s = YamlMapping d \<longrightarrow> storable (JObj d))
     \<and> (\<forall>s e. pe_safe_load E s = YamlOtherMapping e \<longrightarrow> list_all scalar e)
     \<and> (\<forall>data e. pe_pdf E data = PdfRaises e \<longrightarrow> list_all scalar e)
     \<and> (\<forall>data pages e. pe_pdf E data = PdfPages pages \<longrightarrow> Inl e \<in> set pages \<longrightarrow> list_all scalar e)
     \<and> (\<forall>s e. pe_html_events E s = Inl e \<longrightarrow> list_all scalar e)
     \<and> list_all scalar (pe_validation_message E)"

text \<open>The result of a parser: what a caller and a child process may rely on.\<close>

definition good_result :: "bytes \<Rightarrow> parse_exception + parse_outcome \<Rightarrow> bool" where
  "good_result data r \<longleftrightarrow>
     (case r of
        Inl (ParserRaises e) \<Rightarrow> list_all scalar e
      | Inr res \<Rightarrow> storable_outcome res \<and> po_consumed_input_hash res = hash_raw_bytes data)"

lemma good_result_simps [simp]:
  "good_result data (Inl (ParserRaises e)) \<longleftrightarrow> list_all scalar e"
  "good_result data (Inr res) \<longleftrightarrow> storable_outcome res \<and> po_consumed_input_hash res = hash_raw_bytes data"
  by (simp_all add: good_result_def)

lemma good_fail: "env_ok E \<Longrightarrow> list_all scalar e \<Longrightarrow> good_result data (fail_with E data e)"
  by (simp add: fail_with_def outcome_of_def storable_outcome_def env_ok_def)

lemma good_succeed:
  "env_ok E \<Longrightarrow> list_all storable_element es \<Longrightarrow> list_all storable_warning ws \<Longrightarrow> optional_ok (\<lambda>f. storable (JObj f)) fm
   \<Longrightarrow> good_result data (succeed_with E data ws es n fm)"
  by (simp add: succeed_with_def outcome_of_def storable_outcome_def storable_document_def env_ok_def)

lemma good_with_text:
  assumes "env_ok E" "\<And>s. good_result data (k s)"
  shows "good_result data (with_text E data config limits k)"
proof (cases "decode_text E (config_get config ''encoding'' (JStr (py ''utf-8''))) data")
  case (DecodeError e)
  then have "list_all scalar e"
    using assms(1) by (auto simp: decode_text_def env_ok_def split: json.splits if_splits option.splits)
  then show ?thesis using assms(1) DecodeError by (simp add: with_text_def good_fail)
next
  case (DecodeRaises e)
  then have "list_all scalar e"
    using assms(1) by (auto simp: decode_text_def env_ok_def split: json.splits if_splits option.splits)
  then show ?thesis using assms(1) DecodeRaises by (simp add: with_text_def good_fail)
qed (use assms in \<open>simp add: with_text_def good_fail\<close>)

lemma good_validated:
  assumes "env_ok E" "\<And>es'. es = es' \<Longrightarrow> list_all element_ok es' \<Longrightarrow> good_result data (k es')"
  shows "good_result data (andThen (validated E es) k)"
  using assms by (simp add: validated_def env_ok_def)

text \<open>Elements that pass validation can be stored, as long as their other fields are plain.\<close>

lemma plain_elements: "list_all plain_element es \<Longrightarrow> list_all element_ok es \<Longrightarrow> list_all storable_element es"
  by (induction es)
    (auto simp: plain_element_def storable_element_def element_ok_def optional_ok_def split: option.splits)

lemma good_document:
  assumes "env_ok E" "list_all plain_element es" "list_all storable_warning ws" "optional_ok (\<lambda>f. storable (JObj f)) fm"
  shows "good_result data (andThen (validated E es) (\<lambda>es. succeed_with E data ws es n fm))"
  using assms by (intro good_validated good_succeed) (auto intro: plain_elements)

lemma plain_enumerate:
  "(\<And>i x. plain_element (f i x)) \<Longrightarrow> list_all plain_element (map (\<lambda>(i, x). f i x) (enumerate n xs))"
  by (induction xs arbitrary: n) simp_all

lemma good_parse_text: "env_ok E \<Longrightarrow> good_result data (parse_text E data config limits)"
  unfolding parse_text_def by (intro good_with_text good_document) (auto simp: text_elements_def Let_def plain_enumerate)

lemma plain_json_elements: "list_all plain_element (json_elements v)"
  by (auto simp: json_elements_def plain_enumerate case_prod_beta list_all_iff split: json.splits)

lemma good_parse_json:
  assumes "env_ok E"
  shows "good_result data (parse_json E data config limits)"
  unfolding parse_json_def
proof (rule good_with_text [OF assms])
  fix s
  show "good_result data
      (case pe_json_beyond E s of
         Some r \<Rightarrow> andThen r (\<lambda>es. andThen (validated E es) (\<lambda>es. succeed_with E data [] es 1 None))
       | None \<Rightarrow>
           (case loads_text s of
              None \<Rightarrow> fail_with E data (py ''JSON_DECODE_ERROR: '' @ pe_json_message E s)
            | Some v \<Rightarrow> andThen (validated E (json_elements v)) (\<lambda>es. succeed_with E data [] es 1 None)))"
  proof (cases "pe_json_beyond E s")
    case None
    then show ?thesis
      using assms by (cases "loads_text s") (auto intro!: good_fail good_document plain_json_elements simp: env_ok_def)
  next
    case (Some r)
    then show ?thesis
    proof (cases r)
      case (Inl e)
      then show ?thesis using assms Some by (cases e) (auto simp: env_ok_def)
    next
      case (Inr es)
      then have "list_all storable_element es" using assms Some by (auto simp: env_ok_def)
      then show ?thesis using assms Some Inr by (auto intro!: good_validated good_succeed)
    qed
  qed
qed

lemma good_parse_csv:
  assumes "env_ok E"
  shows "good_result data (parse_csv E data config limits)"
proof -
  have "list_all plain_element (csv_elements rows)" for rows
    by (auto simp: csv_elements_def plain_enumerate split: list.splits)
  then show ?thesis
    unfolding parse_csv_def using assms
    by (intro good_with_text) (auto intro!: good_fail good_document simp: env_ok_def split: option.splits sum.splits)
qed

lemma pdf_page_texts:
  assumes "collect (map (page_text E) pages) = Inr texts"
  shows "list_all (list_all scalar) texts"
  using assms
proof (induction pages arbitrary: texts)
  case (Cons p pages)
  then show ?case
    by (cases p) (auto simp: page_text_def split: if_splits sum.splits)
qed simp

lemma pdf_page_failure:
  assumes "env_ok E" "\<And>e. Inl e \<in> set pages \<Longrightarrow> list_all scalar e" "collect (map (page_text E) pages) = Inl e"
  shows "list_all scalar e"
  using assms(2,3)
proof (induction pages)
  case (Cons p pages)
  then show ?case
    using assms(1) by (cases p) (auto simp: page_text_def env_ok_def split: if_splits sum.splits)
qed simp

lemma list_all_enumerate: "list_all P xs \<Longrightarrow> list_all (\<lambda>(n, x). P x) (enumerate k xs)"
  by (induction xs arbitrary: k) simp_all

lemma storable_pdf_elements:
  assumes "list_all (list_all scalar) texts"
  shows "list_all storable_element (pdf_elements (enumerate 0 texts))"
proof -
  have "snd ` set (filter (\<lambda>p. snd p \<noteq> []) (enumerate 0 texts)) \<subseteq> set texts"
    by (auto simp: in_set_enumerate_eq)
  then have "list_all (\<lambda>p. list_all scalar (snd p)) (filter (\<lambda>p. snd p \<noteq> []) (enumerate 0 texts))"
    using assms by (auto simp: list_all_iff image_subset_iff)
  then have "list_all (\<lambda>(n, p). list_all scalar (snd p)) (enumerate 0 (filter (\<lambda>p. snd p \<noteq> []) (enumerate 0 texts)))"
    by (rule list_all_enumerate)
  then show ?thesis
    unfolding pdf_elements_def list.pred_map
    by (rule list.pred_mono_strong)
      (auto simp: storable_element_def new_element_def scalar_def)
qed

lemma good_parse_pdf:
  assumes "env_ok E"
  shows "good_result data (parse_pdf E data config limits)"
proof (cases "pe_pdf E data")
  case (PdfPages pages)
  then have raises: "\<And>e. Inl e \<in> set pages \<Longrightarrow> list_all scalar e" using assms by (auto simp: env_ok_def)
  show ?thesis
  proof (cases "collect (map (page_text E) pages)")
    case (Inl e)
    with pdf_page_failure [OF assms raises Inl] show ?thesis
      using assms PdfPages by (auto simp: parse_pdf_def intro!: good_fail)
  next
    case (Inr texts)
    with pdf_page_texts [OF Inr] show ?thesis
      using assms PdfPages by (auto simp: parse_pdf_def intro!: good_fail good_succeed storable_pdf_elements)
  qed
qed (use assms in \<open>auto simp: parse_pdf_def env_ok_def intro!: good_fail\<close>)

lemma plain_parse_body: "list_all plain_element (parse_body U body)"
  using parse_body_inv [of U body] by (auto simp: number_elements_fields doc_inv_def)

lemma extract_frontmatter_ok:
  assumes "env_ok E" "extract_frontmatter E s = (loaded, ws, body)"
  shows "list_all storable_warning ws \<and>
    (case loaded of Inl (ParserRaises e) \<Rightarrow> list_all scalar e | Inr fm \<Rightarrow> optional_ok (\<lambda>f. storable (JObj f)) fm)"
  using assms
  by (auto simp: extract_frontmatter_def storable_warning_def env_ok_def split: option.splits prod.splits yaml_load.splits if_splits)

lemma good_parse_markdown:
  assumes "env_ok E"
  shows "good_result data (parse_markdown U E data config limits)"
  unfolding parse_markdown_def
proof (rule good_with_text [OF assms])
  fix s
  obtain loaded ws body where f: "extract_frontmatter E (normalize_newlines s) = (loaded, ws, body)"
    by (cases "extract_frontmatter E (normalize_newlines s)")
  note ok = extract_frontmatter_ok [OF assms f]
  show "good_result data
      (case extract_frontmatter E (normalize_newlines s) of (loaded, warnings, body) \<Rightarrow>
         andThen (validated E (parse_body U body)) (\<lambda>es.
         andThen loaded (\<lambda>frontmatter. succeed_with E data warnings es 1 frontmatter)))"
  proof (cases loaded)
    case (Inl e)
    then show ?thesis using ok assms by (cases e) (auto simp: f intro!: good_validated)
  next
    case (Inr fm)
    then show ?thesis using ok assms good_document [OF assms plain_parse_body, of ws fm data U body 1] by (simp add: f)
  qed
qed

lemma good_parse_html:
  assumes "env_ok E"
  shows "good_result data (parse_html E data config limits)"
proof -
  have "list_all plain_element (html_elements events)" for events
    using html_elements_inv [of events] by (auto simp: number_elements_fields doc_inv_def)
  then show ?thesis
    unfolding parse_html_def using assms
    by (intro good_with_text) (auto intro!: good_fail good_document simp: env_ok_def split: sum.splits)
qed

lemma good_native_parse: "env_ok E \<Longrightarrow> good_result data (native_parse U E p data config limits)"
  by (cases p) (simp_all add: good_parse_text good_parse_json good_parse_csv good_parse_pdf good_parse_markdown good_parse_html)

section \<open>Properties\<close>

lemma storable_failure:
  "list_all scalar m \<Longrightarrow> float_storable x \<Longrightarrow> storable_outcome (failure_outcome data code m x)"
  by (simp add: failure_outcome_def storable_outcome_def)

lemma loads_encoded: "storable_outcome r \<Longrightarrow> loads (encode_outcome r) = Some (dump_outcome r)"
  unfolding encode_outcome_def by (rule loads_dumps) (rule storable_dump_outcome)

text \<open>What the controller makes of an outcome the worker wrote.\<close>

lemma run_sandboxed_written:
  assumes "storable_outcome r"
  shows "run_sandboxed data limits x (Exited 0 s (Some (encode_outcome r))) =
    Inr (if length (encode_outcome r) > pl_max_output_bytes limits
         then failure_outcome data ''PARSE_OUTPUT_TOO_LARGE'' (py ''parser output exceeded the sandbox size cap'') x else r)"
  using loads_encoded [OF assms] by (simp add: run_sandboxed_def)


definition sample_parse_env :: parse_env where
  "sample_parse_env =
     \<lparr>pe_elapsed = 0, pe_decode_message = (\<lambda>data. []), pe_other_codec = (\<lambda>name data. DecodeError []), pe_json_message = (\<lambda>s. []),
      pe_json_beyond = (\<lambda>s. None), pe_csv_message = (\<lambda>e. []), pe_safe_load = (\<lambda>s. YamlError), pe_pdf = (\<lambda>data. PdfEncrypted),
      pe_pdf_version = [], pe_html_events = (\<lambda>s. Inr []), pe_validation_message = []\<rparr>"

lemma sample_parse_env_ok: "env_ok sample_parse_env"
proof -
  have "float_storable 0"
    by (simp add: float_storable_def repr_float_def scan_number_def number_frac_def number_exp_def is_digit_def py_def Let_def)
  then show ?thesis by (simp add: env_ok_def sample_parse_env_def)
qed


end
