(* ===== verification/Build.thy ===== *)
theory Build
  imports Discovery Embedding Stage_Cache Artifacts Acl License Pii Signing Sandbox
begin

text \<open>
  \<open>ragledger.pipeline.build\<close>: one build, from the discovered sources to the manifest. The state
  is that of \<open>_BuildState\<close> together with the artifact store and the stage cache the build
  writes to; an exception carries the state it leaves. What the build reads of the world is the
  record \<open>build_env\<close>: the source tree, the files as they are when they are read again, the
  names and faults of the store's writes, the schema check and the platform.
\<close>

section \<open>Configuration\<close>

record pii_policy_config =
  pp_block_entity_types :: "pystr list"
  pp_min_confidence :: float64

text \<open>A parser: its descriptor, a parse in the process and a parse in the sandbox.\<close>

record document_parser =
  dp_name :: pystr
  dp_version :: pystr
  dp_parse :: "bytes \<Rightarrow> dict \<Rightarrow> parse_limits \<Rightarrow> parse_exception + parse_outcome"
  dp_sandboxed :: "bytes \<Rightarrow> dict \<Rightarrow> parse_limits \<Rightarrow> parse_exception + parse_outcome"

text \<open>An embedding provider: its descriptor and what the n-th attempt at a batch gives.\<close>

record embedder =
  ee_descriptor :: embedding_descriptor
  ee_embed :: "nat \<Rightarrow> pystr list \<Rightarrow> embedding_error + (pyfloat list list \<times> dict)"

record 'sk build_config =
  bc_namespace :: pystr
  bc_build_id :: pystr
  bc_created_at :: utc_datetime
  bc_ledger_version :: pystr
  bc_discovery :: discovery_config
  bc_parser_registry :: "(pystr \<times> document_parser) list"
  bc_parser_config :: dict
  bc_parse_limits :: parse_limits
  bc_sandboxed :: bool
  bc_chunker_registry :: "(pystr \<times> chunker_name) list"
  bc_chunker_name :: pystr
  bc_chunker_config :: dict
  bc_embedding_provider :: "embedder option"
  bc_embedding_normalization :: normalization
  bc_pii_config :: "pii_scan_config option"
  bc_pii_policy :: pii_policy_config
  bc_license_config :: "license_config option"
  bc_acl_config :: "acl_config option"
  bc_tenant_config :: "tenant_config option"
  bc_previous_sources :: "source_record list"
  bc_signing_key :: "'sk option"
  bc_signing_issuer :: "pystr option"
  bc_reproducible :: bool

record build_env =
  be_platform :: platform
  be_unicode :: unicode_db
  be_regex :: regex_env
  be_guess_type :: "pystr \<Rightarrow> pystr option"
  be_tree :: source_tree
  be_read_file :: "pystr \<Rightarrow> bytes option"
  be_tmp_token :: "nat \<Rightarrow> pystr"
  be_fault :: "nat \<Rightarrow> nat option"
  be_schema_ok :: "json \<Rightarrow> bool"
  be_os :: pystr
  be_python_version :: pystr

section \<open>State and errors\<close>

datatype build_error =
    DiscoveryFailed discovery_error
  | UnsupportedScheme pystr
  | FileUnreadable pystr
  | StoreFailed store_error
  | CacheUnreadable
  | ParserFailed parse_exception
  | AclFailed acl_error
  | PiiFailed pii_error
  | UnknownChunker pystr
  | ChunkingFailed chunk_error
  | EmbeddingFailed embedding_error
  | ManifestFailed manifest_error

record build_state =
  bs_sources :: "source_record list"
  bs_parse_runs :: "parse_record list"
  bs_chunks :: "chunk_record list"
  bs_embeddings :: "embedding_record list"
  bs_assertions :: "assertion list"
  bs_artifacts :: "artifact_ref list"
  bs_warnings :: "warning_record list"
  bs_any_parse_failures :: bool
  bs_store :: directory
  bs_writes :: nat
  bs_cache :: stage_cache

type_synonym 'a build_result = "(build_error \<times> build_state) + 'a"

text \<open>A call that does not touch the state, and may raise.\<close>

definition lifting :: "build_state \<Rightarrow> ('e \<Rightarrow> build_error) \<Rightarrow> 'e + 'a \<Rightarrow> 'a build_result" where
  "lifting st wrap r = (case r of Inl e \<Rightarrow> Inl (wrap e, st) | Inr x \<Rightarrow> Inr x)"

definition initial_state :: "directory \<Rightarrow> stage_cache \<Rightarrow> build_state" where
  "initial_state store cache =
     \<lparr>bs_sources = [], bs_parse_runs = [], bs_chunks = [], bs_embeddings = [], bs_assertions = [], bs_artifacts = [],
      bs_warnings = [], bs_any_parse_failures = False, bs_store = store, bs_writes = 0, bs_cache = cache\<rparr>"

section \<open>Helpers\<close>

definition uri_to_relative_path :: "pystr \<Rightarrow> pystr option" where
  "uri_to_relative_path uri =
     (case partition_at 58 uri of (scheme, _, relative) \<Rightarrow> if scheme \<noteq> py ''file'' then None else Some relative)"

definition run_parser :: "document_parser \<Rightarrow> bytes \<Rightarrow> dict \<Rightarrow> parse_limits \<Rightarrow> bool \<Rightarrow> parse_exception + parse_outcome" where
  "run_parser parser data config limits sandboxed =
     (if sandboxed then dp_sandboxed parser data config limits else dp_parse parser data config limits)"

definition no_parser_outcome :: "pystr \<Rightarrow> parse_outcome" where
  "no_parser_outcome consumed_hash =
     \<lparr>po_status = ParseFail, po_document = None, po_warnings = [], po_errors = [py ''NO_PARSER_AVAILABLE''], po_ocr = None,
      po_consumed_input_hash = consumed_hash, po_duration_seconds = 0\<rparr>"

definition artifact_ref_of :: "artifact_info \<Rightarrow> pystr \<Rightarrow> sensitivity \<Rightarrow> artifact_ref" where
  "artifact_ref_of info media_type sens =
     \<lparr>art_artifact_id = py ''art_'' @ ai_sha256 info, art_media_type = media_type, art_sha256 = ai_sha256 info,
      art_size_bytes = ai_size_bytes info, art_compression = CompressionNone, art_encryption = EncryptionNone,
      art_locator = py ''artifacts/'' @ ai_sha256 info, art_sensitivity = sens\<rparr>"

text \<open>\<open>store.put\<close> under the next temporary name, and \<open>state.artifacts.append\<close> of its reference.\<close>

definition store_artifact :: "build_env \<Rightarrow> bytes \<Rightarrow> pystr \<Rightarrow> sensitivity \<Rightarrow> build_state \<Rightarrow> (artifact_ref \<times> build_state) build_result" where
  "store_artifact V payload media_type sens st =
     (case put (py ''.tmp-'' @ be_tmp_token V (bs_writes st)) (be_fault V (bs_writes st)) payload (bs_store st) of
        (result, store) \<Rightarrow>
          (let st' = st\<lparr>bs_store := store, bs_writes := bs_writes st + 1\<rparr> in
           andThen (lifting st' StoreFailed result) (\<lambda>info.
             let ref = artifact_ref_of info media_type sens in Inr (ref, st'\<lparr>bs_artifacts := bs_artifacts st' @ [ref]\<rparr>))))"

definition store_json_artifact :: "build_env \<Rightarrow> json \<Rightarrow> pystr \<Rightarrow> sensitivity \<Rightarrow> build_state \<Rightarrow> (artifact_ref \<times> build_state) build_result" where
  "store_json_artifact V v media_type sens st = store_artifact V (canonical_bytes (be_platform V) v) media_type sens st"

text \<open>\<open>bytes.decode("utf-8", errors="replace")\<close>: one replacement character for each maximal
  prefix of a sequence that is not continued as it must be.\<close>

definition utf8_lead :: "nat \<Rightarrow> (nat \<times> nat \<times> nat) option" where
  "utf8_lead n =
     (if 194 \<le> n \<and> n \<le> 223 then Some (1, 128, 191)
      else if n = 224 then Some (2, 160, 191)
      else if n = 237 then Some (2, 128, 159)
      else if 225 \<le> n \<and> n \<le> 239 then Some (2, 128, 191)
      else if n = 240 then Some (3, 144, 191)
      else if n = 244 then Some (3, 128, 143)
      else if 241 \<le> n \<and> n \<le> 243 then Some (3, 128, 191)
      else None)"

definition good_continuation :: "nat \<Rightarrow> nat \<Rightarrow> nat \<Rightarrow> bytes \<Rightarrow> nat" where
  "good_continuation k lo hi bs =
     (case bs of
        [] \<Rightarrow> 0
      | c # cs \<Rightarrow> if lo \<le> unat c \<and> unat c \<le> hi then 1 + length (takeWhile is_cont (take (k - 1) cs)) else 0)"

definition utf8_value :: "nat \<Rightarrow> nat \<Rightarrow> bytes \<Rightarrow> codepoint" where
  "utf8_value n k conts = foldl (\<lambda>v c. v * 64 + (unat c - 128)) (n mod (2 ^ (6 - k))) conts"

function utf8_replace :: "bytes \<Rightarrow> pystr" where
  "utf8_replace [] = []"
| "utf8_replace (b # bs) =
     (if unat b < 128 then unat b # utf8_replace bs
      else (case utf8_lead (unat b) of
              None \<Rightarrow> 65533 # utf8_replace bs
            | Some (k, lo, hi) \<Rightarrow>
                (let n = good_continuation k lo hi bs in
                 (if n = k then utf8_value (unat b) k (take k bs) else 65533) # utf8_replace (drop n bs))))"
  by pat_completeness auto
termination
  by (relation "measure length") auto

declare utf8_replace.simps(2) [simp del]

section \<open>Embedding one chunk\<close>

text \<open>The attempts of \<open>_embed_with_retry\<close>; only \<open>EmbeddingProviderError\<close> is caught, and a
  batch without vectors is an \<open>IndexError\<close>.\<close>

definition first_vector :: "pyfloat list list \<times> dict \<Rightarrow> embedding_error + (pyfloat list \<times> dict) option" where
  "first_vector r = (case fst r of [] \<Rightarrow> Inl BadDimension | v # _ \<Rightarrow> Inr (Some (v, snd r)))"

fun embed_attempts :: "embedder \<Rightarrow> pystr \<Rightarrow> nat list \<Rightarrow> embedding_error + (pyfloat list \<times> dict) option" where
  "embed_attempts provider text [] = Inr None"
| "embed_attempts provider text (i # attempts) =
     (case ee_embed provider i [text] of
        Inl EmbeddingProviderError \<Rightarrow> embed_attempts provider text attempts
      | Inl e \<Rightarrow> Inl e
      | Inr r \<Rightarrow> first_vector r)"

definition embed_with_retry :: "embedder \<Rightarrow> pystr \<Rightarrow> embedding_error + (pyfloat list \<times> dict) option" where
  "embed_with_retry provider text = embed_attempts provider text [0..<2]"

text \<open>What the embedding stage stores: the vector's finite numbers and the usage.\<close>

definition dump_vector :: "pyfloat list \<Rightarrow> json" where
  "dump_vector vector = JList (map (\<lambda>v. case v of Finite x \<Rightarrow> JFloat x | _ \<Rightarrow> JNull) vector)"

definition dump_embedded :: "pyfloat list \<times> dict \<Rightarrow> json" where
  "dump_embedded r = JObj [(py ''vector'', dump_vector (fst r)), (py ''usage'', JObj (snd r))]"

definition load_embedded :: "json \<Rightarrow> (pyfloat list \<times> dict) option" where
  "load_embedded v =
     Option.bind (as_obj v) (\<lambda>d.
       Option.bind (required (as_list as_float) d ''vector'') (\<lambda>xs.
       Option.bind (required as_obj d ''usage'') (\<lambda>usage. Some (map Finite xs, usage))))"

definition embedding_config_hash :: "platform \<Rightarrow> embedding_descriptor \<Rightarrow> normalization \<Rightarrow> pystr" where
  "embedding_config_hash L descriptor norml =
     hash_canonical L (JObj [(py ''provider'', JStr (ed_provider descriptor)), (py ''name'', JStr (ed_name descriptor)),
       (py ''revision'', JStr (ed_revision descriptor)), (py ''dimension'', jnat (ed_dimension descriptor)),
       (py ''dtype'', JStr (ed_dtype descriptor)), (py ''normalization'', JStr (normalization_value norml))])"

definition embed_cache_key :: "'sk build_config \<Rightarrow> platform \<Rightarrow> embedding_descriptor \<Rightarrow> pystr \<Rightarrow> pystr" where
  "embed_cache_key config L descriptor contextualized_hash =
     stage_cache_key L ''embed'' contextualized_hash (ed_provider descriptor @ [58] @ ed_name descriptor)
       (ed_revision descriptor) (embedding_config_hash L descriptor (bc_embedding_normalization config))"

text \<open>A lookup in the cache and the decoding of what it holds.\<close>

definition look_up :: "(json \<Rightarrow> 'a option) \<Rightarrow> pystr \<Rightarrow> build_state \<Rightarrow> ('a option \<times> build_state) build_result" where
  "look_up rd key st =
     (case cache_get key (bs_cache st) of
        (found, cache) \<Rightarrow>
          (let st' = st\<lparr>bs_cache := cache\<rparr> in
           case found of
             Inl e \<Rightarrow> Inl (CacheUnreadable, st')
           | Inr None \<Rightarrow> Inr (None, st')
           | Inr (Some JNull) \<Rightarrow> Inr (None, st')
           | Inr (Some v) \<Rightarrow> (case rd v of None \<Rightarrow> Inl (CacheUnreadable, st') | Some x \<Rightarrow> Inr (Some x, st'))))"

definition remember :: "pystr \<Rightarrow> json \<Rightarrow> build_state \<Rightarrow> build_state" where
  "remember key v st = st\<lparr>bs_cache := cache_put key v (bs_cache st)\<rparr>"

text \<open>The vector and usage of a chunk's text, from the cache or the provider; \<open>None\<close> when both
  attempts failed, which the caller turns into a warning.\<close>

definition fetch_vector :: "build_env \<Rightarrow> 'sk build_config \<Rightarrow> embedder \<Rightarrow> pystr \<Rightarrow> pystr \<Rightarrow> build_state
   \<Rightarrow> ((pyfloat list \<times> dict) option \<times> build_state) build_result" where
  "fetch_vector V config provider key text st =
     andThen (look_up load_embedded key st) (\<lambda>(cached, st1).
       case cached of
         Some r \<Rightarrow> Inr (Some r, st1)
       | None \<Rightarrow>
           andThen (lifting st1 EmbeddingFailed (embed_with_retry provider text)) (\<lambda>result.
             case result of
               None \<Rightarrow> Inr (None, st1)
             | Some r \<Rightarrow>
                 andThen (lifting st1 EmbeddingFailed (validate_finite (fst r))) (\<lambda>_.
                 andThen (lifting st1 EmbeddingFailed (validate_dimension (ee_descriptor provider) (fst r))) (\<lambda>_.
                   Inr (Some r, remember key (dump_embedded r) st1)))))"

definition embedding_record_of ::
  "build_env \<Rightarrow> 'sk build_config \<Rightarrow> embedding_descriptor \<Rightarrow> chunk_record \<Rightarrow> pystr \<Rightarrow> dict \<Rightarrow> embedding_record" where
  "embedding_record_of V config descriptor chunk vec_hash usage =
     \<lparr>emb_id = embedding_id_of (be_platform V) (chk_id chunk) (chk_contextualized_hash chunk)
        (embedding_config_hash (be_platform V) descriptor (bc_embedding_normalization config)),
      emb_chunk_id = chk_id chunk,
      emb_model = \<lparr>mdl_provider = ed_provider descriptor, mdl_name = ed_name descriptor, mdl_revision = ed_revision descriptor\<rparr>,
      emb_dimension = ed_dimension descriptor, emb_dtype = ed_dtype descriptor,
      emb_normalization = bc_embedding_normalization config, emb_distance_expectation = None,
      emb_contextualized_hash = chk_contextualized_hash chunk, emb_vector_hash = Some vec_hash,
      emb_generated_at = bc_created_at config, emb_usage = Some usage, emb_extensions = None\<rparr>"

definition embed_chunk ::
  "build_env \<Rightarrow> 'sk build_config \<Rightarrow> embedder \<Rightarrow> chunk_record \<Rightarrow> pystr \<Rightarrow> build_state \<Rightarrow> build_state build_result" where
  "embed_chunk V config provider chunk text st =
     (let descriptor = ee_descriptor provider;
          key = embed_cache_key config (be_platform V) descriptor (chk_contextualized_hash chunk)
      in andThen (fetch_vector V config provider key text st) (\<lambda>(fetched, st1).
           case fetched of
             None \<Rightarrow>
               Inr (st1\<lparr>bs_warnings := bs_warnings st1 @
                 [\<lparr>wr_code = py ''EMBEDDING_FAILED'', wr_message = None, wr_context = Some [(py ''chunk_id'', JStr (chk_id chunk))]\<rparr>]\<rparr>)
           | Some (vector, usage) \<Rightarrow>
               andThen (lifting st1 EmbeddingFailed (vector_hash vector)) (\<lambda>vec_hash.
                 Inr (st1\<lparr>bs_embeddings := bs_embeddings st1 @ [embedding_record_of V config descriptor chunk vec_hash usage]\<rparr>))))"

section \<open>The chunks of a document\<close>

text \<open>\<open>_pii_blocked\<close>: \<open>by_id\<close> keeps the last assertion of an id.\<close>

definition blocking_finding :: "pii_policy_config \<Rightarrow> pii_finding \<Rightarrow> bool" where
  "blocking_finding policy finding \<longleftrightarrow>
     pf_entity_type finding \<in> set (pp_block_entity_types policy) \<and> pf_confidence finding \<ge> pp_min_confidence policy"

definition blocking_assertion :: "pii_policy_config \<Rightarrow> assertion option \<Rightarrow> bool" where
  "blocking_assertion policy a \<longleftrightarrow>
     (case a of Some (PiiScan scan) \<Rightarrow> list_ex (blocking_finding policy) (pii_findings scan) | _ \<Rightarrow> False)"

definition pii_blocked :: "assertion list \<Rightarrow> pystr list \<Rightarrow> pii_policy_config \<Rightarrow> bool" where
  "pii_blocked assertions assertion_ids policy =
     (if assertion_ids = [] \<or> pp_block_entity_types policy = [] then False
      else list_ex (\<lambda>i. blocking_assertion policy (dict_of assertion_id assertions i)) assertion_ids)"

definition quality_assertion_of :: "platform \<Rightarrow> utc_datetime \<Rightarrow> pystr \<Rightarrow> string \<Rightarrow> dict \<Rightarrow> assertion" where
  "quality_assertion_of L created_at subject_ref code context =
     Quality \<lparr>qa_id = derive_assertion_id L (py ''qua'') [JStr subject_ref, JStr (py code)], qa_subject_ref = subject_ref,
       qa_created_at = created_at, qa_warnings = [\<lparr>wr_code = py code, wr_message = None, wr_context = Some context\<rparr>],
       qa_extensions = None\<rparr>"

definition add_assertion :: "assertion \<Rightarrow> build_state \<Rightarrow> build_state" where
  "add_assertion a st = st\<lparr>bs_assertions := bs_assertions st @ [a]\<rparr>"

primrec chunker_descriptor :: "chunker_name \<Rightarrow> pystr \<times> pystr" where
  "chunker_descriptor LineBasedChunker = (py ''ragledger.line_based'', py ''1'')"
| "chunker_descriptor HierarchicalChunker = (py ''ragledger.hierarchical'', py ''1'')"
| "chunker_descriptor HybridChunker = (py ''ragledger.hybrid'', py ''1'')"

definition chunker_config_hash :: "platform \<Rightarrow> chunker_name \<Rightarrow> dict \<Rightarrow> pystr" where
  "chunker_config_hash L ck config =
     hash_canonical L (JObj [(py ''chunker'', JStr (fst (chunker_descriptor ck))),
       (py ''version'', JStr (snd (chunker_descriptor ck))), (py ''config'', JObj config)])"

definition chunk_cache_key :: "platform \<Rightarrow> chunker_name \<Rightarrow> dict \<Rightarrow> ledger_document \<Rightarrow> pystr" where
  "chunk_cache_key L ck config document =
     stage_cache_key L ''chunk'' (hash_canonical L (dump_document document)) (fst (chunker_descriptor ck))
       (snd (chunker_descriptor ck)) (chunker_config_hash L ck config)"

text \<open>The candidates of a document, from the cache or the chunker.\<close>

definition fetch_candidates ::
  "build_env \<Rightarrow> 'sk build_config \<Rightarrow> chunker_name \<Rightarrow> ledger_document \<Rightarrow> build_state
   \<Rightarrow> ((chunk_candidate list \<times> nat) \<times> build_state) build_result" where
  "fetch_candidates V config ck document st =
     (let key = chunk_cache_key (be_platform V) ck (bc_chunker_config config) document in
      andThen (look_up load_chunking key st) (\<lambda>(cached, st1).
        case cached of
          Some r \<Rightarrow> Inr (r, st1)
        | None \<Rightarrow>
            andThen (lifting st1 ChunkingFailed (iterate_chunks ck (bc_chunker_config config) document)) (\<lambda>candidates.
              let r = drop_empty_candidates candidates in Inr (r, remember key (dump_chunking r) st1))))"

definition chunk_record_of ::
  "build_env \<Rightarrow> 'sk build_config \<Rightarrow> pystr \<Rightarrow> pystr \<Rightarrow> pystr option \<Rightarrow> chunk_candidate \<Rightarrow> contextualized_chunk \<Rightarrow> pystr \<Rightarrow> pystr list
   \<Rightarrow> chunk_record" where
  "chunk_record_of V config version_id parse_run acl candidate cx chunk_id pii_ids =
     \<lparr>chk_id = chunk_id, chk_source_version_id = version_id, chk_parse_run_id = parse_run,
      chk_locator = cc_locator candidate, chk_raw_hash = hash_text (be_platform V) True (cc_raw_text candidate),
      chk_contextualized_hash = hash_text (be_platform V) True (cx_contextualized_text cx),
      chk_token_count = cx_token_count cx,
      chk_tokenizer = \<lparr>tok_name = TOKENIZER_NAME, tok_revision = py ''1''\<rparr>,
      chk_text_artifact_ref = None, chk_neighbor_ids = [], chk_metadata = None, chk_pii_assertion_ids = pii_ids,
      chk_license_assertion_ids = [],
      chk_acl_assertion_ids = (case acl of Some i \<Rightarrow> if i \<noteq> [] then [i] else [] | None \<Rightarrow> []), chk_extensions = None\<rparr>"

text \<open>The scan of a chunk, when scanning is configured: its assertion is recorded.\<close>

definition scan_chunk :: "build_env \<Rightarrow> 'sk build_config \<Rightarrow> pystr \<Rightarrow> pystr \<Rightarrow> build_state \<Rightarrow> (pystr list \<times> build_state) build_result" where
  "scan_chunk V config chunk_id text st =
     (case bc_pii_config config of
        None \<Rightarrow> Inr ([], st)
      | Some pii \<Rightarrow>
          andThen (lifting st PiiFailed
            (build_pii_scan_assertion (be_platform V) (be_unicode V) (be_regex V) chunk_id text pii (bc_created_at config)))
            (\<lambda>scan. Inr ([pii_id scan], add_assertion (PiiScan scan) st)))"

text \<open>One round of the loop over the candidates: the record, after the scan and the embedding.\<close>

definition process_candidate ::
  "build_env \<Rightarrow> 'sk build_config \<Rightarrow> chunker_name \<Rightarrow> pystr \<Rightarrow> pystr \<Rightarrow> pystr option \<Rightarrow> chunk_record list \<times> build_state
   \<Rightarrow> chunk_candidate \<Rightarrow> (chunk_record list \<times> build_state) build_result" where
  "process_candidate V config ck version_id parse_run acl acc candidate =
     (case acc of (records, st) \<Rightarrow>
        andThen (lifting st ChunkingFailed (contextualize candidate (bc_chunker_config config))) (\<lambda>cx.
        let chunk_id = chunk_id_of (be_platform V) parse_run (chunker_config_hash (be_platform V) ck (bc_chunker_config config))
              (dump_locator (cc_locator candidate)) (hash_text (be_platform V) True (cc_raw_text candidate));
            text = cx_contextualized_text cx
        in andThen (scan_chunk V config chunk_id text st) (\<lambda>(pii_ids, st1).
           let record = chunk_record_of V config version_id parse_run acl candidate cx chunk_id pii_ids;
               blocked = pii_blocked (bs_assertions st1) pii_ids (bc_pii_policy config)
           in case bc_embedding_provider config of
                Some provider \<Rightarrow>
                  if blocked then Inr (records @ [record], st1)
                  else andThen (embed_chunk V config provider record text st1) (\<lambda>st2. Inr (records @ [record], st2))
              | None \<Rightarrow> Inr (records @ [record], st1))))"

text \<open>\<open>duplicates\<close>: the ids of the chunks whose raw hash occurs more than once.\<close>

definition duplicate_chunk_ids :: "chunk_record list \<Rightarrow> pystr list" where
  "duplicate_chunk_ids records =
     (let seen = foldl (\<lambda>d r. dict_append (chk_raw_hash r) (chk_id r) d) [] records in
      sort (concat (map snd (filter (\<lambda>e. 1 < length (snd e)) seen))))"

definition process_chunks ::
  "build_env \<Rightarrow> 'sk build_config \<Rightarrow> pystr \<Rightarrow> pystr \<Rightarrow> ledger_document \<Rightarrow> pystr option \<Rightarrow> build_state \<Rightarrow> build_state build_result" where
  "process_chunks V config version_id parse_run document acl st =
     (case map_of (bc_chunker_registry config) (bc_chunker_name config) of
        None \<Rightarrow> Inl (UnknownChunker (bc_chunker_name config), st)
      | Some ck \<Rightarrow>
          andThen (lifting st ChunkingFailed (validate_size_and_template_config (bc_chunker_config config))) (\<lambda>_.
          andThen (fetch_candidates V config ck document st) (\<lambda>((candidates, dropped_empty), st1).
            let quality = quality_assertion_of (be_platform V) (bc_created_at config) parse_run;
                st2 = (if dropped_empty \<noteq> 0
                       then add_assertion (quality ''EMPTY_CHUNKS_DROPPED'' [(py ''count'', jnat dropped_empty)]) st1 else st1)
            in andThen (fold_result (process_candidate V config ck version_id parse_run acl) ([], st2) candidates)
                 (\<lambda>(records, st3).
                    let dups = duplicate_chunk_ids records;
                        st4 = (if dups \<noteq> []
                               then add_assertion (quality ''DUPLICATE_CHUNK_CONTENT'' [(py ''chunk_ids'', jstrs dups)]) st3 else st3)
                    in Inr (st4\<lparr>bs_chunks := bs_chunks st4 @ records\<rparr>)))))"

section \<open>One source\<close>

definition parse_record_of ::
  "'sk build_config \<Rightarrow> pystr \<Rightarrow> pystr \<Rightarrow> pystr \<Rightarrow> pystr \<Rightarrow> pystr \<Rightarrow> parse_outcome \<Rightarrow> warning_record list \<Rightarrow> pystr \<Rightarrow> parse_record" where
  "parse_record_of config run_id version_id name version config_hash outcome warnings artifact_id =
     \<lparr>prs_id = run_id, prs_source_version_id = version_id, prs_parser_name = name, prs_parser_version = version,
      prs_container_digest = None, prs_config_hash = Some config_hash, prs_config_redacted = None, prs_ocr = po_ocr outcome,
      prs_status = po_status outcome, prs_warnings = warnings, prs_parsed_artifact_ref = artifact_id,
      prs_duration_seconds = (if bc_reproducible config then 0 else po_duration_seconds outcome), prs_extensions = None\<rparr>"

text \<open>The branch without a parser: a failed run with its artifact, and the source is recorded.\<close>

definition source_without_parser :: "build_env \<Rightarrow> 'sk build_config \<Rightarrow> source_record \<Rightarrow> build_state \<Rightarrow> build_state build_result" where
  "source_without_parser V config source st =
     (let L = be_platform V;
          config_hash = hash_canonical L (JObj [(py ''parser'', JStr (py ''none''))]);
          run_id = parse_run_id_of L (src_version_id source) config_hash;
          outcome = no_parser_outcome (src_content_hash source)
      in andThen (store_json_artifact V (dump_outcome outcome) (py ''application/json'') Internal st) (\<lambda>(ref, st1).
           Inr (st1\<lparr>bs_parse_runs := bs_parse_runs st1 @
                      [parse_record_of config run_id (src_version_id source) (py ''none'') (py ''0'') config_hash outcome
                        [\<lparr>wr_code = py ''NO_PARSER_AVAILABLE'',
                          wr_message = Some (py ''no parser registered for media type '' @ repr_str L (src_media_type source)),
                          wr_context = None\<rparr>] (art_artifact_id ref)],
                    bs_any_parse_failures := True, bs_sources := bs_sources st1 @ [source]\<rparr>)))"

definition parser_config_hash :: "platform \<Rightarrow> document_parser \<Rightarrow> dict \<Rightarrow> pystr" where
  "parser_config_hash L parser config =
     hash_canonical L (JObj [(py ''parser'', JStr (dp_name parser)), (py ''version'', JStr (dp_version parser)), (py ''config'', JObj config)])"

definition parse_cache_key :: "platform \<Rightarrow> document_parser \<Rightarrow> dict \<Rightarrow> pystr \<Rightarrow> pystr" where
  "parse_cache_key L parser config content_hash =
     stage_cache_key L ''parse'' content_hash (dp_name parser) (dp_version parser) (parser_config_hash L parser config)"

text \<open>The outcome for the bytes of a source, from the cache or the parser.\<close>

definition fetch_outcome ::
  "build_env \<Rightarrow> 'sk build_config \<Rightarrow> document_parser \<Rightarrow> pystr \<Rightarrow> bytes \<Rightarrow> build_state \<Rightarrow> (parse_outcome \<times> build_state) build_result" where
  "fetch_outcome V config parser content_hash raw st =
     (let key = parse_cache_key (be_platform V) parser (bc_parser_config config) content_hash in
      andThen (look_up validate_outcome key st) (\<lambda>(cached, st1).
        case cached of
          Some outcome \<Rightarrow> Inr (outcome, st1)
        | None \<Rightarrow>
            andThen (lifting st1 ParserFailed
              (run_parser parser raw (bc_parser_config config) (bc_parse_limits config) (bc_sandboxed config)))
              (\<lambda>outcome. Inr (outcome, remember key (dump_outcome outcome) st1))))"

text \<open>Governance: the ACL of the source, its tenant, its licenses and the scan of its text.\<close>

definition govern_acl :: "build_env \<Rightarrow> 'sk build_config \<Rightarrow> pystr \<Rightarrow> pystr \<Rightarrow> build_state \<Rightarrow> (pystr option \<times> build_state) build_result" where
  "govern_acl V config path version_id st =
     (case bc_acl_config config of
        None \<Rightarrow> Inr (None, st)
      | Some acl \<Rightarrow>
          andThen (lifting st AclFailed (expected_acl_entries (be_unicode V) path acl)) (\<lambda>entries.
            case entries of
              None \<Rightarrow> Inr (None, st)
            | Some es \<Rightarrow>
                andThen (lifting st AclFailed
                  (build_acl_assertion (be_platform V) (be_unicode V) version_id es (bc_created_at config) (acf_case_normalize acl)))
                  (\<lambda>a. Inr (Some (acl_id a), add_assertion (Acl a) st))))"

definition govern_tenant :: "build_env \<Rightarrow> 'sk build_config \<Rightarrow> pystr \<Rightarrow> source_record \<Rightarrow> build_state \<Rightarrow> pystr option \<times> build_state" where
  "govern_tenant V config path source st =
     (case bc_tenant_config config of
        None \<Rightarrow> (None, st)
      | Some tenant \<Rightarrow>
          (case expected_tenant path tenant of
             Some (k, v) \<Rightarrow>
               (Some v, add_assertion (Tenant (build_tenant_assertion (be_platform V) (src_version_id source) k v (bc_created_at config))) st)
           | None \<Rightarrow>
               (None,
                if tcf_required tenant
                then st\<lparr>bs_warnings := bs_warnings st @
                       [\<lparr>wr_code = py ''TENANT_REQUIRED_BUT_MISSING'', wr_message = None, wr_context = Some [(py ''uri'', JStr (src_uri source))]\<rparr>]\<rparr>
                else st)))"

definition govern_license ::
  "build_env \<Rightarrow> 'sk build_config \<Rightarrow> pystr \<Rightarrow> pystr \<Rightarrow> dict option \<Rightarrow> pystr option \<Rightarrow> build_state \<Rightarrow> pystr list \<times> build_state" where
  "govern_license V config path version_id frontmatter spdx_header st =
     (case bc_license_config config of
        None \<Rightarrow> ([], st)
      | Some lic \<Rightarrow>
          (case evaluate_license (be_platform V) path frontmatter None lic version_id (bc_created_at config) spdx_header of
             (effective, all_candidates) \<Rightarrow>
               ([lic_id effective], st\<lparr>bs_assertions := bs_assertions st @ map License all_candidates\<rparr>)))"

definition scan_source ::
  "build_env \<Rightarrow> 'sk build_config \<Rightarrow> pystr \<Rightarrow> ledger_document option \<Rightarrow> build_state \<Rightarrow> build_state build_result" where
  "scan_source V config version_id document st =
     (case (bc_pii_config config, document) of
        (Some pii, Some doc) \<Rightarrow>
          andThen (lifting st PiiFailed
            (build_pii_scan_assertion (be_platform V) (be_unicode V) (be_regex V) version_id
              (join [10, 10] (map le_text (ld_elements doc))) pii (bc_created_at config)))
            (\<lambda>scan. Inr (add_assertion (PiiScan scan) st))
      | _ \<Rightarrow> Inr st)"

definition parsed_payload :: "parse_outcome \<Rightarrow> json" where
  "parsed_payload outcome =
     (case po_document outcome of
        Some document \<Rightarrow> dump_document document
      | None \<Rightarrow> JObj [(py ''status'', JStr (parse_status_value (po_status outcome))), (py ''errors'', jstrs (po_errors outcome))])"

definition govern_source ::
  "build_env \<Rightarrow> 'sk build_config \<Rightarrow> pystr \<Rightarrow> source_record \<Rightarrow> bytes \<Rightarrow> parse_outcome \<Rightarrow> build_state
   \<Rightarrow> (source_record \<times> pystr option \<times> build_state) build_result" where
  "govern_source V config path source raw outcome st =
     (let version_id = src_version_id source;
          frontmatter = (case po_document outcome of Some d \<Rightarrow> ld_frontmatter d | None \<Rightarrow> None);
          spdx_header = (case po_document outcome of Some d \<Rightarrow> detect_spdx_header (utf8_replace raw) 20 | None \<Rightarrow> None)
      in andThen (govern_acl V config path version_id st) (\<lambda>(acl, st1).
         case govern_tenant V config path source st1 of (tenant, st2) \<Rightarrow>
         case govern_license V config path version_id frontmatter spdx_header st2 of (licenses, st3) \<Rightarrow>
         andThen (scan_source V config version_id (po_document outcome) st3) (\<lambda>st4.
           Inr (source\<lparr>src_declared_acl_assertion_id := acl, src_declared_tenant := tenant, src_license_assertion_ids := licenses\<rparr>,
                acl, st4))))"

text \<open>The branch with a parser.\<close>

definition source_with_parser ::
  "build_env \<Rightarrow> 'sk build_config \<Rightarrow> document_parser \<Rightarrow> pystr \<Rightarrow> source_record \<Rightarrow> bytes \<Rightarrow> build_state \<Rightarrow> build_state build_result" where
  "source_with_parser V config parser path source raw st =
     (let L = be_platform V;
          config_hash = parser_config_hash L parser (bc_parser_config config);
          run_id = parse_run_id_of L (src_version_id source) config_hash
      in andThen (fetch_outcome V config parser (src_content_hash source) raw st) (\<lambda>(outcome, st1).
         andThen (store_json_artifact V (parsed_payload outcome) (py ''application/vnd.ragledger.ledger-document+json'') Internal st1)
           (\<lambda>(ref, st2).
         let st3 = st2\<lparr>bs_parse_runs := bs_parse_runs st2 @
                         [parse_record_of config run_id (src_version_id source) (dp_name parser) (dp_version parser) config_hash
                            outcome (po_warnings outcome) (art_artifact_id ref)],
                       bs_any_parse_failures := (bs_any_parse_failures st2 \<or> po_status outcome = ParseFail)\<rparr>
         in andThen (govern_source V config path source raw outcome st3) (\<lambda>(source', acl, st4).
           let st5 = st4\<lparr>bs_sources := bs_sources st4 @ [source']\<rparr> in
           case po_document outcome of
             Some document \<Rightarrow>
               if ld_elements document = [] then Inr st5
               else process_chunks V config (src_version_id source) run_id document acl st5
           | None \<Rightarrow> Inr st5))))"

definition process_source :: "build_env \<Rightarrow> 'sk build_config \<Rightarrow> build_state \<Rightarrow> source_record \<Rightarrow> build_state build_result" where
  "process_source V config st source =
     (case uri_to_relative_path (src_uri source) of
        None \<Rightarrow> Inl (UnsupportedScheme (src_uri source), st)
      | Some path \<Rightarrow>
          (case be_read_file V path of
             None \<Rightarrow> Inl (FileUnreadable path, st)
           | Some raw \<Rightarrow>
               andThen (store_artifact V raw (src_media_type source) Restricted st) (\<lambda>(raw_ref, st1).
                 let source1 = source\<lparr>src_raw_artifact_ref := Some (art_artifact_id raw_ref)\<rparr> in
                 case map_of (bc_parser_registry config) (src_media_type source1) of
                   None \<Rightarrow> source_without_parser V config source1 st1
                 | Some parser \<Rightarrow> source_with_parser V config parser path source1 raw st1)))"

section \<open>The build\<close>

definition discovered_or_processed :: "build_env \<Rightarrow> 'sk build_config \<Rightarrow> build_state \<Rightarrow> source_record \<Rightarrow> build_state build_result" where
  "discovered_or_processed V config st source =
     (if src_status source = SourceTombstone then Inr (st\<lparr>bs_sources := bs_sources st @ [source]\<rparr>)
      else process_source V config st source)"

definition add_tombstones :: "'sk build_config \<Rightarrow> build_state \<Rightarrow> build_state" where
  "add_tombstones config st =
     (if bc_previous_sources config = [] then st
      else st\<lparr>bs_sources := bs_sources st @ compute_tombstones (bc_previous_sources config) (map src_id (bs_sources st))\<rparr>)"

definition sort_state :: "build_state \<Rightarrow> build_state" where
  "sort_state st = st\<lparr>bs_sources := sort_key src_uri (bs_sources st), bs_parse_runs := sort_key prs_id (bs_parse_runs st),
     bs_chunks := sort_key chk_id (bs_chunks st), bs_embeddings := sort_key emb_id (bs_embeddings st),
     bs_assertions := sort_key assertion_id (bs_assertions st), bs_artifacts := sort_key art_artifact_id (bs_artifacts st)\<rparr>"

definition source_snapshot_hash :: "platform \<Rightarrow> source_record list \<Rightarrow> pystr" where
  "source_snapshot_hash L sources =
     hash_canonical L (JList (map (\<lambda>s. JObj [(py ''uri'', JStr (src_uri s)), (py ''content_hash'', JStr (src_content_hash s))])
       (filter (\<lambda>s. src_status s = SourceActive) sources)))"

definition pipeline_config_hash :: "platform \<Rightarrow> 'sk build_config \<Rightarrow> pystr" where
  "pipeline_config_hash L config =
     hash_canonical L (JObj [(py ''parser_config'', JObj (bc_parser_config config)), (py ''chunker_name'', JStr (bc_chunker_name config)),
       (py ''chunker_config'', JObj (bc_chunker_config config)),
       (py ''embedding_normalization'', JStr (normalization_value (bc_embedding_normalization config))),
       (py ''sandboxed'', JBool (bc_sandboxed config))])"

definition stage_of :: "string \<Rightarrow> nat \<Rightarrow> nat \<Rightarrow> stage_record" where
  "stage_of name inputs outputs =
     \<lparr>stg_name = py name, stg_version = py ''1'', stg_config_hash = None, stg_input_count = Some inputs, stg_output_count = Some outputs\<rparr>"

definition build_record_of :: "build_env \<Rightarrow> 'sk build_config \<Rightarrow> nat \<Rightarrow> build_state \<Rightarrow> build_record" where
  "build_record_of V config discovered st =
     \<lparr>bld_build_id = bc_build_id config,
      bld_status = (if bs_any_parse_failures st then BuildIncomplete else BuildComplete),
      bld_source_snapshot_hash = source_snapshot_hash (be_platform V) (bs_sources st),
      bld_pipeline_config_hash = pipeline_config_hash (be_platform V) config,
      bld_started_at = bc_created_at config, bld_completed_at = bc_created_at config,
      bld_environment = \<lparr>env_os = Some (be_os V), env_image_digest = None, env_python_version = be_python_version V,
                         env_package_lock_hash = None\<rparr>,
      bld_stages = [stage_of ''ragledger.discovery'' discovered discovered,
                    stage_of ''ragledger.parse'' discovered (length (bs_parse_runs st)),
                    stage_of ''ragledger.chunk'' (length (bs_parse_runs st)) (length (bs_chunks st)),
                    stage_of ''ragledger.embed'' (length (bs_chunks st)) (length (bs_embeddings st))],
      bld_warnings = bs_warnings st, bld_extensions = None\<rparr>"

definition run_stages :: "build_env \<Rightarrow> 'sk build_config \<Rightarrow> build_state \<Rightarrow> (nat \<times> build_state) build_result" where
  "run_stages V config st =
     andThen (lifting st DiscoveryFailed
       (discover_sources (be_platform V) (be_unicode V) (be_guess_type V) (be_tree V) (bc_namespace config) (bc_discovery config)))
       (\<lambda>sources. andThen (fold_result (discovered_or_processed V config) st sources)
         (\<lambda>st1. Inr (length sources, sort_state (add_tombstones config st1))))"

definition manifest_of :: "build_env \<Rightarrow> 'sk build_config \<Rightarrow> nat \<Rightarrow> build_state \<Rightarrow> manifest_error + manifest_envelope" where
  "manifest_of V config discovered st =
     build_manifest (be_platform V) (be_schema_ok V) (bc_namespace config) (bc_created_at config)
       (build_record_of V config discovered st) (bc_ledger_version config) (bs_sources st) (bs_parse_runs st) (bs_chunks st)
       (bs_embeddings st) [] (bs_assertions st) (bs_artifacts st) None"

definition build_pipeline ::
  "('sk, 'pk) ed25519 \<Rightarrow> build_env \<Rightarrow> 'sk build_config \<Rightarrow> directory \<Rightarrow> stage_cache
   \<Rightarrow> (manifest_envelope \<times> build_state) build_result" where
  "build_pipeline E V config store cache =
     andThen (run_stages V config (initial_state store cache)) (\<lambda>(discovered, st).
     andThen (lifting st ManifestFailed (manifest_of V config discovered st)) (\<lambda>m.
       Inr (case bc_signing_key config of
              None \<Rightarrow> m
            | Some key \<Rightarrow> sign_manifest (be_platform V) E m key (bc_created_at config) (bc_signing_issuer config), st)))"

end
