(* ===== verification/Build_Sample.thy ===== *)
theory Build_Sample
  imports Build
begin

text \<open>
  A concrete build, on which the properties of builds are applied: a tree of one text file, whose
  parser finds no elements, a PII scan with a policy that blocks card numbers, and a provider of
  a constant vector.
\<close>

definition sample_bytes :: bytes where
  "sample_bytes = map of_char ''word''"

definition sample_read :: file_read where
  "sample_read = \<lparr>fr_size_before = 4, fr_mtime_before = 0, fr_content = sample_bytes, fr_size_after = 4, fr_mtime_after = 0,
     fr_modified_at = sample_time\<rparr>"

definition sample_regex :: regex_env where
  "sample_regex = \<lparr>safe_load = (\<lambda>s. None), re_compile = (\<lambda>p. None), float_of_str = (\<lambda>s. None), times_out = (\<lambda>rc s. False)\<rparr>"

definition sample_build_env :: build_env where
  "sample_build_env =
     \<lparr>be_platform = sample_platform, be_unicode = sample_unicode, be_regex = sample_regex, be_guess_type = (\<lambda>name. None),
      be_tree = \<lparr>st_root_files = (\<lambda>name. None), st_entries = [(py ''a.txt'', FsFile (\<lambda>n. sample_read))]\<rparr>,
      be_read_file = (\<lambda>path. if path = py ''a.txt'' then Some sample_bytes else None),
      be_tmp_token = (\<lambda>n. []), be_fault = (\<lambda>n. None), be_schema_ok = (\<lambda>v. True), be_os = [], be_python_version = []\<rparr>"

definition sample_outcome :: parse_outcome where
  "sample_outcome = \<lparr>po_status = ParseSuccess, po_document = Some \<lparr>ld_elements = [], ld_page_count = None, ld_frontmatter = None\<rparr>,
     po_warnings = [], po_errors = [], po_ocr = None, po_consumed_input_hash = hash_raw_bytes sample_bytes, po_duration_seconds = 0\<rparr>"

definition sample_embedder :: embedder where
  "sample_embedder = \<lparr>ee_descriptor = \<lparr>ed_provider = py ''p'', ed_name = py ''n'', ed_revision = py ''1'', ed_dimension = 1, ed_dtype = py ''float32''\<rparr>,
     ee_embed = (\<lambda>n texts. Inr ([[Finite 0]], []))\<rparr>"

definition sample_build_config :: "byte build_config" where
  "sample_build_config =
     \<lparr>bc_namespace = py ''ns'', bc_build_id = py ''b'', bc_created_at = sample_time, bc_ledger_version = py ''1'',
      bc_discovery = \<lparr>dc_max_file_bytes = 100, dc_follow_symlinks = False, dc_source_system = py ''fs'', dc_discovered_by = py ''d''\<rparr>,
      bc_parser_registry = [(py ''text/plain'', \<lparr>dp_name = py ''p'', dp_version = py ''1'',
        dp_parse = (\<lambda>data config limits. Inr sample_outcome), dp_sandboxed = (\<lambda>data config limits. Inr sample_outcome)\<rparr>)],
      bc_parser_config = [], bc_parse_limits = \<lparr>pl_max_input_bytes = 100, pl_max_pages = 1, pl_max_output_bytes = 1000,
        pl_timeout_seconds = 1, pl_max_memory_bytes = None\<rparr>,
      bc_sandboxed = False, bc_chunker_registry = default_registry, bc_chunker_name = py ''line_based'', bc_chunker_config = [],
      bc_embedding_provider = Some sample_embedder, bc_embedding_normalization = NormNone,
      bc_pii_config = Some \<lparr>psc_scanner_name = py ''n'', psc_scanner_version = py ''1'', psc_language = py ''und'',
        psc_custom_recognizers_yaml = None, psc_workspace_secret = None\<rparr>,
      bc_pii_policy = \<lparr>pp_block_entity_types = [py ''CREDIT_CARD''], pp_min_confidence = 0\<rparr>,
      bc_license_config = None, bc_acl_config = None, bc_tenant_config = None, bc_previous_sources = [],
      bc_signing_key = None, bc_signing_issuer = None, bc_reproducible = True\<rparr>"

definition empty_cache :: stage_cache where
  "empty_cache = \<lparr>ch_files = Map.empty, ch_hits = 0, ch_misses = 0\<rparr>"

abbreviation sample_build :: "(manifest_envelope \<times> build_state) build_result" where
  "sample_build \<equiv> build_pipeline sample_scheme sample_build_env sample_build_config [] empty_cache"

lemma sample_discovery:
  "\<exists>s. discover_sources (be_platform sample_build_env) (be_unicode sample_build_env) (be_guess_type sample_build_env)
     (be_tree sample_build_env) (bc_namespace sample_build_config) (bc_discovery sample_build_config) = Inr [s] \<and>
   src_uri s = py ''file:a.txt'' \<and> src_status s = SourceActive \<and> src_media_type s = py ''text/plain''"
  by (simp add: discover_sources_def sample_build_env_def sample_build_config_def walk_files_def walk.simps visit_file_def
      sample_platform_def is_ignored_def read_ignore_rules_def collect_def build_source_record_def read_attempts_def sample_read_def stable_read_def
      attach_duplicate_relationships_def sniff_media_type_def sample_bytes_def py_def base_name_def EXTENSION_OVERRIDES_def
      path_suffix_def sample_unicode_def ascii_lower_def Let_def)

text \<open>A store that does not fail returns the reference of the bytes, whatever it holds.\<close>

lemma store_artifact_total:
  assumes "be_fault V = (\<lambda>n. None)"
  shows "\<exists>store. store_artifact V payload media sens st =
    (let ref = artifact_ref_of \<lparr>ai_sha256 = sha256_hex payload, ai_size_bytes = length payload\<rparr> media sens
     in Inr (ref, st\<lparr>bs_store := store, bs_writes := bs_writes st + 1, bs_artifacts := bs_artifacts st @ [ref]\<rparr>))"
proof (cases "put (py ''.tmp-'' @ be_tmp_token V (bs_writes st)) (be_fault V (bs_writes st)) payload (bs_store st)")
  case (Pair result store)
  have "temp_name (py ''.tmp-'' @ be_tmp_token V (bs_writes st))" by (simp add: temp_name_def py_def)
  then have "result = Inr \<lparr>ai_sha256 = sha256_hex payload, ai_size_bytes = length payload\<rparr>"
    using Pair assms by (cases rule: put_cases [of _ "be_fault V (bs_writes st)" payload "bs_store st"]) auto
  then show ?thesis using Pair by (auto simp: store_artifact_def lifting_def Let_def)
qed

lemma sample_scan:
  "\<exists>scan. build_pii_scan_assertion (be_platform sample_build_env) (be_unicode sample_build_env) (be_regex sample_build_env) i s
     (the (bc_pii_config sample_build_config)) (bc_created_at sample_build_config) = Inr scan"
  by (simp add: build_pii_scan_assertion_def active_recognizers_def scan_config_hash_def sample_build_env_def sample_build_config_def Let_def)

lemma sample_source_with_parser:
  assumes "bs_cache st = empty_cache" "map_of (bc_parser_registry sample_build_config) (py ''text/plain'') = Some parser"
  shows "\<exists>st'. source_with_parser sample_build_env sample_build_config parser path source raw st = Inr st' \<and>
    length (bs_parse_runs st') = Suc (length (bs_parse_runs st)) \<and> length (bs_sources st') = Suc (length (bs_sources st))"
proof -
  let ?V = sample_build_env and ?C = sample_build_config
  have fault: "be_fault ?V = (\<lambda>n. None)" by (simp add: sample_build_env_def)
  have "\<exists>c. fetch_outcome ?V ?C parser (src_content_hash source) raw st = Inr (sample_outcome, st\<lparr>bs_cache := c\<rparr>)"
    using assms(2) by (auto simp: fetch_outcome_def look_up_def cache_get_def assms(1) empty_cache_def lifting_def run_parser_def
        sample_build_config_def remember_def Let_def)
  then obtain c where f: "fetch_outcome ?V ?C parser (src_content_hash source) raw st = Inr (sample_outcome, st\<lparr>bs_cache := c\<rparr>)" ..
  have w: "\<exists>ref st'. store_json_artifact ?V v m sens st0 = Inr (ref, st') \<and> bs_parse_runs st' = bs_parse_runs st0
      \<and> bs_sources st' = bs_sources st0" for v m sens st0
    using store_artifact_total [OF fault] unfolding store_json_artifact_def Let_def by fastforce
  obtain scan where "build_pii_scan_assertion (be_platform ?V) (be_unicode ?V) (be_regex ?V) (src_version_id source) []
      (the (bc_pii_config ?C)) (bc_created_at ?C) = Inr scan"
    using sample_scan by blast
  then have g: "\<exists>st'. govern_source ?V ?C path source raw sample_outcome st0 = Inr
      (source\<lparr>src_declared_acl_assertion_id := None, src_declared_tenant := None, src_license_assertion_ids := []\<rparr>, None, st') \<and>
      bs_parse_runs st' = bs_parse_runs st0 \<and> bs_sources st' = bs_sources st0" for st0
    by (auto simp: govern_source_def govern_acl_def govern_tenant_def govern_license_def scan_source_def sample_outcome_def
        sample_build_config_def lifting_def add_assertion_def Let_def)
  obtain ref st2 where st2: "store_json_artifact ?V (parsed_payload sample_outcome)
      (py ''application/vnd.ragledger.ledger-document+json'') Internal (st\<lparr>bs_cache := c\<rparr>) = Inr (ref, st2)"
    and same: "bs_parse_runs st2 = bs_parse_runs st" "bs_sources st2 = bs_sources st"
    using w [of "parsed_payload sample_outcome" _ Internal "st\<lparr>bs_cache := c\<rparr>"] by fastforce
  have "po_document sample_outcome = Some \<lparr>ld_elements = [], ld_page_count = None, ld_frontmatter = None\<rparr>"
    by (simp add: sample_outcome_def)
  moreover define st3 where "st3 = st2\<lparr>bs_parse_runs := bs_parse_runs st2 @
      [parse_record_of ?C (parse_run_id_of (be_platform ?V) (src_version_id source) (parser_config_hash (be_platform ?V) parser (bc_parser_config ?C)))
        (src_version_id source) (dp_name parser) (dp_version parser) (parser_config_hash (be_platform ?V) parser (bc_parser_config ?C))
        sample_outcome (po_warnings sample_outcome) (art_artifact_id ref)],
      bs_any_parse_failures := (bs_any_parse_failures st2 \<or> po_status sample_outcome = ParseFail)\<rparr>"
  moreover obtain st4 where "govern_source ?V ?C path source raw sample_outcome st3 = Inr
      (source\<lparr>src_declared_acl_assertion_id := None, src_declared_tenant := None, src_license_assertion_ids := []\<rparr>, None, st4)"
    and "bs_parse_runs st4 = bs_parse_runs st3" "bs_sources st4 = bs_sources st3"
    using g [of st3] by blast
  ultimately show ?thesis by (simp add: source_with_parser_def Let_def f st2 same)
qed

lemma sample_process:
  assumes "src_uri s = py ''file:a.txt''" "src_media_type s = py ''text/plain''" "bs_cache st = empty_cache"
  shows "\<exists>st'. process_source sample_build_env sample_build_config st s = Inr st' \<and>
    length (bs_parse_runs st') = Suc (length (bs_parse_runs st)) \<and> length (bs_sources st') = Suc (length (bs_sources st))"
proof -
  have path: "uri_to_relative_path (src_uri s) = Some (py ''a.txt'')" "be_read_file sample_build_env (py ''a.txt'') = Some sample_bytes"
    by (simp_all add: assms(1) uri_to_relative_path_def py_def sample_build_env_def)
  have "be_fault sample_build_env = (\<lambda>n. None)" by (simp add: sample_build_env_def)
  from store_artifact_total [OF this, of sample_bytes "src_media_type s" Restricted st] obtain ref st1
    where w: "store_artifact sample_build_env sample_bytes (src_media_type s) Restricted st = Inr (ref, st1)"
    and st1: "bs_cache st1 = empty_cache" "bs_parse_runs st1 = bs_parse_runs st" "bs_sources st1 = bs_sources st"
    using assms(3) by (fastforce simp: Let_def)
  obtain parser where p: "map_of (bc_parser_registry sample_build_config) (py ''text/plain'') = Some parser"
    by (simp add: sample_build_config_def)
  show ?thesis
    using sample_source_with_parser [OF st1(1) p, of "py ''a.txt''" "s\<lparr>src_raw_artifact_ref := Some (art_artifact_id ref)\<rparr>" sample_bytes]
    by (simp add: process_source_def path w [unfolded assms(2)] Let_def assms(2) p st1)
qed

text \<open>The build of the sample returns a manifest of one source with one parse run.\<close>

lemma sample_build_returns:
  "\<exists>m st. sample_build = Inr (m, st) \<and> length (mf_parse_runs m) = 1 \<and> length (mf_sources m) = 1"
proof -
  obtain s where d: "discover_sources (be_platform sample_build_env) (be_unicode sample_build_env) (be_guess_type sample_build_env)
     (be_tree sample_build_env) (bc_namespace sample_build_config) (bc_discovery sample_build_config) = Inr [s]"
    and s: "src_uri s = py ''file:a.txt''" "src_status s = SourceActive" "src_media_type s = py ''text/plain''"
    using sample_discovery by blast
  obtain st where st: "process_source sample_build_env sample_build_config (initial_state [] empty_cache) s = Inr st"
    "length (bs_parse_runs st) = 1" "length (bs_sources st) = 1"
    using sample_process [OF s(1,3), of "initial_state [] empty_cache"] by (auto simp: initial_state_def)
  have "run_stages sample_build_env sample_build_config (initial_state [] empty_cache) = Inr (1, sort_state st)"
    by (simp add: run_stages_def d lifting_def discovered_or_processed_def s(2) st(1) add_tombstones_def)
      (simp add: sample_build_config_def)
  then show ?thesis
    using st(2,3)
    by (simp add: build_pipeline_def manifest_of_def build_manifest_def provisional_manifest_def validate_manifest_document_def lifting_def Let_def
        sort_state_def) (simp add: sample_build_config_def sample_build_env_def)
qed

lemma empty_store_inv: "store_inv []"
  by (simp add: store_inv_def)

end
