(* ===== verification/Build_Links.thy ===== *)
theory Build_Links
  imports Build_Sample
begin

text \<open>
  What every manifest of a build satisfies: its records refer to one another, no embedding is of
  a chunk that the PII policy blocks, the status reflects the parse runs, and the artifacts it
  lists can be loaded from the store. The invariant is stated for the state between two steps,
  with the records a step has made but not yet added.
\<close>

section \<open>Effects of the steps\<close>

lemma lifting_Inr [simp]: "lifting st wrap r = Inr x \<longleftrightarrow> r = Inr x"
  by (simp add: lifting_def split: sum.splits)

lemma lifting_simps [simp]: "lifting st wrap (Inr x) = Inr x" "lifting st wrap (Inl e) = Inl (wrap e, st)"
  by (simp_all add: lifting_def)

lemma store_artifact_effect:
  assumes "store_artifact V payload media sens st = Inr (ref, st')"
  obtains store where "st' = st\<lparr>bs_store := store, bs_writes := bs_writes st + 1, bs_artifacts := bs_artifacts st @ [ref]\<rparr>"
    "put (py ''.tmp-'' @ be_tmp_token V (bs_writes st)) (be_fault V (bs_writes st)) payload (bs_store st) =
       (Inr \<lparr>ai_sha256 = art_sha256 ref, ai_size_bytes = art_size_bytes ref\<rparr>, store)"
    "art_artifact_id ref = py ''art_'' @ art_sha256 ref"
  using assms
  by (auto simp: store_artifact_def Let_def artifact_ref_of_def split: prod.splits)

lemma look_up_effect:
  assumes "look_up rd key st = Inr (r, st')"
  obtains cache where "st' = st\<lparr>bs_cache := cache\<rparr>"
  using assms by (auto simp: look_up_def Let_def split: prod.splits sum.splits option.splits json.splits)

lemma fetch_vector_effect:
  assumes "fetch_vector V config provider key text st = Inr (r, st')"
  obtains cache where "st' = st\<lparr>bs_cache := cache\<rparr>"
  using assms unfolding fetch_vector_def
  by (auto simp: remember_def elim!: look_up_effect split: option.splits)

lemma embed_chunk_effect:
  assumes "embed_chunk V config provider chunk text st = Inr st'"
  shows "\<exists>cache ws es. st' = st\<lparr>bs_cache := cache, bs_warnings := bs_warnings st @ ws, bs_embeddings := bs_embeddings st @ es\<rparr> \<and>
    (\<forall>e\<in>set es. emb_chunk_id e = chk_id chunk \<and> emb_contextualized_hash e = chk_contextualized_hash chunk)"
proof -
  from assms obtain r st1 where f: "fetch_vector V config provider
      (embed_cache_key config (be_platform V) (ee_descriptor provider) (chk_contextualized_hash chunk)) text st = Inr (r, st1)"
    by (auto simp: embed_chunk_def Let_def)
  then obtain cache where st1: "st1 = st\<lparr>bs_cache := cache\<rparr>" by (rule fetch_vector_effect)
  show ?thesis
  proof (cases r)
    case None
    then have "st' = st\<lparr>bs_cache := cache, bs_warnings := bs_warnings st @
        [\<lparr>wr_code = py ''EMBEDDING_FAILED'', wr_message = None, wr_context = Some [(py ''chunk_id'', JStr (chk_id chunk))]\<rparr>],
        bs_embeddings := bs_embeddings st @ []\<rparr>"
      using assms f by (cases st) (auto simp: embed_chunk_def Let_def st1)
    then show ?thesis by fastforce
  next
    case (Some p)
    then obtain h where "st' = st\<lparr>bs_cache := cache, bs_warnings := bs_warnings st @ [],
        bs_embeddings := bs_embeddings st @ [embedding_record_of V config (ee_descriptor provider) chunk h (snd p)]\<rparr>"
      using assms f by (cases p; cases st) (auto simp: embed_chunk_def Let_def st1)
    then show ?thesis by (fastforce simp: embedding_record_of_def)
  qed
qed

lemma pii_scan_subject: "build_pii_scan_assertion L U R subject s pii t = Inr scan \<Longrightarrow> pii_subject_ref scan = subject"
  by (auto simp: build_pii_scan_assertion_def Let_def)

lemma scan_chunk_effect:
  assumes "scan_chunk V config chunk_id text st = Inr (ids, st')"
  obtains (off) "bc_pii_config config = None" "ids = []" "st' = st"
  | (scan) pii scan where "bc_pii_config config = Some pii" "ids = [pii_id scan]" "st' = add_assertion (PiiScan scan) st"
      "pii_subject_ref scan = chunk_id"
  using assms
  by (cases "bc_pii_config config") (auto simp: scan_chunk_def pii_scan_subject)

lemma fetch_candidates_effect:
  assumes "fetch_candidates V config ck document st = Inr (r, st')"
  obtains cache where "st' = st\<lparr>bs_cache := cache\<rparr>"
  using assms unfolding fetch_candidates_def Let_def
  by (auto simp: remember_def elim!: look_up_effect split: option.splits)

lemma fetch_outcome_effect:
  assumes "fetch_outcome V config parser content_hash raw st = Inr (r, st')"
  obtains cache where "st' = st\<lparr>bs_cache := cache\<rparr>"
  using assms unfolding fetch_outcome_def Let_def
  by (auto simp: remember_def elim!: look_up_effect split: option.splits)

section \<open>The invariant\<close>

primrec subject_ref :: "assertion \<Rightarrow> pystr" where
  "subject_ref (PiiScan a) = pii_subject_ref a"
| "subject_ref (License a) = lic_subject_ref a"
| "subject_ref (Acl a) = acl_subject_ref a"
| "subject_ref (Tenant a) = tnt_subject_ref a"
| "subject_ref (Quality a) = qa_subject_ref a"

text \<open>A scan of the chunk that lets it pass, when there is anything to scan for.\<close>

definition passes_policy :: "'sk build_config \<Rightarrow> assertion list \<Rightarrow> chunk_record \<Rightarrow> bool" where
  "passes_policy config assertions c \<longleftrightarrow>
     bc_pii_config config = None \<or> pp_block_entity_types (bc_pii_policy config) = [] \<or>
     (\<exists>scan. PiiScan scan \<in> set assertions \<and> pii_subject_ref scan = chk_id c \<and> pii_id scan \<in> set (chk_pii_assertion_ids c)
        \<and> \<not> list_ex (blocking_finding (bc_pii_policy config)) (pii_findings scan))"

definition embedding_linked :: "'sk build_config \<Rightarrow> assertion list \<Rightarrow> chunk_record set \<Rightarrow> embedding_record \<Rightarrow> bool" where
  "embedding_linked config assertions C e \<longleftrightarrow>
     (\<exists>c\<in>C. emb_chunk_id e = chk_id c \<and> emb_contextualized_hash e = chk_contextualized_hash c \<and> passes_policy config assertions c)"

definition chunk_linked :: "parse_record list \<Rightarrow> assertion list \<Rightarrow> chunk_record \<Rightarrow> bool" where
  "chunk_linked runs assertions c \<longleftrightarrow>
     (\<exists>p\<in>set runs. prs_id p = chk_parse_run_id c \<and> prs_source_version_id p = chk_source_version_id c)
     \<and> set (chk_pii_assertion_ids c) \<union> set (chk_acl_assertion_ids c) \<subseteq> assertion_id ` set assertions"

definition parse_linked :: "pystr set \<Rightarrow> artifact_ref list \<Rightarrow> parse_record \<Rightarrow> bool" where
  "parse_linked W artifacts p \<longleftrightarrow>
     prs_source_version_id p \<in> W \<and> prs_parsed_artifact_ref p \<in> art_artifact_id ` set artifacts"

definition source_linked :: "artifact_ref list \<Rightarrow> assertion list \<Rightarrow> source_record \<Rightarrow> bool" where
  "source_linked artifacts assertions s \<longleftrightarrow>
     (\<exists>i \<in> art_artifact_id ` set artifacts. src_raw_artifact_ref s = Some i)
     \<and> set_option (src_declared_acl_assertion_id s) \<union> set (src_license_assertion_ids s) \<subseteq> assertion_id ` set assertions"

text \<open>The records, in any order: \<open>W\<close> the versions and \<open>C\<close> the chunks they may refer to.\<close>

definition records_linked ::
  "'sk build_config \<Rightarrow> pystr set \<Rightarrow> chunk_record set \<Rightarrow> parse_record list \<Rightarrow> embedding_record list \<Rightarrow> assertion list \<Rightarrow> artifact_ref list
   \<Rightarrow> source_record list \<Rightarrow> bool" where
  "records_linked config W C runs embeddings assertions artifacts sources \<longleftrightarrow>
     (\<forall>s\<in>set sources. src_status s = SourceActive \<longrightarrow> source_linked artifacts assertions s)
     \<and> (\<forall>p\<in>set runs. parse_linked W artifacts p)
     \<and> (\<forall>c\<in>C. chunk_linked runs assertions c)
     \<and> (\<forall>e\<in>set embeddings. embedding_linked config assertions C e)
     \<and> (\<forall>a\<in>set assertions. subject_ref a \<in> W \<union> prs_id ` set runs \<union> chk_id ` C)"

definition active_versions :: "source_record list \<Rightarrow> pystr set" where
  "active_versions sources = src_version_id ` {s \<in> set sources. src_status s = SourceActive}"

definition state_linked :: "'sk build_config \<Rightarrow> pystr set \<Rightarrow> chunk_record list \<Rightarrow> build_state \<Rightarrow> bool" where
  "state_linked config extra pending st \<longleftrightarrow>
     records_linked config (active_versions (bs_sources st) \<union> extra) (set (bs_chunks st) \<union> set pending) (bs_parse_runs st)
       (bs_embeddings st) (bs_assertions st) (bs_artifacts st) (bs_sources st)
     \<and> (bs_any_parse_failures st \<longleftrightarrow> (\<exists>p\<in>set (bs_parse_runs st). prs_status p = ParseFail))"

text \<open>Growing lists of records keep what is linked.\<close>

lemma passes_policy_mono:
  "passes_policy config as c \<Longrightarrow> set as \<subseteq> set bs \<Longrightarrow> passes_policy config bs c"
  by (auto simp: passes_policy_def)

lemma linked_mono:
  assumes "set as \<subseteq> set bs"
  shows "source_linked arts as s \<Longrightarrow> source_linked arts bs s" "chunk_linked runs as c \<Longrightarrow> chunk_linked runs bs c"
    "embedding_linked config as C e \<Longrightarrow> embedding_linked config bs C e"
proof -
  have "assertion_id ` set as \<subseteq> assertion_id ` set bs" using assms by blast
  then show "source_linked arts as s \<Longrightarrow> source_linked arts bs s" "chunk_linked runs as c \<Longrightarrow> chunk_linked runs bs c"
    unfolding source_linked_def chunk_linked_def by blast+
  show "embedding_linked config as C e \<Longrightarrow> embedding_linked config bs C e"
    using passes_policy_mono [OF _ assms] unfolding embedding_linked_def by blast
qed

lemma records_linked_assertions:
  assumes "records_linked config W C runs es as arts ss" "\<forall>b\<in>set bs. subject_ref b \<in> W \<union> prs_id ` set runs \<union> chk_id ` C"
  shows "records_linked config W C runs es (as @ bs) arts ss"
proof -
  have "set as \<subseteq> set (as @ bs)" by simp
  note mono = linked_mono [OF this]
  show ?thesis
    using assms unfolding records_linked_def by (auto intro: mono simp del: set_append) auto
qed

lemma records_linked_artifact:
  "records_linked config W C runs es as arts ss \<Longrightarrow> records_linked config W C runs es as (arts @ [a]) ss"
  by (auto simp: records_linked_def source_linked_def parse_linked_def)

lemma records_linked_run:
  "records_linked config W C runs es as arts ss \<Longrightarrow> parse_linked W arts p \<Longrightarrow> records_linked config W C (runs @ [p]) es as arts ss"
  by (auto simp: records_linked_def chunk_linked_def)

lemma records_linked_source:
  "records_linked config W C runs es as arts ss \<Longrightarrow> (src_status s = SourceActive \<Longrightarrow> source_linked arts as s)
   \<Longrightarrow> records_linked config W C runs es as arts (ss @ [s])"
  by (auto simp: records_linked_def)

lemma records_linked_versions:
  "records_linked config W C runs es as arts ss \<Longrightarrow> W \<subseteq> W' \<Longrightarrow> records_linked config W' C runs es as arts ss"
  by (auto simp: records_linked_def parse_linked_def)

lemma records_linked_chunk:
  "records_linked config W C runs es as arts ss \<Longrightarrow> chunk_linked runs as c \<Longrightarrow> records_linked config W (insert c C) runs es as arts ss"
  by (auto simp: records_linked_def embedding_linked_def)

lemma records_linked_embeddings:
  "records_linked config W C runs es as arts ss \<Longrightarrow> \<forall>e\<in>set fs. embedding_linked config as C e
   \<Longrightarrow> records_linked config W C runs (es @ fs) as arts ss"
  by (auto simp: records_linked_def)

lemma records_linked_new_chunk:
  assumes "records_linked config W C runs es as arts ss" "chunk_linked runs (as @ bs) c" "\<forall>b\<in>set bs. subject_ref b = chk_id c"
  shows "records_linked config W (insert c C) runs es (as @ bs) arts ss"
proof -
  have "set as \<subseteq> set (as @ bs)" by simp
  note mono = linked_mono [OF this]
  have "embedding_linked config as C e \<Longrightarrow> embedding_linked config (as @ bs) (insert c C) e" for e
    using mono(3) [of config C e] unfolding embedding_linked_def by blast
  then show ?thesis
    using assms unfolding records_linked_def by (auto intro: mono simp del: set_append) auto
qed

section \<open>The chunks of a document\<close>

text \<open>What the loop over the candidates leaves alone.\<close>

definition chunk_frame :: "build_state \<Rightarrow> build_state \<Rightarrow> bool" where
  "chunk_frame st st' \<longleftrightarrow> bs_sources st' = bs_sources st \<and> bs_parse_runs st' = bs_parse_runs st \<and> bs_chunks st' = bs_chunks st
     \<and> bs_artifacts st' = bs_artifacts st \<and> bs_any_parse_failures st' = bs_any_parse_failures st \<and> bs_store st' = bs_store st
     \<and> set (bs_assertions st) \<subseteq> set (bs_assertions st')"

lemma chunk_frame_refl [simp]: "chunk_frame st st"
  by (simp add: chunk_frame_def)

lemma chunk_frame_trans: "chunk_frame st st' \<Longrightarrow> chunk_frame st' st'' \<Longrightarrow> chunk_frame st st''"
  by (auto simp: chunk_frame_def)

lemma chunk_frame_ids: "chunk_frame st st' \<Longrightarrow> assertion_id ` set (bs_assertions st) \<subseteq> assertion_id ` set (bs_assertions st')"
  by (simp add: chunk_frame_def image_mono)

text \<open>Embedding a chunk that passes the policy.\<close>

lemma embed_chunk_linked:
  assumes "embed_chunk V config provider c text st = Inr st'" "state_linked config extra pending st" "c \<in> set pending"
    "passes_policy config (bs_assertions st) c"
  shows "state_linked config extra pending st' \<and> chunk_frame st st'"
proof -
  obtain cache ws es where st': "st' = st\<lparr>bs_cache := cache, bs_warnings := bs_warnings st @ ws, bs_embeddings := bs_embeddings st @ es\<rparr>"
    and es: "\<forall>e\<in>set es. emb_chunk_id e = chk_id c \<and> emb_contextualized_hash e = chk_contextualized_hash c"
    using embed_chunk_effect [OF assms(1)] by blast
  have "\<forall>e\<in>set es. embedding_linked config (bs_assertions st) (set (bs_chunks st) \<union> set pending) e"
    using es assms(3,4) by (auto simp: embedding_linked_def)
  then show ?thesis
    using assms(2) by (auto simp: st' state_linked_def chunk_frame_def intro: records_linked_embeddings)
qed

text \<open>The last assertion of an id is the one that \<open>_pii_blocked\<close> sees: the chunk's own scan.\<close>

lemma pii_blocked_own_scan:
  assumes "\<not> pii_blocked (as @ [PiiScan scan]) [pii_id scan] policy" "pp_block_entity_types policy \<noteq> []"
  shows "\<not> list_ex (blocking_finding policy) (pii_findings scan)"
  using assms by (simp add: pii_blocked_def dict_of_def blocking_assertion_def)

lemma process_candidate_linked:
  assumes p: "process_candidate V config ck version_id parse_run acl (records, st) candidate = Inr (records', st')"
    and linked: "state_linked config extra records st"
    and run: "\<exists>p\<in>set (bs_parse_runs st). prs_id p = parse_run \<and> prs_source_version_id p = version_id"
    and acl: "set_option acl \<subseteq> assertion_id ` set (bs_assertions st)"
  shows "state_linked config extra records' st' \<and> chunk_frame st st'"
proof -
  define chunk_id where "chunk_id = chunk_id_of (be_platform V) parse_run
    (chunker_config_hash (be_platform V) ck (bc_chunker_config config))
    (dump_locator (cc_locator candidate)) (hash_text (be_platform V) True (cc_raw_text candidate))"
  from p obtain cx ids st1 where cx: "contextualize candidate (bc_chunker_config config) = Inr cx"
    and scan: "scan_chunk V config chunk_id (cx_contextualized_text cx) st = Inr (ids, st1)"
    by (auto simp: process_candidate_def Let_def chunk_id_def)
  define r where "r = chunk_record_of V config version_id parse_run acl candidate cx chunk_id ids"
  have p': "(case bc_embedding_provider config of
      Some provider \<Rightarrow>
        if pii_blocked (bs_assertions st1) ids (bc_pii_policy config) then Inr (records @ [r], st1)
        else andThen (embed_chunk V config provider r (cx_contextualized_text cx) st1) (\<lambda>st2. Inr (records @ [r], st2))
    | None \<Rightarrow> Inr (records @ [r], st1)) = Inr (records', st')"
    using p unfolding process_candidate_def Let_def chunk_id_def [symmetric] prod.case cx lifting_simps andThen_simps scan r_def .
  have r: "chk_id r = chunk_id" "chk_parse_run_id r = parse_run" "chk_source_version_id r = version_id"
    "chk_pii_assertion_ids r = ids" "set (chk_acl_assertion_ids r) \<subseteq> set_option acl"
    by (auto simp: r_def chunk_record_of_def split: option.splits)
  obtain bs where bs: "st1 = st\<lparr>bs_assertions := bs_assertions st @ bs\<rparr>" "set ids \<subseteq> assertion_id ` set bs"
    "\<forall>b\<in>set bs. subject_ref b = chunk_id"
    using scan
  proof (cases rule: scan_chunk_effect)
    case off
    then show ?thesis using that [of "[]"] by simp
  next
    case (scan pii a)
    then show ?thesis using that [of "[PiiScan a]"] by (simp add: add_assertion_def)
  qed
  have "chunk_linked (bs_parse_runs st) (bs_assertions st @ bs) r"
    using run acl r bs(2) by (auto simp: chunk_linked_def)
  then have l1: "state_linked config extra (records @ [r]) st1" and fr: "chunk_frame st st1"
    using linked bs(3) r(1)
    by (auto simp: state_linked_def bs(1) chunk_frame_def Un_insert_right intro!: records_linked_new_chunk)
  show ?thesis
  proof (cases "bc_embedding_provider config")
    case None
    then have "records' = records @ [r] \<and> st' = st1"
      using p' by simp
    then show ?thesis using l1 fr by simp
  next
    case (Some provider)
    show ?thesis
    proof (cases "pii_blocked (bs_assertions st1) ids (bc_pii_policy config)")
      case True
      then have "records' = records @ [r] \<and> st' = st1"
        using p' Some by simp
      then show ?thesis using l1 fr by simp
    next
      case False
      then have e: "embed_chunk V config provider r (cx_contextualized_text cx) st1 = Inr st'" and rs: "records' = records @ [r]"
        using p' Some by auto
      have "passes_policy config (bs_assertions st1) r"
        using scan
      proof (cases rule: scan_chunk_effect)
        case (scan pii a)
        then show ?thesis
          using False pii_blocked_own_scan [of "bs_assertions st" a] r by (auto simp: passes_policy_def add_assertion_def)
      qed (simp add: passes_policy_def)
      from embed_chunk_linked [OF e l1 _ this] show ?thesis
        using fr by (auto simp: rs intro: chunk_frame_trans)
    qed
  qed
qed

lemma fold_candidates_linked:
  assumes "fold_result (process_candidate V config ck version_id parse_run acl) (records, st) candidates = Inr (records', st')"
    "state_linked config extra records st"
    "\<exists>p\<in>set (bs_parse_runs st). prs_id p = parse_run \<and> prs_source_version_id p = version_id"
    "set_option acl \<subseteq> assertion_id ` set (bs_assertions st)"
  shows "state_linked config extra records' st' \<and> chunk_frame st st'"
  using assms
proof (induction candidates arbitrary: records st)
  case (Cons c cs)
  from Cons.prems(1) obtain rs1 st1 where
    step: "process_candidate V config ck version_id parse_run acl (records, st) c = Inr (rs1, st1)"
    and rest: "fold_result (process_candidate V config ck version_id parse_run acl) (rs1, st1) cs = Inr (records', st')"
    by auto
  note one = process_candidate_linked [OF step Cons.prems(2-4)]
  then have "set_option acl \<subseteq> assertion_id ` set (bs_assertions st1)" "bs_parse_runs st1 = bs_parse_runs st"
    using Cons.prems(4) chunk_frame_ids [of st st1] by (auto simp: chunk_frame_def)
  then show ?case
    using Cons.IH [OF rest] one Cons.prems(3) chunk_frame_trans by metis
qed simp

text \<open>Adding an assertion about a known subject.\<close>

lemma add_assertion_linked:
  assumes "state_linked config extra pending st"
    "subject_ref a \<in> active_versions (bs_sources st) \<union> extra \<union> prs_id ` set (bs_parse_runs st)"
  shows "state_linked config extra pending (add_assertion a st)"
  using assms by (auto simp: state_linked_def add_assertion_def intro!: records_linked_assertions)

lemma add_assertion_frame [simp]: "chunk_frame st (add_assertion a st)"
  by (auto simp: chunk_frame_def add_assertion_def)

lemma cache_linked [simp]: "state_linked config extra pending (st\<lparr>bs_cache := c\<rparr>) = state_linked config extra pending st"
  by (simp add: state_linked_def)

lemma process_chunks_linked:
  assumes p: "process_chunks V config version_id parse_run document acl st = Inr st'"
    and linked: "state_linked config extra [] st"
    and run: "\<exists>p\<in>set (bs_parse_runs st). prs_id p = parse_run \<and> prs_source_version_id p = version_id"
    and acl: "set_option acl \<subseteq> assertion_id ` set (bs_assertions st)"
  shows "state_linked config extra [] st' \<and> bs_sources st' = bs_sources st \<and> bs_artifacts st' = bs_artifacts st \<and> bs_store st' = bs_store st"
proof -
  define quality where "quality = quality_assertion_of (be_platform V) (bc_created_at config) parse_run"
  from p obtain ck where ck: "map_of (bc_chunker_registry config) (bc_chunker_name config) = Some ck"
    by (auto simp: process_chunks_def split: option.splits)
  from p obtain candidates dropped st1 where f: "fetch_candidates V config ck document st = Inr ((candidates, dropped), st1)"
    by (auto simp: process_chunks_def ck)
  define st2 where "st2 = (if dropped \<noteq> 0 then add_assertion (quality ''EMPTY_CHUNKS_DROPPED'' [(py ''count'', jnat dropped)]) st1 else st1)"
  define finish where "finish = (\<lambda>(records, st3).
     let dups = duplicate_chunk_ids records;
         st4 = (if dups \<noteq> [] then add_assertion (quality ''DUPLICATE_CHUNK_CONTENT'' [(py ''chunk_ids'', jstrs dups)]) st3 else st3)
     in st4\<lparr>bs_chunks := bs_chunks st4 @ records\<rparr>)"
  have "andThen (fold_result (process_candidate V config ck version_id parse_run acl) ([], st2) candidates) (\<lambda>r. Inr (finish r)) = Inr st'"
    using p f unfolding process_chunks_def ck finish_def st2_def quality_def Let_def
    by (auto simp: case_prod_beta andThen_Inr_iff)
  then obtain records st3 where
    fold: "fold_result (process_candidate V config ck version_id parse_run acl) ([], st2) candidates = Inr (records, st3)"
    and st': "st' = finish (records, st3)"
    by auto
  obtain cache where st1: "st1 = st\<lparr>bs_cache := cache\<rparr>" using f by (rule fetch_candidates_effect)
  have q: "subject_ref (quality c d) = parse_run" for c d by (simp add: quality_def quality_assertion_of_def)
  have sub: "parse_run \<in> prs_id ` set (bs_parse_runs st)" using run by force
  have l1: "state_linked config extra [] st1" "chunk_frame st st1" using linked by (simp_all add: st1 chunk_frame_def)
  then have "state_linked config extra [] st2" "chunk_frame st st2"
    using add_assertion_linked [OF l1(1)] sub q
    by (auto simp: st2_def st1 intro: chunk_frame_trans)
  then have l3: "state_linked config extra records st3" "chunk_frame st st3"
    using fold_candidates_linked [OF fold] run acl chunk_frame_trans by (fastforce simp: chunk_frame_def)+
  then have "subject_ref (quality c d) \<in> prs_id ` set (bs_parse_runs st3)" for c d
    using sub by (simp add: q chunk_frame_def)
  then have "state_linked config extra records
      (if duplicate_chunk_ids records \<noteq> []
       then add_assertion (quality ''DUPLICATE_CHUNK_CONTENT'' [(py ''chunk_ids'', jstrs (duplicate_chunk_ids records))]) st3 else st3)"
    using l3(1) add_assertion_linked [OF l3(1)] by simp
  then show ?thesis
    using l3(2) by (auto simp: st' finish_def Let_def state_linked_def chunk_frame_def add_assertion_def)
qed

section \<open>Governance\<close>

lemma license_assertions_subject:
  "a \<in> set (snd (evaluate_license L uri fm sc config subject t hdr)) \<Longrightarrow> lic_subject_ref a = subject"
  by (auto simp: evaluate_license_def Let_def license_assertion_of_def split: if_splits)

lemma effective_license_listed:
  "fst (evaluate_license L uri fm sc config subject t hdr) \<in> set (snd (evaluate_license L uri fm sc config subject t hdr))"
proof -
  have hd_in: "xs \<noteq> [] \<Longrightarrow> hd (sort_key f xs) \<in> set xs" for xs :: "license_assertion list" and f :: "license_assertion \<Rightarrow> nat"
    by (metis hd_in_set set_sort set_empty)
  show ?thesis unfolding evaluate_license_def Let_def fst_conv snd_conv by (rule hd_in) auto
qed

text \<open>The steps of governance add assertions about the source's version, and warnings.\<close>

definition governed :: "pystr \<Rightarrow> pystr set \<Rightarrow> build_state \<Rightarrow> build_state \<Rightarrow> bool" where
  "governed v ids st st' \<longleftrightarrow>
     (\<exists>bs ws. st' = st\<lparr>bs_assertions := bs_assertions st @ bs, bs_warnings := bs_warnings st @ ws\<rparr>
        \<and> (\<forall>b\<in>set bs. subject_ref b = v) \<and> ids \<subseteq> assertion_id ` set bs)"

lemma governed_refl [simp]: "governed v {} st st"
  unfolding governed_def by (rule exI [of _ "[]"], rule exI [of _ "[]"]) simp

lemma governed_warning: "governed v {} st (st\<lparr>bs_warnings := bs_warnings st @ ws\<rparr>)"
  unfolding governed_def by (rule exI [of _ "[]"], rule exI [of _ ws]) simp

lemma governed_assertions:
  "\<forall>b\<in>set bs. subject_ref b = v \<Longrightarrow> ids \<subseteq> assertion_id ` set bs \<Longrightarrow> governed v ids st (st\<lparr>bs_assertions := bs_assertions st @ bs\<rparr>)"
  unfolding governed_def by (rule exI [of _ bs], rule exI [of _ "[]"]) simp

lemma governed_add: "subject_ref a = v \<Longrightarrow> ids \<subseteq> {assertion_id a} \<Longrightarrow> governed v ids st (add_assertion a st)"
  unfolding add_assertion_def by (rule governed_assertions) auto

lemma governed_trans:
  assumes "governed v ids st st'" "governed v ids' st' st''"
  shows "governed v (ids \<union> ids') st st''"
proof -
  obtain bs ws bs' ws' where
    "st' = st\<lparr>bs_assertions := bs_assertions st @ bs, bs_warnings := bs_warnings st @ ws\<rparr>"
    "st'' = st'\<lparr>bs_assertions := bs_assertions st' @ bs', bs_warnings := bs_warnings st' @ ws'\<rparr>"
    "\<forall>b\<in>set bs. subject_ref b = v" "ids \<subseteq> assertion_id ` set bs" "\<forall>b\<in>set bs'. subject_ref b = v" "ids' \<subseteq> assertion_id ` set bs'"
    using assms unfolding governed_def by blast
  then show ?thesis
    unfolding governed_def by (intro exI [of _ "bs @ bs'"] exI [of _ "ws @ ws'"]) auto
qed

lemma govern_acl_effect:
  assumes "govern_acl V config path v st = Inr (acl, st')"
  shows "governed v (set_option acl) st st'"
proof (cases "bc_acl_config config")
  case (Some c)
  obtain es where es: "expected_acl_entries (be_unicode V) path c = Inr es" using assms Some by (auto simp: govern_acl_def)
  show ?thesis
  proof (cases es)
    case (Some entries)
    then obtain a where a: "build_acl_assertion (be_platform V) (be_unicode V) v entries (bc_created_at config) (acf_case_normalize c) = Inr a"
        "acl = Some (acl_id a)" "st' = add_assertion (Acl a) st"
      using assms \<open>bc_acl_config config = Some c\<close> es by (auto simp: govern_acl_def)
    then have "acl_subject_ref a = v" by (auto simp: build_acl_assertion_def Let_def)
    then show ?thesis unfolding a by (intro governed_add) simp_all
  qed (use assms Some es in \<open>auto simp: govern_acl_def\<close>)
qed (use assms in \<open>auto simp: govern_acl_def\<close>)

lemma govern_tenant_effect: "governed (src_version_id source) {} st (snd (govern_tenant V config path source st))"
  by (auto simp: govern_tenant_def build_tenant_assertion_def intro: governed_add governed_warning split: option.splits)

lemma govern_license_effect:
  "governed v (set (fst (govern_license V config path v fm hdr st))) st (snd (govern_license V config path v fm hdr st))"
proof (cases "bc_license_config config")
  case (Some lic)
  define ev where "ev = evaluate_license (be_platform V) path fm None lic v (bc_created_at config) hdr"
  have "governed v {lic_id (fst ev)} st (st\<lparr>bs_assertions := bs_assertions st @ map License (snd ev)\<rparr>)"
    using license_assertions_subject [of _ "be_platform V" path fm None lic v "bc_created_at config" hdr]
      effective_license_listed [of "be_platform V" path fm None lic v "bc_created_at config" hdr]
    by (intro governed_assertions) (force simp: ev_def [symmetric])+
  then show ?thesis using Some by (simp add: govern_license_def ev_def case_prod_beta)
qed (simp add: govern_license_def)

lemma scan_source_effect:
  assumes "scan_source V config v document st = Inr st'"
  shows "governed v {} st st'"
  using assms
  by (auto simp: scan_source_def intro!: governed_add dest: pii_scan_subject split: option.splits)

lemma govern_source_effect:
  assumes g: "govern_source V config path source raw outcome st = Inr (source', acl, st')"
  shows "\<exists>tenant licenses. source' = source\<lparr>src_declared_acl_assertion_id := acl, src_declared_tenant := tenant,
      src_license_assertion_ids := licenses\<rparr> \<and> governed (src_version_id source) (set_option acl \<union> set licenses) st st'"
proof -
  let ?v = "src_version_id source"
  from g obtain st1 where a: "govern_acl V config path ?v st = Inr (acl, st1)"
    by (auto simp: govern_source_def Let_def split: prod.splits)
  obtain tenant st2 where t: "govern_tenant V config path source st1 = (tenant, st2)" by fastforce
  obtain fm hdr licenses st3 where l: "govern_license V config path ?v fm hdr st2 = (licenses, st3)"
    and s: "scan_source V config ?v (po_document outcome) st3 = Inr st'"
    and src: "source' = source\<lparr>src_declared_acl_assertion_id := acl, src_declared_tenant := tenant, src_license_assertion_ids := licenses\<rparr>"
    using g a t by (auto simp: govern_source_def Let_def split: prod.splits)
  have "governed ?v (set_option acl \<union> {} \<union> set licenses \<union> {}) st st'"
    using govern_acl_effect [OF a] govern_tenant_effect [of source st1 V config path] govern_license_effect [of ?v V config path fm hdr st2]
      scan_source_effect [OF s]
    unfolding t l fst_conv snd_conv by (metis governed_trans)
  then show ?thesis using src by auto
qed

lemma governed_linked:
  assumes "governed v ids st st'" "state_linked config extra pending st" "v \<in> active_versions (bs_sources st) \<union> extra"
  shows "state_linked config extra pending st' \<and> ids \<subseteq> assertion_id ` set (bs_assertions st') \<and> chunk_frame st st'"
  using assms by (auto simp: governed_def state_linked_def chunk_frame_def intro!: records_linked_assertions)

section \<open>Sources\<close>

lemma store_artifact_linked:
  assumes "store_artifact V payload media sens st = Inr (ref, st')" "state_linked config extra pending st"
  shows "state_linked config extra pending st' \<and> bs_artifacts st' = bs_artifacts st @ [ref] \<and> bs_sources st' = bs_sources st
    \<and> bs_parse_runs st' = bs_parse_runs st \<and> bs_assertions st' = bs_assertions st"
  using assms(1)
  by (rule store_artifact_effect) (use assms(2) in \<open>auto simp: state_linked_def intro: records_linked_artifact\<close>)

lemma add_run_linked:
  assumes "state_linked config extra pending st" "parse_linked (active_versions (bs_sources st) \<union> extra) (bs_artifacts st) p"
    "failed \<longleftrightarrow> bs_any_parse_failures st \<or> prs_status p = ParseFail"
  shows "state_linked config extra pending (st\<lparr>bs_parse_runs := bs_parse_runs st @ [p], bs_any_parse_failures := failed\<rparr>)"
  using assms by (auto simp: state_linked_def intro: records_linked_run)

lemma add_source_linked:
  assumes "state_linked config {src_version_id s} [] st" "src_status s = SourceActive" "source_linked (bs_artifacts st) (bs_assertions st) s"
  shows "state_linked config {} [] (st\<lparr>bs_sources := bs_sources st @ [s]\<rparr>)"
proof -
  have "active_versions (bs_sources st) \<union> {src_version_id s} = active_versions (bs_sources st @ [s])"
    using assms(2) by (auto simp: active_versions_def)
  then show ?thesis
    using assms by (auto simp: state_linked_def intro!: records_linked_source)
qed

lemma extra_version_linked: "state_linked config {} pending st \<Longrightarrow> state_linked config {v} pending st"
  by (auto simp: state_linked_def intro: records_linked_versions)

lemma source_without_parser_linked:
  assumes s: "source_without_parser V config source st = Inr st'" and l: "state_linked config {} [] st"
    and src: "src_status source = SourceActive" "\<exists>i \<in> art_artifact_id ` set (bs_artifacts st). src_raw_artifact_ref source = Some i"
      "src_declared_acl_assertion_id source = None" "src_license_assertion_ids source = []"
  shows "state_linked config {} [] st'"
proof -
  define L where "L = be_platform V"
  define h where "h = hash_canonical L (JObj [(py ''parser'', JStr (py ''none''))])"
  from s obtain ref st1 where ref: "store_json_artifact V (dump_outcome (no_parser_outcome (src_content_hash source)))
      (py ''application/json'') Internal st = Inr (ref, st1)"
    by (auto simp: source_without_parser_def Let_def)
  define p where "p = parse_record_of config (parse_run_id_of L (src_version_id source) h) (src_version_id source)
    (py ''none'') (py ''0'') h (no_parser_outcome (src_content_hash source))
    [\<lparr>wr_code = py ''NO_PARSER_AVAILABLE'',
      wr_message = Some (py ''no parser registered for media type '' @ repr_str L (src_media_type source)), wr_context = None\<rparr>]
    (art_artifact_id ref)"
  have st': "st' = (st1\<lparr>bs_parse_runs := bs_parse_runs st1 @ [p], bs_any_parse_failures := True\<rparr>)\<lparr>bs_sources := bs_sources st1 @ [source]\<rparr>"
    using s ref by (cases st1) (simp add: source_without_parser_def Let_def p_def h_def L_def)
  have l1: "state_linked config {src_version_id source} [] st1" and a: "bs_artifacts st1 = bs_artifacts st @ [ref]"
    using store_artifact_linked [OF ref [unfolded store_json_artifact_def] extra_version_linked [OF l]] by auto
  have "state_linked config {src_version_id source} [] (st1\<lparr>bs_parse_runs := bs_parse_runs st1 @ [p], bs_any_parse_failures := True\<rparr>)"
    by (rule add_run_linked [OF l1]) (simp_all add: parse_linked_def p_def parse_record_of_def no_parser_outcome_def a)
  from add_source_linked [OF this src(1)] show ?thesis
    using src by (auto simp: st' source_linked_def a)
qed

text \<open>What the store holds of the artifacts that are listed.\<close>

definition artifact_stored :: "directory \<Rightarrow> artifact_ref \<Rightarrow> bool" where
  "artifact_stored d a \<longleftrightarrow> art_artifact_id a = py ''art_'' @ art_sha256 a \<and>
     (\<exists>b. get_artifact (art_sha256 a) d = Inr b \<and> sha256_hex b = art_sha256 a)"

definition state_stored :: "build_state \<Rightarrow> bool" where
  "state_stored st \<longleftrightarrow> store_inv (bs_store st) \<and> list_all (artifact_stored (bs_store st)) (bs_artifacts st)"

lemma store_artifact_stored:
  assumes "store_artifact V payload media sens st = Inr (ref, st')" "state_stored st"
  shows "state_stored st'"
  using assms(1)
proof (rule store_artifact_effect)
  fix store
  assume st': "st' = st\<lparr>bs_store := store, bs_writes := bs_writes st + 1, bs_artifacts := bs_artifacts st @ [ref]\<rparr>"
    and p: "put (py ''.tmp-'' @ be_tmp_token V (bs_writes st)) (be_fault V (bs_writes st)) payload (bs_store st) =
       (Inr \<lparr>ai_sha256 = art_sha256 ref, ai_size_bytes = art_size_bytes ref\<rparr>, store)"
    and i: "art_artifact_id ref = py ''art_'' @ art_sha256 ref"
  have inv: "store_inv (bs_store st)" using assms(2) by (simp add: state_stored_def)
  have inv': "store_inv store" using local_store.store_consistent [OF inv] p by (metis snd_conv)
  obtain b where b: "get_artifact (art_sha256 ref) store = Inr b"
    using local_store.store_load [OF inv p] by auto
  have "artifact_stored store a" if "artifact_stored (bs_store st) a" for a
    using that local_store.store_keeps [OF inv] p unfolding artifact_stored_def by (metis snd_conv)
  moreover have "artifact_stored store ref"
    using i b local_store.load_digest [OF inv' b] by (simp add: artifact_stored_def)
  ultimately show ?thesis
    using assms(2) inv' by (auto simp: state_stored_def st' elim: list.pred_mono_strong)
qed

lemma governed_same: "governed v ids st st' \<Longrightarrow> bs_store st' = bs_store st \<and> bs_artifacts st' = bs_artifacts st
    \<and> bs_sources st' = bs_sources st \<and> bs_parse_runs st' = bs_parse_runs st"
  by (auto simp: governed_def)

lemma source_with_parser_linked:
  assumes s: "source_with_parser V config parser path source raw st = Inr st'"
    and l: "state_linked config {} [] st" and stored: "state_stored st"
    and src: "src_status source = SourceActive" "\<exists>i \<in> art_artifact_id ` set (bs_artifacts st). src_raw_artifact_ref source = Some i"
  shows "state_linked config {} [] st' \<and> state_stored st'"
proof -
  define L where "L = be_platform V"
  define h where "h = parser_config_hash L parser (bc_parser_config config)"
  define run_id where "run_id = parse_run_id_of L (src_version_id source) h"
  let ?v = "src_version_id source"
  from s obtain outcome st1 where f: "fetch_outcome V config parser (src_content_hash source) raw st = Inr (outcome, st1)"
    by (auto simp: source_with_parser_def Let_def)
  with s obtain ref st2 where ref: "store_json_artifact V (parsed_payload outcome)
      (py ''application/vnd.ragledger.ledger-document+json'') Internal st1 = Inr (ref, st2)"
    by (auto simp: source_with_parser_def Let_def)
  define p where "p = parse_record_of config run_id ?v (dp_name parser) (dp_version parser) h outcome (po_warnings outcome) (art_artifact_id ref)"
  define st3 where "st3 = st2\<lparr>bs_parse_runs := bs_parse_runs st2 @ [p],
    bs_any_parse_failures := (bs_any_parse_failures st2 \<or> po_status outcome = ParseFail)\<rparr>"
  have p: "prs_id p = run_id" "prs_source_version_id p = ?v" "prs_parsed_artifact_ref p = art_artifact_id ref" "prs_status p = po_status outcome"
    by (simp_all add: p_def parse_record_of_def)
  from s f ref obtain source' acl st4 where g: "govern_source V config path source raw outcome st3 = Inr (source', acl, st4)"
    and rest: "(case po_document outcome of
        Some document \<Rightarrow> if ld_elements document = [] then Inr (st4\<lparr>bs_sources := bs_sources st4 @ [source']\<rparr>)
                         else process_chunks V config ?v run_id document acl (st4\<lparr>bs_sources := bs_sources st4 @ [source']\<rparr>)
      | None \<Rightarrow> Inr (st4\<lparr>bs_sources := bs_sources st4 @ [source']\<rparr>)) = Inr st'"
    unfolding source_with_parser_def Let_def st3_def p_def h_def run_id_def L_def by auto
  obtain cache where st1: "st1 = st\<lparr>bs_cache := cache\<rparr>" using f by (rule fetch_outcome_effect)
  have "state_linked config {?v} [] st1" "state_stored st1"
    using extra_version_linked [OF l] stored by (simp_all add: st1 state_stored_def)
  then have l2: "state_linked config {?v} [] st2" "state_stored st2" "bs_artifacts st2 = bs_artifacts st @ [ref]"
    using store_artifact_linked [OF ref [unfolded store_json_artifact_def]] store_artifact_stored [OF ref [unfolded store_json_artifact_def]]
    by (auto simp: st1)
  have l3: "state_linked config {?v} [] st3"
    unfolding st3_def by (rule add_run_linked [OF l2(1)]) (auto simp: parse_linked_def p l2(3))
  obtain tenant licenses where src': "source' = source\<lparr>src_declared_acl_assertion_id := acl, src_declared_tenant := tenant,
      src_license_assertion_ids := licenses\<rparr>" and gov: "governed ?v (set_option acl \<union> set licenses) st3 st4"
    using govern_source_effect [OF g] by blast
  have l4: "state_linked config {?v} [] st4" "set_option acl \<union> set licenses \<subseteq> assertion_id ` set (bs_assertions st4)"
    using governed_linked [OF gov l3] by auto
  have same: "bs_store st4 = bs_store st2" "bs_artifacts st4 = bs_artifacts st @ [ref]" "bs_parse_runs st4 = bs_parse_runs st2 @ [p]"
    using governed_same [OF gov] l2(3) by (simp_all add: st3_def)
  define st5 where "st5 = st4\<lparr>bs_sources := bs_sources st4 @ [source']\<rparr>"
  have "state_linked config {} [] st5"
    unfolding st5_def
  proof (rule add_source_linked)
    show "state_linked config {src_version_id source'} [] st4" using l4(1) by (simp add: src')
    show "source_linked (bs_artifacts st4) (bs_assertions st4) source'"
      using src(2) l4(2) by (auto simp: source_linked_def src' same)
  qed (simp add: src' src)
  moreover have "state_stored st5" using l2(2,3) by (simp add: st5_def state_stored_def same)
  moreover have "st' = st5 \<or> (\<exists>document. process_chunks V config ?v run_id document acl st5 = Inr st')"
    using rest by (auto simp: st5_def split: option.splits if_splits)
  moreover have "\<exists>p\<in>set (bs_parse_runs st5). prs_id p = run_id \<and> prs_source_version_id p = ?v"
    using p by (auto simp: st5_def same)
  moreover have "set_option acl \<subseteq> assertion_id ` set (bs_assertions st5)" using l4(2) by (simp add: st5_def)
  ultimately show ?thesis
    using process_chunks_linked by (fastforce simp: state_stored_def)
qed

lemma process_source_linked:
  assumes p: "process_source V config st source = Inr st'"
    and l: "state_linked config {} [] st" and stored: "state_stored st"
    and src: "src_status source = SourceActive" "src_declared_acl_assertion_id source = None" "src_license_assertion_ids source = []"
  shows "state_linked config {} [] st' \<and> state_stored st'"
proof -
  from p obtain path raw raw_ref st1 where a: "store_artifact V raw (src_media_type source) Restricted st = Inr (raw_ref, st1)"
    and rest: "(case map_of (bc_parser_registry config) (src_media_type source) of
        None \<Rightarrow> source_without_parser V config (source\<lparr>src_raw_artifact_ref := Some (art_artifact_id raw_ref)\<rparr>) st1
      | Some parser \<Rightarrow> source_with_parser V config parser path (source\<lparr>src_raw_artifact_ref := Some (art_artifact_id raw_ref)\<rparr>) raw st1) = Inr st'"
    by (auto simp: process_source_def Let_def split: option.splits)
  have l1: "state_linked config {} [] st1" "state_stored st1" "bs_artifacts st1 = bs_artifacts st @ [raw_ref]"
    using store_artifact_linked [OF a l] store_artifact_stored [OF a stored] by auto
  let ?s = "source\<lparr>src_raw_artifact_ref := Some (art_artifact_id raw_ref)\<rparr>"
  have r: "\<exists>i \<in> art_artifact_id ` set (bs_artifacts st1). src_raw_artifact_ref ?s = Some i" by (simp add: l1(3))
  show ?thesis
  proof (cases "map_of (bc_parser_registry config) (src_media_type source)")
    case None
    then have w: "source_without_parser V config ?s st1 = Inr st'" using rest by simp
    from w obtain ref st2 where ref: "store_json_artifact V (dump_outcome (no_parser_outcome (src_content_hash source)))
        (py ''application/json'') Internal st1 = Inr (ref, st2)" and same: "bs_store st' = bs_store st2" "bs_artifacts st' = bs_artifacts st2"
      by (auto simp: source_without_parser_def Let_def)
    have "state_stored st2" using store_artifact_stored [OF ref [unfolded store_json_artifact_def] l1(2)] .
    then have "state_stored st'" by (simp add: state_stored_def same)
    then show ?thesis using source_without_parser_linked [OF w l1(1)] src r by simp
  next
    case (Some parser)
    then show ?thesis using source_with_parser_linked [of V config parser path ?s raw st1 st'] rest l1 src r by simp
  qed
qed

lemma active_processed: "src_status s = SourceActive \<Longrightarrow> discovered_or_processed V config st s = process_source V config st s"
  by (simp add: discovered_or_processed_def)

lemma fold_sources_linked:
  assumes "fold_result (discovered_or_processed V config) st sources = Inr st'" "state_linked config {} [] st" "state_stored st"
    "list_all (\<lambda>s. src_status s = SourceActive \<and> src_declared_acl_assertion_id s = None \<and> src_license_assertion_ids s = []) sources"
  shows "state_linked config {} [] st' \<and> state_stored st'"
  using assms
proof (induction sources arbitrary: st)
  case (Cons s ss)
  then obtain st1 where step: "process_source V config st s = Inr st1"
    and rest: "fold_result (discovered_or_processed V config) st1 ss = Inr st'"
    by (auto simp: active_processed)
  show ?case
    using Cons.IH [OF rest] process_source_linked [OF step] Cons.prems by simp
qed simp

text \<open>Tombstones refer to what a previous manifest recorded; they are not active.\<close>

lemma tombstones_linked:
  assumes "state_linked config {} [] st"
  shows "state_linked config {} [] (add_tombstones config st)"
proof -
  define ts where "ts = compute_tombstones (bc_previous_sources config) (map src_id (bs_sources st))"
  have t: "\<forall>t\<in>set ts. src_status t = SourceTombstone"
    using tombstones_exact [of "bc_previous_sources config" "map src_id (bs_sources st)"] unfolding ts_def by auto
  then have "active_versions (bs_sources st @ ts) = active_versions (bs_sources st)" by (force simp: active_versions_def)
  then show ?thesis
    using assms t by (auto simp: add_tombstones_def state_linked_def records_linked_def ts_def [symmetric])
qed

lemma sort_linked: "state_linked config {} [] (sort_state st) = state_linked config {} [] st"
  by (simp add: sort_state_def state_linked_def records_linked_def active_versions_def source_linked_def parse_linked_def
      chunk_linked_def embedding_linked_def passes_policy_def)

lemma tombstones_stored: "state_stored (add_tombstones config st) = state_stored st"
  by (simp add: add_tombstones_def state_stored_def)

lemma sort_stored: "state_stored (sort_state st) = state_stored st"
  by (simp add: sort_state_def state_stored_def list_all_iff)

section \<open>Every manifest\<close>

lemma discovered_fresh:
  assumes "discover_sources L U g tree ns config = Inr ss"
  shows "list_all (\<lambda>s. src_status s = SourceActive \<and> src_declared_acl_assertion_id s = None \<and> src_license_assertion_ids s = []) ss"
proof -
  let ?P = "\<lambda>s. src_status s = SourceActive \<and> src_declared_acl_assertion_id s = None \<and> src_license_assertion_ids s = []"
  from assms obtain found built where b: "collect (map (build_source_record L U g ns config) found) = Inr built"
    and ss: "ss = attach_duplicates Map.empty built"
    by (rule discover_sources_parts)
  have "list_all ?P built"
    using b
  proof (induction found arbitrary: built)
    case (Cons f fs)
    then show ?case
      by (cases "build_source_record L U g ns config f") (auto simp: build_source_record_def Let_def split: sum.splits)
  qed simp
  moreover have "map ?P ss = map ?P built" unfolding ss by (rule attach_duplicates_map) simp
  ultimately show ?thesis using list_all_same by blast
qed

lemma run_stages_linked:
  assumes "run_stages V config (initial_state store cache) = Inr (n, st)" "store_inv store"
  shows "state_linked config {} [] st \<and> state_stored st"
proof -
  from assms(1) obtain sources st1 where d: "discover_sources (be_platform V) (be_unicode V) (be_guess_type V) (be_tree V)
      (bc_namespace config) (bc_discovery config) = Inr sources"
    and f: "fold_result (discovered_or_processed V config) (initial_state store cache) sources = Inr st1"
    and st: "st = sort_state (add_tombstones config st1)"
    by (auto simp: run_stages_def)
  have "state_linked config {} [] (initial_state store cache)" "state_stored (initial_state store cache)"
    using assms(2) by (simp_all add: initial_state_def state_linked_def records_linked_def state_stored_def)
  from fold_sources_linked [OF f this discovered_fresh [OF d]] show ?thesis
    by (auto simp: st sort_linked sort_stored tombstones_stored intro: tombstones_linked)
qed

text \<open>A manifest carries the records of the final state.\<close>

lemma build_pipeline_records:
  assumes "build_pipeline E V config store cache = Inr (m, st)"
  obtains n where "run_stages V config (initial_state store cache) = Inr (n, st)" "mf_sources m = bs_sources st"
    "mf_parse_runs m = bs_parse_runs st" "mf_chunks m = bs_chunks st" "mf_embeddings m = bs_embeddings st"
    "mf_assertions m = bs_assertions st" "mf_artifacts m = bs_artifacts st" "mf_build m = build_record_of V config n st"
proof -
  from assms obtain n m0 where r: "run_stages V config (initial_state store cache) = Inr (n, st)"
    and m0: "manifest_of V config n st = Inr m0"
    and m: "m = (case bc_signing_key config of None \<Rightarrow> m0
      | Some key \<Rightarrow> sign_manifest (be_platform V) E m0 key (bc_created_at config) (bc_signing_issuer config))"
    by (auto simp: build_pipeline_def)
  have "mf_sources m0 = bs_sources st" "mf_parse_runs m0 = bs_parse_runs st" "mf_chunks m0 = bs_chunks st"
    "mf_embeddings m0 = bs_embeddings st" "mf_assertions m0 = bs_assertions st" "mf_artifacts m0 = bs_artifacts st"
    "mf_build m0 = build_record_of V config n st"
    using m0 by (auto simp: manifest_of_def build_manifest_def provisional_manifest_def Let_def)
  moreover have "mf_sources m = mf_sources m0 \<and> mf_parse_runs m = mf_parse_runs m0 \<and> mf_chunks m = mf_chunks m0
    \<and> mf_embeddings m = mf_embeddings m0 \<and> mf_assertions m = mf_assertions m0 \<and> mf_artifacts m = mf_artifacts m0 \<and> mf_build m = mf_build m0"
    by (auto simp: m sign_manifest_def Let_def split: option.splits prod.splits)
  ultimately show thesis using r that by simp
qed



text \<open>
  C16. No chunk that the PII policy blocks is embedded: when scanning and blocking are configured,
  every embedding of the manifest is of a chunk whose own scan assertion, listed by the chunk
  and in the manifest, has no finding that blocks.
\<close>

theorem blocked_chunks_not_embedded:
  assumes "build_pipeline E V config store cache = Inr (m, st)" "store_inv store"
  shows "\<forall>e\<in>set (mf_embeddings m). \<exists>c\<in>set (mf_chunks m). emb_chunk_id e = chk_id c \<and>
    (bc_pii_config config = None \<or> pp_block_entity_types (bc_pii_policy config) = [] \<or>
     (\<exists>scan. PiiScan scan \<in> set (mf_assertions m) \<and> pii_subject_ref scan = chk_id c \<and> pii_id scan \<in> set (chk_pii_assertion_ids c) \<and>
        (\<forall>f\<in>set (pii_findings scan). \<not> (pf_entity_type f \<in> set (pp_block_entity_types (bc_pii_policy config))
           \<and> pf_confidence f \<ge> pp_min_confidence (bc_pii_policy config)))))"
  using assms(1)
proof (rule build_pipeline_records)
  fix n
  assume r: "run_stages V config (initial_state store cache) = Inr (n, st)" and m: "mf_chunks m = bs_chunks st"
    "mf_embeddings m = bs_embeddings st" "mf_assertions m = bs_assertions st"
  have "\<forall>e\<in>set (mf_embeddings m). embedding_linked config (mf_assertions m) (set (mf_chunks m)) e"
    using run_stages_linked [OF r assms(2)] by (simp add: state_linked_def records_linked_def m)
  then show ?thesis
    unfolding embedding_linked_def passes_policy_def list_ex_iff blocking_finding_def by blast
qed

theorem blocked_chunks_not_embedded_witness:
  "\<exists>m st. sample_build = Inr (m, st) \<and> list_all (\<lambda>e. list_ex (\<lambda>c. emb_chunk_id e = chk_id c) (mf_chunks m)) (mf_embeddings m)"
proof -
  obtain m st where m: "sample_build = Inr (m, st)" "length (mf_parse_runs m) = 1" using sample_build_returns by blast
  with blocked_chunks_not_embedded [OF m(1) empty_store_inv] show ?thesis by (auto simp: list_all_iff list_ex_iff)
qed

text \<open>
  C17. A manifest says \<open>complete\<close> exactly when no parse run failed; every artifact it lists can be
  loaded from the store, with the digest it names.
\<close>

theorem manifest_status_and_artifacts:
  assumes "build_pipeline E V config store cache = Inr (m, st)" "store_inv store"
  shows "(bld_status (mf_build m) = BuildComplete \<longleftrightarrow> list_all (\<lambda>p. prs_status p \<noteq> ParseFail) (mf_parse_runs m)) \<and>
    store_inv (bs_store st) \<and>
    list_all (\<lambda>a. \<exists>b. get_artifact (art_sha256 a) (bs_store st) = Inr b \<and> sha256_hex b = art_sha256 a) (mf_artifacts m)"
  using assms(1)
proof (rule build_pipeline_records)
  fix n
  assume r: "run_stages V config (initial_state store cache) = Inr (n, st)" and m: "mf_parse_runs m = bs_parse_runs st"
    "mf_artifacts m = bs_artifacts st" "mf_build m = build_record_of V config n st"
  from run_stages_linked [OF r assms(2)] show ?thesis
    by (auto simp: m state_linked_def state_stored_def build_record_of_def list_all_iff artifact_stored_def)
qed

theorem manifest_status_and_artifacts_witness:
  "\<exists>m st. sample_build = Inr (m, st) \<and> store_inv (bs_store st) \<and>
     (bld_status (mf_build m) = BuildComplete \<longleftrightarrow> list_all (\<lambda>p. prs_status p \<noteq> ParseFail) (mf_parse_runs m))"
proof -
  obtain m st where m: "sample_build = Inr (m, st)" "length (mf_parse_runs m) = 1" using sample_build_returns by blast
  with manifest_status_and_artifacts [OF m(1) empty_store_inv] show ?thesis by (auto simp: list_all_iff list_ex_iff)
qed

end
