(* ===== verification/Build_Repeat.thy ===== *)
theory Build_Repeat
  imports Build
begin

text \<open>
  A build is a function of its tree and configuration: what the stage cache and the artifact
  store hold at the start does not reach the manifest, as long as the cache holds under the keys
  of this run only what the run itself would compute, and the store accepts writes. Two runs
  are compared step by step; their states agree up to cache and store.
\<close>

section \<open>Related runs\<close>

definition forget :: "build_state \<Rightarrow> build_state" where
  "forget st = st\<lparr>bs_cache := \<lparr>ch_files = Map.empty, ch_hits = 0, ch_misses = 0\<rparr>, bs_store := [], bs_writes := 0\<rparr>"

definition alike :: "stage_results \<Rightarrow> build_state \<Rightarrow> build_state \<Rightarrow> bool" where
  "alike T st st' \<longleftrightarrow> forget st = forget st' \<and> agrees T (bs_cache st) \<and> agrees T (bs_cache st')"

definition same_end :: "stage_results \<Rightarrow> build_error \<times> build_state \<Rightarrow> build_error \<times> build_state \<Rightarrow> bool" where
  "same_end T e e' \<longleftrightarrow> fst e = fst e' \<and> alike T (snd e) (snd e')"

text \<open>Results with equal errors or related values; a value with a state.\<close>

abbreviation alike_results :: "stage_results \<Rightarrow> ('a \<Rightarrow> 'a \<Rightarrow> bool) \<Rightarrow> 'a build_result \<Rightarrow> 'a build_result \<Rightarrow> bool" where
  "alike_results T \<equiv> rel_sum (same_end T)"

definition with_state :: "stage_results \<Rightarrow> 'a \<times> build_state \<Rightarrow> 'a \<times> build_state \<Rightarrow> bool" where
  "with_state T r r' \<longleftrightarrow> fst r = fst r' \<and> alike T (snd r) (snd r')"

lemma with_state_simp [simp]: "with_state T (x, st) (y, st') \<longleftrightarrow> x = y \<and> alike T st st'"
  by (simp add: with_state_def)

lemma alike_andThen:
  assumes "alike_results T Q r r'" "\<And>x y. Q x y \<Longrightarrow> r = Inr x \<Longrightarrow> alike_results T R (k x) (k' y)"
  shows "alike_results T R (andThen r k) (andThen r' k')"
  using assms by (cases r; cases r') auto

lemma alike_lifting: "alike T st st' \<Longrightarrow> alike_results T (=) (lifting st w r) (lifting st' w r)"
  by (cases r) (simp_all add: lifting_def same_end_def)

text \<open>Related states have the same records, and the same changes keep them related.\<close>

lemma alike_fields:
  assumes "alike T st st'"
  shows "bs_sources st' = bs_sources st" "bs_parse_runs st' = bs_parse_runs st" "bs_chunks st' = bs_chunks st"
    "bs_embeddings st' = bs_embeddings st" "bs_assertions st' = bs_assertions st" "bs_artifacts st' = bs_artifacts st"
    "bs_warnings st' = bs_warnings st" "bs_any_parse_failures st' = bs_any_parse_failures st"
  using assms by (cases st; cases st'; simp add: alike_def forget_def)+

lemma alike_update:
  assumes "alike T st st'" "\<And>s. forget (f s) = f (forget s)" "\<And>s. bs_cache (f s) = bs_cache s"
  shows "alike T (f st) (f st')"
  using assms by (simp add: alike_def)

lemma alike_updates:
  assumes "alike T st st'"
  shows "alike T (st\<lparr>bs_sources := a\<rparr>) (st'\<lparr>bs_sources := a\<rparr>)" "alike T (st\<lparr>bs_parse_runs := b\<rparr>) (st'\<lparr>bs_parse_runs := b\<rparr>)"
    "alike T (st\<lparr>bs_chunks := c\<rparr>) (st'\<lparr>bs_chunks := c\<rparr>)" "alike T (st\<lparr>bs_embeddings := d\<rparr>) (st'\<lparr>bs_embeddings := d\<rparr>)"
    "alike T (st\<lparr>bs_assertions := e\<rparr>) (st'\<lparr>bs_assertions := e\<rparr>)" "alike T (st\<lparr>bs_artifacts := f\<rparr>) (st'\<lparr>bs_artifacts := f\<rparr>)"
    "alike T (st\<lparr>bs_warnings := g\<rparr>) (st'\<lparr>bs_warnings := g\<rparr>)"
    "alike T (st\<lparr>bs_any_parse_failures := h\<rparr>) (st'\<lparr>bs_any_parse_failures := h\<rparr>)"
  using assms by (simp_all add: alike_def forget_def) (cases st; cases st'; simp)+

lemma alike_add_assertion: "alike T st st' \<Longrightarrow> alike T (add_assertion a st) (add_assertion a st')"
  using alike_updates(5) alike_fields(5) by (simp add: add_assertion_def)

section \<open>Lookups\<close>

lemma look_up_alike:
  assumes "agrees T (bs_cache st)" "consistent_results T" "(key, r) \<in> T"
    "\<And>v. r = Some v \<Longrightarrow> v \<noteq> JNull \<and> rd v = Some (val v)"
  shows "\<exists>c. agrees T c \<and> (look_up rd key st = Inr (None, st\<lparr>bs_cache := c\<rparr>) \<or>
    (\<exists>v. r = Some v \<and> look_up rd key st = Inr (Some (val v), st\<lparr>bs_cache := c\<rparr>)))"
proof -
  obtain res c where g: "cache_get key (bs_cache st) = (res, c)" by fastforce
  note ag = cache_get_agrees [OF assms(1,3,2), unfolded g fst_conv snd_conv]
  then have c: "agrees T c" by blast
  from ag consider "res = Inr None" | v where "r = Some v" "res = Inr (Some v)" by blast
  then show ?thesis
  proof cases
    case 1
    then show ?thesis using g c by (auto simp: look_up_def)
  next
    case 2
    then have "look_up rd key st = Inr (Some (val v), st\<lparr>bs_cache := c\<rparr>)"
      using g assms(4) [OF 2(1)] by (cases v) (auto simp: look_up_def)
    then show ?thesis using 2 c by blast
  qed
qed

lemma alike_cache:
  assumes "alike T st st'" "agrees T c" "agrees T c'"
  shows "alike T (st\<lparr>bs_cache := c\<rparr>) (st'\<lparr>bs_cache := c'\<rparr>)"
  using assms by (simp add: alike_def forget_def)

lemma remember_cache: "remember key v (st\<lparr>bs_cache := c\<rparr>) = st\<lparr>bs_cache := cache_put key v c\<rparr>"
  by (simp add: remember_def)

text \<open>
  A memoised computation: looked up, or computed and remembered. Both runs end alike, whether
  each finds the value or computes it.
\<close>

definition memoised ::
  "(json \<Rightarrow> 'a option) \<Rightarrow> ('a \<Rightarrow> json) \<Rightarrow> pystr \<Rightarrow> ('e \<Rightarrow> build_error) \<Rightarrow> 'e + 'a \<Rightarrow> build_state \<Rightarrow> ('a \<times> build_state) build_result" where
  "memoised rd dump key wrap computed st =
     andThen (look_up rd key st) (\<lambda>(cached, st1).
       case cached of
         Some x \<Rightarrow> Inr (x, st1)
       | None \<Rightarrow> andThen (lifting st1 wrap computed) (\<lambda>x. Inr (x, remember key (dump x) st1)))"

definition entry_of :: "('a \<Rightarrow> json) \<Rightarrow> 'e + 'a \<Rightarrow> json option" where
  "entry_of dump computed = (case computed of Inl e \<Rightarrow> None | Inr x \<Rightarrow> Some (dump x))"

lemma memoised_cases:
  assumes "agrees T (bs_cache st)" "consistent_results T" "(key, entry_of dump computed) \<in> T"
    "\<And>x. computed = Inr x \<Longrightarrow> dump x \<noteq> JNull \<and> rd (dump x) = Some x"
  shows "\<exists>c. agrees T c \<and> memoised rd dump key wrap computed st =
    (case computed of Inl e \<Rightarrow> Inl (wrap e, st\<lparr>bs_cache := c\<rparr>) | Inr x \<Rightarrow> Inr (x, st\<lparr>bs_cache := c\<rparr>))"
proof (cases computed)
  case (Inl e)
  obtain c where "agrees T c" "look_up rd key st = Inr (None, st\<lparr>bs_cache := c\<rparr>)"
    using look_up_alike [OF assms(1-3), of rd "\<lambda>v. undefined"] Inl by (auto simp: entry_of_def)
  then show ?thesis using Inl by (auto simp: memoised_def lifting_def)
next
  case (Inr x)
  have x: "(key, Some (dump x)) \<in> T" using assms(3) Inr by (simp add: entry_of_def)
  obtain c where c: "agrees T c" and
    "look_up rd key st = Inr (None, st\<lparr>bs_cache := c\<rparr>) \<or> look_up rd key st = Inr (Some x, st\<lparr>bs_cache := c\<rparr>)"
    using look_up_alike [OF assms(1,2) x, of rd "\<lambda>v. x"] assms(4) [OF Inr] by auto
  then show ?thesis
    using Inr cache_put_agrees [OF c assms(2) x] by (auto simp: memoised_def lifting_def remember_cache)
qed

lemma memoised_alike:
  assumes "alike T st st'" "consistent_results T" "(key, entry_of dump computed) \<in> T"
    "\<And>x. computed = Inr x \<Longrightarrow> dump x \<noteq> JNull \<and> rd (dump x) = Some x"
  shows "alike_results T (\<lambda>r r'. with_state T r r' \<and> computed = Inr (fst r))
    (memoised rd dump key wrap computed st) (memoised rd dump key wrap computed st')"
proof -
  have "agrees T (bs_cache st)" "agrees T (bs_cache st')" using assms(1) by (simp_all add: alike_def)
  then obtain c c' where "agrees T c" "agrees T c'"
    "memoised rd dump key wrap computed st =
      (case computed of Inl e \<Rightarrow> Inl (wrap e, st\<lparr>bs_cache := c\<rparr>) | Inr x \<Rightarrow> Inr (x, st\<lparr>bs_cache := c\<rparr>))"
    "memoised rd dump key wrap computed st' =
      (case computed of Inl e \<Rightarrow> Inl (wrap e, st'\<lparr>bs_cache := c'\<rparr>) | Inr x \<Rightarrow> Inr (x, st'\<lparr>bs_cache := c'\<rparr>))"
    using memoised_cases [OF _ assms(2-4), of st wrap] memoised_cases [OF _ assms(2-4), of st' wrap] by metis
  then show ?thesis
    using alike_cache [OF assms(1)] by (cases computed) (simp_all add: same_end_def)
qed

end
