(* ===== verification/Jobs.thy ===== *)
theory Jobs
  imports Models
begin

text \<open>
  \<open>ragledger.server.jobs\<close>, the database-backed queue: the job row, cancellation, enqueueing,
  leasing, and the worker loop \<open>run_pending_jobs\<close>, sequentially (one worker, the rest of
  the database as a parameter that handlers rewrite) and as a step relation in which several
  workers and the API interleave between committed transactions. Time is a number of
  microseconds; the wall clock is a parameter, read once per call of \<open>datetime.now\<close>.
\<close>

section \<open>Rows\<close>

datatype job_status = Queued | Leased | Running | Completed | Failed | Cancelled

abbreviation terminal :: "job_status \<Rightarrow> bool" where
  "terminal s \<equiv> s \<in> {Completed, Failed, Cancelled}"

record job =
  jb_id :: pystr
  jb_workspace_id :: pystr
  jb_job_type :: pystr
  jb_status :: job_status
  jb_payload :: dict
  jb_related_entity_type :: "pystr option"
  jb_related_entity_id :: "pystr option"
  jb_lease_owner :: "pystr option"
  jb_lease_expires_at :: "int option"
  jb_cancel_requested :: bool
  jb_attempt_count :: nat
  jb_last_error :: "pystr option"
  jb_started_at :: "int option"
  jb_completed_at :: "int option"
  jb_created_at :: int

type_synonym job_table = "job list"

definition MAX_ATTEMPTS :: nat where
  "MAX_ATTEMPTS = 3"

definition DEFAULT_LEASE :: int where
  "DEFAULT_LEASE = 15 * 60 * 1000000"

text \<open>\<open>session.get(Job, id)\<close> and the flush of one changed row.\<close>

definition get_job :: "job_table \<Rightarrow> pystr \<Rightarrow> job option" where
  "get_job table i = find (\<lambda>j. jb_id j = i) table"

definition put_job :: "job \<Rightarrow> job_table \<Rightarrow> job_table" where
  "put_job j table = map (\<lambda>r. if jb_id r = jb_id j then j else r) table"

section \<open>Operations on rows\<close>

datatype cancel_outcome = CancelledOutright | CancelRequested | NotCancellable

definition request_cancel :: "int \<Rightarrow> job \<Rightarrow> cancel_outcome \<times> job" where
  "request_cancel now j =
     (if jb_status j = Queued
      then (CancelledOutright, j\<lparr>jb_status := Cancelled, jb_completed_at := Some now\<rparr>)
      else if jb_status j \<in> {Leased, Running}
      then (CancelRequested, j\<lparr>jb_cancel_requested := True\<rparr>)
      else (NotCancellable, j))"

text \<open>\<open>check_cancellation\<close>: the flag is read from the database; true is the raise of
  \<open>JobCancelledError\<close>.\<close>

definition check_cancellation :: "job_table \<Rightarrow> pystr \<Rightarrow> bool" where
  "check_cancellation table i = (case get_job table i of None \<Rightarrow> False | Some j \<Rightarrow> jb_cancel_requested j)"

definition enqueue_job ::
  "int \<Rightarrow> pystr \<Rightarrow> pystr \<Rightarrow> pystr \<Rightarrow> dict option \<Rightarrow> pystr option \<Rightarrow> pystr option \<Rightarrow> job_table \<Rightarrow> job \<times> job_table" where
  "enqueue_job now new_id workspace_id job_type payload entity_type entity_id table =
     (let j = \<lparr>jb_id = new_id, jb_workspace_id = workspace_id, jb_job_type = job_type, jb_status = Queued,
               jb_payload = (case payload of None \<Rightarrow> [] | Some p \<Rightarrow> p), jb_related_entity_type = entity_type,
               jb_related_entity_id = entity_id, jb_lease_owner = None, jb_lease_expires_at = None,
               jb_cancel_requested = False, jb_attempt_count = 0, jb_last_error = None, jb_started_at = None,
               jb_completed_at = None, jb_created_at = now\<rparr>
      in (j, table @ [j]))"

definition leasable :: "int \<Rightarrow> job \<Rightarrow> bool" where
  "leasable now j \<longleftrightarrow>
     jb_status j = Queued \<or>
     jb_status j \<in> {Leased, Running} \<and> (case jb_lease_expires_at j of None \<Rightarrow> False | Some t \<Rightarrow> t < now)"

text \<open>
  The leasing query: rows other transactions hold locked are skipped, the oldest remaining
  leasable row is taken. Rows of equal \<open>created_at\<close> come in the order of the table, which
  stands for whatever order the database returns.
\<close>

definition lease_next_job :: "int \<Rightarrow> pystr \<Rightarrow> int \<Rightarrow> pystr set \<Rightarrow> job_table \<Rightarrow> (job \<times> job_table) option" where
  "lease_next_job now worker_name lease_for locked table =
     (case sort_key jb_created_at (filter (\<lambda>j. leasable now j \<and> jb_id j \<notin> locked) table) of
        [] \<Rightarrow> None
      | candidate # _ \<Rightarrow>
          (let j = candidate\<lparr>jb_status := Leased, jb_lease_owner := Some worker_name,
                             jb_lease_expires_at := Some (now + lease_for),
                             jb_attempt_count := jb_attempt_count candidate + 1\<rparr>
           in Some (j, put_job j table)))"

definition finish_job :: "int \<Rightarrow> job_status \<Rightarrow> pystr option \<Rightarrow> job \<Rightarrow> job" where
  "finish_job now status error j =
     j\<lparr>jb_status := status, jb_last_error := (if truthy error then map_option (take 2048) error else None),
       jb_completed_at := Some now, jb_lease_owner := None, jb_lease_expires_at := None\<rparr>"

definition fail_in_fresh_row :: "int \<Rightarrow> pystr \<Rightarrow> pystr \<Rightarrow> bool \<Rightarrow> job_table \<Rightarrow> job_table" where
  "fail_in_fresh_row now i error retry table =
     (case get_job table i of
        None \<Rightarrow> table
      | Some j \<Rightarrow>
          if retry \<and> jb_attempt_count j < MAX_ATTEMPTS
          then put_job (j\<lparr>jb_status := Queued, jb_last_error := Some (take 2048 error), jb_lease_owner := None,
                          jb_lease_expires_at := None\<rparr>) table
          else put_job (finish_job now Failed (Some error) j) table)"

section \<open>The worker loop\<close>

text \<open>
  A handler maps the rest of the database (type \<open>'d\<close>) and its job to an outcome and a
  changed database; a finalizer only changes it. What a handler wrote is kept when it returns
  and dropped by the rollback when it raises.
\<close>

datatype handler_result =
    HandlerReturned
  | HandlerCancelled
  | HandlerPermanent pystr
  | HandlerRaised pystr

record 'd jobs_db =
  jobs :: job_table
  entities :: 'd
  clock_reads :: nat

type_synonym 'd handler = "'d \<Rightarrow> job \<Rightarrow> handler_result \<times> 'd"
type_synonym 'd finalizer = "'d \<Rightarrow> job \<Rightarrow> 'd"

text \<open>The work transaction for a leased job; false when the row is gone.\<close>

definition run_job ::
  "platform \<Rightarrow> (nat \<Rightarrow> int) \<Rightarrow> (pystr \<Rightarrow> 'd handler option) \<Rightarrow> (pystr \<Rightarrow> 'd finalizer option)
   \<Rightarrow> pystr \<Rightarrow> pystr \<Rightarrow> 'd jobs_db \<Rightarrow> bool \<times> 'd jobs_db" where
  "run_job L clock handlers finalizers i job_type st =
     (let now = clock (clock_reads st); later = clock (clock_reads st + 1) in
      case get_job (jobs st) i of
        None \<Rightarrow> (False, st)
      | Some leased \<Rightarrow>
          (case handlers job_type of
             None \<Rightarrow>
               (True, st\<lparr>jobs := put_job (finish_job now Failed (Some (py ''no handler for '' @ repr_str L job_type)) leased) (jobs st),
                         clock_reads := clock_reads st + 1\<rparr>)
           | Some handler \<Rightarrow>
               (let running = leased\<lparr>jb_status := Running, jb_started_at := Some now\<rparr>;
                    after = st\<lparr>clock_reads := clock_reads st + 2\<rparr> in
                case handler (entities st) running of
                  (HandlerReturned, written) \<Rightarrow>
                    (True, after\<lparr>jobs := put_job (finish_job later Completed None running) (jobs st), entities := written\<rparr>)
                | (HandlerCancelled, _) \<Rightarrow>
                    (let cancelled = finish_job later Cancelled None leased in
                     (True, after\<lparr>jobs := put_job cancelled (jobs st),
                                  entities := (case finalizers job_type of None \<Rightarrow> entities st | Some f \<Rightarrow> f (entities st) cancelled)\<rparr>))
                | (HandlerPermanent e, _) \<Rightarrow> (True, after\<lparr>jobs := fail_in_fresh_row later i e False (jobs st)\<rparr>)
                | (HandlerRaised e, _) \<Rightarrow> (True, after\<lparr>jobs := fail_in_fresh_row later i e True (jobs st)\<rparr>))))"

partial_function (option) run_pending_jobs ::
  "platform \<Rightarrow> (nat \<Rightarrow> int) \<Rightarrow> (pystr \<Rightarrow> 'd handler option) \<Rightarrow> (pystr \<Rightarrow> 'd finalizer option)
   \<Rightarrow> pystr \<Rightarrow> int option \<Rightarrow> int \<Rightarrow> 'd jobs_db \<Rightarrow> (int \<times> 'd jobs_db) option" where
  "run_pending_jobs L clock handlers finalizers worker_name max_jobs executed st =
     (if (case max_jobs of None \<Rightarrow> True | Some m \<Rightarrow> executed < m) then
        (case lease_next_job (clock (clock_reads st)) worker_name DEFAULT_LEASE {} (jobs st) of
           None \<Rightarrow> Some (executed, st\<lparr>clock_reads := clock_reads st + 1\<rparr>)
         | Some (j, table) \<Rightarrow>
             (case run_job L clock handlers finalizers (jb_id j) (jb_job_type j)
                     (st\<lparr>jobs := table, clock_reads := clock_reads st + 1\<rparr>) of
                (counted, st') \<Rightarrow> run_pending_jobs L clock handlers finalizers worker_name max_jobs (if counted then executed + 1 else executed) st'))
      else Some (executed, st))"

section \<open>The table\<close>

lemma map_id_put_job [simp]: "map jb_id (put_job j table) = map jb_id table"
  by (induction table) (simp_all add: put_job_def)

lemma get_job_Some: "get_job table i = Some j \<Longrightarrow> j \<in> set table \<and> jb_id j = i"
  by (auto simp: get_job_def find_Some_iff)

lemma get_job_put_job: "get_job (put_job j table) i =
    (if i = jb_id j then (if get_job table i = None then None else Some j) else get_job table i)"
  by (induction table) (auto simp: get_job_def put_job_def)

lemma in_put_job: "x \<in> set (put_job j table) \<Longrightarrow> x = j \<or> x \<in> set table \<and> jb_id x \<noteq> jb_id j"
  by (auto simp: put_job_def split: if_splits)

lemma get_job_in: "distinct (map jb_id table) \<Longrightarrow> j \<in> set table \<Longrightarrow> get_job table (jb_id j) = Some j"
  by (induction table) (auto simp: get_job_def)

lemma lease_next_job_Some:
  assumes "lease_next_job now w d locked table = Some (j, table')"
  obtains c where "c \<in> set table" "leasable now c" "jb_id c \<notin> locked"
    "\<forall>x \<in> set table. leasable now x \<and> jb_id x \<notin> locked \<longrightarrow> jb_created_at c \<le> jb_created_at x"
    "j = c\<lparr>jb_status := Leased, jb_lease_owner := Some w, jb_lease_expires_at := Some (now + d),
           jb_attempt_count := jb_attempt_count c + 1\<rparr>"
    "table' = put_job j table"
proof -
  let ?sorted = "sort_key jb_created_at (filter (\<lambda>j. leasable now j \<and> jb_id j \<notin> locked) table)"
  obtain c cs where cs: "?sorted = c # cs"
    using assms by (auto simp: lease_next_job_def split: list.splits)
  have elems: "set ?sorted = {x \<in> set table. leasable now x \<and> jb_id x \<notin> locked}" by auto
  have c: "c \<in> set ?sorted" by (simp add: cs del: set_sort set_filter)
  have "sorted (map jb_created_at (c # cs))"
    by (metis cs sorted_sort_key)
  then have "\<forall>x \<in> set ?sorted. jb_created_at c \<le> jb_created_at x"
    unfolding cs by simp
  then have least: "\<forall>x \<in> set table. leasable now x \<and> jb_id x \<notin> locked \<longrightarrow> jb_created_at c \<le> jb_created_at x"
    unfolding elems by simp
  have "c \<in> set table \<and> leasable now c \<and> jb_id c \<notin> locked" using c unfolding elems by simp
  then show ?thesis
    using that [of c] least assms by (auto simp: lease_next_job_def cs Let_def)
qed

lemma sort_key_eq_Nil: "sort_key f xs = [] \<longleftrightarrow> xs = []"
  by (metis set_empty set_sort)

lemma lease_next_job_None_iff:
  "lease_next_job now w d locked table = None \<longleftrightarrow> (\<forall>j \<in> set table. leasable now j \<longrightarrow> jb_id j \<in> locked)"
proof -
  have "lease_next_job now w d locked table = None \<longleftrightarrow> filter (\<lambda>j. leasable now j \<and> jb_id j \<notin> locked) table = []"
    by (auto simp: lease_next_job_def Let_def sort_key_eq_Nil split: list.splits)
  then show ?thesis by (auto simp: filter_empty_conv)
qed

section \<open>The work still owed\<close>

text \<open>
  How often a row can still be executed: not at all once it is terminal, otherwise its
  remaining attempts, and at least once.
\<close>

definition owed :: "job \<Rightarrow> nat" where
  "owed j = (if terminal (jb_status j) then 0 else max 1 (MAX_ATTEMPTS - jb_attempt_count j))"

definition backlog :: "job_table \<Rightarrow> nat" where
  "backlog table = sum_list (map owed table)"

lemma put_job_absent: "jb_id j \<notin> jb_id ` set table \<Longrightarrow> put_job j table = table"
  by (induction table) (auto simp: put_job_def)

lemma backlog_put_job:
  assumes "distinct (map jb_id table)" "get_job table (jb_id j) = Some r"
  shows "backlog (put_job j table) + owed r = backlog table + owed j"
  using assms
proof (induction table)
  case (Cons x table)
  show ?case
  proof (cases "jb_id x = jb_id j")
    case True
    then have "put_job j (x # table) = j # table" "r = x"
      using Cons.prems put_job_absent [of j table] by (auto simp: put_job_def get_job_def)
    then show ?thesis by (simp add: backlog_def)
  next
    case False
    then show ?thesis
      using Cons by (simp add: backlog_def put_job_def get_job_def)
  qed
qed (simp add: get_job_def)

lemma backlog_le: "backlog table \<le> MAX_ATTEMPTS * length (filter (\<lambda>j. \<not> terminal (jb_status j)) table)"
proof (induction table)
  case (Cons j table)
  have "owed j \<le> (if terminal (jb_status j) then 0 else MAX_ATTEMPTS)"
    by (simp add: owed_def MAX_ATTEMPTS_def)
  then show ?case
    using Cons by (auto simp: backlog_def)
qed (simp add: backlog_def)

text \<open>
  A work transaction leaves its job terminal, or queued again with attempts to spare.
\<close>

lemma run_job_row:
  assumes "get_job (jobs st) i = Some j" "run_job L clock H F i ty st = (counted, st')"
  obtains x where "counted" "jobs st' = put_job x (jobs st)" "jb_id x = i" "jb_lease_owner x = None"
    "terminal (jb_status x) \<or>
     jb_status x = Queued \<and> jb_attempt_count x = jb_attempt_count j \<and> jb_attempt_count j < MAX_ATTEMPTS"
proof -
  have i: "jb_id j = i" using get_job_Some [OF assms(1)] by simp
  show ?thesis
    using assms(2) [unfolded run_job_def Let_def assms(1)]
    by (auto simp: fail_in_fresh_row_def assms(1) finish_job_def i intro: that
        split: option.splits prod.splits handler_result.splits if_splits)
qed

lemma iteration_progress:
  assumes ids: "distinct (map jb_id (jobs st))"
    and lease: "lease_next_job now w d {} (jobs st) = Some (j, table)"
    and run: "run_job L clock H F (jb_id j) ty (st\<lparr>jobs := table, clock_reads := n\<rparr>) = (counted, st')"
  shows "counted \<and> distinct (map jb_id (jobs st')) \<and> backlog (jobs st') < backlog (jobs st)"
proof -
  obtain c where c: "c \<in> set (jobs st)" "leasable now c"
    "j = c\<lparr>jb_status := Leased, jb_lease_owner := Some w, jb_lease_expires_at := Some (now + d),
           jb_attempt_count := jb_attempt_count c + 1\<rparr>"
    "table = put_job j (jobs st)"
    using lease by (rule lease_next_job_Some)
  have id: "jb_id c = jb_id j" and j: "jb_attempt_count j = jb_attempt_count c + 1" "jb_status j = Leased"
    by (simp_all add: c(3))
  have get: "get_job (jobs st) (jb_id j) = Some c"
    using get_job_in [OF ids c(1)] id by simp
  have got: "get_job table (jb_id j) = Some j"
    using get by (simp add: c(4) get_job_put_job)
  obtain x where x: "counted" "jobs st' = put_job x table" "jb_id x = jb_id j"
    "terminal (jb_status x) \<or> jb_status x = Queued \<and> jb_attempt_count x = jb_attempt_count j \<and> jb_attempt_count j < MAX_ATTEMPTS"
    using run_job_row [OF _ run] got by auto
  have "backlog table + owed c = backlog (jobs st) + owed j"
    using backlog_put_job [OF ids, of j c] get c(4) by simp
  moreover have "backlog (jobs st') + owed j = backlog table + owed x"
    using backlog_put_job [of table x j] ids got x(2,3) by (simp add: c(4))
  moreover have "owed x < owed c"
    using x(4) c(2) j by (auto simp: owed_def leasable_def)
  ultimately show ?thesis
    using ids x(1,2) by (simp add: c(4))
qed

lemma run_pending_jobs_returns:
  assumes "distinct (map jb_id (jobs st))"
  shows "\<exists>n st'. run_pending_jobs L clock H F w max_jobs executed st = Some (n, st') \<and>
    executed \<le> n \<and> n \<le> executed + int (backlog (jobs st)) \<and>
    ((case max_jobs of None \<Rightarrow> True | Some m \<Rightarrow> n < m) \<longrightarrow>
      (\<forall>j \<in> set (jobs st'). \<not> leasable (clock (clock_reads st' - 1)) j))"
  using assms
proof (induction "backlog (jobs st)" arbitrary: st executed rule: less_induct)
  case less
  show ?case
  proof (cases "case max_jobs of None \<Rightarrow> True | Some m \<Rightarrow> executed < m")
    case False
    then show ?thesis
      by (subst run_pending_jobs.simps) auto
  next
    case more: True
    show ?thesis
    proof (cases "lease_next_job (clock (clock_reads st)) w DEFAULT_LEASE {} (jobs st)")
      case None
      then show ?thesis
        using more lease_next_job_None_iff [of "clock (clock_reads st)" w DEFAULT_LEASE "{}" "jobs st"]
        by (subst run_pending_jobs.simps) simp
    next
      case (Some p)
      obtain j table where p: "p = (j, table)" by fastforce
      obtain counted st' where run: "run_job L clock H F (jb_id j) (jb_job_type j)
          (st\<lparr>jobs := table, clock_reads := clock_reads st + 1\<rparr>) = (counted, st')"
        by fastforce
      have step: "counted" "distinct (map jb_id (jobs st'))" "backlog (jobs st') < backlog (jobs st)"
        using iteration_progress [OF less.prems Some [unfolded p] run] by auto
      have "run_pending_jobs L clock H F w max_jobs executed st = run_pending_jobs L clock H F w max_jobs (executed + 1) st'"
        using more Some run step(1) by (subst run_pending_jobs.simps) (simp add: p)
      then show ?thesis
        using less.hyps [OF step(3,2), of "executed + 1"] step(3) by fastforce
    qed
  qed
qed

section \<open>Several workers and the API\<close>

text \<open>
  Between two committed transactions a worker is idle, holds the id of a job whose lease it
  committed, or is inside the work transaction of a job; from the flush of
  \<open>status = RUNNING\<close> on, that transaction holds the row lock and works on its own copy of
  the row (reading the row and locking it are one step). Handlers never commit, so the copy
  becomes visible only with the final commit. A locked row is skipped by the leasing query,
  and whoever else wants to write it waits, which is the absence of a step. A worker may die
  in any phase: its transaction is rolled back. Rows disappear with their workspace.
\<close>

datatype phase = Idle | Holding pystr | Working job

record queue =
  q_jobs :: job_table
  q_phase :: "pystr \<Rightarrow> phase"
  q_now :: int

definition locked_rows :: "queue \<Rightarrow> pystr set" where
  "locked_rows q = {i. \<exists>w j. q_phase q w = Working j \<and> jb_id j = i}"

inductive queue_step :: "queue \<Rightarrow> queue \<Rightarrow> bool" where
  tick: "q_now q \<le> t \<Longrightarrow> queue_step q (q\<lparr>q_now := t\<rparr>)"
| enqueue: "enqueue_job (q_now q) i ws ty p et ei (q_jobs q) = (j, table) \<Longrightarrow> i \<notin> jb_id ` set (q_jobs q) \<Longrightarrow>
    queue_step q (q\<lparr>q_jobs := table\<rparr>)"
| cancel: "get_job (q_jobs q) i = Some j \<Longrightarrow> i \<notin> locked_rows q \<Longrightarrow> request_cancel (q_now q) j = (out, j') \<Longrightarrow>
    queue_step q (q\<lparr>q_jobs := put_job j' (q_jobs q)\<rparr>)"
| remove: "i \<notin> locked_rows q \<Longrightarrow> queue_step q (q\<lparr>q_jobs := filter (\<lambda>j. jb_id j \<noteq> i) (q_jobs q)\<rparr>)"
| lease: "q_phase q w = Idle \<Longrightarrow>
    lease_next_job (q_now q) w DEFAULT_LEASE (locked_rows q) (q_jobs q) = Some (j, table) \<Longrightarrow>
    queue_step q (q\<lparr>q_jobs := table, q_phase := (q_phase q)(w := Holding (jb_id j))\<rparr>)"
| gone: "q_phase q w = Holding i \<Longrightarrow> get_job (q_jobs q) i = None \<Longrightarrow>
    queue_step q (q\<lparr>q_phase := (q_phase q)(w := Idle)\<rparr>)"
| no_handler: "q_phase q w = Holding i \<Longrightarrow> get_job (q_jobs q) i = Some j \<Longrightarrow> i \<notin> locked_rows q \<Longrightarrow>
    queue_step q (q\<lparr>q_jobs := put_job (finish_job (q_now q) Failed (Some msg) j) (q_jobs q), q_phase := (q_phase q)(w := Idle)\<rparr>)"
| start: "q_phase q w = Holding i \<Longrightarrow> get_job (q_jobs q) i = Some j \<Longrightarrow> i \<notin> locked_rows q \<Longrightarrow>
    queue_step q (q\<lparr>q_phase := (q_phase q)(w := Working (j\<lparr>jb_status := Running, jb_started_at := Some (q_now q)\<rparr>))\<rparr>)"
| returned: "q_phase q w = Working j \<Longrightarrow>
    queue_step q (q\<lparr>q_jobs := put_job (finish_job (q_now q) Completed None j) (q_jobs q), q_phase := (q_phase q)(w := Idle)\<rparr>)"
| cancelled: "q_phase q w = Working j \<Longrightarrow> check_cancellation (q_jobs q) (jb_id j) \<Longrightarrow> get_job (q_jobs q) (jb_id j) = Some r \<Longrightarrow>
    queue_step q (q\<lparr>q_jobs := put_job (finish_job (q_now q) Cancelled None r) (q_jobs q), q_phase := (q_phase q)(w := Idle)\<rparr>)"
| failed: "q_phase q w = Working j \<Longrightarrow>
    queue_step q (q\<lparr>q_jobs := fail_in_fresh_row (q_now q) (jb_id j) msg retry (q_jobs q), q_phase := (q_phase q)(w := Idle)\<rparr>)"
| crash: "queue_step q (q\<lparr>q_phase := (q_phase q)(w := Idle)\<rparr>)"

inductive_cases queue_stepE: "queue_step q q'"

definition empty_queue :: "int \<Rightarrow> queue" where
  "empty_queue t = \<lparr>q_jobs = [], q_phase = (\<lambda>w. Idle), q_now = t\<rparr>"

abbreviation reachable :: "queue \<Rightarrow> bool" where
  "reachable q \<equiv> \<exists>t. queue_step\<^sup>*\<^sup>* (empty_queue t) q"

text \<open>
  The committed table: a lease belongs to exactly the leased rows, and no other transaction
  ever sees a row in state \<open>RUNNING\<close>.
\<close>

definition row_ok :: "job \<Rightarrow> bool" where
  "row_ok j \<longleftrightarrow> jb_status j \<noteq> Running \<and>
     (if jb_status j = Leased then jb_lease_owner j \<noteq> None \<and> jb_lease_expires_at j \<noteq> None \<and> 0 < jb_attempt_count j
      else jb_lease_owner j = None \<and> jb_lease_expires_at j = None)"

definition copy_ok :: "job_table \<Rightarrow> job \<Rightarrow> bool" where
  "copy_ok table j \<longleftrightarrow> (\<exists>r t. get_job table (jb_id j) = Some r \<and> j = r\<lparr>jb_status := Running, jb_started_at := Some t\<rparr>)"

definition queue_inv :: "queue \<Rightarrow> bool" where
  "queue_inv q \<longleftrightarrow> distinct (map jb_id (q_jobs q)) \<and> (\<forall>j \<in> set (q_jobs q). row_ok j) \<and>
     (\<forall>w j. q_phase q w = Working j \<longrightarrow> copy_ok (q_jobs q) j) \<and>
     (\<forall>w w' j j'. q_phase q w = Working j \<longrightarrow> q_phase q w' = Working j' \<longrightarrow> jb_id j = jb_id j' \<longrightarrow> w = w')"

lemma row_ok_put_job: "\<forall>r \<in> set table. row_ok r \<Longrightarrow> row_ok j \<Longrightarrow> \<forall>r \<in> set (put_job j table). row_ok r"
  by (auto dest: in_put_job)

lemma row_ok_finish_job [simp]: "terminal s \<Longrightarrow> row_ok (finish_job now s e j)"
  by (auto simp: row_ok_def finish_job_def)

lemma copy_ok_other: "copy_ok table j \<Longrightarrow> jb_id j \<noteq> jb_id r \<Longrightarrow> copy_ok (put_job r table) j"
  by (auto simp: copy_ok_def get_job_put_job)

lemma jb_id_finish_job [simp]: "jb_id (finish_job now s e j) = jb_id j"
  by (simp add: finish_job_def)

lemma queue_invI:
  assumes "distinct (map jb_id (q_jobs q))" "\<And>j. j \<in> set (q_jobs q) \<Longrightarrow> row_ok j"
    and "\<And>w j. q_phase q w = Working j \<Longrightarrow> copy_ok (q_jobs q) j"
    and "\<And>w w' j j'. q_phase q w = Working j \<Longrightarrow> q_phase q w' = Working j' \<Longrightarrow> jb_id j = jb_id j' \<Longrightarrow> w = w'"
  shows "queue_inv q"
  using assms unfolding queue_inv_def by blast

lemma queue_invD:
  assumes "queue_inv q"
  shows "distinct (map jb_id (q_jobs q))" "\<And>j. j \<in> set (q_jobs q) \<Longrightarrow> row_ok j"
    "\<And>w j. q_phase q w = Working j \<Longrightarrow> copy_ok (q_jobs q) j"
    "\<And>w w' j j'. q_phase q w = Working j \<Longrightarrow> q_phase q w' = Working j' \<Longrightarrow> jb_id j = jb_id j' \<Longrightarrow> w = w'"
  using assms unfolding queue_inv_def by blast+

lemma inv_write:
  assumes inv: "queue_inv q" and r: "row_ok r" and jobs: "q_jobs q' = put_job r (q_jobs q)"
    and kept: "\<And>w j. q_phase q' w = Working j \<Longrightarrow> q_phase q w = Working j \<and> jb_id j \<noteq> jb_id r"
  shows "queue_inv q'"
proof (rule queue_invI)
  show "distinct (map jb_id (q_jobs q'))" using queue_invD(1) [OF inv] by (simp add: jobs)
  show "row_ok j" if "j \<in> set (q_jobs q')" for j
    using row_ok_put_job [of "q_jobs q" r] queue_invD(2) [OF inv] r that by (auto simp: jobs)
  show "copy_ok (q_jobs q') j" if "q_phase q' w = Working j" for w j
    using kept [OF that] queue_invD(3) [OF inv] by (auto simp: jobs copy_ok_other)
  show "w = w'" if "q_phase q' w = Working j" "q_phase q' w' = Working j'" "jb_id j = jb_id j'" for w w' j j'
    using kept [OF that(1)] kept [OF that(2)] queue_invD(4) [OF inv] that(3) by blast
qed

lemma working_row:
  assumes "queue_inv q" "q_phase q w = Working j"
  obtains r t where "get_job (q_jobs q) (jb_id j) = Some r" "j = r\<lparr>jb_status := Running, jb_started_at := Some t\<rparr>"
  using assms unfolding queue_inv_def copy_ok_def by blast

lemma working_exclusive:
  assumes "queue_inv q" "q_phase q w = Working j" "q_phase q w' = Working j'" "w' \<noteq> w"
  shows "jb_id j' \<noteq> jb_id j"
  using assms unfolding queue_inv_def by metis

lemma fail_in_fresh_row_put:
  assumes "get_job table i = Some r"
  obtains x where "fail_in_fresh_row now i e retry table = put_job x table" "jb_id x = i" "row_ok x"
    "terminal (jb_status x) \<or> jb_status x = Queued"
proof -
  have "jb_id r = i" using get_job_Some [OF assms] by simp
  then show ?thesis
    using that assms by (cases "retry \<and> jb_attempt_count r < MAX_ATTEMPTS") (auto simp: fail_in_fresh_row_def row_ok_def finish_job_def)
qed

lemma get_job_filter: "i \<noteq> k \<Longrightarrow> get_job (filter (\<lambda>j. jb_id j \<noteq> k) table) i = get_job table i"
  by (induction table) (auto simp: get_job_def)

lemma get_job_snoc: "jb_id j \<notin> jb_id ` set table \<Longrightarrow> get_job table i = Some r \<Longrightarrow> get_job (table @ [j]) i = Some r"
  by (induction table) (auto simp: get_job_def split: if_splits)

lemma queue_step_inv:
  assumes "queue_step q q'" "queue_inv q"
  shows "queue_inv q'"
  using assms(1)
proof cases
  case (enqueue i ws ty p et ei j table)
  then have j: "q_jobs q' = q_jobs q @ [j]" "jb_id j = i" "row_ok j" "q_phase q' = q_phase q"
    by (auto simp: enqueue_job_def Let_def row_ok_def)
  show ?thesis
  proof (rule queue_invI)
    show "copy_ok (q_jobs q') x" if "q_phase q' w = Working x" for w x
      using queue_invD(3) [OF assms(2), of w x] that j enqueue(3) by (auto simp: copy_ok_def intro: get_job_snoc)
    show "w = w'" if "q_phase q' w = Working x" "q_phase q' w' = Working x'" "jb_id x = jb_id x'" for w w' x x'
      using queue_invD(4) [OF assms(2)] that j(4) by simp
  qed (use queue_invD(1,2) [OF assms(2)] j enqueue(3) in auto)
next
  case (cancel i j out j')
  have "row_ok j" "jb_id j = i"
    using assms(2) get_job_Some [OF cancel(2)] unfolding queue_inv_def by auto
  then have "row_ok j'" "jb_id j' = i"
    using cancel(4) by (auto simp: request_cancel_def row_ok_def split: if_splits)
  then show ?thesis
    using cancel(3) by (intro inv_write [OF assms(2), of j']) (auto simp: cancel(1) locked_rows_def)
next
  case (remove i)
  then show ?thesis
    using assms(2) unfolding queue_inv_def copy_ok_def locked_rows_def
    by (auto simp: get_job_filter distinct_map inj_on_def)
next
  case (lease w j table)
  obtain c where c: "jb_id c \<notin> locked_rows q"
    "j = c\<lparr>jb_status := Leased, jb_lease_owner := Some w, jb_lease_expires_at := Some (q_now q + DEFAULT_LEASE),
           jb_attempt_count := jb_attempt_count c + 1\<rparr>" "table = put_job j (q_jobs q)"
    using lease(3) by (rule lease_next_job_Some)
  then have "row_ok j" by (simp add: row_ok_def)
  then show ?thesis
    using c by (intro inv_write [OF assms(2), of j]) (auto simp: lease(1) locked_rows_def split: if_splits)
next
  case (no_handler w i j msg)
  then show ?thesis
    using get_job_Some [OF no_handler(3)] by (intro inv_write [OF assms(2)]) (auto simp: locked_rows_def split: if_splits)
next
  case (start w i j)
  let ?copy = "j\<lparr>jb_status := Running, jb_started_at := Some (q_now q)\<rparr>"
  have i: "jb_id j = i" using get_job_Some [OF start(3)] by simp
  have other: "jb_id j' \<noteq> i" if "q_phase q w' = Working j'" for w' j'
    using start(4) that by (auto simp: locked_rows_def)
  show ?thesis
  proof (rule queue_invI)
    show "copy_ok (q_jobs q') j'" if "q_phase q' w' = Working j'" for w' j'
      using that queue_invD(3) [OF assms(2)] start(3) i by (auto simp: start(1) copy_ok_def split: if_splits)
    show "w1 = w2" if "q_phase q' w1 = Working j1" "q_phase q' w2 = Working j2" "jb_id j1 = jb_id j2" for w1 w2 j1 j2
      using that i queue_invD(4) [OF assms(2)] by (auto simp: start(1) dest: other split: if_splits)
  qed (use queue_invD(1,2) [OF assms(2)] in \<open>simp_all add: start(1)\<close>)
next
  case (returned w j)
  then show ?thesis
    using working_exclusive [OF assms(2) returned(2)] by (intro inv_write [OF assms(2)]) (auto split: if_splits)
next
  case (cancelled w j r)
  then show ?thesis
    using working_exclusive [OF assms(2) cancelled(2)] get_job_Some [OF cancelled(4)]
    by (intro inv_write [OF assms(2)]) (auto split: if_splits)
next
  case (failed w j msg retry)
  obtain r where "get_job (q_jobs q) (jb_id j) = Some r"
    using working_row [OF assms(2) failed(2)] by blast
  then obtain x where "fail_in_fresh_row (q_now q) (jb_id j) msg retry (q_jobs q) = put_job x (q_jobs q)" "jb_id x = jb_id j" "row_ok x"
    by (rule fail_in_fresh_row_put)
  then show ?thesis
    using working_exclusive [OF assms(2) failed(2)] by (intro inv_write [OF assms(2), of x]) (auto simp: failed(1) split: if_splits)
qed (use assms(2) in \<open>auto simp: queue_inv_def split: if_splits\<close>)

lemma reachable_inv:
  assumes "queue_step\<^sup>*\<^sup>* (empty_queue t) q"
  shows "queue_inv q"
  using assms
proof induction
  case base
  then show ?case by (simp add: queue_inv_def empty_queue_def)
qed (rule queue_step_inv)

section \<open>Properties\<close>

definition sample_job :: job where
  "sample_job = fst (enqueue_job 0 (py ''j1'') (py ''w'') (py ''scan'') None None None [])"

text \<open>
  C36. The worker loop ends and drains the queue, whatever the handlers do and however the clock
  runs: without a job limit \<open>run_pending_jobs\<close> returns, after at most \<open>MAX_ATTEMPTS\<close>
  executions per unfinished job, in a state without queued jobs and without leases that had
  expired at its last look.
\<close>

theorem run_pending_jobs_drains:
  assumes "distinct (map jb_id (jobs st))"
  shows "\<exists>n st'. run_pending_jobs L clock H F w None 0 st = Some (n, st') \<and>
    0 \<le> n \<and> n \<le> int (MAX_ATTEMPTS * length (filter (\<lambda>j. \<not> terminal (jb_status j)) (jobs st))) \<and>
    list_all (\<lambda>j. jb_status j \<noteq> Queued \<and> \<not> leasable (clock (clock_reads st' - 1)) j) (jobs st')"
proof -
  obtain n st' where r: "run_pending_jobs L clock H F w None 0 st = Some (n, st')" "0 \<le> n" "n \<le> int (backlog (jobs st))"
    "\<forall>j \<in> set (jobs st'). \<not> leasable (clock (clock_reads st' - 1)) j"
    using run_pending_jobs_returns [OF assms, of L clock H F w None 0] by auto
  then have "list_all (\<lambda>j. jb_status j \<noteq> Queued \<and> \<not> leasable (clock (clock_reads st' - 1)) j) (jobs st')"
    by (auto simp: list_all_iff leasable_def)
  moreover have "n \<le> int (MAX_ATTEMPTS * length (filter (\<lambda>j. \<not> terminal (jb_status j)) (jobs st)))"
    using r(3) backlog_le [of "jobs st"] by (meson of_nat_mono order_trans)
  ultimately show ?thesis
    using r(1,2) by blast
qed

theorem run_pending_jobs_drains_witness:
  "\<exists>n st'. run_pending_jobs sample_platform (\<lambda>i. int i) (\<lambda>ty. Some (\<lambda>d j. (HandlerRaised (py ''boom''), d))) (\<lambda>ty. None) (py ''w'') None 0
      \<lparr>jobs = [sample_job], entities = (), clock_reads = 0\<rparr> = Some (n, st') \<and> 0 \<le> n \<and> n \<le> 3 \<and>
    list_all (\<lambda>j. jb_status j \<noteq> Queued) (jobs st')"
  using run_pending_jobs_drains [of "\<lparr>jobs = [sample_job], entities = (), clock_reads = 0\<rparr>" sample_platform "\<lambda>i. int i"
      "\<lambda>ty. Some (\<lambda>d j. (HandlerRaised (py ''boom''), d))" "\<lambda>ty. None" "py ''w''"]
  by (auto simp: sample_job_def enqueue_job_def Let_def MAX_ATTEMPTS_def list_all_iff)

text \<open>
  A job and what its handler wrote settle together: a handler that returns keeps its writes
  and completes the job; one that raises leaves the rest of the database as it was, and the
  job is cancelled (with its finalizer applied), failed for good, or, for a retryable error
  with fewer than \<open>MAX_ATTEMPTS\<close> attempts, queued again; in every case the lease is released.
\<close>

theorem run_job_atomic:
  assumes "get_job (jobs st) i = Some j" "H ty = Some h"
  shows "let st' = snd (run_job L clock H F i ty st); j' = the (get_job (jobs st') i);
             (r, written) = h (entities st) (j\<lparr>jb_status := Running, jb_started_at := Some (clock (clock_reads st))\<rparr>)
    in jb_lease_owner j' = None \<and> jb_lease_expires_at j' = None \<and> jb_attempt_count j' = jb_attempt_count j \<and>
       (case r of
          HandlerReturned \<Rightarrow> jb_status j' = Completed \<and> entities st' = written
        | HandlerCancelled \<Rightarrow> jb_status j' = Cancelled \<and>
            entities st' = (case F ty of None \<Rightarrow> entities st | Some f \<Rightarrow> f (entities st) j')
        | HandlerPermanent e \<Rightarrow> jb_status j' = Failed \<and> entities st' = entities st
        | HandlerRaised e \<Rightarrow> jb_status j' = (if jb_attempt_count j < 3 then Queued else Failed) \<and> entities st' = entities st)"
proof -
  have "jb_id j = i" using get_job_Some [OF assms(1)] by simp
  then show ?thesis
    using assms by (auto simp: run_job_def Let_def get_job_put_job fail_in_fresh_row_def finish_job_def MAX_ATTEMPTS_def
        split: prod.splits handler_result.splits option.splits)
qed

theorem run_job_atomic_witness:
  "jb_status (the (get_job (jobs (snd (run_job sample_platform (\<lambda>i. 7) (\<lambda>ty. Some (\<lambda>d j. (HandlerRaised (py ''boom''), d + 1))) (\<lambda>ty. None)
      (py ''j1'') (py ''scan'') \<lparr>jobs = [sample_job], entities = 0 :: nat, clock_reads = 0\<rparr>))) (py ''j1''))) = Queued"
  using run_job_atomic [of "\<lparr>jobs = [sample_job], entities = 0 :: nat, clock_reads = 0\<rparr>" "py ''j1''" sample_job
      "\<lambda>ty. Some (\<lambda>d j. (HandlerRaised (py ''boom''), d + 1))" "py ''scan''" _ sample_platform "\<lambda>i. 7" "\<lambda>ty. None"]
  by (simp add: get_job_def sample_job_def enqueue_job_def Let_def)

lemma if_Working [simp]:
  "(if c then Holding i else p) = Working j \<longleftrightarrow> \<not> c \<and> p = Working j"
  "(if c then Idle else p) = Working j \<longleftrightarrow> \<not> c \<and> p = Working j"
  by simp_all

text \<open>
  A run: the worker \<open>w1\<close> leases a job and stalls; when its lease has lapsed, \<open>w2\<close> leases
  the job and starts it.
\<close>

definition sample_late :: int where
  "sample_late = DEFAULT_LEASE + 1"

definition sample_leased :: "string \<Rightarrow> int \<Rightarrow> nat \<Rightarrow> job" where
  "sample_leased w t n = sample_job\<lparr>jb_status := Leased, jb_lease_owner := Some (py w), jb_lease_expires_at := Some (t + DEFAULT_LEASE),
     jb_attempt_count := n\<rparr>"

definition sample_running :: job where
  "sample_running = (sample_leased ''w2'' sample_late 2)\<lparr>jb_status := Running, jb_started_at := Some sample_late\<rparr>"

definition sample_holding :: "pystr \<Rightarrow> phase" where
  "sample_holding = (\<lambda>w. Idle)(py ''w1'' := Holding (py ''j1''))"

definition sample_queue :: queue where
  "sample_queue = \<lparr>q_jobs = [sample_leased ''w2'' sample_late 2], q_phase = sample_holding(py ''w2'' := Working sample_running),
     q_now = sample_late\<rparr>"

lemmas queue_sample_defs = sample_job_def enqueue_job_def Let_def get_job_def put_job_def lease_next_job_def leasable_def locked_rows_def
  DEFAULT_LEASE_def finish_job_def numeral_2_eq_2 sample_late_def sample_leased_def sample_running_def sample_holding_def

lemma sample_reachable: "queue_step\<^sup>*\<^sup>* (empty_queue 0) sample_queue"
proof -
  let ?q = "\<lambda>j p t. \<lparr>q_jobs = [j], q_phase = p, q_now = t\<rparr>"
  let ?p2 = "sample_holding(py ''w2'' := Holding (py ''j1''))"
  note [trans] = rtranclp.rtrancl_into_rtrancl [of queue_step]
  have "queue_step\<^sup>*\<^sup>* (empty_queue 0) (?q sample_job (\<lambda>w. Idle) 0)"
    using queue_step.enqueue [of "empty_queue 0" "py ''j1''" "py ''w''" "py ''scan''" None None None]
    by (simp add: empty_queue_def queue_sample_defs)
  also have "queue_step (?q sample_job (\<lambda>w. Idle) 0) (?q (sample_leased ''w1'' 0 1) sample_holding 0)"
    using queue_step.lease [of "?q sample_job (\<lambda>w. Idle) 0" "py ''w1''"] by (simp add: queue_sample_defs)
  also have "queue_step (?q (sample_leased ''w1'' 0 1) sample_holding 0) (?q (sample_leased ''w1'' 0 1) sample_holding sample_late)"
    using queue_step.tick [of "?q (sample_leased ''w1'' 0 1) sample_holding 0" sample_late] by (simp add: queue_sample_defs)
  also have "queue_step (?q (sample_leased ''w1'' 0 1) sample_holding sample_late) (?q (sample_leased ''w2'' sample_late 2) ?p2 sample_late)"
    using queue_step.lease [of "?q (sample_leased ''w1'' 0 1) sample_holding sample_late" "py ''w2''"] by (simp add: queue_sample_defs)
  also have "queue_step (?q (sample_leased ''w2'' sample_late 2) ?p2 sample_late) sample_queue"
    using queue_step.start [of "?q (sample_leased ''w2'' sample_late 2) ?p2 sample_late" "py ''w2''" "py ''j1''"]
    by (simp add: sample_queue_def queue_sample_defs)
  finally show ?thesis .
qed

text \<open>
  C37. Concurrent workers never run the same job at the same time, every committed lease belongs to
  a leased row with its owner, expiry and attempt, and the state \<open>RUNNING\<close> is never visible
  outside the transaction that runs the job.
\<close>

theorem queue_safety:
  assumes "reachable q"
  shows "distinct (map jb_id (q_jobs q)) \<and> list_all row_ok (q_jobs q) \<and>
    (\<forall>w w' j j'. q_phase q w = Working j \<and> q_phase q w' = Working j' \<and> jb_id j = jb_id j' \<longrightarrow> w = w')"
  using assms reachable_inv by (auto simp: queue_inv_def list_all_iff)

theorem queue_safety_witness:
  "row_ok (sample_leased ''w2'' sample_late 2) \<and>
   (\<forall>w. (\<exists>j. q_phase sample_queue w = Working j \<and> jb_id j = py ''j1'') = (w = py ''w2''))"
proof -
  have "q_phase sample_queue (py ''w2'') = Working sample_running" "jb_id sample_running = py ''j1''"
    "set (q_jobs sample_queue) = {sample_leased ''w2'' sample_late 2}"
    by (simp_all add: sample_queue_def sample_running_def sample_leased_def sample_job_def enqueue_job_def Let_def)
  moreover have "reachable sample_queue" using sample_reachable by blast
  note queue_safety [OF this]
  ultimately show ?thesis by (simp add: list_all_iff) metis
qed

text \<open>
  Cooperative cancellation cannot reach a running handler: as long as a worker stays inside a
  work transaction, whatever the API and other workers do, the job's row does not change, so
  \<open>check_cancellation\<close> keeps answering what it answered when the handler started.
\<close>

theorem running_row_frozen:
  assumes "reachable q" "queue_step q q'" "q_phase q w = Working j" "q_phase q' w = Working j'"
  shows "j' = j \<and> get_job (q_jobs q') (jb_id j) = get_job (q_jobs q) (jb_id j) \<and>
    check_cancellation (q_jobs q') (jb_id j) = check_cancellation (q_jobs q) (jb_id j)"
proof -
  have inv: "queue_inv q" using assms(1) reachable_inv by blast
  obtain r where r: "get_job (q_jobs q) (jb_id j) = Some r" using working_row [OF inv assms(3)] by blast
  have lock: "i \<noteq> jb_id j" if "i \<notin> locked_rows q" for i using assms(3) that by (auto simp: locked_rows_def)
  have other: "jb_id k \<noteq> jb_id j" if "q_phase q v = Working k" "v \<noteq> w" for v k
    using working_exclusive [OF inv assms(3) that] by simp
  have "j' = j \<and> get_job (q_jobs q') (jb_id j) = get_job (q_jobs q) (jb_id j)"
    using assms(2)
  proof cases
    case (enqueue i ws ty p et ei k table)
    then show ?thesis
      using assms(3,4) r by (auto simp: enqueue_job_def Let_def get_job_snoc)
  next
    case (cancel i k out k')
    then have "jb_id k' = i" using get_job_Some [OF cancel(2)] by (auto simp: request_cancel_def split: if_splits)
    then show ?thesis using cancel assms(3,4) lock [of i] by (auto simp: get_job_put_job)
  next
    case (remove i)
    then show ?thesis using assms(3,4) lock [of i] by (auto simp: get_job_filter)
  next
    case (lease v k table)
    obtain c where "jb_id c \<notin> locked_rows q" "table = put_job k (q_jobs q)"
      "k = c\<lparr>jb_status := Leased, jb_lease_owner := Some v, jb_lease_expires_at := Some (q_now q + DEFAULT_LEASE),
             jb_attempt_count := jb_attempt_count c + 1\<rparr>"
      using lease(3) by (rule lease_next_job_Some)
    then show ?thesis using lease assms(3,4) lock [of "jb_id c"] by (auto simp: get_job_put_job split: if_splits)
  next
    case (no_handler v i k msg)
    then show ?thesis
      using assms(3,4) lock [of i] get_job_Some [OF no_handler(3)] by (auto simp: get_job_put_job split: if_splits)
  next
    case (returned v k)
    then show ?thesis using assms(3,4) other [of v k] by (auto simp: get_job_put_job split: if_splits)
  next
    case (cancelled v k x)
    then show ?thesis
      using assms(3,4) other [of v k] get_job_Some [OF cancelled(4)] by (auto simp: get_job_put_job split: if_splits)
  next
    case (failed v k msg retry)
    obtain y where y: "get_job (q_jobs q) (jb_id k) = Some y" using working_row [OF inv failed(2)] by blast
    obtain x where "fail_in_fresh_row (q_now q) (jb_id k) msg retry (q_jobs q) = put_job x (q_jobs q)" "jb_id x = jb_id k"
      using y by (rule fail_in_fresh_row_put)
    then show ?thesis
      using assms(3,4) other [of v k] failed(1,2) by (auto simp: get_job_put_job split: if_splits)
  qed (use assms(3,4) in \<open>auto split: if_splits\<close>)
  then show ?thesis by (simp add: check_cancellation_def)
qed

theorem running_row_frozen_witness:
  "get_job (q_jobs (sample_queue\<lparr>q_now := sample_late + 5\<rparr>)) (jb_id sample_running) = get_job (q_jobs sample_queue) (jb_id sample_running)"
proof -
  have "queue_step sample_queue (sample_queue\<lparr>q_now := sample_late + 5\<rparr>)"
    by (rule queue_step.tick) (simp add: sample_queue_def)
  then show ?thesis
    using running_row_frozen [of sample_queue "sample_queue\<lparr>q_now := sample_late + 5\<rparr>" "py ''w2''" sample_running sample_running] sample_reachable
    by (auto simp: sample_queue_def)
qed


text \<open>
  C38. A lease is not re-checked when its worker comes back: there is a run in which a worker that
  was stalled past its lease executes a job that another worker has already completed.
\<close>

theorem stale_worker_reruns_completed_job:
  "\<exists>q w j r. reachable q \<and> q_phase q w = Working j \<and> get_job (q_jobs q) (jb_id j) = Some r \<and> jb_status r = Completed"
proof -
  let ?over = "finish_job sample_late Completed None sample_running"
  let ?again = "?over\<lparr>jb_status := Running, jb_started_at := Some sample_late\<rparr>"
  let ?p = "sample_holding(py ''w2'' := Idle)"
  let ?finished = "\<lparr>q_jobs = [?over], q_phase = ?p, q_now = sample_late\<rparr>"
  let ?stale = "?finished\<lparr>q_phase := ?p(py ''w1'' := Working ?again)\<rparr>"
  note [trans] = rtranclp.rtrancl_into_rtrancl [of queue_step]
  have "queue_step\<^sup>*\<^sup>* (empty_queue 0) sample_queue" by (rule sample_reachable)
  also have "queue_step sample_queue ?finished"
    using queue_step.returned [of sample_queue "py ''w2''" sample_running] by (simp add: sample_queue_def queue_sample_defs)
  also have "queue_step ?finished ?stale"
    using queue_step.start [of ?finished "py ''w1''" "py ''j1''"] by (simp add: queue_sample_defs)
  finally have "reachable ?stale" by blast
  moreover have "q_phase ?stale (py ''w1'') = Working ?again" by simp
  moreover have "get_job (q_jobs ?stale) (jb_id ?again) = Some ?over" by (simp add: get_job_def)
  moreover have "jb_status ?over = Completed" by (simp add: finish_job_def)
  ultimately show ?thesis by blast
qed

end
