(* ===== verification/Py_Url.thy ===== *)
theory Py_Url
  imports Py_Regex "HOL-Library.Word"
begin

text \<open>
  What the source uses of the standard library for endpoints: \<open>urllib.parse.urlsplit\<close> with the
  attributes of its result, and of \<open>ipaddress\<close> the two address types, networks, and the special
  ranges of IANA's registries (as CPython 3.11 and 3.12 ship them). A \<open>ValueError\<close> is \<open>None\<close>.
  The NFKC form that \<open>urlsplit\<close> compares a non-ASCII network location with is a parameter.
\<close>

unbundle bit_operations_syntax

section \<open>Strings\<close>

text \<open>\<open>s.split(c)\<close>, \<open>s.rpartition(c)[2]\<close>, \<open>s.replace(c, "")\<close>.\<close>

fun split_char :: "'a \<Rightarrow> 'a list \<Rightarrow> 'a list list" where
  "split_char c [] = [[]]"
| "split_char c (x # xs) =
     (if x = c then [] # split_char c xs
      else (case split_char c xs of [] \<Rightarrow> [[x]] | p # ps \<Rightarrow> (x # p) # ps))"

lemma split_char_not_Nil [simp]: "split_char c xs \<noteq> []"
  by (induction xs) (simp_all split: list.splits)

lemma join_split_char: "join [c] (split_char c xs) = xs"
proof (induction xs)
  case (Cons x xs)
  obtain p ps where "split_char c xs = p # ps" by (cases "split_char c xs") simp_all
  then show ?case using Cons by (cases ps) auto
qed simp

definition after_last :: "'a \<Rightarrow> 'a list \<Rightarrow> 'a list" where
  "after_last c s = rev (takeWhile (\<lambda>x. x \<noteq> c) (rev s))"

definition is_ascii :: "pystr \<Rightarrow> bool" where
  "is_ascii s \<longleftrightarrow> list_all (\<lambda>c. c < 128) s"

definition is_letter :: "codepoint \<Rightarrow> bool" where
  "is_letter c \<longleftrightarrow> (65 \<le> c \<and> c \<le> 90) \<or> (97 \<le> c \<and> c \<le> 122)"

definition all_digits :: "pystr \<Rightarrow> bool" where
  "all_digits s \<longleftrightarrow> s \<noteq> [] \<and> list_all is_digit s"

section \<open>Addresses\<close>

datatype ip_address = V4 "32 word" | V6 "128 word" "pystr option"

definition parse_octet :: "pystr \<Rightarrow> nat option" where
  "parse_octet s =
     (if \<not> all_digits s \<or> 3 < length s \<or> (s \<noteq> [48] \<and> hd s = 48) \<or> 255 < read_digits 0 s then None
      else Some (read_digits 0 s))"

definition parse_v4 :: "pystr \<Rightarrow> 32 word option" where
  "parse_v4 s =
     (case map parse_octet (split_char 46 s) of
        [Some a, Some b, Some c, Some d] \<Rightarrow> Some (of_nat (((a * 256 + b) * 256 + c) * 256 + d))
      | _ \<Rightarrow> None)"

definition hex_char :: "codepoint \<Rightarrow> nat option" where
  "hex_char c =
     (if is_digit c then Some (c - 48)
      else if 97 \<le> c \<and> c \<le> 102 then Some (c - 87)
      else if 65 \<le> c \<and> c \<le> 70 then Some (c - 55) else None)"

definition parse_hextet :: "pystr \<Rightarrow> nat option" where
  "parse_hextet s =
     (if s = [] \<or> 4 < length s \<or> list_ex (\<lambda>c. hex_char c = None) s then None
      else Some (foldl (\<lambda>n c. n * 16 + the (hex_char c)) 0 s))"

text \<open>The value of the hextets, or \<open>None\<close> when one of them is malformed.\<close>

definition hextets_value :: "pystr list \<Rightarrow> nat option list \<Rightarrow> 128 word option" where
  "hextets_value hi lo =
     (let hs = map parse_hextet hi @ lo in
      if list_ex (\<lambda>h. h = None) hs then None else Some (of_nat (foldl (\<lambda>n h. n * 65536 + the h) 0 hs)))"

text \<open>
  \<open>_ip_int_from_string\<close> of \<open>IPv6Address\<close> once the parts are known: at most one \<open>::\<close>, which
  stands for the missing hextets.
\<close>

definition v6_of_parts :: "pystr list \<Rightarrow> 128 word option" where
  "v6_of_parts parts =
     (let n = length parts in
      if n > 9 then None
      else (case filter (\<lambda>i. parts ! i = []) [1..<n - 1] of
              [] \<Rightarrow> if n \<noteq> 8 \<or> hd parts = [] \<or> last parts = [] then None else hextets_value parts []
            | [i] \<Rightarrow>
                (let hi = (if hd parts = [] then i - 1 else i);
                     lo = (if last parts = [] then n - i - 2 else n - i - 1)
                 in if (hd parts = [] \<and> hi \<noteq> 0) \<or> (last parts = [] \<and> lo \<noteq> 0) \<or> 8 - (hi + lo) < 1 then None
                    else hextets_value (take hi parts)
                           (replicate (8 - (hi + lo)) (Some 0) @ map parse_hextet (drop (n - lo) parts)))
            | _ \<Rightarrow> None))"

definition show_hex :: "nat \<Rightarrow> pystr" where
  "show_hex n =
     (let ds = map (\<lambda>k. hex_digit (n div 16 ^ k mod 16)) [3, 2, 1, 0]; s = dropWhile (\<lambda>c. c = 48) ds in if s = [] then [48] else s)"

definition parse_v6 :: "pystr \<Rightarrow> 128 word option" where
  "parse_v6 s =
     (let parts = split_char 58 s in
      if s = [] \<or> length parts < 3 then None
      else if 46 \<in> set (last parts)
      then (case parse_v4 (last parts) of
              None \<Rightarrow> None
            | Some w \<Rightarrow> v6_of_parts (butlast parts @ [show_hex (unat w div 65536), show_hex (unat w mod 65536)]))
      else v6_of_parts parts)"

text \<open>\<open>ip_address(s)\<close>.\<close>

definition parse_address :: "pystr \<Rightarrow> ip_address option" where
  "parse_address s =
     (if 47 \<in> set s then None
      else (case parse_v4 s of
              Some w \<Rightarrow> Some (V4 w)
            | None \<Rightarrow>
                (case partition_at 37 s of
                   (addr, scoped, scope_id) \<Rightarrow>
                     if scoped \<and> (scope_id = [] \<or> 37 \<in> set scope_id) then None
                     else map_option (\<lambda>w. V6 w (if scoped then Some scope_id else None)) (parse_v6 addr))))"

text \<open>\<open>str\<close> of an address; the longest run of zero hextets, the first of equals, is compressed.\<close>

definition show_v4 :: "32 word \<Rightarrow> pystr" where
  "show_v4 w = join [46] (map (\<lambda>k. show_nat (unat w div 256 ^ k mod 256)) [3, 2, 1, 0])"

definition zero_run :: "pystr list \<Rightarrow> nat \<Rightarrow> nat" where
  "zero_run hs i = length (takeWhile (\<lambda>h. h = [48]) (drop i hs))"

definition longest_run :: "pystr list \<Rightarrow> nat \<times> nat" where
  "longest_run hs =
     foldl (\<lambda>best i. if snd best < zero_run hs i then (i, zero_run hs i) else best) (0, 0) [0..<length hs]"

definition compress_hextets :: "pystr list \<Rightarrow> pystr list" where
  "compress_hextets hs =
     (case longest_run hs of
        (start, len) \<Rightarrow>
          if len \<le> 1 then hs
          else (if start = 0 then [[]] else []) @ take start hs @ [[]] @ drop (start + len) hs
               @ (if start + len = length hs then [[]] else []))"

definition show_v6 :: "128 word \<Rightarrow> pystr" where
  "show_v6 w = join [58] (compress_hextets (map (\<lambda>k. show_hex (unat w div 65536 ^ k mod 65536)) [7, 6, 5, 4, 3, 2, 1, 0]))"

primrec show_address :: "ip_address \<Rightarrow> pystr" where
  "show_address (V4 w) = show_v4 w"
| "show_address (V6 w scope_id) = show_v6 w @ (if truthy scope_id then 37 # the scope_id else [])"

section \<open>Networks\<close>

datatype ip_network = N4 "32 word" nat | N6 "128 word" nat

definition netmask4 :: "nat \<Rightarrow> 32 word" where
  "netmask4 p = push_bit (32 - p) (- 1)"

definition netmask6 :: "nat \<Rightarrow> 128 word" where
  "netmask6 p = push_bit (128 - p) (- 1)"

text \<open>\<open>address in network\<close>.\<close>

fun in_network :: "ip_address \<Rightarrow> ip_network \<Rightarrow> bool" where
  "in_network (V4 w) (N4 n p) \<longleftrightarrow> w AND netmask4 p = n"
| "in_network (V6 w s) (N6 n p) \<longleftrightarrow> w AND netmask6 p = n"
| "in_network a n \<longleftrightarrow> False"

definition parse_prefix :: "nat \<Rightarrow> pystr \<Rightarrow> nat option" where
  "parse_prefix max_len s = (if all_digits s \<and> read_digits 0 s \<le> max_len then Some (read_digits 0 s) else None)"

text \<open>A netmask or a host mask in dotted form.\<close>

definition prefix_of_mask :: "32 word \<Rightarrow> nat option" where
  "prefix_of_mask w =
     (case find (\<lambda>p. netmask4 p = w) [0..<33] of Some p \<Rightarrow> Some p | None \<Rightarrow> find (\<lambda>p. netmask4 p = NOT w) [0..<33])"

definition prefix4 :: "pystr \<Rightarrow> nat option" where
  "prefix4 s = (case parse_prefix 32 s of Some p \<Rightarrow> Some p | None \<Rightarrow> Option.bind (parse_v4 s) prefix_of_mask)"

text \<open>\<open>ip_network(s, strict=False)\<close>.\<close>

definition parse_network :: "pystr \<Rightarrow> ip_network option" where
  "parse_network s =
     (case split_char 47 s of
        [a] \<Rightarrow>
          (case parse_address a of Some (V4 w) \<Rightarrow> Some (N4 w 32) | Some (V6 w sc) \<Rightarrow> Some (N6 w 128) | None \<Rightarrow> None)
      | [a, m] \<Rightarrow>
          (case parse_address a of
             Some (V4 w) \<Rightarrow> map_option (\<lambda>p. N4 (w AND netmask4 p) p) (prefix4 m)
           | Some (V6 w sc) \<Rightarrow> map_option (\<lambda>p. N6 (w AND netmask6 p) p) (parse_prefix 128 m)
           | None \<Rightarrow> None)
      | _ \<Rightarrow> None)"

section \<open>Special ranges\<close>

definition quad :: "nat \<Rightarrow> nat \<Rightarrow> nat \<Rightarrow> nat \<Rightarrow> 32 word" where
  "quad a b c d = of_nat (((a * 256 + b) * 256 + c) * 256 + d)"

definition private4 :: "ip_network list" where
  "private4 =
     [N4 (quad 0 0 0 0) 8, N4 (quad 10 0 0 0) 8, N4 (quad 127 0 0 0) 8, N4 (quad 169 254 0 0) 16, N4 (quad 172 16 0 0) 12,
      N4 (quad 192 0 0 0) 24, N4 (quad 192 0 0 170) 31, N4 (quad 192 0 2 0) 24, N4 (quad 192 168 0 0) 16, N4 (quad 198 18 0 0) 15,
      N4 (quad 198 51 100 0) 24, N4 (quad 203 0 113 0) 24, N4 (quad 240 0 0 0) 4, N4 (quad 255 255 255 255) 32]"

definition private4_exceptions :: "ip_network list" where
  "private4_exceptions = [N4 (quad 192 0 0 9) 32, N4 (quad 192 0 0 10) 32]"

text \<open>A prefix of hextets, filled up with zeros.\<close>

definition hextets :: "nat list \<Rightarrow> 128 word" where
  "hextets hs = of_nat (foldl (\<lambda>n h. n * 65536 + h) 0 (hs @ replicate (8 - length hs) 0))"

definition private6 :: "ip_network list" where
  "private6 =
     [N6 1 128, N6 0 128, N6 0xffff00000000 96, N6 (hextets [0x64, 0xff9b, 1]) 48, N6 (hextets [0x100]) 64,
      N6 (hextets [0x2001]) 23, N6 (hextets [0x2001, 0xdb8]) 32, N6 (hextets [0x2002]) 16, N6 (hextets [0xfc00]) 7,
      N6 (hextets [0xfe80]) 10]"

definition private6_exceptions :: "ip_network list" where
  "private6_exceptions =
     [N6 (hextets [0x2001, 1, 0, 0, 0, 0, 0, 1]) 128, N6 (hextets [0x2001, 1, 0, 0, 0, 0, 0, 2]) 128, N6 (hextets [0x2001, 3]) 32,
      N6 (hextets [0x2001, 4, 0x112]) 48, N6 (hextets [0x2001, 0x20]) 28, N6 (hextets [0x2001, 0x30]) 28]"

primrec ipv4_mapped :: "ip_address \<Rightarrow> ip_address option" where
  "ipv4_mapped (V4 w) = None"
| "ipv4_mapped (V6 w s) = (if unat w div 2 ^ 32 = 0xffff then Some (V4 (of_nat (unat w mod 2 ^ 32))) else None)"

primrec is_loopback :: "ip_address \<Rightarrow> bool" where
  "is_loopback (V4 w) \<longleftrightarrow> in_network (V4 w) (N4 (quad 127 0 0 0) 8)"
| "is_loopback (V6 w s) \<longleftrightarrow> w = 1"

primrec is_link_local :: "ip_address \<Rightarrow> bool" where
  "is_link_local (V4 w) \<longleftrightarrow> in_network (V4 w) (N4 (quad 169 254 0 0) 16)"
| "is_link_local (V6 w s) \<longleftrightarrow> in_network (V6 w s) (N6 (hextets [0xfe80]) 10)"

primrec is_multicast :: "ip_address \<Rightarrow> bool" where
  "is_multicast (V4 w) \<longleftrightarrow> in_network (V4 w) (N4 (quad 224 0 0 0) 4)"
| "is_multicast (V6 w s) \<longleftrightarrow> in_network (V6 w s) (N6 (hextets [0xff00]) 8)"

primrec is_unspecified :: "ip_address \<Rightarrow> bool" where
  "is_unspecified (V4 w) \<longleftrightarrow> w = 0"
| "is_unspecified (V6 w s) \<longleftrightarrow> w = 0"

definition in_any :: "ip_address \<Rightarrow> ip_network list \<Rightarrow> ip_network list \<Rightarrow> bool" where
  "in_any a networks exceptions \<longleftrightarrow> list_ex (in_network a) networks \<and> \<not> list_ex (in_network a) exceptions"

primrec is_global :: "ip_address \<Rightarrow> bool" where
  "is_global (V4 w) \<longleftrightarrow>
     \<not> in_network (V4 w) (N4 (quad 100 64 0 0) 10) \<and> \<not> in_any (V4 w) private4 private4_exceptions"
| "is_global (V6 w s) \<longleftrightarrow>
     (case ipv4_mapped (V6 w s) of
        Some (V4 m) \<Rightarrow> \<not> in_any (V4 m) private4 private4_exceptions
      | _ \<Rightarrow> \<not> in_any (V6 w s) private6 private6_exceptions)"

section \<open>URLs\<close>

record net_env =
  ne_unicode :: unicode_db
  ne_nfkc :: "pystr \<Rightarrow> pystr"

record split_result =
  sr_scheme :: pystr
  sr_netloc :: pystr
  sr_path :: pystr
  sr_query :: pystr
  sr_fragment :: pystr

definition scheme_char :: "codepoint \<Rightarrow> bool" where
  "scheme_char c \<longleftrightarrow> is_letter c \<or> is_digit c \<or> c \<in> {43, 45, 46}"

text \<open>The scheme, in lower case, and what follows its colon.\<close>

definition split_scheme :: "pystr \<Rightarrow> pystr \<times> pystr" where
  "split_scheme url =
     (case partition_at 58 url of
        (s, found, rest) \<Rightarrow>
          if found \<and> s \<noteq> [] \<and> is_letter (hd s) \<and> list_all scheme_char s then (map ascii_lower s, rest) else ([], url))"

definition bracketed_host_ok :: "pystr \<Rightarrow> bool" where
  "bracketed_host_ok host =
     (if take 1 host = [118]
      then (case partition_at 46 (drop 1 host) of
              (v, found, rest) \<Rightarrow> found \<and> v \<noteq> [] \<and> list_all (\<lambda>c. hex_char c \<noteq> None) v \<and> rest \<noteq> [] \<and> 10 \<notin> set rest)
      else (case parse_address host of Some (V6 w s) \<Rightarrow> True | _ \<Rightarrow> False))"

definition netloc_ok :: "net_env \<Rightarrow> pystr \<Rightarrow> bool" where
  "netloc_ok N netloc =
     ((91 \<in> set netloc \<longleftrightarrow> 93 \<in> set netloc)
      \<and> (91 \<in> set netloc \<longrightarrow> bracketed_host_ok (takeWhile (\<lambda>c. c \<noteq> 93) (drop 1 (dropWhile (\<lambda>c. c \<noteq> 91) netloc))))
      \<and> (\<not> is_ascii netloc \<longrightarrow>
           (let n = filter (\<lambda>c. c \<notin> {64, 58, 35, 63}) netloc; n2 = ne_nfkc N n in
            n = n2 \<or> list_all (\<lambda>c. c \<notin> {47, 63, 35, 64, 58}) n2)))"

definition urlsplit :: "net_env \<Rightarrow> pystr \<Rightarrow> split_result option" where
  "urlsplit N raw =
     (let url = filter (\<lambda>c. c \<notin> {9, 10, 13}) (dropWhile (\<lambda>c. c \<le> 32) raw) in
      case split_scheme url of
        (scheme, rest) \<Rightarrow>
          (let has_netloc = (take 2 rest = [47, 47]); tail = drop 2 rest;
               netloc = (if has_netloc then takeWhile (\<lambda>c. c \<notin> {47, 63, 35}) tail else []);
               rest1 = (if has_netloc then drop (length netloc) tail else rest)
           in if \<not> netloc_ok N netloc then None
              else (case partition_at 35 rest1 of
                      (rest2, _, fragment) \<Rightarrow>
                        (case partition_at 63 rest2 of
                           (path, _, query) \<Rightarrow>
                             Some \<lparr>sr_scheme = scheme, sr_netloc = netloc, sr_path = path, sr_query = query, sr_fragment = fragment\<rparr>))))"

text \<open>\<open>_hostinfo\<close>, \<open>hostname\<close>, \<open>port\<close>, \<open>username\<close> and \<open>password\<close>.\<close>

definition host_info :: "split_result \<Rightarrow> pystr \<times> pystr" where
  "host_info r =
     (let info = after_last 64 (sr_netloc r) in
      case partition_at 91 info of
        (_, True, bracketed) \<Rightarrow>
          (case partition_at 93 bracketed of (host, _, rest) \<Rightarrow> (case partition_at 58 rest of (_, _, port) \<Rightarrow> (host, port)))
      | _ \<Rightarrow> (case partition_at 58 info of (host, _, port) \<Rightarrow> (host, port)))"

definition hostname :: "net_env \<Rightarrow> split_result \<Rightarrow> pystr option" where
  "hostname N r =
     (case host_info r of
        ([], _) \<Rightarrow> None
      | (host, _) \<Rightarrow>
          (case partition_at 37 host of (h, percent, zone) \<Rightarrow> Some (str_lower (ne_unicode N) h @ (if percent then 37 # zone else []))))"

text \<open>A port that is no number below 65536 is a \<open>ValueError\<close>.\<close>

definition port_of :: "split_result \<Rightarrow> nat option option" where
  "port_of r =
     (case snd (host_info r) of
        [] \<Rightarrow> Some None
      | p \<Rightarrow> if all_digits p \<and> read_digits 0 p \<le> 65535 then Some (Some (read_digits 0 p)) else None)"

text \<open>The user information: what precedes the last \<open>@\<close>; \<open>username\<close> or \<open>password\<close> is truthy.\<close>

definition has_credentials :: "split_result \<Rightarrow> bool" where
  "has_credentials r =
     (64 \<in> set (sr_netloc r) \<and>
      (case partition_at 58 (take (length (sr_netloc r) - length (after_last 64 (sr_netloc r)) - 1) (sr_netloc r)) of
         (user, _, password) \<Rightarrow> user \<noteq> [] \<or> password \<noteq> []))"

end
