(* ===== verification/Ssrf.thy ===== *)
theory Ssrf
  imports Py_Url
begin

text \<open>
  \<open>ragledger.server.ssrf\<close>: the gate that every endpoint of a target passes before it is stored or
  dialled. Name resolution is a parameter (\<open>None\<close> is an \<open>OSError\<close>), as the source's own
  \<open>resolver\<close> argument is.
\<close>

section \<open>The rules for an address\<close>

record target_settings =
  ts_allow_private_targets :: bool
  ts_private_target_cidrs :: pystr

definition first_rule :: "ip_address \<Rightarrow> string option" where
  "first_rule a =
     (if is_loopback a then Some ''loopback''
      else if is_link_local a then Some ''link_local''
      else if is_multicast a then Some ''multicast''
      else if is_unspecified a then Some ''unspecified'' else None)"

text \<open>An IPv6 address that maps an IPv4 address is judged as that one; a mapped address maps no other.\<close>

definition is_always_blocked :: "ip_address \<Rightarrow> string option" where
  "is_always_blocked a =
     (case first_rule a of
        Some r \<Rightarrow> Some r
      | None \<Rightarrow> (case ipv4_mapped a of None \<Rightarrow> None | Some m \<Rightarrow> first_rule m))"

definition is_private :: "ip_address \<Rightarrow> bool" where
  "is_private a = (case ipv4_mapped a of None \<Rightarrow> \<not> is_global a | Some m \<Rightarrow> \<not> is_global m)"

text \<open>A malformed entry that is reached is a \<open>ValueError\<close>.\<close>

fun in_entries :: "ip_address \<Rightarrow> pystr list \<Rightarrow> bool option" where
  "in_entries a [] = Some False"
| "in_entries a (entry # entries) =
     (let e = strip entry in
      if e = [] then in_entries a entries
      else (case parse_network e of
              None \<Rightarrow> None
            | Some n \<Rightarrow> if in_network a n then Some True else in_entries a entries))"

definition allowlisted :: "ip_address \<Rightarrow> target_settings \<Rightarrow> bool option" where
  "allowlisted a S = in_entries a (split_char 44 (ts_private_target_cidrs S))"

section \<open>The gate\<close>

datatype url_error =
    SchemeNotAllowed pystr
  | NoHost
  | DidNotResolve pystr
  | AlwaysBlocked pystr string
  | PrivateNotEnabled pystr
  | NotInCidrs pystr
  | Malformed

record url_validation =
  uv_decision :: pystr
  uv_endpoint_redacted :: pystr
  uv_resolved_addresses :: "pystr list"

definition allowed_schemes :: "pystr list" where
  "allowed_schemes = [py ''http'', py ''https'', py ''postgresql'', py ''postgres'']"

definition resolve_host :: "(pystr \<Rightarrow> pystr list option) \<Rightarrow> pystr \<Rightarrow> url_error + pystr list" where
  "resolve_host resolver host =
     (case parse_address host of
        Some literal \<Rightarrow> Inr [show_address literal]
      | None \<Rightarrow>
          (case resolver host of
             None \<Rightarrow> Inl (DidNotResolve host)
           | Some [] \<Rightarrow> Inl (DidNotResolve host)
           | Some resolved \<Rightarrow> Inr resolved))"

text \<open>Whether an address counts as private, or why it is refused.\<close>

definition check_address :: "target_settings \<Rightarrow> pystr \<Rightarrow> url_error + bool" where
  "check_address S raw =
     (case parse_address raw of
        None \<Rightarrow> Inl Malformed
      | Some a \<Rightarrow>
          (case is_always_blocked a of
             Some r \<Rightarrow> Inl (AlwaysBlocked raw r)
           | None \<Rightarrow>
               if \<not> is_private a then Inr False
               else if \<not> ts_allow_private_targets S then Inl (PrivateNotEnabled raw)
               else (case allowlisted a S of
                       None \<Rightarrow> Inl Malformed
                     | Some False \<Rightarrow> Inl (NotInCidrs raw)
                     | Some True \<Rightarrow> Inr True)))"

fun check_addresses :: "target_settings \<Rightarrow> bool \<Rightarrow> pystr list \<Rightarrow> url_error + bool" where
  "check_addresses S any_private [] = Inr any_private"
| "check_addresses S any_private (raw # rest) =
     andThen (check_address S raw) (\<lambda>private. check_addresses S (any_private \<or> private) rest)"

definition validate_target_url ::
  "net_env \<Rightarrow> target_settings \<Rightarrow> (pystr \<Rightarrow> pystr list option) \<Rightarrow> pystr \<Rightarrow> url_error + url_validation" where
  "validate_target_url N S resolver url =
     (case urlsplit N url of
        None \<Rightarrow> Inl Malformed
      | Some parts \<Rightarrow>
          if sr_scheme parts \<notin> set allowed_schemes then Inl (SchemeNotAllowed (sr_scheme parts))
          else (case hostname N parts of
                  None \<Rightarrow> Inl NoHost
                | Some host \<Rightarrow>
                    if host = [] then Inl NoHost
                    else andThen (resolve_host resolver host) (\<lambda>resolved.
                         andThen (check_addresses S False resolved) (\<lambda>any_private.
                           case port_of parts of
                             None \<Rightarrow> Inl Malformed
                           | Some port \<Rightarrow> Inr
                               \<lparr>uv_decision = (if any_private then py ''private_cidr_allowlisted'' else py ''public''),
                                uv_endpoint_redacted = sr_scheme parts @ py ''://'' @ host
                                  @ (case port of None \<Rightarrow> [] | Some n \<Rightarrow> 58 # show_nat n),
                                uv_resolved_addresses = resolved\<rparr>))))"

section \<open>What the gate lets through\<close>

text \<open>The address that a connection to an address reaches: the mapped one, if there is one.\<close>

definition effective :: "ip_address \<Rightarrow> ip_address" where
  "effective a = (case ipv4_mapped a of None \<Rightarrow> a | Some m \<Rightarrow> m)"

definition special :: "ip_address \<Rightarrow> bool" where
  "special a \<longleftrightarrow> is_loopback a \<or> is_link_local a \<or> is_multicast a \<or> is_unspecified a"

definition acceptable :: "target_settings \<Rightarrow> pystr \<Rightarrow> bool" where
  "acceptable S raw =
     (case parse_address raw of
        None \<Rightarrow> False
      | Some a \<Rightarrow> \<not> special a \<and> \<not> special (effective a)
          \<and> (is_global (effective a) \<or> (ts_allow_private_targets S \<and> allowlisted a S = Some True)))"

definition public :: "pystr \<Rightarrow> bool" where
  "public raw = (case parse_address raw of None \<Rightarrow> False | Some a \<Rightarrow> is_global (effective a))"

lemma first_rule_None: "first_rule a = None \<longleftrightarrow> \<not> special a"
  by (simp add: first_rule_def special_def)

lemma always_blocked_None: "is_always_blocked a = None \<longleftrightarrow> \<not> special a \<and> \<not> special (effective a)"
  by (auto simp: is_always_blocked_def effective_def simp flip: first_rule_None split: option.split)

lemma is_private_effective: "is_private a \<longleftrightarrow> \<not> is_global (effective a)"
  by (simp add: is_private_def effective_def split: option.split)

lemma check_address_ok: "check_address S raw = Inr b \<longleftrightarrow> acceptable S raw \<and> b = (\<not> public raw)"
proof (cases "parse_address raw")
  case (Some a)
  show ?thesis
    using always_blocked_None [of a]
    by (cases "is_always_blocked a") (auto simp: Some check_address_def acceptable_def public_def is_private_effective split: option.split bool.split)
qed (simp add: check_address_def acceptable_def)

lemma check_addresses_ok:
  "check_addresses S p raws = Inr b \<longleftrightarrow> list_all (acceptable S) raws \<and> b = (p \<or> \<not> list_all public raws)"
proof (induction raws arbitrary: p)
  case (Cons raw raws)
  show ?case
  proof (cases "check_address S raw")
    case (Inl e)
    then have "\<not> acceptable S raw" using check_address_ok [of S raw "\<not> public raw"] by auto
    then show ?thesis using Inl by (simp add: andThen_def)
  next
    case (Inr q)
    then show ?thesis using check_address_ok [of S raw q] Cons.IH by (auto simp: andThen_def)
  qed
qed auto

text \<open>
  C25. A URL is accepted exactly when its scheme is one of the four, it has a host that resolves, its port is
  valid and every address the host resolves to is acceptable: it, and the IPv4 address it may map, is no
  loopback, link-local, multicast or unspecified address, and is global or else allowed and in the
  allowlist. The addresses that were checked are the ones recorded, and the decision says whether one of
  them is private.
\<close>

theorem target_url_accepted:
  "validate_target_url N S resolver url = Inr v \<longleftrightarrow>
     (\<exists>parts host resolved port. urlsplit N url = Some parts \<and> sr_scheme parts \<in> set allowed_schemes \<and> hostname N parts = Some host \<and> host \<noteq> []
        \<and> resolve_host resolver host = Inr resolved \<and> list_all (acceptable S) resolved \<and> port_of parts = Some port
        \<and> v = \<lparr>uv_decision = (if list_all public resolved then py ''public'' else py ''private_cidr_allowlisted''),
                uv_endpoint_redacted = sr_scheme parts @ py ''://'' @ host @ (case port of None \<Rightarrow> [] | Some n \<Rightarrow> 58 # show_nat n),
                uv_resolved_addresses = resolved\<rparr>)"
proof (cases "urlsplit N url")
  case parts: (Some parts)
  show ?thesis
  proof (cases "hostname N parts")
    case host: (Some host)
    show ?thesis
    proof (cases "resolve_host resolver host")
      case resolved: (Inr resolved)
      note ok = check_addresses_ok [of S False resolved]
      show ?thesis
      proof (cases "check_addresses S False resolved")
        case (Inl e)
        then have "\<not> list_all (acceptable S) resolved" using ok by auto
        with Inl show ?thesis by (simp add: validate_target_url_def andThen_def parts host resolved)
      next
        case (Inr b)
        then have "list_all (acceptable S) resolved" "b = (\<not> list_all public resolved)" using ok by auto
        with Inr show ?thesis
          by (cases "port_of parts") (auto simp: validate_target_url_def andThen_def parts host resolved)
      qed
    qed (simp add: validate_target_url_def andThen_def parts host)
  qed (simp add: validate_target_url_def parts)
qed (simp add: validate_target_url_def)

text \<open>
  The prefix that embeds an IPv4 address for a translator (NAT64) is global: through it the metadata
  address 169.254.169.254, which is refused as such and as a mapped address, is accepted.
\<close>

definition metadata_address :: "32 word" where
  "metadata_address = quad 169 254 169 254"

lemma replicate_num: "replicate (numeral k) x = x # replicate (pred_numeral k) x"
  by (simp add: numeral_eq_Suc)

lemmas range_eval = replicate_num in_any_def private4_def private4_exceptions_def private6_def private6_exceptions_def quad_def hextets_def
  netmask4_def netmask6_def mask_eq_exp_minus_1

theorem metadata_translated:
  "is_always_blocked (V4 metadata_address) = Some ''link_local'' \<and>
   is_always_blocked (V6 (hextets [0, 0, 0, 0, 0, 0xffff, 0xa9fe, 0xa9fe]) None) = Some ''link_local'' \<and>
   is_always_blocked (V6 (hextets [0x64, 0xff9b, 0, 0, 0, 0, 0xa9fe, 0xa9fe]) None) = None \<and>
   \<not> is_private (V6 (hextets [0x64, 0xff9b, 0, 0, 0, 0, 0xa9fe, 0xa9fe]) None)"
proof (intro conjI)
  show "is_always_blocked (V4 metadata_address) = Some ''link_local''"
    by (simp add: is_always_blocked_def first_rule_def metadata_address_def range_eval)
  show "is_always_blocked (V6 (hextets [0, 0, 0, 0, 0, 0xffff, 0xa9fe, 0xa9fe]) None) = Some ''link_local''"
    by (simp add: is_always_blocked_def first_rule_def range_eval)
  show "is_always_blocked (V6 (hextets [0x64, 0xff9b, 0, 0, 0, 0, 0xa9fe, 0xa9fe]) None) = None"
    by (simp add: is_always_blocked_def first_rule_def range_eval)
  show "\<not> is_private (V6 (hextets [0x64, 0xff9b, 0, 0, 0, 0, 0xa9fe, 0xa9fe]) None)"
    by (simp add: is_private_def range_eval)
qed

end
