(* ===== verification/Settings.thy ===== *)
theory Settings
  imports Ssrf Models
begin

text \<open>
  \<open>ragledger.server.settings\<close>: the keyring that is scanned from the environment, the checks that
  stop a server from starting, the source roots the HTTP API may name, and the view of the
  configuration that is safe to log. The parsing of the single variables is pydantic's; resolving a
  path is a parameter.
\<close>

section \<open>The configuration\<close>

datatype app_env = Development | Test | Production

datatype retention_mode = Retain | PurgeAfterBuild

record server_settings = target_settings +
  st_app_env :: app_env
  st_session_secret :: "pystr option"
  st_api_token_prefix :: pystr
  st_source_root_allowed_bases :: pystr
  st_raw_source_retention_mode :: retention_mode
  st_raw_source_retention_days :: "int option"
  st_manifest_signing_key_file :: "pystr option"
  st_connect_timeout :: int
  st_read_timeout :: int
  st_encryption_keys :: "(pystr \<times> pystr) list"
  st_encryption_key_current_id :: "pystr option"

definition csv_entries :: "pystr \<Rightarrow> pystr list" where
  "csv_entries value = filter (\<lambda>e. e \<noteq> []) (map strip (split_char 44 value))"

section \<open>The keyring\<close>

definition key_var_prefix :: pystr where
  "key_var_prefix = py ''APP_ENCRYPTION_KEY_V''"

text \<open>
  The digits of a variable name that matches \<open>^APP_ENCRYPTION_KEY_V(\d+)$\<close>: \<open>\d\<close> is a decimal digit
  of any script, and \<open>$\<close> also matches before a final newline.
\<close>

definition key_var_digits :: "unicode_db \<Rightarrow> pystr \<Rightarrow> pystr option" where
  "key_var_digits U name =
     (if startswith name key_var_prefix then
        (let rest = drop (length key_var_prefix) name;
             digits = (if rest \<noteq> [] \<and> last rest = 10 then butlast rest else rest)
         in if digits \<noteq> [] \<and> list_all (rx_digit U) digits then Some digits else None)
      else None)"

text \<open>\<open>int(digits)\<close>, which refuses more than 4300 of them.\<close>

definition digits_number :: "unicode_db \<Rightarrow> pystr \<Rightarrow> nat option" where
  "digits_number U digits =
     (if 4300 < length digits then None
      else Some (foldl (\<lambda>n c. 10 * n + (case digit_value U c of Some d \<Rightarrow> d | None \<Rightarrow> 0)) 0 digits))"

datatype settings_error =
    BadVersion pystr
  | BadCidr pystr
  | MissingSecrets "pystr list"
  | RetentionConflict

record keyring =
  kr_keys :: "(pystr \<times> pystr) list"
  kr_highest :: int
  kr_current :: "pystr option"

definition empty_keyring :: keyring where
  "empty_keyring = \<lparr>kr_keys = [], kr_highest = -1, kr_current = None\<rparr>"

definition key_id_of :: "pystr \<Rightarrow> pystr" where
  "key_id_of digits = 118 # digits"

fun load_keyring :: "unicode_db \<Rightarrow> keyring \<Rightarrow> (pystr \<times> pystr) list \<Rightarrow> settings_error + keyring" where
  "load_keyring U r [] = Inr r"
| "load_keyring U r ((var_name, raw_value) # environ) =
     (case key_var_digits U var_name of
        None \<Rightarrow> load_keyring U r environ
      | Some digits \<Rightarrow>
          if raw_value = [] then load_keyring U r environ
          else
            (case digits_number U digits of
               None \<Rightarrow> Inl (BadVersion digits)
             | Some version \<Rightarrow>
                 (let r' = r\<lparr>kr_keys := dict_set (key_id_of digits) raw_value (kr_keys r)\<rparr> in
                  load_keyring U
                    (if kr_highest r < int version
                     then r'\<lparr>kr_highest := int version, kr_current := Some (key_id_of digits)\<rparr> else r')
                    environ)))"

definition require_encryption_key :: "server_settings \<Rightarrow> pystr \<Rightarrow> pystr option" where
  "require_encryption_key S key_id = map_of (st_encryption_keys S) key_id"

text \<open>Without a key this is a \<open>RuntimeError\<close>.\<close>

definition current_encryption_key :: "server_settings \<Rightarrow> (pystr \<times> pystr) option" where
  "current_encryption_key S =
     (case st_encryption_key_current_id S of
        None \<Rightarrow> None
      | Some key_id \<Rightarrow> map_option (Pair key_id) (map_of (st_encryption_keys S) key_id))"

section \<open>The checks at start\<close>

fun first_bad_cidr :: "pystr list \<Rightarrow> pystr option" where
  "first_bad_cidr [] = None"
| "first_bad_cidr (e # es) = (if parse_network e = None then Some e else first_bad_cidr es)"

definition missing_production_secrets :: "server_settings \<Rightarrow> pystr list" where
  "missing_production_secrets S =
     (if st_app_env S \<noteq> Production then []
      else (if st_session_secret S = None then [py ''SESSION_SECRET''] else [])
         @ (if st_encryption_keys S = [] then [py ''APP_ENCRYPTION_KEY_V1''] else []))"

text \<open>The validators in the order pydantic runs them, on a configuration whose fields are parsed.\<close>

definition start_settings :: "unicode_db \<Rightarrow> (pystr \<times> pystr) list \<Rightarrow> server_settings \<Rightarrow> settings_error + server_settings" where
  "start_settings U environ S =
     (case first_bad_cidr (csv_entries (ts_private_target_cidrs S)) of
        Some e \<Rightarrow> Inl (BadCidr e)
      | None \<Rightarrow> andThen (load_keyring U empty_keyring environ) (\<lambda>r.
          let S = S\<lparr>st_encryption_keys := kr_keys r, st_encryption_key_current_id := kr_current r\<rparr> in
          if missing_production_secrets S \<noteq> [] then Inl (MissingSecrets (missing_production_secrets S))
          else if st_raw_source_retention_mode S = PurgeAfterBuild \<and> st_raw_source_retention_days S \<noteq> None
          then Inl RetentionConflict
          else Inr S))"

section \<open>Properties of a running server\<close>

definition signing_enabled :: "(pystr \<Rightarrow> bool) \<Rightarrow> server_settings \<Rightarrow> bool" where
  "signing_enabled is_file S \<longleftrightarrow>
     (case st_manifest_signing_key_file S of None \<Rightarrow> False | Some p \<Rightarrow> is_file p)"

text \<open>A resolved path is the list of its parts.\<close>

definition is_source_root_allowed :: "(pystr \<Rightarrow> pystr list) \<Rightarrow> server_settings \<Rightarrow> pystr \<Rightarrow> bool" where
  "is_source_root_allowed resolve S candidate =
     (let bases = csv_entries (st_source_root_allowed_bases S) in
      if bases = [] then st_app_env S \<noteq> Production
      else list_ex (\<lambda>base. take (length (resolve base)) (resolve candidate) = resolve base) bases)"

datatype setting = Secret pystr | PathValue pystr | PlainValue json

definition mask_setting :: "setting \<Rightarrow> json" where
  "mask_setting v =
     (case v of
        Secret s \<Rightarrow> if s \<noteq> [] then JStr (py ''***'') else JNull
      | PathValue p \<Rightarrow> JStr p
      | PlainValue j \<Rightarrow> j)"

text \<open>\<open>vs\<close> are the fields of the model with their aliases, without the two of the keyring.\<close>

definition masked_dict :: "(pystr \<times> setting) list \<Rightarrow> server_settings \<Rightarrow> (pystr \<times> json) list" where
  "masked_dict vs S =
     map (\<lambda>(alias, v). (alias, mask_setting v)) vs
     @ [(py ''encryption_key_ids'', JList (map JStr (sort (map fst (st_encryption_keys S))))),
        (py ''encryption_key_current_id'', case st_encryption_key_current_id S of None \<Rightarrow> JNull | Some i \<Rightarrow> JStr i)]"

section \<open>The current key\<close>

text \<open>The keys an environment configures: the digits of the name with the value.\<close>

definition configured_keys :: "unicode_db \<Rightarrow> (pystr \<times> pystr) list \<Rightarrow> (pystr \<times> pystr) list" where
  "configured_keys U environ =
     concat (map (\<lambda>(n, v). case key_var_digits U n of Some d \<Rightarrow> if v = [] then [] else [(d, v)] | None \<Rightarrow> []) environ)"

definition keyring_ok :: "unicode_db \<Rightarrow> (pystr \<times> pystr) list \<Rightarrow> keyring \<Rightarrow> bool" where
  "keyring_ok U seen r \<longleftrightarrow>
     fst ` set (kr_keys r) = (key_id_of \<circ> fst) ` set seen
     \<and> (\<forall>d v. (d, v) \<in> set seen \<longrightarrow> (\<exists>n. digits_number U d = Some n \<and> int n \<le> kr_highest r))
     \<and> (case kr_current r of
          None \<Rightarrow> seen = [] \<and> kr_highest r = -1
        | Some key_id \<Rightarrow> (\<exists>d n. key_id = key_id_of d \<and> d \<in> fst ` set seen \<and> digits_number U d = Some n \<and> kr_highest r = int n))"

lemma keyring_ok_step:
  fixes v :: pystr
  assumes "keyring_ok U seen r" "digits_number U d = Some n"
  defines "r' \<equiv> r\<lparr>kr_keys := dict_set (key_id_of d) v (kr_keys r)\<rparr>"
  shows "keyring_ok U (seen @ [(d, v)])
    (if kr_highest r < int n then r'\<lparr>kr_highest := int n, kr_current := Some (key_id_of d)\<rparr> else r')"
proof -
  let ?s = "if kr_highest r < int n then r'\<lparr>kr_highest := int n, kr_current := Some (key_id_of d)\<rparr> else r'"
  have "fst ` set (kr_keys ?s) = (key_id_of \<circ> fst) ` set (seen @ [(d, v)])"
    using assms(1) by (auto simp: keyring_ok_def r'_def)
  moreover have "\<exists>k. digits_number U d' = Some k \<and> int k \<le> kr_highest ?s" if "(d', v') \<in> set (seen @ [(d, v)])" for d' v'
    using assms(1,2) that by (cases "(d', v') \<in> set seen") (fastforce simp: keyring_ok_def r'_def)+
  moreover have "case kr_current ?s of None \<Rightarrow> False
      | Some key_id \<Rightarrow> (\<exists>d' n'. key_id = key_id_of d' \<and> d' \<in> fst ` set (seen @ [(d, v)]) \<and> digits_number U d' = Some n'
          \<and> kr_highest ?s = int n')"
  proof (cases "kr_highest r < int n")
    case True
    then show ?thesis using assms(2) by auto
  next
    case False
    then obtain i where "kr_current r = Some i" using assms(1) by (auto simp: keyring_ok_def split: option.splits)
    then show ?thesis using False assms(1) by (auto simp: keyring_ok_def r'_def)
  qed
  ultimately have "keyring_ok U (seen @ [(d, v)]) k" if "k = ?s" for k
    unfolding keyring_ok_def that [symmetric] by (cases "kr_current k") simp_all
  then show ?thesis by blast
qed

lemma load_keyring_ok:
  assumes "load_keyring U r environ = Inr r'" "keyring_ok U seen r"
  shows "keyring_ok U (seen @ configured_keys U environ) r'"
  using assms
proof (induction U r environ arbitrary: seen rule: load_keyring.induct)
  case (1 U r)
  then show ?case by (simp add: configured_keys_def)
next
  case (2 U r name v environ)
  show ?case
  proof (cases "key_var_digits U name")
    case None
    with 2 show ?thesis by (simp add: configured_keys_def)
  next
    case d: (Some d)
    show ?thesis
    proof (cases "v = []")
      case True
      with 2 d show ?thesis by (simp add: configured_keys_def)
    next
      case False
      with 2 d obtain n where n: "digits_number U d = Some n" by (auto split: option.splits)
      let ?r = "r\<lparr>kr_keys := dict_set (key_id_of d) v (kr_keys r)\<rparr>"
      let ?s = "if kr_highest r < int n then ?r\<lparr>kr_highest := int n, kr_current := Some (key_id_of d)\<rparr> else ?r"
      have load: "load_keyring U ?s environ = Inr r'" using 2 d False n by (simp add: Let_def)
      from keyring_ok_step [OF 2(5) n] have "keyring_ok U (seen @ [(d, v)]) ?s" .
      from 2(3) [OF d False n refl load this] show ?thesis
        using d False by (simp add: configured_keys_def)
    qed
  qed
qed

text \<open>
  The key that encrypts is one the environment configures, of the highest version that is
  configured, and there is one exactly when any is.
\<close>

theorem current_key_highest:
  assumes "start_settings U environ S0 = Inr S"
  shows "(case current_encryption_key S of
            None \<Rightarrow> configured_keys U environ = []
          | Some (key_id, key) \<Rightarrow>
              (\<exists>d n. key_id = key_id_of d \<and> d \<in> fst ` set (configured_keys U environ) \<and> digits_number U d = Some n
                \<and> require_encryption_key S key_id = Some key
                \<and> (\<forall>(d', v) \<in> set (configured_keys U environ). \<exists>n'. digits_number U d' = Some n' \<and> n' \<le> n)))"
proof -
  from assms obtain r where r: "load_keyring U empty_keyring environ = Inr r"
    and S: "st_encryption_keys S = kr_keys r" "st_encryption_key_current_id S = kr_current r"
    by (auto simp: start_settings_def Let_def split: option.splits if_splits)
  have "keyring_ok U [] empty_keyring" by (simp add: keyring_ok_def empty_keyring_def)
  from load_keyring_ok [OF r this] have ok: "keyring_ok U (configured_keys U environ) r" by simp
  show ?thesis
  proof (cases "kr_current r")
    case None
    with ok S show ?thesis by (simp add: current_encryption_key_def keyring_ok_def)
  next
    case (Some key_id)
    with ok obtain d n where dn: "key_id = key_id_of d" "d \<in> fst ` set (configured_keys U environ)"
      "digits_number U d = Some n" "kr_highest r = int n" by (auto simp: keyring_ok_def)
    then have "key_id \<in> fst ` set (kr_keys r)" using ok by (auto simp: keyring_ok_def)
    then obtain key where "map_of (kr_keys r) key_id = Some key" by (metis map_of_eq_None_iff not_Some_eq)
    moreover have "\<forall>(d', v) \<in> set (configured_keys U environ). \<exists>n'. digits_number U d' = Some n' \<and> n' \<le> n"
      using ok dn(4) by (fastforce simp: keyring_ok_def)
    ultimately show ?thesis
      using dn S Some by (auto simp: current_encryption_key_def require_encryption_key_def)
  qed
qed

lemma production_needs_secrets:
  assumes "start_settings U environ S0 = Inr S" "st_app_env S = Production"
  shows "st_session_secret S \<noteq> None \<and> current_encryption_key S \<noteq> None"
proof -
  from assms obtain r where r: "load_keyring U empty_keyring environ = Inr r"
    and S: "st_encryption_keys S = kr_keys r" "st_encryption_key_current_id S = kr_current r"
    and m: "missing_production_secrets S = []"
    by (auto simp: start_settings_def Let_def split: option.splits if_splits)
  from m assms(2) have "st_session_secret S \<noteq> None" "kr_keys r \<noteq> []"
    using S by (auto simp: missing_production_secrets_def split: if_splits)
  moreover have "keyring_ok U (configured_keys U environ) r"
    using load_keyring_ok [OF r, of "[]"] by (simp add: keyring_ok_def empty_keyring_def)
  ultimately have "kr_current r \<noteq> None" by (auto simp: keyring_ok_def split: option.splits)
  then obtain key_id where c: "kr_current r = Some key_id" by blast
  then have "key_id \<in> fst ` set (kr_keys r)"
    using \<open>keyring_ok U (configured_keys U environ) r\<close> by (auto simp: keyring_ok_def)
  then have "map_of (kr_keys r) key_id \<noteq> None" by (simp add: map_of_eq_None_iff)
  then show ?thesis using c S \<open>st_session_secret S \<noteq> None\<close> by (simp add: current_encryption_key_def)
qed

section \<open>Addresses, roots and the log\<close>

lemma first_bad_cidr_None: "first_bad_cidr es = None \<longleftrightarrow> list_all (\<lambda>e. parse_network e \<noteq> None) es"
  by (induction es) auto

lemma in_entries_total:
  "list_all (\<lambda>e. parse_network e \<noteq> None) (filter (\<lambda>e. e \<noteq> []) (map strip entries)) \<Longrightarrow> in_entries a entries \<noteq> None"
  by (induction entries) (auto simp: Let_def split: option.splits if_splits)

text \<open>On a configuration that started, no entry of the allowlist makes the gate raise.\<close>

lemma allowlist_total:
  assumes "start_settings U environ S0 = Inr S"
  shows "allowlisted a (target_settings.truncate S) \<noteq> None"
proof -
  have "list_all (\<lambda>e. parse_network e \<noteq> None) (csv_entries (ts_private_target_cidrs S))"
    using assms by (auto simp: start_settings_def Let_def first_bad_cidr_None simp del: list_all_iff split: option.splits if_splits)
  then show ?thesis
    unfolding allowlisted_def csv_entries_def target_settings.truncate_def by (simp add: in_entries_total)
qed

lemma production_root_needs_base:
  "is_source_root_allowed resolve S cand \<Longrightarrow> st_app_env S = Production \<Longrightarrow>
     \<exists>base \<in> set (csv_entries (st_source_root_allowed_bases S)). \<exists>parts. resolve cand = resolve base @ parts"
  by (auto simp: is_source_root_allowed_def Let_def list_ex_iff split: if_splits) (metis append_take_drop_id)

text \<open>
  The view for the log depends on no secret: two configurations that differ only in the contents of
  their secrets, set or not alike, and in the values of the keys look the same.
\<close>

definition same_but_secrets :: "(pystr \<times> setting) \<Rightarrow> (pystr \<times> setting) \<Rightarrow> bool" where
  "same_but_secrets a b \<longleftrightarrow> fst a = fst b \<and>
     (case (snd a, snd b) of (Secret s, Secret t) \<Rightarrow> (s = []) = (t = []) | (x, y) \<Rightarrow> x = y)"

theorem masked_dict_noninterference:
  assumes "list_all2 same_but_secrets vs ws"
    and "map fst (st_encryption_keys S) = map fst (st_encryption_keys S')"
    and "st_encryption_key_current_id S = st_encryption_key_current_id S'"
  shows "masked_dict vs S = masked_dict ws S'"
proof -
  have same: "(\<lambda>(alias, v). (alias, mask_setting v)) a = (\<lambda>(alias, v). (alias, mask_setting v)) b" if "same_but_secrets a b" for a b
    using that by (cases a; cases b) (auto simp: same_but_secrets_def mask_setting_def split: setting.splits)
  from assms(1) have "map (\<lambda>(alias, v). (alias, mask_setting v)) vs = map (\<lambda>(alias, v). (alias, mask_setting v)) ws"
    by (induction rule: list_all2_induct) (simp_all only: list.map same)
  then show ?thesis unfolding masked_dict_def assms(2,3) by simp
qed

section \<open>Concrete cases\<close>

definition ascii_digits :: unicode_db where
  "ascii_digits = plain_unicode\<lparr>digit_value := (\<lambda>c. if is_digit c then Some (c - 48) else None)\<rparr>"

definition plain_settings :: server_settings where
  "plain_settings = \<lparr>ts_allow_private_targets = False, ts_private_target_cidrs = [], st_app_env = Production,
     st_session_secret = Some (py ''s''), st_api_token_prefix = py ''rlk'', st_source_root_allowed_bases = [],
     st_raw_source_retention_mode = Retain, st_raw_source_retention_days = None, st_manifest_signing_key_file = None,
     st_connect_timeout = 10, st_read_timeout = 60, st_encryption_keys = [], st_encryption_key_current_id = None\<rparr>"

definition sample_environ :: "(pystr \<times> pystr) list" where
  "sample_environ =
     [(key_var_prefix @ py ''2'', py ''two''), (py ''PATH'', py ''/bin''), (key_var_prefix @ py ''10'', py ''ten''),
      (key_var_prefix @ py ''3'', [])]"

lemma sample_start:
  "start_settings ascii_digits sample_environ plain_settings = Inr
     (plain_settings\<lparr>st_encryption_keys := [(py ''v2'', py ''two''), (py ''v10'', py ''ten'')], st_encryption_key_current_id := Some (py ''v10'')\<rparr>)"
  by code_simp

theorem current_key_highest_witness:
  "\<exists>S d n. start_settings ascii_digits sample_environ plain_settings = Inr S \<and> current_encryption_key S = Some (py ''v10'', py ''ten'')
     \<and> py ''v10'' = key_id_of d \<and> d \<in> fst ` set (configured_keys ascii_digits sample_environ) \<and> digits_number ascii_digits d = Some n
     \<and> (\<forall>(d', v) \<in> set (configured_keys ascii_digits sample_environ). \<exists>n'. digits_number ascii_digits d' = Some n' \<and> n' \<le> n)"
proof -
  let ?S = "plain_settings\<lparr>st_encryption_keys := [(py ''v2'', py ''two''), (py ''v10'', py ''ten'')],
    st_encryption_key_current_id := Some (py ''v10'')\<rparr>"
  have "current_encryption_key ?S = Some (py ''v10'', py ''ten'')" by (simp add: current_encryption_key_def)
  with current_key_highest [OF sample_start] sample_start show ?thesis by auto
qed

end
