(* ===== verification/Scan_Job.thy ===== *)
theory Scan_Job
  imports Discovery Jobs Settings
begin

text \<open>
  \<open>run_scan_job\<close> of \<open>ragledger.server.handlers\<close>: a collection's tree is discovered and its asset and
  version rows follow it. The session is modelled as the source uses it: rows are loaded once into a
  dictionary of objects, queries do not flush (\<open>autoflush=False\<close>), and a flush writes the objects and
  checks the unique constraints. A handler's outcome is the one of the worker loop (\<open>Jobs\<close>).
\<close>

section \<open>Rows\<close>

record collection_row =
  co_id :: pystr
  co_workspace_id :: pystr
  co_name :: pystr
  co_namespace :: pystr
  co_root_config :: dict

datatype asset_status = AssetActive | AssetTombstone

record asset_row =
  as_id :: pystr
  as_workspace_id :: pystr
  as_collection_id :: pystr
  as_portable_id :: pystr
  as_uri :: pystr
  as_status :: asset_status

record version_row =
  ve_workspace_id :: pystr
  ve_source_asset_id :: pystr
  ve_portable_id :: pystr
  ve_content_hash :: pystr
  ve_media_type :: pystr
  ve_size_bytes :: nat
  ve_artifact_ref :: pystr

record source_tables =
  so_collections :: "collection_row list"
  so_assets :: "asset_row list"
  so_versions :: "version_row list"

section \<open>The root\<close>

record root_env =
  ro_is_dir :: "pystr \<Rightarrow> bool"
  ro_resolve :: "pystr \<Rightarrow> pystr list"
  ro_tree :: "pystr \<Rightarrow> source_tree"

definition collection_root :: "root_env \<Rightarrow> server_settings \<Rightarrow> collection_row \<Rightarrow> string + pystr" where
  "collection_root R S collection =
     (case jget (co_root_config collection) ''root'' of
        JStr root_raw \<Rightarrow>
          if root_raw = [] then Inl ''source collection has no root path configured''
          else if \<not> startswith root_raw [47] \<or> \<not> ro_is_dir R root_raw
          then Inl ''source collection root is not an existing directory''
          else if \<not> is_source_root_allowed (ro_resolve R) S root_raw
          then Inl ''source collection root is not an allowed base''
          else Inr root_raw
      | _ \<Rightarrow> Inl ''source collection has no root path configured'')"

section \<open>The session\<close>

record scan_state =
  ss_objects :: "(pystr \<times> asset_row) list"
  ss_table :: "asset_row list"
  ss_versions :: "version_row list"
  ss_pending :: "version_row list"
  ss_seen :: "pystr list"
  ss_fresh :: nat

definition version_key :: "version_row \<Rightarrow> pystr \<times> pystr" where
  "version_key v = (ve_workspace_id v, ve_portable_id v)"

text \<open>The rows of the table that an object of the session stands for are written with it.\<close>

definition write_back :: "(pystr \<times> asset_row) list \<Rightarrow> asset_row list \<Rightarrow> asset_row list" where
  "write_back objects table =
     map (\<lambda>r. case find (\<lambda>o'. as_id o' = as_id r) (map snd objects) of None \<Rightarrow> r | Some o' \<Rightarrow> o') table"

text \<open>\<open>session.flush()\<close>; a violated constraint is an \<open>IntegrityError\<close>.\<close>

definition flush_session :: "scan_state \<Rightarrow> scan_state option" where
  "flush_session st =
     (if \<not> distinct (map version_key (ss_pending st))
         \<or> list_ex (\<lambda>v. version_key v \<in> version_key ` set (ss_versions st)) (ss_pending st)
      then None
      else Some (st\<lparr>ss_table := write_back (ss_objects st) (ss_table st), ss_versions := ss_versions st @ ss_pending st,
                    ss_pending := []\<rparr>))"

definition new_asset :: "(nat \<Rightarrow> pystr) \<Rightarrow> collection_row \<Rightarrow> source_record \<Rightarrow> nat \<Rightarrow> asset_row" where
  "new_asset fresh collection r n =
     \<lparr>as_id = fresh n, as_workspace_id = co_workspace_id collection, as_collection_id = co_id collection,
      as_portable_id = src_id r, as_uri = src_uri r, as_status = AssetActive\<rparr>"

text \<open>The insertion of an asset, whose workspace and portable id are unique together, and the flush.\<close>

definition add_asset :: "asset_row \<Rightarrow> scan_state \<Rightarrow> scan_state option" where
  "add_asset a st =
     (if list_ex (\<lambda>r. as_workspace_id r = as_workspace_id a \<and> as_portable_id r = as_portable_id a) (ss_table st) then None
      else map_option (\<lambda>st. st\<lparr>ss_table := ss_table st @ [a], ss_objects := dict_set (as_portable_id a) a (ss_objects st),
                               ss_fresh := ss_fresh st + 1\<rparr>) (flush_session st))"

definition version_of :: "collection_row \<Rightarrow> source_record \<Rightarrow> asset_row \<Rightarrow> version_row" where
  "version_of collection r a =
     \<lparr>ve_workspace_id = co_workspace_id collection, ve_source_asset_id = as_id a, ve_portable_id = src_version_id r,
      ve_content_hash = src_content_hash r, ve_media_type = src_media_type r, ve_size_bytes = src_size_bytes r,
      ve_artifact_ref = src_uri r\<rparr>"

text \<open>The query for the version sees what is flushed, of any workspace.\<close>

definition add_version :: "collection_row \<Rightarrow> source_record \<Rightarrow> asset_row \<Rightarrow> scan_state \<Rightarrow> scan_state" where
  "add_version collection r a st =
     (if list_ex (\<lambda>v. ve_portable_id v = src_version_id r) (ss_versions st) then st
      else st\<lparr>ss_pending := ss_pending st @ [version_of collection r a]\<rparr>)"

definition scan_record :: "(nat \<Rightarrow> pystr) \<Rightarrow> collection_row \<Rightarrow> source_record \<Rightarrow> scan_state \<Rightarrow> scan_state option" where
  "scan_record fresh collection r st0 =
     (if src_status r \<noteq> SourceActive then Some st0
      else
        (let st = st0\<lparr>ss_seen := src_id r # ss_seen st0\<rparr> in
         case map_of (ss_objects st) (src_id r) of
           None \<Rightarrow> (let a = new_asset fresh collection r (ss_fresh st) in map_option (add_version collection r a) (add_asset a st))
         | Some a \<Rightarrow>
             (let a' = a\<lparr>as_status := AssetActive, as_uri := src_uri r\<rparr> in
              Some (add_version collection r a' (st\<lparr>ss_objects := dict_set (src_id r) a' (ss_objects st)\<rparr>)))))"

fun scan_records :: "(nat \<Rightarrow> pystr) \<Rightarrow> collection_row \<Rightarrow> source_record list \<Rightarrow> scan_state \<Rightarrow> scan_state option" where
  "scan_records fresh collection [] st = Some st"
| "scan_records fresh collection (r # rs) st = Option.bind (scan_record fresh collection r st) (scan_records fresh collection rs)"

definition mark_tombstones :: "scan_state \<Rightarrow> scan_state" where
  "mark_tombstones st =
     st\<lparr>ss_objects := map (\<lambda>(p, a). (p, if p \<notin> set (ss_seen st) then a\<lparr>as_status := AssetTombstone\<rparr> else a)) (ss_objects st)\<rparr>"

definition load_objects :: "collection_row \<Rightarrow> asset_row list \<Rightarrow> (pystr \<times> asset_row) list" where
  "load_objects collection table =
     foldl (\<lambda>d a. dict_set (as_portable_id a) a d) [] (filter (\<lambda>a. as_collection_id a = co_id collection) table)"

definition sync_collection ::
  "(nat \<Rightarrow> pystr) \<Rightarrow> collection_row \<Rightarrow> source_record list \<Rightarrow> asset_row list \<Rightarrow> version_row list \<Rightarrow> (asset_row list \<times> version_row list) option" where
  "sync_collection fresh collection records assets versions =
     Option.bind (scan_records fresh collection records
       \<lparr>ss_objects = load_objects collection assets, ss_table = assets, ss_versions = versions, ss_pending = [], ss_seen = [], ss_fresh = 0\<rparr>)
     (\<lambda>st. map_option (\<lambda>st. (ss_table st, ss_versions st)) (flush_session (mark_tombstones st)))"

section \<open>The job\<close>

definition default_discovery :: discovery_config where
  "default_discovery = \<lparr>dc_max_file_bytes = 100 * 1024 * 1024, dc_follow_symlinks = False, dc_source_system = py ''local_fs'',
     dc_discovered_by = py ''filesystem_scan''\<rparr>"

definition run_scan_job ::
  "platform \<Rightarrow> unicode_db \<Rightarrow> (pystr \<Rightarrow> pystr option) \<Rightarrow> root_env \<Rightarrow> server_settings \<Rightarrow> (nat \<Rightarrow> pystr) \<Rightarrow> source_tables handler" where
  "run_scan_job L U guess_type R S fresh T j =
     (case jget (jb_payload j) ''collection_id'' of
        JStr collection_id \<Rightarrow>
          (case find (\<lambda>c. co_id c = collection_id) (so_collections T) of
             None \<Rightarrow> (HandlerPermanent (py ''source collection not found in workspace''), T)
           | Some collection \<Rightarrow>
               if co_workspace_id collection \<noteq> jb_workspace_id j
               then (HandlerPermanent (py ''source collection not found in workspace''), T)
               else
                 (case collection_root R S collection of
                    Inl e \<Rightarrow> (HandlerPermanent (py e), T)
                  | Inr base \<Rightarrow>
                      (case discover_sources L U guess_type (ro_tree R base) (co_namespace collection) default_discovery of
                         Inl e \<Rightarrow> (HandlerRaised (py ''discovery''), T)
                       | Inr records \<Rightarrow>
                           (case sync_collection fresh collection records (so_assets T) (so_versions T) of
                              None \<Rightarrow> (HandlerRaised (py ''IntegrityError''), T)
                            | Some (assets, versions) \<Rightarrow>
                                (HandlerReturned, T\<lparr>so_assets := assets, so_versions := versions\<rparr>)))))
      | _ \<Rightarrow> (HandlerPermanent (py ''source collection not found in workspace''), T))"

section \<open>The invariant of the session\<close>

lemma dict_set_new: "k \<notin> fst ` set d \<Longrightarrow> dict_set k v d = d @ [(k, v)]"
  by (induction k v d rule: dict_set.induct) auto

lemma dict_set_old:
  "distinct (map fst d) \<Longrightarrow> k \<in> fst ` set d \<Longrightarrow> dict_set k v d = map (\<lambda>e. (fst e, if fst e = k then v else snd e)) d"
proof (induction k v d rule: dict_set.induct)
  case (2 k v k' v' d)
  have "map (\<lambda>e. (fst e, if fst e = k then v else snd e)) d = d" if "k \<notin> fst ` set d"
    using that by (intro map_idI) force
  then show ?case using 2 by (cases "k = k'") auto
qed simp

lemma dict_set_same: "distinct (map fst d) \<Longrightarrow> map_of d k = Some v \<Longrightarrow> dict_set k v d = d"
  by (induction k v d rule: dict_set.induct) (auto split: if_splits)

text \<open>
  The rows of the collection in the table are the objects of the session, one for each portable id; a
  portable id that was seen is active.
\<close>

definition own :: "collection_row \<Rightarrow> asset_row \<Rightarrow> bool" where
  "own c a \<longleftrightarrow> as_collection_id a = co_id c"

definition same_row :: "asset_row \<Rightarrow> asset_row \<Rightarrow> bool" where
  "same_row a b \<longleftrightarrow> as_id a = as_id b \<and> as_collection_id a = as_collection_id b \<and> as_workspace_id a = as_workspace_id b
     \<and> as_portable_id a = as_portable_id b"

definition objects_ok :: "collection_row \<Rightarrow> (pystr \<times> asset_row) list \<Rightarrow> asset_row list \<Rightarrow> bool" where
  "objects_ok c objects table \<longleftrightarrow> distinct (map fst objects) \<and> distinct (map as_id table)
     \<and> list_all (\<lambda>o'. as_portable_id (snd o') = fst o') objects
     \<and> list_all2 same_row (map snd objects) (filter (own c) table)"

definition seen_ok :: "scan_state \<Rightarrow> bool" where
  "seen_ok st \<longleftrightarrow> (\<forall>p \<in> set (ss_seen st). \<exists>a. (p, a) \<in> set (ss_objects st) \<and> as_status a = AssetActive)"

lemma same_row_keys:
  assumes "list_all2 same_row xs ys"
  shows "map as_id xs = map as_id ys" "map as_portable_id xs = map as_portable_id ys" "map as_workspace_id xs = map as_workspace_id ys"
  using assms by (induction rule: list_all2_induct) (simp_all add: same_row_def)

text \<open>Loading.\<close>

lemma load_fold:
  assumes "distinct (map as_portable_id xs)" "\<forall>x \<in> set xs. as_portable_id x \<notin> fst ` set d"
  shows "foldl (\<lambda>d a. dict_set (as_portable_id a) a d) d xs = d @ map (\<lambda>a. (as_portable_id a, a)) xs"
  using assms
proof (induction xs arbitrary: d)
  case (Cons x xs)
  have step: "dict_set (as_portable_id x) x d = d @ [(as_portable_id x, x)]" using Cons.prems by (simp add: dict_set_new)
  have "foldl (\<lambda>d a. dict_set (as_portable_id a) a d) (d @ [(as_portable_id x, x)]) xs =
      (d @ [(as_portable_id x, x)]) @ map (\<lambda>a. (as_portable_id a, a)) xs"
  proof (rule Cons.IH)
    show "distinct (map as_portable_id xs)" using Cons.prems(1) by simp
    show "\<forall>y \<in> set xs. as_portable_id y \<notin> fst ` set (d @ [(as_portable_id x, x)])"
    proof
      fix y assume y: "y \<in> set xs"
      then have "as_portable_id y \<noteq> as_portable_id x" using Cons.prems(1) by (metis distinct.simps(2) image_eqI list.map(2) set_map)
      then show "as_portable_id y \<notin> fst ` set (d @ [(as_portable_id x, x)])" using Cons.prems(2) y by simp
    qed
  qed
  then show ?case by (simp add: step)
qed simp

lemma load_objects_rows:
  assumes "distinct (map as_portable_id (filter (own c) table))"
  shows "load_objects c table = map (\<lambda>a. (as_portable_id a, a)) (filter (own c) table)"
proof -
  have "filter (\<lambda>a. as_collection_id a = co_id c) table = filter (own c) table" by (simp add: own_def [abs_def])
  then show ?thesis using load_fold [OF assms, of "[]"] by (simp add: load_objects_def)
qed

lemma load_objects_ok:
  assumes "distinct (map as_portable_id (filter (own c) table))" "distinct (map as_id table)"
  shows "objects_ok c (load_objects c table) table"
  using assms by (simp add: load_objects_rows objects_ok_def comp_def list_all_iff list_all2_refl same_row_def)

lemma find_key: "distinct (map f xs) \<Longrightarrow> x \<in> set xs \<Longrightarrow> find (\<lambda>y. f y = f x) xs = Some x"
  by (induction xs) auto

lemma find_key_None: "k \<notin> f ` set xs \<Longrightarrow> find (\<lambda>y. f y = k) xs = None"
  by (induction xs) auto

definition written :: "asset_row list \<Rightarrow> asset_row \<Rightarrow> asset_row" where
  "written objs r = (case find (\<lambda>o'. as_id o' = as_id r) objs of None \<Rightarrow> r | Some o' \<Rightarrow> o')"

lemma written_rows:
  assumes "list_all2 same_row xs ys" "distinct (map as_id xs)"
  shows "map (written xs) ys = xs"
proof (rule nth_equalityI)
  show len: "length (map (written xs) ys) = length xs" using list_all2_lengthD [OF assms(1)] by simp
  fix i assume "i < length (map (written xs) ys)"
  then have i: "i < length xs" using len by simp
  then have "as_id (ys ! i) = as_id (xs ! i)" using list_all2_nthD [OF assms(1) i] by (simp add: same_row_def)
  then show "map (written xs) ys ! i = xs ! i"
    using find_key [OF assms(2), of "xs ! i"] i len by (simp add: written_def)
qed

text \<open>Writing back changes the rows of the collection to the objects and no other row.\<close>

lemma write_back_rows:
  assumes "objects_ok c objects table"
  shows "filter (own c) (write_back objects table) = map snd objects"
    and "filter (\<lambda>a. \<not> own c a) (write_back objects table) = filter (\<lambda>a. \<not> own c a) table"
    and "map as_id (write_back objects table) = map as_id table"
proof -
  let ?objs = "map snd objects"
  have same: "list_all2 same_row ?objs (filter (own c) table)" and dist: "distinct (map as_id table)"
    using assms by (simp_all add: objects_ok_def)
  have ids: "map as_id ?objs = map as_id (filter (own c) table)" by (rule same_row_keys [OF same])
  have dobjs: "distinct (map as_id ?objs)" unfolding ids using dist by (rule distinct_map_filter)
  have wb: "write_back objects table = map (written ?objs) table" by (simp add: write_back_def written_def [abs_def])
  have other: "written ?objs r = r" if "r \<in> set table" "\<not> own c r" for r
  proof -
    have "as_id r \<notin> as_id ` set (filter (own c) table)"
      using that dist by (auto simp: distinct_map dest: inj_onD)
    then have "as_id r \<notin> as_id ` set ?objs" using arg_cong [OF ids, of set] by (simp add: image_image)
    then show ?thesis by (simp add: written_def find_key_None)
  qed
  have mine: "same_row (written ?objs r) r" if "r \<in> set table" "own c r" for r
  proof -
    have "r \<in> set (filter (own c) table)" using that by simp
    then obtain i where i: "i < length (filter (own c) table)" "filter (own c) table ! i = r" by (metis in_set_conv_nth)
    have "written ?objs r = ?objs ! i"
      using written_rows [OF same dobjs] i by (metis list_all2_lengthD length_map nth_map)
    then show ?thesis using list_all2_nthD2 [OF same i(1)] i(2) by simp
  qed
  have own: "own c (written ?objs r) = own c r" if "r \<in> set table" for r
    using other [OF that] mine [OF that] by (cases "own c r") (auto simp: same_row_def own_def)
  have "filter (own c) (map (written ?objs) table) = map (written ?objs) (filter (own c) table)"
    using own by (simp add: filter_map comp_def cong: filter_cong)
  then show "filter (own c) (write_back objects table) = ?objs"
    unfolding wb using written_rows [OF same dobjs] by simp
  have "filter (\<lambda>a. \<not> own c a) (map (written ?objs) table) = map (written ?objs) (filter (\<lambda>a. \<not> own c a) table)"
    using own by (simp add: filter_map comp_def cong: filter_cong)
  moreover have "map (written ?objs) (filter (\<lambda>a. \<not> own c a) table) = filter (\<lambda>a. \<not> own c a) table"
    by (rule map_idI) (simp add: other)
  ultimately show "filter (\<lambda>a. \<not> own c a) (write_back objects table) = filter (\<lambda>a. \<not> own c a) table"
    unfolding wb by simp
  show "map as_id (write_back objects table) = map as_id table"
    unfolding wb map_map by (rule map_cong [OF refl]) (metis comp_apply mine other same_row_def)
qed

lemma objects_ok_update:
  assumes "objects_ok c objects table" "map_of objects p = Some a" "same_row a' a"
  shows "objects_ok c (dict_set p a' objects) table"
proof -
  let ?new = "map (\<lambda>e. (fst e, if fst e = p then a' else snd e)) objects"
  have d: "distinct (map fst objects)" using assms(1) by (simp add: objects_ok_def)
  have p: "p \<in> fst ` set objects" using assms(2) by (force dest: map_of_SomeD)
  have eq: "dict_set p a' objects = ?new" by (rule dict_set_old [OF d p])
  have same: "list_all2 same_row (map snd objects) (filter (own c) table)" using assms(1) by (simp add: objects_ok_def)
  have a: "as_portable_id a' = p"
    using assms by (auto simp: objects_ok_def list_all_iff same_row_def dest: map_of_SomeD)
  have "list_all2 same_row (map snd ?new) (filter (own c) table)"
  proof (rule list_all2_all_nthI)
    show "length (map snd ?new) = length (filter (own c) table)" using list_all2_lengthD [OF same] by simp
    fix i assume "i < length (map snd ?new)"
    then have i: "i < length objects" by simp
    have old: "same_row (snd (objects ! i)) (filter (own c) table ! i)" using list_all2_nthD [OF same, of i] i by simp
    show "same_row (map snd ?new ! i) (filter (own c) table ! i)"
    proof (cases "fst (objects ! i) = p")
      case True
      then have "snd (objects ! i) = a" using assms(2) d i by (metis map_of_eq_Some_iff nth_mem option.inject prod.collapse)
      then show ?thesis using True old assms(3) i by (simp add: same_row_def)
    qed (use old i in simp)
  qed
  then show ?thesis
    using assms(1) a unfolding eq by (auto simp: objects_ok_def list_all_iff comp_def)
qed

lemma objects_ok_flush: "objects_ok c objects table \<Longrightarrow> objects_ok c objects (write_back objects table)"
  using write_back_rows [of c objects table] by (auto simp: objects_ok_def list_all2_refl same_row_def)

lemma objects_ok_add:
  assumes "objects_ok c objects table" "own c a" "as_id a \<notin> as_id ` set table" "as_portable_id a \<notin> fst ` set objects"
  shows "objects_ok c (dict_set (as_portable_id a) a objects) (table @ [a])"
  using assms by (auto simp: objects_ok_def dict_set_new same_row_def intro!: list_all2_appendI)

section \<open>The loop\<close>

definition active :: "source_record list \<Rightarrow> source_record list" where
  "active rs = filter (\<lambda>r. src_status r = SourceActive) rs"

definition frame_ok :: "(nat \<Rightarrow> pystr) \<Rightarrow> collection_row \<Rightarrow> asset_row list \<Rightarrow> scan_state \<Rightarrow> bool" where
  "frame_ok fresh c assets st \<longleftrightarrow>
     objects_ok c (ss_objects st) (ss_table st)
     \<and> filter (\<lambda>a. \<not> own c a) (ss_table st) = filter (\<lambda>a. \<not> own c a) assets
     \<and> take (length assets) (map as_id (ss_table st)) = map as_id assets
     \<and> (\<forall>n \<ge> ss_fresh st. fresh n \<notin> as_id ` set (ss_table st))
     \<and> fst ` set (ss_objects st) = as_portable_id ` set (filter (own c) assets) \<union> set (ss_seen st)
     \<and> seen_ok st"

definition versions_ok :: "collection_row \<Rightarrow> version_row list \<Rightarrow> source_record list \<Rightarrow> version_row list \<Rightarrow> bool" where
  "versions_ok c versions records vs \<longleftrightarrow>
     (\<forall>r \<in> set (active records). src_version_id r \<in> ve_portable_id ` set vs)
     \<and> (\<exists>new. vs = versions @ new
          \<and> (\<forall>v \<in> set new. \<exists>r \<in> set (active records). \<exists>a. v = version_of c r a \<and> as_portable_id a = src_id r))"

definition all_versions :: "scan_state \<Rightarrow> version_row list" where
  "all_versions st = ss_versions st @ ss_pending st"

lemma versions_ok_add:
  assumes "versions_ok c versions rs (all_versions st)" "as_portable_id a = src_id r" "src_status r = SourceActive"
  shows "versions_ok c versions (rs @ [r]) (all_versions (add_version c r a st))"
proof -
  have act: "active (rs @ [r]) = active rs @ [r]" using assms(3) by (simp add: active_def)
  show ?thesis
  proof (cases "list_ex (\<lambda>v. ve_portable_id v = src_version_id r) (ss_versions st)")
    case True
    then have "add_version c r a st = st" by (simp add: add_version_def)
    moreover have "src_version_id r \<in> ve_portable_id ` set (all_versions st)"
      using True by (force simp: list_ex_iff all_versions_def)
    ultimately show ?thesis using assms(1) by (auto simp: versions_ok_def act)
  next
    case False
    then have vs: "all_versions (add_version c r a st) = all_versions st @ [version_of c r a]"
      by (simp add: add_version_def all_versions_def)
    obtain new where new: "all_versions st = versions @ new"
      "\<forall>v \<in> set new. \<exists>r \<in> set (active rs). \<exists>a. v = version_of c r a \<and> as_portable_id a = src_id r"
      using assms(1) by (auto simp: versions_ok_def)
    have "all_versions st @ [version_of c r a] = versions @ (new @ [version_of c r a])" using new(1) by simp
    moreover have "\<forall>v \<in> set (new @ [version_of c r a]). \<exists>r \<in> set (active (rs @ [r])). \<exists>a. v = version_of c r a \<and> as_portable_id a = src_id r"
      using new(2) assms(2) unfolding act by auto
    moreover have "\<forall>r' \<in> set (active (rs @ [r])). src_version_id r' \<in> ve_portable_id ` set (all_versions st @ [version_of c r a])"
      using assms(1) unfolding act versions_ok_def by (auto simp: version_of_def)
    ultimately show ?thesis unfolding versions_ok_def vs by blast
  qed
qed

text \<open>A record whose asset the session has.\<close>

lemma frame_ok_update:
  assumes "frame_ok fresh c assets st" "map_of (ss_objects st) p = Some a"
  shows "frame_ok fresh c assets
    (st\<lparr>ss_seen := p # ss_seen st, ss_objects := dict_set p (a\<lparr>as_status := AssetActive, as_uri := u\<rparr>) (ss_objects st)\<rparr>)"
proof -
  let ?a = "a\<lparr>as_status := AssetActive, as_uri := u\<rparr>"
  have ok: "objects_ok c (ss_objects st) (ss_table st)" and seen: "seen_ok st" using assms(1) by (simp_all add: frame_ok_def)
  have mem: "(p, a) \<in> set (ss_objects st)" using assms(2) by (rule map_of_SomeD)
  have d: "distinct (map fst (ss_objects st))" "p \<in> fst ` set (ss_objects st)" using ok mem by (force simp: objects_ok_def)+
  have "\<exists>b. (q, b) \<in> set (dict_set p ?a (ss_objects st)) \<and> as_status b = AssetActive"
    if "q = p \<or> (\<exists>b. (q, b) \<in> set (ss_objects st) \<and> as_status b = AssetActive)" for q
    unfolding dict_set_old [OF d] using that mem by (cases "q = p") force+
  then show ?thesis
    using assms(1) objects_ok_update [OF ok assms(2), of ?a] d(2) seen by (auto simp: frame_ok_def seen_ok_def same_row_def)
qed

text \<open>A record whose asset is new: the flush, and the row.\<close>

lemma flush_frame:
  assumes "flush_session st = Some st'"
  shows "ss_objects st' = ss_objects st" "ss_table st' = write_back (ss_objects st) (ss_table st)" "ss_fresh st' = ss_fresh st"
    "ss_seen st' = ss_seen st" "all_versions st' = all_versions st" "ss_pending st' = []"
  using assms by (auto simp: flush_session_def all_versions_def split: if_splits)

lemma frame_ok_new:
  assumes "frame_ok fresh c assets st" "map_of (ss_objects st) (src_id r) = None" "inj fresh"
    and "add_asset (new_asset fresh c r (ss_fresh st)) (st\<lparr>ss_seen := src_id r # ss_seen st\<rparr>) = Some st'"
  shows "frame_ok fresh c assets st'" "all_versions st' = all_versions st" "ss_seen st' = src_id r # ss_seen st"
proof -
  let ?a = "new_asset fresh c r (ss_fresh st)" and ?st0 = "st\<lparr>ss_seen := src_id r # ss_seen st\<rparr>"
  obtain st2 where st2: "flush_session ?st0 = Some st2"
    "st' = st2\<lparr>ss_table := ss_table st2 @ [?a], ss_objects := dict_set (src_id r) ?a (ss_objects st2), ss_fresh := ss_fresh st2 + 1\<rparr>"
    using assms(4) by (auto simp: add_asset_def new_asset_def split: if_splits)
  note fl = flush_frame [OF st2(1)]
  show "all_versions st' = all_versions st" "ss_seen st' = src_id r # ss_seen st"
    using fl by (simp_all add: st2(2) all_versions_def)
  have ok: "objects_ok c (ss_objects st) (ss_table st)" using assms(1) by (simp add: frame_ok_def)
  note wb = write_back_rows [OF ok]
  have ids: "as_id ` set (ss_table st2) = as_id ` set (ss_table st)" using fl(2) arg_cong [OF wb(3), of set] by simp
  have new: "src_id r \<notin> fst ` set (ss_objects st)" using assms(2) by (simp add: map_of_eq_None_iff)
  have a: "own c ?a" "as_portable_id ?a = src_id r" "as_id ?a = fresh (ss_fresh st)" "as_status ?a = AssetActive"
    by (simp_all add: own_def new_asset_def)
  have fresh: "\<forall>n \<ge> ss_fresh st. fresh n \<notin> as_id ` set (ss_table st)" using assms(1) by (simp add: frame_ok_def)
  have "objects_ok c (ss_objects st2) (ss_table st2)" using objects_ok_flush [OF ok] fl by simp
  then have ok': "objects_ok c (ss_objects st') (ss_table st')"
    using objects_ok_add [of c "ss_objects st2" "ss_table st2" ?a] a ids fresh new fl(1) by (simp add: st2(2))
  have objs: "ss_objects st' = ss_objects st @ [(src_id r, ?a)]" using new fl(1) by (simp add: st2(2) dict_set_new)
  have sn: "ss_seen st' = src_id r # ss_seen st" using fl(4) by (simp add: st2(2))
  have "\<forall>n \<ge> ss_fresh st'. fresh n \<notin> as_id ` set (ss_table st')"
    using fresh ids a(3) assms(3) fl(3) by (auto simp: st2(2) dest: injD)
  moreover have "seen_ok st'" using assms(1) a(4) by (auto simp: frame_ok_def seen_ok_def objs sn)
  moreover have "filter (\<lambda>a. \<not> own c a) (ss_table st') = filter (\<lambda>a. \<not> own c a) assets"
    using assms(1) wb(2) a(1) fl(2) by (simp add: st2(2) frame_ok_def)
  moreover have "take (length assets) (map as_id (ss_table st')) = map as_id assets"
  proof -
    have pre: "take (length assets) (map as_id (ss_table st)) = map as_id assets" using assms(1) by (simp add: frame_ok_def)
    then have "length assets \<le> length (map as_id (ss_table st))" by (metis length_map length_take min.cobounded1 min.commute)
    then show ?thesis using pre wb(3) fl(2) by (simp add: st2(2))
  qed
  moreover have "fst ` set (ss_objects st') = as_portable_id ` set (filter (own c) assets) \<union> set (ss_seen st')"
    using assms(1) by (auto simp: frame_ok_def objs sn)
  ultimately show "frame_ok fresh c assets st'" using ok' by (simp add: frame_ok_def)
qed

definition loop_ok :: "(nat \<Rightarrow> pystr) \<Rightarrow> collection_row \<Rightarrow> asset_row list \<Rightarrow> version_row list \<Rightarrow> source_record list \<Rightarrow> scan_state \<Rightarrow> bool" where
  "loop_ok fresh c assets versions records st \<longleftrightarrow> frame_ok fresh c assets st \<and> set (ss_seen st) = src_id ` set (active records)
     \<and> versions_ok c versions records (all_versions st)"

lemma add_version_frame: "frame_ok fresh c assets (add_version c r a st) = frame_ok fresh c assets st"
    "ss_seen (add_version c r a st) = ss_seen st" "ss_objects (add_version c r a st) = ss_objects st"
    "ss_table (add_version c r a st) = ss_table st"
  by (simp_all add: add_version_def frame_ok_def seen_ok_def)

lemma loop_ok_step:
  assumes "loop_ok fresh c assets versions rs st" "scan_record fresh c r st = Some st'" "inj fresh"
  shows "loop_ok fresh c assets versions (rs @ [r]) st'"
proof (cases "src_status r = SourceActive")
  case False
  then have "active (rs @ [r]) = active rs" by (simp add: active_def)
  then show ?thesis using assms(1,2) False by (simp add: loop_ok_def versions_ok_def scan_record_def)
next
  case act: True
  then have actives: "active (rs @ [r]) = active rs @ [r]" by (simp add: active_def)
  have frame: "frame_ok fresh c assets st" and vs: "versions_ok c versions rs (all_versions st)"
    and seen: "set (ss_seen st) = src_id ` set (active rs)" using assms(1) by (simp_all add: loop_ok_def)
  show ?thesis
  proof (cases "map_of (ss_objects st) (src_id r)")
    case (Some a)
    let ?a = "a\<lparr>as_status := AssetActive, as_uri := src_uri r\<rparr>"
    let ?st = "st\<lparr>ss_seen := src_id r # ss_seen st, ss_objects := dict_set (src_id r) ?a (ss_objects st)\<rparr>"
    have st': "st' = add_version c r ?a ?st" using assms(2) Some act by (simp add: scan_record_def Let_def)
    have "as_portable_id a = src_id r"
      using frame Some by (auto simp: frame_ok_def objects_ok_def list_all_iff dest: map_of_SomeD)
    then show ?thesis
      using frame_ok_update [OF frame Some, of "src_uri r"] versions_ok_add [of c versions rs ?st ?a r] vs act seen
      by (simp add: loop_ok_def st' add_version_frame all_versions_def actives)
  next
    case None
    let ?a = "new_asset fresh c r (ss_fresh st)"
    from assms(2) None act obtain st1 where st1: "add_asset ?a (st\<lparr>ss_seen := src_id r # ss_seen st\<rparr>) = Some st1"
      "st' = add_version c r ?a st1" by (auto simp: scan_record_def Let_def)
    note new = frame_ok_new [OF frame None assms(3) st1(1)]
    then show ?thesis
      using versions_ok_add [of c versions rs st1 ?a r] vs act seen
      by (simp add: loop_ok_def st1(2) add_version_frame actives new_asset_def)
  qed
qed

lemma loop_ok_records:
  assumes "scan_records fresh c rs st = Some st'" "loop_ok fresh c assets versions before st" "inj fresh"
  shows "loop_ok fresh c assets versions (before @ rs) st'"
  using assms(1,2)
proof (induction rs arbitrary: before st)
  case (Cons r rs)
  then obtain st1 where "scan_record fresh c r st = Some st1" "scan_records fresh c rs st1 = Some st'"
    by (auto split: Option.bind_splits)
  with Cons.IH [OF this(2) loop_ok_step [OF Cons.prems(2) this(1) assms(3)]] show ?case by simp
qed simp

section \<open>What a scan leaves\<close>

text \<open>Primary keys are unique, new ones are new, and a collection has a portable id once.\<close>

definition tables_ok :: "(nat \<Rightarrow> pystr) \<Rightarrow> collection_row \<Rightarrow> asset_row list \<Rightarrow> bool" where
  "tables_ok fresh c assets \<longleftrightarrow> inj fresh \<and> (\<forall>n. fresh n \<notin> as_id ` set assets) \<and> distinct (map as_id assets)
     \<and> distinct (map as_portable_id (filter (own c) assets))"

definition start_state :: "collection_row \<Rightarrow> asset_row list \<Rightarrow> version_row list \<Rightarrow> scan_state" where
  "start_state c assets versions =
     \<lparr>ss_objects = load_objects c assets, ss_table = assets, ss_versions = versions, ss_pending = [], ss_seen = [], ss_fresh = 0\<rparr>"

lemma start_ok:
  assumes "tables_ok fresh c assets"
  shows "loop_ok fresh c assets versions [] (start_state c assets versions)"
  using assms load_objects_ok [of c assets]
  by (auto simp: loop_ok_def frame_ok_def versions_ok_def all_versions_def start_state_def tables_ok_def active_def seen_ok_def
      load_objects_rows image_image)

lemma mark_objects_ok: "objects_ok c (ss_objects st) (ss_table st) \<Longrightarrow> objects_ok c (ss_objects (mark_tombstones st)) (ss_table st)"
  by (auto simp: objects_ok_def mark_tombstones_def list_all_iff comp_def case_prod_beta' list_all2_map1 same_row_def
      elim!: list_all2_mono split: if_splits)

lemma sync_result:
  assumes "sync_collection fresh c records assets versions = Some (assets', versions')" "tables_ok fresh c assets"
  obtains st where "loop_ok fresh c assets versions records st" "assets' = write_back (ss_objects (mark_tombstones st)) (ss_table st)"
    "versions' = all_versions st"
proof -
  from assms(1) obtain st where st: "scan_records fresh c records (start_state c assets versions) = Some st"
    "map_option (\<lambda>st. (ss_table st, ss_versions st)) (flush_session (mark_tombstones st)) = Some (assets', versions')"
    by (auto simp: sync_collection_def start_state_def split: Option.bind_splits)
  then obtain st' where f: "flush_session (mark_tombstones st) = Some st'" "assets' = ss_table st'" "versions' = ss_versions st'" by auto
  have "loop_ok fresh c assets versions records st"
    using loop_ok_records [OF st(1) start_ok [OF assms(2)]] assms(2) by (simp add: tables_ok_def)
  moreover have "versions' = all_versions st"
    using flush_frame(5,6) [OF f(1)] f(3) by (simp add: all_versions_def mark_tombstones_def)
  moreover have "assets' = write_back (ss_objects (mark_tombstones st)) (ss_table st)"
    using flush_frame(2) [OF f(1)] f(2) by (simp add: mark_tombstones_def)
  ultimately show ?thesis using that by blast
qed

lemma scan_leaves:
  assumes "sync_collection fresh c records assets versions = Some (assets', versions')" "tables_ok fresh c assets"
  shows "filter (\<lambda>a. \<not> own c a) assets' = filter (\<lambda>a. \<not> own c a) assets
    \<and> take (length assets) (map as_id assets') = map as_id assets
    \<and> as_portable_id ` set (filter (own c) assets') = as_portable_id ` set (filter (own c) assets) \<union> src_id ` set (active records)
    \<and> list_all (\<lambda>a. (as_status a = AssetActive) = (as_portable_id a \<in> src_id ` set (active records))) (filter (own c) assets')
    \<and> versions_ok c versions records versions'"
proof -
  obtain st where st: "loop_ok fresh c assets versions records st" "assets' = write_back (ss_objects (mark_tombstones st)) (ss_table st)"
    "versions' = all_versions st" using sync_result [OF assms] .
  have frame: "frame_ok fresh c assets st" and seen: "set (ss_seen st) = src_id ` set (active records)"
    using st(1) by (simp_all add: loop_ok_def)
  have ok: "objects_ok c (ss_objects st) (ss_table st)" using frame by (simp add: frame_ok_def)
  note wb = write_back_rows [OF mark_objects_ok [OF ok]]
  have rows: "filter (own c) assets' = map snd (ss_objects (mark_tombstones st))" unfolding st(2) by (rule wb(1))
  have key: "as_portable_id a = p" if "(p, a) \<in> set (ss_objects st)" for p a
    using ok that by (auto simp: objects_ok_def list_all_iff)
  have "as_portable_id ` set (filter (own c) assets') = fst ` set (ss_objects st)"
    unfolding rows using key by (force simp: mark_tombstones_def image_iff)
  moreover have "list_all (\<lambda>a. (as_status a = AssetActive) = (as_portable_id a \<in> src_id ` set (active records))) (filter (own c) assets')"
    unfolding rows list_all_iff
  proof
    fix b assume "b \<in> set (map snd (ss_objects (mark_tombstones st)))"
    then obtain p a where pa: "(p, a) \<in> set (ss_objects st)" "b = (if p \<notin> set (ss_seen st) then a\<lparr>as_status := AssetTombstone\<rparr> else a)"
      by (auto simp: mark_tombstones_def)
    have "as_status a = AssetActive" if "p \<in> set (ss_seen st)"
    proof -
      obtain a' where "(p, a') \<in> set (ss_objects st)" "as_status a' = AssetActive" using frame \<open>p \<in> set (ss_seen st)\<close> by (auto simp: frame_ok_def seen_ok_def)
      moreover have "distinct (map fst (ss_objects st))" using ok by (simp add: objects_ok_def)
      ultimately show ?thesis using pa(1) by (metis map_of_is_SomeI option.inject)
    qed
    then show "(as_status b = AssetActive) = (as_portable_id b \<in> src_id ` set (active records))"
      using pa key [OF pa(1)] seen by auto
  qed
  ultimately show ?thesis
    using frame seen st(1,3) wb(2,3) by (simp add: st(2) frame_ok_def loop_ok_def)
qed


section \<open>Scanning again\<close>

lemma scan_record_uri:
  assumes "scan_record fresh c r st = Some st'" "src_status r = SourceActive"
  obtains a where "map_of (ss_objects st') = (map_of (ss_objects st))(src_id r \<mapsto> a)" "as_uri a = src_uri r"
proof (cases "map_of (ss_objects st) (src_id r)")
  case None
  let ?a = "new_asset fresh c r (ss_fresh st)"
  have "map_of (ss_objects st') = (map_of (ss_objects st))(src_id r \<mapsto> ?a)"
    using assms None by (auto simp: scan_record_def Let_def add_asset_def add_version_def new_asset_def flush_session_def split: if_splits)
  then show ?thesis using that by (simp add: new_asset_def)
next
  case (Some a)
  let ?a = "a\<lparr>as_status := AssetActive, as_uri := src_uri r\<rparr>"
  have "map_of (ss_objects st') = (map_of (ss_objects st))(src_id r \<mapsto> ?a)"
    using assms Some by (auto simp: scan_record_def Let_def add_version_def)
  then show ?thesis using that [of ?a] by simp
qed

definition uris_ok :: "source_record list \<Rightarrow> scan_state \<Rightarrow> bool" where
  "uris_ok rs st \<longleftrightarrow> (\<forall>r \<in> set (active rs). map_option as_uri (map_of (ss_objects st) (src_id r)) = Some (src_uri r))"

lemma scan_records_uris:
  assumes "scan_records fresh c rs st = Some st'" "uris_ok before st" "distinct (map src_id (active (before @ rs)))"
  shows "uris_ok (before @ rs) st'"
  using assms
proof (induction rs arbitrary: before st)
  case (Cons r rs)
  then obtain st1 where st1: "scan_record fresh c r st = Some st1" "scan_records fresh c rs st1 = Some st'"
    by (auto split: Option.bind_splits)
  have "uris_ok (before @ [r]) st1"
  proof (cases "src_status r = SourceActive")
    case True
    obtain a where "map_of (ss_objects st1) = (map_of (ss_objects st))(src_id r \<mapsto> a)" "as_uri a = src_uri r"
      using scan_record_uri [OF st1(1) True] .
    moreover have "src_id r \<notin> src_id ` set (active before)" using Cons.prems(3) True by (auto simp: active_def)
    ultimately show ?thesis using Cons.prems(2) True by (auto simp: uris_ok_def active_def image_iff)
  next
    case False
    then show ?thesis using Cons.prems(2) st1(1) by (simp add: scan_record_def uris_ok_def active_def)
  qed
  from Cons.IH [OF st1(2) this] Cons.prems(3) show ?case by simp
qed simp

text \<open>A record the session has just as it is.\<close>

definition settled :: "scan_state \<Rightarrow> source_record \<Rightarrow> bool" where
  "settled st r \<longleftrightarrow> (\<exists>a. map_of (ss_objects st) (src_id r) = Some a \<and> as_status a = AssetActive \<and> as_uri a = src_uri r)
     \<and> src_version_id r \<in> ve_portable_id ` set (ss_versions st)"

lemma settled_seen [simp]: "settled (st\<lparr>ss_seen := ps\<rparr>) = settled st"
  by (rule ext) (simp add: settled_def)

lemma scan_settled:
  assumes "list_all (settled st) (active rs)" "distinct (map fst (ss_objects st))"
  shows "scan_records fresh c rs st = Some (st\<lparr>ss_seen := rev (map src_id (active rs)) @ ss_seen st\<rparr>)"
  using assms
proof (induction rs arbitrary: st)
  case (Cons r rs)
  show ?case
  proof (cases "src_status r = SourceActive")
    case True
    then have "settled st r" using Cons.prems(1) by (simp add: active_def)
    then obtain a where a: "map_of (ss_objects st) (src_id r) = Some a" "as_status a = AssetActive" "as_uri a = src_uri r"
      and v: "list_ex (\<lambda>v. ve_portable_id v = src_version_id r) (ss_versions st)"
      unfolding settled_def list_ex_iff by (metis imageE)
    have "a\<lparr>as_status := AssetActive, as_uri := src_uri r\<rparr> = a" using a by simp
    then have step: "scan_record fresh c r st = Some (st\<lparr>ss_seen := src_id r # ss_seen st\<rparr>)"
      using a(1) v True Cons.prems(2) by (simp add: scan_record_def Let_def add_version_def dict_set_same)
    have "list_all (settled (st\<lparr>ss_seen := src_id r # ss_seen st\<rparr>)) (active rs)"
      using Cons.prems(1) True by (simp add: active_def)
    from Cons.IH [OF this] Cons.prems(2) show ?thesis by (simp add: step active_def True)
  next
    case False
    then show ?thesis using Cons by (simp add: scan_record_def active_def)
  qed
qed (simp add: active_def)

lemma write_back_own:
  assumes "distinct (map as_id table)"
  shows "write_back (map (\<lambda>a. (as_portable_id a, a)) (filter (own c) table)) table = table"
proof -
  have "written (filter (own c) table) r = r" if "r \<in> set table" for r
  proof (cases "own c r")
    case True
    then show ?thesis
      using find_key [of as_id "filter (own c) table" r] that distinct_map_filter [OF assms] by (simp add: written_def)
  next
    case False
    then have "as_id r \<notin> as_id ` set (filter (own c) table)" using that assms by (auto simp: distinct_map dest: inj_onD)
    then show ?thesis by (simp add: written_def find_key_None)
  qed
  then have "map (written (filter (own c) table)) table = table" by (simp add: map_idI)
  then show ?thesis by (simp add: write_back_def written_def [abs_def] comp_def)
qed

text \<open>
  C21. A second scan that finds the same files changes nothing.
\<close>

theorem scan_idempotent:
  assumes "sync_collection fresh c records assets versions = Some (assets', versions')" "tables_ok fresh c assets"
    and "distinct (map src_id (active records))"
  shows "sync_collection fresh' c records assets' versions' = Some (assets', versions')"
proof -
  from assms(1) obtain st where scan: "scan_records fresh c records (start_state c assets versions) = Some st"
    "map_option (\<lambda>st. (ss_table st, ss_versions st)) (flush_session (mark_tombstones st)) = Some (assets', versions')"
    by (auto simp: sync_collection_def start_state_def split: Option.bind_splits)
  then obtain st' where f: "flush_session (mark_tombstones st) = Some st'" "assets' = ss_table st'" "versions' = ss_versions st'" by auto
  have "loop_ok fresh c assets versions records st"
    using loop_ok_records [OF scan(1) start_ok [OF assms(2)]] assms(2) by (simp add: tables_ok_def)
  then have ok: "objects_ok c (ss_objects st) (ss_table st)" by (simp add: loop_ok_def frame_ok_def)
  let ?m = "mark_tombstones st"
  have mok: "objects_ok c (ss_objects ?m) (ss_table st)" by (rule mark_objects_ok [OF ok])
  have "assets' = write_back (ss_objects ?m) (ss_table ?m)" using flush_frame(2) [OF f(1)] f(2) by simp
  then have assets': "assets' = write_back (ss_objects ?m) (ss_table st)" by (simp add: mark_tombstones_def)
  note wb = write_back_rows [OF mok]
  have rows: "filter (own c) assets' = map snd (ss_objects ?m)" unfolding assets' by (rule wb(1))
  have dist: "distinct (map as_id assets')" unfolding assets' wb(3) using ok by (simp add: objects_ok_def)
  have key: "as_portable_id (snd e) = fst e" if "e \<in> set (ss_objects ?m)" for e
    using mok that by (auto simp: objects_ok_def list_all_iff)
  have "map as_portable_id (filter (own c) assets') = map fst (ss_objects ?m)" unfolding rows using key by simp
  then have load: "load_objects c assets' = map (\<lambda>a. (as_portable_id a, a)) (filter (own c) assets')"
    using mok by (intro load_objects_rows) (simp add: objects_ok_def)
  then have objs: "load_objects c assets' = ss_objects ?m" unfolding rows using key by (simp add: map_idI)
  note leaves = scan_leaves [OF assms(1,2)]
  let ?s = "start_state c assets' versions'"
  have "list_all (settled ?s) (active records)"
    unfolding list_all_iff
  proof
    fix r assume r: "r \<in> set (active records)"
    have "uris_ok records st" using scan_records_uris [OF scan(1), of "[]"] assms(3) by (simp add: uris_ok_def active_def)
    then obtain a where a: "map_of (ss_objects st) (src_id r) = Some a" "as_uri a = src_uri r" using r by (auto simp: uris_ok_def)
    have seen: "src_id r \<in> set (ss_seen st)" using \<open>loop_ok fresh c assets versions records st\<close> r by (auto simp: loop_ok_def)
    have "(src_id r, a) \<in> set (ss_objects ?m)"
      using map_of_SomeD [OF a(1)] seen by (force simp: mark_tombstones_def)
    moreover have "distinct (map fst (ss_objects ?m))" using mok by (simp add: objects_ok_def)
    ultimately have m: "map_of (ss_objects ?m) (src_id r) = Some a" by simp
    have "a \<in> set (filter (own c) assets')" unfolding rows using map_of_SomeD [OF m] by force
    moreover have "as_portable_id a = src_id r" using key [OF map_of_SomeD [OF m]] by simp
    ultimately have "as_status a = AssetActive" using leaves r by (simp only: list_all_iff) blast
    moreover have "src_version_id r \<in> ve_portable_id ` set versions'" using leaves r by (simp add: versions_ok_def)
    ultimately show "settled ?s r" using m a(2) by (simp add: settled_def start_state_def objs)
  qed
  moreover have "distinct (map fst (ss_objects ?s))" using mok by (simp add: start_state_def objs objects_ok_def)
  ultimately have again: "scan_records fresh' c records ?s = Some (?s\<lparr>ss_seen := rev (map src_id (active records)) @ ss_seen ?s\<rparr>)"
    by (rule scan_settled)
  let ?t = "?s\<lparr>ss_seen := rev (map src_id (active records)) @ ss_seen ?s\<rparr>"
  have "mark_tombstones ?t = ?t"
  proof -
    have "(if p \<notin> set (ss_seen ?t) then a\<lparr>as_status := AssetTombstone\<rparr> else a) = a" if "(p, a) \<in> set (load_objects c assets')" for p a
    proof (cases "p \<in> src_id ` set (active records)")
      case False
      have "a \<in> set (filter (own c) assets')" "as_portable_id a = p" using that load by auto
      then have "as_status a \<noteq> AssetActive" using leaves False by (simp only: list_all_iff) blast
      then have "as_status a = AssetTombstone" by (cases "as_status a") simp_all
      then have "a\<lparr>as_status := AssetTombstone\<rparr> = a" by simp
      then show ?thesis by simp
    qed (simp add: start_state_def)
    then have "map (\<lambda>(p, a). (p, if p \<notin> set (ss_seen ?t) then a\<lparr>as_status := AssetTombstone\<rparr> else a)) (load_objects c assets') =
        load_objects c assets'"
      by (intro map_idI) (auto simp del: if_not_P)
    then show ?thesis by (simp add: mark_tombstones_def start_state_def)
  qed
  moreover have "write_back (load_objects c assets') assets' = assets'" unfolding load by (rule write_back_own [OF dist])
  ultimately show ?thesis
    using again unfolding sync_collection_def start_state_def [symmetric] by (simp add: flush_session_def) (simp add: start_state_def)
qed

section \<open>Concrete scans\<close>

definition sample_collection :: collection_row where
  "sample_collection = \<lparr>co_id = py ''c'', co_workspace_id = py ''w'', co_name = py ''n'', co_namespace = py ''ns'', co_root_config = []\<rparr>"

definition sample_found :: "string \<Rightarrow> string \<Rightarrow> source_record" where
  "sample_found i v =
     \<lparr>src_id = py i, src_version_id = py v, src_namespace = py ''ns'', src_uri = py ''file:a'', src_media_type = py ''text/plain'',
      src_size_bytes = 1, src_content_hash = py ''h'', src_modified_at = None, src_discovered_by = None, src_source_system = py ''local_fs'',
      src_status = SourceActive, src_declared_tenant = None, src_declared_acl_assertion_id = None, src_license_assertion_ids = [],
      src_raw_artifact_ref = None, src_relationships = [], src_extensions = None\<rparr>"

definition sample_asset :: "pystr \<Rightarrow> string \<Rightarrow> asset_status \<Rightarrow> asset_row" where
  "sample_asset i p s =
     \<lparr>as_id = i, as_workspace_id = py ''w'', as_collection_id = py ''c'', as_portable_id = py p, as_uri = py ''file:a'', as_status = s\<rparr>"

definition sample_fresh :: "nat \<Rightarrow> pystr" where
  "sample_fresh n = replicate (Suc n) 0"

definition sample_version :: "string \<Rightarrow> string \<Rightarrow> version_row" where
  "sample_version w v = \<lparr>ve_workspace_id = py w, ve_source_asset_id = sample_fresh 0, ve_portable_id = py v, ve_content_hash = py ''h'',
     ve_media_type = py ''text/plain'', ve_size_bytes = 1, ve_artifact_ref = py ''file:a''\<rparr>"

lemma sample_tables: "tables_ok sample_fresh sample_collection [sample_asset (py ''x'') ''old'' AssetActive]"
proof -
  have "inj sample_fresh" by (rule injI) (simp add: sample_fresh_def)
  then show ?thesis by (auto simp: tables_ok_def sample_asset_def sample_fresh_def py_def)
qed

lemma sample_scan_job:
  "sync_collection sample_fresh sample_collection [sample_found ''new'' ''v''] [sample_asset (py ''x'') ''old'' AssetActive] [] =
     Some ([sample_asset (py ''x'') ''old'' AssetTombstone, sample_asset (sample_fresh 0) ''new'' AssetActive], [sample_version ''w'' ''v''])"
  by code_simp


theorem scan_idempotent_witness:
  "sync_collection sample_fresh sample_collection [sample_found ''new'' ''v'']
     [sample_asset (py ''x'') ''old'' AssetTombstone, sample_asset (sample_fresh 0) ''new'' AssetActive] [sample_version ''w'' ''v''] =
   Some ([sample_asset (py ''x'') ''old'' AssetTombstone, sample_asset (sample_fresh 0) ''new'' AssetActive], [sample_version ''w'' ''v''])"
  by (rule scan_idempotent [OF sample_scan_job sample_tables]) (simp add: active_def)

text \<open>A version that another workspace has stored is not stored for this one.\<close>

lemma other_workspace_suppresses:
  "sync_collection sample_fresh sample_collection [sample_found ''new'' ''v''] [] [sample_version ''other'' ''v''] =
     Some ([sample_asset (sample_fresh 0) ''new'' AssetActive], [sample_version ''other'' ''v''])"
  by code_simp

text \<open>Two files with one id and one new version violate the constraint: the pending row is not seen.\<close>

lemma twins_rejected:
  "sync_collection sample_fresh sample_collection [sample_found ''new'' ''v'', sample_found ''new'' ''v''] [] [] = None"
  by code_simp

end
