(* ===== verification/Connectors.thy ===== *)
theory Connectors
  imports Models
begin

text \<open>
  \<open>ragledger.connectors.base\<close>: the normalized point every connector reduces an observed
  index point to, the projection of a point to a subset of its mapped fields, and the value
  types that describe a target and one pass over it. A connector itself (Qdrant, pgvector) is
  a parameter of the engine: a record of what its read-only interface returns or raises.
\<close>

section \<open>Errors\<close>

datatype connector_error =
    ConnectorError pystr
  | ConnectorConfigError pystr
  | ConnectorConnectionError pystr
  | ConnectorMutationBlockedError pystr

section \<open>Normalized points\<close>

record normalized_point =
  np_target_id :: pystr
  np_scope :: pystr
  np_point_id :: point_id
  np_vector_names :: "pystr list"
  np_vector_dimensions :: "(pystr \<times> int) list"
  np_vector_hashes :: "(pystr \<times> pystr) list option"
  np_payload_projection :: dict
  np_payload_hash :: pystr
  np_source_id :: "pystr option"
  np_source_version_id :: "pystr option"
  np_chunk_id :: "pystr option"
  np_embedding_id :: "pystr option"
  np_acl :: "pystr list option"
  np_tenant :: "pystr option"
  np_observed_at :: utc_datetime
  np_raw_locator :: pystr
  np_normalization_warnings :: "pystr list"

text \<open>\<open>float(component)\<close> has already made each component a finite double.\<close>

definition hash_vector :: "platform \<Rightarrow> float64 list \<Rightarrow> pystr" where
  "hash_vector L components = hash_canonical L (JList (map JFloat components))"

definition compute_payload_hash :: "platform \<Rightarrow> dict \<Rightarrow> pystr" where
  "compute_payload_hash L payload_projection = hash_canonical L (JObj payload_projection)"

text \<open>A projectable field is reset to \<open>None\<close> when the projection does not name it.\<close>

definition kept :: "pystr set \<Rightarrow> string \<Rightarrow> 'a option \<Rightarrow> 'a option" where
  "kept allowed field_name value = (if py field_name \<in> allowed then value else None)"

lemma kept_kept [simp]: "kept A f (kept B f v) = kept (A \<inter> B) f v"
  by (simp add: kept_def)

definition apply_projection :: "platform \<Rightarrow> normalized_point \<Rightarrow> pystr list option \<Rightarrow> normalized_point" where
  "apply_projection L point projection =
     (case projection of
        None \<Rightarrow> point
      | Some names \<Rightarrow>
          (let allowed = set names;
               restricted = filter (\<lambda>entry. fst entry \<in> allowed) (np_payload_projection point)
           in point\<lparr>np_payload_projection := restricted,
                    np_payload_hash := compute_payload_hash L restricted,
                    np_source_id := kept allowed ''source_id'' (np_source_id point),
                    np_source_version_id := kept allowed ''source_version_id'' (np_source_version_id point),
                    np_chunk_id := kept allowed ''chunk_id'' (np_chunk_id point),
                    np_embedding_id := kept allowed ''embedding_id'' (np_embedding_id point),
                    np_tenant := kept allowed ''tenant'' (np_tenant point),
                    np_acl := kept allowed ''acl'' (np_acl point)\<rparr>))"

section \<open>Consistency of a pass\<close>

datatype consistency_mode = STRICT_CONSISTENT | BEST_EFFORT_PAGED | BEST_EFFORT_LIVE

primrec consistency_mode_value :: "consistency_mode \<Rightarrow> pystr" where
  "consistency_mode_value STRICT_CONSISTENT = py ''strict_consistent''"
| "consistency_mode_value BEST_EFFORT_PAGED = py ''best_effort_paged''"
| "consistency_mode_value BEST_EFFORT_LIVE = py ''best_effort_live''"

datatype snapshot_completeness = COMPLETE | INCOMPLETE

primrec completeness_value :: "snapshot_completeness \<Rightarrow> pystr" where
  "completeness_value COMPLETE = py ''complete''"
| "completeness_value INCOMPLETE = py ''incomplete''"

record consistency_info =
  ci_mode :: consistency_mode
  ci_completeness :: snapshot_completeness
  ci_start_count :: "int option"
  ci_end_count :: "int option"
  ci_observed_count :: int
  ci_detail :: "pystr option"

section \<open>Target schema\<close>

record vector_field_schema =
  vf_name :: pystr
  vf_dimension :: int
  vf_distance :: "pystr option"

record target_schema =
  ts_target_id :: pystr
  ts_scope :: pystr
  ts_vector_fields :: "vector_field_schema list"
  ts_point_id_type :: pystr
  ts_payload_indexes :: "pystr list"
  ts_approx_point_count :: "int option"
  ts_resolved_scope :: "pystr option"
  ts_extra :: dict

definition vector_field :: "target_schema \<Rightarrow> pystr option \<Rightarrow> vector_field_schema option" where
  "vector_field schema name =
     (case name of
        Some n \<Rightarrow> find (\<lambda>candidate. vf_name candidate = n) (ts_vector_fields schema)
      | None \<Rightarrow> (case ts_vector_fields schema of [f] \<Rightarrow> Some f | _ \<Rightarrow> None))"

section \<open>The interface the engine calls\<close>

text \<open>
  \<open>iterate_points\<close> is a generator: the points it yields and the error, if any, that ends
  it early.
\<close>

record connector =
  inspect_target_schema :: "connector_error + target_schema"
  iterate_points :: "normalized_point list \<times> connector_error option"
  get_consistency_info :: "connector_error + consistency_info"

text \<open>\<open>list(connector.iterate_points())\<close>.\<close>

definition list_points :: "connector \<Rightarrow> connector_error + normalized_point list" where
  "list_points connector =
     (case iterate_points connector of (points, None) \<Rightarrow> Inr points | (points, Some e) \<Rightarrow> Inl e)"

section \<open>Projection\<close>

lemma apply_projection_None [simp]: "apply_projection L p None = p"
  by (simp add: apply_projection_def)

lemma apply_projection_hash:
  "np_payload_hash (apply_projection L p (Some fs)) =
     compute_payload_hash L (np_payload_projection (apply_projection L p (Some fs)))"
  by (simp add: apply_projection_def Let_def)

lemma apply_projection_twice:
  "apply_projection L (apply_projection L p (Some fs)) (Some gs) =
     apply_projection L p (Some (filter (\<lambda>f. f \<in> set gs) fs))"
  by (simp add: apply_projection_def Let_def case_prod_beta Int_def conj_commute)

end
