(* ===== verification/Merge_Join.thy ===== *)
theory Merge_Join
  imports Prelude
begin

text \<open>
  The two generic algorithms behind reconciliation, over any item types and any ordered
  key: the sort-merge join of \<open>matching.stream_merge_join\<close>, and the stable k-way merge
  of \<open>heapq.merge\<close> that reads sorted runs back. The join is characterised on any input
  (it partitions both sides and pairs equal keys only) and on key-sorted input (nothing it
  leaves over could have been paired); the merge of sorted runs is the stable sort of their
  concatenation. The locale \<open>sort_provider\<close> is what the join relies on.
\<close>

section \<open>Sort-merge join\<close>

record ('e, 'o, 'k) join_result =
  jr_matched :: "('e \<times> 'o) list"
  jr_left_e :: "'e list"
  jr_left_o :: "'o list"
  jr_dup_e :: "('k \<times> 'e list) list"
  jr_dup_o :: "('k \<times> 'o list) list"

abbreviation add_left_e :: "'e \<Rightarrow> ('e, 'o, 'k) join_result \<Rightarrow> ('e, 'o, 'k) join_result" where
  "add_left_e e r \<equiv> r\<lparr>jr_left_e := e # jr_left_e r\<rparr>"

abbreviation add_left_o :: "'o \<Rightarrow> ('e, 'o, 'k) join_result \<Rightarrow> ('e, 'o, 'k) join_result" where
  "add_left_o x r \<equiv> r\<lparr>jr_left_o := x # jr_left_o r\<rparr>"

definition emit_group :: "'k \<Rightarrow> 'e list \<Rightarrow> 'o list \<Rightarrow> ('e, 'o, 'k) join_result \<Rightarrow> ('e, 'o, 'k) join_result" where
  "emit_group k e_group o_group r =
     (let pair_count = min (length e_group) (length o_group)
      in \<lparr>jr_matched = zip e_group o_group @ jr_matched r,
          jr_left_e = drop pair_count e_group @ jr_left_e r,
          jr_left_o = drop pair_count o_group @ jr_left_o r,
          jr_dup_e = (if 1 < length e_group then [(k, e_group)] else []) @ jr_dup_e r,
          jr_dup_o = (if 1 < length o_group then [(k, o_group)] else []) @ jr_dup_o r\<rparr>)"

function merge_join ::
  "('e \<Rightarrow> 'k::linorder option) \<Rightarrow> ('o \<Rightarrow> 'k option) \<Rightarrow> 'e list \<Rightarrow> 'o list \<Rightarrow> ('e, 'o, 'k) join_result"
where
  "merge_join ekey okey [] os =
     \<lparr>jr_matched = [], jr_left_e = [], jr_left_o = os, jr_dup_e = [], jr_dup_o = []\<rparr>"
| "merge_join ekey okey (e # es) [] =
     \<lparr>jr_matched = [], jr_left_e = e # es, jr_left_o = [], jr_dup_e = [], jr_dup_o = []\<rparr>"
| "merge_join ekey okey (e # es) (x # os) =
     (case ekey e of
        None \<Rightarrow> add_left_e e (merge_join ekey okey es (x # os))
      | Some ek \<Rightarrow>
          (case okey x of
             None \<Rightarrow> add_left_o x (merge_join ekey okey (e # es) os)
           | Some ok \<Rightarrow>
               (if ek < ok then add_left_e e (merge_join ekey okey es (x # os))
                else if ok < ek then add_left_o x (merge_join ekey okey (e # es) os)
                else emit_group ek
                       (e # takeWhile (\<lambda>y. ekey y = Some ek) es)
                       (x # takeWhile (\<lambda>y. okey y = Some ok) os)
                       (merge_join ekey okey
                          (dropWhile (\<lambda>y. ekey y = Some ek) es)
                          (dropWhile (\<lambda>y. okey y = Some ok) os)))))"
  by pat_completeness auto
termination
  by (relation "measure (\<lambda>(ekey, okey, es, os). length es + length os)")
    (auto simp: less_Suc_eq_le intro!: le_SucI add_mono length_dropWhile_le)

text \<open>One equation per branch of the loop body, and the induction that follows them.\<close>

lemma merge_join_Nil [simp]:
  "merge_join ekey okey es [] =
     \<lparr>jr_matched = [], jr_left_e = es, jr_left_o = [], jr_dup_e = [], jr_dup_o = []\<rparr>"
  by (cases es) simp_all

lemma merge_join_steps [simp]:
  "ekey e = None \<Longrightarrow> merge_join ekey okey (e # es) (x # os) = add_left_e e (merge_join ekey okey es (x # os))"
  "ekey e = Some ek \<Longrightarrow> okey x = None \<Longrightarrow>
     merge_join ekey okey (e # es) (x # os) = add_left_o x (merge_join ekey okey (e # es) os)"
  "ekey e = Some ek \<Longrightarrow> okey x = Some ok \<Longrightarrow> ek < ok \<Longrightarrow>
     merge_join ekey okey (e # es) (x # os) = add_left_e e (merge_join ekey okey es (x # os))"
  "ekey e = Some ek \<Longrightarrow> okey x = Some ok \<Longrightarrow> ok < ek \<Longrightarrow>
     merge_join ekey okey (e # es) (x # os) = add_left_o x (merge_join ekey okey (e # es) os)"
  "ekey e = Some k \<Longrightarrow> okey x = Some k \<Longrightarrow>
     merge_join ekey okey (e # es) (x # os) =
       emit_group k (e # takeWhile (\<lambda>y. ekey y = Some k) es) (x # takeWhile (\<lambda>y. okey y = Some k) os)
         (merge_join ekey okey (dropWhile (\<lambda>y. ekey y = Some k) es) (dropWhile (\<lambda>y. okey y = Some k) os))"
  by simp_all

declare merge_join.simps(3) [simp del]

lemma merge_join_induct [case_names Nil_e Nil_o None_e None_o less greater group]:
  fixes ekey :: "'e \<Rightarrow> 'k::linorder option" and okey :: "'o \<Rightarrow> 'k option"
  assumes "\<And>os. P [] os" "\<And>es. P es []"
    and "\<And>e es x os. ekey e = None \<Longrightarrow> P es (x # os) \<Longrightarrow> P (e # es) (x # os)"
    and "\<And>e es x os k. ekey e = Some k \<Longrightarrow> okey x = None \<Longrightarrow> P (e # es) os \<Longrightarrow> P (e # es) (x # os)"
    and "\<And>e es x os j k. ekey e = Some j \<Longrightarrow> okey x = Some k \<Longrightarrow> j < k \<Longrightarrow> P es (x # os) \<Longrightarrow> P (e # es) (x # os)"
    and "\<And>e es x os j k. ekey e = Some j \<Longrightarrow> okey x = Some k \<Longrightarrow> k < j \<Longrightarrow> P (e # es) os \<Longrightarrow> P (e # es) (x # os)"
    and "\<And>e es x os k. ekey e = Some k \<Longrightarrow> okey x = Some k \<Longrightarrow>
       P (dropWhile (\<lambda>y. ekey y = Some k) es) (dropWhile (\<lambda>y. okey y = Some k) os) \<Longrightarrow> P (e # es) (x # os)"
  shows "P es os"
proof (induction "length es + length os" arbitrary: es os rule: less_induct)
  case less
  show ?case
  proof (cases es; cases os)
    fix e es' x os'
    assume c: "es = e # es'" "os = x # os'"
    have shorter: "length (dropWhile (\<lambda>y. ekey y = Some k) es') + length (dropWhile (\<lambda>y. okey y = Some k) os')
      < length es + length os" for k
      using c by (auto simp: less_Suc_eq_le intro!: le_SucI add_mono length_dropWhile_le)
    show ?thesis
    proof (cases "ekey e"; cases "okey x")
      fix j k
      assume k: "ekey e = Some j" "okey x = Some k"
      show ?thesis
      proof (cases j k rule: linorder_cases)
        case equal
        then show ?thesis
          using assms(7) [of e k x es' os'] k less shorter c by simp
      qed (use assms(5,6) k less c in auto)
    qed (use assms(3,4) less c in auto)
  qed (use assms(1,2) in auto)
qed

text \<open>Every item ends up in exactly one of the two places of its side.\<close>

lemma mset_zip_fst: "mset (map fst (zip xs ys)) + mset (drop (min (length xs) (length ys)) xs) = mset xs"
proof -
  have "map fst (zip xs ys) = take (min (length xs) (length ys)) xs"
    by (simp add: map_fst_zip_take min.commute)
  then show ?thesis
    by (metis append_take_drop_id mset_append)
qed

lemma mset_zip_snd: "mset (map snd (zip xs ys)) + mset (drop (min (length xs) (length ys)) ys) = mset ys"
proof -
  have "map snd (zip xs ys) = take (min (length xs) (length ys)) ys"
    by (simp add: map_snd_zip_take min.commute)
  then show ?thesis
    by (metis append_take_drop_id mset_append)
qed

lemma mset_takeWhile_dropWhile: "mset (takeWhile P xs) + mset (dropWhile P xs) = mset xs"
  by (metis mset_append takeWhile_dropWhile_id)

lemma emit_group_partition_e:
  "mset (map fst (jr_matched (emit_group k g h r))) + mset (jr_left_e (emit_group k g h r)) =
     mset g + (mset (map fst (jr_matched r)) + mset (jr_left_e r))"
proof -
  have "mset (map fst (jr_matched (emit_group k g h r))) + mset (jr_left_e (emit_group k g h r)) =
      (mset (map fst (zip g h)) + mset (drop (min (length g) (length h)) g))
        + (mset (map fst (jr_matched r)) + mset (jr_left_e r))"
    by (simp add: emit_group_def Let_def ac_simps)
  then show ?thesis by (simp only: mset_zip_fst)
qed

lemma emit_group_partition_o:
  "mset (map snd (jr_matched (emit_group k g h r))) + mset (jr_left_o (emit_group k g h r)) =
     mset h + (mset (map snd (jr_matched r)) + mset (jr_left_o r))"
proof -
  have "mset (map snd (jr_matched (emit_group k g h r))) + mset (jr_left_o (emit_group k g h r)) =
      (mset (map snd (zip g h)) + mset (drop (min (length g) (length h)) h))
        + (mset (map snd (jr_matched r)) + mset (jr_left_o r))"
    by (simp add: emit_group_def Let_def ac_simps)
  then show ?thesis by (simp only: mset_zip_snd)
qed

lemma merge_join_partition_e:
  "mset (map fst (jr_matched (merge_join ekey okey es os))) + mset (jr_left_e (merge_join ekey okey es os)) = mset es"
  by (induction es os rule: merge_join_induct [where ekey = ekey and okey = okey])
    (simp_all add: emit_group_partition_e mset_takeWhile_dropWhile del: mset_map)

lemma merge_join_partition_o:
  "mset (map snd (jr_matched (merge_join ekey okey es os))) + mset (jr_left_o (merge_join ekey okey es os)) = mset os"
  by (induction es os rule: merge_join_induct [where ekey = ekey and okey = okey])
    (simp_all add: emit_group_partition_o mset_takeWhile_dropWhile del: mset_map)

text \<open>A pair is only ever made of items with the same key, which both have.\<close>

lemma emit_group_matched:
  "(e, x) \<in> set (jr_matched (emit_group k g h r)) \<Longrightarrow> e \<in> set g \<and> x \<in> set h \<or> (e, x) \<in> set (jr_matched r)"
  by (auto simp: emit_group_def Let_def dest: set_zip_leftD set_zip_rightD)

lemma merge_join_sound:
  "(e, x) \<in> set (jr_matched (merge_join ekey okey es os)) \<Longrightarrow> \<exists>k. ekey e = Some k \<and> okey x = Some k"
  by (induction es os rule: merge_join_induct [where ekey = ekey and okey = okey])
    (auto dest!: emit_group_matched set_takeWhileD)

text \<open>
  On inputs sorted by key, items without a key last, the join is complete: an item left
  over on one side has no item left over with the same key on the other side.
\<close>

definition key_le :: "'k::linorder option \<Rightarrow> 'k option \<Rightarrow> bool" where
  "key_le a b = (case b of None \<Rightarrow> True | Some y \<Rightarrow> (case a of None \<Rightarrow> False | Some x \<Rightarrow> x \<le> y))"

lemma key_le_simps [simp]:
  "key_le a None" "\<not> key_le None (Some y)" "key_le (Some x) (Some y) \<longleftrightarrow> x \<le> y"
  by (simp_all add: key_le_def)

abbreviation key_sorted :: "('a \<Rightarrow> 'k::linorder option) \<Rightarrow> 'a list \<Rightarrow> bool" where
  "key_sorted f \<equiv> sorted_wrt (\<lambda>a b. key_le (f a) (f b))"

lemma key_sorted_tail: "key_sorted f (x # xs) \<Longrightarrow> key_sorted f xs"
  by simp

lemma key_sorted_dropWhile: "key_sorted f xs \<Longrightarrow> key_sorted f (dropWhile P xs)"
  by (metis sorted_wrt_append takeWhile_dropWhile_id)

lemma key_sorted_below:
  assumes "key_sorted f (x # xs)" "f x = Some k" "j < k" "y \<in> set (x # xs)"
  shows "f y \<noteq> Some j"
  using assms by auto

lemma key_sorted_past:
  assumes "key_sorted f (x # z # xs)" "f x = Some k" "f z \<noteq> Some k" "y \<in> set (z # xs)"
  shows "f y \<noteq> Some k"
proof (cases "f z")
  case None
  with assms show ?thesis by auto
next
  case (Some j)
  with assms have "k < j" by auto
  then show ?thesis
    using assms Some key_sorted_below [of f z xs j k y] by simp
qed

lemma key_sorted_group:
  assumes "key_sorted f (x # xs)" "f x = Some k"
  shows "takeWhile (\<lambda>y. f y = Some k) xs = filter (\<lambda>y. f y = Some k) xs
    \<and> (\<forall>y \<in> set (dropWhile (\<lambda>y. f y = Some k) xs). f y \<noteq> Some k)"
  using assms
proof (induction xs)
  case (Cons z xs)
  show ?case
  proof (cases "f z = Some k")
    case True
    have "key_sorted f (x # xs)" using Cons.prems(1) by auto
    note IH = Cons.IH [OF this Cons.prems(2)]
    show ?thesis
      using conjunct1 [OF IH] conjunct2 [OF IH] by (auto simp only: takeWhile.simps dropWhile.simps filter.simps True simp_thms if_True)
  next
    case False
    then have "\<forall>y \<in> set (z # xs). f y \<noteq> Some k"
      using key_sorted_past [OF Cons.prems] by blast
    then show ?thesis by (simp add: filter_empty_conv)
  qed
qed simp

lemma set_left_e: "a \<in> set (jr_left_e (merge_join ekey okey es os)) \<Longrightarrow> a \<in> set es"
  using merge_join_partition_e [of ekey okey es os]
  by (metis mset_subset_eq_add_right mset_subset_eqD set_mset_mset)

lemma set_left_o: "b \<in> set (jr_left_o (merge_join ekey okey es os)) \<Longrightarrow> b \<in> set os"
  using merge_join_partition_o [of ekey okey es os]
  by (metis mset_subset_eq_add_right mset_subset_eqD set_mset_mset)

lemma emit_group_left:
  assumes "e \<in> set (jr_left_e (emit_group k g h r))" "x \<in> set (jr_left_o (emit_group k g h r))"
  shows "(e \<in> set g \<or> e \<in> set (jr_left_e r)) \<and> (x \<in> set h \<or> x \<in> set (jr_left_o r))
    \<and> (e \<in> set (jr_left_e r) \<or> x \<in> set (jr_left_o r))"
  using assms by (cases "length g \<le> length h") (auto simp: emit_group_def Let_def dest: in_set_dropD)

lemma merge_join_complete:
  assumes "key_sorted ekey es" "key_sorted okey os"
    and "e \<in> set (jr_left_e (merge_join ekey okey es os))"
    and "x \<in> set (jr_left_o (merge_join ekey okey es os))"
    and "ekey e = Some k"
  shows "okey x \<noteq> Some k"
  using assms
proof (induction es os rule: merge_join_induct [where ekey = ekey and okey = okey])
  case (less e' es x' os i j)
  have "x \<in> set (x' # os)" using less by (auto dest: set_left_o)
  then have "okey x \<noteq> Some i"
    by (rule key_sorted_below [OF less.prems(2) less.hyps(2,3)])
  with less show ?case by auto
next
  case (greater e' es x' os i j)
  have "e \<in> set (e' # es)" using greater by (auto dest: set_left_e)
  then have "ekey e \<noteq> Some j"
    by (rule key_sorted_below [OF greater.prems(1) greater.hyps(1,3)])
  with greater show ?case by auto
next
  case (group e' es x' os j)
  let ?es = "dropWhile (\<lambda>y. ekey y = Some j) es" and ?os = "dropWhile (\<lambda>y. okey y = Some j) os"
  let ?r = "merge_join ekey okey ?es ?os"
  let ?g = "e' # takeWhile (\<lambda>y. ekey y = Some j) es" and ?h = "x' # takeWhile (\<lambda>y. okey y = Some j) os"
  have tails: "key_sorted ekey ?es" "key_sorted okey ?os"
    using group.prems by (auto intro: key_sorted_dropWhile)
  have eL: "ekey a \<noteq> Some j" if "a \<in> set (jr_left_e ?r)" for a
    using key_sorted_group [OF group.prems(1) group.hyps(1)] set_left_e [OF that] by blast
  have oL: "okey b \<noteq> Some j" if "b \<in> set (jr_left_o ?r)" for b
    using key_sorted_group [OF group.prems(2) group.hyps(2)] set_left_o [OF that] by blast
  have ge: "ekey a = Some j" if "a \<in> set ?g" for a
    using that group.hyps by (auto dest: set_takeWhileD)
  have go: "okey b = Some j" if "b \<in> set ?h" for b
    using that group.hyps by (auto dest: set_takeWhileD)
  have "e \<in> set (jr_left_e (emit_group j ?g ?h ?r))" "x \<in> set (jr_left_o (emit_group j ?g ?h ?r))"
    using group by simp_all
  note left = emit_group_left [OF this]
  show ?case
  proof (cases "e \<in> set (jr_left_e ?r) \<and> x \<in> set (jr_left_o ?r)")
    case True
    then show ?thesis using group.IH tails group.prems(5) by blast
  next
    case False
    then show ?thesis using left eL oL ge go group.prems(5) by (metis option.inject)
  qed
qed auto

text \<open>
  A duplicate group is reported for a key exactly when its side has several items with the
  key and the other side has at least one; the group lists all of them in order.
\<close>

lemma emit_group_dup_o [simp]:
  "jr_dup_o (emit_group k g h r) = (if 1 < length h then [(k, h)] else []) @ jr_dup_o r"
  by (simp add: emit_group_def Let_def)

lemma filter_key_dropWhile:
  "j \<noteq> k \<Longrightarrow> filter (\<lambda>y. f y = Some j) (dropWhile (\<lambda>y. f y = Some k) xs) = filter (\<lambda>y. f y = Some j) xs"
  by (induction xs) auto

lemma merge_join_dup_o:
  assumes "key_sorted ekey es" "key_sorted okey os"
  shows "(k, g) \<in> set (jr_dup_o (merge_join ekey okey es os)) \<longleftrightarrow>
    g = filter (\<lambda>y. okey y = Some k) os \<and> 1 < length g \<and> (\<exists>e \<in> set es. ekey e = Some k)"
  using assms
proof (induction es os rule: merge_join_induct [where ekey = ekey and okey = okey])
  case (less e' es x' os i j)
  have "filter (\<lambda>y. okey y = Some i) (x' # os) = []"
    using key_sorted_below [OF less.prems(2) less.hyps(2,3)] by (simp add: filter_empty_conv)
  with less show ?case by auto
next
  case (greater e' es x' os i j)
  have "\<not> (\<exists>e \<in> set (e' # es). ekey e = Some j)"
    using key_sorted_below [OF greater.prems(1) greater.hyps(1,3)] by blast
  with greater show ?case by auto
next
  case (group e' es x' os j)
  let ?es = "dropWhile (\<lambda>y. ekey y = Some j) es" and ?os = "dropWhile (\<lambda>y. okey y = Some j) os"
  have tails: "key_sorted ekey ?es" "key_sorted okey ?os"
    using group.prems by (auto intro: key_sorted_dropWhile)
  have o_group: "x' # takeWhile (\<lambda>y. okey y = Some j) os = filter (\<lambda>y. okey y = Some j) (x' # os)"
    using conjunct1 [OF key_sorted_group [OF group.prems(2) group.hyps(2)]]
    by (simp only: filter.simps group.hyps(2) if_True simp_thms)
  show ?case
  proof (cases "k = j")
    case True
    have "\<not> (\<exists>e \<in> set ?es. ekey e = Some j)"
      using key_sorted_group [OF group.prems(1) group.hyps(1)] by blast
    then have "(j, g) \<notin> set (jr_dup_o (merge_join ekey okey ?es ?os))"
      using group.IH [OF tails] True by blast
    moreover have "\<exists>e \<in> set (e' # es). ekey e = Some j"
      using group.hyps by auto
    ultimately show ?thesis
      unfolding True merge_join_steps(5) [of ekey e' j okey x', OF group.hyps(1,2)] o_group emit_group_dup_o
      by auto
  next
    case False
    have "(\<exists>e \<in> set ?es. ekey e = Some k) \<longleftrightarrow> (\<exists>e \<in> set es. ekey e = Some k)"
      using filter_key_dropWhile [OF False, of ekey es] by (metis (mono_tags, lifting) filter_empty_conv)
    then show ?thesis
      using group.IH [OF tails] False group.hyps filter_key_dropWhile [OF False, of okey os] by auto
  qed
qed auto

text \<open>The join only sees the keys: renaming items commutes with it.\<close>

definition map_join :: "('e \<Rightarrow> 'e2) \<Rightarrow> ('o \<Rightarrow> 'o2) \<Rightarrow> ('e, 'o, 'k) join_result \<Rightarrow> ('e2, 'o2, 'k) join_result" where
  "map_join f g r =
     \<lparr>jr_matched = map (map_prod f g) (jr_matched r), jr_left_e = map f (jr_left_e r),
      jr_left_o = map g (jr_left_o r), jr_dup_e = map (map_prod id (map f)) (jr_dup_e r),
      jr_dup_o = map (map_prod id (map g)) (jr_dup_o r)\<rparr>"

lemma map_join_emit_group:
  "map_join f g (emit_group k a b r) = emit_group k (map f a) (map g b) (map_join f g r)"
  by (simp add: map_join_def emit_group_def Let_def drop_map zip_map_map map_prod_def)

lemma merge_join_map:
  "merge_join ekey okey (map f es) (map g os) =
     map_join f g (merge_join (\<lambda>e. ekey (f e)) (\<lambda>x. okey (g x)) es os)"
  by (induction es os rule: merge_join_induct [where ekey = "\<lambda>e. ekey (f e)" and okey = "\<lambda>x. okey (g x)"])
    (simp_all add: map_join_emit_group takeWhile_map dropWhile_map comp_def, simp_all add: map_join_def)

section \<open>Merging sorted runs\<close>

text \<open>
  \<open>heapq.merge(*runs, key=key)\<close>: repeatedly the head with the least key, from the first
  run among those whose heads share it.
\<close>

fun pick :: "('a \<Rightarrow> 'k::linorder) \<Rightarrow> 'a list list \<Rightarrow> ('a \<times> 'a list list) option" where
  "pick key [] = None"
| "pick key ([] # rs) = map_option (\<lambda>(y, rs'). (y, [] # rs')) (pick key rs)"
| "pick key ((x # xs) # rs) =
     (case pick key rs of
        None \<Rightarrow> Some (x, xs # rs)
      | Some (y, rs') \<Rightarrow> if key x \<le> key y then Some (x, xs # rs) else Some (y, (x # xs) # rs'))"

lemma pick_length: "pick key rs = Some (y, rs') \<Longrightarrow> length (concat rs) = Suc (length (concat rs'))"
  by (induction key rs arbitrary: y rs' rule: pick.induct) (auto split: option.splits if_splits)

function heapq_merge :: "('a \<Rightarrow> 'k::linorder) \<Rightarrow> 'a list list \<Rightarrow> 'a list" where
  "heapq_merge key rs = (case pick key rs of None \<Rightarrow> [] | Some (y, rs') \<Rightarrow> y # heapq_merge key rs')"
  by pat_completeness auto
termination
  by (relation "measure (\<lambda>(key, rs). length (concat rs))") (auto dest: pick_length)

declare heapq_merge.simps [simp del]

lemma pick_None: "pick key rs = None \<longleftrightarrow> concat rs = []"
  by (induction key rs rule: pick.induct) (auto split: option.splits if_splits)

lemma pick_mset: "pick key rs = Some (y, rs') \<Longrightarrow> mset (concat rs) = add_mset y (mset (concat rs'))"
  by (induction key rs arbitrary: y rs' rule: pick.induct) (auto split: option.splits if_splits)

definition runs_sorted :: "('a \<Rightarrow> 'k::linorder) \<Rightarrow> 'a list list \<Rightarrow> bool" where
  "runs_sorted key rs \<longleftrightarrow> (\<forall>r \<in> set rs. sorted (map key r))"

lemma runs_sorted_Cons [simp]: "runs_sorted key (r # rs) \<longleftrightarrow> sorted (map key r) \<and> runs_sorted key rs"
  by (simp add: runs_sorted_def)

lemma pick_sorted: "pick key rs = Some (y, rs') \<Longrightarrow> runs_sorted key rs \<Longrightarrow> runs_sorted key rs'"
  by (induction key rs arbitrary: y rs' rule: pick.induct) (auto split: option.splits if_splits)

lemma pick_least:
  "pick key rs = Some (y, rs') \<Longrightarrow> runs_sorted key rs \<Longrightarrow> z \<in> set (concat rs) \<Longrightarrow> key y \<le> key z"
proof (induction key rs arbitrary: y rs' rule: pick.induct)
  case (3 key x xs rs)
  show ?case
  proof (cases "pick key rs")
    case None
    with 3 show ?thesis by (auto simp: pick_None)
  next
    case (Some p)
    with 3 show ?thesis
      by (cases p) (force split: if_splits)
  qed
qed auto

text \<open>The element taken is the first of its key in the order of the runs.\<close>

lemma pick_stable:
  "pick key rs = Some (y, rs') \<Longrightarrow> runs_sorted key rs \<Longrightarrow>
     filter (\<lambda>z. key z = k) (concat rs) = (if key y = k then [y] else []) @ filter (\<lambda>z. key z = k) (concat rs')"
proof (induction key rs arbitrary: y rs' rule: pick.induct)
  case (3 key x xs rs)
  show ?case
  proof (cases "pick key rs")
    case None
    with 3 show ?thesis by auto
  next
    case (Some p)
    obtain z rs'' where p: "p = (z, rs'')" by (cases p)
    show ?thesis
    proof (cases "key x \<le> key z")
      case True
      with 3 Some p show ?thesis by auto
    next
      case False
      then have "filter (\<lambda>v. key v = key z) (x # xs) = []"
        using "3.prems"(2) by (auto simp: filter_empty_conv)
      with 3 Some p False show ?thesis by auto
    qed
  qed
qed auto

lemma heapq_merge_step: "pick key rs = Some (y, rs') \<Longrightarrow> heapq_merge key rs = y # heapq_merge key rs'"
  by (simp add: heapq_merge.simps [of key rs])

lemma heapq_merge_spec:
  "runs_sorted key rs \<Longrightarrow>
     mset (heapq_merge key rs) = mset (concat rs) \<and> sorted (map key (heapq_merge key rs)) \<and>
     (\<forall>k. filter (\<lambda>z. key z = k) (heapq_merge key rs) = filter (\<lambda>z. key z = k) (concat rs))"
proof (induction key rs rule: heapq_merge.induct)
  case (1 key rs)
  show ?case
  proof (cases "pick key rs")
    case None
    then have "concat rs = []" by (simp only: pick_None)
    then show ?thesis
      using None by (simp only: heapq_merge.simps [of key rs] option.case) simp
  next
    case (Some p)
    obtain y rs' where p: "pick key rs = Some (y, rs')" using Some by (cases p) simp
    note IH = "1.IH" [OF p refl pick_sorted [OF p "1.prems"]]
    have "key y \<le> key z" if "z \<in> set (heapq_merge key rs')" for z
    proof -
      have "z \<in># mset (concat rs')" using that IH by (metis set_mset_mset)
      then have "z \<in> set (concat rs)" using pick_mset [OF p] by (metis insert_iff set_mset_add_mset_insert set_mset_mset)
      then show ?thesis using pick_least [OF p "1.prems"] by blast
    qed
    then show ?thesis
      using IH pick_mset [OF p] pick_stable [OF p "1.prems"] by (simp add: heapq_merge_step [OF p])
  qed
qed

lemma heapq_merge_eq_sort_key:
  "runs_sorted key rs \<Longrightarrow> heapq_merge key rs = sort_key key (concat rs)"
  using heapq_merge_spec [of key rs] by (intro sort_key_unique [symmetric]) auto

section \<open>What the join relies on\<close>

text \<open>
  A provider of sorted input: all the items, in key order, items of equal key in arrival
  order. Any two providers feed the join the same list.
\<close>

locale sort_provider =
  fixes key :: "'a \<Rightarrow> 'k::linorder" and provide :: "'a list \<Rightarrow> 'e + 'a list" and valid :: "'a \<Rightarrow> bool"
  assumes provide_total: "list_all valid xs \<Longrightarrow> \<not> isl (provide xs)"
    and provide_mset: "list_all valid xs \<Longrightarrow> provide xs = Inr ys \<Longrightarrow> mset ys = mset xs"
    and provide_sorted: "list_all valid xs \<Longrightarrow> provide xs = Inr ys \<Longrightarrow> sorted (map key ys)"
    and provide_stable: "list_all valid xs \<Longrightarrow> provide xs = Inr ys \<Longrightarrow>
      filter (\<lambda>x. key x = k) ys = filter (\<lambda>x. key x = k) xs"
begin

lemma provide_eq:
  assumes "list_all valid xs"
  shows "provide xs = Inr (sort_key key xs)"
proof -
  obtain ys where ys: "provide xs = Inr ys"
    using provide_total [OF assms] by (cases "provide xs") auto
  have "sort_key key xs = ys"
    using provide_mset [OF assms ys] provide_sorted [OF assms ys] provide_stable [OF assms ys]
    by (intro sort_key_unique) auto
  then show ?thesis using ys by simp
qed

end

interpretation sorted_list: sort_provider key "\<lambda>xs. Inr (sort_key key xs)" "\<lambda>x. True" for key :: "'a \<Rightarrow> 'k::linorder"
  by unfold_locales (auto simp: sort_key_stable)

end
