(* ===== verification/Matching.thy ===== *)
theory Matching
  imports Connectors Merge_Join Py_Json "HOL-Library.Monad_Syntax"
begin

text \<open>
  \<open>ragledger.reconcile.matching\<close>: the matching levels, the expected points a manifest
  promises, the keys of both sides at every level, the multi-level matcher over the
  sort-merge join of \<open>Merge_Join\<close>, the suggestion passes, and the line format in which an
  expected point is spilled to disk. What a match outcome guarantees (both sides are
  partitioned, a pair shares the key of its level, nothing left over could still be closed)
  and the spill round trip are proved here.
\<close>

section \<open>Levels\<close>

datatype match_level = POINT_ID | EMBEDDING_ID | CHUNK_ID | SOURCE_VERSION | CONTENT_HASH

primrec level_number :: "match_level \<Rightarrow> nat" where
  "level_number POINT_ID = 1"
| "level_number EMBEDDING_ID = 2"
| "level_number CHUNK_ID = 3"
| "level_number SOURCE_VERSION = 4"
| "level_number CONTENT_HASH = 5"

text \<open>\<open>level.name.lower()\<close>.\<close>

primrec level_name_lower :: "match_level \<Rightarrow> pystr" where
  "level_name_lower POINT_ID = py ''point_id''"
| "level_name_lower EMBEDDING_ID = py ''embedding_id''"
| "level_name_lower CHUNK_ID = py ''chunk_id''"
| "level_name_lower SOURCE_VERSION = py ''source_version''"
| "level_name_lower CONTENT_HASH = py ''content_hash''"

definition CLOSING_LEVELS :: "match_level list" where
  "CLOSING_LEVELS = [POINT_ID, EMBEDDING_ID, CHUNK_ID]"

definition SUGGESTION_LEVELS :: "match_level list" where
  "SUGGESTION_LEVELS = [SOURCE_VERSION, CONTENT_HASH]"

definition confidence_for_level :: "match_level \<Rightarrow> pystr" where
  "confidence_for_level level =
     (if level \<in> set CLOSING_LEVELS then py ''high''
      else if level = SOURCE_VERSION then py ''medium'' else py ''low'')"

definition normalize_point_id :: "platform \<Rightarrow> point_id \<Rightarrow> pystr" where
  "normalize_point_id L point_id = canonicalize L point_id"

section \<open>Expected points\<close>

record expected_point =
  ep_binding_id :: pystr
  ep_target :: pystr
  ep_scope :: pystr
  ep_point_id :: point_id
  ep_embedding_id :: pystr
  ep_embedding_model :: "embedding_model_info option"
  ep_embedding_dimension :: "nat option"
  ep_embedding_vector_hash :: "pystr option"
  ep_chunk_id :: "pystr option"
  ep_parse_run_id :: "pystr option"
  ep_parser_name :: "pystr option"
  ep_parser_version :: "pystr option"
  ep_parser_config_hash :: "pystr option"
  ep_source_id :: "pystr option"
  ep_source_version_id :: "pystr option"
  ep_source_status :: "pystr option"
  ep_expected_payload_hash :: pystr
  ep_expected_payload_projection :: "dict option"
  ep_tenant_projection :: "pystr option"
  ep_acl_projection :: "pystr list option"
  ep_write_status :: "pystr option"
  ep_pii_assertion_ids :: "pystr list"
  ep_license_assertion_ids :: "pystr list"

definition coerce_acl_projection :: "platform \<Rightarrow> json option \<Rightarrow> pystr list option" where
  "coerce_acl_projection L value =
     (case value of
        None \<Rightarrow> None
      | Some JNull \<Rightarrow> None
      | Some (JList items) \<Rightarrow> Some (map (py_str L) items)
      | Some v \<Rightarrow> Some [py_str L v])"

definition coerce_tenant_projection :: "platform \<Rightarrow> json option \<Rightarrow> pystr option" where
  "coerce_tenant_projection L value =
     (case value of
        None \<Rightarrow> None
      | Some JNull \<Rightarrow> None
      | Some (JStr s) \<Rightarrow> Some s
      | Some (JObj d) \<Rightarrow>
          (case map_of d (py ''value'') of
             Some v \<Rightarrow> Some (py_str L v)
           | None \<Rightarrow> Some (py_str L (JObj d)))
      | Some v \<Rightarrow> Some (py_str L v))"

definition expected_point_of ::
  "platform \<Rightarrow> index_binding \<Rightarrow> embedding_record option \<Rightarrow> chunk_record option \<Rightarrow> parse_record option
   \<Rightarrow> source_record option \<Rightarrow> expected_point" where
  "expected_point_of L binding embedding chunk parse_run source =
     \<lparr>ep_binding_id = idx_id binding,
      ep_target = idx_target binding,
      ep_scope = idx_namespace binding,
      ep_point_id = idx_point_id binding,
      ep_embedding_id = idx_embedding_id binding,
      ep_embedding_model = map_option emb_model embedding,
      ep_embedding_dimension = map_option emb_dimension embedding,
      ep_embedding_vector_hash = Option.bind embedding emb_vector_hash,
      ep_chunk_id = map_option chk_id chunk,
      ep_parse_run_id = map_option prs_id parse_run,
      ep_parser_name = map_option prs_parser_name parse_run,
      ep_parser_version = map_option prs_parser_version parse_run,
      ep_parser_config_hash = Option.bind parse_run prs_config_hash,
      ep_source_id = map_option src_id source,
      ep_source_version_id = map_option src_version_id source,
      ep_source_status = map_option (\<lambda>s. source_status_value (src_status s)) source,
      ep_expected_payload_hash = idx_expected_payload_hash binding,
      ep_expected_payload_projection = idx_expected_payload_projection binding,
      ep_tenant_projection = coerce_tenant_projection L (idx_tenant_projection binding),
      ep_acl_projection = coerce_acl_projection L (idx_acl_projection binding),
      ep_write_status = map_option write_status_value (idx_write_status binding),
      ep_pii_assertion_ids = (case chunk of None \<Rightarrow> [] | Some c \<Rightarrow> chk_pii_assertion_ids c),
      ep_license_assertion_ids = (case chunk of None \<Rightarrow> [] | Some c \<Rightarrow> chk_license_assertion_ids c)\<rparr>"

definition resolve_expected_points :: "platform \<Rightarrow> manifest_envelope \<Rightarrow> pystr \<Rightarrow> pystr \<Rightarrow> expected_point list" where
  "resolve_expected_points L manifest target scope =
     (let embeddings_by_id = dict_of emb_id (mf_embeddings manifest);
          chunks_by_id = dict_of chk_id (mf_chunks manifest);
          parse_runs_by_id = dict_of prs_id (mf_parse_runs manifest);
          sources_by_version = dict_of src_version_id (mf_sources manifest)
      in map (\<lambda>binding.
            let embedding = embeddings_by_id (idx_embedding_id binding);
                chunk = Option.bind embedding (\<lambda>e. chunks_by_id (emb_chunk_id e));
                parse_run = Option.bind chunk (\<lambda>c. parse_runs_by_id (chk_parse_run_id c));
                source = Option.bind chunk (\<lambda>c. sources_by_version (chk_source_version_id c))
            in expected_point_of L binding embedding chunk parse_run source)
          (filter (\<lambda>binding. idx_target binding = target \<and> idx_namespace binding = scope)
             (mf_index_bindings manifest)))"

section \<open>Keys\<close>

primrec expected_key :: "platform \<Rightarrow> match_level \<Rightarrow> expected_point \<Rightarrow> pystr option" where
  "expected_key L POINT_ID item = Some (normalize_point_id L (ep_point_id item))"
| "expected_key L EMBEDDING_ID item = Some (ep_embedding_id item)"
| "expected_key L CHUNK_ID item = ep_chunk_id item"
| "expected_key L SOURCE_VERSION item = ep_source_version_id item"
| "expected_key L CONTENT_HASH item = Some (ep_expected_payload_hash item)"

primrec observed_key :: "platform \<Rightarrow> match_level \<Rightarrow> normalized_point \<Rightarrow> pystr option" where
  "observed_key L POINT_ID item = Some (normalize_point_id L (np_point_id item))"
| "observed_key L EMBEDDING_ID item = np_embedding_id item"
| "observed_key L CHUNK_ID item = np_chunk_id item"
| "observed_key L SOURCE_VERSION item = np_source_version_id item"
| "observed_key L CONTENT_HASH item = Some (np_payload_hash item)"

text \<open>\<open>(value is None, value or "")\<close>.\<close>

definition none_last :: "pystr option \<Rightarrow> bool \<times> pystr" where
  "none_last value = (value = None, case value of None \<Rightarrow> [] | Some v \<Rightarrow> v)"

definition expected_sort_key :: "platform \<Rightarrow> match_level \<Rightarrow> expected_point \<Rightarrow> bool \<times> pystr" where
  "expected_sort_key L level item = none_last (expected_key L level item)"

definition observed_sort_key :: "platform \<Rightarrow> match_level \<Rightarrow> normalized_point \<Rightarrow> bool \<times> pystr" where
  "observed_sort_key L level item = none_last (observed_key L level item)"

section \<open>Matching\<close>

record matched_pair =
  mp_expected :: expected_point
  mp_observed :: normalized_point
  mp_level :: match_level
  mp_confidence :: pystr

record match_outcome =
  mo_matched :: "matched_pair list"
  mo_missing_expected :: "expected_point list"
  mo_orphan_observed :: "normalized_point list"
  mo_duplicate_expected_groups :: "(match_level \<times> pystr \<times> expected_point list) list"
  mo_duplicate_observed_groups :: "(match_level \<times> pystr \<times> normalized_point list) list"
  mo_relocation_candidates :: "(pystr \<times> pystr list) list"
  mo_orphan_candidates :: "(pystr \<times> pystr list) list"

text \<open>The calls a join makes to its callbacks, each in order.\<close>

record join_events =
  on_matched :: "matched_pair list"
  on_leftover_expected :: "expected_point list"
  on_leftover_observed :: "normalized_point list"
  on_duplicate_expected :: "(match_level \<times> pystr \<times> expected_point list) list"
  on_duplicate_observed :: "(match_level \<times> pystr \<times> normalized_point list) list"

definition pair_of :: "match_level \<Rightarrow> expected_point \<times> normalized_point \<Rightarrow> matched_pair" where
  "pair_of level p =
     \<lparr>mp_expected = fst p, mp_observed = snd p, mp_level = level, mp_confidence = confidence_for_level level\<rparr>"

definition stream_merge_join ::
  "platform \<Rightarrow> match_level \<Rightarrow> expected_point list \<Rightarrow> normalized_point list \<Rightarrow> join_events" where
  "stream_merge_join L level expected_sorted observed_sorted =
     (let r = merge_join (expected_key L level) (observed_key L level) expected_sorted observed_sorted
      in \<lparr>on_matched = map (pair_of level) (jr_matched r),
          on_leftover_expected = jr_left_e r,
          on_leftover_observed = jr_left_o r,
          on_duplicate_expected = map (Pair level) (jr_dup_e r),
          on_duplicate_observed = map (Pair level) (jr_dup_o r)\<rparr>)"

text \<open>
  One matching round over what earlier rounds left. How the leftovers are brought into key
  order is the caller's business: in memory by \<open>sorted\<close>, or by spilling sorted runs.
\<close>

record match_state =
  ms_matched :: "matched_pair list"
  ms_duplicate_expected :: "(match_level \<times> pystr \<times> expected_point list) list"
  ms_duplicate_observed :: "(match_level \<times> pystr \<times> normalized_point list) list"
  ms_expected :: "expected_point list"
  ms_observed :: "normalized_point list"

definition absorb :: "match_state \<Rightarrow> join_events \<Rightarrow> match_state" where
  "absorb st ev =
     \<lparr>ms_matched = ms_matched st @ on_matched ev,
      ms_duplicate_expected = ms_duplicate_expected st @ on_duplicate_expected ev,
      ms_duplicate_observed = ms_duplicate_observed st @ on_duplicate_observed ev,
      ms_expected = on_leftover_expected ev,
      ms_observed = on_leftover_observed ev\<rparr>"

definition match_round :: "platform \<Rightarrow> match_state \<Rightarrow> match_level \<Rightarrow> match_state" where
  "match_round L st level =
     absorb st (stream_merge_join L level
       (sort_key (expected_sort_key L level) (ms_expected st))
       (sort_key (observed_sort_key L level) (ms_observed st)))"

definition suggest :: "platform \<Rightarrow> ((pystr \<times> pystr list) list \<times> (pystr \<times> pystr list) list) \<Rightarrow> matched_pair
    \<Rightarrow> (pystr \<times> pystr list) list \<times> (pystr \<times> pystr list) list" where
  "suggest L acc pair =
     (case acc of (relocation, orphan) \<Rightarrow>
        let okey = normalize_point_id L (np_point_id (mp_observed pair)); binding = ep_binding_id (mp_expected pair)
        in (dict_append binding okey relocation, dict_append okey binding orphan))"

definition suggestion_pairs :: "platform \<Rightarrow> match_level \<Rightarrow> expected_point list \<Rightarrow> normalized_point list \<Rightarrow> matched_pair list" where
  "suggestion_pairs L level expected observed =
     on_matched (stream_merge_join L level (sort_key (expected_sort_key L level) expected)
       (sort_key (observed_sort_key L level) observed))"

definition relocation_suggestions ::
  "platform \<Rightarrow> expected_point list \<Rightarrow> normalized_point list
   \<Rightarrow> (pystr \<times> pystr list) list \<times> (pystr \<times> pystr list) list" where
  "relocation_suggestions L expected observed =
     foldl (\<lambda>acc level. foldl (suggest L) acc (suggestion_pairs L level expected observed)) ([], []) SUGGESTION_LEVELS"

definition initial_state :: "expected_point list \<Rightarrow> normalized_point list \<Rightarrow> match_state" where
  "initial_state expected observed =
     \<lparr>ms_matched = [], ms_duplicate_expected = [], ms_duplicate_observed = [],
      ms_expected = expected, ms_observed = observed\<rparr>"

definition outcome_of :: "platform \<Rightarrow> match_state \<Rightarrow> match_outcome" where
  "outcome_of L st =
     (let (relocation, orphan) = relocation_suggestions L (ms_expected st) (ms_observed st)
      in \<lparr>mo_matched = ms_matched st,
          mo_missing_expected = ms_expected st,
          mo_orphan_observed = ms_observed st,
          mo_duplicate_expected_groups = ms_duplicate_expected st,
          mo_duplicate_observed_groups = ms_duplicate_observed st,
          mo_relocation_candidates = relocation,
          mo_orphan_candidates = orphan\<rparr>)"

definition match_all_levels :: "platform \<Rightarrow> expected_point list \<Rightarrow> normalized_point list \<Rightarrow> match_outcome" where
  "match_all_levels L expected observed =
     outcome_of L (foldl (match_round L) (initial_state expected observed) CLOSING_LEVELS)"

section \<open>Spill lines\<close>

definition opt_str :: "pystr option \<Rightarrow> json" where
  "opt_str s = (case s of None \<Rightarrow> JNull | Some t \<Rightarrow> JStr t)"

definition str_list :: "pystr list \<Rightarrow> json" where
  "str_list ss = JList (map JStr ss)"

definition dump_embedding_model :: "embedding_model_info \<Rightarrow> json" where
  "dump_embedding_model m =
     JObj [(py ''provider'', JStr (mdl_provider m)), (py ''name'', JStr (mdl_name m)), (py ''revision'', JStr (mdl_revision m))]"

definition expected_point_to_dict :: "expected_point \<Rightarrow> dict" where
  "expected_point_to_dict item =
     [(py ''binding_id'', JStr (ep_binding_id item)),
      (py ''target'', JStr (ep_target item)),
      (py ''scope'', JStr (ep_scope item)),
      (py ''point_id'', ep_point_id item),
      (py ''embedding_id'', JStr (ep_embedding_id item)),
      (py ''embedding_model'', (case ep_embedding_model item of None \<Rightarrow> JNull | Some m \<Rightarrow> dump_embedding_model m)),
      (py ''embedding_dimension'', (case ep_embedding_dimension item of None \<Rightarrow> JNull | Some n \<Rightarrow> JInt (int n))),
      (py ''embedding_vector_hash'', opt_str (ep_embedding_vector_hash item)),
      (py ''chunk_id'', opt_str (ep_chunk_id item)),
      (py ''parse_run_id'', opt_str (ep_parse_run_id item)),
      (py ''parser_name'', opt_str (ep_parser_name item)),
      (py ''parser_version'', opt_str (ep_parser_version item)),
      (py ''parser_config_hash'', opt_str (ep_parser_config_hash item)),
      (py ''source_id'', opt_str (ep_source_id item)),
      (py ''source_version_id'', opt_str (ep_source_version_id item)),
      (py ''source_status'', opt_str (ep_source_status item)),
      (py ''expected_payload_hash'', JStr (ep_expected_payload_hash item)),
      (py ''expected_payload_projection'', (case ep_expected_payload_projection item of Some (m # d) \<Rightarrow> JObj (m # d) | _ \<Rightarrow> JNull)),
      (py ''tenant_projection'', opt_str (ep_tenant_projection item)),
      (py ''acl_projection'', (case ep_acl_projection item of None \<Rightarrow> JNull | Some entries \<Rightarrow> str_list entries)),
      (py ''write_status'', opt_str (ep_write_status item)),
      (py ''pii_assertion_ids'', str_list (ep_pii_assertion_ids item)),
      (py ''license_assertion_ids'', str_list (ep_license_assertion_ids item))]"

definition expected_point_to_json_bytes :: "expected_point \<Rightarrow> bytes" where
  "expected_point_to_json_bytes item = utf8_encode (dumps (JObj (expected_point_to_dict item)))"

text \<open>
  Reading back: \<open>None\<close> is a \<open>KeyError\<close>, a validation error, or a value that does not
  have the type its field declares.
\<close>

definition dict_get :: "dict \<Rightarrow> string \<Rightarrow> json" where
  "dict_get data key = (case map_of data (py key) of None \<Rightarrow> JNull | Some v \<Rightarrow> v)"

definition as_str :: "json \<Rightarrow> pystr option" where
  "as_str v = (case v of JStr s \<Rightarrow> Some s | _ \<Rightarrow> None)"

definition as_opt_str :: "json \<Rightarrow> pystr option option" where
  "as_opt_str v = (case v of JNull \<Rightarrow> Some None | JStr s \<Rightarrow> Some (Some s) | _ \<Rightarrow> None)"

definition as_opt_nat :: "json \<Rightarrow> nat option option" where
  "as_opt_nat v = (case v of JNull \<Rightarrow> Some None | JInt i \<Rightarrow> if 0 \<le> i then Some (Some (nat i)) else None | _ \<Rightarrow> None)"

definition as_opt_dict :: "json \<Rightarrow> dict option option" where
  "as_opt_dict v = (case v of JNull \<Rightarrow> Some None | JObj d \<Rightarrow> Some (Some d) | _ \<Rightarrow> None)"

definition as_str_list :: "json \<Rightarrow> pystr list option" where
  "as_str_list v = (case v of JList vs \<Rightarrow> those (map as_str vs) | _ \<Rightarrow> None)"

definition as_opt_str_list :: "json \<Rightarrow> pystr list option option" where
  "as_opt_str_list v = (case v of JNull \<Rightarrow> Some None | _ \<Rightarrow> map_option Some (as_str_list v))"

text \<open>\<open>EmbeddingModelInfo.model_validate(model) if model else None\<close>.\<close>

definition nonempty_str :: "json \<Rightarrow> pystr option" where
  "nonempty_str v = (case v of JStr (c # cs) \<Rightarrow> Some (c # cs) | _ \<Rightarrow> None)"

definition load_embedding_model :: "json \<Rightarrow> embedding_model_info option option" where
  "load_embedding_model v =
     (case v of
        JNull \<Rightarrow> Some None
      | JObj [] \<Rightarrow> Some None
      | JObj d \<Rightarrow>
          if \<not> fst ` set d \<subseteq> {py ''provider'', py ''name'', py ''revision''} then None
          else do {
            provider \<leftarrow> map_of d (py ''provider'') \<bind> nonempty_str;
            name \<leftarrow> map_of d (py ''name'') \<bind> nonempty_str;
            revision \<leftarrow> map_of d (py ''revision'') \<bind> nonempty_str;
            Some (Some \<lparr>mdl_provider = provider, mdl_name = name, mdl_revision = revision\<rparr>)
          }
      | _ \<Rightarrow> None)"

definition expected_point_from_dict :: "dict \<Rightarrow> expected_point option" where
  "expected_point_from_dict data =
     do {
        binding_id \<leftarrow> map_of data (py ''binding_id'') \<bind> as_str;
        target \<leftarrow> map_of data (py ''target'') \<bind> as_str;
        scope \<leftarrow> map_of data (py ''scope'') \<bind> as_str;
        point_id \<leftarrow> map_of data (py ''point_id'');
        embedding_id \<leftarrow> map_of data (py ''embedding_id'') \<bind> as_str;
        embedding_model \<leftarrow> load_embedding_model (dict_get data ''embedding_model'');
        embedding_dimension \<leftarrow> as_opt_nat (dict_get data ''embedding_dimension'');
        embedding_vector_hash \<leftarrow> as_opt_str (dict_get data ''embedding_vector_hash'');
        chunk_id \<leftarrow> as_opt_str (dict_get data ''chunk_id'');
        parse_run_id \<leftarrow> as_opt_str (dict_get data ''parse_run_id'');
        parser_name \<leftarrow> as_opt_str (dict_get data ''parser_name'');
        parser_version \<leftarrow> as_opt_str (dict_get data ''parser_version'');
        parser_config_hash \<leftarrow> as_opt_str (dict_get data ''parser_config_hash'');
        source_id \<leftarrow> as_opt_str (dict_get data ''source_id'');
        source_version_id \<leftarrow> as_opt_str (dict_get data ''source_version_id'');
        source_status \<leftarrow> as_opt_str (dict_get data ''source_status'');
        expected_payload_hash \<leftarrow> map_of data (py ''expected_payload_hash'') \<bind> as_str;
        expected_payload_projection \<leftarrow> as_opt_dict (dict_get data ''expected_payload_projection'');
        tenant_projection \<leftarrow> as_opt_str (dict_get data ''tenant_projection'');
        acl_projection \<leftarrow> as_opt_str_list (dict_get data ''acl_projection'');
        write_status \<leftarrow> as_opt_str (dict_get data ''write_status'');
        pii_assertion_ids \<leftarrow> (case map_of data (py ''pii_assertion_ids'') of None \<Rightarrow> Some [] | Some v \<Rightarrow> as_str_list v);
        license_assertion_ids \<leftarrow> (case map_of data (py ''license_assertion_ids'') of None \<Rightarrow> Some [] | Some v \<Rightarrow> as_str_list v);
        Some \<lparr>ep_binding_id = binding_id,
           ep_target = target,
           ep_scope = scope,
           ep_point_id = point_id,
           ep_embedding_id = embedding_id,
           ep_embedding_model = embedding_model,
           ep_embedding_dimension = embedding_dimension,
           ep_embedding_vector_hash = embedding_vector_hash,
           ep_chunk_id = chunk_id,
           ep_parse_run_id = parse_run_id,
           ep_parser_name = parser_name,
           ep_parser_version = parser_version,
           ep_parser_config_hash = parser_config_hash,
           ep_source_id = source_id,
           ep_source_version_id = source_version_id,
           ep_source_status = source_status,
           ep_expected_payload_hash = expected_payload_hash,
           ep_expected_payload_projection = expected_payload_projection,
           ep_tenant_projection = tenant_projection,
           ep_acl_projection = acl_projection,
           ep_write_status = write_status,
           ep_pii_assertion_ids = pii_assertion_ids,
           ep_license_assertion_ids = license_assertion_ids\<rparr>
     }"

definition expected_point_from_json_bytes :: "bytes \<Rightarrow> expected_point option" where
  "expected_point_from_json_bytes data =
     (case loads data of Some (JObj d) \<Rightarrow> expected_point_from_dict d | _ \<Rightarrow> None)"

text \<open>
  What a spilled point comes back as: itself, except that an empty payload projection is
  written as \<open>null\<close>.
\<close>

definition respill :: "expected_point \<Rightarrow> expected_point" where
  "respill item = item\<lparr>ep_expected_payload_projection :=
     (case ep_expected_payload_projection item of Some [] \<Rightarrow> None | p \<Rightarrow> p)\<rparr>"

definition spillable :: "expected_point \<Rightarrow> bool" where
  "spillable item \<longleftrightarrow>
     list_all (\<lambda>m. storable (snd m)) (expected_point_to_dict item) \<and>
     (case ep_embedding_model item of
        None \<Rightarrow> True
      | Some m \<Rightarrow> mdl_provider m \<noteq> [] \<and> mdl_name m \<noteq> [] \<and> mdl_revision m \<noteq> [])"

lemma as_str_list_str_list [simp]: "as_str_list (str_list ss) = Some ss"
proof -
  have "those (map (\<lambda>x. as_str (JStr x)) ss) = Some ss"
    by (induction ss) (simp_all add: as_str_def)
  then show ?thesis by (simp add: as_str_list_def str_list_def comp_def)
qed

lemma spill_field_roundtrips [simp]:
  "as_str (JStr s) = Some s" "as_opt_str (opt_str os) = Some os"
  "as_opt_str_list JNull = Some None" "as_opt_str_list (str_list ss) = Some (Some ss)"
  "as_opt_nat JNull = Some None" "as_opt_nat (JInt (int n)) = Some (Some n)"
  "as_opt_dict JNull = Some None" "as_opt_dict (JObj d) = Some (Some d)"
  by (simp_all add: as_str_def as_opt_str_def opt_str_def as_opt_nat_def as_opt_dict_def split: option.split)
    (use as_str_list_str_list [of ss] in \<open>simp_all add: as_opt_str_list_def str_list_def\<close>)

lemma load_dump_embedding_model:
  "mdl_provider m \<noteq> [] \<Longrightarrow> mdl_name m \<noteq> [] \<Longrightarrow> mdl_revision m \<noteq> [] \<Longrightarrow>
     load_embedding_model (dump_embedding_model m) = Some (Some m)"
  by (cases m) (auto simp: load_embedding_model_def dump_embedding_model_def nonempty_str_def neq_Nil_conv)

lemma load_embedding_model_JNull [simp]: "load_embedding_model JNull = Some None"
  by (simp add: load_embedding_model_def)

lemma expected_point_dict_roundtrip:
  assumes "spillable item"
  shows "expected_point_from_dict (expected_point_to_dict item) = Some (respill item)"
proof -
  have m: "load_embedding_model (case ep_embedding_model item of None \<Rightarrow> JNull | Some m \<Rightarrow> dump_embedding_model m)
      = Some (ep_embedding_model item)"
    using assms by (auto simp: spillable_def load_dump_embedding_model split: option.splits)
  have n: "as_opt_nat (case ep_embedding_dimension item of None \<Rightarrow> JNull | Some n \<Rightarrow> JInt (int n))
      = Some (ep_embedding_dimension item)"
    by (simp split: option.split)
  have p: "as_opt_dict (case ep_expected_payload_projection item of Some (m # d) \<Rightarrow> JObj (m # d) | _ \<Rightarrow> JNull)
      = Some (ep_expected_payload_projection (respill item))"
    by (simp add: respill_def split: option.split list.split)
  have a: "as_opt_str_list (case ep_acl_projection item of None \<Rightarrow> JNull | Some entries \<Rightarrow> str_list entries)
      = Some (ep_acl_projection item)"
    by (simp split: option.split)
  show ?thesis
    by (simp add: expected_point_from_dict_def expected_point_to_dict_def dict_get_def m n p a)
      (simp add: respill_def)
qed

lemma expected_point_to_dict_keys: "distinct (map fst (expected_point_to_dict item))"
  and scalar_expected_point_keys: "list_all (list_all scalar) (map fst (expected_point_to_dict item))"
  by (simp_all add: expected_point_to_dict_def) (simp add: py_def scalar_def)

lemma expected_point_json_roundtrip:
  assumes "spillable item"
  shows "expected_point_from_json_bytes (expected_point_to_json_bytes item) = Some (respill item)"
proof -
  have "storable (JObj (expected_point_to_dict item))"
    using assms expected_point_to_dict_keys [of item] scalar_expected_point_keys [of item]
    by (auto simp: spillable_def list_all_iff)
  note loads_dumps [OF this]
  then show ?thesis
    using expected_point_dict_roundtrip [OF assms]
    by (simp add: expected_point_from_json_bytes_def expected_point_to_json_bytes_def del: dumps_with.simps)
qed

section \<open>What a match outcome guarantees\<close>

lemma none_last_le: "none_last a \<le> none_last b \<longleftrightarrow> key_le a b \<and> (a = None \<longrightarrow> b = None)"
  by (cases a; cases b) (auto simp: none_last_def)

lemma key_sorted_sort_key: "key_sorted f (sort_key (\<lambda>x. none_last (f x)) xs)"
proof -
  have "sorted_wrt (\<lambda>a b. none_last (f a) \<le> none_last (f b)) (sort_key (\<lambda>x. none_last (f x)) xs)"
    using sorted_sort_key [of "\<lambda>x. none_last (f x)" xs] by (simp add: sorted_map)
  then show ?thesis
    by (rule sorted_wrt_mono_rel [rotated]) (simp add: none_last_le)
qed

abbreviation sorted_expected :: "platform \<Rightarrow> match_level \<Rightarrow> expected_point list \<Rightarrow> expected_point list" where
  "sorted_expected L level \<equiv> sort_key (expected_sort_key L level)"

abbreviation sorted_observed :: "platform \<Rightarrow> match_level \<Rightarrow> normalized_point list \<Rightarrow> normalized_point list" where
  "sorted_observed L level \<equiv> sort_key (observed_sort_key L level)"

lemma key_sorted_expected: "key_sorted (expected_key L level) (sorted_expected L level es)"
  using key_sorted_sort_key [of "expected_key L level" es] by (simp add: expected_sort_key_def [abs_def])

lemma key_sorted_observed: "key_sorted (observed_key L level) (sorted_observed L level xs)"
  using key_sorted_sort_key [of "observed_key L level" xs] by (simp add: observed_sort_key_def [abs_def])

definition same_key :: "platform \<Rightarrow> match_level \<Rightarrow> expected_point \<Rightarrow> normalized_point \<Rightarrow> bool" where
  "same_key L level e x \<longleftrightarrow> expected_key L level e \<noteq> None \<and> expected_key L level e = observed_key L level x"

lemma pair_of_simps [simp]:
  "mp_expected (pair_of l p) = fst p" "mp_observed (pair_of l p) = snd p" "mp_level (pair_of l p) = l"
  "mp_confidence (pair_of l p) = confidence_for_level l"
  by (simp_all add: pair_of_def)

lemma join_partition:
  "mset (map mp_expected (on_matched (stream_merge_join L l es xs))) + mset (on_leftover_expected (stream_merge_join L l es xs)) = mset es"
  "mset (map mp_observed (on_matched (stream_merge_join L l es xs))) + mset (on_leftover_observed (stream_merge_join L l es xs)) = mset xs"
  using merge_join_partition_e [of "expected_key L l" "observed_key L l" es xs]
    merge_join_partition_o [of "expected_key L l" "observed_key L l" es xs]
  by (simp_all add: stream_merge_join_def Let_def comp_def)

lemma join_matched:
  assumes "p \<in> set (on_matched (stream_merge_join L l es xs))"
  shows "mp_level p = l \<and> mp_confidence p = confidence_for_level l \<and> same_key L l (mp_expected p) (mp_observed p)"
  using assms by (fastforce simp: stream_merge_join_def Let_def same_key_def dest: merge_join_sound)

lemma join_leftovers:
  assumes "e \<in> set (on_leftover_expected (stream_merge_join L l (sorted_expected L l es) (sorted_observed L l xs)))"
    and "x \<in> set (on_leftover_observed (stream_merge_join L l (sorted_expected L l es) (sorted_observed L l xs)))"
  shows "\<not> same_key L l e x"
  using assms merge_join_complete [OF key_sorted_expected [of L l es] key_sorted_observed [of L l xs], of e x]
  by (auto simp: stream_merge_join_def Let_def same_key_def dest: sym)

text \<open>The invariant of the rounds: \<open>past\<close> are the levels already joined, in order.\<close>

definition round_inv :: "platform \<Rightarrow> expected_point list \<Rightarrow> normalized_point list \<Rightarrow> match_level list \<Rightarrow> match_state \<Rightarrow> bool" where
  "round_inv L es xs past st \<longleftrightarrow>
     mset (map mp_expected (ms_matched st)) + mset (ms_expected st) = mset es \<and>
     mset (map mp_observed (ms_matched st)) + mset (ms_observed st) = mset xs \<and>
     (\<forall>p \<in> set (ms_matched st).
        mp_level p \<in> set past \<and> mp_confidence p = confidence_for_level (mp_level p) \<and>
        same_key L (mp_level p) (mp_expected p) (mp_observed p) \<and>
        (\<forall>l \<in> set (takeWhile (\<lambda>l. l \<noteq> mp_level p) past). \<not> same_key L l (mp_expected p) (mp_observed p))) \<and>
     (\<forall>l \<in> set past. \<forall>e \<in> set (ms_expected st). \<forall>x \<in> set (ms_observed st). \<not> same_key L l e x)"

lemma round_inv_initial: "round_inv L es xs [] (initial_state es xs)"
  by (simp add: round_inv_def initial_state_def)

lemma mset_split_mem:
  assumes "mset (map f ps) + mset ls = mset zs"
  shows "p \<in> set ps \<Longrightarrow> f p \<in> set zs" "z \<in> set ls \<Longrightarrow> z \<in> set zs"
proof -
  have "f ` set ps \<union> set ls = set zs"
    using assms by (metis list.set_map set_mset_mset set_mset_union)
  then show "p \<in> set ps \<Longrightarrow> f p \<in> set zs" "z \<in> set ls \<Longrightarrow> z \<in> set zs" by auto
qed

lemma round_inv_step:
  assumes inv: "round_inv L es xs past st" and new: "l \<notin> set past"
  shows "round_inv L es xs (past @ [l]) (match_round L st l)"
proof -
  let ?E = "sorted_expected L l (ms_expected st)" and ?O = "sorted_observed L l (ms_observed st)"
  let ?ev = "stream_merge_join L l ?E ?O"
  note e = join_partition(1) [of L l ?E ?O] and o = join_partition(2) [of L l ?E ?O]
  have mem: "\<And>p. p \<in> set (on_matched ?ev) \<Longrightarrow> mp_expected p \<in> set (ms_expected st) \<and> mp_observed p \<in> set (ms_observed st)"
    "\<And>a. a \<in> set (on_leftover_expected ?ev) \<Longrightarrow> a \<in> set (ms_expected st)"
    "\<And>b. b \<in> set (on_leftover_observed ?ev) \<Longrightarrow> b \<in> set (ms_observed st)"
    using mset_split_mem [OF e] mset_split_mem [OF o] by simp_all
  have old: "takeWhile (\<lambda>k. k \<noteq> mp_level p) (past @ [l]) = takeWhile (\<lambda>k. k \<noteq> mp_level p) past"
    if "p \<in> set (ms_matched st)" for p
    using inv that by (auto simp: round_inv_def intro: takeWhile_append1)
  have fresh: "takeWhile (\<lambda>k. k \<noteq> l) (past @ [l]) = past"
    using new by (induction past) auto
  have "mset (map mp_expected (ms_matched (match_round L st l))) + mset (ms_expected (match_round L st l)) = mset es"
    "mset (map mp_observed (ms_matched (match_round L st l))) + mset (ms_observed (match_round L st l)) = mset xs"
    using inv e o by (simp_all add: round_inv_def match_round_def absorb_def union_assoc)
  moreover have "\<not> same_key L k a b"
    if "k \<in> set (past @ [l])" "a \<in> set (ms_expected (match_round L st l))" "b \<in> set (ms_observed (match_round L st l))" for k a b
    using that inv mem(2,3) join_leftovers [of a L l "ms_expected st" "ms_observed st" b]
    by (auto simp: round_inv_def match_round_def absorb_def)
  moreover have "mp_level p \<in> set (past @ [l]) \<and> mp_confidence p = confidence_for_level (mp_level p) \<and>
      same_key L (mp_level p) (mp_expected p) (mp_observed p) \<and>
      (\<forall>k \<in> set (takeWhile (\<lambda>k. k \<noteq> mp_level p) (past @ [l])). \<not> same_key L k (mp_expected p) (mp_observed p))"
    if "p \<in> set (ms_matched (match_round L st l))" for p
  proof (cases "p \<in> set (ms_matched st)")
    case True
    then show ?thesis using inv unfolding old [OF True] by (simp add: round_inv_def)
  next
    case False
    then have p: "p \<in> set (on_matched ?ev)" using that by (simp add: match_round_def absorb_def)
    note lv = join_matched [OF p]
    show ?thesis using lv fresh mem(1) [OF p] inv by (auto simp: round_inv_def)
  qed
  ultimately show ?thesis unfolding round_inv_def by blast
qed

lemma round_inv_closing:
  "round_inv L es xs CLOSING_LEVELS (foldl (match_round L) (initial_state es xs) CLOSING_LEVELS)"
proof -
  have "round_inv L es xs (past @ ls) (foldl (match_round L) st ls)"
    if "round_inv L es xs past st" "distinct (past @ ls)" for past ls st
    using that
  proof (induction ls arbitrary: past st)
    case (Cons l ls)
    then show ?case
      using Cons.IH [OF round_inv_step [of L es xs past st l]] by simp
  qed simp
  from this [OF round_inv_initial, of CLOSING_LEVELS] show ?thesis
    by (simp add: CLOSING_LEVELS_def)
qed

lemma match_all_levels_fields:
  "mo_matched (match_all_levels L es xs) = ms_matched (foldl (match_round L) (initial_state es xs) CLOSING_LEVELS)"
  "mo_missing_expected (match_all_levels L es xs) = ms_expected (foldl (match_round L) (initial_state es xs) CLOSING_LEVELS)"
  "mo_orphan_observed (match_all_levels L es xs) = ms_observed (foldl (match_round L) (initial_state es xs) CLOSING_LEVELS)"
  by (simp_all add: match_all_levels_def outcome_of_def case_prod_beta)

lemmas match_all_levels_inv =
  round_inv_closing [unfolded round_inv_def, folded match_all_levels_fields]

section \<open>Suggestions\<close>

definition candidates :: "('k \<times> 'v list) list \<Rightarrow> 'k \<Rightarrow> 'v list" where
  "candidates d k = (case map_of d k of None \<Rightarrow> [] | Some vs \<Rightarrow> vs)"

lemma candidates_Nil [simp]: "candidates [] k = []"
  by (simp add: candidates_def)

lemma candidates_append [simp]:
  "candidates (dict_append k v d) k' = candidates d k' @ (if k = k' then [v] else [])"
  by (simp add: candidates_def dict_append_def split: option.split)

definition suggested :: "platform \<Rightarrow> expected_point list \<Rightarrow> normalized_point list \<Rightarrow> matched_pair list" where
  "suggested L es xs = concat (map (\<lambda>l. suggestion_pairs L l es xs) SUGGESTION_LEVELS)"

lemma relocation_suggestions_fold: "relocation_suggestions L es xs = foldl (suggest L) ([], []) (suggested L es xs)"
  by (simp add: relocation_suggestions_def suggested_def SUGGESTION_LEVELS_def)

lemma candidates_fold:
  "candidates (fst (foldl (suggest L) acc ps)) b = candidates (fst acc) b @
     map (\<lambda>p. normalize_point_id L (np_point_id (mp_observed p))) (filter (\<lambda>p. ep_binding_id (mp_expected p) = b) ps)"
  "candidates (snd (foldl (suggest L) acc ps)) k = candidates (snd acc) k @
     map (\<lambda>p. ep_binding_id (mp_expected p)) (filter (\<lambda>p. normalize_point_id L (np_point_id (mp_observed p)) = k) ps)"
  by (induction ps arbitrary: acc) (simp_all add: suggest_def case_prod_beta Let_def)

lemma suggested_pairs:
  assumes "p \<in> set (suggested L es xs)"
  shows "mp_expected p \<in> set es \<and> mp_observed p \<in> set xs \<and> mp_level p \<in> set SUGGESTION_LEVELS \<and>
    same_key L (mp_level p) (mp_expected p) (mp_observed p)"
proof -
  obtain l where l: "l \<in> set SUGGESTION_LEVELS" "p \<in> set (suggestion_pairs L l es xs)"
    using assms by (auto simp: suggested_def)
  let ?E = "sorted_expected L l es" and ?O = "sorted_observed L l xs"
  have p: "p \<in> set (on_matched (stream_merge_join L l ?E ?O))" using l(2) by (simp add: suggestion_pairs_def)
  show ?thesis
    using join_matched [OF p] l(1) mset_split_mem(1) [OF join_partition(1) p] mset_split_mem(1) [OF join_partition(2) p]
    by simp
qed

lemma outcome_suggestions:
  "(mo_relocation_candidates (match_all_levels L es xs), mo_orphan_candidates (match_all_levels L es xs)) =
     relocation_suggestions L (mo_missing_expected (match_all_levels L es xs)) (mo_orphan_observed (match_all_levels L es xs))"
  by (simp add: match_all_levels_def outcome_of_def case_prod_beta)

lemma relocation_candidates_pairs:
  "k \<in> set (candidates (mo_relocation_candidates (match_all_levels L es xs)) b) \<longleftrightarrow>
     (\<exists>p \<in> set (suggested L (mo_missing_expected (match_all_levels L es xs)) (mo_orphan_observed (match_all_levels L es xs))).
        ep_binding_id (mp_expected p) = b \<and> normalize_point_id L (np_point_id (mp_observed p)) = k)"
  "b \<in> set (candidates (mo_orphan_candidates (match_all_levels L es xs)) k) \<longleftrightarrow>
     (\<exists>p \<in> set (suggested L (mo_missing_expected (match_all_levels L es xs)) (mo_orphan_observed (match_all_levels L es xs))).
        ep_binding_id (mp_expected p) = b \<and> normalize_point_id L (np_point_id (mp_observed p)) = k)"
  using outcome_suggestions [of L es xs] unfolding relocation_suggestions_fold
  by (auto simp: prod_eq_iff candidates_fold)

section \<open>A sample\<close>

text \<open>A platform, one expected and one observed point on which the results below are applied.\<close>

definition sample_expected :: expected_point where
  "sample_expected =
     \<lparr>ep_binding_id = py ''b1'', ep_target = py ''t'', ep_scope = py ''s'', ep_point_id = JInt 1,
      ep_embedding_id = py ''emb1'',
      ep_embedding_model = Some \<lparr>mdl_provider = py ''p'', mdl_name = py ''m'', mdl_revision = py ''1''\<rparr>,
      ep_embedding_dimension = Some 3, ep_embedding_vector_hash = None, ep_chunk_id = Some (py ''chk1''),
      ep_parse_run_id = None, ep_parser_name = None, ep_parser_version = None, ep_parser_config_hash = None,
      ep_source_id = Some (py ''src1''), ep_source_version_id = Some (py ''ver1''),
      ep_source_status = Some (py ''active''), ep_expected_payload_hash = py ''h1'',
      ep_expected_payload_projection = Some [(py ''tenant'', JStr (py ''acme''))], ep_tenant_projection = None,
      ep_acl_projection = Some [py ''PUBLIC''], ep_write_status = None,
      ep_pii_assertion_ids = [], ep_license_assertion_ids = []\<rparr>"

definition sample_observed :: normalized_point where
  "sample_observed =
     \<lparr>np_target_id = py ''t'', np_scope = py ''s'', np_point_id = JInt 2, np_vector_names = [py ''v''],
      np_vector_dimensions = [(py ''v'', 3)], np_vector_hashes = None, np_payload_projection = [],
      np_payload_hash = py ''h2'', np_source_id = Some (py ''src1''),
      np_source_version_id = Some (py ''ver1''), np_chunk_id = Some (py ''chk2''), np_embedding_id = None,
      np_acl = None, np_tenant = None,
      np_observed_at = \<lparr>year = 2025, month = 1, day = 1, hour = 0, minute = 0, second = 0, microsecond = 0\<rparr>,
      np_raw_locator = py ''l'', np_normalization_warnings = []\<rparr>"

lemmas sample_defs = sample_platform_def sample_expected_def sample_observed_def

lemmas matching_eval [eval_simps] =
  match_all_levels_def CLOSING_LEVELS_def SUGGESTION_LEVELS_def match_round_def initial_state_def absorb_def
  stream_merge_join_def outcome_of_def relocation_suggestions_def suggestion_pairs_def normalize_point_id_def
  canonicalize_def show_int_def show_nat.simps merge_join.simps(3) suggest_def emit_group_def dict_append_def
  Let_def case_prod_beta py_def candidates_def same_key_def

section \<open>Properties\<close>

text \<open>
  C7. Multi-level matching loses and invents nothing: on both sides, the items of the matched
  pairs together with the unresolved ones are, with multiplicity, exactly the input.
\<close>

theorem match_all_levels_partition:
  "mset (map mp_expected (mo_matched (match_all_levels L es xs))) + mset (mo_missing_expected (match_all_levels L es xs)) = mset es \<and>
   mset (map mp_observed (mo_matched (match_all_levels L es xs))) + mset (mo_orphan_observed (match_all_levels L es xs)) = mset xs"
  using match_all_levels_inv [of L es xs] by blast

text \<open>
  C9. Every matched pair was made at one of the three closing levels, carries the confidence
  \<open>high\<close>, has the same key on both sides at its level, and has no common key at any
  level of higher precedence.
\<close>

theorem match_all_levels_sound:
  "list_all (\<lambda>p. mp_level p \<in> set CLOSING_LEVELS \<and> mp_confidence p = py ''high'' \<and>
       same_key L (mp_level p) (mp_expected p) (mp_observed p) \<and>
       list_all (\<lambda>l. \<not> same_key L l (mp_expected p) (mp_observed p)) (takeWhile (\<lambda>l. l \<noteq> mp_level p) CLOSING_LEVELS))
     (mo_matched (match_all_levels L es xs))"
  using match_all_levels_inv [of L es xs] by (auto simp: list_all_iff confidence_for_level_def)

text \<open>
  C8. Matching is complete: no expected point reported missing and observed point reported
  orphan agree on the point id, on the embedding id or on the chunk id.
\<close>

theorem match_all_levels_complete:
  "list_all (\<lambda>l. list_all (\<lambda>e. list_all (\<lambda>x. \<not> same_key L l e x) (mo_orphan_observed (match_all_levels L es xs)))
       (mo_missing_expected (match_all_levels L es xs))) CLOSING_LEVELS"
  using match_all_levels_inv [of L es xs] by (auto simp: list_all_iff)

text \<open>
  Suggestions never close a finding: a candidate point is proposed for a binding exactly
  when that binding is proposed for the point, and then the binding is still reported
  missing, the point still reported orphan, and the two agree on the source version or on
  the payload hash.
\<close>

theorem relocation_candidates_sound:
  "(k \<in> set (candidates (mo_relocation_candidates (match_all_levels L es xs)) b) \<longleftrightarrow>
     b \<in> set (candidates (mo_orphan_candidates (match_all_levels L es xs)) k)) \<and>
   (k \<in> set (candidates (mo_relocation_candidates (match_all_levels L es xs)) b) \<longrightarrow>
     (\<exists>e \<in> set (mo_missing_expected (match_all_levels L es xs)). \<exists>x \<in> set (mo_orphan_observed (match_all_levels L es xs)).
       ep_binding_id e = b \<and> normalize_point_id L (np_point_id x) = k \<and>
       (same_key L SOURCE_VERSION e x \<or> same_key L CONTENT_HASH e x)))"
  unfolding relocation_candidates_pairs
  by (fastforce dest!: suggested_pairs simp: SUGGESTION_LEVELS_def)

theorem relocation_candidates_sound_witness:
  "py ''2'' \<in> set (candidates (mo_relocation_candidates (match_all_levels sample_platform [sample_expected] [sample_observed])) (py ''b1'')) \<and>
   py ''b1'' \<in> set (candidates (mo_orphan_candidates (match_all_levels sample_platform [sample_expected] [sample_observed])) (py ''2''))"
proof -
  have "py ''2'' \<in> set (candidates (mo_relocation_candidates (match_all_levels sample_platform [sample_expected] [sample_observed])) (py ''b1''))"
    by (simp add: eval_simps sample_defs)
  then show ?thesis
    using relocation_candidates_sound [of "py ''2''" sample_platform "[sample_expected]" "[sample_observed]" "py ''b1''"]
    by blast
qed

text \<open>
  An expected point spilled as a JSON line is read back unchanged, up to an empty payload
  projection, which comes back as absent.
\<close>

theorem expected_point_spill_roundtrip:
  assumes "spillable item"
  shows "expected_point_from_json_bytes (expected_point_to_json_bytes item) = Some (respill item) \<and>
    10 \<notin> set (expected_point_to_json_bytes item)"
  using expected_point_json_roundtrip [OF assms] dumps_line(2) [of False "JObj (expected_point_to_dict item)"]
  by (simp add: expected_point_to_json_bytes_def)

theorem expected_point_spill_roundtrip_witness:
  "expected_point_from_json_bytes (expected_point_to_json_bytes sample_expected) = Some sample_expected"
proof -
  have "spillable sample_expected"
    by (simp add: spillable_def expected_point_to_dict_def sample_expected_def opt_str_def str_list_def
        dump_embedding_model_def scalar_def py_def)
  then show ?thesis
    using expected_point_spill_roundtrip [of sample_expected] by (simp add: respill_def sample_expected_def)
qed

end
