(* ===== verification/Taxonomy.thy ===== *)
theory Taxonomy
  imports Models
begin

text \<open>
  \<open>ragledger.reconcile.taxonomy\<close>: the finding codes and severities, the construction of
  a finding with its fingerprint and its severity-override rule, and the masking of ACL
  principals.
\<close>

datatype finding_severity = Critical | High | Medium | Low

primrec severity_value :: "finding_severity \<Rightarrow> pystr" where
  "severity_value Critical = py ''critical''"
| "severity_value High = py ''high''"
| "severity_value Medium = py ''medium''"
| "severity_value Low = py ''low''"

datatype finding_code =
    MISSING_IN_INDEX | ORPHAN_IN_INDEX | STALE_SOURCE | STALE_PARSE | STALE_CHUNKING
  | EMBEDDING_MODEL_MISMATCH | EMBEDDING_DIMENSION_MISMATCH | VECTOR_HASH_MISMATCH
  | PAYLOAD_DRIFT | SOURCE_METADATA_MISSING | DUPLICATE_POINT_ID | DUPLICATE_CONTENT
  | ACL_MISSING | ACL_BROADER_THAN_SOURCE | ACL_MISMATCH | TENANT_MISSING | TENANT_MISMATCH
  | PII_POLICY_VIOLATION | LICENSE_UNKNOWN | LICENSE_POLICY_VIOLATION | UNVERIFIABLE_POINT
  | TARGET_SCHEMA_DRIFT | MANIFEST_INCOMPLETE | SNAPSHOT_INCOMPLETE

primrec code_value :: "finding_code \<Rightarrow> pystr" where
  "code_value MISSING_IN_INDEX = py ''MISSING_IN_INDEX''"
| "code_value ORPHAN_IN_INDEX = py ''ORPHAN_IN_INDEX''"
| "code_value STALE_SOURCE = py ''STALE_SOURCE''"
| "code_value STALE_PARSE = py ''STALE_PARSE''"
| "code_value STALE_CHUNKING = py ''STALE_CHUNKING''"
| "code_value EMBEDDING_MODEL_MISMATCH = py ''EMBEDDING_MODEL_MISMATCH''"
| "code_value EMBEDDING_DIMENSION_MISMATCH = py ''EMBEDDING_DIMENSION_MISMATCH''"
| "code_value VECTOR_HASH_MISMATCH = py ''VECTOR_HASH_MISMATCH''"
| "code_value PAYLOAD_DRIFT = py ''PAYLOAD_DRIFT''"
| "code_value SOURCE_METADATA_MISSING = py ''SOURCE_METADATA_MISSING''"
| "code_value DUPLICATE_POINT_ID = py ''DUPLICATE_POINT_ID''"
| "code_value DUPLICATE_CONTENT = py ''DUPLICATE_CONTENT''"
| "code_value ACL_MISSING = py ''ACL_MISSING''"
| "code_value ACL_BROADER_THAN_SOURCE = py ''ACL_BROADER_THAN_SOURCE''"
| "code_value ACL_MISMATCH = py ''ACL_MISMATCH''"
| "code_value TENANT_MISSING = py ''TENANT_MISSING''"
| "code_value TENANT_MISMATCH = py ''TENANT_MISMATCH''"
| "code_value PII_POLICY_VIOLATION = py ''PII_POLICY_VIOLATION''"
| "code_value LICENSE_UNKNOWN = py ''LICENSE_UNKNOWN''"
| "code_value LICENSE_POLICY_VIOLATION = py ''LICENSE_POLICY_VIOLATION''"
| "code_value UNVERIFIABLE_POINT = py ''UNVERIFIABLE_POINT''"
| "code_value TARGET_SCHEMA_DRIFT = py ''TARGET_SCHEMA_DRIFT''"
| "code_value MANIFEST_INCOMPLETE = py ''MANIFEST_INCOMPLETE''"
| "code_value SNAPSHOT_INCOMPLETE = py ''SNAPSHOT_INCOMPLETE''"

primrec default_severity :: "finding_code \<Rightarrow> finding_severity" where
  "default_severity MISSING_IN_INDEX = High"
| "default_severity ORPHAN_IN_INDEX = High"
| "default_severity STALE_SOURCE = High"
| "default_severity STALE_PARSE = Medium"
| "default_severity STALE_CHUNKING = High"
| "default_severity EMBEDDING_MODEL_MISMATCH = High"
| "default_severity EMBEDDING_DIMENSION_MISMATCH = Critical"
| "default_severity VECTOR_HASH_MISMATCH = High"
| "default_severity PAYLOAD_DRIFT = Medium"
| "default_severity SOURCE_METADATA_MISSING = Medium"
| "default_severity DUPLICATE_POINT_ID = Critical"
| "default_severity DUPLICATE_CONTENT = Medium"
| "default_severity ACL_MISSING = Critical"
| "default_severity ACL_BROADER_THAN_SOURCE = Critical"
| "default_severity ACL_MISMATCH = High"
| "default_severity TENANT_MISSING = Critical"
| "default_severity TENANT_MISMATCH = Critical"
| "default_severity PII_POLICY_VIOLATION = High"
| "default_severity LICENSE_UNKNOWN = Medium"
| "default_severity LICENSE_POLICY_VIOLATION = High"
| "default_severity UNVERIFIABLE_POINT = Medium"
| "default_severity TARGET_SCHEMA_DRIFT = High"
| "default_severity MANIFEST_INCOMPLETE = High"
| "default_severity SNAPSHOT_INCOMPLETE = High"

section \<open>Findings\<close>

datatype taxonomy_error = SeverityOverrideError finding_code finding_severity

definition compute_fingerprint ::
  "platform \<Rightarrow> finding_code \<Rightarrow> pystr \<Rightarrow> pystr \<Rightarrow> pystr \<Rightarrow> pystr \<Rightarrow> pystr" where
  "compute_fingerprint L code target scope subject_id affected_field =
     derive_assertion_id L (py ''fnd'')
       [JStr (code_value code), JStr target, JStr scope, JStr subject_id, JStr affected_field]"

record locator =
  lct_target :: pystr
  lct_scope :: pystr
  lct_point_id :: "point_id option"
  lct_binding_id :: "pystr option"

record affected_lineage =
  lin_source_id :: "pystr option"
  lin_source_version_id :: "pystr option"
  lin_chunk_id :: "pystr option"
  lin_embedding_id :: "pystr option"

definition no_lineage :: affected_lineage where
  "no_lineage = \<lparr>lin_source_id = None, lin_source_version_id = None, lin_chunk_id = None, lin_embedding_id = None\<rparr>"

record finding =
  fnd_fingerprint :: pystr
  fnd_code :: finding_code
  fnd_severity :: finding_severity
  fnd_locator :: locator
  fnd_affected_lineage :: affected_lineage
  fnd_evidence :: dict
  fnd_match_level :: "nat option"
  fnd_confidence :: "pystr option"
  fnd_detail :: "pystr option"

definition build_finding ::
  "platform \<Rightarrow> finding_code \<Rightarrow> pystr \<Rightarrow> pystr \<Rightarrow> pystr \<Rightarrow> pystr \<Rightarrow> finding_severity option \<Rightarrow> pystr option
   \<Rightarrow> point_id option \<Rightarrow> pystr option \<Rightarrow> affected_lineage option \<Rightarrow> dict option \<Rightarrow> nat option \<Rightarrow> pystr option
   \<Rightarrow> pystr option \<Rightarrow> taxonomy_error + finding" where
  "build_finding L code target scope subject_id affected_field severity severity_override_reason
     point_id binding_id lineage evidence match_level confidence detail =
     (let resolved =
        (case severity of
           None \<Rightarrow> Inr (default_severity code)
         | Some s \<Rightarrow>
             if default_severity code = Critical \<and> s \<noteq> Critical \<and> severity_override_reason = None
             then Inl (SeverityOverrideError code s) else Inr s)
      in andThen resolved (\<lambda>resolved_severity. Inr
           \<lparr>fnd_fingerprint = compute_fingerprint L code target scope subject_id affected_field,
            fnd_code = code,
            fnd_severity = resolved_severity,
            fnd_locator = \<lparr>lct_target = target, lct_scope = scope, lct_point_id = point_id, lct_binding_id = binding_id\<rparr>,
            fnd_affected_lineage = (case lineage of None \<Rightarrow> no_lineage | Some l \<Rightarrow> l),
            fnd_evidence = (case evidence of None \<Rightarrow> [] | Some d \<Rightarrow> d),
            fnd_match_level = match_level,
            fnd_confidence = confidence,
            fnd_detail = detail\<rparr>))"

lemma build_finding_Inl_iff:
  "(\<exists>e. build_finding L code target scope subj fld severity reason pid bid lin ev lvl conf det = Inl e) \<longleftrightarrow>
     default_severity code = Critical \<and> (\<exists>s. severity = Some s \<and> s \<noteq> Critical) \<and> reason = None"
  by (auto simp: build_finding_def split: option.splits)

lemma build_finding_Inr:
  assumes "build_finding L code target scope subj fld severity reason pid bid lin ev lvl conf det = Inr f"
  shows "fnd_code f = code" "fnd_severity f = (case severity of None \<Rightarrow> default_severity code | Some s \<Rightarrow> s)"
    "fnd_fingerprint f = compute_fingerprint L code target scope subj fld"
    "lct_target (fnd_locator f) = target" "lct_scope (fnd_locator f) = scope"
    "lct_point_id (fnd_locator f) = pid" "lct_binding_id (fnd_locator f) = bid"
    "fnd_evidence f = (case ev of None \<Rightarrow> [] | Some d \<Rightarrow> d)"
  using assms by (auto simp: build_finding_def split: option.splits if_splits)

lemma build_finding_default [result_simps]:
  "\<exists>f. build_finding L code target scope subj fld None reason pid bid lin ev lvl conf det = Inr f
     \<and> fnd_code f = code \<and> fnd_severity f = default_severity code"
  by (simp add: build_finding_def)

section \<open>Masking of ACL principals\<close>

definition principal_hmac_domain_info :: bytes where
  "principal_hmac_domain_info = utf8_encode (py ''ragledger-reconcile-principal-hmac-v1'')"

definition derive_principal_hmac_key :: "platform \<Rightarrow> bytes \<Rightarrow> bytes" where
  "derive_principal_hmac_key L workspace_secret = hkdf L workspace_secret principal_hmac_domain_info"

definition principal_digest :: "platform \<Rightarrow> pystr \<Rightarrow> bytes option \<Rightarrow> pystr" where
  "principal_digest L rest workspace_secret =
     take 16 (hexlify
       (case workspace_secret of
          Some (b # bs) \<Rightarrow> hmac_sha256 (derive_principal_hmac_key L (b # bs)) (utf8_encode rest)
        | _ \<Rightarrow> sha256 (utf8_encode rest)))"

definition mask_acl_entry :: "platform \<Rightarrow> pystr \<Rightarrow> bytes option \<Rightarrow> pystr" where
  "mask_acl_entry L entry workspace_secret =
     (if entry = py ''PUBLIC'' then entry
      else (let (kind, separator, rest) = partition_at 58 entry;
                (kind, rest) = (if separator then (kind, rest) else (py ''PRINCIPAL'', entry))
            in kind @ py '':masked:'' @ principal_digest L rest workspace_secret))"

definition mask_acl_entries :: "platform \<Rightarrow> pystr list \<Rightarrow> bytes option \<Rightarrow> pystr list" where
  "mask_acl_entries L entries workspace_secret = sort (map (\<lambda>entry. mask_acl_entry L entry workspace_secret) entries)"

lemma principal_digest_shape:
  "length (principal_digest L rest s) = 16" "c \<in> set (principal_digest L rest s) \<Longrightarrow> is_lower_hex c"
  by (auto simp: principal_digest_def dest!: in_set_takeD hexlify_lower_hex split: option.splits list.splits)

lemma partition_at_found: "c \<notin> set a \<Longrightarrow> partition_at c (a @ c # b) = (a, True, b)"
  by (induction a) auto

lemma partition_at_missing: "c \<notin> set a \<Longrightarrow> partition_at c a = (a, False, [])"
  by (induction a) auto

lemma mask_acl_entry_typed:
  "58 \<notin> set kind \<Longrightarrow> mask_acl_entry L (kind @ 58 # rest) s = kind @ py '':masked:'' @ principal_digest L rest s"
proof -
  assume "58 \<notin> set kind"
  moreover have "58 \<notin> set (py ''PUBLIC'')" by (simp add: py_def)
  then have "kind @ 58 # rest \<noteq> py ''PUBLIC''" by (metis in_set_conv_decomp)
  ultimately show ?thesis
    by (simp add: mask_acl_entry_def partition_at_found)
qed

lemma mask_acl_entry_untyped:
  "58 \<notin> set entry \<Longrightarrow> entry \<noteq> py ''PUBLIC'' \<Longrightarrow>
     mask_acl_entry L entry s = py ''PRINCIPAL:masked:'' @ principal_digest L entry s"
  by (simp add: mask_acl_entry_def partition_at_missing py_append [of "''PRINCIPAL''" "'':masked:''", simplified])

end
