(* ===== verification/Report.thy ===== *)
theory Report
  imports Taxonomy Connectors
begin

text \<open>
  \<open>ragledger.reconcile.report\<close>: the shape of a reconciliation result, of a policy verdict
  and of a remediation plan, the ratio rule, the CI summary and the exit code. The pydantic
  serialisation of a report (\<open>model_dump\<close>) is a parameter of \<open>to_json_bytes\<close>.
\<close>

section \<open>Ratios and consistency\<close>

record ratios =
  lineage_coverage :: "float64 option"
  missing_ratio :: "float64 option"
  orphan_ratio :: "float64 option"
  stale_ratio :: "float64 option"
  acl_compliance :: "float64 option"

definition no_ratios :: ratios where
  "no_ratios = \<lparr>lineage_coverage = None, missing_ratio = None, orphan_ratio = None, stale_ratio = None, acl_compliance = None\<rparr>"

definition ratio :: "int \<Rightarrow> int \<Rightarrow> float64 option" where
  "ratio numerator denominator = (if denominator = 0 then None else Some (true_div numerator denominator))"

record consistency_caveat =
  cc_mode :: pystr
  cc_completeness :: pystr
  cc_start_count :: "int option"
  cc_end_count :: "int option"
  cc_observed_count :: int
  cc_degraded_confidence :: bool
  cc_snapshot_kind :: pystr
  cc_detail :: "pystr option"

definition consistency_caveat_from_info :: "consistency_info \<Rightarrow> pystr \<Rightarrow> consistency_caveat" where
  "consistency_caveat_from_info info snapshot_kind =
     \<lparr>cc_mode = consistency_mode_value (ci_mode info),
      cc_completeness = completeness_value (ci_completeness info),
      cc_start_count = ci_start_count info,
      cc_end_count = ci_end_count info,
      cc_observed_count = ci_observed_count info,
      cc_degraded_confidence = (ci_completeness info = INCOMPLETE),
      cc_snapshot_kind = snapshot_kind,
      cc_detail = ci_detail info\<rparr>"

section \<open>Result, verdict, plan\<close>

record summary =
  sum_target :: pystr
  sum_scope :: pystr
  sum_expected_bindings :: nat
  sum_observed_points :: nat
  sum_matched_points :: nat
  sum_finding_count :: nat
  sum_finding_count_by_severity :: "(pystr \<times> nat) list"
  sum_manifest_signed :: bool
  sum_preflight_short_circuited :: bool

record reconciliation_result =
  rr_summary :: summary
  rr_ratios :: ratios
  rr_findings :: "finding list"
  rr_consistency :: consistency_caveat
  rr_manifest_id :: "pystr option"
  rr_manifest_status :: "pystr option"

text \<open>Slicing \<open>xs[i:j]\<close>: a negative bound counts from the end, and both are clamped.\<close>

definition slice_bound :: "int \<Rightarrow> nat \<Rightarrow> nat" where
  "slice_bound i n = nat (if i < 0 then max 0 (i + int n) else min i (int n))"

definition py_slice :: "int \<Rightarrow> int \<Rightarrow> 'a list \<Rightarrow> 'a list" where
  "py_slice i j xs = take (slice_bound j (length xs) - slice_bound i (length xs)) (drop (slice_bound i (length xs)) xs)"

definition findings_page :: "reconciliation_result \<Rightarrow> int \<Rightarrow> int option \<Rightarrow> finding list" where
  "findings_page result offset limit =
     (case limit of
        None \<Rightarrow> drop (slice_bound offset (length (rr_findings result))) (rr_findings result)
      | Some n \<Rightarrow> py_slice offset (offset + n) (rr_findings result))"

record rule_result =
  rul_rule :: pystr
  rul_passed :: bool
  rul_verdict :: pystr
  rul_detail :: pystr

record policy_verdict =
  pv_policy_name :: pystr
  pv_verdict :: pystr
  pv_rule_results :: "rule_result list"
  pv_principal_masking :: pystr

record remediation_action =
  ra_action :: pystr
  ra_finding_codes :: "pystr list"
  ra_target :: pystr
  ra_scope :: pystr
  ra_candidates :: "pystr list"
  ra_destructive :: bool
  ra_caution :: "pystr option"
  ra_rationale :: pystr

record remediation_plan =
  rp_actions :: "remediation_action list"

definition py_bool :: "bool \<Rightarrow> pystr" where
  "py_bool b = (if b then py ''True'' else py ''False'')"

definition to_csv_rows :: "remediation_plan \<Rightarrow> pystr list list" where
  "to_csv_rows plan =
     map py [''action'', ''target'', ''scope'', ''destructive'', ''candidate_count'', ''rationale'']
     # map (\<lambda>entry. [ra_action entry, ra_target entry, ra_scope entry, py_bool (ra_destructive entry),
                      show_nat (length (ra_candidates entry)), ra_rationale entry]) (rp_actions plan)"

record reconciliation_report =
  rep_result :: reconciliation_result
  rep_policy :: policy_verdict
  rep_remediation :: remediation_plan

definition to_json_bytes :: "platform \<Rightarrow> (reconciliation_report \<Rightarrow> json) \<Rightarrow> reconciliation_report \<Rightarrow> bytes" where
  "to_json_bytes L model_dump report = canonical_bytes L (model_dump report)"

section \<open>Exit code and CI summary\<close>

definition EXIT_PASS :: int where
  "EXIT_PASS = 0"

definition EXIT_POLICY_FAIL :: int where
  "EXIT_POLICY_FAIL = 1"

definition EXIT_EXECUTION_ERROR :: int where
  "EXIT_EXECUTION_ERROR = 2"

definition exit_code_for :: "reconciliation_report \<Rightarrow> int" where
  "exit_code_for report =
     (if pv_verdict (rep_policy report) = py ''INCONCLUSIVE'' then EXIT_EXECUTION_ERROR
      else if pv_verdict (rep_policy report) = py ''FAIL'' then EXIT_POLICY_FAIL
      else EXIT_PASS)"

definition severity_display_order :: "pystr list" where
  "severity_display_order = map py [''critical'', ''high'', ''medium'', ''low'']"

definition severity_line :: "summary \<Rightarrow> pystr" where
  "severity_line s =
     (let counts = sum_finding_count_by_severity s;
          text = join (py '' '')
            (map (\<lambda>severity. severity @ py ''='' @ show_nat (the (map_of counts severity)))
               (filter (\<lambda>severity. map_of counts severity \<noteq> None) severity_display_order))
      in py ''findings: '' @ (if text = [] then py ''none'' else text))"

definition ratio_text :: "string \<Rightarrow> float64 option \<Rightarrow> pystr" where
  "ratio_text name value =
     py name @ py ''='' @ (case value of Some v \<Rightarrow> fmt4 v | None \<Rightarrow> py ''not_applicable'')"

definition ratio_line :: "ratios \<Rightarrow> pystr" where
  "ratio_line r =
     py ''ratios: '' @ join (py '' '')
       [ratio_text ''lineage_coverage'' (lineage_coverage r), ratio_text ''missing_ratio'' (missing_ratio r),
        ratio_text ''orphan_ratio'' (orphan_ratio r), ratio_text ''stale_ratio'' (stale_ratio r),
        ratio_text ''acl_compliance'' (acl_compliance r)]"

definition ci_lines :: "reconciliation_report \<Rightarrow> pystr list" where
  "ci_lines report =
     (let s = rr_summary (rep_result report); c = rr_consistency (rep_result report)
      in [py ''reconciliation: target='' @ sum_target s @ py '' scope='' @ sum_scope s
            @ py '' verdict='' @ pv_verdict (rep_policy report),
          py ''points: expected='' @ show_nat (sum_expected_bindings s) @ py '' observed='' @ show_nat (sum_observed_points s)
            @ py '' matched='' @ show_nat (sum_matched_points s),
          severity_line s,
          ratio_line (rr_ratios (rep_result report))]
         @ (if cc_degraded_confidence c
            then [py ''consistency: degraded_confidence=true completeness='' @ cc_completeness c
                    @ py '' snapshot_kind='' @ cc_snapshot_kind c]
            else [])
         @ map (\<lambda>r. py ''policy rule ['' @ rul_verdict r @ py ''] '' @ rul_rule r @ py '': '' @ rul_detail r)
             (filter (\<lambda>r. rul_verdict r \<noteq> py ''PASS'') (pv_rule_results (rep_policy report)))
         @ map (\<lambda>a. py ''remediation: '' @ ra_action a @ py '' target='' @ ra_target a @ py '' scope='' @ ra_scope a
                     @ py '' candidates='' @ show_nat (length (ra_candidates a)) @ py '' destructive='' @ py_bool (ra_destructive a))
             (rp_actions (rep_remediation report))
         @ [py ''exit_code='' @ show_int (exit_code_for report)])"

definition render_ci_summary :: "reconciliation_report \<Rightarrow> pystr" where
  "render_ci_summary report = join [10] (ci_lines report) @ [10]"

section \<open>Facts\<close>

lemma ratio_None_iff [simp]: "ratio a b = None \<longleftrightarrow> b = 0"
  by (simp add: ratio_def)

lemma ratio_bounds:
  "0 \<le> a \<Longrightarrow> a \<le> b \<Longrightarrow> ratio a b = Some r \<Longrightarrow> 0 \<le> r \<and> r \<le> 1"
  using true_div_bounds [of a b] by (auto simp: ratio_def split: if_splits)

lemma caveat_degraded:
  "cc_degraded_confidence (consistency_caveat_from_info i k) \<longleftrightarrow>
     cc_completeness (consistency_caveat_from_info i k) = py ''incomplete''"
  by (cases "ci_completeness i") (simp_all add: consistency_caveat_from_info_def)

lemma slice_bound_nonneg [simp]: "slice_bound (int i) n = min i n"
  by (simp add: slice_bound_def min_def)

text \<open>Consecutive pages of one size tile the finding list.\<close>

lemma findings_page_nonneg:
  "findings_page result (int i) (Some (int n)) = take n (drop i (rr_findings result))"
proof -
  have "slice_bound (int i + int n) m = min (i + n) m" for m
    using slice_bound_nonneg [of "i + n" m] by simp
  then show ?thesis
    by (cases "i \<le> length (rr_findings result)") (auto simp: findings_page_def py_slice_def min_def)
qed

lemma findings_pages_concat:
  "0 < n \<Longrightarrow> length (rr_findings result) \<le> k * n \<Longrightarrow>
     concat (map (\<lambda>i. findings_page result (int (i * n)) (Some (int n))) [0..<k]) = rr_findings result"
proof -
  assume "length (rr_findings result) \<le> k * n"
  moreover have "concat (map (\<lambda>i. take n (drop (i * n) xs)) [0..<k]) = take (k * n) xs" for xs :: "finding list"
    by (induction k) (simp_all add: take_add [symmetric] add.commute)
  ultimately show ?thesis by (simp add: findings_page_nonneg del: of_nat_mult)
qed

end
