(* ===== verification/Policy.thy ===== *)
theory Policy
  imports Report
begin

text \<open>
  \<open>ragledger.reconcile.policy\<close>: the typed policy document and its evaluation against a
  reconciliation result. A rule evaluation calls \<open>record\<close> zero or more times; here it
  returns the list of what it records, in order. Schema validation of the raw document
  (\<open>jsonschema\<close>, \<open>yaml\<close>) is not modelled.
\<close>

section \<open>Verdicts\<close>

datatype verdict = FAIL | INCONCLUSIVE | WARN | PASS

primrec verdict_value :: "verdict \<Rightarrow> pystr" where
  "verdict_value FAIL = py ''FAIL''"
| "verdict_value INCONCLUSIVE = py ''INCONCLUSIVE''"
| "verdict_value WARN = py ''WARN''"
| "verdict_value PASS = py ''PASS''"

primrec verdict_rank :: "verdict \<Rightarrow> nat" where
  "verdict_rank FAIL = 0"
| "verdict_rank INCONCLUSIVE = 1"
| "verdict_rank WARN = 2"
| "verdict_rank PASS = 3"

primrec severity_rank :: "finding_severity \<Rightarrow> nat" where
  "severity_rank Low = 0"
| "severity_rank Medium = 1"
| "severity_rank High = 2"
| "severity_rank Critical = 3"

definition worse :: "verdict \<Rightarrow> verdict \<Rightarrow> verdict" where
  "worse first other = (if verdict_rank first \<le> verdict_rank other then first else other)"

text \<open>The rank makes verdicts a linear order, worst first; \<open>worse\<close> is its minimum.\<close>

instantiation verdict :: linorder
begin

definition less_eq_verdict :: "verdict \<Rightarrow> verdict \<Rightarrow> bool" where
  "less_eq_verdict a b \<longleftrightarrow> verdict_rank a \<le> verdict_rank b"

definition less_verdict :: "verdict \<Rightarrow> verdict \<Rightarrow> bool" where
  "less_verdict a b \<longleftrightarrow> verdict_rank a < verdict_rank b"

instance
proof
  fix a b :: verdict
  show "a \<le> b \<Longrightarrow> b \<le> a \<Longrightarrow> a = b"
    by (cases a; cases b) (simp_all add: less_eq_verdict_def)
qed (auto simp: less_eq_verdict_def less_verdict_def)

end

lemma worse_min: "worse a b = min a b"
  by (simp add: worse_def min_def less_eq_verdict_def)

lemma verdict_top [simp]: "v \<le> PASS"
  by (cases v) (simp_all add: less_eq_verdict_def)

lemma verdict_bot [simp]: "FAIL \<le> v"
  by (simp add: less_eq_verdict_def)

section \<open>The policy document\<close>

datatype requirement = Required | Optional
datatype unknown_mode = UnknownFail | UnknownWarn | UnknownAllow
datatype rule_category =
    RCount | RRatio | RSeverity | RSourcePath | RMediaType | RLicense | RPii | RAcl | RTenant | RAge | RCompleteness
datatype comparator = Lt | Lte | Gt | Gte | Eq

primrec category_value :: "rule_category \<Rightarrow> pystr" where
  "category_value RCount = py ''count''"
| "category_value RRatio = py ''ratio''"
| "category_value RSeverity = py ''severity''"
| "category_value RSourcePath = py ''source_path''"
| "category_value RMediaType = py ''media_type''"
| "category_value RLicense = py ''license''"
| "category_value RPii = py ''pii''"
| "category_value RAcl = py ''acl''"
| "category_value RTenant = py ''tenant''"
| "category_value RAge = py ''age''"
| "category_value RCompleteness = py ''completeness''"

primrec comparator_value :: "comparator \<Rightarrow> pystr" where
  "comparator_value Lt = py ''lt''"
| "comparator_value Lte = py ''lte''"
| "comparator_value Gt = py ''gt''"
| "comparator_value Gte = py ''gte''"
| "comparator_value Eq = py ''eq''"

record requirements =
  req_manifest_signature :: "requirement option"
  req_full_snapshot :: "requirement option"
  req_lineage_coverage_min :: "float64 option"

record findings_policy =
  fp_fail_on_severity :: "finding_severity list"
  fp_warn_on_severity :: "finding_severity list"

record pii_policy =
  pp_deny :: "pystr list"
  pp_allow :: "pystr list"
  pp_max_confidence_allowed :: "float64 option"

record licenses_policy =
  lp_allow :: "pystr list"
  lp_deny :: "pystr list"
  lp_unknown :: "unknown_mode option"

record access_policy =
  ap_acl_required :: "bool option"
  ap_tenant_required :: "bool option"
  ap_acl_compliance_min :: "float64 option"

record drift_policy =
  dp_stale_ratio_max :: "float64 option"
  dp_orphan_ratio_max :: "float64 option"
  dp_missing_ratio_max :: "float64 option"

text \<open>\<open>verdict_on_violation\<close> is \<open>WARN\<close> or \<open>FAIL\<close>.\<close>

record policy_rule =
  pr_category :: rule_category
  pr_taxonomy_codes :: "finding_code list option"
  pr_comparator :: "comparator option"
  pr_threshold :: "float64 option"
  pr_pattern :: "pystr option"
  pr_max_age_days :: "int option"
  pr_fail_on_violation :: bool

record policy_document =
  pd_name :: pystr
  pd_requirements :: requirements
  pd_findings :: findings_policy
  pd_pii :: "pii_policy option"
  pd_licenses :: "licenses_policy option"
  pd_access :: "access_policy option"
  pd_drift :: "drift_policy option"
  pd_rules :: "policy_rule list"

section \<open>Evaluation\<close>

type_synonym recorded = "pystr \<times> verdict \<times> pystr"

definition evaluate_requirements :: "platform \<Rightarrow> policy_document \<Rightarrow> reconciliation_result \<Rightarrow> recorded list" where
  "evaluate_requirements L document result =
     (if req_manifest_signature (pd_requirements document) = Some Required then
        (if sum_manifest_signed (rr_summary result)
         then [(py ''requirements.manifest_signature'', PASS, py ''manifest carries at least one signature'')]
         else [(py ''requirements.manifest_signature'', FAIL, py ''manifest_signature is required but the manifest is unsigned'')])
      else [])
     @ (if req_full_snapshot (pd_requirements document) = Some Required then
          (let consistency = rr_consistency result
           in if cc_snapshot_kind consistency = py ''full'' \<and> cc_completeness consistency = py ''complete''
              then [(py ''requirements.full_snapshot'', PASS, py ''observed snapshot is a complete full pass'')]
              else [(py ''requirements.full_snapshot'', FAIL,
                     py ''full_snapshot is required but snapshot_kind='' @ repr_str L (cc_snapshot_kind consistency)
                     @ py '' completeness='' @ repr_str L (cc_completeness consistency))])
        else [])
     @ (case req_lineage_coverage_min (pd_requirements document) of
          None \<Rightarrow> []
        | Some minimum \<Rightarrow>
            (case lineage_coverage (rr_ratios result) of
               None \<Rightarrow> [(py ''requirements.lineage_coverage_min'', INCONCLUSIVE,
                         py ''lineage_coverage is not applicable (zero observed points)'')]
             | Some coverage \<Rightarrow>
                 if coverage < minimum
                 then [(py ''requirements.lineage_coverage_min'', FAIL,
                        py ''lineage_coverage '' @ fmt4 coverage @ py '' < required '' @ fmt4 minimum)]
                 else [(py ''requirements.lineage_coverage_min'', PASS,
                        py ''lineage_coverage '' @ fmt4 coverage @ py '' >= required '' @ fmt4 minimum)]))"

definition severity_set_text :: "platform \<Rightarrow> finding_severity list \<Rightarrow> pystr" where
  "severity_set_text L severities = py_repr L (JList (map JStr (sorted_set (map severity_value severities))))"

definition evaluate_findings_severity :: "platform \<Rightarrow> policy_document \<Rightarrow> reconciliation_result \<Rightarrow> recorded list" where
  "evaluate_findings_severity L document result =
     (let fail_severities = fp_fail_on_severity (pd_findings document);
          warn_severities = fp_warn_on_severity (pd_findings document);
          count = (\<lambda>severities. length (filter (\<lambda>f. fnd_severity f \<in> set severities) (rr_findings result)))
      in (if count fail_severities \<noteq> 0
          then [(py ''findings.fail_on_severity'', FAIL,
                 show_nat (count fail_severities) @ py '' finding(s) at a fail-gated severity '' @ severity_set_text L fail_severities)]
          else [(py ''findings.fail_on_severity'', PASS, py ''no findings at a fail-gated severity'')])
         @ (if warn_severities \<noteq> []
            then (if count warn_severities \<noteq> 0
                  then [(py ''findings.warn_on_severity'', WARN,
                         show_nat (count warn_severities) @ py '' finding(s) at a warn-gated severity '' @ severity_set_text L warn_severities)]
                  else [(py ''findings.warn_on_severity'', PASS, py ''no findings at a warn-gated severity'')])
            else []))"

definition evaluate_licenses :: "policy_document \<Rightarrow> reconciliation_result \<Rightarrow> recorded list" where
  "evaluate_licenses document result =
     (case Option.bind (pd_licenses document) lp_unknown of
        None \<Rightarrow> []
      | Some mode \<Rightarrow>
          (let unknown_count = length (filter (\<lambda>f. fnd_code f = LICENSE_UNKNOWN) (rr_findings result))
           in if unknown_count \<noteq> 0 \<and> mode \<noteq> UnknownAllow
              then [(py ''licenses.unknown'', if mode = UnknownFail then FAIL else WARN,
                     show_nat unknown_count @ py '' source(s) with an unresolved (NOASSERTION) license'')]
              else [(py ''licenses.unknown'', PASS, py ''no unresolved-license findings, or unknown licenses are allowed'')]))"

definition evaluate_access :: "policy_document \<Rightarrow> reconciliation_result \<Rightarrow> recorded list" where
  "evaluate_access document result =
     (case Option.bind (pd_access document) ap_acl_compliance_min of
        None \<Rightarrow> []
      | Some minimum \<Rightarrow>
          (case acl_compliance (rr_ratios result) of
             None \<Rightarrow> [(py ''access.acl_compliance_min'', INCONCLUSIVE,
                       py ''acl_compliance is not applicable (no ACL-required matches)'')]
           | Some compliance \<Rightarrow>
               if compliance < minimum
               then [(py ''access.acl_compliance_min'', FAIL,
                      py ''acl_compliance '' @ fmt4 compliance @ py '' < required '' @ fmt4 minimum)]
               else [(py ''access.acl_compliance_min'', PASS,
                      py ''acl_compliance '' @ fmt4 compliance @ py '' >= required '' @ fmt4 minimum)]))"

text \<open>\<open>name.rsplit(".", 1)[-1]\<close> of the rule names is the label passed here.\<close>

definition drift_rule :: "string \<Rightarrow> float64 option \<Rightarrow> float64 option \<Rightarrow> recorded list" where
  "drift_rule label value max_allowed =
     (case (max_allowed, value) of
        (Some m, Some v) \<Rightarrow>
          if m < v
          then [(py ''drift.'' @ py label, FAIL, py label @ py '' '' @ fmt4 v @ py '' exceeds max '' @ fmt4 m)]
          else [(py ''drift.'' @ py label, PASS, py label @ py '' '' @ fmt4 v @ py '' within max '' @ fmt4 m)]
      | _ \<Rightarrow> [])"

definition evaluate_drift :: "policy_document \<Rightarrow> reconciliation_result \<Rightarrow> recorded list" where
  "evaluate_drift document result =
     (case pd_drift document of
        None \<Rightarrow> []
      | Some drift \<Rightarrow>
          drift_rule ''stale_ratio_max'' (stale_ratio (rr_ratios result)) (dp_stale_ratio_max drift)
          @ drift_rule ''orphan_ratio_max'' (orphan_ratio (rr_ratios result)) (dp_orphan_ratio_max drift)
          @ drift_rule ''missing_ratio_max'' (missing_ratio (rr_ratios result)) (dp_missing_ratio_max drift))"

primrec compare :: "comparator \<Rightarrow> float64 \<Rightarrow> float64 \<Rightarrow> bool" where
  "compare Lt a b = (a < b)"
| "compare Lte a b = (a \<le> b)"
| "compare Gt a b = (a > b)"
| "compare Gte a b = (a \<ge> b)"
| "compare Eq a b = (a = b)"

text \<open>\<open>int(x)\<close> of a float truncates towards zero.\<close>

definition trunc :: "float64 \<Rightarrow> int" where
  "trunc x = (if x < 0 then - \<lfloor>- x\<rfloor> else \<lfloor>x\<rfloor>)"

definition rule_findings :: "policy_rule \<Rightarrow> finding list \<Rightarrow> finding list" where
  "rule_findings rule findings =
     (let codes = (case pr_taxonomy_codes rule of None \<Rightarrow> [] | Some cs \<Rightarrow> cs);
          findings = (if codes \<noteq> [] then filter (\<lambda>f. fnd_code f \<in> set codes) findings else findings)
      in (case pr_threshold rule of
            Some t \<Rightarrow>
              if pr_category rule = RSeverity \<and> codes = []
              then filter (\<lambda>f. trunc t \<le> int (severity_rank (fnd_severity f))) findings
              else findings
          | None \<Rightarrow> findings))"

definition evaluate_rule :: "policy_rule \<Rightarrow> reconciliation_result \<Rightarrow> verdict \<times> pystr" where
  "evaluate_rule rule result =
     (let findings = rule_findings rule (rr_findings result);
          value = fl (of_nat (length findings));
          comparator = (case pr_comparator rule of None \<Rightarrow> Gte | Some c \<Rightarrow> c);
          threshold = (case pr_threshold rule of None \<Rightarrow> 0 | Some t \<Rightarrow> t);
          violated = compare comparator value threshold
      in (if violated then (if pr_fail_on_violation rule then FAIL else WARN) else PASS,
          show_nat (length findings) @ py '' matching finding(s), threshold '' @ comparator_value comparator
            @ py '' '' @ repr_float threshold))"

definition evaluate_rules :: "policy_document \<Rightarrow> reconciliation_result \<Rightarrow> recorded list" where
  "evaluate_rules document result =
     map (\<lambda>(index, rule). (py ''rules['' @ show_nat index @ py ''].'' @ category_value (pr_category rule), evaluate_rule rule result))
       (enumerate 0 (pd_rules document))"

definition policy_records :: "platform \<Rightarrow> policy_document \<Rightarrow> reconciliation_result \<Rightarrow> recorded list" where
  "policy_records L document result =
     evaluate_requirements L document result @ evaluate_findings_severity L document result
     @ evaluate_licenses document result @ evaluate_access document result @ evaluate_drift document result
     @ evaluate_rules document result"

definition rule_result_of :: "recorded \<Rightarrow> rule_result" where
  "rule_result_of r =
     (case r of (name, verdict, detail) \<Rightarrow>
        \<lparr>rul_rule = name, rul_passed = (verdict = PASS), rul_verdict = verdict_value verdict, rul_detail = detail\<rparr>)"

definition evaluate_policy :: "platform \<Rightarrow> policy_document \<Rightarrow> reconciliation_result \<Rightarrow> policy_verdict" where
  "evaluate_policy L document result =
     (let records = policy_records L document result;
          overall = foldl (\<lambda>overall r. worse overall (fst (snd r))) PASS records
      in \<lparr>pv_policy_name = pd_name document, pv_verdict = verdict_value overall,
          pv_rule_results = map rule_result_of records, pv_principal_masking = py ''hash''\<rparr>)"

section \<open>The overall verdict\<close>

abbreviation verdicts :: "recorded list \<Rightarrow> verdict list" where
  "verdicts records \<equiv> map (\<lambda>r. fst (snd r)) records"

definition overall_verdict :: "platform \<Rightarrow> policy_document \<Rightarrow> reconciliation_result \<Rightarrow> verdict" where
  "overall_verdict L document result = Min (insert PASS (set (verdicts (policy_records L document result))))"

lemma foldl_worse: "foldl (\<lambda>a r. worse a (fst (snd r))) v rs = Min (insert v (set (verdicts rs)))"
proof (induction rs arbitrary: v)
  case (Cons r rs)
  have "insert v (set (verdicts (r # rs))) = insert v (insert (fst (snd r)) (set (verdicts rs)))" by simp
  then show ?case using Cons
    by (cases "set (verdicts rs) = {}") (simp_all add: worse_min min.assoc min.left_commute)
qed simp

lemma evaluate_policy_verdict: "pv_verdict (evaluate_policy L d r) = verdict_value (overall_verdict L d r)"
  by (simp add: evaluate_policy_def overall_verdict_def foldl_worse Let_def)

lemma verdict_value_inject [simp]: "verdict_value a = verdict_value b \<longleftrightarrow> a = b"
  by (cases a; cases b) simp_all

lemma overall_verdict_le: "x \<in> set (policy_records L d r) \<Longrightarrow> overall_verdict L d r \<le> fst (snd x)"
  unfolding overall_verdict_def by (intro Min_le) auto

lemma overall_verdict_in: "overall_verdict L d r \<in> insert PASS (set (verdicts (policy_records L d r)))"
  unfolding overall_verdict_def by (intro Min_in) auto

lemma verdict_le_simps [simp]: "WARN \<le> v \<longleftrightarrow> v = WARN \<or> v = PASS"
  by (cases v) (simp_all add: less_eq_verdict_def)

text \<open>What an overall verdict of at least \<open>WARN\<close> says about every recorded rule.\<close>

lemma records_not_failing:
  "WARN \<le> overall_verdict L d r \<Longrightarrow> x \<in> set (policy_records L d r) \<Longrightarrow> WARN \<le> fst (snd x)"
  using overall_verdict_le order_trans by blast

lemma exit_code_pass_iff:
  "rep_policy rep = evaluate_policy L d r \<Longrightarrow> exit_code_for rep = EXIT_PASS \<longleftrightarrow> WARN \<le> overall_verdict L d r"
  by (cases "overall_verdict L d r")
    (simp_all add: exit_code_for_def evaluate_policy_verdict EXIT_PASS_def EXIT_POLICY_FAIL_def EXIT_EXECUTION_ERROR_def)

section \<open>What the gates enforce\<close>

definition gates_hold :: "policy_document \<Rightarrow> reconciliation_result \<Rightarrow> bool" where
  "gates_hold d r \<longleftrightarrow>
     (req_manifest_signature (pd_requirements d) = Some Required \<longrightarrow> sum_manifest_signed (rr_summary r)) \<and>
     (req_full_snapshot (pd_requirements d) = Some Required \<longrightarrow>
        cc_snapshot_kind (rr_consistency r) = py ''full'' \<and> cc_completeness (rr_consistency r) = py ''complete'') \<and>
     (\<forall>m. req_lineage_coverage_min (pd_requirements d) = Some m \<longrightarrow> (\<exists>c. lineage_coverage (rr_ratios r) = Some c \<and> m \<le> c)) \<and>
     (\<forall>f \<in> set (rr_findings r). fnd_severity f \<notin> set (fp_fail_on_severity (pd_findings d))) \<and>
     (Option.bind (pd_licenses d) lp_unknown = Some UnknownFail \<longrightarrow> (\<forall>f \<in> set (rr_findings r). fnd_code f \<noteq> LICENSE_UNKNOWN)) \<and>
     (\<forall>m. Option.bind (pd_access d) ap_acl_compliance_min = Some m \<longrightarrow> (\<exists>c. acl_compliance (rr_ratios r) = Some c \<and> m \<le> c)) \<and>
     (\<forall>m v. Option.bind (pd_drift d) dp_stale_ratio_max = Some m \<longrightarrow> stale_ratio (rr_ratios r) = Some v \<longrightarrow> v \<le> m) \<and>
     (\<forall>m v. Option.bind (pd_drift d) dp_orphan_ratio_max = Some m \<longrightarrow> orphan_ratio (rr_ratios r) = Some v \<longrightarrow> v \<le> m) \<and>
     (\<forall>m v. Option.bind (pd_drift d) dp_missing_ratio_max = Some m \<longrightarrow> missing_ratio (rr_ratios r) = Some v \<longrightarrow> v \<le> m) \<and>
     (\<forall>rule \<in> set (pd_rules d). pr_fail_on_violation rule \<longrightarrow> fst (evaluate_rule rule r) = PASS)"

abbreviation no_failure :: "recorded list \<Rightarrow> bool" where
  "no_failure records \<equiv> \<forall>v \<in> set (verdicts records). v = WARN \<or> v = PASS"

lemma no_failure_requirements:
  "no_failure (evaluate_requirements L d r) \<longleftrightarrow>
     (req_manifest_signature (pd_requirements d) = Some Required \<longrightarrow> sum_manifest_signed (rr_summary r)) \<and>
     (req_full_snapshot (pd_requirements d) = Some Required \<longrightarrow>
        cc_snapshot_kind (rr_consistency r) = py ''full'' \<and> cc_completeness (rr_consistency r) = py ''complete'') \<and>
     (\<forall>m. req_lineage_coverage_min (pd_requirements d) = Some m \<longrightarrow> (\<exists>c. lineage_coverage (rr_ratios r) = Some c \<and> m \<le> c))"
  unfolding evaluate_requirements_def map_append set_append ball_Un Let_def
  by (cases "req_lineage_coverage_min (pd_requirements d)"; cases "lineage_coverage (rr_ratios r)")
    (auto simp: not_less)

lemma no_failure_severity:
  "no_failure (evaluate_findings_severity L d r) \<longleftrightarrow>
     (\<forall>f \<in> set (rr_findings r). fnd_severity f \<notin> set (fp_fail_on_severity (pd_findings d)))"
  by (auto simp: evaluate_findings_severity_def Let_def filter_empty_conv split: if_splits)

lemma no_failure_licenses:
  "no_failure (evaluate_licenses d r) \<longleftrightarrow>
     (Option.bind (pd_licenses d) lp_unknown = Some UnknownFail \<longrightarrow> (\<forall>f \<in> set (rr_findings r). fnd_code f \<noteq> LICENSE_UNKNOWN))"
  by (cases "Option.bind (pd_licenses d) lp_unknown")
    (auto simp: evaluate_licenses_def Let_def filter_empty_conv split: if_splits)

lemma no_failure_access:
  "no_failure (evaluate_access d r) \<longleftrightarrow>
     (\<forall>m. Option.bind (pd_access d) ap_acl_compliance_min = Some m \<longrightarrow> (\<exists>c. acl_compliance (rr_ratios r) = Some c \<and> m \<le> c))"
  by (cases "Option.bind (pd_access d) ap_acl_compliance_min"; cases "acl_compliance (rr_ratios r)")
    (simp_all add: evaluate_access_def not_less)

lemma no_failure_drift_rule:
  "no_failure (drift_rule label actual max_allowed) \<longleftrightarrow> (\<forall>m v. max_allowed = Some m \<longrightarrow> actual = Some v \<longrightarrow> v \<le> m)"
  by (cases actual; cases max_allowed) (simp_all add: drift_rule_def not_less)

lemma no_failure_drift:
  "no_failure (evaluate_drift d r) \<longleftrightarrow>
     (\<forall>m v. Option.bind (pd_drift d) dp_stale_ratio_max = Some m \<longrightarrow> stale_ratio (rr_ratios r) = Some v \<longrightarrow> v \<le> m) \<and>
     (\<forall>m v. Option.bind (pd_drift d) dp_orphan_ratio_max = Some m \<longrightarrow> orphan_ratio (rr_ratios r) = Some v \<longrightarrow> v \<le> m) \<and>
     (\<forall>m v. Option.bind (pd_drift d) dp_missing_ratio_max = Some m \<longrightarrow> missing_ratio (rr_ratios r) = Some v \<longrightarrow> v \<le> m)"
proof (cases "pd_drift d")
  case (Some drift)
  have "no_failure (xs @ ys @ zs) \<longleftrightarrow> no_failure xs \<and> no_failure ys \<and> no_failure zs" for xs ys zs
    by auto
  then show ?thesis
    using Some by (simp only: evaluate_drift_def option.case bind.bind_lunit no_failure_drift_rule)
qed (simp add: evaluate_drift_def)

lemma evaluate_rule_verdict:
  "fst (evaluate_rule rule r) = PASS \<or> fst (evaluate_rule rule r) = (if pr_fail_on_violation rule then FAIL else WARN)"
  by (simp add: evaluate_rule_def Let_def)

lemma no_failure_rules:
  "no_failure (evaluate_rules d r) \<longleftrightarrow>
     (\<forall>rule \<in> set (pd_rules d). pr_fail_on_violation rule \<longrightarrow> fst (evaluate_rule rule r) = PASS)"
proof -
  have "set (verdicts (evaluate_rules d r)) = (\<lambda>rule. fst (evaluate_rule rule r)) ` set (pd_rules d)"
  proof -
    have "verdicts (evaluate_rules d r) = map (\<lambda>x. fst (evaluate_rule (snd x) r)) (enumerate 0 (pd_rules d))"
      by (simp add: evaluate_rules_def case_prod_beta comp_def)
    moreover have "set (pd_rules d) = snd ` set (enumerate 0 (pd_rules d))"
      by (metis list.set_map map_snd_enumerate)
    ultimately show ?thesis by (simp add: image_image)
  qed
  then show ?thesis
    using evaluate_rule_verdict by fastforce
qed

lemma gates_hold_iff: "gates_hold d r \<longleftrightarrow> WARN \<le> overall_verdict L d r"
proof -
  have "WARN \<le> overall_verdict L d r \<longleftrightarrow> no_failure (policy_records L d r)"
    unfolding overall_verdict_def by (subst Min_ge_iff) auto
  also have "\<dots> \<longleftrightarrow> no_failure (evaluate_requirements L d r) \<and> no_failure (evaluate_findings_severity L d r) \<and>
     no_failure (evaluate_licenses d r) \<and> no_failure (evaluate_access d r) \<and> no_failure (evaluate_drift d r) \<and>
     no_failure (evaluate_rules d r)"
    unfolding policy_records_def by (simp only: map_append set_append ball_Un)
  also have "\<dots> \<longleftrightarrow> gates_hold d r"
    unfolding gates_hold_def no_failure_requirements no_failure_severity no_failure_licenses no_failure_access
      no_failure_drift no_failure_rules
    by blast
  finally show ?thesis by (rule sym)
qed

section \<open>A sample result\<close>

definition sample_result :: reconciliation_result where
  "sample_result =
     \<lparr>rr_summary =
        \<lparr>sum_target = [], sum_scope = [], sum_expected_bindings = 0, sum_observed_points = 0, sum_matched_points = 0,
         sum_finding_count = 0, sum_finding_count_by_severity = [], sum_manifest_signed = True, sum_preflight_short_circuited = False\<rparr>,
      rr_ratios = no_ratios, rr_findings = [],
      rr_consistency =
        \<lparr>cc_mode = [], cc_completeness = py ''complete'', cc_start_count = None, cc_end_count = None, cc_observed_count = 0,
         cc_degraded_confidence = False, cc_snapshot_kind = py ''full'', cc_detail = None\<rparr>,
      rr_manifest_id = None, rr_manifest_status = None\<rparr>"

section \<open>Properties\<close>


text \<open>
  The overall verdict is the worst recorded one, in the order FAIL, INCONCLUSIVE, WARN,
  PASS: no recorded verdict is worse, and it is PASS or one of the recorded ones.
\<close>

theorem evaluate_policy_worst:
  "\<exists>v. pv_verdict (evaluate_policy L d r) = verdict_value v \<and>
     list_all (\<lambda>x. v \<le> fst (snd x)) (policy_records L d r) \<and>
     v \<in> set (PASS # verdicts (policy_records L d r))"
  using overall_verdict_le overall_verdict_in
  by (intro exI [of _ "overall_verdict L d r"]) (auto simp: evaluate_policy_verdict list_all_iff)

text \<open>
  A rule without a threshold and without a comparator (or with \<open>gte\<close>) is violated by
  every result, even one with no findings: the default comparison is "count at least 0".
\<close>

theorem default_rule_always_violated:
  assumes "pr_threshold rule = None" "pr_comparator rule = None \<or> pr_comparator rule = Some Gte"
  shows "fst (evaluate_rule rule r) \<noteq> PASS"
proof -
  have "0 \<le> fl (of_nat n)" for n
    using fl_mono [of 0 "of_nat n"] by simp
  then show ?thesis
    using assms by (auto simp: evaluate_rule_def Let_def)
qed

theorem default_rule_always_violated_witness:
  "fst (evaluate_rule \<lparr>pr_category = RCount, pr_taxonomy_codes = None, pr_comparator = None, pr_threshold = None, pr_pattern = None,
     pr_max_age_days = None, pr_fail_on_violation = True\<rparr> sample_result) \<noteq> PASS"
  by (rule default_rule_always_violated) simp_all

end
