(* ===== verification/Engine.thy ===== *)
theory Engine
  imports Matching Policy
begin

text \<open>
  \<open>ragledger.reconcile.engine\<close>, the part both paths share: the schema preflight, the
  comparison of a matched pair, the PII and license facts, the classification of what stays
  missing or orphan, the duplicates, and \<open>_finalize\<close>, which turns a match outcome into a
  result; and the in-memory path \<open>reconcile_small_data\<close>. The big-data path is in
  \<open>Engine_Spill\<close>.
\<close>

section \<open>Errors and helpers\<close>

datatype engine_error =
    TooManyPoints nat int
  | TaxonomyRaised taxonomy_error
  | ConnectorRaised connector_error
  | SpillCorrupt

definition lift_taxonomy :: "taxonomy_error + 'a \<Rightarrow> engine_error + 'a" where
  "lift_taxonomy r = (case r of Inl e \<Rightarrow> Inl (TaxonomyRaised e) | Inr x \<Rightarrow> Inr x)"

definition lift_connector :: "connector_error + 'a \<Rightarrow> engine_error + 'a" where
  "lift_connector r = (case r of Inl e \<Rightarrow> Inl (ConnectorRaised e) | Inr x \<Rightarrow> Inr x)"

lemma lift_simps [simp, result_simps]:
  "lift_taxonomy (Inr x) = Inr x" "lift_taxonomy (Inl e) = Inl (TaxonomyRaised e)"
  "lift_connector (Inr y) = Inr y" "lift_connector (Inl c) = Inl (ConnectorRaised c)"
  by (simp_all add: lift_taxonomy_def lift_connector_def)

definition STALE_CODES :: "finding_code list" where
  "STALE_CODES = [STALE_SOURCE, STALE_PARSE, STALE_CHUNKING]"

definition ACL_VIOLATION_CODES :: "finding_code list" where
  "ACL_VIOLATION_CODES = [ACL_MISSING, ACL_BROADER_THAN_SOURCE, ACL_MISMATCH]"

primrec license_precedence :: "license_method \<Rightarrow> nat" where
  "license_precedence UserAssertion = 0"
| "license_precedence Sidecar = 1"
| "license_precedence Frontmatter = 2"
| "license_precedence PathRuleMethod = 3"
| "license_precedence RepositoryDefault = 4"

definition opt_int :: "int option \<Rightarrow> json" where
  "opt_int i = (case i of None \<Rightarrow> JNull | Some n \<Rightarrow> JInt n)"

type_synonym finding_result = "taxonomy_error + finding"

section \<open>Preflight\<close>

definition expected_dimensions :: "expected_point list \<Rightarrow> int list" where
  "expected_dimensions expected_points =
     concat (map (\<lambda>p. case ep_embedding_dimension p of None \<Rightarrow> [] | Some n \<Rightarrow> [int n]) expected_points)"

definition preflight_schema_check ::
  "platform \<Rightarrow> expected_point list \<Rightarrow> target_schema \<Rightarrow> pystr \<Rightarrow> pystr \<Rightarrow> taxonomy_error + finding list" where
  "preflight_schema_check L expected_points schema target scope =
     (let expected_dims = expected_dimensions expected_points;
          schema_dims = map vf_dimension (ts_vector_fields schema)
      in if expected_dims \<noteq> [] \<and> schema_dims \<noteq> [] \<and> set expected_dims \<inter> set schema_dims = {}
         then collect
           [build_finding L EMBEDDING_DIMENSION_MISMATCH target scope (target @ py '':'' @ scope) (py ''dimension'') None None
              None None None
              (Some [(py ''expected_dimensions'', JList (map JInt (sorted_set expected_dims))),
                     (py ''target_dimensions'', JList (map JInt (sorted_set schema_dims)))])
              None None (Some (py ''target vector dimension(s) share no value with any expected dimension''))]
         else Inr [])"

definition severity_counts :: "finding list \<Rightarrow> (pystr \<times> nat) list" where
  "severity_counts findings =
     foldl (\<lambda>counts f.
        let s = severity_value (fnd_severity f)
        in dict_set s ((case map_of counts s of None \<Rightarrow> 0 | Some n \<Rightarrow> n) + 1) counts) [] findings"

definition short_circuit_result ::
  "manifest_envelope \<Rightarrow> pystr \<Rightarrow> pystr \<Rightarrow> finding list \<Rightarrow> pystr \<Rightarrow> reconciliation_result" where
  "short_circuit_result manifest target scope findings snapshot_kind =
     (let findings = sort_key fnd_fingerprint findings
      in \<lparr>rr_summary =
            \<lparr>sum_target = target, sum_scope = scope, sum_expected_bindings = 0, sum_observed_points = 0,
             sum_matched_points = 0, sum_finding_count = length findings,
             sum_finding_count_by_severity = severity_counts findings,
             sum_manifest_signed = (length (mf_signatures manifest) > 0), sum_preflight_short_circuited = True\<rparr>,
          rr_ratios = no_ratios,
          rr_findings = findings,
          rr_consistency =
            \<lparr>cc_mode = py ''best_effort_live'', cc_completeness = py ''incomplete'', cc_start_count = None,
             cc_end_count = None, cc_observed_count = 0, cc_degraded_confidence = True,
             cc_snapshot_kind = snapshot_kind,
             cc_detail = Some (py ''preflight target-schema check failed; the full snapshot was never read'')\<rparr>,
          rr_manifest_id = Some (bld_build_id (mf_build manifest)),
          rr_manifest_status = Some (build_status_value (bld_status (mf_build manifest)))\<rparr>)"

section \<open>Comparison of a matched pair\<close>

definition expected_lineage :: "expected_point \<Rightarrow> affected_lineage" where
  "expected_lineage e =
     \<lparr>lin_source_id = ep_source_id e, lin_source_version_id = ep_source_version_id e,
      lin_chunk_id = ep_chunk_id e, lin_embedding_id = Some (ep_embedding_id e)\<rparr>"

text \<open>The local \<open>_finding\<close> of \<open>_compare_matched_pair\<close>.\<close>

definition pair_finding :: "platform \<Rightarrow> pystr \<Rightarrow> pystr \<Rightarrow> matched_pair \<Rightarrow> finding_code \<Rightarrow> string \<Rightarrow> dict \<Rightarrow> finding_result" where
  "pair_finding L target scope pair code affected_field evidence =
     build_finding L code target scope (ep_binding_id (mp_expected pair)) (py affected_field) None None
       (Some (np_point_id (mp_observed pair))) (Some (ep_binding_id (mp_expected pair)))
       (Some (expected_lineage (mp_expected pair))) (Some evidence)
       (Some (level_number (mp_level pair))) (Some (mp_confidence pair)) None"

definition current_source :: "(pystr \<Rightarrow> source_record option) \<Rightarrow> expected_point \<Rightarrow> source_record option" where
  "current_source sources_by_id expected =
     (if truthy (ep_source_id expected) then sources_by_id (the (ep_source_id expected)) else None)"

definition stale_findings ::
  "platform \<Rightarrow> pystr \<Rightarrow> pystr \<Rightarrow> (pystr \<Rightarrow> source_record option) \<Rightarrow> matched_pair \<Rightarrow> finding_result list" where
  "stale_findings L target scope sources_by_id pair =
     (let expected = mp_expected pair; observed = mp_observed pair
      in case current_source sources_by_id expected of
           None \<Rightarrow> []
         | Some current \<Rightarrow>
             if truthy (np_source_version_id observed) \<and> np_source_version_id observed \<noteq> Some (src_version_id current)
             then [pair_finding L target scope pair STALE_SOURCE ''source_version_id''
                     [(py ''expected_source_version_id'', JStr (src_version_id current)),
                      (py ''observed_source_version_id'', opt_str (np_source_version_id observed))]]
             else if truthy (ep_chunk_id expected) \<and> truthy (np_chunk_id observed) \<and> np_chunk_id observed \<noteq> ep_chunk_id expected
             then [pair_finding L target scope pair STALE_CHUNKING ''chunk_id''
                     [(py ''expected_chunk_id'', opt_str (ep_chunk_id expected)),
                      (py ''observed_chunk_id'', opt_str (np_chunk_id observed))]]
             else [])"

definition dimension_findings :: "platform \<Rightarrow> pystr \<Rightarrow> pystr \<Rightarrow> matched_pair \<Rightarrow> finding_result list" where
  "dimension_findings L target scope pair =
     (let observed_dims = map snd (np_vector_dimensions (mp_observed pair))
      in case ep_embedding_dimension (mp_expected pair) of
           None \<Rightarrow> []
         | Some n \<Rightarrow>
             if observed_dims \<noteq> [] \<and> int n \<notin> set observed_dims
             then [pair_finding L target scope pair EMBEDDING_DIMENSION_MISMATCH ''dimension''
                     [(py ''expected_dimension'', JInt (int n)),
                      (py ''observed_dimensions'', JList (map JInt (sorted_set observed_dims)))]]
             else [])"

definition vector_hash_findings :: "platform \<Rightarrow> pystr \<Rightarrow> pystr \<Rightarrow> matched_pair \<Rightarrow> finding_result list" where
  "vector_hash_findings L target scope pair =
     (let h = ep_embedding_vector_hash (mp_expected pair);
          hashes = (case np_vector_hashes (mp_observed pair) of None \<Rightarrow> [] | Some d \<Rightarrow> map snd d)
      in if truthy h \<and> hashes \<noteq> [] \<and> the h \<notin> set hashes
         then [pair_finding L target scope pair VECTOR_HASH_MISMATCH ''vector_hash'' [(py ''expected_vector_hash'', opt_str h)]]
         else [])"

definition tenant_findings :: "platform \<Rightarrow> pystr \<Rightarrow> pystr \<Rightarrow> matched_pair \<Rightarrow> finding_result list" where
  "tenant_findings L target scope pair =
     (let want = ep_tenant_projection (mp_expected pair); got = np_tenant (mp_observed pair)
      in if truthy want then
           (if \<not> truthy got
            then [pair_finding L target scope pair TENANT_MISSING ''tenant'' [(py ''expected_tenant'', opt_str want)]]
            else if got \<noteq> want
            then [pair_finding L target scope pair TENANT_MISMATCH ''tenant''
                    [(py ''expected_tenant'', opt_str want), (py ''observed_tenant'', opt_str got)]]
            else [])
         else [])"

definition acl_of :: "normalized_point \<Rightarrow> pystr list" where
  "acl_of observed = (case np_acl observed of None \<Rightarrow> [] | Some entries \<Rightarrow> entries)"

definition acl_finding_code :: "expected_point \<Rightarrow> normalized_point \<Rightarrow> finding_code option" where
  "acl_finding_code expected observed =
     (case ep_acl_projection expected of
        None \<Rightarrow> None
      | Some entries \<Rightarrow>
          (let expected_acl = set entries; observed_acl = set (acl_of observed)
           in if expected_acl \<noteq> {} \<and> observed_acl = {} then Some ACL_MISSING
              else if observed_acl - expected_acl \<noteq> {} then Some ACL_BROADER_THAN_SOURCE
              else if observed_acl \<noteq> expected_acl then Some ACL_MISMATCH
              else None))"

definition acl_findings :: "platform \<Rightarrow> pystr \<Rightarrow> pystr \<Rightarrow> bytes option \<Rightarrow> matched_pair \<Rightarrow> finding_result list" where
  "acl_findings L target scope workspace_secret pair =
     (case acl_finding_code (mp_expected pair) (mp_observed pair) of
        None \<Rightarrow> []
      | Some code \<Rightarrow>
          [pair_finding L target scope pair code ''acl''
             [(py ''expected_acl'', str_list (mask_acl_entries L
                 (remdups (case ep_acl_projection (mp_expected pair) of None \<Rightarrow> [] | Some es \<Rightarrow> es)) workspace_secret)),
              (py ''observed_acl'', str_list (mask_acl_entries L (remdups (acl_of (mp_observed pair))) workspace_secret))]])"

definition drift_findings :: "platform \<Rightarrow> pystr \<Rightarrow> pystr \<Rightarrow> bool \<Rightarrow> matched_pair \<Rightarrow> finding_result list" where
  "drift_findings L target scope stale pair =
     (let expected = mp_expected pair; observed = mp_observed pair
      in if ep_expected_payload_hash expected \<noteq> np_payload_hash observed \<and> \<not> stale
            \<and> acl_finding_code expected observed = None
            \<and> \<not> (truthy (ep_tenant_projection expected) \<and> np_tenant observed \<noteq> ep_tenant_projection expected)
         then [pair_finding L target scope pair PAYLOAD_DRIFT ''payload_hash''
                 [(py ''expected_payload_hash'', JStr (ep_expected_payload_hash expected)),
                  (py ''observed_payload_hash'', JStr (np_payload_hash observed))]]
         else [])"

section \<open>PII and license facts\<close>

definition resolve_pii_assertions :: "pystr list \<Rightarrow> (pystr \<Rightarrow> assertion option) \<Rightarrow> pii_scan_assertion list" where
  "resolve_pii_assertions assertion_ids assertions_by_id =
     concat (map (\<lambda>aid. case assertions_by_id aid of Some (PiiScan a) \<Rightarrow> [a] | _ \<Rightarrow> []) assertion_ids)"

definition pii_violates :: "pii_finding \<Rightarrow> pii_policy \<Rightarrow> float64 \<Rightarrow> bool" where
  "pii_violates finding policy max_confidence_allowed =
     (let type_denied = pf_entity_type finding \<in> set (pp_deny policy);
          type_not_allowlisted = pp_allow policy \<noteq> [] \<and> pf_entity_type finding \<notin> set (pp_allow policy)
      in (type_denied \<or> type_not_allowlisted) \<and> pf_confidence finding > max_confidence_allowed)"

definition pii_policy_findings ::
  "platform \<Rightarrow> pystr \<Rightarrow> pystr \<Rightarrow> (pystr \<Rightarrow> assertion option) \<Rightarrow> pii_policy option \<Rightarrow> matched_pair \<Rightarrow> finding_result list" where
  "pii_policy_findings L target scope assertions_by_id policy pair =
     (case policy of
        None \<Rightarrow> []
      | Some p \<Rightarrow>
          (let max_confidence = (case pp_max_confidence_allowed p of Some m \<Rightarrow> m | None \<Rightarrow> 1)
           in map (\<lambda>f.
                 build_finding L PII_POLICY_VIOLATION target scope (ep_binding_id (mp_expected pair))
                   (py ''pii:'' @ pf_entity_type f @ py '':'' @ show_nat (pf_start f))
                   (if pf_confidence f \<ge> fl (9 / 10) then Some Critical else None) None
                   (Some (np_point_id (mp_observed pair))) (Some (ep_binding_id (mp_expected pair)))
                   (Some (expected_lineage (mp_expected pair)))
                   (Some [(py ''entity_type'', JStr (pf_entity_type f)), (py ''confidence'', JFloat (pf_confidence f)),
                          (py ''masked_preview'', opt_str (pf_masked_preview f))])
                   (Some (level_number (mp_level pair))) (Some (mp_confidence pair)) None)
               (filter (\<lambda>f. pii_violates f p max_confidence)
                  (concat (map pii_findings (resolve_pii_assertions (ep_pii_assertion_ids (mp_expected pair)) assertions_by_id))))))"

definition resolve_license_assertions :: "pystr list \<Rightarrow> (pystr \<Rightarrow> assertion option) \<Rightarrow> license_assertion list" where
  "resolve_license_assertions assertion_ids assertions_by_id =
     concat (map (\<lambda>aid. case assertions_by_id aid of Some (License a) \<Rightarrow> [a] | _ \<Rightarrow> []) assertion_ids)"

text \<open>\<open>min(candidates, key=...)\<close>: the first candidate of the least key.\<close>

definition effective_license :: "license_assertion list \<Rightarrow> license_assertion option" where
  "effective_license cands =
     (case sort_key (\<lambda>a. license_precedence (lic_method a)) cands of [] \<Rightarrow> None | a # _ \<Rightarrow> Some a)"

definition license_policy_findings ::
  "platform \<Rightarrow> pystr \<Rightarrow> pystr \<Rightarrow> (pystr \<Rightarrow> assertion option) \<Rightarrow> policy_document \<Rightarrow> matched_pair \<Rightarrow> finding_result list" where
  "license_policy_findings L target scope assertions_by_id policy pair =
     (case (pd_licenses policy, effective_license (resolve_license_assertions (ep_license_assertion_ids (mp_expected pair)) assertions_by_id)) of
        (Some lp, Some effective) \<Rightarrow>
          (let expression = lic_spdx_expression effective;
               finding = (\<lambda>code severity evidence.
                 build_finding L code target scope (ep_binding_id (mp_expected pair)) (py ''license'') severity None
                   (Some (np_point_id (mp_observed pair))) None (Some (expected_lineage (mp_expected pair))) (Some evidence)
                   None None None)
           in if expression = py ''NOASSERTION'' then
                (case lp_unknown lp of
                   None \<Rightarrow> []
                 | Some UnknownAllow \<Rightarrow> []
                 | Some mode \<Rightarrow>
                     [finding LICENSE_UNKNOWN (if mode = UnknownFail then Some High else None)
                        [(py ''method'', JStr (license_method_value (lic_method effective)))]])
              else if expression \<in> set (lp_deny lp) \<or> (lp_allow lp \<noteq> [] \<and> expression \<notin> set (lp_allow lp))
              then [finding LICENSE_POLICY_VIOLATION None
                      [(py ''spdx_expression'', JStr expression), (py ''method'', JStr (license_method_value (lic_method effective)))]]
              else [])
      | _ \<Rightarrow> [])"

definition compare_matched_pair ::
  "platform \<Rightarrow> pystr \<Rightarrow> pystr \<Rightarrow> (pystr \<Rightarrow> source_record option) \<Rightarrow> (pystr \<Rightarrow> assertion option) \<Rightarrow> policy_document option
   \<Rightarrow> bytes option \<Rightarrow> matched_pair \<Rightarrow> taxonomy_error + finding list" where
  "compare_matched_pair L target scope sources_by_id assertions_by_id policy workspace_secret pair =
     (let stale_part = stale_findings L target scope sources_by_id pair;
          stale = (stale_part \<noteq> [])
      in collect
           (stale_part
            @ dimension_findings L target scope pair
            @ vector_hash_findings L target scope pair
            @ tenant_findings L target scope pair
            @ acl_findings L target scope workspace_secret pair
            @ drift_findings L target scope stale pair
            @ (case policy of
                 None \<Rightarrow> []
               | Some p \<Rightarrow>
                   pii_policy_findings L target scope assertions_by_id (pd_pii p) pair
                   @ license_policy_findings L target scope assertions_by_id p pair)))"

section \<open>Missing, orphan and duplicate points\<close>

definition classify_missing :: "platform \<Rightarrow> pystr \<Rightarrow> pystr \<Rightarrow> expected_point \<Rightarrow> finding_result" where
  "classify_missing L target scope expected =
     build_finding L MISSING_IN_INDEX target scope (ep_binding_id expected) (py ''point_id'') None None
       (Some (ep_point_id expected)) (Some (ep_binding_id expected)) (Some (expected_lineage expected))
       (Some (if truthy (ep_write_status expected) then [(py ''write_status'', opt_str (ep_write_status expected))] else []))
       None None None"

definition orphan_finding :: "platform \<Rightarrow> pystr \<Rightarrow> pystr \<Rightarrow> normalized_point \<Rightarrow> finding_code \<Rightarrow> string \<Rightarrow> dict \<Rightarrow> finding_result" where
  "orphan_finding L target scope observed code affected_field evidence =
     build_finding L code target scope (normalize_point_id L (np_point_id observed)) (py affected_field) None None
       (Some (np_point_id observed)) None
       (Some \<lparr>lin_source_id = np_source_id observed, lin_source_version_id = np_source_version_id observed,
              lin_chunk_id = np_chunk_id observed, lin_embedding_id = np_embedding_id observed\<rparr>)
       (Some evidence) None None None"

definition has_any_identity :: "normalized_point \<Rightarrow> bool" where
  "has_any_identity observed \<longleftrightarrow>
     truthy (np_embedding_id observed) \<or> truthy (np_chunk_id observed) \<or> truthy (np_source_id observed)
     \<or> truthy (np_source_version_id observed)"

definition classify_orphan ::
  "platform \<Rightarrow> pystr \<Rightarrow> pystr \<Rightarrow> (pystr \<Rightarrow> source_record option) \<Rightarrow> normalized_point \<Rightarrow> finding_result" where
  "classify_orphan L target scope sources_by_id observed =
     (if \<not> has_any_identity observed
      then orphan_finding L target scope observed UNVERIFIABLE_POINT ''identity'' []
      else if truthy (np_source_id observed) then
        (case sources_by_id (the (np_source_id observed)) of
           Some current \<Rightarrow>
             if truthy (np_source_version_id observed) \<and> np_source_version_id observed \<noteq> Some (src_version_id current)
             then orphan_finding L target scope observed STALE_SOURCE ''source_version_id''
                    [(py ''expected_source_version_id'', JStr (src_version_id current)),
                     (py ''observed_source_version_id'', opt_str (np_source_version_id observed))]
             else orphan_finding L target scope observed STALE_CHUNKING ''chunk_id''
                    [(py ''observed_chunk_id'', opt_str (np_chunk_id observed)),
                     (py ''observed_embedding_id'', opt_str (np_embedding_id observed))]
         | None \<Rightarrow> orphan_finding L target scope observed ORPHAN_IN_INDEX ''source_id'' [(py ''tombstone_hint'', JBool True)])
      else if truthy (np_chunk_id observed) \<or> truthy (np_embedding_id observed)
      then orphan_finding L target scope observed SOURCE_METADATA_MISSING ''source_id'' []
      else orphan_finding L target scope observed ORPHAN_IN_INDEX ''point_id'' [])"

definition duplicate_findings :: "platform \<Rightarrow> pystr \<Rightarrow> pystr \<Rightarrow> match_outcome \<Rightarrow> finding_result list" where
  "duplicate_findings L target scope outcome =
     map (\<lambda>(level, key, items).
        build_finding L (if level = POINT_ID then DUPLICATE_POINT_ID else DUPLICATE_CONTENT) target scope key
          (level_name_lower level) None None None None None
          (Some [(py ''duplicate_point_ids'', str_list (sort (map (\<lambda>item. normalize_point_id L (np_point_id item)) items))),
                 (py ''count'', JInt (int (length items)))])
          None None None)
       (mo_duplicate_observed_groups outcome)"

section \<open>Finalization\<close>

definition structural_findings ::
  "platform \<Rightarrow> manifest_envelope \<Rightarrow> pystr \<Rightarrow> pystr \<Rightarrow> snapshot_completeness \<Rightarrow> consistency_caveat \<Rightarrow> finding_result list" where
  "structural_findings L manifest target scope completeness caveat =
     (if bld_status (mf_build manifest) \<noteq> BuildComplete
      then [build_finding L MANIFEST_INCOMPLETE target scope (bld_build_id (mf_build manifest)) (py ''build.status'') None None
              None None None (Some [(py ''status'', JStr (build_status_value (bld_status (mf_build manifest))))]) None None None]
      else [])
     @ (if completeness = INCOMPLETE
        then [build_finding L SNAPSHOT_INCOMPLETE target scope (target @ py '':'' @ scope) (py ''consistency.completeness'') None None
                None None None
                (Some [(py ''start_count'', opt_int (cc_start_count caveat)), (py ''end_count'', opt_int (cc_end_count caveat))])
                None None None]
        else [])"

definition has_code :: "finding_code list \<Rightarrow> finding list \<Rightarrow> bool" where
  "has_code codes findings \<longleftrightarrow> list_ex (\<lambda>f. fnd_code f \<in> set codes) findings"

definition acl_required :: "matched_pair \<Rightarrow> bool" where
  "acl_required pair \<longleftrightarrow> (case ep_acl_projection (mp_expected pair) of None \<Rightarrow> False | Some entries \<Rightarrow> entries \<noteq> [])"

definition finalize ::
  "platform \<Rightarrow> manifest_envelope \<Rightarrow> pystr \<Rightarrow> pystr \<Rightarrow> policy_document option \<Rightarrow> bytes option
   \<Rightarrow> expected_point list \<Rightarrow> nat \<Rightarrow> match_outcome \<Rightarrow> snapshot_completeness \<Rightarrow> consistency_caveat \<Rightarrow> taxonomy_error + reconciliation_result" where
  "finalize L manifest target scope policy workspace_secret expected_points observed_count outcome completeness caveat =
     (let sources_by_id = dict_of src_id (mf_sources manifest);
          assertions_by_id = dict_of assertion_id (mf_assertions manifest)
      in andThen (collect (map (compare_matched_pair L target scope sources_by_id assertions_by_id policy workspace_secret) (mo_matched outcome)))
      (\<lambda>pair_findings. andThen (collect (map (classify_missing L target scope) (mo_missing_expected outcome)))
      (\<lambda>missing_findings. andThen (collect (map (classify_orphan L target scope sources_by_id) (mo_orphan_observed outcome)))
      (\<lambda>orphan_findings. andThen (collect (duplicate_findings L target scope outcome))
      (\<lambda>duplicates. andThen (collect (structural_findings L manifest target scope completeness caveat))
      (\<lambda>structural.
        let stale_count = length (filter (has_code STALE_CODES) pair_findings);
            required = filter (\<lambda>(pair, fs). acl_required pair) (zip (mo_matched outcome) pair_findings);
            acl_required_count = length required;
            acl_compliant_count = length (filter (\<lambda>(pair, fs). \<not> has_code ACL_VIOLATION_CODES fs) required);
            unverifiable_count = length (filter (\<lambda>f. fnd_code f = UNVERIFIABLE_POINT) orphan_findings);
            findings = sort_key fnd_fingerprint (concat pair_findings @ missing_findings @ orphan_findings @ duplicates @ structural)
        in Inr
          \<lparr>rr_summary =
             \<lparr>sum_target = target, sum_scope = scope, sum_expected_bindings = length expected_points,
              sum_observed_points = observed_count, sum_matched_points = length (mo_matched outcome),
              sum_finding_count = length findings, sum_finding_count_by_severity = severity_counts findings,
              sum_manifest_signed = (length (mf_signatures manifest) > 0), sum_preflight_short_circuited = False\<rparr>,
           rr_ratios =
             \<lparr>lineage_coverage = ratio (int observed_count - int unverifiable_count) (int observed_count),
              missing_ratio = ratio (int (length (mo_missing_expected outcome))) (int (length expected_points)),
              orphan_ratio = ratio (int (length (mo_orphan_observed outcome))) (int observed_count),
              stale_ratio = ratio (int stale_count) (int (length (mo_matched outcome))),
              acl_compliance = ratio (int acl_compliant_count) (int acl_required_count)\<rparr>,
           rr_findings = findings,
           rr_consistency = caveat,
           rr_manifest_id = Some (bld_build_id (mf_build manifest)),
           rr_manifest_status = Some (build_status_value (bld_status (mf_build manifest)))\<rparr>))))))"

section \<open>The small-data path\<close>

definition reconcile_small_data ::
  "platform \<Rightarrow> manifest_envelope \<Rightarrow> connector \<Rightarrow> pystr \<Rightarrow> pystr \<Rightarrow> policy_document option \<Rightarrow> bytes option \<Rightarrow> pystr \<Rightarrow> int
   \<Rightarrow> engine_error + reconciliation_result" where
  "reconcile_small_data L manifest connector target scope policy workspace_secret snapshot_kind max_in_memory_points =
     (let expected_points = resolve_expected_points L manifest target scope
      in andThen (lift_connector (inspect_target_schema connector))
      (\<lambda>schema. andThen (lift_taxonomy (preflight_schema_check L expected_points schema target scope))
      (\<lambda>preflight.
        if preflight \<noteq> [] then Inr (short_circuit_result manifest target scope preflight snapshot_kind)
        else andThen (lift_connector (list_points connector))
        (\<lambda>observed_points.
          if int (length observed_points) > max_in_memory_points
          then Inl (TooManyPoints (length observed_points) max_in_memory_points)
          else andThen (lift_connector (get_consistency_info connector))
          (\<lambda>consistency.
            lift_taxonomy (finalize L manifest target scope policy workspace_secret
              expected_points (length observed_points)
              (match_all_levels L expected_points observed_points)
              (ci_completeness consistency) (consistency_caveat_from_info consistency snapshot_kind)))))))"

section \<open>No finding construction raises\<close>

definition built :: "finding_result \<Rightarrow> bool" where
  "built r \<longleftrightarrow> (\<exists>f. r = Inr f)"

lemma build_finding_built:
  "default_severity code \<noteq> Critical \<or> severity = None \<or> severity = Some Critical \<Longrightarrow>
     built (build_finding L code target scope subj fld severity reason pid bid lin ev lvl conf det)"
  by (auto simp: built_def build_finding_def split: option.split)

lemma collect_built:
  "list_all built rs \<Longrightarrow> collect rs = Inr (map projr rs)"
  by (induction rs) (auto simp: built_def)

lemma pair_finding_built [simp]: "built (pair_finding L t s p code fld ev)"
  by (simp add: pair_finding_def build_finding_built)

lemma compare_parts_built:
  "list_all built (stale_findings L t s src p)" "list_all built (dimension_findings L t s p)"
  "list_all built (vector_hash_findings L t s p)" "list_all built (tenant_findings L t s p)"
  "list_all built (acl_findings L t s sec p)" "list_all built (drift_findings L t s st p)"
  "list_all built (pii_policy_findings L t s asr pol p)" "list_all built (license_policy_findings L t s asr pd p)"
  by (auto simp: stale_findings_def dimension_findings_def vector_hash_findings_def tenant_findings_def acl_findings_def
      drift_findings_def pii_policy_findings_def license_policy_findings_def Let_def list_all_iff
      intro!: build_finding_built split: option.split list.split unknown_mode.split)
    (metis unknown_mode.exhaust)

definition pair_parts ::
  "platform \<Rightarrow> pystr \<Rightarrow> pystr \<Rightarrow> (pystr \<Rightarrow> source_record option) \<Rightarrow> (pystr \<Rightarrow> assertion option) \<Rightarrow> policy_document option
   \<Rightarrow> bytes option \<Rightarrow> matched_pair \<Rightarrow> finding_result list" where
  "pair_parts L target scope src asr policy sec pair =
     stale_findings L target scope src pair @ dimension_findings L target scope pair
     @ vector_hash_findings L target scope pair @ tenant_findings L target scope pair
     @ acl_findings L target scope sec pair @ drift_findings L target scope (stale_findings L target scope src pair \<noteq> []) pair
     @ (case policy of None \<Rightarrow> []
        | Some p \<Rightarrow> pii_policy_findings L target scope asr (pd_pii p) pair @ license_policy_findings L target scope asr p pair)"

lemma compare_matched_pair_parts:
  "compare_matched_pair L t s src asr pol sec pair = Inr (map projr (pair_parts L t s src asr pol sec pair))"
proof -
  have "list_all built (pair_parts L t s src asr pol sec pair)"
    using compare_parts_built by (auto simp: pair_parts_def split: option.split)
  from collect_built [OF this] show ?thesis
    by (simp add: compare_matched_pair_def pair_parts_def Let_def)
qed

lemma compare_all_pairs:
  "collect (map (compare_matched_pair L t s src asr pol sec) ps) = Inr (map (\<lambda>p. map projr (pair_parts L t s src asr pol sec p)) ps)"
  by (simp add: compare_matched_pair_parts [abs_def])

lemma classify_built:
  "built (classify_missing L t s e)" "built (classify_orphan L t s src x)"
  "list_all built (duplicate_findings L t s mo)" "list_all built (structural_findings L m t s c cav)"
  by (auto simp: classify_missing_def classify_orphan_def orphan_finding_def duplicate_findings_def structural_findings_def
      list_all_iff intro!: build_finding_built split: option.split)

lemma collect_map_built: "(\<And>x. built (f x)) \<Longrightarrow> collect (map f xs) = Inr (map (\<lambda>x. projr (f x)) xs)"
  using collect_built [of "map f xs"] by (simp add: list_all_iff comp_def)

text \<open>The findings of a result, before sorting.\<close>

definition pair_finding_lists ::
  "platform \<Rightarrow> manifest_envelope \<Rightarrow> pystr \<Rightarrow> pystr \<Rightarrow> policy_document option \<Rightarrow> bytes option \<Rightarrow> match_outcome \<Rightarrow> finding list list" where
  "pair_finding_lists L m t s pol sec mo =
     map (\<lambda>p. map projr (pair_parts L t s (dict_of src_id (mf_sources m)) (dict_of assertion_id (mf_assertions m)) pol sec p)) (mo_matched mo)"

definition orphan_finding_list :: "platform \<Rightarrow> manifest_envelope \<Rightarrow> pystr \<Rightarrow> pystr \<Rightarrow> match_outcome \<Rightarrow> finding list" where
  "orphan_finding_list L m t s mo =
     map (\<lambda>x. projr (classify_orphan L t s (dict_of src_id (mf_sources m)) x)) (mo_orphan_observed mo)"

definition unsorted_findings ::
  "platform \<Rightarrow> manifest_envelope \<Rightarrow> pystr \<Rightarrow> pystr \<Rightarrow> policy_document option \<Rightarrow> bytes option \<Rightarrow> match_outcome
   \<Rightarrow> snapshot_completeness \<Rightarrow> consistency_caveat \<Rightarrow> finding list" where
  "unsorted_findings L m t s pol sec mo c cav =
     concat (pair_finding_lists L m t s pol sec mo)
     @ map (\<lambda>e. projr (classify_missing L t s e)) (mo_missing_expected mo)
     @ orphan_finding_list L m t s mo
     @ map projr (duplicate_findings L t s mo)
     @ map projr (structural_findings L m t s c cav)"

lemma finalize_total: "\<exists>r. finalize L m t s pol sec eps n mo c cav = Inr r"
  by (simp add: finalize_def Let_def compare_all_pairs collect_map_built classify_built collect_built)

lemma finalize_result:
  assumes "finalize L m t s pol sec eps n mo c cav = Inr r"
  shows "rr_findings r = sort_key fnd_fingerprint (unsorted_findings L m t s pol sec mo c cav)"
    and "sum_finding_count (rr_summary r) = length (rr_findings r)"
    and "sum_finding_count_by_severity (rr_summary r) = severity_counts (rr_findings r)"
    and "sum_expected_bindings (rr_summary r) = length eps" "sum_observed_points (rr_summary r) = n"
    and "sum_matched_points (rr_summary r) = length (mo_matched mo)"
    and "sum_manifest_signed (rr_summary r) \<longleftrightarrow> mf_signatures m \<noteq> []"
    and "rr_consistency r = cav"
    and "rr_ratios r =
      \<lparr>lineage_coverage = ratio (int n - int (length (filter (\<lambda>f. fnd_code f = UNVERIFIABLE_POINT) (orphan_finding_list L m t s mo)))) (int n),
       missing_ratio = ratio (int (length (mo_missing_expected mo))) (int (length eps)),
       orphan_ratio = ratio (int (length (mo_orphan_observed mo))) (int n),
       stale_ratio = ratio (int (length (filter (has_code STALE_CODES) (pair_finding_lists L m t s pol sec mo)))) (int (length (mo_matched mo))),
       acl_compliance =
         ratio (int (length (filter (\<lambda>(p, fs). \<not> has_code ACL_VIOLATION_CODES fs)
                  (filter (\<lambda>(p, fs). acl_required p) (zip (mo_matched mo) (pair_finding_lists L m t s pol sec mo))))))
               (int (length (filter (\<lambda>(p, fs). acl_required p) (zip (mo_matched mo) (pair_finding_lists L m t s pol sec mo)))))\<rparr>"
  using assms
  by (auto simp: finalize_def Let_def compare_all_pairs collect_map_built classify_built collect_built
      unsorted_findings_def pair_finding_lists_def orphan_finding_list_def)

section \<open>Severity counts\<close>

lemma severity_counts_snoc:
  "severity_counts (fs @ [f]) =
     dict_set (severity_value (fnd_severity f))
       ((case map_of (severity_counts fs) (severity_value (fnd_severity f)) of None \<Rightarrow> 0 | Some n \<Rightarrow> n) + 1) (severity_counts fs)"
  by (simp add: severity_counts_def Let_def)

lemma severity_counts_lookup:
  "map_of (severity_counts fs) k =
     (let n = length (filter (\<lambda>f. severity_value (fnd_severity f) = k) fs) in if n = 0 then None else Some n)"
proof (induction fs rule: rev_induct)
  case Nil
  then show ?case by (simp add: severity_counts_def)
next
  case (snoc f fs)
  then show ?case by (auto simp: severity_counts_snoc Let_def)
qed

section \<open>Agreement of a pair\<close>

text \<open>An independent statement of what \<open>_compare_matched_pair\<close> looks for, without policy facts.\<close>

definition pair_agrees :: "(pystr \<Rightarrow> source_record option) \<Rightarrow> expected_point \<Rightarrow> normalized_point \<Rightarrow> bool" where
  "pair_agrees src e x \<longleftrightarrow>
     (\<forall>cur. current_source src e = Some cur \<longrightarrow>
        (truthy (np_source_version_id x) \<longrightarrow> np_source_version_id x = Some (src_version_id cur)) \<and>
        (truthy (ep_chunk_id e) \<longrightarrow> truthy (np_chunk_id x) \<longrightarrow> np_chunk_id x = ep_chunk_id e)) \<and>
     (\<forall>n. ep_embedding_dimension e = Some n \<longrightarrow> np_vector_dimensions x \<noteq> [] \<longrightarrow> int n \<in> snd ` set (np_vector_dimensions x)) \<and>
     (\<forall>h d. ep_embedding_vector_hash e = Some h \<longrightarrow> h \<noteq> [] \<longrightarrow> np_vector_hashes x = Some d \<longrightarrow> d \<noteq> [] \<longrightarrow> h \<in> snd ` set d) \<and>
     (truthy (ep_tenant_projection e) \<longrightarrow> np_tenant x = ep_tenant_projection e) \<and>
     (\<forall>es. ep_acl_projection e = Some es \<longrightarrow> set es = set (acl_of x)) \<and>
     ep_expected_payload_hash e = np_payload_hash x"

lemma stale_findings_Nil_iff:
  "stale_findings L t s src p = [] \<longleftrightarrow>
     (\<forall>cur. current_source src (mp_expected p) = Some cur \<longrightarrow>
        (truthy (np_source_version_id (mp_observed p)) \<longrightarrow> np_source_version_id (mp_observed p) = Some (src_version_id cur)) \<and>
        (truthy (ep_chunk_id (mp_expected p)) \<longrightarrow> truthy (np_chunk_id (mp_observed p)) \<longrightarrow>
           np_chunk_id (mp_observed p) = ep_chunk_id (mp_expected p)))"
  by (cases "current_source src (mp_expected p)") (auto simp: stale_findings_def Let_def)

lemma acl_finding_code_None_iff:
  "acl_finding_code e x = None \<longleftrightarrow> (\<forall>es. ep_acl_projection e = Some es \<longrightarrow> set es = set (acl_of x))"
  by (cases "ep_acl_projection e") (auto simp: acl_finding_code_def Let_def)

lemma tenant_findings_Nil_iff:
  "tenant_findings L t s p = [] \<longleftrightarrow>
     (truthy (ep_tenant_projection (mp_expected p)) \<longrightarrow> np_tenant (mp_observed p) = ep_tenant_projection (mp_expected p))"
  by (auto simp: tenant_findings_def Let_def)

lemma dimension_findings_Nil_iff:
  "dimension_findings L t s p = [] \<longleftrightarrow>
     (\<forall>n. ep_embedding_dimension (mp_expected p) = Some n \<longrightarrow> np_vector_dimensions (mp_observed p) \<noteq> [] \<longrightarrow>
        int n \<in> snd ` set (np_vector_dimensions (mp_observed p)))"
  by (cases "ep_embedding_dimension (mp_expected p)") (simp_all add: dimension_findings_def Let_def)

lemma vector_hash_findings_Nil_iff:
  "vector_hash_findings L t s p = [] \<longleftrightarrow>
     (\<forall>h d. ep_embedding_vector_hash (mp_expected p) = Some h \<longrightarrow> h \<noteq> [] \<longrightarrow>
        np_vector_hashes (mp_observed p) = Some d \<longrightarrow> d \<noteq> [] \<longrightarrow> h \<in> snd ` set d)"
  by (cases "ep_embedding_vector_hash (mp_expected p)"; cases "np_vector_hashes (mp_observed p)")
    (simp_all add: vector_hash_findings_def Let_def)

lemma pair_parts_Nil_iff:
  "pair_parts L t s src asr None sec p = [] \<longleftrightarrow> pair_agrees src (mp_expected p) (mp_observed p)"
proof -
  have acl: "acl_findings L t s sec p = [] \<longleftrightarrow> acl_finding_code (mp_expected p) (mp_observed p) = None"
    by (cases "acl_finding_code (mp_expected p) (mp_observed p)") (simp_all add: acl_findings_def)
  have drift: "drift_findings L t s False p = [] \<longleftrightarrow> ep_expected_payload_hash (mp_expected p) = np_payload_hash (mp_observed p)"
    if "acl_finding_code (mp_expected p) (mp_observed p) = None"
      "truthy (ep_tenant_projection (mp_expected p)) \<longrightarrow> np_tenant (mp_observed p) = ep_tenant_projection (mp_expected p)"
    using that by (auto simp: drift_findings_def Let_def)
  have "pair_parts L t s src asr None sec p = [] \<longleftrightarrow>
      stale_findings L t s src p = [] \<and> dimension_findings L t s p = [] \<and> vector_hash_findings L t s p = [] \<and>
      tenant_findings L t s p = [] \<and> acl_finding_code (mp_expected p) (mp_observed p) = None \<and>
      ep_expected_payload_hash (mp_expected p) = np_payload_hash (mp_observed p)"
    using drift by (auto simp: pair_parts_def acl tenant_findings_Nil_iff)
  then show ?thesis
    unfolding stale_findings_Nil_iff dimension_findings_Nil_iff vector_hash_findings_Nil_iff tenant_findings_Nil_iff
      acl_finding_code_None_iff pair_agrees_def by blast
qed

section \<open>The two ways a run returns\<close>

lemma preflight_cases:
  obtains "preflight_schema_check L eps schema t s = Inr []"
  | f where "preflight_schema_check L eps schema t s = Inr [f]" "fnd_code f = EMBEDDING_DIMENSION_MISMATCH"
      "fnd_severity f = Critical" "set (expected_dimensions eps) \<inter> vf_dimension ` set (ts_vector_fields schema) = {}"
proof (cases "expected_dimensions eps \<noteq> [] \<and> map vf_dimension (ts_vector_fields schema) \<noteq> [] \<and>
    set (expected_dimensions eps) \<inter> set (map vf_dimension (ts_vector_fields schema)) = {}")
  case True
  then show ?thesis
    using that(2) by (simp add: preflight_schema_check_def build_finding_def)
next
  case False
  then show ?thesis
    using that(1) unfolding preflight_schema_check_def Let_def by (simp only: if_False)
qed

lemma small_data_cases:
  assumes "reconcile_small_data L m con t s pol sec kind cap = Inr r"
  obtains (short) schema fs where "inspect_target_schema con = Inr schema"
      "preflight_schema_check L (resolve_expected_points L m t s) schema t s = Inr fs" "fs \<noteq> []"
      "r = short_circuit_result m t s fs kind"
  | (full) schema xs info where "inspect_target_schema con = Inr schema"
      "preflight_schema_check L (resolve_expected_points L m t s) schema t s = Inr []"
      "list_points con = Inr xs" "int (length xs) \<le> cap" "get_consistency_info con = Inr info"
      "finalize L m t s pol sec (resolve_expected_points L m t s) (length xs)
         (match_all_levels L (resolve_expected_points L m t s) xs) (ci_completeness info)
         (consistency_caveat_from_info info kind) = Inr r"
  using assms
  by (auto simp: reconcile_small_data_def Let_def lift_connector_def lift_taxonomy_def andThen_def
      split: sum.splits if_splits)

lemma small_data_total:
  assumes "inspect_target_schema con = Inr schema"
    and "preflight_schema_check L (resolve_expected_points L m t s) schema t s = Inr []"
    and "list_points con = Inr xs" "int (length xs) \<le> cap" "get_consistency_info con = Inr info"
  shows "\<exists>r. reconcile_small_data L m con t s pol sec kind cap = Inr r"
  using assms finalize_total [of L m t s pol sec "resolve_expected_points L m t s" "length xs"
      "match_all_levels L (resolve_expected_points L m t s) xs" "ci_completeness info" "consistency_caveat_from_info info kind"]
  by (auto simp: reconcile_small_data_def Let_def)

lemma short_circuit_flag [simp]: "sum_preflight_short_circuited (rr_summary (short_circuit_result m t s fs kind))"
  by (simp add: short_circuit_result_def Let_def)

lemma finalize_not_short:
  "finalize L m t s pol sec eps n mo c cav = Inr r \<Longrightarrow> \<not> sum_preflight_short_circuited (rr_summary r)"
  by (auto simp: finalize_def Let_def)

lemma finalize_findings_set:
  assumes "finalize L m t s pol sec eps n mo c cav = Inr r"
  shows "set (rr_findings r) = set (unsorted_findings L m t s pol sec mo c cav)"
  using finalize_result(1) [OF assms] by simp

lemma classify_missing_finding:
  "fnd_code (projr (classify_missing L t s e)) = MISSING_IN_INDEX"
  "fnd_severity (projr (classify_missing L t s e)) = High"
  "lct_binding_id (fnd_locator (projr (classify_missing L t s e))) = Some (ep_binding_id e)"
  by (simp_all add: classify_missing_def build_finding_def)

lemma pair_finding_finding:
  "fnd_code (projr (pair_finding L t s p c fld ev)) = c"
  "fnd_severity (projr (pair_finding L t s p c fld ev)) = default_severity c"
  "lct_binding_id (fnd_locator (projr (pair_finding L t s p c fld ev))) = Some (ep_binding_id (mp_expected p))"
  "fnd_evidence (projr (pair_finding L t s p c fld ev)) = ev"
  by (simp_all add: pair_finding_def build_finding_def)

lemma unmatched_is_missing:
  assumes "e \<in> set es" "\<And>x l. x \<in> set xs \<Longrightarrow> l \<in> set CLOSING_LEVELS \<Longrightarrow> \<not> same_key L l e x"
  shows "e \<in> set (mo_missing_expected (match_all_levels L es xs))"
proof (rule ccontr)
  assume n: "e \<notin> set (mo_missing_expected (match_all_levels L es xs))"
  note inv = match_all_levels_inv [of L es xs]
  have "e \<in># mset (map mp_expected (mo_matched (match_all_levels L es xs))) + mset (mo_missing_expected (match_all_levels L es xs))"
    using inv assms(1) by (metis set_mset_mset)
  with n obtain p where p: "p \<in> set (mo_matched (match_all_levels L es xs))" "mp_expected p = e" by auto
  have "mp_observed p \<in> set xs"
    using inv p(1) by (intro mset_split_mem(1) [of mp_observed "mo_matched (match_all_levels L es xs)"]) blast+
  moreover have "mp_level p \<in> set CLOSING_LEVELS" "same_key L (mp_level p) e (mp_observed p)"
    using inv p by blast+
  ultimately show False using assms(2) by blast
qed

lemma outcome_lengths:
  "length (mo_matched (match_all_levels L es xs)) + length (mo_missing_expected (match_all_levels L es xs)) = length es"
  "length (mo_matched (match_all_levels L es xs)) + length (mo_orphan_observed (match_all_levels L es xs)) = length xs"
  using match_all_levels_inv [of L es xs] by (metis length_map size_mset size_union)+

lemma orphan_code_unverifiable:
  "fnd_code (projr (classify_orphan L t s src x)) = UNVERIFIABLE_POINT \<longleftrightarrow> \<not> has_any_identity x"
  by (auto simp: classify_orphan_def orphan_finding_def build_finding_def split: option.splits)

lemma unverifiable_count:
  "length (filter (\<lambda>f. fnd_code f = UNVERIFIABLE_POINT) (orphan_finding_list L m t s mo)) =
     length (filter (\<lambda>x. \<not> has_any_identity x) (mo_orphan_observed mo))"
  by (simp add: orphan_finding_list_def filter_map comp_def orphan_code_unverifiable)

lemma pair_part_reported:
  assumes "finalize L m t s pol sec eps n mo c cav = Inr r" "p \<in> set (mo_matched mo)"
    and "x \<in> set (pair_parts L t s (dict_of src_id (mf_sources m)) (dict_of assertion_id (mf_assertions m)) pol sec p)"
  shows "projr x \<in> set (rr_findings r)"
  using assms(2,3) unfolding finalize_findings_set [OF assms(1)]
  by (auto simp: unsorted_findings_def pair_finding_lists_def)

lemma acl_broader_iff:
  "acl_finding_code e x = Some ACL_BROADER_THAN_SOURCE \<longleftrightarrow>
     (\<exists>es. ep_acl_projection e = Some es \<and> \<not> set (acl_of x) \<subseteq> set es)"
  by (cases "ep_acl_projection e") (auto simp: acl_finding_code_def Let_def)

section \<open>A sample run\<close>

definition sample_connector :: "normalized_point list \<Rightarrow> connector" where
  "sample_connector points =
     \<lparr>inspect_target_schema = Inr
        \<lparr>ts_target_id = py ''t'', ts_scope = py ''s'', ts_vector_fields = [], ts_point_id_type = py ''int'',
         ts_payload_indexes = [], ts_approx_point_count = None, ts_resolved_scope = None, ts_extra = []\<rparr>,
      iterate_points = (points, None),
      get_consistency_info = Inr
        \<lparr>ci_mode = STRICT_CONSISTENT, ci_completeness = COMPLETE, ci_start_count = None, ci_end_count = None,
         ci_observed_count = 1, ci_detail = None\<rparr>\<rparr>"

abbreviation sample_expected_point :: expected_point where
  "sample_expected_point \<equiv> expected_point_of sample_platform sample_binding None None None None"

lemma sample_resolve: "resolve_expected_points sample_platform sample_manifest (py ''t'') (py ''s'') = [sample_expected_point]"
  by (simp add: resolve_expected_points_def sample_manifest_def dict_of_def Let_def) (simp add: sample_binding_def)

lemma sample_run_total:
  assumes "length points \<le> 10"
  shows "\<exists>r. reconcile_small_data sample_platform sample_manifest (sample_connector points) (py ''t'') (py ''s'') None None (py ''full'') 10 = Inr r"
  using assms
  by (intro small_data_total) (auto simp: sample_connector_def list_points_def preflight_schema_check_def Let_def)

text \<open>An observed point that matches the binding but grants access to everyone.\<close>

definition sample_widened :: normalized_point where
  "sample_widened = sample_observed\<lparr>np_point_id := JInt 1, np_acl := Some [py ''USER:ann'', py ''PUBLIC'']\<rparr>"

lemma sample_widened_matched:
  "pair_of POINT_ID (sample_expected_point, sample_widened) \<in>
     set (mo_matched (match_all_levels sample_platform [sample_expected_point] [sample_widened]))"
  by (simp add: eval_simps sample_widened_def sample_observed_def expected_point_of_def sample_binding_def)

lemma sample_run:
  assumes "length points \<le> 10"
  obtains r where
    "reconcile_small_data sample_platform sample_manifest (sample_connector points) (py ''t'') (py ''s'') None None (py ''full'') 10 = Inr r"
    "\<not> sum_preflight_short_circuited (rr_summary r)" "list_points (sample_connector points) = Inr points"
proof -
  obtain r where r: "reconcile_small_data sample_platform sample_manifest (sample_connector points) (py ''t'') (py ''s'') None None (py ''full'') 10 = Inr r"
    using sample_run_total [OF assms] by blast
  have pre: "preflight_schema_check L eps schema t s = Inr []" if "ts_vector_fields schema = []" for L eps schema t s
    using that by (simp add: preflight_schema_check_def Let_def)
  have "\<not> sum_preflight_short_circuited (rr_summary r)"
    using r by (cases rule: small_data_cases) (auto simp: finalize_not_short sample_connector_def pre)
  with r show ?thesis by (intro that) (auto simp: sample_connector_def list_points_def)
qed

section \<open>Properties\<close>

text \<open>
  Reconciliation never trips over its own severity rules: no input makes the in-memory path
  raise \<open>SeverityOverrideError\<close>.
\<close>

theorem small_data_no_override_error:
  "reconcile_small_data L m con t s pol sec kind cap \<noteq> Inl (TaxonomyRaised e)"
proof -
  have "preflight_schema_check L eps schema t s \<noteq> Inl e" for eps schema
    by (rule preflight_cases [of L eps schema t s]) simp_all
  moreover have "finalize L m t s pol sec eps n mo c cav \<noteq> Inl e" for eps n mo c cav
    using finalize_total [of L m t s pol sec eps n mo c cav] by auto
  ultimately show ?thesis
    by (auto simp: reconcile_small_data_def Let_def andThen_def lift_taxonomy_def lift_connector_def split: sum.splits)
qed

text \<open>
  C12. An expected binding that no observed point matches by point id, embedding id or chunk id is
  reported: a completed run has a \<open>MISSING_IN_INDEX\<close> finding of severity high for it.
\<close>

theorem missing_binding_reported:
  assumes "reconcile_small_data L m con t s pol sec kind cap = Inr r"
    and "\<not> sum_preflight_short_circuited (rr_summary r)"
    and "list_points con = Inr xs"
    and "e \<in> set (resolve_expected_points L m t s)"
    and "\<And>x l. x \<in> set xs \<Longrightarrow> l \<in> set CLOSING_LEVELS \<Longrightarrow> \<not> same_key L l e x"
  shows "\<exists>f \<in> set (rr_findings r). fnd_code f = MISSING_IN_INDEX \<and> fnd_severity f = High \<and>
    lct_binding_id (fnd_locator f) = Some (ep_binding_id e)"
  using assms(1)
proof (cases rule: small_data_cases)
  case (full schema ys info)
  have "e \<in> set (mo_missing_expected (match_all_levels L (resolve_expected_points L m t s) ys))"
    using assms(3-5) full(3) by (intro unmatched_is_missing) auto
  then have "projr (classify_missing L t s e) \<in> set (rr_findings r)"
    unfolding finalize_findings_set [OF full(6)] by (auto simp: unsorted_findings_def)
  then show ?thesis using classify_missing_finding [of L t s e] by blast
qed (use assms(2) in simp)

theorem missing_binding_reported_witness:
  "\<exists>r. reconcile_small_data sample_platform sample_manifest (sample_connector [sample_observed]) (py ''t'') (py ''s'') None None (py ''full'') 10 = Inr r \<and>
     (\<exists>f \<in> set (rr_findings r). fnd_code f = MISSING_IN_INDEX \<and> fnd_severity f = High \<and> lct_binding_id (fnd_locator f) = Some (py ''b1''))"
proof -
  obtain r where r: "reconcile_small_data sample_platform sample_manifest (sample_connector [sample_observed]) (py ''t'') (py ''s'') None None (py ''full'') 10 = Inr r"
    "\<not> sum_preflight_short_circuited (rr_summary r)" "list_points (sample_connector [sample_observed]) = Inr [sample_observed]"
    by (rule sample_run [of "[sample_observed]"]) simp_all
  have "\<not> same_key sample_platform l sample_expected_point sample_observed" if "l \<in> set CLOSING_LEVELS" for l
    using that by (auto simp: CLOSING_LEVELS_def same_key_def expected_point_of_def sample_binding_def sample_observed_def
        normalize_point_id_def canonicalize_def)
  then have "\<exists>f \<in> set (rr_findings r). fnd_code f = MISSING_IN_INDEX \<and> fnd_severity f = High \<and>
      lct_binding_id (fnd_locator f) = Some (ep_binding_id sample_expected_point)"
    by (intro missing_binding_reported [OF r]) (auto simp: sample_resolve)
  then show ?thesis using r(1) by (auto simp: expected_point_of_def sample_binding_def)
qed

text \<open>
  C11. A widened ACL never passes silently: when a matched point grants access to a principal the
  manifest did not declare for it, a completed run reports \<open>ACL_BROADER_THAN_SOURCE\<close> with
  severity critical for that binding, and the evidence carries the masked entries only.
\<close>

theorem broadened_acl_reported:
  assumes "reconcile_small_data L m con t s pol sec kind cap = Inr r"
    and "\<not> sum_preflight_short_circuited (rr_summary r)"
    and "list_points con = Inr xs"
    and "p \<in> set (mo_matched (match_all_levels L (resolve_expected_points L m t s) xs))"
    and "ep_acl_projection (mp_expected p) = Some es"
    and "who \<in> set (acl_of (mp_observed p))" "who \<notin> set es"
  shows "\<exists>f \<in> set (rr_findings r). fnd_code f = ACL_BROADER_THAN_SOURCE \<and> fnd_severity f = Critical \<and>
    lct_binding_id (fnd_locator f) = Some (ep_binding_id (mp_expected p)) \<and>
    fnd_evidence f =
      [(py ''expected_acl'', str_list (mask_acl_entries L (remdups es) sec)),
       (py ''observed_acl'', str_list (mask_acl_entries L (remdups (acl_of (mp_observed p))) sec))]"
  using assms(1)
proof (cases rule: small_data_cases)
  case (full schema ys info)
  let ?ev = "[(py ''expected_acl'', str_list (mask_acl_entries L (remdups es) sec)),
     (py ''observed_acl'', str_list (mask_acl_entries L (remdups (acl_of (mp_observed p))) sec))]"
  have ys: "ys = xs" using assms(3) full(3) by simp
  have "acl_finding_code (mp_expected p) (mp_observed p) = Some ACL_BROADER_THAN_SOURCE"
    using assms(5-7) by (auto simp: acl_broader_iff)
  then have "pair_finding L t s p ACL_BROADER_THAN_SOURCE ''acl'' ?ev \<in>
      set (pair_parts L t s (dict_of src_id (mf_sources m)) (dict_of assertion_id (mf_assertions m)) pol sec p)"
    using assms(5) by (simp add: pair_parts_def acl_findings_def)
  from pair_part_reported [OF full(6) _ this] show ?thesis
    using assms(4) ys pair_finding_finding [of L t s p ACL_BROADER_THAN_SOURCE "''acl''" ?ev]
    by (metis default_severity.simps(14))
qed (use assms(2) in simp)

theorem broadened_acl_reported_witness:
  "\<exists>r. reconcile_small_data sample_platform sample_manifest (sample_connector [sample_widened]) (py ''t'') (py ''s'') None None (py ''full'') 10 = Inr r \<and>
     (\<exists>f \<in> set (rr_findings r). fnd_code f = ACL_BROADER_THAN_SOURCE \<and> fnd_severity f = Critical \<and> lct_binding_id (fnd_locator f) = Some (py ''b1''))"
proof -
  obtain r where r: "reconcile_small_data sample_platform sample_manifest (sample_connector [sample_widened]) (py ''t'') (py ''s'') None None (py ''full'') 10 = Inr r"
    "\<not> sum_preflight_short_circuited (rr_summary r)" "list_points (sample_connector [sample_widened]) = Inr [sample_widened]"
    by (rule sample_run [of "[sample_widened]"]) simp_all
  have "\<exists>f \<in> set (rr_findings r). fnd_code f = ACL_BROADER_THAN_SOURCE \<and> fnd_severity f = Critical \<and>
      lct_binding_id (fnd_locator f) = Some (py ''b1'')"
    using broadened_acl_reported [OF r, where p = "pair_of POINT_ID (sample_expected_point, sample_widened)"
        and es = "[py ''USER:ann'']" and who = "py ''PUBLIC''"] sample_widened_matched
    by (auto simp: sample_resolve expected_point_of_def sample_binding_def coerce_acl_projection_def py_str_def
        acl_of_def sample_widened_def sample_observed_def)
  then show ?thesis using r(1) by blast
qed

text \<open>
  The comparison of a matched pair is exact: without policy facts it yields no finding
  precisely when source version, chunk, dimension, vector hash, tenant, ACL and payload hash
  of the observed point agree with the manifest.
\<close>

theorem compare_matched_pair_exact:
  "compare_matched_pair L t s src asr None sec pair = Inr [] \<longleftrightarrow> pair_agrees src (mp_expected pair) (mp_observed pair)"
  by (simp add: compare_matched_pair_parts pair_parts_Nil_iff)

text \<open>
  Every ratio of a result is either not applicable or lies between 0 and 1, and the lineage
  coverage is the share of observed points that were matched or carry some identity.
\<close>

theorem result_ratios:
  assumes "reconcile_small_data L m con t s pol sec kind cap = Inr r"
    and "\<not> sum_preflight_short_circuited (rr_summary r)"
    and "list_points con = Inr xs"
  shows "list_all (\<lambda>v. case v of None \<Rightarrow> True | Some q \<Rightarrow> 0 \<le> q \<and> q \<le> 1)
      [lineage_coverage (rr_ratios r), missing_ratio (rr_ratios r), orphan_ratio (rr_ratios r), stale_ratio (rr_ratios r),
       acl_compliance (rr_ratios r)] \<and>
    lineage_coverage (rr_ratios r) =
      (let mo = match_all_levels L (resolve_expected_points L m t s) xs
       in ratio (int (length (mo_matched mo) + length (filter has_any_identity (mo_orphan_observed mo)))) (int (length xs)))"
  using assms(1)
proof (cases rule: small_data_cases)
  case (full schema ys info)
  let ?mo = "match_all_levels L (resolve_expected_points L m t s) xs"
  have ys: "ys = xs" using assms(3) full(3) by simp
  note len = outcome_lengths [of L "resolve_expected_points L m t s" xs]
  have split: "length (filter has_any_identity zs) + length (filter (\<lambda>x. \<not> has_any_identity x) zs) = length zs" for zs
    by (rule sum_length_filter_compl)
  have coverage: "int (length xs) - int (length (filter (\<lambda>x. \<not> has_any_identity x) (mo_orphan_observed ?mo))) =
      int (length (mo_matched ?mo) + length (filter has_any_identity (mo_orphan_observed ?mo)))"
    using len(2) split [of "mo_orphan_observed ?mo"] by linarith
  have bound: "case ratio (int a) (int b) of None \<Rightarrow> True | Some q \<Rightarrow> 0 \<le> q \<and> q \<le> 1" if "a \<le> b" for a b
    using ratio_bounds [of "int a" "int b"] that by (simp split: option.split)
  have "length (filter (has_code STALE_CODES) (pair_finding_lists L m t s pol sec ?mo)) \<le> length (mo_matched ?mo)"
    using length_filter_le [of "has_code STALE_CODES" "pair_finding_lists L m t s pol sec ?mo"]
    by (simp add: pair_finding_lists_def)
  moreover have "length (mo_matched ?mo) + length (filter has_any_identity (mo_orphan_observed ?mo)) \<le> length xs"
    using len(2) length_filter_le [of has_any_identity "mo_orphan_observed ?mo"] by linarith
  moreover have "length (mo_missing_expected ?mo) \<le> length (resolve_expected_points L m t s)"
    "length (mo_orphan_observed ?mo) \<le> length xs"
    using len by linarith+
  ultimately show ?thesis
    using finalize_result(9) [OF full(6)] unfolding ys Let_def
    by (simp only: ratios.simps unverifiable_count coverage list.pred_inject bound length_filter_le simp_thms)
qed (use assms(2) in simp)

theorem result_ratios_witness:
  "\<exists>r. reconcile_small_data sample_platform sample_manifest (sample_connector [sample_observed]) (py ''t'') (py ''s'') None None (py ''full'') 10 = Inr r \<and>
     lineage_coverage (rr_ratios r) = Some 1"
proof -
  obtain r where r: "reconcile_small_data sample_platform sample_manifest (sample_connector [sample_observed]) (py ''t'') (py ''s'') None None (py ''full'') 10 = Inr r"
    "\<not> sum_preflight_short_circuited (rr_summary r)" "list_points (sample_connector [sample_observed]) = Inr [sample_observed]"
    by (rule sample_run [of "[sample_observed]"]) simp_all
  have "let mo = match_all_levels sample_platform [sample_expected_point] [sample_observed]
     in ratio (int (length (mo_matched mo) + length (filter has_any_identity (mo_orphan_observed mo)))) 1 = Some 1"
    by (simp add: eval_simps sample_observed_def expected_point_of_def sample_binding_def has_any_identity_def ratio_def)
  then show ?thesis using r(1) result_ratios [OF r] by (simp add: sample_resolve Let_def)
qed

text \<open>
  The findings of a result are ordered by fingerprint, their number is the one the summary
  states, and the summary counts each severity exactly.
\<close>

theorem result_findings_summary:
  assumes "reconcile_small_data L m con t s pol sec kind cap = Inr r"
  shows "sorted (map fnd_fingerprint (rr_findings r)) \<and>
    sum_finding_count (rr_summary r) = length (rr_findings r) \<and>
    map_of (sum_finding_count_by_severity (rr_summary r)) (severity_value sev) =
      (let n = length (filter (\<lambda>f. fnd_severity f = sev) (rr_findings r)) in if n = 0 then None else Some n)"
proof -
  have inj: "severity_value a = severity_value b \<longleftrightarrow> a = b" for a b
    by (cases a; cases b) simp_all
  from assms show ?thesis
  proof (cases rule: small_data_cases)
    case (short schema fs)
    then show ?thesis by (simp add: short_circuit_result_def Let_def severity_counts_lookup inj)
  next
    case (full schema xs info)
    then show ?thesis
      using finalize_result(1-3) [OF full(6)] by (simp add: severity_counts_lookup inj)
  qed
qed

theorem result_findings_summary_witness:
  "\<exists>r. reconcile_small_data sample_platform sample_manifest (sample_connector [sample_observed]) (py ''t'') (py ''s'') None None (py ''full'') 10 = Inr r \<and>
     sorted (map fnd_fingerprint (rr_findings r))"
proof -
  obtain r where r: "reconcile_small_data sample_platform sample_manifest (sample_connector [sample_observed]) (py ''t'') (py ''s'') None None (py ''full'') 10 = Inr r"
    by (rule sample_run [of "[sample_observed]"]) simp_all
  then show ?thesis using result_findings_summary [OF r] by blast
qed

end
