(* ===== verification/Engine_Spill.thy ===== *)
theory Engine_Spill
  imports Engine
begin

text \<open>
  \<open>ragledger.reconcile.engine\<close>, the big-data path: the run writer that sorts and spills
  bounded chunks, reading runs back through \<open>heapq.merge\<close>, the work directory and its
  sweep, and \<open>reconcile_big_data\<close>. The work directory is a map from file names to
  contents; \<open>uuid.uuid4().hex\<close> is a parameter, a supply of tokens; the pydantic
  serialisation of an observed point is a parameter too (\<open>dump_point\<close>,
  \<open>load_point\<close>). Leftover callbacks write to the two next writers as they are called;
  here the expected leftovers are written first, then the observed ones, which only affects
  which token a run gets.
\<close>

section \<open>The work directory\<close>

datatype dir_entry = RunFile bytes | SubDir

record spill_state =
  wd_exists :: bool
  wd_mode :: nat
  wd_entries :: "pystr \<Rightarrow> dir_entry option"
  tokens_used :: nat

text \<open>\<open>_reset_work_dir\<close>: every entry, file or subdirectory, is removed; mode \<open>0o700\<close>.\<close>

definition reset_work_dir :: "spill_state \<Rightarrow> spill_state" where
  "reset_work_dir sp = sp\<lparr>wd_exists := True, wd_entries := (\<lambda>name. None), wd_mode := 448\<rparr>"

definition write_file :: "pystr \<Rightarrow> bytes \<Rightarrow> spill_state \<Rightarrow> spill_state" where
  "write_file name content sp = sp\<lparr>wd_entries := (wd_entries sp)(name \<mapsto> RunFile content)\<rparr>"

definition unlink :: "pystr \<Rightarrow> spill_state \<Rightarrow> spill_state" where
  "unlink name sp = sp\<lparr>wd_entries := (wd_entries sp)(name := None)\<rparr>"

section \<open>The run writer\<close>

record 'a codec =
  serialize :: "'a \<Rightarrow> bytes"
  deserialize :: "bytes \<Rightarrow> 'a option"

record 'a run_writer =
  rw_prefix :: pystr
  rw_chunk_size :: int
  rw_buffer :: "'a list"
  rw_runs :: "pystr list"

definition new_writer :: "pystr \<Rightarrow> int \<Rightarrow> 'a run_writer" where
  "new_writer prefix chunk_size = \<lparr>rw_prefix = prefix, rw_chunk_size = chunk_size, rw_buffer = [], rw_runs = []\<rparr>"

definition run_name :: "pystr \<Rightarrow> nat \<Rightarrow> pystr \<Rightarrow> pystr" where
  "run_name prefix index token = prefix @ py ''-'' @ zfill 6 (show_nat index) @ py ''-'' @ token @ py ''.jsonl''"

definition lines_of :: "('a \<Rightarrow> bytes) \<Rightarrow> 'a list \<Rightarrow> bytes" where
  "lines_of ser items = concat (map (\<lambda>item. ser item @ [10]) items)"

definition flush_run ::
  "(nat \<Rightarrow> pystr) \<Rightarrow> ('a \<Rightarrow> 'k::linorder) \<Rightarrow> ('a \<Rightarrow> bytes) \<Rightarrow> 'a run_writer \<times> spill_state \<Rightarrow> 'a run_writer \<times> spill_state" where
  "flush_run uuid key ser ws =
     (case ws of (w, sp) \<Rightarrow>
        if rw_buffer w = [] then (w, sp)
        else
          (let run = run_name (rw_prefix w) (length (rw_runs w)) (uuid (tokens_used sp));
               sp' = write_file run (lines_of ser (sort_key key (rw_buffer w))) sp
           in (w\<lparr>rw_runs := rw_runs w @ [run], rw_buffer := []\<rparr>, sp'\<lparr>tokens_used := tokens_used sp + 1\<rparr>)))"

definition add_item ::
  "(nat \<Rightarrow> pystr) \<Rightarrow> ('a \<Rightarrow> 'k::linorder) \<Rightarrow> ('a \<Rightarrow> bytes) \<Rightarrow> 'a run_writer \<times> spill_state \<Rightarrow> 'a \<Rightarrow> 'a run_writer \<times> spill_state" where
  "add_item uuid key ser ws item =
     (case ws of (w, sp) \<Rightarrow>
        let w' = w\<lparr>rw_buffer := rw_buffer w @ [item]\<rparr>
        in if int (length (rw_buffer w')) \<ge> rw_chunk_size w' then flush_run uuid key ser (w', sp) else (w', sp))"

text \<open>All \<open>add\<close> calls of one writer, and \<open>finish\<close>, which returns the run paths.\<close>

definition add_items ::
  "(nat \<Rightarrow> pystr) \<Rightarrow> ('a \<Rightarrow> 'k::linorder) \<Rightarrow> ('a \<Rightarrow> bytes) \<Rightarrow> 'a run_writer \<times> spill_state \<Rightarrow> 'a list \<Rightarrow> 'a run_writer \<times> spill_state" where
  "add_items uuid key ser ws items = foldl (add_item uuid key ser) ws items"

definition finish ::
  "(nat \<Rightarrow> pystr) \<Rightarrow> ('a \<Rightarrow> 'k::linorder) \<Rightarrow> ('a \<Rightarrow> bytes) \<Rightarrow> 'a run_writer \<times> spill_state \<Rightarrow> pystr list \<times> spill_state" where
  "finish uuid key ser ws = (case flush_run uuid key ser ws of (w, sp) \<Rightarrow> (rw_runs w, sp))"

section \<open>Reading runs back\<close>

text \<open>The lines of a file, without their terminators.\<close>

function split_lines :: "bytes \<Rightarrow> bytes list" where
  "split_lines data =
     (if data = [] then []
      else takeWhile (\<lambda>b. b \<noteq> 10) data # split_lines (drop 1 (dropWhile (\<lambda>b. b \<noteq> 10) data)))"
  by pat_completeness auto
termination
proof (relation "measure length")
  fix data :: bytes
  assume "data \<noteq> []"
  then show "(drop 1 (dropWhile (\<lambda>b. b \<noteq> 10) data), data) \<in> measure length"
    using length_dropWhile_le [of "\<lambda>b. b \<noteq> 10" data] by (cases data) auto
qed simp

declare split_lines.simps [simp del]

definition decode_line :: "(bytes \<Rightarrow> 'a option) \<Rightarrow> bytes \<Rightarrow> engine_error + 'a" where
  "decode_line des line = (case des line of None \<Rightarrow> Inl SpillCorrupt | Some x \<Rightarrow> Inr x)"

definition iter_run :: "(bytes \<Rightarrow> 'a option) \<Rightarrow> spill_state \<Rightarrow> pystr \<Rightarrow> engine_error + 'a list" where
  "iter_run des sp path =
     (case wd_entries sp path of
        Some (RunFile data) \<Rightarrow> collect (map (decode_line des) (filter (\<lambda>line. line \<noteq> []) (split_lines data)))
      | _ \<Rightarrow> Inl SpillCorrupt)"

definition merge_runs :: "('a \<Rightarrow> 'k::linorder) \<Rightarrow> (bytes \<Rightarrow> 'a option) \<Rightarrow> spill_state \<Rightarrow> pystr list \<Rightarrow> engine_error + 'a list" where
  "merge_runs key des sp paths =
     andThen (collect (map (iter_run des sp) paths)) (\<lambda>runs. Inr (heapq_merge key runs))"

section \<open>Rounds\<close>

definition expected_codec :: "expected_point codec" where
  "expected_codec = \<lparr>serialize = expected_point_to_json_bytes, deserialize = expected_point_from_json_bytes\<rparr>"

definition round_prefix :: "string \<Rightarrow> nat \<Rightarrow> pystr" where
  "round_prefix side number = py side @ py ''-r'' @ show_nat number"

definition unlink_all :: "pystr list \<Rightarrow> spill_state \<Rightarrow> spill_state" where
  "unlink_all paths sp = foldl (\<lambda>sp path. unlink path sp) sp paths"

fun spill_rounds ::
  "platform \<Rightarrow> (nat \<Rightarrow> pystr) \<Rightarrow> normalized_point codec \<Rightarrow> int \<Rightarrow> nat \<Rightarrow> match_level list
   \<Rightarrow> pystr list \<Rightarrow> pystr list \<Rightarrow> match_state \<Rightarrow> spill_state \<Rightarrow> (engine_error + match_state) \<times> spill_state" where
  "spill_rounds L uuid P chunk_size number [] expected_runs observed_runs st sp = (Inr st, sp)"
| "spill_rounds L uuid P chunk_size number (level # levels) expected_runs observed_runs st sp =
     (case (merge_runs (expected_sort_key L level) (deserialize expected_codec) sp expected_runs,
            merge_runs (observed_sort_key L level) (deserialize P) sp observed_runs) of
        (Inr expected_stream, Inr observed_stream) \<Rightarrow>
          (let ev = stream_merge_join L level expected_stream observed_stream;
               st' = absorb st ev
           in (case levels of
                 [] \<Rightarrow> (Inr st', unlink_all observed_runs (unlink_all expected_runs sp))
               | next_level # _ \<Rightarrow>
                   (let (we, sp1) = add_items uuid (expected_sort_key L next_level) (serialize expected_codec)
                          (new_writer (round_prefix ''expected'' (number + 1)) chunk_size, sp) (on_leftover_expected ev);
                        (wo, sp2) = add_items uuid (observed_sort_key L next_level) (serialize P)
                          (new_writer (round_prefix ''observed'' (number + 1)) chunk_size, sp1) (on_leftover_observed ev);
                        sp3 = unlink_all observed_runs (unlink_all expected_runs sp2);
                        (runs_e, sp4) = finish uuid (expected_sort_key L next_level) (serialize expected_codec) (we, sp3);
                        (runs_o, sp5) = finish uuid (observed_sort_key L next_level) (serialize P) (wo, sp4)
                    in spill_rounds L uuid P chunk_size (number + 1) levels runs_e runs_o st' sp5)))
      | (Inl e, _) \<Rightarrow> (Inl e, sp)
      | (_, Inl e) \<Rightarrow> (Inl e, sp))"

section \<open>The big-data path\<close>

definition reconcile_big_data ::
  "platform \<Rightarrow> (nat \<Rightarrow> pystr) \<Rightarrow> normalized_point codec \<Rightarrow> manifest_envelope \<Rightarrow> connector \<Rightarrow> pystr \<Rightarrow> pystr
   \<Rightarrow> policy_document option \<Rightarrow> bytes option \<Rightarrow> pystr \<Rightarrow> int \<Rightarrow> spill_state
   \<Rightarrow> (engine_error + reconciliation_result) \<times> spill_state" where
  "reconcile_big_data L uuid P manifest connector target scope policy workspace_secret snapshot_kind chunk_size sp =
     (let expected_points = resolve_expected_points L manifest target scope
      in case andThen (lift_connector (inspect_target_schema connector))
           (\<lambda>schema. lift_taxonomy (preflight_schema_check L expected_points schema target scope)) of
           Inl e \<Rightarrow> (Inl e, sp)
         | Inr preflight \<Rightarrow>
             if preflight \<noteq> [] then (Inr (short_circuit_result manifest target scope preflight snapshot_kind), sp)
             else
               (let sp0 = reset_work_dir sp;
                    (expected_runs, sp1) = finish uuid (expected_sort_key L POINT_ID) (serialize expected_codec)
                      (add_items uuid (expected_sort_key L POINT_ID) (serialize expected_codec)
                         (new_writer (round_prefix ''expected'' 1) chunk_size, sp0) expected_points);
                    observed_points = fst (iterate_points connector);
                    (observed_writer, sp2) = add_items uuid (observed_sort_key L POINT_ID) (serialize P)
                      (new_writer (round_prefix ''observed'' 1) chunk_size, sp1) observed_points
                in case snd (iterate_points connector) of
                     Some e \<Rightarrow> (Inl (ConnectorRaised e), sp2)
                   | None \<Rightarrow>
                       (let (observed_runs, sp3) = finish uuid (observed_sort_key L POINT_ID) (serialize P) (observed_writer, sp2)
                        in case spill_rounds L uuid P chunk_size 1 CLOSING_LEVELS expected_runs observed_runs (initial_state [] []) sp3 of
                          (Inl e, sp4) \<Rightarrow> (Inl e, sp4)
                        | (Inr st, sp4) \<Rightarrow>
                            (case andThen (lift_connector (get_consistency_info connector))
                               (\<lambda>consistency. lift_taxonomy (finalize L manifest target scope policy workspace_secret
                                  expected_points (length observed_points) (outcome_of L st)
                                  (ci_completeness consistency) (consistency_caveat_from_info consistency snapshot_kind))) of
                               Inl e \<Rightarrow> (Inl e, sp4)
                             | Inr result \<Rightarrow> (Inr result, reset_work_dir sp4)))))"

section \<open>Lines\<close>

lemma split_lines_step:
  "10 \<notin> set l \<Longrightarrow> split_lines (l @ 10 # rest) = l # split_lines rest"
proof -
  assume l: "10 \<notin> set l"
  then have "takeWhile (\<lambda>b. b \<noteq> 10) (l @ 10 # rest) = l" "dropWhile (\<lambda>b. b \<noteq> 10) (l @ 10 # rest) = 10 # rest"
    by (induction l) auto
  then show ?thesis by (subst split_lines.simps) simp
qed

lemma split_lines_Nil [simp]: "split_lines [] = []"
  by (simp add: split_lines.simps)

definition line_ok :: "('a \<Rightarrow> bytes) \<Rightarrow> (bytes \<Rightarrow> 'a option) \<Rightarrow> ('a \<Rightarrow> 'a) \<Rightarrow> 'a \<Rightarrow> bool" where
  "line_ok ser des reread x \<longleftrightarrow> ser x \<noteq> [] \<and> 10 \<notin> set (ser x) \<and> des (ser x) = Some (reread x)"

lemma split_lines_of: "\<forall>x \<in> set xs. 10 \<notin> set (ser x) \<Longrightarrow> split_lines (lines_of ser xs) = map ser xs"
  by (induction xs) (simp_all add: lines_of_def split_lines_step)

lemma iter_run_lines:
  assumes "wd_entries sp path = Some (RunFile (lines_of ser xs))" "\<forall>x \<in> set xs. line_ok ser des reread x"
  shows "iter_run des sp path = Inr (map reread xs)"
proof -
  have "filter (\<lambda>l. l \<noteq> []) (map ser xs) = map ser xs"
    using assms(2) by (induction xs) (auto simp: line_ok_def)
  moreover have "map (decode_line des) (map ser xs) = map Inr (map reread xs)"
    using assms(2) by (auto simp: decode_line_def line_ok_def)
  ultimately show ?thesis
    using assms split_lines_of [of xs ser] by (simp add: iter_run_def line_ok_def del: map_map)
qed

section \<open>Run names\<close>

lemma zfill_digits: "\<forall>c \<in> set (zfill w (show_nat n)). is_digit c"
  using show_nat_digits [of n] by (auto simp: zfill_def is_digit_def)

lemma read_zfill: "read_digits 0 (zfill w (show_nat n)) = n"
proof -
  have "read_digits 0 (replicate k 48 @ s) = read_digits 0 s" for k s
    by (induction k) simp_all
  then show ?thesis by (simp add: zfill_def)
qed

lemma run_name_index:
  assumes "run_name pre i tok = run_name pre j tok'"
  shows "i = j"
proof -
  have "zfill 6 (show_nat i) @ 45 # r = zfill 6 (show_nat j) @ 45 # r' \<Longrightarrow> zfill 6 (show_nat i) = zfill 6 (show_nat j)" for r r'
  proof -
    assume eq: "zfill 6 (show_nat i) @ 45 # r = zfill 6 (show_nat j) @ 45 # r'"
    have "takeWhile is_digit (zfill 6 (show_nat n) @ 45 # q) = zfill 6 (show_nat n)" for n q
      using zfill_digits [of 6 n] by (simp add: takeWhile_append is_digit_def)
    then show ?thesis using arg_cong [OF eq, of "takeWhile is_digit"] by simp
  qed
  then have "zfill 6 (show_nat i) = zfill 6 (show_nat j)"
    using assms by (simp add: run_name_def py_def)
  then show ?thesis by (metis read_zfill)
qed

definition has_prefix :: "pystr \<Rightarrow> pystr \<Rightarrow> bool" where
  "has_prefix pre name \<longleftrightarrow> take (length pre + 1) name = pre @ [45]"

lemma run_name_prefix [simp]: "has_prefix pre (run_name pre i tok)"
  by (simp add: has_prefix_def run_name_def py_def)

lemma has_prefix_unique:
  "has_prefix pre name \<Longrightarrow> has_prefix pre' name \<Longrightarrow> length pre = length pre' \<Longrightarrow> pre = pre'"
  by (auto simp: has_prefix_def)

section \<open>What a writer leaves on disk\<close>

definition stored :: "('a \<Rightarrow> 'k::linorder) \<Rightarrow> ('a \<Rightarrow> bytes) \<Rightarrow> spill_state \<Rightarrow> pystr list \<Rightarrow> 'a list list \<Rightarrow> bool" where
  "stored key ser sp runs pieces \<longleftrightarrow>
     list_all2 (\<lambda>run piece. wd_entries sp run = Some (RunFile (lines_of ser (sort_key key piece)))) runs pieces"

lemma stored_cong:
  assumes "\<forall>run \<in> set runs. wd_entries sp' run = wd_entries sp run"
  shows "stored key ser sp' runs pieces \<longleftrightarrow> stored key ser sp runs pieces"
  using assms unfolding stored_def by (auto simp: list_all2_conv_all_nth)

definition writer_inv ::
  "('a \<Rightarrow> 'k::linorder) \<Rightarrow> ('a \<Rightarrow> bytes) \<Rightarrow> pystr \<Rightarrow> int \<Rightarrow> spill_state \<Rightarrow> 'a list \<Rightarrow> 'a run_writer \<times> spill_state \<Rightarrow> bool" where
  "writer_inv key ser pre n sp0 items ws \<longleftrightarrow>
     (let (w, sp) = ws
      in rw_prefix w = pre \<and> rw_chunk_size w = n \<and>
         int (length (rw_buffer w)) < max 1 n \<and>
         (\<forall>i < length (rw_runs w). \<exists>tok. rw_runs w ! i = run_name pre i tok) \<and>
         (\<exists>pieces. concat pieces @ rw_buffer w = items \<and> stored key ser sp (rw_runs w) pieces \<and>
            (\<forall>piece \<in> set pieces. int (length piece) \<le> max 1 n)) \<and>
         (\<forall>name. \<not> has_prefix pre name \<longrightarrow> wd_entries sp name = wd_entries sp0 name))"

lemma writer_inv_new: "writer_inv key ser pre n sp [] (new_writer pre n, sp)"
  by (simp add: writer_inv_def new_writer_def stored_def)

lemma writer_inv_flush:
  assumes "rw_prefix w = pre" "rw_chunk_size w = n" "int (length (rw_buffer w)) \<le> max 1 n"
    and runs: "\<forall>i < length (rw_runs w). \<exists>tok. rw_runs w ! i = run_name pre i tok"
    and pieces: "concat pieces @ rw_buffer w = items" "stored key ser sp (rw_runs w) pieces"
      "\<forall>piece \<in> set pieces. int (length piece) \<le> max 1 n"
    and frame: "\<forall>name. \<not> has_prefix pre name \<longrightarrow> wd_entries sp name = wd_entries sp0 name"
  shows "writer_inv key ser pre n sp0 items (flush_run uuid key ser (w, sp)) \<and> rw_buffer (fst (flush_run uuid key ser (w, sp))) = []"
proof (cases "rw_buffer w = []")
  case True
  then show ?thesis using assms by (auto simp: flush_run_def writer_inv_def)
next
  case False
  let ?run = "run_name pre (length (rw_runs w)) (uuid (tokens_used sp))"
  obtain w' sp' where r: "flush_run uuid key ser (w, sp) = (w', sp')" by fastforce
  then have w': "w' = w\<lparr>rw_runs := rw_runs w @ [?run], rw_buffer := []\<rparr>"
    and sp': "wd_entries sp' = (wd_entries sp)(?run \<mapsto> RunFile (lines_of ser (sort_key key (rw_buffer w))))"
    using False assms(1) by (auto simp: flush_run_def Let_def write_file_def)
  have fresh: "?run \<notin> set (rw_runs w)"
  proof
    assume "?run \<in> set (rw_runs w)"
    then obtain i where "i < length (rw_runs w)" "rw_runs w ! i = ?run" by (auto simp: in_set_conv_nth)
    then show False using runs run_name_index by (metis less_irrefl)
  qed
  have "stored key ser sp' (rw_runs w) pieces"
    using pieces(2) fresh stored_cong [of "rw_runs w" sp' sp key ser pieces] by (auto simp: sp')
  then have st: "stored key ser sp' (rw_runs w') (pieces @ [rw_buffer w])"
    unfolding w' stored_def by (auto simp: list_all2_append sp' dest: list_all2_lengthD intro!: list_all2_appendI)
  have "\<exists>tok. rw_runs w' ! i = run_name pre i tok" if "i < length (rw_runs w')" for i
    using runs that by (cases "i < length (rw_runs w)") (auto simp: w' nth_append less_Suc_eq)
  moreover have "wd_entries sp' name = wd_entries sp0 name" if "\<not> has_prefix pre name" for name
    using that frame by (auto simp: sp')
  moreover have "concat (pieces @ [rw_buffer w]) @ rw_buffer w' = items"
    using pieces(1) by (simp add: w')
  moreover have "\<forall>piece \<in> set (pieces @ [rw_buffer w]). int (length piece) \<le> max 1 n"
    using pieces(3) assms(3) by auto
  ultimately show ?thesis
    unfolding r writer_inv_def Let_def case_prod_conv
    using st assms(1,2) by (intro conjI) (auto simp: w', (intro exI [of _ "pieces @ [rw_buffer w]"], simp)?)
qed

lemma writer_inv_add:
  assumes "writer_inv key ser pre n sp0 items ws"
  shows "writer_inv key ser pre n sp0 (items @ [x]) (add_item uuid key ser ws x)"
proof -
  obtain w sp where ws: "ws = (w, sp)" by (cases ws)
  let ?w = "w\<lparr>rw_buffer := rw_buffer w @ [x]\<rparr>"
  obtain pieces where p: "concat pieces @ rw_buffer w = items" "stored key ser sp (rw_runs w) pieces"
    "\<forall>piece \<in> set pieces. int (length piece) \<le> max 1 n"
    using assms by (auto simp: writer_inv_def ws)
  show ?thesis
  proof (cases "int (length (rw_buffer ?w)) \<ge> rw_chunk_size ?w")
    case True
    have "writer_inv key ser pre n sp0 (items @ [x]) (flush_run uuid key ser (?w, sp))"
      using assms p by (intro conjunct1 [OF writer_inv_flush [where pieces = pieces]]) (auto simp: writer_inv_def ws)
    then show ?thesis using True by (simp add: add_item_def ws Let_def)
  next
    case False
    then show ?thesis
      using assms p by (auto simp: add_item_def ws Let_def writer_inv_def intro!: exI [of _ pieces])
  qed
qed

lemma writer_inv_add_items:
  "writer_inv key ser pre n sp0 items ws \<Longrightarrow> writer_inv key ser pre n sp0 (items @ xs) (add_items uuid key ser ws xs)"
proof (induction xs arbitrary: items ws)
  case (Cons x xs)
  show ?case
    using Cons.IH [OF writer_inv_add [OF Cons.prems, of x uuid]] by (simp add: add_items_def)
qed (simp add: add_items_def)

text \<open>
  After \<open>finish\<close>: the items, cut into bounded pieces, are the runs on disk; nothing
  outside the writer's prefix was touched.
\<close>

definition spilled ::
  "('a \<Rightarrow> 'k::linorder) \<Rightarrow> ('a \<Rightarrow> bytes) \<Rightarrow> pystr \<Rightarrow> int \<Rightarrow> spill_state \<Rightarrow> pystr list \<Rightarrow> 'a list \<Rightarrow> bool" where
  "spilled key ser pre n sp runs items \<longleftrightarrow>
     (\<exists>pieces. concat pieces = items \<and> stored key ser sp runs pieces \<and> (\<forall>piece \<in> set pieces. int (length piece) \<le> max 1 n)) \<and>
     (\<forall>run \<in> set runs. has_prefix pre run)"

lemma finish_spilled:
  assumes "writer_inv key ser pre n sp0 items (w, sp)"
    and "\<forall>name. has_prefix pre name \<longrightarrow> wd_entries sp' name = wd_entries sp name"
    and "finish uuid key ser (w, sp') = (runs, sp'')"
  shows "spilled key ser pre n sp'' runs items" "\<forall>name. \<not> has_prefix pre name \<longrightarrow> wd_entries sp'' name = wd_entries sp' name"
proof -
  obtain pieces where p: "concat pieces @ rw_buffer w = items" "stored key ser sp (rw_runs w) pieces"
    "\<forall>piece \<in> set pieces. int (length piece) \<le> max 1 n"
    and w: "rw_prefix w = pre" "rw_chunk_size w = n" "int (length (rw_buffer w)) < max 1 n"
    "\<forall>i < length (rw_runs w). \<exists>tok. rw_runs w ! i = run_name pre i tok"
    using assms(1) by (auto simp: writer_inv_def)
  have "has_prefix pre run" if "run \<in> set (rw_runs w)" for run
    using that w(4) by (auto simp: in_set_conv_nth)
  then have "stored key ser sp' (rw_runs w) pieces"
    using p(2) assms(2) stored_cong [of "rw_runs w" sp' sp key ser pieces] by auto
  then have inv: "writer_inv key ser pre n sp' items (flush_run uuid key ser (w, sp'))"
    "rw_buffer (fst (flush_run uuid key ser (w, sp'))) = []"
    using writer_inv_flush [of w pre n pieces items key ser sp' sp' uuid] p(1,3) w by auto
  obtain w2 where f: "flush_run uuid key ser (w, sp') = (w2, sp'')" "runs = rw_runs w2"
    using assms(3) by (auto simp: finish_def split: prod.splits)
  show "spilled key ser pre n sp'' runs items"
    using inv f by (auto simp: spilled_def writer_inv_def in_set_conv_nth) (metis run_name_prefix)
  show "\<forall>name. \<not> has_prefix pre name \<longrightarrow> wd_entries sp'' name = wd_entries sp' name"
    using inv(1) f by (auto simp: writer_inv_def)
qed

section \<open>Reading back is stable sorting\<close>

lemma sort_key_concat_sorted: "sort_key key (concat (map (sort_key key) ps)) = sort_key key (concat ps)"
proof (rule sort_key_unique)
  have "mset (concat (map (sort_key key) ps)) = mset (concat ps)" by (induction ps) simp_all
  then show "mset (sort_key key (concat ps)) = mset (concat (map (sort_key key) ps))" by simp
  fix k
  have "filter (\<lambda>x. key x = k) (concat (map (sort_key key) ps)) = filter (\<lambda>x. key x = k) (concat ps)"
    by (induction ps) (simp_all add: sort_key_stable)
  then show "filter (\<lambda>x. key x = k) (sort_key key (concat ps)) = filter (\<lambda>x. key x = k) (concat (map (sort_key key) ps))"
    by (simp add: sort_key_stable)
qed simp

lemma stored_decode:
  assumes "stored key ser sp runs pieces" "\<forall>x \<in> set (concat pieces). line_ok ser des reread x"
  shows "collect (map (iter_run des sp) runs) = Inr (map (\<lambda>piece. map reread (sort_key key piece)) pieces)"
  using assms
proof (induction pieces arbitrary: runs)
  case Nil
  then show ?case by (simp add: stored_def)
next
  case (Cons piece pieces)
  then obtain run runs' where runs: "runs = run # runs'"
    "wd_entries sp run = Some (RunFile (lines_of ser (sort_key key piece)))" "stored key ser sp runs' pieces"
    by (auto simp: stored_def list_all2_Cons2)
  have "iter_run des sp run = Inr (map reread (sort_key key piece))"
    using Cons.prems(2) by (intro iter_run_lines [OF runs(2)]) auto
  then show ?case using Cons.IH [OF runs(3)] Cons.prems(2) runs(1) by simp
qed

lemma merge_runs_spilled:
  assumes "spilled key ser pre n sp runs items" "\<forall>x \<in> set items. line_ok ser des reread x"
    and "\<forall>x \<in> set items. key (reread x) = key x"
  shows "merge_runs key des sp runs = Inr (map reread (sort_key key items))"
proof -
  obtain pieces where p: "concat pieces = items" "stored key ser sp runs pieces"
    using assms(1) by (auto simp: spilled_def)
  let ?runs = "map (\<lambda>piece. map reread (sort_key key piece)) pieces"
  have keys: "map key (map reread xs) = map key xs" if "set xs \<subseteq> set items" for xs
    using that assms(3) by auto
  have "sorted (map key (map reread (sort_key key piece)))" if "piece \<in> set pieces" for piece
    using keys [of "sort_key key piece"] that p(1) by (metis UN_upper set_concat set_sort sorted_sort_key)
  then have "runs_sorted key ?runs"
    by (auto simp: runs_sorted_def)
  then have "heapq_merge key ?runs = sort_key key (concat ?runs)"
    by (rule heapq_merge_eq_sort_key)
  also have "concat ?runs = map reread (concat (map (sort_key key) pieces))"
    by (simp add: map_concat comp_def)
  also have "sort_key key \<dots> = map reread (sort_key (\<lambda>x. key (reread x)) (concat (map (sort_key key) pieces)))"
    by (rule sort_key_map)
  also have "sort_key (\<lambda>x. key (reread x)) (concat (map (sort_key key) pieces)) = sort_key key (concat (map (sort_key key) pieces))"
    using assms(3) p(1) by (intro sort_key_cong) auto
  also have "\<dots> = sort_key key items"
    by (simp only: sort_key_concat_sorted p(1))
  finally show ?thesis
    using stored_decode [OF p(2)] assms(2) p(1) by (simp add: merge_runs_def)
qed

text \<open>Spilling a list and merging its runs back, as one operation.\<close>

definition external_sort ::
  "(nat \<Rightarrow> pystr) \<Rightarrow> ('a \<Rightarrow> 'k::linorder) \<Rightarrow> 'a codec \<Rightarrow> pystr \<Rightarrow> int \<Rightarrow> spill_state \<Rightarrow> 'a list \<Rightarrow> engine_error + 'a list" where
  "external_sort uuid key codec pre n sp xs =
     (case finish uuid key (serialize codec) (add_items uuid key (serialize codec) (new_writer pre n, sp) xs) of
        (runs, sp') \<Rightarrow> merge_runs key (deserialize codec) sp' runs)"

lemma add_items_inv: "writer_inv key ser pre n sp xs (add_items uuid key ser (new_writer pre n, sp) xs)"
  using writer_inv_add_items [OF writer_inv_new [of key ser pre n sp], of xs uuid] by simp

lemma write_spilled:
  assumes "finish uuid key ser (add_items uuid key ser (new_writer pre n, sp) xs) = (runs, sp')"
  shows "spilled key ser pre n sp' runs xs" "\<forall>name. \<not> has_prefix pre name \<longrightarrow> wd_entries sp' name = wd_entries sp name"
proof -
  obtain w sp1 where w: "add_items uuid key ser (new_writer pre n, sp) xs = (w, sp1)" by fastforce
  have inv: "writer_inv key ser pre n sp xs (w, sp1)" using add_items_inv [of key ser pre n sp xs uuid] w by simp
  note f = finish_spilled [OF inv, of sp1 uuid runs sp'] and g = assms [unfolded w]
  show "spilled key ser pre n sp' runs xs" using f g by blast
  show "\<forall>name. \<not> has_prefix pre name \<longrightarrow> wd_entries sp' name = wd_entries sp name"
    using f(2) g inv by (auto simp: writer_inv_def)
qed

lemma external_sort_back:
  assumes "\<forall>x \<in> set xs. line_ok (serialize codec) (deserialize codec) reread x" "\<forall>x \<in> set xs. key (reread x) = key x"
  shows "external_sort uuid key codec pre n sp xs = Inr (map reread (sort_key key xs))"
proof -
  obtain runs sp' where r: "finish uuid key (serialize codec) (add_items uuid key (serialize codec) (new_writer pre n, sp) xs) = (runs, sp')"
    by fastforce
  then show ?thesis
    using merge_runs_spilled [OF write_spilled(1) [OF r] assms] by (simp add: external_sort_def)
qed

interpretation external: sort_provider key "external_sort uuid key codec pre n sp"
    "line_ok (serialize codec) (deserialize codec) id"
  for key :: "'a \<Rightarrow> 'k::linorder" and uuid codec pre n sp
  by unfold_locales (auto simp: external_sort_back [where reread = id] list_all_iff sort_key_stable)

section \<open>Simulation of the in-memory matcher\<close>

lemma respill_simps [simp]:
  "ep_binding_id (respill e) = ep_binding_id e" "ep_point_id (respill e) = ep_point_id e"
  "ep_embedding_id (respill e) = ep_embedding_id e" "ep_chunk_id (respill e) = ep_chunk_id e"
  "ep_source_version_id (respill e) = ep_source_version_id e" "ep_source_id (respill e) = ep_source_id e"
  "ep_expected_payload_hash (respill e) = ep_expected_payload_hash e" "ep_write_status (respill e) = ep_write_status e"
  "ep_embedding_dimension (respill e) = ep_embedding_dimension e" "ep_acl_projection (respill e) = ep_acl_projection e"
  "ep_embedding_vector_hash (respill e) = ep_embedding_vector_hash e" "ep_tenant_projection (respill e) = ep_tenant_projection e"
  "ep_pii_assertion_ids (respill e) = ep_pii_assertion_ids e" "ep_license_assertion_ids (respill e) = ep_license_assertion_ids e"
  "ep_embedding_model (respill e) = ep_embedding_model e"
  by (simp_all add: respill_def)

lemma expected_key_respill [simp]: "expected_key L l (respill e) = expected_key L l e"
  by (cases l) simp_all

lemma expected_sort_key_respill [simp]: "expected_sort_key L l (respill e) = expected_sort_key L l e"
  by (simp add: expected_sort_key_def)

lemma to_dict_respill: "expected_point_to_dict (respill e) = expected_point_to_dict e"
  by (simp add: expected_point_to_dict_def respill_def split: option.split list.split)

lemma respill_idem [simp]: "respill (respill e) = respill e"
  by (simp add: respill_def split: option.split list.split)

lemma spillable_respill [simp]: "spillable (respill e) \<longleftrightarrow> spillable e"
  by (simp add: spillable_def to_dict_respill)

lemma expected_line_ok: "spillable e \<Longrightarrow> line_ok (serialize expected_codec) (deserialize expected_codec) respill e"
proof -
  have "utf8_char c \<noteq> []" for c by (simp add: utf8_char_def)
  then have "utf8_encode t \<noteq> []" if "t \<noteq> []" for t using that by (cases t) (auto simp: utf8_encode_def)
  then show "spillable e \<Longrightarrow> ?thesis"
    using dumps_line [of False "JObj (expected_point_to_dict e)"] expected_point_json_roundtrip [of e]
    by (simp add: line_ok_def expected_codec_def expected_point_to_json_bytes_def del: dumps_with.simps)
qed

definition respill_pair :: "matched_pair \<Rightarrow> matched_pair" where
  "respill_pair p = p\<lparr>mp_expected := respill (mp_expected p)\<rparr>"

definition respill_group :: "match_level \<times> pystr \<times> expected_point list \<Rightarrow> match_level \<times> pystr \<times> expected_point list" where
  "respill_group g = (case g of (l, k, es) \<Rightarrow> (l, k, map respill es))"

definition respill_state :: "match_state \<Rightarrow> match_state" where
  "respill_state st = st\<lparr>ms_matched := map respill_pair (ms_matched st),
     ms_duplicate_expected := map respill_group (ms_duplicate_expected st), ms_expected := map respill (ms_expected st)\<rparr>"

definition respill_events :: "join_events \<Rightarrow> join_events" where
  "respill_events ev = ev\<lparr>on_matched := map respill_pair (on_matched ev),
     on_leftover_expected := map respill (on_leftover_expected ev),
     on_duplicate_expected := map respill_group (on_duplicate_expected ev)\<rparr>"

lemma stream_merge_join_respill:
  "stream_merge_join L l (map respill es) xs = respill_events (stream_merge_join L l es xs)"
  using merge_join_map [of "expected_key L l" "observed_key L l" respill es id xs]
  by (simp add: stream_merge_join_def respill_events_def map_join_def Let_def comp_def respill_group_def respill_pair_def
      pair_of_def map_prod_def case_prod_beta)

text \<open>What the in-memory state and the big-data state share between rounds.\<close>

definition same_results :: "match_state \<Rightarrow> match_state \<Rightarrow> bool" where
  "same_results big small \<longleftrightarrow>
     ms_matched big = map respill_pair (ms_matched small) \<and>
     ms_duplicate_expected big = map respill_group (ms_duplicate_expected small) \<and>
     ms_duplicate_observed big = ms_duplicate_observed small"

lemma absorb_respill:
  "same_results big small \<Longrightarrow> absorb big (respill_events ev) = respill_state (absorb small ev)"
  by (simp add: same_results_def absorb_def respill_events_def respill_state_def)

lemma same_results_respill: "same_results (respill_state st) st"
  by (simp add: same_results_def respill_state_def)

lemma wd_entries_unlink_all: "wd_entries (unlink_all paths sp) name = (if name \<in> set paths then None else wd_entries sp name)"
  unfolding unlink_all_def by (induction paths arbitrary: sp) (auto simp: unlink_def)

lemma spilled_frame:
  assumes "spilled key ser pre n sp runs items" "\<forall>name. has_prefix pre name \<longrightarrow> wd_entries sp' name = wd_entries sp name"
  shows "spilled key ser pre n sp' runs items"
proof -
  have "stored key ser sp' runs pieces \<longleftrightarrow> stored key ser sp runs pieces" for pieces
    using assms by (intro stored_cong) (auto simp: spilled_def)
  then show ?thesis using assms(1) by (simp add: spilled_def)
qed

lemma round_prefix_length:
  "k < 10 \<Longrightarrow> length (round_prefix ''expected'' k) = 11" "k < 10 \<Longrightarrow> length (round_prefix ''observed'' k) = 11"
  by (simp_all add: round_prefix_def py_def show_nat.simps [of k])

lemma round_prefix_eq:
  "round_prefix ''expected'' j \<noteq> round_prefix ''observed'' k"
  "round_prefix ''expected'' j = round_prefix ''expected'' k \<longleftrightarrow> j = k"
  "round_prefix ''observed'' j = round_prefix ''observed'' k \<longleftrightarrow> j = k"
  by (simp_all add: round_prefix_def py_def)

lemma prefix_clash:
  assumes "j < 10" "k < 10" "side \<in> {''expected'', ''observed''}" "side' \<in> {''expected'', ''observed''}"
    and "has_prefix (round_prefix side j) name" "has_prefix (round_prefix side' k) name"
  shows "side = side' \<and> j = k"
proof -
  have "length (round_prefix side j) = length (round_prefix side' k)"
    using assms(1-4) round_prefix_length by auto
  from has_prefix_unique [OF assms(5,6) this] have eq: "round_prefix side j = round_prefix side' k" .
  have "round_prefix ''observed'' j \<noteq> round_prefix ''expected'' k" by (rule round_prefix_eq(1) [symmetric])
  with eq assms(3,4) show ?thesis by (auto simp: round_prefix_eq)
qed

text \<open>
  The disk part of one round: the leftovers of both sides are spilled for the next round
  while the runs of this round are removed.
\<close>

lemma next_runs_spilled:
  assumes k: "Suc k < 10"
    and runs: "\<forall>run \<in> set runs_e. has_prefix (round_prefix ''expected'' k) run" "\<forall>run \<in> set runs_o. has_prefix (round_prefix ''observed'' k) run"
    and we: "add_items uuid ekey ser (new_writer (round_prefix ''expected'' (Suc k)) n, sp) es = (we, sp1)"
    and wo: "add_items uuid okey ser' (new_writer (round_prefix ''observed'' (Suc k)) n, sp1) xs = (wo, sp2)"
    and sp3: "sp3 = unlink_all runs_o (unlink_all runs_e sp2)"
    and fe: "finish uuid ekey ser (we, sp3) = (runs_e', sp4)" and fo: "finish uuid okey ser' (wo, sp4) = (runs_o', sp5)"
  shows "spilled ekey ser (round_prefix ''expected'' (Suc k)) n sp5 runs_e' es"
    and "spilled okey ser' (round_prefix ''observed'' (Suc k)) n sp5 runs_o' xs"
proof -
  let ?E = "round_prefix ''expected'' (Suc k)" and ?O = "round_prefix ''observed'' (Suc k)"
  have inv_e: "writer_inv ekey ser ?E n sp es (we, sp1)" and inv_o: "writer_inv okey ser' ?O n sp1 xs (wo, sp2)"
    using add_items_inv [of ekey ser ?E n sp es uuid] add_items_inv [of okey ser' ?O n sp1 xs uuid] we wo by simp_all
  have clash: "\<not> (has_prefix ?E name \<and> has_prefix ?O name)" for name
    using prefix_clash [of "Suc k" "Suc k" "''expected''" "''observed''" name] k by auto
  have old: "name \<notin> set runs_e \<and> name \<notin> set runs_o" if "has_prefix ?E name \<or> has_prefix ?O name" for name
  proof -
    have "\<not> has_prefix (round_prefix side k) name" if "side \<in> {''expected'', ''observed''}" for side
      using \<open>has_prefix ?E name \<or> has_prefix ?O name\<close> that k prefix_clash [of "Suc k" k "''expected''" side name]
        prefix_clash [of "Suc k" k "''observed''" side name] by auto
    then show ?thesis using runs by auto
  qed
  have 3: "wd_entries sp3 name = wd_entries sp2 name" if "has_prefix ?E name \<or> has_prefix ?O name" for name
    using old [OF that] by (simp add: sp3 wd_entries_unlink_all)
  have "wd_entries sp3 name = wd_entries sp1 name" if "has_prefix ?E name" for name
    using 3 that inv_o clash [of name] by (auto simp: writer_inv_def)
  then have e: "spilled ekey ser ?E n sp4 runs_e' es" "\<forall>name. \<not> has_prefix ?E name \<longrightarrow> wd_entries sp4 name = wd_entries sp3 name"
    using finish_spilled [OF inv_e _ fe] by blast+
  have "\<forall>name. has_prefix ?O name \<longrightarrow> wd_entries sp4 name = wd_entries sp2 name"
    using e(2) 3 clash by metis
  then have o: "spilled okey ser' ?O n sp5 runs_o' xs" "\<forall>name. \<not> has_prefix ?O name \<longrightarrow> wd_entries sp5 name = wd_entries sp4 name"
    using finish_spilled [OF inv_o _ fo] by blast+
  show "spilled ekey ser ?E n sp5 runs_e' es"
    using spilled_frame [OF e(1), of sp5] o(2) clash by blast
  show "spilled okey ser' ?O n sp5 runs_o' xs" by (rule o(1))
qed

lemma sorted_respill:
  assumes "map respill es = map respill es'"
  shows "map respill (sorted_expected L l es) = map respill (sorted_expected L l es')"
proof -
  have "map respill (sorted_expected L l xs) = sorted_expected L l (map respill xs)" for xs
    by (simp add: sort_key_map)
  then show ?thesis using assms by simp
qed

lemma merge_streams:
  assumes "spilled (expected_sort_key L l) (serialize expected_codec) pre n sp runs_e es" "\<forall>e \<in> set es. spillable e"
    and "spilled (observed_sort_key L l) (serialize P) pre' n sp runs_o xs"
    and "\<forall>x \<in> set xs. line_ok (serialize P) (deserialize P) id x"
  shows "merge_runs (expected_sort_key L l) (deserialize expected_codec) sp runs_e = Inr (map respill (sorted_expected L l es))"
    and "merge_runs (observed_sort_key L l) (deserialize P) sp runs_o = Inr (sorted_observed L l xs)"
proof -
  show "merge_runs (expected_sort_key L l) (deserialize expected_codec) sp runs_e = Inr (map respill (sorted_expected L l es))"
    using assms(2) expected_line_ok by (intro merge_runs_spilled [OF assms(1)]) auto
  show "merge_runs (observed_sort_key L l) (deserialize P) sp runs_o = Inr (sorted_observed L l xs)"
    using merge_runs_spilled [OF assms(3,4)] by simp
qed

lemma match_round_subset:
  "set (ms_expected (match_round L st l)) \<subseteq> set (ms_expected st)" "set (ms_observed (match_round L st l)) \<subseteq> set (ms_observed st)"
  using mset_split_mem(2) [OF join_partition(1) [of L l "sorted_expected L l (ms_expected st)" "sorted_observed L l (ms_observed st)"]]
    mset_split_mem(2) [OF join_partition(2) [of L l "sorted_expected L l (ms_expected st)" "sorted_observed L l (ms_observed st)"]]
  by (auto simp: match_round_def absorb_def)

lemma spill_rounds_sim:
  assumes "spilled (expected_sort_key L l) (serialize expected_codec) (round_prefix ''expected'' k) n sp runs_e es"
    and "map respill es = map respill (ms_expected small)" "\<forall>e \<in> set es. spillable e"
    and "spilled (observed_sort_key L l) (serialize P) (round_prefix ''observed'' k) n sp runs_o (ms_observed small)"
    and "\<forall>x \<in> set (ms_observed small). line_ok (serialize P) (deserialize P) id x"
    and "same_results big small" "k + length ls < 10"
  shows "\<exists>sp'. spill_rounds L uuid P n k (l # ls) runs_e runs_o big sp = (Inr (respill_state (foldl (match_round L) small (l # ls))), sp')"
  using assms
proof (induction ls arbitrary: l k es runs_e runs_o sp big small)
  case Nil
  then show ?case
    using merge_streams [OF Nil.prems(1,3,4,5)] sorted_respill [OF Nil.prems(2)]
    by (simp add: stream_merge_join_respill absorb_respill match_round_def Let_def)
next
  case (Cons l' ls)
  let ?small = "match_round L small l"
  let ?ev = "stream_merge_join L l (sorted_expected L l (ms_expected small)) (sorted_observed L l (ms_observed small))"
  have ev: "stream_merge_join L l (map respill (sorted_expected L l es)) (sorted_observed L l (ms_observed small)) = respill_events ?ev"
    using sorted_respill [OF Cons.prems(2)] by (simp add: stream_merge_join_respill)
  have big: "absorb big (respill_events ?ev) = respill_state ?small"
    using absorb_respill [OF Cons.prems(6)] by (simp add: match_round_def)
  let ?es = "map respill (ms_expected ?small)" and ?xs = "ms_observed ?small"
  have left: "on_leftover_expected (respill_events ?ev) = ?es" "on_leftover_observed (respill_events ?ev) = ?xs"
    by (simp_all add: respill_events_def match_round_def absorb_def)
  obtain we sp1 where we: "add_items uuid (expected_sort_key L l') (serialize expected_codec)
      (new_writer (round_prefix ''expected'' (Suc k)) n, sp) ?es = (we, sp1)" by fastforce
  obtain wo sp2 where wo: "add_items uuid (observed_sort_key L l') (serialize P)
      (new_writer (round_prefix ''observed'' (Suc k)) n, sp1) ?xs = (wo, sp2)" by fastforce
  define sp3 where "sp3 = unlink_all runs_o (unlink_all runs_e sp2)"
  obtain runs_e' sp4 where fe: "finish uuid (expected_sort_key L l') (serialize expected_codec) (we, sp3) = (runs_e', sp4)" by fastforce
  obtain runs_o' sp5 where fo: "finish uuid (observed_sort_key L l') (serialize P) (wo, sp4) = (runs_o', sp5)" by fastforce
  have "Suc k < 10" using Cons.prems(7) by simp
  note disk = next_runs_spilled [OF this _ _ we wo sp3_def fe fo]
  have runs: "\<forall>run \<in> set runs_e. has_prefix (round_prefix ''expected'' k) run" "\<forall>run \<in> set runs_o. has_prefix (round_prefix ''observed'' k) run"
    using Cons.prems(1,4) by (simp_all add: spilled_def)
  have "spillable e" if "e \<in> set (ms_expected small)" for e
  proof -
    have "respill e \<in> respill ` set es" using that Cons.prems(2) by (metis image_eqI list.set_map)
    then show ?thesis using Cons.prems(3) by (metis imageE spillable_respill)
  qed
  then have "\<forall>e \<in> set ?es. spillable e"
    using match_round_subset(1) [of L small l] by auto
  moreover have "\<forall>x \<in> set ?xs. line_ok (serialize P) (deserialize P) id x"
    using match_round_subset(2) [of L small l] Cons.prems(5) by blast
  ultimately have sp: "\<forall>e \<in> set ?es. spillable e" "\<forall>x \<in> set ?xs. line_ok (serialize P) (deserialize P) id x" .
  have "spill_rounds L uuid P n k (l # l' # ls) runs_e runs_o big sp =
      spill_rounds L uuid P n (Suc k) (l' # ls) runs_e' runs_o' (respill_state ?small) sp5"
    using merge_streams [OF Cons.prems(1,3,4,5)] we wo fe fo
    by (simp add: ev big left Let_def sp3_def)
  moreover have "\<exists>sp'. spill_rounds L uuid P n (Suc k) (l' # ls) runs_e' runs_o' (respill_state ?small) sp5 =
      (Inr (respill_state (foldl (match_round L) ?small (l' # ls))), sp')"
    using disk [OF runs] sp Cons.prems(7)
    by (intro Cons.IH [where es = ?es]) (auto simp: same_results_respill id_def)
  ultimately show ?case by simp
qed

section \<open>Findings do not see the spill\<close>

lemma respill_pair_simps [simp]:
  "mp_expected (respill_pair p) = respill (mp_expected p)" "mp_observed (respill_pair p) = mp_observed p"
  "mp_level (respill_pair p) = mp_level p" "mp_confidence (respill_pair p) = mp_confidence p"
  by (simp_all add: respill_pair_def)

lemma respill_lineage [simp]: "expected_lineage (respill e) = expected_lineage e"
  by (simp add: expected_lineage_def)

lemma respill_pair_finding [simp]: "pair_finding L t s (respill_pair p) = pair_finding L t s p"
  by (simp add: pair_finding_def fun_eq_iff)

lemma respill_acl_code [simp]: "acl_finding_code (respill e) x = acl_finding_code e x"
  by (simp add: acl_finding_code_def)

lemma respill_compare [simp]:
  "compare_matched_pair L t s src asr pol sec (respill_pair p) = compare_matched_pair L t s src asr pol sec p"
proof -
  have "current_source src (respill e) = current_source src e" for e
    by (simp add: current_source_def)
  then have "stale_findings L t s src (respill_pair p) = stale_findings L t s src p"
    by (simp add: stale_findings_def Let_def cong: option.case_cong if_cong)
  moreover have "dimension_findings L t s (respill_pair p) = dimension_findings L t s p"
    by (simp add: dimension_findings_def Let_def cong: option.case_cong if_cong)
  moreover have "vector_hash_findings L t s (respill_pair p) = vector_hash_findings L t s p"
    by (simp add: vector_hash_findings_def Let_def cong: option.case_cong if_cong)
  moreover have "tenant_findings L t s (respill_pair p) = tenant_findings L t s p"
    by (simp add: tenant_findings_def Let_def cong: option.case_cong if_cong)
  moreover have "acl_findings L t s sec (respill_pair p) = acl_findings L t s sec p"
    by (simp add: acl_findings_def Let_def cong: option.case_cong if_cong)
  moreover have "drift_findings L t s st (respill_pair p) = drift_findings L t s st p" for st
    by (simp add: drift_findings_def Let_def cong: option.case_cong if_cong)
  moreover have "pii_policy_findings L t s asr q (respill_pair p) = pii_policy_findings L t s asr q p" for q
    by (simp add: pii_policy_findings_def Let_def cong: option.case_cong if_cong)
  moreover have "license_policy_findings L t s asr q (respill_pair p) = license_policy_findings L t s asr q p" for q
    by (simp add: license_policy_findings_def Let_def cong: option.case_cong if_cong)
  ultimately show ?thesis by (simp add: compare_matched_pair_def cong: option.case_cong)
qed

lemma respill_missing [simp]: "classify_missing L t s (respill e) = classify_missing L t s e"
  by (simp add: classify_missing_def)

lemma respill_required [simp]: "acl_required (respill_pair p) = acl_required p"
  by (simp add: acl_required_def)

lemma respill_state_simps [simp]:
  "ms_matched (respill_state st) = map respill_pair (ms_matched st)" "ms_expected (respill_state st) = map respill (ms_expected st)"
  "ms_observed (respill_state st) = ms_observed st" "ms_duplicate_observed (respill_state st) = ms_duplicate_observed st"
  by (simp_all add: respill_state_def)

lemma outcome_fields [simp]:
  "mo_matched (outcome_of L st) = ms_matched st" "mo_missing_expected (outcome_of L st) = ms_expected st"
  "mo_orphan_observed (outcome_of L st) = ms_observed st" "mo_duplicate_observed_groups (outcome_of L st) = ms_duplicate_observed st"
  by (simp_all add: outcome_of_def case_prod_beta)

lemma filter_zip_map:
  "map snd (filter (\<lambda>(p, y). P p) (zip (map f xs) ys)) = map snd (filter (\<lambda>(p, y). P (f p)) (zip xs ys))"
  by (induction xs ys rule: list_induct2') auto

lemma length_filter_snd: "length (filter (\<lambda>(p, y). Q y) zs) = length (filter Q (map snd zs))"
  by (induction zs) auto

lemma finalize_respill:
  "finalize L m t s pol sec eps n (outcome_of L (respill_state st)) c cav = finalize L m t s pol sec eps n (outcome_of L st) c cav"
proof -
  have required: "length (filter (\<lambda>(p, fs). acl_required p) (zip (map respill_pair ps) fss)) =
      length (filter (\<lambda>(p, fs). acl_required p) (zip ps fss))" for ps and fss :: "finding list list"
    using arg_cong [OF filter_zip_map [of acl_required respill_pair ps fss], of length] by simp
  have compliant: "length (filter (\<lambda>(p, fs). \<not> has_code C fs) (filter (\<lambda>(p, fs). acl_required p) (zip (map respill_pair ps) fss))) =
      length (filter (\<lambda>(p, fs). \<not> has_code C fs) (filter (\<lambda>(p, fs). acl_required p) (zip ps fss)))" for ps fss C
    unfolding length_filter_snd [where Q = "\<lambda>fs. \<not> has_code C fs"] filter_zip_map by simp
  have dups: "duplicate_findings L t s (outcome_of L (respill_state st)) = duplicate_findings L t s (outcome_of L st)"
    by (simp add: duplicate_findings_def)
  show ?thesis
    unfolding finalize_def dups
    by (simp only: Let_def outcome_fields respill_state_simps map_map comp_def respill_compare respill_missing required compliant length_map)
qed

lemma initial_runs_spilled:
  assumes e: "finish uuid ekey ser (add_items uuid ekey ser (new_writer (round_prefix ''expected'' 1) n, sp0) es) = (runs_e, sp1)"
    and o: "finish uuid okey ser' (add_items uuid okey ser' (new_writer (round_prefix ''observed'' 1) n, sp1) xs) = (runs_o, sp2)"
  shows "spilled ekey ser (round_prefix ''expected'' 1) n sp2 runs_e es" "spilled okey ser' (round_prefix ''observed'' 1) n sp2 runs_o xs"
proof -
  have "\<not> (has_prefix (round_prefix ''expected'' 1) name \<and> has_prefix (round_prefix ''observed'' 1) name)" for name
    using prefix_clash [of 1 1 "''expected''" "''observed''" name] by auto
  then show "spilled ekey ser (round_prefix ''expected'' 1) n sp2 runs_e es"
    using spilled_frame [OF write_spilled(1) [OF e], of sp2] write_spilled(2) [OF o] by blast
  show "spilled okey ser' (round_prefix ''observed'' 1) n sp2 runs_o xs" by (rule write_spilled(1) [OF o])
qed

lemma big_data_rounds:
  assumes "\<forall>e \<in> set es. spillable e" "\<forall>x \<in> set xs. line_ok (serialize P) (deserialize P) id x"
    and "finish uuid (expected_sort_key L POINT_ID) (serialize expected_codec) (add_items uuid (expected_sort_key L POINT_ID)
      (serialize expected_codec) (new_writer (round_prefix ''expected'' 1) n, sp0) es) = (runs_e, sp1)"
    and "finish uuid (observed_sort_key L POINT_ID) (serialize P) (add_items uuid (observed_sort_key L POINT_ID)
      (serialize P) (new_writer (round_prefix ''observed'' 1) n, sp1) xs) = (runs_o, sp2)"
  shows "\<exists>sp3. spill_rounds L uuid P n 1 CLOSING_LEVELS runs_e runs_o (initial_state [] []) sp2 =
    (Inr (respill_state (foldl (match_round L) (initial_state es xs) CLOSING_LEVELS)), sp3)"
  unfolding CLOSING_LEVELS_def using assms(1,2) initial_runs_spilled [OF assms(3,4)]
  by (intro spill_rounds_sim) (auto simp: initial_state_def same_results_def id_def)

lemma big_data_refines_small_data:
  assumes "\<And>e. e \<in> set (resolve_expected_points L m t s) \<Longrightarrow> spillable e"
    and "\<And>x. x \<in> set (fst (iterate_points con)) \<Longrightarrow> line_ok (serialize P) (deserialize P) id x"
    and "int (length (fst (iterate_points con))) \<le> cap"
  shows "fst (reconcile_big_data L uuid P m con t s pol sec kind n sp) = reconcile_small_data L m con t s pol sec kind cap"
proof -
  let ?es = "resolve_expected_points L m t s" and ?sp0 = "reset_work_dir sp"
  obtain xs err where it: "iterate_points con = (xs, err)" by fastforce
  obtain runs_e sp1 where e: "finish uuid (expected_sort_key L POINT_ID) (serialize expected_codec) (add_items uuid (expected_sort_key L POINT_ID)
      (serialize expected_codec) (new_writer (round_prefix ''expected'' 1) n, ?sp0) ?es) = (runs_e, sp1)" by fastforce
  obtain w sp2 where w: "add_items uuid (observed_sort_key L POINT_ID) (serialize P) (new_writer (round_prefix ''observed'' 1) n, sp1) xs = (w, sp2)"
    by fastforce
  obtain runs_o sp3 where o: "finish uuid (observed_sort_key L POINT_ID) (serialize P) (w, sp2) = (runs_o, sp3)" by fastforce
  have "finish uuid (observed_sort_key L POINT_ID) (serialize P) (add_items uuid (observed_sort_key L POINT_ID)
      (serialize P) (new_writer (round_prefix ''observed'' 1) n, sp1) xs) = (runs_o, sp3)" using w o by simp
  from big_data_rounds [OF _ _ e this] obtain sp4 where r:
    "spill_rounds L uuid P n 1 CLOSING_LEVELS runs_e runs_o (initial_state [] []) sp3 =
      (Inr (respill_state (foldl (match_round L) (initial_state ?es xs) CLOSING_LEVELS)), sp4)"
    using assms(1,2) by (auto simp: it)
  note fin = finalize_respill [of L m t s pol sec ?es "length xs" "foldl (match_round L) (initial_state ?es xs) CLOSING_LEVELS"]
  show ?thesis
  proof (cases err)
    case None
    show ?thesis
      using assms(3)
      by (simp add: reconcile_big_data_def reconcile_small_data_def list_points_def it None e w o r fin Let_def
          match_all_levels_def andThen_def lift_connector_def lift_taxonomy_def del: One_nat_def split: sum.split)
  next
    case (Some x)
    show ?thesis
      by (simp add: reconcile_big_data_def reconcile_small_data_def list_points_def it Some e w Let_def
          andThen_def lift_connector_def lift_taxonomy_def del: One_nat_def split: sum.split)
  qed
qed

section \<open>A sample run over the disk\<close>

definition sample_codec :: "normalized_point codec" where
  "sample_codec = \<lparr>serialize = (\<lambda>x. [1]), deserialize = (\<lambda>line. Some sample_observed)\<rparr>"

definition sample_dir :: spill_state where
  "sample_dir = \<lparr>wd_exists = True, wd_mode = 493, wd_entries = [py ''left-over'' \<mapsto> SubDir], tokens_used = 0\<rparr>"

abbreviation sample_big_run :: "(engine_error + reconciliation_result) \<times> spill_state" where
  "sample_big_run \<equiv> reconcile_big_data sample_platform show_nat sample_codec sample_manifest (sample_connector [sample_observed])
     (py ''t'') (py ''s'') None None (py ''full'') 1 sample_dir"

lemma sample_spillable:
  "e \<in> set (resolve_expected_points sample_platform sample_manifest (py ''t'') (py ''s'')) \<Longrightarrow> spillable e"
  by (simp add: sample_resolve)
    (simp add: spillable_def expected_point_to_dict_def expected_point_of_def sample_binding_def opt_str_def str_list_def
      coerce_acl_projection_def coerce_tenant_projection_def py_str_def scalar_def py_def)

lemma sample_lines:
  "x \<in> set (fst (iterate_points (sample_connector [sample_observed]))) \<Longrightarrow> line_ok (serialize sample_codec) (deserialize sample_codec) id x"
  by (simp add: sample_connector_def line_ok_def sample_codec_def)

lemma sample_big_run_result:
  "fst sample_big_run =
    reconcile_small_data sample_platform sample_manifest (sample_connector [sample_observed]) (py ''t'') (py ''s'') None None (py ''full'') 10"
  by (rule big_data_refines_small_data [OF sample_spillable sample_lines]) (simp_all add: sample_connector_def)

section \<open>Properties\<close>

text \<open>
  C1. The big-data path is equivalent to the in-memory path: for any chunk size, any content of
  the work directory and any run names, it returns the same result or the same error,
  provided every point survives being written as a JSON line and the point count is within
  the in-memory limit.
\<close>

theorem big_data_equals_small_data:
  assumes "\<And>e. e \<in> set (resolve_expected_points L m t s) \<Longrightarrow> spillable e"
    and "\<And>x. x \<in> set (fst (iterate_points con)) \<Longrightarrow> line_ok (serialize P) (deserialize P) id x"
    and "int (length (fst (iterate_points con))) \<le> cap"
  shows "fst (reconcile_big_data L uuid P m con t s pol sec kind n sp) = reconcile_small_data L m con t s pol sec kind cap"
  using assms by (rule big_data_refines_small_data)

theorem big_data_equals_small_data_witness:
  "fst sample_big_run =
    reconcile_small_data sample_platform sample_manifest (sample_connector [sample_observed]) (py ''t'') (py ''s'') None None (py ''full'') 10"
  by (rule big_data_equals_small_data [OF sample_spillable sample_lines]) (simp_all add: sample_connector_def)

text \<open>
  A successful big-data run cleans up after itself: the work directory exists with mode 0700
  and holds no entry, whatever an earlier, interrupted attempt had left there.
\<close>

theorem big_data_cleans_up:
  assumes "reconcile_big_data L uuid P m con t s pol sec kind n sp = (Inr r, sp')"
    and "\<not> sum_preflight_short_circuited (rr_summary r)"
  shows "wd_exists sp' \<and> wd_mode sp' = 448 \<and> wd_entries sp' = (\<lambda>name. None)"
  using assms
  by (auto simp: reconcile_big_data_def Let_def reset_work_dir_def split: sum.splits if_splits prod.splits option.splits)

theorem big_data_cleans_up_witness:
  "\<exists>r sp'. sample_big_run = (Inr r, sp') \<and> wd_entries sp' = (\<lambda>name. None)"
proof -
  obtain r where r: "reconcile_small_data sample_platform sample_manifest (sample_connector [sample_observed]) (py ''t'') (py ''s'') None None (py ''full'') 10 = Inr r"
    "\<not> sum_preflight_short_circuited (rr_summary r)"
    by (rule sample_run [of "[sample_observed]"]) simp_all
  have "fst sample_big_run = Inr r"
    using sample_big_run_result r(1) by simp
  then have run: "sample_big_run = (Inr r, snd sample_big_run)" by (simp add: prod_eq_iff)
  from big_data_cleans_up [OF run r(2)] show ?thesis using run by blast
qed

text \<open>
  The run writer is memory-bounded: after any number of additions its buffer is shorter than
  the chunk size, every run it wrote holds at most a chunk of items in key order, and runs
  and buffer together are exactly what was added.
\<close>

theorem run_writer_bounded:
  "case add_items uuid key ser (new_writer pre n, sp) xs of (w, sp') \<Rightarrow>
     int (length (rw_buffer w)) < max 1 n \<and>
     (\<exists>pieces. concat pieces @ rw_buffer w = xs \<and> list_all (\<lambda>piece. int (length piece) \<le> max 1 n) pieces \<and>
        list_all2 (\<lambda>run piece. wd_entries sp' run = Some (RunFile (lines_of ser (sort_key key piece)))) (rw_runs w) pieces)"
  using add_items_inv [of key ser pre n sp xs uuid]
  by (auto simp: writer_inv_def stored_def list_all_iff split: prod.splits)

text \<open>
  C32. Spilling items to sorted runs and merging the runs back with \<open>heapq.merge\<close> is the
  stable sort \<open>sorted(items, key=key)\<close>, for every chunk size, whenever the line format
  reads back what it wrote.
\<close>

theorem external_sort_is_stable_sort:
  assumes "list_all (line_ok (serialize codec) (deserialize codec) id) xs"
  shows "external_sort uuid key codec pre n sp xs = Inr (sort_key key xs)"
  using assms by (rule external.provide_eq)

theorem external_sort_is_stable_sort_witness:
  "external_sort show_nat (\<lambda>b. unat b mod 2) \<lparr>serialize = (\<lambda>b. [b]), deserialize = (\<lambda>line. Some (hd line))\<rparr> (py ''p'') 2
     \<lparr>wd_exists = True, wd_mode = 448, wd_entries = (\<lambda>name. None), tokens_used = 0\<rparr> [3, 4, 1, 2 :: byte] = Inr [4, 2, 3, 1]"
  by (subst external_sort_is_stable_sort) (simp_all add: line_ok_def)

end
