(* ===== verification/Remediation.thy ===== *)
theory Remediation
  imports Matching Report
begin

text \<open>
  \<open>ragledger.reconcile.remediation\<close>: grouping findings by code, target and scope, and the
  one action each group is mapped to. The plan is shown to exist for every finding list, to
  cover every finding exactly once, and to mark exactly its destructive actions with a
  caution.
\<close>

definition REINDEX_CODES :: "finding_code list" where
  "REINDEX_CODES = [MISSING_IN_INDEX, STALE_SOURCE, STALE_PARSE, STALE_CHUNKING, EMBEDDING_MODEL_MISMATCH]"

definition DELETE_CANDIDATE_CODES :: "finding_code list" where
  "DELETE_CANDIDATE_CODES = [ORPHAN_IN_INDEX, DUPLICATE_POINT_ID, DUPLICATE_CONTENT]"

definition UPDATE_PAYLOAD_CODES :: "finding_code list" where
  "UPDATE_PAYLOAD_CODES =
     [PAYLOAD_DRIFT, ACL_MISMATCH, TENANT_MISMATCH, ACL_MISSING, TENANT_MISSING, ACL_BROADER_THAN_SOURCE]"

definition FULL_REBUILD_CODES :: "finding_code list" where
  "FULL_REBUILD_CODES = [EMBEDDING_DIMENSION_MISMATCH, TARGET_SCHEMA_DRIFT, MANIFEST_INCOMPLETE]"

definition DELETE_CAUTION :: pystr where
  "DELETE_CAUTION = py ''Deletes are destructive and irreversible against the live target; verify '' @
     py ''each candidate before acting -- this plan only lists candidates, it never '' @ py ''deletes anything itself.''"

definition REBUILD_CAUTION :: pystr where
  "REBUILD_CAUTION = py ''A schema/dimension mismatch or an incomplete build means point-level fixes '' @
     py ''cannot resolve this; a full rebuild from a compatible manifest is required.''"

definition action_for :: "finding_code \<Rightarrow> pystr \<times> bool \<times> pystr option" where
  "action_for code =
     (if code \<in> set REINDEX_CODES then (py ''reindex_source'', False, None)
      else if code \<in> set DELETE_CANDIDATE_CODES then (py ''delete_point_candidate'', True, Some DELETE_CAUTION)
      else if code \<in> set UPDATE_PAYLOAD_CODES then (py ''update_payload_candidate'', False, None)
      else if code \<in> set FULL_REBUILD_CODES then (py ''full_rebuild_required'', True, Some REBUILD_CAUTION)
      else (py ''review_required'', False, None))"

definition candidate_id :: "platform \<Rightarrow> finding \<Rightarrow> pystr option" where
  "candidate_id L finding =
     (if truthy (lct_binding_id (fnd_locator finding)) then lct_binding_id (fnd_locator finding)
      else map_option (normalize_point_id L) (lct_point_id (fnd_locator finding)))"

text \<open>\<open>FindingCode(value)\<close>: the member with that value, \<open>ValueError\<close> if there is none.\<close>

definition all_codes :: "finding_code list" where
  "all_codes =
     [MISSING_IN_INDEX, ORPHAN_IN_INDEX, STALE_SOURCE, STALE_PARSE, STALE_CHUNKING,
      EMBEDDING_MODEL_MISMATCH, EMBEDDING_DIMENSION_MISMATCH, VECTOR_HASH_MISMATCH,
      PAYLOAD_DRIFT, SOURCE_METADATA_MISSING, DUPLICATE_POINT_ID, DUPLICATE_CONTENT,
      ACL_MISSING, ACL_BROADER_THAN_SOURCE, ACL_MISMATCH, TENANT_MISSING, TENANT_MISMATCH,
      PII_POLICY_VIOLATION, LICENSE_UNKNOWN, LICENSE_POLICY_VIOLATION, UNVERIFIABLE_POINT,
      TARGET_SCHEMA_DRIFT, MANIFEST_INCOMPLETE, SNAPSHOT_INCOMPLETE]"

datatype remediation_error = ValueError pystr

definition code_of_value :: "pystr \<Rightarrow> remediation_error + finding_code" where
  "code_of_value v =
     (case find (\<lambda>c. code_value c = v) all_codes of Some c \<Rightarrow> Inr c | None \<Rightarrow> Inl (ValueError v))"

type_synonym group_key = "pystr \<times> pystr \<times> pystr"

definition group_key :: "finding \<Rightarrow> group_key" where
  "group_key finding = (code_value (fnd_code finding), lct_target (fnd_locator finding), lct_scope (fnd_locator finding))"

definition group_findings :: "finding list \<Rightarrow> (group_key \<times> finding list) list" where
  "group_findings findings = foldl (\<lambda>groups finding. dict_append (group_key finding) finding groups) [] findings"

text \<open>A comprehension \<open>{c for f in group if (c := _candidate_id(f)) is not None}\<close>, sorted.\<close>

definition group_candidates :: "platform \<Rightarrow> finding list \<Rightarrow> pystr list" where
  "group_candidates L grp = sorted_set (concat (map (\<lambda>f. case candidate_id L f of None \<Rightarrow> [] | Some c \<Rightarrow> [c]) grp))"

definition action_of :: "platform \<Rightarrow> group_key \<times> finding list \<Rightarrow> remediation_error + remediation_action" where
  "action_of L g =
     (case g of ((cv, target, scope), grp) \<Rightarrow>
        andThen (code_of_value cv) (\<lambda>code.
          case action_for code of (action_name, destructive, caution) \<Rightarrow>
            Inr \<lparr>ra_action = action_name, ra_finding_codes = [cv], ra_target = target, ra_scope = scope,
                 ra_candidates = group_candidates L grp, ra_destructive = destructive, ra_caution = caution,
                 ra_rationale = show_nat (length grp) @ py '' finding(s) of '' @ cv @ py '' in this target/scope.''\<rparr>))"

definition build_remediation_plan :: "platform \<Rightarrow> finding list \<Rightarrow> remediation_error + remediation_plan" where
  "build_remediation_plan L findings =
     andThen (collect (map (action_of L) (sort_key fst (group_findings findings))))
       (\<lambda>actions. Inr \<lparr>rp_actions = actions\<rparr>)"

section \<open>Groups\<close>

lemma map_of_dict_append:
  "map_of (dict_append k v d) = (map_of d)(k \<mapsto> (case map_of d k of None \<Rightarrow> [] | Some vs \<Rightarrow> vs) @ [v])"
  by (simp add: dict_append_def)

lemma group_findings_snoc:
  "group_findings (fs @ [f]) = dict_append (group_key f) f (group_findings fs)"
  by (simp add: group_findings_def)

lemma group_findings_lookup:
  "map_of (group_findings fs) k =
     (let g = filter (\<lambda>f. group_key f = k) fs in if g = [] then None else Some g)"
  by (induction fs rule: rev_induct)
    (auto simp: group_findings_snoc map_of_dict_append Let_def, auto simp: group_findings_def)

lemma group_findings_distinct: "distinct (map fst (group_findings fs))"
  by (induction fs rule: rev_induct)
    (simp_all add: group_findings_snoc dict_append_def, simp add: group_findings_def)

lemma group_findings_mem:
  "(k, g) \<in> set (group_findings fs) \<longleftrightarrow> g = filter (\<lambda>f. group_key f = k) fs \<and> g \<noteq> []"
  unfolding map_of_eq_Some_iff [OF group_findings_distinct, symmetric] group_findings_lookup Let_def by auto

lemma all_codes_complete: "c \<in> set all_codes"
  by (cases c) (simp_all add: all_codes_def)

lemma code_value_distinct: "distinct (map code_value all_codes)"
  unfolding all_codes_def by simp

lemma code_value_inject [simp]: "code_value c = code_value d \<longleftrightarrow> c = d"
  using code_value_distinct all_codes_complete by (auto simp: distinct_map inj_on_def)

lemma code_of_value_code [simp]: "code_of_value (code_value c) = Inr c"
proof -
  have "c \<in> set cs \<Longrightarrow> find (\<lambda>d. d = c) cs = Some c" for cs
    by (induction cs) auto
  then show ?thesis by (simp add: code_of_value_def all_codes_complete)
qed

lemma action_of_group:
  assumes "(k, g) \<in> set (group_findings fs)"
  shows "\<exists>a f. f \<in> set fs \<and> group_key f = k \<and> action_of L (k, g) = Inr a \<and>
    ra_finding_codes a = [code_value (fnd_code f)] \<and> ra_target a = lct_target (fnd_locator f) \<and>
    ra_scope a = lct_scope (fnd_locator f) \<and>
    (ra_action a, ra_destructive a, ra_caution a) = action_for (fnd_code f) \<and>
    ra_candidates a = group_candidates L (filter (\<lambda>f. group_key f = k) fs)"
proof -
  have g: "g = filter (\<lambda>f. group_key f = k) fs" "g \<noteq> []" using assms by (auto simp only: group_findings_mem)
  then obtain f where f: "f \<in> set fs" "group_key f = k" by (auto simp: filter_empty_conv)
  then show ?thesis
    using g by (intro exI [of _ "projr (action_of L (k, g))"] exI [of _ f])
      (auto simp: action_of_def group_key_def split: prod.splits)
qed

lemma plan_actions:
  "\<exists>actions. build_remediation_plan L fs = Inr \<lparr>rp_actions = actions\<rparr> \<and>
     map (action_of L) (sort_key fst (group_findings fs)) = map Inr actions"
proof -
  have "\<exists>actions. collect (map (action_of L) (sort_key fst (group_findings fs))) = Inr actions"
    using action_of_group by (intro collect_total) (fastforce simp: image_iff)
  then show ?thesis
    by (auto simp: build_remediation_plan_def collect_Inr_iff)
qed

lemma plan_action_mem:
  assumes "map (action_of L) (sort_key fst (group_findings fs)) = map Inr actions"
  shows "a \<in> set actions \<longleftrightarrow> (\<exists>k g. (k, g) \<in> set (group_findings fs) \<and> action_of L (k, g) = Inr a)"
proof -
  have "Inr ` set actions = action_of L ` set (group_findings fs)"
    using arg_cong [OF assms, of set] by simp
  then show ?thesis by (metis (no_types, lifting) imageE imageI old.sum.inject(2) surj_pair)
qed

lemma action_of_key:
  "action_of L (k, g) = Inr a \<Longrightarrow> k = (hd (ra_finding_codes a), ra_target a, ra_scope a)"
  by (auto simp: action_of_def split: prod.splits)

lemma plan_keys_sorted:
  assumes "map (action_of L) (sort_key fst (group_findings fs)) = map Inr actions"
  shows "map (\<lambda>a. (hd (ra_finding_codes a), ra_target a, ra_scope a)) actions = map fst (sort_key fst (group_findings fs))"
proof -
  have "map (\<lambda>a. (hd (ra_finding_codes a), ra_target a, ra_scope a)) as = map fst gs"
    if "map (action_of L) gs = map Inr as" for gs as
    using that
  proof (induction gs arbitrary: as)
    case (Cons g gs)
    then obtain a as' where "as = a # as'" "action_of L g = Inr a" "map (action_of L) gs = map Inr as'"
      by (auto simp: map_eq_Cons_conv Cons_eq_map_conv)
    with Cons.IH show ?case by (cases g) (auto dest: action_of_key)
  qed simp
  then show ?thesis using assms by blast
qed

lemma group_candidates_set:
  "c \<in> set (group_candidates L g) \<longleftrightarrow> (\<exists>f \<in> set g. candidate_id L f = Some c)"
  by (force simp: group_candidates_def split: option.splits)

definition covers :: "platform \<Rightarrow> remediation_action \<Rightarrow> finding \<Rightarrow> bool" where
  "covers L a f \<longleftrightarrow>
     ra_finding_codes a = [code_value (fnd_code f)] \<and> ra_target a = lct_target (fnd_locator f) \<and>
     ra_scope a = lct_scope (fnd_locator f) \<and>
     (case candidate_id L f of None \<Rightarrow> True | Some c \<Rightarrow> c \<in> set (ra_candidates a))"

lemma plan_covers:
  assumes "map (action_of L) (sort_key fst (group_findings fs)) = map Inr actions" "f \<in> set fs"
  shows "\<exists>a \<in> set actions. covers L a f"
proof -
  let ?g = "filter (\<lambda>x. group_key x = group_key f) fs"
  have mem: "(group_key f, ?g) \<in> set (group_findings fs)"
    unfolding group_findings_mem using assms(2) by (auto simp: filter_empty_conv)
  then obtain a f' where a: "group_key f' = group_key f" "action_of L (group_key f, ?g) = Inr a"
    "ra_finding_codes a = [code_value (fnd_code f')]" "ra_target a = lct_target (fnd_locator f')"
    "ra_scope a = lct_scope (fnd_locator f')" "ra_candidates a = group_candidates L ?g"
    using action_of_group [OF mem, of L] by blast
  have "c \<in> set (ra_candidates a)" if "candidate_id L f = Some c" for c
    using that assms(2) a(6) by (auto simp: group_candidates_set)
  then have "covers L a f"
    using a by (simp add: covers_def group_key_def split: option.split)
  moreover have "a \<in> set actions" using plan_action_mem [OF assms(1)] mem a(2) by blast
  ultimately show ?thesis by blast
qed

section \<open>Properties\<close>

text \<open>
  Every finding list has a remediation plan (the code lookup never fails); its actions are
  strictly ordered by code, target and scope, so no group appears twice, and every finding is
  covered by one of them, with its binding or point among the candidates.
\<close>

theorem remediation_plan_covers:
  "\<exists>plan. build_remediation_plan L fs = Inr plan \<and>
     sorted_wrt (<) (map (\<lambda>a. (hd (ra_finding_codes a), ra_target a, ra_scope a)) (rp_actions plan)) \<and>
     list_all (\<lambda>f. list_ex (\<lambda>a. covers L a f) (rp_actions plan)) fs"
proof -
  obtain actions where a: "build_remediation_plan L fs = Inr \<lparr>rp_actions = actions\<rparr>"
    "map (action_of L) (sort_key fst (group_findings fs)) = map Inr actions"
    using plan_actions by blast
  have "distinct (map fst (sort_key fst (group_findings fs)))"
    using group_findings_distinct [of fs] by (simp add: distinct_map)
  then have "sorted_wrt (<) (map fst (sort_key fst (group_findings fs)))"
    by (simp add: strict_sorted_iff)
  then show ?thesis
    using a plan_keys_sorted [OF a(2)] plan_covers [OF a(2)] by (auto simp: list_all_iff list_ex_iff)
qed

text \<open>
  In a plan the destructive actions are exactly those with a caution, and they are exactly
  the groups of orphans, duplicates, dimension mismatches, schema drift and incomplete
  manifests.
\<close>

theorem destructive_actions_cautioned:
  "\<exists>plan. build_remediation_plan L fs = Inr plan \<and>
     list_all (\<lambda>a. (ra_destructive a \<longleftrightarrow> ra_caution a \<noteq> None) \<and>
       (ra_destructive a \<longleftrightarrow> ra_finding_codes a \<in> (\<lambda>c. [code_value c]) ` set (DELETE_CANDIDATE_CODES @ FULL_REBUILD_CODES)))
       (rp_actions plan)"
proof -
  obtain actions where a: "build_remediation_plan L fs = Inr \<lparr>rp_actions = actions\<rparr>"
    "map (action_of L) (sort_key fst (group_findings fs)) = map Inr actions"
    using plan_actions by blast
  have d: "action_for c = (n, des, cau) \<Longrightarrow>
      (des \<longleftrightarrow> cau \<noteq> None) \<and> (des \<longleftrightarrow> c \<in> set (DELETE_CANDIDATE_CODES @ FULL_REBUILD_CODES))" for c n des cau
    by (cases c) (auto simp: action_for_def REINDEX_CODES_def DELETE_CANDIDATE_CODES_def UPDATE_PAYLOAD_CODES_def
      FULL_REBUILD_CODES_def)
  have "(ra_destructive x \<longleftrightarrow> ra_caution x \<noteq> None) \<and>
       (ra_destructive x \<longleftrightarrow> ra_finding_codes x \<in> (\<lambda>c. [code_value c]) ` set (DELETE_CANDIDATE_CODES @ FULL_REBUILD_CODES))"
    if x: "x \<in> set actions" for x
  proof -
    obtain k g where kg: "(k, g) \<in> set (group_findings fs)" "action_of L (k, g) = Inr x"
      using x unfolding plan_action_mem [OF a(2)] by blast
    from action_of_group [OF kg(1), of L] obtain y and f :: finding where "action_of L (k, g) = Inr y"
      "ra_finding_codes y = [code_value (fnd_code f)]" "(ra_action y, ra_destructive y, ra_caution y) = action_for (fnd_code f)"
      by blast
    with kg(2) have "ra_finding_codes x = [code_value (fnd_code f)]"
      "action_for (fnd_code f) = (ra_action x, ra_destructive x, ra_caution x)" by simp_all
    then have x': "ra_finding_codes x = [code_value (fnd_code f)]"
      "ra_destructive x \<longleftrightarrow> ra_caution x \<noteq> None"
      "ra_destructive x \<longleftrightarrow> fnd_code f \<in> set (DELETE_CANDIDATE_CODES @ FULL_REBUILD_CODES)"
      using d by blast+
    have "[code_value c] \<in> (\<lambda>c. [code_value c]) ` C \<longleftrightarrow> c \<in> C" for c C
      by auto
    then show ?thesis using x'(2,3) unfolding x'(1) by blast
  qed
  then show ?thesis
    using a(1) by (intro exI [of _ "\<lparr>rp_actions = actions\<rparr>"]) (unfold list_all_iff remediation_plan.simps, blast)
qed

end
