(* ===== verification/Ndjson.thy ===== *)
theory Ndjson
  imports Engine Py_Json
begin

text \<open>
  \<open>ragledger.connectors.ndjson\<close>: the snapshot format, its writer and its reader, and the connector
  that replays a snapshot. What lies below is a parameter, the \<open>codec\<close>: the zstd frames and the text
  decoding over them (from the bytes of a file, the lines that can be read and how the stream ends) and
  pydantic's \<open>model_validate_json\<close> of each kind of record. A line keeps its line feed.
\<close>

section \<open>Records\<close>

record snapshot_header =
  sh_target_id :: pystr
  sh_scope :: pystr
  sh_target_type :: pystr
  sh_vector_names :: "pystr list"
  sh_vector_dimensions :: "(pystr \<times> int) list"
  sh_started_at :: utc_datetime
  sh_connector_version :: pystr
  sh_consistency_mode :: pystr
  sh_scope_filter :: "dict option"
  sh_snapshot_kind :: pystr
  sh_sample_method :: "pystr option"
  sh_sample_seed :: "int option"
  sh_sample_rate :: "float64 option"

record snapshot_trailer =
  st_finished_at :: utc_datetime
  st_point_count :: int
  st_completeness :: pystr
  st_start_count :: "int option"
  st_end_count :: "int option"
  st_content_hash :: pystr

text \<open>\<open>model_dump(mode="json", exclude_none=True)\<close>: an optional field without a value has no key.\<close>

definition opt_member :: "string \<Rightarrow> ('a \<Rightarrow> json) \<Rightarrow> 'a option \<Rightarrow> dict" where
  "opt_member k f v = (case v of None \<Rightarrow> [] | Some x \<Rightarrow> [(py k, f x)])"

definition dump_header :: "snapshot_header \<Rightarrow> json" where
  "dump_header h =
     JObj ([(py ''record_type'', JStr (py ''header'')), (py ''schema_version'', JStr (py ''1'')), (py ''target_id'', JStr (sh_target_id h)),
            (py ''scope'', JStr (sh_scope h)), (py ''target_type'', JStr (sh_target_type h)),
            (py ''vector_names'', JList (map JStr (sh_vector_names h))),
            (py ''vector_dimensions'', JObj (map (\<lambda>(k, d). (k, JInt d)) (sh_vector_dimensions h))),
            (py ''started_at'', JStr (serialize_utc (sh_started_at h))), (py ''connector_version'', JStr (sh_connector_version h)),
            (py ''consistency_mode'', JStr (sh_consistency_mode h))]
       @ opt_member ''scope_filter'' JObj (sh_scope_filter h) @ [(py ''snapshot_kind'', JStr (sh_snapshot_kind h))]
       @ opt_member ''sample_method'' JStr (sh_sample_method h) @ opt_member ''sample_seed'' JInt (sh_sample_seed h)
       @ opt_member ''sample_rate'' JFloat (sh_sample_rate h))"

definition dump_trailer :: "snapshot_trailer \<Rightarrow> json" where
  "dump_trailer t =
     JObj ([(py ''record_type'', JStr (py ''trailer'')), (py ''finished_at'', JStr (serialize_utc (st_finished_at t))),
            (py ''point_count'', JInt (st_point_count t)), (py ''consistency_completeness'', JStr (st_completeness t))]
       @ opt_member ''consistency_start_count'' JInt (st_start_count t) @ opt_member ''consistency_end_count'' JInt (st_end_count t)
       @ [(py ''content_hash'', JStr (st_content_hash t))])"

definition dump_point :: "normalized_point \<Rightarrow> json" where
  "dump_point p =
     JObj ([(py ''target_id'', JStr (np_target_id p)), (py ''scope'', JStr (np_scope p)), (py ''point_id'', np_point_id p),
            (py ''vector_names'', JList (map JStr (np_vector_names p))),
            (py ''vector_dimensions'', JObj (map (\<lambda>(k, d). (k, JInt d)) (np_vector_dimensions p)))]
       @ opt_member ''vector_hashes'' (\<lambda>hs. JObj (map (\<lambda>(k, h). (k, JStr h)) hs)) (np_vector_hashes p)
       @ [(py ''payload_projection'', JObj (np_payload_projection p)), (py ''payload_hash'', JStr (np_payload_hash p))]
       @ opt_member ''source_id'' JStr (np_source_id p) @ opt_member ''source_version_id'' JStr (np_source_version_id p)
       @ opt_member ''chunk_id'' JStr (np_chunk_id p) @ opt_member ''embedding_id'' JStr (np_embedding_id p)
       @ opt_member ''acl'' (\<lambda>vs. JList (map JStr vs)) (np_acl p) @ opt_member ''tenant'' JStr (np_tenant p)
       @ [(py ''observed_at'', JStr (serialize_utc (np_observed_at p))), (py ''raw_locator'', JStr (np_raw_locator p)),
          (py ''normalization_warnings'', JList (map JStr (np_normalization_warnings p)))])"

section \<open>What lies below\<close>

datatype stream_end = AtEnd | CorruptFrame pystr | BadText

record codec =
  cd_compress :: "bytes \<Rightarrow> bytes"
  cd_lines :: "bytes \<Rightarrow> pystr list \<times> stream_end"
  cd_header :: "pystr \<Rightarrow> snapshot_header option"
  cd_point :: "pystr \<Rightarrow> normalized_point option"
  cd_trailer :: "pystr \<Rightarrow> snapshot_trailer option"

text \<open>The lines of a text, each with its line feed; the last one may have none.\<close>

fun lines_from :: "pystr \<Rightarrow> pystr \<Rightarrow> pystr list" where
  "lines_from cur [] = (if cur = [] then [] else [rev cur])"
| "lines_from cur (c # cs) = (if c = 10 then rev (c # cur) # lines_from [] cs else lines_from (c # cur) cs)"

definition text_lines :: "pystr \<Rightarrow> pystr list" where
  "text_lines s = lines_from [] s"

section \<open>The writer\<close>

definition newline :: bytes where
  "newline = [10]"

definition point_bytes :: "platform \<Rightarrow> normalized_point \<Rightarrow> bytes" where
  "point_bytes L p = canonical_bytes L (dump_point p) @ newline"

definition trailer_of :: "utc_datetime \<Rightarrow> consistency_info option \<Rightarrow> nat \<Rightarrow> bytes \<Rightarrow> snapshot_trailer" where
  "trailer_of finished_at consistency n hashed =
     \<lparr>st_finished_at = finished_at, st_point_count = int n,
      st_completeness = completeness_value (case consistency of None \<Rightarrow> COMPLETE | Some i \<Rightarrow> ci_completeness i),
      st_start_count = Option.bind consistency ci_start_count, st_end_count = Option.bind consistency ci_end_count,
      st_content_hash = sha256_hex hashed\<rparr>"

text \<open>One point after the other: what is written, what is hashed, and the count.\<close>

fun write_points :: "platform \<Rightarrow> normalized_point list \<Rightarrow> bytes \<times> bytes \<times> nat \<Rightarrow> bytes \<times> bytes \<times> nat" where
  "write_points L [] st = st"
| "write_points L (p # ps) (written, hashed, n) =
     write_points L ps (written @ point_bytes L p, hashed @ point_bytes L p, n + 1)"

definition write_snapshot ::
  "platform \<Rightarrow> codec \<Rightarrow> snapshot_header \<Rightarrow> normalized_point list \<Rightarrow> utc_datetime \<Rightarrow> consistency_info option \<Rightarrow> bytes \<times> snapshot_trailer" where
  "write_snapshot L C header points finished_at consistency =
     (case write_points L points (canonical_bytes L (dump_header header) @ newline, [], 0) of
        (written, hashed, n) \<Rightarrow>
          let trailer = trailer_of finished_at consistency n hashed
          in (cd_compress C (written @ canonical_bytes L (dump_trailer trailer) @ newline), trailer))"

section \<open>The reader\<close>

text \<open>\<open>Integrity\<close> is \<open>SnapshotIntegrityError\<close>; \<open>NoText\<close> is the \<open>UnicodeDecodeError\<close> of a stream that is no UTF-8.\<close>

datatype ndjson_error = Integrity pystr | NoText | UnknownCompleteness | ConfigError pystr | NoFile

text \<open>\<open>_read_line\<close>: the next line with what follows it, no line at the end, or an error.\<close>

definition read_line :: "pystr list \<times> stream_end \<Rightarrow> ndjson_error + pystr option \<times> (pystr list \<times> stream_end)" where
  "read_line s =
     (case s of
        (l # ls, e) \<Rightarrow> Inr (Some l, (ls, e))
      | ([], AtEnd) \<Rightarrow> Inr (None, s)
      | ([], CorruptFrame m) \<Rightarrow> Inl (Integrity (py ''corrupt zstd stream while reading: '' @ m))
      | ([], BadText) \<Rightarrow> Inl NoText)"

record snapshot_reader =
  rd_header :: snapshot_header
  rd_pending :: "pystr option"
  rd_stream :: "pystr list \<times> stream_end"

definition open_snapshot :: "codec \<Rightarrow> bytes \<Rightarrow> ndjson_error + snapshot_reader" where
  "open_snapshot C file =
     andThen (read_line (cd_lines C file)) (\<lambda>(first, s).
       case first of
         None \<Rightarrow> Inl (Integrity (py ''empty snapshot, missing header''))
       | Some line \<Rightarrow>
           (case cd_header C line of
              None \<Rightarrow> Inl (Integrity (py ''invalid snapshot header''))
            | Some header \<Rightarrow> andThen (read_line s) (\<lambda>(pending, s').
                Inr \<lparr>rd_header = header, rd_pending = pending, rd_stream = s'\<rparr>)))"

definition point_id_key :: "platform \<Rightarrow> json \<Rightarrow> pystr" where
  "point_id_key L point_id = canonicalize L point_id"

definition strip_newline :: "pystr \<Rightarrow> pystr" where
  "strip_newline line = rev (dropWhile (\<lambda>c. c = 10) (rev line))"

definition finalize_trailer :: "codec \<Rightarrow> pystr \<Rightarrow> bytes \<Rightarrow> nat \<Rightarrow> ndjson_error + snapshot_trailer" where
  "finalize_trailer C line hashed n =
     (case cd_trailer C line of
        None \<Rightarrow> Inl (Integrity (py ''invalid snapshot trailer''))
      | Some trailer \<Rightarrow>
          if st_point_count trailer \<noteq> int n
          then Inl (Integrity (py ''trailer point_count '' @ show_int (st_point_count trailer) @ py '' does not match '' @ show_nat n
                 @ py '' point line(s) actually read''))
          else if st_content_hash trailer \<noteq> sha256_hex hashed
          then Inl (Integrity (py ''trailer content_hash does not match the recomputed hash of point lines''))
          else Inr trailer)"

text \<open>
  \<open>SnapshotReader.points\<close>: \<open>seen\<close> is the set of the ids so far when duplicates are checked. The result
  is the points yielded, and the trailer or the error that ended the generator.
\<close>

fun read_points ::
  "platform \<Rightarrow> codec \<Rightarrow> pystr \<Rightarrow> pystr list \<times> stream_end \<Rightarrow> (pystr \<times> pystr) list option \<Rightarrow> bytes \<Rightarrow> nat
   \<Rightarrow> normalized_point list \<times> (ndjson_error + snapshot_trailer)" where
  "read_points L C pending ([], e) seen hashed n =
     ([], andThen (read_line ([], e)) (\<lambda>_. finalize_trailer C pending hashed n))"
| "read_points L C pending (l # ls, e) seen hashed n =
     (case cd_point C pending of
        None \<Rightarrow> ([], Inl (Integrity (py ''invalid snapshot point record'')))
      | Some p \<Rightarrow>
          let key = (np_scope p, point_id_key L (np_point_id p)) in
          if (case seen of None \<Rightarrow> False | Some ks \<Rightarrow> key \<in> set ks)
          then ([], Inl (Integrity (py ''duplicate point id in snapshot: scope='' @ repr_str L (np_scope p))))
          else (case read_points L C l (ls, e) (map_option (Cons key) seen) (hashed @ utf8_encode (strip_newline pending) @ newline)
                       (n + 1) of
                  (ps, r) \<Rightarrow> (p # ps, r)))"

definition points_of :: "platform \<Rightarrow> codec \<Rightarrow> snapshot_reader \<Rightarrow> bool \<Rightarrow> normalized_point list \<times> (ndjson_error + snapshot_trailer)" where
  "points_of L C reader check_duplicates =
     (case rd_pending reader of
        None \<Rightarrow> ([], Inl (Integrity (py ''snapshot is missing a trailer line'')))
      | Some pending \<Rightarrow> read_points L C pending (rd_stream reader) (if check_duplicates then Some [] else None) [] 0)"

section \<open>The connector\<close>

definition completeness_of :: "pystr \<Rightarrow> snapshot_completeness option" where
  "completeness_of s =
     (if s = py ''complete'' then Some COMPLETE else if s = py ''incomplete'' then Some INCOMPLETE else None)"

definition replay_consistency :: "snapshot_trailer \<Rightarrow> nat \<Rightarrow> ndjson_error + consistency_info" where
  "replay_consistency t observed =
     (case completeness_of (st_completeness t) of
        None \<Rightarrow> Inl UnknownCompleteness
      | Some v \<Rightarrow> Inr \<lparr>ci_mode = STRICT_CONSISTENT, ci_completeness = v, ci_start_count = st_start_count t, ci_end_count = st_end_count t,
                       ci_observed_count = int observed, ci_detail = None\<rparr>)"

text \<open>The points after the one whose key is the checkpoint.\<close>

definition after_checkpoint :: "platform \<Rightarrow> pystr option \<Rightarrow> normalized_point list \<Rightarrow> normalized_point list" where
  "after_checkpoint L checkpoint points =
     (case checkpoint of
        None \<Rightarrow> points
      | Some k \<Rightarrow> drop 1 (dropWhile (\<lambda>p. point_id_key L (np_point_id p) \<noteq> k) points))"

definition string_checkpoint :: "json option \<Rightarrow> ndjson_error + pystr option" where
  "string_checkpoint checkpoint =
     (case checkpoint of
        None \<Rightarrow> Inr None
      | Some (JStr k) \<Rightarrow> Inr (Some k)
      | Some _ \<Rightarrow> Inl (ConfigError (py ''NdjsonConnector checkpoint must be a point-id key string'')))"

text \<open>A pass: the points yielded, and what the connector remembers of it or the error that ended it.\<close>

definition iterate_ndjson ::
  "platform \<Rightarrow> codec \<Rightarrow> bytes option \<Rightarrow> json option \<Rightarrow> pystr list option \<Rightarrow> normalized_point list \<times> (ndjson_error + consistency_info)" where
  "iterate_ndjson L C file checkpoint projection =
     (case andThen (string_checkpoint checkpoint) (\<lambda>k. case file of
              None \<Rightarrow> Inl NoFile
            | Some bytes \<Rightarrow> andThen (open_snapshot C bytes) (\<lambda>reader. Inr (k, reader))) of
        Inl e \<Rightarrow> ([], Inl e)
      | Inr (k, reader) \<Rightarrow>
          (case points_of L C reader False of
             (points, ending) \<Rightarrow>
               (map (\<lambda>p. apply_projection L p projection) (after_checkpoint L k points),
                andThen ending (\<lambda>trailer. replay_consistency trailer (length points)))))"

definition ndjson_schema :: "snapshot_header \<Rightarrow> target_schema" where
  "ndjson_schema h =
     \<lparr>ts_target_id = sh_target_id h, ts_scope = sh_scope h,
      ts_vector_fields = map (\<lambda>name. \<lparr>vf_name = name,
         vf_dimension = (case map_of (sh_vector_dimensions h) name of None \<Rightarrow> 0 | Some d \<Rightarrow> d), vf_distance = None\<rparr>) (sh_vector_names h),
      ts_point_id_type = py ''unknown'', ts_payload_indexes = [], ts_approx_point_count = None, ts_resolved_scope = None, ts_extra = []\<rparr>"

text \<open>What each error says; a decoding error and an unknown completeness are no connector errors.\<close>

definition connector_error_of :: "ndjson_error \<Rightarrow> connector_error" where
  "connector_error_of e =
     (case e of Integrity m \<Rightarrow> ConnectorError m | ConfigError m \<Rightarrow> ConnectorConfigError m | NoText \<Rightarrow> ConnectorError (py ''UnicodeDecodeError'')
      | UnknownCompleteness \<Rightarrow> ConnectorError (py ''ValueError'') | NoFile \<Rightarrow> ConnectorError (py ''FileNotFoundError''))"

definition inspect_ndjson :: "codec \<Rightarrow> bytes option \<Rightarrow> connector_error + target_schema" where
  "inspect_ndjson C file =
     (case file of
        None \<Rightarrow> Inl (ConnectorConnectionError (py ''failed to read snapshot header''))
      | Some bytes \<Rightarrow>
          (case open_snapshot C bytes of
             Inr reader \<Rightarrow> Inr (ndjson_schema (rd_header reader))
           | Inl (Integrity m) \<Rightarrow> Inl (ConnectorConnectionError (py ''failed to read snapshot header: '' @ m))
           | Inl e \<Rightarrow> Inl (connector_error_of e)))"

definition validate_ndjson :: "bytes option \<Rightarrow> ndjson_error + unit" where
  "validate_ndjson file = (if file = None then Inl (ConfigError (py ''snapshot file does not exist'')) else Inr ())"

text \<open>A file that cannot be opened or is no snapshot is reported; a decoding error propagates.\<close>

definition test_ndjson_connection :: "codec \<Rightarrow> bytes option \<Rightarrow> ndjson_error + bool \<times> pystr" where
  "test_ndjson_connection C file =
     (case file of
        None \<Rightarrow> Inr (False, py ''No such file or directory'')
      | Some bytes \<Rightarrow>
          (case open_snapshot C bytes of
             Inr _ \<Rightarrow> Inr (True, py ''reachable'')
           | Inl (Integrity m) \<Rightarrow> Inr (False, m)
           | Inl e \<Rightarrow> Inl e))"

text \<open>The interface the engine calls, of a snapshot.\<close>

definition ndjson_connector :: "platform \<Rightarrow> codec \<Rightarrow> bytes option \<Rightarrow> connector" where
  "ndjson_connector L C file =
     (case iterate_ndjson L C file None None of
        (points, ending) \<Rightarrow>
          \<lparr>inspect_target_schema = inspect_ndjson C file,
           iterate_points = (points, case ending of Inl e \<Rightarrow> Some (connector_error_of e) | Inr _ \<Rightarrow> None),
           get_consistency_info = map_sum connector_error_of id ending\<rparr>)"

section \<open>The characters of a canonical text\<close>

lemma printable_dropWhile: "list_all printable s \<Longrightarrow> list_all printable (dropWhile f s)"
  by (metis list_all_append takeWhile_dropWhile_id)

lemma partition_printable:
  "list_all printable s \<Longrightarrow> partition_at c s = (a, b, d) \<Longrightarrow> list_all printable a \<and> list_all printable d"
  by (induction c s arbitrary: a b d rule: partition_at.induct) (auto split: if_splits prod.splits)

lemma printable_significant:
  assumes "shortest_digits_and_point x = (digits, k)"
  shows "list_all printable digits"
proof -
  note t = printable_repr_float [of x]
  obtain m found e where m: "partition_at 101 (repr_float x) = (m, found, e)" by (metis prod_cases3)
  let ?mantissa = "if found then m else repr_float x"
  have ml: "list_all printable ?mantissa" using t partition_printable [OF t m] by simp
  obtain ip b fp where p: "partition_at 46 ?mantissa = (ip, b, fp)" by (metis prod_cases3)
  let ?trimmed = "rev (dropWhile (\<lambda>c. c = 48) (rev (dropWhile (\<lambda>c. c = 48) (ip @ fp))))"
  have "list_all printable (ip @ fp)" using partition_printable [OF ml p] by simp
  then have "list_all printable ?trimmed" by (simp add: printable_dropWhile del: list_all_append)
  moreover have "fst (shortest_digits_and_point x) = (if ?trimmed = [] then [48] else ?trimmed)"
    using p unfolding shortest_digits_and_point_def m Let_def prod.case by (cases found) (simp_all only: bool.case if_True if_False prod.case fst_conv)
  ultimately show ?thesis using assms by simp
qed

lemma printable_encode_finite: "list_all printable (encode_finite x)"
proof -
  obtain digits point where d: "shortest_digits_and_point (if x < 0 then - x else x) = (digits, point)" by fastforce
  have "list_all printable (take n digits)" "list_all printable (drop n digits)" "list_all printable digits" for n
    using printable_significant [OF d] by (auto simp: list_all_iff dest: in_set_takeD in_set_dropD)
  moreover have "list_all printable (replicate n 48)" for n by (simp add: list_all_iff)
  ultimately have "list_all printable (format_digits digits point)"
    using printable_digits by (auto simp: format_digits_def Let_def py_def)
  then show ?thesis by (simp add: encode_finite_def d Let_def)
qed

text \<open>
  What holds of the printable ASCII characters and of the characters from the space on in the
  strings of a value, holds of its canonical text.
\<close>

primrec strings_hold :: "(pystr \<Rightarrow> bool) \<Rightarrow> json \<Rightarrow> bool" where
  "strings_hold Q JNull \<longleftrightarrow> True"
| "strings_hold Q (JBool b) \<longleftrightarrow> True"
| "strings_hold Q (JInt i) \<longleftrightarrow> True"
| "strings_hold Q (JFloat x) \<longleftrightarrow> True"
| "strings_hold Q (JStr s) \<longleftrightarrow> Q s"
| "strings_hold Q (JList vs) \<longleftrightarrow> list_all (strings_hold Q) vs"
| "strings_hold Q (JObj kvs) \<longleftrightarrow> list_all (\<lambda>(k, h). Q k \<and> h) (map (map_prod id (strings_hold Q)) kvs)"

lemma escape_char_holds:
  assumes "32 \<le> c \<Longrightarrow> P c" "\<And>d. printable d \<Longrightarrow> P d"
  shows "list_all P (escape_char c)"
proof (cases "control_escapes c")
  case (Some e)
  then have "list_all printable e" by (auto simp: control_escapes_def split: if_splits)
  with Some show ?thesis using assms(2) by (auto simp: escape_char_def list_all_iff)
next
  case None
  have "c div 16 < 16" "c mod 16 < 16" if "c < 32" using that by auto
  then have "printable (hex_digit (c div 16))" "printable (hex_digit (c mod 16))" if "c < 32"
    using that by (auto simp: hex_digit_def printable_def)
  with None show ?thesis using assms by (simp add: escape_char_def)
qed

lemma encode_string_holds:
  assumes "list_all (\<lambda>c. 32 \<le> c \<longrightarrow> P c) (nfc L s)" "\<And>d. printable d \<Longrightarrow> P d"
  shows "list_all P (encode_string L s)"
proof -
  have "list_all P (concat (map escape_char t))" if "list_all (\<lambda>c. 32 \<le> c \<longrightarrow> P c) t" for t
    using that assms(2) escape_char_holds [of _ P] by (induction t) auto
  with assms show ?thesis by (simp add: encode_string_def)
qed

lemma join_holds: "list_all P sep \<Longrightarrow> (\<And>x. x \<in> set xs \<Longrightarrow> list_all P x) \<Longrightarrow> list_all P (join sep xs)"
  by (induction sep xs rule: join.induct) auto

lemma canonical_holds:
  assumes p: "\<And>d. printable d \<Longrightarrow> P d"
  shows "strings_hold (\<lambda>s. list_all (\<lambda>c. 32 \<le> c \<longrightarrow> P c) (nfc L s)) v \<Longrightarrow> list_all P (canonicalize L v)"
  unfolding canonicalize_def
proof (induction v)
  case (JList vs)
  then have "list_all P (join [44] (map (encode L) vs))"
    using p by (intro join_holds) (auto simp: list_all_iff)
  then show ?case using p by simp
next
  case (JObj ms)
  have "list_all P (encode_string L k @ [58] @ encode L v)" if "(k, v) \<in> set ms" for k v
    using that JObj encode_string_holds [of P L k] p by (fastforce simp: list_all_iff)
  then have "list_all P (join [44] (map (\<lambda>(k, e). encode_string L k @ [58] @ e)
       (sort_key (\<lambda>m. utf16_code_units (fst m)) (map (map_prod id (encode L)) ms))))"
    using p by (intro join_holds) auto
  then show ?case using p by (simp add: encode_object_def)
next
  case (JFloat x)
  show ?case using printable_encode_finite [of x] p by (auto simp: list_all_iff)
next
  case (JInt i)
  have "list_all printable (show_int i)" by (auto simp: show_int_def printable_digits)
  then show ?case using p by (auto simp: list_all_iff)
next
  case (JStr s)
  then show ?case using encode_string_holds p by simp
qed (use p in \<open>simp_all add: py_def\<close>)

abbreviation one_line :: "pystr \<Rightarrow> bool" where
  "one_line s \<equiv> list_all (\<lambda>c. c \<noteq> 10) s"

lemma strings_hold_True: "(\<And>s. Q s) \<Longrightarrow> strings_hold Q v"
  by (induction v) (auto simp: list_all_iff)

lemma one_line_canonical: "one_line (canonicalize L v)"
  by (rule canonical_holds) (auto simp: printable_def list_all_iff intro: strings_hold_True)

section \<open>Lines\<close>

definition record_line :: "platform \<Rightarrow> json \<Rightarrow> pystr" where
  "record_line L v = canonicalize L v @ [10]"

lemma lines_from_append: "one_line t \<Longrightarrow> lines_from cur (t @ 10 # rest) = (rev cur @ t @ [10]) # lines_from [] rest"
  by (induction t arbitrary: cur) simp_all

lemma text_lines_records: "text_lines (concat (map (record_line L) vs)) = map (record_line L) vs"
  using lines_from_append [OF one_line_canonical, of "[]" L]
  by (induction vs) (simp_all add: text_lines_def record_line_def)

lemma strip_record_line: "strip_newline (record_line L v) = canonicalize L v"
proof (cases "canonicalize L v" rule: rev_cases)
  case (snoc xs x)
  then have "x \<noteq> 10" using one_line_canonical [of L v] by simp
  then show ?thesis using snoc by (simp add: strip_newline_def record_line_def)
qed (simp add: strip_newline_def record_line_def)

lemma utf8_newline: "utf8_encode (t @ [10]) = utf8_encode t @ newline"
  by (simp add: utf8_encode_def utf8_char_def newline_def)

lemma point_bytes_line: "point_bytes L p = utf8_encode (record_line L (dump_point p))"
  by (simp add: point_bytes_def record_line_def canonical_bytes_def utf8_newline)

section \<open>Writing, then reading\<close>

lemma write_points_all:
  "write_points L ps (written, hashed, n) =
     (written @ concat (map (point_bytes L) ps), hashed @ concat (map (point_bytes L) ps), n + length ps)"
  by (induction L ps "(written, hashed, n)" arbitrary: written hashed n rule: write_points.induct) simp_all

text \<open>The text of a record is valid Unicode, so that it can be encoded.\<close>

definition encodable :: "platform \<Rightarrow> json \<Rightarrow> bool" where
  "encodable L v \<longleftrightarrow> list_all scalar (canonicalize L v)"

text \<open>
  What the libraries are documented to do: a compressed text is read back as its lines, and the
  validation of a dumped record gives the record.
\<close>

definition reads_back :: "codec \<Rightarrow> bool" where
  "reads_back C \<longleftrightarrow> (\<forall>t. list_all scalar t \<longrightarrow> cd_lines C (cd_compress C (utf8_encode t)) = (text_lines t, AtEnd))"

definition decodes :: "platform \<Rightarrow> codec \<Rightarrow> snapshot_header \<Rightarrow> normalized_point list \<Rightarrow> snapshot_trailer \<Rightarrow> bool" where
  "decodes L C h ps t \<longleftrightarrow>
     cd_header C (record_line L (dump_header h)) = Some h \<and> cd_trailer C (record_line L (dump_trailer t)) = Some t
     \<and> list_all (\<lambda>p. cd_point C (record_line L (dump_point p)) = Some p) ps"

lemma written_text:
  "fst (write_snapshot L C h ps fin info) =
     cd_compress C (utf8_encode (concat (map (record_line L)
       (dump_header h # map dump_point ps @ [dump_trailer (snd (write_snapshot L C h ps fin info))]))))"
proof -
  have app: "utf8_encode (s @ t) = utf8_encode s @ utf8_encode t" for s t
    by (simp add: utf8_encode_def)
  then have conc: "utf8_encode (concat (map f xs)) = concat (map (\<lambda>x. utf8_encode (f x)) xs)" for f :: "'b \<Rightarrow> pystr" and xs
    by (induction xs) (simp_all add: utf8_encode_def)
  have line: "utf8_encode (record_line L v) = canonical_bytes L v @ newline" for v
    by (simp add: record_line_def canonical_bytes_def utf8_newline)
  show ?thesis
    by (simp add: write_snapshot_def Let_def write_points_all app conc line point_bytes_def [abs_def] comp_def)
qed

lemma read_points_records:
  "list_all (\<lambda>p. cd_point C (record_line L (dump_point p)) = Some p) ps \<Longrightarrow>
   read_points L C (hd (map (record_line L \<circ> dump_point) ps @ [tl']))
       (tl (map (record_line L \<circ> dump_point) ps @ [tl']), AtEnd) None hashed n =
     (ps, finalize_trailer C tl' (hashed @ concat (map (point_bytes L) ps)) (n + length ps))"
proof (induction ps arbitrary: hashed n)
  case Nil
  then show ?case by (simp add: read_line_def andThen_def)
next
  case (Cons p ps)
  have "point_bytes L p = utf8_encode (strip_newline (record_line L (dump_point p))) @ newline"
    by (simp add: strip_record_line point_bytes_def canonical_bytes_def)
  then show ?case
    using Cons by (cases ps) (simp_all add: read_line_def andThen_def)
qed

lemma trailer_written:
  "snd (write_snapshot L C h ps fin info) = trailer_of fin info (length ps) (concat (map (point_bytes L) ps))"
  by (simp add: write_snapshot_def Let_def write_points_all)

lemma snapshot_read:
  assumes "reads_back C" "write_snapshot L C h ps fin info = (file, trailer)" "decodes L C h ps trailer"
    "list_all (encodable L) (dump_header h # map dump_point ps @ [dump_trailer trailer])"
  shows "\<exists>reader. open_snapshot C file = Inr reader \<and> rd_header reader = h \<and> points_of L C reader False = (ps, Inr trailer)"
proof -
  let ?records = "dump_header h # map dump_point ps @ [dump_trailer trailer]"
  let ?line = "record_line L"
  let ?ls = "map (?line \<circ> dump_point) ps @ [?line (dump_trailer trailer)]"
  let ?reader = "\<lparr>rd_header = h, rd_pending = Some (hd ?ls), rd_stream = (tl ?ls, AtEnd)\<rparr>"
  have t: "trailer = trailer_of fin info (length ps) (concat (map (point_bytes L) ps))"
    using trailer_written [of L C h ps fin info] assms(2) by simp
  have "list_all scalar (concat (map ?line ?records))"
    using assms(4) by (auto simp: list_all_iff encodable_def record_line_def scalar_def)
  then have "cd_lines C file = (text_lines (concat (map ?line ?records)), AtEnd)"
    using assms(1) written_text [of L C h ps fin info] assms(2) by (simp add: reads_back_def)
  then have lines: "cd_lines C file = (?line (dump_header h) # ?ls, AtEnd)"
    by (simp only: text_lines_records) (simp add: comp_def)
  then have opened: "open_snapshot C file = Inr ?reader"
    using assms(3) by (cases ps) (simp_all add: open_snapshot_def read_line_def andThen_def decodes_def)
  have "finalize_trailer C (?line (dump_trailer trailer)) (concat (map (point_bytes L) ps)) (length ps) = Inr trailer"
    using assms(3) by (simp add: finalize_trailer_def decodes_def) (simp add: t trailer_of_def)
  then have "points_of L C ?reader False = (ps, Inr trailer)"
    using read_points_records [of C L ps "?line (dump_trailer trailer)" "[]" 0] assms(3) by (simp add: points_of_def decodes_def)
  with opened show ?thesis by (intro exI [of _ ?reader]) simp
qed

lemma completeness_roundtrip [simp]: "completeness_of (completeness_value v) = Some v"
  by (cases v) (simp_all add: completeness_of_def)

lemma snapshot_replayed:
  assumes "reads_back C" "write_snapshot L C h ps fin info = (file, trailer)" "decodes L C h ps trailer"
    "list_all (encodable L) (dump_header h # map dump_point ps @ [dump_trailer trailer])"
  shows "ndjson_connector L C (Some file) =
    \<lparr>inspect_target_schema = Inr (ndjson_schema h), iterate_points = (ps, None),
     get_consistency_info = Inr \<lparr>ci_mode = STRICT_CONSISTENT,
       ci_completeness = (case info of None \<Rightarrow> COMPLETE | Some i \<Rightarrow> ci_completeness i),
       ci_start_count = Option.bind info ci_start_count, ci_end_count = Option.bind info ci_end_count,
       ci_observed_count = int (length ps), ci_detail = None\<rparr>\<rparr>"
proof -
  obtain reader where r: "open_snapshot C file = Inr reader" "rd_header reader = h" "points_of L C reader False = (ps, Inr trailer)"
    using snapshot_read [OF assms] by blast
  have t: "trailer = trailer_of fin info (length ps) (concat (map (point_bytes L) ps))"
    using trailer_written [of L C h ps fin info] assms(2) by simp
  show ?thesis
    by (simp add: ndjson_connector_def inspect_ndjson_def iterate_ndjson_def string_checkpoint_def andThen_def r after_checkpoint_def
        replay_consistency_def) (simp add: t trailer_of_def)
qed

text \<open>The connector of a snapshot that was written from a pass replays the pass.\<close>

theorem snapshot_replay:
  assumes "reads_back C" "write_snapshot L C h ps fin info = (file, trailer)" "decodes L C h ps trailer"
    "list_all (encodable L) (dump_header h # map dump_point ps @ [dump_trailer trailer])"
  shows "ndjson_connector L C (Some file) =
    \<lparr>inspect_target_schema = Inr (ndjson_schema h), iterate_points = (ps, None),
     get_consistency_info = Inr \<lparr>ci_mode = STRICT_CONSISTENT,
       ci_completeness = (case info of None \<Rightarrow> COMPLETE | Some i \<Rightarrow> ci_completeness i),
       ci_start_count = Option.bind info ci_start_count, ci_end_count = Option.bind info ci_end_count,
       ci_observed_count = int (length ps), ci_detail = None\<rparr>\<rparr>"
  using assms by (rule snapshot_replayed)

section \<open>What an accepted file holds\<close>

definition hashed_line :: "pystr \<Rightarrow> bytes" where
  "hashed_line line = utf8_encode (strip_newline line) @ newline"

lemma read_points_accepted:
  assumes "read_points L C pending (ls, e) seen hashed n = (ps, Inr t)"
  shows "e = AtEnd \<and> map Some ps = map (cd_point C) (butlast (pending # ls)) \<and> cd_trailer C (last (pending # ls)) = Some t
    \<and> st_point_count t = int (n + length ps)
    \<and> st_content_hash t = sha256_hex (hashed @ concat (map hashed_line (butlast (pending # ls))))
    \<and> (case seen of None \<Rightarrow> True
        | Some ks \<Rightarrow> distinct (map (\<lambda>p. (np_scope p, point_id_key L (np_point_id p))) ps)
            \<and> list_all (\<lambda>p. (np_scope p, point_id_key L (np_point_id p)) \<notin> set ks) ps)"
  using assms
proof (induction ls arbitrary: pending seen hashed n ps)
  case Nil
  then show ?case
    by (cases e) (auto simp: read_line_def andThen_def finalize_trailer_def split: option.splits if_splits)
next
  case (Cons l ls)
  then obtain p where p: "cd_point C pending = Some p" by (auto split: option.splits)
  let ?key = "(np_scope p, point_id_key L (np_point_id p))"
  have new: "case seen of None \<Rightarrow> True | Some ks \<Rightarrow> ?key \<notin> set ks"
    using Cons.prems p by (auto simp: Let_def split: option.splits if_splits)
  obtain qs where q: "read_points L C l (ls, e) (map_option (Cons ?key) seen) (hashed @ hashed_line pending) (n + 1) = (qs, Inr t)"
    "ps = p # qs"
    using Cons.prems p new by (cases seen) (auto simp: Let_def hashed_line_def split: prod.splits)
  from Cons.IH [OF q(1)] new q(2) p show ?case
    by (cases seen) (auto simp: list_all_iff)
qed

text \<open>
  A file whose points are read to the end without an error is what its trailer says: the stream was
  sound, every line before the last is a point and all of them were yielded in order, their number is the
  trailer's count and the SHA-256 of their bytes its content hash; with the check, no id occurs twice.
\<close>

theorem snapshot_accepted:
  assumes "points_of L C reader check_duplicates = (ps, Inr t)"
  shows "\<exists>pending ls. rd_pending reader = Some pending \<and> rd_stream reader = (ls, AtEnd)
    \<and> map Some ps = map (cd_point C) (butlast (pending # ls)) \<and> cd_trailer C (last (pending # ls)) = Some t
    \<and> st_point_count t = int (length ps) \<and> st_content_hash t = sha256_hex (concat (map hashed_line (butlast (pending # ls))))
    \<and> (\<not> check_duplicates \<or> distinct (map (\<lambda>p. (np_scope p, point_id_key L (np_point_id p))) ps))"
proof -
  obtain pending ls e where r: "rd_pending reader = Some pending" "rd_stream reader = (ls, e)"
    using assms by (cases "rd_stream reader") (auto simp: points_of_def split: option.splits)
  then have "read_points L C pending (ls, e) (if check_duplicates then Some [] else None) [] 0 = (ps, Inr t)"
    using assms by (simp add: points_of_def)
  from read_points_accepted [OF this] r show ?thesis by (auto split: if_splits)
qed

text \<open>A checkpoint that no point has skips them all, and the pass still counts as complete.\<close>

lemma unknown_checkpoint_skips:
  "list_all (\<lambda>p. point_id_key L (np_point_id p) \<noteq> k) ps \<Longrightarrow> after_checkpoint L (Some k) ps = []"
  by (induction ps) (simp_all add: after_checkpoint_def)

section \<open>A sample snapshot\<close>

lemma sample_strings: "strings_hold (list_all scalar) v \<Longrightarrow> encodable sample_platform v"
proof -
  assume v: "strings_hold (list_all scalar) v"
  have "strings_hold (\<lambda>s. list_all (\<lambda>c. 32 \<le> c \<longrightarrow> scalar c) (nfc sample_platform s)) v"
    using v by (induction v) (auto simp: list_all_iff sample_platform_def)
  then show ?thesis unfolding encodable_def by (rule canonical_holds [rotated]) (simp add: printable_def scalar_def)
qed

definition sample_header :: snapshot_header where
  "sample_header =
     \<lparr>sh_target_id = py ''t'', sh_scope = py ''s'', sh_target_type = py ''qdrant'', sh_vector_names = [py ''v''],
      sh_vector_dimensions = [(py ''v'', 3)], sh_started_at = sample_time, sh_connector_version = py ''1'',
      sh_consistency_mode = py ''best_effort_live'', sh_scope_filter = None, sh_snapshot_kind = py ''full'', sh_sample_method = None,
      sh_sample_seed = None, sh_sample_rate = None\<rparr>"

abbreviation sample_trailer :: snapshot_trailer where
  "sample_trailer \<equiv> trailer_of sample_time None 1 (point_bytes sample_platform sample_observed)"

text \<open>A codec without compression that knows the records of the sample.\<close>

definition known :: "'a \<Rightarrow> json \<Rightarrow> pystr \<Rightarrow> 'a option" where
  "known x v l = (if l = record_line sample_platform v then Some x else None)"

definition sample_codec :: codec where
  "sample_codec =
     \<lparr>cd_compress = id, cd_lines = (\<lambda>b. case utf8_decode b of Some t \<Rightarrow> (text_lines t, AtEnd) | None \<Rightarrow> ([], BadText)),
      cd_header = known sample_header (dump_header sample_header), cd_point = known sample_observed (dump_point sample_observed),
      cd_trailer = known sample_trailer (dump_trailer sample_trailer)\<rparr>"

lemma scalar_digits [simp]: "list_all scalar (show_nat n)"
  using printable_digits [of n] by (auto simp: list_all_iff printable_def scalar_def)

lemma scalar_hash [simp]: "list_all scalar (sha256_hex b)"
  by (auto simp: list_all_iff sha256_hex_def scalar_def is_lower_hex_def is_digit_def dest!: hexlify_lower_hex)

lemma scalar_time [simp]: "list_all scalar (serialize_utc t)"
proof -
  have "list_all scalar (zfill k (show_nat n))" for k n by (auto simp: zfill_def list_all_iff scalar_def) (use scalar_digits [of n] in \<open>auto simp: list_all_iff scalar_def\<close>)
  then show ?thesis by (simp add: serialize_utc_def) (simp add: py_def scalar_def)
qed

lemma sample_codec_ok:
  "reads_back sample_codec" "decodes sample_platform sample_codec sample_header [sample_observed] sample_trailer"
  "list_all (encodable sample_platform) (dump_header sample_header # map dump_point [sample_observed] @ [dump_trailer sample_trailer])"
proof -
  show "reads_back sample_codec" by (simp add: reads_back_def sample_codec_def utf8_decode_encode)
  show "decodes sample_platform sample_codec sample_header [sample_observed] sample_trailer"
    by (simp add: decodes_def sample_codec_def known_def)
  have s: "list_all scalar (py s)" if "list_all (\<lambda>c. of_char c < (128::nat)) s" for s
    using that by (auto simp: py_def list_all_iff scalar_def)
  have "strings_hold (list_all scalar) (dump_header sample_header)" "strings_hold (list_all scalar) (dump_point sample_observed)"
    "strings_hold (list_all scalar) (dump_trailer sample_trailer)"
    by (simp_all add: dump_header_def dump_point_def dump_trailer_def sample_header_def sample_observed_def trailer_of_def opt_member_def s)
  then show "list_all (encodable sample_platform) (dump_header sample_header # map dump_point [sample_observed] @ [dump_trailer sample_trailer])"
    by (simp add: sample_strings)
qed

lemma sample_written:
  "write_snapshot sample_platform sample_codec sample_header [sample_observed] sample_time None =
     (fst (write_snapshot sample_platform sample_codec sample_header [sample_observed] sample_time None), sample_trailer)"
  using trailer_written [of sample_platform sample_codec sample_header "[sample_observed]" sample_time None]
  by (simp add: prod_eq_iff)

theorem snapshot_replay_witness:
  "list_points (ndjson_connector sample_platform sample_codec
       (Some (fst (write_snapshot sample_platform sample_codec sample_header [sample_observed] sample_time None)))) = Inr [sample_observed]"
  using snapshot_replay [OF sample_codec_ok(1) sample_written sample_codec_ok(2,3)] by (simp add: list_points_def)

theorem snapshot_accepted_witness:
  "\<exists>reader t. open_snapshot sample_codec (fst (write_snapshot sample_platform sample_codec sample_header [sample_observed] sample_time None)) = Inr reader \<and>
     points_of sample_platform sample_codec reader False = ([sample_observed], Inr t) \<and> st_point_count t = int (length [sample_observed])"
proof -
  obtain reader where r: "open_snapshot sample_codec (fst (write_snapshot sample_platform sample_codec sample_header [sample_observed] sample_time None)) = Inr reader"
    "points_of sample_platform sample_codec reader False = ([sample_observed], Inr sample_trailer)"
    using snapshot_read [OF sample_codec_ok(1) sample_written sample_codec_ok(2,3)] by blast
  from snapshot_accepted [OF r(2)] r show ?thesis by blast
qed

end
