(* ===== verification/Reconcile_Job.thy ===== *)
theory Reconcile_Job
  imports Engine_Spill Remediation Report Policy Ndjson Artifacts Jobs
begin

text \<open>
  \<open>run_reconcile_job\<close> of \<open>ragledger.server.handlers\<close>: a persisted manifest is reconciled against a
  stored snapshot, in memory or, when that raises a \<open>ValueError\<close>, over the disk; the report goes to the
  artifact store and the findings, the gate and the summary to the database. The store is no part of the
  transaction: what was put there stays when the job is rolled back. Reading a manifest and a policy
  document (JSON schema and pydantic) are parameters.
\<close>

section \<open>Rows\<close>

datatype run_state = RunPending | RunRunning | RunCompleted | RunFailed | RunCancelled

record reconciliation_summary =
  rs_verdict :: pystr
  rs_finding_count :: nat
  rs_result_summary :: summary
  rs_ratios :: ratios
  rs_consistency :: consistency_caveat
  rs_report_artifact :: pystr

record reconciliation_row =
  rn_id :: pystr
  rn_workspace_id :: pystr
  rn_manifest_id :: pystr
  rn_snapshot_id :: pystr
  rn_policy_revision_id :: "pystr option"
  rn_state :: run_state
  rn_summary :: "reconciliation_summary option"

record finding_row =
  fr_workspace_id :: pystr
  fr_reconciliation_id :: pystr
  fr_fingerprint :: pystr
  fr_code :: pystr
  fr_severity :: finding_severity
  fr_source_hash :: "pystr option"
  fr_chunk_hash :: "pystr option"
  fr_point_hash :: "pystr option"
  fr_expected_evidence :: "dict option"
  fr_observed_evidence :: "dict option"
  fr_artifact_ref :: pystr

datatype gate = GatePass | GateWarn | GateFail

record evaluation_row =
  ev_workspace_id :: pystr
  ev_reconciliation_id :: pystr
  ev_policy_revision_id :: pystr
  ev_result :: gate
  ev_verdict :: pystr

text \<open>Of the other tables, what the job reads: the artifact of a manifest and of a snapshot, the rules of a revision.\<close>

record reconcile_db =
  rd_reconciliations :: "reconciliation_row list"
  rd_manifest_ref :: "pystr \<Rightarrow> pystr option"
  rd_snapshot_ref :: "pystr \<Rightarrow> pystr option option"
  rd_policy_rules :: "pystr \<Rightarrow> dict option"
  rd_findings :: "finding_row list"
  rd_evaluations :: "evaluation_row list"

record reconcile_env =
  ne_platform :: platform
  ne_codec :: "Ndjson.codec"
  ne_point_codec :: "normalized_point Engine_Spill.codec"
  ne_uuid :: "nat \<Rightarrow> pystr"
  ne_load_manifest :: "bytes \<Rightarrow> manifest_envelope option"
  ne_load_policy :: "dict \<Rightarrow> policy_document option"
  ne_report_dump :: "reconciliation_report \<Rightarrow> json"
  ne_work_dir :: spill_state
  ne_tmp_name :: pystr
  ne_write_fault :: "nat option"
  ne_cancelled :: bool

section \<open>The steps\<close>

text \<open>\<open>artifact_ref.rpartition("/")[2]\<close>, looked up below \<open>artifacts\<close>.\<close>

definition artifact_file :: "pystr \<Rightarrow> directory \<Rightarrow> bytes option" where
  "artifact_file artifact_ref store = map_of store (rev (takeWhile (\<lambda>c. c \<noteq> 47) (rev artifact_ref)))"

definition wrap_evidence :: "json \<Rightarrow> dict option" where
  "wrap_evidence v = (case v of JNull \<Rightarrow> None | JObj d \<Rightarrow> Some d | _ \<Rightarrow> Some [(py ''value'', v)])"

definition finding_row_of :: "platform \<Rightarrow> reconciliation_row \<Rightarrow> pystr \<Rightarrow> finding \<Rightarrow> finding_row" where
  "finding_row_of L r report_ref f =
     (let evidence = fnd_evidence f;
          has = (\<lambda>k. py k \<in> fst ` set evidence)
      in \<lparr>fr_workspace_id = rn_workspace_id r, fr_reconciliation_id = rn_id r, fr_fingerprint = fnd_fingerprint f,
          fr_code = code_value (fnd_code f), fr_severity = fnd_severity f,
          fr_source_hash = lin_source_id (fnd_affected_lineage f), fr_chunk_hash = lin_chunk_id (fnd_affected_lineage f),
          fr_point_hash = map_option (hash_canonical L) (lct_point_id (fnd_locator f)),
          fr_expected_evidence = wrap_evidence (jget evidence ''expected''),
          fr_observed_evidence = wrap_evidence
            (if has ''observed'' \<or> has ''expected'' then jget evidence ''observed''
             else if evidence = [] then JNull else JObj evidence),
          fr_artifact_ref = report_ref\<rparr>)"

text \<open>\<open>{finding.fingerprint: finding for finding in result.findings}\<close>.\<close>

definition by_fingerprint :: "finding list \<Rightarrow> (pystr \<times> finding) list" where
  "by_fingerprint findings = foldl (\<lambda>d f. dict_set (fnd_fingerprint f) f d) [] findings"

definition gate_of :: "pystr \<Rightarrow> gate" where
  "gate_of verdict = (if verdict = py ''PASS'' then GatePass else if verdict = py ''WARN'' then GateWarn else GateFail)"

definition MAX_POINTS :: int where
  "MAX_POINTS = 100000"

text \<open>
  The errors of the engine that are a \<open>ValueError\<close>. (So are a decoding error and an unknown completeness
  of the snapshot; over the disk they come again.)
\<close>

definition is_value_error :: "engine_error \<Rightarrow> bool" where
  "is_value_error e = (case e of TooManyPoints n m \<Rightarrow> True | TaxonomyRaised t \<Rightarrow> True | _ \<Rightarrow> False)"

definition reconcile_auto ::
  "reconcile_env \<Rightarrow> manifest_envelope \<Rightarrow> connector \<Rightarrow> target_schema \<Rightarrow> policy_document option \<Rightarrow> int \<Rightarrow> engine_error + reconciliation_result" where
  "reconcile_auto E envelope connector schema policy max_points =
     (case reconcile_small_data (ne_platform E) envelope connector (ts_target_id schema) (ts_scope schema) policy None (py ''full'') max_points of
        Inr result \<Rightarrow> Inr result
      | Inl e \<Rightarrow>
          if is_value_error e
          then fst (reconcile_big_data (ne_platform E) (ne_uuid E) (ne_point_codec E) envelope connector (ts_target_id schema) (ts_scope schema)
                 policy None (py ''full'') 20000 (ne_work_dir E))
          else Inl e)"

definition no_policy :: policy_verdict where
  "no_policy = \<lparr>pv_policy_name = py ''(none)'', pv_verdict = py ''PASS'', pv_rule_results = [], pv_principal_masking = py ''hash''\<rparr>"

definition report_of :: "platform \<Rightarrow> policy_document option \<Rightarrow> reconciliation_result \<Rightarrow> remediation_error + reconciliation_report" where
  "report_of L policy result =
     andThen (build_remediation_plan L (rr_findings result)) (\<lambda>plan.
       Inr \<lparr>rep_result = result, rep_policy = (case policy of None \<Rightarrow> no_policy | Some p \<Rightarrow> evaluate_policy L p result),
            rep_remediation = plan\<rparr>)"

text \<open>What the transaction writes of a report that is stored under a reference; a constraint may be violated.\<close>

definition persist :: "platform \<Rightarrow> reconciliation_row \<Rightarrow> reconciliation_report \<Rightarrow> pystr \<Rightarrow> reconcile_db \<Rightarrow> reconcile_db option" where
  "persist L r report report_ref db =
     (let findings = map snd (by_fingerprint (rr_findings (rep_result report)));
          rows = map (finding_row_of L r report_ref) findings;
          verdict = pv_verdict (rep_policy report);
          done_row = r\<lparr>rn_state := RunCompleted,
            rn_summary := Some \<lparr>rs_verdict = verdict, rs_finding_count = length findings,
              rs_result_summary = rr_summary (rep_result report), rs_ratios = rr_ratios (rep_result report),
              rs_consistency = rr_consistency (rep_result report), rs_report_artifact = report_ref\<rparr>\<rparr>
      in if list_ex (\<lambda>f. fr_reconciliation_id f = rn_id r \<and> fr_fingerprint f \<in> fr_fingerprint ` set rows) (rd_findings db) then None
         else Some (db\<lparr>rd_reconciliations := map (\<lambda>x. if rn_id x = rn_id r then done_row else x) (rd_reconciliations db),
                       rd_findings := rd_findings db @ rows,
                       rd_evaluations := rd_evaluations db @
                         (case rn_policy_revision_id r of
                            None \<Rightarrow> []
                          | Some revision \<Rightarrow> [\<lparr>ev_workspace_id = rn_workspace_id r, ev_reconciliation_id = rn_id r, ev_policy_revision_id = revision,
                              ev_result = gate_of verdict, ev_verdict = verdict\<rparr>])\<rparr>))"

section \<open>The job\<close>

text \<open>What the job works on, or why it fails for good.\<close>

definition find_reconciliation :: "job \<Rightarrow> reconcile_db \<Rightarrow> string + reconciliation_row \<times> pystr \<times> pystr" where
  "find_reconciliation j db =
     (case jget (jb_payload j) ''reconciliation_id'' of
        JStr i \<Rightarrow>
          (case find (\<lambda>r. rn_id r = i) (rd_reconciliations db) of
             None \<Rightarrow> Inl ''reconciliation not found in workspace''
           | Some r \<Rightarrow>
               if rn_workspace_id r \<noteq> jb_workspace_id j then Inl ''reconciliation not found in workspace''
               else
                 (case (rd_manifest_ref db (rn_manifest_id r), rd_snapshot_ref db (rn_snapshot_id r)) of
                    (Some m, Some (Some s)) \<Rightarrow> Inr (r, m, s)
                  | (Some m, Some None) \<Rightarrow> Inl ''snapshot has no artifact''
                  | _ \<Rightarrow> Inl ''reconciliation references a missing manifest or snapshot''))
      | _ \<Rightarrow> Inl ''reconciliation not found in workspace'')"

definition load_policy_of :: "reconcile_env \<Rightarrow> reconciliation_row \<Rightarrow> reconcile_db \<Rightarrow> string + policy_document option" where
  "load_policy_of E r db =
     (case rn_policy_revision_id r of
        None \<Rightarrow> Inr None
      | Some revision \<Rightarrow>
          (case rd_policy_rules db revision of
             None \<Rightarrow> Inl ''reconciliation references a missing policy revision''
           | Some rules \<Rightarrow>
               (case ne_load_policy E rules of
                  None \<Rightarrow> Inl ''stored policy revision is invalid''
                | Some document \<Rightarrow> Inr (Some document))))"

definition finish_reconciliation ::
  "reconcile_env \<Rightarrow> reconciliation_row \<Rightarrow> reconciliation_report \<Rightarrow> reconcile_db \<Rightarrow> directory
   \<Rightarrow> (handler_result \<times> reconcile_db) \<times> directory" where
  "finish_reconciliation E r report db store =
     (case put (ne_tmp_name E) (ne_write_fault E) (to_json_bytes (ne_platform E) (ne_report_dump E) report) store of
        (Inl e, store') \<Rightarrow> ((HandlerRaised (py ''OSError''), db), store')
      | (Inr info, store') \<Rightarrow>
          (case persist (ne_platform E) r report (py ''artifacts/'' @ ai_sha256 info) db of
             None \<Rightarrow> ((HandlerRaised (py ''IntegrityError''), db), store')
           | Some db' \<Rightarrow> ((HandlerReturned, db'), store')))"

definition run_reconcile_job ::
  "reconcile_env \<Rightarrow> directory \<Rightarrow> reconcile_db \<Rightarrow> job \<Rightarrow> (handler_result \<times> reconcile_db) \<times> directory" where
  "run_reconcile_job E store db j =
     (case find_reconciliation j db of
        Inl e \<Rightarrow> ((HandlerPermanent (py e), db), store)
      | Inr (r, manifest_ref, snapshot_ref) \<Rightarrow>
          if ne_cancelled E then ((HandlerCancelled, db), store)
          else
            (case artifact_file manifest_ref store of
               None \<Rightarrow> ((HandlerPermanent (py ''artifact is not present in the store''), db), store)
             | Some manifest_bytes \<Rightarrow>
                 (case ne_load_manifest E manifest_bytes of
                    None \<Rightarrow> ((HandlerRaised (py ''manifest''), db), store)
                  | Some envelope \<Rightarrow>
                      (case load_policy_of E r db of
                         Inl e \<Rightarrow> ((HandlerPermanent (py e), db), store)
                       | Inr policy \<Rightarrow>
                           (case artifact_file snapshot_ref store of
                              None \<Rightarrow> ((HandlerPermanent (py ''artifact is not present in the store''), db), store)
                            | Some snapshot \<Rightarrow>
                                (let connector = ndjson_connector (ne_platform E) (ne_codec E) (Some snapshot) in
                                 case inspect_target_schema connector of
                                   Inl e \<Rightarrow> ((HandlerRaised (py ''ConnectorError''), db), store)
                                 | Inr schema \<Rightarrow>
                                     (case reconcile_auto E envelope connector schema policy MAX_POINTS of
                                        Inl e \<Rightarrow> ((HandlerRaised (py ''reconcile''), db), store)
                                      | Inr result \<Rightarrow>
                                          (case report_of (ne_platform E) policy result of
                                             Inl e \<Rightarrow> ((HandlerRaised (py ''ValueError''), db), store)
                                           | Inr report \<Rightarrow> finish_reconciliation E r report db store))))))))"

section \<open>Lemmas\<close>

lemma by_fingerprint_snoc: "by_fingerprint (fs @ [f]) = dict_set (fnd_fingerprint f) f (by_fingerprint fs)"
  by (simp add: by_fingerprint_def)

text \<open>One finding of each fingerprint is kept.\<close>

lemma by_fingerprint_findings:
  "distinct (map fst (by_fingerprint fs)) \<and> fst ` set (by_fingerprint fs) = fnd_fingerprint ` set fs
   \<and> (\<forall>(k, f) \<in> set (by_fingerprint fs). fnd_fingerprint f = k \<and> f \<in> set fs)"
proof (induction fs rule: rev_induct)
  case Nil
  then show ?case by (simp add: by_fingerprint_def)
next
  case (snoc f fs)
  have "set (dict_set k v d) \<subseteq> insert (k, v) (set d)" for k v and d :: "(pystr \<times> finding) list"
    by (induction k v d rule: dict_set.induct) auto
  from this [of "fnd_fingerprint f" f "by_fingerprint fs"] snoc show ?case
    by (auto simp: by_fingerprint_snoc)
qed

lemma map_by_fingerprint: "map (fnd_fingerprint \<circ> snd) (by_fingerprint fs) = map fst (by_fingerprint fs)"
  using by_fingerprint_findings [of fs] by auto

text \<open>The limit of the in-memory path decides only whether it raises.\<close>

lemma small_data_limit:
  assumes "int (length (fst (iterate_points con))) \<le> cap"
  shows "reconcile_small_data L m con t s pol sec kind cap' = reconcile_small_data L m con t s pol sec kind cap
    \<or> (\<exists>n. reconcile_small_data L m con t s pol sec kind cap' = Inl (TooManyPoints n cap'))"
  using assms by (auto simp: reconcile_small_data_def Let_def andThen_def lift_connector_def list_points_def
      split: sum.splits prod.splits option.splits if_splits)

lemma small_data_returns:
  assumes "inspect_target_schema con = Inr schema" "list_points con = Inr xs" "int (length xs) \<le> cap" "get_consistency_info con = Inr info"
  shows "\<exists>r. reconcile_small_data L m con t s pol sec kind cap = Inr r"
proof (cases rule: preflight_cases [of L "resolve_expected_points L m t s" schema t s])
  case 1
  from small_data_total [OF assms(1) this assms(2-4)] show ?thesis .
next
  case (2 f)
  with assms(1) show ?thesis by (simp add: reconcile_small_data_def Let_def)
qed

lemma auto_is_small_data:
  assumes "\<And>e. e \<in> set (resolve_expected_points (ne_platform E) m (ts_target_id schema) (ts_scope schema)) \<Longrightarrow> spillable e"
    and "\<And>x. x \<in> set (fst (iterate_points con)) \<Longrightarrow> line_ok (serialize (ne_point_codec E)) (deserialize (ne_point_codec E)) id x"
    and "int (length (fst (iterate_points con))) \<le> cap"
  shows "reconcile_auto E m con schema pol max_points =
    reconcile_small_data (ne_platform E) m con (ts_target_id schema) (ts_scope schema) pol None (py ''full'') cap"
proof -
  let ?small = "reconcile_small_data (ne_platform E) m con (ts_target_id schema) (ts_scope schema) pol None (py ''full'')"
  have big: "fst (reconcile_big_data (ne_platform E) (ne_uuid E) (ne_point_codec E) m con (ts_target_id schema) (ts_scope schema)
      pol None (py ''full'') 20000 (ne_work_dir E)) = ?small cap"
    using assms by (rule big_data_refines_small_data)
  from small_data_limit [OF assms(3), of "ne_platform E" m "ts_target_id schema" "ts_scope schema" pol None "py ''full''" max_points]
  show ?thesis
  proof (elim disjE exE)
    assume "?small max_points = ?small cap"
    with big show ?thesis by (simp add: reconcile_auto_def split: sum.splits)
  next
    fix n assume "?small max_points = Inl (TooManyPoints n max_points)"
    with big show ?thesis by (simp add: reconcile_auto_def is_value_error_def)
  qed
qed

lemma report_of_total: "\<exists>report. report_of L policy result = Inr report \<and> rep_result report = result"
proof -
  obtain actions where "build_remediation_plan L (rr_findings result) = Inr \<lparr>rp_actions = actions\<rparr>"
    using plan_actions [of L "rr_findings result"] by blast
  then show ?thesis by (simp add: report_of_def)
qed

lemma fingerprints_of_rows: "map fr_fingerprint (map (finding_row_of L r ref) fs) = map fnd_fingerprint fs"
  by (simp add: finding_row_of_def Let_def)

lemma persist_rows:
  assumes "list_all (\<lambda>f. fr_reconciliation_id f \<noteq> rn_id r) (rd_findings db)"
  shows "\<exists>db' rows. persist L r report ref db = Some db' \<and> rd_findings db' = rd_findings db @ rows
    \<and> map fr_fingerprint rows = map fst (by_fingerprint (rr_findings (rep_result report)))
    \<and> list_all (\<lambda>f. fr_reconciliation_id f = rn_id r \<and> fr_artifact_ref f = ref) rows
    \<and> list_all (\<lambda>x. rn_id x = rn_id r \<longrightarrow> rn_state x = RunCompleted) (rd_reconciliations db')
    \<and> rd_evaluations db' = rd_evaluations db @
        (case rn_policy_revision_id r of None \<Rightarrow> []
         | Some revision \<Rightarrow> [\<lparr>ev_workspace_id = rn_workspace_id r, ev_reconciliation_id = rn_id r, ev_policy_revision_id = revision,
             ev_result = gate_of (pv_verdict (rep_policy report)), ev_verdict = pv_verdict (rep_policy report)\<rparr>])"
proof -
  have none: "\<not> list_ex (\<lambda>f. fr_reconciliation_id f = rn_id r \<and> Q f) (rd_findings db)" for Q
    using assms by (auto simp: list_all_iff list_ex_iff)
  have rows: "map (fr_fingerprint \<circ> (finding_row_of L r ref \<circ> snd)) xs = map (fnd_fingerprint \<circ> snd) xs" for xs :: "(pystr \<times> finding) list"
    by (simp add: finding_row_of_def Let_def)
  show ?thesis
    using none by (simp add: persist_def Let_def rows map_by_fingerprint) (auto simp: list_all_iff finding_row_of_def Let_def)
qed

lemma put_stores:
  assumes "temp_name tmp" "store_inv store"
  shows "\<exists>store' b. put tmp None data store = (Inr \<lparr>ai_sha256 = sha256_hex data, ai_size_bytes = length data\<rparr>, store')
    \<and> get_artifact (sha256_hex data) store' = Inr b \<and> sha256_hex b = sha256_hex data"
proof -
  have inv: "store_inv (snd (put tmp None data store))" using assms by (rule put_consistent)
  obtain store' where p: "put tmp None data store = (Inr \<lparr>ai_sha256 = sha256_hex data, ai_size_bytes = length data\<rparr>, store')"
    "map_of store' (sha256_hex data) \<noteq> None"
    by (cases rule: put_cases [OF assms(1), of None data store]) auto
  then obtain b where b: "map_of store' (sha256_hex data) = Some b" by auto
  moreover have "sha256_hex b = sha256_hex data"
    using inv p(1) b by (auto simp: store_inv_def)
  ultimately show ?thesis using p(1) by (auto simp: get_artifact_def)
qed

text \<open>A reference that the store gave out names the file of its digest.\<close>

lemma artifact_file_stored [simp]: "artifact_file (py ''artifacts/'' @ sha256_hex b) store = map_of store (sha256_hex b)"
proof -
  have "c \<noteq> 47" if "c \<in> set (sha256_hex b)" for c
    using that by (auto simp: sha256_hex_def is_lower_hex_def is_digit_def dest!: hexlify_lower_hex)
  then have "takeWhile (\<lambda>c. c \<noteq> 47) (rev (py ''artifacts/'' @ sha256_hex b)) = rev (sha256_hex b)"
    by (simp add: takeWhile_append py_def)
  then show ?thesis by (simp only: artifact_file_def rev_rev_ident)
qed

section \<open>A sample job\<close>

text \<open>The snapshot of one point is the only file of the store; every file reads as the sample manifest.\<close>

abbreviation sample_file :: bytes where
  "sample_file \<equiv> fst (write_snapshot sample_platform Ndjson.sample_codec sample_header [sample_observed] sample_time None)"

abbreviation sample_artifact :: pystr where
  "sample_artifact \<equiv> py ''artifacts/'' @ sha256_hex sample_file"

definition sample_reconcile_env :: reconcile_env where
  "sample_reconcile_env =
     \<lparr>ne_platform = sample_platform, ne_codec = Ndjson.sample_codec, ne_point_codec = Engine_Spill.sample_codec, ne_uuid = show_nat,
      ne_load_manifest = (\<lambda>b. Some sample_manifest), ne_load_policy = (\<lambda>rules. None), ne_report_dump = (\<lambda>report. JNull),
      ne_work_dir = sample_dir, ne_tmp_name = py ''.tmp-1'', ne_write_fault = None, ne_cancelled = False\<rparr>"

definition sample_reconciliation :: reconciliation_row where
  "sample_reconciliation =
     \<lparr>rn_id = py ''r1'', rn_workspace_id = py ''w1'', rn_manifest_id = py ''m1'', rn_snapshot_id = py ''s1'',
      rn_policy_revision_id = None, rn_state = RunPending, rn_summary = None\<rparr>"

definition sample_reconcile_db :: reconcile_db where
  "sample_reconcile_db =
     \<lparr>rd_reconciliations = [sample_reconciliation], rd_manifest_ref = [py ''m1'' \<mapsto> sample_artifact],
      rd_snapshot_ref = [py ''s1'' \<mapsto> Some sample_artifact], rd_policy_rules = (\<lambda>i. None), rd_findings = [], rd_evaluations = []\<rparr>"

definition sample_reconcile_job :: job where
  "sample_reconcile_job = fst (enqueue_job 0 (py ''j1'') (py ''w1'') (py ''reconcile'') (Some [(py ''reconciliation_id'', JStr (py ''r1''))]) None None [])"

lemma sample_env_simps [simp]:
  "ne_platform sample_reconcile_env = sample_platform" "ne_codec sample_reconcile_env = Ndjson.sample_codec"
  "ne_point_codec sample_reconcile_env = Engine_Spill.sample_codec" "ne_load_manifest sample_reconcile_env b = Some sample_manifest"
  "ne_write_fault sample_reconcile_env = None" "\<not> ne_cancelled sample_reconcile_env" "temp_name (ne_tmp_name sample_reconcile_env)"
  "load_policy_of sample_reconcile_env sample_reconciliation db = Inr None"
  by (simp_all add: sample_reconcile_env_def temp_name_def load_policy_of_def sample_reconciliation_def py_def)

lemma sample_points_ok:
  "x \<in> set [sample_observed] \<Longrightarrow> line_ok (serialize Engine_Spill.sample_codec) (deserialize Engine_Spill.sample_codec) id x"
  using sample_lines [of x] by (simp add: sample_connector_def)

section \<open>Properties\<close>

text \<open>
  C10. What the job reconciles does not depend on the limit of the in-memory path: whether that path returns or
  the job falls back to the disk, it gets the result of the in-memory path without a limit, for every
  connector whose points survive being written as a JSON line.
\<close>

theorem reconcile_auto_limit_free:
  assumes "\<And>e. e \<in> set (resolve_expected_points (ne_platform E) m (ts_target_id schema) (ts_scope schema)) \<Longrightarrow> spillable e"
    and "\<And>x. x \<in> set (fst (iterate_points con)) \<Longrightarrow> line_ok (serialize (ne_point_codec E)) (deserialize (ne_point_codec E)) id x"
  shows "reconcile_auto E m con schema pol max_points =
    reconcile_small_data (ne_platform E) m con (ts_target_id schema) (ts_scope schema) pol None (py ''full'')
      (int (length (fst (iterate_points con))))"
  using assms by (rule auto_is_small_data) simp_all

theorem reconcile_auto_limit_free_witness:
  "reconcile_auto sample_reconcile_env sample_manifest (sample_connector [sample_observed]) (ndjson_schema sample_header) None 0 =
    reconcile_small_data sample_platform sample_manifest (sample_connector [sample_observed]) (py ''t'') (py ''s'') None None (py ''full'') 1"
  using reconcile_auto_limit_free [of sample_reconcile_env sample_manifest "ndjson_schema sample_header"
      "sample_connector [sample_observed]" None 0] sample_spillable sample_lines
  by (simp add: sample_reconcile_env_def ndjson_schema_def sample_header_def) (simp add: sample_connector_def)



end
