(* ===== verification/Security.thy ===== *)
theory Security
  imports Settings Signing
begin

text \<open>
  \<open>ragledger.server.security\<close> (API tokens, stored credentials, workspace scoping),
  \<open>ragledger.server.api.deps\<close> (who may call a route) and \<open>ragledger.server.audit\<close> (the append-only
  log). Random bytes, the clock and AES-GCM are parameters; SHA-256 is the one of \<open>Py_Bytes\<close>.
\<close>

section \<open>API tokens\<close>

record issued_token =
  it_token :: pystr
  it_prefix :: pystr
  it_selector :: pystr
  it_salt :: bytes
  it_token_hash :: bytes

text \<open>\<open>base64.urlsafe_b64decode\<close> of a string refuses what is not ASCII and skips what is not base64.\<close>

definition decode_secret :: "pystr \<Rightarrow> bytes option" where
  "decode_secret text = (if is_ascii text then b64url_decode text else None)"

definition issue_api_token :: "bytes \<Rightarrow> bytes \<Rightarrow> bytes \<Rightarrow> pystr \<Rightarrow> issued_token" where
  "issue_api_token selector_bytes secret salt prefix =
     (let selector = b64url_encode selector_bytes in
      \<lparr>it_token = prefix @ [95] @ selector @ [46] @ b64url_encode secret, it_prefix = prefix, it_selector = selector,
       it_salt = salt, it_token_hash = sha256 (salt @ secret)\<rparr>)"

text \<open>\<open>s.rpartition(sep)\<close>: what precedes and what follows the last occurrence.\<close>

definition rpartition :: "codepoint \<Rightarrow> pystr \<Rightarrow> pystr \<times> pystr" where
  "rpartition c s = (case partition_at c (rev s) of (b, found, a) \<Rightarrow> (rev a, rev b))"

definition parse_api_token :: "pystr \<Rightarrow> (pystr \<times> pystr \<times> bytes) option" where
  "parse_api_token token =
     (if 46 \<notin> set token \<or> 95 \<notin> set token then None
      else (case rpartition 46 token of (head, secret_part) \<Rightarrow>
        case partition_at 95 head of (prefix, found, selector) \<Rightarrow>
          if prefix = [] \<or> selector = [] \<or> secret_part = [] then None
          else map_option (\<lambda>secret. (prefix, selector, secret)) (decode_secret secret_part)))"

definition token_selector :: "pystr \<Rightarrow> pystr option" where
  "token_selector token = map_option (\<lambda>(prefix, selector, secret). selector) (parse_api_token token)"

definition verify_api_token :: "pystr \<Rightarrow> bytes \<Rightarrow> bytes \<Rightarrow> bool" where
  "verify_api_token token salt expected_hash =
     (case parse_api_token token of
        None \<Rightarrow> False
      | Some (prefix, selector, secret) \<Rightarrow> sha256 (salt @ secret) = expected_hash)"

section \<open>Stored credentials\<close>

text \<open>AES-GCM: \<open>encrypt(nonce, data, None)\<close> and \<open>decrypt\<close>, whose \<open>InvalidTag\<close> is \<open>None\<close>.\<close>

record aead =
  seal :: "bytes \<Rightarrow> bytes \<Rightarrow> bytes \<Rightarrow> bytes"
  unseal :: "bytes \<Rightarrow> bytes \<Rightarrow> bytes \<Rightarrow> bytes option"

definition aead_ok :: "aead \<Rightarrow> bool" where
  "aead_ok A \<longleftrightarrow> (\<forall>key nonce data. unseal A key nonce (seal A key nonce data) = Some data \<and> seal A key nonce data \<noteq> [])"

datatype credential_error =
    NoCurrentKey
  | BadKeyMaterial
  | KeyIdNotAscii
  | KeyIdTooLong
  | Undecryptable string

text \<open>\<open>base64.b64decode(\<dots>, validate=True)\<close>: as the lenient decoder, but anything outside the
  standard alphabet, anything after the padding, and padding in front or in between is an error.\<close>

fun b64_strict :: "nat \<Rightarrow> nat \<Rightarrow> bool \<Rightarrow> pystr \<Rightarrow> nat list option" where
  "b64_strict pos pads padded [] = (if pos = 0 then Some [] else None)"
| "b64_strict pos pads padded (c # cs) =
     (if c = 61 then
        (if 2 \<le> pos \<and> 4 \<le> pos + (pads + 1) then (if cs = [] then Some [] else None)
         else b64_strict pos (if 2 \<le> pos then pads + 1 else pads) True cs)
      else if c \<in> {45, 95} then None
      else
        (case b64_value c of
           None \<Rightarrow> None
         | Some v \<Rightarrow> if padded then None else map_option (Cons v) (b64_strict ((pos + 1) mod 4) 0 False cs)))"

definition b64_validated :: "pystr \<Rightarrow> bytes option" where
  "b64_validated s =
     (if s \<noteq> [] \<and> hd s = 61 then None else map_option (group_bytes 6) (b64_strict 0 0 False s))"

definition standard_char :: "codepoint \<Rightarrow> codepoint" where
  "standard_char c = (if c = 45 then 43 else if c = 95 then 47 else c)"

definition decode_key_material :: "pystr \<Rightarrow> bytes option" where
  "decode_key_material raw =
     (let candidate = strip raw;
          padded = candidate @ replicate (nat (- int (length candidate) mod 4)) 61;
          normalized = map standard_char padded
      in case b64_validated normalized of
           None \<Rightarrow> None
         | Some decoded \<Rightarrow> if length decoded \<noteq> 32 then None else Some decoded)"

definition credential_magic :: bytes where
  "credential_magic = [0x52, 0x4C, 0x43, 0x31]"

definition NONCE_BYTES :: nat where
  "NONCE_BYTES = 12"

definition encrypt_credential :: "aead \<Rightarrow> bytes \<Rightarrow> server_settings \<Rightarrow> bytes \<Rightarrow> credential_error + bytes \<times> pystr" where
  "encrypt_credential A nonce S plaintext =
     (case current_encryption_key S of
        None \<Rightarrow> Inl NoCurrentKey
      | Some (key_id, key) \<Rightarrow>
          (case decode_key_material key of
             None \<Rightarrow> Inl BadKeyMaterial
           | Some key_bytes \<Rightarrow>
               let ciphertext = seal A key_bytes nonce plaintext in
               if \<not> is_ascii key_id then Inl KeyIdNotAscii
               else if 255 < length key_id then Inl KeyIdTooLong
               else Inr (credential_magic @ [of_nat (length key_id)] @ map of_nat key_id @ nonce @ ciphertext, key_id)))"

text \<open>A bad key is a \<open>ValueError\<close> here, no \<open>CredentialDecryptionError\<close>.\<close>

definition decrypt_credential :: "aead \<Rightarrow> server_settings \<Rightarrow> bytes \<Rightarrow> credential_error + bytes" where
  "decrypt_credential A S blob =
     (if take 4 blob \<noteq> credential_magic then Inl (Undecryptable ''unrecognized credential ciphertext format'')
      else if length blob \<le> 4 then Inl (Undecryptable ''malformed credential ciphertext'')
      else
        (let key_id_len = unat (blob ! 4);
             key_id = map unat (take key_id_len (drop 5 blob));
             nonce = take NONCE_BYTES (drop (5 + key_id_len) blob);
             ciphertext = drop (5 + key_id_len + NONCE_BYTES) blob
         in if \<not> is_ascii key_id then Inl (Undecryptable ''malformed credential ciphertext'')
            else if length nonce \<noteq> NONCE_BYTES \<or> ciphertext = [] then Inl (Undecryptable ''malformed credential ciphertext'')
            else (case require_encryption_key S key_id of
                    None \<Rightarrow> Inl (Undecryptable ''no encryption key configured for key id'')
                  | Some key \<Rightarrow>
                      (case decode_key_material key of
                         None \<Rightarrow> Inl BadKeyMaterial
                       | Some key_bytes \<Rightarrow>
                           (case unseal A key_bytes nonce ciphertext of
                              None \<Rightarrow> Inl (Undecryptable ''credential ciphertext failed authentication'')
                            | Some plaintext \<Rightarrow> Inr plaintext)))))"

section \<open>Who calls\<close>

record api_token =
  at_id :: pystr
  at_workspace_id :: pystr
  at_name :: pystr
  at_prefix :: pystr
  at_selector :: pystr
  at_salt :: bytes
  at_token_hash :: bytes
  at_scopes :: "pystr list"
  at_expires_at :: "int option"
  at_revoked_at :: "int option"
  at_last_used_at :: "int option"

record auth_context =
  ac_token_id :: pystr
  ac_workspace_id :: pystr
  ac_scopes :: "pystr list"

definition has_scope :: "auth_context \<Rightarrow> pystr \<Rightarrow> bool" where
  "has_scope auth scope \<longleftrightarrow> scope \<in> set (ac_scopes auth) \<or> py ''admin'' \<in> set (ac_scopes auth)"

datatype access_error =
    Unauthorized string
  | NotFound
  | Forbidden pystr
  | SeveralRows

definition API_TOKEN_SCOPES :: "string list" where
  "API_TOKEN_SCOPES =
     [''sources'', ''builds'', ''targets'', ''snapshots'', ''reconciliations'', ''policies'', ''admin'']"

text \<open>\<open>header\<close> is empty when there is none; the clock is read twice.\<close>

definition authenticate ::
  "unicode_db \<Rightarrow> int \<Rightarrow> int \<Rightarrow> pystr \<Rightarrow> api_token list \<Rightarrow> (access_error + auth_context) \<times> api_token list" where
  "authenticate U now now' header rows =
     (case partition_at 32 header of (scheme, found, credentials) \<Rightarrow>
        if str_lower U scheme \<noteq> py ''bearer'' \<or> strip credentials = [] then (Inl (Unauthorized ''missing bearer token''), rows)
        else
          (let token = strip credentials in
           case token_selector token of
             None \<Rightarrow> (Inl (Unauthorized ''malformed bearer token''), rows)
           | Some selector \<Rightarrow>
               (case filter (\<lambda>r. at_selector r = selector) rows of
                  [] \<Rightarrow> (Inl (Unauthorized ''unknown token''), rows)
                | [row] \<Rightarrow>
                    if \<not> verify_api_token token (at_salt row) (at_token_hash row) then (Inl (Unauthorized ''invalid token''), rows)
                    else if at_revoked_at row \<noteq> None then (Inl (Unauthorized ''token has been revoked''), rows)
                    else if (case at_expires_at row of None \<Rightarrow> False | Some t \<Rightarrow> t \<le> now)
                    then (Inl (Unauthorized ''token has expired''), rows)
                    else (Inr \<lparr>ac_token_id = at_id row, ac_workspace_id = at_workspace_id row, ac_scopes = at_scopes row\<rparr>,
                          map (\<lambda>r. if at_selector r = selector then r\<lparr>at_last_used_at := Some now'\<rparr> else r) rows)
                | _ \<Rightarrow> (Inl SeveralRows, rows))))"

definition require_workspace :: "pystr \<Rightarrow> auth_context \<Rightarrow> access_error + auth_context" where
  "require_workspace workspace_id auth =
     (if ac_workspace_id auth \<noteq> workspace_id then Inl NotFound else Inr auth)"

text \<open>A scope outside the vocabulary is refused when the route is declared.\<close>

definition scope_declared :: "string \<Rightarrow> bool" where
  "scope_declared scope \<longleftrightarrow> scope \<in> set API_TOKEN_SCOPES"

definition require_scope :: "string \<Rightarrow> auth_context \<Rightarrow> access_error + auth_context" where
  "require_scope scope auth = (if has_scope auth (py scope) then Inr auth else Inl (Forbidden (py scope)))"

text \<open>The dependencies of a route as FastAPI composes them.\<close>

definition authorize ::
  "unicode_db \<Rightarrow> int \<Rightarrow> int \<Rightarrow> pystr \<Rightarrow> string \<Rightarrow> pystr \<Rightarrow> api_token list \<Rightarrow> (access_error + auth_context) \<times> api_token list" where
  "authorize U now now' workspace_id scope header rows =
     (case authenticate U now now' header rows of
        (r, rows') \<Rightarrow> (andThen (andThen r (require_workspace workspace_id)) (require_scope scope), rows'))"

definition require_workspace_scope :: "pystr \<Rightarrow> pystr \<Rightarrow> bool" where
  "require_workspace_scope resource_workspace_id caller_workspace_id \<longleftrightarrow> resource_workspace_id = caller_workspace_id"

section \<open>The audit log\<close>

definition forbidden_words :: "pystr list" where
  "forbidden_words =
     map py [''password'', ''secret'', ''token'', ''credential'', ''apikey'', ''api_key'', ''api-key'',
       ''privatekey'', ''private_key'', ''private-key'', ''dsn'', ''connectionstring'', ''connection_string'', ''connection-string'']"

text \<open>\<open>_FORBIDDEN_METADATA_KEY_PATTERN.search(key)\<close>, which ignores case.\<close>

definition forbidden_key :: "pystr \<Rightarrow> bool" where
  "forbidden_key key = list_ex (\<lambda>w. after_first w (map ci_fold key) \<noteq> None) forbidden_words"

record audit_event =
  ae_workspace_id :: "pystr option"
  ae_actor_type :: pystr
  ae_actor_id :: "pystr option"
  ae_action :: pystr
  ae_entity_type :: "pystr option"
  ae_entity_id :: "pystr option"
  ae_result :: pystr
  ae_request_id :: "pystr option"
  ae_metadata :: "(pystr \<times> json) list option"

definition check_metadata :: "(pystr \<times> json) list option \<Rightarrow> pystr + unit" where
  "check_metadata metadata =
     (case metadata of
        None \<Rightarrow> Inr ()
      | Some d \<Rightarrow> (case find (\<lambda>(k, v). forbidden_key k) d of None \<Rightarrow> Inr () | Some (k, v) \<Rightarrow> Inl k))"

definition record_event :: "audit_event \<Rightarrow> audit_event list \<Rightarrow> (pystr + audit_event) \<times> audit_event list" where
  "record_event event events =
     (case check_metadata (ae_metadata event) of
        Inl k \<Rightarrow> (Inl k, events)
      | Inr _ \<Rightarrow> (Inr event, events @ [event]))"

section \<open>Tokens that were issued\<close>

lemma partition_at_unique: "c \<notin> set a \<Longrightarrow> partition_at c (a @ c # b) = (a, True, b)"
  by (induction a) auto

lemma rpartition_unique: "c \<notin> set b \<Longrightarrow> rpartition c (a @ c # b) = (a, b)"
  using partition_at_unique [of c "rev b" "rev a"] by (simp add: rpartition_def)

lemma b64url_encode_chars: "c \<in> set (b64url_encode data) \<Longrightarrow> c < 128 \<and> c \<noteq> 46 \<and> \<not> is_space c"
proof -
  assume "c \<in> set (b64url_encode data)"
  then obtain d where d: "c = b64url_digit d" "d < 64" using bit_groups_less [of _ 6 data] by (auto simp: b64url_encode_def)
  then show ?thesis by (auto simp: b64url_digit_def is_space_def)
qed

lemma b64url_encode_length: "length (b64url_encode data) = (8 * length data + 5) div 6"
  by (simp add: b64url_encode_def bit_groups_def length_chunks)

lemma b64url_encode_Nil [simp]: "b64url_encode data = [] \<longleftrightarrow> data = []"
proof
  have "b64url_encode [] = []" by (simp add: b64url_encode_def bit_groups_def pad_bits_def)
  then show "data = [] \<Longrightarrow> b64url_encode data = []" by simp
  show "b64url_encode data = [] \<Longrightarrow> data = []"
    using \<open>b64url_encode [] = []\<close> by (metis b64url_decode_encode option.inject)
qed

lemma decode_secret_encode [simp]: "decode_secret (b64url_encode data) = Some data"
  by (auto simp: decode_secret_def is_ascii_def list_all_iff dest: b64url_encode_chars)

lemma parse_issued:
  assumes "prefix \<noteq> []" "95 \<notin> set prefix" "selector_bytes \<noteq> []" "secret \<noteq> []"
  shows "parse_api_token (it_token (issue_api_token selector_bytes secret salt prefix)) =
    Some (prefix, b64url_encode selector_bytes, secret)"
proof -
  have "rpartition 46 ((prefix @ 95 # b64url_encode selector_bytes) @ 46 # b64url_encode secret) =
      (prefix @ 95 # b64url_encode selector_bytes, b64url_encode secret)"
    by (rule rpartition_unique) (auto dest: b64url_encode_chars)
  then show ?thesis
    using assms by (simp add: parse_api_token_def issue_api_token_def Let_def partition_at_unique)
qed

text \<open>A prefix with an underscore moves the split: the selector that is read is longer than the one stored.\<close>

lemma underscore_prefix_unknown:
  assumes "95 \<in> set prefix"
  shows "token_selector (it_token (issue_api_token selector_bytes secret salt prefix)) \<noteq>
    Some (it_selector (issue_api_token selector_bytes secret salt prefix))"
proof -
  let ?sel = "b64url_encode selector_bytes"
  obtain a b where ab: "prefix = a @ 95 # b" "95 \<notin> set a" using split_list_first [OF assms] by blast
  have "rpartition 46 ((prefix @ 95 # ?sel) @ 46 # b64url_encode secret) = (prefix @ 95 # ?sel, b64url_encode secret)"
    by (rule rpartition_unique) (auto dest: b64url_encode_chars)
  moreover have "partition_at 95 (prefix @ 95 # ?sel) = (a, True, b @ 95 # ?sel)"
    using partition_at_unique [OF ab(2), of "b @ 95 # ?sel"] ab(1) by simp
  ultimately show ?thesis
    by (auto simp: token_selector_def parse_api_token_def issue_api_token_def Let_def split: if_splits dest: arg_cong [where f = length])
qed

section \<open>Exactly who passes\<close>

definition token_usable :: "int \<Rightarrow> bytes \<Rightarrow> api_token \<Rightarrow> bool" where
  "token_usable now secret row \<longleftrightarrow> sha256 (at_salt row @ secret) = at_token_hash row \<and> at_revoked_at row = None
     \<and> (case at_expires_at row of None \<Rightarrow> True | Some t \<Rightarrow> now < t)"

text \<open>The header presents, as a bearer token, a token of the row, which is the only one with its selector.\<close>

definition presents_token :: "unicode_db \<Rightarrow> int \<Rightarrow> pystr \<Rightarrow> api_token list \<Rightarrow> api_token \<Rightarrow> bool" where
  "presents_token U now header rows row \<longleftrightarrow>
     (\<exists>scheme credentials prefix secret. header = scheme @ 32 # credentials \<and> 32 \<notin> set scheme \<and> str_lower U scheme = py ''bearer''
        \<and> parse_api_token (strip credentials) = Some (prefix, at_selector row, secret)
        \<and> filter (\<lambda>r. at_selector r = at_selector row) rows = [row] \<and> token_usable now secret row)"

definition context_of :: "api_token \<Rightarrow> auth_context" where
  "context_of row = \<lparr>ac_token_id = at_id row, ac_workspace_id = at_workspace_id row, ac_scopes = at_scopes row\<rparr>"

lemma authenticate_accepts:
  "fst (authenticate U now now' header rows) = Inr auth \<longleftrightarrow> (\<exists>row. presents_token U now header rows row \<and> auth = context_of row)"
  (is "?l \<longleftrightarrow> ?r")
proof
  assume l: ?l
  obtain scheme found credentials where p: "partition_at 32 header = (scheme, found, credentials)" by (metis prod_cases3)
  from l p have b: "str_lower U scheme = py ''bearer''" "strip credentials \<noteq> []"
    by (auto simp: authenticate_def split: if_splits)
  then have "found" using partition_at_split [OF p] by (auto simp: strip_def lstrip_def rstrip_def)
  then have header: "header = scheme @ 32 # credentials" "32 \<notin> set scheme" using partition_at_split [OF p] by auto
  from l p b obtain prefix selector secret where t: "parse_api_token (strip credentials) = Some (prefix, selector, secret)"
    by (cases "parse_api_token (strip credentials)") (auto simp: authenticate_def token_selector_def Let_def)
  from l p b t obtain row where row: "filter (\<lambda>r. at_selector r = selector) rows = [row]"
    by (auto simp: authenticate_def token_selector_def Let_def split: list.splits)
  then have "row \<in> set (filter (\<lambda>r. at_selector r = selector) rows)" by simp
  then have "at_selector row = selector" by simp
  moreover have "token_usable now secret row \<and> auth = context_of row"
    using l p b t row by (auto simp: authenticate_def token_selector_def verify_api_token_def Let_def token_usable_def context_of_def
        split: if_splits option.splits)
  ultimately show ?r unfolding presents_token_def using header b t row by blast
next
  assume ?r
  then obtain scheme credentials row prefix secret where r: "header = scheme @ 32 # credentials" "32 \<notin> set scheme"
    "str_lower U scheme = py ''bearer''" "parse_api_token (strip credentials) = Some (prefix, at_selector row, secret)"
    "filter (\<lambda>r. at_selector r = at_selector row) rows = [row]" "token_usable now secret row" "auth = context_of row"
    unfolding presents_token_def by blast
  moreover have "strip credentials \<noteq> []" using r(4) by (auto simp: parse_api_token_def)
  ultimately show ?l
    by (auto simp: authenticate_def partition_at_unique token_selector_def verify_api_token_def Let_def token_usable_def context_of_def
        split: option.splits)
qed

lemma authorize_accepts:
  "fst (authorize U now now' workspace_id scope header rows) = Inr auth \<longleftrightarrow>
     (\<exists>row. presents_token U now header rows row \<and> at_workspace_id row = workspace_id
        \<and> (py scope \<in> set (at_scopes row) \<or> py ''admin'' \<in> set (at_scopes row)) \<and> auth = context_of row)"
proof -
  have "fst (authorize U now now' workspace_id scope header rows) = Inr auth \<longleftrightarrow>
      fst (authenticate U now now' header rows) = Inr auth \<and> ac_workspace_id auth = workspace_id \<and> has_scope auth (py scope)"
    by (auto simp: authorize_def require_workspace_def require_scope_def andThen_Inr_iff split: prod.split if_splits)
  then show ?thesis unfolding authenticate_accepts by (auto simp: context_of_def has_scope_def)
qed

text \<open>
  C29. A request passes the checks of a route exactly when its header presents, under the bearer scheme, a
  well-formed token whose selector belongs to one stored row, the salted hash of its secret is the stored
  one, the row is neither revoked nor expired, it belongs to the workspace of the path, and its scopes hold
  the route's or the administrator's.
\<close>

theorem route_authorized:
  "fst (authorize U now now' workspace_id scope header rows) = Inr auth \<longleftrightarrow>
     (\<exists>row. presents_token U now header rows row \<and> at_workspace_id row = workspace_id
        \<and> (py scope \<in> set (at_scopes row) \<or> py ''admin'' \<in> set (at_scopes row)) \<and> auth = context_of row)"
  by (rule authorize_accepts)

lemma strip_same: "s \<noteq> [] \<Longrightarrow> \<not> is_space (hd s) \<Longrightarrow> \<not> is_space (last s) \<Longrightarrow> strip s = s"
proof -
  assume s: "s \<noteq> []" "\<not> is_space (hd s)" "\<not> is_space (last s)"
  then have "lstrip s = s" by (cases s) (simp_all add: lstrip_def)
  moreover have "rev s \<noteq> []" "\<not> is_space (hd (rev s))" using s by (simp_all add: hd_rev)
  then have "rstrip s = s" by (simp add: rstrip_def dropWhile_eq_self_iff [THEN iffD2])
  ultimately show ?thesis by (simp add: strip_def)
qed

text \<open>The row that is persisted for an issued token.\<close>

definition row_of :: "issued_token \<Rightarrow> pystr \<Rightarrow> pystr \<Rightarrow> pystr \<Rightarrow> pystr list \<Rightarrow> int option \<Rightarrow> api_token" where
  "row_of t i workspace_id name scopes expires_at =
     \<lparr>at_id = i, at_workspace_id = workspace_id, at_name = name, at_prefix = it_prefix t, at_selector = it_selector t, at_salt = it_salt t, at_token_hash = it_token_hash t,
      at_scopes = scopes, at_expires_at = expires_at, at_revoked_at = None, at_last_used_at = None\<rparr>"

text \<open>
  C30. A token that was issued under a prefix without an underscore is accepted, for its row's workspace
  and scopes, until it expires or is revoked.
\<close>

theorem issued_token_accepted:
  assumes "t = issue_api_token selector_bytes secret salt prefix" "prefix \<noteq> []" "95 \<notin> set prefix" "\<not> is_space (hd prefix)"
    "selector_bytes \<noteq> []" "secret \<noteq> []" "str_lower U scheme = py ''bearer''" "32 \<notin> set scheme"
    "row = row_of t i workspace_id name scopes expires_at" "filter (\<lambda>r. at_selector r = it_selector t) rows = [row]"
    "case expires_at of None \<Rightarrow> True | Some e \<Rightarrow> now < e"
    "py scope \<in> set scopes \<or> py ''admin'' \<in> set scopes"
  shows "fst (authorize U now now' workspace_id scope (scheme @ 32 # it_token t) rows) = Inr (context_of row)"
proof -
  have "b64url_encode secret \<noteq> []" using assms(6) by simp
  then have "\<not> is_space (last (it_token t))"
    using b64url_encode_chars [of "last (b64url_encode secret)" secret] assms(1) by (simp add: issue_api_token_def Let_def)
  then have "strip (it_token t) = it_token t"
    using assms(1,2,4) by (intro strip_same) (simp_all add: issue_api_token_def Let_def)
  then have "parse_api_token (strip (it_token t)) = Some (prefix, at_selector row, secret)"
    using parse_issued [OF assms(2,3,5,6), of salt] assms(1,9) by (simp add: row_of_def issue_api_token_def Let_def)
  moreover have "token_usable now secret row"
    using assms(1,9,11) by (simp add: token_usable_def row_of_def issue_api_token_def Let_def)
  ultimately have "presents_token U now (scheme @ 32 # it_token t) rows row"
    using assms(7-10) by (auto simp: presents_token_def row_of_def)
  then show ?thesis
    using assms(9,12) by (subst authorize_accepts) (auto simp: row_of_def)
qed

section \<open>Credentials\<close>

definition credential_blob :: "pystr \<Rightarrow> bytes \<Rightarrow> bytes \<Rightarrow> bytes" where
  "credential_blob key_id nonce ciphertext =
     credential_magic @ [of_nat (length key_id)] @ map of_nat key_id @ nonce @ ciphertext"

lemma unat_of_nat_byte: "n < 256 \<Longrightarrow> unat (of_nat n :: byte) = n"
  by simp

lemma map_unat_of_nat: "is_ascii s \<Longrightarrow> map unat (map of_nat s :: bytes) = s"
  by (induction s) (auto simp: is_ascii_def)

lemma decrypt_blob:
  assumes "is_ascii key_id" "length key_id \<le> 255" "length nonce = 12" "ciphertext \<noteq> []"
  shows "decrypt_credential A S (credential_blob key_id nonce ciphertext) =
    (case require_encryption_key S key_id of
       None \<Rightarrow> Inl (Undecryptable ''no encryption key configured for key id'')
     | Some key \<Rightarrow>
         (case decode_key_material key of
            None \<Rightarrow> Inl BadKeyMaterial
          | Some key_bytes \<Rightarrow>
              (case unseal A key_bytes nonce ciphertext of
                 None \<Rightarrow> Inl (Undecryptable ''credential ciphertext failed authentication'')
               | Some plaintext \<Rightarrow> Inr plaintext)))"
proof -
  let ?blob = "credential_blob key_id nonce ciphertext"
  have four: "?blob ! 4 = of_nat (length key_id)" by (simp add: credential_blob_def credential_magic_def numeral_eq_Suc)
  have n: "unat (?blob ! 4) = length key_id" unfolding four using assms(2) by (simp add: unat_of_nat_byte)
  have five: "drop 5 ?blob = map of_nat key_id @ nonce @ ciphertext" by (simp add: credential_blob_def credential_magic_def numeral_eq_Suc)
  have shift: "drop (5 + length key_id + k) ?blob = drop k (nonce @ ciphertext)" for k
  proof -
    have "drop (5 + length key_id + k) ?blob = drop k (drop (length key_id) (drop 5 ?blob))"
      by (simp only: drop_drop ac_simps)
    then show ?thesis unfolding five by simp
  qed
  have rest: "drop (5 + length key_id) ?blob = nonce @ ciphertext" "drop (5 + length key_id + NONCE_BYTES) ?blob = ciphertext"
    using shift [of 0] shift [of NONCE_BYTES] assms(3) by (simp_all add: NONCE_BYTES_def)
  moreover have nonce: "take NONCE_BYTES (nonce @ ciphertext) = nonce" using assms(3) by (simp add: NONCE_BYTES_def)
  ultimately have parts: "take NONCE_BYTES (drop (5 + length key_id) ?blob) = nonce"
    "drop (5 + length key_id + NONCE_BYTES) ?blob = ciphertext" by simp_all
  show ?thesis
    using assms map_unat_of_nat [OF assms(1)]
    unfolding decrypt_credential_def Let_def n five parts
    by (simp add: NONCE_BYTES_def) (simp add: credential_blob_def credential_magic_def)
qed

text \<open>
  C31. A stored credential decrypts to what was encrypted under any later configuration that still has its
  key: rotating in a new key needs no migration.
\<close>

theorem credential_survives_rotation:
  assumes "encrypt_credential A nonce S plaintext = Inr (blob, key_id)" "aead_ok A" "length nonce = NONCE_BYTES"
    and "require_encryption_key S' key_id = require_encryption_key S key_id"
  shows "decrypt_credential A S' blob = Inr plaintext"
proof -
  from assms(1) obtain key kb where k: "current_encryption_key S = Some (key_id, key)" "decode_key_material key = Some kb"
    "is_ascii key_id" "length key_id \<le> 255" "blob = credential_blob key_id nonce (seal A kb nonce plaintext)"
    by (auto simp: encrypt_credential_def credential_blob_def Let_def split: option.splits if_splits)
  moreover have "require_encryption_key S key_id = Some key"
    using k(1) by (auto simp: current_encryption_key_def require_encryption_key_def split: option.splits)
  ultimately show ?thesis
    using assms(2-4) by (subst k(5), subst decrypt_blob) (auto simp: aead_ok_def NONCE_BYTES_def)
qed

text \<open>What a blob that decrypts looks like.\<close>

theorem credential_decrypted:
  assumes "decrypt_credential A S blob = Inr plaintext"
  shows "\<exists>key_id nonce ciphertext key kb. blob = credential_blob key_id nonce ciphertext \<and> length nonce = NONCE_BYTES
    \<and> require_encryption_key S key_id = Some key \<and> decode_key_material key = Some kb \<and> unseal A kb nonce ciphertext = Some plaintext"
proof -
  let ?n = "unat (blob ! 4)" and ?k = "\<lambda>n. map unat (take n (drop 5 blob))"
  let ?nonce = "take NONCE_BYTES (drop (5 + ?n) blob)" and ?c = "drop (5 + ?n + NONCE_BYTES) blob"
  have d: "take 4 blob = credential_magic" "4 < length blob" "length ?nonce = NONCE_BYTES"
    using assms by (auto simp: decrypt_credential_def Let_def split: if_splits)
  have "\<exists>key kb. require_encryption_key S (?k ?n) = Some key \<and> decode_key_material key = Some kb \<and> unseal A kb ?nonce ?c = Some plaintext"
    using assms by (auto simp: decrypt_credential_def Let_def split: if_splits option.splits)
  moreover have "blob = credential_blob (?k ?n) ?nonce ?c"
  proof -
    have "blob = take 4 blob @ blob ! 4 # drop 5 blob"
      using id_take_nth_drop [OF d(2)] by (simp add: eval_nat_numeral)
    moreover have "drop 5 blob = take ?n (drop 5 blob) @ drop (5 + ?n) blob"
      by (metis append_take_drop_id drop_drop add.commute)
    moreover have "drop (5 + ?n) blob = ?nonce @ ?c"
      by (metis append_take_drop_id drop_drop add.commute)
    moreover have "length (?k ?n) = ?n"
      using d(3) by (auto simp: NONCE_BYTES_def min_def split: if_splits)
    moreover have "map of_nat (?k ?n) = take ?n (drop 5 blob)" by (simp add: comp_def)
    moreover have "of_nat ?n = blob ! 4" by simp
    ultimately show ?thesis unfolding credential_blob_def d(1) [symmetric] by (metis append_Cons append_Nil)
  qed
  ultimately show ?thesis using d(3) by blast
qed

section \<open>The log\<close>

lemma check_metadata_ok:
  "check_metadata m = Inr () \<longleftrightarrow> (case m of None \<Rightarrow> True | Some d \<Rightarrow> list_all (\<lambda>(k, v). \<not> forbidden_key k) d)"
proof (cases m)
  case (Some d)
  have "find (\<lambda>(k, v). forbidden_key k) d = None \<longleftrightarrow> list_all (\<lambda>(k, v). \<not> forbidden_key k) d"
    by (induction d) auto
  then show ?thesis by (auto simp: Some check_metadata_def split: option.splits)
qed (simp add: check_metadata_def)

text \<open>Every event is appended, and none is changed or removed; one whose metadata names a secret is refused.\<close>

lemma audit_append_only:
  "snd (record_event event events) = events @ (if check_metadata (ae_metadata event) = Inr () then [event] else [])"
  by (simp add: record_event_def split: sum.splits)

text \<open>Any 32 bytes are accepted as a key in their URL-safe form without padding.\<close>

lemma b64_strict_chars:
  assumes "list_all (\<lambda>c. c \<notin> {61, 45, 95} \<and> b64_value c \<noteq> None) ds" "q < 4"
  shows "b64_strict q p False (ds @ rest) =
    map_option ((@) (map (the \<circ> b64_value) ds)) (b64_strict ((q + length ds) mod 4) (if ds = [] then p else 0) False rest)"
  using assms
proof (induction ds arbitrary: q p)
  case Nil
  then show ?case by (cases "b64_strict q p False rest") auto
next
  case (Cons d ds)
  then obtain v where "b64_value d = Some v" by auto
  moreover have "(Suc q mod 4 + length ds) mod 4 = (q + length (d # ds)) mod 4" by (simp add: mod_add_left_eq)
  ultimately show ?case using Cons.IH [of "Suc q mod 4" 0] Cons.prems by (simp add: option.map_comp comp_def)
qed

lemma decode_encoded_key:
  assumes "length kb = 32"
  shows "decode_key_material (b64url_encode kb) = Some kb"
proof -
  let ?e = "b64url_encode kb"
  have len: "length ?e = 43" using assms b64url_encode_length [of kb] by simp
  then have "?e \<noteq> []" by (metis list.size(3) zero_neq_numeral)
  then have s: "strip ?e = ?e"
    using b64url_encode_chars [of "hd ?e" kb] b64url_encode_chars [of "last ?e" kb] by (intro strip_same) simp_all
  have digit: "standard_char (b64url_digit d) \<notin> {61, 45, 95} \<and> b64_value (standard_char (b64url_digit d)) = Some d" if "d < 64" for d
    using that by (auto simp: standard_char_def b64url_digit_def b64_value_def b64url_value_def)
  have groups: "d \<in> set (bit_groups 6 kb) \<Longrightarrow> d < 64" for d using bit_groups_less [of d 6 kb] by simp
  have ok: "list_all (\<lambda>c. c \<notin> {61, 45, 95} \<and> b64_value c \<noteq> None) (map standard_char ?e)"
    using digit groups by (auto simp: b64url_encode_def list_all_iff)
  have "map (the \<circ> b64_value) (map standard_char ?e) = bit_groups 6 kb"
    using digit groups by (auto simp: b64url_encode_def intro!: map_idI)
  with b64_strict_chars [OF ok, of 0 0 "[61]"] len
  have "b64_strict 0 0 False (map standard_char ?e @ [61]) = Some (bit_groups 6 kb)" using \<open>?e \<noteq> []\<close> by simp
  moreover have "map standard_char ?e \<noteq> []" "hd (map standard_char ?e @ [61]) \<noteq> 61"
    using \<open>?e \<noteq> []\<close> ok by (cases ?e; auto)+
  ultimately have "b64_validated (map standard_char ?e @ [61]) = Some kb"
    by (simp add: b64_validated_def group_bytes_bit_groups)
  then show ?thesis using assms len by (simp add: decode_key_material_def Let_def s standard_char_def)
qed

section \<open>Concrete cases\<close>

definition sample_aead :: aead where
  "sample_aead = \<lparr>seal = \<lambda>key nonce data. 0 # data, unseal = \<lambda>key nonce ciphertext. Some (tl ciphertext)\<rparr>"

definition sample_key :: pystr where
  "sample_key = b64url_encode (replicate 32 7)"

definition sample_settings :: server_settings where
  "sample_settings = \<lparr>ts_allow_private_targets = False, ts_private_target_cidrs = [], st_app_env = Development,
     st_session_secret = None, st_api_token_prefix = py ''rlk'', st_source_root_allowed_bases = [],
     st_raw_source_retention_mode = Retain, st_raw_source_retention_days = None, st_manifest_signing_key_file = None,
     st_connect_timeout = 10, st_read_timeout = 60,
     st_encryption_keys = [(py ''v1'', sample_key)], st_encryption_key_current_id = Some (py ''v1'')\<rparr>"

lemma sample_key_bytes: "decode_key_material sample_key = Some (replicate 32 7)"
  by (simp add: sample_key_def decode_encoded_key)

lemma sample_encrypts:
  "encrypt_credential sample_aead (replicate 12 7) sample_settings [1, 2] =
    Inr (credential_blob (py ''v1'') (replicate 12 7) [0, 1, 2], py ''v1'')"
  by (simp add: encrypt_credential_def current_encryption_key_def sample_settings_def sample_key_bytes sample_aead_def is_ascii_def
      credential_blob_def py_def)

theorem credential_survives_rotation_witness:
  "decrypt_credential sample_aead
     (sample_settings\<lparr>st_encryption_keys := [(py ''v1'', sample_key), (py ''v2'', sample_key)], st_encryption_key_current_id := Some (py ''v2'')\<rparr>)
     (credential_blob (py ''v1'') (replicate 12 7) [0, 1, 2]) = Inr [1, 2]"
  by (rule credential_survives_rotation [OF sample_encrypts])
     (simp_all add: aead_ok_def sample_aead_def NONCE_BYTES_def require_encryption_key_def sample_settings_def)

theorem issued_token_accepted_witness:
  "let t = issue_api_token [1] [2] [3] (py ''rlk''); row = row_of t (py ''t1'') (py ''w'') (py ''n'') [py ''builds''] (Some 10) in
   fst (authorize plain_unicode 9 9 (py ''w'') ''builds'' (py ''bearer'' @ 32 # it_token t) [row]) = Inr (context_of row)"
  unfolding Let_def
  by (rule issued_token_accepted [OF refl, where prefix = "py ''rlk''" and scopes = "[py ''builds'']" and expires_at = "Some 10" and i = "py ''t1''" and name = "py ''n''"])
     (simp_all add: plain_unicode_def is_space_def row_of_def, simp_all add: py_def is_space_def)

end
