(* ===== verification/Target_Config.thy ===== *)
theory Target_Config
  imports Connectors Py_Url
begin

text \<open>
  \<open>ragledger.connectors.config\<close>: the target configurations and their validators, the credential
  lookup by variable name, and the preflight. A configuration is built from values of the fields'
  types; the result is the validated configuration or the names of the fields that fail (pydantic's
  \<open>ValidationError\<close>). A pattern that ends in \<open>$\<close> also matches before a final newline.
\<close>

section \<open>Patterns\<close>

definition chomp :: "pystr \<Rightarrow> pystr" where
  "chomp s = (if s \<noteq> [] \<and> last s = 10 then butlast s else s)"

definition ident_start :: "codepoint \<Rightarrow> bool" where
  "ident_start c \<longleftrightarrow> is_letter c \<or> c = 95"

definition ident_char :: "codepoint \<Rightarrow> bool" where
  "ident_char c \<longleftrightarrow> ident_start c \<or> is_digit c"

definition is_word_name :: "pystr \<Rightarrow> bool" where
  "is_word_name s \<longleftrightarrow> s \<noteq> [] \<and> ident_start (hd s) \<and> list_all ident_char (tl s)"

definition identifier_match :: "pystr \<Rightarrow> bool" where
  "identifier_match s \<longleftrightarrow> is_word_name (chomp s) \<and> length (chomp s) \<le> 63"

definition payload_path_match :: "pystr \<Rightarrow> bool" where
  "payload_path_match s \<longleftrightarrow> list_all is_word_name (split_char 46 (chomp s))"

definition env_var_match :: "pystr \<Rightarrow> bool" where
  "env_var_match s \<longleftrightarrow> is_word_name (chomp s)"

section \<open>Credentials\<close>

definition resolve_env_credential :: "platform \<Rightarrow> (pystr \<Rightarrow> pystr option) \<Rightarrow> pystr \<Rightarrow> connector_error + pystr" where
  "resolve_env_credential L env name =
     (if \<not> env_var_match name then Inl (ConnectorConfigError (py ''not a valid environment variable name: '' @ repr_str L name))
      else if \<not> truthy (env name)
      then Inl (ConnectorConfigError (py ''environment variable '' @ repr_str L name @ py '' is not set''))
      else Inr (the (env name)))"

definition resolve_optional_credential ::
  "platform \<Rightarrow> (pystr \<Rightarrow> pystr option) \<Rightarrow> pystr option \<Rightarrow> connector_error + pystr option" where
  "resolve_optional_credential L env name =
     (case name of None \<Rightarrow> Inr None | Some n \<Rightarrow> andThen (resolve_env_credential L env n) (\<lambda>v. Inr (Some v)))"

section \<open>Mappings\<close>

text \<open>The six identity fields, mapped to payload paths (Qdrant) or columns (pgvector).\<close>

record field_mapping =
  fm_source_id :: "pystr option"
  fm_source_version_id :: "pystr option"
  fm_chunk_id :: "pystr option"
  fm_embedding_id :: "pystr option"
  fm_tenant :: "pystr option"
  fm_acl :: "pystr option"

definition mapping_fields :: "field_mapping \<Rightarrow> (string \<times> pystr option) list" where
  "mapping_fields m =
     [(''source_id'', fm_source_id m), (''source_version_id'', fm_source_version_id m), (''chunk_id'', fm_chunk_id m),
      (''embedding_id'', fm_embedding_id m), (''tenant'', fm_tenant m), (''acl'', fm_acl m)]"

definition configured_items :: "field_mapping \<Rightarrow> (string \<times> pystr) list" where
  "configured_items m = concat (map (\<lambda>(name, column). case column of None \<Rightarrow> [] | Some c \<Rightarrow> [(name, c)]) (mapping_fields m))"

text \<open>The fields whose value the pattern does not match.\<close>

definition invalid_mapping_fields :: "(pystr \<Rightarrow> bool) \<Rightarrow> field_mapping \<Rightarrow> string list" where
  "invalid_mapping_fields matches m = map fst (filter (\<lambda>(name, value). \<not> matches value) (configured_items m))"

section \<open>Qdrant\<close>

record qdrant_config =
  qc_endpoint :: pystr
  qc_collection :: pystr
  qc_api_key_env :: "pystr option"
  qc_vector_name :: "pystr option"
  qc_payload_mapping :: field_mapping
  qc_include_vectors :: bool
  qc_page_size :: int
  qc_embedding_dimension :: "int option"
  qc_connect_timeout_seconds :: float64
  qc_read_timeout_seconds :: float64
  qc_max_retries :: int

definition validate_endpoint :: "net_env \<Rightarrow> pystr \<Rightarrow> pystr option" where
  "validate_endpoint N endpoint =
     (case urlsplit N endpoint of
        None \<Rightarrow> None
      | Some parts \<Rightarrow>
          if sr_scheme parts \<notin> {py ''http'', py ''https''} then None
          else if hostname N parts = None then None
          else if has_credentials parts then None
          else if sr_query parts \<noteq> [] then None
          else if sr_fragment parts \<noteq> [] then None
          else Some (sr_scheme parts @ py ''://'' @ sr_netloc parts @ rev (dropWhile (\<lambda>c. c = 47) (rev (sr_path parts)))))"

definition check :: "string \<Rightarrow> bool \<Rightarrow> string list" where
  "check name ok = (if ok then [] else [name])"

definition optional_ge :: "int \<Rightarrow> int option \<Rightarrow> bool" where
  "optional_ge n v = (case v of None \<Rightarrow> True | Some i \<Rightarrow> n \<le> i)"

definition validate_qdrant_config :: "net_env \<Rightarrow> qdrant_config \<Rightarrow> string list + qdrant_config" where
  "validate_qdrant_config N c =
     (let endpoint = (if qc_endpoint c = [] then None else validate_endpoint N (qc_endpoint c));
          bad = check ''endpoint'' (endpoint \<noteq> None)
            @ check ''collection'' (qc_collection c \<noteq> [] \<and> length (qc_collection c) \<le> 255 \<and> identifier_match (qc_collection c))
            @ check ''api_key_env'' (case qc_api_key_env c of None \<Rightarrow> True | Some v \<Rightarrow> env_var_match v)
            @ invalid_mapping_fields payload_path_match (qc_payload_mapping c)
            @ check ''page_size'' (1 \<le> qc_page_size c \<and> qc_page_size c \<le> 10000)
            @ check ''embedding_dimension'' (optional_ge 1 (qc_embedding_dimension c))
            @ check ''connect_timeout_seconds'' (0 < qc_connect_timeout_seconds c)
            @ check ''read_timeout_seconds'' (0 < qc_read_timeout_seconds c)
            @ check ''max_retries'' (0 \<le> qc_max_retries c \<and> qc_max_retries c \<le> 10)
      in if bad = [] then Inr (c\<lparr>qc_endpoint := the endpoint\<rparr>) else Inl bad)"

section \<open>pgvector\<close>

datatype where_value = WhereScalar json | WhereList "json list"

datatype consistency_setting = RepeatableRead | BestEffortPaged

record pgvector_config =
  pc_dsn_env :: pystr
  pc_schema_name :: pystr
  pc_table :: pystr
  pc_primary_key :: "pystr list"
  pc_vector_column :: pystr
  pc_mapping :: field_mapping
  pc_where :: "(pystr \<times> where_value) list"
  pc_fetch_size :: int
  pc_consistency :: consistency_setting
  pc_statement_timeout_ms :: int
  pc_embedding_dimension :: "int option"
  pc_connect_timeout_seconds :: float64
  pc_max_connect_retries :: int

definition where_ok :: "pystr \<times> where_value \<Rightarrow> bool" where
  "where_ok w \<longleftrightarrow> identifier_match (fst w) \<and> snd w \<noteq> WhereList []"

text \<open>The model validator runs when every field is valid.\<close>

definition validate_pgvector_config :: "pgvector_config \<Rightarrow> string list + pgvector_config" where
  "validate_pgvector_config c =
     (let bad = check ''dsn_env'' (env_var_match (pc_dsn_env c))
            @ check ''schema'' (identifier_match (pc_schema_name c))
            @ check ''table'' (identifier_match (pc_table c))
            @ check ''primary_key'' (pc_primary_key c \<noteq> [] \<and> list_all identifier_match (pc_primary_key c))
            @ check ''vector_column'' (identifier_match (pc_vector_column c))
            @ invalid_mapping_fields identifier_match (pc_mapping c)
            @ check ''where'' (list_all where_ok (pc_where c))
            @ check ''fetch_size'' (1 \<le> pc_fetch_size c \<and> pc_fetch_size c \<le> 100000)
            @ check ''statement_timeout_ms'' (1 \<le> pc_statement_timeout_ms c \<and> pc_statement_timeout_ms c \<le> 3600000)
            @ check ''embedding_dimension'' (optional_ge 1 (pc_embedding_dimension c))
            @ check ''connect_timeout_seconds'' (0 < pc_connect_timeout_seconds c)
            @ check ''max_connect_retries'' (0 \<le> pc_max_connect_retries c \<and> pc_max_connect_retries c \<le> 10)
      in if bad \<noteq> [] then Inl bad
         else if pc_vector_column c \<in> set (pc_primary_key c) then Inl [''primary_key'']
         else Inr c)"

section \<open>Preflight\<close>

record connection_test_result =
  ct_ok :: bool
  ct_message :: pystr
  ct_latency_ms :: "float64 option"

text \<open>The three operations of a connector that a preflight calls.\<close>

record probe =
  pb_validate_configuration :: "connector_error + unit"
  pb_test_connection :: "connector_error + connection_test_result"
  pb_inspect_target_schema :: "connector_error + target_schema"

record preflight_result =
  pf_reachable :: bool
  pf_auth_ok :: bool
  pf_schema :: "target_schema option"
  pf_expected_dimension :: "int option"
  pf_observed_dimension :: "int option"
  pf_dimension_match :: "bool option"
  pf_message :: pystr

definition preflight_verdict :: "connection_test_result \<Rightarrow> target_schema \<Rightarrow> int option \<Rightarrow> pystr option \<Rightarrow> preflight_result" where
  "preflight_verdict connection schema expected_dimension vector_name =
     (let observed = map_option vf_dimension (vector_field schema vector_name);
          verdict = (case expected_dimension of
             None \<Rightarrow> (None, ct_message connection)
           | Some e \<Rightarrow>
               (case observed of
                  None \<Rightarrow> (Some False, ct_message connection @ py ''; expected embedding dimension '' @ show_int e
                             @ py '' but the target''@ [39] @ py ''s vector field could not be resolved'')
                | Some o' \<Rightarrow>
                    if o' = e then (Some True, ct_message connection)
                    else (Some False, ct_message connection @ py ''; embedding dimension mismatch: expected '' @ show_int e
                            @ py '', target reports '' @ show_int o')))
      in \<lparr>pf_reachable = True, pf_auth_ok = True, pf_schema = Some schema, pf_expected_dimension = expected_dimension,
          pf_observed_dimension = observed, pf_dimension_match = fst verdict, pf_message = snd verdict\<rparr>)"

definition run_preflight :: "probe \<Rightarrow> int option \<Rightarrow> pystr option \<Rightarrow> connector_error + preflight_result" where
  "run_preflight connector expected_dimension vector_name =
     andThen (pb_validate_configuration connector) (\<lambda>_.
     andThen (pb_test_connection connector) (\<lambda>connection.
       if \<not> ct_ok connection
       then Inr \<lparr>pf_reachable = False, pf_auth_ok = False, pf_schema = None, pf_expected_dimension = expected_dimension,
                 pf_observed_dimension = None, pf_dimension_match = None, pf_message = ct_message connection\<rparr>
       else andThen (pb_inspect_target_schema connector)
              (\<lambda>schema. Inr (preflight_verdict connection schema expected_dimension vector_name))))"

section \<open>What validation leaves\<close>

lemma check_Nil [simp]: "check name ok = [] \<longleftrightarrow> ok"
  by (simp add: check_def)

lemma invalid_mapping_fields_Nil: "invalid_mapping_fields matches m = [] \<longleftrightarrow> list_all (\<lambda>i. matches (snd i)) (configured_items m)"
  by (auto simp: invalid_mapping_fields_def filter_empty_conv list_all_iff)

text \<open>The characters of an identifier: neither a quote nor white space but a final newline.\<close>

definition plain_name :: "pystr \<Rightarrow> bool" where
  "plain_name s \<longleftrightarrow> s \<noteq> [] \<and> list_all (\<lambda>c. ident_char c \<or> c = 10) s"

lemma word_name_chars: "is_word_name s \<Longrightarrow> list_all ident_char s"
  by (cases s) (simp_all add: is_word_name_def ident_char_def)

lemma identifier_match_plain: "identifier_match s \<Longrightarrow> plain_name s"
proof -
  assume "identifier_match s"
  then have "list_all ident_char (chomp s)" "chomp s \<noteq> []"
    by (simp_all add: identifier_match_def word_name_chars is_word_name_def)
  then show ?thesis
    by (cases s rule: rev_cases) (auto simp: plain_name_def chomp_def list_all_iff split: if_splits)
qed

definition valid_pgvector :: "pgvector_config \<Rightarrow> bool" where
  "valid_pgvector c \<longleftrightarrow> plain_name (pc_schema_name c) \<and> plain_name (pc_table c) \<and> pc_primary_key c \<noteq> []
     \<and> list_all plain_name (pc_primary_key c) \<and> plain_name (pc_vector_column c)
     \<and> list_all (\<lambda>i. plain_name (snd i)) (configured_items (pc_mapping c)) \<and> list_all (\<lambda>w. plain_name (fst w)) (pc_where c)
     \<and> pc_vector_column c \<notin> set (pc_primary_key c)"

lemma validate_pgvector_config_sound:
  assumes "validate_pgvector_config c = Inr c'"
  shows "c' = c \<and> valid_pgvector c"
  using assms
  by (auto simp: validate_pgvector_config_def Let_def valid_pgvector_def invalid_mapping_fields_Nil where_ok_def
      intro: identifier_match_plain elim!: list.pred_mono_strong split: if_splits)

end
