(* ===== verification/Qdrant.thy ===== *)
theory Qdrant
  imports Target_Config
begin

text \<open>
  \<open>ragledger.connectors.qdrant\<close>: the request guard, the retries, the schema, the normalisation of a
  raw point and the scroll over a collection. The server is a parameter with a state of its own:
  for a request it gives a transport error or a response, whose JSON body \<open>httpx\<close> has parsed.
  A response that has not the shape of Qdrant's API raises where the code indexes into it
  (\<open>BadResponse\<close>); a point that \<open>NormalizedPoint\<close> does not accept raises \<open>PointInvalid\<close>.
\<close>

section \<open>The guard\<close>

record request =
  rq_method :: string
  rq_asked :: pystr
  rq_path :: pystr
  rq_body :: "json option"

definition collection_info_match :: "pystr \<Rightarrow> bool" where
  "collection_info_match path \<longleftrightarrow>
     take 13 path = py ''/collections/'' \<and> drop 13 path \<noteq> [] \<and> 47 \<notin> set (drop 13 path)"

definition scroll_match :: "pystr \<Rightarrow> bool" where
  "scroll_match path \<longleftrightarrow>
     (let p = chomp path; s = drop 13 p; name = takeWhile (\<lambda>c. c \<noteq> 47) s in
      take 13 p = py ''/collections/'' \<and> name \<noteq> [] \<and> drop (length name) s = py ''/points/scroll'')"

definition is_allowed_request :: "string \<Rightarrow> pystr \<Rightarrow> bool" where
  "is_allowed_request method path =
     (if method = ''GET'' then collection_info_match path \<or> path \<in> {py ''/aliases'', [], py ''/''}
      else if method = ''POST'' then scroll_match path
      else False)"

definition guard_request :: "request \<Rightarrow> connector_error + unit" where
  "guard_request rq =
     (if is_allowed_request (rq_method rq) (rq_path rq) then Inr ()
      else Inl (ConnectorMutationBlockedError
        (py ''blocked non-read Qdrant request: '' @ py (rq_method rq) @ py '' '' @ rq_path rq)))"

section \<open>Requests\<close>

record http_response =
  hr_status :: nat
  hr_json :: "json option"
  hr_text :: pystr

datatype qdrant_error = Raised connector_error | BadResponse | PointInvalid

type_synonym 's server = "request \<Rightarrow> 's \<Rightarrow> (pystr + http_response) \<times> 's"

text \<open>
  \<open>_request\<close>: the guard runs before each attempt; transport errors and server errors are tried
  again, \<open>max_retries\<close> times at most. The path is that of the endpoint followed by the one asked for.
\<close>

function request_loop :: "'s server \<Rightarrow> nat \<Rightarrow> request \<Rightarrow> nat \<Rightarrow> 's \<Rightarrow> (connector_error + http_response) \<times> 's" where
  "request_loop send max_retries rq attempt s =
     (case guard_request rq of
        Inl e \<Rightarrow> (Inl e, s)
      | Inr _ \<Rightarrow>
          (case send rq s of
             (Inl e, s') \<Rightarrow>
               if attempt + 1 > max_retries
               then (Inl (ConnectorConnectionError (py (rq_method rq) @ py '' '' @ rq_asked rq @ py '' failed after ''
                       @ show_nat (attempt + 1) @ py '' attempt(s): '' @ e)), s')
               else request_loop send max_retries rq (attempt + 1) s'
           | (Inr r, s') \<Rightarrow>
               if 500 \<le> hr_status r \<and> attempt < max_retries then request_loop send max_retries rq (attempt + 1) s'
               else (Inr r, s')))"
  by pat_completeness auto
termination
  by (relation "measure (\<lambda>(send, max_retries, rq, attempt, s). max_retries - attempt)") auto

declare request_loop.simps [simp del]

text \<open>A connector: its configuration, the path of its endpoint, and what it caches.\<close>

record qdrant_connector =
  qn_config :: qdrant_config
  qn_base_path :: pystr
  qn_schema_cache :: "target_schema option"
  qn_consistency :: "consistency_info option"

definition qdrant_connector_of :: "net_env \<Rightarrow> qdrant_config \<Rightarrow> qdrant_connector option" where
  "qdrant_connector_of N config =
     map_option (\<lambda>parts. \<lparr>qn_config = config, qn_base_path = sr_path parts, qn_schema_cache = None, qn_consistency = None\<rparr>)
       (urlsplit N (qc_endpoint config))"

definition qdrant_request ::
  "'s server \<Rightarrow> qdrant_connector \<Rightarrow> string \<Rightarrow> pystr \<Rightarrow> json option \<Rightarrow> 's \<Rightarrow> (connector_error + http_response) \<times> 's" where
  "qdrant_request send c method path body s =
     request_loop send (nat (qc_max_retries (qn_config c)))
       \<lparr>rq_method = method, rq_asked = path, rq_path = qn_base_path c @ path, rq_body = body\<rparr> 0 s"

definition collection_path :: "qdrant_connector \<Rightarrow> pystr" where
  "collection_path c = py ''/collections/'' @ qc_collection (qn_config c)"

definition scroll_path :: "qdrant_connector \<Rightarrow> pystr" where
  "scroll_path c = collection_path c @ py ''/points/scroll''"

section \<open>JSON values of a response\<close>

definition json_truthy :: "json \<Rightarrow> bool" where
  "json_truthy v =
     (case v of JNull \<Rightarrow> False | JBool b \<Rightarrow> b | JInt i \<Rightarrow> i \<noteq> 0 | JFloat x \<Rightarrow> x \<noteq> 0 | JStr s \<Rightarrow> s \<noteq> [] | JList vs \<Rightarrow> vs \<noteq> []
      | JObj d \<Rightarrow> d \<noteq> [])"

text \<open>\<open>d.get(k, {}) or {}\<close>, then used as a dictionary.\<close>

definition sub_object :: "dict \<Rightarrow> string \<Rightarrow> qdrant_error + dict" where
  "sub_object d k =
     (let v = jget d k in if \<not> json_truthy v then Inr [] else (case v of JObj d' \<Rightarrow> Inr d' | _ \<Rightarrow> Inl BadResponse))"

definition sub_list :: "dict \<Rightarrow> string \<Rightarrow> qdrant_error + json list" where
  "sub_list d k =
     (let v = jget d k in if \<not> json_truthy v then Inr [] else (case v of JList vs \<Rightarrow> Inr vs | _ \<Rightarrow> Inl BadResponse))"

definition body_object :: "http_response \<Rightarrow> qdrant_error + dict" where
  "body_object r = (case hr_json r of Some (JObj d) \<Rightarrow> Inr d | _ \<Rightarrow> Inl BadResponse)"

text \<open>A point count is an integer or null.\<close>

definition as_count :: "json \<Rightarrow> int option" where
  "as_count v = (case v of JInt n \<Rightarrow> Some n | _ \<Rightarrow> None)"

definition as_text :: "json \<Rightarrow> pystr option" where
  "as_text v = (case v of JStr s \<Rightarrow> Some s | _ \<Rightarrow> None)"

text \<open>\<open>int(size)\<close>.\<close>

definition int_of :: "json \<Rightarrow> qdrant_error + int" where
  "int_of v =
     (case v of
        JInt n \<Rightarrow> Inr n
      | JBool b \<Rightarrow> Inr (if b then 1 else 0)
      | JFloat x \<Rightarrow> Inr (if x < 0 then \<lceil>x\<rceil> else \<lfloor>x\<rfloor>)
      | JStr s \<Rightarrow> if all_digits s then Inr (int (read_digits 0 s)) else Inl BadResponse
      | _ \<Rightarrow> Inl BadResponse)"

definition vector_field_of :: "pystr \<Rightarrow> dict \<Rightarrow> qdrant_error + vector_field_schema" where
  "vector_field_of name params =
     andThen (int_of (jget params ''size''))
       (\<lambda>n. Inr \<lparr>vf_name = name, vf_dimension = n, vf_distance = as_text (jget params ''distance'')\<rparr>)"

definition has_size :: "dict \<Rightarrow> bool" where
  "has_size d \<longleftrightarrow> map_of d (py ''size'') \<noteq> None"

definition parse_vector_fields :: "json \<Rightarrow> qdrant_error + vector_field_schema list" where
  "parse_vector_fields v =
     (case v of
        JObj d \<Rightarrow>
          if has_size d then andThen (vector_field_of [] d) (\<lambda>f. Inr [f])
          else andThen (collect (map (\<lambda>(name, params). case params of
                   JObj p \<Rightarrow> if has_size p then andThen (vector_field_of name p) (\<lambda>f. Inr [f]) else Inr []
                 | _ \<Rightarrow> Inr []) d)) (\<lambda>fs. Inr (concat fs))
      | _ \<Rightarrow> Inr [])"

section \<open>Schema\<close>

text \<open>A call that goes on with a response, or raises.\<close>

definition with_response ::
  "(connector_error + http_response) \<times> 's \<Rightarrow> (http_response \<Rightarrow> qdrant_error + 'a) \<Rightarrow> (qdrant_error + 'a) \<times> 's" where
  "with_response r k = (case r of (Inl e, s) \<Rightarrow> (Inl (Raised e), s) | (Inr resp, s) \<Rightarrow> (k resp, s))"

definition alias_of :: "platform \<Rightarrow> pystr \<Rightarrow> json list \<Rightarrow> qdrant_error + pystr option" where
  "alias_of L collection entries =
     (case find (\<lambda>e. case e of JObj d \<Rightarrow> jget d ''alias_name'' = JStr collection | _ \<Rightarrow> True) entries of
        None \<Rightarrow> Inr None
      | Some (JObj d) \<Rightarrow> (case jget d ''collection_name'' of JNull \<Rightarrow> Inr None | v \<Rightarrow> Inr (Some (py_str L v)))
      | Some _ \<Rightarrow> Inl BadResponse)"

definition resolve_alias :: "platform \<Rightarrow> 's server \<Rightarrow> qdrant_connector \<Rightarrow> 's \<Rightarrow> (qdrant_error + pystr option) \<times> 's" where
  "resolve_alias L send c s =
     (case qdrant_request send c ''GET'' (py ''/aliases'') None s of
        (Inl (ConnectorConnectionError m), s') \<Rightarrow> (Inr None, s')
      | r \<Rightarrow> with_response r (\<lambda>resp.
          if 400 \<le> hr_status resp then Inr None
          else andThen (body_object resp) (\<lambda>body.
               case map_of body (py ''result'') of
                 None \<Rightarrow> Inr None
               | Some (JObj result) \<Rightarrow> andThen (sub_list result ''aliases'') (alias_of L (qc_collection (qn_config c)))
               | Some _ \<Rightarrow> Inl BadResponse)))"

definition vector_fields_of_result :: "dict \<Rightarrow> qdrant_error + vector_field_schema list" where
  "vector_fields_of_result result =
     andThen (sub_object result ''config'') (\<lambda>config_section.
     andThen (sub_object config_section ''params'') (\<lambda>params. parse_vector_fields (jget params ''vectors'')))"

definition schema_of_result ::
  "qdrant_connector \<Rightarrow> dict \<Rightarrow> vector_field_schema list \<Rightarrow> pystr option \<Rightarrow> qdrant_error + target_schema" where
  "schema_of_result c result vfs resolved =
     andThen (sub_object result ''payload_schema'') (\<lambda>payload_schema.
       Inr \<lparr>ts_target_id = qc_collection (qn_config c), ts_scope = qc_collection (qn_config c), ts_vector_fields = vfs,
            ts_point_id_type = py ''string_or_integer'', ts_payload_indexes = sort (map fst payload_schema),
            ts_approx_point_count = as_count (jget result ''points_count''), ts_resolved_scope = resolved,
            ts_extra = [(py ''status'', jget result ''status'')]\<rparr>)"

definition collection_message :: "platform \<Rightarrow> qdrant_connector \<Rightarrow> pystr" where
  "collection_message L c = py ''collection '' @ repr_str L (qc_collection (qn_config c))"

definition inspect_qdrant ::
  "platform \<Rightarrow> 's server \<Rightarrow> qdrant_connector \<Rightarrow> 's \<Rightarrow> (qdrant_error + target_schema) \<times> qdrant_connector \<times> 's" where
  "inspect_qdrant L send c s =
     (case with_response (qdrant_request send c ''GET'' (collection_path c) None s) (\<lambda>resp.
          if hr_status resp = 404 then Inl (Raised (ConnectorConfigError (collection_message L c @ py '' not found'')))
          else if 400 \<le> hr_status resp
          then Inl (Raised (ConnectorConnectionError
                 (py ''failed to inspect '' @ collection_message L c @ py '': HTTP '' @ show_nat (hr_status resp))))
          else andThen (body_object resp) (\<lambda>body. andThen (sub_object body ''result'') (\<lambda>result.
               andThen (vector_fields_of_result result) (\<lambda>vfs. Inr (result, vfs))))) of
        (Inl e, s') \<Rightarrow> (Inl e, c, s')
      | (Inr (result, vfs), s') \<Rightarrow>
          (case resolve_alias L send c s' of
             (Inl e, s'') \<Rightarrow> (Inl e, c, s'')
           | (Inr resolved, s'') \<Rightarrow>
               (case schema_of_result c result vfs resolved of
                  Inl e \<Rightarrow> (Inl e, c, s'')
                | Inr schema \<Rightarrow> (Inr schema, c\<lparr>qn_schema_cache := Some schema\<rparr>, s''))))"

definition test_qdrant_connection ::
  "platform \<Rightarrow> 's server \<Rightarrow> qdrant_connector \<Rightarrow> float64 \<Rightarrow> 's \<Rightarrow> (connector_error + connection_test_result) \<times> 's" where
  "test_qdrant_connection L send c latency_ms s =
     (case qdrant_request send c ''GET'' (collection_path c) None s of
        (Inl (ConnectorConnectionError m), s') \<Rightarrow> (Inr \<lparr>ct_ok = False, ct_message = m, ct_latency_ms = None\<rparr>, s')
      | (Inl e, s') \<Rightarrow> (Inl e, s')
      | (Inr resp, s') \<Rightarrow>
          (let result = (\<lambda>good message. (Inr \<lparr>ct_ok = good, ct_message = message, ct_latency_ms = Some latency_ms\<rparr>, s')) in
           if hr_status resp \<in> {401, 403} then result False (py ''authentication failed: HTTP '' @ show_nat (hr_status resp))
           else if hr_status resp = 404 then result False (collection_message L c @ py '' not found'')
           else if 400 \<le> hr_status resp then result False (py ''unexpected HTTP '' @ show_nat (hr_status resp))
           else result True (py ''reachable'')))"

text \<open>The count comes from the cached schema, or from a fresh one.\<close>

definition estimate_qdrant_count ::
  "platform \<Rightarrow> 's server \<Rightarrow> qdrant_connector \<Rightarrow> 's \<Rightarrow> (qdrant_error + int option) \<times> qdrant_connector \<times> 's" where
  "estimate_qdrant_count L send c s =
     (case qn_schema_cache c of
        Some schema \<Rightarrow> (Inr (ts_approx_point_count schema), c, s)
      | None \<Rightarrow>
          (case inspect_qdrant L send c s of
             (Inl e, c', s') \<Rightarrow> (Inl e, c', s')
           | (Inr schema, c', s') \<Rightarrow> (Inr (ts_approx_point_count schema), c', s')))"

section \<open>Normalisation\<close>

definition coerce_point_id :: "platform \<Rightarrow> json \<Rightarrow> json" where
  "coerce_point_id L v = (case v of JStr s \<Rightarrow> v | JInt n \<Rightarrow> v | JBool b \<Rightarrow> v | _ \<Rightarrow> JStr (py_str L v))"

text \<open>What \<open>NormalizedPoint\<close> makes of a value for \<open>point_id : str | int | list | dict\<close>.\<close>

definition validate_point_id :: "json \<Rightarrow> json option" where
  "validate_point_id v =
     (case v of
        JBool b \<Rightarrow> Some (JInt (if b then 1 else 0))
      | JFloat x \<Rightarrow> if of_int \<lfloor>x\<rfloor> = x then Some (JInt \<lfloor>x\<rfloor>) else None
      | JNull \<Rightarrow> None
      | _ \<Rightarrow> Some v)"

fun resolve_path :: "json \<Rightarrow> pystr list \<Rightarrow> json" where
  "resolve_path current [] = current"
| "resolve_path current (segment # segments) =
     (case current of
        JObj d \<Rightarrow> (case map_of d segment of None \<Rightarrow> JNull | Some v \<Rightarrow> resolve_path v segments)
      | _ \<Rightarrow> JNull)"

definition resolve_payload_path :: "dict \<Rightarrow> pystr \<Rightarrow> json" where
  "resolve_payload_path payload path = resolve_path (JObj payload) (split_char 46 path)"

text \<open>The value of an ACL field, and the warning when it is no list.\<close>

definition coerce_acl :: "platform \<Rightarrow> json \<Rightarrow> json \<times> string list" where
  "coerce_acl L v =
     (case v of
        JList items \<Rightarrow> (JList (map (\<lambda>i. JStr (py_str L i)) items), [])
      | _ \<Rightarrow> (JList [JStr (py_str L v)], [''acl_not_list'']))"

text \<open>One mapped field: its entry in the projection and its warnings.\<close>

definition project_field :: "platform \<Rightarrow> dict \<Rightarrow> string \<times> pystr \<Rightarrow> dict \<times> pystr list" where
  "project_field L payload item =
     (case item of (logical_name, path) \<Rightarrow>
        (let v = resolve_payload_path payload path in
         if v = JNull then ([], [py (''missing_mapped_field:'' @ logical_name)])
         else if logical_name = ''acl'' then (case coerce_acl L v of (acl, ws) \<Rightarrow> ([(py ''acl'', acl)], map py ws))
         else if logical_name = ''tenant'' then ([(py ''tenant'', JStr (py_str L v))], [])
         else ([(py logical_name, v)], [])))"

definition number_of :: "json \<Rightarrow> float64 option" where
  "number_of v =
     (case v of JInt n \<Rightarrow> Some (fl (of_int n)) | JFloat x \<Rightarrow> Some x | JBool b \<Rightarrow> Some (if b then 1 else 0) | _ \<Rightarrow> None)"

definition float_sequence :: "json \<Rightarrow> float64 list option" where
  "float_sequence v =
     (case v of
        JList items \<Rightarrow> if list_all (\<lambda>i. number_of i \<noteq> None) items then Some (map (\<lambda>i. the (number_of i)) items) else None
      | _ \<Rightarrow> None)"

definition or_default :: "pystr \<Rightarrow> pystr" where
  "or_default name = (if name = [] then py ''default'' else name)"

definition hash_raw_vector :: "platform \<Rightarrow> json \<Rightarrow> pystr option \<Rightarrow> (pystr \<times> pystr) list option" where
  "hash_raw_vector L raw vector_name =
     (case float_sequence raw of
        Some xs \<Rightarrow> Some [(or_default (case vector_name of None \<Rightarrow> [] | Some n \<Rightarrow> n), hash_vector L xs)]
      | None \<Rightarrow>
          (case raw of
             JObj d \<Rightarrow>
               (let hashes = concat (map (\<lambda>(name, components).
                      case float_sequence components of None \<Rightarrow> [] | Some xs \<Rightarrow> [(name, hash_vector L xs)]) d)
                in if hashes = [] then None else Some hashes)
           | _ \<Rightarrow> None))"

definition vector_hashes_of ::
  "platform \<Rightarrow> bool \<Rightarrow> pystr option \<Rightarrow> json \<Rightarrow> (pystr \<times> pystr) list option \<times> pystr list" where
  "vector_hashes_of L include_vectors vector_name raw_vector =
     (if \<not> include_vectors then (None, [])
      else if raw_vector = JNull then (None, [py ''vector_retrieval_enabled'', py ''vector_missing''])
      else (case hash_raw_vector L raw_vector vector_name of
              None \<Rightarrow> (None, [py ''vector_retrieval_enabled'', py ''vector_shape_unrecognized''])
            | Some hs \<Rightarrow> (Some hs, [py ''vector_retrieval_enabled''])))"

definition schema_vectors :: "target_schema option \<Rightarrow> pystr option \<Rightarrow> (pystr \<times> int) list" where
  "schema_vectors schema vector_name =
     (case schema of
        None \<Rightarrow> []
      | Some t \<Rightarrow> map (\<lambda>f. (or_default (vf_name f), vf_dimension f))
                   (filter (\<lambda>f. vector_name = None \<or> vector_name = Some (vf_name f)) (ts_vector_fields t)))"

text \<open>A field of type \<open>str | None\<close>, taken from the projection.\<close>

definition text_field :: "dict \<Rightarrow> string \<Rightarrow> qdrant_error + pystr option" where
  "text_field projection k =
     (case map_of projection (py k) of None \<Rightarrow> Inr None | Some (JStr s) \<Rightarrow> Inr (Some s) | Some _ \<Rightarrow> Inl PointInvalid)"

definition acl_field :: "dict \<Rightarrow> pystr list option" where
  "acl_field projection =
     (case map_of projection (py ''acl'') of
        Some (JList items) \<Rightarrow> Some (map (\<lambda>i. case i of JStr s \<Rightarrow> s | _ \<Rightarrow> []) items)
      | _ \<Rightarrow> None)"

text \<open>\<open>NormalizedPoint(...)\<close>, from the parts both live connectors compute.\<close>

definition point_of ::
  "platform \<Rightarrow> pystr \<Rightarrow> json \<Rightarrow> (pystr \<times> int) list \<Rightarrow> (pystr \<times> pystr) list option \<Rightarrow> dict \<Rightarrow> utc_datetime \<Rightarrow> pystr \<Rightarrow> pystr list
   \<Rightarrow> qdrant_error + normalized_point" where
  "point_of L scope point_id vectors hashes projection now locator warnings =
     (case validate_point_id point_id of
        None \<Rightarrow> Inl PointInvalid
      | Some pid \<Rightarrow>
          andThen (text_field projection ''source_id'') (\<lambda>source_id.
          andThen (text_field projection ''source_version_id'') (\<lambda>source_version_id.
          andThen (text_field projection ''chunk_id'') (\<lambda>chunk_id.
          andThen (text_field projection ''embedding_id'') (\<lambda>embedding_id.
          andThen (text_field projection ''tenant'') (\<lambda>tenant.
            Inr \<lparr>np_target_id = scope, np_scope = scope, np_point_id = pid, np_vector_names = map fst vectors,
                 np_vector_dimensions = foldl (\<lambda>d (k, n). dict_set k n d) [] vectors, np_vector_hashes = hashes,
                 np_payload_projection = projection, np_payload_hash = compute_payload_hash L projection, np_source_id = source_id,
                 np_source_version_id = source_version_id, np_chunk_id = chunk_id, np_embedding_id = embedding_id,
                 np_acl = acl_field projection, np_tenant = tenant, np_observed_at = now, np_raw_locator = locator,
                 np_normalization_warnings = warnings\<rparr>))))))"

definition normalize_qdrant_point ::
  "platform \<Rightarrow> qdrant_connector \<Rightarrow> utc_datetime \<Rightarrow> bool \<Rightarrow> dict \<Rightarrow> qdrant_error + normalized_point" where
  "normalize_qdrant_point L c now include_vectors raw =
     (let config = qn_config c;
          point_id = coerce_point_id L (jget raw ''id'');
          (payload, shape_warnings) = (case jget raw ''payload'' of
             JNull \<Rightarrow> ([], []) | JObj d \<Rightarrow> (d, []) | _ \<Rightarrow> ([], [py ''payload_not_object'']));
          vfs = map (project_field L payload) (configured_items (qc_payload_mapping config));
          (hashes, vector_warnings) = vector_hashes_of L include_vectors (qc_vector_name config) (jget raw ''vector'');
          scope = qc_collection config
      in point_of L scope point_id (schema_vectors (qn_schema_cache c) (qc_vector_name config)) hashes (concat (map fst vfs)) now
           (py ''qdrant:'' @ scope @ py ''#'' @ py_str L point_id) (shape_warnings @ concat (map snd vfs) @ vector_warnings))"

section \<open>The scroll\<close>

text \<open>The points of a page until one raises, and how the loop goes on.\<close>

datatype page_end = PageRaises qdrant_error | LastPage | NextPage json

fun normalize_page :: "(nat \<Rightarrow> dict \<Rightarrow> qdrant_error + normalized_point) \<Rightarrow> nat \<Rightarrow> json list \<Rightarrow> normalized_point list \<times> qdrant_error option" where
  "normalize_page f n [] = ([], None)"
| "normalize_page f n (raw # raws) =
     (case raw of
        JObj d \<Rightarrow>
          (case f n d of
             Inl e \<Rightarrow> ([], Some e)
           | Inr p \<Rightarrow> (case normalize_page f (n + 1) raws of (ps, e) \<Rightarrow> (p # ps, e)))
      | _ \<Rightarrow> ([], Some BadResponse))"

definition scroll_body :: "qdrant_connector \<Rightarrow> json \<Rightarrow> json option \<Rightarrow> json" where
  "scroll_body c with_vector offset =
     JObj ([(py ''limit'', JInt (qc_page_size (qn_config c))), (py ''with_payload'', JBool True), (py ''with_vector'', with_vector)]
       @ (case offset of None \<Rightarrow> [] | Some v \<Rightarrow> [(py ''offset'', v)]))"

definition scroll_page ::
  "(nat \<Rightarrow> dict \<Rightarrow> qdrant_error + normalized_point) \<Rightarrow> 's server \<Rightarrow> qdrant_connector \<Rightarrow> json \<Rightarrow> nat \<Rightarrow> json option \<Rightarrow> 's
   \<Rightarrow> (normalized_point list \<times> page_end) \<times> 's" where
  "scroll_page f send c with_vector yielded offset s =
     (case with_response (qdrant_request send c ''POST'' (scroll_path c) (Some (scroll_body c with_vector offset)) s) (\<lambda>resp.
          if 400 \<le> hr_status resp
          then Inl (Raised (ConnectorConnectionError
                 (py ''scroll failed with HTTP '' @ show_nat (hr_status resp) @ py '': '' @ take 200 (hr_text resp))))
          else andThen (body_object resp) (\<lambda>body. andThen (sub_object body ''result'') (\<lambda>result.
               andThen (sub_list result ''points'') (\<lambda>points. Inr (points, jget result ''next_page_offset''))))) of
        (Inl e, s') \<Rightarrow> (([], PageRaises e), s')
      | (Inr (points, next_offset), s') \<Rightarrow>
          (case normalize_page f yielded points of
             (ps, Some e) \<Rightarrow> ((ps, PageRaises e), s')
           | (ps, None) \<Rightarrow> ((ps, if next_offset = JNull \<or> points = [] then LastPage else NextPage next_offset), s')))"

text \<open>The loop returns only if the server ends its scroll.\<close>

partial_function (option) scroll_loop ::
  "(nat \<Rightarrow> json option \<Rightarrow> 's \<Rightarrow> (normalized_point list \<times> page_end) \<times> 's) \<Rightarrow> normalized_point list \<Rightarrow> json option \<Rightarrow> 's
   \<Rightarrow> ((normalized_point list \<times> qdrant_error option) \<times> 's) option" where
  "scroll_loop fetch yielded offset s =
     (case fetch (length yielded) offset s of
        ((ps, PageRaises e), s') \<Rightarrow> Some ((yielded @ ps, Some e), s')
      | ((ps, LastPage), s') \<Rightarrow> Some ((yielded @ ps, None), s')
      | ((ps, NextPage next_offset), s') \<Rightarrow> scroll_loop fetch (yielded @ ps) (Some next_offset) s')"

definition fetch_points_count :: "'s server \<Rightarrow> qdrant_connector \<Rightarrow> 's \<Rightarrow> (qdrant_error + int option) \<times> 's" where
  "fetch_points_count send c s =
     with_response (qdrant_request send c ''GET'' (collection_path c) None s) (\<lambda>resp.
       if 400 \<le> hr_status resp then Inr None
       else andThen (body_object resp) (\<lambda>body.
            case map_of body (py ''result'') of
              None \<Rightarrow> Inr None
            | Some (JObj result) \<Rightarrow> Inr (as_count (jget result ''points_count''))
            | Some _ \<Rightarrow> Inl BadResponse))"

definition live_consistency :: "int option \<Rightarrow> int option \<Rightarrow> nat \<Rightarrow> consistency_info" where
  "live_consistency start_count end_count yielded =
     (let verdict = (case (start_count, end_count) of
            (Some a, Some b) \<Rightarrow>
              if a \<noteq> b then (INCOMPLETE, Some (py ''collection point count drifted from '' @ show_int a @ py '' to '' @ show_int b))
              else (COMPLETE, None)
          | _ \<Rightarrow> (COMPLETE, Some (py ''point count unavailable for one or both consistency probes'')))
      in \<lparr>ci_mode = BEST_EFFORT_LIVE, ci_completeness = fst verdict, ci_start_count = start_count, ci_end_count = end_count,
          ci_observed_count = int yielded, ci_detail = snd verdict\<rparr>)"

definition with_vector_of :: "qdrant_config \<Rightarrow> bool \<Rightarrow> json" where
  "with_vector_of config want =
     (case qc_vector_name config of Some n \<Rightarrow> if want then JList [JStr n] else JBool False | None \<Rightarrow> JBool want)"

text \<open>
  A whole pass: the points yielded with the error that ended it, if one did, and the connector
  with what it remembers; \<open>None\<close> when the server never ends the scroll.
\<close>

definition iterate_qdrant_points ::
  "platform \<Rightarrow> (nat \<Rightarrow> utc_datetime) \<Rightarrow> 's server \<Rightarrow> qdrant_connector \<Rightarrow> json option \<Rightarrow> pystr list option \<Rightarrow> bool \<Rightarrow> 's
   \<Rightarrow> ((normalized_point list \<times> qdrant_error option) \<times> qdrant_connector \<times> 's) option" where
  "iterate_qdrant_points L clock send c0 checkpoint projection include_vectors s0 =
     (case (if qn_schema_cache c0 = None then inspect_qdrant L send c0 s0 else (Inr (the (qn_schema_cache c0)), c0, s0)) of
        (Inl e, c, s) \<Rightarrow> Some (([], Some e), c, s)
      | (Inr schema, c, s) \<Rightarrow>
          (let want = (include_vectors \<or> qc_include_vectors (qn_config c));
               f = (\<lambda>n raw. andThen (normalize_qdrant_point L c (clock n) want raw) (\<lambda>p. Inr (apply_projection L p projection)))
           in Option.bind (scroll_loop (scroll_page f send c (with_vector_of (qn_config c) want)) [] checkpoint s) (\<lambda>((points, raised), s').
                case raised of
                  Some e \<Rightarrow> Some ((points, Some e), c, s')
                | None \<Rightarrow>
                    (case fetch_points_count send c s' of
                       (Inl e, s'') \<Rightarrow> Some ((points, Some e), c, s'')
                     | (Inr end_count, s'') \<Rightarrow>
                         Some ((points, None),
                               c\<lparr>qn_consistency := Some (live_consistency (ts_approx_point_count schema) end_count (length points))\<rparr>, s'')))))"

section \<open>Only reads reach the server\<close>

text \<open>A server that answers differently where the guard does not let a request through.\<close>

definition guarded :: "'s server \<Rightarrow> 's server \<Rightarrow> 's server" where
  "guarded send other rq s = (if is_allowed_request (rq_method rq) (rq_path rq) then send rq s else other rq s)"

lemma request_loop_guarded: "request_loop (guarded send other) m rq a s = request_loop send m rq a s"
proof (induction send m rq a s rule: request_loop.induct)
  case (1 send m rq a s)
  have "guarded send other rq s = send rq s" if "guard_request rq = Inr x" for x
    using that by (auto simp: guarded_def guard_request_def split: if_splits)
  then show ?case
    using 1 by (subst (1 2) request_loop.simps) (auto split: sum.split prod.split)
qed

lemma qdrant_request_guarded: "qdrant_request (guarded send other) = qdrant_request send"
  by (intro ext) (simp add: qdrant_request_def request_loop_guarded)

lemma scroll_page_guarded: "scroll_page f (guarded send other) = scroll_page f send"
  unfolding scroll_page_def [abs_def] qdrant_request_guarded ..

lemma resolve_alias_guarded: "resolve_alias L (guarded send other) = resolve_alias L send"
  unfolding resolve_alias_def [abs_def] qdrant_request_guarded ..

lemma inspect_guarded: "inspect_qdrant L (guarded send other) = inspect_qdrant L send"
  unfolding inspect_qdrant_def [abs_def] resolve_alias_guarded qdrant_request_guarded ..


text \<open>What the list allows: reads by \<open>GET\<close>, and the scroll of a collection.\<close>

lemma allowed_requests:
  "is_allowed_request method path \<Longrightarrow>
     method = ''GET'' \<or> method = ''POST'' \<and> (\<exists>name. chomp path = py ''/collections/'' @ name @ py ''/points/scroll'')"
proof -
  assume "is_allowed_request method path"
  then consider "method = ''GET''" | "method = ''POST''" "scroll_match path"
    by (auto simp: is_allowed_request_def split: if_splits)
  then show ?thesis
  proof cases
    case 2
    let ?p = "chomp path"
    let ?n = "takeWhile (\<lambda>c. c \<noteq> 47) (drop 13 ?p)"
    have "?p = take 13 ?p @ ?n @ drop (length ?n) (drop 13 ?p)"
      by (metis append_take_drop_id takeWhile_eq_take)
    then show ?thesis using 2 by (auto simp: scroll_match_def Let_def)
  qed simp
qed

section \<open>Retries\<close>

definition counting :: "'s server \<Rightarrow> ('s \<times> nat) server" where
  "counting send rq s = (case s of (t, n) \<Rightarrow> (case send rq t of (r, t') \<Rightarrow> (r, (t', n + 1))))"

lemma request_loop_count:
  "attempt \<le> m \<Longrightarrow> case request_loop (counting send) m rq attempt (t, n) of (r, (t', n')) \<Rightarrow>
     n' \<le> n + (m - attempt) + 1 \<and> ((t', n') = (t, n) \<or> n < n')"
proof (induction "m - attempt" arbitrary: attempt t n rule: less_induct)
  case less
  show ?case
  proof (cases "guard_request rq")
    case (Inl e)
    then show ?thesis by (simp add: request_loop.simps)
  next
    case g: (Inr u)
    obtain r t1 where st: "send rq t = (r, t1)" by fastforce
    have more: "case request_loop (counting send) m rq (attempt + 1) (t1, n + 1) of (r, (t', n')) \<Rightarrow>
        n' \<le> n + (m - attempt) + 1 \<and> ((t', n') = (t, n) \<or> n < n')" if "attempt < m"
    proof -
      have "case request_loop (counting send) m rq (attempt + 1) (t1, n + 1) of (r, (t', n')) \<Rightarrow>
          n' \<le> n + 1 + (m - (attempt + 1)) + 1 \<and> ((t', n') = (t1, n + 1) \<or> n + 1 < n')"
        by (rule less.hyps) (use that in simp_all)
      then show ?thesis using that by (auto split: prod.splits)
    qed
    show ?thesis
      using more less.prems by (subst request_loop.simps) (auto simp: g counting_def st split: sum.split)
  qed
qed

text \<open>A request is sent \<open>max_retries + 1\<close> times at most.\<close>

theorem qdrant_attempts_bounded:
  "snd (snd (qdrant_request (counting send) c method path body (t, n))) \<le> n + nat (qc_max_retries (qn_config c)) + 1"
proof -
  let ?rq = "\<lparr>rq_method = method, rq_asked = path, rq_path = qn_base_path c @ path, rq_body = body\<rparr>"
  have "case request_loop (counting send) (nat (qc_max_retries (qn_config c))) ?rq 0 (t, n) of (r, (t', n')) \<Rightarrow>
      n' \<le> n + (nat (qc_max_retries (qn_config c)) - 0) + 1 \<and> ((t', n') = (t, n) \<or> n < n')"
    by (rule request_loop_count) simp
  then show ?thesis by (auto simp: qdrant_request_def split: prod.splits)
qed

section \<open>A whole collection\<close>

lemma normalize_page_append:
  "normalize_page f n (xs @ ys) =
     (case normalize_page f n xs of
        (ps, Some e) \<Rightarrow> (ps, Some e)
      | (ps, None) \<Rightarrow> (case normalize_page f (n + length xs) ys of (qs, e) \<Rightarrow> (ps @ qs, e)))"
  by (induction f n xs rule: normalize_page.induct) (auto split: json.split sum.split prod.split option.split)

lemma normalize_page_length: "normalize_page f n xs = (ps, None) \<Longrightarrow> length ps = length xs"
  by (induction f n xs arbitrary: ps rule: normalize_page.induct)
     (auto split: json.splits sum.splits prod.splits option.splits)

text \<open>
  A server that holds a list of points, and gives for an offset the points from there, a page of the
  size asked for, with the offset of the next page, or null after the last.
\<close>

definition asked :: "request \<Rightarrow> string \<Rightarrow> nat" where
  "asked rq k = (case rq_body rq of Some (JObj d) \<Rightarrow> (case jget d k of JInt n \<Rightarrow> nat n | _ \<Rightarrow> 0) | _ \<Rightarrow> 0)"

definition page_server :: "json list \<Rightarrow> 's server" where
  "page_server pts rq s =
     (let offset = asked rq ''offset''; limit = asked rq ''limit'';
          next_offset = (if offset + limit < length pts then JInt (int (offset + limit)) else JNull)
      in (Inr \<lparr>hr_status = 200,
               hr_json = Some (JObj [(py ''result'',
                  JObj [(py ''points'', JList (take limit (drop offset pts))), (py ''next_page_offset'', next_offset)])]),
               hr_text = []\<rparr>, s))"

definition page_offset :: "nat \<Rightarrow> json option" where
  "page_offset n = (if n = 0 then None else Some (JInt (int n)))"

lemma scroll_path_allowed:
  assumes "qn_base_path c = []" "identifier_match (qc_collection (qn_config c))"
  shows "is_allowed_request ''POST'' (qn_base_path c @ scroll_path c)"
proof -
  let ?name = "qc_collection (qn_config c)"
  have "plain_name ?name" by (rule identifier_match_plain [OF assms(2)])
  then have n: "?name \<noteq> []" "\<forall>x\<in>set ?name. x \<noteq> 47"
    by (auto simp: plain_name_def list_all_iff ident_char_def ident_start_def is_letter_def is_digit_def)
  have p: "scroll_path c = py ''/collections/'' @ ?name @ py ''/points/scroll''"
    by (simp add: scroll_path_def collection_path_def)
  have "takeWhile (\<lambda>x. x \<noteq> 47) (?name @ py ''/points/scroll'') = ?name"
    using n(2) by (subst takeWhile_append2) (auto simp: py_def)
  moreover have "drop 13 (scroll_path c) = ?name @ py ''/points/scroll''" "take 13 (scroll_path c) = py ''/collections/''"
    by (simp_all add: p py_def)
  moreover have "chomp (scroll_path c) = scroll_path c" by (simp add: p chomp_def py_def)
  moreover have "drop (length ?name + 13) (scroll_path c) = py ''/points/scroll''"
    by (simp add: p) (simp add: py_def flip: drop_drop add.commute [of 13])
  ultimately show ?thesis using n(1) by (simp add: is_allowed_request_def assms(1) scroll_match_def Let_def)
qed

lemma asked_simps:
  assumes "rq_body rq = Some (scroll_body c wv (page_offset n))"
  shows "asked rq ''limit'' = nat (qc_page_size (qn_config c))" "asked rq ''offset'' = n"
  using assms by (simp_all add: asked_def scroll_body_def jget_def page_offset_def py_def)

lemma scroll_page_server:
  assumes "qn_base_path c = []" "identifier_match (qc_collection (qn_config c))" "1 \<le> qc_page_size (qn_config c)"
  shows "scroll_page f (page_server pts) c wv y (page_offset n) s =
    (let k = nat (qc_page_size (qn_config c)) in
     case normalize_page f y (take k (drop n pts)) of
       (ps, Some e) \<Rightarrow> ((ps, PageRaises e), s)
     | (ps, None) \<Rightarrow> ((ps, if n + k < length pts then NextPage (JInt (int (n + k))) else LastPage), s))"
proof -
  let ?rq = "\<lparr>rq_method = ''POST'', rq_asked = scroll_path c, rq_path = qn_base_path c @ scroll_path c,
              rq_body = Some (scroll_body c wv (page_offset n))\<rparr>"
  have "guard_request ?rq = Inr ()"
    by (simp add: guard_request_def scroll_path_allowed [OF assms(1,2)])
  moreover have "asked ?rq ''limit'' = nat (qc_page_size (qn_config c))" "asked ?rq ''offset'' = n"
    using asked_simps [of ?rq c wv n] by simp_all
  moreover have "take (nat (qc_page_size (qn_config c))) (drop n pts) \<noteq> []" if "n + nat (qc_page_size (qn_config c)) < length pts"
    using assms(3) that by simp
  ultimately show ?thesis
    by (auto simp: scroll_page_def with_response_def qdrant_request_def request_loop.simps page_server_def Let_def body_object_def
        sub_object_def sub_list_def jget_def json_truthy_def py_def split: prod.split option.split)
qed

lemma scroll_from:
  assumes "qn_base_path c = []" "identifier_match (qc_collection (qn_config c))" "1 \<le> qc_page_size (qn_config c)"
    "length ys = n"
  shows "scroll_loop (scroll_page f (page_server pts) c wv) ys (page_offset n) s =
    (case normalize_page f n (drop n pts) of (ps, e) \<Rightarrow> Some ((ys @ ps, e), s))"
  using assms(4)
proof (induction "length pts - n" arbitrary: n ys rule: less_induct)
  case less
  let ?k = "nat (qc_page_size (qn_config c))"
  note page = scroll_page_server [OF assms(1-3), of f pts wv _ n s]
  have split: "drop n pts = take ?k (drop n pts) @ drop (n + ?k) pts"
    by (metis append_take_drop_id add.commute drop_drop)
  obtain ps e where np: "normalize_page f n (take ?k (drop n pts)) = (ps, e)" by fastforce
  show ?case
  proof (cases "e = None \<and> n + ?k < length pts")
    case True
    then have len: "length ps = ?k" using normalize_page_length np by fastforce
    have "scroll_loop (scroll_page f (page_server pts) c wv) (ys @ ps) (page_offset (n + ?k)) s =
        (case normalize_page f (n + ?k) (drop (n + ?k) pts) of (qs, e) \<Rightarrow> Some (((ys @ ps) @ qs, e), s))"
      by (rule less.hyps) (use True assms(3) less.prems len in auto)
    moreover have "length (take ?k (drop n pts)) = ?k" using True by (auto simp: min_def)
    with np True have "normalize_page f n (drop n pts) =
        (case normalize_page f (n + ?k) (drop (n + ?k) pts) of (qs, e) \<Rightarrow> (ps @ qs, e))"
      by (subst split) (simp only: normalize_page_append, simp)
    ultimately show ?thesis
      using True np page less.prems assms(3)
      by (subst scroll_loop.simps) (simp add: Let_def page_offset_def split: prod.split)
  next
    case False
    then have "normalize_page f n (drop n pts) = (ps, e)"
      using np by (subst split) (auto simp: normalize_page_append split: option.split)
    then show ?thesis
      using False np page less.prems by (subst scroll_loop.simps) (auto simp: Let_def split: option.split)
  qed
qed

text \<open>
  C23. Over such a server the scroll ends and yields what one pass over the whole list does: every
  point once and in order, up to the first that raises.
\<close>

theorem scroll_complete:
  assumes "qn_base_path c = []" "identifier_match (qc_collection (qn_config c))" "1 \<le> qc_page_size (qn_config c)"
  shows "scroll_loop (scroll_page f (page_server pts) c wv) [] None s = Some (normalize_page f 0 pts, s)"
  using scroll_from [OF assms(1-3), of "[]" 0 f pts wv s] by (simp add: page_offset_def case_prod_beta)

section \<open>What a point is refused for\<close>

definition payload_of :: "dict \<Rightarrow> dict" where
  "payload_of raw = (case jget raw ''payload'' of JObj d \<Rightarrow> d | _ \<Rightarrow> [])"

lemma project_field_plain:
  "n \<noteq> ''acl'' \<Longrightarrow> n \<noteq> ''tenant'' \<Longrightarrow> fst (project_field L payload (n, path)) =
     (if resolve_payload_path payload path = JNull then [] else [(py n, resolve_payload_path payload path)])"
  by (simp add: project_field_def Let_def)

lemma project_field_keys: "fst e \<noteq> n \<Longrightarrow> map_of (fst (project_field L payload e)) (py n) = None"
  by (auto simp: project_field_def Let_def map_of_eq_None_iff split: prod.splits if_splits)

lemma projection_lookup:
  "distinct (map fst items) \<Longrightarrow> map_of (concat (map fst (map (project_field L payload) items))) (py n) =
     (case map_of items n of None \<Rightarrow> None | Some path \<Rightarrow> map_of (fst (project_field L payload (n, path))) (py n))"
proof (induction items)
  case (Cons e es)
  have "map_of es n = None" if "fst e = n" using Cons.prems that by (auto simp: map_of_eq_None_iff)
  then show ?case
    using Cons by (cases e) (auto simp: map_add_def project_field_keys split: option.split)
qed simp

fun some_items :: "('a \<times> 'b option) list \<Rightarrow> ('a \<times> 'b) list" where
  "some_items [] = []"
| "some_items ((n, None) # xs) = some_items xs"
| "some_items ((n, Some c) # xs) = (n, c) # some_items xs"

lemma configured_items_alt: "configured_items m = some_items (mapping_fields m)"
proof -
  have "concat (map (\<lambda>(name, column). case column of None \<Rightarrow> [] | Some c \<Rightarrow> [(name, c)]) xs) = some_items xs" for xs :: "('b \<times> 'c option) list"
    by (induction xs rule: some_items.induct) simp_all
  then show ?thesis by (simp add: configured_items_def)
qed

lemma items_keys: "fst ` set (some_items xs) \<subseteq> fst ` set xs"
  by (induction xs rule: some_items.induct) auto

lemma items_distinct: "distinct (map fst xs) \<Longrightarrow> distinct (map fst (some_items xs))"
proof (induction xs rule: some_items.induct)
  case (3 n c xs)
  then show ?case using items_keys [of xs] by auto
qed simp_all

lemma items_lookup: "distinct (map fst xs) \<Longrightarrow> map_of (some_items xs) n = (case map_of xs n of Some (Some c) \<Rightarrow> Some c | _ \<Rightarrow> None)"
proof (induction xs rule: some_items.induct)
  case (2 k xs)
  have "map_of xs k = None" using 2(2) by (simp add: map_of_eq_None_iff)
  then show ?case using 2 by auto
qed simp_all

lemma mapping_fields_distinct: "distinct (map fst (mapping_fields m))"
  by (simp add: mapping_fields_def)

lemma configured_lookup:
  "distinct (map fst (configured_items m))"
  "map_of (configured_items m) ''source_id'' = fm_source_id m"
  "map_of (configured_items m) ''source_version_id'' = fm_source_version_id m"
  "map_of (configured_items m) ''chunk_id'' = fm_chunk_id m"
  "map_of (configured_items m) ''embedding_id'' = fm_embedding_id m"
  "map_of (configured_items m) ''tenant'' = fm_tenant m"
  unfolding configured_items_alt items_lookup [OF mapping_fields_distinct]
  by (auto intro: items_distinct [OF mapping_fields_distinct]) (simp_all add: mapping_fields_def split: option.split)

definition projection_of :: "platform \<Rightarrow> dict \<Rightarrow> field_mapping \<Rightarrow> dict" where
  "projection_of L payload m = concat (map (fst \<circ> project_field L payload) (configured_items m))"

lemma projection_of_lookup:
  "map_of (projection_of L payload m) (py n) =
     (case map_of (configured_items m) n of None \<Rightarrow> None | Some path \<Rightarrow> map_of (fst (project_field L payload (n, path))) (py n))"
  using projection_lookup [OF configured_lookup(1), of L payload m n] by (simp add: projection_of_def)

lemma identity_lookup:
  assumes "map_of (configured_items m) n = opt" "n \<in> {''source_id'', ''source_version_id'', ''chunk_id'', ''embedding_id''}"
  shows "text_field (projection_of L payload m) n =
     (case opt of None \<Rightarrow> Inr None
      | Some path \<Rightarrow> (case resolve_payload_path payload path of
            JNull \<Rightarrow> Inr None | JStr s \<Rightarrow> Inr (Some s) | _ \<Rightarrow> Inl PointInvalid))"
  using assms
  by (auto simp: text_field_def projection_of_lookup project_field_plain split: option.split json.split)

lemma tenant_lookup:
  "\<exists>t. text_field (projection_of L payload m) ''tenant'' = Inr t"
  by (auto simp: text_field_def projection_of_lookup project_field_def Let_def split: option.split)

lemma coerced_id_valid: "\<exists>v. validate_point_id (coerce_point_id L j) = Some v"
  by (cases j) (simp_all add: coerce_point_id_def validate_point_id_def)

text \<open>The value a path of the mapping has in a payload is neither missing nor a string.\<close>

definition no_text_at :: "dict \<Rightarrow> pystr option \<Rightarrow> bool" where
  "no_text_at payload path =
     (case path of None \<Rightarrow> False | Some p \<Rightarrow> (case resolve_payload_path payload p of JNull \<Rightarrow> False | JStr s \<Rightarrow> False | _ \<Rightarrow> True))"

lemma identity_refused:
  assumes "map_of (configured_items m) n = opt" "n \<in> {''source_id'', ''source_version_id'', ''chunk_id'', ''embedding_id''}"
  shows "text_field (projection_of L payload m) n =
     (if no_text_at payload opt then Inl PointInvalid else Inr (Option.bind opt (\<lambda>p. as_text (resolve_payload_path payload p))))"
  by (simp add: identity_lookup [OF assms] no_text_at_def as_text_def split: option.split json.split)

text \<open>
  A raw point is refused exactly when one of the four mapped identifiers has a value that is no
  string; nothing else in a point (its id, its payload, its vector, its ACL) makes it fail.
\<close>

theorem qdrant_point_refused:
  "(\<exists>e. normalize_qdrant_point L c now include_vectors raw = Inl e) =
     list_ex (no_text_at (payload_of raw))
       (let m = qc_payload_mapping (qn_config c) in [fm_source_id m, fm_source_version_id m, fm_chunk_id m, fm_embedding_id m])"
proof -
  let ?m = "qc_payload_mapping (qn_config c)"
  let ?proj = "projection_of L (payload_of raw) ?m"
  obtain v t where vt: "validate_point_id (coerce_point_id L (jget raw ''id'')) = Some v" "text_field ?proj ''tenant'' = Inr t"
    using coerced_id_valid tenant_lookup by meson
  have "fst (case jget raw ''payload'' of JNull \<Rightarrow> ([], []) | JObj d \<Rightarrow> (d, []) | _ \<Rightarrow> ([], [py ''payload_not_object''])) = payload_of raw"
    by (simp add: payload_of_def split: json.split)
  then obtain ws where "(case jget raw ''payload'' of JNull \<Rightarrow> ([], []) | JObj d \<Rightarrow> (d, []) | _ \<Rightarrow> ([], [py ''payload_not_object'']))
      = (payload_of raw, ws)" by (metis prod.collapse)
  then show ?thesis
    using vt identity_refused [OF configured_lookup(2)] identity_refused [OF configured_lookup(3)]
      identity_refused [OF configured_lookup(4)] identity_refused [OF configured_lookup(5)]
    by (simp add: normalize_qdrant_point_def Let_def point_of_def case_prod_beta flip: projection_of_def)
qed

section \<open>An endpoint with a path\<close>

lemma count_slashes: "count_list (xs @ ys) (c::nat) = count_list xs c + count_list ys c"
  by (induction xs) simp_all

lemma collection_info_slashes: "collection_info_match p \<Longrightarrow> count_list p 47 = 2"
proof -
  assume m: "collection_info_match p"
  have "count_list p 47 = count_list (take 13 p) 47 + count_list (drop 13 p) 47"
    by (metis append_take_drop_id count_slashes)
  then show ?thesis using m by (simp add: collection_info_match_def count_list_0_iff) (simp add: py_def)
qed

lemma collection_path_blocked:
  assumes "47 \<in> set (qn_base_path c)"
  shows "\<exists>m. qdrant_request send c ''GET'' (collection_path c) body s = (Inl (ConnectorMutationBlockedError m), s)"
proof -
  let ?p = "qn_base_path c @ collection_path c"
  have "count_list (qn_base_path c) 47 \<noteq> 0" using assms by (simp add: count_list_0_iff)
  then have "0 < count_list (qn_base_path c) 47" by (rule neq0_conv [THEN iffD1])
  then have "2 < count_list ?p 47" by (simp add: collection_path_def count_slashes) (simp add: py_def)
  then have "\<not> collection_info_match ?p" "?p \<notin> {py ''/aliases'', [], py ''/''}"
    using collection_info_slashes [of ?p] by (auto simp: py_def simp del: count_list_append)
  then have "\<not> is_allowed_request ''GET'' ?p" by (simp add: is_allowed_request_def)
  then show ?thesis by (simp add: qdrant_request_def request_loop.simps guard_request_def)
qed

text \<open>
  An endpoint with a path is a valid configuration, but the guard compares the whole path of a
  request: the connector's own first request is blocked and nothing is ever read.
\<close>

theorem prefixed_endpoint_blocked:
  assumes "47 \<in> set (qn_base_path c)" "qn_schema_cache c = None"
  shows "\<exists>m. inspect_qdrant L send c s = (Inl (Raised (ConnectorMutationBlockedError m)), c, s) \<and>
    test_qdrant_connection L send c latency_ms s = (Inl (ConnectorMutationBlockedError m), s) \<and>
    iterate_qdrant_points L clock send c checkpoint projection include_vectors s =
      Some (([], Some (Raised (ConnectorMutationBlockedError m))), c, s)"
proof -
  obtain m where "qdrant_request send c ''GET'' (collection_path c) None s = (Inl (ConnectorMutationBlockedError m), s)"
    using collection_path_blocked [OF assms(1), of send None s] by (elim exE)
  then show ?thesis
    by (simp add: inspect_qdrant_def test_qdrant_connection_def iterate_qdrant_points_def with_response_def assms(2))
qed

definition sample_net :: net_env where
  "sample_net = \<lparr>ne_unicode = plain_unicode, ne_nfkc = id\<rparr>"

definition no_mapping :: field_mapping where
  "no_mapping = \<lparr>fm_source_id = None, fm_source_version_id = None, fm_chunk_id = None, fm_embedding_id = None, fm_tenant = None,
     fm_acl = None\<rparr>"

definition sample_qdrant :: "string \<Rightarrow> qdrant_config" where
  "sample_qdrant endpoint =
     \<lparr>qc_endpoint = py endpoint, qc_collection = py ''docs'', qc_api_key_env = None, qc_vector_name = None,
      qc_payload_mapping = no_mapping, qc_include_vectors = False, qc_page_size = 1, qc_embedding_dimension = None,
      qc_connect_timeout_seconds = 5, qc_read_timeout_seconds = 30, qc_max_retries = 3\<rparr>"

lemmas url_simps = urlsplit_def split_scheme_def netloc_ok_def is_ascii_def is_letter_def scheme_char_def hostname_def host_info_def
  after_last_def has_credentials_def py_def ascii_lower_def is_digit_def sample_net_def plain_unicode_def Let_def

theorem prefixed_endpoint_blocked_witness:
  "\<exists>config c. validate_qdrant_config sample_net (sample_qdrant ''https://h/q'') = Inr config \<and> qdrant_connector_of sample_net config = Some c \<and>
     (\<exists>m. inspect_qdrant sample_platform (\<lambda>rq s. (Inl [], s)) c () = (Inl (Raised (ConnectorMutationBlockedError m)), c, ()))"
proof -
  obtain config c where c: "validate_qdrant_config sample_net (sample_qdrant ''https://h/q'') = Inr config"
    "qdrant_connector_of sample_net config = Some c" "qn_base_path c = py ''/q''" "qn_schema_cache c = None"
    by (simp add: validate_qdrant_config_def validate_endpoint_def qdrant_connector_of_def sample_qdrant_def identifier_match_def
        is_word_name_def chomp_def ident_start_def ident_char_def invalid_mapping_fields_def configured_items_def mapping_fields_def
        no_mapping_def optional_ge_def url_simps)
  then have "47 \<in> set (qn_base_path c)" by (simp add: py_def)
  from prefixed_endpoint_blocked [OF this c(4), of sample_platform "\<lambda>rq s. (Inl [], s)" "()"] c(1,2) show ?thesis by blast
qed


theorem scroll_complete_witness:
  "\<exists>config c. validate_qdrant_config sample_net (sample_qdrant ''https://h/'') = Inr config \<and> qdrant_connector_of sample_net config = Some c \<and>
     (\<forall>now. scroll_loop (scroll_page (\<lambda>n. normalize_qdrant_point sample_platform c now False) (page_server [JObj [(py ''id'', JInt 7)], JObj [(py ''id'', JInt 9)]]) c (JBool False))
       [] None () = Some (normalize_page (\<lambda>n. normalize_qdrant_point sample_platform c now False) 0 [JObj [(py ''id'', JInt 7)], JObj [(py ''id'', JInt 9)]], ()))"
proof -
  obtain config c where c: "validate_qdrant_config sample_net (sample_qdrant ''https://h/'') = Inr config"
    "qdrant_connector_of sample_net config = Some c" "qn_base_path c = []" "qn_config c = config" "qc_page_size config = 1"
    "qc_collection config = py ''docs''"
    by (simp add: validate_qdrant_config_def validate_endpoint_def qdrant_connector_of_def sample_qdrant_def identifier_match_def
        is_word_name_def chomp_def ident_start_def ident_char_def invalid_mapping_fields_def configured_items_def mapping_fields_def
        no_mapping_def optional_ge_def url_simps)
  have "identifier_match (qc_collection (qn_config c))" "1 \<le> qc_page_size (qn_config c)"
    by (simp_all add: c identifier_match_def is_word_name_def chomp_def ident_start_def ident_char_def url_simps)
  note complete = scroll_complete [OF c(3) this]
  show ?thesis by (rule exI [of _ config], rule exI [of _ c], intro conjI allI, rule c(1), rule c(2), rule complete)
qed

end
