(* ===== verification/Pgvector.thy ===== *)
theory Pgvector
  imports Qdrant
begin

text \<open>
  \<open>ragledger.connectors.pgvector\<close>: the statement guard, the queries the connector composes, the
  normalisation of a row and a pass over a table. A composed query is a list of pieces: literal
  SQL, identifiers and placeholders; its text is what \<open>as_string\<close> renders. The database is a
  parameter with a state of its own: it executes a statement with its parameters, or raises.
  A value of a row is a JSON value, or the text of an object of another class (a \<open>Decimal\<close>, a
  date, a UUID), of which the code only takes \<open>str\<close>.
\<close>

section \<open>The guard\<close>

definition word_boundary_after :: "string \<Rightarrow> pystr \<Rightarrow> bool" where
  "word_boundary_after keyword s \<longleftrightarrow>
     map ascii_lower (take (length keyword) s) = map ascii_lower (py keyword)
     \<and> (case drop (length keyword) s of [] \<Rightarrow> True | c # cs \<Rightarrow> \<not> ident_char c)"

text \<open>\<open>^\s*(SELECT|SHOW)\b\<close> without case; the texts composed here are ASCII.\<close>

definition allowed_statement :: "pystr \<Rightarrow> bool" where
  "allowed_statement s \<longleftrightarrow>
     (let body = dropWhile is_space s in word_boundary_after ''SELECT'' body \<or> word_boundary_after ''SHOW'' body)"

definition assert_read_only_statement :: "platform \<Rightarrow> pystr \<Rightarrow> connector_error + unit" where
  "assert_read_only_statement L query_text =
     (if \<not> allowed_statement query_text
      then Inl (ConnectorMutationBlockedError (py ''blocked non-read SQL statement: '' @ repr_str L (take 120 (strip query_text))))
      else Inr ())"

section \<open>Composed queries\<close>

datatype sql_piece = Sql string | Ident pystr | Placeholder

definition quote_ident :: "pystr \<Rightarrow> pystr" where
  "quote_ident s = [34] @ concat (map (\<lambda>c. if c = 34 then [34, 34] else [c]) s) @ [34]"

primrec render_piece :: "sql_piece \<Rightarrow> pystr" where
  "render_piece (Sql s) = py s"
| "render_piece (Ident name) = quote_ident name"
| "render_piece Placeholder = py ''%s''"

definition as_string :: "sql_piece list \<Rightarrow> pystr" where
  "as_string q = concat (map render_piece q)"

definition placeholders :: "sql_piece list \<Rightarrow> nat" where
  "placeholders q = length (filter (\<lambda>p. p = Placeholder) q)"

text \<open>\<open>sql.SQL(sep).join(parts)\<close>.\<close>

definition join_sql :: "string \<Rightarrow> sql_piece list list \<Rightarrow> sql_piece list" where
  "join_sql sep parts = join [Sql sep] parts"

definition table_ident :: "pgvector_config \<Rightarrow> sql_piece list" where
  "table_ident c = join_sql ''.'' [[Ident (pc_schema_name c)], [Ident (pc_table c)]]"

text \<open>A parameter is a value or a list of values.\<close>

datatype sql_param = Param json | ParamList "json list"

primrec where_fragment :: "pystr \<Rightarrow> where_value \<Rightarrow> sql_piece list \<times> sql_param" where
  "where_fragment column (WhereScalar v) = ([Ident column, Sql '' = '', Placeholder], Param v)"
| "where_fragment column (WhereList vs) = ([Ident column, Sql '' = ANY('', Placeholder, Sql '')''], ParamList vs)"

definition where_fragments :: "pgvector_config \<Rightarrow> sql_piece list list \<times> sql_param list" where
  "where_fragments c =
     (let fs = map (\<lambda>(column, v). where_fragment column v) (pc_where c) in (map fst fs, map snd fs))"

definition where_clause :: "sql_piece list list \<Rightarrow> sql_piece list" where
  "where_clause fragments = (if fragments = [] then [] else [Sql '' WHERE ''] @ join_sql '' AND '' fragments)"

definition select_columns :: "pgvector_config \<Rightarrow> bool \<Rightarrow> pystr list" where
  "select_columns c include_vectors =
     (let mapped = foldl (\<lambda>columns item. if snd item \<in> set columns then columns else columns @ [snd item])
            (pc_primary_key c) (configured_items (pc_mapping c))
      in if include_vectors \<and> pc_vector_column c \<notin> set mapped then mapped @ [pc_vector_column c] else mapped)"

text \<open>The condition that resumes after a checkpoint: a comparison of the key's columns.\<close>

definition checkpoint_condition :: "pgvector_config \<Rightarrow> json option \<Rightarrow> connector_error + (sql_piece list \<times> sql_param list) option" where
  "checkpoint_condition c checkpoint =
     (case checkpoint of
        None \<Rightarrow> Inr None
      | Some (JObj d) \<Rightarrow>
          (let pk = pc_primary_key c; missing = filter (\<lambda>col. map_of d col = None) pk in
           if missing \<noteq> [] then Inl (ConnectorConfigError (py ''checkpoint missing primary key column(s)''))
           else Inr (Some ([Sql ''(''] @ join_sql '', '' (map (\<lambda>col. [Ident col]) pk) @ [Sql '') > (''] @ join_sql '', '' (map (\<lambda>_. [Placeholder]) pk)
                         @ [Sql '')''],
                       map (\<lambda>col. Param (the (map_of d col))) pk)))
      | Some _ \<Rightarrow> Inl (ConnectorConfigError (py ''pgvector checkpoint must be a JSON object of primary key column values'')))"

definition build_query :: "pgvector_config \<Rightarrow> json option \<Rightarrow> bool \<Rightarrow> connector_error + sql_piece list \<times> sql_param list" where
  "build_query c checkpoint include_vectors =
     andThen (checkpoint_condition c checkpoint) (\<lambda>resume.
       let (fragments, params) = where_fragments c;
           fragments' = fragments @ (case resume of None \<Rightarrow> [] | Some (q, ps) \<Rightarrow> [q]);
           params' = params @ (case resume of None \<Rightarrow> [] | Some (q, ps) \<Rightarrow> ps)
       in Inr ([Sql ''SELECT ''] @ join_sql '', '' (map (\<lambda>col. [Ident col]) (select_columns c include_vectors)) @ [Sql '' FROM '']
               @ table_ident c @ where_clause fragments' @ [Sql '' ORDER BY '']
               @ join_sql '', '' (map (\<lambda>col. [Ident col]) (pc_primary_key c)), params'))"

definition count_query :: "pgvector_config \<Rightarrow> sql_piece list \<times> sql_param list" where
  "count_query c =
     (case where_fragments c of
        (fragments, params) \<Rightarrow> ([Sql ''SELECT count(*) AS row_count FROM ''] @ table_ident c @ where_clause fragments, params))"

definition dimension_query :: "pgvector_config \<Rightarrow> sql_piece list \<times> sql_param list" where
  "dimension_query c =
     ([Sql (''SELECT a.atttypmod AS atttypmod, t.typname AS typname FROM pg_attribute a JOIN pg_class c ON a.attrelid = c.oid ''
          @ ''JOIN pg_namespace n ON c.relnamespace = n.oid JOIN pg_type t ON a.atttypid = t.oid WHERE n.nspname = ''), Placeholder,
       Sql '' AND c.relname = '', Placeholder, Sql '' AND a.attname = '', Placeholder, Sql '' AND a.attnum > 0 AND NOT a.attisdropped''],
      [Param (JStr (pc_schema_name c)), Param (JStr (pc_table c)), Param (JStr (pc_vector_column c))])"

definition index_query :: "pgvector_config \<Rightarrow> sql_piece list \<times> sql_param list" where
  "index_query c =
     ([Sql (''SELECT i.relname AS index_name FROM pg_class t JOIN pg_namespace n ON t.relnamespace = n.oid ''
          @ ''JOIN pg_index ix ON ix.indrelid = t.oid JOIN pg_class i ON i.oid = ix.indexrelid WHERE n.nspname = ''), Placeholder,
       Sql '' AND t.relname = '', Placeholder, Sql '' ORDER BY i.relname''],
      [Param (JStr (pc_schema_name c)), Param (JStr (pc_table c))])"

definition qualified_name :: "pgvector_config \<Rightarrow> pystr" where
  "qualified_name c = pc_schema_name c @ [46] @ pc_table c"

definition privilege_query :: "pgvector_config \<Rightarrow> sql_piece list \<times> sql_param list" where
  "privilege_query c =
     ([Sql ''SELECT to_regclass('', Placeholder, Sql '') AS relation, has_table_privilege('', Placeholder, Sql (CHR 0x2C # CHR 0x20 # CHR 0x27 # ''SELECT''
         @ CHR 0x27 # '') AS has_select'')],
      [Param (JStr (qualified_name c)), Param (JStr (qualified_name c))])"

section \<open>The database\<close>

datatype db_value = Plain json | Opaque pystr

type_synonym db_row = "(pystr \<times> db_value) list"

datatype pg_error = PgRaised connector_error | DatabaseError pystr | RowInvalid

text \<open>
  What the connection does: it rolls back, commits, and executes statements; a server-side cursor
  gives the rows of its query in order. Each may raise.
\<close>

record 'd database =
  db_rollback :: "'d \<Rightarrow> 'd"
  db_commit :: "'d \<Rightarrow> 'd"
  db_execute :: "pystr \<Rightarrow> sql_param list \<Rightarrow> 'd \<Rightarrow> (pystr + db_row list) \<times> 'd"

text \<open>\<open>_GuardedCursor.execute\<close>, and the rows it fetches.\<close>

definition guarded_execute ::
  "platform \<Rightarrow> 'd database \<Rightarrow> sql_piece list \<times> sql_param list \<Rightarrow> 'd \<Rightarrow> (pg_error + db_row list) \<times> 'd" where
  "guarded_execute L db q d =
     (case assert_read_only_statement L (as_string (fst q)) of
        Inl e \<Rightarrow> (Inl (PgRaised e), d)
      | Inr _ \<Rightarrow>
          (case db_execute db (as_string (fst q)) (snd q) d of
             (Inl m, d') \<Rightarrow> (Inl (DatabaseError m), d')
           | (Inr rows, d') \<Rightarrow> (Inr rows, d')))"

definition column :: "db_row \<Rightarrow> pystr \<Rightarrow> db_value" where
  "column row name = (case map_of row name of None \<Rightarrow> Plain JNull | Some v \<Rightarrow> v)"

definition int_column :: "db_row \<Rightarrow> string \<Rightarrow> int option" where
  "int_column row name = (case column row (py name) of Plain (JInt n) \<Rightarrow> Some n | _ \<Rightarrow> None)"

definition count_rows :: "platform \<Rightarrow> 'd database \<Rightarrow> pgvector_config \<Rightarrow> 'd \<Rightarrow> (pg_error + int option) \<times> 'd" where
  "count_rows L db c d =
     (case guarded_execute L db (count_query c) d of
        (Inl e, d') \<Rightarrow> (Inl e, d')
      | (Inr [], d') \<Rightarrow> (Inr None, d')
      | (Inr (row # rows), d') \<Rightarrow> (Inr (int_column row ''row_count''), d'))"

definition vector_type_names :: "pystr list" where
  "vector_type_names = [py ''vector'', py ''halfvec'', py ''sparsevec'']"

definition dimension_of_row :: "db_row \<Rightarrow> int option" where
  "dimension_of_row row =
     (case int_column row ''atttypmod'' of
        None \<Rightarrow> None
      | Some n \<Rightarrow>
          if n \<le> 0 then None
          else if \<exists>t\<in>set vector_type_names. column row (py ''typname'') = Plain (JStr t) then Some n
          else if 4 < n then Some (n - 4) else None)"

definition fetch_vector_dimension :: "platform \<Rightarrow> 'd database \<Rightarrow> pgvector_config \<Rightarrow> 'd \<Rightarrow> (pg_error + int option) \<times> 'd" where
  "fetch_vector_dimension L db c d =
     (case guarded_execute L db (dimension_query c) d of
        (Inl e, d') \<Rightarrow> (Inl e, d')
      | (Inr [], d') \<Rightarrow> (Inr None, d')
      | (Inr (row # rows), d') \<Rightarrow> (Inr (dimension_of_row row), d'))"

definition fetch_index_names :: "platform \<Rightarrow> 'd database \<Rightarrow> pgvector_config \<Rightarrow> 'd \<Rightarrow> (pg_error + json list) \<times> 'd" where
  "fetch_index_names L db c d =
     (case guarded_execute L db (index_query c) d of
        (Inl e, d') \<Rightarrow> (Inl e, d')
      | (Inr rows, d') \<Rightarrow> (Inr (map (\<lambda>row. case column row (py ''index_name'') of Plain v \<Rightarrow> v | Opaque s \<Rightarrow> JStr s) rows), d'))"

section \<open>The connector\<close>

record pgvector_connector =
  pg_config :: pgvector_config
  pg_schema_cache :: "target_schema option"
  pg_consistency :: "consistency_info option"

definition pg_schema_of :: "pgvector_config \<Rightarrow> int option \<Rightarrow> json list \<Rightarrow> int option \<Rightarrow> target_schema" where
  "pg_schema_of c dimension index_names approx_count =
     \<lparr>ts_target_id = qualified_name c, ts_scope = qualified_name c,
      ts_vector_fields = (case dimension of None \<Rightarrow> [] | Some n \<Rightarrow> [\<lparr>vf_name = pc_vector_column c, vf_dimension = n, vf_distance = None\<rparr>]),
      ts_point_id_type = (if 1 < length (pc_primary_key c) then py ''composite'' else py ''scalar''), ts_payload_indexes = [],
      ts_approx_point_count = approx_count, ts_resolved_scope = None,
      ts_extra = (if index_names = [] then [] else [(py ''indexes'', JList index_names)])\<rparr>"

definition inspect_pgvector ::
  "platform \<Rightarrow> 'd database \<Rightarrow> pgvector_connector \<Rightarrow> 'd \<Rightarrow> (pg_error + target_schema) \<times> pgvector_connector \<times> 'd" where
  "inspect_pgvector L db c d0 =
     (case fetch_vector_dimension L db (pg_config c) (db_rollback db d0) of
        (Inl e, d1) \<Rightarrow> (Inl e, c, d1)
      | (Inr dimension, d1) \<Rightarrow>
          (case fetch_index_names L db (pg_config c) d1 of
             (Inl e, d2) \<Rightarrow> (Inl e, c, d2)
           | (Inr names, d2) \<Rightarrow>
               (case count_rows L db (pg_config c) d2 of
                  (Inl e, d3) \<Rightarrow> (Inl e, c, d3)
                | (Inr approx, d3) \<Rightarrow>
                    (let schema = pg_schema_of (pg_config c) dimension names approx
                     in (Inr schema, c\<lparr>pg_schema_cache := Some schema\<rparr>, db_commit db d3)))))"

text \<open>A refusal of the guard propagates, any other error is reported.\<close>

definition test_pgvector_connection ::
  "platform \<Rightarrow> 'd database \<Rightarrow> pgvector_connector \<Rightarrow> float64 \<Rightarrow> 'd \<Rightarrow> (connector_error + connection_test_result) \<times> 'd" where
  "test_pgvector_connection L db c latency_ms d =
     (let result = (\<lambda>good message latency d'. (Inr \<lparr>ct_ok = good, ct_message = message, ct_latency_ms = latency\<rparr>, d'));
          qualified = repr_str L (qualified_name (pg_config c))
      in case guarded_execute L db (privilege_query (pg_config c)) (db_rollback db d) of
           (Inl (PgRaised e), d') \<Rightarrow> (Inl e, d')
         | (Inl (DatabaseError m), d') \<Rightarrow> result False (py ''connection check failed: '' @ m) None d'
         | (Inl RowInvalid, d') \<Rightarrow> result False (py ''connection check failed: '') None d'
         | (Inr rows, d') \<Rightarrow>
             (let d'' = db_commit db d' in
              case rows of
                [] \<Rightarrow> result False (py ''table '' @ qualified @ py '' not found'') (Some latency_ms) d''
              | row # _ \<Rightarrow>
                  if column row (py ''relation'') = Plain JNull
                  then result False (py ''table '' @ qualified @ py '' not found'') (Some latency_ms) d''
                  else if column row (py ''has_select'') \<noteq> Plain (JBool True)
                  then result False (py ''missing SELECT privilege on '' @ qualified) (Some latency_ms) d''
                  else result True (py ''reachable'') (Some latency_ms) d''))"

section \<open>Rows\<close>

definition coerce_scalar :: "platform \<Rightarrow> db_value \<Rightarrow> json" where
  "coerce_scalar L v =
     (case v of
        Opaque s \<Rightarrow> JStr s
      | Plain j \<Rightarrow> (case j of JList vs \<Rightarrow> JStr (py_str L j) | JObj d \<Rightarrow> JStr (py_str L j) | _ \<Rightarrow> j))"

definition db_str :: "platform \<Rightarrow> db_value \<Rightarrow> pystr" where
  "db_str L v = (case v of Opaque s \<Rightarrow> s | Plain j \<Rightarrow> py_str L j)"

definition coerce_acl_value :: "platform \<Rightarrow> db_value \<Rightarrow> json \<times> pystr list" where
  "coerce_acl_value L v =
     (case v of
        Plain (JList items) \<Rightarrow> (JList (map (\<lambda>i. JStr (py_str L i)) items), [])
      | Plain (JStr s) \<Rightarrow> (JList [JStr s], [])
      | _ \<Rightarrow> (JList [JStr (db_str L v)], [py ''acl_not_list'']))"

text \<open>\<open>float(item)\<close>: of a number, or of a string by the parser \<open>parse\<close> of Python's \<open>float\<close>.\<close>

definition float_item :: "(pystr \<Rightarrow> pyfloat option) \<Rightarrow> json \<Rightarrow> pyfloat option" where
  "float_item parse v = (case v of JStr s \<Rightarrow> parse s | _ \<Rightarrow> map_option Finite (number_of v))"

definition all_floats :: "pyfloat option list \<Rightarrow> pyfloat list option" where
  "all_floats vs = (if list_all (\<lambda>v. v \<noteq> None) vs then Some (map the vs) else None)"

definition parse_pgvector_literal :: "(pystr \<Rightarrow> pyfloat option) \<Rightarrow> db_value \<Rightarrow> pyfloat list option" where
  "parse_pgvector_literal parse v =
     (case v of
        Plain (JList items) \<Rightarrow> all_floats (map (float_item parse) items)
      | Plain (JStr s) \<Rightarrow>
          (let t = strip s;
               body = (if take 1 t = [91] \<and> t \<noteq> [] \<and> last t = 93 then butlast (drop 1 t) else t)
           in if body = [] then Some [] else all_floats (map parse (split_char 44 body)))
      | _ \<Rightarrow> None)"

text \<open>\<open>hash_vector\<close> refuses what is no finite number.\<close>

definition hash_pg_vector :: "platform \<Rightarrow> pyfloat list \<Rightarrow> pg_error + pystr" where
  "hash_pg_vector L xs =
     andThen (collect (map (\<lambda>x. case x of Finite r \<Rightarrow> Inr r | _ \<Rightarrow> Inl RowInvalid) xs)) (\<lambda>rs. Inr (hash_vector L rs))"

definition pg_point_id :: "platform \<Rightarrow> pystr list \<Rightarrow> db_row \<Rightarrow> json" where
  "pg_point_id L pk row =
     (case pk of
        [col] \<Rightarrow> coerce_scalar L (column row col)
      | _ \<Rightarrow> JObj (foldl (\<lambda>d col. dict_set col (coerce_scalar L (column row col)) d) [] pk))"

definition point_id_text :: "platform \<Rightarrow> json \<Rightarrow> pystr" where
  "point_id_text L v = (case v of JObj d \<Rightarrow> canonicalize L v | JList vs \<Rightarrow> canonicalize L v | _ \<Rightarrow> py_str L v)"

definition project_column :: "platform \<Rightarrow> db_row \<Rightarrow> string \<times> pystr \<Rightarrow> dict \<times> pystr list" where
  "project_column L row item =
     (case item of (logical_name, col) \<Rightarrow>
        (let v = column row col in
         if v = Plain JNull then ([], [py (''missing_mapped_field:'' @ logical_name)])
         else if logical_name = ''acl'' then (case coerce_acl_value L v of (acl, ws) \<Rightarrow> ([(py ''acl'', acl)], ws))
         else if logical_name = ''tenant'' then ([(py ''tenant'', JStr (db_str L v))], [])
         else ([(py logical_name, coerce_scalar L v)], [])))"

definition pg_vector_hashes ::
  "platform \<Rightarrow> (pystr \<Rightarrow> pyfloat option) \<Rightarrow> bool \<Rightarrow> pystr \<Rightarrow> db_value \<Rightarrow> pg_error + (pystr \<times> pystr) list option \<times> pystr list" where
  "pg_vector_hashes L parse include_vectors vector_column v =
     (if \<not> include_vectors then Inr (None, [])
      else if v = Plain JNull then Inr (None, [py ''vector_retrieval_enabled'', py ''vector_missing''])
      else (case parse_pgvector_literal parse v of
              None \<Rightarrow> Inr (None, [py ''vector_retrieval_enabled'', py ''vector_shape_unrecognized''])
            | Some xs \<Rightarrow> andThen (hash_pg_vector L xs) (\<lambda>h. Inr (Some [(vector_column, h)], [py ''vector_retrieval_enabled'']))))"

definition normalize_pgvector_row ::
  "platform \<Rightarrow> (pystr \<Rightarrow> pyfloat option) \<Rightarrow> pgvector_connector \<Rightarrow> utc_datetime \<Rightarrow> bool \<Rightarrow> db_row \<Rightarrow> pg_error + normalized_point" where
  "normalize_pgvector_row L parse c now include_vectors row =
     (let config = pg_config c;
          point_id = pg_point_id L (pc_primary_key config) row;
          mapped = map (project_column L row) (configured_items (pc_mapping config));
          vectors = (case pg_schema_cache c of None \<Rightarrow> [] | Some t \<Rightarrow> map (\<lambda>f. (vf_name f, vf_dimension f)) (ts_vector_fields t));
          scope = qualified_name config
      in andThen (pg_vector_hashes L parse include_vectors (pc_vector_column config) (column row (pc_vector_column config)))
           (\<lambda>(hashes, vector_warnings).
              case point_of L scope point_id vectors hashes (concat (map fst mapped)) now
                     (py ''pgvector:'' @ scope @ py ''#'' @ point_id_text L point_id) (concat (map snd mapped) @ vector_warnings) of
                Inl _ \<Rightarrow> Inl RowInvalid
              | Inr p \<Rightarrow> Inr p))"

section \<open>A pass\<close>

fun normalize_rows :: "(nat \<Rightarrow> db_row \<Rightarrow> pg_error + normalized_point) \<Rightarrow> nat \<Rightarrow> db_row list \<Rightarrow> normalized_point list \<times> pg_error option" where
  "normalize_rows f n [] = ([], None)"
| "normalize_rows f n (row # rows) =
     (case f n row of
        Inl e \<Rightarrow> ([], Some e)
      | Inr p \<Rightarrow> (case normalize_rows f (n + 1) rows of (ps, e) \<Rightarrow> (p # ps, e)))"

definition pass_consistency :: "consistency_setting \<Rightarrow> int option \<Rightarrow> int option \<Rightarrow> nat \<Rightarrow> consistency_info" where
  "pass_consistency setting start_count end_count yielded =
     (case setting of
        RepeatableRead \<Rightarrow>
          \<lparr>ci_mode = STRICT_CONSISTENT, ci_completeness = COMPLETE, ci_start_count = start_count, ci_end_count = start_count,
           ci_observed_count = int yielded, ci_detail = None\<rparr>
      | BestEffortPaged \<Rightarrow>
          (let verdict = (case (start_count, end_count) of
                 (Some a, Some b) \<Rightarrow>
                   if a \<noteq> b then (INCOMPLETE, Some (py ''row count drifted from '' @ show_int a @ py '' to '' @ show_int b)) else (COMPLETE, None)
               | _ \<Rightarrow> (COMPLETE, Some (py ''row count unavailable for one or both consistency probes'')))
           in \<lparr>ci_mode = BEST_EFFORT_PAGED, ci_completeness = fst verdict, ci_start_count = start_count, ci_end_count = end_count,
               ci_observed_count = int yielded, ci_detail = snd verdict\<rparr>))"

text \<open>After the stream the transaction ends; only the paged mode counts again.\<close>

definition end_of_pass ::
  "platform \<Rightarrow> 'd database \<Rightarrow> pgvector_connector \<Rightarrow> int option \<Rightarrow> normalized_point list \<Rightarrow> 'd
   \<Rightarrow> (normalized_point list \<times> pg_error option) \<times> pgvector_connector \<times> 'd" where
  "end_of_pass L db c start_count points d =
     (let setting = pc_consistency (pg_config c); d1 = db_commit db d;
          info = (\<lambda>e. c\<lparr>pg_consistency := Some (pass_consistency setting start_count e (length points))\<rparr>)
      in case setting of
           RepeatableRead \<Rightarrow> ((points, None), info start_count, d1)
         | BestEffortPaged \<Rightarrow>
             (case count_rows L db (pg_config c) d1 of
                (Inl e, d2) \<Rightarrow> ((points, Some e), c, d2)
              | (Inr end_count, d2) \<Rightarrow> ((points, None), info end_count, d2)))"

text \<open>
  The statement executes in a cursor that gives its rows in batches of \<open>fetch_size\<close>; they are
  normalised and projected one by one, and the first that raises ends the pass.
\<close>

definition stream_points ::
  "platform \<Rightarrow> (pystr \<Rightarrow> pyfloat option) \<Rightarrow> (nat \<Rightarrow> utc_datetime) \<Rightarrow> 'd database \<Rightarrow> pgvector_connector \<Rightarrow> json option
   \<Rightarrow> pystr list option \<Rightarrow> bool \<Rightarrow> 'd \<Rightarrow> (normalized_point list \<times> pg_error option) \<times> pgvector_connector \<times> 'd" where
  "stream_points L parse clock db c checkpoint projection include_vectors d =
     (case count_rows L db (pg_config c) d of
        (Inl e, d1) \<Rightarrow> (([], Some e), c, d1)
      | (Inr start_count, d1) \<Rightarrow>
          (case build_query (pg_config c) checkpoint include_vectors of
             Inl e \<Rightarrow> (([], Some (PgRaised e)), c, d1)
           | Inr q \<Rightarrow>
               (case guarded_execute L db q d1 of
                  (Inl e, d2) \<Rightarrow> (([], Some e), c, d2)
                | (Inr rows, d2) \<Rightarrow>
                    (case normalize_rows (\<lambda>n row. andThen (normalize_pgvector_row L parse c (clock n) include_vectors row)
                              (\<lambda>p. Inr (apply_projection L p projection))) 0 rows of
                       (points, Some e) \<Rightarrow> ((points, Some e), c, d2)
                     | (points, None) \<Rightarrow> end_of_pass L db c start_count points d2))))"

definition iterate_pgvector_points ::
  "platform \<Rightarrow> (pystr \<Rightarrow> pyfloat option) \<Rightarrow> (nat \<Rightarrow> utc_datetime) \<Rightarrow> 'd database \<Rightarrow> pgvector_connector \<Rightarrow> json option
   \<Rightarrow> pystr list option \<Rightarrow> bool \<Rightarrow> 'd \<Rightarrow> (normalized_point list \<times> pg_error option) \<times> pgvector_connector \<times> 'd" where
  "iterate_pgvector_points L parse clock db c0 checkpoint projection include_vectors d =
     (let d0 = db_rollback db d in
      case (if pg_schema_cache c0 = None
            then (case inspect_pgvector L db c0 d0 of (Inl e, c, d1) \<Rightarrow> (Some e, c, d1) | (Inr _, c, d1) \<Rightarrow> (None, c, d1))
            else (None, c0, d0)) of
        (Some e, c, d1) \<Rightarrow> (([], Some e), c, d1)
      | (None, c, d1) \<Rightarrow> stream_points L parse clock db c checkpoint projection include_vectors d1)"

text \<open>\<open>_ensure_connection\<close>: what the attempts give, \<open>max_connect_retries\<close> more than one at most.\<close>

function connect_loop :: "(nat \<Rightarrow> pystr + 'd) \<Rightarrow> nat \<Rightarrow> nat \<Rightarrow> connector_error + 'd" where
  "connect_loop attempt_connect max_retries attempt =
     (case attempt_connect attempt of
        Inr d \<Rightarrow> Inr d
      | Inl e \<Rightarrow>
          if attempt + 1 > max_retries
          then Inl (ConnectorConnectionError (py ''failed to connect to pgvector target after '' @ show_nat (attempt + 1) @ py '' attempt(s): '' @ e))
          else connect_loop attempt_connect max_retries (attempt + 1))"
  by pat_completeness auto
termination
  by (relation "measure (\<lambda>(attempt_connect, max_retries, attempt). max_retries - attempt)") auto

declare connect_loop.simps [simp del]

definition ensure_connection ::
  "platform \<Rightarrow> (pystr \<Rightarrow> pystr option) \<Rightarrow> (pystr \<Rightarrow> nat \<Rightarrow> pystr + 'd) \<Rightarrow> pgvector_config \<Rightarrow> connector_error + 'd" where
  "ensure_connection L env connect c =
     andThen (resolve_env_credential L env (pc_dsn_env c)) (\<lambda>dsn. connect_loop (connect dsn) (nat (pc_max_connect_retries c)) 0)"

section \<open>The statements\<close>

lemma select_allowed:
  assumes "take 7 t = ''SELECT ''"
  shows "allowed_statement (as_string (Sql t # q))"
proof -
  obtain u where "t = ''SELECT '' @ u" using assms by (metis append_take_drop_id)
  then show ?thesis
    by (simp add: allowed_statement_def as_string_def py_def is_space_def word_boundary_after_def ascii_lower_def ident_char_def ident_start_def
        is_letter_def is_digit_def)
qed

lemma placeholders_simps [simp]:
  "placeholders [] = 0"
  "placeholders (p # q) = (if p = Placeholder then 1 else 0) + placeholders q"
  "placeholders (q @ r) = placeholders q + placeholders r"
  by (simp_all add: placeholders_def)

lemma placeholders_join [simp]: "placeholders (join_sql sep parts) = sum_list (map placeholders parts)"
proof -
  have "placeholders (join [Sql sep] parts) = sum_list (map placeholders parts)"
    by (induction parts rule: induct_list012) simp_all
  then show ?thesis by (simp add: join_sql_def)
qed

lemma no_placeholders [simp]: "placeholders (table_ident c) = 0"
  by (simp add: table_ident_def)

lemma where_placeholders:
  "sum_list (map placeholders (fst (where_fragments c))) = length (snd (where_fragments c))"
proof -
  have one: "placeholders (fst (where_fragment column v)) = 1" for column v
    by (cases v) simp_all
  have "sum_list (map (placeholders \<circ> fst \<circ> (\<lambda>(column, v). where_fragment column v)) ws) = length ws" for ws
    by (induction ws) (auto simp: one)
  then show ?thesis by (simp add: where_fragments_def Let_def comp_assoc)
qed

lemma where_clause_placeholders [simp]: "placeholders (where_clause fs) = sum_list (map placeholders fs)"
  by (simp add: where_clause_def)

definition statement_ok :: "sql_piece list \<times> sql_param list \<Rightarrow> bool" where
  "statement_ok q \<longleftrightarrow> allowed_statement (as_string (fst q)) \<and> placeholders (fst q) = length (snd q)"

lemma fixed_statements_ok:
  "statement_ok (count_query c)" "statement_ok (dimension_query c)" "statement_ok (index_query c)" "statement_ok (privilege_query c)"
  using where_placeholders [of c]
  by (auto simp: statement_ok_def count_query_def dimension_query_def index_query_def privilege_query_def select_allowed split: prod.split)

lemma checkpoint_placeholders:
  "checkpoint_condition c checkpoint = Inr (Some (q, ps)) \<Longrightarrow> placeholders q = length ps"
  by (auto simp: checkpoint_condition_def Let_def comp_def sum_list_triv split: option.splits json.splits if_splits)

lemma build_query_ok: "build_query c checkpoint include_vectors = Inr q \<Longrightarrow> statement_ok q"
proof -
  assume b: "build_query c checkpoint include_vectors = Inr q"
  then obtain resume where r: "checkpoint_condition c checkpoint = Inr resume"
    by (cases "checkpoint_condition c checkpoint") (auto simp: build_query_def andThen_def)
  show "statement_ok q"
    using b r checkpoint_placeholders [of c checkpoint] where_placeholders [of c]
    by (auto simp: build_query_def andThen_def statement_ok_def select_allowed comp_def split: prod.splits option.splits)
qed

text \<open>
  Every statement the connector composes passes its guard and has a parameter for each placeholder;
  building the main query fails only on a checkpoint that is no object with the key's columns.
\<close>

theorem pgvector_statements_ok:
  "list_all statement_ok [count_query c, dimension_query c, index_query c, privilege_query c] \<and>
   (case build_query c checkpoint include_vectors of
      Inr q \<Rightarrow> statement_ok q
    | Inl e \<Rightarrow> (\<exists>m. e = ConnectorConfigError m) \<and>
        (case checkpoint of Some (JObj d) \<Rightarrow> list_ex (\<lambda>col. map_of d col = None) (pc_primary_key c) | None \<Rightarrow> False | _ \<Rightarrow> True))"
proof -
  have "(\<exists>m. e = ConnectorConfigError m) \<and>
        (case checkpoint of Some (JObj d) \<Rightarrow> list_ex (\<lambda>col. map_of d col = None) (pc_primary_key c) | None \<Rightarrow> False | _ \<Rightarrow> True)"
    if "build_query c checkpoint include_vectors = Inl e" for e
    using that
    by (auto simp: build_query_def andThen_def checkpoint_condition_def Let_def filter_empty_conv list_ex_iff
        split: sum.splits option.splits json.splits if_splits prod.splits)
  then show ?thesis by (simp add: fixed_statements_ok build_query_ok split: sum.split)
qed

section \<open>The text of a statement holds no value\<close>

primrec blank :: "where_value \<Rightarrow> where_value" where
  "blank (WhereScalar v) = WhereScalar JNull"
| "blank (WhereList vs) = WhereList []"

definition blank_values :: "pgvector_config \<Rightarrow> pgvector_config" where
  "blank_values c = c\<lparr>pc_where := map (\<lambda>(column, v). (column, blank v)) (pc_where c)\<rparr>"

definition blank_checkpoint :: "json option \<Rightarrow> json option" where
  "blank_checkpoint checkpoint = (case checkpoint of Some (JObj d) \<Rightarrow> Some (JObj (map (\<lambda>(k, v). (k, JNull)) d)) | _ \<Rightarrow> checkpoint)"

lemma where_fragments_blank: "fst (where_fragments (blank_values c)) = fst (where_fragments c)"
proof -
  have "fst (where_fragment column (blank v)) = fst (where_fragment column v)" for column v
    by (cases v) simp_all
  then show ?thesis by (simp add: where_fragments_def blank_values_def Let_def case_prod_beta)
qed

lemma blank_values_fields [simp]:
  "pc_primary_key (blank_values c) = pc_primary_key c" "pc_mapping (blank_values c) = pc_mapping c"
  "pc_vector_column (blank_values c) = pc_vector_column c" "table_ident (blank_values c) = table_ident c"
  by (simp_all add: blank_values_def table_ident_def)

lemma select_columns_blank [simp]: "select_columns (blank_values c) iv = select_columns c iv"
  by (simp add: select_columns_def Let_def)

lemma map_of_blank: "map_of (map (\<lambda>(k, v). (k, JNull)) d) k = None \<longleftrightarrow> map_of d k = None"
  by (induction d) auto

lemma checkpoint_condition_blank:
  "map_sum id (map_option fst) (checkpoint_condition (blank_values c) (blank_checkpoint checkpoint)) =
     map_sum id (map_option fst) (checkpoint_condition c checkpoint)"
  by (auto simp: checkpoint_condition_def blank_checkpoint_def Let_def map_of_blank split: option.split json.split)

lemma build_query_text:
  "map_sum id fst (build_query c checkpoint iv) =
     map_sum id (\<lambda>resume.
       [Sql ''SELECT ''] @ join_sql '', '' (map (\<lambda>col. [Ident col]) (select_columns c iv)) @ [Sql '' FROM '']
       @ table_ident c @ where_clause (fst (where_fragments c) @ (case resume of None \<Rightarrow> [] | Some q \<Rightarrow> [q])) @ [Sql '' ORDER BY '']
       @ join_sql '', '' (map (\<lambda>col. [Ident col]) (pc_primary_key c)))
       (map_sum id (map_option fst) (checkpoint_condition c checkpoint))"
  by (auto simp: build_query_def andThen_def case_prod_beta split: sum.split option.split)

text \<open>The names a statement may contain: those of the configuration.\<close>

definition configured_names :: "pgvector_config \<Rightarrow> pystr set" where
  "configured_names c =
     {pc_schema_name c, pc_table c, pc_vector_column c} \<union> set (pc_primary_key c) \<union> set (map snd (configured_items (pc_mapping c)))
     \<union> set (map fst (pc_where c))"

definition names_in :: "sql_piece list \<Rightarrow> pystr set" where
  "names_in q = {name. Ident name \<in> set q}"

lemma names_in_simps [simp]:
  "names_in [] = {}" "names_in (q @ r) = names_in q \<union> names_in r"
  "names_in (Sql t # q) = names_in q" "names_in (Ident n # q) = insert n (names_in q)" "names_in (Placeholder # q) = names_in q"
  by (auto simp: names_in_def)

lemma names_in_join [simp]: "names_in (join_sql sep parts) = \<Union> (names_in ` set parts)"
proof -
  have "names_in (join [Sql sep] parts) = \<Union> (names_in ` set parts)"
    by (induction parts rule: induct_list012) auto
  then show ?thesis by (simp add: join_sql_def)
qed

lemma where_fragment_names [simp]: "names_in (fst (where_fragment name v)) = {name}"
  by (cases v) simp_all

lemma where_fragments_names: "\<Union> (names_in ` set (fst (where_fragments c))) = set (map fst (pc_where c))"
  by (force simp: where_fragments_def Let_def case_prod_beta)

lemma where_clause_names [simp]: "names_in (where_clause fs) = \<Union> (names_in ` set fs)"
  by (simp add: where_clause_def)

lemma mapped_columns:
  "set (foldl (\<lambda>columns item. if snd item \<in> set columns then columns else columns @ [snd item]) pk items) \<subseteq> set pk \<union> set (map snd items)"
proof (induction items arbitrary: pk)
  case (Cons item items)
  show ?case using Cons.IH [of "if snd item \<in> set pk then pk else pk @ [snd item]"] by (auto split: if_splits)
qed simp

lemma select_columns_names: "set (select_columns c iv) \<subseteq> configured_names c"
proof -
  have "set (select_columns c iv) \<subseteq> set (pc_primary_key c) \<union> set (map snd (configured_items (pc_mapping c))) \<union> {pc_vector_column c}"
    using mapped_columns [of "pc_primary_key c" "configured_items (pc_mapping c)"]
    unfolding select_columns_def Let_def by (simp del: set_map) blast
  then show ?thesis by (auto simp: configured_names_def)
qed

lemma checkpoint_names:
  "checkpoint_condition c checkpoint = Inr (Some (q, ps)) \<Longrightarrow> names_in q \<subseteq> configured_names c"
  by (auto simp: checkpoint_condition_def Let_def configured_names_def split: option.splits json.splits if_splits)

lemma table_names [simp]: "names_in (table_ident c) = {pc_schema_name c, pc_table c}"
  by (auto simp: table_ident_def)

lemma build_query_names:
  assumes "build_query c checkpoint iv = Inr q"
  shows "names_in (fst q) \<subseteq> configured_names c"
proof -
  obtain resume where r: "checkpoint_condition c checkpoint = Inr resume"
    using assms by (cases "checkpoint_condition c checkpoint") (auto simp: build_query_def andThen_def)
  have names: "set (pc_primary_key c) \<union> {pc_schema_name c, pc_table c} \<union> set (map fst (pc_where c)) \<subseteq> configured_names c"
    by (auto simp: configured_names_def)
  have resumed: "names_in t \<subseteq> configured_names c" if "resume = Some (t, ps)" for t ps
    using checkpoint_names r that by blast
  obtain fs ps where w: "where_fragments c = (fs, ps)" by fastforce
  then have fs: "\<Union> (names_in ` set fs) = set (map fst (pc_where c))" using where_fragments_names [of c] by simp
  have "names_in (fst q) = set (select_columns c iv) \<union> {pc_schema_name c, pc_table c} \<union> set (map fst (pc_where c))
      \<union> (case resume of None \<Rightarrow> {} | Some (t, ps) \<Rightarrow> names_in t) \<union> set (pc_primary_key c)"
    unfolding fs [symmetric] using assms by (cases resume) (auto simp: build_query_def andThen_def r w)
  moreover have "(case resume of None \<Rightarrow> {} | Some (t, ps) \<Rightarrow> names_in t) \<subseteq> configured_names c"
    using resumed by (cases resume) auto
  ultimately show ?thesis using names select_columns_names [of c iv] by (simp only: Un_subset_iff)
qed

lemma configured_names_plain: "valid_pgvector c \<Longrightarrow> name \<in> configured_names c \<Longrightarrow> plain_name name"
  by (auto simp: valid_pgvector_def configured_names_def list_all_iff)

lemma quote_plain: "plain_name name \<Longrightarrow> quote_ident name = [34] @ name @ [34] \<and> 34 \<notin> set name"
proof -
  assume p: "plain_name name"
  then have "34 \<notin> set name"
    by (auto simp: plain_name_def list_all_iff ident_char_def ident_start_def is_letter_def is_digit_def)
  moreover from this have "concat (map (\<lambda>c. if c = 34 then [34, 34] else [c]) name) = name"
    by (induction name) auto
  ultimately show ?thesis by (simp add: quote_ident_def)
qed

text \<open>
  C24. For a validated configuration, the text of the main query does not depend on a value, neither of the
  filter nor of the checkpoint: values travel as parameters only. The names in it are those of the
  configuration, and each stands between quotes without one in it.
\<close>

theorem pgvector_injection_free:
  assumes "validate_pgvector_config c0 = Inr c" "build_query c checkpoint include_vectors = Inr (q, ps)"
  shows "map_sum id fst (build_query (blank_values c) (blank_checkpoint checkpoint) include_vectors) = Inr q \<and>
    (\<forall>name. Ident name \<in> set q \<longrightarrow> name \<in> configured_names c \<and> render_piece (Ident name) = [34] @ name @ [34] \<and> 34 \<notin> set name)"
proof
  have "map_sum id fst (build_query (blank_values c) (blank_checkpoint checkpoint) include_vectors) =
      map_sum id fst (build_query c checkpoint include_vectors)"
    by (simp add: build_query_text checkpoint_condition_blank where_fragments_blank)
  then show "map_sum id fst (build_query (blank_values c) (blank_checkpoint checkpoint) include_vectors) = Inr q"
    by (simp add: assms(2))
  have valid: "valid_pgvector c" using validate_pgvector_config_sound assms(1) by blast
  show "\<forall>name. Ident name \<in> set q \<longrightarrow> name \<in> configured_names c \<and> render_piece (Ident name) = [34] @ name @ [34] \<and> 34 \<notin> set name"
    using build_query_names [OF assms(2)] quote_plain configured_names_plain [OF valid] by (fastforce simp: names_in_def)
qed

definition sample_pgvector :: pgvector_config where
  "sample_pgvector =
     \<lparr>pc_dsn_env = py ''DSN'', pc_schema_name = py ''public'', pc_table = py ''docs'', pc_primary_key = [py ''id''],
      pc_vector_column = py ''vec'', pc_mapping = no_mapping, pc_where = [(py ''tenant'', WhereScalar (JStr (py ''a; drop table'')))],
      pc_fetch_size = 10, pc_consistency = RepeatableRead, pc_statement_timeout_ms = 1000, pc_embedding_dimension = None,
      pc_connect_timeout_seconds = 5, pc_max_connect_retries = 0\<rparr>"

theorem pgvector_injection_free_witness:
  "\<exists>c q ps. validate_pgvector_config sample_pgvector = Inr c \<and> build_query c None False = Inr (q, ps) \<and>
     map_sum id fst (build_query (blank_values c) (blank_checkpoint None) False) = Inr q \<and> Ident (py ''tenant'') \<in> set q"
proof -
  have v: "validate_pgvector_config sample_pgvector = Inr sample_pgvector"
    by (simp add: validate_pgvector_config_def sample_pgvector_def env_var_match_def identifier_match_def is_word_name_def chomp_def
        ident_start_def ident_char_def is_letter_def is_digit_def py_def invalid_mapping_fields_def configured_items_def mapping_fields_def
        no_mapping_def where_ok_def optional_ge_def)
  obtain q ps where b: "build_query sample_pgvector None False = Inr (q, ps)" "Ident (py ''tenant'') \<in> set q"
    by (simp add: build_query_def checkpoint_condition_def where_fragments_def where_clause_def join_sql_def sample_pgvector_def)
  show ?thesis
    using pgvector_injection_free [OF v b(1)] v b by blast
qed

section \<open>Only reads reach the database\<close>

text \<open>A database that executes differently what the guard does not let through.\<close>

definition guarded_db :: "'d database \<Rightarrow> (pystr \<Rightarrow> sql_param list \<Rightarrow> 'd \<Rightarrow> (pystr + db_row list) \<times> 'd) \<Rightarrow> 'd database" where
  "guarded_db db other =
     db\<lparr>db_execute := \<lambda>text ps d. if allowed_statement text then db_execute db text ps d else other text ps d\<rparr>"

lemma guarded_db_simps [simp]: "db_rollback (guarded_db db other) = db_rollback db" "db_commit (guarded_db db other) = db_commit db"
  by (simp_all add: guarded_db_def)

lemma guarded_execute_guarded: "guarded_execute L (guarded_db db other) = guarded_execute L db"
  by (intro ext) (simp add: guarded_execute_def guarded_db_def assert_read_only_statement_def)

lemma count_rows_guarded: "count_rows L (guarded_db db other) = count_rows L db"
  unfolding count_rows_def [abs_def] guarded_execute_guarded ..

lemma inspect_pgvector_guarded: "inspect_pgvector L (guarded_db db other) = inspect_pgvector L db"
  unfolding inspect_pgvector_def [abs_def] fetch_vector_dimension_def fetch_index_names_def count_rows_guarded guarded_execute_guarded
    guarded_db_simps ..

lemma end_of_pass_guarded: "end_of_pass L (guarded_db db other) = end_of_pass L db"
  unfolding end_of_pass_def [abs_def] count_rows_guarded guarded_db_simps ..

lemma stream_points_guarded: "stream_points L parse clock (guarded_db db other) = stream_points L parse clock db"
  unfolding stream_points_def [abs_def] count_rows_guarded guarded_execute_guarded end_of_pass_guarded ..

text \<open>
  No operation of the connector depends on what the database would do for a statement outside the
  whitelist: none is executed.
\<close>

theorem pgvector_read_only:
  "iterate_pgvector_points L parse clock (guarded_db db other) c checkpoint projection include_vectors d =
     iterate_pgvector_points L parse clock db c checkpoint projection include_vectors d \<and>
   inspect_pgvector L (guarded_db db other) c d = inspect_pgvector L db c d \<and>
   test_pgvector_connection L (guarded_db db other) c latency_ms d = test_pgvector_connection L db c latency_ms d"
  unfolding iterate_pgvector_points_def test_pgvector_connection_def inspect_pgvector_guarded stream_points_guarded
    guarded_execute_guarded guarded_db_simps by simp

end
