(* ===== verification/Target_Routes.thy ===== *)
theory Target_Routes
  imports Security Qdrant Pgvector
begin

text \<open>
  The target routes of \<open>ragledger.server.api.routes\<close> with the audit events they write, and
  \<open>_connector_for_target\<close> of \<open>ragledger.server.handlers\<close>, which builds the live connector of a stored
  target. A request body is what the schema's field validation accepts; what a handler raises leaves the
  database as it was, because nothing was committed.
\<close>

section \<open>Rows and requests\<close>

datatype target_type = QdrantTarget | PgvectorTarget

definition target_type_value :: "target_type \<Rightarrow> pystr" where
  "target_type_value t = (case t of QdrantTarget \<Rightarrow> py ''qdrant'' | PgvectorTarget \<Rightarrow> py ''pgvector'')"

record target_row =
  tg_id :: pystr
  tg_workspace_id :: pystr
  tg_name :: pystr
  tg_target_type :: target_type
  tg_endpoint_redacted :: pystr
  tg_mapping_config :: dict
  tg_credential_ciphertext :: bytes
  tg_credential_key_id :: pystr
  tg_credential_version :: nat
  tg_allowlist_decision :: pystr

record target_create =
  tc_name :: pystr
  tc_target_type :: target_type
  tc_endpoint_url :: pystr
  tc_credential :: pystr
  tc_mapping_config :: dict

record target_update =
  tu_name :: "pystr option"
  tu_endpoint_url :: "pystr option"
  tu_credential :: "pystr option"
  tu_mapping_config :: "dict option"

record target_db =
  td_targets :: "target_row list"
  td_audit :: "audit_event list"

text \<open>What a request finds: the network, the clock's and the generators' values, its id.\<close>

record request_env =
  re_net :: net_env
  re_resolver :: "pystr \<Rightarrow> pystr list option"
  re_aead :: aead
  re_nonce :: bytes
  re_new_id :: pystr
  re_request_id :: "pystr option"

datatype problem =
    TargetNotFound
  | UrlNotAllowed url_error
  | EncryptionUnavailable
  | ServerError string

section \<open>Helpers\<close>

definition validate_endpoint_url :: "request_env \<Rightarrow> server_settings \<Rightarrow> pystr \<Rightarrow> problem + url_validation" where
  "validate_endpoint_url E S url =
     (case validate_target_url (re_net E) (target_settings.truncate S) (re_resolver E) url of
        Inl Malformed \<Rightarrow> Inl (ServerError ''ValueError'')
      | Inl e \<Rightarrow> Inl (UrlNotAllowed e)
      | Inr v \<Rightarrow> Inr v)"

definition encrypt_for_row :: "request_env \<Rightarrow> server_settings \<Rightarrow> pystr \<Rightarrow> problem + bytes \<times> pystr" where
  "encrypt_for_row E S credential =
     (case encrypt_credential (re_aead E) (re_nonce E) S (utf8_encode credential) of
        Inl NoCurrentKey \<Rightarrow> Inl EncryptionUnavailable
      | Inl e \<Rightarrow> Inl (ServerError ''ValueError'')
      | Inr r \<Rightarrow> Inr r)"

definition token_event ::
  "request_env \<Rightarrow> auth_context \<Rightarrow> string \<Rightarrow> string \<Rightarrow> pystr \<Rightarrow> (pystr \<times> json) list option \<Rightarrow> audit_event" where
  "token_event E auth action entity_type entity_id metadata =
     \<lparr>ae_workspace_id = Some (ac_workspace_id auth), ae_actor_type = py ''api_token'', ae_actor_id = Some (ac_token_id auth),
      ae_action = py action, ae_entity_type = Some (py entity_type), ae_entity_id = Some entity_id, ae_result = py ''success'',
      ae_request_id = re_request_id E, ae_metadata = metadata\<rparr>"

definition audited :: "audit_event \<Rightarrow> 'a \<Rightarrow> target_db \<Rightarrow> target_db \<Rightarrow> (problem + 'a) \<times> target_db" where
  "audited event result old new =
     (case record_event event (td_audit new) of
        (Inl k, _) \<Rightarrow> (Inl (ServerError ''AuditMetadataError''), old)
      | (Inr _, events) \<Rightarrow> (Inr result, new\<lparr>td_audit := events\<rparr>))"

section \<open>Routes\<close>

definition create_target ::
  "request_env \<Rightarrow> server_settings \<Rightarrow> auth_context \<Rightarrow> target_create \<Rightarrow> target_db \<Rightarrow> (problem + target_row) \<times> target_db" where
  "create_target E S auth payload db =
     (case validate_endpoint_url E S (tc_endpoint_url payload) of
        Inl p \<Rightarrow> (Inl p, db)
      | Inr validation \<Rightarrow>
          (case encrypt_for_row E S (tc_credential payload) of
             Inl p \<Rightarrow> (Inl p, db)
           | Inr (ciphertext, key_id) \<Rightarrow>
               (let row = \<lparr>tg_id = re_new_id E, tg_workspace_id = ac_workspace_id auth, tg_name = tc_name payload,
                           tg_target_type = tc_target_type payload, tg_endpoint_redacted = uv_endpoint_redacted validation,
                           tg_mapping_config = tc_mapping_config payload, tg_credential_ciphertext = ciphertext,
                           tg_credential_key_id = key_id, tg_credential_version = 1,
                           tg_allowlist_decision = uv_decision validation\<rparr>
                in audited
                     (token_event E auth ''target.create'' ''vector_target'' (tg_id row)
                       (Some [(py ''target_type'', JStr (target_type_value (tc_target_type payload))),
                              (py ''endpoint_redacted'', JStr (uv_endpoint_redacted validation)),
                              (py ''allowlist_decision'', JStr (uv_decision validation))]))
                     row db (db\<lparr>td_targets := td_targets db @ [row]\<rparr>))))"

definition get_workspace_target :: "auth_context \<Rightarrow> pystr \<Rightarrow> target_db \<Rightarrow> problem + target_row" where
  "get_workspace_target auth target_id db =
     (case find (\<lambda>r. tg_id r = target_id) (td_targets db) of
        None \<Rightarrow> Inl TargetNotFound
      | Some row \<Rightarrow> if tg_workspace_id row \<noteq> ac_workspace_id auth then Inl TargetNotFound else Inr row)"

definition list_targets :: "auth_context \<Rightarrow> target_db \<Rightarrow> target_row list" where
  "list_targets auth db = filter (\<lambda>r. tg_workspace_id r = ac_workspace_id auth) (td_targets db)"

definition optionally :: "'a option \<Rightarrow> ('a \<Rightarrow> 'b \<Rightarrow> problem + 'b) \<Rightarrow> 'b \<Rightarrow> problem + 'b" where
  "optionally v f x = (case v of None \<Rightarrow> Inr x | Some a \<Rightarrow> f a x)"

text \<open>The fields in the order of the source, and the names of those that changed.\<close>

definition apply_update :: "request_env \<Rightarrow> server_settings \<Rightarrow> target_update \<Rightarrow> target_row \<Rightarrow> problem + target_row" where
  "apply_update E S payload row =
     andThen (optionally (tu_name payload) (\<lambda>n r. Inr (r\<lparr>tg_name := n\<rparr>)) row) (\<lambda>row.
     andThen (optionally (tu_mapping_config payload) (\<lambda>m r. Inr (r\<lparr>tg_mapping_config := m\<rparr>)) row) (\<lambda>row.
     andThen (optionally (tu_endpoint_url payload)
       (\<lambda>url r. andThen (validate_endpoint_url E S url) (\<lambda>v.
          Inr (r\<lparr>tg_endpoint_redacted := uv_endpoint_redacted v, tg_allowlist_decision := uv_decision v\<rparr>))) row) (\<lambda>row.
     optionally (tu_credential payload)
       (\<lambda>c r. andThen (encrypt_for_row E S c) (\<lambda>(ciphertext, key_id).
          Inr (r\<lparr>tg_credential_ciphertext := ciphertext, tg_credential_key_id := key_id,
                 tg_credential_version := tg_credential_version r + 1\<rparr>))) row)))"

definition changed_fields :: "target_update \<Rightarrow> string list" where
  "changed_fields payload =
     (if tu_name payload \<noteq> None then [''name''] else []) @ (if tu_mapping_config payload \<noteq> None then [''mapping_config''] else [])
     @ (if tu_endpoint_url payload \<noteq> None then [''endpoint''] else []) @ (if tu_credential payload \<noteq> None then [''credential''] else [])"

definition update_target ::
  "request_env \<Rightarrow> server_settings \<Rightarrow> auth_context \<Rightarrow> pystr \<Rightarrow> target_update \<Rightarrow> target_db \<Rightarrow> (problem + target_row) \<times> target_db" where
  "update_target E S auth target_id payload db =
     (case andThen (get_workspace_target auth target_id db) (apply_update E S payload) of
        Inl p \<Rightarrow> (Inl p, db)
      | Inr row \<Rightarrow>
          if changed_fields payload = [] then (Inr row, db)
          else audited
                 (token_event E auth ''target.update'' ''vector_target'' (tg_id row)
                   (Some [(py ''changed'', JList (map (\<lambda>f. JStr (py f)) (changed_fields payload)))]))
                 row db (db\<lparr>td_targets := map (\<lambda>r. if tg_id r = tg_id row then row else r) (td_targets db)\<rparr>))"

definition delete_target ::
  "request_env \<Rightarrow> auth_context \<Rightarrow> pystr \<Rightarrow> target_db \<Rightarrow> (problem + target_row) \<times> target_db" where
  "delete_target E auth target_id db =
     (case get_workspace_target auth target_id db of
        Inl p \<Rightarrow> (Inl p, db)
      | Inr row \<Rightarrow>
          audited (token_event E auth ''target.delete'' ''vector_target'' target_id None) row db
            (db\<lparr>td_targets := filter (\<lambda>r. tg_id r \<noteq> target_id) (td_targets db)\<rparr>))"

datatype target_request = CreateTarget target_create | UpdateTarget pystr target_update | DeleteTarget pystr

definition target_request ::
  "server_settings \<Rightarrow> request_env \<times> auth_context \<times> target_request \<Rightarrow> target_db \<Rightarrow> (problem + target_row) \<times> target_db" where
  "target_request S call db =
     (case call of (E, auth, r) \<Rightarrow>
        (case r of
           CreateTarget payload \<Rightarrow> create_target E S auth payload db
         | UpdateTarget i payload \<Rightarrow> update_target E S auth i payload db
         | DeleteTarget i \<Rightarrow> delete_target E auth i db))"

fun target_requests :: "server_settings \<Rightarrow> (request_env \<times> auth_context \<times> target_request) list \<Rightarrow> target_db \<Rightarrow> target_db" where
  "target_requests S [] db = db"
| "target_requests S (c # cs) db = target_requests S cs (snd (target_request S c db))"

section \<open>The connector of a stored target\<close>

text \<open>A dictionary display with a trailing \<open>**mapping\<close>: what the mapping names, it replaces.\<close>

definition update_dict :: "dict \<Rightarrow> dict \<Rightarrow> dict" where
  "update_dict d mapping = foldl (\<lambda>d (k, v). dict_set k v d) d mapping"

definition without_type :: "dict \<Rightarrow> dict" where
  "without_type mapping = filter (\<lambda>(k, v). k \<noteq> py ''type'') mapping"

definition qdrant_config_data :: "server_settings \<Rightarrow> pystr \<Rightarrow> target_row \<Rightarrow> dict" where
  "qdrant_config_data S env_name target =
     update_dict
       [(py ''type'', JStr (py ''qdrant'')), (py ''endpoint'', JStr (tg_endpoint_redacted target)), (py ''api_key_env'', JStr env_name),
        (py ''connect_timeout_seconds'', JInt (st_connect_timeout S)), (py ''read_timeout_seconds'', JInt (st_read_timeout S))]
       (without_type (tg_mapping_config target))"

definition pgvector_config_data :: "server_settings \<Rightarrow> pystr \<Rightarrow> target_row \<Rightarrow> dict" where
  "pgvector_config_data S env_name target =
     update_dict
       [(py ''type'', JStr (py ''pgvector'')), (py ''dsn_env'', JStr env_name),
        (py ''connect_timeout_seconds'', JInt (st_connect_timeout S))]
       (without_type (tg_mapping_config target))"

text \<open>
  pydantic's reading of the fields of a configuration, before the validators of \<open>Target_Config\<close>: a
  parameter, of which the source relies on that a string field holds the string under its name.
\<close>

record config_reader =
  cr_qdrant :: "dict \<Rightarrow> qdrant_config option"
  cr_pgvector :: "dict \<Rightarrow> pgvector_config option"

definition reads_fields :: "config_reader \<Rightarrow> bool" where
  "reads_fields P \<longleftrightarrow>
     (\<forall>d c. cr_qdrant P d = Some c \<longrightarrow> jget d ''endpoint'' = JStr (qc_endpoint c)
        \<and> (\<forall>v. jget d ''api_key_env'' = JStr v \<longrightarrow> qc_api_key_env c = Some v))
     \<and> (\<forall>d c. cr_pgvector P d = Some c \<longrightarrow> jget d ''dsn_env'' = JStr (pc_dsn_env c))"

text \<open>
  The connectors with what they hold after the variable is gone: the Qdrant connector the value of
  its header, the pgvector connector the name it will look up when it connects.
\<close>

datatype live_connector =
    LiveQdrant qdrant_connector "pystr option"
  | LivePgvector pgvector_config

datatype connector_failure = ConfigInvalid | ConnectorFailed connector_error

definition connector_for_target ::
  "platform \<Rightarrow> net_env \<Rightarrow> config_reader \<Rightarrow> server_settings \<Rightarrow> (pystr \<Rightarrow> pystr option) \<Rightarrow> pystr \<Rightarrow> target_row \<Rightarrow> pystr
   \<Rightarrow> connector_failure + live_connector" where
  "connector_for_target L N P S environ env_name target credential =
     (let during = environ(env_name \<mapsto> credential) in
      case tg_target_type target of
        QdrantTarget \<Rightarrow>
          (case cr_qdrant P (qdrant_config_data S env_name target) of
             None \<Rightarrow> Inl ConfigInvalid
           | Some raw \<Rightarrow>
               (case validate_qdrant_config N raw of
                  Inl bad \<Rightarrow> Inl ConfigInvalid
                | Inr config \<Rightarrow>
                    (case resolve_optional_credential L during (qc_api_key_env config) of
                       Inl e \<Rightarrow> Inl (ConnectorFailed e)
                     | Inr key \<Rightarrow>
                         (case qdrant_connector_of N config of
                            None \<Rightarrow> Inl ConfigInvalid
                          | Some c \<Rightarrow> Inr (LiveQdrant c key)))))
      | PgvectorTarget \<Rightarrow>
          (case cr_pgvector P (pgvector_config_data S env_name target) of
             None \<Rightarrow> Inl ConfigInvalid
           | Some raw \<Rightarrow>
               (case validate_pgvector_config raw of
                  Inl bad \<Rightarrow> Inl ConfigInvalid
                | Inr config \<Rightarrow> Inr (LivePgvector config))))"

section \<open>What is stored\<close>

text \<open>The endpoint of a row is one the gate let through, and its credential is encrypted.\<close>

definition row_guarded :: "server_settings \<Rightarrow> target_row \<Rightarrow> bool" where
  "row_guarded S row \<longleftrightarrow>
     (\<exists>N resolver url v. validate_target_url N (target_settings.truncate S) resolver url = Inr v
        \<and> tg_endpoint_redacted row = uv_endpoint_redacted v \<and> tg_allowlist_decision row = uv_decision v)
     \<and> (\<exists>A nonce credential. encrypt_credential A nonce S (utf8_encode credential) =
          Inr (tg_credential_ciphertext row, tg_credential_key_id row))"

lemma validate_endpoint_url_ok:
  "validate_endpoint_url E S url = Inr v \<Longrightarrow> validate_target_url (re_net E) (target_settings.truncate S) (re_resolver E) url = Inr v"
  by (auto simp: validate_endpoint_url_def split: sum.splits url_error.splits)

lemma encrypt_for_row_ok:
  "encrypt_for_row E S credential = Inr r \<Longrightarrow> encrypt_credential (re_aead E) (re_nonce E) S (utf8_encode credential) = Inr r"
  by (auto simp: encrypt_for_row_def split: sum.splits credential_error.splits)

lemma audited_ok:
  "audited event x old new = (r, db) \<Longrightarrow> db = old \<or> db = new\<lparr>td_audit := td_audit new @ [event]\<rparr> \<and> check_metadata (ae_metadata event) = Inr ()"
  by (auto simp: audited_def record_event_def split: sum.splits)

lemma apply_update_guarded:
  assumes "apply_update E S payload row = Inr row'" "row_guarded S row"
  shows "row_guarded S row'" "tg_id row' = tg_id row" "tg_workspace_id row' = tg_workspace_id row"
proof -
  have "row_guarded S row' \<and> tg_id row' = tg_id row \<and> tg_workspace_id row' = tg_workspace_id row"
    using assms
    by (auto simp: apply_update_def optionally_def row_guarded_def split: option.splits
        dest!: validate_endpoint_url_ok encrypt_for_row_ok) blast+
  then show "row_guarded S row'" "tg_id row' = tg_id row" "tg_workspace_id row' = tg_workspace_id row" by simp_all
qed

lemma get_workspace_target_ok:
  "get_workspace_target auth i db = Inr row \<Longrightarrow> row \<in> set (td_targets db) \<and> tg_id row = i \<and> tg_workspace_id row = ac_workspace_id auth"
  by (auto simp: get_workspace_target_def find_Some_iff split: option.splits if_splits)

lemma apply_update_frame:
  "apply_update E S payload row = Inr row' \<Longrightarrow> tg_id row' = tg_id row \<and> tg_workspace_id row' = tg_workspace_id row"
  by (auto simp: apply_update_def optionally_def split: option.splits)

text \<open>What one request does to the table and the log.\<close>

lemma target_request_step:
  assumes "target_request S (E, auth, r) db = (res, db')"
  obtains "db' = db"
  | row event where "db' = \<lparr>td_targets = td_targets db @ [row], td_audit = td_audit db @ [event]\<rparr>"
      "row_guarded S row" "tg_workspace_id row = ac_workspace_id auth" "tg_id row = re_new_id E" "check_metadata (ae_metadata event) = Inr ()"
  | old row event where "db' = \<lparr>td_targets = map (\<lambda>r. if tg_id r = tg_id old then row else r) (td_targets db), td_audit = td_audit db @ [event]\<rparr>"
      "old \<in> set (td_targets db)" "tg_workspace_id old = ac_workspace_id auth" "tg_id row = tg_id old" "tg_workspace_id row = tg_workspace_id old"
      "row_guarded S old \<Longrightarrow> row_guarded S row" "check_metadata (ae_metadata event) = Inr ()"
  | old event where "db' = \<lparr>td_targets = filter (\<lambda>r. tg_id r \<noteq> tg_id old) (td_targets db), td_audit = td_audit db @ [event]\<rparr>"
      "old \<in> set (td_targets db)" "tg_workspace_id old = ac_workspace_id auth" "check_metadata (ae_metadata event) = Inr ()"
proof (cases r)
  case (CreateTarget payload)
  show ?thesis
  proof (cases "validate_endpoint_url E S (tc_endpoint_url payload)")
    case (Inl p)
    then show ?thesis using assms that(1) by (simp add: CreateTarget target_request_def create_target_def)
  next
    case v: (Inr v)
    show ?thesis
    proof (cases "encrypt_for_row E S (tc_credential payload)")
      case (Inl p)
      then show ?thesis using assms that(1) by (simp add: CreateTarget target_request_def create_target_def v)
    next
      case (Inr c)
      obtain ciphertext key_id where c: "encrypt_for_row E S (tc_credential payload) = Inr (ciphertext, key_id)" using Inr by (cases c) simp
      define row where "row = \<lparr>tg_id = re_new_id E, tg_workspace_id = ac_workspace_id auth, tg_name = tc_name payload,
        tg_target_type = tc_target_type payload, tg_endpoint_redacted = uv_endpoint_redacted v,
        tg_mapping_config = tc_mapping_config payload, tg_credential_ciphertext = ciphertext,
        tg_credential_key_id = key_id, tg_credential_version = 1, tg_allowlist_decision = uv_decision v\<rparr>"
      have "row_guarded S row"
        using validate_endpoint_url_ok [OF v] encrypt_for_row_ok [OF c] by (auto simp: row_guarded_def row_def)
      moreover obtain event where "audited event row db (db\<lparr>td_targets := td_targets db @ [row]\<rparr>) = (res, db')"
        using assms by (auto simp: CreateTarget target_request_def create_target_def v c Let_def row_def)
      moreover have "tg_workspace_id row = ac_workspace_id auth" "tg_id row = re_new_id E" by (simp_all add: row_def)
      ultimately show ?thesis using audited_ok [of event row db "db\<lparr>td_targets := td_targets db @ [row]\<rparr>" res db'] that(1)
          that(2) [of row event] by auto
    qed
  qed
next
  case (UpdateTarget i payload)
  show ?thesis
  proof (cases "andThen (get_workspace_target auth i db) (apply_update E S payload)")
    case (Inl p)
    then show ?thesis using assms that(1) by (simp add: UpdateTarget target_request_def update_target_def)
  next
    case (Inr row)
    then obtain old where old: "get_workspace_target auth i db = Inr old" "apply_update E S payload old = Inr row" by auto
    note g = get_workspace_target_ok [OF old(1)] and fr = apply_update_frame [OF old(2)]
    show ?thesis
    proof (cases "changed_fields payload = []")
      case True
      then show ?thesis using assms that(1) Inr by (simp add: UpdateTarget target_request_def update_target_def)
    next
      case False
      then obtain event where ev: "audited event row db (db\<lparr>td_targets := map (\<lambda>r. if tg_id r = tg_id row then row else r) (td_targets db)\<rparr>) = (res, db')"
        using assms Inr by (auto simp: UpdateTarget target_request_def update_target_def)
      from audited_ok [OF ev] show ?thesis
        using that(1) that(3) [of old row event] g fr apply_update_guarded(1) [OF old(2)] by auto
    qed
  qed
next
  case (DeleteTarget i)
  show ?thesis
  proof (cases "get_workspace_target auth i db")
    case (Inl p)
    then show ?thesis using assms that(1) by (simp add: DeleteTarget target_request_def delete_target_def)
  next
    case (Inr old)
    then obtain event where ev: "audited event old db (db\<lparr>td_targets := filter (\<lambda>r. tg_id r \<noteq> i) (td_targets db)\<rparr>) = (res, db')"
      using assms by (auto simp: DeleteTarget target_request_def delete_target_def)
    from audited_ok [OF ev] show ?thesis
      using that(1) that(4) [of old event] get_workspace_target_ok [OF Inr] by auto
  qed
qed

definition db_ok :: "server_settings \<Rightarrow> target_db \<Rightarrow> bool" where
  "db_ok S db \<longleftrightarrow> list_all (row_guarded S) (td_targets db) \<and> list_all (\<lambda>e. check_metadata (ae_metadata e) = Inr ()) (td_audit db)"

lemma target_request_ok:
  assumes "db_ok S db"
  shows "db_ok S (snd (target_request S c db)) \<and> (\<exists>events. td_audit (snd (target_request S c db)) = td_audit db @ events)"
proof -
  obtain E auth r where c: "c = (E, auth, r)" by (cases c) auto
  obtain res db' where step: "target_request S (E, auth, r) db = (res, db')" by fastforce
  then have "db_ok S db' \<and> (\<exists>events. td_audit db' = td_audit db @ events)"
    by (cases rule: target_request_step) (use assms in \<open>auto simp: db_ok_def list_all_iff\<close>)
  then show ?thesis by (simp add: c step)
qed


lemma log_only_grows:
  "\<exists>events. td_audit (target_requests S calls db) = td_audit db @ events"
proof (induction calls arbitrary: db)
  case (Cons c calls)
  obtain E auth r where c: "c = (E, auth, r)" by (cases c) auto
  obtain res db' where step: "target_request S (E, auth, r) db = (res, db')" by fastforce
  then have "\<exists>events. td_audit db' = td_audit db @ events" by (cases rule: target_request_step) auto
  then show ?case using Cons.IH [of db'] by (auto simp: c step)
qed simp

text \<open>A caller changes only rows of its own workspace.\<close>

lemma other_workspaces_kept:
  assumes "distinct (map tg_id (td_targets db))" "target_request S (E, auth, r) db = (res, db')"
  shows "filter (\<lambda>t. tg_workspace_id t \<noteq> ac_workspace_id auth) (td_targets db') =
    filter (\<lambda>t. tg_workspace_id t \<noteq> ac_workspace_id auth) (td_targets db)"
proof -
  have same: "t = t'" if "t \<in> set (td_targets db)" "t' \<in> set (td_targets db)" "tg_id t = tg_id t'" for t t'
    using assms(1) that by (metis distinct_map inj_onD)
  let ?other = "\<lambda>t. tg_workspace_id t \<noteq> ac_workspace_id auth"
  from assms(2) show ?thesis
  proof (cases rule: target_request_step)
    case (3 old row event)
    let ?f = "\<lambda>t. if tg_id t = tg_id old then row else t"
    have eq: "map ?f (td_targets db) = map (\<lambda>t. if t = old then row else t) (td_targets db)"
      using same [OF _ 3(2)] by (intro map_cong) auto
    moreover have "filter ?other (map (\<lambda>t. if t = old then row else t) ts) = filter ?other ts" for ts
      using 3 by (induction ts) auto
    ultimately show ?thesis unfolding 3(1) target_db.simps eq by blast
  next
    case (4 old event)
    have "filter (\<lambda>t. tg_id t \<noteq> tg_id old) (td_targets db) = filter (\<lambda>t. t \<noteq> old) (td_targets db)"
      using same [OF _ 4(2)] by (intro filter_cong) auto
    moreover have "filter ?other (filter (\<lambda>t. t \<noteq> old) ts) = filter ?other ts" for ts
      using 4 by (induction ts) auto
    ultimately show ?thesis using 4(1) by simp
  qed auto
qed

section \<open>What is dialled\<close>

lemma map_of_update_dict: "map_of (update_dict d mapping) = map_of d ++ map_of (rev mapping)"
  by (induction mapping arbitrary: d) (auto simp: update_dict_def fun_eq_iff map_add_def split: option.splits)

lemma jget_update:
  assumes "distinct (map fst mapping)"
  shows "jget (update_dict d mapping) k = (case map_of mapping (py k) of None \<Rightarrow> jget d k | Some v \<Rightarrow> v)"
proof -
  have "map_of (rev mapping) = map_of mapping"
    using assms by (induction mapping) (auto simp: map_add_def fun_eq_iff map_of_eq_None_iff [symmetric] split: option.splits)
  then show ?thesis by (simp add: jget_def map_of_update_dict map_add_def split: option.splits)
qed

lemma jget_without_type:
  "k \<noteq> ''type'' \<Longrightarrow> map_of (without_type mapping) (py k) = map_of mapping (py k)"
  by (induction mapping) (auto simp: without_type_def)

lemma distinct_without_type: "distinct (map fst mapping) \<Longrightarrow> distinct (map fst (without_type mapping))"
  by (simp add: without_type_def distinct_map_filter case_prod_beta')

lemma qdrant_data:
  assumes "distinct (map fst (tg_mapping_config target))"
  shows "jget (qdrant_config_data S env_name target) ''endpoint'' =
      (case map_of (tg_mapping_config target) (py ''endpoint'') of None \<Rightarrow> JStr (tg_endpoint_redacted target) | Some v \<Rightarrow> v)"
    and "jget (qdrant_config_data S env_name target) ''api_key_env'' =
      (case map_of (tg_mapping_config target) (py ''api_key_env'') of None \<Rightarrow> JStr env_name | Some v \<Rightarrow> v)"
  using distinct_without_type [OF assms] by (simp_all add: qdrant_config_data_def jget_update jget_without_type) (simp_all add: jget_def split: option.splits)

lemma live_qdrant:
  assumes "connector_for_target L N P S environ env_name target credential = Inr (LiveQdrant c key)" "reads_fields P"
    and "jget (qdrant_config_data S env_name target) ''endpoint'' = JStr e"
    and "jget (qdrant_config_data S env_name target) ''api_key_env'' = JStr v"
  shows "Some (qc_endpoint (qn_config c)) = validate_endpoint N e \<and> key = (environ(env_name \<mapsto> credential)) v \<and> key \<noteq> None"
proof -
  from assms(1) obtain raw config where r: "cr_qdrant P (qdrant_config_data S env_name target) = Some raw" "validate_qdrant_config N raw = Inr config"
    "resolve_optional_credential L (environ(env_name \<mapsto> credential)) (qc_api_key_env config) = Inr key" "qdrant_connector_of N config = Some c"
    by (auto simp: connector_for_target_def Let_def split: target_type.splits option.splits sum.splits)
  have raw: "qc_endpoint raw = e" "qc_api_key_env raw = Some v" using assms(2-4) r(1) by (auto simp: reads_fields_def)
  have config: "config = raw\<lparr>qc_endpoint := the (validate_endpoint N e)\<rparr>" "validate_endpoint N e \<noteq> None"
    using r(2) raw by (auto simp: validate_qdrant_config_def Let_def split: if_splits)
  have "truthy ((environ(env_name \<mapsto> credential)) v) \<and> key = Some (the ((environ(env_name \<mapsto> credential)) v))"
    using r(3) raw by (auto simp: config resolve_optional_credential_def resolve_env_credential_def andThen_def split: if_splits)
  moreover have "qc_endpoint (qn_config c) = the (validate_endpoint N e)" using r(4) by (auto simp: qdrant_connector_of_def config)
  ultimately show ?thesis using config(2) by (auto simp del: fun_upd_apply)
qed

text \<open>
  C27. The mapping a caller stores with a target has the last word: an endpoint and a variable name in it
  replace the endpoint that the gate checked and the name of the credential, so that the server sends the
  value of that variable of its own environment to that endpoint.
\<close>

theorem mapping_overrides_guard:
  assumes "reads_fields P" "distinct (map fst (tg_mapping_config target))"
    and "map_of (tg_mapping_config target) (py ''endpoint'') = Some (JStr e)"
    and "map_of (tg_mapping_config target) (py ''api_key_env'') = Some (JStr v)" "v \<noteq> env_name"
    and "connector_for_target L N P S environ env_name target credential = Inr (LiveQdrant c key)"
  shows "Some (qc_endpoint (qn_config c)) = validate_endpoint N e \<and> key = environ v"
  using live_qdrant [OF assms(6,1)] qdrant_data [OF assms(2)] assms(3-5) by simp

text \<open>Without those two entries the connector is the one for the stored endpoint and credential.\<close>

lemma plain_mapping_dials_stored:
  assumes "reads_fields P" "distinct (map fst (tg_mapping_config target))"
    and "map_of (tg_mapping_config target) (py ''endpoint'') = None" "map_of (tg_mapping_config target) (py ''api_key_env'') = None"
    and "connector_for_target L N P S environ env_name target credential = Inr (LiveQdrant c key)"
  shows "Some (qc_endpoint (qn_config c)) = validate_endpoint N (tg_endpoint_redacted target) \<and> key = Some credential"
  using live_qdrant [OF assms(5,1)] qdrant_data [OF assms(2)] assms(3,4) by simp

text \<open>
  C28. A pgvector connector looks its variable up when it connects, after the variable was removed: unless
  the mapping names another variable, every connection of a stored pgvector target fails.
\<close>

theorem pgvector_target_never_connects:
  assumes "reads_fields P" "distinct (map fst (tg_mapping_config target))" "map_of (tg_mapping_config target) (py ''dsn_env'') = None"
    and "connector_for_target L N P S environ env_name target credential = Inr (LivePgvector config)" "environ env_name = None"
  shows "\<exists>m. ensure_connection L environ connect config = Inl (ConnectorConfigError m)"
proof -
  from assms(4) obtain raw where r: "cr_pgvector P (pgvector_config_data S env_name target) = Some raw" "validate_pgvector_config raw = Inr config"
    by (auto simp: connector_for_target_def Let_def split: target_type.splits option.splits sum.splits)
  have "jget (pgvector_config_data S env_name target) ''dsn_env'' = JStr env_name"
    using distinct_without_type [OF assms(2)] assms(3)
    by (simp add: pgvector_config_data_def jget_update jget_without_type) (simp add: jget_def)
  then have "pc_dsn_env raw = env_name" using assms(1) r(1) by (auto simp: reads_fields_def)
  moreover have "config = raw" using validate_pgvector_config_sound [OF r(2)] by simp
  ultimately show ?thesis using assms(5) by (simp add: ensure_connection_def resolve_env_credential_def)
qed

section \<open>Concrete targets\<close>

definition sample_reader :: config_reader where
  "sample_reader =
     \<lparr>cr_qdrant = \<lambda>d. (case (jget d ''endpoint'', jget d ''api_key_env'') of
        (JStr e, JStr v) \<Rightarrow> Some ((sample_qdrant ''x'')\<lparr>qc_endpoint := e, qc_api_key_env := Some v\<rparr>) | _ \<Rightarrow> None),
      cr_pgvector = \<lambda>d. (case jget d ''dsn_env'' of JStr v \<Rightarrow> Some (sample_pgvector\<lparr>pc_dsn_env := v\<rparr>) | _ \<Rightarrow> None)\<rparr>"

lemma sample_reads: "reads_fields sample_reader"
  by (auto simp: reads_fields_def sample_reader_def split: json.splits)

definition sample_target :: "target_type \<Rightarrow> dict \<Rightarrow> target_row" where
  "sample_target t mapping =
     \<lparr>tg_id = py ''t'', tg_workspace_id = py ''w'', tg_name = py ''n'', tg_target_type = t, tg_endpoint_redacted = py ''https://ok'',
      tg_mapping_config = mapping, tg_credential_ciphertext = [], tg_credential_key_id = py ''v1'', tg_credential_version = 1,
      tg_allowlist_decision = py ''public''\<rparr>"

definition hostile_mapping :: dict where
  "hostile_mapping = [(py ''endpoint'', JStr (py ''https://h/'')), (py ''api_key_env'', JStr (py ''SECRET''))]"

lemma hostile_connector:
  "\<exists>c key. connector_for_target sample_platform sample_net sample_reader sample_settings [py ''SECRET'' \<mapsto> py ''s''] (py ''E'')
     (sample_target QdrantTarget hostile_mapping) (py ''k'') = Inr (LiveQdrant c key)"
proof -
  have "cr_qdrant sample_reader (qdrant_config_data sample_settings (py ''E'') (sample_target QdrantTarget hostile_mapping)) =
      Some ((sample_qdrant ''x'')\<lparr>qc_endpoint := py ''https://h/'', qc_api_key_env := Some (py ''SECRET'')\<rparr>)"
    using qdrant_data [of "sample_target QdrantTarget hostile_mapping" sample_settings "py ''E''"]
    by (simp add: sample_reader_def sample_target_def hostile_mapping_def)
  then show ?thesis
    by (simp add: connector_for_target_def Let_def sample_target_def validate_qdrant_config_def validate_endpoint_def qdrant_connector_of_def
        sample_qdrant_def identifier_match_def env_var_match_def resolve_optional_credential_def resolve_env_credential_def
        is_word_name_def chomp_def ident_start_def ident_char_def invalid_mapping_fields_def configured_items_def mapping_fields_def
        no_mapping_def optional_ge_def url_simps)
qed

theorem mapping_overrides_guard_witness:
  "\<exists>c. connector_for_target sample_platform sample_net sample_reader sample_settings [py ''SECRET'' \<mapsto> py ''s''] (py ''E'')
     (sample_target QdrantTarget hostile_mapping) (py ''k'') = Inr (LiveQdrant c (Some (py ''s'')))
   \<and> Some (qc_endpoint (qn_config c)) = validate_endpoint sample_net (py ''https://h/'')"
proof -
  obtain c key where ck: "connector_for_target sample_platform sample_net sample_reader sample_settings [py ''SECRET'' \<mapsto> py ''s''] (py ''E'')
      (sample_target QdrantTarget hostile_mapping) (py ''k'') = Inr (LiveQdrant c key)"
    using hostile_connector by blast
  have "Some (qc_endpoint (qn_config c)) = validate_endpoint sample_net (py ''https://h/'') \<and> key = [py ''SECRET'' \<mapsto> py ''s''] (py ''SECRET'')"
    by (rule mapping_overrides_guard [OF sample_reads _ _ _ _ ck]) (simp_all add: sample_target_def hostile_mapping_def)
  then show ?thesis using ck by auto
qed

theorem pgvector_target_never_connects_witness:
  "\<exists>config m. connector_for_target sample_platform sample_net sample_reader sample_settings Map.empty (py ''E'')
     (sample_target PgvectorTarget []) (py ''k'') = Inr (LivePgvector config)
   \<and> ensure_connection sample_platform Map.empty (\<lambda>dsn n. Inr ()) config = Inl (ConnectorConfigError m)"
proof -
  have "jget (pgvector_config_data sample_settings (py ''E'') (sample_target PgvectorTarget [])) ''dsn_env'' = JStr (py ''E'')"
    by (simp add: pgvector_config_data_def sample_target_def without_type_def update_dict_def jget_def)
  then obtain config where c: "connector_for_target sample_platform sample_net sample_reader sample_settings Map.empty (py ''E'')
     (sample_target PgvectorTarget []) (py ''k'') = Inr (LivePgvector config)"
    by (simp add: connector_for_target_def Let_def sample_target_def sample_reader_def validate_pgvector_config_def sample_pgvector_def
        env_var_match_def identifier_match_def is_word_name_def chomp_def ident_start_def ident_char_def invalid_mapping_fields_def configured_items_def
        mapping_fields_def no_mapping_def optional_ge_def where_ok_def url_simps)
  have "\<exists>m. ensure_connection sample_platform Map.empty (\<lambda>dsn n. Inr ()) config = Inl (ConnectorConfigError m)"
    by (rule pgvector_target_never_connects [OF sample_reads _ _ c]) (simp_all add: sample_target_def)
  with c show ?thesis by blast
qed

end
