(* ===== verification/Snapshot_Job.thy ===== *)
theory Snapshot_Job
  imports Reconcile_Job Target_Routes
begin

text \<open>
  \<open>run_snapshot_job\<close> of \<open>ragledger.server.handlers\<close>: a pass over the live connector of a stored target is
  written as a snapshot file into the artifact store and recorded in its row. What the connector
  of a target sees is an argument, a \<open>snapshot_source\<close>; \<open>qdrant_source\<close> is the one of a Qdrant
  collection. The last property puts the two jobs together: reconciling a snapshot finds what reconciling
  the target would have found.
\<close>

section \<open>Rows and parameters\<close>

datatype snapshot_status =
    SnapshotPending | SnapshotRunning | SnapshotCompleted | SnapshotFailed | SnapshotCancelled | SnapshotIncomplete

record snapshot_row =
  sn_id :: pystr
  sn_workspace_id :: pystr
  sn_target_id :: pystr
  sn_status :: snapshot_status
  sn_point_count :: "int option"
  sn_content_hash :: "pystr option"
  sn_schema_hash :: "pystr option"
  sn_artifact_ref :: "pystr option"
  sn_checkpoint :: "dict option"

record snapshot_db =
  sd_snapshots :: "snapshot_row list"
  sd_targets :: "target_row list"

text \<open>What the calls of the job on a connector give, one after the other; an error is its text.\<close>

record snapshot_source =
  sc_validate :: "connector_error + unit"
  sc_test :: "pystr + connection_test_result"
  sc_schema :: "pystr + target_schema"
  sc_pass :: "normalized_point list \<times> pystr option"
  sc_consistency :: "pystr + consistency_info"

text \<open>The flag is read before every 500th point: \<open>se_cancelled k\<close> is what the k-th look sees.\<close>

record snapshot_env =
  se_platform :: platform
  se_codec :: "Ndjson.codec"
  se_aead :: aead
  se_net :: net_env
  se_reader :: config_reader
  se_environ :: "pystr \<Rightarrow> pystr option"
  se_env_name :: pystr
  se_source :: "live_connector \<Rightarrow> snapshot_source"
  se_started_at :: utc_datetime
  se_finished_at :: utc_datetime
  se_tmp_name :: pystr
  se_write_fault :: "nat option"
  se_cancelled :: "nat \<Rightarrow> bool"

definition CANCEL_CHECK_EVERY_POINTS :: nat where
  "CANCEL_CHECK_EVERY_POINTS = 500"

section \<open>The source of a Qdrant collection\<close>

definition qdrant_error_text :: "qdrant_error \<Rightarrow> pystr" where
  "qdrant_error_text e =
     (case e of Raised c \<Rightarrow> py ''ConnectorError'' | BadResponse \<Rightarrow> py ''AttributeError'' | PointInvalid \<Rightarrow> py ''ValidationError'')"

text \<open>Not there when the server never ends its scroll.\<close>

definition qdrant_source ::
  "platform \<Rightarrow> (nat \<Rightarrow> utc_datetime) \<Rightarrow> 's server \<Rightarrow> float64 \<Rightarrow> qdrant_connector \<Rightarrow> 's \<Rightarrow> snapshot_source option" where
  "qdrant_source L clock send latency_ms c0 s0 =
     (case test_qdrant_connection L send c0 latency_ms s0 of
        (test, s1) \<Rightarrow>
          (case inspect_qdrant L send c0 s1 of
             (schema, c1, s2) \<Rightarrow>
               map_option (\<lambda>((points, raised), c2, s3).
                  \<lparr>sc_validate = Inr (), sc_test = map_sum (\<lambda>e. py ''ConnectorError'') id test,
                   sc_schema = map_sum qdrant_error_text id schema, sc_pass = (points, map_option qdrant_error_text raised),
                   sc_consistency = (case qn_consistency c2 of None \<Rightarrow> Inl (py ''ConnectorError'') | Some info \<Rightarrow> Inr info)\<rparr>)
                 (iterate_qdrant_points L clock send c1 None None False s2)))"

section \<open>The steps\<close>

definition predicted_mode :: "platform \<Rightarrow> target_row \<Rightarrow> pystr" where
  "predicted_mode L target =
     (case tg_target_type target of
        QdrantTarget \<Rightarrow> py ''best_effort_live''
      | PgvectorTarget \<Rightarrow>
          (case map_of (tg_mapping_config target) (py ''consistency'') of None \<Rightarrow> py ''repeatable_read'' | Some v \<Rightarrow> py_str L v))"

definition snapshot_header_of :: "platform \<Rightarrow> target_row \<Rightarrow> target_schema \<Rightarrow> utc_datetime \<Rightarrow> snapshot_header" where
  "snapshot_header_of L target schema started_at =
     \<lparr>sh_target_id = ts_target_id schema, sh_scope = ts_scope schema, sh_target_type = target_type_value (tg_target_type target),
      sh_vector_names = map vf_name (ts_vector_fields schema),
      sh_vector_dimensions = foldl (\<lambda>d f. dict_set (vf_name f) (vf_dimension f) d) [] (ts_vector_fields schema),
      sh_started_at = started_at, sh_connector_version = py ''1'', sh_consistency_mode = predicted_mode L target,
      sh_scope_filter = None, sh_snapshot_kind = py ''full'', sh_sample_method = None, sh_sample_seed = None, sh_sample_rate = None\<rparr>"

text \<open>\<open>_tracked_points\<close>: how a pass ends, if not with its last point.\<close>

definition cancelled_in_pass :: "(nat \<Rightarrow> bool) \<Rightarrow> nat \<Rightarrow> bool" where
  "cancelled_in_pass flag n =
     list_ex (\<lambda>i. i mod CANCEL_CHECK_EVERY_POINTS = 0 \<and> flag (i div CANCEL_CHECK_EVERY_POINTS)) [0..<n]"

definition schema_hash_of :: "platform \<Rightarrow> target_schema \<Rightarrow> pystr" where
  "schema_hash_of L schema =
     hash_canonical L (JObj
       [(py ''target_id'', JStr (ts_target_id schema)), (py ''scope'', JStr (ts_scope schema)),
        (py ''point_id_type'', JStr (ts_point_id_type schema)),
        (py ''vector_fields'', JList (map (\<lambda>f. JObj [(py ''name'', JStr (vf_name f)), (py ''dimension'', JInt (vf_dimension f)),
           (py ''distance'', opt_str (vf_distance f))]) (ts_vector_fields schema))),
        (py ''payload_indexes'', JList (map JStr (ts_payload_indexes schema)))])"

definition completed_row ::
  "platform \<Rightarrow> snapshot_row \<Rightarrow> target_schema \<Rightarrow> normalized_point list \<Rightarrow> consistency_info \<Rightarrow> snapshot_trailer \<Rightarrow> artifact_info \<Rightarrow> snapshot_row" where
  "completed_row L row schema points info trailer artifact =
     row\<lparr>sn_status := (if ci_completeness info = COMPLETE then SnapshotCompleted else SnapshotIncomplete),
         sn_point_count := Some (st_point_count trailer), sn_content_hash := Some (st_content_hash trailer),
         sn_schema_hash := Some (schema_hash_of L schema), sn_artifact_ref := Some (py ''artifacts/'' @ ai_sha256 artifact),
         sn_checkpoint := (if points = [] then sn_checkpoint row
           else Some [(py ''last_point_id'', np_point_id (last points))])\<rparr>"

definition put_snapshot_row :: "snapshot_row \<Rightarrow> snapshot_db \<Rightarrow> snapshot_db" where
  "put_snapshot_row row db = db\<lparr>sd_snapshots := map (\<lambda>r. if sn_id r = sn_id row then row else r) (sd_snapshots db)\<rparr>"

definition find_snapshot :: "job \<Rightarrow> snapshot_db \<Rightarrow> string + snapshot_row \<times> target_row" where
  "find_snapshot j db =
     (case jget (jb_payload j) ''snapshot_id'' of
        JStr i \<Rightarrow>
          (case find (\<lambda>r. sn_id r = i) (sd_snapshots db) of
             None \<Rightarrow> Inl ''snapshot not found in workspace''
           | Some row \<Rightarrow>
               if sn_workspace_id row \<noteq> jb_workspace_id j then Inl ''snapshot not found in workspace''
               else (case find (\<lambda>t. tg_id t = sn_target_id row) (sd_targets db) of
                       None \<Rightarrow> Inl ''snapshot references a missing target''
                     | Some target \<Rightarrow> Inr (row, target)))
      | _ \<Rightarrow> Inl ''snapshot not found in workspace'')"

definition open_target :: "snapshot_env \<Rightarrow> server_settings \<Rightarrow> target_row \<Rightarrow> string + live_connector" where
  "open_target E S target =
     (case decrypt_credential (se_aead E) S (tg_credential_ciphertext target) of
        Inl e \<Rightarrow> Inl ''CredentialDecryptionError''
      | Inr plaintext \<Rightarrow>
          (case utf8_decode plaintext of
             None \<Rightarrow> Inl ''UnicodeDecodeError''
           | Some credential \<Rightarrow>
               (case connector_for_target (se_platform E) (se_net E) (se_reader E) S (se_environ E) (se_env_name E) target credential of
                  Inl f \<Rightarrow> Inl ''ConnectorConfigError''
                | Inr live \<Rightarrow> Inr live)))"

text \<open>The pass, the file and the row; a handler that raises has its writes rolled back, but not the store.\<close>

definition stream_snapshot ::
  "snapshot_env \<Rightarrow> snapshot_row \<Rightarrow> target_row \<Rightarrow> snapshot_source \<Rightarrow> target_schema \<Rightarrow> directory \<Rightarrow> snapshot_db
   \<Rightarrow> (handler_result \<times> snapshot_db) \<times> directory" where
  "stream_snapshot E row target src schema store db =
     (case sc_pass src of
        (points, raised) \<Rightarrow>
          if cancelled_in_pass (se_cancelled E) (length points) then ((HandlerCancelled, db), store)
          else
            (case (raised, sc_consistency src) of
               (Some e, _) \<Rightarrow> ((HandlerRaised e, db), store)
             | (None, Inl e) \<Rightarrow> ((HandlerRaised e, db), store)
             | (None, Inr info) \<Rightarrow>
                 (case write_snapshot (se_platform E) (se_codec E) (snapshot_header_of (se_platform E) target schema (se_started_at E))
                         points (se_finished_at E) (Some info) of
                    (file, trailer) \<Rightarrow>
                      (case put (se_tmp_name E) (se_write_fault E) file store of
                         (Inl e, store') \<Rightarrow> ((HandlerRaised (py ''OSError''), db), store')
                       | (Inr artifact, store') \<Rightarrow>
                           ((HandlerReturned, put_snapshot_row (completed_row (se_platform E) row schema points info trailer artifact) db),
                            store')))))"

definition run_snapshot_job ::
  "snapshot_env \<Rightarrow> server_settings \<Rightarrow> directory \<Rightarrow> snapshot_db \<Rightarrow> job \<Rightarrow> (handler_result \<times> snapshot_db) \<times> directory" where
  "run_snapshot_job E S store db j =
     (case find_snapshot j db of
        Inl e \<Rightarrow> ((HandlerPermanent (py e), db), store)
      | Inr (row, target) \<Rightarrow>
          (case open_target E S target of
             Inl e \<Rightarrow> ((HandlerRaised (py e), db), store)
           | Inr live \<Rightarrow>
               (let src = se_source E live in
                case sc_validate src of
                  Inl (ConnectorConfigError e) \<Rightarrow> ((HandlerPermanent e, db), store)
                | Inl e \<Rightarrow> ((HandlerRaised (py ''ConnectorError''), db), store)
                | Inr _ \<Rightarrow>
                    (case sc_test src of
                       Inl e \<Rightarrow> ((HandlerRaised e, db), store)
                     | Inr test \<Rightarrow>
                         if \<not> ct_ok test then ((HandlerRaised (py ''target unreachable: '' @ ct_message test), db), store)
                         else
                           (case sc_schema src of
                              Inl e \<Rightarrow> ((HandlerRaised e, db), store)
                            | Inr schema \<Rightarrow> stream_snapshot E row target src schema store db)))))"

section \<open>Lemmas\<close>

text \<open>What a reconciliation takes from a connector: the dimensions of its vectors, its points, and of its consistency all but the mode and the detail.\<close>

lemma preflight_dimensions:
  assumes "map vf_dimension (ts_vector_fields schema') = map vf_dimension (ts_vector_fields schema)"
  shows "preflight_schema_check L eps schema' t s = preflight_schema_check L eps schema t s"
  using assms by (simp add: preflight_schema_check_def Let_def flip: set_map)

lemma structural_counts:
  assumes "cc_start_count cav' = cc_start_count cav" "cc_end_count cav' = cc_end_count cav"
  shows "structural_findings L m t s c cav' = structural_findings L m t s c cav"
  using assms by (simp add: structural_findings_def)

definition what_was_found :: "reconciliation_result \<Rightarrow> summary \<times> ratios \<times> finding list" where
  "what_was_found r = (rr_summary r, rr_ratios r, rr_findings r)"

lemma finalize_found:
  assumes "cc_start_count cav' = cc_start_count cav" "cc_end_count cav' = cc_end_count cav"
  shows "map_sum id what_was_found (finalize L m t s pol sec eps n mo c cav') =
    map_sum id what_was_found (finalize L m t s pol sec eps n mo c cav)"
  unfolding finalize_def Let_def structural_counts [OF assms]
  by (simp add: andThen_def what_was_found_def split: sum.split)

lemma small_data_found:
  assumes "inspect_target_schema con = Inr schema" "inspect_target_schema con' = Inr schema'"
    and "map vf_dimension (ts_vector_fields schema') = map vf_dimension (ts_vector_fields schema)"
    and "iterate_points con = (points, None)" "iterate_points con' = (points, None)"
    and "get_consistency_info con = Inr info" "get_consistency_info con' = Inr info'"
    and "ci_completeness info' = ci_completeness info" "ci_start_count info' = ci_start_count info" "ci_end_count info' = ci_end_count info"
  shows "map_sum id what_was_found (reconcile_small_data L m con' t s pol sec kind cap) =
    map_sum id what_was_found (reconcile_small_data L m con t s pol sec kind cap)"
proof -
  have pre: "preflight_schema_check L eps schema' t s = preflight_schema_check L eps schema t s" for eps
    using assms(3) by (rule preflight_dimensions)
  have fin: "map_sum id what_was_found (finalize L m t s pol sec eps n mo c (consistency_caveat_from_info info' kind)) =
      map_sum id what_was_found (finalize L m t s pol sec eps n mo c (consistency_caveat_from_info info kind))" for eps n mo c
    using assms(9,10) by (intro finalize_found) (simp_all add: consistency_caveat_from_info_def)
  have lift: "map_sum id what_was_found (lift_taxonomy x) = lift_taxonomy (map_sum id what_was_found x)" for x
    by (cases x) (simp_all add: lift_taxonomy_def)
  show ?thesis
    using assms by (simp add: reconcile_small_data_def Let_def list_points_def pre lift fin andThen_def split: sum.split)
qed

lemma map_of_dict_sets:
  assumes "distinct (map k fs)" "f \<in> set fs"
  shows "map_of (foldl (\<lambda>d f. dict_set (k f) (v f) d) d0 fs) (k f) = Some (v f)"
  using assms by (induction fs rule: rev_induct) (auto, metis imageI)

text \<open>The header keeps the dimensions of the schema.\<close>

lemma header_dimensions:
  assumes "distinct (map vf_name (ts_vector_fields schema))"
  shows "map vf_dimension (ts_vector_fields (ndjson_schema (snapshot_header_of L target schema started_at))) =
    map vf_dimension (ts_vector_fields schema)"
  using map_of_dict_sets [OF assms, where v = vf_dimension]
  by (simp add: ndjson_schema_def snapshot_header_of_def comp_def)

definition target_connector :: "target_schema \<Rightarrow> normalized_point list \<Rightarrow> consistency_info \<Rightarrow> connector" where
  "target_connector schema points info =
     \<lparr>inspect_target_schema = Inr schema, iterate_points = (points, None), get_consistency_info = Inr info\<rparr>"

lemma replay_found:
  assumes "reads_back C" "write_snapshot L C (snapshot_header_of L target schema started_at) points fin (Some info) = (file, trailer)"
    and "decodes L C (snapshot_header_of L target schema started_at) points trailer"
    and "list_all (encodable L) (dump_header (snapshot_header_of L target schema started_at) # map dump_point points @ [dump_trailer trailer])"
    and "distinct (map vf_name (ts_vector_fields schema))"
  shows "map_sum id what_was_found (reconcile_small_data L m (ndjson_connector L C (Some file)) t s pol sec kind cap) =
    map_sum id what_was_found (reconcile_small_data L m (target_connector schema points info) t s pol sec kind cap)"
  by (rule small_data_found [where schema = schema and schema' = "ndjson_schema (snapshot_header_of L target schema started_at)"
        and points = points and info = info and info' = "\<lparr>ci_mode = STRICT_CONSISTENT, ci_completeness = ci_completeness info,
          ci_start_count = ci_start_count info, ci_end_count = ci_end_count info, ci_observed_count = int (length points), ci_detail = None\<rparr>"])
    (simp_all add: snapshot_replayed [OF assms(1-4)] target_connector_def header_dimensions [OF assms(5)])

lemma put_stored:
  assumes "temp_name tmp" "map_of store (sha256_hex data) \<in> {None, Some data}"
  shows "\<exists>store'. put tmp None data store = (Inr \<lparr>ai_sha256 = sha256_hex data, ai_size_bytes = length data\<rparr>, store')
    \<and> map_of store' (sha256_hex data) = Some data"
  using assms(2) by (cases rule: put_cases [OF assms(1), of None data store]) auto

section \<open>Properties\<close>

text \<open>
  C3. A snapshot job whose target answers ends with the row of the snapshot completed, or incomplete when the
  pass was, its counts and hashes those of the file in the store; and reconciling that file finds
  exactly what reconciling the target itself would have found during the pass, for every manifest,
  policy and limit.
\<close>

theorem snapshot_reconciles_like_target:
  assumes "find_snapshot j db = Inr (row, target)" "open_target E S target = Inr live"
    and "sc_validate (se_source E live) = Inr ()" "sc_test (se_source E live) = Inr test" "ct_ok test"
    and "sc_schema (se_source E live) = Inr schema" "sc_pass (se_source E live) = (points, None)"
    and "sc_consistency (se_source E live) = Inr info" "\<not> cancelled_in_pass (se_cancelled E) (length points)"
    and "distinct (map vf_name (ts_vector_fields schema))"
    and header: "header = snapshot_header_of (se_platform E) target schema (se_started_at E)"
    and "write_snapshot (se_platform E) (se_codec E) header points (se_finished_at E) (Some info) = (snap, trailer)"
    and "reads_back (se_codec E)" "decodes (se_platform E) (se_codec E) header points trailer"
    and "list_all (encodable (se_platform E)) (dump_header header # map dump_point points @ [dump_trailer trailer])"
    and "temp_name (se_tmp_name E)" "se_write_fault E = None" "map_of store (sha256_hex snap) \<in> {None, Some snap}"
  shows "\<exists>db' store' row'. run_snapshot_job E S store db j = ((HandlerReturned, db'), store')
    \<and> db' = put_snapshot_row row' db \<and> sn_id row' = sn_id row \<and> sn_workspace_id row' = sn_workspace_id row
    \<and> sn_status row' = (if ci_completeness info = COMPLETE then SnapshotCompleted else SnapshotIncomplete)
    \<and> sn_point_count row' = Some (int (length points)) \<and> sn_content_hash row' = Some (st_content_hash trailer)
    \<and> sn_artifact_ref row' = Some (py ''artifacts/'' @ sha256_hex snap)
    \<and> artifact_file (py ''artifacts/'' @ sha256_hex snap) store' = Some snap
    \<and> (\<forall>m t s pol sec kind cap.
         map_sum id what_was_found (reconcile_small_data (se_platform E) m (ndjson_connector (se_platform E) (se_codec E) (Some snap)) t s pol sec kind cap)
       = map_sum id what_was_found (reconcile_small_data (se_platform E) m (target_connector schema points info) t s pol sec kind cap))"
proof -
  let ?L = "se_platform E" and ?digest = "sha256_hex snap"
  let ?info = "\<lparr>ai_sha256 = ?digest, ai_size_bytes = length snap\<rparr>"
  let ?row = "completed_row ?L row schema points info trailer ?info"
  obtain store' where put: "put (se_tmp_name E) None snap store = (Inr ?info, store')" "map_of store' ?digest = Some snap"
    using put_stored [OF assms(16,18)] by blast
  have count: "st_point_count trailer = int (length points)"
    using trailer_written [of ?L "se_codec E" header points "se_finished_at E" "Some info"] assms(12) by (simp add: trailer_of_def)
  have run: "run_snapshot_job E S store db j = ((HandlerReturned, put_snapshot_row ?row db), store')"
    using assms(1-9,12,17) put(1) by (simp add: run_snapshot_job_def stream_snapshot_def Let_def flip: header)
  have row: "sn_id ?row = sn_id row" "sn_workspace_id ?row = sn_workspace_id row"
    "sn_status ?row = (if ci_completeness info = COMPLETE then SnapshotCompleted else SnapshotIncomplete)"
    "sn_point_count ?row = Some (int (length points))" "sn_content_hash ?row = Some (st_content_hash trailer)"
    "sn_artifact_ref ?row = Some (py ''artifacts/'' @ ?digest)"
    by (simp_all add: completed_row_def count)
  have found: "map_sum id what_was_found (reconcile_small_data ?L m (ndjson_connector ?L (se_codec E) (Some snap)) t s pol sec kind cap)
      = map_sum id what_was_found (reconcile_small_data ?L m (target_connector schema points info) t s pol sec kind cap)" for m t s pol sec kind cap
    using assms(10,12-15) unfolding header by (intro replay_found)
  show ?thesis
    using run row put(2) found by (intro exI [of _ "put_snapshot_row ?row db"] exI [of _ store'] exI [of _ ?row]) simp
qed

section \<open>A sample job\<close>

text \<open>A Qdrant target with an encrypted credential and one point of dimension 3.\<close>

definition sample_schema :: target_schema where
  "sample_schema =
     \<lparr>ts_target_id = py ''t'', ts_scope = py ''s'', ts_vector_fields = [\<lparr>vf_name = py ''v'', vf_dimension = 3, vf_distance = None\<rparr>],
      ts_point_id_type = py ''unknown'', ts_payload_indexes = [], ts_approx_point_count = None, ts_resolved_scope = None, ts_extra = []\<rparr>"

definition sample_info :: consistency_info where
  "sample_info = live_consistency None None 1"

definition sample_source :: snapshot_source where
  "sample_source =
     \<lparr>sc_validate = Inr (), sc_test = Inr \<lparr>ct_ok = True, ct_message = py ''reachable'', ct_latency_ms = None\<rparr>,
      sc_schema = Inr sample_schema, sc_pass = ([sample_observed], None), sc_consistency = Inr sample_info\<rparr>"

definition sample_snapshot_env :: snapshot_env where
  "sample_snapshot_env =
     \<lparr>se_platform = sample_platform, se_codec = Ndjson.sample_codec, se_aead = sample_aead, se_net = sample_net, se_reader = sample_reader,
      se_environ = Map.empty, se_env_name = py ''E'', se_source = (\<lambda>live. sample_source), se_started_at = sample_time,
      se_finished_at = sample_time, se_tmp_name = py ''.tmp-1'', se_write_fault = None, se_cancelled = (\<lambda>k. False)\<rparr>"

definition sealed_target :: target_row where
  "sealed_target = (sample_target QdrantTarget [])\<lparr>tg_credential_ciphertext := credential_blob (py ''v1'') (replicate 12 7) [0, 107]\<rparr>"

definition sample_snapshot :: snapshot_row where
  "sample_snapshot =
     \<lparr>sn_id = py ''s1'', sn_workspace_id = py ''w'', sn_target_id = py ''t'', sn_status = SnapshotPending, sn_point_count = None,
      sn_content_hash = None, sn_schema_hash = None, sn_artifact_ref = None, sn_checkpoint = None\<rparr>"

definition sample_snapshot_db :: snapshot_db where
  "sample_snapshot_db = \<lparr>sd_snapshots = [sample_snapshot], sd_targets = [sealed_target]\<rparr>"

definition sample_snapshot_job :: job where
  "sample_snapshot_job =
     fst (enqueue_job 0 (py ''j1'') (py ''w'') (py ''inventory_snapshot'') (Some [(py ''snapshot_id'', JStr (py ''s1''))]) None None [])"

lemma sample_snapshot_simps [simp]:
  "se_platform sample_snapshot_env = sample_platform" "se_codec sample_snapshot_env = Ndjson.sample_codec"
  "se_source sample_snapshot_env live = sample_source" "se_started_at sample_snapshot_env = sample_time"
  "se_finished_at sample_snapshot_env = sample_time" "temp_name (se_tmp_name sample_snapshot_env)" "se_write_fault sample_snapshot_env = None"
  "\<not> cancelled_in_pass (se_cancelled sample_snapshot_env) n"
  "sc_validate sample_source = Inr ()" "sc_test sample_source = Inr \<lparr>ct_ok = True, ct_message = py ''reachable'', ct_latency_ms = None\<rparr>"
  "sc_schema sample_source = Inr sample_schema" "sc_pass sample_source = ([sample_observed], None)"
  "sc_consistency sample_source = Inr sample_info" "ci_completeness sample_info = COMPLETE"
  "distinct (map vf_name (ts_vector_fields sample_schema))"
  by (simp_all add: sample_snapshot_env_def sample_source_def cancelled_in_pass_def list_ex_iff temp_name_def py_def sample_info_def
      live_consistency_def sample_schema_def)

lemma sample_decrypts: "decrypt_credential sample_aead sample_settings (credential_blob (py ''v1'') (replicate 12 7) [0, 107]) = Inr [107]"
  by (subst decrypt_blob) (simp_all add: is_ascii_def require_encryption_key_def sample_settings_def sample_key_bytes sample_aead_def py_def)

lemma plain_connector:
  "\<exists>live. connector_for_target sample_platform sample_net sample_reader sample_settings Map.empty (py ''E'') sealed_target (py ''k'') = Inr live"
proof -
  have "cr_qdrant sample_reader (qdrant_config_data sample_settings (py ''E'') sealed_target) =
      Some ((sample_qdrant ''x'')\<lparr>qc_endpoint := py ''https://ok'', qc_api_key_env := Some (py ''E'')\<rparr>)"
    using qdrant_data [of sealed_target sample_settings "py ''E''"]
    by (simp add: sample_reader_def sealed_target_def sample_target_def)
  then show ?thesis
    by (simp add: connector_for_target_def Let_def sealed_target_def sample_target_def validate_qdrant_config_def validate_endpoint_def
        qdrant_connector_of_def sample_qdrant_def identifier_match_def env_var_match_def resolve_optional_credential_def
        resolve_env_credential_def is_word_name_def chomp_def ident_start_def ident_char_def invalid_mapping_fields_def
        configured_items_def mapping_fields_def no_mapping_def optional_ge_def url_simps)
qed

lemma sample_snapshot_header: "snapshot_header_of sample_platform sealed_target sample_schema sample_time = sample_header"
  by (simp add: snapshot_header_of_def sealed_target_def sample_target_def sample_schema_def sample_header_def predicted_mode_def
      target_type_value_def)

lemma sample_snapshot_written:
  "write_snapshot sample_platform Ndjson.sample_codec sample_header [sample_observed] sample_time (Some sample_info) = (sample_file, sample_trailer)"
proof -
  have "trailer_of sample_time (Some sample_info) n hashed = trailer_of sample_time None n hashed" for n hashed
    by (simp add: trailer_of_def sample_info_def live_consistency_def)
  then have "write_snapshot sample_platform Ndjson.sample_codec sample_header [sample_observed] sample_time (Some sample_info) =
      write_snapshot sample_platform Ndjson.sample_codec sample_header [sample_observed] sample_time None"
    by (simp add: write_snapshot_def)
  then show ?thesis using sample_written by simp
qed

theorem snapshot_reconciles_like_target_witness:
  "\<exists>db' store' row'. run_snapshot_job sample_snapshot_env sample_settings [] sample_snapshot_db sample_snapshot_job = ((HandlerReturned, db'), store')
    \<and> db' = put_snapshot_row row' sample_snapshot_db \<and> sn_status row' = SnapshotCompleted \<and> sn_point_count row' = Some 1
    \<and> artifact_file sample_artifact store' = Some sample_file"
proof -
  obtain live where live: "connector_for_target sample_platform sample_net sample_reader sample_settings Map.empty (py ''E'') sealed_target (py ''k'') = Inr live"
    using plain_connector by blast
  have found: "find_snapshot sample_snapshot_job sample_snapshot_db = Inr (sample_snapshot, sealed_target)"
    by (simp add: find_snapshot_def sample_snapshot_job_def sample_snapshot_db_def sample_snapshot_def sealed_target_def sample_target_def
        enqueue_job_def Let_def jget_def)
  have opened: "open_target sample_snapshot_env sample_settings sealed_target = Inr live"
    using live sample_decrypts utf8_decode_encode [of "py ''k''"]
    by (simp add: open_target_def sample_snapshot_env_def) (simp add: sealed_target_def sample_target_def py_def utf8_encode_def)
  show ?thesis
    using snapshot_reconciles_like_target [OF found opened, where test = "\<lparr>ct_ok = True, ct_message = py ''reachable'', ct_latency_ms = None\<rparr>"
        and schema = sample_schema and points = "[sample_observed]" and info = sample_info and header = sample_header
        and snap = sample_file and trailer = sample_trailer and store = "[]"]
      sample_codec_ok sample_snapshot_header sample_snapshot_written
    by auto
qed

end
