(* ===== verification/Api_Store.thy ===== *)
theory Api_Store
  imports Scan_Job Snapshot_Job
begin

text \<open>
  The tables of \<open>ragledger.server.db.models\<close> that the routes of \<open>ragledger.server.api\<close> work on, and what the
  routes share: the lookup of a row of the caller's workspace, the audit event a route leaves, the
  latest job of an entity. A table is the list of its rows in the order they were created; time stamps
  that only the responses show are left out. A route gives a response or a problem and the
  database after its transaction.
\<close>

section \<open>Rows\<close>

record workspace_row =
  wo_id :: pystr
  wo_slug :: pystr
  wo_name :: pystr

record user_row =
  us_id :: pystr
  us_email :: pystr
  us_display_name :: "pystr option"

datatype membership_role = Owner | Editor | Viewer

record membership_row =
  me_workspace_id :: pystr
  me_user_id :: pystr
  me_role :: membership_role

record config_row =
  cf_id :: pystr
  cf_workspace_id :: pystr
  cf_config_hash :: pystr
  cf_config_json :: dict

datatype build_phase = BuildPending | BuildRunning | BuildCompleted | BuildFailed | BuildCancelled

record build_row =
  bu_id :: pystr
  bu_workspace_id :: pystr
  bu_source_collection_id :: pystr
  bu_pipeline_config_id :: pystr
  bu_state :: build_phase
  bu_counters :: dict
  bu_started_at :: "int option"
  bu_completed_at :: "int option"

record signature_row =
  sg_key_id :: pystr
  sg_signature :: pystr
  sg_signed_at :: utc_datetime
  sg_issuer :: "pystr option"

record manifest_row =
  mr_id :: pystr
  mr_workspace_id :: pystr
  mr_build_id :: pystr
  mr_namespace :: pystr
  mr_manifest_hash :: pystr
  mr_artifact_ref :: pystr
  mr_source_count :: nat
  mr_chunk_count :: nat
  mr_embedding_count :: nat
  mr_signed :: bool
  mr_signatures :: "signature_row list"

record policy_row =
  po_id :: pystr
  po_workspace_id :: pystr
  po_name :: pystr

record revision_row =
  rv_id :: pystr
  rv_workspace_id :: pystr
  rv_policy_id :: pystr
  rv_revision_number :: nat
  rv_config_hash :: pystr
  rv_rules_json :: dict

record api_db =
  ap_workspaces :: "workspace_row list"
  ap_users :: "user_row list"
  ap_memberships :: "membership_row list"
  ap_tokens :: "api_token list"
  ap_collections :: "collection_row list"
  ap_assets :: "asset_row list"
  ap_versions :: "version_row list"
  ap_configs :: "config_row list"
  ap_builds :: "build_row list"
  ap_manifests :: "manifest_row list"
  ap_targets :: "target_row list"
  ap_snapshots :: "snapshot_row list"
  ap_policies :: "policy_row list"
  ap_revisions :: "revision_row list"
  ap_reconciliations :: "reconciliation_row list"
  ap_findings :: "finding_row list"
  ap_evaluations :: "evaluation_row list"
  ap_jobs :: job_table
  ap_audit :: "audit_event list"

text \<open>What a call finds: the generated ids, the clock, its request id.\<close>

record call_env =
  ca_platform :: platform
  ca_new_id :: pystr
  ca_job_id :: pystr
  ca_now :: int
  ca_request_id :: "pystr option"

datatype api_problem =
    NoSuch string
  | Conflict string
  | Unprocessable string
  | Unavailable string
  | ServerFault string

type_synonym 'r answer = "(api_problem + 'r) \<times> api_db"

section \<open>What the routes share\<close>

text \<open>\<open>db.get(Model, id)\<close> and the check that the row is the caller's.\<close>

definition get_owned :: "('r \<Rightarrow> pystr) \<Rightarrow> ('r \<Rightarrow> pystr) \<Rightarrow> pystr \<Rightarrow> pystr \<Rightarrow> 'r list \<Rightarrow> 'r option" where
  "get_owned id_of workspace_of workspace_id i table =
     (case find (\<lambda>r. id_of r = i) table of
        None \<Rightarrow> None
      | Some row \<Rightarrow> if workspace_of row \<noteq> workspace_id then None else Some row)"

definition owned :: "('r \<Rightarrow> pystr) \<Rightarrow> pystr \<Rightarrow> 'r list \<Rightarrow> 'r list" where
  "owned workspace_of workspace_id table = filter (\<lambda>r. workspace_of r = workspace_id) table"

definition put_row :: "('r \<Rightarrow> pystr) \<Rightarrow> 'r \<Rightarrow> 'r list \<Rightarrow> 'r list" where
  "put_row id_of row table = map (\<lambda>r. if id_of r = id_of row then row else r) table"

definition api_event ::
  "call_env \<Rightarrow> auth_context \<Rightarrow> string \<Rightarrow> pystr \<Rightarrow> string \<Rightarrow> pystr \<Rightarrow> (pystr \<times> json) list option \<Rightarrow> audit_event" where
  "api_event E auth action result entity_type entity_id metadata =
     \<lparr>ae_workspace_id = Some (ac_workspace_id auth), ae_actor_type = py ''api_token'', ae_actor_id = Some (ac_token_id auth),
      ae_action = py action, ae_entity_type = Some (py entity_type), ae_entity_id = Some entity_id, ae_result = result,
      ae_request_id = ca_request_id E, ae_metadata = metadata\<rparr>"

text \<open>The end of a transaction that changed \<open>old\<close> to \<open>new\<close>: the event is recorded and all is committed, or the call raises.\<close>

definition commit_with :: "audit_event \<Rightarrow> 'r \<Rightarrow> api_db \<Rightarrow> api_db \<Rightarrow> 'r answer" where
  "commit_with event response old new =
     (case record_event event (ap_audit new) of
        (Inl k, _) \<Rightarrow> (Inl (ServerFault ''AuditMetadataError''), old)
      | (Inr _, events) \<Rightarrow> (Inr response, new\<lparr>ap_audit := events\<rparr>))"

definition queued :: pystr where
  "queued = py ''queued''"

definition success :: pystr where
  "success = py ''success''"

text \<open>\<open>_latest_job_for\<close>: jobs are listed in the order of their creation.\<close>

definition latest_job_for :: "string \<Rightarrow> pystr \<Rightarrow> job_table \<Rightarrow> job option" where
  "latest_job_for entity_type entity_id table =
     find (\<lambda>j. jb_related_entity_type j = Some (py entity_type) \<and> jb_related_entity_id j = Some entity_id) (rev table)"

definition cancel_outcome_value :: "cancel_outcome \<Rightarrow> pystr" where
  "cancel_outcome_value out =
     (case out of CancelledOutright \<Rightarrow> py ''cancelled'' | CancelRequested \<Rightarrow> py ''requested'' | NotCancellable \<Rightarrow> py ''not_cancellable'')"

definition cancel_entity_job :: "int \<Rightarrow> string \<Rightarrow> pystr \<Rightarrow> job_table \<Rightarrow> api_problem + cancel_outcome \<times> job_table" where
  "cancel_entity_job now entity_type entity_id table =
     (case latest_job_for entity_type entity_id table of
        None \<Rightarrow> Inl (Conflict ''Not cancellable'')
      | Some j \<Rightarrow>
          (case request_cancel now j of
             (NotCancellable, _) \<Rightarrow> Inl (Conflict ''Not cancellable'')
           | (out, j') \<Rightarrow> Inr (out, put_job j' table)))"

definition enqueue_for ::
  "call_env \<Rightarrow> auth_context \<Rightarrow> string \<Rightarrow> dict \<Rightarrow> string \<Rightarrow> pystr \<Rightarrow> job_table \<Rightarrow> job \<times> job_table" where
  "enqueue_for E auth job_type payload entity_type entity_id table =
     enqueue_job (ca_now E) (ca_job_id E) (ac_workspace_id auth) (py job_type) (Some payload) (Some (py entity_type)) (Some entity_id) table"

section \<open>Lemmas\<close>

lemma get_owned_Some:
  "get_owned id_of ws_of w i table = Some r \<Longrightarrow> r \<in> set table \<and> id_of r = i \<and> ws_of r = w"
  by (auto simp: get_owned_def find_Some_iff split: option.splits if_splits)

text \<open>With unique ids the lookup sees only the rows of the workspace.\<close>

lemma find_unique: "distinct (map f table) \<Longrightarrow> r \<in> set table \<Longrightarrow> find (\<lambda>x. f x = f r) table = Some r"
  by (induction table) auto

lemma get_owned_iff:
  assumes "distinct (map id_of table)"
  shows "get_owned id_of ws_of w i table = Some r \<longleftrightarrow> r \<in> set table \<and> id_of r = i \<and> ws_of r = w"
  using find_unique [OF assms] get_owned_Some [of id_of ws_of w i table r] by (auto simp: get_owned_def)

lemma get_owned_owned:
  assumes "distinct (map id_of table)"
  shows "get_owned id_of ws_of w i (owned ws_of w table) = get_owned id_of ws_of w i table"
proof -
  have d: "distinct (map id_of (owned ws_of w table))"
    using assms by (simp add: owned_def distinct_map inj_on_def)
  have "get_owned id_of ws_of w i (owned ws_of w table) = Some r \<longleftrightarrow> get_owned id_of ws_of w i table = Some r" for r
    unfolding get_owned_iff [OF d] get_owned_iff [OF assms] by (auto simp: owned_def)
  then show ?thesis by (metis option.exhaust)
qed

lemma commit_with_cases:
  assumes "check_metadata (ae_metadata event) = Inr ()"
  shows "commit_with event response old new = (Inr response, new\<lparr>ap_audit := ap_audit new @ [event]\<rparr>)"
  using assms by (simp add: commit_with_def record_event_def)

end
