(* ===== verification/Api_Manifest.thy ===== *)
theory Api_Manifest
  imports Api_Store Signing
begin

text \<open>
  The routes of \<open>ragledger.server.api.manifest_routes\<close>: manifests with their signatures, and snapshots.
  Ed25519 is the parameter of \<open>Signing\<close>; reading a manifest file (pydantic) and the key files are
  parameters. The artifact store is what is below \<open>artifacts\<close>; no transaction rolls it back.
\<close>

section \<open>Manifests\<close>

record ('sk, 'pk) signing_env =
  sy_scheme :: "('sk, 'pk) ed25519"
  sy_load_manifest :: "bytes \<Rightarrow> manifest_envelope option"
  sy_private_key :: "pystr \<Rightarrow> 'sk option"
  sy_is_file :: "pystr \<Rightarrow> bool"
  sy_key_id :: "pystr option"
  sy_trust_store :: "'pk list"
  sy_signed_at :: utc_datetime
  sy_tmp_name :: pystr
  sy_write_fault :: "nat option"

definition load_manifest_envelope ::
  "('sk, 'pk) signing_env \<Rightarrow> manifest_row \<Rightarrow> directory \<Rightarrow> api_problem + manifest_envelope" where
  "load_manifest_envelope Y row store =
     (case artifact_file (mr_artifact_ref row) store of
        None \<Rightarrow> Inl (ServerFault ''Manifest artifact missing'')
      | Some data \<Rightarrow> (case sy_load_manifest Y data of None \<Rightarrow> Inl (ServerFault ''ManifestError'') | Some m \<Rightarrow> Inr m))"

definition list_manifests :: "auth_context \<Rightarrow> api_db \<Rightarrow> manifest_row list" where
  "list_manifests auth db = rev (owned mr_workspace_id (ac_workspace_id auth) (ap_manifests db))"

definition get_manifest :: "auth_context \<Rightarrow> pystr \<Rightarrow> api_db \<Rightarrow> api_problem + manifest_row" where
  "get_manifest auth i db =
     (case get_owned mr_id mr_workspace_id (ac_workspace_id auth) i (ap_manifests db) of
        None \<Rightarrow> Inl (NoSuch ''manifest'')
      | Some row \<Rightarrow> Inr row)"

text \<open>The row of a signature that was attached; one and the same signature is not recorded twice.\<close>

definition attach_signature :: "signature_record \<Rightarrow> pystr \<Rightarrow> manifest_row \<Rightarrow> manifest_row option" where
  "attach_signature record artifact_ref row =
     (if list_ex (\<lambda>g. sg_key_id g = sig_key_id record \<and> sg_signature g = sig_signature record) (mr_signatures row) then None
      else Some (row\<lparr>mr_artifact_ref := artifact_ref, mr_signed := True,
             mr_signatures := mr_signatures row @
               [\<lparr>sg_key_id = sig_key_id record, sg_signature = sig_signature record, sg_signed_at = sig_signed_at record,
                 sg_issuer = sig_issuer record\<rparr>]\<rparr>))"

definition sign_manifest_endpoint ::
  "call_env \<Rightarrow> ('sk, 'pk) signing_env \<Rightarrow> server_settings \<Rightarrow> auth_context \<Rightarrow> pystr \<Rightarrow> api_db \<Rightarrow> directory
   \<Rightarrow> manifest_row answer \<times> directory" where
  "sign_manifest_endpoint E Y S auth i db store =
     (if \<not> signing_enabled (sy_is_file Y) S then ((Inl (Unavailable ''Signing not enabled''), db), store)
      else
        (case get_owned mr_id mr_workspace_id (ac_workspace_id auth) i (ap_manifests db) of
           None \<Rightarrow> ((Inl (NoSuch ''manifest''), db), store)
         | Some row \<Rightarrow>
             (case load_manifest_envelope Y row store of
                Inl p \<Rightarrow> ((Inl p, db), store)
              | Inr envelope \<Rightarrow>
                  (case Option.bind (st_manifest_signing_key_file S) (sy_private_key Y) of
                     None \<Rightarrow> ((Inl (ServerFault ''SigningError''), db), store)
                   | Some private_key \<Rightarrow>
                       (let signed = sign_manifest (ca_platform E) (sy_scheme Y) envelope private_key (sy_signed_at Y) (sy_key_id Y);
                            new_signature = last (mf_signatures signed)
                        in case put (sy_tmp_name Y) (sy_write_fault Y) (canonical_manifest_bytes (ca_platform E) signed) store of
                             (Inl e, store') \<Rightarrow> ((Inl (ServerFault ''OSError''), db), store')
                           | (Inr info, store') \<Rightarrow>
                               (case attach_signature new_signature (py ''artifacts/'' @ ai_sha256 info) row of
                                  None \<Rightarrow> ((Inl (ServerFault ''IntegrityError''), db), store')
                                | Some row' \<Rightarrow>
                                    (commit_with
                                       (api_event E auth ''manifest.sign'' success ''manifest'' (mr_id row)
                                         (Some [(py ''key_id'', JStr (sig_key_id new_signature))]))
                                       row' db (db\<lparr>ap_manifests := put_row mr_id row' (ap_manifests db)\<rparr>),
                                     store')))))))"

text \<open>The public keys of the trust store under their fingerprints; a later file wins.\<close>

definition load_trust_store :: "('sk, 'pk) signing_env \<Rightarrow> pystr \<Rightarrow> 'pk option" where
  "load_trust_store Y = map_of (rev (map (\<lambda>pk. (fingerprint (sy_scheme Y) pk, pk)) (sy_trust_store Y)))"

definition verify_manifest_endpoint ::
  "platform \<Rightarrow> ('sk, 'pk) signing_env \<Rightarrow> auth_context \<Rightarrow> pystr \<Rightarrow> api_db \<Rightarrow> directory \<Rightarrow> api_problem + verification_result" where
  "verify_manifest_endpoint L Y auth i db store =
     (case get_owned mr_id mr_workspace_id (ac_workspace_id auth) i (ap_manifests db) of
        None \<Rightarrow> Inl (NoSuch ''manifest'')
      | Some row \<Rightarrow>
          andThen (load_manifest_envelope Y row store) (\<lambda>envelope.
            case verify_manifest L (sy_scheme Y) envelope (load_trust_store Y) of
              Inl e \<Rightarrow> Inl (ServerFault ''binascii.Error'')
            | Inr r \<Rightarrow> Inr r))"

section \<open>Snapshots\<close>

definition list_snapshots :: "auth_context \<Rightarrow> pystr \<Rightarrow> api_db \<Rightarrow> api_problem + snapshot_row list" where
  "list_snapshots auth target_id db =
     (case get_owned tg_id tg_workspace_id (ac_workspace_id auth) target_id (ap_targets db) of
        None \<Rightarrow> Inl (NoSuch ''target'')
      | Some target \<Rightarrow> Inr (rev (filter (\<lambda>r. sn_target_id r = tg_id target) (ap_snapshots db))))"

definition create_snapshot :: "call_env \<Rightarrow> auth_context \<Rightarrow> pystr \<Rightarrow> api_db \<Rightarrow> (snapshot_row \<times> job) answer" where
  "create_snapshot E auth target_id db =
     (case get_owned tg_id tg_workspace_id (ac_workspace_id auth) target_id (ap_targets db) of
        None \<Rightarrow> (Inl (NoSuch ''target''), db)
      | Some target \<Rightarrow>
          (let row = \<lparr>sn_id = ca_new_id E, sn_workspace_id = ac_workspace_id auth, sn_target_id = tg_id target,
                      sn_status = SnapshotPending, sn_point_count = None, sn_content_hash = None, sn_schema_hash = None,
                      sn_artifact_ref = None, sn_checkpoint = None\<rparr>
           in case enqueue_for E auth ''inventory_snapshot'' [(py ''snapshot_id'', JStr (sn_id row))] ''inventory_snapshot'' (sn_id row)
                     (ap_jobs db) of
                (j, table) \<Rightarrow>
                  commit_with
                    (api_event E auth ''snapshot.create'' queued ''inventory_snapshot'' (sn_id row)
                      (Some [(py ''job_id'', JStr (jb_id j)), (py ''target_id'', JStr (tg_id target))]))
                    (row, j) db (db\<lparr>ap_snapshots := ap_snapshots db @ [row], ap_jobs := table\<rparr>)))"

definition get_snapshot :: "auth_context \<Rightarrow> pystr \<Rightarrow> api_db \<Rightarrow> api_problem + snapshot_row" where
  "get_snapshot auth i db =
     (case get_owned sn_id sn_workspace_id (ac_workspace_id auth) i (ap_snapshots db) of
        None \<Rightarrow> Inl (NoSuch ''snapshot'')
      | Some row \<Rightarrow> Inr row)"

definition cancel_snapshot :: "call_env \<Rightarrow> auth_context \<Rightarrow> pystr \<Rightarrow> api_db \<Rightarrow> snapshot_row answer" where
  "cancel_snapshot E auth i db =
     (case get_owned sn_id sn_workspace_id (ac_workspace_id auth) i (ap_snapshots db) of
        None \<Rightarrow> (Inl (NoSuch ''snapshot''), db)
      | Some row \<Rightarrow>
          (case cancel_entity_job (ca_now E) ''inventory_snapshot'' (sn_id row) (ap_jobs db) of
             Inl p \<Rightarrow> (Inl p, db)
           | Inr (out, table) \<Rightarrow>
               (let row' = (if out = CancelledOutright \<and> sn_status row = SnapshotPending then row\<lparr>sn_status := SnapshotCancelled\<rparr> else row)
                in commit_with
                     (api_event E auth ''snapshot.cancel'' (cancel_outcome_value out) ''inventory_snapshot'' (sn_id row) None)
                     row' db (db\<lparr>ap_snapshots := put_row sn_id row' (ap_snapshots db), ap_jobs := table\<rparr>))))"

section \<open>Properties\<close>

lemma key_id_unforbidden: "check_metadata (Some [(py ''key_id'', v)]) = Inr ()"
proof -
  have "\<not> forbidden_key (py ''key_id'')" by code_simp
  then show ?thesis by (simp add: check_metadata_ok)
qed

lemma find_put_row: "find (\<lambda>r. id_of r = i) table = Some row \<Longrightarrow> id_of row' = i \<Longrightarrow> find (\<lambda>r. id_of r = i) (put_row id_of row' table) = Some row'"
  by (induction table) (auto simp: put_row_def split: if_splits)

lemma get_put_row:
  "get_owned id_of ws_of w i table = Some row \<Longrightarrow> id_of row' = id_of row \<Longrightarrow> ws_of row' = ws_of row
   \<Longrightarrow> get_owned id_of ws_of w i (put_row id_of row' table) = Some row'"
  using get_owned_Some [of id_of ws_of w i table row] find_put_row [of id_of i table row row']
  by (auto simp: get_owned_def split: option.splits if_splits)

text \<open>
  C33. A manifest that the server signed verifies over the API: after a call that signs one whose earlier signatures
  are well-formed, with a key that the trust store holds, the row refers to a new artifact, is marked signed with one more
  signature, and a call that verifies it answers \<open>VALID_TRUSTED\<close> with an intact hash.
\<close>

theorem signing_endpoint_verifies:
  assumes "signing_enabled (sy_is_file Y) S" "st_manifest_signing_key_file S = Some key_file" "sy_private_key Y key_file = Some sk"
    and row: "get_owned mr_id mr_workspace_id (ac_workspace_id auth) i (ap_manifests db) = Some row"
    and "artifact_file (mr_artifact_ref row) store = Some data" "sy_load_manifest Y data = Some m"
    and "list_all (\<lambda>s. b64url_decode (sig_signature s) \<noteq> None) (mf_signatures m)"
    and envelope: "envelope = sign_manifest (ca_platform E) (sy_scheme Y) m sk (sy_signed_at Y) (sy_key_id Y)"
    and "\<not> list_ex (\<lambda>g. sg_key_id g = sig_key_id (last (mf_signatures envelope)) \<and> sg_signature g = sig_signature (last (mf_signatures envelope))) (mr_signatures row)"
    and "signs_correctly (sy_scheme Y)"
      "load_trust_store Y (fingerprint (sy_scheme Y) (public_key (sy_scheme Y) sk)) = Some (public_key (sy_scheme Y) sk)"
    and bytes: "bytes = canonical_manifest_bytes (ca_platform E) envelope" "sy_load_manifest Y bytes = Some envelope"
    and "temp_name (sy_tmp_name Y)" "sy_write_fault Y = None" "map_of store (sha256_hex bytes) \<in> {None, Some bytes}"
  shows "\<exists>row' db' store' r. sign_manifest_endpoint E Y S auth i db store = ((Inr row', db'), store')
    \<and> mr_id row' = mr_id row \<and> mr_signed row' \<and> mr_artifact_ref row' = py ''artifacts/'' @ sha256_hex bytes
    \<and> length (mr_signatures row') = Suc (length (mr_signatures row))
    \<and> artifact_file (mr_artifact_ref row') store' = Some bytes
    \<and> verify_manifest_endpoint (ca_platform E) Y auth i db' store' = Inr r \<and> vr_hash_valid r \<and> vr_overall r = VALID_TRUSTED"
proof -
  let ?sig = "last (mf_signatures envelope)" and ?ref = "py ''artifacts/'' @ sha256_hex bytes"
  obtain store' where put: "put (sy_tmp_name Y) None bytes store = (Inr \<lparr>ai_sha256 = sha256_hex bytes, ai_size_bytes = length bytes\<rparr>, store')"
    "map_of store' (sha256_hex bytes) = Some bytes"
    using put_stored [OF assms(14,16)] by blast
  obtain row' where attach: "attach_signature ?sig ?ref row = Some row'"
    and row': "mr_id row' = mr_id row" "mr_workspace_id row' = mr_workspace_id row" "mr_signed row'" "mr_artifact_ref row' = ?ref"
      "length (mr_signatures row') = Suc (length (mr_signatures row))"
    using assms(9) by (auto simp: attach_signature_def)
  let ?event = "api_event E auth ''manifest.sign'' success ''manifest'' (mr_id row) (Some [(py ''key_id'', JStr (sig_key_id ?sig))])"
  let ?db = "db\<lparr>ap_manifests := put_row mr_id row' (ap_manifests db), ap_audit := ap_audit db @ [?event]\<rparr>"
  have "commit_with ?event row' db (db\<lparr>ap_manifests := put_row mr_id row' (ap_manifests db)\<rparr>) = (Inr row', ?db)"
    by (simp add: commit_with_cases api_event_def key_id_unforbidden)
  then have run: "sign_manifest_endpoint E Y S auth i db store = ((Inr row', ?db), store')"
    using assms(1-3,5,6,15) row put(1) attach
    by (simp add: sign_manifest_endpoint_def load_manifest_envelope_def Let_def flip: envelope bytes(1))
  have "get_owned mr_id mr_workspace_id (ac_workspace_id auth) i (ap_manifests ?db) = Some row'"
    using get_put_row [OF row row'(1,2)] by simp
  moreover obtain r where "verify_manifest (ca_platform E) (sy_scheme Y) envelope (load_trust_store Y) = Inr r" "vr_hash_valid r" "vr_overall r = VALID_TRUSTED"
    using sign_then_verify [where keys = "load_trust_store Y", OF assms(10,11,7)] unfolding envelope by blast
  ultimately have "verify_manifest_endpoint (ca_platform E) Y auth i ?db store' = Inr r" "vr_hash_valid r" "vr_overall r = VALID_TRUSTED"
    using row'(4) put(2) bytes(2) by (simp_all add: verify_manifest_endpoint_def load_manifest_envelope_def andThen_def)
  with run row' put(2) show ?thesis by auto
qed

section \<open>A sample manifest to sign\<close>

definition sample_signed :: manifest_envelope where
  "sample_signed = sign_manifest sample_platform sample_scheme sample_manifest 7 sample_time None"

definition sample_signed_bytes :: bytes where
  "sample_signed_bytes = canonical_manifest_bytes sample_platform sample_signed"

definition sample_signing_env :: "(byte, byte) signing_env" where
  "sample_signing_env =
     \<lparr>sy_scheme = sample_scheme, sy_load_manifest = (\<lambda>b. Some (if b = sample_signed_bytes then sample_signed else sample_manifest)),
      sy_private_key = (\<lambda>p. Some 7), sy_is_file = (\<lambda>p. True), sy_key_id = None, sy_trust_store = [7], sy_signed_at = sample_time,
      sy_tmp_name = py ''.tmp-1'', sy_write_fault = None\<rparr>"

definition sample_signing_settings :: server_settings where
  "sample_signing_settings = sample_settings\<lparr>st_manifest_signing_key_file := Some (py ''key.pem'')\<rparr>"

definition sample_manifest_row :: manifest_row where
  "sample_manifest_row =
     \<lparr>mr_id = py ''m'', mr_workspace_id = py ''w'', mr_build_id = py ''b'', mr_namespace = py ''n'', mr_manifest_hash = py ''h'',
      mr_artifact_ref = py ''artifacts/x'', mr_source_count = 1, mr_chunk_count = 1, mr_embedding_count = 1, mr_signed = False, mr_signatures = []\<rparr>"

definition sample_manifest_db :: api_db where
  "sample_manifest_db =
     \<lparr>ap_workspaces = [], ap_users = [], ap_memberships = [], ap_tokens = [], ap_collections = [], ap_assets = [], ap_versions = [],
      ap_configs = [], ap_builds = [], ap_manifests = [sample_manifest_row], ap_targets = [], ap_snapshots = [], ap_policies = [],
      ap_revisions = [], ap_reconciliations = [], ap_findings = [], ap_evaluations = [], ap_jobs = [], ap_audit = []\<rparr>"

definition sample_manifest_store :: directory where
  "sample_manifest_store = [(py ''x'', 0 # sample_signed_bytes)]"

definition sample_signer :: auth_context where
  "sample_signer = \<lparr>ac_token_id = py ''t'', ac_workspace_id = py ''w'', ac_scopes = [py ''admin'']\<rparr>"

definition sample_signing_call :: call_env where
  "sample_signing_call = \<lparr>ca_platform = sample_platform, ca_new_id = py ''i'', ca_job_id = py ''j'', ca_now = 5, ca_request_id = None\<rparr>"

theorem signing_endpoint_verifies_witness:
  "\<exists>row' db' store' r. sign_manifest_endpoint sample_signing_call sample_signing_env sample_signing_settings sample_signer (py ''m'') sample_manifest_db
       sample_manifest_store = ((Inr row', db'), store')
    \<and> mr_id row' = mr_id sample_manifest_row \<and> mr_signed row' \<and> mr_artifact_ref row' = py ''artifacts/'' @ sha256_hex sample_signed_bytes
    \<and> length (mr_signatures row') = Suc (length (mr_signatures sample_manifest_row))
    \<and> artifact_file (mr_artifact_ref row') store' = Some sample_signed_bytes
    \<and> verify_manifest_endpoint (ca_platform sample_signing_call) sample_signing_env sample_signer (py ''m'') db' store' = Inr r
    \<and> vr_hash_valid r \<and> vr_overall r = VALID_TRUSTED"
proof (rule signing_endpoint_verifies)
  show "signing_enabled (sy_is_file sample_signing_env) sample_signing_settings"
    by (simp add: signing_enabled_def sample_signing_env_def sample_signing_settings_def)
  show "st_manifest_signing_key_file sample_signing_settings = Some (py ''key.pem'')" by (simp add: sample_signing_settings_def)
  show "sy_private_key sample_signing_env (py ''key.pem'') = Some 7" by (simp add: sample_signing_env_def)
  show "get_owned mr_id mr_workspace_id (ac_workspace_id sample_signer) (py ''m'') (ap_manifests sample_manifest_db) = Some sample_manifest_row"
    by (simp add: get_owned_def sample_manifest_db_def sample_manifest_row_def sample_signer_def)
  show "artifact_file (mr_artifact_ref sample_manifest_row) sample_manifest_store = Some (0 # sample_signed_bytes)"
    by (simp add: artifact_file_def sample_manifest_row_def sample_manifest_store_def py_def)
  show "sy_load_manifest sample_signing_env (0 # sample_signed_bytes) = Some sample_manifest"
    by (simp add: sample_signing_env_def)
  show "list_all (\<lambda>s. b64url_decode (sig_signature s) \<noteq> None) (mf_signatures sample_manifest)"
    by (simp add: sample_unsigned)
  show "sample_signed = sign_manifest (ca_platform sample_signing_call) (sy_scheme sample_signing_env) sample_manifest 7
      (sy_signed_at sample_signing_env) (sy_key_id sample_signing_env)"
    by (simp add: sample_signed_def sample_signing_call_def sample_signing_env_def)
  show "\<not> list_ex (\<lambda>g. sg_key_id g = sig_key_id (last (mf_signatures sample_signed)) \<and> sg_signature g = sig_signature (last (mf_signatures sample_signed)))
      (mr_signatures sample_manifest_row)"
    by (simp add: sample_manifest_row_def)
  show "signs_correctly (sy_scheme sample_signing_env)"
    using sample_scheme_correct by (simp add: sample_signing_env_def)
  show "load_trust_store sample_signing_env (fingerprint (sy_scheme sample_signing_env) (public_key (sy_scheme sample_signing_env) 7))
      = Some (public_key (sy_scheme sample_signing_env) 7)"
    by (simp add: load_trust_store_def sample_signing_env_def sample_scheme_def)
  show "sample_signed_bytes = canonical_manifest_bytes (ca_platform sample_signing_call) sample_signed"
    by (simp add: sample_signed_bytes_def sample_signing_call_def)
  show "sy_load_manifest sample_signing_env sample_signed_bytes = Some sample_signed" by (simp add: sample_signing_env_def)
  show "temp_name (sy_tmp_name sample_signing_env)" by (simp add: sample_signing_env_def temp_name_def py_def)
  show "sy_write_fault sample_signing_env = None" by (simp add: sample_signing_env_def)
  have "sha256_hex sample_signed_bytes \<noteq> py ''x''"
  proof
    assume "sha256_hex sample_signed_bytes = py ''x''"
    then have "length (sha256_hex sample_signed_bytes) = length (py ''x'')" by simp
    then show False using sha256_hex_shape(1) [of sample_signed_bytes] by (simp add: py_def)
  qed
  then show "map_of sample_manifest_store (sha256_hex sample_signed_bytes) \<in> {None, Some sample_signed_bytes}"
    by (simp add: sample_manifest_store_def)
qed

end
