(* ===== verification/Api_Pipeline.thy ===== *)
theory Api_Pipeline
  imports Api_Store
begin

text \<open>
  The routes of \<open>ragledger.server.api.pipeline_routes\<close>: source collections and what was scanned, pipeline
  configurations, builds and jobs. Scheduling the queue after a commit is the matter of \<open>Jobs\<close>.
\<close>

section \<open>Source collections\<close>

record collection_create =
  cc_name :: pystr
  cc_namespace :: pystr
  cc_root :: pystr

text \<open>The field validator of the root; the lengths are pydantic's.\<close>

definition collection_create_ok :: "collection_create \<Rightarrow> bool" where
  "collection_create_ok payload \<longleftrightarrow> startswith (cc_root payload) [47]"

definition list_source_collections :: "auth_context \<Rightarrow> api_db \<Rightarrow> collection_row list" where
  "list_source_collections auth db = owned co_workspace_id (ac_workspace_id auth) (ap_collections db)"

text \<open>The text of a resolved path.\<close>

definition path_text :: "pystr list \<Rightarrow> pystr" where
  "path_text parts = 47 # join [47] parts"

definition create_source_collection ::
  "call_env \<Rightarrow> root_env \<Rightarrow> server_settings \<Rightarrow> auth_context \<Rightarrow> collection_create \<Rightarrow> api_db \<Rightarrow> collection_row answer" where
  "create_source_collection E R S auth payload db =
     (if \<not> ro_is_dir R (cc_root payload) then (Inl (Unprocessable ''Invalid source root''), db)
      else if \<not> is_source_root_allowed (ro_resolve R) S (cc_root payload) then (Inl (Unprocessable ''Source root not allowed''), db)
      else if list_ex (\<lambda>r. co_workspace_id r = ac_workspace_id auth \<and> co_namespace r = cc_namespace payload) (ap_collections db)
      then (Inl (Conflict ''Namespace already exists''), db)
      else
        (let row = \<lparr>co_id = ca_new_id E, co_workspace_id = ac_workspace_id auth, co_name = cc_name payload,
                    co_namespace = cc_namespace payload,
                    co_root_config = [(py ''root'', JStr (path_text (ro_resolve R (cc_root payload))))]\<rparr>
         in commit_with
              (api_event E auth ''source_collection.create'' success ''source_collection'' (co_id row)
                (Some [(py ''namespace'', JStr (cc_namespace payload))]))
              row db (db\<lparr>ap_collections := ap_collections db @ [row]\<rparr>)))"

definition scan_source_collection :: "call_env \<Rightarrow> auth_context \<Rightarrow> pystr \<Rightarrow> api_db \<Rightarrow> job answer" where
  "scan_source_collection E auth collection_id db =
     (case get_owned co_id co_workspace_id (ac_workspace_id auth) collection_id (ap_collections db) of
        None \<Rightarrow> (Inl (NoSuch ''source collection''), db)
      | Some collection \<Rightarrow>
          (case enqueue_for E auth ''source_collection_scan'' [(py ''collection_id'', JStr (co_id collection))]
                  ''source_collection'' (co_id collection) (ap_jobs db) of
             (j, table) \<Rightarrow>
               commit_with
                 (api_event E auth ''source_collection.scan'' queued ''source_collection'' (co_id collection)
                   (Some [(py ''job_id'', JStr (jb_id j))]))
                 j db (db\<lparr>ap_jobs := table\<rparr>)))"

definition list_sources :: "auth_context \<Rightarrow> pystr option \<Rightarrow> api_db \<Rightarrow> asset_row list" where
  "list_sources auth collection_id db =
     sort_key as_uri
       (filter (\<lambda>r. case collection_id of None \<Rightarrow> True | Some i \<Rightarrow> as_collection_id r = i)
         (owned as_workspace_id (ac_workspace_id auth) (ap_assets db)))"

definition list_source_versions :: "auth_context \<Rightarrow> pystr \<Rightarrow> api_db \<Rightarrow> api_problem + version_row list" where
  "list_source_versions auth source_id db =
     (case get_owned as_id as_workspace_id (ac_workspace_id auth) source_id (ap_assets db) of
        None \<Rightarrow> Inl (NoSuch ''source'')
      | Some asset \<Rightarrow> Inr (filter (\<lambda>v. ve_source_asset_id v = as_id asset) (ap_versions db)))"

section \<open>Pipeline configurations\<close>

definition list_pipeline_configs :: "auth_context \<Rightarrow> api_db \<Rightarrow> config_row list" where
  "list_pipeline_configs auth db = owned cf_workspace_id (ac_workspace_id auth) (ap_configs db)"

text \<open>The configuration as its model dumps it.\<close>

definition create_pipeline_config :: "call_env \<Rightarrow> auth_context \<Rightarrow> dict \<Rightarrow> api_db \<Rightarrow> config_row answer" where
  "create_pipeline_config E auth config_json db =
     (let config_hash = hash_canonical (ca_platform E) (JObj config_json) in
      case find (\<lambda>r. cf_workspace_id r = ac_workspace_id auth \<and> cf_config_hash r = config_hash) (ap_configs db) of
        Some existing \<Rightarrow> (Inr existing, db)
      | None \<Rightarrow>
          (let row = \<lparr>cf_id = ca_new_id E, cf_workspace_id = ac_workspace_id auth, cf_config_hash = config_hash, cf_config_json = config_json\<rparr>
           in commit_with
                (api_event E auth ''pipeline_config.create'' success ''pipeline_config'' (cf_id row)
                  (Some [(py ''config_hash'', JStr config_hash)]))
                row db (db\<lparr>ap_configs := ap_configs db @ [row]\<rparr>)))"

section \<open>Builds\<close>

record build_create =
  bc_source_collection_id :: pystr
  bc_pipeline_config_id :: pystr
  bc_epoch :: "int option"

record build_out =
  bo_build :: build_row
  bo_job_id :: "pystr option"
  bo_manifest_id :: "pystr option"
  bo_manifest_hash :: "pystr option"

text \<open>A rebuild of the same bytes shares the manifest of the first build, which is found by its hash.\<close>

definition build_out_of :: "api_db \<Rightarrow> build_row \<Rightarrow> build_out" where
  "build_out_of db row =
     (let manifest = (case jget (bu_counters row) ''manifest_hash'' of
            JStr h \<Rightarrow> if h = [] then None
              else find (\<lambda>m. mr_workspace_id m = bu_workspace_id row \<and> mr_manifest_hash m = h) (ap_manifests db)
          | _ \<Rightarrow> None)
      in \<lparr>bo_build = row, bo_job_id = map_option jb_id (latest_job_for ''build'' (bu_id row) (ap_jobs db)),
          bo_manifest_id = map_option mr_id manifest, bo_manifest_hash = map_option mr_manifest_hash manifest\<rparr>)"

definition list_builds :: "auth_context \<Rightarrow> api_db \<Rightarrow> build_out list" where
  "list_builds auth db = map (build_out_of db) (rev (owned bu_workspace_id (ac_workspace_id auth) (ap_builds db)))"

definition create_build :: "call_env \<Rightarrow> auth_context \<Rightarrow> build_create \<Rightarrow> api_db \<Rightarrow> build_out answer" where
  "create_build E auth payload db =
     (case get_owned co_id co_workspace_id (ac_workspace_id auth) (bc_source_collection_id payload) (ap_collections db) of
        None \<Rightarrow> (Inl (NoSuch ''source collection''), db)
      | Some collection \<Rightarrow>
          (case get_owned cf_id cf_workspace_id (ac_workspace_id auth) (bc_pipeline_config_id payload) (ap_configs db) of
             None \<Rightarrow> (Inl (NoSuch ''pipeline config''), db)
           | Some config \<Rightarrow>
               (let build = \<lparr>bu_id = ca_new_id E, bu_workspace_id = ac_workspace_id auth, bu_source_collection_id = co_id collection,
                             bu_pipeline_config_id = cf_id config, bu_state = BuildPending, bu_counters = [],
                             bu_started_at = None, bu_completed_at = None\<rparr>;
                    payload = [(py ''build_id'', JStr (bu_id build))]
                      @ (case bc_epoch payload of None \<Rightarrow> [] | Some e \<Rightarrow> [(py ''epoch'', JInt e)])
                in case enqueue_for E auth ''manifest_build'' payload ''build'' (bu_id build) (ap_jobs db) of
                     (j, table) \<Rightarrow>
                       (let new = db\<lparr>ap_builds := ap_builds db @ [build], ap_jobs := table\<rparr>
                        in commit_with
                             (api_event E auth ''build.create'' queued ''build'' (bu_id build) (Some [(py ''job_id'', JStr (jb_id j))]))
                             (build_out_of new build) db new))))"

definition get_build :: "auth_context \<Rightarrow> pystr \<Rightarrow> api_db \<Rightarrow> api_problem + build_out" where
  "get_build auth build_id db =
     (case get_owned bu_id bu_workspace_id (ac_workspace_id auth) build_id (ap_builds db) of
        None \<Rightarrow> Inl (NoSuch ''build'')
      | Some build \<Rightarrow> Inr (build_out_of db build))"

definition cancel_build :: "call_env \<Rightarrow> auth_context \<Rightarrow> pystr \<Rightarrow> api_db \<Rightarrow> build_out answer" where
  "cancel_build E auth build_id db =
     (case get_owned bu_id bu_workspace_id (ac_workspace_id auth) build_id (ap_builds db) of
        None \<Rightarrow> (Inl (NoSuch ''build''), db)
      | Some build \<Rightarrow>
          (case cancel_entity_job (ca_now E) ''build'' (bu_id build) (ap_jobs db) of
             Inl p \<Rightarrow> (Inl p, db)
           | Inr (out, table) \<Rightarrow>
               (let build' = (if out = CancelledOutright \<and> bu_state build = BuildPending
                      then build\<lparr>bu_state := BuildCancelled, bu_completed_at := Some (ca_now E)\<rparr> else build);
                    new = db\<lparr>ap_builds := put_row bu_id build' (ap_builds db), ap_jobs := table\<rparr>
                in commit_with (api_event E auth ''build.cancel'' success ''build'' (bu_id build) None)
                     (build_out_of new build') db new)))"

section \<open>Jobs\<close>

definition list_jobs :: "auth_context \<Rightarrow> nat \<Rightarrow> api_db \<Rightarrow> job list" where
  "list_jobs auth limit db = take limit (rev (owned jb_workspace_id (ac_workspace_id auth) (ap_jobs db)))"

definition get_job_route :: "auth_context \<Rightarrow> pystr \<Rightarrow> api_db \<Rightarrow> api_problem + job" where
  "get_job_route auth job_id db =
     (case get_owned jb_id jb_workspace_id (ac_workspace_id auth) job_id (ap_jobs db) of
        None \<Rightarrow> Inl (NoSuch ''job'')
      | Some j \<Rightarrow> Inr j)"

end
