(* ===== verification/Build_Job.thy ===== *)
theory Build_Job
  imports Api_Manifest Api_Pipeline Build_Sample
begin

text \<open>
  \<open>run_build_job\<close> of \<open>ragledger.server.handlers\<close> on the tables of the API: the build of a row runs the pipeline
  of \<open>Build\<close>, stores the manifest and records it once for each workspace and hash; and the finalizers of cancelled
  jobs. Reading the merged configuration (pydantic) and resolving it to what the pipeline takes
  (\<open>cli/_build_support.py\<close>) are parameters; the root is a path as \<open>create_source_collection\<close> stores it, resolved.
\<close>

section \<open>The job\<close>

record ('cfg, 'sk, 'pk) build_job_env =
  bj_platform :: platform
  bj_scheme :: "('sk, 'pk) ed25519"
  bj_root :: root_env
  bj_settings :: server_settings
  bj_validate :: "dict \<Rightarrow> pystr + 'cfg"
  bj_resolve :: "'cfg \<Rightarrow> pystr \<Rightarrow> json \<Rightarrow> pystr + build_env \<times> 'sk build_config"
  bj_error_text :: "build_error \<Rightarrow> pystr"
  bj_cancelled :: bool
  bj_now :: int
  bj_later :: int
  bj_manifest_id :: pystr
  bj_tmp_name :: pystr
  bj_write_fault :: "nat option"

definition find_build :: "job \<Rightarrow> api_db \<Rightarrow> string + build_row \<times> collection_row \<times> config_row" where
  "find_build j db =
     (case jget (jb_payload j) ''build_id'' of
        JStr i \<Rightarrow>
          (case find (\<lambda>r. bu_id r = i) (ap_builds db) of
             None \<Rightarrow> Inl ''build not found in workspace''
           | Some build \<Rightarrow>
               if bu_workspace_id build \<noteq> jb_workspace_id j then Inl ''build not found in workspace''
               else
                 (case (find (\<lambda>r. co_id r = bu_source_collection_id build) (ap_collections db),
                        find (\<lambda>r. cf_id r = bu_pipeline_config_id build) (ap_configs db)) of
                    (Some collection, Some config) \<Rightarrow> Inr (build, collection, config)
                  | _ \<Rightarrow> Inl ''build references a missing collection or pipeline config''))
      | _ \<Rightarrow> Inl ''build not found in workspace'')"

text \<open>The keys of the stored configuration come last, so they win.\<close>

definition merged_config :: "collection_row \<Rightarrow> pystr \<Rightarrow> config_row \<Rightarrow> dict" where
  "merged_config collection base config =
     foldl (\<lambda>d (k, v). dict_set k v d)
       [(py ''namespace'', JStr (co_namespace collection)), (py ''sources'', JObj [(py ''root'', JStr base)])]
       (cf_config_json config)"

definition build_counters :: "manifest_envelope \<Rightarrow> pystr \<Rightarrow> dict" where
  "build_counters m manifest_hash =
     [(py ''manifest_status'', JStr (build_status_value (bld_status (mf_build m)))), (py ''manifest_hash'', JStr manifest_hash),
      (py ''sources'', JInt (int (length (mf_sources m)))), (py ''parse_runs'', JInt (int (length (mf_parse_runs m)))),
      (py ''chunks'', JInt (int (length (mf_chunks m)))), (py ''embeddings'', JInt (int (length (mf_embeddings m)))),
      (py ''warnings'', JInt (int (length (bld_warnings (mf_build m)))))]"

definition manifest_row_of :: "pystr \<Rightarrow> build_row \<Rightarrow> manifest_envelope \<Rightarrow> pystr \<Rightarrow> artifact_info \<Rightarrow> manifest_row" where
  "manifest_row_of new_id build m manifest_hash artifact =
     \<lparr>mr_id = new_id, mr_workspace_id = bu_workspace_id build, mr_build_id = bu_id build, mr_namespace = mf_namespace m,
      mr_manifest_hash = manifest_hash, mr_artifact_ref = py ''artifacts/'' @ ai_sha256 artifact,
      mr_source_count = length (mf_sources m), mr_chunk_count = length (mf_chunks m), mr_embedding_count = length (mf_embeddings m),
      mr_signed = (mf_signatures m \<noteq> []), mr_signatures = []\<rparr>"

text \<open>The same bytes give the same manifest: its row is put in once for each workspace.\<close>

definition record_manifest :: "manifest_row \<Rightarrow> manifest_row list \<Rightarrow> manifest_row list" where
  "record_manifest row table =
     (if list_ex (\<lambda>r. mr_workspace_id r = mr_workspace_id row \<and> mr_manifest_hash r = mr_manifest_hash row) table then table else table @ [row])"

definition finish_build ::
  "('cfg, 'sk, 'pk) build_job_env \<Rightarrow> build_row \<Rightarrow> manifest_envelope \<Rightarrow> artifact_info \<Rightarrow> api_db \<Rightarrow> api_db" where
  "finish_build E build m artifact db =
     (let manifest_hash = compute_manifest_hash (bj_platform E) m
      in db\<lparr>ap_manifests := record_manifest (manifest_row_of (bj_manifest_id E) build m manifest_hash artifact) (ap_manifests db),
            ap_builds := put_row bu_id
              (build\<lparr>bu_state := BuildCompleted, bu_started_at := Some (bj_now E), bu_completed_at := Some (bj_later E),
                     bu_counters := build_counters m manifest_hash\<rparr>) (ap_builds db)\<rparr>)"

text \<open>The writes to the tables are rolled back when the handler raises, those to the store and the cache are not.\<close>

definition run_build_job ::
  "('cfg, 'sk, 'pk) build_job_env \<Rightarrow> directory \<times> stage_cache \<Rightarrow> api_db \<Rightarrow> job
   \<Rightarrow> (handler_result \<times> api_db) \<times> directory \<times> stage_cache" where
  "run_build_job E stores db j =
     (case find_build j db of
        Inl e \<Rightarrow> ((HandlerPermanent (py e), db), stores)
      | Inr (build, collection, config) \<Rightarrow>
          if bj_cancelled E then ((HandlerCancelled, db), stores)
          else
            (case collection_root (bj_root E) (bj_settings E) collection of
               Inl e \<Rightarrow> ((HandlerPermanent (py e), db), stores)
             | Inr base \<Rightarrow>
                 (case bj_validate E (merged_config collection base config) of
                    Inl e \<Rightarrow> ((HandlerPermanent e, db), stores)
                  | Inr cfg \<Rightarrow>
                      (case bj_resolve E cfg base (jget (jb_payload j) ''epoch'') of
                         Inl e \<Rightarrow> ((HandlerRaised e, db), stores)
                       | Inr (V, C) \<Rightarrow>
                           (case build_pipeline (bj_scheme E) V C (fst stores) (snd stores) of
                              Inl (e, st) \<Rightarrow> ((HandlerRaised (bj_error_text E e), db), (bs_store st, bs_cache st))
                            | Inr (m, st) \<Rightarrow>
                                (case put (bj_tmp_name E) (bj_write_fault E) (canonical_manifest_bytes (bj_platform E) m) (bs_store st) of
                                   (Inl e, store') \<Rightarrow> ((HandlerRaised (py ''OSError''), db), (store', bs_cache st))
                                 | (Inr artifact, store') \<Rightarrow>
                                     ((HandlerReturned, finish_build E build m artifact db), (store', bs_cache st))))))))"

section \<open>Finalizers of cancelled jobs\<close>

definition finalize_cancelled_build :: "int \<Rightarrow> api_db \<Rightarrow> job \<Rightarrow> api_db" where
  "finalize_cancelled_build now db j =
     (case jget (jb_payload j) ''build_id'' of
        JStr i \<Rightarrow>
          (case find (\<lambda>r. bu_id r = i) (ap_builds db) of
             None \<Rightarrow> db
           | Some r \<Rightarrow>
               if bu_state r \<in> {BuildPending, BuildRunning}
               then db\<lparr>ap_builds := put_row bu_id (r\<lparr>bu_state := BuildCancelled, bu_completed_at := Some now\<rparr>) (ap_builds db)\<rparr>
               else db)
      | _ \<Rightarrow> db)"

definition finalize_cancelled_snapshot :: "api_db \<Rightarrow> job \<Rightarrow> api_db" where
  "finalize_cancelled_snapshot db j =
     (case jget (jb_payload j) ''snapshot_id'' of
        JStr i \<Rightarrow>
          (case find (\<lambda>r. sn_id r = i) (ap_snapshots db) of
             None \<Rightarrow> db
           | Some r \<Rightarrow>
               if sn_status r \<in> {SnapshotPending, SnapshotRunning}
               then db\<lparr>ap_snapshots := put_row sn_id (r\<lparr>sn_status := SnapshotCancelled\<rparr>) (ap_snapshots db)\<rparr>
               else db)
      | _ \<Rightarrow> db)"

definition finalize_cancelled_reconciliation :: "api_db \<Rightarrow> job \<Rightarrow> api_db" where
  "finalize_cancelled_reconciliation db j =
     (case jget (jb_payload j) ''reconciliation_id'' of
        JStr i \<Rightarrow>
          (case find (\<lambda>r. rn_id r = i) (ap_reconciliations db) of
             None \<Rightarrow> db
           | Some r \<Rightarrow>
               if rn_state r \<in> {RunPending, RunRunning}
               then db\<lparr>ap_reconciliations := put_row rn_id (r\<lparr>rn_state := RunCancelled\<rparr>) (ap_reconciliations db)\<rparr>
               else db)
      | _ \<Rightarrow> db)"

definition make_cancel_finalizers :: "int \<Rightarrow> pystr \<Rightarrow> api_db finalizer option" where
  "make_cancel_finalizers now job_type =
     (if job_type = py ''manifest_build'' then Some (finalize_cancelled_build now)
      else if job_type = py ''inventory_snapshot'' then Some finalize_cancelled_snapshot
      else if job_type = py ''reconciliation'' then Some finalize_cancelled_reconciliation
      else None)"

section \<open>Lemmas\<close>

text \<open>One row for each workspace and hash.\<close>

definition manifest_key :: "manifest_row \<Rightarrow> pystr \<times> pystr" where
  "manifest_key r = (mr_workspace_id r, mr_manifest_hash r)"

lemma record_manifest_keys:
  "distinct (map manifest_key table) \<Longrightarrow> distinct (map manifest_key (record_manifest row table))"
  by (auto simp: record_manifest_def manifest_key_def list_ex_iff)

lemma record_manifest_ids:
  "distinct (map mr_id table) \<Longrightarrow> mr_id row \<notin> mr_id ` set table \<Longrightarrow> distinct (map mr_id (record_manifest row table))"
  by (simp add: record_manifest_def)

lemma recorded_manifest:
  obtains r where "find (\<lambda>x. mr_workspace_id x = mr_workspace_id row \<and> mr_manifest_hash x = mr_manifest_hash row) (record_manifest row table) = Some r"
    "r \<in> set (record_manifest row table)" "r \<in> set table \<or> r = row" "mr_workspace_id r = mr_workspace_id row" "mr_manifest_hash r = mr_manifest_hash row"
proof -
  let ?P = "\<lambda>x. mr_workspace_id x = mr_workspace_id row \<and> mr_manifest_hash x = mr_manifest_hash row"
  have "list_ex ?P (record_manifest row table)" by (simp add: record_manifest_def)
  then have "find ?P (record_manifest row table) \<noteq> None" by (auto simp: find_None_iff list_ex_iff)
  then obtain r where r: "find ?P (record_manifest row table) = Some r" by auto
  then have "r \<in> set (record_manifest row table)" "?P r" by (auto simp: find_Some_iff)
  with r that [of r] show ?thesis by (auto simp: record_manifest_def split: if_splits)
qed

lemma find_build_Inr:
  assumes "find_build j db = Inr (build, collection, config)"
  shows "get_owned bu_id bu_workspace_id (jb_workspace_id j) (bu_id build) (ap_builds db) = Some build"
proof -
  obtain i where "find (\<lambda>r. bu_id r = i) (ap_builds db) = Some build" "bu_workspace_id build = jb_workspace_id j"
    using assms by (auto simp: find_build_def split: json.splits option.splits if_splits)
  moreover from this have "bu_id build = i" by (auto simp: find_Some_iff)
  ultimately show ?thesis by (simp add: get_owned_def)
qed

lemma manifest_hash_counter: "jget (build_counters m h) ''manifest_hash'' = JStr h"
  by (simp add: build_counters_def jget_def py_def)

lemma run_build_job_returns:
  assumes "find_build j db = Inr (build, collection, config)" "\<not> bj_cancelled E"
    "collection_root (bj_root E) (bj_settings E) collection = Inr base" "bj_validate E (merged_config collection base config) = Inr cfg"
    "bj_resolve E cfg base (jget (jb_payload j) ''epoch'') = Inr (V, C)"
    "build_pipeline (bj_scheme E) V C store cache = Inr (m, st)"
    "put (bj_tmp_name E) (bj_write_fault E) (canonical_manifest_bytes (bj_platform E) m) (bs_store st) = (Inr artifact, store')"
  shows "run_build_job E (store, cache) db j = ((HandlerReturned, finish_build E build m artifact db), store', bs_cache st)"
  using assms by (simp add: run_build_job_def)

section \<open>Properties\<close>

text \<open>
  C14. A build job whose pipeline returns is shown by the API as completed, with the hash of its manifest and the id of
  a manifest of the workspace with that hash: the row of an earlier build when the bytes are those of that build, and otherwise a new row that refers
  to the bytes just stored. There is never a second row for one workspace and hash.
\<close>

theorem build_job_recorded:
  assumes "find_build j db = Inr (build, collection, config)" "\<not> bj_cancelled E"
    "collection_root (bj_root E) (bj_settings E) collection = Inr base" "bj_validate E (merged_config collection base config) = Inr cfg"
    "bj_resolve E cfg base (jget (jb_payload j) ''epoch'') = Inr (V, C)"
    "build_pipeline (bj_scheme E) V C store cache = Inr (m, st)"
    "put (bj_tmp_name E) (bj_write_fault E) (canonical_manifest_bytes (bj_platform E) m) (bs_store st) = (Inr artifact, store')"
    and "distinct (map mr_id (ap_manifests db))" "bj_manifest_id E \<notin> mr_id ` set (ap_manifests db)"
    and "distinct (map manifest_key (ap_manifests db))" "ac_workspace_id auth = jb_workspace_id j"
  shows "\<exists>db' out row. run_build_job E (store, cache) db j = ((HandlerReturned, db'), store', bs_cache st)
    \<and> get_build auth (bu_id build) db' = Inr out \<and> bu_state (bo_build out) = BuildCompleted
    \<and> bo_manifest_hash out = Some (compute_manifest_hash (bj_platform E) m) \<and> bo_manifest_id out = Some (mr_id row)
    \<and> get_manifest auth (mr_id row) db' = Inr row \<and> mr_manifest_hash row = compute_manifest_hash (bj_platform E) m
    \<and> (row \<in> set (ap_manifests db) \<or> mr_build_id row = bu_id build \<and> mr_artifact_ref row = py ''artifacts/'' @ ai_sha256 artifact)
    \<and> distinct (map manifest_key (ap_manifests db'))"
proof -
  let ?h = "compute_manifest_hash (bj_platform E) m" and ?w = "jb_workspace_id j"
  let ?row = "manifest_row_of (bj_manifest_id E) build m ?h artifact"
  let ?build = "build\<lparr>bu_state := BuildCompleted, bu_started_at := Some (bj_now E), bu_completed_at := Some (bj_later E),
    bu_counters := build_counters m ?h\<rparr>"
  let ?db = "finish_build E build m artifact db"
  note found = find_build_Inr [OF assms(1)]
  then have w: "bu_workspace_id build = ?w" using get_owned_Some by fastforce
  have tables: "ap_manifests ?db = record_manifest ?row (ap_manifests db)" "ap_builds ?db = put_row bu_id ?build (ap_builds db)" "ap_jobs ?db = ap_jobs db"
    by (simp_all add: finish_build_def Let_def)
  have row: "mr_workspace_id ?row = ?w" "mr_manifest_hash ?row = ?h" "mr_id ?row = bj_manifest_id E" "mr_build_id ?row = bu_id build"
    "mr_artifact_ref ?row = py ''artifacts/'' @ ai_sha256 artifact"
    by (simp_all add: manifest_row_of_def w)
  obtain r where r: "find (\<lambda>x. mr_workspace_id x = ?w \<and> mr_manifest_hash x = ?h) (ap_manifests ?db) = Some r"
    "r \<in> set (ap_manifests ?db)" "r \<in> set (ap_manifests db) \<or> r = ?row" "mr_workspace_id r = ?w" "mr_manifest_hash r = ?h"
    unfolding tables by (rule recorded_manifest [of ?row "ap_manifests db", unfolded row])
  have "distinct (map mr_id (ap_manifests ?db))"
    unfolding tables using assms(8,9) row(3) by (intro record_manifest_ids) simp_all
  then have manifest: "get_manifest auth (mr_id r) ?db = Inr r"
    using r(2,4) assms(11) by (simp add: get_manifest_def get_owned_iff [THEN iffD2])
  have "length ?h = 64" unfolding compute_manifest_hash_def by (rule sha256_hex_shape(1))
  then have h: "?h \<noteq> []" by auto
  have "get_owned bu_id bu_workspace_id ?w (bu_id build) (ap_builds ?db) = Some ?build"
    unfolding tables by (rule get_put_row [OF found]) simp_all
  then have "get_build auth (bu_id build) ?db = Inr (build_out_of ?db ?build)"
    using assms(11) by (simp add: get_build_def)
  moreover have "bo_manifest_hash (build_out_of ?db ?build) = Some ?h" "bo_manifest_id (build_out_of ?db ?build) = Some (mr_id r)"
    "bu_state (bo_build (build_out_of ?db ?build)) = BuildCompleted"
    using r(1,5) h w by (simp_all add: build_out_of_def manifest_hash_counter)
  moreover have "distinct (map manifest_key (ap_manifests ?db))"
    unfolding tables using assms(10) by (rule record_manifest_keys)
  ultimately show ?thesis
    using run_build_job_returns [OF assms(1-7)] manifest r(3,5) row(4,5) by blast
qed

section \<open>A sample build over the API\<close>

text \<open>The build of \<open>Build_Sample\<close>, of a collection at \<open>/r\<close>.\<close>

definition sample_build_job_env :: "(unit, byte, byte) build_job_env" where
  "sample_build_job_env =
     \<lparr>bj_platform = sample_platform, bj_scheme = sample_scheme,
      bj_root = \<lparr>ro_is_dir = (\<lambda>p. True), ro_resolve = (\<lambda>p. [py ''r'']), ro_tree = (\<lambda>p. be_tree sample_build_env)\<rparr>,
      bj_settings = sample_settings, bj_validate = (\<lambda>d. Inr ()), bj_resolve = (\<lambda>cfg p epoch. Inr (sample_build_env, sample_build_config)),
      bj_error_text = (\<lambda>e. []), bj_cancelled = False, bj_now = 1, bj_later = 2, bj_manifest_id = py ''m1'',
      bj_tmp_name = py ''.tmp-m'', bj_write_fault = None\<rparr>"

definition sample_build_row :: build_row where
  "sample_build_row =
     \<lparr>bu_id = py ''b1'', bu_workspace_id = py ''w'', bu_source_collection_id = py ''c'', bu_pipeline_config_id = py ''f'',
      bu_state = BuildPending, bu_counters = [], bu_started_at = None, bu_completed_at = None\<rparr>"

definition sample_rooted :: collection_row where
  "sample_rooted = sample_collection\<lparr>co_root_config := [(py ''root'', JStr (py ''/r''))]\<rparr>"

definition sample_config_row :: config_row where
  "sample_config_row = \<lparr>cf_id = py ''f'', cf_workspace_id = py ''w'', cf_config_hash = [], cf_config_json = []\<rparr>"

definition sample_build_db :: api_db where
  "sample_build_db =
     sample_manifest_db\<lparr>ap_manifests := [], ap_collections := [sample_rooted], ap_configs := [sample_config_row], ap_builds := [sample_build_row]\<rparr>"

definition sample_build_job :: job where
  "sample_build_job =
     fst (enqueue_job 0 (py ''j1'') (py ''w'') (py ''manifest_build'') (Some [(py ''build_id'', JStr (py ''b1''))]) (Some (py ''build'')) (Some (py ''b1'')) [])"

lemma sample_build_found: "find_build sample_build_job sample_build_db = Inr (sample_build_row, sample_rooted, sample_config_row)"
  by (simp add: find_build_def sample_build_job_def enqueue_job_def Let_def sample_build_db_def sample_build_row_def sample_rooted_def
      sample_collection_def sample_config_row_def sample_manifest_db_def jget_def py_def)

lemma sample_rooted_root: "collection_root (bj_root sample_build_job_env) (bj_settings sample_build_job_env) sample_rooted = Inr (py ''/r'')"
proof -
  have "csv_entries [] = []" by code_simp
  then show ?thesis
    by (simp add: collection_root_def sample_rooted_def sample_build_job_env_def sample_settings_def is_source_root_allowed_def jget_def
        startswith_def py_def)
qed

theorem build_job_recorded_witness:
  "\<exists>m st store' db' out row. sample_build = Inr (m, st)
    \<and> run_build_job sample_build_job_env ([], empty_cache) sample_build_db sample_build_job = ((HandlerReturned, db'), store', bs_cache st)
    \<and> get_build sample_signer (py ''b1'') db' = Inr out \<and> bo_manifest_id out = Some (mr_id row) \<and> get_manifest sample_signer (mr_id row) db' = Inr row"
proof -
  obtain m st where m: "sample_build = Inr (m, st)" using sample_build_returns by blast
  let ?bytes = "canonical_manifest_bytes (bj_platform sample_build_job_env) m"
  have "temp_name (py ''.tmp-m'')" by (simp add: temp_name_def py_def)
  then obtain artifact store' where w: "put (bj_tmp_name sample_build_job_env) (bj_write_fault sample_build_job_env) ?bytes (bs_store st) = (Inr artifact, store')"
    by (cases rule: put_cases [of "py ''.tmp-m''" None ?bytes "bs_store st"]) (auto simp: sample_build_job_env_def)
  have run: "build_pipeline (bj_scheme sample_build_job_env) sample_build_env sample_build_config [] empty_cache = Inr (m, st)"
    using m by (simp add: sample_build_job_env_def)
  have "\<exists>db' out row. run_build_job sample_build_job_env ([], empty_cache) sample_build_db sample_build_job = ((HandlerReturned, db'), store', bs_cache st)
    \<and> get_build sample_signer (bu_id sample_build_row) db' = Inr out \<and> bu_state (bo_build out) = BuildCompleted
    \<and> bo_manifest_hash out = Some (compute_manifest_hash (bj_platform sample_build_job_env) m) \<and> bo_manifest_id out = Some (mr_id row)
    \<and> get_manifest sample_signer (mr_id row) db' = Inr row \<and> mr_manifest_hash row = compute_manifest_hash (bj_platform sample_build_job_env) m
    \<and> (row \<in> set (ap_manifests sample_build_db) \<or> mr_build_id row = bu_id sample_build_row \<and> mr_artifact_ref row = py ''artifacts/'' @ ai_sha256 artifact)
    \<and> distinct (map manifest_key (ap_manifests db'))"
    by (rule build_job_recorded [OF sample_build_found _ sample_rooted_root _ _ run w, where cfg = "()"])
      (simp_all add: sample_build_job_env_def sample_build_db_def sample_signer_def sample_build_job_def enqueue_job_def Let_def)
  with m show ?thesis by (auto simp: sample_build_row_def)
qed

end
