(* ===== verification/Api_Access.thy ===== *)
theory Api_Access
  imports Api_Store
begin

text \<open>
  The remaining routes of \<open>ragledger.server.api.routes\<close>: the bootstrap of an instance, workspaces, API
  tokens and the audit log. The random bytes of a token are arguments.
\<close>

section \<open>Requests\<close>

record bootstrap_request =
  br_email :: pystr
  br_display_name :: "pystr option"
  br_workspace_slug :: pystr
  br_workspace_name :: pystr

text \<open>\<open>_EMAIL_RE\<close>: something, an at sign, something with a dot inside; no white space, no second at sign.\<close>

definition email_match :: "pystr \<Rightarrow> bool" where
  "email_match value \<longleftrightarrow>
     (case partition_at 64 (chomp value) of
        (local, found, domain) \<Rightarrow>
          found \<and> local \<noteq> [] \<and> list_all (\<lambda>c. c \<noteq> 64 \<and> \<not> is_space c) (local @ domain)
          \<and> list_ex (\<lambda>i. domain ! i = 46) [1..<length domain - 1])"

definition slug_char :: "codepoint \<Rightarrow> bool" where
  "slug_char c \<longleftrightarrow> 97 \<le> c \<and> c \<le> 122 \<or> is_digit c"

definition slug_match :: "pystr \<Rightarrow> bool" where
  "slug_match value \<longleftrightarrow>
     (let s = chomp value in
      3 \<le> length s \<and> length s \<le> 63 \<and> slug_char (hd s) \<and> slug_char (last s) \<and> list_all (\<lambda>c. slug_char c \<or> c = 45) s)"

definition validate_bootstrap :: "unicode_db \<Rightarrow> bootstrap_request \<Rightarrow> bootstrap_request option" where
  "validate_bootstrap U payload =
     (if email_match (br_email payload) \<and> slug_match (br_workspace_slug payload)
      then Some (payload\<lparr>br_email := str_lower U (br_email payload)\<rparr>) else None)"

text \<open>Unknown scopes are refused, the others sorted without repetition.\<close>

definition validate_scopes :: "pystr list \<Rightarrow> pystr list option" where
  "validate_scopes scopes =
     (if scopes = [] \<or> \<not> set scopes \<subseteq> set (map py API_TOKEN_SCOPES) then None else Some (sort (remdups scopes)))"

section \<open>Bootstrap\<close>

record token_entropy =
  te_selector :: bytes
  te_secret :: bytes
  te_salt :: bytes

record bootstrap_response =
  bp_user_id :: pystr
  bp_workspace_id :: pystr
  bp_workspace_slug :: pystr
  bp_token :: pystr
  bp_token_id :: pystr
  bp_token_scopes :: "pystr list"

text \<open>The ids of the user, the workspace and the token.\<close>

definition bootstrap ::
  "call_env \<Rightarrow> server_settings \<Rightarrow> token_entropy \<Rightarrow> pystr \<Rightarrow> pystr \<Rightarrow> bootstrap_request \<Rightarrow> api_db \<Rightarrow> bootstrap_response answer" where
  "bootstrap E S R user_id workspace_id payload db =
     (if ap_users db \<noteq> [] then (Inl (Conflict ''Already bootstrapped''), db)
      else if list_ex (\<lambda>w. wo_slug w = br_workspace_slug payload) (ap_workspaces db) then (Inl (ServerFault ''IntegrityError''), db)
      else
        (let issued = issue_api_token (te_selector R) (te_secret R) (te_salt R) (st_api_token_prefix S);
             row = row_of issued (ca_new_id E) workspace_id (py ''bootstrap admin token'') [py ''admin''] None
         in if list_ex (\<lambda>t. at_selector t = at_selector row) (ap_tokens db) then (Inl (ServerFault ''IntegrityError''), db)
            else
              commit_with
                \<lparr>ae_workspace_id = Some workspace_id, ae_actor_type = py ''user'', ae_actor_id = Some user_id, ae_action = py ''auth.bootstrap'',
                 ae_entity_type = Some (py ''workspace''), ae_entity_id = Some workspace_id, ae_result = success,
                 ae_request_id = ca_request_id E, ae_metadata = Some [(py ''workspace_slug'', JStr (br_workspace_slug payload))]\<rparr>
                \<lparr>bp_user_id = user_id, bp_workspace_id = workspace_id, bp_workspace_slug = br_workspace_slug payload,
                 bp_token = it_token issued, bp_token_id = at_id row, bp_token_scopes = at_scopes row\<rparr>
                db
                (db\<lparr>ap_users := ap_users db @ [\<lparr>us_id = user_id, us_email = br_email payload, us_display_name = br_display_name payload\<rparr>],
                    ap_workspaces := ap_workspaces db @ [\<lparr>wo_id = workspace_id, wo_slug = br_workspace_slug payload, wo_name = br_workspace_name payload\<rparr>],
                    ap_memberships := ap_memberships db @ [\<lparr>me_workspace_id = workspace_id, me_user_id = user_id, me_role = Owner\<rparr>],
                    ap_tokens := ap_tokens db @ [row]\<rparr>)))"

section \<open>Workspaces\<close>

definition find_workspace :: "auth_context \<Rightarrow> api_db \<Rightarrow> workspace_row option" where
  "find_workspace auth db = find (\<lambda>w. wo_id w = ac_workspace_id auth) (ap_workspaces db)"

definition list_workspaces :: "auth_context \<Rightarrow> api_db \<Rightarrow> workspace_row list" where
  "list_workspaces auth db = (case find_workspace auth db of None \<Rightarrow> [] | Some w \<Rightarrow> [w])"

definition get_workspace :: "auth_context \<Rightarrow> api_db \<Rightarrow> api_problem + workspace_row" where
  "get_workspace auth db = (case find_workspace auth db of None \<Rightarrow> Inl (NoSuch ''workspace'') | Some w \<Rightarrow> Inr w)"

definition update_workspace :: "call_env \<Rightarrow> auth_context \<Rightarrow> pystr \<Rightarrow> api_db \<Rightarrow> workspace_row answer" where
  "update_workspace E auth name db =
     (case find_workspace auth db of
        None \<Rightarrow> (Inl (NoSuch ''workspace''), db)
      | Some w \<Rightarrow>
          (let w' = w\<lparr>wo_name := name\<rparr> in
           commit_with (api_event E auth ''workspace.update'' success ''workspace'' (wo_id w) None) w' db
             (db\<lparr>ap_workspaces := put_row wo_id w' (ap_workspaces db)\<rparr>)))"

section \<open>Tokens\<close>

record token_out =
  to_id :: pystr
  to_name :: pystr
  to_selector :: pystr
  to_scopes :: "pystr list"
  to_expires_at :: "int option"
  to_revoked_at :: "int option"
  to_last_used_at :: "int option"

definition token_out_of :: "api_token \<Rightarrow> token_out" where
  "token_out_of row =
     \<lparr>to_id = at_id row, to_name = at_name row, to_selector = at_selector row, to_scopes = at_scopes row,
      to_expires_at = at_expires_at row, to_revoked_at = at_revoked_at row, to_last_used_at = at_last_used_at row\<rparr>"

definition list_api_tokens :: "auth_context \<Rightarrow> api_db \<Rightarrow> token_out list" where
  "list_api_tokens auth db = map token_out_of (owned at_workspace_id (ac_workspace_id auth) (ap_tokens db))"

text \<open>The answer holds the token, which is nowhere else.\<close>

definition create_api_token ::
  "call_env \<Rightarrow> server_settings \<Rightarrow> token_entropy \<Rightarrow> auth_context \<Rightarrow> pystr \<Rightarrow> pystr list \<Rightarrow> int option \<Rightarrow> api_db
   \<Rightarrow> (token_out \<times> pystr) answer" where
  "create_api_token E S R auth name scopes expires_at db =
     (if (case expires_at of None \<Rightarrow> False | Some t \<Rightarrow> t \<le> ca_now E) then (Inl (Unprocessable ''Invalid expiry''), db)
      else
        (let issued = issue_api_token (te_selector R) (te_secret R) (te_salt R) (st_api_token_prefix S);
             row = row_of issued (ca_new_id E) (ac_workspace_id auth) name scopes expires_at
         in if list_ex (\<lambda>t. at_selector t = at_selector row) (ap_tokens db) then (Inl (ServerFault ''IntegrityError''), db)
            else
              commit_with
                (api_event E auth ''api_token.create'' success ''api_token'' (at_id row)
                  (Some [(py ''scopes'', JList (map JStr scopes))]))
                (token_out_of row, it_token issued) db (db\<lparr>ap_tokens := ap_tokens db @ [row]\<rparr>)))"

definition revoke_api_token :: "call_env \<Rightarrow> auth_context \<Rightarrow> pystr \<Rightarrow> api_db \<Rightarrow> unit answer" where
  "revoke_api_token E auth token_id db =
     (case get_owned at_id at_workspace_id (ac_workspace_id auth) token_id (ap_tokens db) of
        None \<Rightarrow> (Inl (NoSuch ''api token''), db)
      | Some row \<Rightarrow>
          if at_revoked_at row \<noteq> None then (Inr (), db)
          else
            commit_with (api_event E auth ''api_token.revoke'' success ''api_token'' (at_id row) None) () db
              (db\<lparr>ap_tokens := put_row at_id (row\<lparr>at_revoked_at := Some (ca_now E)\<rparr>) (ap_tokens db)\<rparr>))"

section \<open>The audit log\<close>

text \<open>The newest events first; the log with its time stamps, in the order of creation.\<close>

definition list_audit_events :: "auth_context \<Rightarrow> nat \<Rightarrow> int option \<Rightarrow> (int \<times> audit_event) list \<Rightarrow> (int \<times> audit_event) list" where
  "list_audit_events auth limit before events =
     take limit (rev (filter (\<lambda>(t, e). ae_workspace_id e = Some (ac_workspace_id auth) \<and> (case before of None \<Rightarrow> True | Some b \<Rightarrow> t < b)) events))"

text \<open>
  Paging goes by the time stamp alone: of two events with one stamp, the one a full page leaves out is on no later
  page.
\<close>

lemma page_boundary_loses_event:
  assumes "ae_workspace_id e1 = Some (ac_workspace_id auth)" "ae_workspace_id e2 = Some (ac_workspace_id auth)"
  shows "list_audit_events auth 1 None [(t, e1), (t, e2)] = [(t, e2)]" "list_audit_events auth 1 (Some t) [(t, e1), (t, e2)] = []"
  using assms by (simp_all add: list_audit_events_def)

text \<open>An instance is bootstrapped once: as soon as there is a user, the route changes nothing.\<close>

lemma bootstrap_once:
  assumes "bootstrap E S R u w payload db = (Inr r, db')"
  shows "ap_users db = []" "bootstrap E' S' R' u' w' payload' db' = (Inl (Conflict ''Already bootstrapped''), db')"
proof -
  show "ap_users db = []"
    using assms by (auto simp: bootstrap_def split: if_splits)
  have "ap_users db' \<noteq> []"
    using assms by (auto simp: bootstrap_def Let_def commit_with_def record_event_def split: if_splits sum.splits)
  then show "bootstrap E' S' R' u' w' payload' db' = (Inl (Conflict ''Already bootstrapped''), db')"
    by (simp add: bootstrap_def)
qed

end
