(* ===== verification/Api_Reconcile.thy ===== *)
theory Api_Reconcile
  imports Api_Store
begin

text \<open>
  The routes of \<open>ragledger.server.api.reconcile_routes\<close>: policies and their revisions, reconciliations,
  their findings, and what is computed again from the stored report. Loading a policy document and
  reading a report back (JSON schema and pydantic) are parameters.
\<close>

section \<open>Policies\<close>

definition latest_revision :: "revision_row list \<Rightarrow> pystr \<Rightarrow> revision_row option" where
  "latest_revision revisions policy_id =
     (case filter (\<lambda>r. rv_policy_id r = policy_id) revisions of
        [] \<Rightarrow> None
      | rs \<Rightarrow> find (\<lambda>r. rv_revision_number r = Max (rv_revision_number ` set rs)) rs)"

record policy_out =
  pu_policy :: policy_row
  pu_latest_revision :: "revision_row option"

definition policy_out_of :: "api_db \<Rightarrow> policy_row \<Rightarrow> policy_out" where
  "policy_out_of db policy = \<lparr>pu_policy = policy, pu_latest_revision = latest_revision (ap_revisions db) (po_id policy)\<rparr>"

definition list_policies :: "auth_context \<Rightarrow> api_db \<Rightarrow> policy_out list" where
  "list_policies auth db = map (policy_out_of db) (owned po_workspace_id (ac_workspace_id auth) (ap_policies db))"

text \<open>The insertion of a revision: its number is unique in the policy, its content in the workspace.\<close>

definition add_revision :: "revision_row \<Rightarrow> api_db \<Rightarrow> api_db option" where
  "add_revision r db =
     (if list_ex (\<lambda>x. rv_policy_id x = rv_policy_id r \<and> rv_revision_number x = rv_revision_number r
           \<or> rv_workspace_id x = rv_workspace_id r \<and> rv_config_hash x = rv_config_hash r) (ap_revisions db)
      then None
      else Some (db\<lparr>ap_revisions := ap_revisions db @ [r]\<rparr>))"

definition create_policy ::
  "call_env \<Rightarrow> (dict \<Rightarrow> policy_document option) \<Rightarrow> auth_context \<Rightarrow> pystr \<Rightarrow> dict \<Rightarrow> api_db \<Rightarrow> policy_out answer" where
  "create_policy E load auth name document db =
     (if load document = None then (Inl (Unprocessable ''Invalid policy document''), db)
      else if list_ex (\<lambda>p. po_workspace_id p = ac_workspace_id auth \<and> po_name p = name) (ap_policies db)
      then (Inl (Conflict ''Policy name already exists''), db)
      else
        (let policy = \<lparr>po_id = ca_new_id E, po_workspace_id = ac_workspace_id auth, po_name = name\<rparr>;
             revision = \<lparr>rv_id = ca_job_id E, rv_workspace_id = ac_workspace_id auth, rv_policy_id = po_id policy, rv_revision_number = 1,
                         rv_config_hash = hash_canonical (ca_platform E) (JObj document), rv_rules_json = document\<rparr>
         in case add_revision revision (db\<lparr>ap_policies := ap_policies db @ [policy]\<rparr>) of
              None \<Rightarrow> (Inl (ServerFault ''IntegrityError''), db)
            | Some new \<Rightarrow>
                commit_with (api_event E auth ''policy.create'' success ''policy'' (po_id policy) (Some [(py ''name'', JStr name)]))
                  (policy_out_of new policy) db new))"

definition create_policy_revision ::
  "call_env \<Rightarrow> (dict \<Rightarrow> policy_document option) \<Rightarrow> auth_context \<Rightarrow> pystr \<Rightarrow> dict \<Rightarrow> api_db \<Rightarrow> policy_out answer" where
  "create_policy_revision E load auth policy_id document db =
     (case get_owned po_id po_workspace_id (ac_workspace_id auth) policy_id (ap_policies db) of
        None \<Rightarrow> (Inl (NoSuch ''policy''), db)
      | Some policy \<Rightarrow>
          if load document = None then (Inl (Unprocessable ''Invalid policy document''), db)
          else
            (let latest = latest_revision (ap_revisions db) (po_id policy);
                 next_number = (case latest of None \<Rightarrow> 1 | Some r \<Rightarrow> rv_revision_number r + 1);
                 config_hash = hash_canonical (ca_platform E) (JObj document)
             in if (case latest of None \<Rightarrow> False | Some r \<Rightarrow> rv_config_hash r = config_hash) then (Inr (policy_out_of db policy), db)
                else
                  (case add_revision \<lparr>rv_id = ca_new_id E, rv_workspace_id = ac_workspace_id auth, rv_policy_id = po_id policy,
                           rv_revision_number = next_number, rv_config_hash = config_hash, rv_rules_json = document\<rparr> db of
                     None \<Rightarrow> (Inl (ServerFault ''IntegrityError''), db)
                   | Some new \<Rightarrow>
                       commit_with
                         (api_event E auth ''policy.revise'' success ''policy'' (po_id policy)
                           (Some [(py ''revision_number'', JInt (int next_number))]))
                         (policy_out_of new policy) db new)))"

section \<open>Reconciliations\<close>

record reconciliation_create =
  nc_manifest_id :: pystr
  nc_snapshot_id :: pystr
  nc_policy_id :: "pystr option"

record reconciliation_out =
  no_reconciliation :: reconciliation_row
  no_finding_count :: nat
  no_job_id :: "pystr option"

definition findings_of :: "pystr \<Rightarrow> api_db \<Rightarrow> finding_row list" where
  "findings_of reconciliation_id db = filter (\<lambda>f. fr_reconciliation_id f = reconciliation_id) (ap_findings db)"

definition reconciliation_out_of :: "api_db \<Rightarrow> reconciliation_row \<Rightarrow> reconciliation_out" where
  "reconciliation_out_of db row =
     \<lparr>no_reconciliation = row, no_finding_count = length (findings_of (rn_id row) db),
      no_job_id = map_option jb_id (latest_job_for ''reconciliation'' (rn_id row) (ap_jobs db))\<rparr>"

definition list_reconciliations :: "auth_context \<Rightarrow> api_db \<Rightarrow> reconciliation_out list" where
  "list_reconciliations auth db =
     map (reconciliation_out_of db) (rev (owned rn_workspace_id (ac_workspace_id auth) (ap_reconciliations db)))"

text \<open>The revision that is attached: the latest of the policy, if one is asked for.\<close>

definition revision_for :: "auth_context \<Rightarrow> pystr option \<Rightarrow> api_db \<Rightarrow> api_problem + pystr option" where
  "revision_for auth policy_id db =
     (case policy_id of
        None \<Rightarrow> Inr None
      | Some i \<Rightarrow>
          (case get_owned po_id po_workspace_id (ac_workspace_id auth) i (ap_policies db) of
             None \<Rightarrow> Inl (NoSuch ''policy'')
           | Some policy \<Rightarrow>
               (case latest_revision (ap_revisions db) (po_id policy) of
                  None \<Rightarrow> Inl (NoSuch ''policy revision'')
                | Some r \<Rightarrow> Inr (Some (rv_id r)))))"

definition create_reconciliation ::
  "call_env \<Rightarrow> auth_context \<Rightarrow> reconciliation_create \<Rightarrow> api_db \<Rightarrow> (reconciliation_out \<times> job) answer" where
  "create_reconciliation E auth payload db =
     (case get_owned mr_id mr_workspace_id (ac_workspace_id auth) (nc_manifest_id payload) (ap_manifests db) of
        None \<Rightarrow> (Inl (NoSuch ''manifest''), db)
      | Some manifest \<Rightarrow>
          (case get_owned sn_id sn_workspace_id (ac_workspace_id auth) (nc_snapshot_id payload) (ap_snapshots db) of
             None \<Rightarrow> (Inl (NoSuch ''snapshot''), db)
           | Some snapshot \<Rightarrow>
               if sn_artifact_ref snapshot = None then (Inl (Conflict ''Snapshot not ready''), db)
               else
                 (case revision_for auth (nc_policy_id payload) db of
                    Inl p \<Rightarrow> (Inl p, db)
                  | Inr revision_id \<Rightarrow>
                      (let row = \<lparr>rn_id = ca_new_id E, rn_workspace_id = ac_workspace_id auth, rn_manifest_id = mr_id manifest,
                                  rn_snapshot_id = sn_id snapshot, rn_policy_revision_id = revision_id, rn_state = RunPending,
                                  rn_summary = None\<rparr>
                       in case enqueue_for E auth ''reconciliation'' [(py ''reconciliation_id'', JStr (rn_id row))]
                                 ''reconciliation'' (rn_id row) (ap_jobs db) of
                            (j, table) \<Rightarrow>
                              (let new = db\<lparr>ap_reconciliations := ap_reconciliations db @ [row], ap_jobs := table\<rparr>
                               in commit_with
                                    (api_event E auth ''reconciliation.create'' queued ''reconciliation'' (rn_id row)
                                      (Some [(py ''job_id'', JStr (jb_id j))]))
                                    (reconciliation_out_of new row, j) db new)))))"

definition get_reconciliation :: "auth_context \<Rightarrow> pystr \<Rightarrow> api_db \<Rightarrow> api_problem + reconciliation_out" where
  "get_reconciliation auth i db =
     (case get_owned rn_id rn_workspace_id (ac_workspace_id auth) i (ap_reconciliations db) of
        None \<Rightarrow> Inl (NoSuch ''reconciliation'')
      | Some row \<Rightarrow> Inr (reconciliation_out_of db row))"

definition cancel_reconciliation :: "call_env \<Rightarrow> auth_context \<Rightarrow> pystr \<Rightarrow> api_db \<Rightarrow> reconciliation_out answer" where
  "cancel_reconciliation E auth i db =
     (case get_owned rn_id rn_workspace_id (ac_workspace_id auth) i (ap_reconciliations db) of
        None \<Rightarrow> (Inl (NoSuch ''reconciliation''), db)
      | Some row \<Rightarrow>
          (case cancel_entity_job (ca_now E) ''reconciliation'' (rn_id row) (ap_jobs db) of
             Inl p \<Rightarrow> (Inl p, db)
           | Inr (out, table) \<Rightarrow>
               (let row' = (if out = CancelledOutright \<and> rn_state row = RunPending then row\<lparr>rn_state := RunCancelled\<rparr> else row);
                    new = db\<lparr>ap_reconciliations := put_row rn_id row' (ap_reconciliations db), ap_jobs := table\<rparr>
                in commit_with
                     (api_event E auth ''reconciliation.cancel'' (cancel_outcome_value out) ''reconciliation'' (rn_id row) None)
                     (reconciliation_out_of new row') db new)))"

section \<open>From the stored report\<close>

text \<open>\<open>parse\<close> reads a report back; the store is what is below \<open>artifacts\<close>.\<close>

definition load_report ::
  "(bytes \<Rightarrow> reconciliation_report option) \<Rightarrow> directory \<Rightarrow> reconciliation_row \<Rightarrow> api_problem + reconciliation_report" where
  "load_report parse store row =
     (case (rn_state row, rn_summary row) of
        (RunCompleted, Some summary) \<Rightarrow>
          (case artifact_file (rs_report_artifact summary) store of
             None \<Rightarrow> Inl (ServerFault ''Report artifact missing'')
           | Some data \<Rightarrow> (case parse data of None \<Rightarrow> Inl (ServerFault ''ValidationError'') | Some report \<Rightarrow> Inr report))
      | _ \<Rightarrow> Inl (Conflict ''Reconciliation not completed''))"

definition evaluate_policy_endpoint ::
  "platform \<Rightarrow> (bytes \<Rightarrow> reconciliation_report option) \<Rightarrow> (dict \<Rightarrow> policy_document option) \<Rightarrow> directory
   \<Rightarrow> auth_context \<Rightarrow> pystr \<Rightarrow> dict \<Rightarrow> api_db \<Rightarrow> api_problem + policy_verdict" where
  "evaluate_policy_endpoint L parse load store auth i document db =
     (case get_owned rn_id rn_workspace_id (ac_workspace_id auth) i (ap_reconciliations db) of
        None \<Rightarrow> Inl (NoSuch ''reconciliation'')
      | Some row \<Rightarrow>
          (case load document of
             None \<Rightarrow> Inl (Unprocessable ''Invalid policy document'')
           | Some policy \<Rightarrow> andThen (load_report parse store row) (\<lambda>report. Inr (evaluate_policy L policy (rep_result report)))))"

definition get_remediation_plan ::
  "(bytes \<Rightarrow> reconciliation_report option) \<Rightarrow> directory \<Rightarrow> auth_context \<Rightarrow> pystr \<Rightarrow> api_db \<Rightarrow> api_problem + remediation_plan" where
  "get_remediation_plan parse store auth i db =
     (case get_owned rn_id rn_workspace_id (ac_workspace_id auth) i (ap_reconciliations db) of
        None \<Rightarrow> Inl (NoSuch ''reconciliation'')
      | Some row \<Rightarrow> andThen (load_report parse store row) (\<lambda>report. Inr (rep_remediation report)))"

section \<open>Findings\<close>

definition get_lineage_findings :: "auth_context \<Rightarrow> pystr \<Rightarrow> pystr \<Rightarrow> api_db \<Rightarrow> api_problem + finding_row list" where
  "get_lineage_findings auth i portable_id db =
     (case get_owned rn_id rn_workspace_id (ac_workspace_id auth) i (ap_reconciliations db) of
        None \<Rightarrow> Inl (NoSuch ''reconciliation'')
      | Some row \<Rightarrow>
          Inr (sort_key fr_fingerprint
            (filter (\<lambda>f. fr_source_hash f = Some portable_id \<or> fr_chunk_hash f = Some portable_id) (findings_of (rn_id row) db))))"

text \<open>The page of the filtered findings.\<close>

definition list_findings ::
  "auth_context \<Rightarrow> pystr \<Rightarrow> nat \<Rightarrow> nat \<Rightarrow> finding_severity option \<Rightarrow> pystr option \<Rightarrow> api_db \<Rightarrow> api_problem + finding_row list" where
  "list_findings auth i limit offset severity code db =
     (case get_owned rn_id rn_workspace_id (ac_workspace_id auth) i (ap_reconciliations db) of
        None \<Rightarrow> Inl (NoSuch ''reconciliation'')
      | Some row \<Rightarrow>
          Inr (take limit (drop offset (sort_key fr_fingerprint
            (filter (\<lambda>f. (severity = None \<or> severity = Some (fr_severity f)) \<and> (code = None \<or> code = Some (fr_code f)))
              (findings_of (rn_id row) db))))))"

end
