(* ===== verification/Api_Calls.thy ===== *)
theory Api_Calls
  imports Api_Access Api_Pipeline Api_Reconcile Api_Manifest
begin

text \<open>
  The calls an authorized client makes, as one function on the database. (Signing and verification need the
  artifact store as well, the target routes are in \<open>Target_Routes\<close>, and what is computed from a
  stored report reads no other table.)
\<close>

section \<open>Calls\<close>

datatype api_call =
    ListCollections
  | CreateCollection collection_create
  | ScanCollection pystr
  | ListSources "pystr option"
  | ListVersions pystr
  | ListConfigs
  | CreateConfig dict
  | ListBuilds
  | CreateBuild build_create
  | GetBuild pystr
  | CancelBuild pystr
  | ListJobs nat
  | GetJob pystr
  | ListPolicies
  | CreatePolicy pystr dict
  | CreateRevision pystr dict
  | ListReconciliations
  | CreateReconciliation reconciliation_create
  | GetReconciliation pystr
  | CancelReconciliation pystr
  | GetLineage pystr pystr
  | ListFindings pystr nat nat "finding_severity option" "pystr option"
  | ListManifests
  | GetManifest pystr
  | ListSnapshots pystr
  | CreateSnapshot pystr
  | GetSnapshot pystr
  | CancelSnapshot pystr
  | GetWorkspace
  | UpdateWorkspace pystr
  | ListTokens
  | CreateToken pystr "pystr list" "int option"
  | RevokeToken pystr

datatype api_response =
    Collections "collection_row list"
  | AJob job
  | Assets "asset_row list"
  | Versions "version_row list"
  | Configs "config_row list"
  | Builds "build_out list"
  | JobList "job list"
  | Policies "policy_out list"
  | Reconciliations "reconciliation_out list"
  | ReconciliationJob reconciliation_out job
  | Findings "finding_row list"
  | Manifests "manifest_row list"
  | Snapshots "snapshot_row list"
  | SnapshotJob snapshot_row job
  | AWorkspace workspace_row
  | Tokens "token_out list"
  | NewToken token_out pystr
  | NoContent

record serve_env =
  sv_call :: call_env
  sv_root :: root_env
  sv_settings :: server_settings
  sv_entropy :: token_entropy
  sv_load_policy :: "dict \<Rightarrow> policy_document option"

definition reading :: "api_db \<Rightarrow> api_problem + api_response \<Rightarrow> api_response answer" where
  "reading db r = (r, db)"

definition answering :: "('r \<Rightarrow> api_response) \<Rightarrow> 'r answer \<Rightarrow> api_response answer" where
  "answering f a = (map_sum id f (fst a), snd a)"

definition serve :: "serve_env \<Rightarrow> auth_context \<Rightarrow> api_call \<Rightarrow> api_db \<Rightarrow> api_response answer" where
  "serve V auth call db =
     (let E = sv_call V in
      case call of
        ListCollections \<Rightarrow> reading db (Inr (Collections (list_source_collections auth db)))
      | CreateCollection p \<Rightarrow> answering (\<lambda>r. Collections [r]) (create_source_collection E (sv_root V) (sv_settings V) auth p db)
      | ScanCollection i \<Rightarrow> answering AJob (scan_source_collection E auth i db)
      | ListSources i \<Rightarrow> reading db (Inr (Assets (list_sources auth i db)))
      | ListVersions i \<Rightarrow> reading db (map_sum id Versions (list_source_versions auth i db))
      | ListConfigs \<Rightarrow> reading db (Inr (Configs (list_pipeline_configs auth db)))
      | CreateConfig d \<Rightarrow> answering (\<lambda>r. Configs [r]) (create_pipeline_config E auth d db)
      | ListBuilds \<Rightarrow> reading db (Inr (Builds (list_builds auth db)))
      | CreateBuild p \<Rightarrow> answering (\<lambda>r. Builds [r]) (create_build E auth p db)
      | GetBuild i \<Rightarrow> reading db (map_sum id (\<lambda>r. Builds [r]) (get_build auth i db))
      | CancelBuild i \<Rightarrow> answering (\<lambda>r. Builds [r]) (cancel_build E auth i db)
      | ListJobs n \<Rightarrow> reading db (Inr (JobList (list_jobs auth n db)))
      | GetJob i \<Rightarrow> reading db (map_sum id AJob (get_job_route auth i db))
      | ListPolicies \<Rightarrow> reading db (Inr (Policies (list_policies auth db)))
      | CreatePolicy n d \<Rightarrow> answering (\<lambda>r. Policies [r]) (create_policy E (sv_load_policy V) auth n d db)
      | CreateRevision i d \<Rightarrow> answering (\<lambda>r. Policies [r]) (create_policy_revision E (sv_load_policy V) auth i d db)
      | ListReconciliations \<Rightarrow> reading db (Inr (Reconciliations (list_reconciliations auth db)))
      | CreateReconciliation p \<Rightarrow> answering (\<lambda>(r, j). ReconciliationJob r j) (create_reconciliation E auth p db)
      | GetReconciliation i \<Rightarrow> reading db (map_sum id (\<lambda>r. Reconciliations [r]) (get_reconciliation auth i db))
      | CancelReconciliation i \<Rightarrow> answering (\<lambda>r. Reconciliations [r]) (cancel_reconciliation E auth i db)
      | GetLineage i k \<Rightarrow> reading db (map_sum id Findings (get_lineage_findings auth i k db))
      | ListFindings i n k s c \<Rightarrow> reading db (map_sum id Findings (list_findings auth i n k s c db))
      | ListManifests \<Rightarrow> reading db (Inr (Manifests (list_manifests auth db)))
      | GetManifest i \<Rightarrow> reading db (map_sum id (\<lambda>r. Manifests [r]) (get_manifest auth i db))
      | ListSnapshots i \<Rightarrow> reading db (map_sum id Snapshots (list_snapshots auth i db))
      | CreateSnapshot i \<Rightarrow> answering (\<lambda>(r, j). SnapshotJob r j) (create_snapshot E auth i db)
      | GetSnapshot i \<Rightarrow> reading db (map_sum id (\<lambda>r. Snapshots [r]) (get_snapshot auth i db))
      | CancelSnapshot i \<Rightarrow> answering (\<lambda>r. Snapshots [r]) (cancel_snapshot E auth i db)
      | GetWorkspace \<Rightarrow> reading db (map_sum id AWorkspace (get_workspace auth db))
      | UpdateWorkspace n \<Rightarrow> answering AWorkspace (update_workspace E auth n db)
      | ListTokens \<Rightarrow> reading db (Inr (Tokens (list_api_tokens auth db)))
      | CreateToken n ss t \<Rightarrow> answering (\<lambda>(r, k). NewToken r k) (create_api_token E (sv_settings V) (sv_entropy V) auth n ss t db)
      | RevokeToken i \<Rightarrow> answering (\<lambda>r. NoContent) (revoke_api_token E auth i db))"

section \<open>What a workspace sees\<close>

definition view :: "pystr \<Rightarrow> api_db \<Rightarrow> api_db" where
  "view w db =
     \<lparr>ap_workspaces = owned wo_id w (ap_workspaces db), ap_users = [], ap_memberships = owned me_workspace_id w (ap_memberships db),
      ap_tokens = owned at_workspace_id w (ap_tokens db), ap_collections = owned co_workspace_id w (ap_collections db),
      ap_assets = owned as_workspace_id w (ap_assets db), ap_versions = owned ve_workspace_id w (ap_versions db),
      ap_configs = owned cf_workspace_id w (ap_configs db), ap_builds = owned bu_workspace_id w (ap_builds db),
      ap_manifests = owned mr_workspace_id w (ap_manifests db), ap_targets = owned tg_workspace_id w (ap_targets db),
      ap_snapshots = owned sn_workspace_id w (ap_snapshots db), ap_policies = owned po_workspace_id w (ap_policies db),
      ap_revisions = owned rv_workspace_id w (ap_revisions db), ap_reconciliations = owned rn_workspace_id w (ap_reconciliations db),
      ap_findings = owned fr_workspace_id w (ap_findings db), ap_evaluations = owned ev_workspace_id w (ap_evaluations db),
      ap_jobs = owned jb_workspace_id w (ap_jobs db), ap_audit = filter (\<lambda>e. ae_workspace_id e = Some w) (ap_audit db)\<rparr>"

text \<open>A row that refers to another one is of the same workspace.\<close>

definition links_ok :: "api_db \<Rightarrow> bool" where
  "links_ok db \<longleftrightarrow>
     (\<forall>a \<in> set (ap_assets db). \<forall>v \<in> set (ap_versions db). ve_source_asset_id v = as_id a \<longrightarrow> ve_workspace_id v = as_workspace_id a) \<and>
     (\<forall>t \<in> set (ap_targets db). \<forall>s \<in> set (ap_snapshots db). sn_target_id s = tg_id t \<longrightarrow> sn_workspace_id s = tg_workspace_id t) \<and>
     (\<forall>p \<in> set (ap_policies db). \<forall>r \<in> set (ap_revisions db). rv_policy_id r = po_id p \<longrightarrow> rv_workspace_id r = po_workspace_id p) \<and>
     (\<forall>n \<in> set (ap_reconciliations db). \<forall>f \<in> set (ap_findings db). fr_reconciliation_id f = rn_id n \<longrightarrow> fr_workspace_id f = rn_workspace_id n) \<and>
     (\<forall>b \<in> set (ap_builds db). \<forall>j \<in> set (ap_jobs db). jb_related_entity_type j = Some (py ''build'') \<and>
        jb_related_entity_id j = Some (bu_id b) \<longrightarrow> jb_workspace_id j = bu_workspace_id b) \<and>
     (\<forall>n \<in> set (ap_reconciliations db). \<forall>j \<in> set (ap_jobs db). jb_related_entity_type j = Some (py ''reconciliation'') \<and>
        jb_related_entity_id j = Some (rn_id n) \<longrightarrow> jb_workspace_id j = rn_workspace_id n) \<and>
     (\<forall>s \<in> set (ap_snapshots db). \<forall>j \<in> set (ap_jobs db). jb_related_entity_type j = Some (py ''inventory_snapshot'') \<and>
        jb_related_entity_id j = Some (sn_id s) \<longrightarrow> jb_workspace_id j = sn_workspace_id s)"

definition ids_ok :: "api_db \<Rightarrow> bool" where
  "ids_ok db \<longleftrightarrow>
     distinct (map wo_id (ap_workspaces db)) \<and> distinct (map at_id (ap_tokens db)) \<and> distinct (map co_id (ap_collections db)) \<and>
     distinct (map as_id (ap_assets db)) \<and> distinct (map cf_id (ap_configs db)) \<and> distinct (map bu_id (ap_builds db)) \<and>
     distinct (map mr_id (ap_manifests db)) \<and> distinct (map tg_id (ap_targets db)) \<and> distinct (map sn_id (ap_snapshots db)) \<and>
     distinct (map po_id (ap_policies db)) \<and> distinct (map rn_id (ap_reconciliations db)) \<and> distinct (map jb_id (ap_jobs db))"

text \<open>Generated ids are new: no row has one, and none refers to one.\<close>

definition fresh_ids :: "call_env \<Rightarrow> api_db \<Rightarrow> bool" where
  "fresh_ids E db \<longleftrightarrow>
     (let used = at_id ` set (ap_tokens db) \<union> co_id ` set (ap_collections db) \<union> cf_id ` set (ap_configs db) \<union> bu_id ` set (ap_builds db)
        \<union> sn_id ` set (ap_snapshots db) \<union> po_id ` set (ap_policies db) \<union> rv_policy_id ` set (ap_revisions db)
        \<union> rn_id ` set (ap_reconciliations db) \<union> fr_reconciliation_id ` set (ap_findings db)
        \<union> {i. \<exists>j \<in> set (ap_jobs db). jb_related_entity_id j = Some i}
      in ca_new_id E \<notin> used \<and> ca_job_id E \<notin> jb_id ` set (ap_jobs db))"

definition db_sound :: "api_db \<Rightarrow> bool" where
  "db_sound db \<longleftrightarrow> ids_ok db \<and> links_ok db"

end
