(* ===== verification/Isolation.thy ===== *)
theory Isolation
  imports Api_Calls
begin

text \<open>
  Workspaces do not see one another: what a call answers is a function of the rows of the caller's
  workspace, and it changes no row of another one.
\<close>

section \<open>Rows of a workspace\<close>

lemma owned_simps [simp]:
  "owned f w [] = []" "owned f w (xs @ ys) = owned f w xs @ owned f w ys" "owned f w [r] = (if f r = w then [r] else [])"
  "rev (owned f w xs) = owned f w (rev xs)"
  by (simp_all add: owned_def rev_filter)

lemma owned_owned [simp]: "owned f w (owned f w xs) = owned f w xs"
  by (simp add: owned_def)

lemma find_filter: "(\<And>x. x \<in> set xs \<Longrightarrow> P x \<Longrightarrow> Q x) \<Longrightarrow> find P (filter Q xs) = find P xs"
  by (induction xs) auto

lemma list_ex_filter: "(\<And>x. x \<in> set xs \<Longrightarrow> P x \<Longrightarrow> Q x) \<Longrightarrow> list_ex P (filter Q xs) = list_ex P xs"
  by (auto simp: list_ex_iff)

lemma find_owned: "(\<And>x. x \<in> set xs \<Longrightarrow> P x \<Longrightarrow> f x = w) \<Longrightarrow> find P (owned f w xs) = find P xs"
  by (simp add: owned_def find_filter)

lemma list_ex_owned: "(\<And>x. x \<in> set xs \<Longrightarrow> P x \<Longrightarrow> f x = w) \<Longrightarrow> list_ex P (owned f w xs) = list_ex P xs"
  by (simp add: owned_def list_ex_filter)

lemma filter_owned: "(\<And>x. x \<in> set xs \<Longrightarrow> P x \<Longrightarrow> f x = w) \<Longrightarrow> filter P (owned f w xs) = filter P xs"
  by (auto simp: owned_def intro: filter_cong)

text \<open>Replacing a row of a workspace is seen there and nowhere else.\<close>

lemma put_row_absent: "id_of row \<notin> id_of ` set table \<Longrightarrow> put_row id_of row table = table"
  by (induction table) (auto simp: put_row_def)

lemma put_row_owned:
  assumes "distinct (map id_of table)" "r \<in> set table" "id_of row = id_of r" "ws_of row = ws_of r"
  shows "owned ws_of w (put_row id_of row table) = put_row id_of row (owned ws_of w table)"
  using assms
proof (induction table)
  case (Cons x table)
  show ?case
  proof (cases "x = r")
    case True
    with Cons.prems have "id_of row \<notin> id_of ` set table" "id_of row \<notin> id_of ` set (owned ws_of w table)"
      by (auto simp: owned_def image_iff)
    then have "put_row id_of row table = table" "put_row id_of row (owned ws_of w table) = owned ws_of w table"
      by (auto intro: put_row_absent)
    with True Cons.prems show ?thesis by (auto simp: put_row_def owned_def)
  next
    case False
    with Cons have "owned ws_of w (put_row id_of row table) = put_row id_of row (owned ws_of w table)" "id_of x \<noteq> id_of row"
      by auto
    then show ?thesis by (auto simp: put_row_def owned_def)
  qed
qed simp

lemma put_row_others:
  assumes "distinct (map id_of table)" "r \<in> set table" "id_of row = id_of r" "ws_of row = ws_of r" "ws_of r \<noteq> w"
  shows "owned ws_of w (put_row id_of row table) = owned ws_of w table"
proof -
  have "id_of row \<notin> id_of ` set (owned ws_of w table)"
    using assms by (auto simp: owned_def distinct_map inj_on_def)
  then show ?thesis using put_row_owned [OF assms(1-4), of w] put_row_absent by metis
qed

lemma put_job_row: "put_job = put_row jb_id"
  by (simp add: put_job_def put_row_def fun_eq_iff)

section \<open>The view\<close>

lemma view_simps [simp]:
  "ap_workspaces (view w db) = owned wo_id w (ap_workspaces db)" "ap_tokens (view w db) = owned at_workspace_id w (ap_tokens db)"
  "ap_collections (view w db) = owned co_workspace_id w (ap_collections db)" "ap_assets (view w db) = owned as_workspace_id w (ap_assets db)"
  "ap_versions (view w db) = owned ve_workspace_id w (ap_versions db)" "ap_configs (view w db) = owned cf_workspace_id w (ap_configs db)"
  "ap_builds (view w db) = owned bu_workspace_id w (ap_builds db)" "ap_manifests (view w db) = owned mr_workspace_id w (ap_manifests db)"
  "ap_targets (view w db) = owned tg_workspace_id w (ap_targets db)" "ap_snapshots (view w db) = owned sn_workspace_id w (ap_snapshots db)"
  "ap_policies (view w db) = owned po_workspace_id w (ap_policies db)" "ap_revisions (view w db) = owned rv_workspace_id w (ap_revisions db)"
  "ap_reconciliations (view w db) = owned rn_workspace_id w (ap_reconciliations db)"
  "ap_findings (view w db) = owned fr_workspace_id w (ap_findings db)" "ap_jobs (view w db) = owned jb_workspace_id w (ap_jobs db)"
  "ap_audit (view w db) = filter (\<lambda>e. ae_workspace_id e = Some w) (ap_audit db)"
  by (simp_all add: view_def)

lemma view_updates [simp]:
  "view w (db\<lparr>ap_workspaces := t1\<rparr>) = (view w db)\<lparr>ap_workspaces := owned wo_id w t1\<rparr>"
  "view w (db\<lparr>ap_tokens := t2\<rparr>) = (view w db)\<lparr>ap_tokens := owned at_workspace_id w t2\<rparr>"
  "view w (db\<lparr>ap_collections := t3\<rparr>) = (view w db)\<lparr>ap_collections := owned co_workspace_id w t3\<rparr>"
  "view w (db\<lparr>ap_configs := t4\<rparr>) = (view w db)\<lparr>ap_configs := owned cf_workspace_id w t4\<rparr>"
  "view w (db\<lparr>ap_builds := t5\<rparr>) = (view w db)\<lparr>ap_builds := owned bu_workspace_id w t5\<rparr>"
  "view w (db\<lparr>ap_snapshots := t6\<rparr>) = (view w db)\<lparr>ap_snapshots := owned sn_workspace_id w t6\<rparr>"
  "view w (db\<lparr>ap_policies := t7\<rparr>) = (view w db)\<lparr>ap_policies := owned po_workspace_id w t7\<rparr>"
  "view w (db\<lparr>ap_revisions := t8\<rparr>) = (view w db)\<lparr>ap_revisions := owned rv_workspace_id w t8\<rparr>"
  "view w (db\<lparr>ap_reconciliations := t9\<rparr>) = (view w db)\<lparr>ap_reconciliations := owned rn_workspace_id w t9\<rparr>"
  "view w (db\<lparr>ap_jobs := t10\<rparr>) = (view w db)\<lparr>ap_jobs := owned jb_workspace_id w t10\<rparr>"
  "view w (db\<lparr>ap_audit := t11\<rparr>) = (view w db)\<lparr>ap_audit := filter (\<lambda>e. ae_workspace_id e = Some w) t11\<rparr>"
  by (simp_all add: view_def)

text \<open>A call that a workspace makes sees its view, and changes nothing else.\<close>

definition isolated :: "pystr \<Rightarrow> (api_db \<Rightarrow> 'r answer) \<Rightarrow> api_db \<Rightarrow> bool" where
  "isolated w f db \<longleftrightarrow> f (view w db) = (fst (f db), view w (snd (f db))) \<and> (\<forall>w'. w' \<noteq> w \<longrightarrow> view w' (snd (f db)) = view w' db)"

lemma isolated_reading: "r (view w db) = r db \<Longrightarrow> isolated w (\<lambda>db. reading db (r db)) db"
  by (simp add: isolated_def reading_def)

lemma isolated_answering: "isolated w f db \<Longrightarrow> isolated w (\<lambda>db. answering g (f db)) db"
  by (simp add: isolated_def answering_def)

lemma commit_view:
  assumes "ae_workspace_id event = Some w"
  shows "commit_with event r (view w old) (view w new) = (fst (commit_with event r old new), view w (snd (commit_with event r old new)))"
    and "w' \<noteq> w \<Longrightarrow> view w' new = view w' old \<Longrightarrow> view w' (snd (commit_with event r old new)) = view w' old"
proof -
  show "commit_with event r (view w old) (view w new) = (fst (commit_with event r old new), view w (snd (commit_with event r old new)))"
    using assms by (auto simp: commit_with_def record_event_def split: sum.splits)
next
  assume w': "w' \<noteq> w" and same: "view w' new = view w' old"
  have "(view w' new)\<lparr>ap_audit := filter (\<lambda>e. ae_workspace_id e = Some w') (ap_audit new)\<rparr> = view w' new"
    by (simp add: view_def)
  then show "view w' (snd (commit_with event r old new)) = view w' old"
    using assms w' same by (auto simp: commit_with_def record_event_def split: sum.splits)
qed

lemma api_event_workspace [simp]: "ae_workspace_id (api_event E auth a res ty i md) = Some (ac_workspace_id auth)"
  by (simp add: api_event_def)

lemma isolated_commit:
  assumes "f db = commit_with event r db new" "f (view w db) = commit_with event r (view w db) new'"
    "view w new = new'" "ae_workspace_id event = Some w" "\<And>w'. w' \<noteq> w \<Longrightarrow> view w' new = view w' db"
  shows "isolated w f db"
  unfolding isolated_def assms(1,2) assms(3) [symmetric] using assms(4,5) by (auto simp: commit_view(1) intro!: commit_view(2))

lemma isolated_refusal: "f (view w db) = (p, view w db) \<Longrightarrow> f db = (p, db) \<Longrightarrow> isolated w f db"
  by (simp add: isolated_def)

section \<open>What is found\<close>

lemma db_soundD:
  assumes "db_sound db"
  shows "ids_ok db" "links_ok db"
  using assms by (simp_all add: db_sound_def)

lemma lookup_view [simp]:
  assumes "ids_ok db"
  shows "get_owned co_id co_workspace_id w i (owned co_workspace_id w (ap_collections db)) = get_owned co_id co_workspace_id w i (ap_collections db)"
    "get_owned as_id as_workspace_id w i (owned as_workspace_id w (ap_assets db)) = get_owned as_id as_workspace_id w i (ap_assets db)"
    "get_owned cf_id cf_workspace_id w i (owned cf_workspace_id w (ap_configs db)) = get_owned cf_id cf_workspace_id w i (ap_configs db)"
    "get_owned bu_id bu_workspace_id w i (owned bu_workspace_id w (ap_builds db)) = get_owned bu_id bu_workspace_id w i (ap_builds db)"
    "get_owned mr_id mr_workspace_id w i (owned mr_workspace_id w (ap_manifests db)) = get_owned mr_id mr_workspace_id w i (ap_manifests db)"
    "get_owned tg_id tg_workspace_id w i (owned tg_workspace_id w (ap_targets db)) = get_owned tg_id tg_workspace_id w i (ap_targets db)"
    "get_owned sn_id sn_workspace_id w i (owned sn_workspace_id w (ap_snapshots db)) = get_owned sn_id sn_workspace_id w i (ap_snapshots db)"
    "get_owned po_id po_workspace_id w i (owned po_workspace_id w (ap_policies db)) = get_owned po_id po_workspace_id w i (ap_policies db)"
    "get_owned rn_id rn_workspace_id w i (owned rn_workspace_id w (ap_reconciliations db)) = get_owned rn_id rn_workspace_id w i (ap_reconciliations db)"
    "get_owned jb_id jb_workspace_id w i (owned jb_workspace_id w (ap_jobs db)) = get_owned jb_id jb_workspace_id w i (ap_jobs db)"
    "get_owned at_id at_workspace_id w i (owned at_workspace_id w (ap_tokens db)) = get_owned at_id at_workspace_id w i (ap_tokens db)"
  using assms by (auto simp: ids_ok_def intro: get_owned_owned)

text \<open>The jobs of an entity are jobs of a workspace.\<close>

definition jobs_within :: "string \<Rightarrow> pystr \<Rightarrow> pystr \<Rightarrow> job_table \<Rightarrow> bool" where
  "jobs_within ty i w table \<longleftrightarrow>
     (\<forall>j \<in> set table. jb_related_entity_type j = Some (py ty) \<and> jb_related_entity_id j = Some i \<longrightarrow> jb_workspace_id j = w)"

lemma jobs_withinD:
  "jobs_within ty i w table \<Longrightarrow> j \<in> set table \<Longrightarrow> jb_related_entity_type j = Some (py ty) \<Longrightarrow> jb_related_entity_id j = Some i
   \<Longrightarrow> jb_workspace_id j = w"
  by (simp add: jobs_within_def)

lemma jobs_within_append [simp]:
  "jobs_within ty i w (t @ t') \<longleftrightarrow> jobs_within ty i w t \<and> jobs_within ty i w t'"
  by (auto simp: jobs_within_def)

lemma latest_job_view:
  assumes "jobs_within ty i w table"
  shows "latest_job_for ty i (owned jb_workspace_id w table) = latest_job_for ty i table"
  using assms by (auto simp: latest_job_for_def dest: jobs_withinD intro!: find_owned)

lemma latest_revision_view:
  assumes "\<And>r. r \<in> set table \<Longrightarrow> rv_policy_id r = i \<Longrightarrow> rv_workspace_id r = w"
  shows "latest_revision (owned rv_workspace_id w table) i = latest_revision table i"
  using filter_owned [of table "\<lambda>r. rv_policy_id r = i" rv_workspace_id w] assms by (simp add: latest_revision_def)

lemma build_out_view:
  assumes "bu_workspace_id b = w"
    "jobs_within ''build'' (bu_id b) w (ap_jobs db)"
    and "ap_manifests seen = owned mr_workspace_id w (ap_manifests db)" "ap_jobs seen = owned jb_workspace_id w (ap_jobs db)"
  shows "build_out_of seen b = build_out_of db b"
proof -
  have "find (\<lambda>m. mr_workspace_id m = w \<and> mr_manifest_hash m = h) (owned mr_workspace_id w (ap_manifests db))
      = find (\<lambda>m. mr_workspace_id m = w \<and> mr_manifest_hash m = h) (ap_manifests db)" for h
    by (rule find_owned) simp
  with assms show ?thesis by (simp add: build_out_of_def Let_def latest_job_view split: json.split)
qed

lemma reconciliation_out_view:
  assumes "\<And>f. f \<in> set (ap_findings db) \<Longrightarrow> fr_reconciliation_id f = rn_id n \<Longrightarrow> fr_workspace_id f = w"
    "jobs_within ''reconciliation'' (rn_id n) w (ap_jobs db)"
    and "ap_findings seen = owned fr_workspace_id w (ap_findings db)" "ap_jobs seen = owned jb_workspace_id w (ap_jobs db)"
  shows "reconciliation_out_of seen n = reconciliation_out_of db n"
  using assms by (simp add: reconciliation_out_of_def findings_of_def latest_job_view filter_owned)

lemma policy_out_view:
  assumes "\<And>r. r \<in> set (ap_revisions db) \<Longrightarrow> rv_policy_id r = po_id p \<Longrightarrow> rv_workspace_id r = w"
    and "ap_revisions seen = owned rv_workspace_id w (ap_revisions db)"
  shows "policy_out_of seen p = policy_out_of db p"
  using assms by (simp add: policy_out_of_def latest_revision_view)

lemma view_same [simp]:
  "(view w db)\<lparr>ap_workspaces := owned wo_id w (ap_workspaces db)\<rparr> = view w db"
  "(view w db)\<lparr>ap_tokens := owned at_workspace_id w (ap_tokens db)\<rparr> = view w db"
  "(view w db)\<lparr>ap_collections := owned co_workspace_id w (ap_collections db)\<rparr> = view w db"
  "(view w db)\<lparr>ap_configs := owned cf_workspace_id w (ap_configs db)\<rparr> = view w db"
  "(view w db)\<lparr>ap_builds := owned bu_workspace_id w (ap_builds db)\<rparr> = view w db"
  "(view w db)\<lparr>ap_snapshots := owned sn_workspace_id w (ap_snapshots db)\<rparr> = view w db"
  "(view w db)\<lparr>ap_policies := owned po_workspace_id w (ap_policies db)\<rparr> = view w db"
  "(view w db)\<lparr>ap_revisions := owned rv_workspace_id w (ap_revisions db)\<rparr> = view w db"
  "(view w db)\<lparr>ap_reconciliations := owned rn_workspace_id w (ap_reconciliations db)\<rparr> = view w db"
  "(view w db)\<lparr>ap_jobs := owned jb_workspace_id w (ap_jobs db)\<rparr> = view w db"
  by (simp_all add: view_def)

text \<open>The links of the rows of a sound database.\<close>

lemma links_of:
  assumes "links_ok db"
  shows "b \<in> set (ap_builds db) \<Longrightarrow> jobs_within ''build'' (bu_id b) (bu_workspace_id b) (ap_jobs db)"
    and "n \<in> set (ap_reconciliations db) \<Longrightarrow> jobs_within ''reconciliation'' (rn_id n) (rn_workspace_id n) (ap_jobs db)"
    and "s \<in> set (ap_snapshots db) \<Longrightarrow> jobs_within ''inventory_snapshot'' (sn_id s) (sn_workspace_id s) (ap_jobs db)"
    and "n \<in> set (ap_reconciliations db) \<Longrightarrow> f \<in> set (ap_findings db) \<Longrightarrow> fr_reconciliation_id f = rn_id n
      \<Longrightarrow> fr_workspace_id f = rn_workspace_id n"
    and "p \<in> set (ap_policies db) \<Longrightarrow> r \<in> set (ap_revisions db) \<Longrightarrow> rv_policy_id r = po_id p
      \<Longrightarrow> rv_workspace_id r = po_workspace_id p"
    and "t \<in> set (ap_targets db) \<Longrightarrow> s \<in> set (ap_snapshots db) \<Longrightarrow> sn_target_id s = tg_id t
      \<Longrightarrow> sn_workspace_id s = tg_workspace_id t"
    and "a \<in> set (ap_assets db) \<Longrightarrow> v \<in> set (ap_versions db) \<Longrightarrow> ve_source_asset_id v = as_id a
      \<Longrightarrow> ve_workspace_id v = as_workspace_id a"
  using assms unfolding links_ok_def jobs_within_def by blast+

section \<open>Jobs\<close>

lemma enqueue_view:
  assumes "enqueue_for E auth ty payload ety i table = (j, table')"
  shows "enqueue_for E auth ty payload ety i (owned f w table) = (j, owned f w table @ [j])" "table' = table @ [j]"
    "jb_workspace_id j = ac_workspace_id auth" "jb_related_entity_type j = Some (py ety)" "jb_related_entity_id j = Some i"
  using assms by (auto simp: enqueue_for_def enqueue_job_def Let_def)

lemma request_cancel_same:
  assumes "request_cancel now j = (out, j')"
  shows "jb_id j' = jb_id j" "jb_workspace_id j' = jb_workspace_id j" "jb_related_entity_type j' = jb_related_entity_type j"
    "jb_related_entity_id j' = jb_related_entity_id j"
  using assms by (auto simp: request_cancel_def split: if_splits)

lemma find_SomeD: "find P xs = Some x \<Longrightarrow> x \<in> set xs \<and> P x"
  by (auto simp: find_Some_iff)

lemma latest_job_for_Some:
  "latest_job_for ty i table = Some j \<Longrightarrow> j \<in> set table \<and> jb_related_entity_type j = Some (py ty) \<and> jb_related_entity_id j = Some i"
  unfolding latest_job_for_def by (drule find_SomeD) simp

lemma cancel_view:
  assumes "distinct (map jb_id table)"
    and "jobs_within ty i w table"
  shows "cancel_entity_job now ty i (owned jb_workspace_id w table)
      = map_sum id (map_prod id (owned jb_workspace_id w)) (cancel_entity_job now ty i table)" (is ?view)
    and "cancel_entity_job now ty i table = Inr (out, table') \<Longrightarrow> w' \<noteq> w
      \<Longrightarrow> owned jb_workspace_id w' table' = owned jb_workspace_id w' table" (is "?done \<Longrightarrow> _ \<Longrightarrow> ?others")
proof -
  have latest: "latest_job_for ty i (owned jb_workspace_id w table) = latest_job_for ty i table"
    by (rule latest_job_view [OF assms(2)])
  have put: "owned jb_workspace_id w (put_job j' table) = put_job j' (owned jb_workspace_id w table)"
    and same: "w' \<noteq> w \<Longrightarrow> owned jb_workspace_id w' (put_job j' table) = owned jb_workspace_id w' table"
    if j: "latest_job_for ty i table = Some j" and c: "request_cancel now j = (o1, j')" for j o1 j' w'
  proof -
    have "j \<in> set table" "jb_workspace_id j = w" using latest_job_for_Some [OF j] jobs_withinD [OF assms(2)] by auto
    then show "owned jb_workspace_id w (put_job j' table) = put_job j' (owned jb_workspace_id w table)"
      "w' \<noteq> w \<Longrightarrow> owned jb_workspace_id w' (put_job j' table) = owned jb_workspace_id w' table"
      using put_row_owned [OF assms(1)] put_row_others [OF assms(1)] request_cancel_same [OF c] by (auto simp: put_job_row)
  qed
  show ?view
    by (auto simp: cancel_entity_job_def latest put split: option.splits cancel_outcome.splits prod.splits)
  show "?done \<Longrightarrow> w' \<noteq> w \<Longrightarrow> ?others"
    by (auto simp: cancel_entity_job_def same split: option.splits cancel_outcome.splits prod.splits)
qed

lemma cancel_keeps:
  assumes "cancel_entity_job now ty i table = Inr (out, table')" "j \<in> set table'"
  obtains j0 where "j0 \<in> set table" "jb_workspace_id j0 = jb_workspace_id j"
    "jb_related_entity_type j0 = jb_related_entity_type j" "jb_related_entity_id j0 = jb_related_entity_id j"
proof -
  obtain x x' o1 where x: "latest_job_for ty i table = Some x" "request_cancel now x = (o1, x')" "table' = put_job x' table"
    using assms(1) by (auto simp: cancel_entity_job_def split: option.splits prod.splits cancel_outcome.splits)
  show thesis
  proof (cases "j = x'")
    case True
    then show thesis using that [of x] latest_job_for_Some [OF x(1)] request_cancel_same [OF x(2)] by auto
  next
    case False
    then show thesis using that [of j] assms(2) x(3) by (auto simp: put_job_def split: if_splits)
  qed
qed

lemma cancel_links:
  assumes "cancel_entity_job now ty i table = Inr (out, table')" "jobs_within ty i w table"
  shows "jobs_within ty i w table'"
  unfolding jobs_within_def
proof (intro ballI impI)
  fix j assume "j \<in> set table'" "jb_related_entity_type j = Some (py ty) \<and> jb_related_entity_id j = Some i"
  with cancel_keeps [OF assms(1), of j] jobs_withinD [OF assms(2)] show "jb_workspace_id j = w" by metis
qed

end
