(* ===== verification/Tenancy.thy ===== *)
theory Tenancy
  imports Isolation
begin

text \<open>
  Every call of a client is isolated: the lemmas go through the calls that write, then through
  \<open>serve\<close>.
\<close>

section \<open>Calls that write\<close>

lemma isolated_create_collection: "isolated (ac_workspace_id auth) (create_source_collection E R S auth payload) db"
proof -
  let ?w = "ac_workspace_id auth"
  let ?P = "\<lambda>r. co_workspace_id r = ?w \<and> co_namespace r = cc_namespace payload"
  have taken: "list_ex ?P (owned co_workspace_id ?w (ap_collections db)) = list_ex ?P (ap_collections db)"
    by (rule list_ex_owned) simp
  show ?thesis
  proof (cases "\<not> ro_is_dir R (cc_root payload) \<or> \<not> is_source_root_allowed (ro_resolve R) S (cc_root payload) \<or> list_ex ?P (ap_collections db)")
    case True
    then show ?thesis by (auto simp: create_source_collection_def taken isolated_def)
  next
    case False
    then show ?thesis
      by (intro isolated_commit, simp add: create_source_collection_def Let_def, simp add: create_source_collection_def taken Let_def)
        simp_all
  qed
qed

lemma isolated_scan:
  assumes "db_sound db"
  shows "isolated (ac_workspace_id auth) (scan_source_collection E auth i) db"
proof -
  note ok = db_soundD [OF assms]
  show ?thesis
  proof (cases "get_owned co_id co_workspace_id (ac_workspace_id auth) i (ap_collections db)")
    case None
    with ok show ?thesis by (auto simp: scan_source_collection_def intro!: isolated_refusal)
  next
    case (Some collection)
    obtain j table where e: "enqueue_for E auth ''source_collection_scan'' [(py ''collection_id'', JStr (co_id collection))]
        ''source_collection'' (co_id collection) (ap_jobs db) = (j, table)"
      by (cases "enqueue_for E auth ''source_collection_scan'' [(py ''collection_id'', JStr (co_id collection))]
        ''source_collection'' (co_id collection) (ap_jobs db)")
    note e' = enqueue_view [OF e]
    from ok Some e show ?thesis
      by (intro isolated_commit, simp add: scan_source_collection_def, simp add: scan_source_collection_def e')
        (simp_all add: e')
  qed
qed

lemma isolated_create_config: "isolated (ac_workspace_id auth) (create_pipeline_config E auth d) db"
proof -
  let ?w = "ac_workspace_id auth"
  let ?P = "\<lambda>r. cf_workspace_id r = ?w \<and> cf_config_hash r = hash_canonical (ca_platform E) (JObj d)"
  have same: "find ?P (owned cf_workspace_id ?w (ap_configs db)) = find ?P (ap_configs db)"
    by (rule find_owned) simp
  show ?thesis
  proof (cases "find ?P (ap_configs db)")
    case None
    then show ?thesis
      by (intro isolated_commit, simp add: create_pipeline_config_def Let_def, simp add: create_pipeline_config_def same Let_def) simp_all
  next
    case (Some r)
    then show ?thesis by (auto simp: create_pipeline_config_def same Let_def intro!: isolated_refusal)
  qed
qed

lemma isolated_create_build:
  assumes "db_sound db" "fresh_ids E db"
  shows "isolated (ac_workspace_id auth) (create_build E auth payload) db"
proof -
  let ?w = "ac_workspace_id auth"
  note ok = db_soundD [OF assms(1)]
  show ?thesis
  proof (cases "get_owned co_id co_workspace_id ?w (bc_source_collection_id payload) (ap_collections db) = None
      \<or> get_owned cf_id cf_workspace_id ?w (bc_pipeline_config_id payload) (ap_configs db) = None")
    case True
    with ok show ?thesis by (auto simp: create_build_def isolated_def split: option.splits)
  next
    case False
    then obtain collection config where
      found: "get_owned co_id co_workspace_id ?w (bc_source_collection_id payload) (ap_collections db) = Some collection"
        "get_owned cf_id cf_workspace_id ?w (bc_pipeline_config_id payload) (ap_configs db) = Some config" by auto
    let ?b = "\<lparr>bu_id = ca_new_id E, bu_workspace_id = ?w, bu_source_collection_id = co_id collection,
      bu_pipeline_config_id = cf_id config, bu_state = BuildPending, bu_counters = [], bu_started_at = None, bu_completed_at = None\<rparr>"
    let ?p = "(py ''build_id'', JStr (ca_new_id E)) # (case bc_epoch payload of None \<Rightarrow> [] | Some e \<Rightarrow> [(py ''epoch'', JInt e)])"
    obtain j table where e: "enqueue_for E auth ''manifest_build'' ?p ''build'' (ca_new_id E) (ap_jobs db) = (j, table)"
      by (cases "enqueue_for E auth ''manifest_build'' ?p ''build'' (ca_new_id E) (ap_jobs db)")
    note e' = enqueue_view [OF e]
    have new: "jobs_within ''build'' (ca_new_id E) ?w (ap_jobs db @ [j])"
      using assms(2) e' by (auto simp: fresh_ids_def Let_def jobs_within_def)
    let ?new = "db\<lparr>ap_builds := ap_builds db @ [?b], ap_jobs := ap_jobs db @ [j]\<rparr>"
    have out: "build_out_of seen ?b = build_out_of ?new ?b"
      if "ap_manifests seen = owned mr_workspace_id ?w (ap_manifests ?new)" "ap_jobs seen = owned jb_workspace_id ?w (ap_jobs ?new)" for seen
      using that by (intro build_out_view [where w = ?w]) (use new in simp_all)
    from ok found e show ?thesis
      by (intro isolated_commit, simp add: create_build_def Let_def,
          simp add: create_build_def Let_def e' out) (simp_all add: e')
  qed
qed

lemma isolated_cancel_build:
  assumes "db_sound db"
  shows "isolated (ac_workspace_id auth) (cancel_build E auth i) db"
proof -
  let ?w = "ac_workspace_id auth"
  note ok = db_soundD [OF assms(1)]
  have ids: "distinct (map jb_id (ap_jobs db))" "distinct (map bu_id (ap_builds db))"
    using ok(1) by (auto simp: ids_ok_def)
  show ?thesis
  proof (cases "get_owned bu_id bu_workspace_id ?w i (ap_builds db)")
    case None
    with ok show ?thesis by (auto simp: cancel_build_def intro!: isolated_refusal)
  next
    case (Some build)
    then have b: "build \<in> set (ap_builds db)" "bu_workspace_id build = ?w" using get_owned_Some by fastforce+
    note link = links_of(1) [OF ok(2) b(1), unfolded b(2)]
    note c = cancel_view [OF ids(1) link]
    show ?thesis
    proof (cases "cancel_entity_job (ca_now E) ''build'' (bu_id build) (ap_jobs db)")
      case (Inl p)
      with ok Some c(1) show ?thesis by (auto simp: cancel_build_def intro!: isolated_refusal)
    next
      case (Inr r)
      obtain out table where r: "r = (out, table)" by (cases r)
      define b' where "b' = (if out = CancelledOutright \<and> bu_state build = BuildPending
        then build\<lparr>bu_state := BuildCancelled, bu_completed_at := Some (ca_now E)\<rparr> else build)"
      let ?new = "db\<lparr>ap_builds := put_row bu_id b' (ap_builds db), ap_jobs := table\<rparr>"
      have same: "bu_id b' = bu_id build" "bu_workspace_id b' = bu_workspace_id build" by (simp_all add: b'_def)
      have out: "build_out_of seen b' = build_out_of ?new b'"
      if "ap_manifests seen = owned mr_workspace_id ?w (ap_manifests ?new)" "ap_jobs seen = owned jb_workspace_id ?w (ap_jobs ?new)" for seen
      using that by (intro build_out_view [where w = ?w]) (use b same cancel_links [OF Inr [unfolded r] link] in simp_all)
      from ok Some show ?thesis
        by (intro isolated_commit,
            simp add: cancel_build_def Let_def Inr r b'_def [symmetric], simp add: cancel_build_def Let_def c(1) Inr r b'_def [symmetric] out,
            use b same c(2) [OF Inr [unfolded r]] in \<open>simp_all add: put_row_owned [OF ids(2) b(1), where w = ?w] put_row_others [OF ids(2) b(1)]\<close>)
    qed
  qed
qed

lemma isolated_cancel_reconciliation:
  assumes "db_sound db"
  shows "isolated (ac_workspace_id auth) (cancel_reconciliation E auth i) db"
proof -
  let ?w = "ac_workspace_id auth"
  note ok = db_soundD [OF assms(1)]
  have ids: "distinct (map jb_id (ap_jobs db))" "distinct (map rn_id (ap_reconciliations db))"
    using ok(1) by (auto simp: ids_ok_def)
  show ?thesis
  proof (cases "get_owned rn_id rn_workspace_id ?w i (ap_reconciliations db)")
    case None
    with ok show ?thesis by (auto simp: cancel_reconciliation_def intro!: isolated_refusal)
  next
    case (Some row)
    then have b: "row \<in> set (ap_reconciliations db)" "rn_workspace_id row = ?w" using get_owned_Some by fastforce+
    note link = links_of(2) [OF ok(2) b(1), unfolded b(2)]
    note c = cancel_view [OF ids(1) link]
    show ?thesis
    proof (cases "cancel_entity_job (ca_now E) ''reconciliation'' (rn_id row) (ap_jobs db)")
      case (Inl p)
      with ok Some c(1) show ?thesis by (auto simp: cancel_reconciliation_def intro!: isolated_refusal)
    next
      case (Inr r)
      obtain out table where r: "r = (out, table)" by (cases r)
      define b' where "b' = (if out = CancelledOutright \<and> rn_state row = RunPending
        then row\<lparr>rn_state := RunCancelled\<rparr> else row)"
      let ?new = "db\<lparr>ap_reconciliations := put_row rn_id b' (ap_reconciliations db), ap_jobs := table\<rparr>"
      have same: "rn_id b' = rn_id row" "rn_workspace_id b' = rn_workspace_id row" by (simp_all add: b'_def)
      have out: "reconciliation_out_of seen b' = reconciliation_out_of ?new b'"
      if "ap_findings seen = owned fr_workspace_id ?w (ap_findings ?new)" "ap_jobs seen = owned jb_workspace_id ?w (ap_jobs ?new)" for seen
      using that by (intro reconciliation_out_view [where w = ?w]) (use b same links_of(4) [OF ok(2) b(1)] cancel_links [OF Inr [unfolded r] link] in simp_all)
      from ok Some show ?thesis
        by (intro isolated_commit,
            simp add: cancel_reconciliation_def Let_def Inr r b'_def [symmetric], simp add: cancel_reconciliation_def Let_def c(1) Inr r b'_def [symmetric] out,
            use b same c(2) [OF Inr [unfolded r]] in \<open>simp_all add: put_row_owned [OF ids(2) b(1), where w = ?w] put_row_others [OF ids(2) b(1)]\<close>)
    qed
  qed
qed


lemma isolated_cancel_snapshot:
  assumes "db_sound db"
  shows "isolated (ac_workspace_id auth) (cancel_snapshot E auth i) db"
proof -
  let ?w = "ac_workspace_id auth"
  note ok = db_soundD [OF assms(1)]
  have ids: "distinct (map jb_id (ap_jobs db))" "distinct (map sn_id (ap_snapshots db))"
    using ok(1) by (auto simp: ids_ok_def)
  show ?thesis
  proof (cases "get_owned sn_id sn_workspace_id ?w i (ap_snapshots db)")
    case None
    with ok show ?thesis by (auto simp: cancel_snapshot_def intro!: isolated_refusal)
  next
    case (Some row)
    then have b: "row \<in> set (ap_snapshots db)" "sn_workspace_id row = ?w" using get_owned_Some by fastforce+
    note link = links_of(3) [OF ok(2) b(1), unfolded b(2)]
    note c = cancel_view [OF ids(1) link]
    show ?thesis
    proof (cases "cancel_entity_job (ca_now E) ''inventory_snapshot'' (sn_id row) (ap_jobs db)")
      case (Inl p)
      with ok Some c(1) show ?thesis by (auto simp: cancel_snapshot_def intro!: isolated_refusal)
    next
      case (Inr r)
      obtain out table where r: "r = (out, table)" by (cases r)
      define b' where "b' = (if out = CancelledOutright \<and> sn_status row = SnapshotPending
        then row\<lparr>sn_status := SnapshotCancelled\<rparr> else row)"
      have same: "sn_id b' = sn_id row" "sn_workspace_id b' = sn_workspace_id row" by (simp_all add: b'_def)
      from ok Some show ?thesis
        by (intro isolated_commit,
            simp add: cancel_snapshot_def Let_def Inr r b'_def [symmetric], simp add: cancel_snapshot_def Let_def c(1) Inr r b'_def [symmetric],
            use b same c(2) [OF Inr [unfolded r]] in \<open>simp_all add: put_row_owned [OF ids(2) b(1), where w = ?w] put_row_others [OF ids(2) b(1)]\<close>)
    qed
  qed
qed


lemma isolated_create_snapshot:
  assumes "db_sound db"
  shows "isolated (ac_workspace_id auth) (create_snapshot E auth i) db"
proof -
  let ?w = "ac_workspace_id auth"
  note ok = db_soundD [OF assms]
  show ?thesis
  proof (cases "get_owned tg_id tg_workspace_id ?w i (ap_targets db)")
    case None
    with ok show ?thesis by (auto simp: create_snapshot_def intro!: isolated_refusal)
  next
    case (Some target)
    obtain j table where e: "enqueue_for E auth ''inventory_snapshot'' [(py ''snapshot_id'', JStr (ca_new_id E))]
        ''inventory_snapshot'' (ca_new_id E) (ap_jobs db) = (j, table)"
      by (cases "enqueue_for E auth ''inventory_snapshot'' [(py ''snapshot_id'', JStr (ca_new_id E))]
        ''inventory_snapshot'' (ca_new_id E) (ap_jobs db)")
    note e' = enqueue_view [OF e]
    from ok Some e show ?thesis
      by (intro isolated_commit, simp add: create_snapshot_def Let_def, simp add: create_snapshot_def e' Let_def)
        (simp_all add: e')
  qed
qed

lemma isolated_update_workspace:
  assumes "db_sound db"
  shows "isolated (ac_workspace_id auth) (update_workspace E auth name) db"
proof -
  let ?w = "ac_workspace_id auth"
  have ids: "distinct (map wo_id (ap_workspaces db))"
    using db_soundD [OF assms] by (simp add: ids_ok_def)
  have same: "find (\<lambda>r. wo_id r = ?w) (owned wo_id ?w (ap_workspaces db)) = find (\<lambda>r. wo_id r = ?w) (ap_workspaces db)"
    by (rule find_owned) simp
  show ?thesis
  proof (cases "find (\<lambda>r. wo_id r = ?w) (ap_workspaces db)")
    case None
    with same show ?thesis by (auto simp: update_workspace_def find_workspace_def intro!: isolated_refusal)
  next
    case (Some row)
    then have b: "row \<in> set (ap_workspaces db)" "wo_id row = ?w" using find_SomeD by fastforce+
    from Some show ?thesis
      by (intro isolated_commit, simp add: update_workspace_def find_workspace_def Let_def,
          simp add: update_workspace_def find_workspace_def same Let_def,
          use b in \<open>simp_all add: put_row_owned [OF ids b(1), where w = ?w] put_row_others [OF ids b(1)]\<close>)
  qed
qed

lemma isolated_revoke_token:
  assumes "db_sound db"
  shows "isolated (ac_workspace_id auth) (revoke_api_token E auth i) db"
proof -
  let ?w = "ac_workspace_id auth"
  note ok = db_soundD [OF assms]
  have ids: "distinct (map at_id (ap_tokens db))" using ok by (simp add: ids_ok_def)
  show ?thesis
  proof (cases "get_owned at_id at_workspace_id ?w i (ap_tokens db)")
    case None
    with ok show ?thesis by (auto simp: revoke_api_token_def intro!: isolated_refusal)
  next
    case (Some row)
    then have b: "row \<in> set (ap_tokens db)" "at_workspace_id row = ?w" using get_owned_Some by fastforce+
    show ?thesis
    proof (cases "at_revoked_at row")
      case None
      with ok Some show ?thesis
        by (intro isolated_commit, simp add: revoke_api_token_def, simp add: revoke_api_token_def,
          use b in \<open>simp_all add: put_row_owned [OF ids b(1), where w = ?w] put_row_others [OF ids b(1)]\<close>)
    qed (use ok Some in \<open>auto simp: revoke_api_token_def intro!: isolated_refusal\<close>)
  qed
qed

text \<open>The selector of a new token is random.\<close>

definition fresh_selector :: "server_settings \<Rightarrow> token_entropy \<Rightarrow> api_db \<Rightarrow> bool" where
  "fresh_selector S R db \<longleftrightarrow>
     it_selector (issue_api_token (te_selector R) (te_secret R) (te_salt R) (st_api_token_prefix S)) \<notin> at_selector ` set (ap_tokens db)"

lemma isolated_create_token:
  assumes "fresh_selector S R db"
  shows "isolated (ac_workspace_id auth) (create_api_token E S R auth name scopes t) db"
proof (cases "case t of None \<Rightarrow> False | Some t \<Rightarrow> t \<le> ca_now E")
  case True
  then show ?thesis by (auto simp: create_api_token_def isolated_def split: option.splits)
next
  case False
  define issued where "issued = issue_api_token (te_selector R) (te_secret R) (te_salt R) (st_api_token_prefix S)"
  define row where "row = row_of issued (ca_new_id E) (ac_workspace_id auth) name scopes t"
  have row: "at_workspace_id row = ac_workspace_id auth" "at_selector row = it_selector issued"
    by (simp_all add: row_def row_of_def)
  have new: "\<not> list_ex (\<lambda>x. at_selector x = it_selector issued) (ap_tokens db)"
    "\<not> list_ex (\<lambda>x. at_selector x = it_selector issued) (owned at_workspace_id w (ap_tokens db))" for w
    using assms by (auto simp: fresh_selector_def issued_def list_ex_iff owned_def image_iff)
  from False show ?thesis
    by (intro isolated_commit,
        simp add: create_api_token_def issued_def [symmetric] row_def [symmetric] row new Let_def,
        simp add: create_api_token_def issued_def [symmetric] row_def [symmetric] row new Let_def)
      (simp_all add: row)
qed

lemma fresh_idsD:
  assumes "fresh_ids E db"
  shows "r \<in> set (ap_revisions db) \<Longrightarrow> rv_policy_id r \<noteq> ca_new_id E"
    and "f \<in> set (ap_findings db) \<Longrightarrow> fr_reconciliation_id f \<noteq> ca_new_id E"
    and "j \<in> set (ap_jobs db) \<Longrightarrow> jb_related_entity_id j \<noteq> Some (ca_new_id E)"
  using assms by (auto simp: fresh_ids_def Let_def image_iff)

lemma isolated_create_policy:
  assumes "fresh_ids E db"
  shows "isolated (ac_workspace_id auth) (create_policy E load auth name document) db"
proof -
  let ?w = "ac_workspace_id auth" and ?i = "ca_new_id E" and ?h = "hash_canonical (ca_platform E) (JObj document)"
  let ?P = "\<lambda>p. po_workspace_id p = ?w \<and> po_name p = name"
  let ?Q = "\<lambda>x. rv_policy_id x = ?i \<and> rv_revision_number x = Suc 0 \<or> rv_workspace_id x = ?w \<and> rv_config_hash x = ?h"
  have taken: "list_ex ?P (owned po_workspace_id ?w (ap_policies db)) = list_ex ?P (ap_policies db)"
    by (rule list_ex_owned) simp
  have new: "rv_policy_id x \<noteq> ?i" if "x \<in> set (ap_revisions db)" for x
    using fresh_idsD(1) [OF assms that] .
  have dup: "list_ex ?Q (owned rv_workspace_id ?w (ap_revisions db)) = list_ex ?Q (ap_revisions db)"
    by (rule list_ex_owned) (use new in auto)
  show ?thesis
  proof (cases "load document = None \<or> list_ex ?P (ap_policies db) \<or> list_ex ?Q (ap_revisions db)")
    case True
    then show ?thesis by (auto simp: create_policy_def add_revision_def taken dup Let_def isolated_def)
  next
    case False
    let ?p = "\<lparr>po_id = ?i, po_workspace_id = ?w, po_name = name\<rparr>"
    let ?r = "\<lparr>rv_id = ca_job_id E, rv_workspace_id = ?w, rv_policy_id = ?i, rv_revision_number = 1, rv_config_hash = ?h, rv_rules_json = document\<rparr>"
    let ?new = "db\<lparr>ap_policies := ap_policies db @ [?p], ap_revisions := ap_revisions db @ [?r]\<rparr>"
    have out: "policy_out_of seen ?p = policy_out_of ?new ?p" if "ap_revisions seen = owned rv_workspace_id ?w (ap_revisions ?new)" for seen
      using that by (intro policy_out_view [where w = ?w]) (use new in auto)
    from False obtain doc where "load document = Some doc" "\<not> list_ex ?P (ap_policies db)" "\<not> list_ex ?Q (ap_revisions db)" by auto
    then show ?thesis
      by (intro isolated_commit, simp add: create_policy_def add_revision_def Let_def,
          simp add: create_policy_def add_revision_def taken dup Let_def out) simp_all
  qed
qed

lemma latest_revision_Some: "latest_revision rs i = Some r \<Longrightarrow> r \<in> set rs \<and> rv_policy_id r = i"
  by (cases "filter (\<lambda>r. rv_policy_id r = i) rs") (auto simp: latest_revision_def filter_eq_Cons_iff dest!: find_SomeD split: if_splits)

lemma isolated_create_revision:
  assumes "db_sound db"
  shows "isolated (ac_workspace_id auth) (create_policy_revision E load auth i document) db"
proof -
  let ?w = "ac_workspace_id auth" and ?h = "hash_canonical (ca_platform E) (JObj document)"
  note ok = db_soundD [OF assms]
  show ?thesis
  proof (cases "get_owned po_id po_workspace_id ?w i (ap_policies db)")
    case None
    with ok show ?thesis by (auto simp: create_policy_revision_def intro!: isolated_refusal)
  next
    case (Some policy)
    then have p: "policy \<in> set (ap_policies db)" "po_workspace_id policy = ?w" using get_owned_Some by fastforce+
    have link: "r \<in> set (ap_revisions db) \<Longrightarrow> rv_policy_id r = po_id policy \<Longrightarrow> rv_workspace_id r = ?w" for r
      using links_of(5) [OF ok(2) p(1)] p(2) by auto
    have latest: "latest_revision (owned rv_workspace_id ?w (ap_revisions db)) (po_id policy) = latest_revision (ap_revisions db) (po_id policy)"
      using link by (rule latest_revision_view)
    define n where "n = (case latest_revision (ap_revisions db) (po_id policy) of None \<Rightarrow> 1 | Some r \<Rightarrow> rv_revision_number r + 1)"
    define known where "known = (case latest_revision (ap_revisions db) (po_id policy) of None \<Rightarrow> False | Some r \<Rightarrow> rv_config_hash r = ?h)"
    let ?Q = "\<lambda>x. rv_policy_id x = po_id policy \<and> rv_revision_number x = n \<or> rv_workspace_id x = ?w \<and> rv_config_hash x = ?h"
    have dup: "list_ex ?Q (owned rv_workspace_id ?w (ap_revisions db)) = list_ex ?Q (ap_revisions db)"
      by (rule list_ex_owned) (use link in auto)
    have out: "policy_out_of seen policy = policy_out_of db policy" if "ap_revisions seen = owned rv_workspace_id ?w (ap_revisions db)" for seen
      using that link by (intro policy_out_view [where w = ?w]) auto
    note steps = create_policy_revision_def add_revision_def Let_def Some ok(1) n_def [symmetric] known_def [symmetric] latest
    show ?thesis
    proof (cases "load document = None \<or> known \<or> list_ex ?Q (ap_revisions db)")
      case True
      then show ?thesis by (auto simp: steps dup out isolated_def)
    next
      case False
      let ?r = "\<lparr>rv_id = ca_new_id E, rv_workspace_id = ?w, rv_policy_id = po_id policy, rv_revision_number = n, rv_config_hash = ?h,
        rv_rules_json = document\<rparr>"
      let ?new = "db\<lparr>ap_revisions := ap_revisions db @ [?r]\<rparr>"
      have out': "policy_out_of seen policy = policy_out_of ?new policy" if "ap_revisions seen = owned rv_workspace_id ?w (ap_revisions ?new)" for seen
        using that by (intro policy_out_view [where w = ?w]) (use link in auto)
      from False obtain doc where "load document = Some doc" "\<not> known" "\<not> list_ex ?Q (ap_revisions db)" by auto
      then show ?thesis
        by (intro isolated_commit, simp add: steps, simp add: steps dup out') simp_all
    qed
  qed
qed

lemma isolated_create_reconciliation:
  assumes "db_sound db" "fresh_ids E db"
  shows "isolated (ac_workspace_id auth) (create_reconciliation E auth payload) db"
proof -
  let ?w = "ac_workspace_id auth" and ?i = "ca_new_id E"
  note ok = db_soundD [OF assms(1)]
  have revision: "revision_for auth (nc_policy_id payload) seen = revision_for auth (nc_policy_id payload) db"
    if "ap_policies seen = owned po_workspace_id ?w (ap_policies db)" "ap_revisions seen = owned rv_workspace_id ?w (ap_revisions db)" for seen
  proof -
    have "latest_revision (owned rv_workspace_id ?w (ap_revisions db)) (po_id p) = latest_revision (ap_revisions db) (po_id p)"
      if "get_owned po_id po_workspace_id ?w i (ap_policies db) = Some p" for i p
      by (rule latest_revision_view) (use get_owned_Some [OF that] links_of(5) [OF ok(2)] in auto)
    with ok(1) that show ?thesis by (auto simp: revision_for_def split: option.splits)
  qed
  show ?thesis
  proof (cases "get_owned mr_id mr_workspace_id ?w (nc_manifest_id payload) (ap_manifests db)")
    case None
    with ok show ?thesis by (auto simp: create_reconciliation_def intro!: isolated_refusal)
  next
    case (Some manifest)
    note manifest = Some
    show ?thesis
    proof (cases "get_owned sn_id sn_workspace_id ?w (nc_snapshot_id payload) (ap_snapshots db)")
      case None
      with manifest ok show ?thesis by (auto simp: create_reconciliation_def intro!: isolated_refusal)
    next
      case (Some snapshot)
      show ?thesis
      proof (cases "revision_for auth (nc_policy_id payload) db")
        case (Inl p)
        with manifest Some ok show ?thesis by (auto simp: create_reconciliation_def revision isolated_def)
      next
        case (Inr revision_id)
        let ?n = "\<lparr>rn_id = ?i, rn_workspace_id = ?w, rn_manifest_id = mr_id manifest, rn_snapshot_id = sn_id snapshot,
          rn_policy_revision_id = revision_id, rn_state = RunPending, rn_summary = None\<rparr>"
        obtain j table where e: "enqueue_for E auth ''reconciliation'' [(py ''reconciliation_id'', JStr ?i)] ''reconciliation'' ?i (ap_jobs db) = (j, table)"
          by (cases "enqueue_for E auth ''reconciliation'' [(py ''reconciliation_id'', JStr ?i)] ''reconciliation'' ?i (ap_jobs db)")
        note e' = enqueue_view [OF e]
        let ?new = "db\<lparr>ap_reconciliations := ap_reconciliations db @ [?n], ap_jobs := ap_jobs db @ [j]\<rparr>"
        have within: "jobs_within ''reconciliation'' ?i ?w (ap_jobs db @ [j])"
          using fresh_idsD(3) [OF assms(2)] e' by (auto simp: jobs_within_def)
        have out: "reconciliation_out_of seen ?n = reconciliation_out_of ?new ?n"
          if "ap_findings seen = owned fr_workspace_id ?w (ap_findings ?new)" "ap_jobs seen = owned jb_workspace_id ?w (ap_jobs ?new)" for seen
          using that by (intro reconciliation_out_view [where w = ?w]) (use within fresh_idsD(2) [OF assms(2)] in auto)
        show ?thesis
        proof (cases "sn_artifact_ref snapshot")
          case None
          with manifest Some ok show ?thesis by (auto simp: create_reconciliation_def intro!: isolated_refusal)
        next
          case ready: (Some a)
          with manifest Some Inr ok e show ?thesis
            by (intro isolated_commit, simp add: create_reconciliation_def Let_def,
                simp add: create_reconciliation_def Let_def e' revision out) (simp_all add: e')
        qed
      qed
    qed
  qed
qed

section \<open>Calls that read\<close>

lemma filter_within: "(\<And>x. x \<in> set xs \<Longrightarrow> P x \<Longrightarrow> f x = w) \<Longrightarrow> filter P (owned f w xs) = filter P xs"
  by (rule filter_owned)

lemma builds_view:
  assumes "db_sound db"
  shows "list_builds auth (view (ac_workspace_id auth) db) = list_builds auth db"
    and "get_build auth i (view (ac_workspace_id auth) db) = get_build auth i db"
proof -
  let ?w = "ac_workspace_id auth"
  note ok = db_soundD [OF assms]
  have out: "build_out_of (view ?w db) b = build_out_of db b" if "b \<in> set (ap_builds db)" "bu_workspace_id b = ?w" for b
    by (rule build_out_view) (use links_of(1) [OF ok(2) that(1)] that(2) in auto)
  show "list_builds auth (view ?w db) = list_builds auth db"
    using out by (auto simp: list_builds_def) (auto simp: owned_def)
  show "get_build auth i (view ?w db) = get_build auth i db"
    using ok(1) out get_owned_Some by (fastforce simp: get_build_def split: option.splits)
qed

lemma reconciliations_view:
  assumes "db_sound db"
  shows "list_reconciliations auth (view (ac_workspace_id auth) db) = list_reconciliations auth db"
    and "get_reconciliation auth i (view (ac_workspace_id auth) db) = get_reconciliation auth i db"
    and "get_lineage_findings auth i k (view (ac_workspace_id auth) db) = get_lineage_findings auth i k db"
    and "list_findings auth i n o1 sev c (view (ac_workspace_id auth) db) = list_findings auth i n o1 sev c db"
proof -
  let ?w = "ac_workspace_id auth"
  note ok = db_soundD [OF assms]
  have out: "reconciliation_out_of (view ?w db) r = reconciliation_out_of db r"
    and findings: "findings_of (rn_id r) (view ?w db) = findings_of (rn_id r) db"
    if "r \<in> set (ap_reconciliations db)" "rn_workspace_id r = ?w" for r
  proof -
    show "reconciliation_out_of (view ?w db) r = reconciliation_out_of db r"
      by (rule reconciliation_out_view) (use links_of(2,4) [OF ok(2) that(1)] that(2) in auto)
    show "findings_of (rn_id r) (view ?w db) = findings_of (rn_id r) db"
      unfolding findings_of_def view_simps by (rule filter_owned) (use that links_of(4) [OF ok(2)] in auto)
  qed
  show "list_reconciliations auth (view ?w db) = list_reconciliations auth db"
    using out by (auto simp: list_reconciliations_def) (auto simp: owned_def)
  show "get_reconciliation auth i (view ?w db) = get_reconciliation auth i db"
    using ok(1) out get_owned_Some by (fastforce simp: get_reconciliation_def split: option.splits)
  show "get_lineage_findings auth i k (view ?w db) = get_lineage_findings auth i k db"
    using ok(1) findings get_owned_Some by (fastforce simp: get_lineage_findings_def split: option.splits)
  show "list_findings auth i n o1 sev c (view ?w db) = list_findings auth i n o1 sev c db"
    using ok(1) findings get_owned_Some by (fastforce simp: list_findings_def split: option.splits)
qed

lemma rows_view:
  assumes "db_sound db"
  shows "list_policies auth (view (ac_workspace_id auth) db) = list_policies auth db"
    and "list_snapshots auth i (view (ac_workspace_id auth) db) = list_snapshots auth i db"
    and "list_source_versions auth i (view (ac_workspace_id auth) db) = list_source_versions auth i db"
proof -
  let ?w = "ac_workspace_id auth"
  note ok = db_soundD [OF assms]
  have "policy_out_of (view ?w db) p = policy_out_of db p" if "p \<in> set (ap_policies db)" "po_workspace_id p = ?w" for p
    by (rule policy_out_view) (use that links_of(5) [OF ok(2)] in auto)
  then show "list_policies auth (view ?w db) = list_policies auth db"
    by (auto simp: list_policies_def) (auto simp: owned_def)
  have "filter (\<lambda>r. sn_target_id r = tg_id t) (owned sn_workspace_id ?w (ap_snapshots db)) = filter (\<lambda>r. sn_target_id r = tg_id t) (ap_snapshots db)"
    if "get_owned tg_id tg_workspace_id ?w i (ap_targets db) = Some t" for t
    by (rule filter_owned) (use get_owned_Some [OF that] links_of(6) [OF ok(2)] in auto)
  with ok(1) show "list_snapshots auth i (view ?w db) = list_snapshots auth i db"
    by (simp add: list_snapshots_def split: option.splits)
  have "filter (\<lambda>v. ve_source_asset_id v = as_id a) (owned ve_workspace_id ?w (ap_versions db)) = filter (\<lambda>v. ve_source_asset_id v = as_id a) (ap_versions db)"
    if "get_owned as_id as_workspace_id ?w i (ap_assets db) = Some a" for a
    by (rule filter_owned) (use get_owned_Some [OF that] links_of(7) [OF ok(2)] in auto)
  with ok(1) show "list_source_versions auth i (view ?w db) = list_source_versions auth i db"
    by (simp add: list_source_versions_def split: option.splits)
qed

lemma others_view:
  assumes "db_sound db"
  shows "list_source_collections auth (view (ac_workspace_id auth) db) = list_source_collections auth db"
    and "list_sources auth i (view (ac_workspace_id auth) db) = list_sources auth i db"
    and "list_pipeline_configs auth (view (ac_workspace_id auth) db) = list_pipeline_configs auth db"
    and "list_jobs auth n (view (ac_workspace_id auth) db) = list_jobs auth n db"
    and "get_job_route auth k (view (ac_workspace_id auth) db) = get_job_route auth k db"
    and "list_manifests auth (view (ac_workspace_id auth) db) = list_manifests auth db"
    and "get_manifest auth k (view (ac_workspace_id auth) db) = get_manifest auth k db"
    and "get_snapshot auth k (view (ac_workspace_id auth) db) = get_snapshot auth k db"
    and "get_workspace auth (view (ac_workspace_id auth) db) = get_workspace auth db"
    and "list_api_tokens auth (view (ac_workspace_id auth) db) = list_api_tokens auth db"
  using db_soundD(1) [OF assms]
  by (simp_all add: list_source_collections_def list_sources_def list_pipeline_configs_def list_jobs_def get_job_route_def
      list_manifests_def get_manifest_def get_snapshot_def get_workspace_def find_workspace_def list_api_tokens_def find_owned)

section \<open>Every call\<close>

lemma serve_isolated:
  assumes "db_sound db" "fresh_ids (sv_call V) db" "fresh_selector (sv_settings V) (sv_entropy V) db"
  shows "isolated (ac_workspace_id auth) (serve V auth call) db"
  using assms
  by (cases call)
    (auto simp: serve_def [abs_def] Let_def builds_view reconciliations_view rows_view others_view
      intro!: isolated_reading isolated_answering isolated_create_collection isolated_scan isolated_create_config isolated_create_build
        isolated_cancel_build isolated_create_policy isolated_create_revision isolated_create_reconciliation
        isolated_cancel_reconciliation isolated_create_snapshot isolated_cancel_snapshot isolated_update_workspace
        isolated_create_token isolated_revoke_token)

end
