(* ===== verification/Api_Sound.thy ===== *)
theory Api_Sound
  imports Tenancy
begin

text \<open>
  Every call keeps the tables sound: ids stay unique, and a row still refers to rows of its own
  workspace. With that the isolation of workspaces holds along every history of calls.
\<close>

section \<open>New rows\<close>

lemma sound_audit [simp]: "db_sound (db\<lparr>ap_audit := events\<rparr>) = db_sound db"
  by (simp add: db_sound_def ids_ok_def links_ok_def)

lemma sound_commit:
  assumes "db_sound old" "db_sound new"
  shows "db_sound (snd (commit_with event r old new))"
  using assms by (auto simp: commit_with_def record_event_def split: sum.splits)

lemma sound_add_collection:
  assumes "db_sound db" "co_id row \<notin> co_id ` set (ap_collections db)"
  shows "db_sound (db\<lparr>ap_collections := ap_collections db @ [row]\<rparr>)"
  using assms by (auto simp: db_sound_def ids_ok_def links_ok_def)

lemma sound_add_config:
  assumes "db_sound db" "cf_id row \<notin> cf_id ` set (ap_configs db)"
  shows "db_sound (db\<lparr>ap_configs := ap_configs db @ [row]\<rparr>)"
  using assms by (auto simp: db_sound_def ids_ok_def links_ok_def)

lemma sound_add_token:
  assumes "db_sound db" "at_id row \<notin> at_id ` set (ap_tokens db)"
  shows "db_sound (db\<lparr>ap_tokens := ap_tokens db @ [row]\<rparr>)"
  using assms by (auto simp: db_sound_def ids_ok_def links_ok_def)

lemma sound_add_build:
  assumes "db_sound db" "bu_id row \<notin> bu_id ` set (ap_builds db)" "\<And>j. j \<in> set (ap_jobs db) \<Longrightarrow> jb_related_entity_id j \<noteq> Some (bu_id row)"
  shows "db_sound (db\<lparr>ap_builds := ap_builds db @ [row]\<rparr>)"
  using assms by (auto simp: db_sound_def ids_ok_def links_ok_def)

lemma sound_add_policy:
  assumes "db_sound db" "po_id row \<notin> po_id ` set (ap_policies db)" "\<And>r. r \<in> set (ap_revisions db) \<Longrightarrow> rv_policy_id r \<noteq> po_id row"
  shows "db_sound (db\<lparr>ap_policies := ap_policies db @ [row]\<rparr>)"
  using assms by (auto simp: db_sound_def ids_ok_def links_ok_def)

lemma sound_add_reconciliation:
  assumes "db_sound db" "rn_id row \<notin> rn_id ` set (ap_reconciliations db)"
    "\<And>j. j \<in> set (ap_jobs db) \<Longrightarrow> jb_related_entity_id j \<noteq> Some (rn_id row)"
    "\<And>f. f \<in> set (ap_findings db) \<Longrightarrow> fr_reconciliation_id f \<noteq> rn_id row"
  shows "db_sound (db\<lparr>ap_reconciliations := ap_reconciliations db @ [row]\<rparr>)"
  using assms by (auto simp: db_sound_def ids_ok_def links_ok_def)

lemma distinct_same: "distinct (map f xs) \<Longrightarrow> x \<in> set xs \<Longrightarrow> y \<in> set xs \<Longrightarrow> f x = f y \<Longrightarrow> x = y"
  by (auto simp: distinct_map inj_on_def)

lemma sound_add_revision:
  assumes "db_sound db" "p \<in> set (ap_policies db)" "rv_policy_id row = po_id p" "rv_workspace_id row = po_workspace_id p"
  shows "db_sound (db\<lparr>ap_revisions := ap_revisions db @ [row]\<rparr>)"
proof -
  have "q = p" if "q \<in> set (ap_policies db)" "po_id q = po_id p" for q
    using assms(1,2) that by (intro distinct_same [of po_id "ap_policies db"]) (auto simp: db_sound_def ids_ok_def)
  then have "\<forall>q \<in> set (ap_policies db). rv_policy_id row = po_id q \<longrightarrow> rv_workspace_id row = po_workspace_id q"
    using assms(3,4) by auto
  then show ?thesis using assms(1) by (simp add: db_sound_def ids_ok_def links_ok_def)
qed

lemma sound_add_snapshot:
  assumes "db_sound db" "sn_id row \<notin> sn_id ` set (ap_snapshots db)" "\<And>j. j \<in> set (ap_jobs db) \<Longrightarrow> jb_related_entity_id j \<noteq> Some (sn_id row)"
    "t \<in> set (ap_targets db)" "sn_target_id row = tg_id t" "sn_workspace_id row = tg_workspace_id t"
  shows "db_sound (db\<lparr>ap_snapshots := ap_snapshots db @ [row]\<rparr>)"
proof -
  have "q = t" if "q \<in> set (ap_targets db)" "tg_id q = tg_id t" for q
    using assms(1,4) that by (intro distinct_same [of tg_id "ap_targets db"]) (auto simp: db_sound_def ids_ok_def)
  then have "\<forall>q \<in> set (ap_targets db). sn_target_id row = tg_id q \<longrightarrow> sn_workspace_id row = tg_workspace_id q"
    using assms(5,6) by auto
  then show ?thesis using assms(1-3) by (simp add: db_sound_def ids_ok_def links_ok_def)
qed

text \<open>A job for an entity of its workspace.\<close>

lemma sound_enqueue:
  assumes "db_sound db" "jb_id j \<notin> jb_id ` set (ap_jobs db)"
    "\<And>b. b \<in> set (ap_builds db) \<Longrightarrow> jb_related_entity_id j = Some (bu_id b) \<Longrightarrow> bu_workspace_id b = jb_workspace_id j"
    "\<And>n. n \<in> set (ap_reconciliations db) \<Longrightarrow> jb_related_entity_id j = Some (rn_id n) \<Longrightarrow> rn_workspace_id n = jb_workspace_id j"
    "\<And>s. s \<in> set (ap_snapshots db) \<Longrightarrow> jb_related_entity_id j = Some (sn_id s) \<Longrightarrow> sn_workspace_id s = jb_workspace_id j"
  shows "db_sound (db\<lparr>ap_jobs := ap_jobs db @ [j]\<rparr>)"
  using assms by (auto simp: db_sound_def ids_ok_def links_ok_def)

section \<open>Rows that change\<close>

lemma put_row_ids [simp]: "map id_of (put_row id_of row table) = map id_of table"
  by (induction table) (auto simp: put_row_def)

lemma put_row_elem:
  assumes "x \<in> set (put_row id_of row table)"
  shows "x \<in> set table \<or> x = row"
  using assms by (auto simp: put_row_def split: if_splits)

lemma sound_put_workspace: "db_sound db \<Longrightarrow> db_sound (db\<lparr>ap_workspaces := put_row wo_id row (ap_workspaces db)\<rparr>)"
  by (simp add: db_sound_def ids_ok_def links_ok_def)

lemma sound_put_token: "db_sound db \<Longrightarrow> db_sound (db\<lparr>ap_tokens := put_row at_id row (ap_tokens db)\<rparr>)"
  by (simp add: db_sound_def ids_ok_def links_ok_def)

lemma sound_put_build:
  assumes "db_sound db" "b \<in> set (ap_builds db)" "bu_id row = bu_id b" "bu_workspace_id row = bu_workspace_id b"
  shows "db_sound (db\<lparr>ap_builds := put_row bu_id row (ap_builds db)\<rparr>)"
  using assms by (auto simp: db_sound_def ids_ok_def links_ok_def dest!: put_row_elem)

lemma sound_put_reconciliation:
  assumes "db_sound db" "b \<in> set (ap_reconciliations db)" "rn_id row = rn_id b" "rn_workspace_id row = rn_workspace_id b"
  shows "db_sound (db\<lparr>ap_reconciliations := put_row rn_id row (ap_reconciliations db)\<rparr>)"
  using assms by (auto simp: db_sound_def ids_ok_def links_ok_def dest!: put_row_elem)

lemma sound_put_snapshot:
  assumes "db_sound db" "b \<in> set (ap_snapshots db)" "sn_id row = sn_id b" "sn_workspace_id row = sn_workspace_id b"
    "sn_target_id row = sn_target_id b"
  shows "db_sound (db\<lparr>ap_snapshots := put_row sn_id row (ap_snapshots db)\<rparr>)"
  using assms by (auto simp: db_sound_def ids_ok_def links_ok_def dest!: put_row_elem)

lemma sound_cancel:
  assumes "db_sound db" "cancel_entity_job now ty i (ap_jobs db) = Inr (out, table)"
  shows "db_sound (db\<lparr>ap_jobs := table\<rparr>)"
proof -
  have ids: "map jb_id table = map jb_id (ap_jobs db)"
    using assms(2) by (auto simp: cancel_entity_job_def split: option.splits prod.splits cancel_outcome.splits)
  have within: "jobs_within ty' i' w table" if "jobs_within ty' i' w (ap_jobs db)" for ty' i' w
    unfolding jobs_within_def
  proof (intro ballI impI)
    fix j assume "j \<in> set table" "jb_related_entity_type j = Some (py ty') \<and> jb_related_entity_id j = Some i'"
    with cancel_keeps [OF assms(2), of j] jobs_withinD [OF that] show "jb_workspace_id j = w" by metis
  qed
  show ?thesis
    using assms(1) ids within unfolding db_sound_def ids_ok_def links_ok_def jobs_within_def [symmetric] by simp
qed

section \<open>The calls\<close>

lemma fresh_new_id:
  assumes "fresh_ids E db"
  shows "ca_new_id E \<notin> at_id ` set (ap_tokens db)" "ca_new_id E \<notin> co_id ` set (ap_collections db)"
    "ca_new_id E \<notin> cf_id ` set (ap_configs db)" "ca_new_id E \<notin> bu_id ` set (ap_builds db)" "ca_new_id E \<notin> sn_id ` set (ap_snapshots db)"
    "ca_new_id E \<notin> po_id ` set (ap_policies db)" "ca_new_id E \<notin> rn_id ` set (ap_reconciliations db)"
    "ca_job_id E \<notin> jb_id ` set (ap_jobs db)"
  using assms by (auto simp: fresh_ids_def Let_def)

lemma enqueue_job_row:
  assumes "enqueue_for E auth ty payload ety i table = (j, table')"
  shows "table' = table @ [j]" "jb_id j = ca_job_id E" "jb_workspace_id j = ac_workspace_id auth" "jb_related_entity_id j = Some i"
  using assms by (auto simp: enqueue_for_def enqueue_job_def Let_def)

lemma sound_create_collection:
  "db_sound db \<Longrightarrow> fresh_ids E db \<Longrightarrow> db_sound (snd (create_source_collection E R S auth payload db))"
  by (auto simp: create_source_collection_def Let_def dest: fresh_new_id intro!: sound_commit sound_add_collection)

lemma sound_create_config:
  "db_sound db \<Longrightarrow> fresh_ids E db \<Longrightarrow> db_sound (snd (create_pipeline_config E auth d db))"
  by (auto simp: create_pipeline_config_def Let_def dest: fresh_new_id intro!: sound_commit sound_add_config split: option.splits)

lemma sound_create_token:
  "db_sound db \<Longrightarrow> fresh_ids E db \<Longrightarrow> db_sound (snd (create_api_token E S R auth name scopes t db))"
  by (auto simp: create_api_token_def Let_def row_of_def dest: fresh_new_id intro!: sound_commit sound_add_token)

lemma sound_revoke_token: "db_sound db \<Longrightarrow> db_sound (snd (revoke_api_token E auth i db))"
  by (auto simp: revoke_api_token_def intro!: sound_commit sound_put_token split: option.splits)

lemma sound_update_workspace: "db_sound db \<Longrightarrow> db_sound (snd (update_workspace E auth name db))"
  by (auto simp: update_workspace_def Let_def intro!: sound_commit sound_put_workspace split: option.splits)

lemma sound_create_policy:
  assumes "db_sound db" "fresh_ids E db"
  shows "db_sound (snd (create_policy E load auth name document db))"
proof -
  let ?p = "\<lparr>po_id = ca_new_id E, po_workspace_id = ac_workspace_id auth, po_name = name\<rparr>"
  have "db_sound (db\<lparr>ap_policies := ap_policies db @ [?p]\<rparr>)"
    using assms fresh_new_id(6) [OF assms(2)] fresh_idsD(1) [OF assms(2)] by (intro sound_add_policy) auto
  from sound_add_revision [OF this, of ?p] assms show ?thesis
    by (auto simp: create_policy_def add_revision_def Let_def intro!: sound_commit split: option.splits)
qed

lemma sound_create_revision:
  assumes "db_sound db"
  shows "db_sound (snd (create_policy_revision E load auth i document db))"
proof (cases "get_owned po_id po_workspace_id (ac_workspace_id auth) i (ap_policies db)")
  case (Some p)
  from sound_add_revision [OF assms, of p] get_owned_Some [OF Some] assms Some show ?thesis
    by (auto simp: create_policy_revision_def add_revision_def Let_def intro!: sound_commit split: option.splits)
qed (use assms in \<open>simp add: create_policy_revision_def\<close>)

text \<open>The new entity is put in first, then its job.\<close>

lemma sound_create_build:
  assumes "db_sound db" "fresh_ids E db"
  shows "db_sound (snd (create_build E auth payload db))"
proof -
  have new: "db_sound (db\<lparr>ap_builds := ap_builds db @ [b], ap_jobs := table\<rparr>)"
    if "enqueue_for E auth ty p ety (ca_new_id E) (ap_jobs db) = (j, table)" "bu_id b = ca_new_id E" "bu_workspace_id b = ac_workspace_id auth"
    for ty p ety j table b
  proof -
    have "db_sound (db\<lparr>ap_builds := ap_builds db @ [b]\<rparr>)"
      using assms fresh_new_id(4) [OF assms(2)] fresh_idsD(3) [OF assms(2)] that(2) by (intro sound_add_build) auto
    then have "db_sound (db\<lparr>ap_builds := ap_builds db @ [b], ap_jobs := ap_jobs (db\<lparr>ap_builds := ap_builds db @ [b]\<rparr>) @ [j]\<rparr>)"
      by (rule sound_enqueue) (use enqueue_job_row [OF that(1)] fresh_new_id [OF assms(2)] that(2,3) in \<open>auto simp: image_iff\<close>)
    then show ?thesis by (simp add: enqueue_job_row(1) [OF that(1)])
  qed
  from assms(1) show ?thesis
    by (auto simp: create_build_def Let_def intro!: sound_commit new split: option.splits prod.splits)
qed

lemma sound_create_snapshot:
  assumes "db_sound db" "fresh_ids E db"
  shows "db_sound (snd (create_snapshot E auth i db))"
proof -
  have new: "db_sound (db\<lparr>ap_snapshots := ap_snapshots db @ [s], ap_jobs := table\<rparr>)"
    if "enqueue_for E auth ty p ety (ca_new_id E) (ap_jobs db) = (j, table)" "sn_id s = ca_new_id E" "sn_workspace_id s = ac_workspace_id auth"
      "get_owned tg_id tg_workspace_id (ac_workspace_id auth) i (ap_targets db) = Some t" "sn_target_id s = tg_id t"
    for ty p ety j table s t
  proof -
    have "db_sound (db\<lparr>ap_snapshots := ap_snapshots db @ [s]\<rparr>)"
      using assms fresh_new_id(5) [OF assms(2)] fresh_idsD(3) [OF assms(2)] that(2,3,5) get_owned_Some [OF that(4)]
      by (intro sound_add_snapshot [where t = t]) auto
    then have "db_sound (db\<lparr>ap_snapshots := ap_snapshots db @ [s], ap_jobs := ap_jobs (db\<lparr>ap_snapshots := ap_snapshots db @ [s]\<rparr>) @ [j]\<rparr>)"
      by (rule sound_enqueue) (use enqueue_job_row [OF that(1)] fresh_new_id [OF assms(2)] that(2,3) in \<open>auto simp: image_iff\<close>)
    then show ?thesis by (simp add: enqueue_job_row(1) [OF that(1)])
  qed
  from assms(1) show ?thesis
    by (auto simp: create_snapshot_def Let_def intro!: sound_commit new split: option.splits prod.splits)
qed

lemma sound_create_reconciliation:
  assumes "db_sound db" "fresh_ids E db"
  shows "db_sound (snd (create_reconciliation E auth payload db))"
proof -
  have new: "db_sound (db\<lparr>ap_reconciliations := ap_reconciliations db @ [n], ap_jobs := table\<rparr>)"
    if "enqueue_for E auth ty p ety (ca_new_id E) (ap_jobs db) = (j, table)" "rn_id n = ca_new_id E" "rn_workspace_id n = ac_workspace_id auth"
    for ty p ety j table n
  proof -
    have "db_sound (db\<lparr>ap_reconciliations := ap_reconciliations db @ [n]\<rparr>)"
      using assms fresh_new_id(7) [OF assms(2)] fresh_idsD(2,3) [OF assms(2)] that(2) by (intro sound_add_reconciliation) auto
    then have "db_sound (db\<lparr>ap_reconciliations := ap_reconciliations db @ [n], ap_jobs := ap_jobs (db\<lparr>ap_reconciliations := ap_reconciliations db @ [n]\<rparr>) @ [j]\<rparr>)"
      by (rule sound_enqueue) (use enqueue_job_row [OF that(1)] fresh_new_id [OF assms(2)] that(2,3) in \<open>auto simp: image_iff\<close>)
    then show ?thesis by (simp add: enqueue_job_row(1) [OF that(1)])
  qed
  from assms(1) show ?thesis
    by (auto simp: create_reconciliation_def Let_def intro!: sound_commit new split: option.splits prod.splits sum.splits)
qed

lemma sound_scan:
  assumes "db_sound db" "fresh_ids E db"
  shows "db_sound (snd (scan_source_collection E auth i db))"
proof -
  have new: "db_sound (db\<lparr>ap_jobs := table\<rparr>)"
    if "enqueue_for E auth ty p ''source_collection'' k (ap_jobs db) = (j, table)" for ty p k j table
    using assms(1) fresh_new_id(8) [OF assms(2)] that
    by (auto simp: enqueue_for_def enqueue_job_def Let_def db_sound_def ids_ok_def links_ok_def py_def)
  from assms(1) show ?thesis
    by (auto simp: scan_source_collection_def intro!: sound_commit new split: option.splits prod.splits)
qed

lemma sound_cancel_build:
  assumes "db_sound db"
  shows "db_sound (snd (cancel_build E auth i db))"
proof -
  have new: "db_sound (db\<lparr>ap_builds := put_row bu_id b' (ap_builds db), ap_jobs := table\<rparr>)"
    if "get_owned bu_id bu_workspace_id (ac_workspace_id auth) i (ap_builds db) = Some b" "bu_id b' = bu_id b"
      "bu_workspace_id b' = bu_workspace_id b" "cancel_entity_job now ty k (ap_jobs db) = Inr (out, table)" for b b' now ty k out table
    using sound_cancel [OF sound_put_build [OF assms _ that(2,3)]] get_owned_Some [OF that(1)] that(4) by simp
  from assms show ?thesis
    by (auto simp: cancel_build_def Let_def intro!: sound_commit new split: option.splits prod.splits sum.splits)
qed

lemma sound_cancel_reconciliation:
  assumes "db_sound db"
  shows "db_sound (snd (cancel_reconciliation E auth i db))"
proof -
  have new: "db_sound (db\<lparr>ap_reconciliations := put_row rn_id b' (ap_reconciliations db), ap_jobs := table\<rparr>)"
    if "get_owned rn_id rn_workspace_id (ac_workspace_id auth) i (ap_reconciliations db) = Some b" "rn_id b' = rn_id b"
      "rn_workspace_id b' = rn_workspace_id b" "cancel_entity_job now ty k (ap_jobs db) = Inr (out, table)" for b b' now ty k out table
    using sound_cancel [OF sound_put_reconciliation [OF assms _ that(2,3)]] get_owned_Some [OF that(1)] that(4) by simp
  from assms show ?thesis
    by (auto simp: cancel_reconciliation_def Let_def intro!: sound_commit new split: option.splits prod.splits sum.splits)
qed

lemma sound_cancel_snapshot:
  assumes "db_sound db"
  shows "db_sound (snd (cancel_snapshot E auth i db))"
proof -
  have new: "db_sound (db\<lparr>ap_snapshots := put_row sn_id b' (ap_snapshots db), ap_jobs := table\<rparr>)"
    if "get_owned sn_id sn_workspace_id (ac_workspace_id auth) i (ap_snapshots db) = Some b" "sn_id b' = sn_id b"
      "sn_workspace_id b' = sn_workspace_id b" "sn_target_id b' = sn_target_id b" "cancel_entity_job now ty k (ap_jobs db) = Inr (out, table)"
    for b b' now ty k out table
    using sound_cancel [OF sound_put_snapshot [OF assms _ that(2-4)]] get_owned_Some [OF that(1)] that(5) by simp
  from assms show ?thesis
    by (auto simp: cancel_snapshot_def Let_def intro!: sound_commit new split: option.splits prod.splits sum.splits)
qed

lemma snd_answering [simp]: "snd (answering f a) = snd a"
  by (simp add: answering_def)

lemma snd_reading [simp]: "snd (reading db r) = db"
  by (simp add: reading_def)

lemma serve_sound:
  assumes "db_sound db" "fresh_ids (sv_call V) db"
  shows "db_sound (snd (serve V auth call db))"
  using assms
  by (cases call)
    (auto simp: serve_def Let_def intro: sound_create_collection sound_scan sound_create_config sound_create_build sound_cancel_build
      sound_create_policy sound_create_revision sound_create_reconciliation sound_cancel_reconciliation sound_create_snapshot
      sound_cancel_snapshot sound_update_workspace sound_create_token sound_revoke_token)

end
