(* ===== verification/Separation.thy ===== *)
theory Separation
  imports Prelude
begin

text \<open>
  Separation of the domains of a shared state, as an interface: an operation answers by what its domain
  sees and changes nothing that another domain sees. What a domain sees of a history of operations is
  then what its own operations alone would have shown.
\<close>

section \<open>Histories\<close>

primrec run_history :: "('i \<Rightarrow> 's \<Rightarrow> 'a \<times> 's) \<Rightarrow> 'i list \<Rightarrow> 's \<Rightarrow> ('i \<times> 'a) list \<times> 's" where
  "run_history step [] s = ([], s)"
| "run_history step (i # is) s =
     (case step i s of (a, s') \<Rightarrow> (case run_history step is s' of (answers, s'') \<Rightarrow> ((i, a) # answers, s'')))"

text \<open>A condition that holds whenever an operation starts.\<close>

primrec all_along :: "('i \<Rightarrow> 's \<Rightarrow> bool) \<Rightarrow> ('i \<Rightarrow> 's \<Rightarrow> 'a \<times> 's) \<Rightarrow> 'i list \<Rightarrow> 's \<Rightarrow> bool" where
  "all_along P step [] s \<longleftrightarrow> True"
| "all_along P step (i # is) s \<longleftrightarrow> P i s \<and> all_along P step is (snd (step i s))"

definition answers_to :: "('i \<Rightarrow> 'd) \<Rightarrow> 'd \<Rightarrow> ('i \<times> 'a) list \<Rightarrow> ('i \<times> 'a) list" where
  "answers_to domain d answers = filter (\<lambda>(i, a). domain i = d) answers"

lemma run_history_Cons:
  "run_history step (i # is) s =
    ((i, fst (step i s)) # fst (run_history step is (snd (step i s))), snd (run_history step is (snd (step i s))))"
  by (simp split: prod.split)

section \<open>The interface\<close>

locale separation =
  fixes step :: "'i \<Rightarrow> 's \<Rightarrow> 'a \<times> 's"
    and domain :: "'i \<Rightarrow> 'd"
    and seen_by :: "'d \<Rightarrow> 's \<Rightarrow> 's"
    and inv :: "'s \<Rightarrow> bool"
    and allowed :: "'i \<Rightarrow> 's \<Rightarrow> bool"
  assumes step_consistent:
      "inv s \<Longrightarrow> allowed i s \<Longrightarrow> step i (seen_by (domain i) s) = (fst (step i s), seen_by (domain i) (snd (step i s)))"
    and locally_respects: "inv s \<Longrightarrow> allowed i s \<Longrightarrow> d \<noteq> domain i \<Longrightarrow> seen_by d (snd (step i s)) = seen_by d s"
    and inv_step: "inv s \<Longrightarrow> allowed i s \<Longrightarrow> inv (snd (step i s))"
begin

lemma inv_history: "inv s \<Longrightarrow> all_along allowed step is s \<Longrightarrow> inv (snd (run_history step is s))"
  by (induction "is" arbitrary: s) (simp_all add: run_history_Cons inv_step del: run_history.simps(2))

lemma noninterference:
  assumes "inv s" "all_along allowed step is s"
  shows "run_history step (filter (\<lambda>i. domain i = d) is) (seen_by d s)
    = (answers_to domain d (fst (run_history step is s)), seen_by d (snd (run_history step is s)))"
  using assms
proof (induction "is" arbitrary: s)
  case (Cons i "is")
  let ?s = "snd (step i s)"
  have IH: "run_history step (filter (\<lambda>i. domain i = d) is) (seen_by d ?s)
      = (answers_to domain d (fst (run_history step is ?s)), seen_by d (snd (run_history step is ?s)))"
    using Cons by (intro Cons.IH) (auto simp: inv_step)
  show ?case
  proof (cases "domain i = d")
    case True
    then have "step i (seen_by d s) = (fst (step i s), seen_by d ?s)"
      using step_consistent [of s i] Cons.prems by simp
    with IH True show ?thesis by (simp add: run_history_Cons answers_to_def del: run_history.simps(2))
  next
    case False
    then have "seen_by d ?s = seen_by d s"
      using locally_respects [of s i d] Cons.prems by auto
    with IH False show ?thesis by (simp add: run_history_Cons answers_to_def del: run_history.simps(2))
  qed
qed (simp add: answers_to_def)

end

end
