(* ===== verification/Workspaces.thy ===== *)
theory Workspaces
  imports Api_Sound Separation
begin

text \<open>
  The calls of all clients as one history: the interface of \<open>Separation\<close> for \<open>serve\<close>, with workspaces as the
  domains and the rows of a workspace as what it sees.
\<close>

section \<open>Histories of calls\<close>

type_synonym client_call = "serve_env \<times> auth_context \<times> api_call"

definition call_step :: "client_call \<Rightarrow> api_db \<Rightarrow> api_response answer" where
  "call_step c db = (case c of (V, auth, call) \<Rightarrow> serve V auth call db)"

definition caller :: "client_call \<Rightarrow> pystr" where
  "caller c = (case c of (V, auth, call) \<Rightarrow> ac_workspace_id auth)"

text \<open>What is generated for a call is new when it is made.\<close>

definition call_fresh :: "client_call \<Rightarrow> api_db \<Rightarrow> bool" where
  "call_fresh c db \<longleftrightarrow>
     (case c of (V, auth, call) \<Rightarrow> fresh_ids (sv_call V) db \<and> fresh_selector (sv_settings V) (sv_entropy V) db)"

interpretation workspaces: separation call_step caller view db_sound call_fresh
proof unfold_locales
  fix c db
  assume "db_sound db" "call_fresh c db"
  moreover obtain V auth call where c: "c = (V, auth, call)" by (cases c)
  ultimately have iso: "isolated (caller c) (call_step c) db" and "db_sound (snd (call_step c db))"
    using serve_isolated [of db V auth call] serve_sound [of db V auth call]
    by (simp_all add: call_step_def [abs_def] caller_def call_fresh_def)
  then show "call_step c (view (caller c) db) = (fst (call_step c db), view (caller c) (snd (call_step c db)))"
    "db_sound (snd (call_step c db))"
    by (auto simp: isolated_def)
  fix w assume "w \<noteq> caller c"
  with iso show "view w (snd (call_step c db)) = view w db" by (auto simp: isolated_def)
qed

section \<open>Properties\<close>

text \<open>
  C4. Workspaces do not interfere: in every history of authorized calls, what the calls of a workspace are
  answered and the rows they leave are what they would be if no other workspace had called, and had had no rows at all. Ids
  are unique and rows refer to their own workspace at the start; generated ids and token selectors are new.
\<close>

theorem workspace_noninterference:
  assumes "db_sound db" "all_along call_fresh call_step calls db"
  shows "run_history call_step (filter (\<lambda>c. caller c = w) calls) (view w db)
    = (answers_to caller w (fst (run_history call_step calls db)), view w (snd (run_history call_step calls db)))"
  using assms by (rule workspaces.noninterference)


section \<open>A sample history\<close>

text \<open>Two workspaces with a target each; one is renamed, the other takes a snapshot, and both are listed.\<close>

definition sample_call_env :: "string \<Rightarrow> call_env" where
  "sample_call_env i =
     \<lparr>ca_platform = sample_platform, ca_new_id = py i, ca_job_id = py ''job'' @ py i, ca_now = 5, ca_request_id = None\<rparr>"

definition sample_serve_env :: "string \<Rightarrow> serve_env" where
  "sample_serve_env i =
     \<lparr>sv_call = sample_call_env i,
      sv_root = \<lparr>ro_is_dir = (\<lambda>p. False), ro_resolve = (\<lambda>p. []), ro_tree = (\<lambda>p. \<lparr>st_root_files = (\<lambda>n. None), st_entries = []\<rparr>)\<rparr>,
      sv_settings = sample_settings, sv_entropy = \<lparr>te_selector = [1], te_secret = [2], te_salt = [3]\<rparr>, sv_load_policy = (\<lambda>d. None)\<rparr>"

definition sample_auth :: "string \<Rightarrow> auth_context" where
  "sample_auth w = \<lparr>ac_token_id = py ''token'' @ py w, ac_workspace_id = py w, ac_scopes = [py ''admin'']\<rparr>"

definition sample_calls :: "client_call list" where
  "sample_calls =
     [(sample_serve_env ''1'', sample_auth ''a'', UpdateWorkspace (py ''renamed'')),
      (sample_serve_env ''2'', sample_auth ''b'', ListSnapshots (py ''tb'')),
      (sample_serve_env ''3'', sample_auth ''a'', GetWorkspace),
      (sample_serve_env ''4'', sample_auth ''b'', CreateSnapshot (py ''tb''))]"

definition sample_api_db :: api_db where
  "sample_api_db =
     \<lparr>ap_workspaces = [\<lparr>wo_id = py ''a'', wo_slug = py ''aaa'', wo_name = py ''A''\<rparr>, \<lparr>wo_id = py ''b'', wo_slug = py ''bbb'', wo_name = py ''B''\<rparr>],
      ap_users = [], ap_memberships = [], ap_tokens = [], ap_collections = [], ap_assets = [], ap_versions = [], ap_configs = [],
      ap_builds = [], ap_manifests = [],
      ap_targets = [(sample_target QdrantTarget [])\<lparr>tg_id := py ''ta'', tg_workspace_id := py ''a''\<rparr>,
        (sample_target QdrantTarget [])\<lparr>tg_id := py ''tb'', tg_workspace_id := py ''b''\<rparr>],
      ap_snapshots = [], ap_policies = [], ap_revisions = [], ap_reconciliations = [], ap_findings = [], ap_evaluations = [],
      ap_jobs = [], ap_audit = []\<rparr>"

lemma sample_api_sound: "db_sound sample_api_db"
  by (simp add: db_sound_def ids_ok_def links_ok_def sample_api_db_def py_def)

lemma fresh_renamed [simp]:
  "fresh_ids E' (snd (update_workspace E auth name db)) = fresh_ids E' db"
  "fresh_selector S R (snd (update_workspace E auth name db)) = fresh_selector S R db"
  by (auto simp: update_workspace_def Let_def commit_with_def fresh_ids_def fresh_selector_def split: option.splits sum.splits prod.splits)

lemma sample_calls_fresh: "all_along call_fresh call_step sample_calls sample_api_db"
  by (simp add: sample_calls_def call_step_def call_fresh_def serve_def sample_serve_env_def)
    (simp add: fresh_ids_def fresh_selector_def sample_api_db_def)

theorem workspace_noninterference_witness:
  "run_history call_step (filter (\<lambda>c. caller c = py ''a'') sample_calls) (view (py ''a'') sample_api_db)
    = (answers_to caller (py ''a'') (fst (run_history call_step sample_calls sample_api_db)),
       view (py ''a'') (snd (run_history call_step sample_calls sample_api_db)))"
  by (rule workspace_noninterference [OF sample_api_sound sample_calls_fresh])


end
