(* ===== verification/Requests.thy ===== *)
theory Requests
  imports Workspaces Acl
begin

text \<open>
  A request from its header to its transaction: the dependencies of \<open>ragledger.server.api.deps\<close> in front of the calls,
  with the scope that each route declares.
\<close>

section \<open>Requests\<close>

text \<open>The scope of the route; reading its own workspace needs none.\<close>

definition call_scope :: "api_call \<Rightarrow> string option" where
  "call_scope call =
     (case call of
        ListCollections \<Rightarrow> Some ''sources'' | CreateCollection _ \<Rightarrow> Some ''sources'' | ScanCollection _ \<Rightarrow> Some ''sources''
      | ListSources _ \<Rightarrow> Some ''sources'' | ListVersions _ \<Rightarrow> Some ''sources''
      | ListConfigs \<Rightarrow> Some ''builds'' | CreateConfig _ \<Rightarrow> Some ''builds'' | ListBuilds \<Rightarrow> Some ''builds'' | CreateBuild _ \<Rightarrow> Some ''builds''
      | GetBuild _ \<Rightarrow> Some ''builds'' | CancelBuild _ \<Rightarrow> Some ''builds'' | ListJobs _ \<Rightarrow> Some ''builds'' | GetJob _ \<Rightarrow> Some ''builds''
      | ListPolicies \<Rightarrow> Some ''policies'' | CreatePolicy _ _ \<Rightarrow> Some ''policies'' | CreateRevision _ _ \<Rightarrow> Some ''policies''
      | ListReconciliations \<Rightarrow> Some ''reconciliations'' | CreateReconciliation _ \<Rightarrow> Some ''reconciliations''
      | GetReconciliation _ \<Rightarrow> Some ''reconciliations'' | CancelReconciliation _ \<Rightarrow> Some ''reconciliations''
      | GetLineage _ _ \<Rightarrow> Some ''reconciliations'' | ListFindings _ _ _ _ _ \<Rightarrow> Some ''reconciliations''
      | ListManifests \<Rightarrow> Some ''builds'' | GetManifest _ \<Rightarrow> Some ''builds''
      | ListSnapshots _ \<Rightarrow> Some ''snapshots'' | CreateSnapshot _ \<Rightarrow> Some ''snapshots'' | GetSnapshot _ \<Rightarrow> Some ''snapshots''
      | CancelSnapshot _ \<Rightarrow> Some ''snapshots''
      | GetWorkspace \<Rightarrow> None
      | UpdateWorkspace _ \<Rightarrow> Some ''admin'' | ListTokens \<Rightarrow> Some ''admin'' | CreateToken _ _ _ \<Rightarrow> Some ''admin'' | RevokeToken _ \<Rightarrow> Some ''admin'')"

record request =
  rt_workspace_id :: pystr
  rt_header :: pystr
  rt_now :: int
  rt_now' :: int
  rt_call :: api_call

definition admit :: "unicode_db \<Rightarrow> request \<Rightarrow> api_token list \<Rightarrow> (access_error + auth_context) \<times> api_token list" where
  "admit U q rows =
     (case call_scope (rt_call q) of
        Some scope \<Rightarrow> authorize U (rt_now q) (rt_now' q) (rt_workspace_id q) scope (rt_header q) rows
      | None \<Rightarrow>
          (case authenticate U (rt_now q) (rt_now' q) (rt_header q) rows of
             (r, rows') \<Rightarrow> (andThen r (require_workspace (rt_workspace_id q)), rows')))"

text \<open>The use of the token is committed before the call runs.\<close>

definition handle_request ::
  "unicode_db \<Rightarrow> serve_env \<Rightarrow> request \<Rightarrow> api_db \<Rightarrow> (access_error + api_problem + api_response) \<times> api_db" where
  "handle_request U V q db =
     (case admit U q (ap_tokens db) of
        (Inl e, rows) \<Rightarrow> (Inl e, db\<lparr>ap_tokens := rows\<rparr>)
      | (Inr auth, rows) \<Rightarrow>
          (case serve V auth (rt_call q) (db\<lparr>ap_tokens := rows\<rparr>) of (answer, db') \<Rightarrow> (Inr answer, db')))"

section \<open>What admission leaves\<close>

definition clear_use :: "api_token \<Rightarrow> api_token" where
  "clear_use t = t\<lparr>at_last_used_at := None\<rparr>"

definition without_use :: "api_db \<Rightarrow> api_db" where
  "without_use db = db\<lparr>ap_tokens := map clear_use (ap_tokens db)\<rparr>"

lemma clear_use_simps [simp]:
  "at_id (clear_use t) = at_id t" "at_selector (clear_use t) = at_selector t" "at_workspace_id (clear_use t) = at_workspace_id t"
  "clear_use (t\<lparr>at_last_used_at := n\<rparr>) = clear_use t"
  by (simp_all add: clear_use_def)

lemma admit_rows: "map clear_use (snd (admit U q rows)) = map clear_use rows"
proof -
  have "map clear_use (snd (authenticate U n n' h rows)) = map clear_use rows" for n n' h
    by (auto simp: authenticate_def Let_def comp_def split: prod.split option.split list.split if_split)
  then show ?thesis
    by (simp add: admit_def authorize_def split: option.split prod.split) (metis snd_conv)
qed

lemma same_rows:
  assumes "map clear_use rows' = map clear_use rows"
  shows "map at_id rows' = map at_id rows" "map at_selector rows' = map at_selector rows"
proof -
  have "map f rows' = map f rows" if "\<And>t. f (clear_use t) = f t" for f :: "api_token \<Rightarrow> pystr"
    using arg_cong [OF assms, of "map f"] that by (simp add: comp_def)
  then show "map at_id rows' = map at_id rows" "map at_selector rows' = map at_selector rows" by simp_all
qed

lemma view_without_use: "view w (without_use db) = without_use (view w db)"
  by (simp add: without_use_def view_def owned_def filter_map comp_def)

lemma admit_accepts:
  assumes "fst (admit U q rows) = Inr auth"
  obtains row where "presents_token U (rt_now q) (rt_header q) rows row" "at_workspace_id row = rt_workspace_id q"
    "case call_scope (rt_call q) of None \<Rightarrow> True | Some s \<Rightarrow> py s \<in> set (at_scopes row) \<or> py ''admin'' \<in> set (at_scopes row)"
    "auth = context_of row"
proof (cases "call_scope (rt_call q)")
  case None
  then have "fst (authenticate U (rt_now q) (rt_now' q) (rt_header q) rows) = Inr auth" "ac_workspace_id auth = rt_workspace_id q"
    using assms by (auto simp: admit_def require_workspace_def andThen_Inr_iff split: prod.splits if_splits)
  then show ?thesis using that None by (auto simp: authenticate_accepts context_of_def)
next
  case (Some s)
  then show ?thesis using assms that by (auto simp: admit_def authorize_accepts)
qed

lemma presented_row: "presents_token U now header rows row \<Longrightarrow> row \<in> set rows"
  unfolding presents_token_def by (metis filter_is_subset list.set_intros(1) subsetD)

lemma fresh_used:
  assumes "map clear_use rows = map clear_use (ap_tokens db)"
  shows "db_sound (db\<lparr>ap_tokens := rows\<rparr>) = db_sound db" "fresh_ids E (db\<lparr>ap_tokens := rows\<rparr>) = fresh_ids E db"
    "fresh_selector S R (db\<lparr>ap_tokens := rows\<rparr>) = fresh_selector S R db"
    "without_use (db\<lparr>ap_tokens := rows\<rparr>) = without_use db"
  using same_rows [OF assms] assms
  by (simp_all add: db_sound_def ids_ok_def links_ok_def fresh_ids_def fresh_selector_def without_use_def flip: set_map)

section \<open>Properties\<close>

text \<open>
  C5. The rows of a workspace are changed only by requests with its token: if no live token that the
  request presents belongs to the workspace, names it in its path and holds the scope of the route, or the
  administrator's, then the request leaves every row of the workspace, but for the time its own token was last used, as it was.
\<close>

theorem changes_need_a_token:
  assumes "db_sound db" "fresh_ids (sv_call V) db" "fresh_selector (sv_settings V) (sv_entropy V) db"
    and "\<nexists>row. presents_token U (rt_now q) (rt_header q) (ap_tokens db) row \<and> at_workspace_id row = w \<and> rt_workspace_id q = w
      \<and> (case call_scope (rt_call q) of None \<Rightarrow> True | Some s \<Rightarrow> py s \<in> set (at_scopes row) \<or> py ''admin'' \<in> set (at_scopes row))"
  shows "view w (without_use (snd (handle_request U V q db))) = view w (without_use db)"
proof -
  obtain r rows where admit: "admit U q (ap_tokens db) = (r, rows)" by (cases "admit U q (ap_tokens db)")
  let ?db = "db\<lparr>ap_tokens := rows\<rparr>"
  note used = fresh_used [of rows db, OF admit_rows [of U q "ap_tokens db", unfolded admit snd_conv]]
  show ?thesis
  proof (cases r)
    case (Inl e)
    with admit used(4) show ?thesis by (simp add: handle_request_def)
  next
    case (Inr auth)
    then have "fst (admit U q (ap_tokens db)) = Inr auth" using admit by simp
    from admit_accepts [OF this] obtain row where row: "presents_token U (rt_now q) (rt_header q) (ap_tokens db) row"
      "at_workspace_id row = rt_workspace_id q"
      "case call_scope (rt_call q) of None \<Rightarrow> True | Some s \<Rightarrow> py s \<in> set (at_scopes row) \<or> py ''admin'' \<in> set (at_scopes row)"
      "auth = context_of row" by metis
    have "at_workspace_id row \<noteq> w" using assms(4) row(1-3) by metis
    then have "ac_workspace_id auth \<noteq> w" by (simp add: row(4) context_of_def)
    then have "view w (snd (serve V auth (rt_call q) ?db)) = view w ?db"
      using serve_isolated [of ?db V auth "rt_call q"] assms(1-3) used(1-3) by (simp add: isolated_def)
    then have "view w (without_use (snd (serve V auth (rt_call q) ?db))) = view w (without_use ?db)"
      by (simp only: view_without_use)
    with admit Inr used(4) show ?thesis by (simp add: handle_request_def case_prod_beta)
  qed
qed

section \<open>A sample request\<close>

text \<open>A token of another workspace.\<close>

definition foreign_token :: api_token where
  "foreign_token = row_of (issue_api_token [9] [2] [3] (py ''rlk'')) (py ''t'') (py ''a'') (py ''n'') [py ''admin''] None"

definition sample_request :: request where
  "sample_request =
     \<lparr>rt_workspace_id = py ''b'', rt_header = py ''Bearer '' @ it_token (issue_api_token [9] [2] [3] (py ''rlk'')), rt_now = 1, rt_now' = 2,
      rt_call = CreateSnapshot (py ''tb'')\<rparr>"

theorem changes_need_a_token_witness:
  "view (py ''b'') (without_use (snd (handle_request sample_unicode (sample_serve_env ''1'') sample_request
      (sample_api_db\<lparr>ap_tokens := [foreign_token]\<rparr>)))) = view (py ''b'') (without_use (sample_api_db\<lparr>ap_tokens := [foreign_token]\<rparr>))"
proof (rule changes_need_a_token)
  show "db_sound (sample_api_db\<lparr>ap_tokens := [foreign_token]\<rparr>)"
    using sample_api_sound by (simp add: db_sound_def ids_ok_def links_ok_def)
  show "fresh_ids (sv_call (sample_serve_env ''1'')) (sample_api_db\<lparr>ap_tokens := [foreign_token]\<rparr>)"
    by (simp add: fresh_ids_def sample_serve_env_def sample_call_env_def sample_api_db_def foreign_token_def row_of_def py_def)
  show "fresh_selector (sv_settings (sample_serve_env ''1'')) (sv_entropy (sample_serve_env ''1'')) (sample_api_db\<lparr>ap_tokens := [foreign_token]\<rparr>)"
    by (simp add: fresh_selector_def sample_serve_env_def foreign_token_def row_of_def issue_api_token_def Let_def) code_simp
  show "\<nexists>row. presents_token sample_unicode (rt_now sample_request) (rt_header sample_request)
      (ap_tokens (sample_api_db\<lparr>ap_tokens := [foreign_token]\<rparr>)) row \<and> at_workspace_id row = py ''b'' \<and> rt_workspace_id sample_request = py ''b''
      \<and> (case call_scope (rt_call sample_request) of None \<Rightarrow> True | Some s \<Rightarrow> py s \<in> set (at_scopes row) \<or> py ''admin'' \<in> set (at_scopes row))"
    by (auto simp: foreign_token_def row_of_def py_def dest!: presented_row)
qed

end
