(* ===== verification/Spec2Isabelle.thy ===== *)
theory Spec2Isabelle
  imports Build_Links Build_Repeat Build_Job Requests
begin

text \<open>
  A model of RAG Knowledge Ledger (the Python package under \<open>src/src/ragledger\<close>) and the proofs of what
  makes it correct.

  The program builds a manifest of a tree of documents (discovery, parsing, governance, chunking, embedding;
  \<open>pipeline/\<close>, \<open>governance/\<close>), hashes, signs and stores it (\<open>core/\<close>), reads what a vector index
  really holds through read-only connectors (\<open>connectors/\<close>), and reconciles the two (\<open>reconcile/\<close>):
  which points are missing, orphaned, stale, exposed to the wrong principals. A server (\<open>server/\<close>) does the same for several
  workspaces: a request passes the checks of \<open>api/deps.py\<close>, a route of \<open>api/\<close> changes the tables of \<open>db/models\<close> and
  leaves an audit event, and long work is a row in the queue of \<open>jobs.py\<close> that a worker runs through \<open>handlers.py\<close>.

  \<^bold>\<open>Conventions.\<close> Python text is a list of code points (\<open>pystr\<close>, literals \<open>py ''abc''\<close>), bytes are words of
  length 8, ints are unbounded, floats are the doubles of \<open>Py_Float\<close> (rationals, with their rounding). A pydantic model or a row
  is a record, a literal type or an enum is a datatype, a dict is an association list in insertion order. Code that raises returns
  a sum: \<open>Inl\<close> an error of a datatype of its own, \<open>Inr\<close> the result; what it had changed by then (the artifact store, the
  stage cache, the work directory) is returned beside it, and what a transaction rolls back is not. A table is the list of its rows in order of creation.

  \<^bold>\<open>Python's library\<close> as the sources use it: \<open>Prelude\<close> (text, dictionaries, results, stable sorting), \<open>Py_Bytes\<close> (UTF-8, hexadecimal,
  base32, base64url, SHA-256, HMAC), \<open>Py_Float\<close>, \<open>Py_Json\<close>, \<open>Py_Regex\<close>, \<open>Py_Text\<close>, \<open>Py_Url\<close>.

  \<^bold>\<open>Core.\<close> \<open>Canonical\<close> is \<open>core/canonical.py\<close>, \<open>core/hashing.py\<close> and the ids of \<open>core/ids.py\<close> and \<open>governance/identity.py\<close>;
  \<open>Models\<close> the records of \<open>core/models.py\<close>; \<open>Manifest\<close> and \<open>Signing\<close> their JSON form, the manifest hash, the statistics, signing
  and verification; \<open>Artifacts\<close> the content-addressed store with its temporary files and write faults, which interprets the locale
  \<open>content_store\<close>. Shown: a manifest that was built is consistent with its own records and hash, a signature verifies,
  a trusted verdict means exactly an intact hash and a signature over it by a trusted key.

  \<^bold>\<open>Pipeline.\<close> \<open>Discovery\<close>, \<open>Parse_Plain\<close>, \<open>Parse_Markup\<close>, \<open>Sandbox\<close>, \<open>Acl\<close>, \<open>License\<close>, \<open>Pii\<close>, \<open>Chunk_Base\<close>,
  \<open>Chunkers\<close>, \<open>Embedding\<close>, \<open>Stage_Cache\<close> and \<open>Build\<close> follow the files of the same name (\<open>sandbox.py\<close> with its worker, \<open>build.py\<close> with every
  step of a build). The three chunkers interpret the locale \<open>chunker\<close>. \<open>Build_Links\<close> is the invariant of a build: every record of its manifest refers to records of
  the manifest, no embedding is made of a chunk that the PII policy blocks, every listed artifact can be loaded. \<open>Build_Repeat\<close> compares two builds: what
  cache and store hold at the start does not reach the manifest. \<open>Build_Sample\<close> is a concrete build. Shown as well: a parser in the sandbox answers
  as it does outside, the validator of license expressions accepts exactly the inductive grammar, discovery yields every file that is not ignored,
  a line-based chunking ends and covers the text.

  \<^bold>\<open>Connectors.\<close> \<open>Connectors\<close> is \<open>base.py\<close>, \<open>Target_Config\<close> is \<open>config.py\<close>, and \<open>Qdrant\<close>, \<open>Pgvector\<close>, \<open>Ndjson\<close> are the connectors. Shown: every
  request of the Qdrant connector reads, its scroll yields every point once; no value of a configuration reaches the text of an SQL statement; a snapshot file
  replays what was written (\<open>snapshot_replay\<close>) and one that is not intact is refused.

  \<^bold>\<open>Reconciliation.\<close> \<open>Taxonomy\<close>, \<open>Merge_Join\<close> and \<open>Matching\<close>, \<open>Report\<close>, \<open>Policy\<close>, \<open>Remediation\<close>, and \<open>Engine\<close> (the in-memory path) with
  \<open>Engine_Spill\<close> (the path over sorted runs on disk, behind the locale \<open>sort_provider\<close>, which sorting in memory interprets too).
  Shown: the two paths give the same result; matching puts every expected and observed point in exactly one place, agrees on keys and misses no pair; a
  broader ACL and a missing binding are always reported; the exit code follows the gates of the policy.

  \<^bold>\<open>Server.\<close> \<open>Jobs\<close> is \<open>jobs.py\<close>: rows, leasing, the work transaction, the loop of a worker, and the interleaving of workers and cancellations as the step
  relation \<open>queue_step\<close> with its invariant. \<open>Ssrf\<close>, \<open>Settings\<close> and \<open>Security\<close> are the files of the same name (\<open>Security\<close> with \<open>audit.py\<close> and \<open>api/deps.py\<close>).
  \<open>Scan_Job\<close>, \<open>Snapshot_Job\<close>, \<open>Reconcile_Job\<close> and \<open>Build_Job\<close> are the four handlers of \<open>handlers.py\<close>, the last with the finalizers of cancelled jobs;
  \<open>Target_Routes\<close>, \<open>Api_Access\<close>, \<open>Api_Pipeline\<close>, \<open>Api_Reconcile\<close> and \<open>Api_Manifest\<close> are the routes, over the tables of \<open>Api_Store\<close>; \<open>Api_Calls\<close> makes one
  function \<open>serve\<close> of them and says what a workspace sees of the tables (\<open>view\<close>). Shown: a route is reached exactly with a live token of the workspace
  that holds the scope; a stored target has passed the address guard; a build job ends in a build and a manifest row that the API shows; reconciling a snapshot
  finds what reconciling the target would have found; a manifest signed over the API verifies over the API; the queue is drained, and no two workers run one job at a time.

  \<^bold>\<open>Separation of workspaces.\<close> \<open>Separation\<close> states the interface as a locale (an operation answers by what its domain sees, and changes
  nothing another domain sees) and proves once that domains do not interfere in any history. \<open>Isolation\<close> and \<open>Tenancy\<close> go through the routes, \<open>Api_Sound\<close> shows that every
  call keeps ids unique and references within a workspace, \<open>Workspaces\<close> interprets the locale for \<open>serve\<close>, and \<open>Requests\<close> puts the checks of a request in front. This
  is a statement about the API. The scan job does not have the property: a version another workspace has stored is not stored again (\<open>other_workspace_suppresses\<close>
  in \<open>Scan_Job\<close>).

  \<^bold>\<open>Parameters and hypotheses.\<close> What is not Python of this repository is an argument: the Unicode database and NFC (\<open>unicode_db\<close>, \<open>platform\<close>), Ed25519 (\<open>signs_correctly\<close>:
  a signature verifies under the public half of its key), AES-GCM, zstd and the codec of a snapshot's lines (\<open>reads_back\<close>), pydantic and JSON-schema readers of documents, YAML,
  pypdf and the tokenizer of \<open>html.parser\<close>, the file system as a value, the vector database as a function of a request and its own state, name
  resolution, clocks, random bytes and generated ids. A property that needs something of them names it as a hypothesis, and its witness instantiates
  it by a concrete function. Generated ids and token selectors are assumed to be new (\<open>fresh_ids\<close>, \<open>fresh_selector\<close>), which for a selector is a matter of probability.

  \<^bold>\<open>Bounds.\<close> Recursion is structural or has a proved measure, except for two loops that need not end, which are partial functions into options: the scroll of Qdrant (\<open>scroll_loop\<close>,
  which \<open>scroll_complete\<close> shows to end over a server that pages a list) and the loop of a worker (\<open>run_pending_jobs\<close>, which \<open>run_pending_jobs_drains\<close> shows to end, because every
  lease uses up an attempt). Two functions carry fuel: the parser of \<open>Py_Json\<close> the length of its text, which bounds its nesting, and the search for the first digit of a float 400 steps, more
  than the 324 zeros a double can start with.

  \<^bold>\<open>Not modelled.\<close> The command line (\<open>cli/\<close>) with the resolution of its configuration file, the HTML and JSON renderings of \<open>reports/\<close>, the web pages (\<open>server/webui\<close>), the
  event stream (\<open>events_routes.py\<close>), problem documents, FastAPI's routing and application set-up (\<open>app.py\<close>), SQLAlchemy's declarations and the migrations: they format, wire or declare what is
  modelled here, or hand it to a framework. Of what is modelled: field types and lengths that pydantic checks, loading of key files and manifests, time stamps only responses show, the
  threads and signals of a PII timeout, the memory limit of the sandbox, and loading a parser class by its path. Transactions of the API are taken one after the other; only the queue is modelled with interleavings.
\<close>

end
